(* ===== verification/JsPrelude.thy ===== *)
theory JsPrelude
  imports Complex_Main "HOL-Library.Word" "HOL-Library.AList" "HOL-Library.Multiset"
    "HOL-Library.Code_Target_Nat"
begin

section \<open>What the JavaScript code uses of its language\<close>

text \<open>
  The values, strings and containers of the language, shared by every other theory.

  \<^item> A JavaScript string is its list of UTF-16 code units (\<open>ustr\<close>); \<open>u\<close> turns an ASCII
    literal into one.
  \<^item> \<open>js\<close> is a value of the application's \<open>DATA\<close> object: what JSON can hold, plus
    \<open>undefined\<close>. Numbers there are integers; a string may still spell a decimal fraction,
    which \<open>js_number\<close> reads as a rational (NaN is \<open>None\<close>).
  \<^item> A \<open>Map\<close> keeps its insertion order: an association list with \<open>AList.update\<close>.
  \<^item> Case conversion and canonical decomposition are written out for Latin letters (Latin-1,
    Latin Extended-A and the Vietnamese letters of Latin Extended-B and Additional), which is
    the alphabet of the program's data; other code units are left as they are. Exponent, hex
    and Infinity literals are read as NaN by \<open>js_number\<close>.
\<close>

named_theorems js_simps \<open>equations that evaluate the language layer\<close>

type_synonym ustr = "nat list"

definition u :: "string \<Rightarrow> ustr" where
  "u s = map of_char s"

subsection \<open>White space, case, accents\<close>

definition is_space :: "nat \<Rightarrow> bool" where
  "is_space c \<longleftrightarrow> (9 \<le> c \<and> c \<le> 13) \<or> c = 32 \<or> c = 160 \<or> c = 5760 \<or> (8192 \<le> c \<and> c \<le> 8202)
     \<or> c = 8232 \<or> c = 8233 \<or> c = 8239 \<or> c = 8287 \<or> c = 12288 \<or> c = 65279"

definition trim :: "ustr \<Rightarrow> ustr" where
  "trim s = rev (dropWhile is_space (rev (dropWhile is_space s)))"

definition lower_cu :: "nat \<Rightarrow> nat list" where
  "lower_cu c =
    (if c \<le> 127 then (if 65 \<le> c \<and> c \<le> 90 then [c + 32] else [c])
     else if 192 \<le> c \<and> c \<le> 222 \<and> c \<noteq> 215 then [c + 32]
     else if c = 304 then [105, 775]
     else if c = 376 then [255]
     else if (256 \<le> c \<and> c \<le> 311 \<or> 330 \<le> c \<and> c \<le> 375 \<or> c = 416 \<or> c = 418 \<or> c = 420
              \<or> 7680 \<le> c \<and> c \<le> 7829 \<or> 7840 \<le> c \<and> c \<le> 7935) \<and> even c then [c + 1]
     else if (313 \<le> c \<and> c \<le> 328 \<or> 377 \<le> c \<and> c \<le> 382 \<or> c = 431) \<and> odd c then [c + 1]
     else [c])"

definition toLowerCase :: "ustr \<Rightarrow> ustr" where
  "toLowerCase s = concat (map lower_cu s)"

definition nfd_table :: "(nat \<times> nat list) list" where
  "nfd_table = [
    (192, [65, 768]), (193, [65, 769]), (194, [65, 770]), (195, [65, 771]), (196, [65, 776]),
    (197, [65, 778]), (199, [67, 807]), (200, [69, 768]), (201, [69, 769]), (202, [69, 770]),
    (203, [69, 776]), (204, [73, 768]), (205, [73, 769]), (206, [73, 770]), (207, [73, 776]),
    (209, [78, 771]), (210, [79, 768]), (211, [79, 769]), (212, [79, 770]), (213, [79, 771]),
    (214, [79, 776]), (217, [85, 768]), (218, [85, 769]), (219, [85, 770]), (220, [85, 776]),
    (221, [89, 769]), (224, [97, 768]), (225, [97, 769]), (226, [97, 770]), (227, [97, 771]),
    (228, [97, 776]), (229, [97, 778]), (231, [99, 807]), (232, [101, 768]), (233, [101, 769]),
    (234, [101, 770]), (235, [101, 776]), (236, [105, 768]), (237, [105, 769]), (238, [105, 770]),
    (239, [105, 776]), (241, [110, 771]), (242, [111, 768]), (243, [111, 769]), (244, [111, 770]),
    (245, [111, 771]), (246, [111, 776]), (249, [117, 768]), (250, [117, 769]), (251, [117, 770]),
    (252, [117, 776]), (253, [121, 769]), (255, [121, 776]), (258, [65, 774]), (259, [97, 774]),
    (296, [73, 771]), (297, [105, 771]), (360, [85, 771]), (361, [117, 771]), (416, [79, 795]),
    (417, [111, 795]), (431, [85, 795]), (432, [117, 795]), (7840, [65, 803]), (7841, [97, 803]),
    (7842, [65, 777]), (7843, [97, 777]), (7844, [65, 770, 769]), (7845, [97, 770, 769]),
    (7846, [65, 770, 768]), (7847, [97, 770, 768]), (7848, [65, 770, 777]),
    (7849, [97, 770, 777]), (7850, [65, 770, 771]), (7851, [97, 770, 771]),
    (7852, [65, 803, 770]), (7853, [97, 803, 770]), (7854, [65, 774, 769]),
    (7855, [97, 774, 769]), (7856, [65, 774, 768]), (7857, [97, 774, 768]),
    (7858, [65, 774, 777]), (7859, [97, 774, 777]), (7860, [65, 774, 771]),
    (7861, [97, 774, 771]), (7862, [65, 803, 774]), (7863, [97, 803, 774]), (7864, [69, 803]),
    (7865, [101, 803]), (7866, [69, 777]), (7867, [101, 777]), (7868, [69, 771]),
    (7869, [101, 771]), (7870, [69, 770, 769]), (7871, [101, 770, 769]), (7872, [69, 770, 768]),
    (7873, [101, 770, 768]), (7874, [69, 770, 777]), (7875, [101, 770, 777]),
    (7876, [69, 770, 771]), (7877, [101, 770, 771]), (7878, [69, 803, 770]),
    (7879, [101, 803, 770]), (7880, [73, 777]), (7881, [105, 777]), (7882, [73, 803]),
    (7883, [105, 803]), (7884, [79, 803]), (7885, [111, 803]), (7886, [79, 777]),
    (7887, [111, 777]), (7888, [79, 770, 769]), (7889, [111, 770, 769]), (7890, [79, 770, 768]),
    (7891, [111, 770, 768]), (7892, [79, 770, 777]), (7893, [111, 770, 777]),
    (7894, [79, 770, 771]), (7895, [111, 770, 771]), (7896, [79, 803, 770]),
    (7897, [111, 803, 770]), (7898, [79, 795, 769]), (7899, [111, 795, 769]),
    (7900, [79, 795, 768]), (7901, [111, 795, 768]), (7902, [79, 795, 777]),
    (7903, [111, 795, 777]), (7904, [79, 795, 771]), (7905, [111, 795, 771]),
    (7906, [79, 795, 803]), (7907, [111, 795, 803]), (7908, [85, 803]), (7909, [117, 803]),
    (7910, [85, 777]), (7911, [117, 777]), (7912, [85, 795, 769]), (7913, [117, 795, 769]),
    (7914, [85, 795, 768]), (7915, [117, 795, 768]), (7916, [85, 795, 777]),
    (7917, [117, 795, 777]), (7918, [85, 795, 771]), (7919, [117, 795, 771]),
    (7920, [85, 795, 803]), (7921, [117, 795, 803]), (7922, [89, 768]), (7923, [121, 768]),
    (7924, [89, 803]), (7925, [121, 803]), (7926, [89, 777]), (7927, [121, 777]),
    (7928, [89, 771]), (7929, [121, 771])]"

definition nfd_cu :: "nat \<Rightarrow> nat list" where
  "nfd_cu c = (if c < 192 then [c] else case map_of nfd_table c of None \<Rightarrow> [c] | Some d \<Rightarrow> d)"

definition is_mark :: "nat \<Rightarrow> bool" where
  "is_mark c \<longleftrightarrow> 768 \<le> c \<and> c \<le> 879"

text \<open>
  \<open>s.normalize("NFD").replace(/[\u0300-\u036f]/g, "")\<close>: canonical decomposition without the
  combining marks (so the canonical order of the marks never shows).
\<close>

definition nfd_strip :: "ustr \<Rightarrow> ustr" where
  "nfd_strip s = filter (\<lambda>c. \<not> is_mark c) (concat (map nfd_cu s))"

subsection \<open>Splitting, joining, decimal numerals\<close>

fun split_on :: "(nat \<Rightarrow> bool) \<Rightarrow> ustr \<Rightarrow> ustr list" where
  "split_on P [] = [[]]"
| "split_on P (c # cs) =
     (if P c then [] # split_on P cs
      else case split_on P cs of [] \<Rightarrow> [[c]] | w # ws \<Rightarrow> (c # w) # ws)"

fun join_with :: "ustr \<Rightarrow> ustr list \<Rightarrow> ustr" where
  "join_with sep [] = []"
| "join_with sep [w] = w"
| "join_with sep (w # ws) = w @ sep @ join_with sep ws"

fun nat_str :: "nat \<Rightarrow> ustr" where
  "nat_str n = (if n < 10 then [48 + n] else nat_str (n div 10) @ [48 + n mod 10])"

declare nat_str.simps [simp del]

definition int_str :: "int \<Rightarrow> ustr" where
  "int_str i = (if i < 0 then 45 # nat_str (nat (- i)) else nat_str (nat i))"

definition is_digit :: "nat \<Rightarrow> bool" where
  "is_digit c \<longleftrightarrow> 48 \<le> c \<and> c \<le> 57"

definition digits_val :: "ustr \<Rightarrow> nat" where
  "digits_val ds = foldl (\<lambda>a c. 10 * a + (c - 48)) 0 ds"

text \<open>\<open>str.match(/\d+/)\<close>: the first run of digits.\<close>

definition first_digits :: "ustr \<Rightarrow> ustr" where
  "first_digits s = takeWhile is_digit (dropWhile (\<lambda>c. \<not> is_digit c) s)"

definition unsigned_number :: "ustr \<Rightarrow> rat option" where
  "unsigned_number s =
    (let ip = takeWhile is_digit s; r = dropWhile is_digit s
     in if r = [] then (if ip = [] then None else Some (of_nat (digits_val ip)))
        else if hd r = 46 \<and> list_all is_digit (tl r) \<and> (ip \<noteq> [] \<or> tl r \<noteq> [])
        then Some (of_nat (digits_val (ip @ tl r)) / 10 ^ length (tl r))
        else None)"

definition string_number :: "ustr \<Rightarrow> rat option" where
  "string_number str =
    (let s = trim str
     in if s = [] then Some 0
        else if hd s = 45 then map_option uminus (unsigned_number (tl s))
        else if hd s = 43 then unsigned_number (tl s)
        else unsigned_number s)"

text \<open>\<open>Math.round\<close> rounds halves up.\<close>

definition math_round :: "rat \<Rightarrow> int" where
  "math_round q = \<lfloor>q + 1 / 2\<rfloor>"

subsection \<open>Values of the data object\<close>

datatype js = JUndef | JNull | JBool bool | JNum int | JStr ustr | JArr "js list"
  | JObj "(ustr \<times> js) list"

fun nullish :: "js \<Rightarrow> bool" where
  "nullish JUndef = True"
| "nullish JNull = True"
| "nullish _ = False"

fun js_truthy :: "js \<Rightarrow> bool" where
  "js_truthy JUndef = False"
| "js_truthy JNull = False"
| "js_truthy (JBool b) = b"
| "js_truthy (JNum n) = (n \<noteq> 0)"
| "js_truthy (JStr s) = (s \<noteq> [])"
| "js_truthy (JArr _) = True"
| "js_truthy (JObj _) = True"

text \<open>\<open>a || b\<close> and \<open>a ?? b\<close>.\<close>

definition js_or :: "js \<Rightarrow> js \<Rightarrow> js" where
  "js_or a b = (if js_truthy a then a else b)"

definition js_nullor :: "js \<Rightarrow> js \<Rightarrow> js" where
  "js_nullor a b = (if nullish a then b else a)"

text \<open>\<open>String(v)\<close>.\<close>

fun js_string :: "js \<Rightarrow> ustr" where
  "js_string JUndef = u ''undefined''"
| "js_string JNull = u ''null''"
| "js_string (JBool b) = (if b then u ''true'' else u ''false'')"
| "js_string (JNum n) = int_str n"
| "js_string (JStr s) = s"
| "js_string (JArr xs) = join_with [44] (map (\<lambda>x. if nullish x then [] else js_string x) xs)"
| "js_string (JObj _) = u ''[object Object]''"

text \<open>\<open>Number(v)\<close>; \<open>None\<close> is NaN.\<close>

fun js_number :: "js \<Rightarrow> rat option" where
  "js_number JUndef = None"
| "js_number JNull = Some 0"
| "js_number (JBool b) = Some (if b then 1 else 0)"
| "js_number (JNum n) = Some (of_int n)"
| "js_number (JStr s) = string_number s"
| "js_number (JArr xs) = string_number (js_string (JArr xs))"
| "js_number (JObj _) = None"

text \<open>
  Optional property access \<open>o?.k\<close> and the tests the code makes on shapes. The properties the
  code reads are own data properties; arrays and strings have none of those names.
\<close>

fun jget :: "js \<Rightarrow> ustr \<Rightarrow> js" where
  "jget (JObj kvs) k = (case map_of kvs k of Some v \<Rightarrow> v | None \<Rightarrow> JUndef)"
| "jget _ k = JUndef"

abbreviation jprop :: "js \<Rightarrow> string \<Rightarrow> js" where
  "jprop v k \<equiv> jget v (u k)"

fun is_array :: "js \<Rightarrow> bool" where
  "is_array (JArr _) = True"
| "is_array _ = False"

fun array_of :: "js \<Rightarrow> js list" where
  "array_of (JArr xs) = xs"
| "array_of _ = []"

text \<open>\<open>v && typeof v === "object"\<close>, and \<open>Object.entries\<close> of such a value.\<close>

fun is_object :: "js \<Rightarrow> bool" where
  "is_object (JArr _) = True"
| "is_object (JObj _) = True"
| "is_object _ = False"

fun entries :: "js \<Rightarrow> (ustr \<times> js) list" where
  "entries (JObj kvs) = kvs"
| "entries (JArr xs) = zip (map nat_str [0..<length xs]) xs"
| "entries _ = []"

subsection \<open>Positions in a half day\<close>

text \<open>The free periods between consecutive elements of an increasing list of positions.\<close>

fun gaps_between :: "nat list \<Rightarrow> nat list" where
  "gaps_between (p # q # ps) = (q - p - 1) # gaps_between (q # ps)"
| "gaps_between _ = []"

subsection \<open>Generic facts\<close>

lemma split_on_not_Nil [simp]: "split_on P s \<noteq> []"
  by (cases s) (auto split: list.splits)

lemma dropWhile_hd_id: "(xs \<noteq> [] \<Longrightarrow> \<not> P (hd xs)) \<Longrightarrow> dropWhile P xs = xs"
  by (cases xs) auto

lemma trim_trim [simp]: "trim (trim s) = trim s"
proof -
  define t where "t = dropWhile is_space s"
  define r where "r = dropWhile is_space (rev t)"
  have tr: "trim s = rev r" by (simp add: trim_def t_def r_def)
  have r_id: "dropWhile is_space r = r" by (simp add: r_def)
  have "dropWhile is_space (rev r) = rev r"
  proof (rule dropWhile_hd_id)
    assume ne: "rev r \<noteq> []"
    obtain ys where "rev t = ys @ r" unfolding r_def by (metis takeWhile_dropWhile_id)
    then have t: "t = rev r @ rev ys" by (metis rev_append rev_rev_ident)
    then have "hd (rev r) = hd t" using ne by (simp add: hd_append)
    moreover have "\<not> is_space (hd t)"
      unfolding t_def by (rule hd_dropWhile) (use t ne in \<open>simp add: t_def [symmetric] dropWhile_eq_Nil_conv [symmetric] del: dropWhile_eq_Nil_conv\<close>)
    ultimately show "\<not> is_space (hd (rev r))" by simp
  qed
  then show ?thesis using r_id by (simp add: tr) (simp add: trim_def)
qed

lemma list_update_id_if: "xs ! i = x \<Longrightarrow> xs[i := x] = xs"
  by auto

lemma map_of_AList_update [simp]: "map_of (AList.update k v m) = (map_of m)(k \<mapsto> v)"
  by (simp add: update_conv')

lemma nat_str_digits: "c \<in> set (nat_str n) \<Longrightarrow> is_digit c"
proof (induction n rule: nat_str.induct)
  case (1 n)
  then show ?case
    by (subst (asm) nat_str.simps) (auto simp: is_digit_def split: if_splits)
qed

lemma digits_val_snoc: "digits_val (ds @ [d]) = 10 * digits_val ds + (d - 48)"
  by (simp add: digits_val_def)

lemma digits_val_nat_str [simp]: "digits_val (nat_str n) = n"
proof (induction n rule: nat_str.induct)
  case (1 n)
  show ?case
  proof (cases "n < 10")
    case True
    then show ?thesis by (subst nat_str.simps) (simp add: digits_val_def)
  next
    case False
    with 1 have "digits_val (nat_str (n div 10)) = n div 10" by simp
    with False show ?thesis by (subst nat_str.simps) (simp add: digits_val_snoc)
  qed
qed

lemma nat_str_inject [simp]: "nat_str m = nat_str n \<longleftrightarrow> m = n"
  by (metis digits_val_nat_str)

lemma concat_singletons: "(\<And>c. c \<in> set s \<Longrightarrow> f c = [c]) \<Longrightarrow> concat (map f s) = s"
  by (induction s) auto

lemma nat_str_ne [simp]: "nat_str n \<noteq> []"
  by (subst nat_str.simps) simp

end
