(* ===== verification/FsText.thy ===== *)
theory FsText
  imports JsPrelude
begin

section \<open>Fast seed: texts, keys and the random generator\<close>

text \<open>
  The helpers at the top of \<open>web/pages/tkb-fast-seed.js\<close>: reading values as trimmed texts and
  numbers, normalising names, the keys of slots and of occupied resources, splitting a list of
  teachers, and the generator \<open>mulberry32\<close> with the shuffle that draws from it.
\<close>

datatype session = Sang | Chieu

definition session_keys :: "session list" where
  "session_keys = [Sang, Chieu]"

definition default_days :: "ustr list" where
  "default_days = map u [''thu2'', ''thu3'', ''thu4'', ''thu5'', ''thu6'', ''thu7'']"

fun session_str :: "session \<Rightarrow> ustr" where
  "session_str Sang = u ''sang''"
| "session_str Chieu = u ''chieu''"

record class_info =
  ci_id :: ustr
  ci_name :: ustr
  ci_grade :: ustr
  ci_aliases :: "ustr list"

record assignment =
  a_key :: ustr
  a_class :: class_info
  a_subject :: ustr
  a_group :: ustr
  a_teacher :: ustr
  a_teachers :: "ustr list"
  a_teacher_aliases :: "ustr list"
  a_room :: ustr
  a_room_aliases :: "ustr list"
  a_periods :: nat
  a_limit :: nat
  a_off :: "js list"

subsection \<open>Reading values\<close>

definition text_of :: "js \<Rightarrow> ustr" where
  "text_of v = (if nullish v then [] else trim (js_string v))"

definition number_or :: "js \<Rightarrow> rat \<Rightarrow> rat" where
  "number_or v fallback = (case js_number v of Some q \<Rightarrow> q | None \<Rightarrow> fallback)"

definition normalized :: "ustr \<Rightarrow> ustr" where
  "normalized v = toLowerCase (nfd_strip (trim v))"

text \<open>\<open>.replace(/\s+/g, " ")\<close>: every run of white space becomes one space.\<close>

fun collapse_spaces :: "ustr \<Rightarrow> ustr" where
  "collapse_spaces [] = []"
| "collapse_spaces [c] = (if is_space c then [32] else [c])"
| "collapse_spaces (c # d # cs) =
     (if is_space c then (if is_space d then collapse_spaces (d # cs) else 32 # collapse_spaces (d # cs))
      else c # collapse_spaces (d # cs))"

definition resourceKey :: "ustr \<Rightarrow> ustr" where
  "resourceKey v = toLowerCase (collapse_spaces (trim v))"

definition truthy_flag :: "js \<Rightarrow> bool" where
  "truthy_flag v \<longleftrightarrow> v = JBool True \<or> v = JNum 1
     \<or> toLowerCase (text_of v) \<in> set (map u [''1'', ''true'', ''yes'', ''on''])"

definition cellSubject :: "js \<Rightarrow> ustr" where
  "cellSubject v =
     (if \<not> js_truthy v \<or> v = JStr (u ''OFF'') then []
      else case v of JStr s \<Rightarrow> trim s
      | _ \<Rightarrow> text_of (js_or (jprop v ''mon'') (js_or (jprop v ''subject'') (jprop v ''ten''))))"

definition isFixed :: "js \<Rightarrow> bool" where
  "isFixed v \<longleftrightarrow> is_object v \<and> jprop v ''fixed'' = JBool True"

definition splitAssignmentKey :: "ustr \<Rightarrow> ustr \<times> ustr" where
  "splitAssignmentKey raw =
     (let key = trim raw; l = takeWhile (\<lambda>c. c \<noteq> 124) key
      in if l \<noteq> [] \<and> l \<noteq> key then (l, drop (Suc (length l)) key) else ([], []))"

definition dayNumber :: "ustr \<Rightarrow> nat" where
  "dayNumber day =
     (let d = first_digits (trim day) in if d = [] then 0 else max 2 (min 7 (digits_val d)))"

subsection \<open>Slot keys\<close>

definition slotKey :: "ustr \<Rightarrow> session \<Rightarrow> nat \<Rightarrow> ustr" where
  "slotKey day session index = day @ [124] @ session_str session @ [124] @ nat_str index"

definition parse_session :: "ustr \<Rightarrow> session option" where
  "parse_session s = (if s = u ''am'' \<or> s = u ''sang'' then Some Sang
     else if s = u ''pm'' \<or> s = u ''chieu'' then Some Chieu else None)"

definition userOffKey :: "js \<Rightarrow> ustr" where
  "userOffKey v = (case v of JStr s \<Rightarrow> trim s | _ \<Rightarrow>
     if \<not> is_object v then [] else
     let rawDay = text_of (js_or (jprop v ''thu'') (jprop v ''day''));
         day = (if take 3 rawDay = u ''thu'' then rawDay
                else if dayNumber rawDay \<noteq> 0 then u ''thu'' @ nat_str (dayNumber rawDay) else []);
         rawSession = toLowerCase (text_of (js_or (jprop v ''buoi'') (jprop v ''session'')));
         rawIndex = js_nullor (jprop v ''ti'') (js_nullor (jprop v ''index'') (jprop v ''period''))
     in case (parse_session rawSession, js_number rawIndex) of
          (Some session, Some parsed) \<Rightarrow>
            if day = [] then []
            else let index = (if \<not> nullish (jprop v ''period'') \<and> nullish (jprop v ''ti'') \<and> nullish (jprop v ''index'')
                              then max 0 (math_round parsed - 1) else max 0 (math_round parsed))
                 in slotKey day session (nat index)
        | _ \<Rightarrow> [])"

text \<open>
  \<open>occupiedKey\<close> joins its four parts with \<open>|\<close>. The model keeps the parts apart; \<open>okey_str\<close> is the
  code's string, and \<open>okey_str_inj\<close> shows that no two keys of the model share one.
\<close>

type_synonym okey = "ustr \<times> ustr \<times> session \<times> nat"

definition occupiedKey :: "ustr \<Rightarrow> ustr \<Rightarrow> session \<Rightarrow> nat \<Rightarrow> okey" where
  "occupiedKey name day session index = (trim name, day, session, index)"

fun okey_str :: "okey \<Rightarrow> ustr" where
  "okey_str (name, day, session, index) = name @ [124] @ slotKey day session index"

subsection \<open>Teachers of a lesson\<close>

text \<open>
  \<open>splitTeacherNames\<close> turns line ends, runs of semicolons and plus signs with the spaces around them
  into commas and splits there; since every part is trimmed and empty parts are dropped, that is
  a split at each of those characters.
\<close>

definition teacher_sep :: "nat \<Rightarrow> bool" where
  "teacher_sep c \<longleftrightarrow> c = 44 \<or> c = 10 \<or> c = 59 \<or> c = 65307 \<or> c = 43 \<or> c = 65291"

fun dedup_by :: "('a \<Rightarrow> 'k) \<Rightarrow> 'k list \<Rightarrow> 'a list \<Rightarrow> 'a list" where
  "dedup_by f seen [] = []"
| "dedup_by f seen (x # xs) =
     (if f x \<in> set seen then dedup_by f seen xs else x # dedup_by f (f x # seen) xs)"

definition splitTeacherNames :: "js \<Rightarrow> ustr list" where
  "splitTeacherNames raw =
     (let parts = (case raw of JArr xs \<Rightarrow> map text_of xs
                   | _ \<Rightarrow> map trim (split_on teacher_sep (text_of raw)))
      in dedup_by resourceKey [] (filter (\<lambda>p. p \<noteq> []) parts))"

definition teachers_of :: "assignment \<Rightarrow> ustr list" where
  "teachers_of a = filter (\<lambda>t. t \<noteq> []) (if a_teachers a \<noteq> [] then a_teachers a else [a_teacher a])"

definition teacherKeysOf :: "assignment \<Rightarrow> ustr \<Rightarrow> session \<Rightarrow> nat \<Rightarrow> okey list" where
  "teacherKeysOf a day session index = map (\<lambda>n. occupiedKey n day session index) (teachers_of a)"

definition teacherBusyAt :: "okey set \<Rightarrow> assignment \<Rightarrow> ustr \<Rightarrow> session \<Rightarrow> nat \<Rightarrow> bool" where
  "teacherBusyAt busy a day session index \<longleftrightarrow>
     list_ex (\<lambda>k. k \<in> busy) (teacherKeysOf a day session index)"

subsection \<open>The generator and the shuffle\<close>

unbundle bit_operations_syntax

type_synonym rng = "32 word"

definition mulberry32 :: "int \<Rightarrow> rng" where
  "mulberry32 seed = word_of_int (if seed = 0 then 1 else seed)"

text \<open>
  One draw: the new state and the 32-bit numerator of the result, which the code divides by
  \<open>2^32\<close>. \<open>Math.imul\<close> is multiplication of words, and \<open>value ^= value + ...\<close> takes the sum
  modulo \<open>2^32\<close>. The code lets \<open>state\<close> grow as a double; it agrees with the 32-bit state as long as
  it is exact, that is for the first \<open>2^22\<close> draws of an attempt.
\<close>

definition rng_next :: "rng \<Rightarrow> nat \<times> rng" where
  "rng_next st =
     (let st' = st + 0x6D2B79F5;
          v1 = (st' XOR drop_bit 15 st') * (st' OR 1);
          v2 = v1 XOR (v1 + (v1 XOR drop_bit 7 v1) * (v1 OR 61))
      in (unat (v2 XOR drop_bit 14 v2), st'))"

definition swap_at :: "nat \<Rightarrow> nat \<Rightarrow> 'a list \<Rightarrow> 'a list" where
  "swap_at i j xs = xs[i := xs ! j, j := xs ! i]"

text \<open>\<open>Math.floor(rng() * (index + 1))\<close>: the products are below \<open>2^53\<close>, so the floor is exact.\<close>

fun shuffle_from :: "nat \<Rightarrow> 'a list \<Rightarrow> rng \<Rightarrow> 'a list \<times> rng" where
  "shuffle_from 0 xs r = (xs, r)"
| "shuffle_from (Suc i) xs r =
     (let (k, r') = rng_next r; j = k * (Suc i + 1) div 2 ^ 32
      in shuffle_from i (swap_at (Suc i) j xs) r')"

definition shuffled :: "'a list \<Rightarrow> rng \<Rightarrow> 'a list \<times> rng" where
  "shuffled items r = shuffle_from (length items - 1) items r"

subsection \<open>Facts\<close>

lemma trim_Nil [simp]: "trim [] = []"
  by (simp add: trim_def)

lemma trim_text_of [simp]: "trim (text_of v) = text_of v"
  by (simp add: text_of_def)

lemma append_sep_inject:
  assumes "c \<notin> set xs" "c \<notin> set ys"
  shows "xs @ c # as = ys @ c # bs \<longleftrightarrow> xs = ys \<and> as = bs"
  using assms
proof (induction xs arbitrary: ys)
  case Nil
  then show ?case by (cases ys) auto
next
  case (Cons x xs)
  then show ?case by (cases ys) auto
qed

lemma rev_append_sep_inject:
  assumes "c \<notin> set as" "c \<notin> set bs"
  shows "xs @ c # as = ys @ c # bs \<longleftrightarrow> xs = ys \<and> as = bs"
proof -
  have "(xs @ c # as = ys @ c # bs) \<longleftrightarrow> (rev as @ c # rev xs = rev bs @ c # rev ys)"
    by (metis (no_types, lifting) append.assoc append_Cons append_Nil rev.simps(2) rev_append rev_rev_ident)
  also have "\<dots> \<longleftrightarrow> xs = ys \<and> as = bs"
    using assms by (subst append_sep_inject) auto
  finally show ?thesis .
qed

lemma session_str_no_bar [simp]: "124 \<notin> set (session_str s)"
  by (cases s) (simp_all add: u_def)

lemma session_str_inject [simp]: "session_str s = session_str t \<longleftrightarrow> s = t"
  by (cases s; cases t) (simp_all add: u_def)

lemma nat_str_no_bar [simp]: "124 \<notin> set (nat_str n)"
  using nat_str_digits [of 124 n] by (auto simp: is_digit_def)

lemma slotKey_inject [simp]:
  "slotKey d s i = slotKey d' s' i' \<longleftrightarrow> d = d' \<and> s = s' \<and> i = i'"
proof -
  have "slotKey d s i = slotKey d' s' i' \<longleftrightarrow>
    (d @ 124 # session_str s) @ 124 # nat_str i = (d' @ 124 # session_str s') @ 124 # nat_str i'"
    by (simp add: slotKey_def)
  also have "\<dots> \<longleftrightarrow> d @ 124 # session_str s = d' @ 124 # session_str s' \<and> nat_str i = nat_str i'"
    by (rule rev_append_sep_inject) simp_all
  also have "\<dots> \<longleftrightarrow> d = d' \<and> s = s' \<and> i = i'"
    by (simp add: rev_append_sep_inject)
  finally show ?thesis .
qed

lemma okey_str_inj:
  assumes "124 \<notin> set d" "124 \<notin> set d'"
  shows "okey_str (n, d, s, i) = okey_str (n', d', s', i') \<longleftrightarrow> (n, d, s, i) = (n', d', s', i')"
proof -
  have "okey_str (n, d, s, i) = okey_str (n', d', s', i') \<longleftrightarrow>
    ((n @ 124 # d) @ 124 # session_str s) @ 124 # nat_str i
      = ((n' @ 124 # d') @ 124 # session_str s') @ 124 # nat_str i'"
    by (simp add: slotKey_def)
  also have "\<dots> \<longleftrightarrow> n @ 124 # d = n' @ 124 # d' \<and> s = s' \<and> i = i'"
    by (simp add: rev_append_sep_inject del: append_assoc append_Cons)
  also have "\<dots> \<longleftrightarrow> (n, d, s, i) = (n', d', s', i')"
    using assms by (simp add: rev_append_sep_inject)
  finally show ?thesis .
qed

lemma set_dedup_by: "set (dedup_by f seen xs) \<subseteq> set xs"
  by (induction f seen xs rule: dedup_by.induct) auto

lemma distinct_dedup_by: "distinct (map f (dedup_by f seen xs)) \<and> f ` set (dedup_by f seen xs) \<inter> set seen = {}"
  by (induction f seen xs rule: dedup_by.induct) auto

lemma splitTeacherNames_ne: "t \<in> set (splitTeacherNames raw) \<Longrightarrow> t \<noteq> []"
  unfolding splitTeacherNames_def Let_def using set_dedup_by by fastforce

lemma mset_swap_at: "i < length xs \<Longrightarrow> j < length xs \<Longrightarrow> mset (swap_at i j xs) = mset xs"
  by (simp add: swap_at_def mset_swap)

lemma length_swap_at [simp]: "length (swap_at i j xs) = length xs"
  by (simp add: swap_at_def)

lemma rng_next_bound: "fst (rng_next r) < 2 ^ 32"
proof -
  have "unat (w :: 32 word) < 2 ^ 32" for w using unsigned_less [of w] by simp
  then show ?thesis unfolding rng_next_def Let_def fst_conv .
qed

lemma draw_index: "k < 2 ^ 32 \<Longrightarrow> k * n div 2 ^ 32 < n \<or> n = (0::nat)"
  by (metis div_less_iff_less_mult mult.commute mult_less_mono1 neq0_conv zero_less_numeral zero_less_power)

lemma mset_shuffle_from: "i < length xs \<or> i = 0 \<Longrightarrow> mset (fst (shuffle_from i xs r)) = mset xs"
proof (induction i arbitrary: xs r)
  case 0
  then show ?case by simp
next
  case (Suc i)
  obtain k r' where kr: "rng_next r = (k, r')" by fastforce
  then have "k < 2 ^ 32" using rng_next_bound [of r] by simp
  then have j: "k * (Suc i + 1) div 2 ^ 32 < Suc i + 1" using draw_index [of k "Suc i + 1"] by auto
  let ?ys = "swap_at (Suc i) (k * (Suc i + 1) div 2 ^ 32) xs"
  have len: "Suc i < length xs" using Suc.prems by simp
  then have "mset (fst (shuffle_from i ?ys r')) = mset ?ys" by (intro Suc.IH) simp
  also have "\<dots> = mset xs" using len j by (intro mset_swap_at) linarith+
  finally show ?case by (simp add: kr Let_def del: mult_Suc_right)
qed

lemma mset_shuffled [simp]: "mset (fst (shuffled xs r)) = mset xs"
proof (cases xs)
  case Nil
  then show ?thesis by (simp add: shuffled_def)
next
  case (Cons x ys)
  then show ?thesis unfolding shuffled_def by (intro mset_shuffle_from) simp
qed

lemma set_shuffled [simp]: "set (fst (shuffled xs r)) = set xs"
  by (metis mset_shuffled set_mset_mset)

lemma length_shuffled [simp]: "length (fst (shuffled xs r)) = length xs"
  by (metis mset_shuffled size_mset)

lemma shuffled_memD: "shuffled xs r = (ys, r') \<Longrightarrow> x \<in> set ys \<longleftrightarrow> x \<in> set xs"
  by (metis fst_conv set_shuffled)

end
