(* ===== verification/FsModel.thy ===== *)
theory FsModel
  imports FsText
begin

section \<open>Fast seed: the model built from the school's data\<close>

text \<open>
  \<open>buildModel\<close> of \<open>tkb-fast-seed.js\<close> and its helpers: the alias tables of classes, subjects,
  teachers and rooms, the look-up of a class and a subject in a matrix of the data, the rules of
  fixed free periods, and the list of assignments with their demand and session limit.
\<close>

subsection \<open>Subjects\<close>

record subject_index =
  sj_aliases :: "(ustr \<times> ustr) list"
  sj_canonical :: "(ustr \<times> ustr) list"
  sj_by_subject :: "(ustr \<times> ustr list) list"

definition set_add :: "'a \<Rightarrow> 'a list \<Rightarrow> 'a list" where
  "set_add x xs = (if x \<in> set xs then xs else xs @ [x])"

definition add_alias :: "ustr \<Rightarrow> ustr \<Rightarrow> js \<Rightarrow> subject_index \<Rightarrow> subject_index" where
  "add_alias subject grp alias g =
     (let key = normalized (text_of alias)
      in if key = [] then g
         else g\<lparr>sj_aliases := AList.update key grp (sj_aliases g),
                sj_canonical := AList.update key subject (sj_canonical g),
                sj_by_subject := AList.update subject
                  (set_add (text_of alias) (case map_of (sj_by_subject g) subject of Some s \<Rightarrow> s | None \<Rightarrow> []))
                  (sj_by_subject g)\<rparr>)"

definition add_subject_row :: "js \<Rightarrow> subject_index \<Rightarrow> subject_index" where
  "add_subject_row row g =
     (let subject = text_of (js_or (jprop row ''ten'') (js_or (jprop row ''ma'')
                      (js_or (jprop row ''ma2'') (jprop row ''id''))));
          grp = (if text_of (jprop row ''id'') \<noteq> [] then text_of (jprop row ''id'') else normalized subject)
      in if subject = [] then g
         else let g1 = (case map_of (sj_by_subject g) subject of
                          None \<Rightarrow> g\<lparr>sj_by_subject := AList.update subject [] (sj_by_subject g)\<rparr>
                        | Some _ \<Rightarrow> g)
              in fold (add_alias subject grp)
                   [jprop row ''id'', jprop row ''ma'', jprop row ''ma2'', jprop row ''ten''] g1)"

definition subjectGroups :: "js \<Rightarrow> subject_index" where
  "subjectGroups data = fold add_subject_row (array_of (jprop data ''monhoc''))
     \<lparr>sj_aliases = [], sj_canonical = [], sj_by_subject = []\<rparr>"

definition sj_group :: "subject_index \<Rightarrow> ustr \<Rightarrow> ustr" where
  "sj_group g subject = (case map_of (sj_aliases g) (normalized subject) of
     Some v \<Rightarrow> (if v = [] then u ''raw:'' @ normalized subject else v)
   | None \<Rightarrow> u ''raw:'' @ normalized subject)"

definition sj_subject :: "subject_index \<Rightarrow> ustr \<Rightarrow> ustr" where
  "sj_subject g subject = (case map_of (sj_canonical g) (normalized subject) of
     Some v \<Rightarrow> (if v = [] then trim subject else v) | None \<Rightarrow> trim subject)"

definition sj_subject_aliases :: "subject_index \<Rightarrow> ustr \<Rightarrow> ustr list" where
  "sj_subject_aliases g subject =
     (let canonicalSubject = sj_subject g subject;
          stored = (case map_of (sj_by_subject g) canonicalSubject of Some s \<Rightarrow> s | None \<Rightarrow> [])
      in filter (\<lambda>a. a \<noteq> []) (map trim (stored @ [trim subject, canonicalSubject])))"

definition gradeNumber :: "ustr \<Rightarrow> nat" where
  "gradeNumber v = (let d = first_digits (trim v) in if d = [] then 0 else digits_val d)"

subsection \<open>Matrices keyed by class and subject\<close>

definition pair_key :: "ustr \<Rightarrow> ustr \<Rightarrow> ustr" where
  "pair_key a b = a @ [124] @ b"

definition matrixLookup :: "(ustr \<times> js) list \<Rightarrow> class_info \<Rightarrow> ustr list \<Rightarrow> js" where
  "matrixLookup matrix c subjectAliases =
     (let keys = [pair_key ca sa. ca \<leftarrow> ci_aliases c, sa \<leftarrow> subjectAliases]
      in case List.find (\<lambda>k. map_of matrix k \<noteq> None) keys of
           Some k \<Rightarrow> the (map_of matrix k)
         | None \<Rightarrow>
             let normalizedMatrix = rev (map (\<lambda>(k, v). (normalized k, v)) matrix)
             in case List.find (\<lambda>k. case map_of normalizedMatrix (normalized k) of
                                      None \<Rightarrow> False | Some v \<Rightarrow> v \<noteq> JUndef) keys of
                  Some k \<Rightarrow> the (map_of normalizedMatrix (normalized k))
                | None \<Rightarrow> JUndef)"

definition matrix_of :: "js \<Rightarrow> (ustr \<times> js) list" where
  "matrix_of v = (if is_object v then entries v else [])"

subsection \<open>Rules of fixed free periods\<close>

definition offRulesFor :: "string \<Rightarrow> ustr list \<Rightarrow> js \<Rightarrow> js list" where
  "offRulesFor scope aliases constraints =
     (let root = jget (jprop constraints ''fixedOff'') (u scope)
      in if \<not> is_object root then []
         else concat (map (\<lambda>alias.
                (let direct = jget root alias in if is_object direct then [direct] else [])
                @ map snd (filter (\<lambda>(k, v). normalized k = normalized alias \<and> is_object v) (entries root)))
              (filter (\<lambda>a. a \<noteq> []) (map trim aliases))))"

definition ruleBlocks :: "js list \<Rightarrow> ustr \<Rightarrow> bool" where
  "ruleBlocks rules key \<longleftrightarrow> list_ex (\<lambda>r. truthy_flag (jget r key)) rules"

subsection \<open>Alias tables\<close>

definition row_class_id :: "js \<Rightarrow> ustr" where
  "row_class_id row = text_of (js_or (jprop row ''id'') (js_or (jprop row ''ma'') (jprop row ''ten'')))"

definition class_item :: "js \<Rightarrow> class_info" where
  "class_item row =
     \<lparr>ci_id = row_class_id row,
      ci_name = text_of (js_or (jprop row ''ten'') (js_or (jprop row ''ten2'') (JStr (row_class_id row)))),
      ci_grade = text_of (js_or (jprop row ''khoi'') (jprop row ''grade'')),
      ci_aliases = filter (\<lambda>a. a \<noteq> []) (map text_of
        [jprop row ''id'', jprop row ''ma'', jprop row ''ten'', jprop row ''ten2''])\<rparr>"

type_synonym class_table = "(ustr \<times> class_info) list"

definition add_class_row :: "js \<Rightarrow> class_table \<times> class_table \<Rightarrow> class_table \<times> class_table" where
  "add_class_row row t =
     (if row_class_id row = [] then t
      else let keys = filter (\<lambda>k. k \<noteq> []) (map (\<lambda>a. normalized (text_of a))
                 [JStr (row_class_id row), jprop row ''ten'', jprop row ''ten2'', jprop row ''ma''])
           in (AList.update (row_class_id row) (class_item row) (fst t),
               fold (\<lambda>k. AList.update k (class_item row)) keys (snd t)))"

definition class_rows :: "js \<Rightarrow> class_table \<times> class_table" where
  "class_rows data = fold add_class_row (array_of (jprop data ''lop'')) ([], [])"

record alias_info =
  al_canonical :: ustr
  al_aliases :: "ustr list"

definition teacher_names :: "js \<Rightarrow> ustr list" where
  "teacher_names row = filter (\<lambda>a. a \<noteq> [])
     (map text_of [jprop row ''id'', jprop row ''ma'', jprop row ''magv'', jprop row ''magv2'', jprop row ''ten'']
      @ [trim (text_of (jprop row ''hodem'') @ [32] @ text_of (jprop row ''ten''))])"

definition canonical_teacher :: "js \<Rightarrow> ustr" where
  "canonical_teacher row = text_of (js_or (jprop row ''magv'') (js_or (jprop row ''ma'')
     (js_or (jprop row ''code'') (js_or (jprop row ''id'') (jprop row ''ten'')))))"

text \<open>
  The first pass enters every alias of a teacher; the second one, which runs last, enters the
  codes again, so that a code always wins over another teacher's given name.
\<close>

definition teacher_alias_table :: "js \<Rightarrow> (ustr \<times> alias_info) list" where
  "teacher_alias_table data =
     (let rows = array_of (jprop data ''giaovien'');
          enter = (\<lambda>row c alias m. AList.update (resourceKey alias)
                     \<lparr>al_canonical = (if c \<noteq> [] then c else alias), al_aliases = teacher_names row\<rparr> m);
          pass1 = fold (\<lambda>row. fold (enter row (canonical_teacher row)) (teacher_names row)) rows []
      in fold (\<lambda>row m. if canonical_teacher row = [] then m
                else fold (enter row (canonical_teacher row)) (filter (\<lambda>a. a \<noteq> [])
                  (map text_of [jprop row ''id'', jprop row ''ma'', jprop row ''magv'', jprop row ''magv2''])) m)
           rows pass1)"

definition room_alias_table :: "js \<Rightarrow> (ustr \<times> alias_info) list" where
  "room_alias_table data = fold (\<lambda>row m.
     let names = filter (\<lambda>a. a \<noteq> []) (map text_of [jprop row ''id'', jprop row ''ma'', jprop row ''ten'']);
         c = text_of (js_or (jprop row ''ma'') (js_or (jprop row ''id'') (jprop row ''ten'')))
     in fold (\<lambda>alias. AList.update (resourceKey alias)
                \<lparr>al_canonical = (if c \<noteq> [] then c else alias), al_aliases = names\<rparr>) names m)
     (array_of (jprop data ''phong'')) []"

subsection \<open>Assignments\<close>

text \<open>The members of a (possibly joint) teacher entry: canonical names and all their aliases.\<close>

fun collect_members :: "(ustr \<times> alias_info) list \<Rightarrow> ustr list \<Rightarrow> ustr list \<Rightarrow> ustr list \<times> ustr list" where
  "collect_members table seen [] = ([], [])"
| "collect_members table seen (raw # raws) =
     (let info = map_of table (resourceKey raw);
          canonical = (case info of Some i \<Rightarrow> (if al_canonical i = [] then trim raw else trim (al_canonical i))
                                  | None \<Rightarrow> trim raw);
          key = resourceKey canonical
      in if canonical = [] \<or> key \<in> set seen then collect_members table seen raws
         else let (ms, als) = collect_members table (key # seen) raws
              in (canonical # ms,
                  (case info of Some i \<Rightarrow> al_aliases i | None \<Rightarrow> [canonical]) @ als))"

record fs_model =
  m_data :: js
  m_classes :: "class_info list"
  m_assignments :: "assignment list"
  m_by_group :: "(ustr \<times> assignment) list"
  m_subjects :: subject_index
  m_days :: "ustr list"
  m_expected :: nat

definition find_standard :: "js \<Rightarrow> subject_index \<Rightarrow> class_info \<Rightarrow> ustr \<Rightarrow> js" where
  "find_standard data sj c subject =
     (case List.find (\<lambda>row.
        gradeNumber (text_of (js_or (jprop row ''khoi'') (jprop row ''grade''))) = gradeNumber (ci_grade c)
        \<and> sj_group sj (text_of (js_or (jprop row ''ten'') (js_or (jprop row ''mon'')
             (js_or (jprop row ''ma'') (jprop row ''id''))))) = sj_group sj subject)
      (array_of (jprop data ''mon'')) of Some row \<Rightarrow> row | None \<Rightarrow> JUndef)"

definition make_assignment ::
  "js \<Rightarrow> subject_index \<Rightarrow> (ustr \<times> alias_info) list \<Rightarrow> (ustr \<times> alias_info) list \<Rightarrow>
   class_info \<Rightarrow> ustr \<Rightarrow> ustr \<Rightarrow> assignment option" where
  "make_assignment data sj teachers rooms c subject rawTeacherText =
     (let constraints = js_or (jprop data ''tkbConstraints'') (JObj []);
          subjectAliases = sj_subject_aliases sj subject;
          standard = find_standard data sj c subject;
          periods = max 0 (math_round (number_or
            (matrixLookup (matrix_of (jprop data ''pccmTietMatrix'')) c subjectAliases)
            (number_or (js_or (jprop standard ''sotiet'') (jprop standard ''periods'')) 0)));
          (members, memberAliases) = collect_members teachers [] (splitTeacherNames (JStr rawTeacherText));
          teacher = join_with (u '', '') members;
          rawRoom = text_of (matrixLookup (matrix_of (jprop data ''pccmRoomMatrix'')) c subjectAliases);
          roomInfo = map_of rooms (resourceKey rawRoom);
          room = (case roomInfo of Some i \<Rightarrow> (if al_canonical i = [] then trim rawRoom else trim (al_canonical i))
                                 | None \<Rightarrow> trim rawRoom);
          roomAliases = (case roomInfo of Some i \<Rightarrow> al_aliases i
                                        | None \<Rightarrow> filter (\<lambda>a. a \<noteq> []) [room]);
          limit = max 1 (math_round (number_or
            (matrixLookup (matrix_of (jprop data ''pccmGioihanMatrix'')) c subjectAliases)
            (number_or (js_or (jprop standard ''gioihan'') (jprop standard ''limit'')) 1)))
      in if periods \<le> 0 \<or> teacher = [] then None
         else Some \<lparr>a_key = ci_id c @ [124] @ sj_group sj subject @ [124] @ teacher,
                    a_class = c, a_subject = sj_subject sj subject, a_group = sj_group sj subject,
                    a_teacher = teacher, a_teachers = members, a_teacher_aliases = memberAliases,
                    a_room = room, a_room_aliases = roomAliases,
                    a_periods = nat periods, a_limit = nat limit,
                    a_off = offRulesFor ''teacher'' memberAliases constraints
                      @ offRulesFor ''room'' roomAliases constraints
                      @ offRulesFor ''subject'' [sj_subject sj subject] constraints\<rparr>)"

definition add_assignment ::
  "js \<Rightarrow> subject_index \<Rightarrow> (ustr \<times> alias_info) list \<Rightarrow> (ustr \<times> alias_info) list \<Rightarrow>
   (ustr \<times> class_info) list \<Rightarrow> ustr \<times> js \<Rightarrow> assignment list \<times> (ustr \<times> assignment) list \<Rightarrow>
   assignment list \<times> (ustr \<times> assignment) list" where
  "add_assignment data sj teachers rooms classAliases entry acc =
     (let (key, rawTeacher) = entry;
          (classAlias, subject) = splitAssignmentKey key
      in case map_of classAliases (normalized classAlias) of
           None \<Rightarrow> acc
         | Some c \<Rightarrow>
             if subject = [] \<or> text_of rawTeacher = [] then acc
             else (case make_assignment data sj teachers rooms c subject (text_of rawTeacher) of
                     None \<Rightarrow> acc
                   | Some a \<Rightarrow>
                       if a_key a \<in> a_key ` set (fst acc) then acc
                       else (fst acc @ [a],
                             AList.update (pair_key (ci_id c) (a_group a)) a (snd acc))))"

definition is_day_name :: "ustr \<Rightarrow> bool" where
  "is_day_name d \<longleftrightarrow> toLowerCase (take 3 d) = u ''thu'' \<and> 3 < length d \<and> list_all is_digit (drop 3 d)"

definition model_days :: "js \<Rightarrow> ustr list" where
  "model_days data = sort_key dayNumber
     (fold (\<lambda>schedule ds. if is_object schedule
              then fold (\<lambda>d ds. if is_day_name d then set_add d ds else ds) (map fst (entries schedule)) ds
              else ds)
        (map snd (entries (js_or (jprop data ''tkb'') (JObj [])))) default_days)"

definition buildModel :: "js \<Rightarrow> fs_model" where
  "buildModel data =
     (let (byId, classAliases) = class_rows data;
          sj = subjectGroups data;
          (assignments, byGroup) =
            fold (add_assignment data sj (teacher_alias_table data) (room_alias_table data) classAliases)
              (matrix_of (jprop data ''pccmMatrix'')) ([], [])
      in \<lparr>m_data = data, m_classes = map snd byId, m_assignments = assignments,
          m_by_group = byGroup, m_subjects = sj, m_days = model_days data,
          m_expected = sum_list (map a_periods assignments)\<rparr>)"

end
