(* ===== verification/FsState.thy ===== *)
theory FsState
  imports FsModel "HOL-Library.List_Lexorder"
begin

section \<open>Fast seed: the base state and the quality of a candidate\<close>

text \<open>
  \<open>createBaseState\<close>, \<open>teacherMetric\<close>, \<open>cloneState\<close>, \<open>candidateQuality\<close> and \<open>betterCandidate\<close>
  of \<open>tkb-fast-seed.js\<close>. A lesson object is named by its position in the list of lessons; the
  cell that shows it carries that position, so two cells are the same object when they carry the
  same one. \<open>Map\<close>s that are only read by key and default to 0 are functions.
\<close>

record lesson =
  l_class :: ustr
  l_cname :: ustr
  l_grade :: ustr
  l_subject :: ustr
  l_teacher :: ustr
  l_room :: ustr
  l_day :: nat
  l_session :: session
  l_period :: nat
  l_fixed :: bool

datatype cell = Free | Blocked bool | Occupied nat assignment bool

type_synonym grid = "ustr \<Rightarrow> session \<Rightarrow> cell list"

datatype invalid_reason = FixedDemandOverflow ustr | FixedTeacherCollision okey
  | FixedRoomCollision okey | FixedUnknownAssignment ustr ustr

record base_state =
  b_grids :: "(ustr \<times> grid) list"
  b_lessons :: "lesson list"
  b_counts :: "ustr \<Rightarrow> nat"
  b_tbusy :: "okey set"
  b_rbusy :: "okey set"
  b_tslots :: "ustr \<times> ustr \<times> session \<Rightarrow> bool list option"
  b_invalid :: "invalid_reason list"

definition empty_base :: base_state where
  "empty_base = \<lparr>b_grids = [], b_lessons = [], b_counts = (\<lambda>_. 0), b_tbusy = {}, b_rbusy = {},
     b_tslots = (\<lambda>_. None), b_invalid = []\<rparr>"

definition lesson_of :: "assignment \<Rightarrow> ustr \<Rightarrow> session \<Rightarrow> nat \<Rightarrow> bool \<Rightarrow> lesson" where
  "lesson_of a day session index fixed =
     \<lparr>l_class = ci_id (a_class a), l_cname = ci_name (a_class a), l_grade = ci_grade (a_class a),
      l_subject = a_subject a, l_teacher = a_teacher a, l_room = a_room a,
      l_day = dayNumber day, l_session = session, l_period = index + 1, l_fixed = fixed\<rparr>"

text \<open>\<open>while(slots.length < n) slots.push(false)\<close>\<close>

definition pad_slots :: "nat \<Rightarrow> bool list \<Rightarrow> bool list" where
  "pad_slots n slots = slots @ replicate (n - length slots) False"

definition room_keys :: "assignment \<Rightarrow> ustr \<Rightarrow> session \<Rightarrow> nat \<Rightarrow> okey set" where
  "room_keys a day session index =
     (if a_room a = [] then {} else {occupiedKey (a_room a) day session index})"

definition markLesson ::
  "assignment \<Rightarrow> ustr \<Rightarrow> session \<Rightarrow> nat \<Rightarrow> base_state \<Rightarrow> nat option \<times> base_state" where
  "markLesson a day session index b =
     (if b_counts b (a_key a) \<ge> a_periods a
      then (None, b\<lparr>b_invalid := b_invalid b @ [FixedDemandOverflow (a_key a)]\<rparr>)
      else case List.find (\<lambda>k. k \<in> b_tbusy b) (teacherKeysOf a day session index) of
        Some k \<Rightarrow> (None, b\<lparr>b_invalid := b_invalid b @ [FixedTeacherCollision k]\<rparr>)
      | None \<Rightarrow>
          if a_room a \<noteq> [] \<and> occupiedKey (a_room a) day session index \<in> b_rbusy b
          then (None, b\<lparr>b_invalid := b_invalid b
                  @ [FixedRoomCollision (occupiedKey (a_room a) day session index)]\<rparr>)
          else
            let slots = (case b_tslots b (a_teacher a, day, session) of
                           Some s \<Rightarrow> s | None \<Rightarrow> replicate (max 5 (index + 1)) False)
            in (Some (length (b_lessons b)),
                b\<lparr>b_lessons := b_lessons b @ [lesson_of a day session index True],
                  b_tbusy := b_tbusy b \<union> set (teacherKeysOf a day session index),
                  b_rbusy := b_rbusy b \<union> room_keys a day session index,
                  b_tslots := (b_tslots b)((a_teacher a, day, session) \<mapsto>
                                 (pad_slots (index + 1) slots)[index := True]),
                  b_counts := (b_counts b)(a_key a := b_counts b (a_key a) + 1)\<rparr>))"

definition base_cell ::
  "fs_model \<Rightarrow> class_info \<Rightarrow> js list \<Rightarrow> ustr list \<Rightarrow> js list \<Rightarrow> ustr \<Rightarrow> session \<Rightarrow> nat \<Rightarrow>
   base_state \<Rightarrow> cell \<times> base_state" where
  "base_cell m c classRules userOff raw day session index b =
     (let key = slotKey day session index;
          v = (if index < length raw then raw ! index else JUndef)
      in if isFixed v then
           (case map_of (m_by_group m) (pair_key (ci_id c) (sj_group (m_subjects m) (cellSubject v))) of
              None \<Rightarrow> (Blocked True, b\<lparr>b_invalid := b_invalid b @ [FixedUnknownAssignment (ci_id c) (cellSubject v)]\<rparr>)
            | Some a \<Rightarrow> (case markLesson a day session index b of
                 (Some lid, b') \<Rightarrow> (Occupied lid a True, b')
               | (None, b') \<Rightarrow> (Blocked True, b')))
         else if key \<in> set userOff \<or> ruleBlocks classRules key then (Blocked False, b)
         else (Free, b))"

fun base_cells ::
  "(nat \<Rightarrow> base_state \<Rightarrow> cell \<times> base_state) \<Rightarrow> nat list \<Rightarrow> base_state \<Rightarrow> cell list \<times> base_state" where
  "base_cells f [] b = ([], b)"
| "base_cells f (i # is) b =
     (let (c, b1) = f i b; (cs, b2) = base_cells f is b1 in (c # cs, b2))"

definition user_off_keys :: "js \<Rightarrow> ustr list" where
  "user_off_keys off = (case off of
      JArr vs \<Rightarrow> filter (\<lambda>k. k \<noteq> []) (map userOffKey vs)
    | _ \<Rightarrow> map fst (filter (\<lambda>(k, v). truthy_flag v) (entries off)))"

definition data_of_class :: "js \<Rightarrow> string \<Rightarrow> class_info \<Rightarrow> js" where
  "data_of_class data field c = js_or (jget (jprop data field) (ci_id c)) (jget (jprop data field) (ci_name c))"

definition base_grid_step ::
  "fs_model \<Rightarrow> class_info \<Rightarrow> ustr \<times> session \<Rightarrow> grid \<times> base_state \<Rightarrow> grid \<times> base_state" where
  "base_grid_step m c ds gb =
     (let (day, session) = ds; (g, b) = gb;
          rules = offRulesFor ''class'' [ci_id c, ci_name c] (js_or (jprop (m_data m) ''tkbConstraints'') (JObj []));
          raw = array_of (jget (jget (data_of_class (m_data m) ''tkb'' c) day) (session_str session));
          (cells, b') = base_cells (base_cell m c rules (user_off_keys (data_of_class (m_data m) ''tkbUserOff'' c))
                           raw day session) [0..<max 5 (length raw)] b
      in (g(day := (g day)(session := cells)), b'))"

definition base_class_step :: "fs_model \<Rightarrow> class_info \<Rightarrow> base_state \<Rightarrow> base_state" where
  "base_class_step m c b =
     (let (g, b') = fold (base_grid_step m c) [(day, s). day \<leftarrow> m_days m, s \<leftarrow> session_keys]
                      (\<lambda>_ _. [], b)
      in b'\<lparr>b_grids := AList.update (ci_id c) g (b_grids b')\<rparr>)"

definition createBaseState :: "fs_model \<Rightarrow> base_state" where
  "createBaseState m = fold (base_class_step m) (m_classes m) empty_base"

subsection \<open>Gaps of a teacher's half day\<close>

record metric =
  mt_count :: nat
  mt_gaps :: nat
  mt_gap2 :: nat

definition positions_of :: "bool list \<Rightarrow> nat list" where
  "positions_of slots = filter (\<lambda>i. slots ! i) [0..<length slots]"

definition teacherMetric :: "bool list \<Rightarrow> metric" where
  "teacherMetric slots =
     (let positions = positions_of slots; gs = gaps_between positions
      in \<lparr>mt_count = length positions, mt_gaps = sum_list gs, mt_gap2 = length (filter (\<lambda>g. g \<ge> 2) gs)\<rparr>)"

subsection \<open>Quality and comparison of candidates\<close>

record quality =
  q_sessions :: nat
  q_singleton :: nat
  q_gap1 :: nat
  q_gap2 :: nat
  q_total :: nat

definition teacher_sessions :: "lesson list \<Rightarrow> ((ustr \<times> nat \<times> session) \<times> nat list) list" where
  "teacher_sessions lessons = fold (\<lambda>l m.
     let key = (l_teacher l, l_day l, l_session l)
     in AList.update key ((case map_of m key of Some ps \<Rightarrow> ps | None \<Rightarrow> []) @ [l_period l]) m) lessons []"

definition candidateQuality :: "lesson list \<Rightarrow> quality" where
  "candidateQuality lessons =
     (let sessions = map snd (teacher_sessions lessons);
          ordered = map (\<lambda>ps. sort (remdups ps)) sessions;
          gs = concat (map gaps_between ordered)
      in \<lparr>q_sessions = length sessions,
          q_singleton = length (filter (\<lambda>ps. length ps = 1) ordered),
          q_gap1 = length (filter (\<lambda>g. g = 1) gs),
          q_gap2 = length (filter (\<lambda>g. g \<ge> 2) gs),
          q_total = sum_list gs\<rparr>)"

record unassigned =
  un_key :: ustr
  un_class :: ustr
  un_cname :: ustr
  un_subject :: ustr
  un_teacher :: ustr
  un_room :: ustr
  un_periods :: nat

record candidate =
  cd_expected :: nat
  cd_lessons :: "lesson list"
  cd_unassigned :: "unassigned list"
  cd_quality :: quality
  cd_seed :: int

text \<open>The keys the comparison goes through, in the code's order.\<close>

definition quality_keys :: "quality \<Rightarrow> nat list" where
  "quality_keys q = [q_singleton q, q_gap2 q, q_sessions q, q_gap1 q, q_total q]"

fun first_difference :: "nat list \<Rightarrow> nat list \<Rightarrow> bool" where
  "first_difference (x # xs) (y # ys) = (if x \<noteq> y then x < y else first_difference xs ys)"
| "first_difference _ _ = False"

definition missing_of :: "candidate \<Rightarrow> nat" where
  "missing_of c = cd_expected c - length (cd_lessons c)"

definition betterCandidate :: "candidate \<Rightarrow> candidate option \<Rightarrow> bool" where
  "betterCandidate left right = (case right of None \<Rightarrow> True
     | Some r \<Rightarrow> if missing_of left \<noteq> missing_of r then missing_of left < missing_of r
                else first_difference (quality_keys (cd_quality left)) (quality_keys (cd_quality r)))"

end
