(* ===== verification/FsAttempt.thy ===== *)
theory FsAttempt
  imports FsState
begin

section \<open>Fast seed: one attempt\<close>

text \<open>
  \<open>buildAttempt\<close> of \<open>tkb-fast-seed.js\<close>: the greedy construction and the repair by moving blockers
  aside. The attempt's closures share the grids, the busy sets, the counters and the generator;
  here they take and return them in one record.

  \<^item> Scores are integers in units of \<open>2^-32\<close>, the resolution of the generator: all the sums the
    code makes are exact doubles.
  \<^item> \<open>Date.now()\<close> is the next value of a clock \<open>now\<close>, any function of the number of readings.
  \<^item> \<open>tie\<close> is the order \<open>Array.sort\<close> gives with the comparator that breaks ties by a random draw; the
    language leaves that order to the implementation.
\<close>

type_synonym count_key = "ustr \<times> ustr \<times> session \<times> ustr"
type_synonym place = "ustr \<times> session \<times> nat"

record att =
  t_grids :: "(ustr \<times> grid) list"
  t_lessons :: "lesson list"
  t_tbusy :: "okey set"
  t_rbusy :: "okey set"
  t_tslots :: "ustr \<times> ustr \<times> session \<Rightarrow> bool list option"
  t_counts :: "count_key \<Rightarrow> nat"
  t_rng :: rng
  t_ticks :: nat

record fs_env =
  now :: "nat \<Rightarrow> int"
  tie :: "(nat \<times> nat) list \<Rightarrow> rng \<Rightarrow> (nat \<times> nat) list \<times> rng"

text \<open>
  \<open>thu${lesson.day}\<close>: the day of a lesson is read back from its number.
\<close>

definition initial_counts :: "lesson list \<Rightarrow> count_key \<Rightarrow> nat" where
  "initial_counts lessons k = length (filter (\<lambda>l.
     (l_class l, u ''thu'' @ nat_str (l_day l), l_session l, normalized (l_subject l)) = k) lessons)"

definition cloneState :: "base_state \<Rightarrow> rng \<Rightarrow> nat \<Rightarrow> att" where
  "cloneState b r ticks =
     \<lparr>t_grids = b_grids b, t_lessons = b_lessons b, t_tbusy = b_tbusy b, t_rbusy = b_rbusy b,
      t_tslots = b_tslots b, t_counts = initial_counts (b_lessons b), t_rng = r, t_ticks = ticks\<rparr>"

definition draw :: "att \<Rightarrow> nat \<times> att" where
  "draw st = (let (k, r) = rng_next (t_rng st) in (k, st\<lparr>t_rng := r\<rparr>))"

definition shuffle_st :: "'a list \<Rightarrow> att \<Rightarrow> 'a list \<times> att" where
  "shuffle_st xs st = (let (ys, r) = shuffled xs (t_rng st) in (ys, st\<lparr>t_rng := r\<rparr>))"

definition before_deadline :: "fs_env \<Rightarrow> rat \<Rightarrow> att \<Rightarrow> bool \<times> att" where
  "before_deadline e deadline st =
     (of_int (now e (t_ticks st)) < deadline, st\<lparr>t_ticks := Suc (t_ticks st)\<rparr>)"

subsection \<open>Cells and resources\<close>

definition assignmentBlocked :: "assignment \<Rightarrow> ustr \<Rightarrow> session \<Rightarrow> nat \<Rightarrow> bool" where
  "assignmentBlocked a day session index \<longleftrightarrow> ruleBlocks (a_off a) (slotKey day session index)"

definition class_cells :: "att \<Rightarrow> ustr \<Rightarrow> ustr \<Rightarrow> session \<Rightarrow> cell list" where
  "class_cells st cid day session =
     (case map_of (t_grids st) cid of Some g \<Rightarrow> g day session | None \<Rightarrow> [])"

definition cells_for :: "att \<Rightarrow> assignment \<Rightarrow> ustr \<Rightarrow> session \<Rightarrow> cell list" where
  "cells_for st a day session = class_cells st (ci_id (a_class a)) day session"

definition teacherSlots :: "assignment \<Rightarrow> ustr \<Rightarrow> session \<Rightarrow> nat \<Rightarrow> att \<Rightarrow> bool list \<times> att" where
  "teacherSlots a day session len st =
     (let key = (a_teacher a, day, session);
          slots = pad_slots len (case t_tslots st key of Some s \<Rightarrow> s | None \<Rightarrow> replicate len False)
      in (slots, st\<lparr>t_tslots := (t_tslots st)(key \<mapsto> slots)\<rparr>))"

definition subjectSessionKey :: "assignment \<Rightarrow> ustr \<Rightarrow> session \<Rightarrow> count_key" where
  "subjectSessionKey a day session = (ci_id (a_class a), day, session, normalized (a_subject a))"

definition markOccupied :: "assignment \<Rightarrow> place \<Rightarrow> bool \<Rightarrow> att \<Rightarrow> att" where
  "markOccupied a p occupied st =
     (let (day, session, index) = p;
          ks = set (teacherKeysOf a day session index);
          st1 = st\<lparr>t_tbusy := (if occupied then t_tbusy st \<union> ks else t_tbusy st - ks)\<rparr>;
          st2 = st1\<lparr>t_rbusy := (if occupied then t_rbusy st1 \<union> room_keys a day session index
                                 else t_rbusy st1 - room_keys a day session index)\<rparr>;
          (slots, st3) = teacherSlots a day session (length (cells_for st2 a day session)) st2
      in st3\<lparr>t_tslots := (t_tslots st3)((a_teacher a, day, session) \<mapsto> slots[index := occupied])\<rparr>)"

definition updateSubjectCount :: "assignment \<Rightarrow> ustr \<Rightarrow> session \<Rightarrow> int \<Rightarrow> att \<Rightarrow> att" where
  "updateSubjectCount a day session delta st =
     (let key = subjectSessionKey a day session
      in st\<lparr>t_counts := (t_counts st)(key := nat (max 0 (int (t_counts st key) + delta)))\<rparr>)"

definition canPlaceAt :: "assignment \<Rightarrow> place \<Rightarrow> bool \<Rightarrow> att \<Rightarrow> bool" where
  "canPlaceAt a p ignoreResources st =
     (let (day, session, index) = p; cells = cells_for st a day session
      in if index \<ge> length cells \<or> cells ! index \<noteq> Free then False
         else if assignmentBlocked a day session index then False
         else if t_counts st (subjectSessionKey a day session) \<ge> a_limit a then False
         else if ignoreResources then True
         else if teacherBusyAt (t_tbusy st) a day session index then False
         else if a_room a \<noteq> [] \<and> occupiedKey (a_room a) day session index \<in> t_rbusy st then False
         else True)"

definition set_cell :: "ustr \<Rightarrow> place \<Rightarrow> cell \<Rightarrow> att \<Rightarrow> att" where
  "set_cell cid p c st =
     (let (day, session, index) = p
      in case map_of (t_grids st) cid of None \<Rightarrow> st
         | Some g \<Rightarrow> st\<lparr>t_grids := AList.update cid (g(day := (g day)(session := (g day session)[index := c]))) (t_grids st)\<rparr>)"

definition attachCell :: "nat \<Rightarrow> assignment \<Rightarrow> bool \<Rightarrow> place \<Rightarrow> att \<Rightarrow> att" where
  "attachCell lid a fixed p st =
     (let (day, session, index) = p;
          st1 = set_cell (ci_id (a_class a)) p (Occupied lid a fixed) st;
          st2 = st1\<lparr>t_lessons := (t_lessons st1)[lid := (t_lessons st1 ! lid)
                   \<lparr>l_day := dayNumber day, l_session := session, l_period := index + 1\<rparr>]\<rparr>
      in updateSubjectCount a day session 1 (markOccupied a p True st2))"

text \<open>A reference to a cell: the cell's three parts and where it was found.\<close>

record cell_ref =
  r_lid :: nat
  r_assignment :: assignment
  r_fixed :: bool
  r_class :: ustr
  r_place :: place

definition detachCell :: "cell_ref \<Rightarrow> att \<Rightarrow> bool \<times> att" where
  "detachCell ref st =
     (let a = r_assignment ref; (day, session, index) = r_place ref;
          cells = cells_for st a day session
      in if index < length cells \<and> (case cells ! index of Occupied lid _ _ \<Rightarrow> lid = r_lid ref | _ \<Rightarrow> False)
         then (True, updateSubjectCount a day session (- 1)
                 (markOccupied a (r_place ref) False (set_cell (ci_id (a_class a)) (r_place ref) Free st)))
         else (False, st))"

definition placeNewLesson :: "assignment \<Rightarrow> place \<Rightarrow> att \<Rightarrow> bool \<times> att" where
  "placeNewLesson a p st =
     (if \<not> canPlaceAt a p False st then (False, st)
      else let (day, session, index) = p; lid = length (t_lessons st);
               st1 = st\<lparr>t_lessons := t_lessons st @ [lesson_of a day session index False]\<rparr>
           in (True, attachCell lid a False p st1))"

definition hits :: "assignment \<Rightarrow> assignment \<Rightarrow> bool" where
  "hits a b \<longleftrightarrow>
     (let mine = (if a_teachers a \<noteq> [] then a_teachers a else [a_teacher a]);
          theirs = (if a_teachers b \<noteq> [] then a_teachers b else [a_teacher b])
      in list_ex (\<lambda>n. n \<noteq> [] \<and> n \<in> set theirs) mine \<or> (a_room a \<noteq> [] \<and> a_room b = a_room a))"

fun blockers_in :: "assignment \<Rightarrow> place \<Rightarrow> nat list \<Rightarrow> (ustr \<times> grid) list \<Rightarrow> cell_ref list" where
  "blockers_in a p seen [] = []"
| "blockers_in a p seen ((cid, g) # gs) =
     (let (day, session, index) = p; cells = g day session
      in if index < length cells then
           (case cells ! index of
              Occupied lid b fixed \<Rightarrow>
                if lid \<in> set seen \<or> \<not> hits a b then blockers_in a p seen gs
                else \<lparr>r_lid = lid, r_assignment = b, r_fixed = fixed, r_class = cid, r_place = p\<rparr>
                       # blockers_in a p (lid # seen) gs
            | _ \<Rightarrow> blockers_in a p seen gs)
         else blockers_in a p seen gs)"

definition blockersAt :: "assignment \<Rightarrow> place \<Rightarrow> att \<Rightarrow> cell_ref list" where
  "blockersAt a p st = blockers_in a p [] (t_grids st)"

subsection \<open>The shuffled loop nest over days, half days and periods\<close>

fun scan_indexes :: "(nat \<Rightarrow> 'a \<times> att \<Rightarrow> 'a \<times> att) \<Rightarrow> nat list \<Rightarrow> 'a \<times> att \<Rightarrow> 'a \<times> att" where
  "scan_indexes body [] acc = acc"
| "scan_indexes body (i # is) acc = scan_indexes body is (body i acc)"

fun scan_sessions ::
  "(session \<Rightarrow> att \<Rightarrow> bool) \<Rightarrow> (session \<Rightarrow> att \<Rightarrow> nat) \<Rightarrow> (session \<Rightarrow> nat \<Rightarrow> 'a \<times> att \<Rightarrow> 'a \<times> att) \<Rightarrow>
   session list \<Rightarrow> 'a \<times> att \<Rightarrow> 'a \<times> att" where
  "scan_sessions ok len body [] acc = acc"
| "scan_sessions ok len body (s # ss) (x, st) =
     (if ok s st then
        let (idx, st1) = shuffle_st [0..<len s st] st
        in scan_sessions ok len body ss (scan_indexes (body s) idx (x, st1))
      else scan_sessions ok len body ss (x, st))"

fun scan_days ::
  "(ustr \<Rightarrow> session \<Rightarrow> att \<Rightarrow> bool) \<Rightarrow> assignment \<Rightarrow> (place \<Rightarrow> 'a \<times> att \<Rightarrow> 'a \<times> att) \<Rightarrow>
   ustr list \<Rightarrow> 'a \<times> att \<Rightarrow> 'a \<times> att" where
  "scan_days ok a body [] acc = acc"
| "scan_days ok a body (d # ds) (x, st) =
     (let (ss, st1) = shuffle_st session_keys st
      in scan_days ok a body ds
           (scan_sessions (ok d) (\<lambda>s st. length (cells_for st a d s)) (\<lambda>s i. body (d, s, i)) ss (x, st1)))"

definition scan_slots ::
  "(ustr \<Rightarrow> session \<Rightarrow> att \<Rightarrow> bool) \<Rightarrow> assignment \<Rightarrow> (place \<Rightarrow> 'a \<times> att \<Rightarrow> 'a \<times> att) \<Rightarrow>
   fs_model \<Rightarrow> 'a \<Rightarrow> att \<Rightarrow> 'a \<times> att" where
  "scan_slots ok a body m x st = (let (ds, st1) = shuffle_st (m_days m) st in scan_days ok a body ds (x, st1))"

definition unit32 :: int where
  "unit32 = 2 ^ 32"

subsection \<open>Moving a blocker aside\<close>

definition move_candidate ::
  "cell_ref \<Rightarrow> (ustr \<times> place) \<Rightarrow> place \<Rightarrow> (place \<times> int) list \<times> att \<Rightarrow> (place \<times> int) list \<times> att" where
  "move_candidate ref avoid p acc =
     (let (cands, st) = acc; a = r_assignment ref; (day, session, index) = p
      in if p = r_place ref then acc
         else if ci_id (a_class a) = fst avoid \<and> p = snd avoid then acc
         else if \<not> canPlaceAt a p False st then acc
         else let (slots, st1) = teacherSlots a day session (length (cells_for st a day session)) st;
                  before = teacherMetric slots; after = teacherMetric (slots[index := True]);
                  (k, st2) = draw st1;
                  score = unit32 * ((if mt_count before > 0 then 200000 else - 100000)
                            - int (mt_gap2 after) * 500000 - int (mt_gaps after) * 80000) + int k * 10000
              in (cands @ [(p, score)], st2))"

definition best_first :: "('a \<times> int) list \<Rightarrow> ('a \<times> int) list" where
  "best_first cands = sort_key (\<lambda>c. - snd c) cands"

record undo =
  ud_ref :: cell_ref
  ud_dest :: place

definition moveBlockerAside ::
  "fs_model \<Rightarrow> cell_ref \<Rightarrow> (ustr \<times> place) \<Rightarrow> att \<Rightarrow> undo option \<times> att" where
  "moveBlockerAside m ref avoid st =
     (if r_fixed ref then (None, st)
      else case detachCell ref st of
        (False, st1) \<Rightarrow> (None, st1)
      | (True, st1) \<Rightarrow>
          let a = r_assignment ref;
              (cands, st2) = scan_slots (\<lambda>_ _ _. True) a (move_candidate ref avoid) m [] st1
          in case best_first cands of
               [] \<Rightarrow> (None, attachCell (r_lid ref) a False (r_place ref) st2)
             | (p, _) # _ \<Rightarrow> (Some \<lparr>ud_ref = ref, ud_dest = p\<rparr>, attachCell (r_lid ref) a False p st2))"

definition undoMove :: "undo \<Rightarrow> att \<Rightarrow> att" where
  "undoMove ud st =
     (let ref = ud_ref ud;
          (_, st1) = detachCell (ref\<lparr>r_class := ci_id (a_class (r_assignment ref)), r_place := ud_dest ud\<rparr>) st
      in attachCell (r_lid ref) (r_assignment ref) False (r_place ref) st1)"

text \<open>The blockers of a target are moved one by one, until one cannot be.\<close>

fun move_all :: "fs_model \<Rightarrow> (ustr \<times> place) \<Rightarrow> cell_ref list \<Rightarrow> undo list \<Rightarrow> att \<Rightarrow> bool \<times> undo list \<times> att" where
  "move_all m target [] undos st = (True, undos, st)"
| "move_all m target (ref # refs) undos st =
     (case moveBlockerAside m ref target st of
        (None, st1) \<Rightarrow> (False, undos, st1)
      | (Some ud, st1) \<Rightarrow> move_all m target refs (undos @ [ud]) st1)"

definition repair_target ::
  "assignment \<Rightarrow> place \<Rightarrow> ((place \<times> cell_ref list) \<times> int) list \<times> att \<Rightarrow>
   ((place \<times> cell_ref list) \<times> int) list \<times> att" where
  "repair_target a p acc =
     (let (targets, st) = acc
      in if \<not> canPlaceAt a p True st then acc
         else let blockers = blockersAt a p st
              in if length blockers > 2 \<or> list_ex r_fixed blockers then acc
                 else let (k, st1) = draw st;
                          score = (if blockers \<noteq> [] then - int (length blockers) * 1000000 else 2000000) * unit32
                                    + int k * 30000
                      in (targets @ [((p, blockers), score)], st1))"

fun try_targets ::
  "fs_model \<Rightarrow> assignment \<Rightarrow> ((place \<times> cell_ref list) \<times> int) list \<Rightarrow> att \<Rightarrow> bool \<times> att" where
  "try_targets m a [] st = (False, st)"
| "try_targets m a (((p, blockers), _) # ts) st =
     (let (moved, undos, st1) = move_all m (ci_id (a_class a), p) blockers [] st;
          (done, st2) = (if moved then placeNewLesson a p st1 else (False, st1))
      in if done then (True, st2)
         else try_targets m a ts (fold undoMove (rev undos) st2))"

definition tryRepairOne :: "fs_model \<Rightarrow> assignment \<Rightarrow> att \<Rightarrow> bool \<times> att" where
  "tryRepairOne m a st =
     (let (targets, st1) = scan_slots (\<lambda>_ _ _. True) a (repair_target a) m [] st
      in try_targets m a (take 36 (best_first targets)) st1)"

subsection \<open>The order of the assignments\<close>

definition open_slot :: "att \<Rightarrow> assignment \<Rightarrow> ustr \<Rightarrow> session \<Rightarrow> nat \<Rightarrow> bool" where
  "open_slot st a day session index \<longleftrightarrow>
     \<not> assignmentBlocked a day session index \<and> \<not> teacherBusyAt (t_tbusy st) a day session index"

definition slots_of_class :: "fs_model \<Rightarrow> att \<Rightarrow> assignment \<Rightarrow> place list" where
  "slots_of_class m st a =
     [(day, s, i). day \<leftarrow> m_days m, s \<leftarrow> session_keys, i \<leftarrow> [0..<length (cells_for st a day s)]]"

definition estimateAvailability :: "fs_model \<Rightarrow> att \<Rightarrow> assignment \<Rightarrow> nat" where
  "estimateAvailability m st a = length (filter (\<lambda>(day, s, i).
      cells_for st a day s ! i = Free \<and> open_slot st a day s i
      \<and> (a_room a = [] \<or> occupiedKey (a_room a) day s i \<notin> t_rbusy st)) (slots_of_class m st a))"

definition remaining_periods :: "base_state \<Rightarrow> assignment \<Rightarrow> nat" where
  "remaining_periods b a = a_periods a - b_counts b (a_key a)"

definition teacher_remaining :: "fs_model \<Rightarrow> base_state \<Rightarrow> ustr \<Rightarrow> nat" where
  "teacher_remaining m b t = sum_list (map (remaining_periods b)
     (filter (\<lambda>a. a_teacher a = t) (m_assignments m)))"

definition teacher_available :: "fs_model \<Rightarrow> att \<Rightarrow> ustr \<Rightarrow> nat" where
  "teacher_available m st t = card (set (concat (map (\<lambda>a.
       filter (\<lambda>(day, s, i). open_slot st a day s i) (slots_of_class m st a))
     (filter (\<lambda>a. a_teacher a = t) (m_assignments m)))))"

fun sort_keys :: "fs_model \<Rightarrow> base_state \<Rightarrow> nat \<Rightarrow> assignment list \<Rightarrow> att \<Rightarrow> (int list \<times> assignment) list \<times> att" where
  "sort_keys m b strategy [] st = ([], st)"
| "sort_keys m b strategy (a # as) st =
     (let availability = int (estimateAvailability m st a);
          slack = availability - int (remaining_periods b a);
          teacherSlack = int (teacher_available m st (a_teacher a)) - int (teacher_remaining m b (a_teacher a));
          (k, st1) = draw st;
          (rest, st2) = sort_keys m b strategy as st1
      in (([if strategy = 0 then teacherSlack else 0, slack, availability,
            if strategy = 1 then teacherSlack else 0, - int (a_periods a), int k], a) # rest, st2))"

definition orderedAssignments :: "fs_model \<Rightarrow> base_state \<Rightarrow> int \<Rightarrow> att \<Rightarrow> assignment list \<times> att" where
  "orderedAssignments m b seed st =
     (let (ks, st1) = sort_keys m b (nat (\<bar>seed\<bar> mod 4)) (m_assignments m) st
      in (map snd (sort_key fst ks), st1))"

subsection \<open>Greedy placement\<close>

definition has_lesson :: "cell list \<Rightarrow> nat \<Rightarrow> bool" where
  "has_lesson cells i \<longleftrightarrow> i < length cells \<and> (case cells ! i of Occupied _ _ _ \<Rightarrow> True | _ \<Rightarrow> False)"

definition place_candidate ::
  "assignment \<Rightarrow> place \<Rightarrow> (place \<times> int) option \<times> att \<Rightarrow> (place \<times> int) option \<times> att" where
  "place_candidate a p acc =
     (let (best, st) = acc; (day, session, index) = p; cells = cells_for st a day session;
          classLoad = length (filter (has_lesson cells) [0..<length cells]);
          subjectLoad = t_counts st (subjectSessionKey a day session)
      in if index \<ge> length cells \<or> cells ! index \<noteq> Free then acc
         else if assignmentBlocked a day session index then acc
         else if teacherBusyAt (t_tbusy st) a day session index then acc
         else if a_room a \<noteq> [] \<and> occupiedKey (a_room a) day session index \<in> t_rbusy st then acc
         else let (slots, st1) = teacherSlots a day session (length cells) st;
                  before = teacherMetric slots; after = teacherMetric (slots[index := True]);
                  neighbor = (index > 0 \<and> has_lesson cells (index - 1)) \<or> has_lesson cells (index + 1);
                  (k, st2) = draw st1;
                  score = unit32 *
                     ((if mt_count before = 1 then 2600000 else if mt_count before > 1 then 900000 else - 1100000)
                      + (if mt_count after \<ge> 2 \<and> mt_gaps after = 0 then 600000 else 0)
                      - (int (mt_gap2 after) * 1600000 + int (mt_gaps after) * 260000)
                      + (if classLoad > 0 then 220000 else - 350000)
                      + (if neighbor then 120000 else 0)
                      + (if subjectLoad > 0 then 35000 else 0)
                      - int index * 300) + int k * 30000
              in (if (case best of None \<Rightarrow> True | Some (_, bs) \<Rightarrow> score > bs) then Some (p, score) else best, st2))"

definition find_best :: "fs_model \<Rightarrow> assignment \<Rightarrow> att \<Rightarrow> (place \<times> int) option \<times> att" where
  "find_best m a st = scan_slots (\<lambda>day s st. t_counts st (subjectSessionKey a day s) < a_limit a)
     a (place_candidate a) m None st"

fun place_periods :: "fs_env \<Rightarrow> rat \<Rightarrow> fs_model \<Rightarrow> assignment \<Rightarrow> nat \<Rightarrow> att \<Rightarrow> nat \<times> att" where
  "place_periods e deadline m a 0 st = (0, st)"
| "place_periods e deadline m a (Suc n) st =
     (let (go, st1) = before_deadline e deadline st
      in if \<not> go then (Suc n, st1)
         else case find_best m a st1 of
                (None, st2) \<Rightarrow> (Suc n, st2)
              | (Some (p, _), st2) \<Rightarrow> place_periods e deadline m a n (snd (placeNewLesson a p st2)))"

definition unassigned_of :: "assignment \<Rightarrow> nat \<Rightarrow> unassigned" where
  "unassigned_of a n =
     \<lparr>un_key = a_key a, un_class = ci_id (a_class a), un_cname = ci_name (a_class a), un_subject = a_subject a,
      un_teacher = a_teacher a, un_room = a_room a, un_periods = n\<rparr>"

fun place_assignments ::
  "fs_env \<Rightarrow> rat \<Rightarrow> fs_model \<Rightarrow> base_state \<Rightarrow> assignment list \<Rightarrow> att \<Rightarrow> unassigned list \<times> att" where
  "place_assignments e deadline m b [] st = ([], st)"
| "place_assignments e deadline m b (a # as) st =
     (let (left, st1) = place_periods e deadline m a (remaining_periods b a) st;
          (us, st2) = place_assignments e deadline m b as st1
      in (if left > 0 then unassigned_of a left # us else us, st2))"

subsection \<open>Repair rounds\<close>

text \<open>The periods of one pending item: the new number of missing periods and of repairs.\<close>

fun repair_item :: "fs_env \<Rightarrow> rat \<Rightarrow> fs_model \<Rightarrow> assignment \<Rightarrow> nat \<Rightarrow> nat \<Rightarrow> att \<Rightarrow> nat \<times> nat \<times> att" where
  "repair_item e deadline m a 0 repaired st = (0, repaired, st)"
| "repair_item e deadline m a (Suc n) repaired st =
     (let (go, st1) = before_deadline e deadline st
      in if \<not> go then (Suc n, repaired, st1)
         else case tryRepairOne m a st1 of
                (False, st2) \<Rightarrow> (Suc n, repaired, st2)
              | (True, st2) \<Rightarrow> repair_item e deadline m a n (Suc repaired) st2)"

fun repair_pending ::
  "fs_env \<Rightarrow> rat \<Rightarrow> fs_model \<Rightarrow> (nat \<times> nat) list \<Rightarrow> unassigned list \<Rightarrow> nat \<Rightarrow> att \<Rightarrow>
   unassigned list \<times> nat \<times> att" where
  "repair_pending e deadline m [] us repaired st = (us, repaired, st)"
| "repair_pending e deadline m ((j, _) # js) us repaired st =
     (case List.find (\<lambda>a. a_key a = un_key (us ! j)) (m_assignments m) of
        None \<Rightarrow> repair_pending e deadline m js us repaired st
      | Some a \<Rightarrow>
          let (n, rep, st1) = repair_item e deadline m a (un_periods (us ! j)) repaired st
          in repair_pending e deadline m js (us[j := (us ! j)\<lparr>un_periods := n\<rparr>]) rep st1)"

definition pending_items :: "fs_env \<Rightarrow> unassigned list \<Rightarrow> att \<Rightarrow> (nat \<times> nat) list \<times> att" where
  "pending_items e us st =
     (let (order, st1) = shuffle_st [0..<length us] st;
          items = filter (\<lambda>(j, n). n > 0) (map (\<lambda>j. (j, un_periods (us ! j))) order);
          (sorted_items, r) = tie e items (t_rng st1)
      in (sorted_items, st1\<lparr>t_rng := r\<rparr>))"

fun repair_rounds ::
  "fs_env \<Rightarrow> rat \<Rightarrow> fs_model \<Rightarrow> nat \<Rightarrow> unassigned list \<Rightarrow> att \<Rightarrow> unassigned list \<times> att" where
  "repair_rounds e deadline m 0 us st = (us, st)"
| "repair_rounds e deadline m (Suc n) us st =
     (let (go, st1) = before_deadline e deadline st
      in if \<not> go then (us, st1)
         else let (items, st2) = pending_items e us st1;
                  (us', repaired, st3) = repair_pending e deadline m items us 0 st2
              in if repaired = 0 then (us', st3) else repair_rounds e deadline m n us' st3)"

definition buildAttempt ::
  "fs_env \<Rightarrow> fs_model \<Rightarrow> base_state \<Rightarrow> int \<Rightarrow> rat \<Rightarrow> nat \<Rightarrow> candidate \<times> att" where
  "buildAttempt e m b seed deadline ticks =
     (let st0 = cloneState b (mulberry32 seed) ticks;
          (order, st1) = orderedAssignments m b seed st0;
          (us, st2) = place_assignments e deadline m b order st1;
          (us', st3) = repair_rounds e deadline m 3 us st2
      in (\<lparr>cd_expected = m_expected m,
           cd_lessons = map (\<lambda>l. l\<lparr>l_fixed := False\<rparr>) (t_lessons st3),
           cd_unassigned = filter (\<lambda>x. un_periods x > 0) us',
           cd_quality = candidateQuality (t_lessons st3), cd_seed = seed\<rparr>, st3))"

subsection \<open>\<open>generate\<close>\<close>

record fs_result =
  g_ok :: bool
  g_expected :: nat
  g_scheduled :: nat
  g_unassigned :: nat
  g_lessons :: "lesson list"
  g_unassigned_list :: "unassigned list"
  g_quality :: quality
  g_seed :: int
  g_attempts :: nat
  g_complete :: bool
  g_invalid :: "invalid_reason list"

definition zero_quality :: quality where
  "zero_quality = \<lparr>q_sessions = 0, q_singleton = 0, q_gap1 = 0, q_gap2 = 0, q_total = 0\<rparr>"

definition clamp :: "int \<Rightarrow> int \<Rightarrow> int \<Rightarrow> int" where
  "clamp lo hi x = max lo (min hi x)"

definition perfect :: "candidate \<Rightarrow> bool" where
  "perfect c \<longleftrightarrow> length (cd_lessons c) \<ge> cd_expected c \<and> q_singleton (cd_quality c) = 0 \<and> q_gap2 (cd_quality c) = 0"

text \<open>The attempts still allowed, the number made, the best candidate and the clock readings.\<close>

fun run_attempts ::
  "fs_env \<Rightarrow> fs_model \<Rightarrow> base_state \<Rightarrow> int \<Rightarrow> rat \<Rightarrow> nat \<Rightarrow> nat \<Rightarrow> candidate option \<Rightarrow> nat \<Rightarrow>
   nat \<times> candidate option" where
  "run_attempts e m b seed deadline 0 made best ticks = (made, best)"
| "run_attempts e m b seed deadline (Suc n) made best ticks =
     (if \<not> of_int (now e ticks) < deadline then (made, best)
      else let (c, st) = buildAttempt e m b (seed + int made * 104729) deadline (Suc ticks);
               best' = (if betterCandidate c best then Some c else best)
           in if (case best' of Some k \<Rightarrow> perfect k | None \<Rightarrow> False) then (Suc made, best')
              else run_attempts e m b seed deadline n (Suc made) best' (t_ticks st))"

definition school :: "js \<Rightarrow> js" where
  "school data = (if js_truthy data then data else JObj [])"

definition generate :: "fs_env \<Rightarrow> js \<Rightarrow> js \<Rightarrow> fs_result" where
  "generate e data options =
     (let started = now e 0;
          maxMs = max 100 (min 10000 (number_or (jprop options ''maxMs'') 2500));
          attempts = clamp 1 24 (math_round (number_or (jprop options ''attempts'') 8));
          seed = max 1 (math_round (number_or (jprop options ''seed'') (of_int (now e 1 mod 2 ^ 31))));
          deadline = of_int started + maxMs;
          m = buildModel (school data);
          b = createBaseState m
      in if b_invalid b \<noteq> [] then
           \<lparr>g_ok = False, g_expected = m_expected m, g_scheduled = 0, g_unassigned = m_expected m,
            g_lessons = [], g_unassigned_list = [], g_quality = zero_quality, g_seed = seed,
            g_attempts = 0, g_complete = False, g_invalid = take 20 (b_invalid b)\<rparr>
         else
           let (made, best) = run_attempts e m b seed deadline (nat attempts) 0 None 2;
               (ok, lessons, us, q, sd) = (case best of
                   Some c \<Rightarrow> (True, cd_lessons c, cd_unassigned c, cd_quality c, cd_seed c)
                 | None \<Rightarrow> (False, [], [], zero_quality, seed));
               unassigned = m_expected m - length lessons
           in \<lparr>g_ok = ok, g_expected = m_expected m, g_scheduled = length lessons, g_unassigned = unassigned,
               g_lessons = lessons, g_unassigned_list = us, g_quality = q, g_seed = sd,
               g_attempts = made, g_complete = (m_expected m > 0 \<and> unassigned = 0), g_invalid = []\<rparr>)"

end
