(* ===== verification/FsSafe.thy ===== *)
theory FsSafe
  imports FsAttempt
begin

section \<open>Fast seed: the invariant of an attempt\<close>

text \<open>
  What the code keeps between its grids, busy sets, counters and lessons. The ghost list \<open>L\<close> gives
  for every lesson its assignment and its place; \<open>F\<close> is the set of lessons that are for the moment
  taken out of the grid; the first \<open>n0\<close> lessons are the pinned ones. Cells and lessons determine each
  other (\<open>fs_cells\<close>), so a lesson has exactly one cell and a cell shows one lesson.
\<close>

named_theorems fs_frame \<open>what an operation leaves alone\<close>

type_synonym owners = "(assignment \<times> place) list"

definition skey :: "assignment \<times> place \<Rightarrow> count_key" where
  "skey x = subjectSessionKey (fst x) (fst (snd x)) (fst (snd (snd x)))"

definition tkeys :: "assignment \<times> place \<Rightarrow> okey set" where
  "tkeys x = set (teacherKeysOf (fst x) (fst (snd x)) (fst (snd (snd x))) (snd (snd (snd x))))"

definition rkeys :: "assignment \<times> place \<Rightarrow> okey set" where
  "rkeys x = room_keys (fst x) (fst (snd x)) (fst (snd (snd x))) (snd (snd (snd x)))"

definition lesson_at :: "assignment \<times> place \<Rightarrow> bool \<Rightarrow> lesson" where
  "lesson_at x f = lesson_of (fst x) (fst (snd x)) (fst (snd (snd x))) (snd (snd (snd x))) f"

definition blocked_at :: "assignment \<times> place \<Rightarrow> bool" where
  "blocked_at x = assignmentBlocked (fst x) (fst (snd x)) (fst (snd (snd x))) (snd (snd (snd x)))"

lemmas at_simps = skey_def tkeys_def rkeys_def lesson_at_def blocked_at_def

definition cell_is :: "att \<Rightarrow> ustr \<Rightarrow> place \<Rightarrow> cell \<Rightarrow> bool" where
  "cell_is st cid p c \<longleftrightarrow> (case p of (d, s, i) \<Rightarrow>
     i < length (class_cells st cid d s) \<and> class_cells st cid d s ! i = c)"

definition cnt :: "owners \<Rightarrow> nat set \<Rightarrow> count_key \<Rightarrow> nat" where
  "cnt L F k = card {l. l < length L \<and> l \<notin> F \<and> skey (L ! l) = k}"

text \<open>The largest session limit among the assignments of a class and a subject.\<close>

definition subject_limit :: "assignment set \<Rightarrow> count_key \<Rightarrow> nat" where
  "subject_limit A k = Max (insert 0 (a_limit ` {a \<in> A. ci_id (a_class a) = fst k
      \<and> normalized (a_subject a) = snd (snd (snd k))}))"

definition fs_cells :: "owners \<Rightarrow> nat set \<Rightarrow> nat \<Rightarrow> att \<Rightarrow> bool" where
  "fs_cells L F n0 st \<longleftrightarrow> (\<forall>cid p l a f. cell_is st cid p (Occupied l a f) \<longleftrightarrow>
     l < length L \<and> l \<notin> F \<and> L ! l = (a, p) \<and> cid = ci_id (a_class a) \<and> f = (l < n0))"

definition fs_lessons :: "owners \<Rightarrow> nat set \<Rightarrow> nat \<Rightarrow> att \<Rightarrow> bool" where
  "fs_lessons L F n0 st \<longleftrightarrow> length (t_lessons st) = length L \<and>
     (\<forall>l < length L. t_lessons st ! l = lesson_at (L ! l) (l < n0))"

definition fs_busy :: "owners \<Rightarrow> nat set \<Rightarrow> att \<Rightarrow> bool" where
  "fs_busy L F st \<longleftrightarrow> (\<forall>l < length L. l \<notin> F \<longrightarrow> tkeys (L ! l) \<subseteq> t_tbusy st \<and> rkeys (L ! l) \<subseteq> t_rbusy st)"

definition apart :: "owners \<Rightarrow> nat set \<Rightarrow> bool" where
  "apart L F \<longleftrightarrow> (\<forall>l < length L. \<forall>l' < length L. l \<noteq> l' \<longrightarrow> l \<notin> F \<longrightarrow> l' \<notin> F \<longrightarrow>
     tkeys (L ! l) \<inter> tkeys (L ! l') = {} \<and> rkeys (L ! l) \<inter> rkeys (L ! l') = {})"

definition legal :: "assignment set \<Rightarrow> ustr set \<Rightarrow> owners \<Rightarrow> nat \<Rightarrow> bool" where
  "legal A D L n0 \<longleftrightarrow> (\<forall>l < length L. fst (L ! l) \<in> A \<and> fst (snd (L ! l)) \<in> D
     \<and> (n0 \<le> l \<longrightarrow> \<not> blocked_at (L ! l)))"

record fs_ctx =
  x_as :: "assignment set"
  x_days :: "ustr set"
  x_n0 :: nat
  x_c0 :: "count_key \<Rightarrow> nat"
  x_len :: "ustr \<Rightarrow> ustr \<Rightarrow> session \<Rightarrow> nat"
  x_blk :: "ustr \<Rightarrow> place \<Rightarrow> bool \<Rightarrow> bool"

text \<open>The blocked cells of the grids are those of the base state.\<close>

definition fs_blk :: "fs_ctx \<Rightarrow> att \<Rightarrow> bool" where
  "fs_blk x st \<longleftrightarrow> (\<forall>cid p f. cell_is st cid p (Blocked f) \<longleftrightarrow> x_blk x cid p f)"

definition fs_inv :: "fs_ctx \<Rightarrow> owners \<Rightarrow> nat set \<Rightarrow> att \<Rightarrow> bool" where
  "fs_inv x L F st \<longleftrightarrow>
     fs_cells L F (x_n0 x) st \<and> fs_lessons L F (x_n0 x) st \<and> fs_busy L F st \<and> apart L F
     \<and> legal (x_as x) (x_days x) L (x_n0 x) \<and> x_n0 x \<le> length L
     \<and> t_counts st = cnt L F
     \<and> (\<forall>k. t_counts st k \<le> max (x_c0 x k) (subject_limit (x_as x) k))
     \<and> (\<forall>cid d s. length (class_cells st cid d s) = x_len x cid d s)
     \<and> fs_blk x st
     \<and> finite (x_as x) \<and> distinct (map fst (t_grids st))"

subsection \<open>What the code observes of a state\<close>

text \<open>Everything but the teachers' slot rows, the generator and the clock.\<close>

definition obs :: "att \<Rightarrow> (ustr \<times> grid) list \<times> lesson list \<times> okey set \<times> okey set \<times> (count_key \<Rightarrow> nat)" where
  "obs st = (t_grids st, t_lessons st, t_tbusy st, t_rbusy st, t_counts st)"

lemma obs_eqD:
  assumes "obs st = obs st'"
  shows "t_grids st = t_grids st'" "t_lessons st = t_lessons st'" "t_tbusy st = t_tbusy st'"
    "t_rbusy st = t_rbusy st'" "t_counts st = t_counts st'"
  using assms by (simp_all add: obs_def)

lemma class_cells_cong: "obs st = obs st' \<Longrightarrow> class_cells st = class_cells st'"
  by (intro ext) (simp add: class_cells_def obs_def)

lemma canPlaceAt_cong:
  assumes "obs st = obs st'"
  shows "canPlaceAt a p b st = canPlaceAt a p b st'"
  unfolding canPlaceAt_def cells_for_def
  by (simp only: class_cells_cong [OF assms] obs_eqD [OF assms])

lemma fs_inv_cong:
  assumes "obs st = obs st'"
  shows "fs_inv x L F st = fs_inv x L F st'"
  unfolding fs_inv_def fs_blk_def fs_cells_def cell_is_def fs_lessons_def fs_busy_def
  by (simp only: class_cells_cong [OF assms] obs_eqD [OF assms])

lemma obs_draw [simp]: "obs (snd (draw st)) = obs st"
  by (simp add: draw_def obs_def split: prod.splits)

lemma obs_shuffle_st [simp]: "obs (snd (shuffle_st xs st)) = obs st"
  by (simp add: shuffle_st_def obs_def split: prod.splits)

lemma obs_teacherSlots [simp]: "obs (snd (teacherSlots a d s n st)) = obs st"
  by (simp add: teacherSlots_def obs_def Let_def)

lemma obs_before_deadline [simp]: "obs (snd (before_deadline e dl st)) = obs st"
  by (simp add: before_deadline_def obs_def)

lemma class_cells_set_cell:
  "class_cells (set_cell cid (d, s, i) c st) cid' d' s' =
     (if cid' = cid \<and> d' = d \<and> s' = s then (class_cells st cid d s)[i := c] else class_cells st cid' d' s')"
  by (auto simp: set_cell_def class_cells_def split: option.splits)

lemma set_cell_frame [simp]:
  "t_lessons (set_cell cid p c st) = t_lessons st" "t_tbusy (set_cell cid p c st) = t_tbusy st"
  "t_rbusy (set_cell cid p c st) = t_rbusy st" "t_counts (set_cell cid p c st) = t_counts st"
  by (auto simp: set_cell_def split: option.splits prod.splits)

lemma markOccupied_frame [simp]:
  "t_grids (markOccupied a p b st) = t_grids st" "t_lessons (markOccupied a p b st) = t_lessons st"
  "t_counts (markOccupied a p b st) = t_counts st"
  by (auto simp: markOccupied_def teacherSlots_def Let_def split: prod.splits)

lemma markOccupied_tbusy [simp]:
  "t_tbusy (markOccupied a p b st) = (if b then t_tbusy st \<union> tkeys (a, p) else t_tbusy st - tkeys (a, p))"
  by (auto simp: markOccupied_def teacherSlots_def Let_def tkeys_def split: prod.splits)

lemma markOccupied_rbusy [simp]:
  "t_rbusy (markOccupied a p b st) = (if b then t_rbusy st \<union> rkeys (a, p) else t_rbusy st - rkeys (a, p))"
  by (auto simp: markOccupied_def teacherSlots_def Let_def rkeys_def split: prod.splits)

lemma updateSubjectCount_frame [simp]:
  "t_grids (updateSubjectCount a d s n st) = t_grids st" "t_lessons (updateSubjectCount a d s n st) = t_lessons st"
  "t_tbusy (updateSubjectCount a d s n st) = t_tbusy st" "t_rbusy (updateSubjectCount a d s n st) = t_rbusy st"
  by (simp_all add: updateSubjectCount_def Let_def)

lemma updateSubjectCount_counts [simp]:
  "t_counts (updateSubjectCount a d s n st) = (t_counts st)(skey (a, d, s, i) :=
     nat (max 0 (int (t_counts st (skey (a, d, s, i))) + n)))"
  by (simp add: updateSubjectCount_def Let_def skey_def)

lemma set_cell_grids_cong: "t_grids st = t_grids st' \<Longrightarrow> t_grids (set_cell cid p c st) = t_grids (set_cell cid p c st')"
  by (auto simp: set_cell_def split: option.splits prod.splits)

lemma set_cell_twice: "t_grids (set_cell cid p c (set_cell cid p c' st)) = t_grids (set_cell cid p c st)"
  by (auto simp: set_cell_def split: option.splits prod.splits)

lemma set_cell_same:
  assumes "cell_is st cid p c"
  shows "t_grids (set_cell cid p c st) = t_grids st"
proof -
  obtain d s i where p: "p = (d, s, i)" by (cases p)
  have "class_cells st cid d s \<noteq> []" using assms by (auto simp: cell_is_def p)
  then obtain g where g: "map_of (t_grids st) cid = Some g"
    by (auto simp: class_cells_def split: option.splits)
  then have "(g d s)[i := c] = g d s"
    using assms by (simp add: cell_is_def p class_cells_def list_update_id_if)
  then have "g(d := (g d)(s := (g d s)[i := c])) = g" by simp
  then show ?thesis using g by (simp add: set_cell_def p update_triv)
qed

lemma distinct_set_cell [simp]:
  "distinct (map fst (t_grids st)) \<Longrightarrow> distinct (map fst (t_grids (set_cell cid p c st)))"
  by (auto simp: set_cell_def distinct_update split: option.splits prod.splits)

lemma class_cells_grids: "t_grids st = t_grids st' \<Longrightarrow> class_cells st = class_cells st'"
  by (intro ext) (simp add: class_cells_def)

lemma fs_cellsD:
  "fs_cells L F n0 st \<Longrightarrow> cell_is st cid p (Occupied l a f) \<longleftrightarrow>
     l < length L \<and> l \<notin> F \<and> L ! l = (a, p) \<and> cid = ci_id (a_class a) \<and> f = (l < n0)"
  by (simp add: fs_cells_def del: split_paired_All)

subsection \<open>Counting lessons\<close>

lemma cnt_insert_F:
  assumes "l < length L" "l \<notin> F"
  shows "cnt L (insert l F) = (cnt L F)(skey (L ! l) := cnt L F (skey (L ! l)) - 1)"
proof (rule ext)
  fix k
  let ?S = "\<lambda>F. {l. l < length L \<and> l \<notin> F \<and> skey (L ! l) = k}"
  have "?S (insert l F) = ?S F - {l}" by auto
  moreover have "skey (L ! l) = k \<Longrightarrow> l \<in> ?S F" using assms by auto
  moreover have "skey (L ! l) \<noteq> k \<Longrightarrow> ?S F - {l} = ?S F" by auto
  ultimately show "cnt L (insert l F) k = ((cnt L F)(skey (L ! l) := cnt L F (skey (L ! l)) - 1)) k"
    by (auto simp: cnt_def card_Diff_singleton)
qed

lemma cnt_attach:
  assumes "l < length L"
  shows "cnt (L[l := x]) {} = (cnt L {l})(skey x := cnt L {l} (skey x) + 1)"
proof (rule ext)
  fix k
  let ?S = "{i. i < length L \<and> i \<notin> {l} \<and> skey (L ! i) = k}"
  have "{i. i < length (L[l := x]) \<and> i \<notin> {} \<and> skey (L[l := x] ! i) = k}
      = (if skey x = k then insert l ?S else ?S)"
    using assms by (auto simp: nth_list_update)
  then show "cnt (L[l := x]) {} k = ((cnt L {l})(skey x := cnt L {l} (skey x) + 1)) k"
    by (auto simp: cnt_def)
qed

lemma cnt_floating_append: "cnt (L @ [x]) {length L} = cnt L {}"
proof (rule ext)
  fix k
  have "{i. i < length (L @ [x]) \<and> i \<notin> {length L} \<and> skey ((L @ [x]) ! i) = k}
      = {i. i < length L \<and> i \<notin> {} \<and> skey (L ! i) = k}"
    by (auto simp: nth_append less_Suc_eq)
  then show "cnt (L @ [x]) {length L} k = cnt L {} k" by (simp add: cnt_def)
qed

lemma cnt_pos: "l < length L \<Longrightarrow> l \<notin> F \<Longrightarrow> 0 < cnt L F (skey (L ! l))"
  by (auto simp: cnt_def card_gt_0_iff)

subsection \<open>Attaching and detaching\<close>

text \<open>What \<open>canPlaceAt\<close> promises about the place.\<close>

lemma canPlaceAtD:
  assumes "canPlaceAt a p False st"
  shows "cell_is st (ci_id (a_class a)) p Free" "\<not> blocked_at (a, p)"
    "t_counts st (skey (a, p)) < a_limit a" "tkeys (a, p) \<inter> t_tbusy st = {}" "rkeys (a, p) \<inter> t_rbusy st = {}"
  using assms
  by (auto simp: canPlaceAt_def cell_is_def cells_for_def at_simps Let_def teacherBusyAt_def
      list_ex_iff room_keys_def split: prod.splits if_splits)

lemma cell_is_set_cell:
  "cell_is (set_cell cid p c st) cid' p' c' \<longleftrightarrow>
     (if cid' = cid \<and> p' = p then (\<exists>y. cell_is st cid p y) \<and> c' = c
      else cell_is st cid' p' c')"
  by (cases p; cases p') (auto simp: cell_is_def class_cells_set_cell nth_list_update)

lemma fs_blk_set_cell:
  assumes "fs_blk x st" "cell_is st cid p y" "\<And>f. y \<noteq> Blocked f" "\<And>f. c \<noteq> Blocked f"
    and "cell_is st' = cell_is (set_cell cid p c st)"
  shows "fs_blk x st'"
  unfolding fs_blk_def assms(5)
proof (intro allI)
  fix cid' p' f
  have "cell_is st cid p (Blocked f) \<Longrightarrow> y = Blocked f" using assms(2) by (auto simp: cell_is_def split: prod.splits)
  then have "\<not> cell_is st cid p (Blocked f)" using assms(3) by blast
  moreover have blk: "cell_is st cid' p' (Blocked f) \<longleftrightarrow> x_blk x cid' p' f"
    using assms(1) unfolding fs_blk_def by blast
  moreover have "c \<noteq> Blocked f" by (rule assms(4))
  ultimately show "cell_is (set_cell cid p c st) cid' p' (Blocked f) \<longleftrightarrow> x_blk x cid' p' f"
    unfolding cell_is_set_cell by (cases "cid' = cid \<and> p' = p") (simp_all only: if_True if_False simp_thms, metis)
qed

lemma attach_tkeys_apart:
  assumes inv: "fs_inv x L {l} st" and ok: "canPlaceAt a p False st" and l: "l < length L"
  shows "apart (L[l := (a, p)]) {}"
proof -
  have ap: "apart L {l}" and busy: "fs_busy L {l} st" using inv by (simp_all add: fs_inv_def)
  note free = canPlaceAtD(4,5) [OF ok]
  have new: "tkeys (a, p) \<inter> tkeys (L ! j) = {} \<and> rkeys (a, p) \<inter> rkeys (L ! j) = {}"
    if "j < length L" "j \<noteq> l" for j
    using busy free that by (fastforce simp: fs_busy_def)
  show ?thesis
    unfolding apart_def
  proof (intro allI impI)
    fix i j
    assume ij: "i < length (L[l := (a, p)])" "j < length (L[l := (a, p)])" "i \<noteq> j"
    consider "i = l" | "j = l" | "i \<noteq> l" "j \<noteq> l" by blast
    then show "tkeys (L[l := (a, p)] ! i) \<inter> tkeys (L[l := (a, p)] ! j) = {}
      \<and> rkeys (L[l := (a, p)] ! i) \<inter> rkeys (L[l := (a, p)] ! j) = {}"
    proof cases
      case 1 then show ?thesis using new [of j] ij l by (auto simp: nth_list_update)
    next
      case 2 then show ?thesis using new [of i] ij l by (auto simp: nth_list_update Int_commute)
    next
      case 3 then show ?thesis using ap ij by (simp add: apart_def)
    qed
  qed
qed

definition retime :: "place \<Rightarrow> lesson \<Rightarrow> lesson" where
  "retime p l = (case p of (d, s, i) \<Rightarrow> l\<lparr>l_day := dayNumber d, l_session := s, l_period := i + 1\<rparr>)"

lemma retime_lesson_at [simp]: "retime p (lesson_at (a, q) f) = lesson_at (a, p) f"
  by (cases p) (simp add: retime_def lesson_at_def lesson_of_def)

lemma attach_fields [simp]:
  "t_lessons (attachCell l a f p st) = (t_lessons st)[l := retime p (t_lessons st ! l)]"
  "t_tbusy (attachCell l a f p st) = t_tbusy st \<union> tkeys (a, p)"
  "t_rbusy (attachCell l a f p st) = t_rbusy st \<union> rkeys (a, p)"
  "t_counts (attachCell l a f p st) = (t_counts st)(skey (a, p) := t_counts st (skey (a, p)) + 1)"
  by (auto simp: attachCell_def retime_def Let_def skey_def updateSubjectCount_def nat_add_distrib
      fun_upd_def split: prod.splits)

lemma attach_cells [simp]:
  "class_cells (attachCell l a f p st) = class_cells (set_cell (ci_id (a_class a)) p (Occupied l a f) st)"
  by (intro ext) (auto simp: attachCell_def Let_def class_cells_def split: prod.splits)

lemma attach_grids [simp]:
  "t_grids (attachCell l a f p st) = t_grids (set_cell (ci_id (a_class a)) p (Occupied l a f) st)"
  by (auto simp: attachCell_def Let_def split: prod.splits)

lemma cell_is_attach [simp]:
  "cell_is (attachCell l a f p st) = cell_is (set_cell (ci_id (a_class a)) p (Occupied l a f) st)"
  by (intro ext) (simp add: cell_is_def)

lemma detach_fields:
  assumes "cell_is st (ci_id (a_class a)) p (Occupied l a f)"
    and "r_lid ref = l" "r_assignment ref = a" "r_place ref = p"
  shows "\<exists>st'. detachCell ref st = (True, st')
     \<and> t_grids st' = t_grids (set_cell (ci_id (a_class a)) p Free st) \<and> t_lessons st' = t_lessons st
     \<and> t_tbusy st' = t_tbusy st - tkeys (a, p) \<and> t_rbusy st' = t_rbusy st - rkeys (a, p)
     \<and> t_counts st' = (t_counts st)(skey (a, p) := t_counts st (skey (a, p)) - 1)"
proof -
  obtain d s i where p: "p = (d, s, i)" by (cases p)
  have c: "nat (max 0 (int k - 1)) = k - 1" for k by simp
  show ?thesis
    using assms
    by (simp add: detachCell_def p cell_is_def cells_for_def updateSubjectCount_counts [of _ _ _ _ _ i] c)
qed

lemma length_class_cells_set_cell [simp]:
  "length (class_cells (set_cell cid p c st) cid' d s) = length (class_cells st cid' d s)"
  by (cases p) (auto simp: class_cells_set_cell)

lemma attach_inv:
  assumes inv: "fs_inv x L {l} st" and ok: "canPlaceAt a p False st" and l: "l < length L" "x_n0 x \<le> l"
    and own: "fst (L ! l) = a" and day: "fst p \<in> x_days x"
  shows "fs_inv x (L[l := (a, p)]) {} (attachCell l a False p st)"
proof -
  let ?L = "L[l := (a, p)]" and ?st = "attachCell l a False p st" and ?cid = "ci_id (a_class a)"
  note free = canPlaceAtD [OF ok]
  have cells: "fs_cells L {l} (x_n0 x) st" and les: "fs_lessons L {l} (x_n0 x) st" and busy: "fs_busy L {l} st"
    and leg: "legal (x_as x) (x_days x) L (x_n0 x)" and cn: "t_counts st = cnt L {l}"
    and lim: "\<And>k. t_counts st k \<le> max (x_c0 x k) (subject_limit (x_as x) k)" and fin: "finite (x_as x)"
    using inv unfolding fs_inv_def by blast+
  have aA: "a \<in> x_as x" using leg l own by (auto simp: legal_def)
  have "fs_cells ?L {} (x_n0 x) ?st"
    unfolding fs_cells_def
  proof (intro allI)
    fix cid q j b f
    have nofree: "\<not> cell_is st ?cid p (Occupied j b f)" using free(1) by (auto simp: cell_is_def)
    show "cell_is ?st cid q (Occupied j b f) \<longleftrightarrow>
        j < length ?L \<and> j \<notin> {} \<and> ?L ! j = (b, q) \<and> cid = ci_id (a_class b) \<and> f = (j < x_n0 x)"
    proof (cases "j = l")
      case True
      then show ?thesis using fs_cellsD [OF cells] l free(1) by (auto simp: cell_is_set_cell)
    next
      case False
      then have "?L ! j = L ! j" by simp
      then show ?thesis
        using fs_cellsD [OF cells] nofree False by (auto simp: cell_is_set_cell)
    qed
  qed
  moreover have "fs_lessons ?L {} (x_n0 x) ?st"
  proof -
    obtain q where "L ! l = (a, q)" using own by (cases "L ! l") auto
    then show ?thesis using les l by (auto simp: fs_lessons_def nth_list_update)
  qed
  moreover have "fs_busy ?L {} ?st"
    using busy l by (auto simp: fs_busy_def nth_list_update)
  moreover have "apart ?L {}" by (rule attach_tkeys_apart [OF inv ok l(1)])
  moreover have "legal (x_as x) (x_days x) ?L (x_n0 x)"
    using leg l free(2) aA day by (auto simp: legal_def nth_list_update)
  moreover have "t_counts ?st = cnt ?L {}" using cn cnt_attach [OF l(1), of "(a, p)"] by simp
  moreover have "t_counts ?st k \<le> max (x_c0 x k) (subject_limit (x_as x) k)" for k
  proof (cases "k = skey (a, p)")
    case True
    have "a_limit a \<le> subject_limit (x_as x) (skey (a, p))"
      unfolding subject_limit_def using fin aA by (intro Max_ge) (auto simp: skey_def subjectSessionKey_def)
    with free(3) True show ?thesis by simp
  qed (use lim in simp)
  moreover have "fs_blk x ?st"
    by (rule fs_blk_set_cell [OF _ free(1) _ _ cell_is_attach]) (use inv in \<open>simp_all add: fs_inv_def\<close>)
  ultimately show ?thesis using inv unfolding fs_inv_def by simp
qed

lemma detach_inv:
  assumes inv: "fs_inv x L {} st" and l: "l < length L" "L ! l = (a, p)"
    and ref: "r_lid ref = l" "r_assignment ref = a" "r_place ref = p"
  shows "\<exists>st'. detachCell ref st = (True, st') \<and> fs_inv x L {l} st'
    \<and> obs (attachCell l a (l < x_n0 x) p st') = obs st"
proof -
  let ?cid = "ci_id (a_class a)"
  have cells: "fs_cells L {} (x_n0 x) st" and les: "fs_lessons L {} (x_n0 x) st" and busy: "fs_busy L {} st"
    and ap: "apart L {}" and cn: "t_counts st = cnt L {}"
    and lim: "\<And>k. t_counts st k \<le> max (x_c0 x k) (subject_limit (x_as x) k)"
    using inv unfolding fs_inv_def by blast+
  have here: "cell_is st ?cid p (Occupied l a (l < x_n0 x))"
    using fs_cellsD [OF cells] l by simp
  from detach_fields [OF here ref] obtain st' where st': "detachCell ref st = (True, st')"
    "t_grids st' = t_grids (set_cell ?cid p Free st)" "t_lessons st' = t_lessons st"
    "t_tbusy st' = t_tbusy st - tkeys (a, p)" "t_rbusy st' = t_rbusy st - rkeys (a, p)"
    "t_counts st' = (t_counts st)(skey (a, p) := t_counts st (skey (a, p)) - 1)" by blast
  have cc: "class_cells st' = class_cells (set_cell ?cid p Free st)"
    by (rule class_cells_grids [OF st'(2)])
  then have ci: "cell_is st' = cell_is (set_cell ?cid p Free st)"
    by (intro ext) (simp add: cell_is_def)
  have "fs_cells L {l} (x_n0 x) st'"
    unfolding fs_cells_def ci
  proof (intro allI)
    fix cid q j b f
    show "cell_is (set_cell ?cid p Free st) cid q (Occupied j b f) \<longleftrightarrow>
      j < length L \<and> j \<notin> {l} \<and> L ! j = (b, q) \<and> cid = ci_id (a_class b) \<and> f = (j < x_n0 x)"
    proof (cases "cid = ?cid \<and> q = p")
      case True
      then have "cell_is st cid q (Occupied j b f) \<Longrightarrow> j = l" using here by (auto simp: cell_is_def split: prod.splits)
      then show ?thesis using True fs_cellsD [OF cells] by (auto simp: cell_is_set_cell)
    next
      case False
      then show ?thesis using fs_cellsD [OF cells] l by (auto simp: cell_is_set_cell)
    qed
  qed
  moreover have "fs_busy L {l} st'"
    unfolding fs_busy_def
  proof (intro allI impI)
    fix j assume j: "j < length L" "j \<notin> {l}"
    then have "tkeys (L ! j) \<inter> tkeys (a, p) = {} \<and> rkeys (L ! j) \<inter> rkeys (a, p) = {}"
      using ap l unfolding apart_def by (metis empty_iff insertI1)
    moreover have "tkeys (L ! j) \<subseteq> t_tbusy st \<and> rkeys (L ! j) \<subseteq> t_rbusy st"
      using busy j by (simp add: fs_busy_def)
    ultimately show "tkeys (L ! j) \<subseteq> t_tbusy st' \<and> rkeys (L ! j) \<subseteq> t_rbusy st'"
      by (auto simp: st')
  qed
  moreover have "apart L {l}" using ap by (auto simp: apart_def)
  moreover have "t_counts st' = cnt L {l}" using cnt_insert_F [of l L "{}"] l cn st' by simp
  moreover have "t_counts st' k \<le> max (x_c0 x k) (subject_limit (x_as x) k)" for k
    using lim [of k] by (auto simp: st')
  moreover have "fs_lessons L {l} (x_n0 x) st'" using les by (simp add: fs_lessons_def st')
  moreover have "fs_blk x st'"
    by (rule fs_blk_set_cell [OF _ here _ _ ci]) (use inv in \<open>simp_all add: fs_inv_def\<close>)
  ultimately have inv': "fs_inv x L {l} st'" using inv by (simp add: fs_inv_def cc st'(2))
  have restored: "obs (attachCell l a (l < x_n0 x) p st') = obs st"
  proof -
    have "t_grids (set_cell ?cid p (Occupied l a (l < x_n0 x)) st') = t_grids st"
      using set_cell_grids_cong [OF st'(2)] by (simp add: set_cell_twice set_cell_same [OF here])
    moreover have "(t_lessons st)[l := retime p (t_lessons st ! l)] = t_lessons st"
      using les l by (simp add: fs_lessons_def list_update_id_if)
    moreover have "tkeys (a, p) \<subseteq> t_tbusy st" "rkeys (a, p) \<subseteq> t_rbusy st"
      using busy l by (force simp: fs_busy_def)+
    moreover have "0 < t_counts st (skey (a, p))" using cn cnt_pos [of l L "{}"] l by simp
    ultimately show ?thesis by (auto simp: obs_def st' fun_upd_idem)
  qed
  show ?thesis using st'(1) inv' restored by blast
qed

end
