(* ===== verification/FsRepair.thy ===== *)
theory FsRepair
  imports FsSafe
begin

section \<open>Fast seed: searching, moving and placing keep the invariant\<close>

text \<open>
  The search loops change nothing that the code observes; moving a blocker aside keeps the
  invariant and is undone exactly; a repair that fails leaves the state as it was, one that succeeds
  adds one lesson; the greedy loop and the repair rounds account for every period.
\<close>

declare split_paired_All [simp del] split_paired_Ex [simp del]

text \<open>The lessons before an operation are still there after it, the pinned ones untouched.\<close>

definition kept :: "nat \<Rightarrow> owners \<Rightarrow> owners \<Rightarrow> bool" where
  "kept n L L' \<longleftrightarrow> length L \<le> length L' \<and> (\<forall>l < length L. fst (L' ! l) = fst (L ! l)) \<and> (\<forall>l < n. L' ! l = L ! l)"

lemma kept_refl [simp]: "kept n L L"
  by (simp add: kept_def)

lemma kept_trans: "kept n L L' \<Longrightarrow> kept n L' L'' \<Longrightarrow> n \<le> length L \<Longrightarrow> kept n L L''"
  by (simp add: kept_def)

lemma kept_update: "n \<le> l \<Longrightarrow> l < length L \<Longrightarrow> fst (L ! l) = a \<Longrightarrow> kept n L (L[l := (a, q)])"
  by (auto simp: kept_def nth_list_update)

lemma kept_append: "n \<le> length L \<Longrightarrow> kept n L (L @ [y])"
  by (auto simp: kept_def nth_append)

subsection \<open>The search loops\<close>

lemma scan_indexes_rule:
  assumes "\<And>i y st. i \<in> set is \<Longrightarrow> obs st = ob \<Longrightarrow> Q y \<Longrightarrow>
      obs (snd (body i (y, st))) = ob \<and> Q (fst (body i (y, st)))"
    and "Q (fst acc)" "obs (snd acc) = ob"
  shows "Q (fst (scan_indexes body is acc)) \<and> obs (snd (scan_indexes body is acc)) = ob"
  using assms
proof (induction "is" arbitrary: acc)
  case Nil
  then show ?case by simp
next
  case (Cons i "is")
  have "obs (snd (body i (fst acc, snd acc))) = ob \<and> Q (fst (body i (fst acc, snd acc)))"
    by (rule Cons.prems(1)) (use Cons.prems in auto)
  then show ?case using Cons by simp
qed

lemma scan_sessions_rule:
  assumes "\<And>s i y st st'. obs st' = ob \<Longrightarrow> ok s st' \<Longrightarrow> obs st = ob \<Longrightarrow> Q y \<Longrightarrow>
      obs (snd (body s i (y, st))) = ob \<and> Q (fst (body s i (y, st)))"
    and "Q (fst acc)" "obs (snd acc) = ob"
  shows "Q (fst (scan_sessions ok len body ss acc)) \<and> obs (snd (scan_sessions ok len body ss acc)) = ob"
  using assms(2,3)
proof (induction ss arbitrary: acc)
  case Nil
  then show ?case by simp
next
  case (Cons s ss)
  obtain y st where acc: "acc = (y, st)" by (cases acc)
  show ?case
  proof (cases "ok s st")
    case True
    obtain idx st1 where sh: "shuffle_st [0..<len s st] st = (idx, st1)" by fastforce
    then have "obs st1 = ob" using obs_shuffle_st [of "[0..<len s st]" st] Cons.prems acc by simp
    then have "Q (fst (scan_indexes (body s) idx (y, st1))) \<and> obs (snd (scan_indexes (body s) idx (y, st1))) = ob"
      using assms(1) [of st s] True Cons.prems acc by (intro scan_indexes_rule) auto
    then show ?thesis using Cons.IH True sh acc by simp
  next
    case False
    then show ?thesis using Cons acc by simp
  qed
qed

lemma scan_days_rule:
  assumes "\<And>p y st st'. fst p \<in> D \<Longrightarrow> obs st' = ob \<Longrightarrow> ok (fst p) (fst (snd p)) st' \<Longrightarrow> obs st = ob \<Longrightarrow> Q y \<Longrightarrow>
      obs (snd (body p (y, st))) = ob \<and> Q (fst (body p (y, st)))"
    and "Q (fst acc)" "obs (snd acc) = ob" "set ds \<subseteq> D"
  shows "Q (fst (scan_days ok a body ds acc)) \<and> obs (snd (scan_days ok a body ds acc)) = ob"
  using assms(2,3,4)
proof (induction ds arbitrary: acc)
  case Nil
  then show ?case by simp
next
  case (Cons d ds)
  obtain y st where acc: "acc = (y, st)" by (cases acc)
  obtain ss st1 where sh: "shuffle_st session_keys st = (ss, st1)" by fastforce
  then have "obs st1 = ob" using obs_shuffle_st [of session_keys st] Cons.prems acc by simp
  then have "Q (fst (scan_sessions (ok d) (\<lambda>s st. length (cells_for st a d s)) (\<lambda>s i. body (d, s, i)) ss (y, st1)))
    \<and> obs (snd (scan_sessions (ok d) (\<lambda>s st. length (cells_for st a d s)) (\<lambda>s i. body (d, s, i)) ss (y, st1))) = ob"
    using assms(1) Cons.prems acc by (intro scan_sessions_rule) auto
  then show ?case using Cons sh acc by simp
qed

lemma scan_slots_rule:
  assumes "\<And>p y st st'. fst p \<in> set (m_days m) \<Longrightarrow> obs st' = ob \<Longrightarrow> ok (fst p) (fst (snd p)) st' \<Longrightarrow>
      obs st = ob \<Longrightarrow> Q y \<Longrightarrow> obs (snd (body p (y, st))) = ob \<and> Q (fst (body p (y, st)))"
    and "Q y" "obs st = ob" and res: "scan_slots ok a body m y st = (z, st')"
  shows "Q z \<and> obs st' = ob"
proof -
  obtain ds st1 where sh: "shuffle_st (m_days m) st = (ds, st1)" by fastforce
  then have "obs st1 = ob" using obs_shuffle_st [of "m_days m" st] assms(3) by simp
  moreover have "set ds = set (m_days m)"
    using sh by (auto simp: shuffle_st_def split: prod.splits dest: shuffled_memD)
  ultimately have "Q (fst (scan_days ok a body ds (y, st1))) \<and> obs (snd (scan_days ok a body ds (y, st1))) = ob"
    using assms(1,2) by (intro scan_days_rule [where D = "set (m_days m)"]) auto
  then show ?thesis using res by (simp add: scan_slots_def sh)
qed

lemma best_first_mem: "best_first cands = (p, s) # cs \<Longrightarrow> (p, s) \<in> set cands"
  unfolding best_first_def by (metis list.set_intros(1) set_sort)

subsection \<open>Attaching and detaching depend on what is observed only\<close>

lemma attach_cong: "obs st = obs st' \<Longrightarrow> obs (attachCell l a f p st) = obs (attachCell l a f p st')"
  using set_cell_grids_cong [of st st'] by (simp add: obs_def)

lemma detach_obs:
  fixes ref st
  defines "a \<equiv> r_assignment ref" and "p \<equiv> r_place ref"
  shows "detachCell ref st = (\<exists>b f. cell_is st (ci_id (a_class a)) p (Occupied (r_lid ref) b f), snd (detachCell ref st))"
    "obs (snd (detachCell ref st)) =
      (if \<exists>b f. cell_is st (ci_id (a_class a)) p (Occupied (r_lid ref) b f)
       then (t_grids (set_cell (ci_id (a_class a)) p Free st), t_lessons st, t_tbusy st - tkeys (a, p),
             t_rbusy st - rkeys (a, p), (t_counts st)(skey (a, p) := t_counts st (skey (a, p)) - 1))
       else obs st)"
proof -
  obtain d s i where p: "r_place ref = (d, s, i)" by (cases "r_place ref")
  have c: "nat (max 0 (int k - 1)) = k - 1" for k by simp
  have cond: "(\<exists>b f. cell_is st (ci_id (a_class a)) p (Occupied (r_lid ref) b f)) \<longleftrightarrow>
    i < length (cells_for st a d s) \<and> (case cells_for st a d s ! i of Occupied lid _ _ \<Rightarrow> lid = r_lid ref | _ \<Rightarrow> False)"
    by (auto simp: cell_is_def p cells_for_def p_def split: cell.splits)
  show "detachCell ref st = (\<exists>b f. cell_is st (ci_id (a_class a)) p (Occupied (r_lid ref) b f), snd (detachCell ref st))"
    unfolding cond by (simp add: detachCell_def p a_def [symmetric] Let_def)
  show "obs (snd (detachCell ref st)) =
      (if \<exists>b f. cell_is st (ci_id (a_class a)) p (Occupied (r_lid ref) b f)
       then (t_grids (set_cell (ci_id (a_class a)) p Free st), t_lessons st, t_tbusy st - tkeys (a, p),
             t_rbusy st - rkeys (a, p), (t_counts st)(skey (a, p) := t_counts st (skey (a, p)) - 1))
       else obs st)"
    unfolding cond
    by (simp add: detachCell_def p a_def [symmetric] p_def obs_def Let_def updateSubjectCount_counts [of _ _ _ _ _ i] c)
qed

lemma detach_cong:
  assumes "obs st = obs st'"
  shows "fst (detachCell ref st) = fst (detachCell ref st')"
    "obs (snd (detachCell ref st)) = obs (snd (detachCell ref st'))"
proof -
  have ci: "cell_is st = cell_is st'" by (intro ext) (simp add: cell_is_def class_cells_cong [OF assms])
  note gr = set_cell_grids_cong [OF obs_eqD(1) [OF assms]]
  show "fst (detachCell ref st) = fst (detachCell ref st')"
    by (subst (1 2) detach_obs(1)) (simp add: ci)
  show "obs (snd (detachCell ref st)) = obs (snd (detachCell ref st'))"
    unfolding detach_obs(2) ci gr using assms by (simp add: obs_eqD [OF assms])
qed

lemma undoMove_alt:
  "undoMove ud st = attachCell (r_lid (ud_ref ud)) (r_assignment (ud_ref ud)) False (r_place (ud_ref ud))
     (snd (detachCell ((ud_ref ud)\<lparr>r_class := ci_id (a_class (r_assignment (ud_ref ud))), r_place := ud_dest ud\<rparr>) st))"
  by (simp only: undoMove_def Let_def case_prod_beta)

lemma undoMove_cong:
  assumes "obs st = obs st'"
  shows "obs (undoMove ud st) = obs (undoMove ud st')"
  unfolding undoMove_alt by (rule attach_cong, rule detach_cong(2), rule assms)

lemma undos_cong: "obs st = obs st' \<Longrightarrow> obs (fold undoMove us st) = obs (fold undoMove us st')"
proof (induction us arbitrary: st st')
  case Nil
  then show ?case by simp
next
  case (Cons ud us)
  show ?case unfolding fold.simps o_apply by (rule Cons.IH [OF undoMove_cong [OF Cons.prems]])
qed

text \<open>Taking back a lesson just put on a free place.\<close>

lemma attach_detach:
  assumes ok: "canPlaceAt a q False st"
    and ref: "r_lid ref = l" "r_assignment ref = a" "r_place ref = q"
  shows "\<exists>st'. detachCell ref (attachCell l a False q st) = (True, st') \<and> t_grids st' = t_grids st
    \<and> t_tbusy st' = t_tbusy st \<and> t_rbusy st' = t_rbusy st \<and> t_counts st' = t_counts st
    \<and> t_lessons st' = (t_lessons st)[l := retime q (t_lessons st ! l)]"
proof -
  let ?cid = "ci_id (a_class a)"
  note free = canPlaceAtD [OF ok]
  have "cell_is (attachCell l a False q st) ?cid q (Occupied l a False)"
    using free(1) by (auto simp: cell_is_set_cell)
  from detach_fields [OF this ref] obtain st' where st': "detachCell ref (attachCell l a False q st) = (True, st')"
    "t_grids st' = t_grids (set_cell ?cid q Free (attachCell l a False q st))"
    "t_lessons st' = t_lessons (attachCell l a False q st)"
    "t_tbusy st' = t_tbusy (attachCell l a False q st) - tkeys (a, q)"
    "t_rbusy st' = t_rbusy (attachCell l a False q st) - rkeys (a, q)"
    "t_counts st' = (t_counts (attachCell l a False q st))
        (skey (a, q) := t_counts (attachCell l a False q st) (skey (a, q)) - 1)" by blast
  have "t_grids (set_cell ?cid q Free (attachCell l a False q st))
      = t_grids (set_cell ?cid q Free (set_cell ?cid q (Occupied l a False) st))"
    by (rule set_cell_grids_cong) simp
  then have "t_grids st' = t_grids st" using st'(2) by (simp add: set_cell_twice set_cell_same [OF free(1)])
  then show ?thesis using st' free(4,5) by auto
qed

subsection \<open>Moving a blocker aside\<close>

lemma retime_retime [simp]: "retime p (retime q l) = retime p l"
  by (cases p; cases q) (simp add: retime_def)

lemma move_candidate_cases:
  "move_candidate ref avoid p (y, st) = (y, st) \<or>
    canPlaceAt (r_assignment ref) p False st \<and>
    (\<exists>sc st2. move_candidate ref avoid p (y, st) = (y @ [(p, sc)], st2) \<and> obs st2 = obs st)"
proof -
  obtain d s i where p: "p = (d, s, i)" by (cases p)
  obtain sl st1 where ts: "teacherSlots (r_assignment ref) d s (length (cells_for st (r_assignment ref) d s)) st = (sl, st1)"
    by fastforce
  obtain k st2 where dr: "draw st1 = (k, st2)" by fastforce
  have o2: "obs st2 = obs st" using obs_draw [of st1] dr
      obs_teacherSlots [of "r_assignment ref" d s "length (cells_for st (r_assignment ref) d s)" st] ts by simp
  show ?thesis
  proof (cases "p = r_place ref \<or> (ci_id (a_class (r_assignment ref)) = fst avoid \<and> p = snd avoid)
      \<or> \<not> canPlaceAt (r_assignment ref) p False st")
    case True
    then have "move_candidate ref avoid p (y, st) = (y, st)"
      unfolding move_candidate_def p by (auto simp only: Let_def prod.case if_True simp_thms if_False split: if_splits)
    then show ?thesis by blast
  next
    case False
    then have "\<exists>sc. move_candidate ref avoid p (y, st) = (y @ [(p, sc)], st2)"
      by (simp add: move_candidate_def p ts dr Let_def del: split_paired_Ex)
    then show ?thesis using False o2 by blast
  qed
qed

lemma move_candidate_step:
  assumes "fst p \<in> D" "obs st = ob" "obs st0 = ob"
    "\<forall>(q, s) \<in> set y. canPlaceAt (r_assignment ref) q False st0 \<and> fst q \<in> D"
  shows "obs (snd (move_candidate ref avoid p (y, st))) = ob \<and>
    (\<forall>(q, s) \<in> set (fst (move_candidate ref avoid p (y, st))).
        canPlaceAt (r_assignment ref) q False st0 \<and> fst q \<in> D)"
proof -
  have "canPlaceAt (r_assignment ref) p False st = canPlaceAt (r_assignment ref) p False st0"
    using assms by (intro canPlaceAt_cong) simp
  then show ?thesis using move_candidate_cases [of ref avoid p y st] assms by fastforce
qed

lemma moveBlockerAside_correct:
  assumes inv: "fs_inv x L {} st" and l: "l < length L" "x_n0 x \<le> l" "L ! l = (a, p)"
    and ref: "r_lid ref = l" "r_assignment ref = a" "r_place ref = p" and days: "set (m_days m) \<subseteq> x_days x"
    and res: "moveBlockerAside m ref avoid st = (r, st')"
  shows "case r of None \<Rightarrow> obs st' = obs st
    | Some ud \<Rightarrow> (\<exists>q. fs_inv x (L[l := (a, q)]) {} st' \<and> obs (undoMove ud st') = obs st)"
proof (cases "r_fixed ref")
  case True
  then show ?thesis using res by (auto simp: moveBlockerAside_def)
next
  case False
  have nl: "(l < x_n0 x) = False" using l by simp
  obtain st1 where d: "detachCell ref st = (True, st1)" and inv1: "fs_inv x L {l} st1"
    and restored: "obs (attachCell l a False p st1) = obs st"
    using detach_inv [OF inv l(1,3) ref] nl by auto
  obtain cands st2 where sc: "scan_slots (\<lambda>_ _ _. True) a (move_candidate ref avoid) m [] st1 = (cands, st2)"
    by fastforce
  have sc': "(\<forall>(q, s) \<in> set cands. canPlaceAt a q False st1 \<and> fst q \<in> set (m_days m)) \<and> obs st2 = obs st1"
  proof (rule scan_slots_rule [OF _ _ _ sc, where ob = "obs st1"])
    fix q :: place and y :: "(place \<times> int) list" and s st' :: att
    assume "fst q \<in> set (m_days m)" "obs s = obs st1"
      "\<forall>(q, sc) \<in> set y. canPlaceAt a q False st1 \<and> fst q \<in> set (m_days m)"
    then show "obs (snd (move_candidate ref avoid q (y, s))) = obs st1 \<and>
      (\<forall>(q, sc) \<in> set (fst (move_candidate ref avoid q (y, s))). canPlaceAt a q False st1 \<and> fst q \<in> set (m_days m))"
      using move_candidate_step [of q "set (m_days m)" s "obs st1" st1 y ref avoid] ref(2) by blast
  qed simp_all
  show ?thesis
  proof (cases "best_first cands")
    case Nil
    then have "r = None" "st' = attachCell l a False p st2"
      using res False d sc ref by (auto simp: moveBlockerAside_def)
    then show ?thesis using restored sc' attach_cong [of st2 st1 l a False p] by simp
  next
    case (Cons c cs)
    obtain q sc0 where c: "c = (q, sc0)" by (cases c)
    then have q: "canPlaceAt a q False st1" "fst q \<in> x_days x"
      using best_first_mem [of cands q sc0 cs] Cons sc' days by auto
    then have q2: "canPlaceAt a q False st2" using canPlaceAt_cong [of st1 st2] sc' by simp
    let ?st3 = "attachCell l a False q st2"
    have r: "r = Some \<lparr>ud_ref = ref, ud_dest = q\<rparr>" "st' = ?st3"
      using res False d sc ref Cons c by (auto simp: moveBlockerAside_def)
    have "fs_inv x L {l} st2" using inv1 fs_inv_cong [of st1 st2] sc' by simp
    then have inv3: "fs_inv x (L[l := (a, q)]) {} ?st3"
      by (rule attach_inv) (use l q q2 in auto)
    have "obs (undoMove \<lparr>ud_ref = ref, ud_dest = q\<rparr> ?st3) = obs st"
    proof -
      obtain st4 where st4: "detachCell (ref\<lparr>r_class := ci_id (a_class a), r_place := q\<rparr>) ?st3 = (True, st4)"
        "t_grids st4 = t_grids st2" "t_tbusy st4 = t_tbusy st2" "t_rbusy st4 = t_rbusy st2"
        "t_counts st4 = t_counts st2" "t_lessons st4 = (t_lessons st2)[l := retime q (t_lessons st2 ! l)]"
        using attach_detach [OF q2, of "ref\<lparr>r_class := ci_id (a_class a), r_place := q\<rparr>" l] ref by auto
      have "obs (attachCell l a False p st4) = obs (attachCell l a False p st2)"
        using set_cell_grids_cong [OF st4(2)] st4 inv1 sc' l
        by (auto simp: obs_def fs_inv_def fs_lessons_def)
      also have "\<dots> = obs (attachCell l a False p st1)" using sc' by (intro attach_cong) simp
      finally show ?thesis using restored st4(1) ref by (simp add: undoMove_alt)
    qed
    then show ?thesis using inv3 r by auto
  qed
qed

subsection \<open>Placing a new lesson\<close>

lemma canPlaceAt_lessons [simp]: "canPlaceAt a p b (st\<lparr>t_lessons := ls\<rparr>) = canPlaceAt a p b st"
  by (simp add: canPlaceAt_def cells_for_def class_cells_def)

lemma fs_inv_append:
  assumes inv: "fs_inv x L {} st" and "fst y \<in> x_as x" "fst (snd y) \<in> x_days x" "\<not> blocked_at y"
    and les: "l = lesson_at y False"
  shows "fs_inv x (L @ [y]) {length L} (st\<lparr>t_lessons := t_lessons st @ [l]\<rparr>)"
proof -
  let ?st = "st\<lparr>t_lessons := t_lessons st @ [l]\<rparr>" and ?L = "L @ [y]" and ?F = "{length L}"
  have cc: "class_cells ?st = class_cells st" by (rule class_cells_grids) simp
  have ci: "cell_is ?st = cell_is st" by (intro ext) (simp add: cell_is_def cc)
  have cells: "fs_cells L {} (x_n0 x) st" and n0: "x_n0 x \<le> length L"
    and leg: "legal (x_as x) (x_days x) L (x_n0 x)" using inv by (simp_all add: fs_inv_def)
  have "fs_cells ?L ?F (x_n0 x) ?st"
    unfolding fs_cells_def ci by (intro allI) (auto simp: fs_cellsD [OF cells] nth_append)
  moreover have "fs_lessons ?L ?F (x_n0 x) ?st"
    using inv n0 by (auto simp: fs_inv_def fs_lessons_def les nth_append less_Suc_eq)
  moreover have "fs_busy ?L ?F ?st"
    using inv by (auto simp: fs_inv_def fs_busy_def nth_append less_Suc_eq)
  moreover have "apart ?L ?F"
    using inv by (auto simp: fs_inv_def apart_def nth_append less_Suc_eq)
  moreover have "legal (x_as x) (x_days x) ?L (x_n0 x)"
    using leg assms by (auto simp: legal_def nth_append less_Suc_eq)
  moreover have "\<forall>k. t_counts st k \<le> max (x_c0 x k) (subject_limit (x_as x) k)" "t_counts st = cnt L {}"
    using inv unfolding fs_inv_def by blast+
  then have "\<forall>k. cnt L {} k \<le> max (x_c0 x k) (subject_limit (x_as x) k)" by simp
  moreover have "fs_blk x ?st" using inv ci by (simp add: fs_inv_def fs_blk_def)
  ultimately show ?thesis using inv cc by (simp add: fs_inv_def cnt_floating_append)
qed

lemma placeNewLesson_correct:
  assumes inv: "fs_inv x L {} st" and a: "a \<in> x_as x" "fst p \<in> x_days x"
    and res: "placeNewLesson a p st = (ok, st')"
  shows "ok = canPlaceAt a p False st"
    "if ok then fs_inv x (L @ [(a, p)]) {} st' else st' = st"
proof -
  obtain d s i where p: "p = (d, s, i)" by (cases p)
  show "ok = canPlaceAt a p False st"
    using res by (auto simp: placeNewLesson_def p Let_def split: if_splits)
  moreover have "fs_inv x (L @ [(a, p)]) {} st'" if ok
  proof -
    let ?y = "(a, p)"
    have can: "canPlaceAt a p False st" using \<open>ok = _\<close> that by simp
    have len: "length (t_lessons st) = length L" using inv by (simp add: fs_inv_def fs_lessons_def)
    let ?st1 = "st\<lparr>t_lessons := t_lessons st @ [lesson_at ?y False]\<rparr>"
    have st': "st' = attachCell (length L) a False p ?st1"
      using res can len by (auto simp: placeNewLesson_def p Let_def lesson_at_def)
    have "fs_inv x (L @ [?y]) {length L} ?st1"
      using a canPlaceAtD(2) [OF can] by (intro fs_inv_append [OF inv]) auto
    then have "fs_inv x ((L @ [?y])[length L := (a, p)]) {} (attachCell (length L) a False p ?st1)"
      by (rule attach_inv) (use can a inv in \<open>auto simp: fs_inv_def\<close>)
    then show ?thesis by (simp add: st')
  qed
  ultimately show "if ok then fs_inv x (L @ [(a, p)]) {} st' else st' = st"
    using res by (auto simp: placeNewLesson_def)
qed

subsection \<open>Blockers and their removal\<close>

definition ref_ok :: "nat \<Rightarrow> owners \<Rightarrow> cell_ref \<Rightarrow> bool" where
  "ref_ok n L ref \<longleftrightarrow> r_lid ref < length L \<and> L ! r_lid ref = (r_assignment ref, r_place ref)
     \<and> r_fixed ref = (r_lid ref < n)"

lemma blockers_in_ok:
  assumes cells: "fs_cells L {} n st" and "distinct (map fst (t_grids st))"
    and "set gs \<subseteq> set (t_grids st)"
  shows "list_all (ref_ok n L) (blockers_in a p seen gs)
    \<and> distinct (map r_lid (blockers_in a p seen gs))
    \<and> set (map r_lid (blockers_in a p seen gs)) \<inter> set seen = {}"
  using assms(3)
proof (induction gs arbitrary: seen)
  case Nil
  then show ?case by simp
next
  case (Cons cg gs)
  obtain cid g where cg: "cg = (cid, g)" by (cases cg)
  obtain d s i where p: "p = (d, s, i)" by (cases p)
  have g: "map_of (t_grids st) cid = Some g" using Cons.prems cg assms(2) by (auto intro: map_of_is_SomeI)
  note IH = Cons.IH [unfolded p]
  have sub: "set gs \<subseteq> set (t_grids st)" using Cons.prems by simp
  show ?case
  proof (cases "i < length (g d s) \<and> (\<exists>l b f. g d s ! i = Occupied l b f \<and> l \<notin> set seen \<and> hits a b)")
    case True
    then obtain l b f where c: "i < length (g d s)" "g d s ! i = Occupied l b f" "l \<notin> set seen" "hits a b"
      by blast
    then have "cell_is st cid (d, s, i) (Occupied l b f)" using g by (simp add: cell_is_def class_cells_def)
    then have "ref_ok n L \<lparr>r_lid = l, r_assignment = b, r_fixed = f, r_class = cid, r_place = (d, s, i)\<rparr>"
      by (simp add: ref_ok_def fs_cellsD [OF cells])
    then show ?thesis using IH [OF sub, of "l # seen"] c by (auto simp: cg p)
  next
    case False
    then have "blockers_in a p seen (cg # gs) = blockers_in a p seen gs"
      by (auto simp: cg p Let_def split: cell.splits)
    then show ?thesis using Cons.IH [OF sub, of seen] by simp
  qed
qed

lemma move_all_correct:
  assumes "fs_inv x L {} st" "list_all (ref_ok (x_n0 x) L) refs" "list_all (\<lambda>r. \<not> r_fixed r) refs"
    "distinct (map r_lid refs)" and days: "set (m_days m) \<subseteq> x_days x"
    and res: "move_all m target refs undos st = (ok, undos', st')"
  shows "\<exists>L' us. undos' = undos @ us \<and> fs_inv x L' {} st' \<and> length L' = length L \<and> kept (x_n0 x) L L'
    \<and> obs (fold undoMove (rev us) st') = obs st"
  using assms(1-4) res
proof (induction refs arbitrary: L undos st)
  case Nil
  then show ?case by (intro exI [of _ L] exI [of _ "[]"]) simp
next
  case (Cons ref refs)
  obtain r st1 where mv: "moveBlockerAside m ref target st = (r, st1)" by fastforce
  let ?l = "r_lid ref" and ?a = "r_assignment ref" and ?p = "r_place ref"
  have l: "?l < length L" "x_n0 x \<le> ?l" "L ! ?l = (?a, ?p)" using Cons.prems by (auto simp: ref_ok_def)
  note mc = moveBlockerAside_correct [OF Cons.prems(1) l refl refl refl days mv]
  show ?case
  proof (cases r)
    case None
    then have "undos' = undos" "st' = st1" using Cons.prems(5) mv by auto
    moreover have "obs st1 = obs st" using mc None by simp
    ultimately show ?thesis using Cons.prems(1) fs_inv_cong [of st1 st]
      by (intro exI [of _ L] exI [of _ "[]"]) simp
  next
    case (Some ud)
    then obtain q where inv1: "fs_inv x (L[?l := (?a, q)]) {} st1" and un: "obs (undoMove ud st1) = obs st"
      using mc by auto
    let ?L1 = "L[?l := (?a, q)]"
    have others: "list_all (ref_ok (x_n0 x) ?L1) refs"
      using Cons.prems(2,4) by (auto simp: list_all_iff ref_ok_def nth_list_update)
    have k1: "kept (x_n0 x) L ?L1" using l by (intro kept_update) auto
    have "move_all m target refs (undos @ [ud]) st1 = (ok, undos', st')"
      using Cons.prems(5) mv Some by simp
    from Cons.IH [OF inv1 others _ _ this] Cons.prems obtain L' us where IH:
      "undos' = (undos @ [ud]) @ us" "fs_inv x L' {} st'" "length L' = length ?L1" "kept (x_n0 x) ?L1 L'"
      "obs (fold undoMove (rev us) st') = obs st1" by auto
    have "obs (fold undoMove (rev (ud # us)) st') = obs st"
      using undoMove_cong [OF IH(5), of ud] un by simp
    moreover have "kept (x_n0 x) L L'"
      using kept_trans [OF k1 IH(4)] Cons.prems(1) by (simp add: fs_inv_def)
    ultimately show ?thesis using IH by (intro exI [of _ L'] exI [of _ "ud # us"]) simp
  qed
qed

subsection \<open>Repairing one lesson\<close>

text \<open>
  A failed repair changes nothing that is observed; a successful one adds one lesson of the
  assignment and keeps all others, the pinned ones in their places.
\<close>

definition target_ok :: "fs_ctx \<Rightarrow> owners \<Rightarrow> place \<times> cell_ref list \<Rightarrow> bool" where
  "target_ok x L t \<longleftrightarrow> fst (fst t) \<in> x_days x \<and> list_all (ref_ok (x_n0 x) L) (snd t)
     \<and> list_all (\<lambda>r. \<not> r_fixed r) (snd t) \<and> distinct (map r_lid (snd t))"

definition grown :: "fs_ctx \<Rightarrow> owners \<Rightarrow> assignment \<Rightarrow> att \<Rightarrow> bool" where
  "grown x L a st' \<longleftrightarrow> (\<exists>L'. fs_inv x L' {} st' \<and> length L' = Suc (length L) \<and> kept (x_n0 x) L L'
     \<and> fst (L' ! length L) = a)"

lemma try_targets_correct:
  assumes "fs_inv x L {} st" "\<forall>t \<in> set ts. target_ok x L (fst t)" and a: "a \<in> x_as x"
    and days: "set (m_days m) \<subseteq> x_days x" and res: "try_targets m a ts st = (ok, st')"
  shows "if ok then grown x L a st' else obs st' = obs st"
  using assms(1,2) res
proof (induction ts arbitrary: st)
  case Nil
  then show ?case by simp
next
  case (Cons t ts)
  obtain p blockers sc where t: "t = ((p, blockers), sc)" by (metis surj_pair)
  obtain moved undos st1 where mv: "move_all m (ci_id (a_class a), p) blockers [] st = (moved, undos, st1)"
    by (metis prod_cases3)
  have tok: "target_ok x L (p, blockers)" using Cons.prems(2) t by simp
  from move_all_correct [OF Cons.prems(1) _ _ _ days mv] tok obtain L1 where L1:
    "fs_inv x L1 {} st1" "length L1 = length L" "kept (x_n0 x) L L1" "obs (fold undoMove (rev undos) st1) = obs st"
    by (auto simp: target_ok_def)
  obtain d st2 where pl: "(if moved then placeNewLesson a p st1 else (False, st1)) = (d, st2)" by fastforce
  show ?case
  proof (cases d)
    case True
    then have m: moved "placeNewLesson a p st1 = (True, st2)" using pl by (auto split: if_splits)
    then have inv2: "fs_inv x (L1 @ [(a, p)]) {} st2"
      using placeNewLesson_correct(2) [OF L1(1) a _ m(2)] tok by (simp add: target_ok_def)
    have "kept (x_n0 x) L (L1 @ [(a, p)])"
      using kept_trans [OF L1(3) kept_append [of "x_n0 x" L1 "(a, p)"]] L1 Cons.prems(1) by (simp add: fs_inv_def)
    moreover have "fst ((L1 @ [(a, p)]) ! length L) = a" using L1(2) by (simp add: nth_append)
    moreover have "ok" "st' = st2" using Cons.prems(3) t mv pl True by auto
    ultimately show ?thesis using inv2 L1(2) unfolding grown_def by auto
  next
    case False
    then have "st2 = st1"
      using placeNewLesson_correct(2) [OF L1(1) a, of p] tok pl
      by (auto simp: target_ok_def split: if_splits)
    then have o: "obs (fold undoMove (rev undos) st2) = obs st" using L1(4) by simp
    have "try_targets m a ts (fold undoMove (rev undos) st2) = (ok, st')"
      using Cons.prems(3) t mv pl False by simp
    from Cons.IH [OF _ _ this] Cons.prems o fs_inv_cong [OF o] show ?thesis by simp
  qed
qed

lemma repair_target_cases:
  "repair_target a p (ts, st) = (ts, st) \<or>
    (\<exists>sc st2. repair_target a p (ts, st) = (ts @ [((p, blockersAt a p st), sc)], st2) \<and> obs st2 = obs st
       \<and> list_all (\<lambda>r. \<not> r_fixed r) (blockersAt a p st))"
proof (cases "\<not> canPlaceAt a p True st \<or> length (blockersAt a p st) > 2 \<or> list_ex r_fixed (blockersAt a p st)")
  case True
  then have "repair_target a p (ts, st) = (ts, st)"
    unfolding repair_target_def by (auto simp only: Let_def prod.case if_True simp_thms if_False split: if_splits)
  then show ?thesis by blast
next
  case False
  obtain k st2 where dr: "draw st = (k, st2)" by fastforce
  have o2: "obs st2 = obs st" using obs_draw [of st] dr by simp
  have "\<exists>sc. repair_target a p (ts, st) = (ts @ [((p, blockersAt a p st), sc)], st2)"
    using False by (simp add: repair_target_def Let_def dr)
  moreover have "list_all (\<lambda>r. \<not> r_fixed r) (blockersAt a p st)" using False by (auto simp: list_all_iff list_ex_iff)
  ultimately show ?thesis using o2 by blast
qed

lemma blockersAt_ok:
  assumes "fs_inv x L {} st"
  shows "list_all (ref_ok (x_n0 x) L) (blockersAt a p st) \<and> distinct (map r_lid (blockersAt a p st))"
  using assms blockers_in_ok [of L "x_n0 x" st "t_grids st" a p "[]"]
  by (simp add: fs_inv_def blockersAt_def)

lemma tryRepairOne_correct:
  assumes inv: "fs_inv x L {} st" and a: "a \<in> x_as x" and days: "set (m_days m) \<subseteq> x_days x"
    and res: "tryRepairOne m a st = (ok, st')"
  shows "if ok then grown x L a st' else obs st' = obs st"
proof -
  obtain ts st1 where sc: "scan_slots (\<lambda>_ _ _. True) a (repair_target a) m [] st = (ts, st1)" by fastforce
  have T: "(\<forall>t \<in> set ts. target_ok x L (fst t)) \<and> obs st1 = obs st"
  proof (rule scan_slots_rule [OF _ _ _ sc, where ob = "obs st"])
    fix q :: place and y :: "((place \<times> cell_ref list) \<times> int) list" and s s' :: att
    assume q: "fst q \<in> set (m_days m)" "obs s = obs st" "\<forall>t \<in> set y. target_ok x L (fst t)"
    then have "fs_inv x L {} s" using inv fs_inv_cong [of s st] by simp
    note bl = blockersAt_ok [OF this, of a q]
    show "obs (snd (repair_target a q (y, s))) = obs st \<and> (\<forall>t \<in> set (fst (repair_target a q (y, s))). target_ok x L (fst t))"
      using repair_target_cases [of a q y s]
    proof (elim disjE exE conjE)
      fix sc s2
      assume h: "repair_target a q (y, s) = (y @ [((q, blockersAt a q s), sc)], s2)" "obs s2 = obs s"
        "list_all (\<lambda>r. \<not> r_fixed r) (blockersAt a q s)"
      then have "target_ok x L (q, blockersAt a q s)" using bl q days by (auto simp: target_ok_def)
      then show ?thesis using h q by auto
    qed (use q in simp)
  qed simp_all
  have inv1: "fs_inv x L {} st1" using T inv fs_inv_cong [of st1 st] by simp
  have sub: "set (take 36 (best_first ts)) \<subseteq> set ts" using set_take_subset [of 36 "best_first ts"] by (simp add: best_first_def)
  have "try_targets m a (take 36 (best_first ts)) st1 = (ok, st')" using res sc by (simp add: tryRepairOne_def)
  moreover have "\<forall>t \<in> set (take 36 (best_first ts)). target_ok x L (fst t)" using T sub by blast
  ultimately show ?thesis using try_targets_correct [OF inv1 _ a days] T by metis
qed

end
