(* ===== verification/FsAccount.thy ===== *)
theory FsAccount
  imports FsRepair
begin

section \<open>Fast seed: every period of the demand is accounted for\<close>

text \<open>
  The greedy loop and the repair rounds turn missing periods into lessons one for one. The sums are
  taken with a weight on the assignment keys, so one statement covers the total (weight 1) and every
  single assignment (weight 1 on its key, 0 elsewhere).
\<close>

definition keysum :: "(ustr \<Rightarrow> nat) \<Rightarrow> owners \<Rightarrow> nat" where
  "keysum w L = sum_list (map (\<lambda>a. w (a_key a)) (map fst L))"

definition unsum :: "(ustr \<Rightarrow> nat) \<Rightarrow> unassigned list \<Rightarrow> nat" where
  "unsum w us = sum_list (map (\<lambda>x. un_periods x * w (un_key x)) us)"

lemma kept_map_fst:
  assumes "kept n L L'" "length L' = length L"
  shows "map fst L' = map fst L"
  using assms by (intro nth_equalityI) (simp_all add: kept_def)

lemma grown_map_fst:
  assumes "grown x L a st'"
  shows "\<exists>L'. fs_inv x L' {} st' \<and> length L' = Suc (length L) \<and> kept (x_n0 x) L L' \<and> map fst L' = map fst L @ [a]"
proof -
  from assms obtain L' where L': "fs_inv x L' {} st'" "length L' = Suc (length L)" "kept (x_n0 x) L L'"
    "fst (L' ! length L) = a" by (auto simp: grown_def)
  have "map fst L' = map fst L @ [a]"
    using L' by (intro nth_equalityI) (auto simp: kept_def nth_append less_Suc_eq)
  then show ?thesis using L' by blast
qed

lemma fs_inv_len: "fs_inv x L {} st \<Longrightarrow> x_n0 x \<le> length L"
  by (simp add: fs_inv_def)

subsection \<open>The greedy loop\<close>

lemma place_candidate_cases:
  "place_candidate a p (best, st) = (best, st) \<or>
    (\<exists>best' st2. place_candidate a p (best, st) = (best', st2) \<and> obs st2 = obs st
      \<and> (best' = best \<or> (\<exists>sc. best' = Some (p, sc)))
      \<and> (t_counts st (skey (a, p)) < a_limit a \<longrightarrow> canPlaceAt a p False st))"
proof -
  obtain d s i where p: "p = (d, s, i)" by (cases p)
  let ?cells = "cells_for st a d s"
  obtain sl st1 where ts: "teacherSlots a d s (length ?cells) st = (sl, st1)" by fastforce
  obtain k st2 where dr: "draw st1 = (k, st2)" by fastforce
  have o2: "obs st2 = obs st" using obs_draw [of st1] dr obs_teacherSlots [of a d s "length ?cells" st] ts by simp
  show ?thesis
  proof (cases "i \<ge> length ?cells \<or> ?cells ! i \<noteq> Free \<or> assignmentBlocked a d s i
      \<or> teacherBusyAt (t_tbusy st) a d s i \<or> (a_room a \<noteq> [] \<and> occupiedKey (a_room a) d s i \<in> t_rbusy st)")
    case True
    then have "place_candidate a p (best, st) = (best, st)"
      unfolding place_candidate_def p
      by (auto simp only: Let_def prod.case if_True simp_thms if_False split: if_splits)
    then show ?thesis by blast
  next
    case False
    then have can: "t_counts st (skey (a, p)) < a_limit a \<longrightarrow> canPlaceAt a p False st"
      by (auto simp: canPlaceAt_def p skey_def Let_def)
    have no: "\<not> (i \<ge> length ?cells \<or> ?cells ! i \<noteq> Free)" "\<not> assignmentBlocked a d s i"
      "\<not> teacherBusyAt (t_tbusy st) a d s i" "\<not> (a_room a \<noteq> [] \<and> occupiedKey (a_room a) d s i \<in> t_rbusy st)"
      using False by blast+
    have "\<exists>sc. place_candidate a p (best, st) =
        (if (case best of None \<Rightarrow> True | Some (_, bs) \<Rightarrow> sc > bs) then Some (p, sc) else best, st2)"
      unfolding place_candidate_def p
      by (simp only: Let_def prod.case ts dr no if_False simp_thms) (rule exI, rule refl)
    then show ?thesis using o2 can by (auto split: if_splits)
  qed
qed

lemma find_best_correct:
  assumes "find_best m a st = (best, st')"
  shows "obs st' = obs st \<and> (case best of None \<Rightarrow> True
    | Some (p, _) \<Rightarrow> canPlaceAt a p False st \<and> fst p \<in> set (m_days m))"
proof -
  have "(case best of None \<Rightarrow> True | Some (p, _) \<Rightarrow> canPlaceAt a p False st \<and> fst p \<in> set (m_days m)) \<and> obs st' = obs st"
  proof (rule scan_slots_rule [OF _ _ _ assms [unfolded find_best_def], where ob = "obs st"])
    fix q :: place and y :: "(place \<times> int) option" and s s' :: att
    assume q: "fst q \<in> set (m_days m)" "obs s' = obs st"
      "t_counts s' (subjectSessionKey a (fst q) (fst (snd q))) < a_limit a" "obs s = obs st"
      and y: "case y of None \<Rightarrow> True | Some (p, _) \<Rightarrow> canPlaceAt a p False st \<and> fst p \<in> set (m_days m)"
    have "t_counts s (skey (a, q)) < a_limit a" using q by (simp add: skey_def obs_def)
    moreover have "canPlaceAt a q False s = canPlaceAt a q False st" by (rule canPlaceAt_cong [OF q(4)])
    ultimately show "obs (snd (place_candidate a q (y, s))) = obs st \<and>
      (case fst (place_candidate a q (y, s)) of None \<Rightarrow> True
        | Some (p, _) \<Rightarrow> canPlaceAt a p False st \<and> fst p \<in> set (m_days m))"
      using place_candidate_cases [of a q y s] q y by auto
  qed simp_all
  then show ?thesis by simp
qed

lemma before_deadline_obs: "before_deadline e dl st = (go, st1) \<Longrightarrow> obs st1 = obs st"
  using obs_before_deadline [of e dl st] by simp

lemma place_periods_correct:
  assumes "fs_inv x L {} st" and a: "a \<in> x_as x" and days: "set (m_days m) \<subseteq> x_days x"
    and "place_periods e dl m a n st = (left, st')"
  shows "left \<le> n \<and> (\<exists>L'. fs_inv x L' {} st' \<and> kept (x_n0 x) L L'
    \<and> map fst L' = map fst L @ replicate (n - left) a)"
  using assms(1,4)
proof (induction n arbitrary: L st)
  case 0
  then show ?case by (auto intro!: exI [of _ L])
next
  case (Suc n)
  obtain go st1 where bd: "before_deadline e dl st = (go, st1)" by fastforce
  have inv1: "fs_inv x L {} st1" using Suc.prems(1) fs_inv_cong [OF before_deadline_obs [OF bd]] by simp
  obtain best st2 where fb: "find_best m a st1 = (best, st2)" by fastforce
  note fbc = find_best_correct [OF fb]
  have inv2: "fs_inv x L {} st2" using inv1 fs_inv_cong [of st2 st1] fbc by simp
  consider "\<not> go" | "go" "best = None" | p sc where go "best = Some (p, sc)" by (cases best) auto
  then show ?case
  proof cases
    case 1
    then show ?thesis using Suc.prems(2) bd inv1 by (auto intro!: exI [of _ L])
  next
    case 2
    then show ?thesis using Suc.prems(2) bd fb inv2 by (auto intro!: exI [of _ L])
  next
    case 3
    have can: "canPlaceAt a p False st2" "fst p \<in> x_days x"
      using fbc 3 days canPlaceAt_cong [of st1 st2 a p False] by auto
    obtain ok st3 where pl: "placeNewLesson a p st2 = (ok, st3)" by fastforce
    have inv3: "fs_inv x (L @ [(a, p)]) {} st3"
      using placeNewLesson_correct [OF inv2 a can(2) pl] can(1) by simp
    have "place_periods e dl m a n st3 = (left, st')" using Suc.prems(2) bd fb pl 3 by simp
    from Suc.IH [OF inv3 this] obtain L' where L': "left \<le> n" "fs_inv x L' {} st'"
      "kept (x_n0 x) (L @ [(a, p)]) L'" "map fst L' = (map fst L @ [a]) @ replicate (n - left) a" by auto
    have "kept (x_n0 x) L L'"
      using kept_trans [OF kept_append [of "x_n0 x" L "(a, p)"] L'(3)] fs_inv_len [OF inv2] by simp
    moreover have "replicate (Suc n - left) a = a # replicate (n - left) a" using L'(1) by (simp add: Suc_diff_le)
    ultimately show ?thesis using L' by (intro conjI exI [of _ L']) auto
  qed
qed

lemma place_assignments_correct:
  assumes "fs_inv x L {} st" "set as \<subseteq> x_as x" and days: "set (m_days m) \<subseteq> x_days x"
    and "place_assignments e dl m b as st = (us, st')"
  shows "\<exists>L'. fs_inv x L' {} st' \<and> kept (x_n0 x) L L' \<and>
    (\<forall>w. keysum w L' + unsum w us = keysum w L + sum_list (map (\<lambda>a. remaining_periods b a * w (a_key a)) as))"
  using assms(1,2,4)
proof (induction as arbitrary: L st us st')
  case Nil
  then show ?case by (intro exI [of _ L]) (simp add: unsum_def)
next
  case (Cons a as)
  let ?n = "remaining_periods b a"
  obtain left st1 where pp: "place_periods e dl m a ?n st = (left, st1)" by fastforce
  obtain us1 st2 where pa: "place_assignments e dl m b as st1 = (us1, st2)" by fastforce
  from place_periods_correct [OF Cons.prems(1) _ days pp] Cons.prems(2) obtain L1 where L1: "left \<le> ?n"
    "fs_inv x L1 {} st1" "kept (x_n0 x) L L1" "map fst L1 = map fst L @ replicate (?n - left) a" by auto
  from Cons.IH [OF L1(2) _ pa] Cons.prems(2) obtain L' where L': "fs_inv x L' {} st2" "kept (x_n0 x) L1 L'"
    "\<And>w. keysum w L' + unsum w us1 = keysum w L1 + sum_list (map (\<lambda>a. remaining_periods b a * w (a_key a)) as)"
    by auto
  have res: "us = (if left > 0 then unassigned_of a left # us1 else us1)" "st' = st2"
    using Cons.prems(3) pp pa by auto
  have "keysum w L' + unsum w us = keysum w L + sum_list (map (\<lambda>a. remaining_periods b a * w (a_key a)) (a # as))" for w
  proof -
    have "keysum w L1 = keysum w L + (?n - left) * w (a_key a)" by (simp add: keysum_def L1(4) sum_list_replicate)
    moreover have "unsum w us = unsum w us1 + left * w (a_key a)"
      by (auto simp: res unsum_def unassigned_of_def)
    moreover have "(?n - left) * w (a_key a) + left * w (a_key a) = ?n * w (a_key a)"
      using L1(1) by (simp flip: add_mult_distrib)
    ultimately show ?thesis using L'(3) [of w] by simp
  qed
  then show ?case using L' res kept_trans [OF L1(3) L'(2)] fs_inv_len [OF Cons.prems(1)] by blast
qed

subsection \<open>The repair rounds\<close>

lemma repair_item_correct:
  assumes "fs_inv x L {} st" and a: "a \<in> x_as x" and days: "set (m_days m) \<subseteq> x_days x"
    and "repair_item e dl m a n r st = (n', r', st')"
  shows "n' \<le> n \<and> (\<exists>L'. fs_inv x L' {} st' \<and> kept (x_n0 x) L L' \<and> map fst L' = map fst L @ replicate (n - n') a)"
  using assms(1,4)
proof (induction n arbitrary: L st r)
  case 0
  then show ?case by (auto intro!: exI [of _ L])
next
  case (Suc n)
  obtain go st1 where bd: "before_deadline e dl st = (go, st1)" by fastforce
  have inv1: "fs_inv x L {} st1" using Suc.prems(1) fs_inv_cong [OF before_deadline_obs [OF bd]] by simp
  obtain ok st2 where tr: "tryRepairOne m a st1 = (ok, st2)" by fastforce
  note trc = tryRepairOne_correct [OF inv1 a days tr]
  consider "\<not> go" | "go" "\<not> ok" | "go" "ok" by blast
  then show ?case
  proof cases
    case 1
    then show ?thesis using Suc.prems(2) bd inv1 by (auto intro!: exI [of _ L])
  next
    case 2
    then have "fs_inv x L {} st2" using trc inv1 fs_inv_cong [of st2 st1] by simp
    then show ?thesis using 2 Suc.prems(2) bd tr by (auto intro!: exI [of _ L])
  next
    case 3
    then have "grown x L a st2" using trc by simp
    from grown_map_fst [OF this] obtain L1 where L1: "fs_inv x L1 {} st2" "kept (x_n0 x) L L1" "map fst L1 = map fst L @ [a]"
      by blast
    have "repair_item e dl m a n (Suc r) st2 = (n', r', st')" using Suc.prems(2) bd tr 3 by simp
    from Suc.IH [OF L1(1) this] obtain L' where L': "n' \<le> n" "fs_inv x L' {} st'" "kept (x_n0 x) L1 L'"
      "map fst L' = map fst L1 @ replicate (n - n') a" by auto
    moreover have "replicate (Suc n - n') a = a # replicate (n - n') a" using L'(1) by (simp add: Suc_diff_le)
    moreover have "kept (x_n0 x) L L'" using kept_trans [OF L1(2) L'(3)] fs_inv_len [OF Suc.prems(1)] by simp
    ultimately show ?thesis using L1(3) by (intro conjI exI [of _ L']) auto
  qed
qed

lemma member_le_sum_list_nat: "y \<in> set ys \<Longrightarrow> (y::nat) \<le> sum_list ys"
  by (induction ys) auto

lemma unsum_update:
  assumes "j < length us" "n' \<le> un_periods (us ! j)"
  shows "unsum w (us[j := (us ! j)\<lparr>un_periods := n'\<rparr>]) + (un_periods (us ! j) - n') * w (un_key (us ! j)) = unsum w us"
proof -
  let ?f = "\<lambda>x. un_periods x * w (un_key x)"
  have "unsum w (us[j := (us ! j)\<lparr>un_periods := n'\<rparr>]) = unsum w us + n' * w (un_key (us ! j)) - ?f (us ! j)"
    using assms by (simp add: unsum_def map_update sum_list_update)
  moreover have "?f (us ! j) \<le> unsum w us"
    unfolding unsum_def using assms(1) by (intro member_le_sum_list_nat) simp
  moreover have "n' * w (un_key (us ! j)) + (un_periods (us ! j) - n') * w (un_key (us ! j)) = ?f (us ! j)"
    using assms(2) by (simp flip: add_mult_distrib)
  ultimately show ?thesis by simp
qed

lemma repair_pending_correct:
  assumes "fs_inv x L {} st" and as: "set (m_assignments m) \<subseteq> x_as x" and days: "set (m_days m) \<subseteq> x_days x"
    and "\<forall>it \<in> set items. fst it < length us"
    and "repair_pending e dl m items us r st = (us', r', st')"
  shows "length us' = length us \<and> (\<exists>L'. fs_inv x L' {} st' \<and> kept (x_n0 x) L L'
    \<and> (\<forall>w. keysum w L' + unsum w us' = keysum w L + unsum w us))"
  using assms(1,4,5)
proof (induction items arbitrary: L st us r)
  case Nil
  then show ?case by (auto intro!: exI [of _ L])
next
  case (Cons it items)
  obtain j k where it: "it = (j, k)" by (cases it)
  show ?case
  proof (cases "List.find (\<lambda>a. a_key a = un_key (us ! j)) (m_assignments m)")
    case None
    then show ?thesis using Cons.IH [OF Cons.prems(1), of us r] Cons.prems it by simp
  next
    case (Some a)
    then have a: "a \<in> x_as x" "a_key a = un_key (us ! j)" using as by (auto simp: find_Some_iff)
    obtain n' r1 st1 where ri: "repair_item e dl m a (un_periods (us ! j)) r st = (n', r1, st1)"
      by (metis prod_cases3)
    from repair_item_correct [OF Cons.prems(1) a(1) days ri] obtain L1 where L1: "n' \<le> un_periods (us ! j)"
      "fs_inv x L1 {} st1" "kept (x_n0 x) L L1" "map fst L1 = map fst L @ replicate (un_periods (us ! j) - n') a" by auto
    let ?us1 = "us[j := (us ! j)\<lparr>un_periods := n'\<rparr>]"
    have "repair_pending e dl m items ?us1 r1 st1 = (us', r', st')"
      using Cons.prems(3) it Some ri by simp
    from Cons.IH [OF L1(2) _ this] Cons.prems(2) obtain L' where L': "length us' = length us"
      "fs_inv x L' {} st'" "kept (x_n0 x) L1 L'" "\<And>w. keysum w L' + unsum w us' = keysum w L1 + unsum w ?us1" by auto
    have "keysum w L' + unsum w us' = keysum w L + unsum w us" for w
    proof -
      have "j < length us" using Cons.prems(2) it by simp
      note unsum_update [OF this L1(1), of w]
      moreover have "keysum w L1 = keysum w L + (un_periods (us ! j) - n') * w (un_key (us ! j))"
        by (simp add: keysum_def L1(4) sum_list_replicate flip: a(2))
      ultimately show ?thesis using L'(4) [of w] by simp
    qed
    then show ?thesis using L' kept_trans [OF L1(3) L'(3)] fs_inv_len [OF Cons.prems(1)] by blast
  qed
qed

text \<open>The order \<open>Array.sort\<close> gives the pending items is a permutation of them.\<close>

definition tie_ok :: "fs_env \<Rightarrow> bool" where
  "tie_ok e \<longleftrightarrow> (\<forall>items r. mset (fst (tie e items r)) = mset items)"

lemma pending_items_correct:
  assumes "tie_ok e" "pending_items e us st = (items, st')"
  shows "obs st' = obs st \<and> (\<forall>it \<in> set items. fst it < length us)"
proof -
  obtain order st1 where sh: "shuffle_st [0..<length us] st = (order, st1)" by fastforce
  have ord: "set order = {0..<length us}"
    using sh set_shuffled [of "[0..<length us]" "t_rng st"] by (simp add: shuffle_st_def del: set_shuffled split: prod.splits)
  let ?items = "filter (\<lambda>(j, n). n > 0) (map (\<lambda>j. (j, un_periods (us ! j))) order)"
  obtain srt r where ti: "tie e ?items (t_rng st1) = (srt, r)" by fastforce
  have "set srt = set ?items" using assms(1) ti unfolding tie_ok_def by (metis fst_conv set_mset_mset)
  moreover have "obs st1 = obs st" using obs_shuffle_st [of "[0..<length us]" st] sh by simp
  ultimately show ?thesis using assms(2) sh ti ord by (auto simp: pending_items_def obs_def)
qed

lemma repair_rounds_correct:
  assumes "fs_inv x L {} st" and as: "set (m_assignments m) \<subseteq> x_as x" and days: "set (m_days m) \<subseteq> x_days x"
    and tie: "tie_ok e" and "repair_rounds e dl m n us st = (us', st')"
  shows "\<exists>L'. fs_inv x L' {} st' \<and> kept (x_n0 x) L L' \<and> (\<forall>w. keysum w L' + unsum w us' = keysum w L + unsum w us)"
  using assms(1,5)
proof (induction n arbitrary: L st us)
  case 0
  then show ?case by (auto intro!: exI [of _ L])
next
  case (Suc n)
  obtain go st1 where bd: "before_deadline e dl st = (go, st1)" by fastforce
  have o1: "obs st1 = obs st" by (rule before_deadline_obs [OF bd])
  obtain items st2 where pi: "pending_items e us st1 = (items, st2)" by fastforce
  note pic = pending_items_correct [OF tie pi]
  obtain us1 r st3 where rp: "repair_pending e dl m items us 0 st2 = (us1, r, st3)" by (metis prod_cases3)
  have inv1: "fs_inv x L {} st1" using Suc.prems(1) fs_inv_cong [OF o1] by simp
  then have inv2: "fs_inv x L {} st2" using pic fs_inv_cong [of st2 st1] by simp
  from repair_pending_correct [OF inv2 as days _ rp] pic obtain L1 where L1: "fs_inv x L1 {} st3"
    "kept (x_n0 x) L L1" "\<And>w. keysum w L1 + unsum w us1 = keysum w L + unsum w us" by auto
  consider "\<not> go" | "go" "r = 0" | "go" "r \<noteq> 0" by blast
  then show ?case
  proof cases
    case 1
    then show ?thesis using Suc.prems(2) bd inv1 by (auto intro!: exI [of _ L])
  next
    case 2
    then show ?thesis using Suc.prems(2) bd pi rp L1 by (intro exI [of _ L1]) auto
  next
    case 3
    then have "repair_rounds e dl m n us1 st3 = (us', st')" using Suc.prems(2) bd pi rp by simp
    from Suc.IH [OF L1(1) this] obtain L' where "fs_inv x L' {} st'" "kept (x_n0 x) L1 L'"
      "\<And>w. keysum w L' + unsum w us' = keysum w L1 + unsum w us1" by blast
    moreover have "kept (x_n0 x) L L'"
      using kept_trans [OF L1(2) calculation(2)] fs_inv_len [OF Suc.prems(1)] by simp
    ultimately show ?thesis using L1(3) by (intro exI [of _ L']) simp
  qed
qed

end
