(* ===== verification/FsBase.thy ===== *)
theory FsBase
  imports FsAccount
begin

section \<open>Fast seed: the base state satisfies the invariant of an attempt\<close>

text \<open>
  \<open>createBaseState\<close> walks the classes, the days, the sessions and the positions once; the ghost
  map \<open>C\<close> holds the cells decided so far. The pinned lessons it records are pairwise apart, their
  number per assignment is within the demand, and the cells show exactly them.
\<close>

definition fs_model_ok :: "fs_model \<Rightarrow> bool" where
  "fs_model_ok m \<longleftrightarrow> distinct (map ci_id (m_classes m)) \<and> distinct (map a_key (m_assignments m))
     \<and> distinct (m_days m)
     \<and> (\<forall>c \<in> set (m_classes m). \<forall>g a. map_of (m_by_group m) (pair_key (ci_id c) g) = Some a \<longrightarrow>
          a \<in> set (m_assignments m) \<and> ci_id (a_class a) = ci_id c)"

type_synonym cell_map = "ustr \<times> place \<Rightarrow> cell option"

definition binv :: "assignment set \<Rightarrow> ustr set \<Rightarrow> owners \<Rightarrow> cell_map \<Rightarrow> base_state \<Rightarrow> bool" where
  "binv A D L C b \<longleftrightarrow>
     b_lessons b = map (\<lambda>x. lesson_at x True) L
     \<and> (\<forall>x \<in> set L. tkeys x \<subseteq> b_tbusy b \<and> rkeys x \<subseteq> b_rbusy b \<and> fst x \<in> A \<and> fst (snd x) \<in> D)
     \<and> apart L {}
     \<and> (\<forall>k. b_counts b k = length (filter (\<lambda>x. a_key (fst x) = k) L))
     \<and> (\<forall>a \<in> A. b_counts b (a_key a) \<le> a_periods a)
     \<and> (\<forall>cid p l a f. C (cid, p) = Some (Occupied l a f) \<longleftrightarrow>
          l < length L \<and> L ! l = (a, p) \<and> cid = ci_id (a_class a) \<and> f)"

lemma binvD:
  assumes "binv A D L C b"
  shows "b_lessons b = map (\<lambda>x. lesson_at x True) L"
    and "x \<in> set L \<Longrightarrow> tkeys x \<subseteq> b_tbusy b" and "x \<in> set L \<Longrightarrow> rkeys x \<subseteq> b_rbusy b"
    and "x \<in> set L \<Longrightarrow> fst x \<in> A" and "x \<in> set L \<Longrightarrow> fst (snd x) \<in> D"
    and "apart L {}" and "b_counts b k = length (filter (\<lambda>x. a_key (fst x) = k) L)"
    and "a \<in> A \<Longrightarrow> b_counts b (a_key a) \<le> a_periods a"
    and "C (cid, p) = Some (Occupied l a f) \<longleftrightarrow>
      l < length L \<and> L ! l = (a, p) \<and> cid = ci_id (a_class a) \<and> f"
  using assms unfolding binv_def by blast+

lemma binv_frame:
  assumes "binv A D L C b" "b_lessons b' = b_lessons b" "b_tbusy b' = b_tbusy b" "b_rbusy b' = b_rbusy b"
    "b_counts b' = b_counts b"
  shows "binv A D L C b'"
  using assms(1) unfolding binv_def assms(2-5) .

lemma binv_idle_cell:
  assumes inv: "binv A D L C b" and fresh: "C q = None" and "\<And>l a f. c \<noteq> Occupied l a f"
  shows "binv A D L (C(q \<mapsto> c)) b"
proof -
  have eq: "((C(q \<mapsto> c)) (cid, p) = Some (Occupied l a f)) = (C (cid, p) = Some (Occupied l a f))" for cid p l a f
    using assms(3) [of l a f] fresh by (cases "(cid, p) = q") auto
  show ?thesis using inv unfolding binv_def eq .
qed

lemma apart_snoc:
  assumes "apart L {}" "\<And>y. y \<in> set L \<Longrightarrow> tkeys y \<inter> tkeys x = {}" "\<And>y. y \<in> set L \<Longrightarrow> rkeys y \<inter> rkeys x = {}"
  shows "apart (L @ [x]) {}"
  unfolding apart_def
proof (intro allI impI)
  fix l l'
  assume l: "l < length (L @ [x])" "l' < length (L @ [x])" "l \<noteq> l'"
  have old: "tkeys (L ! l) \<inter> tkeys (L ! l') = {} \<and> rkeys (L ! l) \<inter> rkeys (L ! l') = {}"
    if "l < length L" "l' < length L" using assms(1) that l(3) unfolding apart_def by blast
  have new: "tkeys (L ! k) \<inter> tkeys x = {} \<and> rkeys (L ! k) \<inter> rkeys x = {} \<and>
      tkeys x \<inter> tkeys (L ! k) = {} \<and> rkeys x \<inter> rkeys (L ! k) = {}" if "k < length L" for k
    using assms(2,3) nth_mem [OF that] by blast
  consider "l < length L" "l' < length L" | "l = length L" "l' < length L" | "l < length L" "l' = length L"
    using l by fastforce
  then show "tkeys ((L @ [x]) ! l) \<inter> tkeys ((L @ [x]) ! l') = {} \<and>
      rkeys ((L @ [x]) ! l) \<inter> rkeys ((L @ [x]) ! l') = {}"
    by cases (simp_all add: nth_append old new)
qed

subsection \<open>A pinned cell\<close>

lemma markLesson_cases:
  "(\<exists>r. markLesson a d s i b = (None, b\<lparr>b_invalid := b_invalid b @ [r]\<rparr>))
   \<or> (\<exists>b'. markLesson a d s i b = (Some (length (b_lessons b)), b')
      \<and> b_counts b (a_key a) < a_periods a
      \<and> tkeys (a, d, s, i) \<inter> b_tbusy b = {} \<and> rkeys (a, d, s, i) \<inter> b_rbusy b = {}
      \<and> b_lessons b' = b_lessons b @ [lesson_at (a, d, s, i) True]
      \<and> b_tbusy b' = b_tbusy b \<union> tkeys (a, d, s, i) \<and> b_rbusy b' = b_rbusy b \<union> rkeys (a, d, s, i)
      \<and> b_counts b' = (b_counts b)(a_key a := b_counts b (a_key a) + 1)
      \<and> b_grids b' = b_grids b \<and> b_invalid b' = b_invalid b)"
proof (cases "b_counts b (a_key a) \<ge> a_periods a")
  case True
  then show ?thesis by (intro disjI1 exI [of _ "FixedDemandOverflow (a_key a)"]) (simp add: markLesson_def)
next
  case False
  show ?thesis
  proof (cases "List.find (\<lambda>k. k \<in> b_tbusy b) (teacherKeysOf a d s i)")
    case (Some k)
    then show ?thesis
      using False by (intro disjI1 exI [of _ "FixedTeacherCollision k"]) (simp add: markLesson_def)
  next
    case None
    then have "tkeys (a, d, s, i) \<inter> b_tbusy b = {}" by (auto simp: at_simps find_None_iff)
    moreover have "rkeys (a, d, s, i) \<inter> b_rbusy b = {}"
      if "\<not> (a_room a \<noteq> [] \<and> occupiedKey (a_room a) d s i \<in> b_rbusy b)"
      using that by (auto simp: at_simps room_keys_def)
    ultimately show ?thesis using False None by (auto simp: markLesson_def Let_def at_simps)
  qed
qed

lemma binv_pinned_cell:
  assumes inv: "binv A D L C b" and fresh: "C (ci_id (a_class a), d, s, i) = None"
    and a: "a \<in> A" "inj_on a_key A" "d \<in> D" and mark: "markLesson a d s i b = (Some l, b')"
  shows "l = length L \<and> b_grids b' = b_grids b
    \<and> binv A D (L @ [(a, d, s, i)]) (C((ci_id (a_class a), d, s, i) \<mapsto> Occupied l a True)) b'"
proof -
  let ?x = "(a, d, s, i)"
  have m: "l = length (b_lessons b)" "b_counts b (a_key a) < a_periods a"
    "tkeys ?x \<inter> b_tbusy b = {}" "rkeys ?x \<inter> b_rbusy b = {}" "b_lessons b' = b_lessons b @ [lesson_at ?x True]"
    "b_tbusy b' = b_tbusy b \<union> tkeys ?x" "b_rbusy b' = b_rbusy b \<union> rkeys ?x"
    "b_counts b' = (b_counts b)(a_key a := b_counts b (a_key a) + 1)" "b_grids b' = b_grids b"
    using markLesson_cases [of a d s i b] mark by auto
  have l: "l = length L" using m(1) binvD(1) [OF inv] by simp
  have ap: "apart (L @ [?x]) {}"
    by (rule apart_snoc [OF binvD(6) [OF inv]]) (use m(3,4) binvD(2,3) [OF inv] in blast)+
  have per: "b_counts b' (a_key a') \<le> a_periods a'" if "a' \<in> A" for a'
    using m(2,8) binvD(8) [OF inv that] inj_onD [OF a(2) _ that a(1)] by (cases "a_key a' = a_key a") auto
  have cells: "(C((ci_id (a_class a), d, s, i) \<mapsto> Occupied l a True)) (cid, p) = Some (Occupied k a' f) \<longleftrightarrow>
      k < length (L @ [?x]) \<and> (L @ [?x]) ! k = (a', p) \<and> cid = ci_id (a_class a') \<and> f" for cid p k a' f
  proof (cases "(cid, p) = (ci_id (a_class a), d, s, i)")
    case True
    have "\<not> (k < length L \<and> L ! k = (a', p) \<and> cid = ci_id (a_class a') \<and> f)"
      using fresh binvD(9) [OF inv, of cid p k a' f] True by simp
    then show ?thesis using True l by (auto simp: nth_append less_Suc_eq)
  next
    case False
    then show ?thesis using binvD(9) [OF inv, of cid p k a' f] by (auto simp: nth_append less_Suc_eq)
  qed
  have "binv A D (L @ [?x]) (C((ci_id (a_class a), d, s, i) \<mapsto> Occupied l a True)) b'"
    unfolding binv_def
  proof (intro conjI)
    show "\<forall>x\<in>set (L @ [?x]). tkeys x \<subseteq> b_tbusy b' \<and> rkeys x \<subseteq> b_rbusy b' \<and> fst x \<in> A \<and> fst (snd x) \<in> D"
    proof
      fix x
      assume "x \<in> set (L @ [?x])"
      then consider "x \<in> set L" | "x = ?x" by auto
      then show "tkeys x \<subseteq> b_tbusy b' \<and> rkeys x \<subseteq> b_rbusy b' \<and> fst x \<in> A \<and> fst (snd x) \<in> D"
        by cases (use m(6,7) binvD(2-5) [OF inv] a in \<open>(blast | simp)+\<close>)
    qed
    show "\<forall>k. b_counts b' k = length (filter (\<lambda>x. a_key (fst x) = k) (L @ [?x]))"
      using m(8) binvD(7) [OF inv] by simp
  qed (use m(5) binvD(1) [OF inv] ap per cells in \<open>auto simp del: fun_upd_apply\<close>)
  then show ?thesis using l m(9) by simp
qed

lemma base_cell_inv:
  assumes inv: "binv A D L C b" and fresh: "C (ci_id c, d, s, i) = None" and "d \<in> D"
    and ok: "fs_model_ok m" "c \<in> set (m_classes m)" "A = set (m_assignments m)"
    and step: "base_cell m c rules off raw d s i b = (cl, b')"
  shows "b_grids b' = b_grids b \<and> (\<exists>L'. binv A D L' (C((ci_id c, d, s, i) \<mapsto> cl)) b')"
proof -
  have idle: "binv A D L (C((ci_id c, d, s, i) \<mapsto> cl)) b''"
    if "cl = Free \<or> (\<exists>f. cl = Blocked f)" "b'' = b\<lparr>b_invalid := v\<rparr>" for b'' v
    using binv_frame [OF binv_idle_cell [OF inv fresh, of cl], of b''] that by auto
  let ?v = "if i < length raw then raw ! i else JUndef"
  show ?thesis
  proof (cases "isFixed ?v")
    case False
    then have "cl = Free \<or> cl = Blocked False" "b' = b"
      using step by (auto simp: base_cell_def Let_def split: if_splits)
    then show ?thesis using idle [of b "b_invalid b"] by auto
  next
    case fixed: True
    show ?thesis
    proof (cases "map_of (m_by_group m) (pair_key (ci_id c) (sj_group (m_subjects m) (cellSubject ?v)))")
      case None
      then have "cl = Blocked True" "\<exists>v. b' = b\<lparr>b_invalid := v\<rparr>"
        using step fixed by (auto simp: base_cell_def Let_def)
      then show ?thesis using idle by fastforce
    next
      case (Some a)
      then have a: "a \<in> A" "ci_id (a_class a) = ci_id c" "inj_on a_key A"
        using ok by (auto simp: fs_model_ok_def distinct_map)
      obtain r b1 where mk: "markLesson a d s i b = (r, b1)" by fastforce
      show ?thesis
      proof (cases r)
        case None
        then have "cl = Blocked True" "b' = b1" using step fixed Some mk by (auto simp: base_cell_def Let_def)
        moreover have "\<exists>v. b1 = b\<lparr>b_invalid := v\<rparr>" using markLesson_cases [of a d s i b] mk None by auto
        ultimately show ?thesis using idle by fastforce
      next
        case (Some l)
        then have "cl = Occupied l a True" "b' = b1"
          using step fixed mk \<open>map_of _ _ = Some a\<close> by (auto simp: base_cell_def Let_def)
        then show ?thesis using binv_pinned_cell [OF inv _ a(1,3) assms(3), of s i l b1] mk Some fresh a(2) by auto
      qed
    qed
  qed
qed

lemma base_cells_inv:
  assumes "binv A D L C b" "distinct is" "\<forall>i \<in> set is. C (ci_id c, d, s, i) = None" and d: "d \<in> D"
    and ok: "fs_model_ok m" "c \<in> set (m_classes m)" "A = set (m_assignments m)"
    and "base_cells (base_cell m c rules off raw d s) is b = (cs, b')"
  shows "length cs = length is \<and> b_grids b' = b_grids b
    \<and> (\<exists>L'. binv A D L' (C ++ map_of (zip (map (\<lambda>i. (ci_id c, d, s, i)) is) cs)) b')"
  using assms(1-3,8)
proof (induction "is" arbitrary: L C b cs)
  case Nil
  then show ?case by auto
next
  case (Cons i "is")
  obtain cl b1 where st: "base_cell m c rules off raw d s i b = (cl, b1)" by fastforce
  obtain cs' b2 where rest: "base_cells (base_cell m c rules off raw d s) is b1 = (cs', b2)" by fastforce
  have res: "cs = cl # cs'" "b' = b2" using Cons.prems(4) st rest by auto
  from base_cell_inv [OF Cons.prems(1) _ d ok st] Cons.prems(3)
  obtain L1 where L1: "b_grids b1 = b_grids b" "binv A D L1 (C((ci_id c, d, s, i) \<mapsto> cl)) b1" by auto
  have fresh: "\<forall>j \<in> set is. (C((ci_id c, d, s, i) \<mapsto> cl)) (ci_id c, d, s, j) = None"
    using Cons.prems(2,3) by auto
  have "distinct is" using Cons.prems(2) by simp
  from Cons.IH [OF L1(2) this fresh rest [folded res(2)]]
  obtain L' where L': "length cs' = length is" "b_grids b' = b_grids b1"
    "binv A D L' (C((ci_id c, d, s, i) \<mapsto> cl) ++ map_of (zip (map (\<lambda>i. (ci_id c, d, s, i)) is) cs')) b'" by blast
  have "(ci_id c, d, s, i) \<notin> dom (map_of (zip (map (\<lambda>i. (ci_id c, d, s, i)) is) cs'))"
    using Cons.prems(2) L'(1) by (auto simp: dom_map_of_zip)
  then have eq: "C((ci_id c, d, s, i) \<mapsto> cl) ++ map_of (zip (map (\<lambda>i. (ci_id c, d, s, i)) is) cs')
      = C ++ map_of (zip (map (\<lambda>i. (ci_id c, d, s, i)) (i # is)) cs)"
    by (simp add: res map_add_upd_left)
  have "length cs = length (i # is) \<and> b_grids b' = b_grids b" using L'(1,2) L1(1) res by simp
  then show ?case using L'(3) [unfolded eq] by blast
qed

subsection \<open>The grid of a class and all the classes\<close>

definition gview :: "ustr \<Rightarrow> grid \<Rightarrow> cell_map" where
  "gview cid g = (\<lambda>(cid', d, s, i). if cid' = cid \<and> i < length (g d s) then Some (g d s ! i) else None)"

definition view :: "(ustr \<times> grid) list \<Rightarrow> cell_map" where
  "view gs = (\<lambda>(cid, d, s, i). case map_of gs cid of None \<Rightarrow> None
     | Some g \<Rightarrow> if i < length (g d s) then Some (g d s ! i) else None)"

lemma map_of_zip_row:
  assumes "length cs = n"
  shows "map_of (zip (map (\<lambda>i. (cid, d, s, i)) [0..<n]) cs) (cid', d', s', i) =
    (if cid' = cid \<and> d' = d \<and> s' = s \<and> i < n then Some (cs ! i) else None)"
proof (cases "cid' = cid \<and> d' = d \<and> s' = s \<and> i < n")
  case True
  let ?ks = "map (\<lambda>i. (cid, d, s, i)) [0..<n]"
  have "distinct ?ks" by (simp add: distinct_map inj_on_def)
  then have "map_of (zip ?ks cs) (?ks ! i) = Some (cs ! i)"
    using True assms by (intro map_of_zip_nth) simp_all
  then show ?thesis using True by simp
next
  case False
  then have "(cid', d', s', i) \<notin> set (map (\<lambda>i. (cid, d, s, i)) [0..<n])" by auto
  then show ?thesis using False assms map_of_zip_is_None [of "map (\<lambda>i. (cid, d, s, i)) [0..<n]" cs] by auto
qed

lemma gview_row:
  assumes "g d s = []" "length cs = n"
  shows "gview cid (g(d := (g d)(s := cs))) = gview cid g ++ map_of (zip (map (\<lambda>i. (cid, d, s, i)) [0..<n]) cs)"
proof (rule ext)
  fix q :: "ustr \<times> place"
  obtain cid' d' s' i where q: "q = (cid', d', s', i)" by (cases q)
  show "gview cid (g(d := (g d)(s := cs))) q =
      (gview cid g ++ map_of (zip (map (\<lambda>i. (cid, d, s, i)) [0..<n]) cs)) q"
    using assms by (auto simp: q gview_def map_add_def map_of_zip_row)
qed

lemma base_grid_fold_inv:
  assumes "binv A D L (view (b_grids b) ++ gview (ci_id c) g) b" "distinct ps"
    "\<And>d s. (d, s) \<in> set ps \<Longrightarrow> g d s = [] \<and> d \<in> D" "ci_id c \<notin> fst ` set (b_grids b)"
    and ok: "fs_model_ok m" "c \<in> set (m_classes m)" "A = set (m_assignments m)"
    and "fold (base_grid_step m c) ps (g, b) = (g', b')"
  shows "b_grids b' = b_grids b \<and> (\<exists>L'. binv A D L' (view (b_grids b) ++ gview (ci_id c) g') b')"
  using assms(1-4,8)
proof (induction ps arbitrary: L g b)
  case Nil
  then show ?case by auto
next
  case (Cons p ps)
  obtain d s where p: "p = (d, s)" by (cases p)
  obtain g1 b1 where st: "base_grid_step m c (d, s) (g, b) = (g1, b1)" by fastforce
  obtain rules off raw cs where g1: "g1 = g(d := (g d)(s := cs))"
    and bc: "base_cells (base_cell m c rules off raw d s) [0..<max 5 (length raw)] b = (cs, b1)"
    using st by (auto simp: base_grid_step_def Let_def split: prod.splits)
  have ds: "g d s = []" "d \<in> D" using Cons.prems(3) p by auto
  have noview: "view (b_grids b) (ci_id c, d', s', i) = None" for d' s' i
    using Cons.prems(4) map_of_eq_None_iff [of "b_grids b" "ci_id c"] by (simp add: view_def)
  then have "(view (b_grids b) ++ gview (ci_id c) g) (ci_id c, d, s, i) = None" for i
    using ds by (simp add: map_add_def gview_def)
  with base_cells_inv [OF Cons.prems(1) _ _ ds(2) ok bc] obtain L1 where L1: "length cs = max 5 (length raw)"
    "b_grids b1 = b_grids b"
    "binv A D L1 ((view (b_grids b) ++ gview (ci_id c) g) ++
       map_of (zip (map (\<lambda>i. (ci_id c, d, s, i)) [0..<max 5 (length raw)]) cs)) b1" by auto
  then have "binv A D L1 (view (b_grids b1) ++ gview (ci_id c) g1) b1"
    using gview_row [where g = g and d = d and s = s, OF ds(1), of cs "max 5 (length raw)" "ci_id c"] by (simp add: g1 map_add_assoc)
  moreover have "g1 d' s' = [] \<and> d' \<in> D" if "(d', s') \<in> set ps" for d' s'
    using Cons.prems(2,3) that p by (auto simp: g1)
  moreover have "fold (base_grid_step m c) ps (g1, b1) = (g', b')" using Cons.prems(5) st p by simp
  ultimately show ?case using Cons.IH [of L1 b1 g1] Cons.prems(2,4) L1(2) by auto
qed

lemma view_update:
  assumes "cid \<notin> fst ` set gs"
  shows "view (AList.update cid g gs) = view gs ++ gview cid g"
proof (rule ext)
  fix q :: "ustr \<times> place"
  obtain cid' d s i where q: "q = (cid', d, s, i)" by (cases q)
  have "map_of gs cid = None" using assms by (simp add: map_of_eq_None_iff)
  then show "view (AList.update cid g gs) q = (view gs ++ gview cid g) q"
    by (auto simp: q view_def gview_def map_add_def)
qed

lemma distinct_days_sessions: "distinct ds \<Longrightarrow> distinct [(d, s). d \<leftarrow> ds, s \<leftarrow> session_keys]"
  by (induction ds) (auto simp: session_keys_def)

lemma base_class_inv:
  assumes "binv A D L (view (b_grids b)) b" "ci_id c \<notin> fst ` set (b_grids b)" "D = set (m_days m)"
    and ok: "fs_model_ok m" "c \<in> set (m_classes m)" "A = set (m_assignments m)"
  shows "\<exists>L' g. b_grids (base_class_step m c b) = AList.update (ci_id c) g (b_grids b)
    \<and> binv A D L' (view (b_grids (base_class_step m c b))) (base_class_step m c b)"
proof -
  let ?ps = "[(d, s). d \<leftarrow> m_days m, s \<leftarrow> session_keys]"
  obtain g b' where st: "fold (base_grid_step m c) ?ps (\<lambda>_ _. [], b) = (g, b')" by fastforce
  have "gview (ci_id c) (\<lambda>_ _. []) = Map.empty" by (auto simp: gview_def)
  then have pre: "binv A D L (view (b_grids b) ++ gview (ci_id c) (\<lambda>_ _. [])) b" using assms(1) by simp
  have dist: "distinct ?ps"
    using ok(1) by (intro distinct_days_sessions) (simp add: fs_model_ok_def)
  from base_grid_fold_inv [OF pre dist _ assms(2) ok st] assms(3) obtain L' where
    L': "b_grids b' = b_grids b" "binv A D L' (view (b_grids b) ++ gview (ci_id c) g) b'" by auto
  have cls: "base_class_step m c b = b'\<lparr>b_grids := AList.update (ci_id c) g (b_grids b')\<rparr>"
    by (simp add: base_class_step_def st)
  have "binv A D L' (view (b_grids (base_class_step m c b))) (base_class_step m c b)"
    by (rule binv_frame [of _ _ _ _ b']) (use L' view_update [OF assms(2), of g] in \<open>simp_all add: cls\<close>)
  then show ?thesis using L'(1) cls by auto
qed

lemma createBaseState_inv:
  assumes ok: "fs_model_ok m"
  shows "\<exists>L. binv (set (m_assignments m)) (set (m_days m)) L (view (b_grids (createBaseState m))) (createBaseState m)
    \<and> distinct (map fst (b_grids (createBaseState m)))
    \<and> fst ` set (b_grids (createBaseState m)) = ci_id ` set (m_classes m)"
proof -
  let ?A = "set (m_assignments m)" and ?D = "set (m_days m)"
  have step: "\<exists>L'. binv ?A ?D L' (view (b_grids (fold (base_class_step m) cs b))) (fold (base_class_step m) cs b)
      \<and> distinct (map fst (b_grids (fold (base_class_step m) cs b)))
      \<and> fst ` set (b_grids (fold (base_class_step m) cs b)) = fst ` set (b_grids b) \<union> ci_id ` set cs"
    if "binv ?A ?D L (view (b_grids b)) b" "distinct (map fst (b_grids b))" "set cs \<subseteq> set (m_classes m)"
      "distinct (map ci_id cs)" "fst ` set (b_grids b) \<inter> ci_id ` set cs = {}" for L b cs
    using that
  proof (induction cs arbitrary: L b)
    case Nil
    then show ?case by auto
  next
    case (Cons c cs)
    from base_class_inv [OF Cons.prems(1) _ refl ok, of c] Cons.prems(3,5) obtain L' g where L':
      "b_grids (base_class_step m c b) = AList.update (ci_id c) g (b_grids b)"
      "binv ?A ?D L' (view (b_grids (base_class_step m c b))) (base_class_step m c b)" by auto
    have keys: "fst ` set (b_grids (base_class_step m c b)) = insert (ci_id c) (fst ` set (b_grids b))"
      "distinct (map fst (b_grids (base_class_step m c b)))"
      using Cons.prems(2) by (simp_all add: L'(1) distinct_update dom_update)
    from Cons.IH [OF L'(2) keys(2)] Cons.prems(3-5) keys(1) show ?case by auto
  qed
  have "binv ?A ?D [] (view (b_grids empty_base)) empty_base"
    by (simp add: binv_def empty_base_def apart_def view_def)
  from step [OF this, of "m_classes m"] ok show ?thesis
    by (simp add: createBaseState_def fs_model_ok_def empty_base_def)
qed

end
