(* ===== verification/FsGenerate.thy ===== *)
theory FsGenerate
  imports FsBase
begin

section \<open>Fast seed: the model that is built, an attempt, and \<open>generate\<close>\<close>

text \<open>
  The data determine a model that meets \<open>fs_model_ok\<close> when no class id contains the separator
  \<open>|\<close>; an attempt starts from the base state's invariant and ends with a timetable that keeps
  the pinned lessons, is free of clashes and accounts for every period.
\<close>

subsection \<open>\<open>buildModel\<close>\<close>

definition plain_ids :: "js \<Rightarrow> bool" where
  "plain_ids data \<longleftrightarrow> list_all (\<lambda>row. 124 \<notin> set (row_class_id row)) (array_of (jprop data ''lop''))"

text \<open>The days of the school are those of the default week (the data may add others).\<close>

definition plain_days :: "js \<Rightarrow> bool" where
  "plain_days data \<longleftrightarrow> list_all (\<lambda>d. d \<in> set default_days) (model_days data)"

lemma fold_invariant: "P s \<Longrightarrow> (\<And>x s. x \<in> set xs \<Longrightarrow> P s \<Longrightarrow> P (f x s)) \<Longrightarrow> P (fold f xs s)"
  by (induction xs arbitrary: s) auto

lemma set_update_subset: "set (AList.update k v m) \<subseteq> insert (k, v) (set m)"
  by (induction m) auto

definition class_tables_ok :: "class_table \<times> class_table \<Rightarrow> bool" where
  "class_tables_ok t \<longleftrightarrow> distinct (map fst (fst t)) \<and> (\<forall>(k, c) \<in> set (fst t). ci_id c = k)
     \<and> (\<forall>(k, c) \<in> set (fst t) \<union> set (snd t). 124 \<notin> set (ci_id c))"

lemma set_enter_keys:
  "set (fold (\<lambda>k. AList.update k item) keys al) \<subseteq> set al \<union> (\<lambda>k. (k, item)) ` set keys"
proof (induction keys arbitrary: al)
  case (Cons k keys)
  then show ?case using set_update_subset [of k item al] by fastforce
qed simp

lemma class_tables_enter:
  assumes "class_tables_ok (byId, al)" "124 \<notin> set (ci_id item)"
  shows "class_tables_ok (AList.update (ci_id item) item byId, fold (\<lambda>k. AList.update k item) keys al)"
proof -
  have mem: "(k, c) \<in> set byId \<or> k = ci_id item \<and> c = item" if "(k, c) \<in> set (AList.update (ci_id item) item byId)" for k c
    using set_update_subset [of "ci_id item" item byId] that by blast
  have mem2: "(k, c) \<in> set al \<or> c = item" if "(k, c) \<in> set (fold (\<lambda>k. AList.update k item) keys al)" for k c
    using set_enter_keys [of item keys al] that by blast
  show ?thesis
    using assms mem mem2 unfolding class_tables_ok_def by (auto simp: distinct_update) blast+
qed

lemma class_rows_ok:
  assumes "plain_ids data"
  shows "class_tables_ok (class_rows data)"
  unfolding class_rows_def
proof (rule fold_invariant)
  show "class_tables_ok ([], [])" by (simp add: class_tables_ok_def)
next
  fix row and s :: "class_table \<times> class_table"
  assume "row \<in> set (array_of (jprop data ''lop''))" "class_tables_ok s"
  moreover from this have "124 \<notin> set (ci_id (class_item row))"
    using assms by (simp add: plain_ids_def class_item_def list_all_iff)
  moreover have "ci_id (class_item row) = row_class_id row" by (simp add: class_item_def)
  ultimately show "class_tables_ok (add_class_row row s)"
    using class_tables_enter [of "fst s" "snd s" "class_item row"] by (simp add: add_class_row_def Let_def)
qed

lemma make_assignment_class: "make_assignment data sj ts rs c subject raw = Some a \<Longrightarrow> a_class a = c"
  by (auto simp: make_assignment_def Let_def split: prod.splits if_splits)

definition assignments_ok :: "assignment list \<times> (ustr \<times> assignment) list \<Rightarrow> bool" where
  "assignments_ok t \<longleftrightarrow> distinct (map a_key (fst t)) \<and>
     (\<forall>k a. map_of (snd t) k = Some a \<longrightarrow> a \<in> set (fst t)
        \<and> k = pair_key (ci_id (a_class a)) (a_group a) \<and> 124 \<notin> set (ci_id (a_class a)))"

lemma add_assignment_ok:
  assumes ok: "assignments_ok acc" and cls: "\<forall>(k, c) \<in> set classAliases. 124 \<notin> set (ci_id c)"
  shows "assignments_ok (add_assignment data sj ts rs classAliases entry acc)"
proof -
  obtain key rawTeacher where e: "entry = (key, rawTeacher)" by (cases entry)
  obtain classAlias subject where sk: "splitAssignmentKey key = (classAlias, subject)" by fastforce
  show ?thesis
  proof (cases "map_of classAliases (normalized classAlias)")
    case None
    then show ?thesis using ok by (simp add: add_assignment_def e sk)
  next
    case (Some c)
    then have nb: "124 \<notin> set (ci_id c)" using cls by (auto dest: map_of_SomeD)
    show ?thesis
    proof (cases "make_assignment data sj ts rs c subject (text_of rawTeacher)")
      case None
      then show ?thesis using ok Some by (simp add: add_assignment_def e sk)
    next
      case (Some a)
      have "assignments_ok (fst acc @ [a], AList.update (pair_key (ci_id c) (a_group a)) a (snd acc))"
        if "a_key a \<notin> a_key ` set (fst acc)"
        using ok that nb make_assignment_class [OF Some] by (auto simp: assignments_ok_def)
      then show ?thesis using ok Some \<open>map_of _ _ = Some c\<close> by (simp add: add_assignment_def e sk)
    qed
  qed
qed

lemma pair_key_inject: "124 \<notin> set a \<Longrightarrow> 124 \<notin> set a' \<Longrightarrow> pair_key a b = pair_key a' b' \<longleftrightarrow> a = a' \<and> b = b'"
  by (simp add: pair_key_def append_sep_inject)

lemma distinct_set_add [simp]: "distinct (set_add x xs) \<longleftrightarrow> distinct xs"
  by (simp add: set_add_def)

lemma distinct_default_days: "distinct default_days"
  by (simp add: default_days_def u_def)

lemma distinct_model_days: "distinct (model_days data)"
proof -
  have "distinct (fold (\<lambda>schedule ds. if is_object schedule
              then fold (\<lambda>d ds. if is_day_name d then set_add d ds else ds) (map fst (entries schedule)) ds
              else ds) xs default_days)" for xs
  proof (rule fold_invariant [where P = distinct])
    fix sch ds
    assume "distinct (ds :: ustr list)"
    then have "distinct (fold (\<lambda>d ds. if is_day_name d then set_add d ds else ds) (map fst (entries sch)) ds)"
      by (intro fold_invariant [where P = distinct]) simp_all
    then show "distinct (if is_object sch
        then fold (\<lambda>d ds. if is_day_name d then set_add d ds else ds) (map fst (entries sch)) ds else ds)"
      using \<open>distinct ds\<close> by simp
  qed (rule distinct_default_days)
  then show ?thesis by (simp add: model_days_def)
qed

lemma buildModel_ok:
  assumes "plain_ids data"
  shows "fs_model_ok (buildModel data)"
proof -
  obtain byId al where cr: "class_rows data = (byId, al)" by fastforce
  have tab: "class_tables_ok (byId, al)" using class_rows_ok [OF assms] cr by simp
  let ?f = "add_assignment data (subjectGroups data) (teacher_alias_table data) (room_alias_table data) al"
  obtain as bg where acc: "fold ?f (matrix_of (jprop data ''pccmMatrix'')) ([], []) = (as, bg)" by fastforce
  have cls: "\<forall>(k, c) \<in> set al. 124 \<notin> set (ci_id c)" using tab by (auto simp: class_tables_ok_def)
  have "assignments_ok (fold ?f (matrix_of (jprop data ''pccmMatrix'')) ([], []))"
    by (rule fold_invariant [where P = assignments_ok])
      (simp add: assignments_ok_def, rule add_assignment_ok [OF _ cls])
  then have aok: "assignments_ok (as, bg)" by (simp only: acc)
  have "distinct (map ci_id (map snd byId))"
  proof -
    have eq: "map ci_id (map snd byId) = map fst byId"
      using tab by (auto simp: class_tables_ok_def)
    show ?thesis unfolding eq using tab by (simp add: class_tables_ok_def)
  qed
  moreover have "a \<in> set as \<and> ci_id (a_class a) = ci_id c"
    if c: "c \<in> set (map snd byId)" and m: "map_of bg (pair_key (ci_id c) g) = Some a" for c g a
  proof -
    have "124 \<notin> set (ci_id c)" using tab c by (auto simp: class_tables_ok_def)
    moreover have "a \<in> set as" "pair_key (ci_id c) g = pair_key (ci_id (a_class a)) (a_group a)"
      "124 \<notin> set (ci_id (a_class a))"
      using aok m by (simp_all add: assignments_ok_def)
    ultimately show ?thesis by (simp add: pair_key_inject)
  qed
  moreover have "distinct (map a_key as)" using aok by (simp add: assignments_ok_def)
  ultimately show ?thesis
    unfolding fs_model_ok_def by (simp add: buildModel_def cr acc distinct_model_days)
qed

subsection \<open>The initial state of an attempt\<close>

lemma day_name_roundtrip: "d \<in> set default_days \<Longrightarrow> u ''thu'' @ nat_str (dayNumber d) = d"
proof -
  have "list_all (\<lambda>d. u ''thu'' @ nat_str (dayNumber d) = d) default_days" by code_simp
  then show "d \<in> set default_days \<Longrightarrow> ?thesis" by (simp add: list_all_iff)
qed

lemma dayNumber_inj: "inj_on dayNumber (set default_days)"
  by (rule inj_on_inverseI [where g = "\<lambda>n. u ''thu'' @ nat_str n"]) (rule day_name_roundtrip)

definition ctx_of :: "fs_model \<Rightarrow> base_state \<Rightarrow> owners \<Rightarrow> fs_ctx" where
  "ctx_of m b L = \<lparr>x_as = set (m_assignments m), x_days = set (m_days m), x_n0 = length L, x_c0 = cnt L {},
     x_len = (\<lambda>cid d s. case map_of (b_grids b) cid of Some g \<Rightarrow> length (g d s) | None \<Rightarrow> 0),
     x_blk = (\<lambda>cid p f. view (b_grids b) (cid, p) = Some (Blocked f))\<rparr>"

definition based :: "fs_model \<Rightarrow> base_state \<Rightarrow> owners \<Rightarrow> bool" where
  "based m b L \<longleftrightarrow> binv (set (m_assignments m)) (set (m_days m)) L (view (b_grids b)) b
     \<and> distinct (map fst (b_grids b)) \<and> distinct (map a_key (m_assignments m))
     \<and> set (m_days m) \<subseteq> set default_days"

lemma createBaseState_based:
  assumes "fs_model_ok m" "set (m_days m) \<subseteq> set default_days"
  shows "\<exists>L. based m (createBaseState m) L"
  using createBaseState_inv [OF assms(1)] assms by (auto simp: based_def fs_model_ok_def)

lemma initial_counts_cnt:
  assumes "\<forall>x \<in> set L. fst (snd x) \<in> set default_days"
  shows "initial_counts (map (\<lambda>x. lesson_at x True) L) = cnt L {}"
proof (rule ext)
  fix k
  have "(l_class l, u ''thu'' @ nat_str (l_day l), l_session l, normalized (l_subject l)) = skey x"
    if "x \<in> set L" "l = lesson_at x True" for x l
    using day_name_roundtrip assms that by (simp add: at_simps lesson_of_def subjectSessionKey_def)
  then have "initial_counts (map (\<lambda>x. lesson_at x True) L) k = length (filter (\<lambda>x. skey x = k) L)"
    unfolding initial_counts_def filter_map length_map comp_def
    by (intro arg_cong [where f = length] filter_cong) auto
  also have "\<dots> = cnt L {} k" by (simp add: length_filter_conv_card cnt_def)
  finally show "initial_counts (map (\<lambda>x. lesson_at x True) L) k = cnt L {} k" .
qed

lemma cell_is_view: "t_grids st = gs \<Longrightarrow> cell_is st cid p c \<longleftrightarrow> view gs (cid, p) = Some c"
  by (auto simp: cell_is_def class_cells_def view_def split: prod.splits option.splits)

lemma cloneState_inv:
  assumes "based m b L"
  shows "fs_inv (ctx_of m b L) L {} (cloneState b r t)"
proof -
  let ?st = "cloneState b r t"
  have inv: "binv (set (m_assignments m)) (set (m_days m)) L (view (b_grids b)) b"
    and d: "distinct (map fst (b_grids b))" "set (m_days m) \<subseteq> set default_days" using assms by (auto simp: based_def)
  note bi = binvD [OF inv]
  have "fs_cells L {} (length L) ?st"
    unfolding fs_cells_def
  proof (intro allI)
    fix cid p l a f
    show "cell_is ?st cid p (Occupied l a f) \<longleftrightarrow>
        l < length L \<and> l \<notin> {} \<and> L ! l = (a, p) \<and> cid = ci_id (a_class a) \<and> f = (l < length L)"
      using bi(9) [of cid p l a f] cell_is_view [of ?st "b_grids b" cid p] by (auto simp: cloneState_def)
  qed
  moreover have "fs_lessons L {} (length L) ?st"
    using bi(1) by (simp add: fs_lessons_def cloneState_def)
  moreover have "fs_busy L {} ?st"
    using bi(2,3) by (simp add: fs_busy_def cloneState_def)
  moreover have "legal (set (m_assignments m)) (set (m_days m)) L (length L)"
    using bi(4,5) by (auto simp: legal_def)
  moreover have "t_counts ?st = cnt L {}"
    using initial_counts_cnt [of L] bi(1) bi(5) d(2) by (simp add: cloneState_def subset_iff)
  moreover have "length (class_cells ?st cid dd s) = x_len (ctx_of m b L) cid dd s" for cid dd s
    by (simp add: class_cells_def cloneState_def ctx_of_def split: option.splits)
  moreover have "fs_blk (ctx_of m b L) ?st"
    using cell_is_view [of ?st "b_grids b"] by (simp add: fs_blk_def ctx_of_def cloneState_def)
  ultimately show ?thesis
    using bi(6) d(1) unfolding fs_inv_def by (simp add: ctx_of_def cloneState_def)
qed

subsection \<open>One attempt\<close>

lemma sort_keys_facts:
  assumes "sort_keys m b k as st = (ks, st')"
  shows "map snd ks = as \<and> obs st' = obs st"
  using assms
proof (induction "as" arbitrary: ks st st')
  case Nil
  then show ?case by simp
next
  case (Cons a as)
  obtain v st1 where dr: "draw st = (v, st1)" by fastforce
  obtain rest st2 where sk: "sort_keys m b k as st1 = (rest, st2)" by fastforce
  show ?case using Cons.prems Cons.IH [OF sk] dr sk obs_draw [of st] by (auto simp: Let_def)
qed

lemma orderedAssignments_facts:
  assumes "orderedAssignments m b seed st = (as, st')"
  shows "mset as = mset (m_assignments m) \<and> obs st' = obs st"
proof -
  obtain ks st1 where sk: "sort_keys m b (nat (\<bar>seed\<bar> mod 4)) (m_assignments m) st = (ks, st1)" by fastforce
  then have "as = map snd (sort_key fst ks)" "st' = st1" using assms by (auto simp: orderedAssignments_def)
  moreover have "mset (map snd (sort_key fst ks)) = image_mset snd (mset ks)" by simp
  moreover have "\<dots> = mset (map snd ks)" by simp
  ultimately show ?thesis using sort_keys_facts [OF sk] by simp
qed

text \<open>The demand of the assignments, weighted.\<close>

definition demand :: "(ustr \<Rightarrow> nat) \<Rightarrow> fs_model \<Rightarrow> nat" where
  "demand w m = sum_list (map (\<lambda>a. a_periods a * w (a_key a)) (m_assignments m))"

lemma counted_weight:
  assumes "distinct (map a_key as)" "\<forall>x \<in> set L. fst x \<in> set as"
  shows "sum_list (map (\<lambda>a. length (filter (\<lambda>x. a_key (fst x) = a_key a) L) * w (a_key a)) as) = keysum w L"
  using assms(2)
proof (induction L)
  case Nil
  then show ?case by (simp add: keysum_def)
next
  case (Cons x L)
  have one: "sum_list (map (\<lambda>a. if a_key (fst x) = a_key a then w (a_key a) else 0) as) = w (a_key (fst x))"
  proof -
    have "sum_list (map (\<lambda>k. if a_key (fst x) = k then w k else 0) (map a_key as)) =
        (\<Sum>k \<in> set (map a_key as). if a_key (fst x) = k then w k else 0)"
      by (rule sum_list_distinct_conv_sum_set [OF assms(1)])
    also have "\<dots> = w (a_key (fst x))" using Cons.prems by auto
    finally show ?thesis by (simp add: comp_def)
  qed
  have "sum_list (map (\<lambda>a. length (filter (\<lambda>x. a_key (fst x) = a_key a) (x # L)) * w (a_key a)) as) =
    sum_list (map (\<lambda>a. (if a_key (fst x) = a_key a then w (a_key a) else 0)
        + length (filter (\<lambda>x. a_key (fst x) = a_key a) L) * w (a_key a)) as)"
    by (intro arg_cong [where f = sum_list] map_cong) auto
  also have "\<dots> = w (a_key (fst x)) + keysum w L"
    using Cons one by (simp add: sum_list_addf)
  finally show ?case by (simp add: keysum_def)
qed

lemma base_demand:
  assumes "based m b L"
  shows "keysum w L + sum_list (map (\<lambda>a. remaining_periods b a * w (a_key a)) (m_assignments m)) = demand w m"
proof -
  have inv: "binv (set (m_assignments m)) (set (m_days m)) L (view (b_grids b)) b"
    and dk: "distinct (map a_key (m_assignments m))" using assms by (auto simp: based_def)
  have "keysum w L = sum_list (map (\<lambda>a. b_counts b (a_key a) * w (a_key a)) (m_assignments m))"
    using counted_weight [OF dk, of L w] binvD(4,7) [OF inv] by simp
  then have "keysum w L + sum_list (map (\<lambda>a. remaining_periods b a * w (a_key a)) (m_assignments m)) =
    sum_list (map (\<lambda>a. b_counts b (a_key a) * w (a_key a) + remaining_periods b a * w (a_key a)) (m_assignments m))"
    by (simp add: sum_list_addf)
  also have "\<dots> = demand w m"
    unfolding demand_def
    using binvD(8) [OF inv]
    by (intro arg_cong [where f = sum_list] map_cong refl) (simp add: remaining_periods_def flip: add_mult_distrib)
  finally show ?thesis .
qed

lemma unsum_filter: "unsum w (filter (\<lambda>x. un_periods x > 0) us) = unsum w us"
  by (induction us) (auto simp: unsum_def)

lemma buildAttempt_correct:
  assumes b: "based m b L" and tie: "tie_ok e" and res: "buildAttempt e m b seed dl ticks = (c, st)"
  shows "\<exists>L'. fs_inv (ctx_of m b L) L' {} st \<and> kept (length L) L L'
    \<and> cd_lessons c = map (\<lambda>x. lesson_at x False) L' \<and> cd_expected c = m_expected m
    \<and> (\<forall>w. keysum w L' + unsum w (cd_unassigned c) = demand w m)"
proof -
  let ?x = "ctx_of m b L"
  let ?st0 = "cloneState b (mulberry32 seed) ticks"
  obtain as st1 where oa: "orderedAssignments m b seed ?st0 = (as, st1)" by fastforce
  obtain us st2 where pa: "place_assignments e dl m b as st1 = (us, st2)" by fastforce
  obtain us' st3 where rr: "repair_rounds e dl m 3 us st2 = (us', st3)" by fastforce
  have res': "st = st3" "cd_lessons c = map (\<lambda>l. l\<lparr>l_fixed := False\<rparr>) (t_lessons st3)"
    "cd_expected c = m_expected m" "cd_unassigned c = filter (\<lambda>x. un_periods x > 0) us'"
    using res oa pa rr by (auto simp: buildAttempt_def Let_def)
  note oaf = orderedAssignments_facts [OF oa]
  have inv1: "fs_inv ?x L {} st1"
    using cloneState_inv [OF b] oaf fs_inv_cong [of st1 ?st0] by simp
  have sets: "set as \<subseteq> x_as ?x" "set (m_days m) \<subseteq> x_days ?x" "set (m_assignments m) \<subseteq> x_as ?x"
    using oaf by (auto simp: ctx_of_def dest: mset_eq_setD)
  from place_assignments_correct [OF inv1 sets(1,2) pa] obtain L1 where L1: "fs_inv ?x L1 {} st2"
    "kept (x_n0 ?x) L L1" "\<And>w. keysum w L1 + unsum w us =
      keysum w L + sum_list (map (\<lambda>a. remaining_periods b a * w (a_key a)) as)" by blast
  from repair_rounds_correct [OF L1(1) sets(3,2) tie rr] obtain L' where L': "fs_inv ?x L' {} st3"
    "kept (x_n0 ?x) L1 L'" "\<And>w. keysum w L' + unsum w us' = keysum w L1 + unsum w us" by blast
  have same: "sum_list (map f as) = sum_list (map f (m_assignments m))" for f :: "assignment \<Rightarrow> nat"
  proof -
    have "mset (map f as) = mset (map f (m_assignments m))" using oaf by simp
    then show ?thesis by (metis sum_mset_sum_list)
  qed
  have acc: "keysum w L' + unsum w (cd_unassigned c) = demand w m" for w
    using L'(3) [of w] L1(3) [of w] base_demand [OF b, of w] by (simp add: res' unsum_filter same)
  have les: "fs_lessons L' {} (x_n0 ?x) st3" using L'(1) unfolding fs_inv_def by blast
  have "cd_lessons c = map (\<lambda>x. lesson_at x False) L'"
  proof (rule nth_equalityI)
    show "length (cd_lessons c) = length (map (\<lambda>x. lesson_at x False) L')"
      using les by (simp add: res' fs_lessons_def)
    fix i
    assume "i < length (cd_lessons c)"
    then show "cd_lessons c ! i = map (\<lambda>x. lesson_at x False) L' ! i"
      using les by (simp add: res' fs_lessons_def lesson_at_def lesson_of_def)
  qed
  moreover have "kept (length L) L L'"
    using kept_trans [OF L1(2) L'(2)] by (simp add: ctx_of_def)
  ultimately show ?thesis using L'(1) acc res' by blast
qed

subsection \<open>\<open>run_attempts\<close>\<close>

text \<open>The candidates that the loop of \<open>generate\<close> may return: results of an attempt.\<close>

definition attempt_of :: "fs_env \<Rightarrow> fs_model \<Rightarrow> base_state \<Rightarrow> rat \<Rightarrow> candidate \<Rightarrow> bool" where
  "attempt_of e m b dl c \<longleftrightarrow> (\<exists>seed ticks. fst (buildAttempt e m b seed dl ticks) = c)"

lemma run_attempts_from:
  assumes "run_attempts e m b seed dl n made best ticks = (k, r)"
    "\<forall>c. best = Some c \<longrightarrow> attempt_of e m b dl c"
  shows "\<forall>c. r = Some c \<longrightarrow> attempt_of e m b dl c"
  using assms
proof (induction n arbitrary: made best ticks)
  case 0
  then show ?case by simp
next
  case (Suc n)
  obtain c st where ba: "buildAttempt e m b (seed + int made * 104729) dl (Suc ticks) = (c, st)" by fastforce
  have "attempt_of e m b dl c" unfolding attempt_of_def by (metis ba fst_conv)
  then have nb: "\<forall>d. (if betterCandidate c best then Some c else best) = Some d \<longrightarrow> attempt_of e m b dl d"
    using Suc.prems(2) by auto
  show ?case
    using Suc.prems Suc.IH [OF _ nb] nb
    by (auto simp add: ba Let_def split: if_split_asm option.split_asm)
qed

end
