(* ===== verification/FsCells.thy ===== *)
theory FsCells
  imports FsGenerate
begin

section \<open>Fast seed: what a cell of the base state says about the data\<close>

text \<open>
  Every cell of the base grids is the result of one step of the walk over the data: a pinned cell
  is occupied by its assignment or an invalid reason is recorded, a cell that is off (chosen by the
  user or by a rule of the class) is blocked, every other cell is free.
\<close>

definition raw_cells :: "fs_model \<Rightarrow> class_info \<Rightarrow> ustr \<Rightarrow> session \<Rightarrow> js list" where
  "raw_cells m c day session = array_of (jget (jget (data_of_class (m_data m) ''tkb'' c) day) (session_str session))"

definition raw_cell :: "fs_model \<Rightarrow> class_info \<Rightarrow> ustr \<Rightarrow> session \<Rightarrow> nat \<Rightarrow> js" where
  "raw_cell m c day session i =
     (if i < length (raw_cells m c day session) then raw_cells m c day session ! i else JUndef)"

definition class_off :: "fs_model \<Rightarrow> class_info \<Rightarrow> ustr \<Rightarrow> session \<Rightarrow> nat \<Rightarrow> bool" where
  "class_off m c day session i \<longleftrightarrow>
     List.member (user_off_keys (data_of_class (m_data m) ''tkbUserOff'' c)) (slotKey day session i)
     \<or> ruleBlocks (offRulesFor ''class'' [ci_id c, ci_name c] (js_or (jprop (m_data m) ''tkbConstraints'') (JObj [])))
         (slotKey day session i)"

definition pinned_assignment :: "fs_model \<Rightarrow> class_info \<Rightarrow> js \<Rightarrow> assignment option" where
  "pinned_assignment m c v = map_of (m_by_group m) (pair_key (ci_id c) (sj_group (m_subjects m) (cellSubject v)))"

text \<open>What the walk puts in a cell; \<open>bad\<close> tells whether some invalid reason has been recorded.\<close>

definition cell_spec :: "fs_model \<Rightarrow> class_info \<Rightarrow> ustr \<Rightarrow> session \<Rightarrow> nat \<Rightarrow> cell \<Rightarrow> bool \<Rightarrow> bool" where
  "cell_spec m c day session i cl bad \<longleftrightarrow>
     (if isFixed (raw_cell m c day session i)
      then bad \<and> cl = Blocked True \<or>
        (\<exists>l a. cl = Occupied l a True \<and> pinned_assignment m c (raw_cell m c day session i) = Some a)
      else cl = (if class_off m c day session i then Blocked False else Free))"

lemma cell_spec_mono: "cell_spec m c d s i cl bad \<Longrightarrow> (bad \<Longrightarrow> bad') \<Longrightarrow> cell_spec m c d s i cl bad'"
  by (auto simp: cell_spec_def split: if_splits)

lemma markLesson_invalid:
  "markLesson a d s i b = (r, b') \<Longrightarrow> b_grids b' = b_grids b \<and>
     (b_invalid b \<noteq> [] \<longrightarrow> b_invalid b' \<noteq> []) \<and> (r = None \<longrightarrow> b_invalid b' \<noteq> [])"
  using markLesson_cases [of a d s i b] by auto

lemma base_cell_spec:
  assumes "base_cell m c (offRulesFor ''class'' [ci_id c, ci_name c] (js_or (jprop (m_data m) ''tkbConstraints'') (JObj [])))
      (user_off_keys (data_of_class (m_data m) ''tkbUserOff'' c)) (raw_cells m c d s) d s i b = (cl, b')"
  shows "b_grids b' = b_grids b \<and> (b_invalid b \<noteq> [] \<longrightarrow> b_invalid b' \<noteq> [])
    \<and> cell_spec m c d s i cl (b_invalid b' \<noteq> [])"
proof (cases "isFixed (raw_cell m c d s i)")
  case False
  then show ?thesis
    using assms by (auto simp: base_cell_def Let_def cell_spec_def class_off_def raw_cell_def split: if_splits)
next
  case True
  show ?thesis
  proof (cases "pinned_assignment m c (raw_cell m c d s i)")
    case None
    then show ?thesis
      using True assms by (auto simp: base_cell_def Let_def cell_spec_def raw_cell_def pinned_assignment_def)
  next
    case (Some a)
    obtain r b1 where mk: "markLesson a d s i b = (r, b1)" by fastforce
    note mi = markLesson_invalid [OF mk]
    have "(cl, b') = (case r of Some l \<Rightarrow> (Occupied l a True, b1) | None \<Rightarrow> (Blocked True, b1))"
      using assms True Some mk by (simp add: base_cell_def Let_def raw_cell_def pinned_assignment_def)
    then show ?thesis using mi True Some by (cases r) (auto simp: cell_spec_def)
  qed
qed

lemma base_cells_spec:
  assumes "base_cells (base_cell m c (offRulesFor ''class'' [ci_id c, ci_name c] (js_or (jprop (m_data m) ''tkbConstraints'') (JObj [])))
      (user_off_keys (data_of_class (m_data m) ''tkbUserOff'' c)) (raw_cells m c d s) d s) is b = (cs, b')"
  shows "length cs = length is \<and> b_grids b' = b_grids b \<and> (b_invalid b \<noteq> [] \<longrightarrow> b_invalid b' \<noteq> [])
    \<and> (\<forall>j < length is. cell_spec m c d s (is ! j) (cs ! j) (b_invalid b' \<noteq> []))"
  using assms
proof (induction "is" arbitrary: b cs)
  case Nil
  then show ?case by simp
next
  case (Cons i "is")
  obtain cl b1 where st: "base_cell m c (offRulesFor ''class'' [ci_id c, ci_name c] (js_or (jprop (m_data m) ''tkbConstraints'') (JObj [])))
      (user_off_keys (data_of_class (m_data m) ''tkbUserOff'' c)) (raw_cells m c d s) d s i b = (cl, b1)" by fastforce
  obtain cs' b2 where rest: "base_cells (base_cell m c (offRulesFor ''class'' [ci_id c, ci_name c] (js_or (jprop (m_data m) ''tkbConstraints'') (JObj [])))
      (user_off_keys (data_of_class (m_data m) ''tkbUserOff'' c)) (raw_cells m c d s) d s) is b1 = (cs', b2)" by fastforce
  have res: "cs = cl # cs'" "b' = b2" using Cons.prems st rest by auto
  note one = base_cell_spec [OF st] and ih = Cons.IH [OF rest [folded res(2)]]
  have "cell_spec m c d s ((i # is) ! j) (cs ! j) (b_invalid b' \<noteq> [])" if "j < length (i # is)" for j
  proof (cases j)
    case 0
    then show ?thesis using one ih res cell_spec_mono [of m c d s i cl "b_invalid b1 \<noteq> []"] by auto
  next
    case (Suc k)
    then show ?thesis using ih that res by simp
  qed
  then show ?case using one ih res by simp
qed

definition grid_spec :: "fs_model \<Rightarrow> class_info \<Rightarrow> ustr set \<Rightarrow> grid \<Rightarrow> bool \<Rightarrow> bool" where
  "grid_spec m c D g bad \<longleftrightarrow> (\<forall>d s. (\<forall>i < length (g d s). cell_spec m c d s i (g d s ! i) bad))
     \<and> (\<forall>d s. d \<in> D \<longrightarrow> length (g d s) = max 5 (length (raw_cells m c d s)))"

lemma grid_spec_mono: "grid_spec m c D g bad \<Longrightarrow> (bad \<Longrightarrow> bad') \<Longrightarrow> grid_spec m c D g bad'"
  unfolding grid_spec_def using cell_spec_mono by blast

lemma base_grid_step_spec:
  assumes "base_grid_step m c (d, s) (g, b) = (g', b')"
    and "\<And>d s i. i < length (g d s) \<Longrightarrow> cell_spec m c d s i (g d s ! i) (b_invalid b \<noteq> [])"
  shows "b_grids b' = b_grids b \<and> (b_invalid b \<noteq> [] \<longrightarrow> b_invalid b' \<noteq> [])
    \<and> (\<forall>d s. \<forall>i < length (g' d s). cell_spec m c d s i (g' d s ! i) (b_invalid b' \<noteq> []))
    \<and> (\<exists>cs. g' = g(d := (g d)(s := cs)) \<and> length cs = max 5 (length (raw_cells m c d s)))"
proof -
  obtain cs b1 where bc: "base_cells (base_cell m c (offRulesFor ''class'' [ci_id c, ci_name c] (js_or (jprop (m_data m) ''tkbConstraints'') (JObj [])))
      (user_off_keys (data_of_class (m_data m) ''tkbUserOff'' c)) (raw_cells m c d s) d s)
      [0..<max 5 (length (raw_cells m c d s))] b = (cs, b1)" by fastforce
  have res: "g' = g(d := (g d)(s := cs))" "b' = b1"
    using assms(1) bc by (simp_all add: base_grid_step_def Let_def raw_cells_def)
  note sp = base_cells_spec [OF bc]
  have "cell_spec m c d1 s1 i (g' d1 s1 ! i) (b_invalid b' \<noteq> [])" if i: "i < length (g' d1 s1)" for d1 s1 i
  proof (cases "d1 = d \<and> s1 = s")
    case True
    then show ?thesis using sp i res by (simp add: res nth_upt)
  next
    case False
    then have "g' d1 s1 = g d1 s1" using res by auto
    then show ?thesis using assms(2) [of i d1 s1] i sp res cell_spec_mono by auto
  qed
  then show ?thesis using sp res by auto
qed

lemma base_grid_fold_spec:
  assumes "fold (base_grid_step m c) ps (g, b) = (g', b')"
    and "\<And>d s i. i < length (g d s) \<Longrightarrow> cell_spec m c d s i (g d s ! i) (b_invalid b \<noteq> [])"
  shows "b_grids b' = b_grids b \<and> (b_invalid b \<noteq> [] \<longrightarrow> b_invalid b' \<noteq> [])
    \<and> (\<forall>d s. \<forall>i < length (g' d s). cell_spec m c d s i (g' d s ! i) (b_invalid b' \<noteq> []))
    \<and> (\<forall>d s. length (g' d s) = (if (d, s) \<in> set ps then max 5 (length (raw_cells m c d s)) else length (g d s)))"
  using assms
proof (induction ps arbitrary: g b)
  case Nil
  then show ?case by auto
next
  case (Cons p ps)
  obtain d s where p: "p = (d, s)" by (cases p)
  obtain g1 b1 where st: "base_grid_step m c (d, s) (g, b) = (g1, b1)" by fastforce
  note one = base_grid_step_spec [OF st Cons.prems(2)]
  have rest: "fold (base_grid_step m c) ps (g1, b1) = (g', b')" using Cons.prems(1) st p by simp
  from one have "\<And>d s i. i < length (g1 d s) \<Longrightarrow> cell_spec m c d s i (g1 d s ! i) (b_invalid b1 \<noteq> [])" by blast
  note ih = Cons.IH [OF rest this]
  from one obtain cs where cs: "g1 = g(d := (g d)(s := cs))" "length cs = max 5 (length (raw_cells m c d s))" by blast
  have "length (g' d1 s1) = (if (d1, s1) \<in> set (p # ps) then max 5 (length (raw_cells m c d1 s1)) else length (g d1 s1))" for d1 s1
    using ih cs by (cases "(d1, s1) \<in> set ps"; cases "d1 = d"; cases "s1 = s") (simp_all add: p)
  then show ?case using ih one by auto
qed

lemma base_class_spec:
  "\<exists>g. b_grids (base_class_step m c b) = AList.update (ci_id c) g (b_grids b)
    \<and> (b_invalid b \<noteq> [] \<longrightarrow> b_invalid (base_class_step m c b) \<noteq> [])
    \<and> grid_spec m c (set (m_days m)) g (b_invalid (base_class_step m c b) \<noteq> [])"
proof -
  let ?ps = "[(d, s). d \<leftarrow> m_days m, s \<leftarrow> session_keys]"
  obtain g b' where st: "fold (base_grid_step m c) ?ps (\<lambda>_ _. [], b) = (g, b')" by fastforce
  have mem: "(d, s) \<in> set ?ps" if "d \<in> set (m_days m)" for d s
    using that by (cases s) (auto simp: session_keys_def)
  note sp = base_grid_fold_spec [OF st]
  have "base_class_step m c b = b'\<lparr>b_grids := AList.update (ci_id c) g (b_grids b')\<rparr>"
    by (simp add: base_class_step_def st)
  moreover have "grid_spec m c (set (m_days m)) g (b_invalid b' \<noteq> [])"
    using sp mem unfolding grid_spec_def by simp
  ultimately show ?thesis using sp by (intro exI [of _ g]) simp
qed

theorem createBaseState_cells:
  assumes ok: "fs_model_ok m" and c: "c \<in> set (m_classes m)"
  shows "\<exists>g. map_of (b_grids (createBaseState m)) (ci_id c) = Some g
    \<and> grid_spec m c (set (m_days m)) g (b_invalid (createBaseState m) \<noteq> [])"
proof -
  let ?D = "set (m_days m)"
  have "\<forall>c \<in> set cs. \<exists>g. map_of (b_grids (fold (base_class_step m) cs b)) (ci_id c) = Some g
      \<and> grid_spec m c ?D g (b_invalid (fold (base_class_step m) cs b) \<noteq> [])"
    if "distinct (map ci_id cs)" for cs b
  proof -
    have keep: "(b_invalid b \<noteq> [] \<longrightarrow> b_invalid (fold (base_class_step m) cs b) \<noteq> []) \<and>
        (\<forall>k. k \<notin> ci_id ` set cs \<longrightarrow> map_of (b_grids (fold (base_class_step m) cs b)) k = map_of (b_grids b) k)" for cs b
    proof (induction cs arbitrary: b)
      case (Cons c cs)
      from base_class_spec [of m c b] obtain g where
        "b_grids (base_class_step m c b) = AList.update (ci_id c) g (b_grids b)"
        "b_invalid b \<noteq> [] \<longrightarrow> b_invalid (base_class_step m c b) \<noteq> []" by blast
      then show ?case using Cons.IH [of "base_class_step m c b"] by simp
    qed simp
    show ?thesis
      using that
    proof (induction cs arbitrary: b)
      case (Cons c cs)
      from base_class_spec [of m c b] obtain g where g:
        "b_grids (base_class_step m c b) = AList.update (ci_id c) g (b_grids b)"
        "grid_spec m c ?D g (b_invalid (base_class_step m c b) \<noteq> [])" by blast
      have "map_of (b_grids (fold (base_class_step m) (c # cs) b)) (ci_id c) = Some g"
        using keep [where cs = cs and b = "base_class_step m c b"] Cons.prems g(1) by auto
      moreover have "grid_spec m c ?D g (b_invalid (fold (base_class_step m) (c # cs) b) \<noteq> [])"
        using grid_spec_mono [OF g(2)] keep [where cs = cs and b = "base_class_step m c b"] by auto
      ultimately show ?case using Cons.IH [of "base_class_step m c b"] Cons.prems by auto
    qed simp
  qed
  from this [of "m_classes m" empty_base] ok c show ?thesis
    by (simp add: createBaseState_def fs_model_ok_def)
qed

end
