(* ===== verification/FsClaims.thy ===== *)
theory FsClaims
  imports FsCells
begin

section \<open>Fast seed: what \<open>generate\<close> returns\<close>

text \<open>
  The contract of the seed generator, stated on the lessons it returns: which assignment and place
  each of them stands for (\<open>schedule_of\<close>), that no two clash, that fixed free periods and pinned
  lessons are respected, and that every period is either scheduled or reported.
\<close>

subsection \<open>The contract\<close>

definition schedule_of :: "fs_model \<Rightarrow> owners \<Rightarrow> lesson list \<Rightarrow> bool" where
  "schedule_of m own ls \<longleftrightarrow> ls = map (\<lambda>x. lesson_at x False) own
     \<and> list_all (\<lambda>x. fst x \<in> set (m_assignments m) \<and> fst (snd x) \<in> set (m_days m)) own"

definition same_time :: "lesson \<Rightarrow> lesson \<Rightarrow> bool" where
  "same_time l l' \<longleftrightarrow> l_day l = l_day l' \<and> l_session l = l_session l' \<and> l_period l = l_period l'"

definition teacher_set :: "assignment \<Rightarrow> ustr set" where
  "teacher_set a = trim ` set (teachers_of a)"

definition compatible :: "assignment \<times> place \<Rightarrow> assignment \<times> place \<Rightarrow> bool" where
  "compatible x y \<longleftrightarrow> (same_time (lesson_at x False) (lesson_at y False) \<longrightarrow>
     ci_id (a_class (fst x)) \<noteq> ci_id (a_class (fst y))
     \<and> teacher_set (fst x) \<inter> teacher_set (fst y) = {}
     \<and> (a_room (fst x) = [] \<or> a_room (fst y) = [] \<or> trim (a_room (fst x)) \<noteq> trim (a_room (fst y))))"

definition base_of :: "fs_model \<Rightarrow> base_state" where
  "base_of m = createBaseState m"

subsection \<open>From the invariant to the contract\<close>

lemma inv_facts:
  assumes "fs_inv x L F st"
  shows "fs_cells L F (x_n0 x) st" "apart L F" "legal (x_as x) (x_days x) L (x_n0 x)" "t_counts st = cnt L F"
    "t_counts st k \<le> max (x_c0 x k) (subject_limit (x_as x) k)"
    "length (class_cells st cid d s) = x_len x cid d s" "fs_blk x st"
  using assms unfolding fs_inv_def by blast+

lemma apart_compatible:
  assumes "tkeys x \<inter> tkeys y = {}" "rkeys x \<inter> rkeys y = {}"
    and "fst (snd x) \<in> set default_days" "fst (snd y) \<in> set default_days"
    and cls: "snd x = snd y \<Longrightarrow> ci_id (a_class (fst x)) \<noteq> ci_id (a_class (fst y))"
  shows "compatible x y"
  unfolding compatible_def
proof
  assume t: "same_time (lesson_at x False) (lesson_at y False)"
  obtain a d s i b d' s' j where xy: "x = (a, d, s, i)" "y = (b, d', s', j)" by (cases x; cases y) auto
  have "dayNumber d = dayNumber d'" "s = s'" "i = j"
    using t by (simp_all add: same_time_def lesson_at_def lesson_of_def xy)
  then have same: "snd x = snd y" using inj_onD [OF dayNumber_inj] assms(3,4) by (simp add: xy)
  have "teacher_set a \<inter> teacher_set b = {}"
    using assms(1) same by (auto simp: xy tkeys_def teacherKeysOf_def occupiedKey_def teacher_set_def image_iff)
  moreover have "a_room a = [] \<or> a_room b = [] \<or> trim (a_room a) \<noteq> trim (a_room b)"
    using assms(2) same by (auto simp: xy rkeys_def room_keys_def occupiedKey_def)
  ultimately show "ci_id (a_class (fst x)) \<noteq> ci_id (a_class (fst y))
     \<and> teacher_set (fst x) \<inter> teacher_set (fst y) = {}
     \<and> (a_room (fst x) = [] \<or> a_room (fst y) = [] \<or> trim (a_room (fst x)) \<noteq> trim (a_room (fst y)))"
    using cls [OF same] by (simp add: xy)
qed

lemma same_cell_same_lesson:
  assumes "fs_cells L {} n st" "l < length L" "l' < length L" "snd (L ! l) = snd (L ! l')"
    "ci_id (a_class (fst (L ! l))) = ci_id (a_class (fst (L ! l')))"
  shows "l = l'"
proof -
  obtain a p where l: "L ! l = (a, p)" by (cases "L ! l")
  obtain a' where l': "L ! l' = (a', p)" using assms(4) l by (cases "L ! l'") auto
  have "cell_is st (ci_id (a_class a)) p (Occupied l a (l < n))"
    "cell_is st (ci_id (a_class a)) p (Occupied l' a' (l' < n))"
    using fs_cellsD [OF assms(1)] assms(2,3,5) l l' by simp_all
  then show ?thesis by (auto simp: cell_is_def split: prod.splits)
qed

lemma inv_compatible:
  assumes inv: "fs_inv x L {} st" and days: "x_days x \<subseteq> set default_days"
  shows "sorted_wrt compatible L"
  unfolding sorted_wrt_iff_nth_less
proof (intro allI impI)
  fix i j
  assume ij: "i < j" "j < length L"
  have ap: "apart L {}" and leg: "legal (x_as x) (x_days x) L (x_n0 x)" using inv_facts [OF inv] by blast+
  have apij: "tkeys (L ! i) \<inter> tkeys (L ! j) = {}" "rkeys (L ! i) \<inter> rkeys (L ! j) = {}"
    using ap [unfolded apart_def, rule_format, of i j] ij by simp_all
  have dd: "fst (snd (L ! i)) \<in> set default_days" "fst (snd (L ! j)) \<in> set default_days"
    using leg ij days unfolding legal_def by (meson less_trans subsetD)+
  show "compatible (L ! i) (L ! j)"
  proof (rule apart_compatible [OF apij dd])
    assume "snd (L ! i) = snd (L ! j)"
    then show "ci_id (a_class (fst (L ! i))) \<noteq> ci_id (a_class (fst (L ! j)))"
      using same_cell_same_lesson [OF inv_facts(1) [OF inv], of i j] ij by auto
  qed
qed

lemma based_binv: "based m b L \<Longrightarrow> binv (set (m_assignments m)) (set (m_days m)) L (view (b_grids b)) b"
  by (simp add: based_def)

text \<open>A lesson that is not pinned stands on a cell that the data leave free.\<close>

lemma inv_respects_offs:
  assumes inv: "fs_inv (ctx_of m b L0) L {} st" and kept: "kept (length L0) L0 L"
    and b: "b = createBaseState m" and base: "based m b L0" and ok: "fs_model_ok m" and valid: "b_invalid b = []"
    and l: "l < length L" "length L0 \<le> l" "L ! l = (a, d, s, i)"
    and c: "c \<in> set (m_classes m)" "ci_id c = ci_id (a_class a)"
  shows "\<not> class_off m c d s i \<and> \<not> isFixed (raw_cell m c d s i)"
proof -
  let ?x = "ctx_of m b L0" and ?p = "(d, s, i)"
  note f = inv_facts [OF inv]
  have here: "cell_is st (ci_id c) ?p (Occupied l a False)"
    using fs_cellsD [OF f(1)] l c(2) by (simp add: ctx_of_def)
  obtain g where g: "map_of (b_grids b) (ci_id c) = Some g" "grid_spec m c (set (m_days m)) g False"
    using createBaseState_cells [OF ok c(1)] valid b by auto
  have "i < length (g d s)"
    using here f(6) [of "ci_id c" d s] g(1) by (simp add: cell_is_def ctx_of_def)
  then have vw: "view (b_grids b) (ci_id c, ?p) = Some (g d s ! i)" and sp: "cell_spec m c d s i (g d s ! i) False"
    using g by (simp_all add: view_def grid_spec_def)
  have notblk: "g d s ! i \<noteq> Blocked fl" for fl
  proof
    assume "g d s ! i = Blocked fl"
    then have "x_blk ?x (ci_id c) ?p fl" using vw by (simp add: ctx_of_def)
    then have "cell_is st (ci_id c) ?p (Blocked fl)" using f(7) unfolding fs_blk_def by blast
    then show False using here by (auto simp: cell_is_def)
  qed
  have notpin: "g d s ! i \<noteq> Occupied k a' True" for k a'
  proof
    assume "g d s ! i = Occupied k a' True"
    then have "view (b_grids b) (ci_id c, ?p) = Some (Occupied k a' True)" using vw by simp
    from iffD1 [OF binvD(9) [OF based_binv [OF base]] this]
    have k: "k < length L0" "L0 ! k = (a', ?p)" "ci_id c = ci_id (a_class a')" by simp_all
    have Lk: "L ! k = (a', ?p)" "k < length L" using k(1,2) kept by (simp_all add: kept_def)
    have "snd (L ! k) = snd (L ! l)" by (simp add: Lk(1) l(3))
    moreover have "ci_id (a_class (fst (L ! k))) = ci_id (a_class (fst (L ! l)))"
      using c(2) k(3) by (simp add: Lk(1) l(3))
    ultimately have "k = l" by (rule same_cell_same_lesson [OF f(1) Lk(2) l(1)])
    then show False using k(1) l(2) by simp
  qed
  show ?thesis using sp notblk notpin by (auto simp: cell_spec_def split: if_splits)
qed

subsection \<open>From an attempt to the result\<close>

lemma generate_cases:
  fixes data :: js
  defines "m \<equiv> buildModel (school data)"
  shows "(g_lessons (generate e data opts) = [] \<and> g_unassigned_list (generate e data opts) = []
      \<and> \<not> g_ok (generate e data opts) \<and> g_expected (generate e data opts) = m_expected m)
    \<or> (b_invalid (createBaseState m) = [] \<and> (\<exists>dl c. attempt_of e m (createBaseState m) dl c
        \<and> g_ok (generate e data opts) \<and> g_lessons (generate e data opts) = cd_lessons c
        \<and> g_unassigned_list (generate e data opts) = cd_unassigned c
        \<and> g_expected (generate e data opts) = m_expected m
        \<and> g_scheduled (generate e data opts) = length (cd_lessons c)
        \<and> g_unassigned (generate e data opts) = m_expected m - length (cd_lessons c)
        \<and> g_complete (generate e data opts) =
            (m_expected m > 0 \<and> m_expected m - length (cd_lessons c) = 0)))"
proof (cases "b_invalid (createBaseState m) = []")
  case False
  then show ?thesis by (simp add: generate_def Let_def m_def)
next
  case True
  define dl where "dl = of_int (now e 0) + max 100 (min 10000 (number_or (jprop opts ''maxMs'') 2500))"
  define sd where "sd = max 1 (math_round (number_or (jprop opts ''seed'') (of_int (now e 1 mod 2 ^ 31))))"
  define n where "n = nat (clamp 1 24 (math_round (number_or (jprop opts ''attempts'') 8)))"
  obtain made best where ra: "run_attempts e m (createBaseState m) sd dl n 0 None 2 = (made, best)" by fastforce
  have from_att: "\<forall>c. best = Some c \<longrightarrow> attempt_of e m (createBaseState m) dl c"
    by (rule run_attempts_from [OF ra]) simp
  show ?thesis
  proof (cases best)
    case None
    then show ?thesis using ra True by (simp add: generate_def Let_def m_def dl_def sd_def n_def)
  next
    case (Some c)
    then have "generate e data opts =
      \<lparr>g_ok = True, g_expected = m_expected m, g_scheduled = length (cd_lessons c),
       g_unassigned = m_expected m - length (cd_lessons c), g_lessons = cd_lessons c,
       g_unassigned_list = cd_unassigned c, g_quality = cd_quality c, g_seed = cd_seed c, g_attempts = made,
       g_complete = (m_expected m > 0 \<and> m_expected m - length (cd_lessons c) = 0), g_invalid = []\<rparr>"
      using ra True by (simp add: generate_def Let_def m_def dl_def sd_def n_def)
    then show ?thesis using from_att True Some by (intro disjI2 conjI exI [of _ dl] exI [of _ c]) simp_all
  qed
qed

lemma buildModel_days [simp]: "m_days (buildModel data) = model_days data"
  by (simp add: buildModel_def case_prod_unfold Let_def)

text \<open>Everything an attempt guarantees, for the data's model.\<close>

definition sound_result :: "fs_model \<Rightarrow> owners \<Rightarrow> owners \<Rightarrow> unassigned list \<Rightarrow> bool" where
  "sound_result m L0 own us \<longleftrightarrow> based m (createBaseState m) L0 \<and> kept (length L0) L0 own
     \<and> (\<exists>st. fs_inv (ctx_of m (createBaseState m) L0) own {} st)
     \<and> (\<forall>w. keysum w own + unsum w us = demand w m)"

lemma generate_sound:
  assumes "tie_ok e" "plain_ids (school data)" "plain_days (school data)" "g_ok (generate e data opts)"
  shows "\<exists>L0 own. sound_result (buildModel (school data)) L0 own (g_unassigned_list (generate e data opts))
    \<and> g_lessons (generate e data opts) = map (\<lambda>x. lesson_at x False) own
    \<and> b_invalid (createBaseState (buildModel (school data))) = []"
proof -
  let ?m = "buildModel (school data)"
  have ok: "fs_model_ok ?m" by (rule buildModel_ok [OF assms(2)])
  have "set (m_days ?m) \<subseteq> set default_days"
    using assms(3) by (auto simp: plain_days_def list_all_iff)
  from createBaseState_based [OF ok this] obtain L0 where L0: "based ?m (createBaseState ?m) L0" by blast
  from generate_cases [of e data opts] assms(4) obtain dl c where c: "attempt_of e ?m (createBaseState ?m) dl c"
    "g_lessons (generate e data opts) = cd_lessons c" "g_unassigned_list (generate e data opts) = cd_unassigned c"
    "b_invalid (createBaseState ?m) = []" by auto
  then obtain seed ticks st where "buildAttempt e ?m (createBaseState ?m) seed dl ticks = (c, st)"
    unfolding attempt_of_def by (metis prod.collapse)
  from buildAttempt_correct [OF L0 assms(1) this] c show ?thesis
    unfolding sound_result_def using L0 by auto
qed

lemma sound_schedule:
  assumes "sound_result m L0 own us"
  shows "schedule_of m own (map (\<lambda>x. lesson_at x False) own)"
proof -
  from assms obtain st where "fs_inv (ctx_of m (createBaseState m) L0) own {} st" by (auto simp: sound_result_def)
  from inv_facts(3) [OF this] show ?thesis
    by (auto simp: schedule_of_def legal_def ctx_of_def list_all_length)
qed

subsection \<open>The loop over the attempts\<close>

lemma run_attempts_keeps_some: "snd (run_attempts e m b sd dl n made (Some c) t) \<noteq> None"
  by (induction n arbitrary: made c t) (auto simp: Let_def split: prod.splits)

lemma run_attempts_first:
  assumes "run_attempts e m b sd dl n made None t = (k, r)" "of_int (now e t) < dl" "1 \<le> n"
  shows "r \<noteq> None \<and> Suc made \<le> k"
proof -
  obtain n' where n: "n = Suc n'" using assms(3) by (cases n) auto
  obtain c st where ba: "buildAttempt e m b (sd + int made * 104729) dl (Suc t) = (c, st)" by fastforce
  have le: "made' \<le> fst (run_attempts e m b sd dl j made' best t')" for j made' best t'
  proof (induction j arbitrary: made' best t')
    case (Suc j)
    then show ?case by (simp add: Let_def split: prod.splits) (metis Suc_leD)
  qed simp
  show ?thesis
  proof (cases "perfect c")
    case True
    then show ?thesis using assms(1,2) by (auto simp: n ba betterCandidate_def)
  next
    case False
    then have "run_attempts e m b sd dl n' (Suc made) (Some c) (t_ticks st) = (k, r)"
      using assms(1,2) by (simp add: n ba betterCandidate_def)
    then show ?thesis
      using run_attempts_keeps_some [of e m b sd dl n' "Suc made" c "t_ticks st"]
        le [of "Suc made" n' "Some c" "t_ticks st"] by auto
  qed
qed

lemma run_attempts_count:
  assumes "run_attempts e m b sd dl n made best t = (k, r)"
  shows "k \<le> made + n"
  using assms
proof (induction n arbitrary: made best t)
  case (Suc n)
  obtain c st where ba: "buildAttempt e m b (sd + int made * 104729) dl (Suc t) = (c, st)" by fastforce
  show ?case using Suc.prems Suc.IH [of "Suc made"] by (fastforce simp: ba Let_def split: if_splits)
qed simp

lemma generate_runs:
  assumes "b_invalid (createBaseState (buildModel (school data))) = []"
  shows "\<exists>sd dl n made best. of_int (now e 0) + 100 \<le> dl \<and> 1 \<le> n \<and> n \<le> 24
    \<and> run_attempts e (buildModel (school data)) (createBaseState (buildModel (school data))) sd dl n 0 None 2 = (made, best)
    \<and> g_ok (generate e data opts) = (best \<noteq> None) \<and> g_attempts (generate e data opts) = made
    \<and> g_invalid (generate e data opts) = []"
proof -
  let ?m = "buildModel (school data)"
  define dl :: rat where "dl = of_int (now e 0) + max 100 (min 10000 (number_or (jprop opts ''maxMs'') 2500))"
  define sd where "sd = max 1 (math_round (number_or (jprop opts ''seed'') (of_int (now e 1 mod 2 ^ 31))))"
  define n where "n = nat (clamp 1 24 (math_round (number_or (jprop opts ''attempts'') 8)))"
  obtain made best where ra: "run_attempts e ?m (createBaseState ?m) sd dl n 0 None 2 = (made, best)" by fastforce
  have "1 \<le> n" "n \<le> 24" by (simp_all add: n_def clamp_def nat_le_iff)
  moreover have "of_int (now e 0) + 100 \<le> dl" by (simp add: dl_def)
  moreover have "g_ok (generate e data opts) = (best \<noteq> None) \<and> g_attempts (generate e data opts) = made
      \<and> g_invalid (generate e data opts) = []"
    using ra assms by (cases best) (simp_all add: generate_def Let_def dl_def sd_def n_def)
  ultimately show ?thesis using ra by blast
qed

lemma complete_ok: "g_complete (generate e data opts) \<Longrightarrow> g_ok (generate e data opts)"
  by (auto simp: generate_def Let_def case_prod_unfold split: if_splits option.splits)

text \<open>The candidates the loop builds, in order.\<close>

fun tried ::
  "fs_env \<Rightarrow> fs_model \<Rightarrow> base_state \<Rightarrow> int \<Rightarrow> rat \<Rightarrow> nat \<Rightarrow> nat \<Rightarrow> candidate option \<Rightarrow> nat \<Rightarrow> candidate list" where
  "tried e m b seed deadline 0 made best ticks = []"
| "tried e m b seed deadline (Suc n) made best ticks =
     (if \<not> of_int (now e ticks) < deadline then []
      else let (c, st) = buildAttempt e m b (seed + int made * 104729) deadline (Suc ticks);
               best' = (if betterCandidate c best then Some c else best)
           in c # (if (case best' of Some k \<Rightarrow> perfect k | None \<Rightarrow> False) then []
                   else tried e m b seed deadline n (Suc made) best' (t_ticks st)))"

text \<open>The comparison is the lexicographic order of the keys, so it is a strict linear preorder.\<close>

definition candidate_key :: "candidate \<Rightarrow> nat list" where
  "candidate_key c = missing_of c # quality_keys (cd_quality c)"

lemma first_difference_less: "length xs = length ys \<Longrightarrow> first_difference xs ys \<longleftrightarrow> xs < (ys :: nat list)"
  by (induction xs ys rule: first_difference.induct) auto

lemma betterCandidate_less: "betterCandidate c (Some d) \<longleftrightarrow> candidate_key c < candidate_key d"
  by (auto simp: betterCandidate_def candidate_key_def first_difference_less quality_keys_def)

lemma run_attempts_best:
  assumes "run_attempts e m b sd dl n made best t = (k, r)"
  shows "(r = best \<or> (\<exists>c \<in> set (tried e m b sd dl n made best t). r = Some c))
    \<and> (\<forall>c. c \<in> set (tried e m b sd dl n made best t) \<or> best = Some c \<longrightarrow> \<not> betterCandidate c r)
    \<and> k = made + length (tried e m b sd dl n made best t)"
  using assms
proof (induction n arbitrary: made best t)
  case 0
  then show ?case by (auto simp: betterCandidate_less)
next
  case (Suc n)
  obtain c st where ba: "buildAttempt e m b (sd + int made * 104729) dl (Suc t) = (c, st)" by fastforce
  define best' where "best' = (if betterCandidate c best then Some c else best)"
  have b': "best' = Some c \<or> best' = best" "best' \<noteq> None" "\<not> betterCandidate c best'"
    "\<And>d. best = Some d \<Longrightarrow> \<not> betterCandidate d best'"
    by (cases best; auto simp: best'_def betterCandidate_less betterCandidate_def [of _ None] split: if_splits)+
  consider "\<not> of_int (now e t) < dl" | "of_int (now e t) < dl" "case best' of Some k \<Rightarrow> perfect k | None \<Rightarrow> False"
    | "of_int (now e t) < dl" "\<not> (case best' of Some k \<Rightarrow> perfect k | None \<Rightarrow> False)" by blast
  then show ?case
  proof cases
    case 1
    then show ?thesis using Suc.prems by (auto simp: betterCandidate_less)
  next
    case 2
    then have "r = best'" "k = Suc made" "tried e m b sd dl (Suc n) made best t = [c]"
      using Suc.prems by (simp_all add: ba best'_def)
    then show ?thesis using b' by auto
  next
    case 3
    then have run: "run_attempts e m b sd dl n (Suc made) best' (t_ticks st) = (k, r)"
      and tr: "tried e m b sd dl (Suc n) made best t = c # tried e m b sd dl n (Suc made) best' (t_ticks st)"
      using Suc.prems by (simp_all add: ba best'_def)
    note ih = Suc.IH [OF run]
    obtain d where d: "best' = Some d" using b'(2) by blast
    obtain r' where r': "r = Some r'" using ih d by auto
    have nb: "\<not> betterCandidate d r" using ih d by blast
    have "\<not> betterCandidate c r" "\<And>d'. best = Some d' \<Longrightarrow> \<not> betterCandidate d' r"
      using nb b'(3,4) by (auto simp: r' d betterCandidate_less)
    moreover have "r = best \<or> (\<exists>c' \<in> set (c # tried e m b sd dl n (Suc made) best' (t_ticks st)). r = Some c')"
      using ih b'(1) by (metis list.set_intros(1,2))
    moreover have "k = made + length (c # tried e m b sd dl n (Suc made) best' (t_ticks st))" using ih by simp
    ultimately show ?thesis unfolding tr using ih by (metis set_ConsD)
  qed
qed

lemma attempt_unassigned_positive: "attempt_of e m b dl c \<Longrightarrow> x \<in> set (cd_unassigned c) \<Longrightarrow> 0 < un_periods x"
  by (auto simp: attempt_of_def buildAttempt_def Let_def case_prod_unfold)

lemma keysum_one: "keysum (\<lambda>_. 1) L = length L"
  by (induction L) (simp_all add: keysum_def)

lemma keysum_key: "keysum (\<lambda>k. if k = v then 1 else 0) L = length (filter (\<lambda>x. a_key (fst x) = v) L)"
  by (induction L) (auto simp: keysum_def)

lemma unsum_key:
  "unsum (\<lambda>k. if k = v then 1 else 0) us = sum_list (map un_periods (filter (\<lambda>x. un_key x = v) us))"
  by (induction us) (auto simp: unsum_def)

lemma demand_key:
  assumes "distinct (map a_key (m_assignments m))" "a \<in> set (m_assignments m)"
  shows "demand (\<lambda>k. if k = a_key a then 1 else 0) m = a_periods a"
proof -
  have "(\<Sum>b\<leftarrow>as. a_periods b * (if a_key b = a_key a then 1 else 0)) = (if a \<in> set as then a_periods a else 0)"
    if "distinct (map a_key as)" "\<forall>b \<in> set as. a_key b = a_key a \<longrightarrow> b = a" for as
    using that by (induction as) (auto simp: image_iff)
  from this [OF assms(1)] assms show ?thesis
    unfolding demand_def by (metis (mono_tags, lifting) distinct_map inj_onD)
qed

lemma sound_accounts:
  assumes "sound_result m L0 own us"
  shows "keysum w own + unsum w us = demand w m"
    and "a \<in> set (m_assignments m) \<Longrightarrow> length (filter (\<lambda>x. a_key (fst x) = a_key a) own)
      + sum_list (map un_periods (filter (\<lambda>x. un_key x = a_key a) us)) = a_periods a"
    and "length own + sum_list (map un_periods us) = sum_list (map a_periods (m_assignments m))"
proof -
  show acc: "keysum w own + unsum w us = demand w m" for w using assms by (simp add: sound_result_def)
  have dk: "distinct (map a_key (m_assignments m))" using assms by (simp add: sound_result_def based_def)
  show "length (filter (\<lambda>x. a_key (fst x) = a_key a) own)
      + sum_list (map un_periods (filter (\<lambda>x. un_key x = a_key a) us)) = a_periods a"
    if "a \<in> set (m_assignments m)"
    using acc [of "\<lambda>k. if k = a_key a then 1 else 0"] demand_key [OF dk that] by (simp add: keysum_key unsum_key)
  show "length own + sum_list (map un_periods us) = sum_list (map a_periods (m_assignments m))"
    using acc [of "\<lambda>_. 1"] unfolding keysum_one by (simp add: unsum_def demand_def)
qed

lemma buildModel_expected: "m_expected (buildModel data) = sum_list (map a_periods (m_assignments (buildModel data)))"
  by (simp add: buildModel_def case_prod_unfold Let_def)

end
