(* ===== verification/FsProps.thy ===== *)
theory FsProps
  imports FsClaims
begin

section \<open>Fast seed: the properties\<close>

text \<open>
  The properties of \<open>TkbFastSeed.generate\<close> and of its parts, with a witness on a small school for
  each one that has hypotheses.
\<close>

text \<open>One class with one subject of two periods, and a clock that stands still.\<close>

definition demo_school :: js where
  "demo_school = JObj
     [(u ''lop'', JArr [JObj [(u ''id'', JStr (u ''6A'')), (u ''khoi'', JStr (u ''6''))]]),
      (u ''pccmMatrix'', JObj [(u ''6A|Toan'', JStr (u ''An''))]),
      (u ''pccmTietMatrix'', JObj [(u ''6A|Toan'', JNum 2)]),
      (u ''tkb'', JObj [(u ''6A'', JObj [(u ''thu2'', JObj [(u ''sang'',
         JArr [JObj [(u ''mon'', JStr (u ''Toan'')), (u ''fixed'', JBool True)]])])])])]"

definition demo_env :: fs_env where
  "demo_env = \<lparr>now = (\<lambda>_. 0), tie = (\<lambda>items r. (items, r))\<rparr>"

lemma demo_ok: "tie_ok demo_env" "plain_ids (school demo_school)" "plain_days (school demo_school)"
  subgoal by (simp add: tie_ok_def demo_env_def)
  subgoal by code_simp
  subgoal by code_simp
  done

lemma demo_valid: "b_invalid (createBaseState (buildModel (school demo_school))) = []"
  by code_simp

text \<open>
  C1: no two lessons of the result that fall at the same time share a class, a teacher (joint
  lessons occupy each of their teachers) or a room, and each lesson is one of the model's
  assignments on a day of the model.
\<close>

theorem generate_clash_free:
  assumes "tie_ok e" "plain_ids (school data)" "plain_days (school data)"
  shows "\<exists>own. schedule_of (buildModel (school data)) own (g_lessons (generate e data opts))
    \<and> sorted_wrt compatible own"
proof (cases "g_ok (generate e data opts)")
  case True
  from generate_sound [OF assms True] obtain L0 own where s:
    "sound_result (buildModel (school data)) L0 own (g_unassigned_list (generate e data opts))"
    "g_lessons (generate e data opts) = map (\<lambda>x. lesson_at x False) own" by blast
  then obtain st where "fs_inv (ctx_of (buildModel (school data)) (createBaseState (buildModel (school data))) L0) own {} st"
    "set (model_days (school data)) \<subseteq> set default_days" by (auto simp: sound_result_def based_def)
  from inv_compatible [OF this(1)] this(2) sound_schedule [OF s(1)] show ?thesis
    by (auto simp: s(2) ctx_of_def)
next
  case False
  then have "g_lessons (generate e data opts) = []" using generate_cases [of e data opts] by auto
  then show ?thesis by (auto simp: schedule_of_def)
qed

lemma generate_clash_free_witness:
  "\<exists>own. schedule_of (buildModel (school demo_school)) own (g_lessons (generate demo_env demo_school JNull))
    \<and> sorted_wrt compatible own"
  by (rule generate_clash_free [OF demo_ok])

text \<open>
  C2: a lesson that is not pinned never stands on a fixed free period of its teachers, room or
  subject, on a cell the user or a rule of the class keeps free, or on a pinned cell.
\<close>

theorem generate_respects_free_periods:
  assumes "tie_ok e" "plain_ids (school data)" "plain_days (school data)"
  shows "\<exists>own. schedule_of (buildModel (school data)) own (g_lessons (generate e data opts)) \<and>
    (\<forall>l. length (b_lessons (createBaseState (buildModel (school data)))) \<le> l \<longrightarrow> l < length own \<longrightarrow>
      (case own ! l of (a, d, s, i) \<Rightarrow> \<not> assignmentBlocked a d s i \<and>
        list_all (\<lambda>c. ci_id c = ci_id (a_class a) \<longrightarrow> \<not> class_off (buildModel (school data)) c d s i
          \<and> \<not> isFixed (raw_cell (buildModel (school data)) c d s i)) (m_classes (buildModel (school data)))))"
proof (cases "g_ok (generate e data opts)")
  case True
  let ?m = "buildModel (school data)"
  let ?b = "createBaseState ?m"
  from generate_sound [OF assms True] obtain L0 own where s:
    "sound_result ?m L0 own (g_unassigned_list (generate e data opts))"
    "g_lessons (generate e data opts) = map (\<lambda>x. lesson_at x False) own" "b_invalid ?b = []" by blast
  then obtain st where st: "fs_inv (ctx_of ?m ?b L0) own {} st" and bs: "based ?m ?b L0" and k: "kept (length L0) L0 own"
    by (auto simp: sound_result_def)
  have n: "length (b_lessons ?b) = length L0" using binvD(1) [OF based_binv [OF bs]] by simp
  have "case own ! l of (a, d, s, i) \<Rightarrow> \<not> assignmentBlocked a d s i \<and>
      list_all (\<lambda>c. ci_id c = ci_id (a_class a) \<longrightarrow> \<not> class_off ?m c d s i \<and> \<not> isFixed (raw_cell ?m c d s i)) (m_classes ?m)"
    if l: "length L0 \<le> l" "l < length own" for l
  proof -
    obtain a d s i where own: "own ! l = (a, d, s, i)" by (metis prod_cases4)
    have "\<not> blocked_at (own ! l)" using inv_facts(3) [OF st] l by (auto simp: legal_def ctx_of_def)
    moreover have "\<not> class_off ?m c d s i \<and> \<not> isFixed (raw_cell ?m c d s i)"
      if "c \<in> set (m_classes ?m)" "ci_id c = ci_id (a_class a)" for c
      by (rule inv_respects_offs [OF st k refl bs buildModel_ok [OF assms(2)] s(3) l(2,1) own that])
    ultimately show ?thesis by (simp add: own blocked_at_def list_all_iff)
  qed
  then show ?thesis using sound_schedule [OF s(1)] s(2) n by (intro exI [of _ own]) simp
next
  case False
  then have "g_lessons (generate e data opts) = []" using generate_cases [of e data opts] by auto
  then show ?thesis by (auto simp: schedule_of_def)
qed

lemma generate_respects_free_periods_witness:
  "\<exists>own. schedule_of (buildModel (school demo_school)) own (g_lessons (generate demo_env demo_school JNull)) \<and>
    (\<forall>l. length (b_lessons (createBaseState (buildModel (school demo_school)))) \<le> l \<longrightarrow> l < length own \<longrightarrow>
      (case own ! l of (a, d, s, i) \<Rightarrow> \<not> assignmentBlocked a d s i \<and>
        list_all (\<lambda>c. ci_id c = ci_id (a_class a) \<longrightarrow> \<not> class_off (buildModel (school demo_school)) c d s i
          \<and> \<not> isFixed (raw_cell (buildModel (school demo_school)) c d s i)) (m_classes (buildModel (school demo_school)))))"
  by (rule generate_respects_free_periods [OF demo_ok])

text \<open>
  C3: when the data are consistent and the clock has not yet passed the deadline at the first
  attempt, a timetable is returned after at least one and at most 24 attempts.
\<close>

theorem generate_returns:
  assumes "b_invalid (createBaseState (buildModel (school data))) = []" "now e 2 < now e 0 + 100"
  shows "g_ok (generate e data opts) \<and> g_invalid (generate e data opts) = []
    \<and> 1 \<le> g_attempts (generate e data opts) \<and> g_attempts (generate e data opts) \<le> 24"
proof -
  from generate_runs [of data e opts] obtain sd dl n made best where
    r: "of_int (now e 0) + 100 \<le> dl" "1 \<le> n" "n \<le> 24"
    "run_attempts e (buildModel (school data)) (createBaseState (buildModel (school data))) sd dl n 0 None 2 = (made, best)"
    "g_ok (generate e data opts) = (best \<noteq> None)" "g_attempts (generate e data opts) = made"
    "g_invalid (generate e data opts) = []" using assms(1) by blast
  have "of_int (now e 2) < dl"
  proof -
    have "(of_int (now e 2) :: rat) < of_int (now e 0 + 100)" using assms(2) by (simp only: of_int_less_iff)
    then show ?thesis using r(1) by simp
  qed
  then show ?thesis using run_attempts_first [OF r(4) _ r(2)] run_attempts_count [OF r(4)] r by auto
qed

lemma generate_returns_witness:
  "g_ok (generate demo_env demo_school JNull) \<and> g_invalid (generate demo_env demo_school JNull) = []
    \<and> 1 \<le> g_attempts (generate demo_env demo_school JNull) \<and> g_attempts (generate demo_env demo_school JNull) \<le> 24"
  by (rule generate_returns [OF demo_valid]) (simp add: demo_env_def)

lemma demo_answers: "g_ok (generate demo_env demo_school JNull)"
proof -
  from generate_runs [OF demo_valid, of demo_env JNull] obtain sd dl n made best where
    r: "of_int (now demo_env 0) + 100 \<le> dl" "1 \<le> n" "n \<le> 24"
    "run_attempts demo_env (buildModel (school demo_school)) (createBaseState (buildModel (school demo_school))) sd dl n 0 None 2
      = (made, best)" "g_ok (generate demo_env demo_school JNull) = (best \<noteq> None)" by blast
  then show ?thesis using run_attempts_first [OF r(4) _ r(2)] by (simp add: demo_env_def)
qed

text \<open>
  C4: no period of the demand is lost or scheduled twice. Of every assignment, the lessons of the
  result and the periods reported as unassigned add up to its demand, and so do the totals.
\<close>

theorem generate_accounts:
  assumes "tie_ok e" "plain_ids (school data)" "plain_days (school data)" "g_ok (generate e data opts)"
  shows "\<exists>own. schedule_of (buildModel (school data)) own (g_lessons (generate e data opts))
    \<and> (\<forall>a \<in> set (m_assignments (buildModel (school data))).
        length (filter (\<lambda>x. a_key (fst x) = a_key a) own)
        + sum_list (map un_periods (filter (\<lambda>x. un_key x = a_key a) (g_unassigned_list (generate e data opts))))
        = a_periods a)
    \<and> g_scheduled (generate e data opts) + sum_list (map un_periods (g_unassigned_list (generate e data opts)))
        = g_expected (generate e data opts)
    \<and> g_unassigned (generate e data opts) = sum_list (map un_periods (g_unassigned_list (generate e data opts)))"
proof -
  from generate_sound [OF assms] obtain L0 own where s:
    "sound_result (buildModel (school data)) L0 own (g_unassigned_list (generate e data opts))"
    "g_lessons (generate e data opts) = map (\<lambda>x. lesson_at x False) own" by blast
  have "g_scheduled (generate e data opts) = length (g_lessons (generate e data opts))"
    "g_expected (generate e data opts) = m_expected (buildModel (school data))"
    "g_unassigned (generate e data opts) = m_expected (buildModel (school data)) - length (g_lessons (generate e data opts))"
    using generate_cases [of e data opts] assms(4) by auto
  moreover have "length (g_lessons (generate e data opts)) = length own" by (simp add: s(2))
  ultimately show ?thesis
    using sound_schedule [OF s(1)] sound_accounts(2,3) [OF s(1)] buildModel_expected [of "school data"] s(2)
    by (intro exI [of _ own] conjI ballI) simp_all
qed

lemma generate_accounts_witness:
  "\<exists>own. schedule_of (buildModel (school demo_school)) own (g_lessons (generate demo_env demo_school JNull))
    \<and> (\<forall>a \<in> set (m_assignments (buildModel (school demo_school))).
        length (filter (\<lambda>x. a_key (fst x) = a_key a) own)
        + sum_list (map un_periods (filter (\<lambda>x. un_key x = a_key a) (g_unassigned_list (generate demo_env demo_school JNull))))
        = a_periods a)
    \<and> g_scheduled (generate demo_env demo_school JNull)
        + sum_list (map un_periods (g_unassigned_list (generate demo_env demo_school JNull)))
        = g_expected (generate demo_env demo_school JNull)
    \<and> g_unassigned (generate demo_env demo_school JNull)
        = sum_list (map un_periods (g_unassigned_list (generate demo_env demo_school JNull)))"
  by (rule generate_accounts [OF demo_ok demo_answers])

text \<open>
  A result flagged complete has an empty list of unassigned assignments and schedules every
  assignment exactly as often as its demand.
\<close>

lemma generate_complete:
  assumes "tie_ok e" "plain_ids (school data)" "plain_days (school data)" and c: "g_complete (generate e data opts)"
  shows "g_unassigned_list (generate e data opts) = [] \<and>
    (\<exists>own. schedule_of (buildModel (school data)) own (g_lessons (generate e data opts))
      \<and> (\<forall>a \<in> set (m_assignments (buildModel (school data))).
          length (filter (\<lambda>x. a_key (fst x) = a_key a) own) = a_periods a))"
proof -
  let ?r = "generate e data opts" and ?m = "buildModel (school data)"
  show "g_unassigned_list ?r = [] \<and> (\<exists>own. schedule_of ?m own (g_lessons ?r)
      \<and> (\<forall>a \<in> set (m_assignments ?m). length (filter (\<lambda>x. a_key (fst x) = a_key a) own) = a_periods a))"
  proof (cases "g_ok ?r")
    case True
    from generate_sound [OF assms(1-3) True] obtain L0 own where s:
      "sound_result ?m L0 own (g_unassigned_list ?r)" "g_lessons ?r = map (\<lambda>x. lesson_at x False) own" by blast
    from generate_cases [of e data opts] True obtain dl k where k: "attempt_of e ?m (createBaseState ?m) dl k"
      "g_lessons ?r = cd_lessons k" "g_unassigned_list ?r = cd_unassigned k"
      "g_complete ?r = (m_expected ?m > 0 \<and> m_expected ?m - length (cd_lessons k) = 0)" by auto
    have "m_expected ?m \<le> length own" using k c s(2) by (metis diff_is_0_eq length_map)
    then have "sum_list (map un_periods (g_unassigned_list ?r)) = 0"
      using sound_accounts(3) [OF s(1)] buildModel_expected [of "school data"] by linarith
    moreover have "\<forall>x \<in> set (g_unassigned_list ?r). 0 < un_periods x"
      using attempt_unassigned_positive [OF k(1)] k(3) by simp
    ultimately have un: "g_unassigned_list ?r = []" by (cases "g_unassigned_list ?r") auto
    then show ?thesis
      using sound_schedule [OF s(1)] sound_accounts(2) [OF s(1)] s(2) by auto
  next
    case False
    then show ?thesis using c generate_cases [of e data opts] complete_ok [of e data opts] by auto
  qed
qed

text \<open>A school whose only period is pinned: the pinned lesson alone meets the demand.\<close>

definition full_school :: js where
  "full_school = JObj
     [(u ''lop'', JArr [JObj [(u ''id'', JStr (u ''6A'')), (u ''khoi'', JStr (u ''6''))]]),
      (u ''pccmMatrix'', JObj [(u ''6A|Toan'', JStr (u ''An''))]),
      (u ''pccmTietMatrix'', JObj [(u ''6A|Toan'', JNum 1)]),
      (u ''tkb'', JObj [(u ''6A'', JObj [(u ''thu2'', JObj [(u ''sang'',
         JArr [JObj [(u ''mon'', JStr (u ''Toan'')), (u ''fixed'', JBool True)]])])])])]"

lemma full_ok: "tie_ok demo_env" "plain_ids (school full_school)" "plain_days (school full_school)"
  subgoal by (simp add: tie_ok_def demo_env_def)
  subgoal by code_simp
  subgoal by code_simp
  done

lemma pinned_lessons_kept:
  assumes "tie_ok e" "plain_ids (school data)" "plain_days (school data)" "g_ok (generate e data opts)"
  shows "length (b_lessons (createBaseState (buildModel (school data)))) \<le> length (g_lessons (generate e data opts))"
proof -
  from generate_sound [OF assms] obtain L0 own where
    "sound_result (buildModel (school data)) L0 own (g_unassigned_list (generate e data opts))"
    "g_lessons (generate e data opts) = map (\<lambda>x. lesson_at x False) own" by blast
  then show ?thesis using binvD(1) [OF based_binv] by (fastforce simp: sound_result_def kept_def)
qed

lemma full_complete: "g_complete (generate demo_env full_school JNull)"
proof -
  have v: "b_invalid (createBaseState (buildModel (school full_school))) = []" by code_simp
  from generate_runs [OF this, of demo_env JNull] obtain sd dl n made best where
    r: "of_int (now demo_env 0) + 100 \<le> dl" "1 \<le> n" "n \<le> 24"
    "run_attempts demo_env (buildModel (school full_school)) (createBaseState (buildModel (school full_school))) sd dl n 0 None 2
      = (made, best)" "g_ok (generate demo_env full_school JNull) = (best \<noteq> None)" by blast
  then have ok: "g_ok (generate demo_env full_school JNull)"
    using run_attempts_first [OF r(4) _ r(2)] by (simp add: demo_env_def)
  have "length (b_lessons (createBaseState (buildModel (school full_school)))) = 1" by code_simp
  then have "1 \<le> length (g_lessons (generate demo_env full_school JNull))"
    using pinned_lessons_kept [OF full_ok ok] by simp
  moreover have "m_expected (buildModel (school full_school)) = 1" by code_simp
  ultimately show ?thesis using generate_cases [of demo_env full_school JNull] ok by auto
qed

lemma generate_complete_witness:
  "g_unassigned_list (generate demo_env full_school JNull) = [] \<and>
    (\<exists>own. schedule_of (buildModel (school full_school)) own (g_lessons (generate demo_env full_school JNull))
      \<and> (\<forall>a \<in> set (m_assignments (buildModel (school full_school))).
          length (filter (\<lambda>x. a_key (fst x) = a_key a) own) = a_periods a))"
  by (rule generate_complete [OF full_ok full_complete])

text \<open>
  C6: the number of lessons of a subject that a class has in one half day never exceeds the
  session limit, unless the pinned cells alone already do.
\<close>

theorem generate_session_limit:
  assumes "tie_ok e" "plain_ids (school data)" "plain_days (school data)"
  shows "\<exists>own. schedule_of (buildModel (school data)) own (g_lessons (generate e data opts)) \<and>
    (\<forall>k. length (filter (\<lambda>x. skey x = k) own) \<le>
      max (initial_counts (b_lessons (createBaseState (buildModel (school data)))) k)
        (subject_limit (set (m_assignments (buildModel (school data)))) k))"
proof (cases "g_ok (generate e data opts)")
  case True
  let ?m = "buildModel (school data)"
  let ?b = "createBaseState ?m"
  from generate_sound [OF assms True] obtain L0 own where s:
    "sound_result ?m L0 own (g_unassigned_list (generate e data opts))"
    "g_lessons (generate e data opts) = map (\<lambda>x. lesson_at x False) own" by blast
  then obtain st where st: "fs_inv (ctx_of ?m ?b L0) own {} st" and bs: "based ?m ?b L0"
    by (auto simp: sound_result_def)
  note bi = binvD [OF based_binv [OF bs]]
  have "\<forall>x \<in> set L0. fst (snd x) \<in> set default_days" using bi(5) bs by (auto simp: based_def)
  from initial_counts_cnt [OF this] have ic: "initial_counts (b_lessons ?b) = cnt L0 {}" by (simp only: bi(1))
  have "length (filter (\<lambda>x. skey x = k) own) = cnt own {} k" for k
    by (simp add: length_filter_conv_card cnt_def)
  then have "length (filter (\<lambda>x. skey x = k) own) \<le> max (initial_counts (b_lessons ?b) k) (subject_limit (set (m_assignments ?m)) k)" for k
    using inv_facts(4,5) [OF st] by (simp add: ic ctx_of_def)
  then show ?thesis using sound_schedule [OF s(1)] s(2) by (intro exI [of _ own]) simp
next
  case False
  then have "g_lessons (generate e data opts) = []" using generate_cases [of e data opts] by auto
  then show ?thesis by (auto simp: schedule_of_def)
qed

lemma generate_session_limit_witness:
  "\<exists>own. schedule_of (buildModel (school demo_school)) own (g_lessons (generate demo_env demo_school JNull)) \<and>
    (\<forall>k. length (filter (\<lambda>x. skey x = k) own) \<le>
      max (initial_counts (b_lessons (createBaseState (buildModel (school demo_school)))) k)
        (subject_limit (set (m_assignments (buildModel (school demo_school)))) k))"
  by (rule generate_session_limit [OF demo_ok])

text \<open>
  C7: every pinned cell of the data is a lesson of the result, of the assignment its subject names
  and at its place; the search never moves it.
\<close>

theorem generate_keeps_pinned:
  assumes "tie_ok e" "plain_ids (school data)" "plain_days (school data)" "g_ok (generate e data opts)"
    and "c \<in> set (m_classes (buildModel (school data)))" "d \<in> set (model_days (school data))"
    and "isFixed (raw_cell (buildModel (school data)) c d s i)"
  shows "\<exists>a. pinned_assignment (buildModel (school data)) c (raw_cell (buildModel (school data)) c d s i) = Some a
    \<and> lesson_at (a, d, s, i) False \<in> set (g_lessons (generate e data opts))"
proof -
  let ?m = "buildModel (school data)"
  let ?b = "createBaseState ?m"
  from generate_sound [OF assms(1-4)] obtain L0 own where s:
    "sound_result ?m L0 own (g_unassigned_list (generate e data opts))"
    "g_lessons (generate e data opts) = map (\<lambda>x. lesson_at x False) own" "b_invalid ?b = []" by blast
  then have bs: "based ?m ?b L0" and k: "kept (length L0) L0 own" by (auto simp: sound_result_def)
  obtain g where g: "map_of (b_grids ?b) (ci_id c) = Some g" "grid_spec ?m c (set (m_days ?m)) g False"
    using createBaseState_cells [OF buildModel_ok [OF assms(2)] assms(5)] s(3) by auto
  have "i < length (raw_cells ?m c d s)"
    using assms(7) by (auto simp: raw_cell_def isFixed_def is_object.simps split: if_splits)
  then have i: "i < length (g d s)" using g(2) assms(6) by (simp add: grid_spec_def)
  then have "cell_spec ?m c d s i (g d s ! i) False" using g(2) by (simp add: grid_spec_def)
  then obtain l a where la: "g d s ! i = Occupied l a True" "pinned_assignment ?m c (raw_cell ?m c d s i) = Some a"
    using assms(7) by (auto simp: cell_spec_def)
  have "view (b_grids ?b) (ci_id c, d, s, i) = Some (Occupied l a True)" using g(1) i la(1) by (simp add: view_def)
  from iffD1 [OF binvD(9) [OF based_binv [OF bs]] this] have "l < length L0" "L0 ! l = (a, d, s, i)" by simp_all
  then have "l < length own" "own ! l = (a, d, s, i)" using k by (simp_all add: kept_def)
  then have "(a, d, s, i) \<in> set own" by (metis nth_mem)
  then show ?thesis using la(2) by (auto simp: s(2))
qed

lemma generate_keeps_pinned_witness:
  "\<exists>a. pinned_assignment (buildModel (school demo_school)) (hd (m_classes (buildModel (school demo_school))))
      (raw_cell (buildModel (school demo_school)) (hd (m_classes (buildModel (school demo_school)))) (u ''thu2'') Sang 0) = Some a
    \<and> lesson_at (a, u ''thu2'', Sang, 0) False \<in> set (g_lessons (generate demo_env demo_school JNull))"
proof (rule generate_keeps_pinned [OF demo_ok demo_answers])
  have "m_classes (buildModel (school demo_school)) \<noteq> []" by code_simp
  then show "hd (m_classes (buildModel (school demo_school))) \<in> set (m_classes (buildModel (school demo_school)))" by simp
  have "List.member (model_days (school demo_school)) (u ''thu2'')" by code_simp
  then show "u ''thu2'' \<in> set (model_days (school demo_school))" by simp
  show "isFixed (raw_cell (buildModel (school demo_school)) (hd (m_classes (buildModel (school demo_school)))) (u ''thu2'') Sang 0)"
    by code_simp
qed

text \<open>
  The loop over the attempts returns one of the candidates it built, and none of them is better
  under the comparison (missing periods, then the quality keys).
\<close>

lemma run_attempts_optimal:
  assumes "run_attempts e m b seed deadline n 0 None ticks = (made, Some c)"
  shows "c \<in> set (tried e m b seed deadline n 0 None ticks) \<and> made = length (tried e m b seed deadline n 0 None ticks)
    \<and> list_all (\<lambda>d. \<not> betterCandidate d (Some c)) (tried e m b seed deadline n 0 None ticks)"
  using run_attempts_best [OF assms] by (auto simp: list_all_iff)

lemma run_attempts_optimal_witness:
  "\<exists>sd dl n made c. c \<in> set (tried demo_env (buildModel demo_school) (createBaseState (buildModel demo_school)) sd dl n 0 None 2)
    \<and> made = length (tried demo_env (buildModel demo_school) (createBaseState (buildModel demo_school)) sd dl n 0 None 2)
    \<and> list_all (\<lambda>d. \<not> betterCandidate d (Some c))
        (tried demo_env (buildModel demo_school) (createBaseState (buildModel demo_school)) sd dl n 0 None 2)"
proof -
  obtain made r where ra: "run_attempts demo_env (buildModel demo_school) (createBaseState (buildModel demo_school)) 1 1 1 0 None 2
    = (made, r)" by fastforce
  then have "r \<noteq> None" using run_attempts_first [OF ra] by (simp add: demo_env_def)
  then obtain c where "r = Some c" by blast
  then show ?thesis using run_attempts_optimal [of demo_env _ _ 1 1 1 2 made c] ra by blast
qed

subsection \<open>The parts\<close>

text \<open>A state of the demo school with its pinned lesson and one lesson placed by the search.\<close>

definition demo_model :: fs_model where
  "demo_model = buildModel (school demo_school)"

definition demo_assignment :: assignment where
  "demo_assignment = hd (m_assignments demo_model)"

definition demo_place :: place where
  "demo_place = (u ''thu2'', Chieu, 1)"

definition demo_state :: att where
  "demo_state = cloneState (createBaseState demo_model) (mulberry32 1) 0"

lemma demo_start:
  "\<exists>L0. fs_inv (ctx_of demo_model (createBaseState demo_model) L0) L0 {} demo_state
    \<and> demo_assignment \<in> x_as (ctx_of demo_model (createBaseState demo_model) L0)
    \<and> set (m_days demo_model) \<subseteq> x_days (ctx_of demo_model (createBaseState demo_model) L0)"
proof -
  have "fs_model_ok demo_model" unfolding demo_model_def by (rule buildModel_ok [OF demo_ok(2)])
  moreover have "set (m_days demo_model) \<subseteq> set default_days"
    using demo_ok(3) by (auto simp: demo_model_def plain_days_def list_all_iff)
  ultimately obtain L0 where "based demo_model (createBaseState demo_model) L0"
    using createBaseState_based by blast
  moreover have "m_assignments demo_model \<noteq> []" by code_simp
  ultimately show ?thesis
    using cloneState_inv by (intro exI [of _ L0]) (auto simp: demo_state_def demo_assignment_def ctx_of_def)
qed

text \<open>
  C9: a repair either places one more lesson of the assignment, leaving every other lesson to its
  assignment and the pinned ones in place, or undoes every move it tried: the grids, the lessons,
  the occupied keys and the counters are those of before.
\<close>

theorem tryRepairOne_all_or_nothing:
  assumes "fs_inv x L {} st" "a \<in> x_as x" "set (m_days m) \<subseteq> x_days x" "tryRepairOne m a st = (ok, st')"
  shows "if ok then \<exists>L'. fs_inv x L' {} st' \<and> length L' = Suc (length L) \<and> kept (x_n0 x) L L' \<and> fst (L' ! length L) = a
    else obs st' = obs st"
  using tryRepairOne_correct [OF assms] by (cases ok) (simp_all add: grown_def)

lemma tryRepairOne_all_or_nothing_witness:
  "\<exists>x L. if fst (tryRepairOne demo_model demo_assignment demo_state)
    then \<exists>L'. fs_inv x L' {} (snd (tryRepairOne demo_model demo_assignment demo_state)) \<and> length L' = Suc (length L)
      \<and> kept (x_n0 x) L L' \<and> fst (L' ! length L) = demo_assignment
    else obs (snd (tryRepairOne demo_model demo_assignment demo_state)) = obs demo_state"
proof -
  obtain L0 where "fs_inv (ctx_of demo_model (createBaseState demo_model) L0) L0 {} demo_state"
    "demo_assignment \<in> x_as (ctx_of demo_model (createBaseState demo_model) L0)"
    "set (m_days demo_model) \<subseteq> x_days (ctx_of demo_model (createBaseState demo_model) L0)"
    using demo_start by blast
  from tryRepairOne_all_or_nothing [OF this prod.collapse [symmetric]] show ?thesis by blast
qed

text \<open>
  C11: the assignments of the model have distinct keys, a positive demand, a positive session limit
  and a teacher; the expected number of periods is the sum of the demands, and no day occurs twice.
\<close>

theorem buildModel_assignments:
  "distinct (map a_key (m_assignments (buildModel data)))
    \<and> list_all (\<lambda>a. 0 < a_periods a \<and> 0 < a_limit a \<and> a_teacher a \<noteq> []) (m_assignments (buildModel data))
    \<and> m_expected (buildModel data) = sum_list (map a_periods (m_assignments (buildModel data)))
    \<and> distinct (m_days (buildModel data))"
proof -
  define good :: "assignment list \<times> (ustr \<times> assignment) list \<Rightarrow> bool" where
    "good t \<longleftrightarrow> distinct (map a_key (fst t)) \<and> list_all (\<lambda>a. 0 < a_periods a \<and> 0 < a_limit a \<and> a_teacher a \<noteq> []) (fst t)" for t
  have make: "0 < a_periods a \<and> 0 < a_limit a \<and> a_teacher a \<noteq> []"
    if "make_assignment data sj ts rs c subject raw = Some a" for sj ts rs c subject raw a
    using that by (auto simp: make_assignment_def Let_def split: prod.splits if_splits)
  have step: "good (add_assignment data sj ts rs cls entry t)" if "good t" for sj ts rs cls entry t
    using that by (auto simp: add_assignment_def good_def Let_def split: prod.splits option.splits dest: make)
  have "good (fold (add_assignment data sj ts rs cls) es ([], []))" for sj ts rs cls es
    by (rule fold_invariant [where P = good]) (simp add: good_def, rule step)
  then show ?thesis
    by (simp add: good_def buildModel_def case_prod_unfold Let_def distinct_model_days)
qed

text \<open>
  The gaps that \<open>teacherMetric\<close> counts are the free periods strictly between the first and
  the last lesson of the half day, and a gap counted as wide accounts for at least two of them.
\<close>

lemma teacherMetric_gaps:
  "mt_count (teacherMetric slots) = length (positions_of slots)
    \<and> mt_gaps (teacherMetric slots) + mt_count (teacherMetric slots) =
      (if positions_of slots = [] then 0 else last (positions_of slots) - hd (positions_of slots) + 1)
    \<and> 2 * mt_gap2 (teacherMetric slots) \<le> mt_gaps (teacherMetric slots)"
proof -
  have span: "sum_list (gaps_between ps) + length ps = (if ps = [] then 0 else last ps - hd ps + 1)"
    if "sorted_wrt (<) ps" for ps :: "nat list"
    using that
  proof (induction ps rule: gaps_between.induct)
    case (1 p q ps)
    then have "q \<le> last (q # ps)" by (metis hd_conv_nth last_conv_nth le_refl list.distinct(1) list.sel(1) sorted_wrt_iff_nth_less last_in_set set_ConsD less_imp_le sorted_wrt.simps(2))
    then show ?case using 1 by auto
  qed auto
  have wide: "2 * length (filter (\<lambda>g. g \<ge> 2) gs) \<le> sum_list gs" for gs :: "nat list"
    by (induction gs) auto
  have "sorted_wrt (<) (positions_of slots)"
    by (simp add: positions_of_def sorted_wrt_filter)
  from span [OF this] wide [of "gaps_between (positions_of slots)"] show ?thesis
    by (simp add: teacherMetric_def Let_def)
qed

end
