(* ===== verification/FeText.thy ===== *)
theory FeText
  imports JsPrelude
begin

section \<open>FET engine: slots, the generator and names\<close>

text \<open>
  The top of \<open>tkb-fet-engine.js\<close> (constants, \<open>FetPRNG\<close>, \<open>slotToDetails\<close>,
  \<open>detailsToSlot\<close>, \<open>parseTeacherList\<close>) and the readers of cells and names of the class
  (\<open>isCellOff\<close> to \<open>normalizeMonName\<close>, \<open>removeDiacritics\<close>, the built-in subject keys).
\<close>

subsection \<open>Slots of the week\<close>

definition days_list :: "ustr list" where
  "days_list = map u [''thu2'', ''thu3'', ''thu4'', ''thu5'', ''thu6'', ''thu7'']"

definition sessions_list :: "ustr list" where
  "sessions_list = map u [''sang'', ''chieu'']"

abbreviation periods_per_session :: nat where "periods_per_session \<equiv> 5"
abbreviation slots_per_day :: nat where "slots_per_day \<equiv> 10"
abbreviation total_slots :: nat where "total_slots \<equiv> 60"
abbreviation max_recursion_level :: nat where "max_recursion_level \<equiv> 16"

record slot_details =
  sd_day :: nat
  sd_thu :: ustr
  sd_session :: nat
  sd_buoi :: ustr
  sd_period :: nat

definition slotToDetails :: "nat \<Rightarrow> slot_details" where
  "slotToDetails slot =
     (let d = slot div slots_per_day; r = slot mod slots_per_day; b = r div periods_per_session
      in \<lparr>sd_day = d, sd_thu = (if d < length days_list then days_list ! d else u ''thu2''),
          sd_session = b, sd_buoi = (if b < length sessions_list then sessions_list ! b else u ''sang''),
          sd_period = r mod periods_per_session\<rparr>)"

fun index_of :: "'a \<Rightarrow> 'a list \<Rightarrow> nat option" where
  "index_of x [] = None"
| "index_of x (y # ys) = (if x = y then Some 0 else map_option Suc (index_of x ys))"

text \<open>\<open>None\<close> is the code's -1. The period comes from data, so it is a number or NaN.\<close>

definition detailsToSlot :: "ustr \<Rightarrow> ustr \<Rightarrow> nat \<Rightarrow> nat option" where
  "detailsToSlot thu buoi p = (case (index_of thu days_list, index_of buoi sessions_list) of
     (Some d, Some b) \<Rightarrow> if p < periods_per_session then Some (d * slots_per_day + b * periods_per_session + p) else None
   | _ \<Rightarrow> None)"

subsection \<open>The generator\<close>

text \<open>
  An integer-valued product rounded to a double: exact below \<open>2^53\<close>, otherwise to 53 significant
  bits, ties to even. The seed may be a time stamp, whose products exceed \<open>2^53\<close>.
\<close>

definition bit_size :: "nat \<Rightarrow> nat" where
  "bit_size n = length (takeWhile (\<lambda>k. 2 ^ k \<le> n) [0..<128])"

definition round_53 :: "nat \<Rightarrow> nat" where
  "round_53 n = (let e = bit_size n - 53; q = n div 2 ^ e; r = n mod 2 ^ e
     in if e = 0 then n
        else if 2 * r > 2 ^ e \<or> 2 * r = 2 ^ e \<and> odd q then (q + 1) * 2 ^ e else q * 2 ^ e)"

definition dbl :: "int \<Rightarrow> int" where
  "dbl i = (if i < 0 then - int (round_53 (nat (- i))) else int (round_53 (nat i)))"

record prng =
  p10 :: int
  p11 :: int
  p12 :: int

definition nonzero_or :: "int \<Rightarrow> int \<Rightarrow> int" where
  "nonzero_or a b = (if a = 0 then b else a)"

definition prng_new :: "int \<Rightarrow> prng" where
  "prng_new seed =
     \<lparr>p10 = nonzero_or (seed mod 2 ^ 31) 12345,
      p11 = nonzero_or (dbl (dbl (seed * 1103515245) + 12345) mod 2 ^ 31) 67890,
      p12 = nonzero_or (dbl (dbl (seed * 214013) + 2531011) mod 2 ^ 31) 13579\<rparr>"

text \<open>\<open>next()\<close> is the numerator over \<open>2^31 - 1\<close>; the sum of products stays below \<open>2^53\<close>.\<close>

definition prng_next :: "prng \<Rightarrow> int \<times> prng" where
  "prng_next r = (let p = (p10 r * 16807 + p11 r * 48271 + p12 r * 69621) mod 2147483647
     in (p, \<lparr>p10 = p11 r, p11 = p12 r, p12 = p\<rparr>))"

text \<open>
  \<open>Math.floor(next() * max)\<close>: for the bounds of the engine the rounded quotient never crosses an
  integer, since \<open>p * max\<close> is a multiple of the prime \<open>2^31 - 1\<close> only for \<open>p = 0\<close>.
\<close>

definition nextInt :: "nat \<Rightarrow> prng \<Rightarrow> nat \<times> prng" where
  "nextInt n r = (if n \<le> 1 then (0, r)
     else let (p, r') = prng_next r in (nat (p * int n div 2147483647), r'))"

definition swap_idx :: "nat \<Rightarrow> nat \<Rightarrow> 'a list \<Rightarrow> 'a list" where
  "swap_idx i j xs = xs[i := xs ! j, j := xs ! i]"

fun fet_shuffle_from :: "nat \<Rightarrow> 'a list \<Rightarrow> prng \<Rightarrow> 'a list \<times> prng" where
  "fet_shuffle_from 0 xs r = (xs, r)"
| "fet_shuffle_from (Suc i) xs r =
     (let (j, r') = nextInt (i + 2) r in fet_shuffle_from i (swap_idx (Suc i) j xs) r')"

definition fet_shuffle :: "'a list \<Rightarrow> prng \<Rightarrow> 'a list \<times> prng" where
  "fet_shuffle xs r = fet_shuffle_from (length xs - 1) xs r"

subsection \<open>Strings\<close>

definition starts_with :: "ustr \<Rightarrow> ustr \<Rightarrow> bool" where
  "starts_with p s \<longleftrightarrow> take (length p) s = p"

definition ends_with :: "ustr \<Rightarrow> ustr \<Rightarrow> bool" where
  "ends_with p s \<longleftrightarrow> starts_with (rev p) (rev s)"

fun has_sub :: "ustr \<Rightarrow> ustr \<Rightarrow> bool" where
  "has_sub p [] = (p = [])"
| "has_sub p (c # cs) = (starts_with p (c # cs) \<or> has_sub p cs)"

text \<open>\<open>s.split(sep)\<close> for a separator of at least one character; \<open>w\<close> is the current piece, reversed.\<close>

function split_str :: "ustr \<Rightarrow> ustr \<Rightarrow> ustr \<Rightarrow> ustr list" where
  "split_str sep w [] = [rev w]"
| "split_str sep w (c # cs) =
     (if starts_with sep (c # cs) then rev w # split_str sep [] (drop (length sep - 1) cs)
      else split_str sep (c # w) cs)"
  by pat_completeness auto
termination by (relation "measure (\<lambda>(sep, w, s). length s)") auto

text \<open>The code splits a combined name \<open>code - name\<close> at this separator.\<close>

definition dash :: ustr where
  "dash = [32, 45, 32]"

definition before_dash :: "ustr \<Rightarrow> ustr" where
  "before_dash s = (if has_sub dash s then trim (hd (split_str dash [] s)) else s)"

definition after_dash :: "ustr \<Rightarrow> ustr" where
  "after_dash s = trim (join_with dash (tl (split_str dash [] s)))"

definition ascii_lower :: "nat \<Rightarrow> nat" where
  "ascii_lower c = (if 65 \<le> c \<and> c \<le> 90 then c + 32 else c)"

text \<open>\<open>s.replace(/word/gi, "")\<close> for an ASCII word.\<close>

function drop_word :: "ustr \<Rightarrow> ustr \<Rightarrow> ustr" where
  "drop_word p [] = []"
| "drop_word p (c # cs) =
     (if starts_with p (map ascii_lower (c # cs)) then drop_word p (drop (length p - 1) cs)
      else c # drop_word p cs)"
  by pat_completeness auto
termination by (relation "measure (\<lambda>(p, s). length s)") auto

definition strip_marks :: "ustr \<Rightarrow> ustr" where
  "strip_marks s = rev (dropWhile (\<lambda>c. c = 33 \<or> c = 42) (rev (dropWhile (\<lambda>c. c = 33 \<or> c = 42) s)))"

text \<open>The tail both readers of a subject share: outer marks, \<open>[fixed]\<close> and \<open>[co_dinh]\<close> removed.\<close>

definition clean_subject :: "ustr \<Rightarrow> ustr" where
  "clean_subject s = trim (drop_word (u ''[co_dinh]'') (drop_word (u ''[fixed]'') (strip_marks s)))"

fun collapse_ws :: "ustr \<Rightarrow> ustr" where
  "collapse_ws [] = []"
| "collapse_ws [c] = (if is_space c then [32] else [c])"
| "collapse_ws (c # d # cs) =
     (if is_space c then (if is_space d then collapse_ws (d # cs) else 32 # collapse_ws (d # cs))
      else c # collapse_ws (d # cs))"

text \<open>\<open>s.replace(/\s+\d+$/, "")\<close>.\<close>

definition strip_num_suffix :: "ustr \<Rightarrow> ustr" where
  "strip_num_suffix s =
     (let r = rev s; ds = takeWhile is_digit r; rest = dropWhile is_digit r
      in if ds \<noteq> [] \<and> rest \<noteq> [] \<and> is_space (hd rest) then rev (dropWhile is_space rest) else s)"

definition removeDiacritics :: "ustr \<Rightarrow> ustr" where
  "removeDiacritics s =
     trim (toLowerCase (map (\<lambda>c. if c = 273 then 100 else if c = 272 then 68 else c) (nfd_strip s)))"

text \<open>\<open>normalize('NFC')\<close> on the characters of the decomposition table of the prelude.\<close>

definition mark_class :: "nat \<Rightarrow> nat" where
  "mark_class c = (if c = 795 then 216 else if c = 803 then 220 else if c = 807 then 202 else 230)"

fun insert_mark :: "nat \<Rightarrow> ustr \<Rightarrow> ustr" where
  "insert_mark c [] = [c]"
| "insert_mark c (d # ds) = (if is_mark d \<and> mark_class d < mark_class c then d # insert_mark c ds else c # d # ds)"

definition nfd :: "ustr \<Rightarrow> ustr" where
  "nfd s = foldr (\<lambda>c r. if is_mark c then insert_mark c r else c # r) (concat (map nfd_cu s)) []"

definition compose_pair :: "nat \<Rightarrow> nat \<Rightarrow> nat option" where
  "compose_pair a b = map_of (map (\<lambda>(c, d). (d, c)) nfd_table) (nfd_cu a @ [b])"

fun compose :: "nat option \<Rightarrow> ustr \<Rightarrow> ustr \<Rightarrow> ustr" where
  "compose None pend [] = rev pend"
| "compose (Some s) pend [] = s # rev pend"
| "compose None pend (c # cs) = (if is_mark c then compose None (c # pend) cs else rev pend @ compose (Some c) [] cs)"
| "compose (Some s) pend (c # cs) =
     (case (if is_mark c \<and> (pend = [] \<or> mark_class (hd pend) < mark_class c) then compose_pair s c else None) of
        Some x \<Rightarrow> compose (Some x) pend cs
      | None \<Rightarrow> if is_mark c then compose (Some s) (c # pend) cs else s # rev pend @ compose (Some c) [] cs)"

definition nfc :: "ustr \<Rightarrow> ustr" where
  "nfc s = compose None [] (nfd s)"

definition normalizeMonName :: "ustr \<Rightarrow> ustr" where
  "normalizeMonName name =
     toLowerCase (collapse_ws (clean_subject (before_dash (trim (nfc name)))))"

subsection \<open>Teachers\<close>

definition list_sep :: "nat \<Rightarrow> bool" where
  "list_sep c \<longleftrightarrow> c = 44 \<or> c = 10 \<or> c = 59 \<or> c = 43"

text \<open>
  Line ends, semicolons and plus signs (with the spaces around them) become commas; the pieces are
  trimmed and the empty ones dropped, so splitting at each separator gives the same list.
\<close>

definition parse_names :: "ustr \<Rightarrow> ustr list" where
  "parse_names raw = filter (\<lambda>t. t \<noteq> []) (map (\<lambda>t. before_dash (toLowerCase (trim t))) (split_on list_sep raw))"

definition parseTeacherList :: "js \<Rightarrow> ustr list" where
  "parseTeacherList raw =
     (if \<not> js_truthy raw then []
      else if is_array raw then filter (\<lambda>t. t \<noteq> []) (map (\<lambda>t. toLowerCase (trim (if js_truthy t then js_string t else []))) (array_of raw))
      else parse_names (js_string raw))"

subsection \<open>Cells of the stored timetable\<close>

definition isCellOff :: "js \<Rightarrow> bool" where
  "isCellOff cell = (case cell of
     JStr s \<Rightarrow> s = u ''OFF'' \<or> s = u ''off'' \<or> toLowerCase (trim s) = u ''nghi'' \<or> toLowerCase (trim s) = u ''off''
   | _ \<Rightarrow> is_object cell \<and> (jprop cell ''off'' = JBool True \<or> jprop cell ''val'' = JStr (u ''OFF'')
       \<or> jprop cell ''mon'' = JStr (u ''OFF'') \<or> jprop cell ''off'' = JNum 1 \<or> jprop cell ''nghi'' = JBool True))"

definition flag_set :: "js \<Rightarrow> bool" where
  "flag_set v \<longleftrightarrow> v = JBool True \<or> v = JNum 1"

definition isCellFixed :: "js \<Rightarrow> bool" where
  "isCellFixed cell = (case cell of
     JStr s0 \<Rightarrow> (let s = trim s0 in s0 \<noteq> [] \<and> (starts_with (u ''!'') s \<or> ends_with (u ''*'') s \<or> has_sub (u ''[fixed]'') s
       \<or> starts_with (u ''[cd]'') s \<or> has_sub [40, 99, 7889, 32, 273, 7883, 110, 104, 41] s
       \<or> has_sub (u ''(co dinh)'') s))
   | _ \<Rightarrow> is_object cell \<and> (flag_set (jprop cell ''fixed'') \<or> flag_set (jprop cell ''cd'') \<or> flag_set (jprop cell ''codinh'')
       \<or> jprop cell ''isFixed'' = JBool True \<or> jprop cell ''locked'' = JBool True))"

definition str_or_empty :: "js \<Rightarrow> ustr" where
  "str_or_empty v = (if js_truthy v then js_string v else [])"

definition extractTeacher :: "js \<Rightarrow> ustr" where
  "extractTeacher cell =
     (if is_object cell then
        (if js_truthy (jprop cell ''gv'') then trim (js_string (jprop cell ''gv''))
         else if js_truthy (jprop cell ''teacher'') then trim (js_string (jprop cell ''teacher''))
         else case jprop cell ''mon'' of
                JStr m \<Rightarrow> if has_sub dash m then after_dash m else []
              | _ \<Rightarrow> [])
      else case cell of JStr s \<Rightarrow> if has_sub dash s then after_dash s else [] | _ \<Rightarrow> [])"

definition extractRoom :: "js \<Rightarrow> ustr" where
  "extractRoom cell =
     (if is_object cell then
        (if js_truthy (jprop cell ''room'') then trim (js_string (jprop cell ''room''))
         else if js_truthy (jprop cell ''phong'') then trim (js_string (jprop cell ''phong'')) else [])
      else [])"

definition extractMon :: "js \<Rightarrow> ustr" where
  "extractMon cell =
     (if \<not> js_truthy cell then []
      else let m = (if is_object cell
                    then trim (str_or_empty (js_or (jprop cell ''mon'') (js_or (jprop cell ''val'') (jprop cell ''subject''))))
                    else trim (js_string cell))
           in clean_subject (before_dash m))"

definition extractKhoiNumber :: "js \<Rightarrow> ustr" where
  "extractKhoiNumber v = (if js_truthy v then first_digits (js_string v) else [])"

subsection \<open>Built-in subject keys\<close>

definition builtin_keys :: "(string list \<times> string) list" where
  "builtin_keys = [
    ([''chao co'', ''cc'', ''shdc'', ''sinh hoat duoi co'', ''shl'', ''sinh hoat lop'', ''sinh hoat'', ''tnhn'',
      ''hdtn'', ''hdtn,hn'', ''hdtn-hn'', ''hdtn/hn'', ''hoat dong trai nghiem'',
      ''hoat dong trai nghiem huong nghiep'', ''hoat dong trai nghiem va huong nghiep''], ''hdtn''),
    ([''lich su va dia ly'', ''lich su - dia ly'', ''lich su dia ly'', ''ls-dl'', ''ls&dl'', ''lsdl'', ''su dia'', ''sd''], ''lsdl''),
    ([''khoa hoc tu nhien'', ''khtn''], ''khtn''),
    ([''giao duc the chat'', ''the duc'', ''gdtc'', ''td''], ''gdtc''),
    ([''giao duc cong dan'', ''gdcd'', ''gd''], ''gdcd''),
    ([''giao duc dia phuong'', ''gddp'', ''noi dung giao duc dia phuong''], ''gddp''),
    ([''tin hoc'', ''tin''], ''tin''),
    ([''cong nghe'', ''cn''], ''cn''),
    ([''my thuat'', ''mi thuat'', ''mt''], ''mt''),
    ([''am nhac'', ''nhac'', ''an''], ''nhac''),
    ([''ngu van'', ''van'', ''va''], ''van''),
    ([''tieng anh'', ''ngoai ngu'', ''anh'', ''av''], ''anh''),
    ([''toan'', ''to''], ''toan'')]"

definition getCanonMonKeyBuiltin :: "ustr \<Rightarrow> ustr" where
  "getCanonMonKeyBuiltin mon =
     (let s = collapse_ws (trim (strip_num_suffix (removeDiacritics mon)))
      in case List.find (\<lambda>(names, k). list_ex (\<lambda>n. u n = s) names) builtin_keys of
           Some (_, k) \<Rightarrow> u k | None \<Rightarrow> s)"

definition isChaoCo :: "ustr \<Rightarrow> bool" where
  "isChaoCo name \<longleftrightarrow> list_ex (\<lambda>n. n = normalizeMonName name)
     [[99, 104, 224, 111, 32, 99, 7901], u ''chao co'', u ''cc'', u ''shdc'',
      [115, 105, 110, 104, 32, 104, 111, 7841, 116, 32, 100, 432, 7899, 105, 32, 99, 7901], u ''sinh hoat duoi co'']"

definition isSinhHoatLop :: "ustr \<Rightarrow> bool" where
  "isSinhHoatLop name \<longleftrightarrow> list_ex (\<lambda>n. n = normalizeMonName name)
     [u ''shl'', [115, 105, 110, 104, 32, 104, 111, 7841, 116, 32, 108, 7899, 112], u ''sinh hoat lop'',
      [115, 105, 110, 104, 32, 104, 111, 7841, 116], u ''sinh hoat'']"

subsection \<open>Facts\<close>

lemma prng_next_bound: "0 \<le> fst (prng_next r) \<and> fst (prng_next r) < 2147483647"
  by (simp add: prng_next_def Let_def)

lemma nextInt_bound: "0 < n \<Longrightarrow> fst (nextInt n r) < n"
proof (cases "n \<le> 1")
  case False
  obtain p r' where pr: "prng_next r = (p, r')" by (cases "prng_next r")
  then have p: "0 \<le> p" "p < 2147483647" using prng_next_bound [of r] by simp_all
  have "p * int n < 2147483647 * int n" using p False by simp
  then have "p * int n div 2147483647 < int n" by (simp add: div_less_iff_less_mult mult.commute [of _ 2147483647])
  moreover have "0 \<le> p * int n div 2147483647" using p by (simp add: pos_imp_zdiv_nonneg_iff)
  ultimately show ?thesis using False pr by (simp add: nextInt_def nat_less_iff)
qed (simp add: nextInt_def)

lemma mset_swap_idx: "i < length xs \<Longrightarrow> j < length xs \<Longrightarrow> mset (swap_idx i j xs) = mset xs"
  by (simp add: swap_idx_def mset_swap)

lemma mset_fet_shuffle_from: "i < length xs \<or> i = 0 \<Longrightarrow> mset (fst (fet_shuffle_from i xs r)) = mset xs"
proof (induction i arbitrary: xs r)
  case (Suc i)
  obtain j r' where j: "nextInt (i + 2) r = (j, r')" by (cases "nextInt (i + 2) r")
  then have "j < i + 2" using nextInt_bound [of "i + 2" r] by simp
  moreover have len: "Suc i < length xs" using Suc.prems by simp
  ultimately have ms: "mset (swap_idx (Suc i) j xs) = mset xs" by (intro mset_swap_idx) simp_all
  have "mset (fst (fet_shuffle_from i (swap_idx (Suc i) j xs) r')) = mset (swap_idx (Suc i) j xs)"
    by (rule Suc.IH) (use len in \<open>simp add: swap_idx_def\<close>)
  then show ?case using j ms by simp
qed simp

lemma mset_fet_shuffle: "mset (fst (fet_shuffle xs r)) = mset xs"
proof (cases xs)
  case Nil
  then show ?thesis by (simp add: fet_shuffle_def)
next
  case (Cons x ys)
  then show ?thesis unfolding fet_shuffle_def by (intro mset_fet_shuffle_from) simp
qed

lemma set_fet_shuffle [simp]: "set (fst (fet_shuffle xs r)) = set xs"
  using mset_fet_shuffle [of xs r] by (rule mset_eq_setD)

lemma fet_shuffle_memD: "fet_shuffle xs r = (ys, r') \<Longrightarrow> x \<in> set ys \<longleftrightarrow> x \<in> set xs"
  using set_fet_shuffle [of xs r] by simp

end
