(* ===== verification/FeData.thy ===== *)
theory FeData
  imports FeText
begin

section \<open>FET engine: what the school's data say\<close>

text \<open>
  The look-ups of the engine in the \<open>DATA\<close> object: the teacher, room, weekly periods and session
  limit of a class and a subject, the index of subject aliases (a union-find over the names of each
  record), and the periods a class needs (\<open>buildActivities\<close>). The caches of the code hold values
  of pure functions of the data, so the functions stand for them.
\<close>

subsection \<open>Classes and keys\<close>

definition class_id :: "js \<Rightarrow> ustr" where
  "class_id lop = str_or_empty (jprop lop ''id'')"

definition class_canon :: "js \<Rightarrow> ustr" where
  "class_canon lop = js_string (js_or (jprop lop ''ten2'') (js_or (jprop lop ''ten'') (JStr (class_id lop))))"

definition bar_key :: "ustr \<Rightarrow> ustr \<Rightarrow> ustr" where
  "bar_key a b = a @ [124] @ b"

definition after_bar :: "ustr \<Rightarrow> ustr" where
  "after_bar k = drop 1 (dropWhile (\<lambda>c. c \<noteq> 124) k)"

definition of_class :: "js \<Rightarrow> ustr \<Rightarrow> bool" where
  "of_class lop k \<longleftrightarrow> starts_with (bar_key (class_id lop) []) k \<or> starts_with (bar_key (class_canon lop) []) k"

definition norm_js :: "js \<Rightarrow> ustr" where
  "norm_js v = normalizeMonName (str_or_empty v)"

definition str_of :: "js \<Rightarrow> ustr" where
  "str_of v = (if nullish v then [] else js_string v)"

subsection \<open>The index of subject aliases\<close>

definition alias_norm :: "js \<Rightarrow> ustr" where
  "alias_norm v = trim (collapse_ws (removeDiacritics (str_of v)))"

type_synonym parents = "(ustr \<times> ustr) list"

definition uf_add :: "ustr \<Rightarrow> parents \<Rightarrow> parents" where
  "uf_add k p = (if k \<noteq> [] \<and> map_of p k = None then AList.update k k p else p)"

fun uf_root :: "nat \<Rightarrow> parents \<Rightarrow> ustr \<Rightarrow> ustr" where
  "uf_root 0 p r = r"
| "uf_root (Suc n) p r = (case map_of p r of
     Some q \<Rightarrow> if q \<noteq> [] \<and> q \<noteq> r then uf_root n p q else r | None \<Rightarrow> r)"

fun uf_compress :: "nat \<Rightarrow> ustr \<Rightarrow> ustr \<Rightarrow> parents \<Rightarrow> parents" where
  "uf_compress 0 rt cur p = p"
| "uf_compress (Suc n) rt cur p = (case map_of p cur of
     Some q \<Rightarrow> if q \<noteq> [] \<and> q \<noteq> cur then uf_compress n rt q (AList.update cur rt p) else p | None \<Rightarrow> p)"

text \<open>A chain of parents is never longer than the map, the fuel of both loops.\<close>

definition uf_find :: "ustr \<Rightarrow> parents \<Rightarrow> ustr \<times> parents" where
  "uf_find k p = (let r = uf_root (length p) p k in (r, uf_compress (length p) r k p))"

definition uf_union :: "ustr \<Rightarrow> ustr \<Rightarrow> parents \<Rightarrow> parents" where
  "uf_union a b p =
     (let (ra, p1) = uf_find a (uf_add b (uf_add a p)); (rb, p2) = uf_find b p1
      in if ra \<noteq> [] \<and> rb \<noteq> [] \<and> ra \<noteq> rb then AList.update rb ra p2 else p2)"

definition alias_keys :: "js \<Rightarrow> ustr list" where
  "alias_keys rec = filter (\<lambda>k. k \<noteq> []) (map alias_norm
     [jprop rec ''ten'', jprop rec ''mon'', jprop rec ''mamon'', jprop rec ''ma'', jprop rec ''ma2'',
      jprop rec ''id'', jprop rec ''key''])"

definition alias_records :: "js \<Rightarrow> js list" where
  "alias_records data = array_of (jprop data ''monhoc'') @ array_of (jprop data ''mon'')"

definition add_record :: "js \<Rightarrow> parents \<Rightarrow> parents" where
  "add_record rec p = (case alias_keys rec of [] \<Rightarrow> p
     | k0 # ks \<Rightarrow> fold (uf_union k0) (k0 # ks) (fold uf_add (k0 # ks) p))"

definition split_list :: "js \<Rightarrow> js list" where
  "split_list v = (if is_array v then array_of v
     else map JStr (split_on (\<lambda>c. c = 44 \<or> c = 59) (str_of v)))"

text \<open>The joint-lesson rows: the key of the row is an alias of its base subject.\<close>

definition ghep_pairs :: "js \<Rightarrow> (ustr \<times> ustr) list" where
  "ghep_pairs row =
     (if \<not> is_object row then []
      else let ten = alias_norm (jprop row ''ten'');
               mons = filter (\<lambda>m. m \<noteq> []) (map (\<lambda>x. trim (str_of x)) (split_list (jprop row ''mon'')));
               base = (case mons of [] \<Rightarrow> [] | m # _ \<Rightarrow> alias_norm (JStr m))
           in if ten = [] \<or> base = [] \<or> ten = base then []
              else map (\<lambda>k. (k, base)) (filter (\<lambda>k. k \<noteq> []) (remdups [ten, strip_num_suffix ten])))"

definition canon_of_record :: "js \<Rightarrow> (ustr \<times> ustr) list \<times> parents \<Rightarrow> (ustr \<times> ustr) list \<times> parents" where
  "canon_of_record rec acc = (case alias_keys rec of [] \<Rightarrow> acc
     | k0 # ks \<Rightarrow> let (r, p) = uf_find k0 (snd acc); canonical = (if r \<noteq> [] then r else k0)
                  in (fold (\<lambda>k. AList.update k canonical) (k0 # ks) (fst acc), p))"

definition canon_of_pair :: "ustr \<times> ustr \<Rightarrow> (ustr \<times> ustr) list \<times> parents \<Rightarrow> (ustr \<times> ustr) list \<times> parents" where
  "canon_of_pair kb acc =
     (let (k, base) = kb; known = map_of (fst acc) base
      in case known of
           Some v \<Rightarrow> if v \<noteq> [] then (AList.update k v (fst acc), snd acc)
             else let (r, p) = uf_find base (snd acc) in (AList.update k (if r \<noteq> [] then r else base) (fst acc), p)
         | None \<Rightarrow> let (r, p) = uf_find base (snd acc) in (AList.update k (if r \<noteq> [] then r else base) (fst acc), p))"

definition ensureMonAliasIndex :: "js \<Rightarrow> (ustr \<times> ustr) list" where
  "ensureMonAliasIndex data =
     (let recs = alias_records data; pairs = concat (map ghep_pairs (array_of (jprop data ''dayGhep'')));
          p1 = fold add_record recs [];
          p2 = fold (\<lambda>(k, base). uf_union base k) pairs p1;
          acc = fold canon_of_record recs ([], p2)
      in fst (fold canon_of_pair pairs acc))"

definition getCanonMonKey :: "js \<Rightarrow> ustr \<Rightarrow> ustr" where
  "getCanonMonKey data mon =
     (if mon = [] then []
      else let builtinKey = getCanonMonKeyBuiltin mon;
               schoolKey = trim (collapse_ws (strip_num_suffix (removeDiacritics mon)))
           in if builtinKey = u ''hdtn'' then builtinKey
              else case map_of (ensureMonAliasIndex data) schoolKey of
                     Some mapped \<Rightarrow> if mapped = [] then builtinKey
                       else let b = getCanonMonKeyBuiltin mapped in if b \<noteq> [] then b else mapped
                   | None \<Rightarrow> builtinKey)"

subsection \<open>Joint lessons without a teacher\<close>

definition no_teacher_row :: "js \<Rightarrow> (ustr \<times> ustr set) list \<Rightarrow> (ustr \<times> ustr set) list" where
  "no_teacher_row row index =
     (if \<not> is_object row then index
      else let gv = (if is_array (jprop row ''gv'') then array_of (jprop row ''gv'')
                     else map JStr (split_on (\<lambda>c. c = 44 \<or> c = 59 \<or> c = 43 \<or> c = 10) (str_of (jprop row ''gv''))));
               ten = toLowerCase (trim (str_of (jprop row ''ten'')));
               classes = filter (\<lambda>c. c \<noteq> []) (map (\<lambda>c. toLowerCase (trim (str_of c))) (split_list (jprop row ''lop'')))
           in if list_ex (\<lambda>x. trim (str_of x) \<noteq> []) gv \<or> ten = [] then index
              else AList.update ten ((case map_of index ten of Some s \<Rightarrow> s | None \<Rightarrow> {}) \<union> set classes) index)"

definition isNoTeacherGhepSubject :: "js \<Rightarrow> js \<Rightarrow> ustr \<Rightarrow> bool" where
  "isNoTeacherGhepSubject data lop mon =
     (let monLow = toLowerCase (trim mon);
          index = fold no_teacher_row (array_of (jprop data ''dayGhep'')) [];
          names = filter (\<lambda>n. n \<noteq> []) (map (\<lambda>v. toLowerCase (trim (str_of v))) [jprop lop ''id'', jprop lop ''ten'', jprop lop ''ten2''])
      in monLow \<noteq> [] \<and> (case map_of index monLow of Some s \<Rightarrow> list_ex (\<lambda>n. n \<in> s) names | None \<Rightarrow> False))"

subsection \<open>Teacher, room, periods, session limit\<close>

definition first_entry :: "(ustr \<Rightarrow> bool) \<Rightarrow> js \<Rightarrow> js" where
  "first_entry P matrix = (case List.find (\<lambda>(k, v). P k) (entries matrix) of Some (_, v) \<Rightarrow> v | None \<Rightarrow> JUndef)"

definition getTeacherForClassMon :: "js \<Rightarrow> js \<Rightarrow> ustr \<Rightarrow> ustr" where
  "getTeacherForClassMon data lop mon =
     (if \<not> js_truthy lop \<or> mon = [] then []
      else if isNoTeacherGhepSubject data lop mon then []
      else let key1 = bar_key (class_id lop) mon; key2 = bar_key (class_canon lop) mon;
               val = js_or (jget (jprop data ''pccmMatrix'') key1) (js_or (jget (jprop data ''pccmMatrix'') key2)
                       (js_or (jget (jprop data ''tkbLessonTeachers'') key1) (jget (jprop data ''tkbLessonTeachers'') key2)));
               nrm = normalizeMonName mon; canon = getCanonMonKey data mon;
               val' = (if js_truthy val then val else first_entry (\<lambda>k. of_class lop k
                         \<and> (normalizeMonName (after_bar k) = nrm \<or> canon \<noteq> [] \<and> getCanonMonKey data (after_bar k) = canon))
                         (jprop data ''pccmMatrix''))
           in trim (str_or_empty val'))"

definition getRoomForClassMon :: "js \<Rightarrow> js \<Rightarrow> ustr \<Rightarrow> ustr" where
  "getRoomForClassMon data lop mon =
     (if \<not> js_truthy lop \<or> mon = [] then []
      else let key1 = bar_key (class_id lop) mon; key2 = bar_key (class_canon lop) mon;
               val = js_or (jget (jprop data ''pccmRoomMatrix'') key1) (js_or (jget (jprop data ''pccmRoomMatrix'') key2)
                       (js_or (jget (jprop data ''tkbLessonRooms'') key1) (jget (jprop data ''tkbLessonRooms'') key2)));
               val' = (if js_truthy val then val else first_entry (\<lambda>k. of_class lop k
                         \<and> normalizeMonName (after_bar k) = normalizeMonName mon) (jprop data ''pccmRoomMatrix''))
           in trim (str_or_empty val'))"

definition set_value :: "js \<Rightarrow> bool" where
  "set_value v \<longleftrightarrow> \<not> nullish v \<and> v \<noteq> JStr []"

text \<open>The first row of a subject table that names the subject, for a grade or for any.\<close>

definition names_subject :: "ustr \<Rightarrow> js \<Rightarrow> bool" where
  "names_subject nrm row \<longleftrightarrow> norm_js (jprop row ''ten'') = nrm \<or> norm_js (jprop row ''ma'') = nrm
     \<or> norm_js (jprop row ''id'') = nrm \<or> norm_js (jprop row ''mon'') = nrm"

definition class_grade :: "js \<Rightarrow> ustr" where
  "class_grade lop =
     (let a = extractKhoiNumber (jprop lop ''khoi''); b = extractKhoiNumber (jprop lop ''ten2'')
      in if a \<noteq> [] then a else if b \<noteq> [] then b else extractKhoiNumber (jprop lop ''ten''))"

definition subject_rows :: "js \<Rightarrow> js \<Rightarrow> ustr \<Rightarrow> js list" where
  "subject_rows data lop mon =
     (let nrm = normalizeMonName mon; grade = class_grade lop;
          find = (\<lambda>P xs. case List.find P xs of Some r \<Rightarrow> [r] | None \<Rightarrow> [])
      in (if grade = [] then [] else find (\<lambda>r. extractKhoiNumber (jprop r ''khoi'') = grade \<and> names_subject nrm r)
             (array_of (jprop data ''mon'')))
         @ find (names_subject nrm) (array_of (jprop data ''mon''))
         @ find (names_subject nrm) (array_of (jprop data ''monhoc'')))"

definition positive :: "js \<Rightarrow> rat option" where
  "positive v = (case js_number v of Some q \<Rightarrow> (if q > 0 then Some q else None) | None \<Rightarrow> None)"

fun first_positive :: "js list \<Rightarrow> rat option" where
  "first_positive [] = None"
| "first_positive (v # vs) = (case positive v of Some q \<Rightarrow> Some q | None \<Rightarrow> first_positive vs)"

definition getRequiredPeriods :: "js \<Rightarrow> js \<Rightarrow> ustr \<Rightarrow> nat" where
  "getRequiredPeriods data lop mon =
     (let tiet = jprop data ''pccmTietMatrix'';
          raw0 = js_nullor (jget tiet (bar_key (class_id lop) mon)) (jget tiet (bar_key (class_canon lop) mon));
          raw = (if set_value raw0 then raw0
                 else case List.find (\<lambda>(k, v). of_class lop k \<and> normalizeMonName (after_bar k) = normalizeMonName mon)
                        (entries tiet) of Some (_, v) \<Rightarrow> v | None \<Rightarrow> raw0);
          fromTable = first_positive (map (\<lambda>r. js_or (jprop r ''sotiet'') (js_or (jprop r ''tiet'') (jprop r ''required'')))
                        (subject_rows data lop mon))
      in case (if set_value raw then positive raw else None) of
           Some q \<Rightarrow> nat (math_round q)
         | None \<Rightarrow> (case fromTable of Some q \<Rightarrow> nat (math_round q) | None \<Rightarrow> 1))"

definition getSubjectSessionLimit :: "js \<Rightarrow> js \<Rightarrow> ustr \<Rightarrow> rat" where
  "getSubjectSessionLimit data lop mon =
     (if mon = [] then 2
      else let m = jprop data ''pccmGioihanMatrix'';
               raw = js_nullor (jget m (bar_key (class_id lop) mon)) (jget m (bar_key (class_canon lop) mon))
           in case (if set_value raw then positive raw else None) of
                Some q \<Rightarrow> q
              | None \<Rightarrow> (case first_positive (map (\<lambda>r. jprop r ''gioihan'') (subject_rows data lop mon)) of
                  Some q \<Rightarrow> q | None \<Rightarrow> 2))"

end
