(* ===== verification/FeGrid.thy ===== *)
theory FeGrid
  imports FeData
begin

section \<open>FET engine: the state and its elementary moves\<close>

text \<open>
  The fields of \<open>FetTimetableEngine\<close> that the construction and the repairs use, and the moves that
  change the grids: \<open>placeActivityDirect\<close>, \<open>unplaceActivity\<close> and the journal with its rollback.

  \<^item> A grid cell holds an activity number, -1 (free), -2 (OFF) or -3 (fixed): \<open>gcell\<close>. A grid is a
    \<open>Map\<close> in insertion order, an association list; a missing row reads as free cells.
  \<^item> \<open>actPlacement\<close> holds a slot or -1: \<open>nat option\<close>.
  \<^item> Keys \<open>${name}|${slot}\<close> are pairs: the slot is the digits after the last bar.
  \<^item> The journal is kept newest first. \<open>Date.now()\<close> is the next value of \<open>e_clock\<close>.
\<close>

datatype gcell = GFree | GOff | GFixed | GAct nat

fun taken :: "gcell \<Rightarrow> bool" where
  "taken (GAct _) = True"
| "taken GFixed = True"
| "taken _ = False"

record act =
  ac_id :: nat
  ac_class :: ustr
  ac_classCanon :: ustr
  ac_lop :: js
  ac_mon :: ustr
  ac_canon :: ustr
  ac_gv :: ustr
  ac_room :: ustr
  ac_dur :: nat
  ac_fixed :: bool
  ac_ninc :: int
  ac_init :: "nat option"
  ac_raw :: js
  ac_raw2 :: js

record fixinfo =
  fx_mon :: ustr
  fx_gv :: ustr
  fx_room :: ustr

record block_req =
  br_cid :: ustr
  br_classCanon :: ustr
  br_canon :: ustr
  br_len :: nat
  br_min :: rat
  br_max :: "rat option"

record block_conflict =
  bc_class :: ustr
  bc_name :: ustr
  bc_mon :: ustr
  bc_len :: nat
  bc_limit :: rat
  bc_periods :: nat

datatype jop = JPlace nat nat | JUnplace nat nat

type_synonym rows = "(ustr \<times> gcell list) list"

record eng =
  e_data :: js
  e_opts :: js
  e_classes :: "js list"
  e_acts :: "act list"
  e_fixed :: "((ustr \<times> nat) \<times> fixinfo) list"
  e_raw :: "((ustr \<times> nat) \<times> js) list"
  e_off :: "(ustr \<times> nat) set"
  e_toff :: "(ustr \<times> nat) set"
  e_roff :: "(ustr \<times> nat) set"
  e_soff :: "(ustr \<times> nat) set"
  e_cgrid :: rows
  e_tgrid :: rows
  e_rgrid :: rows
  e_place :: "nat option list"
  e_blocks :: "(ustr \<times> block_req) list"
  e_blockConflicts :: "block_conflict list"
  e_scored :: "ustr set option"
  e_tabu :: "nat \<times> nat \<Rightarrow> nat"
  e_step :: nat
  e_calls :: nat
  e_limit :: nat
  e_journal :: "jop list"
  e_branch :: "nat set"
  e_rng :: prng
  e_clock :: "nat \<Rightarrow> int"
  e_ticks :: nat
  e_deadline :: "int option"
  e_hit :: bool
  e_strict :: bool
  e_mintwo :: bool
  e_weekly :: "(ustr \<times> nat) list option"
  e_permanent :: "nat set option"
  e_holes :: "nat option"
  e_lockS1 :: "rat option"
  e_lockGap2 :: "rat option"
  e_rejections :: nat

subsection \<open>Rows\<close>

definition cell_at :: "rows \<Rightarrow> ustr \<Rightarrow> nat \<Rightarrow> gcell" where
  "cell_at m k s = (case map_of m k of Some r \<Rightarrow> (if s < length r then r ! s else GFree) | None \<Rightarrow> GFree)"

definition set_cell_at :: "ustr \<Rightarrow> nat \<Rightarrow> gcell \<Rightarrow> rows \<Rightarrow> rows" where
  "set_cell_at k s v m = (case map_of m k of Some r \<Rightarrow> AList.update k (r[s := v]) m | None \<Rightarrow> m)"

definition empty_row :: "gcell list" where
  "empty_row = replicate total_slots GFree"

definition ensure_row :: "ustr \<Rightarrow> rows \<Rightarrow> rows" where
  "ensure_row k m = (if map_of m k = None then AList.update k empty_row m else m)"

definition act_teachers :: "act \<Rightarrow> ustr list" where
  "act_teachers a = (if ac_gv a = [] then [] else parse_names (ac_gv a))"

definition room_key :: "act \<Rightarrow> ustr" where
  "room_key a = toLowerCase (trim (ac_room a))"

definition slots_from :: "nat \<Rightarrow> nat \<Rightarrow> nat list" where
  "slots_from slot dur = [slot..<slot + dur]"

subsection \<open>Unplacing and placing\<close>

definition free_teacher_cell :: "eng \<Rightarrow> nat \<Rightarrow> nat \<Rightarrow> ustr \<Rightarrow> rows \<Rightarrow> rows" where
  "free_teacher_cell st i s t m =
     (if cell_at m t s = GAct i then set_cell_at t s (if (t, s) \<in> e_toff st then GOff else GFree) m else m)"

definition unplace_cell :: "nat \<Rightarrow> act \<Rightarrow> nat \<Rightarrow> eng \<Rightarrow> eng" where
  "unplace_cell i a s st =
     (let c = ac_class a;
          cg = (if cell_at (e_cgrid st) c s = GAct i
                then set_cell_at c s (if (c, s) \<in> e_off st then GOff
                       else if map_of (e_fixed st) (c, s) \<noteq> None then GFixed else GFree) (e_cgrid st)
                else e_cgrid st);
          tg = fold (free_teacher_cell st i s) (act_teachers a) (e_tgrid st);
          rg = (if ac_room a \<noteq> [] \<and> cell_at (e_rgrid st) (room_key a) s = GAct i
                then set_cell_at (room_key a) s GFree (e_rgrid st) else e_rgrid st)
      in st\<lparr>e_cgrid := cg, e_tgrid := tg, e_rgrid := rg\<rparr>)"

definition unplaceActivity :: "nat \<Rightarrow> eng \<Rightarrow> eng" where
  "unplaceActivity i st =
     (if i \<ge> length (e_acts st) then st
      else case e_place st ! i of None \<Rightarrow> st
      | Some slot \<Rightarrow> let a = e_acts st ! i;
                         st1 = fold (unplace_cell i a) (slots_from slot (ac_dur a)) st
                     in st1\<lparr>e_place := (e_place st1)[i := None]\<rparr>)"

definition place_cell :: "nat \<Rightarrow> act \<Rightarrow> nat \<Rightarrow> eng \<Rightarrow> eng" where
  "place_cell i a s st =
     st\<lparr>e_cgrid := set_cell_at (ac_class a) s (GAct i) (e_cgrid st),
        e_tgrid := fold (\<lambda>t m. set_cell_at t s (GAct i) (ensure_row t m)) (act_teachers a) (e_tgrid st),
        e_rgrid := (if ac_room a = [] then e_rgrid st
                    else set_cell_at (room_key a) s (GAct i) (ensure_row (room_key a) (e_rgrid st)))\<rparr>"

definition placeActivityDirect :: "nat \<Rightarrow> nat \<Rightarrow> eng \<Rightarrow> eng" where
  "placeActivityDirect i slot st =
     (if i \<ge> length (e_acts st) then st
      else let a = e_acts st ! i;
               st1 = (case e_place st ! i of Some p \<Rightarrow> (if p \<noteq> slot then unplaceActivity i st else st) | None \<Rightarrow> st);
               st2 = st1\<lparr>e_place := (e_place st1)[i := Some slot]\<rparr>
           in fold (place_cell i a) (slots_from slot (ac_dur a)) st2)"

subsection \<open>The move journal\<close>

definition jrnUnplace :: "nat \<Rightarrow> eng \<Rightarrow> eng" where
  "jrnUnplace i st = (case e_place st ! i of None \<Rightarrow> st
     | Some p \<Rightarrow> unplaceActivity i (st\<lparr>e_journal := JUnplace i p # e_journal st\<rparr>))"

definition jrnPlace :: "nat \<Rightarrow> nat \<Rightarrow> eng \<Rightarrow> eng" where
  "jrnPlace i slot st =
     (let st1 = (if e_place st ! i \<noteq> None then jrnUnplace i st else st)
      in placeActivityDirect i slot (st1\<lparr>e_journal := JPlace i slot # e_journal st1\<rparr>))"

fun undo_op :: "jop \<Rightarrow> eng \<Rightarrow> eng" where
  "undo_op (JPlace i slot) st = (if e_place st ! i = Some slot then unplaceActivity i st else st)"
| "undo_op (JUnplace i slot) st = placeActivityDirect i slot st"

text \<open>No inverse move writes the journal, so the loop pops the newest entries down to the mark.\<close>

definition jrnRollback :: "nat \<Rightarrow> eng \<Rightarrow> eng" where
  "jrnRollback mark st =
     (let n = length (e_journal st) - mark
      in fold undo_op (take n (e_journal st)) (st\<lparr>e_journal := drop n (e_journal st)\<rparr>))"

subsection \<open>Conflicts of a slot\<close>

definition add_conflict :: "nat \<Rightarrow> nat list \<Rightarrow> nat list" where
  "add_conflict b cs = (if b \<in> set cs then cs else cs @ [b])"

fun conflict_of :: "nat \<Rightarrow> gcell \<Rightarrow> nat list \<Rightarrow> nat list" where
  "conflict_of i (GAct b) cs = (if b \<noteq> i then add_conflict b cs else cs)"
| "conflict_of i _ cs = cs"

text \<open>\<open>None\<close> is \<open>possible: false\<close>.\<close>

fun conflict_teachers :: "eng \<Rightarrow> nat \<Rightarrow> nat \<Rightarrow> ustr list \<Rightarrow> nat list \<Rightarrow> nat list option" where
  "conflict_teachers st i s [] cs = Some cs"
| "conflict_teachers st i s (t # ts) cs =
     (if (t, s) \<in> e_toff st then None
      else let c = cell_at (e_tgrid st) t s
           in if c = GFixed \<or> c = GOff then None else conflict_teachers st i s ts (conflict_of i c cs))"

definition conflict_cell :: "eng \<Rightarrow> act \<Rightarrow> nat \<Rightarrow> nat list \<Rightarrow> nat list option" where
  "conflict_cell st a s cs =
     (if (ac_class a, s) \<in> e_off st \<or> map_of (e_fixed st) (ac_class a, s) \<noteq> None then None
      else if ac_mon a \<noteq> [] \<and> ((ac_canon a, s) \<in> e_soff st \<or> (normalizeMonName (ac_mon a), s) \<in> e_soff st) then None
      else case conflict_teachers st (ac_id a) s (act_teachers a)
                  (conflict_of (ac_id a) (cell_at (e_cgrid st) (ac_class a) s) cs) of
             None \<Rightarrow> None
           | Some cs2 \<Rightarrow>
               if ac_room a = [] then Some cs2
               else if (room_key a, s) \<in> e_roff st then None
               else let c = cell_at (e_rgrid st) (room_key a) s
                    in if c = GFixed \<or> c = GOff then None else Some (conflict_of (ac_id a) c cs2))"

fun conflict_cells :: "eng \<Rightarrow> act \<Rightarrow> nat list \<Rightarrow> nat list \<Rightarrow> nat list option" where
  "conflict_cells st a [] cs = Some cs"
| "conflict_cells st a (s # ss) cs = (case conflict_cell st a s cs of
     None \<Rightarrow> None | Some cs' \<Rightarrow> conflict_cells st a ss cs')"

definition session_start :: "nat \<Rightarrow> nat" where
  "session_start slot = slot div slots_per_day * slots_per_day
     + slot mod slots_per_day div periods_per_session * periods_per_session"

definition in_block :: "nat \<Rightarrow> nat \<Rightarrow> nat \<Rightarrow> bool" where
  "in_block slot dur s \<longleftrightarrow> slot \<le> s \<and> s < slot + dur"

definition span_of :: "nat list \<Rightarrow> nat" where
  "span_of ps = last ps - hd ps + 1"

definition teacher_gaps_ok :: "eng \<Rightarrow> act \<Rightarrow> nat \<Rightarrow> nat list \<Rightarrow> ustr \<Rightarrow> bool" where
  "teacher_gaps_ok st a slot cs t =
     (map_of (e_tgrid st) t = None \<or>
      (let st0 = session_start slot;
           curP = filter (\<lambda>k. in_block slot (ac_dur a) (st0 + k) \<or>
             (case cell_at (e_tgrid st) t (st0 + k) of
                GAct b \<Rightarrow> b \<noteq> ac_id a \<and> b \<notin> set cs | GFixed \<Rightarrow> True | _ \<Rightarrow> False)) [0..<periods_per_session]
       in length curP < 2 \<or>
          (\<not> list_ex (\<lambda>g. g > 1) (gaps_between curP) \<and> span_of curP - length curP \<le> 1)))"

definition subject_periods :: "eng \<Rightarrow> act \<Rightarrow> nat \<Rightarrow> nat list \<Rightarrow> nat list" where
  "subject_periods st a slot cs =
     (let st0 = session_start slot; canon = getCanonMonKey (e_data st) (ac_mon a)
      in filter (\<lambda>k. in_block slot (ac_dur a) (st0 + k) \<or>
           (case cell_at (e_cgrid st) (ac_class a) (st0 + k) of
              GAct b \<Rightarrow> b \<notin> set cs \<and> b < length (e_acts st)
                \<and> getCanonMonKey (e_data st) (ac_mon (e_acts st ! b)) = canon
            | _ \<Rightarrow> (case map_of (e_fixed st) (ac_class a, st0 + k) of
                Some fx \<Rightarrow> fx_mon fx \<noteq> [] \<and> getCanonMonKey (e_data st) (fx_mon fx) = canon | None \<Rightarrow> False)))
         [0..<periods_per_session])"

definition wrong_half_day :: "act \<Rightarrow> nat \<Rightarrow> bool" where
  "wrong_half_day a slot =
     (let v = jprop (ac_lop a) ''ca''; ca = toLowerCase (trim (js_string v)); buoi = sd_buoi (slotToDetails slot)
      in js_truthy v \<and> (ca = u ''sang'' \<and> buoi \<noteq> u ''sang'' \<or> ca = u ''chieu'' \<and> buoi \<noteq> u ''chieu''))"

definition getConflictsForSlot :: "eng \<Rightarrow> act \<Rightarrow> nat \<Rightarrow> nat list option" where
  "getConflictsForSlot st a slot =
     (if sd_period (slotToDetails slot) + ac_dur a - 1 \<ge> periods_per_session then None
      else if wrong_half_day a slot then None
      else case conflict_cells st a (slots_from slot (ac_dur a)) [] of
             None \<Rightarrow> None
           | Some cs \<Rightarrow>
               if e_strict st \<and> list_ex (\<lambda>t. \<not> teacher_gaps_ok st a slot cs t) (act_teachers a) then None
               else let ps = subject_periods st a slot cs
                    in if of_nat (length ps) > getSubjectSessionLimit (e_data st) (ac_lop a) (ac_mon a) then None
                       else if length ps \<ge> 2 \<and> span_of ps \<noteq> length ps then None
                       else Some cs)"

subsection \<open>The penalty of a slot\<close>

definition taken_in :: "rows \<Rightarrow> ustr \<Rightarrow> nat \<Rightarrow> nat \<Rightarrow> nat list" where
  "taken_in m t start n = filter (\<lambda>p. taken (cell_at m t (start + p))) [0..<n]"

definition join_bonus :: "bool \<Rightarrow> nat \<Rightarrow> int" where
  "join_bonus fixedSingle n =
     (if n = 1 then (if fixedSingle then - 700 else - 250) else if n = 2 then - 80 else if n = 3 then - 30
      else if n = 4 then - 10 else 0)"

text \<open>The gaps of the merged list may be -1, when a period is counted twice.\<close>

fun int_gaps :: "nat list \<Rightarrow> int list" where
  "int_gaps (p # q # ps) = (int q - int p - 1) # int_gaps (q # ps)"
| "int_gaps _ = []"

definition teacher_penalty :: "eng \<Rightarrow> act \<Rightarrow> nat \<Rightarrow> ustr \<Rightarrow> int" where
  "teacher_penalty st a slot t =
     (if map_of (e_tgrid st) t = None then 0
      else let d = slot div slots_per_day; st0 = session_start slot;
               p = slot mod slots_per_day mod periods_per_session; dur = (if ac_dur a = 0 then 1 else ac_dur a);
               dayTaught = length (taken_in (e_tgrid st) t (d * slots_per_day) slots_per_day);
               currentP = taken_in (e_tgrid st) t st0 periods_per_session
           in if currentP = [] then 350 + (if dayTaught = 0 \<and> dur = 1 then 450 else 0)
              else let newP = sort (currentP @ map (\<lambda>k. p + k) [0..<dur]);
                       totalGaps = int (last newP) - int (hd newP) + 1 - int (length newP);
                       maxGap = foldl max 0 (int_gaps newP)
                   in join_bonus (cell_at (e_tgrid st) t (st0 + hd currentP) = GFixed) (length currentP)
                      + (if dayTaught = 1 then - 400 else 0)
                      + (if maxGap > 1 then 2000 * maxGap else 0)
                      + (if totalGaps > 1 then 1500 * (totalGaps - 1) else 0)
                      + (if totalGaps = 1 \<and> maxGap = 1 then 10 else 0)
                      + (if totalGaps = 0 then - 100 else 0))"

definition getPlacementPenalty :: "eng \<Rightarrow> act \<Rightarrow> nat \<Rightarrow> int" where
  "getPlacementPenalty st a slot = sum_list (map (teacher_penalty st a slot) (act_teachers a))"

end
