(* ===== verification/FeSafe.thy ===== *)
theory FeSafe
  imports FeGrid
begin

section \<open>FET engine: the grids as a function of the placement\<close>

text \<open>
  The invariant of the engine. \<open>good\<close> says of a placement alone that its lessons fit their half
  days, stand on cells that are free in the data, and never share a class, a teacher or a room;
  \<open>agree\<close> says that the three grids are exactly what the placement and the data determine. Placing
  and unplacing keep them in step, so undoing the placement undoes the grids.
\<close>

declare split_paired_All [simp del] split_paired_Ex [simp del]

record fe_base =
  fb_c :: "ustr \<Rightarrow> nat \<Rightarrow> gcell"
  fb_t :: "ustr \<Rightarrow> nat \<Rightarrow> gcell"
  fb_r :: "ustr \<Rightarrow> nat \<Rightarrow> gcell"

type_synonym placement = "nat option list"

definition covers :: "act list \<Rightarrow> placement \<Rightarrow> nat \<Rightarrow> nat \<Rightarrow> bool" where
  "covers acts pl i s \<longleftrightarrow> i < length pl \<and> (\<exists>p. pl ! i = Some p \<and> p \<le> s \<and> s < p + ac_dur (acts ! i))"

definition has_room :: "act \<Rightarrow> ustr \<Rightarrow> bool" where
  "has_room a r \<longleftrightarrow> ac_room a \<noteq> [] \<and> room_key a = r"

definition rows_ok :: "rows \<Rightarrow> bool" where
  "rows_ok m \<longleftrightarrow> (\<forall>k r. map_of m k = Some r \<longrightarrow> length r = total_slots)"

text \<open>One grid shows the owners of its rows, and the base everywhere else.\<close>

definition displays :: "act list \<Rightarrow> placement \<Rightarrow> (act \<Rightarrow> ustr \<Rightarrow> bool) \<Rightarrow> (ustr \<Rightarrow> nat \<Rightarrow> gcell) \<Rightarrow> rows \<Rightarrow> bool" where
  "displays acts pl own base m \<longleftrightarrow>
     (\<forall>k s i. cell_at m k s = GAct i \<longleftrightarrow> i < length acts \<and> own (acts ! i) k \<and> covers acts pl i s)
     \<and> (\<forall>k s. (\<forall>i. cell_at m k s \<noteq> GAct i) \<longrightarrow> cell_at m k s = base k s)
     \<and> (\<forall>k s i. base k s \<noteq> GAct i) \<and> rows_ok m"

abbreviation own_class :: "act \<Rightarrow> ustr \<Rightarrow> bool" where "own_class a c \<equiv> ac_class a = c"
abbreviation own_teacher :: "act \<Rightarrow> ustr \<Rightarrow> bool" where "own_teacher a t \<equiv> t \<in> set (act_teachers a)"

definition agree :: "fe_base \<Rightarrow> eng \<Rightarrow> bool" where
  "agree B st \<longleftrightarrow> length (e_place st) = length (e_acts st) \<and> distinct (map fst (e_cgrid st))
     \<and> (\<forall>i < length (e_acts st). ac_id (e_acts st ! i) = i \<and> 0 < ac_dur (e_acts st ! i)
          \<and> map_of (e_cgrid st) (ac_class (e_acts st ! i)) \<noteq> None)
     \<and> (\<forall>c s. fb_c B c s \<noteq> GFree \<longrightarrow> (c, s) \<in> e_off st \<or> map_of (e_fixed st) (c, s) \<noteq> None)
     \<and> displays (e_acts st) (e_place st) own_class (fb_c B) (e_cgrid st)
     \<and> displays (e_acts st) (e_place st) own_teacher (fb_t B) (e_tgrid st)
     \<and> displays (e_acts st) (e_place st) has_room (fb_r B) (e_rgrid st)"

definition open_cell :: "fe_base \<Rightarrow> eng \<Rightarrow> act \<Rightarrow> nat \<Rightarrow> bool" where
  "open_cell B st a s \<longleftrightarrow> fb_c B (ac_class a) s = GFree \<and> (ac_class a, s) \<notin> e_off st
     \<and> map_of (e_fixed st) (ac_class a, s) = None
     \<and> (\<forall>t \<in> set (act_teachers a). fb_t B t s = GFree \<and> (t, s) \<notin> e_toff st)
     \<and> (ac_room a \<noteq> [] \<longrightarrow> fb_r B (room_key a) s = GFree)"

definition disjoint_acts :: "act \<Rightarrow> act \<Rightarrow> bool" where
  "disjoint_acts a b \<longleftrightarrow> ac_class a \<noteq> ac_class b \<and> set (act_teachers a) \<inter> set (act_teachers b) = {}
     \<and> (ac_room a = [] \<or> ac_room b = [] \<or> room_key a \<noteq> room_key b)"

definition good :: "fe_base \<Rightarrow> eng \<Rightarrow> placement \<Rightarrow> bool" where
  "good B st pl \<longleftrightarrow> length pl = length (e_acts st)
     \<and> (\<forall>i p. i < length pl \<longrightarrow> pl ! i = Some p \<longrightarrow>
          p < total_slots \<and> p mod periods_per_session + ac_dur (e_acts st ! i) \<le> periods_per_session)
     \<and> (\<forall>i s. covers (e_acts st) pl i s \<longrightarrow> open_cell B st (e_acts st ! i) s)
     \<and> (\<forall>i j s. i \<noteq> j \<longrightarrow> covers (e_acts st) pl i s \<longrightarrow> covers (e_acts st) pl j s \<longrightarrow>
          disjoint_acts (e_acts st ! i) (e_acts st ! j))"

text \<open>The fields that no move changes.\<close>

definition sig :: "eng \<Rightarrow> act list \<times> (ustr \<times> nat) set \<times> ((ustr \<times> nat) \<times> fixinfo) list \<times> (ustr \<times> nat) set
    \<times> ((ustr \<times> nat) \<times> js) list \<times> js list \<times> js \<times> nat option \<times> ustr set option" where
  "sig st = (e_acts st, e_off st, e_fixed st, e_toff st, e_raw st, e_classes st, e_data st, e_holes st, e_scored st)"

lemma good_cong: "sig st = sig st' \<Longrightarrow> good B st pl = good B st' pl"
  by (simp add: good_def sig_def open_cell_def)

definition grids :: "eng \<Rightarrow> rows \<times> rows \<times> rows \<times> placement" where
  "grids st = (e_cgrid st, e_tgrid st, e_rgrid st, e_place st)"

lemma agree_cong: "sig st = sig st' \<Longrightarrow> grids st = grids st' \<Longrightarrow> agree B st = agree B st'"
  by (simp add: agree_def sig_def grids_def)

lemma agreeD:
  assumes "agree B st"
  shows "length (e_place st) = length (e_acts st)"
    and "i < length (e_acts st) \<Longrightarrow> ac_id (e_acts st ! i) = i" and "i < length (e_acts st) \<Longrightarrow> 0 < ac_dur (e_acts st ! i)"
    and "i < length (e_acts st) \<Longrightarrow> map_of (e_cgrid st) (ac_class (e_acts st ! i)) \<noteq> None"
    and "fb_c B c s \<noteq> GFree \<Longrightarrow> (c, s) \<in> e_off st \<or> map_of (e_fixed st) (c, s) \<noteq> None"
    and "displays (e_acts st) (e_place st) own_class (fb_c B) (e_cgrid st)"
    and "displays (e_acts st) (e_place st) own_teacher (fb_t B) (e_tgrid st)"
    and "displays (e_acts st) (e_place st) has_room (fb_r B) (e_rgrid st)"
    and "distinct (map fst (e_cgrid st))"
  using assms unfolding agree_def by blast+

lemma displaysD:
  assumes "displays acts pl own base m"
  shows "cell_at m k s = GAct i \<longleftrightarrow> i < length acts \<and> own (acts ! i) k \<and> covers acts pl i s"
    and "(\<And>i. cell_at m k s \<noteq> GAct i) \<Longrightarrow> cell_at m k s = base k s"
    and "base k s \<noteq> GAct i" and "rows_ok m"
  using assms unfolding displays_def by blast+

lemma goodD:
  assumes "good B st pl"
  shows "length pl = length (e_acts st)"
    and "i < length pl \<Longrightarrow> pl ! i = Some p \<Longrightarrow> p < total_slots"
    and "i < length pl \<Longrightarrow> pl ! i = Some p \<Longrightarrow> p mod periods_per_session + ac_dur (e_acts st ! i) \<le> periods_per_session"
    and "covers (e_acts st) pl i s \<Longrightarrow> open_cell B st (e_acts st ! i) s"
    and "i \<noteq> j \<Longrightarrow> covers (e_acts st) pl i s \<Longrightarrow> covers (e_acts st) pl j s \<Longrightarrow> disjoint_acts (e_acts st ! i) (e_acts st ! j)"
  using assms unfolding good_def by blast+

lemma nth_update: "j < length pl \<Longrightarrow> pl[i := x] ! j = (if j = i then x else pl ! j)"
  by (cases "i < length pl") (auto simp: nth_list_update)

lemma covers_remove: "covers acts (pl[i := None]) j s \<longleftrightarrow> j \<noteq> i \<and> covers acts pl j s"
  by (auto simp: covers_def nth_update split: if_splits)

lemma covers_add:
  "i < length pl \<Longrightarrow> covers acts (pl[i := Some p]) j s \<longleftrightarrow>
     (if j = i then p \<le> s \<and> s < p + ac_dur (acts ! i) else covers acts pl j s)"
  by (auto simp: covers_def nth_list_update)

lemma good_remove: "good B st pl \<Longrightarrow> good B st (pl[i := None])"
  unfolding good_def covers_remove by (auto simp: nth_update split: if_splits)

lemma block_end:
  assumes "p < 60" "p mod 5 + d \<le> (5::nat)"
  shows "p + d \<le> 60"
proof -
  have "p = 5 * (p div 5) + p mod 5" by simp
  moreover have "p div 5 < 12" using assms(1) by (simp add: less_mult_imp_div_less)
  ultimately show ?thesis using assms(2) by linarith
qed

lemma covers_bound:
  assumes g: "good B st pl" and c: "covers (e_acts st) pl i s"
  shows "s < total_slots"
proof -
  from c obtain p where p: "i < length pl" "pl ! i = Some p" "s < p + ac_dur (e_acts st ! i)"
    by (auto simp: covers_def)
  from block_end [OF goodD(2,3) [OF g p(1,2)]] p(3) show ?thesis by linarith
qed

subsection \<open>Rows\<close>

lemma cell_at_set:
  "cell_at (set_cell_at k s v m) k' s' =
     (if k' = k \<and> s' = s \<and> (\<exists>r. map_of m k = Some r \<and> s < length r) then v else cell_at m k' s')"
  by (auto simp: cell_at_def set_cell_at_def nth_list_update split: option.splits)

lemma rows_ok_set [simp]: "rows_ok m \<Longrightarrow> rows_ok (set_cell_at k s v m)"
  by (auto simp: rows_ok_def set_cell_at_def split: option.splits)

lemma has_row_set [simp]: "map_of (set_cell_at k s v m) k' = None \<longleftrightarrow> map_of m k' = None"
  by (auto simp: set_cell_at_def split: option.splits)

lemma set_cell_keys [simp]: "map fst (set_cell_at k s v m) = map fst m"
proof (cases "map_of m k")
  case (Some r)
  then have "k \<in> set (map fst m)" using map_of_SomeD [OF Some] by force
  then show ?thesis using Some by (simp add: set_cell_at_def update_keys)
qed (simp add: set_cell_at_def)

lemma has_row_keys: "map fst m' = map fst m \<Longrightarrow> map_of m' k = None \<longleftrightarrow> map_of m k = None"
  by (metis list.set_map map_of_eq_None_iff)

lemma cell_at_ensure [simp]: "cell_at (ensure_row k m) = cell_at m"
  by (intro ext) (auto simp: cell_at_def ensure_row_def empty_row_def)

lemma rows_ok_ensure [simp]: "rows_ok m \<Longrightarrow> rows_ok (ensure_row k m)"
  by (auto simp: rows_ok_def ensure_row_def empty_row_def)

lemma has_row_ensure: "map_of (ensure_row k m) k' \<noteq> None \<longleftrightarrow> k' = k \<or> map_of m k' \<noteq> None"
  by (auto simp: ensure_row_def)

lemma cell_at_put:
  assumes "rows_ok m" "s < total_slots"
  shows "cell_at (set_cell_at k s v (ensure_row k m)) k' s' = (if k' = k \<and> s' = s then v else cell_at m k' s')"
proof -
  have "\<exists>r. map_of (ensure_row k m) k = Some r" using has_row_ensure [of k m k] by blast
  moreover have "rows_ok (ensure_row k m)" using assms(1) by simp
  ultimately show ?thesis using assms(2) by (auto simp: cell_at_set rows_ok_def)
qed

text \<open>A cell that reads as an activity lies inside an existing row.\<close>

lemma cell_at_act_row: "cell_at m k s = GAct i \<Longrightarrow> \<exists>r. map_of m k = Some r \<and> s < length r"
  by (auto simp: cell_at_def split: option.splits if_splits)

lemma cell_at_free:
  "cell_at (if cell_at m k s = GAct i then set_cell_at k s v m else m) k' s' =
     (if k' = k \<and> s' = s \<and> cell_at m k s = GAct i then v else cell_at m k' s')"
  using cell_at_act_row [of m k s i] by (auto simp: cell_at_set)

subsection \<open>Placing\<close>

lemma place_teachers:
  assumes "rows_ok m" "s < total_slots"
  shows "rows_ok (fold (\<lambda>t m. set_cell_at t s (GAct i) (ensure_row t m)) ts m) \<and>
    cell_at (fold (\<lambda>t m. set_cell_at t s (GAct i) (ensure_row t m)) ts m) t' s' =
      (if t' \<in> set ts \<and> s' = s then GAct i else cell_at m t' s')"
  using assms(1)
proof (induction ts arbitrary: m)
  case (Cons t ts)
  have "rows_ok (set_cell_at t s (GAct i) (ensure_row t m))" using Cons.prems by simp
  from Cons.IH [OF this] show ?case by (auto simp: cell_at_put [OF Cons.prems assms(2)])
qed simp

definition frame :: "eng \<Rightarrow> eng \<Rightarrow> bool" where
  "frame st st' \<longleftrightarrow> (\<exists>c t r p. st' = st\<lparr>e_cgrid := c, e_tgrid := t, e_rgrid := r, e_place := p\<rparr>)"

lemma frame_refl [simp]: "frame st st"
  unfolding frame_def
  by (intro exI [of _ "e_cgrid st"] exI [of _ "e_tgrid st"] exI [of _ "e_rgrid st"] exI [of _ "e_place st"]) simp

lemma frame_place [simp]: "frame st (st\<lparr>e_place := p\<rparr>)"
  unfolding frame_def
  by (intro exI [of _ "e_cgrid st"] exI [of _ "e_tgrid st"] exI [of _ "e_rgrid st"] exI [of _ p]) simp

lemma frame_trans: "frame a b \<Longrightarrow> frame b c \<Longrightarrow> frame a c"
  unfolding frame_def by (elim exE) (simp, blast)

lemma frame_fields:
  assumes "frame st st'"
  shows "sig st' = sig st" "e_acts st' = e_acts st" "e_journal st' = e_journal st" "e_branch st' = e_branch st"
    "e_data st' = e_data st" "e_calls st' = e_calls st" "e_limit st' = e_limit st" "e_ticks st' = e_ticks st"
    "e_off st' = e_off st" "e_fixed st' = e_fixed st" "e_toff st' = e_toff st" "e_clock st' = e_clock st"
  using assms by (auto simp: frame_def sig_def)

definition all_rows_ok :: "eng \<Rightarrow> bool" where
  "all_rows_ok st \<longleftrightarrow> rows_ok (e_cgrid st) \<and> rows_ok (e_tgrid st) \<and> rows_ok (e_rgrid st)"

text \<open>The cells of the activity's rows at the given slots get new values, the others stay.\<close>

definition repainted ::
  "act \<Rightarrow> nat set \<Rightarrow> (gcell \<Rightarrow> ustr \<Rightarrow> nat \<Rightarrow> gcell) \<Rightarrow> (gcell \<Rightarrow> ustr \<Rightarrow> nat \<Rightarrow> gcell) \<Rightarrow>
   (gcell \<Rightarrow> ustr \<Rightarrow> nat \<Rightarrow> gcell) \<Rightarrow> eng \<Rightarrow> eng \<Rightarrow> bool" where
  "repainted a S fc ft fr st st' \<longleftrightarrow> frame st st' \<and> e_place st' = e_place st \<and> all_rows_ok st'
     \<and> map fst (e_cgrid st') = map fst (e_cgrid st)
     \<and> (\<forall>k s. cell_at (e_cgrid st') k s = (if own_class a k \<and> s \<in> S then fc (cell_at (e_cgrid st) k s) k s else cell_at (e_cgrid st) k s))
     \<and> (\<forall>k s. cell_at (e_tgrid st') k s = (if own_teacher a k \<and> s \<in> S then ft (cell_at (e_tgrid st) k s) k s else cell_at (e_tgrid st) k s))
     \<and> (\<forall>k s. cell_at (e_rgrid st') k s = (if has_room a k \<and> s \<in> S then fr (cell_at (e_rgrid st) k s) k s else cell_at (e_rgrid st) k s))"

lemma repaintedD:
  assumes "repainted a S fc ft fr st st'"
  shows "frame st st'" "e_place st' = e_place st" "all_rows_ok st'"
    "map_of (e_cgrid st') c = None \<longleftrightarrow> map_of (e_cgrid st) c = None"
    "cell_at (e_cgrid st') k s = (if own_class a k \<and> s \<in> S then fc (cell_at (e_cgrid st) k s) k s else cell_at (e_cgrid st) k s)"
    "cell_at (e_tgrid st') k s = (if own_teacher a k \<and> s \<in> S then ft (cell_at (e_tgrid st) k s) k s else cell_at (e_tgrid st) k s)"
    "cell_at (e_rgrid st') k s = (if has_room a k \<and> s \<in> S then fr (cell_at (e_rgrid st) k s) k s else cell_at (e_rgrid st) k s)"
    "map fst (e_cgrid st') = map fst (e_cgrid st)"
  using assms has_row_keys [of "e_cgrid st'" "e_cgrid st" c] unfolding repainted_def by blast+

lemma repainted_none: "all_rows_ok st \<Longrightarrow> repainted a {} fc ft fr st st"
  by (simp add: repainted_def)

lemma repainted_step:
  assumes one: "repainted a {s} fc ft fr st st1" and rest: "repainted a S fc ft fr st1 st2"
    and idem: "\<And>x k s. fc (fc x k s) k s = fc x k s" "\<And>x k s. ft (ft x k s) k s = ft x k s" "\<And>x k s. fr (fr x k s) k s = fr x k s"
  shows "repainted a (insert s S) fc ft fr st st2"
  unfolding repainted_def
  by (intro conjI allI)
    (use repaintedD [OF one] repaintedD [OF rest] frame_trans in \<open>auto simp: idem\<close>)

lemma place_cell_effect:
  assumes "all_rows_ok st" "s < total_slots" "map_of (e_cgrid st) (ac_class a) \<noteq> None"
  shows "repainted a {s} (\<lambda>_ _ _. GAct i) (\<lambda>_ _ _. GAct i) (\<lambda>_ _ _. GAct i) st (place_cell i a s st)"
proof -
  have ok: "rows_ok (e_cgrid st)" "rows_ok (e_tgrid st)" "rows_ok (e_rgrid st)" using assms(1) by (simp_all add: all_rows_ok_def)
  have "\<exists>r. map_of (e_cgrid st) (ac_class a) = Some r \<and> s < length r"
    using ok(1) assms(2,3) by (auto simp: rows_ok_def)
  then have c: "cell_at (e_cgrid (place_cell i a s st)) k s'
      = (if own_class a k \<and> s' \<in> {s} then GAct i else cell_at (e_cgrid st) k s')" for k s'
    by (auto simp: cell_at_set place_cell_def)
  have fr: "frame st (place_cell i a s st)" unfolding frame_def place_cell_def by (intro exI [of _ "e_place st"] exI) simp
  have ts: "rows_ok (e_tgrid (place_cell i a s st))"
    "cell_at (e_tgrid (place_cell i a s st)) k s' = (if own_teacher a k \<and> s' \<in> {s} then GAct i else cell_at (e_tgrid st) k s')" for k s'
    using place_teachers [OF ok(2) assms(2), of i "act_teachers a"] by (simp_all add: place_cell_def)
  have rs: "rows_ok (e_rgrid (place_cell i a s st))"
    "cell_at (e_rgrid (place_cell i a s st)) k s' = (if has_room a k \<and> s' \<in> {s} then GAct i else cell_at (e_rgrid st) k s')" for k s'
    using ok(3) cell_at_put [OF ok(3) assms(2), of "room_key a" "GAct i" k s'] by (auto simp: place_cell_def has_room_def)
  have "e_place (place_cell i a s st) = e_place st" "rows_ok (e_cgrid (place_cell i a s st))"
    "map fst (e_cgrid (place_cell i a s st)) = map fst (e_cgrid st)"
    using ok(1) by (simp_all add: place_cell_def)
  then show ?thesis using fr ts rs c unfolding repainted_def all_rows_ok_def by blast
qed

lemma place_block_effect:
  assumes "all_rows_ok st" "\<forall>s \<in> set ss. s < total_slots" "map_of (e_cgrid st) (ac_class a) \<noteq> None"
  shows "repainted a (set ss) (\<lambda>_ _ _. GAct i) (\<lambda>_ _ _. GAct i) (\<lambda>_ _ _. GAct i) st (fold (place_cell i a) ss st)"
  using assms
proof (induction ss arbitrary: st)
  case Nil
  then show ?case using repainted_none by simp
next
  case (Cons s ss)
  have e: "repainted a {s} (\<lambda>_ _ _. GAct i) (\<lambda>_ _ _. GAct i) (\<lambda>_ _ _. GAct i) st (place_cell i a s st)"
    using place_cell_effect Cons.prems by simp
  have "map_of (e_cgrid (place_cell i a s st)) (ac_class a) \<noteq> None" using repaintedD(4) [OF e, of "ac_class a"] Cons.prems(3) by simp
  from Cons.IH [OF repaintedD(3) [OF e] _ this] Cons.prems(2) show ?case using repainted_step [OF e] by simp
qed

subsection \<open>Unplacing\<close>

lemma unplace_teachers:
  assumes "rows_ok m"
  shows "rows_ok (fold (free_teacher_cell st i s) ts m) \<and>
    cell_at (fold (free_teacher_cell st i s) ts m) t' s' =
      (if t' \<in> set ts \<and> s' = s \<and> cell_at m t' s' = GAct i then (if (t', s) \<in> e_toff st then GOff else GFree)
       else cell_at m t' s')"
  using assms
proof (induction ts arbitrary: m)
  case (Cons t ts)
  have "rows_ok (free_teacher_cell st i s t m)" using Cons.prems by (simp add: free_teacher_cell_def)
  from Cons.IH [OF this] show ?case
    using cell_at_free [of m t s i] by (auto simp: free_teacher_cell_def)
qed simp

definition freed_c :: "eng \<Rightarrow> nat \<Rightarrow> gcell \<Rightarrow> ustr \<Rightarrow> nat \<Rightarrow> gcell" where
  "freed_c st i x c s = (if x \<noteq> GAct i then x else if (c, s) \<in> e_off st then GOff
     else if map_of (e_fixed st) (c, s) \<noteq> None then GFixed else GFree)"

definition freed_t :: "eng \<Rightarrow> nat \<Rightarrow> gcell \<Rightarrow> ustr \<Rightarrow> nat \<Rightarrow> gcell" where
  "freed_t st i x t s = (if x \<noteq> GAct i then x else if (t, s) \<in> e_toff st then GOff else GFree)"

definition freed_r :: "nat \<Rightarrow> gcell \<Rightarrow> ustr \<Rightarrow> nat \<Rightarrow> gcell" where
  "freed_r i x r s = (if x \<noteq> GAct i then x else GFree)"

lemma freed_cong: "frame st st' \<Longrightarrow> freed_c st' = freed_c st \<and> freed_t st' = freed_t st"
  by (intro conjI ext) (simp_all add: freed_c_def freed_t_def frame_fields)

lemma unplace_cell_effect:
  assumes "all_rows_ok st"
  shows "repainted a {s} (freed_c st i) (freed_t st i) (freed_r i) st (unplace_cell i a s st)"
proof -
  have ok: "rows_ok (e_cgrid st)" "rows_ok (e_tgrid st)" "rows_ok (e_rgrid st)" using assms by (simp_all add: all_rows_ok_def)
  have fr: "frame st (unplace_cell i a s st)"
    unfolding frame_def unplace_cell_def Let_def by (intro exI [of _ "e_place st"] exI) simp
  have c: "cell_at (e_cgrid (unplace_cell i a s st)) k s' =
      (if own_class a k \<and> s' \<in> {s} then freed_c st i (cell_at (e_cgrid st) k s') k s' else cell_at (e_cgrid st) k s')" for k s'
    using cell_at_free [of "e_cgrid st" "ac_class a" s i] by (auto simp: unplace_cell_def Let_def freed_c_def)
  have ts: "rows_ok (e_tgrid (unplace_cell i a s st))"
    "cell_at (e_tgrid (unplace_cell i a s st)) k s' =
      (if own_teacher a k \<and> s' \<in> {s} then freed_t st i (cell_at (e_tgrid st) k s') k s' else cell_at (e_tgrid st) k s')" for k s'
    using unplace_teachers [OF ok(2), of st i s "act_teachers a"] by (auto simp: unplace_cell_def Let_def freed_t_def)
  have rs: "cell_at (e_rgrid (unplace_cell i a s st)) k s' =
      (if has_room a k \<and> s' \<in> {s} then freed_r i (cell_at (e_rgrid st) k s') k s' else cell_at (e_rgrid st) k s')" for k s'
    using cell_at_free [of "e_rgrid st" "room_key a" s i GFree] by (auto simp: unplace_cell_def Let_def freed_r_def has_room_def)
  have "e_place (unplace_cell i a s st) = e_place st" "rows_ok (e_cgrid (unplace_cell i a s st))" "rows_ok (e_rgrid (unplace_cell i a s st))"
    "map fst (e_cgrid (unplace_cell i a s st)) = map fst (e_cgrid st)"
    using ok by (simp_all add: unplace_cell_def Let_def)
  then show ?thesis using fr ts rs c unfolding repainted_def all_rows_ok_def by blast
qed

lemma unplace_block_effect:
  assumes "all_rows_ok st"
  shows "repainted a (set ss) (freed_c st i) (freed_t st i) (freed_r i) st (fold (unplace_cell i a) ss st)"
  using assms
proof (induction ss arbitrary: st)
  case Nil
  then show ?case using repainted_none by simp
next
  case (Cons s ss)
  note e = unplace_cell_effect [OF Cons.prems, of a s i]
  note ih = Cons.IH [OF repaintedD(3) [OF e]]
  have eq: "freed_c (unplace_cell i a s st) i = freed_c st i" "freed_t (unplace_cell i a s st) i = freed_t st i"
    using freed_cong [OF repaintedD(1) [OF e]] by simp_all
  show ?case
    using repainted_step [OF e ih [unfolded eq]] by (simp add: freed_c_def freed_t_def freed_r_def)
qed

subsection \<open>Moves keep the grids in step with the placement\<close>

lemma agree_rows: "agree B st \<Longrightarrow> all_rows_ok st"
  using agreeD(6-8) displaysD(4) unfolding all_rows_ok_def by blast

lemma mem_slots_from: "s \<in> set (slots_from p d) \<longleftrightarrow> p \<le> s \<and> s < p + d"
  by (auto simp: slots_from_def)

lemma displays_place:
  assumes d: "displays acts pl own base m" and i: "i < length pl" "length pl = length acts" "pl ! i = None"
    and ok: "rows_ok m'" and c: "\<And>k s. cell_at m' k s =
      (if own (acts ! i) k \<and> p \<le> s \<and> s < p + ac_dur (acts ! i) then GAct i else cell_at m k s)"
    and free: "\<And>k s j. own (acts ! i) k \<Longrightarrow> p \<le> s \<Longrightarrow> s < p + ac_dur (acts ! i) \<Longrightarrow> j \<noteq> i \<Longrightarrow> cell_at m k s \<noteq> GAct j"
  shows "displays acts (pl[i := Some p]) own base m'"
  unfolding displays_def
proof (intro conjI allI impI)
  note D = displaysD [OF d]
  have nc: "\<not> covers acts pl i s" for s using i by (simp add: covers_def)
  fix k s j
  show "cell_at m' k s = GAct j \<longleftrightarrow> j < length acts \<and> own (acts ! j) k \<and> covers acts (pl[i := Some p]) j s"
    using D(1) [of k s] free [of k s j] nc i by (auto simp: c covers_add)
next
  fix k s
  assume na: "\<forall>j. cell_at m' k s \<noteq> GAct j"
  have "\<not> (own (acts ! i) k \<and> p \<le> s \<and> s < p + ac_dur (acts ! i))" using na c [of k s] by metis
  then have "cell_at m' k s = cell_at m k s" using c [of k s] by presburger
  with na displaysD(2) [OF d, of k s] show "cell_at m' k s = base k s" by metis
qed (use displaysD(3) [OF d] ok in auto)

lemma displays_unplace:
  assumes d: "displays acts pl own base m" and i: "i < length pl" "length pl = length acts" "pl ! i = Some p"
    and ok: "rows_ok m'" and c: "\<And>k s. cell_at m' k s =
      (if own (acts ! i) k \<and> p \<le> s \<and> s < p + ac_dur (acts ! i) then f (cell_at m k s) k s else cell_at m k s)"
    and free: "\<And>k s. own (acts ! i) k \<Longrightarrow> covers acts pl i s \<Longrightarrow> f (GAct i) k s = base k s"
  shows "displays acts (pl[i := None]) own base m'"
proof -
  note D = displaysD [OF d]
  have cov: "covers acts pl i s \<longleftrightarrow> p \<le> s \<and> s < p + ac_dur (acts ! i)" for s
    using i by (simp add: covers_def)
  have here: "cell_at m' k s = (if own (acts ! i) k \<and> covers acts pl i s then base k s else cell_at m k s)" for k s
    using D(1) [of k s i] i free [of k s] by (auto simp: c cov)
  show ?thesis
    unfolding displays_def
  proof (intro conjI allI impI)
    fix k s j
    show "cell_at m' k s = GAct j \<longleftrightarrow> j < length acts \<and> own (acts ! j) k \<and> covers acts (pl[i := None]) j s"
      using D(1) [of k s j] D(1) [of k s i] D(3) [of k s j] i by (auto simp: here covers_remove)
  next
    fix k s
    assume na: "\<forall>j. cell_at m' k s \<noteq> GAct j"
    show "cell_at m' k s = base k s"
    proof (cases "own (acts ! i) k \<and> covers acts pl i s")
      case False
      then show ?thesis using D(2) [of k s] na here [of k s] by metis
    qed (simp add: here)
  qed (use displaysD(3) [OF d] ok in auto)
qed

lemma unplace_agree:
  assumes ag: "agree B st" and g: "good B st (e_place st)" and i: "i < length (e_acts st)"
  shows "agree B (unplaceActivity i st) \<and> frame st (unplaceActivity i st)
    \<and> e_place (unplaceActivity i st) = (e_place st)[i := None]"
proof (cases "e_place st ! i")
  case None
  then have "(e_place st)[i := None] = e_place st" using list_update_id [of "e_place st" i] by simp
  then show ?thesis using None ag i by (simp add: unplaceActivity_def)
next
  case (Some p)
  let ?a = "e_acts st ! i"
  define st1 where "st1 = fold (unplace_cell i ?a) (slots_from p (ac_dur ?a)) st"
  have un: "unplaceActivity i st = st1\<lparr>e_place := (e_place st)[i := None]\<rparr>"
    using i Some repaintedD(2) [OF unplace_block_effect [OF agree_rows [OF ag], of ?a "slots_from p (ac_dur ?a)" i]]
    by (simp add: unplaceActivity_def st1_def Let_def)
  have e: "repainted ?a {s. p \<le> s \<and> s < p + ac_dur ?a} (freed_c st i) (freed_t st i) (freed_r i) st st1"
    using unplace_block_effect [OF agree_rows [OF ag], of ?a "slots_from p (ac_dur ?a)" i]
    by (simp add: st1_def mem_slots_from [abs_def] set_eq_iff) (simp add: slots_from_def Collect_conj_eq atLeastLessThan_def lessThan_def atLeast_def)
  note E = repaintedD [OF e]
  have len: "i < length (e_place st)" "length (e_place st) = length (e_acts st)" using agreeD(1) [OF ag] i by simp_all
  have oc: "open_cell B st ?a s" if "covers (e_acts st) (e_place st) i s" for s using goodD(4) [OF g that] .
  have c: "displays (e_acts st) ((e_place st)[i := None]) own_class (fb_c B) (e_cgrid st1)"
    by (rule displays_unplace [OF agreeD(6) [OF ag] len Some, where f = "freed_c st i"])
      (use E(3,5) oc in \<open>auto simp: all_rows_ok_def freed_c_def open_cell_def\<close>)
  have t: "displays (e_acts st) ((e_place st)[i := None]) own_teacher (fb_t B) (e_tgrid st1)"
    by (rule displays_unplace [OF agreeD(7) [OF ag] len Some, where f = "freed_t st i"])
      (use E(3,6) oc in \<open>auto simp: all_rows_ok_def freed_t_def open_cell_def\<close>)
  have r: "displays (e_acts st) ((e_place st)[i := None]) has_room (fb_r B) (e_rgrid st1)"
    by (rule displays_unplace [OF agreeD(8) [OF ag] len Some, where f = "freed_r i"])
      (use E(3,7) oc in \<open>auto simp: all_rows_ok_def freed_r_def open_cell_def has_room_def\<close>)
  have fr: "frame st (unplaceActivity i st)"
    using frame_trans [OF E(1) frame_place] by (simp add: un)
  have "agree B (unplaceActivity i st)"
    unfolding agree_def
    using agreeD(1-5,9) [OF ag] c t r E(4,8) frame_fields [OF E(1)] by (simp add: un)
  then show ?thesis using fr by (simp add: un)
qed

lemma place_agree:
  assumes ag: "agree B st" and i: "i < length (e_acts st)" "e_place st ! i = None"
    and g: "good B st ((e_place st)[i := Some p])"
  shows "agree B (placeActivityDirect i p st) \<and> frame st (placeActivityDirect i p st)
    \<and> e_place (placeActivityDirect i p st) = (e_place st)[i := Some p]"
proof -
  let ?a = "e_acts st ! i" and ?pl = "(e_place st)[i := Some p]"
  define st0 where "st0 = st\<lparr>e_place := ?pl\<rparr>"
  define st1 where "st1 = fold (place_cell i ?a) (slots_from p (ac_dur ?a)) st0"
  have un: "placeActivityDirect i p st = st1" using i by (simp add: placeActivityDirect_def st1_def st0_def Let_def)
  have len: "i < length (e_place st)" "length (e_place st) = length (e_acts st)" using agreeD(1) [OF ag] i by simp_all
  have cov: "covers (e_acts st) ?pl i s \<longleftrightarrow> p \<le> s \<and> s < p + ac_dur ?a" for s using len by (simp add: covers_add)
  have bnd: "\<forall>s \<in> set (slots_from p (ac_dur ?a)). s < total_slots"
  proof
    fix s
    assume "s \<in> set (slots_from p (ac_dur ?a))"
    then have "covers (e_acts st) ?pl i s" using cov mem_slots_from by blast
    then show "s < total_slots" by (rule covers_bound [OF g])
  qed
  have row: "map_of (e_cgrid st0) (ac_class ?a) \<noteq> None" using agreeD(4) [OF ag i(1)] by (simp add: st0_def)
  have ro: "all_rows_ok st0" using agree_rows [OF ag] by (simp add: all_rows_ok_def st0_def)
  have S: "set (slots_from p (ac_dur ?a)) = {s. p \<le> s \<and> s < p + ac_dur ?a}" using mem_slots_from by blast
  note e = place_block_effect [OF ro bnd row, of i, folded st1_def, unfolded S]
  note E = repaintedD [OF e]
  have same: "e_cgrid st0 = e_cgrid st" "e_tgrid st0 = e_tgrid st" "e_rgrid st0 = e_rgrid st" by (simp_all add: st0_def)
  have no: "cell_at m k s \<noteq> GAct j"
    if "displays (e_acts st) (e_place st) own base m" "own ?a k" "p \<le> s" "s < p + ac_dur ?a" "j \<noteq> i"
      "\<And>a b. own a k \<Longrightarrow> own b k \<Longrightarrow> \<not> disjoint_acts a b" for own base m k s j
  proof
    assume "cell_at m k s = GAct j"
    then have "j < length (e_acts st)" "own (e_acts st ! j) k" "covers (e_acts st) (e_place st) j s"
      using displaysD(1) [OF that(1)] by simp_all
    moreover from this have "covers (e_acts st) ?pl j s" using that(5) len by (simp add: covers_add)
    ultimately show False using goodD(5) [OF g that(5), of s] that(2-4,6) cov by blast
  qed
  have c: "displays (e_acts st) ?pl own_class (fb_c B) (e_cgrid st1)"
    by (rule displays_place [OF agreeD(6) [OF ag] len i(2) _ E(5) [unfolded same, simplified]])
      (use E(3) no [OF agreeD(6) [OF ag]] in \<open>auto simp: all_rows_ok_def disjoint_acts_def\<close>)
  have t: "displays (e_acts st) ?pl own_teacher (fb_t B) (e_tgrid st1)"
    by (rule displays_place [OF agreeD(7) [OF ag] len i(2) _ E(6) [unfolded same, simplified]])
      (use E(3) no [OF agreeD(7) [OF ag]] in \<open>auto simp: all_rows_ok_def disjoint_acts_def\<close>)
  have r: "displays (e_acts st) ?pl has_room (fb_r B) (e_rgrid st1)"
    by (rule displays_place [OF agreeD(8) [OF ag] len i(2) _ E(7) [unfolded same, simplified]])
      (use E(3) no [OF agreeD(8) [OF ag]] in \<open>auto simp: all_rows_ok_def disjoint_acts_def has_room_def\<close>)
  have fr0: "frame st st0" by (simp add: st0_def)
  have fr: "frame st st1" by (rule frame_trans [OF fr0 E(1)])
  have pl: "e_place st1 = ?pl" using E(2) by (simp add: st0_def)
  have "agree B st1"
    unfolding agree_def
    using agreeD(1-5,9) [OF ag] c t r E(4,8) frame_fields [OF fr] by (simp add: pl same)
  then show ?thesis using fr pl by (simp add: un)
qed

end
