(* ===== verification/FeMoves.thy ===== *)
theory FeMoves
  imports FeSafe
begin

section \<open>FET engine: conflict sets and the move journal\<close>

text \<open>
  What \<open>getConflictsForSlot\<close> promises its callers: once the activities it returns are unplaced, the
  activity can stand at the slot without a clash. And what the journal promises: rolling back to a mark
  restores the placement of the moment the mark was taken, and with it the grids.
\<close>

subsection \<open>Clearing a set of activities\<close>

definition clear_acts :: "nat list \<Rightarrow> placement \<Rightarrow> placement" where
  "clear_acts cs pl = fold (\<lambda>b pl. pl[b := None]) cs pl"

lemma clear_simps [simp]: "clear_acts [] pl = pl" "clear_acts (b # cs) pl = clear_acts cs (pl[b := None])"
  "length (clear_acts cs pl) = length pl"
  by (simp_all add: clear_acts_def) (induction cs arbitrary: pl, simp_all)

lemma nth_clear: "j < length pl \<Longrightarrow> clear_acts cs pl ! j = (if j \<in> set cs then None else pl ! j)"
  by (induction cs arbitrary: pl) (auto simp: nth_list_update)

lemma covers_clear: "covers acts (clear_acts cs pl) j s \<longleftrightarrow> j \<notin> set cs \<and> covers acts pl j s"
  by (auto simp: covers_def nth_clear split: if_splits)

lemma good_clear: "good B st pl \<Longrightarrow> good B st (clear_acts cs pl)"
  by (induction cs arbitrary: pl) (auto intro: good_remove)

text \<open>When one more activity may be added to a good placement.\<close>

lemma good_add:
  assumes g: "good B st pl" and i: "i < length pl" and p: "p < total_slots" "p mod periods_per_session + ac_dur (e_acts st ! i) \<le> periods_per_session"
    and o: "\<And>s. p \<le> s \<Longrightarrow> s < p + ac_dur (e_acts st ! i) \<Longrightarrow> open_cell B st (e_acts st ! i) s"
    and dj: "\<And>s j. p \<le> s \<Longrightarrow> s < p + ac_dur (e_acts st ! i) \<Longrightarrow> j \<noteq> i \<Longrightarrow> covers (e_acts st) pl j s \<Longrightarrow> disjoint_acts (e_acts st ! i) (e_acts st ! j)"
  shows "good B st (pl[i := Some p])"
proof -
  have sym: "disjoint_acts a b \<Longrightarrow> disjoint_acts b a" for a b by (auto simp: disjoint_acts_def)
  note cov = covers_add [OF i, of "e_acts st" p]
  show ?thesis
    unfolding good_def
  proof (intro conjI allI impI)
    fix j q
    assume "j < length (pl[i := Some p])" "(pl[i := Some p]) ! j = Some q"
    then show "q < total_slots" "q mod periods_per_session + ac_dur (e_acts st ! j) \<le> periods_per_session"
      using goodD(2,3) [OF g, of j q] p by (auto simp: nth_update split: if_splits)
  next
    fix j s
    assume "covers (e_acts st) (pl[i := Some p]) j s"
    then show "open_cell B st (e_acts st ! j) s"
      using goodD(4) [OF g, of j s] o [of s] cov [of j s] by (cases "j = i") simp_all
  next
    fix j k s
    assume "j \<noteq> k" "covers (e_acts st) (pl[i := Some p]) j s" "covers (e_acts st) (pl[i := Some p]) k s"
    then show "disjoint_acts (e_acts st ! j) (e_acts st ! k)"
    proof (cases "j = i \<or> k = i")
      case False
      then show ?thesis using goodD(5) [OF g \<open>j \<noteq> k\<close>] cov \<open>covers _ _ j s\<close> \<open>covers _ _ k s\<close> by simp
    next
      case True
      then show ?thesis using dj [of s j] sym [OF dj [of s j]] dj [of s k] cov [of j s] cov [of k s]
          \<open>j \<noteq> k\<close> \<open>covers _ _ j s\<close> \<open>covers _ _ k s\<close> by (elim disjE) simp_all
    qed
  qed (use goodD(1) [OF g] in simp)
qed

subsection \<open>The conflicts of one cell\<close>

lemma conflict_of_simps:
  "set (conflict_of i c cs) = set cs \<union> {b. c = GAct b \<and> b \<noteq> i}"
  "distinct cs \<Longrightarrow> distinct (conflict_of i c cs)"
  by (cases c; auto simp: add_conflict_def)+

lemma conflict_teachers_Some:
  assumes "conflict_teachers st i s ts cs = Some cs'"
  shows "set cs' = set cs \<union> {b. \<exists>t \<in> set ts. cell_at (e_tgrid st) t s = GAct b \<and> b \<noteq> i}"
    and "distinct cs \<Longrightarrow> distinct cs'"
    and "t \<in> set ts \<Longrightarrow> (t, s) \<notin> e_toff st \<and> cell_at (e_tgrid st) t s \<noteq> GFixed \<and> cell_at (e_tgrid st) t s \<noteq> GOff"
  using assms
proof (induction ts arbitrary: cs)
  case (Cons t' ts)
  {
    case 1
    then show ?case using Cons.IH(1) by (auto simp: Let_def conflict_of_simps split: if_splits)
  next
    case 2
    have "conflict_teachers st i s ts (conflict_of i (cell_at (e_tgrid st) t' s) cs) = Some cs'"
      using 2(2) by (simp add: Let_def split: if_splits)
    from Cons.IH(2) [OF conflict_of_simps(2) [OF 2(1)] this] show ?case .
  next
    case 3
    then show ?case using Cons.IH(3) by (auto simp: Let_def split: if_splits)
  }
qed simp_all

text \<open>The activities whose cells an activity would take over at a slot.\<close>

definition in_the_way :: "eng \<Rightarrow> act \<Rightarrow> nat \<Rightarrow> nat \<Rightarrow> bool" where
  "in_the_way st a s b \<longleftrightarrow> b \<noteq> ac_id a \<and> (cell_at (e_cgrid st) (ac_class a) s = GAct b
     \<or> (\<exists>t \<in> set (act_teachers a). cell_at (e_tgrid st) t s = GAct b)
     \<or> ac_room a \<noteq> [] \<and> cell_at (e_rgrid st) (room_key a) s = GAct b)"

definition no_obstacle :: "eng \<Rightarrow> act \<Rightarrow> nat \<Rightarrow> bool" where
  "no_obstacle st a s \<longleftrightarrow> (ac_class a, s) \<notin> e_off st \<and> map_of (e_fixed st) (ac_class a, s) = None
     \<and> (\<forall>t \<in> set (act_teachers a). (t, s) \<notin> e_toff st \<and> cell_at (e_tgrid st) t s \<noteq> GFixed \<and> cell_at (e_tgrid st) t s \<noteq> GOff)
     \<and> (ac_room a \<noteq> [] \<longrightarrow> (room_key a, s) \<notin> e_roff st
          \<and> cell_at (e_rgrid st) (room_key a) s \<noteq> GFixed \<and> cell_at (e_rgrid st) (room_key a) s \<noteq> GOff)"

lemma conflict_cell_Some:
  assumes "conflict_cell st a s cs = Some cs'"
  shows "set cs' = set cs \<union> {b. in_the_way st a s b} \<and> (distinct cs \<longrightarrow> distinct cs') \<and> no_obstacle st a s"
proof -
  have nf: "(ac_class a, s) \<notin> e_off st" "map_of (e_fixed st) (ac_class a, s) = None"
    using assms by (auto simp: conflict_cell_def split: if_splits)
  obtain cs2 where t: "conflict_teachers st (ac_id a) s (act_teachers a)
      (conflict_of (ac_id a) (cell_at (e_cgrid st) (ac_class a) s) cs) = Some cs2"
    using assms by (auto simp: conflict_cell_def split: if_splits option.splits)
  have r: "if ac_room a = [] then cs' = cs2
      else (room_key a, s) \<notin> e_roff st \<and> cell_at (e_rgrid st) (room_key a) s \<noteq> GFixed \<and> cell_at (e_rgrid st) (room_key a) s \<noteq> GOff
           \<and> cs' = conflict_of (ac_id a) (cell_at (e_rgrid st) (room_key a) s) cs2"
    using assms t by (simp add: conflict_cell_def Let_def split: if_splits)
  note T = conflict_teachers_Some [OF t]
  have "set cs' = set cs \<union> {b. in_the_way st a s b}"
    using r T(1) by (auto simp: conflict_of_simps in_the_way_def split: if_splits)
  moreover have "distinct cs \<longrightarrow> distinct cs'"
    using r T(2) conflict_of_simps(2) by (metis (no_types))
  moreover have "no_obstacle st a s"
    using nf T(3) r by (auto simp: no_obstacle_def split: if_splits)
  ultimately show ?thesis by blast
qed

lemma conflict_cells_Some:
  assumes "conflict_cells st a ss cs = Some cs'" "distinct cs"
  shows "set cs' = set cs \<union> {b. \<exists>s \<in> set ss. in_the_way st a s b} \<and> distinct cs' \<and> (\<forall>s \<in> set ss. no_obstacle st a s)"
  using assms
proof (induction ss arbitrary: cs)
  case (Cons s ss)
  obtain cs1 where c: "conflict_cell st a s cs = Some cs1" "conflict_cells st a ss cs1 = Some cs'"
    using Cons.prems(1) by (auto split: option.splits)
  note one = conflict_cell_Some [OF c(1)]
  have "distinct cs1" using one Cons.prems(2) by blast
  from Cons.IH [OF c(2) this] one show ?case by auto
qed simp

lemma getConflictsForSlot_Some:
  assumes "getConflictsForSlot st a p = Some cs"
  shows "p mod periods_per_session + ac_dur a \<le> periods_per_session \<and> conflict_cells st a (slots_from p (ac_dur a)) [] = Some cs"
proof -
  have "sd_period (slotToDetails p) = p mod periods_per_session"
    by (simp add: slotToDetails_def Let_def mod_mod_cancel)
  then show ?thesis using assms
    by (auto simp: getConflictsForSlot_def Let_def split: if_splits option.splits)
qed

text \<open>The contract of the conflict set.\<close>

lemma conflicts_sound:
  assumes ag: "agree B st" and g: "good B st (e_place st)" and i: "i < length (e_acts st)" and p: "p < total_slots"
    and c: "getConflictsForSlot st (e_acts st ! i) p = Some cs"
  shows "distinct cs" and "b \<in> set cs \<Longrightarrow> b < length (e_acts st) \<and> b \<noteq> i \<and> e_place st ! b \<noteq> None"
    and "good B st ((clear_acts cs (e_place st))[i := Some p])"
proof -
  let ?a = "e_acts st ! i"
  note fit = getConflictsForSlot_Some [OF c]
  note C = conflict_cells_Some [OF fit [THEN conjunct2], simplified]
  have way: "set cs = {b. \<exists>s. p \<le> s \<and> s < p + ac_dur ?a \<and> in_the_way st ?a s b}" using C mem_slots_from by auto
  have clear: "no_obstacle st ?a s" if "p \<le> s" "s < p + ac_dur ?a" for s using C that mem_slots_from by blast
  have id: "ac_id ?a = i" using agreeD(2) [OF ag i] .
  note D = displaysD(1) [OF agreeD(6) [OF ag]] displaysD(1) [OF agreeD(7) [OF ag]] displaysD(1) [OF agreeD(8) [OF ag]]
  show "distinct cs" using C by blast
  have wayD: "b < length (e_acts st) \<and> covers (e_acts st) (e_place st) b s" if "in_the_way st ?a s b" for s b
    using that D unfolding in_the_way_def by blast
  show "b < length (e_acts st) \<and> b \<noteq> i \<and> e_place st ! b \<noteq> None" if "b \<in> set cs"
  proof -
    from that way obtain s where s: "in_the_way st ?a s b" by blast
    then have "b \<noteq> i" using id by (simp add: in_the_way_def)
    then show ?thesis using wayD [OF s] by (auto simp: covers_def)
  qed
  have len: "i < length (clear_acts cs (e_place st))" using i agreeD(1) [OF ag] by simp
  have free: "base k s = GFree"
    if d: "displays (e_acts st) (e_place st) own base m" and n: "cell_at m k s \<noteq> GFixed" "cell_at m k s \<noteq> GOff"
      and op: "\<And>j. own (e_acts st ! j) k \<Longrightarrow> open_cell B st (e_acts st ! j) s \<Longrightarrow> base k s = GFree" for own base m k s
  proof (cases "\<exists>j. cell_at m k s = GAct j")
    case True
    then obtain j where "own (e_acts st ! j) k" "covers (e_acts st) (e_place st) j s" using displaysD(1) [OF d] by blast
    then show ?thesis using op goodD(4) [OF g] by blast
  next
    case False
    then have "cell_at m k s = base k s" using displaysD(2) [OF d] by blast
    moreover have "cell_at m k s = GFree" using n False by (cases "cell_at m k s") auto
    ultimately show ?thesis by simp
  qed
  have opn: "open_cell B st ?a s" if s: "p \<le> s" "s < p + ac_dur ?a" for s
  proof -
    note N = clear [OF s, unfolded no_obstacle_def]
    have "fb_c B (ac_class ?a) s = GFree" using N agreeD(5) [OF ag, of "ac_class ?a" s] by blast
    moreover have "fb_t B t s = GFree" if t: "t \<in> set (act_teachers ?a)" for t
      by (rule free [OF agreeD(7) [OF ag]]) (use N t in \<open>auto simp: open_cell_def\<close>)
    moreover have "fb_r B (room_key ?a) s = GFree" if r: "ac_room ?a \<noteq> []"
      by (rule free [OF agreeD(8) [OF ag]]) (use N r in \<open>auto simp: open_cell_def has_room_def\<close>)
    ultimately show ?thesis using N unfolding open_cell_def by blast
  qed
  show "good B st ((clear_acts cs (e_place st))[i := Some p])"
  proof (rule good_add [OF good_clear [OF g] len p _ opn])
    show "p mod periods_per_session + ac_dur ?a \<le> periods_per_session" using fit by blast
    fix s j
    assume s: "p \<le> s" "s < p + ac_dur ?a" and j: "j \<noteq> i" "covers (e_acts st) (clear_acts cs (e_place st)) j s"
    then have cv: "j \<notin> set cs" "covers (e_acts st) (e_place st) j s" by (simp_all add: covers_clear)
    then have nw: "\<not> in_the_way st ?a s j" using way s by blast
    have "j < length (e_acts st)" using cv(2) agreeD(1) [OF ag] by (simp add: covers_def)
    then show "disjoint_acts ?a (e_acts st ! j)"
      using nw cv(2) D j(1) id by (auto simp: in_the_way_def disjoint_acts_def has_room_def)
  qed
qed

subsection \<open>Logs whose entries can be undone\<close>

text \<open>A log, newest entry first, of legal steps that lead from one state to another.\<close>

fun trail :: "('o \<Rightarrow> 's \<Rightarrow> 's \<Rightarrow> bool) \<Rightarrow> 's \<Rightarrow> 'o list \<Rightarrow> 's \<Rightarrow> bool" where
  "trail legal s0 [] s = (s = s0)"
| "trail legal s0 (x # xs) s = (\<exists>s'. legal x s' s \<and> trail legal s0 xs s')"

lemma trail_append: "trail legal s0 (xs @ ys) s \<longleftrightarrow> (\<exists>s'. trail legal s' xs s \<and> trail legal s0 ys s')"
  by (induction xs arbitrary: s) auto

locale undo_log =
  fixes legal :: "'o \<Rightarrow> 's \<Rightarrow> 's \<Rightarrow> bool" and undo :: "'o \<Rightarrow> 's \<Rightarrow> 's"
  assumes undo_legal: "legal x s s' \<Longrightarrow> undo x s' = s"
begin

lemma undo_trail: "trail legal s0 xs s \<Longrightarrow> fold undo xs s = s0"
  by (induction xs arbitrary: s) (auto simp: undo_legal)

text \<open>A machine whose moves undo the steps of an abstraction undoes whole trails of it.\<close>

lemma undo_simulated:
  assumes sim: "\<And>x c s'. ok c \<Longrightarrow> legal x s' (proj c) \<Longrightarrow> ok (cundo x c) \<and> proj (cundo x c) = s'"
    and t: "trail legal s0 xs (proj c)" and c: "ok c"
  shows "ok (fold cundo xs c) \<and> proj (fold cundo xs c) = s0"
  using t c
proof (induction xs arbitrary: c)
  case (Cons x xs)
  then obtain s' where s': "legal x s' (proj c)" "trail legal s0 xs s'" by auto
  with sim [OF Cons.prems(2) s'(1)] show ?case using Cons.IH [of "cundo x c"] by simp
qed simp

end

subsection \<open>The journal\<close>

fun pl_undo :: "jop \<Rightarrow> placement \<Rightarrow> placement" where
  "pl_undo (JPlace i p) pl = pl[i := None]"
| "pl_undo (JUnplace i p) pl = pl[i := Some p]"

fun pl_change :: "jop \<Rightarrow> placement \<Rightarrow> placement \<Rightarrow> bool" where
  "pl_change (JPlace i p) pl pl' = (i < length pl \<and> pl ! i = None \<and> pl' = pl[i := Some p])"
| "pl_change (JUnplace i p) pl pl' = (i < length pl \<and> pl ! i = Some p \<and> pl' = pl[i := None])"

definition pl_legal :: "fe_base \<Rightarrow> eng \<Rightarrow> jop \<Rightarrow> placement \<Rightarrow> placement \<Rightarrow> bool" where
  "pl_legal B st x pl pl' \<longleftrightarrow> good B st pl \<and> good B st pl' \<and> pl_change x pl pl'"

lemma pl_change_undo: "pl_change x pl pl' \<Longrightarrow> pl_undo x pl' = pl"
  by (cases x) (auto simp: list_update_id_if)

interpretation jrn: undo_log "pl_legal B st" pl_undo for B st
  by unfold_locales (auto simp: pl_legal_def pl_change_undo)

lemma pl_legal_cong: "sig st = sig st' \<Longrightarrow> pl_legal B st = pl_legal B st'"
  using good_cong [of st st' B] by (intro ext) (simp add: pl_legal_def)

lemma undo_op_agree:
  assumes ag: "agree B st" and l: "pl_legal B st x pl (e_place st)"
  shows "agree B (undo_op x st) \<and> frame st (undo_op x st) \<and> e_place (undo_op x st) = pl"
proof (cases x)
  case (JPlace i p)
  with l have c: "i < length pl" "pl ! i = None" "e_place st = pl[i := Some p]"
    by (simp_all add: pl_legal_def)
  have g: "good B st (e_place st)" using l by (simp add: pl_legal_def)
  have i: "i < length (e_acts st)" using c agreeD(1) [OF ag] by simp
  have "(e_place st)[i := None] = pl" using c by (simp add: list_update_id_if)
  then show ?thesis using unplace_agree [OF ag g i] c JPlace by simp
next
  case (JUnplace i p)
  with l have c: "i < length pl" "pl ! i = Some p" "e_place st = pl[i := None]" and g: "good B st pl"
    by (simp_all add: pl_legal_def)
  have i: "i < length (e_acts st)" using c agreeD(1) [OF ag] by simp
  have pl: "(e_place st)[i := Some p] = pl" using c by (simp add: list_update_id_if)
  have "e_place st ! i = None" using c by simp
  from place_agree [OF ag i this, of p] pl g JUnplace show ?thesis by simp
qed

text \<open>One state extends another: same data, a clash-free placement, and a journal that leads there.\<close>

definition jext :: "fe_base \<Rightarrow> eng \<Rightarrow> eng \<Rightarrow> bool" where
  "jext B st st' \<longleftrightarrow> agree B st' \<and> good B st' (e_place st') \<and> sig st' = sig st
     \<and> (\<exists>ops. e_journal st' = ops @ e_journal st \<and> trail (pl_legal B st) (e_place st) ops (e_place st'))"

lemma jextD:
  assumes "jext B st st'"
  shows "agree B st'" "good B st' (e_place st')" "sig st' = sig st" "e_acts st' = e_acts st"
    "length (e_place st') = length (e_acts st)"
proof -
  show a: "agree B st'" "good B st' (e_place st')" "sig st' = sig st" using assms unfolding jext_def by blast+
  then show "e_acts st' = e_acts st" by (simp add: sig_def)
  then show "length (e_place st') = length (e_acts st)" using agreeD(1) [OF a(1)] by simp
qed

lemma jext_refl: "agree B st \<Longrightarrow> good B st (e_place st) \<Longrightarrow> jext B st st"
  by (simp add: jext_def)

lemma jext_trans:
  assumes "jext B a b" "jext B b c"
  shows "jext B a c"
proof -
  obtain xs where xs: "e_journal b = xs @ e_journal a" "trail (pl_legal B a) (e_place a) xs (e_place b)"
    using assms(1) unfolding jext_def by blast
  obtain ys where ys: "e_journal c = ys @ e_journal b" "trail (pl_legal B b) (e_place b) ys (e_place c)"
    using assms(2) unfolding jext_def by blast
  have s: "sig b = sig a" "sig c = sig a" using jextD(3) assms by simp_all
  then have "trail (pl_legal B a) (e_place a) (ys @ xs) (e_place c)"
    using xs ys pl_legal_cong [OF s(1)] by (auto simp: trail_append)
  then show ?thesis using s xs ys jextD(1,2) [OF assms(2)] unfolding jext_def by (metis append.assoc)
qed

text \<open>The fields that only the control flow reads may change freely.\<close>

lemma jext_cong:
  assumes "sig st2 = sig st1" "grids st2 = grids st1" "e_journal st2 = e_journal st1" "jext B st st1"
  shows "jext B st st2"
proof -
  have "e_place st2 = e_place st1" using assms(2) by (simp add: grids_def)
  then show ?thesis
    using assms agree_cong [OF assms(1,2), of B] good_cong [OF assms(1), of B] unfolding jext_def by metis
qed

lemma jrnUnplace_ext:
  assumes ag: "agree B st" and g: "good B st (e_place st)" and i: "i < length (e_acts st)"
  shows "jext B st (jrnUnplace i st)" and "e_place (jrnUnplace i st) = (e_place st)[i := None]"
proof -
  have "e_place (jrnUnplace i st) = (e_place st)[i := None] \<and> jext B st (jrnUnplace i st)"
  proof (cases "e_place st ! i")
    case None
    then have "(e_place st)[i := None] = e_place st" "jrnUnplace i st = st"
      by (simp_all add: list_update_id_if jrnUnplace_def)
    then show ?thesis using jext_refl [OF ag g] by simp
  next
    case (Some p)
    define st1 where "st1 = st\<lparr>e_journal := JUnplace i p # e_journal st\<rparr>"
    have s: "sig st1 = sig st" "grids st1 = grids st" "e_acts st1 = e_acts st" "e_place st1 = e_place st"
      by (simp_all add: st1_def sig_def grids_def)
    have un: "jrnUnplace i st = unplaceActivity i st1" using Some by (simp add: jrnUnplace_def st1_def)
    note e = unplace_agree [of B st1 i, unfolded agree_cong [OF s(1,2)] good_cong [OF s(1)] s(3,4), OF ag g i]
    have fr: "frame st1 (unplaceActivity i st1)" using e by blast
    have pl: "e_place (jrnUnplace i st) = (e_place st)[i := None]" using e un by simp
    have sg: "sig (jrnUnplace i st) = sig st" using frame_fields(1) [OF fr] s(1) un by simp
    have gg: "good B st ((e_place st)[i := None])" by (rule good_remove [OF g])
    have "trail (pl_legal B st) (e_place st) [JUnplace i p] (e_place (jrnUnplace i st))"
      using g gg Some i agreeD(1) [OF ag] by (simp add: pl pl_legal_def)
    moreover have "e_journal (jrnUnplace i st) = [JUnplace i p] @ e_journal st"
      using frame_fields(3) [OF fr] un by (simp add: st1_def)
    moreover have "good B (jrnUnplace i st) (e_place (jrnUnplace i st))" using gg good_cong [OF sg] pl by simp
    moreover have "agree B (jrnUnplace i st)" using e un by simp
    ultimately show ?thesis using sg pl unfolding jext_def by blast
  qed
  then show "jext B st (jrnUnplace i st)" "e_place (jrnUnplace i st) = (e_place st)[i := None]" by blast+
qed

lemma jrnPlace_new:
  assumes ag: "agree B st" and g0: "good B st (e_place st)" and i: "i < length (e_acts st)" "e_place st ! i = None"
    and g: "good B st ((e_place st)[i := Some p])"
  shows "jext B st (jrnPlace i p st) \<and> e_place (jrnPlace i p st) = (e_place st)[i := Some p]"
proof -
  define st1 where "st1 = st\<lparr>e_journal := JPlace i p # e_journal st\<rparr>"
  have s: "sig st1 = sig st" "grids st1 = grids st" "e_acts st1 = e_acts st" "e_place st1 = e_place st"
    by (simp_all add: st1_def sig_def grids_def)
  have pl: "jrnPlace i p st = placeActivityDirect i p st1" using i by (simp add: jrnPlace_def st1_def Let_def)
  note e = place_agree [of B st1 i p, unfolded agree_cong [OF s(1,2)] good_cong [OF s(1)] s(3,4), OF ag i g]
  have fr: "frame st1 (placeActivityDirect i p st1)" and ep: "e_place (jrnPlace i p st) = (e_place st)[i := Some p]"
    using e pl by simp_all
  have sg: "sig (jrnPlace i p st) = sig st" using frame_fields(1) [OF fr] s(1) pl by simp
  have "trail (pl_legal B st) (e_place st) [JPlace i p] (e_place (jrnPlace i p st))"
    using g0 g i agreeD(1) [OF ag] by (simp add: ep pl_legal_def)
  moreover have "e_journal (jrnPlace i p st) = [JPlace i p] @ e_journal st"
    using frame_fields(3) [OF fr] pl by (simp add: st1_def)
  moreover have "good B (jrnPlace i p st) (e_place (jrnPlace i p st))" using g good_cong [OF sg] ep by simp
  moreover have "agree B (jrnPlace i p st)" using e pl by simp
  ultimately show ?thesis using sg ep unfolding jext_def by blast
qed

lemma jrnPlace_ext:
  assumes ag: "agree B st" and g0: "good B st (e_place st)" and i: "i < length (e_acts st)"
    and g: "good B st ((e_place st)[i := Some p])"
  shows "jext B st (jrnPlace i p st)" and "e_place (jrnPlace i p st) = (e_place st)[i := Some p]"
proof -
  define st1 where "st1 = jrnUnplace i st"
  note u = jrnUnplace_ext [OF ag g0 i, folded st1_def]
  have i1: "i < length (e_acts st1)" "e_place st1 ! i = None" using u i jextD(4) agreeD(1) [OF ag] by auto
  have pl: "(e_place st1)[i := Some p] = (e_place st)[i := Some p]" using u by simp
  have "good B st1 ((e_place st1)[i := Some p])" using g pl good_cong [OF jextD(3) [OF u(1)]] by simp
  from jrnPlace_new [OF jextD(1,2) [OF u(1)] i1 this]
  have n: "jext B st1 (jrnPlace i p st1)" "e_place (jrnPlace i p st1) = (e_place st)[i := Some p]" using pl by simp_all
  have "jrnPlace i p st = jrnPlace i p st1"
    using i1(2) by (simp add: jrnPlace_def Let_def st1_def jrnUnplace_def split: option.splits)
  then show "jext B st (jrnPlace i p st)" "e_place (jrnPlace i p st) = (e_place st)[i := Some p]"
    using jext_trans [OF u(1)] n by simp_all
qed

text \<open>Rolling back restores the placement, the journal and hence the grids.\<close>

lemma rollback_restores:
  assumes j: "jext B st st'"
  defines "r \<equiv> jrnRollback (length (e_journal st)) st'"
  shows "agree B r" "e_place r = e_place st" "e_journal r = e_journal st" "sig r = sig st"
proof -
  obtain ops where ops: "e_journal st' = ops @ e_journal st" "trail (pl_legal B st) (e_place st) ops (e_place st')"
    using j unfolding jext_def by blast
  define st1 where "st1 = st'\<lparr>e_journal := e_journal st\<rparr>"
  have s1: "sig st1 = sig st'" "grids st1 = grids st'" "e_place st1 = e_place st'" by (simp_all add: st1_def sig_def grids_def)
  have r: "r = fold undo_op ops st1" unfolding r_def jrnRollback_def st1_def using ops(1) by simp
  let ?inv = "\<lambda>c. agree B c \<and> frame st1 c"
  have legal: "pl_legal B c = pl_legal B st" if "frame st1 c" for c
    by (rule pl_legal_cong) (use frame_fields(1) [OF that] s1(1) jextD(3) [OF j] in simp)
  have "?inv (fold undo_op ops st1) \<and> e_place (fold undo_op ops st1) = e_place st"
  proof (rule jrn.undo_simulated [of ?inv B st e_place undo_op])
    fix x c s'
    assume "?inv c" "pl_legal B st x s' (e_place c)"
    then have "agree B c" "pl_legal B c x s' (e_place c)" using legal by simp_all
    from undo_op_agree [OF this] show "?inv (undo_op x c) \<and> e_place (undo_op x c) = s'"
      using frame_trans \<open>?inv c\<close> by blast
  next
    show "trail (pl_legal B st) (e_place st) ops (e_place st1)" using ops(2) s1(3) by simp
    show "?inv st1" using agree_cong [OF s1(1,2)] jextD(1) [OF j] by simp
  qed
  then show "agree B r" "e_place r = e_place st" "e_journal r = e_journal st" "sig r = sig st"
    using frame_fields(1,3) [of st1 r] s1(1) jextD(3) [OF j] by (simp_all add: r) (simp add: st1_def)
qed

text \<open>The grids are determined by the placement: equal placements read the same everywhere.\<close>

lemma displays_unique:
  assumes "displays acts pl own base m" "displays acts pl own base m'"
  shows "cell_at m k s = cell_at m' k s"
proof (cases "\<exists>i. cell_at m k s = GAct i")
  case True
  then obtain i where i: "cell_at m k s = GAct i" by blast
  then have "cell_at m' k s = GAct i" using displaysD(1) [OF assms(1)] displaysD(1) [OF assms(2)] by simp
  then show ?thesis using i by simp
next
  case False
  then have "\<forall>i. cell_at m' k s \<noteq> GAct i" using displaysD(1) [OF assms(1)] displaysD(1) [OF assms(2)] by simp
  then show ?thesis using False displaysD(2) [OF assms(1)] displaysD(2) [OF assms(2)] by metis
qed

definition same_cells :: "eng \<Rightarrow> eng \<Rightarrow> bool" where
  "same_cells st st' \<longleftrightarrow> cell_at (e_cgrid st') = cell_at (e_cgrid st) \<and> cell_at (e_tgrid st') = cell_at (e_tgrid st)
     \<and> cell_at (e_rgrid st') = cell_at (e_rgrid st)"

lemma agree_same_cells:
  assumes "agree B st" "agree B st'" "sig st' = sig st" "e_place st' = e_place st"
  shows "same_cells st st'"
proof -
  have "e_acts st' = e_acts st" using assms(3) by (simp add: sig_def)
  note e = this assms(4)
  show ?thesis
    unfolding same_cells_def
    using displays_unique [OF agreeD(6) [OF assms(2), unfolded e] agreeD(6) [OF assms(1)]]
      displays_unique [OF agreeD(7) [OF assms(2), unfolded e] agreeD(7) [OF assms(1)]]
      displays_unique [OF agreeD(8) [OF assms(2), unfolded e] agreeD(8) [OF assms(1)]] by blast
qed

end
