(* ===== verification/FeSwap.thy ===== *)
theory FeSwap
  imports FeMoves
begin

section \<open>FET engine: recursive swapping and ejection chains\<close>

text \<open>
  \<open>randomSwap\<close> places one activity, displacing the activities in its way and placing those in turn,
  down to \<open>MAX_RECURSION_LEVEL\<close>; \<open>tryEjectionChain\<close> looks for a chain of one or two displacements.
  Both promise the same: on success exactly one more activity stands, on failure nothing has moved.

  \<^item> The two candidate lists of one loop are two filters of the same evaluation.
  \<^item> \<open>sort\<close> is stable: by count after by penalty is the code's lexicographic comparison.
\<close>

subsection \<open>The two-periods guard\<close>

definition bump :: "ustr \<Rightarrow> nat \<Rightarrow> (ustr \<times> nat) list \<Rightarrow> (ustr \<times> nat) list" where
  "bump k n m = AList.update k ((case map_of m k of Some x \<Rightarrow> x | None \<Rightarrow> 0) + n) m"

definition computeTeacherWeeklyLoad :: "eng \<Rightarrow> (ustr \<times> nat) list" where
  "computeTeacherWeeklyLoad st =
     (let l1 = fold (\<lambda>a m. fold (\<lambda>t. bump t (if ac_dur a = 0 then 1 else ac_dur a)) (act_teachers a) m) (e_acts st) []
      in fold (\<lambda>t m. let fx = length (filter (\<lambda>s. cell_at (e_tgrid st) t s = GFixed) [0..<total_slots])
                     in if fx > 0 then bump t fx m else m) (map fst (e_tgrid st)) l1)"

definition teacherSessionRequirement :: "eng \<Rightarrow> ustr \<Rightarrow> nat" where
  "teacherSessionRequirement st t =
     sum_list (map (\<lambda>b. let cnt = length (taken_in (e_tgrid st) t (b * periods_per_session) periods_per_session)
                        in if cnt > 0 then max cnt 2 else 0) [0..<total_slots div periods_per_session])"

definition minTwoGuard :: "eng \<Rightarrow> act \<Rightarrow> nat list option \<Rightarrow> (ustr \<times> nat \<times> nat) option" where
  "minTwoGuard st a restrict =
     (if e_mintwo st \<and> ac_gv a \<noteq> [] \<and> restrict = None then
        (case act_teachers a of [t] \<Rightarrow>
           (case e_weekly st of Some w \<Rightarrow>
              (let l = (case map_of w t of Some x \<Rightarrow> x | None \<Rightarrow> 0)
               in if map_of (e_tgrid st) t \<noteq> None \<and> \<not> l < 2 then Some (t, teacherSessionRequirement st t, l) else None)
            | None \<Rightarrow> None)
         | _ \<Rightarrow> None)
      else None)"

fun opensUnaffordableSession :: "eng \<Rightarrow> (ustr \<times> nat \<times> nat) option \<Rightarrow> nat \<Rightarrow> bool" where
  "opensUnaffordableSession st None slot = False"
| "opensUnaffordableSession st (Some (t, r, l)) slot =
     (taken_in (e_tgrid st) t (slot div periods_per_session * periods_per_session) periods_per_session = [] \<and> r + 2 > l)"

subsection \<open>Candidates\<close>

record cand =
  cd_slot :: nat
  cd_conf :: "nat list"
  cd_pen :: int

definition eval_slot :: "eng \<Rightarrow> act \<Rightarrow> (ustr \<times> nat \<times> nat) option \<Rightarrow> nat \<Rightarrow> cand option" where
  "eval_slot st a g s = (if opensUnaffordableSession st g s then None
     else case getConflictsForSlot st a s of None \<Rightarrow> None
       | Some cs \<Rightarrow> Some \<lparr>cd_slot = s, cd_conf = cs, cd_pen = getPlacementPenalty st a s\<rparr>)"

definition zero_slots :: "eng \<Rightarrow> act \<Rightarrow> (ustr \<times> nat \<times> nat) option \<Rightarrow> nat list \<Rightarrow> cand list" where
  "zero_slots st a g slots = filter (\<lambda>c. cd_conf c = []) (List.map_filter (eval_slot st a g) slots)"

definition evaluated_slots :: "eng \<Rightarrow> nat \<Rightarrow> act \<Rightarrow> (ustr \<times> nat \<times> nat) option \<Rightarrow> nat list \<Rightarrow> cand list" where
  "evaluated_slots st i a g slots =
     filter (\<lambda>c. cd_conf c \<noteq> [] \<and> \<not> e_tabu st (i, cd_slot c) > e_step st) (List.map_filter (eval_slot st a g) slots)"

definition displace :: "nat \<Rightarrow> eng \<Rightarrow> eng" where
  "displace b st = (let st1 = jrnUnplace b st in st1\<lparr>e_branch := insert b (e_branch st1)\<rparr>)"

definition release :: "nat list \<Rightarrow> eng \<Rightarrow> eng" where
  "release cs st = st\<lparr>e_branch := e_branch st - set cs\<rparr>"

definition mark_tabu :: "nat \<Rightarrow> nat option \<Rightarrow> eng \<Rightarrow> eng" where
  "mark_tabu i old st = (case old of None \<Rightarrow> st
     | Some p \<Rightarrow> st\<lparr>e_tabu := (e_tabu st)((i, p) := e_step st + length (e_acts st))\<rparr>)"

text \<open>The loop over the displaced activities stops at the first that finds no place.\<close>

fun place_displaced :: "(nat \<Rightarrow> eng \<Rightarrow> bool \<times> eng) \<Rightarrow> nat list \<Rightarrow> eng \<Rightarrow> bool \<times> eng" where
  "place_displaced swap [] st = (True, st)"
| "place_displaced swap (c # cs) st =
     (case swap c st of (ok, st1) \<Rightarrow> if ok then place_displaced swap cs st1 else (False, st1))"

fun try_candidates :: "(nat \<Rightarrow> eng \<Rightarrow> bool \<times> eng) \<Rightarrow> nat \<Rightarrow> nat \<Rightarrow> cand list \<Rightarrow> eng \<Rightarrow> bool \<times> eng" where
  "try_candidates swap i level [] st = (False, st)"
| "try_candidates swap i level (c # cs) st =
     (if list_ex (\<lambda>b. b \<in> e_branch st) (cd_conf c) then try_candidates swap i level cs st
      else let restorePoint = length (e_journal st);
               st1 = fold displace (cd_conf c) st;
               st2 = mark_tabu i (e_place st1 ! i) (jrnPlace i (cd_slot c) st1)
           in case place_displaced swap (cd_conf c) st2 of (ok, st3) \<Rightarrow>
                if ok then (True, release (cd_conf c) st3)
                else let st4 = release (cd_conf c) (jrnRollback restorePoint st3)
                     in if level \<ge> 6 then (False, st4) else try_candidates swap i level cs st4)"

definition deadline_passed :: "eng \<Rightarrow> bool \<times> eng" where
  "deadline_passed st = (case e_deadline st of None \<Rightarrow> (False, st)
     | Some d \<Rightarrow> if e_calls st mod 256 = 0
         then (let late = e_clock st (e_ticks st) > d in (late, st\<lparr>e_ticks := Suc (e_ticks st), e_hit := e_hit st \<or> late\<rparr>))
         else (False, st))"

definition best_of :: "cand list \<Rightarrow> nat" where
  "best_of zs = cd_slot (hd (sort_key cd_pen zs))"

function randomSwap :: "nat \<Rightarrow> nat list option \<Rightarrow> nat \<Rightarrow> eng \<Rightarrow> bool \<times> eng" where
  "randomSwap level restrict i st =
     (if level \<ge> max_recursion_level \<or> e_calls st \<ge> e_limit st then (False, st)
      else case deadline_passed st of (late, st0) \<Rightarrow>
        if late then (False, st0)
        else let st1 = (if level = 0 then st0\<lparr>e_journal := []\<rparr> else st0);
                 st2 = st1\<lparr>e_calls := Suc (e_calls st1), e_step := Suc (e_step st1)\<rparr>
             in if i \<ge> length (e_acts st2) \<or> ac_fixed (e_acts st2 ! i) then (False, st2)
                else let a = e_acts st2 ! i;
                         slots = (case restrict of Some (s # ss) \<Rightarrow> s # ss | _ \<Rightarrow> [0..<total_slots])
                     in case fet_shuffle slots (e_rng st2) of (order, rng) \<Rightarrow>
                          let st3 = st2\<lparr>e_rng := rng\<rparr>; g = minTwoGuard st3 a restrict;
                              zeros = zero_slots st3 a g order
                          in if zeros \<noteq> [] then (True, jrnPlace i (best_of zeros) st3)
                             else try_candidates (randomSwap (Suc level) None) i level
                                    (sort_key (\<lambda>c. length (cd_conf c)) (sort_key cd_pen (evaluated_slots st3 i a g order))) st3)"
  by pat_completeness auto
termination
  by (relation "measure (\<lambda>(level, _). max_recursion_level - level)") auto

declare randomSwap.simps [simp del]

subsection \<open>Ejection chains\<close>

text \<open>Try slots until one succeeds.\<close>

fun try_slots :: "(nat \<Rightarrow> eng \<Rightarrow> bool \<times> eng) \<Rightarrow> nat list \<Rightarrow> eng \<Rightarrow> bool \<times> eng" where
  "try_slots f [] st = (False, st)"
| "try_slots f (s # ss) st = (case f s st of (ok, st1) \<Rightarrow> if ok then (True, st1) else try_slots f ss st1)"

text \<open>The activity goes back where it was.\<close>

definition put_back :: "nat \<Rightarrow> nat option \<Rightarrow> eng \<Rightarrow> eng" where
  "put_back b old st = (case old of None \<Rightarrow> st | Some p \<Rightarrow> placeActivityDirect b p st)"

definition place_free :: "nat \<Rightarrow> nat option \<Rightarrow> nat \<Rightarrow> eng \<Rightarrow> bool \<times> eng" where
  "place_free b old s st =
     (if Some s = old then (False, st)
      else if getConflictsForSlot st (e_acts st ! b) s = Some [] then (True, placeActivityDirect b s st) else (False, st))"

text \<open>Displace the only activity in the way of \<open>i\<close>, go on with it, undo when that fails.\<close>

definition eject_one :: "(nat \<Rightarrow> bool) \<Rightarrow> (nat \<Rightarrow> nat option \<Rightarrow> eng \<Rightarrow> bool \<times> eng) \<Rightarrow> nat \<Rightarrow> nat \<Rightarrow> eng \<Rightarrow> bool \<times> eng" where
  "eject_one may go i slot st =
     (case getConflictsForSlot st (e_acts st ! i) slot of
        Some [b] \<Rightarrow>
          if b \<ge> length (e_acts st) \<or> ac_fixed (e_acts st ! b) \<or> \<not> may b then (False, st)
          else let old = e_place st ! b; st1 = placeActivityDirect i slot (unplaceActivity b st)
               in case go b old st1 of (ok, st2) \<Rightarrow>
                    if ok then (True, st2) else (False, put_back b old (unplaceActivity i st2))
      | _ \<Rightarrow> (False, st))"

definition relocate :: "nat \<Rightarrow> nat option \<Rightarrow> eng \<Rightarrow> bool \<times> eng" where
  "relocate b old = try_slots (place_free b old) [0..<total_slots]"

definition relocate_via :: "(nat \<Rightarrow> eng \<Rightarrow> bool) \<Rightarrow> (nat \<Rightarrow> bool) \<Rightarrow> nat \<Rightarrow> nat option \<Rightarrow> eng \<Rightarrow> bool \<times> eng" where
  "relocate_via slot_ok may b old = try_slots (\<lambda>s st.
     if Some s = old \<or> \<not> slot_ok s st then (False, st) else eject_one may relocate b s st) [0..<total_slots]"

definition tryEjectionChain :: "nat \<Rightarrow> eng \<Rightarrow> bool \<times> eng" where
  "tryEjectionChain i st =
     (if i \<ge> length (e_acts st) \<or> e_place st ! i \<noteq> None then (True, st)
      else case fet_shuffle [0..<total_slots] (e_rng st) of (order, rng) \<Rightarrow>
        (case try_slots (place_free i None) order (st\<lparr>e_rng := rng\<rparr>) of (ok1, st1) \<Rightarrow>
          if ok1 then (True, st1) else
         case try_slots (eject_one (\<lambda>b. True) relocate i) order st1 of (ok2, st2) \<Rightarrow>
          if ok2 then (True, st2) else
         case try_slots (eject_one (\<lambda>b. True)
                (\<lambda>b. relocate_via (\<lambda>s st. True) (\<lambda>c. c \<noteq> i \<and> c \<noteq> b) b) i) order st2 of (ok3, st3) \<Rightarrow>
          if ok3 then (True, st3) else
         try_slots (eject_one (\<lambda>b. True)
                (\<lambda>b. relocate_via (\<lambda>s st. cell_at (e_cgrid st) (ac_class (e_acts st ! b)) s = GFree)
                       (\<lambda>d. ac_class (e_acts st ! d) \<noteq> ac_class (e_acts st ! b)) b) i) order st3))"

end
