(* ===== verification/FeSwapOk.thy ===== *)
theory FeSwapOk
  imports FeSwap
begin

section \<open>FET engine: a displacement search is all or nothing\<close>

text \<open>
  The contract of the searches. For \<open>randomSwap\<close>: the placement stays clash free at every step, success
  adds exactly the requested activity to the placed ones, and failure leaves the journal and therefore the
  placement as they were. For \<open>tryEjectionChain\<close>: the same without a journal.
\<close>

definition placed :: "eng \<Rightarrow> nat set" where
  "placed st = {j. j < length (e_place st) \<and> e_place st ! j \<noteq> None}"

lemma placed_clear: "placed (st\<lparr>e_place := clear_acts cs (e_place st)\<rparr>) = placed st - set cs"
  by (auto simp: placed_def nth_clear split: if_splits)

definition swap_spec :: "fe_base \<Rightarrow> nat \<Rightarrow> eng \<Rightarrow> bool \<times> eng \<Rightarrow> bool" where
  "swap_spec B i st r \<longleftrightarrow> jext B st (snd r)
     \<and> (if fst r then placed (snd r) = insert i (placed st) else e_journal (snd r) = e_journal st)"

definition sound_swap :: "fe_base \<Rightarrow> (nat \<Rightarrow> eng \<Rightarrow> bool \<times> eng) \<Rightarrow> bool" where
  "sound_swap B f \<longleftrightarrow> (\<forall>i st. agree B st \<longrightarrow> good B st (e_place st) \<longrightarrow> i < length (e_acts st) \<longrightarrow> swap_spec B i st (f i st))"

lemma jext_same_journal: "jext B st st' \<Longrightarrow> e_journal st' = e_journal st \<Longrightarrow> e_place st' = e_place st"
  unfolding jext_def by auto

lemma ctrl_cong:
  assumes "jext B st st1" "sig st2 = sig st1" "grids st2 = grids st1" "e_journal st2 = e_journal st1"
  shows "jext B st st2" "placed st2 = placed st1" "e_place st2 = e_place st1"
  using jext_cong [OF assms(2-4,1)] assms(3) by (simp_all add: placed_def grids_def)

subsection \<open>The pieces of a candidate\<close>

lemma displace_all:
  assumes "agree B st" "good B st (e_place st)" "\<forall>b \<in> set cs. b < length (e_acts st)"
  shows "jext B st (fold displace cs st) \<and> e_place (fold displace cs st) = clear_acts cs (e_place st)"
  using assms
proof (induction cs arbitrary: st)
  case Nil
  then show ?case using jext_refl by simp
next
  case (Cons b cs)
  have b: "b < length (e_acts st)" using Cons.prems(3) by simp
  note u = jrnUnplace_ext [OF Cons.prems(1,2) b]
  have "sig (displace b st) = sig (jrnUnplace b st)" "grids (displace b st) = grids (jrnUnplace b st)"
    "e_journal (displace b st) = e_journal (jrnUnplace b st)"
    by (simp_all add: displace_def Let_def sig_def grids_def)
  note d = ctrl_cong [OF u(1) this]
  have "\<forall>c \<in> set cs. c < length (e_acts (displace b st))" using Cons.prems(3) jextD(4) [OF d(1)] by simp
  from Cons.IH [OF jextD(1,2) [OF d(1)] this] show ?case using jext_trans [OF d(1)] d(3) u(2) by simp
qed

lemma place_displaced_ok:
  assumes f: "sound_swap B f" and "agree B st" "good B st (e_place st)" "\<forall>b \<in> set cs. b < length (e_acts st)"
  shows "jext B st (snd (place_displaced f cs st))
    \<and> (fst (place_displaced f cs st) \<longrightarrow> placed (snd (place_displaced f cs st)) = set cs \<union> placed st)"
  using assms(2-)
proof (induction cs arbitrary: st)
  case Nil
  then show ?case using jext_refl by simp
next
  case (Cons c cs)
  obtain ok st1 where r: "f c st = (ok, st1)" by (cases "f c st")
  have s: "swap_spec B c st (ok, st1)" using f Cons.prems r unfolding sound_swap_def by (metis list.set_intros(1))
  then have j: "jext B st st1" by (simp add: swap_spec_def)
  show ?case
  proof (cases ok)
    case True
    then have p: "placed st1 = insert c (placed st)" using s by (simp add: swap_spec_def)
    have "\<forall>b \<in> set cs. b < length (e_acts st1)" using Cons.prems(3) jextD(4) [OF j] by simp
    from Cons.IH [OF jextD(1,2) [OF j] this] show ?thesis using jext_trans [OF j] r True p by simp
  qed (use r j in simp)
qed

text \<open>What the evaluation of the slots guarantees of a candidate; it depends on the placement only.\<close>

definition cand_ok :: "fe_base \<Rightarrow> eng \<Rightarrow> nat \<Rightarrow> cand \<Rightarrow> bool" where
  "cand_ok B st i c \<longleftrightarrow> (\<forall>b \<in> set (cd_conf c). b < length (e_acts st) \<and> b \<noteq> i \<and> e_place st ! b \<noteq> None)
     \<and> good B st ((clear_acts (cd_conf c) (e_place st))[i := Some (cd_slot c)])"

lemma cand_ok_cong: "sig st = sig st' \<Longrightarrow> e_place st = e_place st' \<Longrightarrow> cand_ok B st = cand_ok B st'"
  using good_cong [of st st' B] by (intro ext) (simp add: cand_ok_def sig_def)

lemma eval_slot_ok:
  assumes "agree B st" "good B st (e_place st)" "i < length (e_acts st)" "s < total_slots"
    and "eval_slot st (e_acts st ! i) g s = Some c"
  shows "cand_ok B st i c"
proof -
  have c: "getConflictsForSlot st (e_acts st ! i) s = Some (cd_conf c)" "cd_slot c = s"
    using assms(5) by (auto simp: eval_slot_def split: if_splits option.splits)
  note S = conflicts_sound [OF assms(1-4) c(1)]
  show ?thesis unfolding cand_ok_def using S(2,3) c(2) by simp
qed

lemma in_map_filter: "x \<in> set (List.map_filter f xs) \<longleftrightarrow> (\<exists>y \<in> set xs. f y = Some x)"
  by (induction xs) (auto simp: List.map_filter_simps split: option.splits)

lemma slots_ok:
  assumes "agree B st" "good B st (e_place st)" "i < length (e_acts st)" "\<forall>s \<in> set slots. s < total_slots"
  shows "c \<in> set (zero_slots st (e_acts st ! i) g slots) \<Longrightarrow> cand_ok B st i c \<and> cd_conf c = []"
    and "c \<in> set (evaluated_slots st i (e_acts st ! i) g slots) \<Longrightarrow> cand_ok B st i c"
  using eval_slot_ok [OF assms(1-3)] assms(4)
  unfolding zero_slots_def evaluated_slots_def by (auto simp: in_map_filter)

lemma mark_tabu_fields [simp]:
  "sig (mark_tabu i old st) = sig st" "grids (mark_tabu i old st) = grids st" "e_journal (mark_tabu i old st) = e_journal st"
  by (auto simp: mark_tabu_def sig_def grids_def split: option.splits)

lemma release_fields [simp]:
  "sig (release cs st) = sig st" "grids (release cs st) = grids st" "e_journal (release cs st) = e_journal st"
  by (simp_all add: release_def sig_def grids_def)

text \<open>One candidate: its conflicts are displaced, the activity stands at its slot, the placement is clash free.\<close>

lemma candidate_step:
  assumes ag: "agree B st" and g: "good B st (e_place st)" and i: "i < length (e_acts st)" and c: "cand_ok B st i c"
  defines "st1 \<equiv> fold displace (cd_conf c) st"
  defines "st2 \<equiv> mark_tabu i (e_place st1 ! i) (jrnPlace i (cd_slot c) st1)"
  shows "jext B st st2" "placed st2 = insert i (placed st - set (cd_conf c))"
proof -
  have bs: "\<forall>b \<in> set (cd_conf c). b < length (e_acts st)" using c unfolding cand_ok_def by blast
  note d = displace_all [OF ag g bs, folded st1_def]
  have j1: "jext B st st1" and p1: "e_place st1 = clear_acts (cd_conf c) (e_place st)" using d by blast+
  have i1: "i < length (e_acts st1)" using i jextD(4) [OF j1] by simp
  have "good B st1 ((e_place st1)[i := Some (cd_slot c)])"
    using c p1 good_cong [OF jextD(3) [OF j1]] by (simp add: cand_ok_def)
  note pl = jrnPlace_ext [OF jextD(1,2) [OF j1] i1 this]
  note t = ctrl_cong [OF pl(1), of st2, unfolded st2_def mark_tabu_fields, OF refl refl refl, folded st2_def]
  show "jext B st st2" by (rule jext_trans [OF j1 t(1)])
  have len: "length (e_place st) = length (e_acts st)" using agreeD(1) [OF ag] .
  have "e_place st2 = (clear_acts (cd_conf c) (e_place st))[i := Some (cd_slot c)]" using t(3) pl(2) p1 by simp
  then show "placed st2 = insert i (placed st - set (cd_conf c))"
    using i len by (auto simp: placed_def nth_update nth_clear split: if_splits)
qed

lemma try_candidates_ok:
  assumes f: "sound_swap B f"
  shows "agree B st \<Longrightarrow> good B st (e_place st) \<Longrightarrow> i < length (e_acts st) \<Longrightarrow> \<forall>c \<in> set cs. cand_ok B st i c \<Longrightarrow>
    swap_spec B i st (try_candidates f i level cs st)"
proof (induction cs arbitrary: st)
  case Nil
  then show ?case using jext_refl by (simp add: swap_spec_def)
next
  case (Cons c cs)
  note ag = Cons.prems(1) and g = Cons.prems(2) and i = Cons.prems(3)
  have c: "cand_ok B st i c" and cs: "\<forall>c \<in> set cs. cand_ok B st i c" using Cons.prems(4) by simp_all
  show ?case
  proof (cases "list_ex (\<lambda>b. b \<in> e_branch st) (cd_conf c)")
    case True
    then show ?thesis using Cons.IH [OF ag g i cs] by simp
  next
    case False
    define st1 where "st1 = fold displace (cd_conf c) st"
    define st2 where "st2 = mark_tabu i (e_place st1 ! i) (jrnPlace i (cd_slot c) st1)"
    note s2 = candidate_step [OF ag g i c, folded st1_def, folded st2_def]
    obtain ok st3 where r: "place_displaced f (cd_conf c) st2 = (ok, st3)" by (cases "place_displaced f (cd_conf c) st2")
    have bs: "\<forall>b \<in> set (cd_conf c). b < length (e_acts st2)" using c jextD(4) [OF s2(1)] unfolding cand_ok_def by simp
    from place_displaced_ok [OF f jextD(1,2) [OF s2(1)] bs]
    have p: "jext B st2 st3" "ok \<longrightarrow> placed st3 = set (cd_conf c) \<union> placed st2" by (simp_all add: r)
    have j3: "jext B st st3" by (rule jext_trans [OF s2(1) p(1)])
    have sub: "set (cd_conf c) \<subseteq> placed st" using c agreeD(1) [OF ag] by (auto simp: cand_ok_def placed_def)
    show ?thesis
    proof (cases ok)
      case True
      note rel = ctrl_cong [OF j3 release_fields [of "cd_conf c" st3]]
      have "placed st3 = insert i (placed st)" using p(2) True s2(2) sub by blast
      then show ?thesis using False True r rel by (simp add: swap_spec_def Let_def st1_def [symmetric] st2_def [symmetric])
    next
      case bad: False
      define st4 where "st4 = release (cd_conf c) (jrnRollback (length (e_journal st)) st3)"
      note b = rollback_restores [OF j3]
      have s4: "sig st4 = sig st" "e_place st4 = e_place st" "e_journal st4 = e_journal st"
        using b release_fields(2) [of "cd_conf c" "jrnRollback (length (e_journal st)) st3"]
        by (simp_all add: st4_def grids_def)
      have ag4: "agree B st4"
        using b(1) agree_cong [of st4 "jrnRollback (length (e_journal st)) st3" B] by (simp add: st4_def)
      have g4: "good B st4 (e_place st4)" using g good_cong [OF s4(1)] s4(2) by simp
      have j4: "jext B st st4" using ag4 g4 s4 by (simp add: jext_def)
      have i4: "i < length (e_acts st4)" using i jextD(4) [OF j4] by simp
      have c4: "\<forall>c \<in> set cs. cand_ok B st4 i c" using cs cand_ok_cong [OF s4(1,2)] by simp
      note rest = Cons.IH [OF ag4 g4 i4 c4]
      have "placed st4 = placed st" using s4(2) by (simp add: placed_def)
      then have "swap_spec B i st (try_candidates f i level cs st4)"
        using rest jext_trans [OF j4] s4(3) by (simp add: swap_spec_def)
      moreover have "swap_spec B i st (False, st4)" using j4 s4(3) by (simp add: swap_spec_def)
      ultimately show ?thesis
        using False bad r by (simp add: Let_def st1_def [symmetric] st2_def [symmetric] st4_def [symmetric])
    qed
  qed
qed

subsection \<open>The whole search\<close>

lemma deadline_passed_fields [simp]:
  "sig (snd (deadline_passed st)) = sig st" "grids (snd (deadline_passed st)) = grids st"
  "e_journal (snd (deadline_passed st)) = e_journal st"
  by (auto simp: deadline_passed_def sig_def grids_def Let_def split: option.splits)

definition fresh_log :: "nat \<Rightarrow> eng \<Rightarrow> eng" where
  "fresh_log level st = (if level = 0 then st\<lparr>e_journal := []\<rparr> else st)"

lemma fresh_log_fields:
  "sig (fresh_log level st) = sig st" "grids (fresh_log level st) = grids st" "e_place (fresh_log level st) = e_place st"
  "e_acts (fresh_log level st) = e_acts st"
  by (simp_all add: fresh_log_def sig_def grids_def)

definition all_slots_of :: "nat list option \<Rightarrow> nat list" where
  "all_slots_of restrict = (case restrict of Some (s # ss) \<Rightarrow> s # ss | _ \<Rightarrow> [0..<total_slots])"

text \<open>The state in which the slots of a call are evaluated: only the control fields differ.\<close>

lemma jext_fresh:
  assumes "agree B st" "good B st (e_place st)" "sig st' = sig st" "grids st' = grids st" "e_journal st' = e_journal st"
  shows "jext B st st'" "placed st' = placed st"
  using ctrl_cong [OF jext_refl [OF assms(1,2)] assms(3-5)] by simp_all

lemma swap_spec_trans:
  assumes "jext B st st'" "e_journal st' = e_journal st" "placed st' = placed st" "swap_spec B i st' r"
  shows "swap_spec B i st r"
  using assms jext_trans [OF assms(1)] unfolding swap_spec_def by metis

lemma randomSwap_body:
  assumes ag: "agree B st" and g: "good B st (e_place st)" and i: "i < length (e_acts st)"
    and sl: "\<forall>s \<in> set order. s < total_slots" and rec: "sound_swap B f"
    and z: "zeros = zero_slots st (e_acts st ! i) g0 order"
  shows "swap_spec B i st (if zeros \<noteq> [] then (True, jrnPlace i (best_of zeros) st)
     else try_candidates f i level (sort_key (\<lambda>c. length (cd_conf c)) (sort_key cd_pen (evaluated_slots st i (e_acts st ! i) g0 order))) st)"
proof (cases "zeros = []")
  case True
  have "\<forall>c \<in> set (sort_key (\<lambda>c. length (cd_conf c)) (sort_key cd_pen (evaluated_slots st i (e_acts st ! i) g0 order))). cand_ok B st i c"
    using slots_ok(2) [OF ag g i sl] by simp
  from try_candidates_ok [OF rec ag g i this] show ?thesis using True by simp
next
  case False
  have "sort_key cd_pen zeros \<noteq> []" using False by (metis set_sort set_empty)
  then have "hd (sort_key cd_pen zeros) \<in> set zeros" using hd_in_set set_sort by metis
  note zz = slots_ok(1) [OF ag g i sl this [unfolded z], folded z]
  then have "cd_conf (hd (sort_key cd_pen zeros)) = []" by blast
  with zz have "good B st ((e_place st)[i := Some (best_of zeros)])"
    by (simp add: cand_ok_def best_of_def)
  note p = jrnPlace_ext [OF ag g i this]
  have "placed (jrnPlace i (best_of zeros) st) = insert i (placed st)"
    using p(2) i agreeD(1) [OF ag] by (auto simp: placed_def nth_update split: if_splits)
  then show ?thesis using False p(1) by (simp add: swap_spec_def)
qed

lemma randomSwap_step:
  assumes rec: "sound_swap B (randomSwap (Suc level) None)"
    and ag: "agree B st" and g: "good B st (e_place st)" and i: "i < length (e_acts st)"
    and sl: "\<forall>s \<in> set (all_slots_of restrict). s < total_slots"
  shows "swap_spec B i st (randomSwap level restrict i st) \<or> swap_spec B i (fresh_log level st) (randomSwap level restrict i st)"
proof -
  obtain late st0 where d: "deadline_passed st = (late, st0)" by (cases "deadline_passed st")
  have s0: "sig st0 = sig st" "grids st0 = grids st" "e_journal st0 = e_journal st" using deadline_passed_fields [of st] d by simp_all
  note j0 = jext_fresh [OF ag g s0]
  define st1 where "st1 = fresh_log level st0"
  define st2 where "st2 = st1\<lparr>e_calls := Suc (e_calls st1), e_step := Suc (e_step st1)\<rparr>"
  obtain order rng where sh: "fet_shuffle (all_slots_of restrict) (e_rng st2) = (order, rng)" by (cases "fet_shuffle (all_slots_of restrict) (e_rng st2)")
  define st3 where "st3 = st2\<lparr>e_rng := rng\<rparr>"
  let ?fr = "fresh_log level st"
  have agf: "agree B ?fr" "good B ?fr (e_place ?fr)"
    using ag g agree_cong [OF fresh_log_fields(1,2), of B level st] good_cong [OF fresh_log_fields(1), of B level st]
    by (simp_all add: fresh_log_fields)
  have s2: "sig st2 = sig ?fr" "grids st2 = grids ?fr" "e_journal st2 = e_journal ?fr"
    using s0 by (simp_all add: st2_def st1_def fresh_log_def sig_def grids_def)
  then have s3: "sig st3 = sig ?fr" "grids st3 = grids ?fr" "e_journal st3 = e_journal ?fr"
    by (simp_all add: st3_def sig_def grids_def)
  note j2 = jext_fresh [OF agf s2] and j3 = jext_fresh [OF agf s3]
  have acts: "e_acts st2 = e_acts st" "e_acts st3 = e_acts st" using s2(1) s3(1) fresh_log_fields(1) [of level st] by (simp_all add: sig_def)
  have ord: "\<forall>s \<in> set order. s < total_slots" using sl fet_shuffle_memD [OF sh] by blast
  have i3: "i < length (e_acts st3)" using i acts by simp
  note body = randomSwap_body [OF jextD(1,2) [OF j3(1)] i3 ord rec, of _ "minTwoGuard st3 (e_acts st3 ! i) restrict", OF refl, of level]
  note fin = swap_spec_trans [OF j3(1) s3(3) j3(2) body]
  have acts1: "e_acts st1 = e_acts st" using acts(1) by (simp add: st2_def)
  have eq: "randomSwap level restrict i st =
     (if level \<ge> max_recursion_level \<or> e_calls st \<ge> e_limit st then (False, st)
      else if late then (False, st0)
      else if i \<ge> length (e_acts st2) \<or> ac_fixed (e_acts st2 ! i) then (False, st2)
      else if zero_slots st3 (e_acts st3 ! i) (minTwoGuard st3 (e_acts st3 ! i) restrict) order \<noteq> []
        then (True, jrnPlace i (best_of (zero_slots st3 (e_acts st3 ! i) (minTwoGuard st3 (e_acts st3 ! i) restrict) order)) st3)
        else try_candidates (randomSwap (Suc level) None) i level (sort_key (\<lambda>c. length (cd_conf c)) (sort_key cd_pen
               (evaluated_slots st3 i (e_acts st3 ! i) (minTwoGuard st3 (e_acts st3 ! i) restrict) order))) st3)"
    by (subst randomSwap.simps)
      (simp add: d sh [unfolded all_slots_of_def] Let_def acts acts1 flip: fresh_log_def st1_def st2_def st3_def)
  have f1: "swap_spec B i st (False, st)" "swap_spec B i st (False, st0)"
    using jext_refl [OF ag g] j0 s0(3) by (simp_all add: swap_spec_def)
  have f2: "swap_spec B i ?fr (False, st2)" using j2 s2(3) by (simp add: swap_spec_def)
  consider "level \<ge> max_recursion_level \<or> e_calls st \<ge> e_limit st"
    | "\<not> (level \<ge> max_recursion_level \<or> e_calls st \<ge> e_limit st)" late
    | "\<not> (level \<ge> max_recursion_level \<or> e_calls st \<ge> e_limit st)" "\<not> late" "i \<ge> length (e_acts st2) \<or> ac_fixed (e_acts st2 ! i)"
    | "\<not> (level \<ge> max_recursion_level \<or> e_calls st \<ge> e_limit st)" "\<not> late" "\<not> (i \<ge> length (e_acts st2) \<or> ac_fixed (e_acts st2 ! i))"
    by blast
  then show ?thesis
  proof cases
    case 1
    then show ?thesis unfolding eq if_P [OF 1] using f1 by blast
  next
    case 2
    then show ?thesis unfolding eq if_not_P [OF 2(1)] if_P [OF 2(2)] using f1 by blast
  next
    case 3
    then show ?thesis unfolding eq if_not_P [OF 3(1)] if_not_P [OF 3(2)] if_P [OF 3(3)] using f2 by blast
  next
    case 4
    then show ?thesis unfolding eq if_not_P [OF 4(1)] if_not_P [OF 4(2)] if_not_P [OF 4(3)] using fin by blast
  qed
qed

lemma randomSwap_inner: "0 < level \<Longrightarrow> sound_swap B (randomSwap level None)"
proof (induction "max_recursion_level - level" arbitrary: level)
  case 0
  have "swap_spec B i st (randomSwap level None i st)" if "agree B st" "good B st (e_place st)" for i st
    using jext_refl [OF that] 0 by (subst randomSwap.simps) (simp add: swap_spec_def)
  then show ?case by (simp add: sound_swap_def)
next
  case (Suc n)
  have rec: "sound_swap B (randomSwap (Suc level) None)" by (rule Suc.hyps(1)) (use Suc.hyps(2) in simp_all)
  show ?case
    unfolding sound_swap_def
  proof (intro allI impI)
    fix i st
    assume "agree B st" "good B st (e_place st)" "i < length (e_acts st)"
    from randomSwap_step [OF rec this, of None] Suc.prems
    show "swap_spec B i st (randomSwap level None i st)" by (simp add: all_slots_of_def fresh_log_def)
  qed
qed

text \<open>The contract without the journal, which a call at level 0 starts afresh.\<close>

definition swap_result :: "fe_base \<Rightarrow> nat \<Rightarrow> eng \<Rightarrow> bool \<times> eng \<Rightarrow> bool" where
  "swap_result B i st r \<longleftrightarrow> agree B (snd r) \<and> good B (snd r) (e_place (snd r)) \<and> sig (snd r) = sig st
     \<and> (if fst r then placed (snd r) = insert i (placed st) else e_place (snd r) = e_place st)"

lemma swap_spec_result: "swap_spec B i st r \<Longrightarrow> swap_result B i st r"
  unfolding swap_spec_def swap_result_def using jextD(1-3) jext_same_journal by metis

lemma randomSwap_ok:
  assumes "agree B st" "good B st (e_place st)" "i < length (e_acts st)" "\<forall>s \<in> set (all_slots_of restrict). s < total_slots"
  shows "swap_result B i st (randomSwap level restrict i st)"
proof -
  have "placed (fresh_log level st) = placed st" by (simp add: placed_def fresh_log_fields)
  then have "swap_result B i (fresh_log level st) r \<Longrightarrow> swap_result B i st r" for r
    by (simp add: swap_result_def fresh_log_fields)
  then show ?thesis using randomSwap_step [OF randomSwap_inner assms] swap_spec_result by blast
qed

subsection \<open>Ejection chains\<close>

text \<open>A state in which the activity waits for a place.\<close>

definition waiting :: "fe_base \<Rightarrow> nat \<Rightarrow> eng \<Rightarrow> bool" where
  "waiting B i st \<longleftrightarrow> agree B st \<and> good B st (e_place st) \<and> i < length (e_acts st) \<and> e_place st ! i = None"

definition sound_try :: "fe_base \<Rightarrow> nat \<Rightarrow> (nat \<Rightarrow> eng \<Rightarrow> bool \<times> eng) \<Rightarrow> bool" where
  "sound_try B i f \<longleftrightarrow> (\<forall>s st. s < total_slots \<longrightarrow> waiting B i st \<longrightarrow> swap_result B i st (f s st))"

lemma result_refl: "waiting B i st \<Longrightarrow> swap_result B i st (False, st)"
  by (simp add: waiting_def swap_result_def)

lemma result_failed:
  assumes "waiting B i st" "swap_result B i st (False, st1)"
  shows "waiting B i st1"
proof -
  have "e_acts st1 = e_acts st" "agree B st1" "good B st1 (e_place st1)" "e_place st1 = e_place st"
    using assms(2) unfolding swap_result_def sig_def fst_conv snd_conv if_False by blast+
  then show ?thesis using assms(1) unfolding waiting_def by metis
qed

lemma result_trans:
  assumes "swap_result B i st (False, st1)" "swap_result B i st1 r"
  shows "swap_result B i st r"
proof -
  have "placed st1 = placed st" "e_place st1 = e_place st" "sig st1 = sig st" using assms(1) by (simp_all add: swap_result_def placed_def)
  then show ?thesis using assms(2) by (simp add: swap_result_def)
qed

lemma try_slots_ok:
  assumes f: "sound_try B i f"
  shows "waiting B i st \<Longrightarrow> \<forall>s \<in> set ss. s < total_slots \<Longrightarrow> swap_result B i st (try_slots f ss st)"
proof (induction ss arbitrary: st)
  case Nil
  then show ?case using result_refl by simp
next
  case (Cons s ss)
  obtain ok st1 where r: "f s st = (ok, st1)" by (cases "f s st")
  have s: "swap_result B i st (ok, st1)" using f Cons.prems r unfolding sound_try_def by (metis list.set_intros(1))
  show ?case
  proof (cases ok)
    case False
    then have s0: "swap_result B i st (False, st1)" using s by simp
    have "\<forall>s \<in> set ss. s < total_slots" using Cons.prems(2) by simp
    from Cons.IH [OF result_failed [OF Cons.prems(1) s0] this] result_trans [OF s0] show ?thesis using r False by simp
  qed (use r s in simp)
qed

lemma waiting_place:
  assumes w: "waiting B i st" and g: "good B st ((e_place st)[i := Some p])"
  shows "swap_result B i st (True, placeActivityDirect i p st)"
    and "e_place (placeActivityDirect i p st) = (e_place st)[i := Some p]"
proof -
  have W: "agree B st" "i < length (e_acts st)" "e_place st ! i = None" using w by (simp_all add: waiting_def)
  let ?r = "placeActivityDirect i p st"
  have P: "agree B ?r" "frame st ?r" "e_place ?r = (e_place st)[i := Some p]" using place_agree [OF W g] by blast+
  show "e_place ?r = (e_place st)[i := Some p]" by (rule P(3))
  have "placed ?r = insert i (placed st)"
    using W agreeD(1) [OF W(1)] by (auto simp: placed_def P(3) nth_update split: if_splits)
  then show "swap_result B i st (True, ?r)"
    using P frame_fields(1) [OF P(2)] g good_cong [OF frame_fields(1) [OF P(2)], of B] by (simp add: swap_result_def)
qed

lemma place_free_ok: "sound_try B b (place_free b old)"
  unfolding sound_try_def
proof (intro allI impI)
  fix s st
  assume s: "s < total_slots" and w: "waiting B b st"
  then have W: "agree B st" "good B st (e_place st)" "b < length (e_acts st)" by (simp_all add: waiting_def)
  show "swap_result B b st (place_free b old s st)"
  proof (cases "Some s \<noteq> old \<and> getConflictsForSlot st (e_acts st ! b) s = Some []")
    case True
    then have "good B st ((e_place st)[b := Some s])" using conflicts_sound(3) [OF W s] by simp
    then show ?thesis using waiting_place(1) [OF w] True by (simp add: place_free_def)
  next
    case False
    then show ?thesis using result_refl [OF w] by (auto simp: place_free_def)
  qed
qed

lemma eject_one_ok:
  assumes go: "\<And>b old st. waiting B b st \<Longrightarrow> swap_result B b st (go b old st)"
  shows "sound_try B i (eject_one may go i)"
  unfolding sound_try_def
proof (intro allI impI)
  fix s st
  assume s: "s < total_slots" and w: "waiting B i st"
  then have W: "agree B st" "good B st (e_place st)" "i < length (e_acts st)" "e_place st ! i = None" by (simp_all add: waiting_def)
  show "swap_result B i st (eject_one may go i s st)"
  proof (cases "\<exists>b. getConflictsForSlot st (e_acts st ! i) s = Some [b] \<and> b < length (e_acts st) \<and> \<not> ac_fixed (e_acts st ! b) \<and> may b")
    case False
    then have "eject_one may go i s st = (False, st)"
      by (auto simp: eject_one_def split: option.splits list.splits)
    then show ?thesis using result_refl [OF w] by simp
  next
    case True
    then obtain b where b: "getConflictsForSlot st (e_acts st ! i) s = Some [b]" "b < length (e_acts st)" "\<not> ac_fixed (e_acts st ! b)" "may b"
      by blast
    note S = conflicts_sound [OF W(1-3) s b(1)]
    have bi: "b \<noteq> i" "e_place st ! b \<noteq> None" using S(2) by simp_all
    define p where "p = e_place st ! b"
    define st0 where "st0 = unplaceActivity b st"
    define st1 where "st1 = placeActivityDirect i s st0"
    have U: "agree B st0" "frame st st0" "e_place st0 = (e_place st)[b := None]" unfolding st0_def using unplace_agree [OF W(1,2) b(2)] by blast+
    have sg0: "sig st0 = sig st" and a0: "e_acts st0 = e_acts st" using frame_fields [OF U(2)] by simp_all
    have "good B st0 (e_place st0)" using good_remove [OF W(2)] U(3) good_cong [OF sg0] by simp
    then have w0: "waiting B i st0" using U(1,3) W(3,4) a0 bi by (simp add: waiting_def)
    have "good B st0 ((e_place st0)[i := Some s])" using S(3) U(3) good_cong [OF sg0] by simp
    note pl = waiting_place [OF w0 this, folded st1_def]
    have R1: "agree B st1" "good B st1 (e_place st1)" "sig st1 = sig st" "placed st1 = insert i (placed st0)"
      using pl(1) sg0 by (simp_all add: swap_result_def)
    have a1: "e_acts st1 = e_acts st" using R1(3) by (simp add: sig_def)
    have len: "length (e_place st) = length (e_acts st)" using agreeD(1) [OF W(1)] .
    have e1: "e_place st1 = (e_place st)[b := None, i := Some s]" using pl(2) U(3) by simp
    have w1: "waiting B b st1" using R1(1,2) a1 e1 b(2) bi(1) len by (simp add: waiting_def)
    obtain ok st2 where r: "go b p st1 = (ok, st2)" by (cases "go b p st1")
    have G: "swap_result B b st1 (ok, st2)" using go [OF w1, of p] r by simp
    have ev: "eject_one may go i s st = (if ok then (True, st2) else (False, put_back b p (unplaceActivity i st2)))"
      using b r by (simp add: eject_one_def Let_def p_def st0_def st1_def)
    show ?thesis
    proof (cases ok)
      case True
      have "placed st0 = placed st - {b}" unfolding placed_def U(3) by (auto simp: nth_update split: if_splits)
      then have "placed st1 = insert i (placed st - {b})" using R1(4) by simp
      moreover have "b \<in> placed st" using bi(2) b(2) len by (simp add: placed_def)
      ultimately have "insert b (placed st1) = insert i (placed st)" by blast
      then show ?thesis using G True R1(3) by (simp add: ev swap_result_def)
    next
      case False
      have G2: "agree B st2" "good B st2 (e_place st2)" "sig st2 = sig st" "e_place st2 = e_place st1"
        using G False R1(3) unfolding swap_result_def fst_conv snd_conv if_not_P [OF False] by metis+
      have a2: "e_acts st2 = e_acts st" using G2(3) by (simp add: sig_def)
      have i2: "i < length (e_acts st2)" using W(3) a2 by simp
      define st3 where "st3 = unplaceActivity i st2"
      have U3: "agree B st3" "frame st2 st3" "e_place st3 = (e_place st2)[i := None]" unfolding st3_def using unplace_agree [OF G2(1,2) i2] by blast+
      have e3: "e_place st3 = (e_place st)[b := None]" using U3(3) G2(4) e1 W(4) bi(1) by (simp add: list_update_id_if list_update_swap)
      have sg3: "sig st3 = sig st" and a3: "e_acts st3 = e_acts st" using frame_fields [OF U3(2)] G2(3) a2 by simp_all
      obtain q where q: "p = Some q" using bi(2) p_def by auto
      have bk: "(e_place st3)[b := Some q] = e_place st" using e3 q p_def by (simp add: list_update_id_if)
      have w3: "waiting B b st3" using U3(1) e3 a3 b(2) len good_remove [OF W(2)] good_cong [OF sg3, of B "(e_place st)[b := None]"] by (simp add: waiting_def)
      have "good B st3 ((e_place st3)[b := Some q])" using bk W(2) good_cong [OF sg3, of B "e_place st"] by simp
      note last = waiting_place [OF w3 this]
      have "swap_result B i st (False, put_back b p st3)"
        using last bk sg3 by (simp add: q put_back_def swap_result_def)
      then show ?thesis using ev False st3_def by simp
    qed
  qed
qed

lemma upto_slots: "\<forall>s \<in> set [0..<total_slots]. s < total_slots"
  by simp

lemma relocate_ok: "waiting B b st \<Longrightarrow> swap_result B b st (relocate b old st)"
  unfolding relocate_def by (rule try_slots_ok [OF place_free_ok _ upto_slots])

lemma relocate_via_ok: "waiting B b st \<Longrightarrow> swap_result B b st (relocate_via slot_ok may b old st)"
  unfolding relocate_via_def
proof (rule try_slots_ok [OF _ _ upto_slots])
  have "sound_try B b (eject_one may relocate b)" by (rule eject_one_ok [OF relocate_ok])
  then show "sound_try B b (\<lambda>s st. if Some s = old \<or> \<not> slot_ok s st then (False, st) else eject_one may relocate b s st)"
    using result_refl by (simp add: sound_try_def)
qed

lemma tryEjectionChain_ok:
  assumes w: "waiting B i st"
  shows "swap_result B i st (tryEjectionChain i st)"
proof -
  obtain order rng where sh: "fet_shuffle [0..<total_slots] (e_rng st) = (order, rng)" by (cases "fet_shuffle [0..<total_slots] (e_rng st)")
  define st0 where "st0 = st\<lparr>e_rng := rng\<rparr>"
  have s: "sig st0 = sig st" "grids st0 = grids st" "e_place st0 = e_place st" "e_acts st0 = e_acts st"
    by (simp_all add: st0_def sig_def grids_def)
  have w0: "waiting B i st0"
    using w s(3,4) agree_cong [OF s(1,2), of B] good_cong [OF s(1), of B "e_place st"] by (simp add: waiting_def)
  have r0: "swap_result B i st (False, st0)" using w0 s by (simp add: waiting_def swap_result_def)
  have ord: "\<forall>s \<in> set order. s < total_slots" using fet_shuffle_memD [OF sh] by simp
  have step: "swap_result B i st (case try_slots f order st1 of (ok, st2) \<Rightarrow> if ok then (True, st2) else h st2)"
    if "sound_try B i f" "swap_result B i st (False, st1)" "\<And>st2. swap_result B i st (False, st2) \<Longrightarrow> swap_result B i st (h st2)" for f st1 h
  proof -
    have r: "swap_result B i st (try_slots f order st1)"
      by (rule result_trans [OF that(2) try_slots_ok [OF that(1) result_failed [OF w that(2)] ord]])
    then show ?thesis using that(3) by (cases "try_slots f order st1") auto
  qed
  have last: "swap_result B i st (try_slots f order st1)" if "sound_try B i f" "swap_result B i st (False, st1)" for f st1
    by (rule result_trans [OF that(2) try_slots_ok [OF that(1) result_failed [OF w that(2)] ord]])
  have ni: "\<not> (i \<ge> length (e_acts st) \<or> e_place st ! i \<noteq> None)" using w by (simp add: waiting_def)
  show ?thesis
    unfolding tryEjectionChain_def if_not_P [OF ni] sh prod.case st0_def [symmetric]
    by (intro step last place_free_ok eject_one_ok relocate_ok relocate_via_ok r0)
qed

end
