(* ===== verification/FeInit.thy ===== *)
theory FeInit
  imports FeGrid
begin

section \<open>FET engine: reading the school's data\<close>

text \<open>
  The constructor, \<open>init\<close> with the lesson-block rules, \<open>buildActivities\<close> and the order in which the
  activities are placed.

  \<^item> Elements of \<open>DATA.lop\<close> are objects; a numeric seed is an integer.
  \<^item> A lesson-block rule whose \<open>min\<close> is NaN never asks for a block (0 here), one whose \<open>max\<close> is NaN or
    absent has no upper bound (\<open>None\<close>).
  \<^item> A fractional period in an OFF key names no cell of a grid, so it is dropped.
\<close>

subsection \<open>The constructor\<close>

definition seed_of :: "js \<Rightarrow> int \<Rightarrow> int" where
  "seed_of opts now = (case jprop opts ''seed'' of JNum n \<Rightarrow> (if n = 0 then now else n) | _ \<Rightarrow> now)"

definition new_engine :: "js \<Rightarrow> js \<Rightarrow> (nat \<Rightarrow> int) \<Rightarrow> eng" where
  "new_engine data opts clock =
     \<lparr>e_data = data, e_opts = opts, e_classes = [], e_acts = [], e_fixed = [], e_raw = [], e_off = {}, e_toff = {},
      e_roff = {}, e_soff = {}, e_cgrid = [], e_tgrid = [], e_rgrid = [], e_place = [], e_blocks = [],
      e_blockConflicts = [], e_scored = None, e_tabu = (\<lambda>_. 0), e_step = 0, e_calls = 0, e_limit = 0,
      e_journal = [], e_branch = {}, e_rng = prng_new (seed_of opts (clock 0)), e_clock = clock,
      e_ticks = (if js_truthy (jprop opts ''seed'') then 0 else 1), e_deadline = None, e_hit = False,
      e_strict = False, e_mintwo = False, e_weekly = None, e_permanent = None, e_holes = None, e_lockS1 = None,
      e_lockGap2 = None, e_rejections = 0\<rparr>"

subsection \<open>Classes\<close>

definition class_names :: "js \<Rightarrow> (ustr \<times> ustr) list \<Rightarrow> (ustr \<times> ustr) list" where
  "class_names l m =
     (let i = jprop l ''id''; t = jprop l ''ten'';
          name = trim (js_string (js_or i t));
          m1 = (if js_truthy i then AList.update (toLowerCase (trim (js_string i))) (trim (js_string i)) m else m)
      in if js_truthy t
         then AList.update (trim (js_string t)) name (AList.update (toLowerCase (trim (js_string t))) name m1)
         else m1)"

definition class_map :: "js list \<Rightarrow> (ustr \<times> ustr) list" where
  "class_map ls = fold class_names ls []"

definition target_class :: "(ustr \<times> ustr) list \<Rightarrow> ustr \<Rightarrow> ustr" where
  "target_class cm c = (case map_of cm (toLowerCase c) of Some x \<Rightarrow> (if x \<noteq> [] then x else c) | None \<Rightarrow> c)"

subsection \<open>Lesson-block rules\<close>

definition parse_int :: "ustr \<Rightarrow> nat option" where
  "parse_int s = (let t = dropWhile is_space s; t' = (if t \<noteq> [] \<and> hd t = 43 then tl t else t); ds = takeWhile is_digit t'
     in if ds = [] then None else Some (digits_val ds))"

definition block_key :: "ustr \<Rightarrow> ustr \<Rightarrow> nat \<Rightarrow> ustr" where
  "block_key c s len = bar_key c (bar_key s (nat_str len))"

definition block_rule :: "(ustr \<times> ustr) list \<Rightarrow> ustr \<Rightarrow> ustr \<Rightarrow> ustr \<times> js \<Rightarrow> (ustr \<times> block_req) list \<Rightarrow> (ustr \<times> block_req) list" where
  "block_rule cm sCanon cId lb m =
     (case parse_int (fst lb) of None \<Rightarrow> m | Some len \<Rightarrow>
        let mn = (if nullish (jprop (snd lb) ''min'') then 0
                  else case js_number (jprop (snd lb) ''min'') of Some q \<Rightarrow> q | None \<Rightarrow> 0);
            mx = (if nullish (jprop (snd lb) ''max'') then None else js_number (jprop (snd lb) ''max''));
            cc = trim cId; target = target_class cm cc
        in if len < 2 \<or> \<not> (mn > 0 \<or> mx \<noteq> None) then m
           else AList.update (block_key target sCanon len)
                  \<lparr>br_cid = target, br_classCanon = cc, br_canon = sCanon, br_len = len, br_min = mn, br_max = mx\<rparr> m)"

definition block_rules_of_subject :: "js \<Rightarrow> (ustr \<times> ustr) list \<Rightarrow> ustr \<times> js \<Rightarrow> (ustr \<times> block_req) list \<Rightarrow> (ustr \<times> block_req) list" where
  "block_rules_of_subject data cm sc m =
     (if \<not> js_truthy (snd sc) \<or> \<not> js_truthy (jprop (snd sc) ''byClass'') then m
      else fold (\<lambda>(cId, cConf) m. if \<not> js_truthy cConf \<or> \<not> js_truthy (jprop cConf ''lessonBlocks'') then m
             else fold (block_rule cm (getCanonMonKey data (fst sc)) cId) (entries (jprop cConf ''lessonBlocks'')) m)
           (entries (jprop (snd sc) ''byClass'')) m)"

definition initLessonBlockRules :: "js \<Rightarrow> (ustr \<times> block_req) list" where
  "initLessonBlockRules data =
     (let cons = jprop data ''tkbConstraints''
      in if \<not> js_truthy cons \<or> \<not> js_truthy (jprop cons ''subject'') then []
         else fold (block_rules_of_subject data (class_map (array_of (jprop data ''lop'')))) (entries (jprop cons ''subject'')) [])"

text \<open>The runs of consecutive periods of at least the asked length, in one half day.\<close>

definition runs_of :: "nat \<Rightarrow> nat list \<Rightarrow> nat" where
  "runs_of len ps = (if length ps < len then 0
     else length (filter (\<lambda>i. (\<forall>k \<in> set [0..<len]. i + k \<in> set ps) \<and> (i = 0 \<or> i - 1 \<notin> set ps)) ps))"

definition block_periods :: "eng \<Rightarrow> block_req \<Rightarrow> nat \<Rightarrow> nat list" where
  "block_periods st req start = filter (\<lambda>p. case cell_at (e_cgrid st) (br_cid req) (start + p) of
       GAct b \<Rightarrow> b < length (e_acts st) \<and> (ac_canon (e_acts st ! b) = br_canon req
          \<or> getCanonMonKey (e_data st) (ac_mon (e_acts st ! b)) = br_canon req)
     | GFixed \<Rightarrow> (case map_of (e_fixed st) (br_cid req, start + p) of
          Some fx \<Rightarrow> fx_mon fx \<noteq> [] \<and> getCanonMonKey (e_data st) (fx_mon fx) = br_canon req | None \<Rightarrow> False)
     | _ \<Rightarrow> False) [0..<periods_per_session]"

definition block_count :: "eng \<Rightarrow> block_req \<Rightarrow> nat" where
  "block_count st req = sum_list (map (\<lambda>b. runs_of (br_len req) (block_periods st req (b * periods_per_session)))
     [0..<total_slots div periods_per_session])"

definition block_met :: "eng \<Rightarrow> block_req \<Rightarrow> bool" where
  "block_met st req \<longleftrightarrow> map_of (e_cgrid st) (br_cid req) = None
     \<or> of_nat (block_count st req) \<ge> br_min req
       \<and> (case br_max req of Some mx \<Rightarrow> of_nat (block_count st req) \<le> mx | None \<Rightarrow> True)"

definition isLessonBlockSafe :: "eng \<Rightarrow> act list \<Rightarrow> bool" where
  "isLessonBlockSafe st acts =
     (let targets = filter (\<lambda>c. c \<noteq> []) (map ac_class acts)
      in list_all (\<lambda>(key, req). acts \<noteq> [] \<and> br_cid req \<notin> set targets \<and> br_classCanon req \<notin> set targets \<or> block_met st req)
           (e_blocks st))"

definition evaluateLessonBlockViolations :: "eng \<Rightarrow> rat" where
  "evaluateLessonBlockViolations st =
     sum_list (map (\<lambda>(key, req). if map_of (e_cgrid st) (br_cid req) \<noteq> None \<and> of_nat (block_count st req) < br_min req
       then br_min req - of_nat (block_count st req) else 0) (e_blocks st))"

definition bump_total :: "ustr \<Rightarrow> ustr \<Rightarrow> nat \<Rightarrow> (ustr \<times> nat) list \<Rightarrow> (ustr \<times> nat) list" where
  "bump_total c s n m = AList.update (bar_key c s) ((case map_of m (bar_key c s) of Some x \<Rightarrow> x | None \<Rightarrow> 0) + n) m"

definition block_totals :: "eng \<Rightarrow> (ustr \<times> nat) list" where
  "block_totals st =
     fold (\<lambda>((c, s), fx) m. if fx_mon fx = [] then m
             else bump_total (takeWhile (\<lambda>x. x \<noteq> 124) c) (getCanonMonKey (e_data st) (fx_mon fx)) 1 m) (e_fixed st)
       (fold (\<lambda>a m. if ac_fixed a then m
             else bump_total (ac_class a) (if ac_canon a \<noteq> [] then ac_canon a else getCanonMonKey (e_data st) (ac_mon a))
                    (if ac_dur a = 0 then 1 else ac_dur a) m) (e_acts st) [])"

definition clamp_rule :: "(ustr \<times> nat) list \<Rightarrow> ustr \<times> block_req \<Rightarrow> (ustr \<times> block_req) option" where
  "clamp_rule totals kr =
     (let req = snd kr;
          total = (case map_of totals (bar_key (br_cid req) (br_canon req)) of Some x \<Rightarrow> x
                   | None \<Rightarrow> (case map_of totals (bar_key (br_classCanon req) (br_canon req)) of Some x \<Rightarrow> x | None \<Rightarrow> 0));
          achievable = total div max 1 (br_len req)
      in if br_min req > of_nat achievable
         then (if achievable = 0 \<and> br_max req = None then None else Some (fst kr, req\<lparr>br_min := of_nat achievable\<rparr>))
         else Some kr)"

definition clampLessonBlockRules :: "eng \<Rightarrow> eng" where
  "clampLessonBlockRules st = st\<lparr>e_blocks := List.map_filter (clamp_rule (block_totals st)) (e_blocks st)\<rparr>"

subsection \<open>OFF and fixed cells of the stored timetable\<close>

fun jidx :: "js \<Rightarrow> nat \<Rightarrow> js" where
  "jidx (JArr xs) i = (if i < length xs then xs ! i else JUndef)"
| "jidx (JObj kvs) i = jget (JObj kvs) (nat_str i)"
| "jidx _ i = JUndef"

definition stored_cell :: "js \<Rightarrow> ustr \<Rightarrow> nat \<Rightarrow> js" where
  "stored_cell data cid slot =
     (let d = slotToDetails slot in jidx (jget (jget (jget (jprop data ''tkb'') cid) (sd_thu d)) (sd_buoi d)) (sd_period d))"

definition put_cell :: "ustr \<Rightarrow> nat \<Rightarrow> gcell \<Rightarrow> rows \<Rightarrow> rows" where
  "put_cell k s v m = set_cell_at k s v (ensure_row k m)"

definition fixed_teacher :: "js \<Rightarrow> js \<Rightarrow> js \<Rightarrow> ustr \<Rightarrow> ustr" where
  "fixed_teacher data l cell mon =
     (let gv = (if is_object cell \<and> js_truthy (jprop cell ''gv'') then trim (js_string (jprop cell ''gv''))
                else case cell of JStr s \<Rightarrow> (if has_sub dash s then trim (split_str dash [] s ! 1) else []) | _ \<Rightarrow> [])
      in if gv = [] then getTeacherForClassMon data l mon else gv)"

definition scan_cell :: "js \<Rightarrow> nat \<Rightarrow> eng \<Rightarrow> eng" where
  "scan_cell l slot st =
     (let cid = class_id l; cell = stored_cell (e_data st) cid slot
      in if isCellOff cell then st\<lparr>e_off := insert (cid, slot) (e_off st), e_cgrid := set_cell_at cid slot GOff (e_cgrid st)\<rparr>
         else if js_truthy cell \<and> isCellFixed cell then
           let mon = extractMon cell; gv = fixed_teacher (e_data st) l cell mon; rm = getRoomForClassMon (e_data st) l mon
           in st\<lparr>e_fixed := AList.update (cid, slot) \<lparr>fx_mon = mon, fx_gv = gv, fx_room = rm\<rparr> (e_fixed st),
                 e_raw := AList.update (cid, slot) cell (e_raw st),
                 e_cgrid := set_cell_at cid slot GFixed (e_cgrid st),
                 e_tgrid := fold (\<lambda>t. put_cell t slot GFixed) (parseTeacherList (JStr gv)) (e_tgrid st),
                 e_rgrid := (if rm = [] then e_rgrid st else put_cell (toLowerCase (trim rm)) slot GFixed (e_rgrid st))\<rparr>
         else st)"

definition scan_class :: "js \<Rightarrow> eng \<Rightarrow> eng" where
  "scan_class l st = fold (scan_cell l) [0..<total_slots] st"

subsection \<open>OFF constraints\<close>

text \<open>A key \<open>thu|buoi|p\<close> or \<open>thu_buoi_p\<close>.\<close>

definition off_slot :: "ustr \<Rightarrow> nat option" where
  "off_slot k = (case split_on (\<lambda>c. c = 95 \<or> c = 124) k of
     thu # buoi # p # _ \<Rightarrow> (case string_number p of
         Some q \<Rightarrow> (if q \<ge> 0 \<and> q = of_int \<lfloor>q\<rfloor> then detailsToSlot thu buoi (nat \<lfloor>q\<rfloor>) else None)
       | None \<Rightarrow> None)
   | _ \<Rightarrow> None)"

definition off_slots :: "js \<Rightarrow> nat list" where
  "off_slots slotsObj = List.map_filter (\<lambda>(k, v). if js_truthy v then off_slot k else None) (entries slotsObj)"

definition fixed_off :: "js \<Rightarrow> string \<Rightarrow> js" where
  "fixed_off data kind = jprop (jprop (jprop data ''tkbConstraints'') ''fixedOff'') kind"

definition set_if_row :: "ustr \<Rightarrow> nat \<Rightarrow> rows \<Rightarrow> rows" where
  "set_if_row k s m = (if map_of m k \<noteq> None then set_cell_at k s GOff m else m)"

definition class_off :: "(ustr \<times> ustr) list \<Rightarrow> ustr \<times> js \<Rightarrow> eng \<Rightarrow> eng" where
  "class_off cm kv st =
     (let c = fst kv; target = target_class cm (trim c)
      in fold (\<lambda>s st. st\<lparr>e_off := insert (c, s) (insert (target, s) (e_off st)),
                         e_cgrid := set_if_row c s (set_if_row target s (e_cgrid st))\<rparr>) (off_slots (snd kv)) st)"

definition teacher_off :: "ustr \<times> js \<Rightarrow> eng \<Rightarrow> eng" where
  "teacher_off kv st =
     (let t = toLowerCase (trim (fst kv))
      in fold (\<lambda>s st. st\<lparr>e_toff := insert (t, s) (e_toff st), e_tgrid := put_cell t s GOff (e_tgrid st)\<rparr>) (off_slots (snd kv)) st)"

definition room_off :: "ustr \<times> js \<Rightarrow> eng \<Rightarrow> eng" where
  "room_off kv st =
     (let r = toLowerCase (trim (fst kv))
      in fold (\<lambda>s st. st\<lparr>e_roff := insert (r, s) (e_roff st), e_rgrid := put_cell r s GOff (e_rgrid st)\<rparr>) (off_slots (snd kv)) st)"

definition subject_off :: "ustr \<times> js \<Rightarrow> eng \<Rightarrow> eng" where
  "subject_off kv st =
     fold (\<lambda>s st. st\<lparr>e_soff := insert (getCanonMonKey (e_data st) (fst kv), s) (insert (normalizeMonName (fst kv), s)
             (insert (toLowerCase (trim (fst kv)), s) (e_soff st)))\<rparr>) (off_slots (snd kv)) st"

end
