(* ===== verification/FeBuild.thy ===== *)
theory FeBuild
  imports FeInit
begin

section \<open>FET engine: building the activities\<close>

text \<open>
  \<open>resolveFixedSubjectToPccm\<close>, \<open>buildActivities\<close>, \<open>computeDifficultiesAndSort\<close> and \<open>init\<close> itself.
  The items of a class are kept in a \<open>Map\<close> by normalized name; an item the code mutates through a
  reference is updated at its key.
\<close>

record subject_item =
  si_mon :: ustr
  si_canon :: ustr
  si_gv :: ustr
  si_room :: ustr
  si_required :: nat
  si_limit :: rat
  si_exactFixed :: nat
  si_remain :: nat
  si_noTeacher :: bool

type_synonym subject_map = "(ustr \<times> subject_item) list"

subsection \<open>The subject a fixed cell counts for\<close>

definition hdtn :: ustr where
  "hdtn = [72, 272, 84, 78]"

definition first_key :: "ustr list \<Rightarrow> subject_map \<Rightarrow> ustr option" where
  "first_key names m = List.find (\<lambda>k. map_of m k \<noteq> None) (map normalizeMonName names)"

definition chao_co_names :: "ustr list" where
  "chao_co_names = [hdtn @ u '' 1'', u ''TNHN 1'', hdtn, u ''TNHN'']"

definition sinh_hoat_names :: "ustr list" where
  "sinh_hoat_names = [hdtn @ u '' 3'', hdtn @ u '' 2'', u ''TNHN 3'', u ''TNHN 2'', hdtn, u ''TNHN'']"

definition or_else :: "'a option \<Rightarrow> 'a option \<Rightarrow> 'a option" where
  "or_else a b = (case a of None \<Rightarrow> b | Some x \<Rightarrow> Some x)"

definition resolveFixedSubjectToPccm :: "js \<Rightarrow> subject_map \<Rightarrow> ustr \<Rightarrow> ustr option" where
  "resolveFixedSubjectToPccm data m fixMon =
     (let canon = getCanonMonKey data fixMon;
          by_canon = (\<lambda>P. map_option fst (List.find (\<lambda>(k, it). si_canon it = canon \<and> P it) m))
      in or_else (first_key [fixMon] m)
        (or_else (if isChaoCo fixMon then first_key chao_co_names m else None)
        (or_else (if isSinhHoatLop fixMon then first_key sinh_hoat_names m else None)
        (or_else (by_canon (\<lambda>it. si_remain it > 0)) (by_canon (\<lambda>it. True))))))"

subsection \<open>The subjects of a class\<close>

definition scan_key :: "js \<Rightarrow> js \<Rightarrow> ustr \<Rightarrow> subject_map \<Rightarrow> subject_map" where
  "scan_key data lop k m =
     (let mon = trim (after_bar k); key = normalizeMonName mon
      in if \<not> of_class lop k \<or> mon = [] \<or> map_of m key \<noteq> None then m
         else let gv = getTeacherForClassMon data lop mon; req = getRequiredPeriods data lop mon;
                  noT = (gv = [] \<and> isNoTeacherGhepSubject data lop mon)
              in if gv = [] \<and> \<not> noT then m
                 else AList.update key
                   \<lparr>si_mon = mon, si_canon = getCanonMonKey data mon, si_gv = gv, si_room = getRoomForClassMon data lop mon,
                    si_required = req, si_limit = getSubjectSessionLimit data lop mon, si_exactFixed = 0,
                    si_remain = req, si_noTeacher = noT\<rparr> m)"

definition subject_map_of :: "js \<Rightarrow> js \<Rightarrow> subject_map" where
  "subject_map_of data lop =
     fold (scan_key data lop) (map fst (entries (jprop data ''pccmMatrix'')) @ map fst (entries (jprop data ''pccmTietMatrix''))) []"

definition count_fixed_item :: "subject_item \<Rightarrow> subject_item" where
  "count_fixed_item it = it\<lparr>si_exactFixed := Suc (si_exactFixed it), si_remain := si_required it - Suc (si_exactFixed it)\<rparr>"

definition count_fixed :: "eng \<Rightarrow> ustr \<Rightarrow> nat \<Rightarrow> subject_map \<Rightarrow> subject_map" where
  "count_fixed st cid slot m = (case map_of (e_fixed st) (cid, slot) of
     Some fx \<Rightarrow> (if fx_mon fx = [] then m
       else case resolveFixedSubjectToPccm (e_data st) m (fx_mon fx) of
              Some k \<Rightarrow> (case map_of m k of Some it \<Rightarrow> AList.update k (count_fixed_item it) m | None \<Rightarrow> m)
            | None \<Rightarrow> m)
   | None \<Rightarrow> m)"

definition class_items :: "eng \<Rightarrow> js \<Rightarrow> subject_map" where
  "class_items st lop = fold (count_fixed st (class_id lop)) [0..<total_slots] (subject_map_of (e_data st) lop)"

subsection \<open>Blocks of consecutive periods\<close>

definition block_rule_of :: "eng \<Rightarrow> js \<Rightarrow> ustr \<Rightarrow> nat \<Rightarrow> block_req option" where
  "block_rule_of st lop s len = or_else (map_of (e_blocks st) (block_key (class_id lop) s len))
     (map_of (e_blocks st) (block_key (class_canon lop) s len))"

definition min_blocks :: "eng \<Rightarrow> js \<Rightarrow> subject_item \<Rightarrow> nat \<Rightarrow> rat" where
  "min_blocks st lop it len = (case block_rule_of st lop (si_canon it) len of
     None \<Rightarrow> 0 | Some req \<Rightarrow> min (br_min req) (of_nat (si_required it div len)))"

text \<open>The durations of the blocks, what remains as single periods, and the rules that cannot be met.\<close>

fun block_durs :: "eng \<Rightarrow> js \<Rightarrow> subject_item \<Rightarrow> nat list \<Rightarrow> nat \<Rightarrow> nat list \<times> nat \<times> block_conflict list" where
  "block_durs st lop it [] remain = ([], remain, [])"
| "block_durs st lop it (len # lens) remain =
     (let minReq = min_blocks st lop it len
      in if minReq > 0 \<and> of_nat len > si_limit it then
           let (ds, r, cs) = block_durs st lop it lens remain
           in (ds, r, \<lparr>bc_class = class_id lop, bc_name = (if class_canon lop \<noteq> [] then class_canon lop else class_id lop),
                       bc_mon = si_mon it, bc_len = len, bc_limit = si_limit it, bc_periods = si_required it\<rparr> # cs)
         else if minReq > 0 \<and> remain \<ge> len then
           let count = nat \<lceil>min minReq (of_nat (remain div len))\<rceil>;
               (ds, r, cs) = block_durs st lop it lens (remain - count * len)
           in (replicate count len @ ds, r, cs)
         else block_durs st lop it lens remain)"

definition item_durs :: "eng \<Rightarrow> js \<Rightarrow> subject_item \<Rightarrow> nat list \<times> block_conflict list" where
  "item_durs st lop it =
     (if si_gv it = [] \<and> \<not> si_noTeacher it then ([], [])
      else let (ds, r, cs) = block_durs st lop it [5, 4, 3, 2] (si_remain it) in (ds @ replicate r 1, cs))"

definition new_act :: "js \<Rightarrow> subject_item \<Rightarrow> nat \<Rightarrow> nat \<Rightarrow> act" where
  "new_act lop it n dur =
     \<lparr>ac_id = n, ac_class = class_id lop, ac_classCanon = class_canon lop, ac_lop = lop, ac_mon = si_mon it,
      ac_canon = si_canon it, ac_gv = si_gv it, ac_room = si_room it, ac_dur = dur, ac_fixed = False, ac_ninc = 0,
      ac_init = None, ac_raw = JUndef, ac_raw2 = JUndef\<rparr>"

text \<open>The counter of ids is the length of the list so far.\<close>

definition add_item :: "eng \<Rightarrow> js \<Rightarrow> ustr \<times> subject_item \<Rightarrow> act list \<times> block_conflict list \<Rightarrow> act list \<times> block_conflict list" where
  "add_item st lop kv acc =
     (let (ds, cs) = item_durs st lop (snd kv)
      in (fst acc @ map2 (new_act lop (snd kv)) [length (fst acc)..<length (fst acc) + length ds] ds, snd acc @ cs))"

definition add_class :: "eng \<Rightarrow> js \<Rightarrow> act list \<times> block_conflict list \<Rightarrow> act list \<times> block_conflict list" where
  "add_class st lop acc = fold (add_item st lop) (class_items st lop) acc"

definition buildActivities :: "eng \<Rightarrow> eng" where
  "buildActivities st =
     (let (acts, cs) = fold (add_class st) (e_classes st) ([], [])
      in st\<lparr>e_acts := acts, e_blockConflicts := cs, e_place := replicate (length acts) None\<rparr>)"

subsection \<open>Reading the data\<close>

definition scored_teachers :: "js \<Rightarrow> ustr set option" where
  "scored_teachers data =
     (let s = set (concat (map (\<lambda>(k, v). parseTeacherList v) (entries (jprop data ''pccmMatrix''))))
      in if s = {} then None else Some s)"

definition real_class :: "js \<Rightarrow> bool" where
  "real_class l \<longleftrightarrow> js_truthy (jprop l ''id'') \<or> js_truthy (jprop l ''ten'')"

definition reset_engine :: "eng \<Rightarrow> eng" where
  "reset_engine st =
     (let data = e_data st; classes = filter real_class (array_of (jprop data ''lop''))
      in st\<lparr>e_fixed := [], e_raw := [], e_off := {}, e_toff := {}, e_roff := {}, e_soff := {},
            e_cgrid := fold (\<lambda>l. AList.update (class_id l) empty_row) classes [], e_tgrid := [], e_rgrid := [],
            e_place := [], e_tabu := (\<lambda>_. 0), e_journal := [], e_branch := {}, e_classes := classes,
            e_blocks := initLessonBlockRules data, e_scored := scored_teachers data\<rparr>)"

definition apply_off :: "eng \<Rightarrow> eng" where
  "apply_off st =
     (let data = e_data st;
          st1 = fold (class_off (class_map (e_classes st))) (entries (js_or (fixed_off data ''class'') (jprop data ''lopNghi''))) st;
          st2 = fold teacher_off (entries (js_or (fixed_off data ''teacher'')
                  (js_or (jprop data ''teacherOff'') (jprop data ''gvNghi'')))) st1;
          st3 = fold room_off (entries (fixed_off data ''room'')) st2
      in fold subject_off (entries (fixed_off data ''subject'')) st3)"

definition init :: "eng \<Rightarrow> eng" where
  "init st = (let st1 = reset_engine st
              in clampLessonBlockRules (buildActivities (apply_off (fold scan_class (e_classes st1) st1))))"

subsection \<open>The order of placement\<close>

definition fixed_single_halves :: "eng \<Rightarrow> ustr \<Rightarrow> nat" where
  "fixed_single_halves st t = (if map_of (e_tgrid st) t = None then 0
     else length (filter (\<lambda>b. length (filter (\<lambda>p. cell_at (e_tgrid st) t (b * periods_per_session + p) = GFixed)
                                [0..<periods_per_session]) = 1) [0..<total_slots div periods_per_session]))"

definition act_load :: "(act \<Rightarrow> nat) \<Rightarrow> act list \<Rightarrow> nat" where
  "act_load f acts = sum_list (map (\<lambda>a. f a * ac_dur a) acts)"

definition difficulty :: "eng \<Rightarrow> act \<Rightarrow> int" where
  "difficulty st a =
     int ((sum_list (map (\<lambda>t. act_load (\<lambda>b. count_list (act_teachers b) t) (e_acts st) + 300 * fixed_single_halves st t) (act_teachers a))
        + act_load (\<lambda>b. if ac_class b = ac_class a then 1 else 0) (e_acts st)
        + 2 * length (filter (\<lambda>s. (ac_class a, s) \<in> e_off st \<or> map_of (e_fixed st) (ac_class a, s) \<noteq> None) [0..<total_slots]))
        * ac_dur a)"

definition renumber :: "act list \<Rightarrow> act list" where
  "renumber as = map2 (\<lambda>i a. a\<lparr>ac_id := i\<rparr>) [0..<length as] as"

definition computeDifficultiesAndSort :: "eng \<Rightarrow> eng" where
  "computeDifficultiesAndSort st =
     (let scored = map (\<lambda>a. a\<lparr>ac_ninc := difficulty st a\<rparr>) (e_acts st);
          acts = renumber (sort_key (\<lambda>a. - int (ac_dur a)) (sort_key (\<lambda>a. - ac_ninc a) scored))
      in st\<lparr>e_acts := acts, e_place := replicate (length acts) None\<rparr>)"

end
