(* ===== verification/FeInitOk.thy ===== *)
theory FeInitOk
  imports FeSwapOk FeBuild
begin

section \<open>FET engine: a freshly read engine is consistent\<close>

text \<open>
  After \<open>init\<close> no cell holds an activity, every OFF or fixed cell of the class grid is recorded as such,
  and the activities are numbered by position, have a positive length and a row in the class grid. So
  the grids agree with the empty placement, and the invariant of the moves starts true.
\<close>

subsection \<open>Rows without activities\<close>

definition idle_rows :: "rows \<Rightarrow> bool" where
  "idle_rows m \<longleftrightarrow> rows_ok m \<and> (\<forall>k s i. cell_at m k s \<noteq> GAct i)"

lemma idle_rows_simps [simp]:
  "idle_rows m \<Longrightarrow> (\<And>i. v \<noteq> GAct i) \<Longrightarrow> idle_rows (set_cell_at k s v m)"
  "idle_rows m \<Longrightarrow> idle_rows (ensure_row k m)"
  "idle_rows m \<Longrightarrow> (\<And>i. v \<noteq> GAct i) \<Longrightarrow> idle_rows (put_cell k s v m)"
  "idle_rows m \<Longrightarrow> idle_rows (set_if_row k s m)"
  "idle_rows []"
  by (auto simp: idle_rows_def cell_at_set put_cell_def set_if_row_def) (auto simp: rows_ok_def cell_at_def)

lemma idle_fold: "idle_rows m \<Longrightarrow> (\<And>x m. idle_rows m \<Longrightarrow> idle_rows (f x m)) \<Longrightarrow> idle_rows (fold f xs m)"
  by (induction xs arbitrary: m) auto

lemma idle_new_row: "idle_rows m \<Longrightarrow> idle_rows (AList.update k empty_row m)"
  by (auto simp: idle_rows_def rows_ok_def cell_at_def empty_row_def split: option.splits if_splits)

subsection \<open>The invariant of reading the data\<close>

definition one_row_each :: "rows \<Rightarrow> bool" where
  "one_row_each m \<longleftrightarrow> distinct (map fst m)"

definition reading :: "eng \<Rightarrow> bool" where
  "reading st \<longleftrightarrow> idle_rows (e_cgrid st) \<and> idle_rows (e_tgrid st) \<and> idle_rows (e_rgrid st)
     \<and> (\<forall>c s. cell_at (e_cgrid st) c s \<noteq> GFree \<longrightarrow> (c, s) \<in> e_off st \<or> map_of (e_fixed st) (c, s) \<noteq> None)
     \<and> (\<forall>l \<in> set (e_classes st). map_of (e_cgrid st) (class_id l) \<noteq> None)
     \<and> one_row_each (e_cgrid st) \<and> (\<forall>k. map_of (e_raw st) k \<noteq> None \<longrightarrow> map_of (e_fixed st) k \<noteq> None)"

lemma reading_fold:
  assumes "reading st" "\<And>x st. reading st \<Longrightarrow> reading (f x st)"
  shows "reading (fold f xs st)"
  using assms(1) by (induction xs arbitrary: st) (auto simp: assms(2))

lemma new_rows: "map_of (fold (\<lambda>l. AList.update (class_id l) empty_row) ls m) k =
    (if k \<in> class_id ` set ls then Some empty_row else map_of m k)"
  by (induction ls arbitrary: m) auto

lemma new_cells: "cell_at (fold (\<lambda>l. AList.update (class_id l) empty_row) ls []) k s = GFree"
  by (simp add: cell_at_def new_rows) (simp add: empty_row_def)

lemma one_row_simps [simp]:
  "one_row_each (set_cell_at k s v m) = one_row_each m" "one_row_each (set_if_row k s m) = one_row_each m"
  by (simp_all add: one_row_each_def set_if_row_def)

lemma new_rows_distinct: "one_row_each (fold (\<lambda>l. AList.update (class_id l) empty_row) ls [])"
  unfolding one_row_each_def
  by (rule fold_invariant [where Q = "\<lambda>_. True"]) (simp_all add: distinct_update)

lemma reset_reading: "reading (reset_engine st)"
proof -
  have "idle_rows (fold (\<lambda>l. AList.update (class_id l) empty_row) ls [])" for ls
    by (rule idle_fold) (auto intro: idle_new_row)
  then show ?thesis by (simp add: reading_def reset_engine_def Let_def new_cells new_rows new_rows_distinct)
qed

lemma scan_cell_reading: "reading st \<Longrightarrow> reading (scan_cell l s st)"
  unfolding scan_cell_def Let_def reading_def
  by (auto simp: cell_at_set intro!: idle_fold simp del: not_None_eq)

lemma class_off_step: "reading st \<Longrightarrow>
    reading (st\<lparr>e_off := insert (c, s) (insert (t, s) (e_off st)), e_cgrid := set_if_row c s (set_if_row t s (e_cgrid st))\<rparr>)"
  by (auto simp: reading_def set_if_row_def cell_at_set simp del: not_None_eq)

lemma teacher_off_step: "reading st \<Longrightarrow> reading (st\<lparr>e_toff := x, e_tgrid := put_cell t s GOff (e_tgrid st)\<rparr>)"
  by (simp add: reading_def)

lemma room_off_step: "reading st \<Longrightarrow> reading (st\<lparr>e_roff := x, e_rgrid := put_cell t s GOff (e_rgrid st)\<rparr>)"
  by (simp add: reading_def)

lemma subject_off_step: "reading st \<Longrightarrow> reading (st\<lparr>e_soff := x\<rparr>)"
  by (simp add: reading_def)

lemma off_reading:
  "reading st \<Longrightarrow> reading (class_off cm kv st)" "reading st \<Longrightarrow> reading (teacher_off tv st)"
  "reading st \<Longrightarrow> reading (room_off rv st)" "reading st \<Longrightarrow> reading (subject_off sv st)"
  unfolding class_off_def teacher_off_def room_off_def subject_off_def Let_def
  by (erule reading_fold, erule class_off_step teacher_off_step room_off_step subject_off_step)+

lemma apply_off_reading: "reading st \<Longrightarrow> reading (apply_off st)"
  unfolding apply_off_def Let_def by (intro reading_fold off_reading)

subsection \<open>The activities\<close>

definition acts_ok :: "ustr set \<Rightarrow> act list \<Rightarrow> bool" where
  "acts_ok C acts \<longleftrightarrow> (\<forall>i < length acts. ac_id (acts ! i) = i \<and> 0 < ac_dur (acts ! i) \<and> ac_class (acts ! i) \<in> C
     \<and> \<not> ac_fixed (acts ! i) \<and> ac_init (acts ! i) = None)"

text \<open>The periods of a subject are cut without remainder.\<close>

lemma ceiling_min_le: "nat \<lceil>min q (of_nat n :: rat)\<rceil> \<le> n"
proof -
  have "\<lceil>min q (of_nat n :: rat)\<rceil> \<le> int n" by (simp add: ceiling_le_iff)
  then show ?thesis by simp
qed

lemma block_durs_sum:
  assumes "block_durs st lop it lens remain = (ds, r, cs)"
  shows "sum_list ds + r = remain"
  using assms
proof (induction lens arbitrary: remain ds r cs)
  case (Cons len lens)
  let ?q = "min_blocks st lop it len" and ?c = "nat \<lceil>min (min_blocks st lop it len) (of_nat (remain div len))\<rceil>"
  have le: "?c * len \<le> remain"
    using mult_le_mono1 [OF ceiling_min_le, of "?q" "remain div len" len] by (meson div_times_less_eq_dividend le_trans)
  consider "?q > 0 \<and> of_nat len > si_limit it" | "\<not> (?q > 0 \<and> of_nat len > si_limit it)" "?q > 0 \<and> remain \<ge> len"
    | "\<not> (?q > 0 \<and> of_nat len > si_limit it)" "\<not> (?q > 0 \<and> remain \<ge> len)" by blast
  then show ?case
  proof cases
    case 1
    then show ?thesis using Cons.prems Cons.IH [of remain] by (auto simp: Let_def split: prod.splits)
  next
    case 2
    obtain ds' r' cs' where b: "block_durs st lop it lens (remain - ?c * len) = (ds', r', cs')"
      by (cases "block_durs st lop it lens (remain - ?c * len)")
    then have "ds = replicate ?c len @ ds'" "r = r'" using Cons.prems 2 by (auto simp: Let_def)
    then show ?thesis using Cons.IH [OF b] le by (simp add: sum_list_replicate)
  next
    case 3
    then have "block_durs st lop it lens remain = (ds, r, cs)" using Cons.prems by (simp add: Let_def if_not_P [OF 3(1)] if_not_P [OF 3(2)])
    then show ?thesis by (rule Cons.IH)
  qed
qed simp

lemma block_durs_lens: "block_durs st lop it lens remain = (ds, r, cs) \<Longrightarrow> set ds \<subseteq> set lens"
proof (induction lens arbitrary: remain ds r cs)
  case (Cons len lens)
  then show ?case by (fastforce simp: Let_def split: if_splits prod.splits)
qed simp

lemma item_durs_sum:
  "sum_list (fst (item_durs st lop it)) = (if si_gv it = [] \<and> \<not> si_noTeacher it then 0 else si_remain it)"
  using block_durs_sum [of st lop it "[5, 4, 3, 2]" "si_remain it"]
  by (cases "block_durs st lop it [5, 4, 3, 2] (si_remain it)") (simp add: item_durs_def sum_list_replicate)

lemma item_durs_pos: "d \<in> set (fst (item_durs st lop it)) \<Longrightarrow> 0 < d"
  using block_durs_lens [of st lop it "[5, 4, 3, 2]" "si_remain it"]
  by (cases "block_durs st lop it [5, 4, 3, 2] (si_remain it)") (auto simp: item_durs_def split: if_splits)

lemma add_item_ok:
  assumes "acts_ok C (fst acc)" "class_id lop \<in> C"
  shows "acts_ok C (fst (add_item st lop kv acc))"
proof -
  obtain ds cs where d: "item_durs st lop (snd kv) = (ds, cs)" by (cases "item_durs st lop (snd kv)")
  then have pos: "\<forall>x \<in> set ds. 0 < x" using item_durs_pos [of _ st lop "snd kv"] by simp
  show ?thesis
    using assms pos by (auto simp: add_item_def d acts_ok_def nth_append new_act_def)
qed

lemma add_class_ok: "acts_ok C (fst acc) \<Longrightarrow> class_id lop \<in> C \<Longrightarrow> acts_ok C (fst (add_class st lop acc))"
  unfolding add_class_def
  by (rule fold_invariant [where P = "\<lambda>acc. acts_ok C (fst acc)" and Q = "\<lambda>_. True"]) (auto intro: add_item_ok simp del: fst_conv)

lemma build_acts_ok: "acts_ok (class_id ` set (e_classes st)) (e_acts (buildActivities st))"
proof -
  let ?C = "class_id ` set (e_classes st)"
  have "acts_ok ?C (fst (fold (add_class st) (e_classes st) ([], [])))"
  proof (rule fold_invariant [where P = "\<lambda>acc. acts_ok ?C (fst acc)" and Q = "\<lambda>l. l \<in> set (e_classes st)"])
    fix l and acc :: "act list \<times> block_conflict list"
    assume "l \<in> set (e_classes st)" "acts_ok ?C (fst acc)"
    then show "acts_ok ?C (fst (add_class st l acc))" by (intro add_class_ok) auto
  qed (simp_all add: acts_ok_def)
  then show ?thesis by (cases "fold (add_class st) (e_classes st) ([], [])") (simp add: buildActivities_def)
qed

subsection \<open>The engine after \<open>init\<close>\<close>

definition base_now :: "eng \<Rightarrow> fe_base" where
  "base_now st = \<lparr>fb_c = cell_at (e_cgrid st), fb_t = cell_at (e_tgrid st), fb_r = cell_at (e_rgrid st)\<rparr>"

definition empty_state :: "eng \<Rightarrow> bool" where
  "empty_state st \<longleftrightarrow> reading st \<and> acts_ok (class_id ` set (e_classes st)) (e_acts st)
     \<and> e_place st = replicate (length (e_acts st)) None"

lemma no_cover: "\<not> covers acts (replicate n None) i s"
  by (simp add: covers_def)

lemma fresh_agree:
  assumes R: "reading st" and P: "e_place st = replicate (length (e_acts st)) None"
    and A: "\<forall>i < length (e_acts st). ac_id (e_acts st ! i) = i \<and> 0 < ac_dur (e_acts st ! i)
      \<and> ac_class (e_acts st ! i) \<in> class_id ` set (e_classes st)"
  shows "agree (base_now st) st" and "good (base_now st) st (e_place st)"
proof -
  have idle: "idle_rows (e_cgrid st)" "idle_rows (e_tgrid st)" "idle_rows (e_rgrid st)"
    and occ: "\<And>c s. cell_at (e_cgrid st) c s \<noteq> GFree \<Longrightarrow> (c, s) \<in> e_off st \<or> map_of (e_fixed st) (c, s) \<noteq> None"
    and cls: "\<And>l. l \<in> set (e_classes st) \<Longrightarrow> map_of (e_cgrid st) (class_id l) \<noteq> None"
    and dist: "one_row_each (e_cgrid st)"
    using R unfolding reading_def by blast+
  have d: "displays (e_acts st) (e_place st) own (cell_at m) m" if "idle_rows m" for own m
    using that by (simp add: displays_def idle_rows_def P no_cover)
  have rows: "map_of (e_cgrid st) (ac_class (e_acts st ! i)) \<noteq> None" if "i < length (e_acts st)" for i
    using A cls that by fastforce
  show "agree (base_now st) st"
    unfolding agree_def base_now_def using d [OF idle(1)] d [OF idle(2)] d [OF idle(3)] occ rows A dist [unfolded one_row_each_def]
    by (simp add: P)
  show "good (base_now st) st (e_place st)" by (simp add: good_def P no_cover)
qed

lemma empty_agree:
  assumes "empty_state st"
  shows "agree (base_now st) st" and "good (base_now st) st (e_place st)"
proof -
  have P: "reading st" "e_place st = replicate (length (e_acts st)) None" using assms by (simp_all add: empty_state_def)
  have A: "\<forall>i < length (e_acts st). ac_id (e_acts st ! i) = i \<and> 0 < ac_dur (e_acts st ! i)
      \<and> ac_class (e_acts st ! i) \<in> class_id ` set (e_classes st)"
    using assms unfolding empty_state_def acts_ok_def by blast
  show "agree (base_now st) st" "good (base_now st) st (e_place st)" by (rule fresh_agree [OF P A])+
qed

lemma apply_fields: "reading st \<Longrightarrow> reading (st\<lparr>e_acts := a, e_blockConflicts := b, e_place := p\<rparr>)"
  "reading st \<Longrightarrow> reading (st\<lparr>e_acts := a, e_place := p\<rparr>)" "reading st \<Longrightarrow> reading (st\<lparr>e_blocks := bl\<rparr>)"
  by (simp_all add: reading_def)

lemma build_empty: "reading st \<Longrightarrow> empty_state (buildActivities st)"
  using build_acts_ok [of st] by (auto simp: empty_state_def buildActivities_def intro: apply_fields split: prod.splits)

lemma init_empty: "empty_state (init st)"
proof -
  have "reading (fold scan_class ls st)" if "reading st" for ls and st :: eng
    using that by (intro reading_fold) (simp_all add: scan_class_def reading_fold scan_cell_reading)
  note scan = this [OF reset_reading]
  have "empty_state (buildActivities (apply_off (fold scan_class (e_classes (reset_engine st)) (reset_engine st))))"
    by (intro build_empty apply_off_reading scan)
  then show ?thesis by (simp add: init_def Let_def clampLessonBlockRules_def empty_state_def reading_def)
qed

lemma acts_ok_mem: "acts_ok C acts \<Longrightarrow> a \<in> set acts \<Longrightarrow> 0 < ac_dur a \<and> ac_class a \<in> C \<and> \<not> ac_fixed a \<and> ac_init a = None"
  unfolding acts_ok_def by (metis in_set_conv_nth)

lemma renumber_ok:
  assumes "\<forall>a \<in> set as. 0 < ac_dur a \<and> ac_class a \<in> C \<and> \<not> ac_fixed a \<and> ac_init a = None"
  shows "acts_ok C (renumber as)"
  using assms by (auto simp: acts_ok_def renumber_def)

lemma sort_empty:
  assumes "empty_state st"
  shows "empty_state (computeDifficultiesAndSort st)"
proof -
  let ?C = "class_id ` set (e_classes st)"
  have "\<forall>a \<in> set (e_acts st). 0 < ac_dur a \<and> ac_class a \<in> ?C \<and> \<not> ac_fixed a \<and> ac_init a = None"
    using assms acts_ok_mem unfolding empty_state_def by blast
  then have "acts_ok ?C (renumber (sort_key (\<lambda>a. - int (ac_dur a)) (sort_key (\<lambda>a. - ac_ninc a)
      (map (\<lambda>a. a\<lparr>ac_ninc := difficulty st a\<rparr>) (e_acts st)))))" by (intro renumber_ok) auto
  then show ?thesis using assms
    by (auto simp: empty_state_def computeDifficultiesAndSort_def Let_def intro: apply_fields)
qed

subsection \<open>What reading leaves alone\<close>

definition header :: "eng \<Rightarrow> js \<times> js \<times> js list \<times> nat option \<times> nat set option \<times> rat option \<times> rat option
    \<times> (nat \<Rightarrow> int) \<times> int option" where
  "header st = (e_data st, e_opts st, e_classes st, e_holes st, e_permanent st, e_lockS1 st, e_lockGap2 st, e_clock st, e_deadline st)"

lemma header_fold: "(\<And>x st. header (f x st) = header st) \<Longrightarrow> header (fold f xs st) = header st"
  by (induction xs arbitrary: st) simp_all

lemma scan_header: "header (scan_class l st) = header st"
  unfolding scan_class_def by (rule header_fold) (simp add: scan_cell_def Let_def header_def)

lemma off_header:
  "header (class_off cm kv st) = header st" "header (teacher_off tv st) = header st"
  "header (room_off rv st) = header st" "header (subject_off sv st) = header st"
  unfolding class_off_def teacher_off_def room_off_def subject_off_def Let_def
  by (rule header_fold, simp add: header_def)+

lemma apply_off_header: "header (apply_off st) = header st"
  unfolding apply_off_def Let_def by (simp add: header_fold off_header)

definition school_classes :: "js \<Rightarrow> js list" where
  "school_classes data = filter real_class (array_of (jprop data ''lop''))"

lemma init_header:
  "header (init st) = (e_data st, e_opts st, school_classes (e_data st), e_holes st, e_permanent st, e_lockS1 st, e_lockGap2 st,
     e_clock st, e_deadline st)"
proof -
  have "header (init st) = header (reset_engine st)"
    by (simp add: init_def Let_def clampLessonBlockRules_def buildActivities_def split_beta header_def [of "_\<lparr>e_blocks := _\<rparr>"]
      header_def [of "_\<lparr>e_acts := _, e_blockConflicts := _, e_place := _\<rparr>"])
      (simp add: header_def [symmetric] apply_off_header header_fold scan_header)
  then show ?thesis by (simp add: header_def reset_engine_def Let_def school_classes_def)
qed

end
