(* ===== verification/FeApply.thy ===== *)
theory FeApply
  imports FeBuild
begin

section \<open>FET engine: writing the timetable back and loading it again\<close>

text \<open>
  \<open>applyToDataTKB\<close>, \<open>getSnapshotTKB\<close>, \<open>loadExistingSchedule\<close> and \<open>canLoadPlacement\<close>. Assigning to
  \<open>data.tkb[cid][thu][buoi][ti]\<close> is an update along a path of the data object; assigning past the end of
  an array leaves holes, which read as \<open>undefined\<close>. The best placement that \<open>optimize\<close> may have put
  in \<open>checkpointGuard\<close> is an argument of the snapshot.
\<close>

subsection \<open>Updating the data object\<close>

fun jput :: "ustr \<Rightarrow> js \<Rightarrow> js \<Rightarrow> js" where
  "jput k v (JObj kvs) = JObj (AList.update k v kvs)"
| "jput k v other = other"

fun jupd :: "ustr list \<Rightarrow> (js \<Rightarrow> js) \<Rightarrow> js \<Rightarrow> js" where
  "jupd [] f v = f v"
| "jupd (k # ks) f v = jput k (jupd ks f (jget v k)) v"

fun jset_idx :: "nat \<Rightarrow> js \<Rightarrow> js \<Rightarrow> js" where
  "jset_idx i v (JArr xs) = JArr (if i < length xs then xs[i := v] else xs @ replicate (i - length xs) JUndef @ [v])"
| "jset_idx i v other = other"

definition or_new :: "js \<Rightarrow> js" where
  "or_new v = (if js_truthy v then v else JObj [])"

definition slot_path :: "ustr \<Rightarrow> nat \<Rightarrow> ustr list" where
  "slot_path cid s = [u ''tkb'', cid, sd_thu (slotToDetails s), sd_buoi (slotToDetails s)]"

definition write_cell :: "ustr \<Rightarrow> nat \<Rightarrow> js \<Rightarrow> js \<Rightarrow> js" where
  "write_cell cid s v = jupd (slot_path cid s) (jset_idx (sd_period (slotToDetails s)) v)"

subsection \<open>applyToDataTKB\<close>

definition five_nulls :: js where
  "five_nulls = JArr (replicate periods_per_session JNull)"

definition ensure_session :: "ustr \<Rightarrow> ustr \<Rightarrow> ustr \<Rightarrow> js \<Rightarrow> js" where
  "ensure_session cid thu buoi =
     jupd [u ''tkb'', cid, thu, buoi] (\<lambda>v. if is_array v then v else five_nulls)"

definition ensure_day :: "ustr \<Rightarrow> ustr \<Rightarrow> js \<Rightarrow> js" where
  "ensure_day cid thu data = fold (ensure_session cid thu) sessions_list (jupd [u ''tkb'', cid, thu] or_new data)"

definition ensure_class :: "ustr \<Rightarrow> js \<Rightarrow> js" where
  "ensure_class cid data = fold (ensure_day cid) days_list (jupd [u ''tkb'', cid] or_new data)"

definition ensure_tables :: "js \<Rightarrow> js" where
  "ensure_tables data = jupd [u ''tkbLessonRooms''] or_new (jupd [u ''tkbLessonTeachers''] or_new (jupd [u ''tkb''] or_new data))"

definition blank_cell :: "eng \<Rightarrow> ustr \<Rightarrow> nat \<Rightarrow> js" where
  "blank_cell st cid s = (case map_of (e_raw st) (cid, s) of Some raw \<Rightarrow> raw
     | None \<Rightarrow> if (cid, s) \<in> e_off st then JStr (u ''OFF'') else JNull)"

definition blank_class :: "eng \<Rightarrow> ustr \<Rightarrow> js \<Rightarrow> js" where
  "blank_class st cid data = fold (\<lambda>s. write_cell cid s (blank_cell st cid s)) [0..<total_slots] data"

definition protected_cell :: "eng \<Rightarrow> ustr \<Rightarrow> nat \<Rightarrow> bool" where
  "protected_cell st cid s \<longleftrightarrow> map_of (e_raw st) (cid, s) \<noteq> None \<or> (cid, s) \<in> e_off st"

definition write_period :: "eng \<Rightarrow> act \<Rightarrow> nat \<Rightarrow> js \<Rightarrow> js" where
  "write_period st a s data =
     (if protected_cell st (ac_class a) s then data
      else let key = bar_key (ac_class a) (ac_mon a);
               d1 = write_cell (ac_class a) s (JStr (ac_mon a)) data;
               d2 = (if ac_gv a = [] then d1 else jupd [u ''tkbLessonTeachers''] (jput key (JStr (ac_gv a))) d1)
           in if ac_room a = [] then d2 else jupd [u ''tkbLessonRooms''] (jput key (JStr (ac_room a))) d2)"

definition write_act :: "eng \<Rightarrow> act \<Rightarrow> js \<Rightarrow> js" where
  "write_act st a data = (case e_place st ! ac_id a of None \<Rightarrow> data
     | Some p \<Rightarrow> fold (write_period st a) (slots_from p (ac_dur a)) data)"

text \<open>A lesson of the loaded timetable that found no place goes back to its own cell when that is empty.\<close>

definition give_back :: "eng \<Rightarrow> act \<Rightarrow> nat \<times> js \<Rightarrow> js \<Rightarrow> js" where
  "give_back st a sr data =
     (let d = slotToDetails (fst sr); row = jget (jget (jget (jprop data ''tkb'') (ac_class a)) (sd_thu d)) (sd_buoi d);
          cur = jidx row (sd_period d)
      in if protected_cell st (ac_class a) (fst sr) \<or> \<not> is_array row then data
         else if nullish cur \<or> cur = JStr [] then write_cell (ac_class a) (fst sr) (snd sr) data else data)"

definition restore_act :: "eng \<Rightarrow> act \<Rightarrow> js \<Rightarrow> js" where
  "restore_act st a data =
     (case (e_place st ! ac_id a, ac_init a) of
        (None, Some s) \<Rightarrow> if js_truthy (ac_raw a)
          then fold (give_back st a) ((s, ac_raw a) # (if ac_dur a = 2 \<and> js_truthy (ac_raw2 a) then [(s + 1, ac_raw2 a)] else [])) data
          else data
      | _ \<Rightarrow> data)"

definition timetable_of :: "eng \<Rightarrow> js \<Rightarrow> js" where
  "timetable_of st data =
     (let ids = map class_id (e_classes st);
          d1 = fold ensure_class ids (ensure_tables data);
          d2 = fold (blank_class st) ids d1;
          d3 = fold (write_act st) (e_acts st) d2
      in fold (restore_act st) (e_acts st) d3)"

definition applyToDataTKB :: "eng \<Rightarrow> eng" where
  "applyToDataTKB st = st\<lparr>e_data := timetable_of st (e_data st)\<rparr>"

subsection \<open>Snapshots\<close>

record snapshot =
  sn_place :: "nat option list"
  sn_c :: rows
  sn_t :: rows
  sn_r :: rows

definition captureStateSnapshot :: "eng \<Rightarrow> snapshot" where
  "captureStateSnapshot st = \<lparr>sn_place = e_place st, sn_c = e_cgrid st, sn_t = e_tgrid st, sn_r = e_rgrid st\<rparr>"

definition restoreStateSnapshot :: "snapshot \<Rightarrow> eng \<Rightarrow> eng" where
  "restoreStateSnapshot sn st = st\<lparr>e_place := sn_place sn, e_cgrid := sn_c sn, e_tgrid := sn_t sn, e_rgrid := sn_r sn\<rparr>"

text \<open>\<open>JSON.parse(JSON.stringify(v))\<close>: \<open>undefined\<close> is dropped from objects and becomes \<open>null\<close> in arrays.\<close>

fun json_clone :: "js \<Rightarrow> js" where
  "json_clone (JArr xs) = JArr (map (\<lambda>x. if x = JUndef then JNull else json_clone x) xs)"
| "json_clone (JObj kvs) = JObj (map (\<lambda>(k, v). (k, json_clone v)) (filter (\<lambda>(k, v). v \<noteq> JUndef) kvs))"
| "json_clone v = v"

definition getSnapshotTKB :: "snapshot option \<Rightarrow> eng \<Rightarrow> js \<times> eng" where
  "getSnapshotTKB guard st =
     (case guard of
        Some g \<Rightarrow> let st1 = applyToDataTKB (restoreStateSnapshot g st)
                  in (json_clone (jprop (e_data st1) ''tkb''), restoreStateSnapshot (captureStateSnapshot st) st1)
      | None \<Rightarrow> let st1 = applyToDataTKB st in (json_clone (jprop (e_data st1) ''tkb''), st1))"

subsection \<open>Loading a stored timetable\<close>

definition movable_cell :: "js \<Rightarrow> bool" where
  "movable_cell cell \<longleftrightarrow> js_truthy cell \<and> \<not> isCellOff cell \<and> \<not> isCellFixed cell"

definition pair_rule :: "eng \<Rightarrow> js \<Rightarrow> ustr \<Rightarrow> bool" where
  "pair_rule st lop canon = (case block_rule_of st lop canon 2 of Some req \<Rightarrow> br_min req > 0 | None \<Rightarrow> False)"

definition block_len :: "eng \<Rightarrow> js \<Rightarrow> nat \<Rightarrow> nat" where
  "block_len st lop s =
     (let data = e_data st; cell = stored_cell data (class_id lop) s; nxt = stored_cell data (class_id lop) (s + 1);
          canon = getCanonMonKey data (extractMon cell)
      in if sd_period (slotToDetails s) + 1 < periods_per_session \<and> movable_cell nxt
            \<and> getCanonMonKey data (extractMon nxt) = canon \<and> pair_rule st lop canon then 2 else 1)"

definition loaded_act :: "eng \<Rightarrow> js \<Rightarrow> nat \<Rightarrow> nat \<Rightarrow> nat \<Rightarrow> act" where
  "loaded_act st lop s n len =
     (let data = e_data st; cell = stored_cell data (class_id lop) s; mon = extractMon cell;
          nxt = stored_cell data (class_id lop) (s + 1)
      in \<lparr>ac_id = n, ac_class = class_id lop, ac_classCanon = class_canon lop, ac_lop = lop, ac_mon = mon,
          ac_canon = getCanonMonKey data mon, ac_gv = getTeacherForClassMon data lop mon,
          ac_room = getRoomForClassMon data lop mon, ac_dur = len, ac_fixed = False, ac_ninc = 0, ac_init = Some s,
          ac_raw = cell, ac_raw2 = (if len = 2 then (if nullish nxt then JNull else nxt) else JNull)\<rparr>)"

text \<open>The cells of one half day from a position on, at most five.\<close>

function load_cells :: "eng \<Rightarrow> js \<Rightarrow> nat \<Rightarrow> nat \<Rightarrow> act list \<Rightarrow> act list" where
  "load_cells st lop s 0 acts = acts"
| "load_cells st lop s (Suc k) acts =
     (if \<not> movable_cell (stored_cell (e_data st) (class_id lop) s) then load_cells st lop (s + 1) k acts
      else let len = block_len st lop s; acts' = acts @ [loaded_act st lop s (length acts) len]
           in load_cells st lop (s + len) (Suc k - len) acts')"
  by pat_completeness auto
termination
  by (relation "measure (\<lambda>(st, lop, s, k, acts). k)") (auto simp: block_len_def Let_def)

definition load_class :: "eng \<Rightarrow> js \<Rightarrow> act list \<Rightarrow> act list" where
  "load_class st lop acts =
     fold (\<lambda>b. load_cells st lop (b * periods_per_session) periods_per_session) [0..<total_slots div periods_per_session] acts"

definition free_cell :: "eng \<Rightarrow> act \<Rightarrow> nat \<Rightarrow> bool" where
  "free_cell st a s \<longleftrightarrow> s < total_slots \<and> (ac_class a, s) \<notin> e_off st \<and> map_of (e_fixed st) (ac_class a, s) = None
     \<and> map_of (e_cgrid st) (ac_class a) \<noteq> None \<and> cell_at (e_cgrid st) (ac_class a) s = GFree
     \<and> list_all (\<lambda>t. (t, s) \<notin> e_toff st \<and> cell_at (e_tgrid st) t s = GFree) (act_teachers a)
     \<and> (ac_room a \<noteq> [] \<longrightarrow> cell_at (e_rgrid st) (room_key a) s = GFree)"

definition canLoadPlacement :: "eng \<Rightarrow> act \<Rightarrow> nat \<Rightarrow> bool" where
  "canLoadPlacement st a slot \<longleftrightarrow> list_all (free_cell st a) (slots_from slot (if ac_dur a = 0 then 1 else ac_dur a))"

definition load_place :: "act \<Rightarrow> eng \<Rightarrow> eng" where
  "load_place a st = (case ac_init a of None \<Rightarrow> st
     | Some s \<Rightarrow> if canLoadPlacement st a s then placeActivityDirect (ac_id a) s st else st)"

definition loadExistingSchedule :: "eng \<Rightarrow> eng" where
  "loadExistingSchedule st =
     (let st1 = init st; acts = fold (load_class st1) (e_classes st1) [];
          st2 = st1\<lparr>e_acts := acts, e_place := replicate (length acts) None\<rparr>
      in fold load_place acts st2)"

end
