(* ===== verification/FeSolve.thy ===== *)
theory FeSolve
  imports FeSwap FeApply
begin

section \<open>FET engine: the construction\<close>

text \<open>
  \<open>solve()\<close>: read the data, place every activity by recursive swapping, up to twenty more passes over
  what is left, the last-mile repair, and the timetable written back. What the progress callback is
  given is collected in a list; without a callback the list stays empty.
\<close>

subsection \<open>Capacity reports\<close>

record capacity_row =
  cr_name :: ustr
  cr_label :: ustr
  cr_need :: nat
  cr_free :: nat
  cr_deficit :: nat

type_synonym report = "nat \<times> capacity_row list"

definition dur_or_1 :: "act \<Rightarrow> nat" where
  "dur_or_1 a = (if ac_dur a = 0 then 1 else ac_dur a)"

definition demand_by :: "(act \<Rightarrow> ustr list) \<Rightarrow> act list \<Rightarrow> (ustr \<times> nat) list" where
  "demand_by keys acts = fold (\<lambda>a m. fold (\<lambda>k. bump k (dur_or_1 a)) (keys a) m) (filter (\<lambda>a. \<not> ac_fixed a) acts) []"

definition report_of :: "(ustr \<Rightarrow> nat) \<Rightarrow> (ustr \<Rightarrow> ustr) \<Rightarrow> (ustr \<times> nat) list \<Rightarrow> report" where
  "report_of free label demand =
     (let rows = List.map_filter (\<lambda>(k, need). if need > free k
                   then Some \<lparr>cr_name = k, cr_label = label k, cr_need = need, cr_free = free k, cr_deficit = need - free k\<rparr> else None) demand
      in (sum_list (map cr_deficit rows), sort_key (\<lambda>r. - int (cr_deficit r)) rows))"

definition free_class_cells :: "eng \<Rightarrow> ustr \<Rightarrow> nat" where
  "free_class_cells st c = (if map_of (e_cgrid st) c = None then 0
     else length (filter (\<lambda>s. cell_at (e_cgrid st) c s = GFree) [0..<total_slots]))"

definition class_label :: "eng \<Rightarrow> ustr \<Rightarrow> ustr" where
  "class_label st c = (case List.find (\<lambda>l. class_id l = c) (e_classes st) of
     Some l \<Rightarrow> js_string (js_or (jprop l ''ten2'') (js_or (jprop l ''ten'') (JStr c))) | None \<Rightarrow> c)"

definition computeClassCapacityReport :: "eng \<Rightarrow> report" where
  "computeClassCapacityReport st =
     report_of (free_class_cells st) (class_label st) (demand_by (\<lambda>a. if ac_class a = [] then [] else [ac_class a]) (e_acts st))"

definition classes_of :: "eng \<Rightarrow> ustr \<Rightarrow> ustr list" where
  "classes_of st t = remdups (map ac_class (filter (\<lambda>a. \<not> ac_fixed a \<and> t \<in> set (act_teachers a)) (e_acts st)))"

definition open_slots :: "eng \<Rightarrow> ustr \<Rightarrow> nat list" where
  "open_slots st t = filter (\<lambda>s. cell_at (e_tgrid st) t s = GFree
     \<and> list_ex (\<lambda>c. map_of (e_cgrid st) c \<noteq> None \<and> cell_at (e_cgrid st) c s = GFree) (classes_of st t)) [0..<total_slots]"

definition computeTeacherCapacityReport :: "eng \<Rightarrow> report" where
  "computeTeacherCapacityReport st =
     report_of (\<lambda>t. length (open_slots st t)) (\<lambda>t. nat_str (length (classes_of st t))) (demand_by act_teachers (e_acts st))"

subsection \<open>Progress\<close>

record progress =
  pr_percent :: int
  pr_placed :: nat
  pr_total :: nat

text \<open>The code indexes the activities by the position in the filtered list of slots.\<close>

definition placedNow :: "eng \<Rightarrow> nat" where
  "placedNow st = sum_list (map (\<lambda>idx. if idx < length (e_acts st) then dur_or_1 (e_acts st ! idx) else 1)
     [0..<length (filter (\<lambda>p. p \<noteq> None) (e_place st))])"

definition totalLessons :: "eng \<Rightarrow> nat" where
  "totalLessons st = sum_list (map ac_dur (e_acts st))"

definition progress_now :: "bool \<Rightarrow> eng \<Rightarrow> progress" where
  "progress_now building st = \<lparr>pr_percent = (if building
       then min 85 (math_round (of_nat (placedNow st) / of_nat (max 1 (totalLessons st)) * 85)) else 90),
     pr_placed = placedNow st, pr_total = totalLessons st\<rparr>"

subsection \<open>Placing the activities\<close>

definition date_now :: "eng \<Rightarrow> int \<times> eng" where
  "date_now st = (e_clock st (e_ticks st), st\<lparr>e_ticks := Suc (e_ticks st)\<rparr>)"

definition fresh_swap :: "nat list option \<Rightarrow> nat \<Rightarrow> eng \<Rightarrow> bool \<times> eng" where
  "fresh_swap restrict i st = randomSwap 0 restrict i (st\<lparr>e_calls := 0\<rparr>)"

definition place_first :: "bool \<Rightarrow> nat \<Rightarrow> progress list \<times> eng \<Rightarrow> progress list \<times> eng" where
  "place_first cb i ls =
     (if e_place (snd ls) ! ac_id (e_acts (snd ls) ! i) \<noteq> None then ls
      else let st1 = snd (fresh_swap None (ac_id (e_acts (snd ls) ! i)) (snd ls))
           in (fst ls @ (if cb \<and> (i mod 5 = 0 \<or> i = length (e_acts st1) - 1) then [progress_now True st1] else []), st1))"

definition unplaced_acts :: "eng \<Rightarrow> act list" where
  "unplaced_acts st = filter (\<lambda>a. e_place st ! ac_id a = None) (e_acts st)"

definition time_over :: "eng \<Rightarrow> bool \<times> eng" where
  "time_over st = (if e_hit st then (True, st)
     else case e_deadline st of None \<Rightarrow> (False, st)
       | Some d \<Rightarrow> (case date_now st of (t, st1) \<Rightarrow> (t > d, st1\<lparr>e_hit := (t > d)\<rparr>)))"

definition call_limit :: "eng \<Rightarrow> nat" where
  "call_limit st = max 8000 (10 * length (e_acts st))"

text \<open>The passes over what is left; the second argument counts the passes that remain of twenty.\<close>

fun more_passes :: "bool \<Rightarrow> nat \<Rightarrow> nat \<Rightarrow> progress list \<times> eng \<Rightarrow> progress list \<times> eng" where
  "more_passes cb deficit 0 ls = ls"
| "more_passes cb deficit (Suc k) ls =
     (let st = snd ls; left = unplaced_acts st; pass = 19 - k
      in if left = [] then ls
         else case time_over st of (late, st1) \<Rightarrow>
           if late then (fst ls, st1)
           else if deficit > 0 \<and> sum_list (map dur_or_1 left) \<le> deficit then (fst ls, st1)
           else let st2 = st1\<lparr>e_strict := pass < 6, e_mintwo := e_mintwo st1 \<and> pass < 6,
                              e_limit := call_limit st1 * (1 + min 4 (pass div 4))\<rparr>;
                    st3 = fold (\<lambda>a st. snd (fresh_swap None (ac_id a) st)) left st2
                in more_passes cb deficit k (fst ls @ (if cb then [progress_now False st3] else []), st3))"

text \<open>The cells of the class that hold a lesson while all teachers of the activity are free.\<close>

definition last_mile_slots :: "eng \<Rightarrow> act \<Rightarrow> nat list" where
  "last_mile_slots st a = filter (\<lambda>s. (case cell_at (e_cgrid st) (ac_class a) s of GAct _ \<Rightarrow> True | _ \<Rightarrow> False)
     \<and> list_all (\<lambda>t. cell_at (e_tgrid st) t s = GFree) (act_teachers a)) [0..<total_slots]"

fun last_mile :: "act list \<Rightarrow> nat \<times> eng \<Rightarrow> nat \<times> eng" where
  "last_mile [] r = r"
| "last_mile (a # as) (n, st) =
     (case time_over st of (late, st1) \<Rightarrow>
        if late then (n, st1)
        else let slots = last_mile_slots st1 a
             in if map_of (e_cgrid st1) (ac_class a) = None \<or> slots = [] then last_mile as (n, st1)
                else case fet_shuffle slots (e_rng st1) of (order, rng) \<Rightarrow>
                  case fresh_swap (Some order) (ac_id a) (st1\<lparr>e_rng := rng, e_limit := max 40000 (40 * length (e_acts st1))\<rparr>) of
                    (ok, st2) \<Rightarrow> last_mile as (if ok then n + 1 else n, st2))"

definition lastMileEjectionRepair :: "eng \<Rightarrow> nat \<times> eng" where
  "lastMileEjectionRepair st = last_mile (filter (\<lambda>a. \<not> ac_fixed a) (unplaced_acts st)) (0, st)"

subsection \<open>solve\<close>

record solve_result =
  sr_ok :: bool
  sr_placed :: nat
  sr_unassigned :: nat
  sr_total :: nat
  sr_deadlineHit :: bool
  sr_capacity :: report
  sr_teacher :: report
  sr_blockConflicts :: "block_conflict list"

definition budget_ms :: "js \<Rightarrow> rat" where
  "budget_ms opts = (case js_number (jprop opts ''solveBudgetMs'') of Some q \<Rightarrow> (if q > 0 then q else 60000) | None \<Rightarrow> 60000)"

definition prepare :: "eng \<Rightarrow> eng" where
  "prepare st =
     (let st1 = init (st\<lparr>e_holes := None\<rparr>); (t, st2) = date_now st1;
          st3 = computeDifficultiesAndSort (st2\<lparr>e_deadline := Some (t + \<lfloor>budget_ms (e_opts st2)\<rfloor>), e_hit := False, e_strict := True\<rparr>)
      in st3\<lparr>e_weekly := Some (computeTeacherWeeklyLoad st3), e_mintwo := (jprop (e_opts st3) ''minTwoGuard'' = JBool True),
             e_limit := call_limit st3\<rparr>)"

definition placed_periods :: "eng \<Rightarrow> nat" where
  "placed_periods st = sum_list (map2 (\<lambda>p a. if p \<noteq> None then ac_dur a else 0) (e_place st) (e_acts st))"

definition unplaced_periods :: "eng \<Rightarrow> nat" where
  "unplaced_periods st = sum_list (map2 (\<lambda>p a. if p = None then ac_dur a else 0) (e_place st) (e_acts st))"

definition capped :: "report \<Rightarrow> report" where
  "capped r = (fst r, take 20 (snd r))"

text \<open>The two reports are made of the freshly read engine, before the activities are sorted.\<close>

definition constructed :: "bool \<Rightarrow> eng \<Rightarrow> progress list \<times> eng" where
  "constructed cb st =
     (let st0 = prepare st;
          deficit = fst (computeClassCapacityReport (init (st\<lparr>e_holes := None\<rparr>)));
          (log, st1) = more_passes cb deficit 20 (fold (place_first cb) [0..<length (e_acts st0)] ([], st0))
      in (log, snd (lastMileEjectionRepair (st1\<lparr>e_mintwo := False\<rparr>))))"

definition solve :: "bool \<Rightarrow> eng \<Rightarrow> solve_result \<times> progress list \<times> eng" where
  "solve cb st =
     (let st0 = init (st\<lparr>e_holes := None\<rparr>); (log, st1) = constructed cb st; st2 = applyToDataTKB st1;
          placed = placed_periods st2 + length (e_fixed st2); unassigned = unplaced_periods st2
      in (\<lparr>sr_ok = (unassigned = 0), sr_placed = placed, sr_unassigned = unassigned, sr_total = placed + unassigned,
            sr_deadlineHit = e_hit st2, sr_capacity = capped (computeClassCapacityReport st0),
            sr_teacher = capped (computeTeacherCapacityReport st0), sr_blockConflicts = take 20 (e_blockConflicts st2)\<rparr>, log, st2))"

end
