(* ===== verification/FeSolveOk.thy ===== *)
theory FeSolveOk
  imports FeInitOk FeSolve
begin

section \<open>FET engine: the construction keeps the timetable consistent\<close>

text \<open>
  Every pass of \<open>solve\<close> keeps the grids in step with a clash-free placement and never takes a placed
  activity off again: \<open>keeps\<close> composes, holds of one call of \<open>randomSwap\<close>, and so of the loops.
\<close>

definition consistent :: "fe_base \<Rightarrow> eng \<Rightarrow> bool" where
  "consistent B st \<longleftrightarrow> agree B st \<and> good B st (e_place st)"

definition keeps :: "fe_base \<Rightarrow> eng \<Rightarrow> eng \<Rightarrow> bool" where
  "keeps B st st' \<longleftrightarrow> consistent B st' \<and> sig st' = sig st \<and> placed st \<subseteq> placed st'"

lemma consistent_cong: "sig st' = sig st \<Longrightarrow> grids st' = grids st \<Longrightarrow> consistent B st' = consistent B st"
  using agree_cong [of st st' B] good_cong [of st st' B] by (simp add: consistent_def grids_def)

lemma keeps_refl: "consistent B st \<Longrightarrow> keeps B st st"
  by (simp add: keeps_def)

lemma keeps_trans: "keeps B st st1 \<Longrightarrow> keeps B st1 st2 \<Longrightarrow> keeps B st st2"
  by (auto simp: keeps_def)

lemma keepsD: "keeps B st st' \<Longrightarrow> consistent B st'" "keeps B st st' \<Longrightarrow> e_acts st' = e_acts st"
  by (simp_all add: keeps_def sig_def)

lemma grids_placed: "grids st' = grids st \<Longrightarrow> placed st' = placed st"
  by (simp add: grids_def placed_def)

text \<open>A change of the control fields, before or after.\<close>

lemma keeps_ctrl:
  assumes "keeps B st st'" "sig st'' = sig st'" "grids st'' = grids st'"
  shows "keeps B st st''"
  using assms consistent_cong [OF assms(2,3), of B] grids_placed [OF assms(3)] by (simp add: keeps_def)

lemma keeps_from:
  assumes "keeps B st0 st'" "sig st0 = sig st" "grids st0 = grids st"
  shows "keeps B st st'"
  using assms grids_placed [OF assms(3)] by (simp add: keeps_def)

lemma swap_keeps: "swap_result B i st r \<Longrightarrow> keeps B st (snd r)"
  by (cases "fst r") (auto simp: swap_result_def keeps_def consistent_def placed_def)

lemma fresh_swap_keeps:
  assumes "consistent B st" "i < length (e_acts st)" "\<forall>s \<in> set (all_slots_of restrict). s < total_slots"
  shows "keeps B st (snd (fresh_swap restrict i st))"
proof -
  have s: "sig (st\<lparr>e_calls := 0\<rparr>) = sig st" "grids (st\<lparr>e_calls := 0\<rparr>) = grids st" by (simp_all add: sig_def grids_def)
  have "consistent B (st\<lparr>e_calls := 0\<rparr>)" using consistent_cong [OF s] assms(1) by simp
  then have "swap_result B i (st\<lparr>e_calls := 0\<rparr>) (fresh_swap restrict i st)"
    unfolding fresh_swap_def using assms(2,3) by (intro randomSwap_ok) (simp_all add: consistent_def)
  from keeps_from [OF swap_keeps [OF this] s] show ?thesis .
qed

lemma every_slot: "\<forall>s \<in> set (all_slots_of None). s < total_slots"
  by (simp add: all_slots_of_def)

lemma act_ids: "consistent B st \<Longrightarrow> a \<in> set (e_acts st) \<Longrightarrow> ac_id a < length (e_acts st)"
  unfolding consistent_def by (metis agreeD(2) in_set_conv_nth)

lemma keeps_fold:
  assumes "consistent B st" and "\<And>x st'. x \<in> set xs \<Longrightarrow> keeps B st st' \<Longrightarrow> keeps B st' (f x st')"
  shows "keeps B st (fold f xs st)"
  by (rule fold_invariant [where P = "keeps B st" and Q = "\<lambda>x. x \<in> set xs"])
    (use assms keeps_refl keeps_trans in blast)+

subsection \<open>The first pass\<close>

lemma place_first_keeps:
  assumes "consistent B (snd ls)" "i < length (e_acts (snd ls))"
  shows "keeps B (snd ls) (snd (place_first cb i ls))"
proof -
  have "ac_id (e_acts (snd ls) ! i) < length (e_acts (snd ls))" using act_ids [OF assms(1)] assms(2) by simp
  from fresh_swap_keeps [OF assms(1) this every_slot] show ?thesis
    using keeps_refl [OF assms(1)] by (simp add: place_first_def Let_def)
qed

lemma first_pass_keeps:
  assumes "consistent B st" "\<forall>i \<in> set is. i < length (e_acts st)"
  shows "keeps B st (snd (fold (place_first cb) is (trace, st)))"
proof (rule fold_invariant [where P = "\<lambda>ls. keeps B st (snd ls)" and Q = "\<lambda>i. i < length (e_acts st)"])
  fix i and ls :: "progress list \<times> eng"
  assume i: "i < length (e_acts st)" and k: "keeps B st (snd ls)"
  have "keeps B (snd ls) (snd (place_first cb i ls))" using place_first_keeps keepsD [OF k] i by simp
  with k show "keeps B st (snd (place_first cb i ls))" by (rule keeps_trans)
qed (use assms keeps_refl in simp_all)

subsection \<open>The other passes\<close>

lemma time_over_fields:
  "sig (snd (time_over st)) = sig st" "grids (snd (time_over st)) = grids st" "e_acts (snd (time_over st)) = e_acts st"
  by (auto simp: time_over_def date_now_def sig_def grids_def split: option.splits)

lemma time_over_keeps: "consistent B st \<Longrightarrow> keeps B st (snd (time_over st))"
  by (rule keeps_ctrl [OF keeps_refl time_over_fields(1,2)])

lemma one_pass_keeps:
  assumes "consistent B st" "set left \<subseteq> set (e_acts st)"
  shows "keeps B st (fold (\<lambda>a st. snd (fresh_swap None (ac_id a) st)) left st)"
proof (rule keeps_fold [OF assms(1)])
  fix a st'
  assume "a \<in> set left" and k: "keeps B st st'"
  then have "ac_id a < length (e_acts st')" using act_ids [OF assms(1)] assms(2) keepsD(2) [OF k] by auto
  then show "keeps B st' (snd (fresh_swap None (ac_id a) st'))" by (rule fresh_swap_keeps [OF keepsD(1) [OF k] _ every_slot])
qed

lemma more_passes_keeps: "consistent B (snd ls) \<Longrightarrow> keeps B (snd ls) (snd (more_passes cb deficit n ls))"
proof (induction n arbitrary: ls)
  case 0
  then show ?case using keeps_refl by simp
next
  case (Suc n)
  define st where "st = snd ls"
  define left where "left = unplaced_acts st"
  obtain late st1 where t: "time_over st = (late, st1)" by (cases "time_over st")
  define st2 where "st2 = st1\<lparr>e_strict := 19 - n < 6, e_mintwo := e_mintwo st1 \<and> 19 - n < 6,
      e_limit := call_limit st1 * (1 + min 4 ((19 - n) div 4))\<rparr>"
  define st3 where "st3 = fold (\<lambda>a st. snd (fresh_swap None (ac_id a) st)) left st2"
  have con: "consistent B st" using Suc.prems by (simp add: st_def)
  have k1: "keeps B st st1" using time_over_keeps [OF con] t by simp
  have k2: "keeps B st st2" by (rule keeps_ctrl [OF k1]) (simp_all add: st2_def sig_def grids_def)
  have "set left \<subseteq> set (e_acts st2)" using keepsD(2) [OF k2] by (auto simp: left_def unplaced_acts_def)
  from keeps_trans [OF k2 one_pass_keeps [OF keepsD(1) [OF k2] this]] have k3: "keeps B st st3" by (simp add: st3_def)
  have "keeps B st (snd (more_passes cb deficit n (trace, st3)))" for trace
    using keeps_trans [OF k3] Suc.IH [of "(trace, st3)"] keepsD(1) [OF k3] by simp
  note later = this
  have "more_passes cb deficit (Suc n) ls = (if left = [] then ls else if late then (fst ls, st1)
      else if deficit > 0 \<and> sum_list (map dur_or_1 left) \<le> deficit then (fst ls, st1)
      else more_passes cb deficit n (fst ls @ (if cb then [progress_now False st3] else []), st3))"
    by (simp only: more_passes.simps Let_def st_def [symmetric] left_def [symmetric] t split st2_def [symmetric] st3_def [symmetric])
  then show ?case using k1 keeps_refl [OF con] later st_def by (metis snd_conv)
qed

subsection \<open>The last-mile repair\<close>

lemma last_mile_slots_bound: "s \<in> set (last_mile_slots st a) \<Longrightarrow> s < total_slots"
  by (simp add: last_mile_slots_def)

lemma shuffled_restrict:
  assumes "fet_shuffle slots rng = (order, rng')" "\<forall>s \<in> set slots. s < total_slots"
  shows "\<forall>s \<in> set (all_slots_of (Some order)). s < total_slots"
proof -
  have "\<forall>s \<in> set order. s < total_slots" using fet_shuffle_memD [OF assms(1)] assms(2) by blast
  then show ?thesis by (cases order) (simp_all add: all_slots_of_def)
qed

lemma last_mile_keeps:
  "consistent B (snd r) \<Longrightarrow> set as \<subseteq> set (e_acts (snd r)) \<Longrightarrow> keeps B (snd r) (snd (last_mile as r))"
proof (induction as arbitrary: r)
  case Nil
  then show ?case using keeps_refl by simp
next
  case (Cons a as)
  obtain n st where r: "r = (n, st)" by (cases r)
  have con: "consistent B st" and sub: "set (a # as) \<subseteq> set (e_acts st)" using Cons.prems r by simp_all
  obtain late st1 where t: "time_over st = (late, st1)" by (cases "time_over st")
  have k1: "keeps B st st1" using time_over_keeps [OF con] t by simp
  have ih: "keeps B st (snd (last_mile as (m, st')))" if "keeps B st st'" for m st'
    using keeps_trans [OF that] Cons.IH [of "(m, st')"] keepsD [OF that] sub by simp
  obtain order rng where sh: "fet_shuffle (last_mile_slots st1 a) (e_rng st1) = (order, rng)"
    by (cases "fet_shuffle (last_mile_slots st1 a) (e_rng st1)")
  define st2 where "st2 = st1\<lparr>e_rng := rng, e_limit := max 40000 (40 * length (e_acts st1))\<rparr>"
  have k2: "keeps B st st2" by (rule keeps_ctrl [OF k1]) (simp_all add: st2_def sig_def grids_def)
  have "ac_id a < length (e_acts st2)" using act_ids [OF con, of a] sub keepsD(2) [OF k2] by simp
  moreover have "\<forall>s \<in> set (all_slots_of (Some order)). s < total_slots"
    using shuffled_restrict [OF sh] last_mile_slots_bound by blast
  ultimately have k3: "keeps B st (snd (fresh_swap (Some order) (ac_id a) st2))"
    using keeps_trans [OF k2 fresh_swap_keeps [OF keepsD(1) [OF k2]]] by blast
  show ?case
    using ih [OF k1] ih [OF k3] k1
    by (cases "fresh_swap (Some order) (ac_id a) st2") (simp add: r t sh st2_def [symmetric] Let_def)
qed

subsection \<open>The whole construction\<close>

lemma prepare_empty: "empty_state (prepare st)"
proof -
  have f: "empty_state st" if "empty_state st0" "e_acts st = e_acts st0" "e_place st = e_place st0" "e_classes st = e_classes st0"
      "e_cgrid st = e_cgrid st0" "e_tgrid st = e_tgrid st0" "e_rgrid st = e_rgrid st0" "e_off st = e_off st0" "e_fixed st = e_fixed st0" "e_raw st = e_raw st0"
    for st0 st
    using that by (simp add: empty_state_def reading_def)
  have "empty_state (st'\<lparr>e_deadline := d, e_hit := h, e_strict := b\<rparr>)" if "empty_state st'" for st' d h b
    by (rule f [OF that]) simp_all
  then have "empty_state (computeDifficultiesAndSort (st'\<lparr>e_deadline := d, e_hit := h, e_strict := b\<rparr>))" if "empty_state st'" for st' d h b
    using sort_empty that by blast
  moreover have "empty_state (snd (date_now (init (st\<lparr>e_holes := None\<rparr>))))"
    by (rule f [OF init_empty]) (simp_all add: date_now_def)
  ultimately have "empty_state (computeDifficultiesAndSort ((snd (date_now (init (st\<lparr>e_holes := None\<rparr>))))\<lparr>e_deadline := d, e_hit := h, e_strict := b\<rparr>))" for d h b
    by blast
  from f [OF this] show ?thesis by (simp add: prepare_def Let_def split_beta)
qed

definition solve_base :: "eng \<Rightarrow> fe_base" where
  "solve_base st = base_now (prepare st)"

lemma prepare_consistent: "consistent (solve_base st) (prepare st)"
  unfolding solve_base_def consistent_def using empty_agree [OF prepare_empty] by blast

lemma constructed_keeps: "keeps (solve_base st) (prepare st) (snd (constructed cb st))"
proof -
  let ?B = "solve_base st" and ?s0 = "prepare st"
  let ?first = "fold (place_first cb) [0..<length (e_acts ?s0)] ([], ?s0)"
  let ?deficit = "fst (computeClassCapacityReport (init (st\<lparr>e_holes := None\<rparr>)))"
  obtain trace st1 where m: "more_passes cb ?deficit 20 ?first = (trace, st1)" by (cases "more_passes cb ?deficit 20 ?first")
  have k1: "keeps ?B ?s0 (snd ?first)" by (rule first_pass_keeps [OF prepare_consistent]) simp
  have k2: "keeps ?B ?s0 st1" using keeps_trans [OF k1 more_passes_keeps [OF keepsD(1) [OF k1], of cb ?deficit 20]] m by simp
  define st2 where "st2 = st1\<lparr>e_mintwo := False\<rparr>"
  have k3: "keeps ?B ?s0 st2" by (rule keeps_ctrl [OF k2]) (simp_all add: st2_def sig_def grids_def)
  have "keeps ?B st2 (snd (lastMileEjectionRepair st2))"
    unfolding lastMileEjectionRepair_def
    by (rule last_mile_keeps [of _ "(0, st2)", simplified]) (use keepsD(1) [OF k3] in \<open>auto simp: unplaced_acts_def\<close>)
  from keeps_trans [OF k3 this] show ?thesis
    by (simp only: constructed_def m Let_def split st2_def snd_conv)
qed

lemma constructed_consistent: "consistent (solve_base st) (snd (constructed cb st))"
  by (rule keepsD(1) [OF constructed_keeps])

text \<open>Every period of the activities is counted once, as placed or as unassigned.\<close>

lemma sum_map2_split:
  "length xs = length ys \<Longrightarrow>
     sum_list (map2 (\<lambda>p a. if P p then f a else 0) xs ys) + sum_list (map2 (\<lambda>p a. if \<not> P p then f a else 0) xs ys)
     = (sum_list (map f ys) :: nat)"
  by (induction xs ys rule: list_induct2) auto

lemma periods_split:
  assumes "length (e_place st) = length (e_acts st)"
  shows "placed_periods st + unplaced_periods st = totalLessons st"
  using sum_map2_split [OF assms, of "\<lambda>p. p \<noteq> None" ac_dur]
  unfolding placed_periods_def unplaced_periods_def totalLessons_def by simp

lemma solve_state: "snd (snd (solve cb st)) = applyToDataTKB (snd (constructed cb st))"
  by (simp add: solve_def Let_def split_beta)

text \<open>Writing the timetable back changes the data object only.\<close>

lemma consistent_data: "consistent B (st\<lparr>e_data := d\<rparr>) = consistent B st"
  unfolding consistent_def agree_def good_def open_cell_def by simp

lemma apply_same:
  "grids (applyToDataTKB st) = grids st" "placed (applyToDataTKB st) = placed st" "e_acts (applyToDataTKB st) = e_acts st"
  "e_raw (applyToDataTKB st) = e_raw st" "e_fixed (applyToDataTKB st) = e_fixed st" "e_off (applyToDataTKB st) = e_off st"
  "e_toff (applyToDataTKB st) = e_toff st" "e_holes (applyToDataTKB st) = e_holes st" "e_classes (applyToDataTKB st) = e_classes st"
  "e_cgrid (applyToDataTKB st) = e_cgrid st" "e_place (applyToDataTKB st) = e_place st"
  by (simp_all add: applyToDataTKB_def grids_def placed_def)

lemma solve_consistent: "consistent (solve_base st) (snd (snd (solve cb st)))"
  using constructed_consistent by (simp add: solve_state applyToDataTKB_def consistent_data)

lemma prepare_header: "e_data (prepare st) = e_data st" "e_classes (prepare st) = school_classes (e_data st)" "e_holes (prepare st) = None"
  using init_header [of "st\<lparr>e_holes := None\<rparr>"]
  by (simp_all add: prepare_def Let_def split_beta computeDifficultiesAndSort_def date_now_def header_def)

lemma constructed_fields:
  assumes "st1 = snd (constructed cb st)"
  shows "e_data st1 = e_data st" "e_classes st1 = school_classes (e_data st)" "e_holes st1 = None" "e_acts st1 = e_acts (prepare st)"
    "\<forall>k. map_of (e_raw st1) k \<noteq> None \<longrightarrow> map_of (e_fixed st1) k \<noteq> None"
    "acts_ok (class_id ` set (e_classes st1)) (e_acts st1)"
proof -
  have s: "sig st1 = sig (prepare st)" using constructed_keeps [of st cb] assms by (simp add: keeps_def)
  show "e_data st1 = e_data st" "e_classes st1 = school_classes (e_data st)" "e_holes st1 = None" "e_acts st1 = e_acts (prepare st)"
    using s prepare_header [of st] by (simp_all add: sig_def header_def)
  have e: "empty_state (prepare st)" by (rule prepare_empty)
  have r: "e_raw st1 = e_raw (prepare st)" "e_fixed st1 = e_fixed (prepare st)" "e_classes st1 = e_classes (prepare st)"
    "e_acts st1 = e_acts (prepare st)" using s by (simp_all add: sig_def)
  show "\<forall>k. map_of (e_raw st1) k \<noteq> None \<longrightarrow> map_of (e_fixed st1) k \<noteq> None"
    using e unfolding r empty_state_def reading_def by blast
  show "acts_ok (class_id ` set (e_classes st1)) (e_acts st1)" using e unfolding r empty_state_def by blast
qed

end
