(* ===== verification/FeMetrics.thy ===== *)
theory FeMetrics
  imports FeInit
begin

section \<open>FET engine: measuring a timetable\<close>

text \<open>
  \<open>evaluateMetrics\<close>, \<open>evaluateTeacherMetrics\<close>, \<open>evaluateTeacherLocalStats\<close>, the lists of residual
  sessions, the classification of single-period sessions, and the two comparisons of metrics.

  \<^item> A half day is a number below 12: day times two plus session.
  \<^item> \<open>getShiftBlock\<close> caches its first answer per class and reads the OFF cells only; activities never
    stand on those, so the cached value is the value of the function.
\<close>

record metrics =
  mt_singleDays :: nat
  mt_day1 :: nat
  mt_day2 :: nat
  mt_day3 :: nat
  mt_sessions :: nat
  mt_days :: nat
  mt_gap1 :: nat
  mt_gap2 :: nat

definition no_metrics :: metrics where
  "no_metrics = \<lparr>mt_singleDays = 0, mt_day1 = 0, mt_day2 = 0, mt_day3 = 0, mt_sessions = 0, mt_days = 0, mt_gap1 = 0, mt_gap2 = 0\<rparr>"

definition isScoredTeacher :: "eng \<Rightarrow> ustr \<Rightarrow> bool" where
  "isScoredTeacher st t = (case e_scored st of None \<Rightarrow> True | Some ts \<Rightarrow> t \<in> ts)"

definition half_taught :: "eng \<Rightarrow> ustr \<Rightarrow> nat \<Rightarrow> nat list" where
  "half_taught st t h = taken_in (e_tgrid st) t (h * periods_per_session) periods_per_session"

definition add_half :: "nat list \<Rightarrow> metrics \<Rightarrow> metrics" where
  "add_half ps m =
     (let k = length ps; gaps = span_of ps - k
      in if k = 0 then m
         else m\<lparr>mt_sessions := mt_sessions m + 1,
                mt_day1 := mt_day1 m + (if k = 1 then 1 else 0), mt_day2 := mt_day2 m + (if k = 2 then 1 else 0),
                mt_day3 := mt_day3 m + (if k = 3 then 1 else 0),
                mt_gap1 := mt_gap1 m + (if gaps = 1 then 1 else 0), mt_gap2 := mt_gap2 m + (if gaps \<ge> 2 then 1 else 0)\<rparr>)"

definition add_day :: "eng \<Rightarrow> ustr \<Rightarrow> nat \<Rightarrow> metrics \<Rightarrow> metrics" where
  "add_day st t d m =
     (let am = half_taught st t (2 * d); pm = half_taught st t (2 * d + 1); n = length am + length pm;
          m1 = add_half pm (add_half am m)
      in m1\<lparr>mt_days := mt_days m1 + (if n > 0 then 1 else 0), mt_singleDays := mt_singleDays m1 + (if n = 1 then 1 else 0)\<rparr>)"

definition add_teacher :: "eng \<Rightarrow> ustr \<Rightarrow> metrics \<Rightarrow> metrics" where
  "add_teacher st t m = fold (add_day st t) [0..<length days_list] m"

definition evaluateMetrics :: "eng \<Rightarrow> metrics" where
  "evaluateMetrics st = fold (add_teacher st) (filter (\<lambda>t. t \<noteq> [] \<and> isScoredTeacher st t) (map fst (e_tgrid st))) no_metrics"

definition evaluateTeacherMetrics :: "eng \<Rightarrow> ustr \<Rightarrow> metrics" where
  "evaluateTeacherMetrics st t = (if map_of (e_tgrid st) t = None \<or> \<not> isScoredTeacher st t then no_metrics
     else add_teacher st t no_metrics)"

record local_stats =
  ls_s1 :: nat
  ls_s2 :: nat
  ls_g1 :: nat
  ls_g2 :: nat
  ls_sessions :: nat

definition add_local :: "nat list \<Rightarrow> local_stats \<Rightarrow> local_stats" where
  "add_local ps l =
     (let k = length ps
      in l\<lparr>ls_sessions := ls_sessions l + (if k > 0 then 1 else 0), ls_s1 := ls_s1 l + (if k = 1 then 1 else 0),
           ls_s2 := ls_s2 l + (if k = 2 then 1 else 0),
           ls_g1 := ls_g1 l + (if k > 2 then length (filter (\<lambda>g. g = 1) (gaps_between ps)) else 0),
           ls_g2 := ls_g2 l + (if k > 2 then length (filter (\<lambda>g. g = 2) (gaps_between ps)) else 0)\<rparr>)"

definition evaluateTeacherLocalStats :: "eng \<Rightarrow> ustr \<Rightarrow> local_stats" where
  "evaluateTeacherLocalStats st t =
     (let zero = \<lparr>ls_s1 = 0, ls_s2 = 0, ls_g1 = 0, ls_g2 = 0, ls_sessions = 0\<rparr>
      in if t = [] \<or> \<not> isScoredTeacher st t \<or> map_of (e_tgrid st) t = None then zero
         else fold (\<lambda>h. add_local (half_taught st t h)) [0..<total_slots div periods_per_session] zero)"

subsection \<open>Residual sessions\<close>

record residual =
  rs_teacher :: ustr
  rs_day :: ustr
  rs_session :: ustr
  rs_class :: ustr
  rs_mon :: ustr
  rs_weekly :: nat
  rs_reason :: ustr

definition half_day_name :: "nat \<Rightarrow> ustr \<times> ustr" where
  "half_day_name h = (days_list ! (h div 2), sessions_list ! (h mod 2))"

definition residual_at :: "eng \<Rightarrow> ustr \<Rightarrow> nat \<Rightarrow> residual list" where
  "residual_at st t h =
     (let ps = half_taught st t h; weekly = length (taken_in (e_tgrid st) t 0 total_slots)
      in case ps of
           [p] \<Rightarrow> (let (c, mon) = (case cell_at (e_tgrid st) t (h * periods_per_session + p) of
                       GAct i \<Rightarrow> (if i < length (e_acts st) then (ac_class (e_acts st ! i), ac_mon (e_acts st ! i)) else (u ''FIXED'', u ''FIXED''))
                     | _ \<Rightarrow> (u ''FIXED'', u ''FIXED''))
                   in [\<lparr>rs_teacher = t, rs_day = fst (half_day_name h), rs_session = snd (half_day_name h), rs_class = c, rs_mon = mon,
                        rs_weekly = weekly, rs_reason = (if weekly = 1 then u ''teacher-only-1-period-total-in-week''
                                                         else u ''constrained-schedule-density'')\<rparr>])
         | _ \<Rightarrow> [])"

definition getResidualSingletons :: "eng \<Rightarrow> residual list" where
  "getResidualSingletons st = concat (map (\<lambda>t. concat (map (residual_at st t) [0..<total_slots div periods_per_session]))
     (filter (\<lambda>t. t \<noteq> [] \<and> isScoredTeacher st t) (map fst (e_tgrid st))))"

text \<open>The test of the code on the classes of the two lessons is constantly true.\<close>

definition getResidual2PeriodSessions :: "eng \<Rightarrow> (ustr \<times> ustr \<times> ustr \<times> ustr) list" where
  "getResidual2PeriodSessions st = concat (map (\<lambda>t. List.map_filter (\<lambda>h.
       if length (half_taught st t h) = 2
       then Some (t, fst (half_day_name h), snd (half_day_name h), u ''class-fixed-halfday-shift'') else None)
     [0..<total_slots div periods_per_session]) (filter (\<lambda>t. t \<noteq> []) (map fst (e_tgrid st))))"

subsection \<open>Single-period sessions\<close>

definition off_in :: "eng \<Rightarrow> ustr \<Rightarrow> nat \<Rightarrow> nat" where
  "off_in st c b = length (filter (\<lambda>s. s mod slots_per_day div periods_per_session = b
     \<and> (cell_at (e_cgrid st) c s = GOff \<or> (c, s) \<in> e_off st)) [0..<total_slots])"

text \<open>0 for the morning block, 1 for the afternoon block.\<close>

definition getShiftBlock :: "eng \<Rightarrow> ustr \<Rightarrow> nat" where
  "getShiftBlock st c = (if map_of (e_cgrid st) c = None then 0 else if off_in st c 0 < off_in st c 1 then 0 else 1)"

definition acts_in_half :: "eng \<Rightarrow> ustr \<Rightarrow> nat \<Rightarrow> act list" where
  "acts_in_half st t h = List.map_filter (\<lambda>p. case cell_at (e_tgrid st) t (h * periods_per_session + p) of
     GAct i \<Rightarrow> (if i < length (e_acts st) then Some (e_acts st ! i) else None) | _ \<Rightarrow> None) [0..<periods_per_session]"

datatype verdict = Structural ustr | Fixable nat

definition can_join :: "eng \<Rightarrow> act \<Rightarrow> act list \<Rightarrow> bool" where
  "can_join st a bs =
     (let canon = getCanonMonKey (e_data st) (ac_mon a)
      in list_ex (\<lambda>b. ac_class b \<noteq> ac_class a) bs
       \<or> list_ex (\<lambda>b. ac_class b = ac_class a \<and> getCanonMonKey (e_data st) (ac_mon b) \<noteq> canon) bs
       \<or> of_nat (length (filter (\<lambda>b. ac_class b = ac_class a \<and> getCanonMonKey (e_data st) (ac_mon b) = canon) bs))
           < getSubjectSessionLimit (e_data st) (ac_lop a) (ac_mon a))"

definition join_candidates :: "eng \<Rightarrow> ustr \<Rightarrow> nat \<Rightarrow> act \<Rightarrow> nat list" where
  "join_candidates st t h a = filter (\<lambda>k. k \<noteq> h \<and> k mod 2 = getShiftBlock st (ac_class a)
     \<and> acts_in_half st t k \<noteq> [] \<and> length (acts_in_half st t k) < periods_per_session) [0..<total_slots div periods_per_session]"

definition classifySingleton :: "eng \<Rightarrow> ustr \<Rightarrow> nat \<Rightarrow> act option \<Rightarrow> verdict" where
  "classifySingleton st t h act =
     (case act of None \<Rightarrow> Structural (u ''no-activity'')
      | Some a \<Rightarrow>
          if ac_class a = [] then Structural (u ''no-activity'')
          else if map_of (e_tgrid st) t = None then Structural (u ''no-teacher-grid'')
          else if join_candidates st t h a = [] then Structural (u ''no-other-session-same-shift-block'')
          else case List.find (\<lambda>k. can_join st a (acts_in_half st t k)) (join_candidates st t h a) of
                 Some k \<Rightarrow> Fixable k
               | None \<Rightarrow> Structural (u ''same-subject-daily-cap-reached-everywhere''))"

definition single_of :: "eng \<Rightarrow> ustr \<Rightarrow> nat \<Rightarrow> (nat \<times> act option) option" where
  "single_of st t h =
     (case List.map_filter (\<lambda>p. let s = h * periods_per_session + p in case cell_at (e_tgrid st) t s of
         GAct i \<Rightarrow> (if i < length (e_acts st) then Some (s, Some (e_acts st ! i)) else None)
       | GFixed \<Rightarrow> Some (s, None) | _ \<Rightarrow> None) [0..<periods_per_session] of
        [x] \<Rightarrow> Some x | _ \<Rightarrow> None)"

definition classify_half :: "eng \<Rightarrow> ustr \<Rightarrow> nat \<Rightarrow> (ustr \<times> nat \<times> verdict) list" where
  "classify_half st t h = (case single_of st t h of
     None \<Rightarrow> []
   | Some (s, None) \<Rightarrow> [(t, h, Structural (u ''fixed-slot''))]
   | Some (s, Some a) \<Rightarrow> [(t, h, if ac_fixed a then Structural (u ''fixed-slot'') else classifySingleton st t h (Some a))])"

definition classifyAllSingletons :: "eng \<Rightarrow> (ustr \<times> nat \<times> verdict) list \<times> (ustr \<times> nat \<times> verdict) list" where
  "classifyAllSingletons st =
     (let all = concat (map (\<lambda>t. concat (map (classify_half st t) [0..<total_slots div periods_per_session]))
                  (filter (\<lambda>t. t \<noteq> []) (map fst (e_tgrid st))));
          fixable = (\<lambda>x. case snd (snd x) of Fixable _ \<Rightarrow> True | Structural _ \<Rightarrow> False)
      in (filter fixable all, filter (\<lambda>x. \<not> fixable x) all))"

subsection \<open>Comparing\<close>

datatype opt_mode = Singletons | Gap2 | Sessions | Gap1 | OtherMode

definition lockViolations :: "eng \<Rightarrow> metrics \<Rightarrow> int" where
  "lockViolations st m =
     (case e_lockS1 st of Some n \<Rightarrow> (if of_nat (mt_day1 m) > n then 1 else 0) | None \<Rightarrow> 0)
     + (case e_lockGap2 st of Some n \<Rightarrow> (if of_nat (mt_gap2 m) > n then 1 else 0) | None \<Rightarrow> 0)"

text \<open>The first difference that is not zero.\<close>

fun first_diff :: "(int \<times> int) list \<Rightarrow> int" where
  "first_diff [] = 0"
| "first_diff ((x, y) # xs) = (if x \<noteq> y then x - y else first_diff xs)"

definition tuple_of :: "eng \<Rightarrow> metrics \<Rightarrow> int list" where
  "tuple_of st m = [lockViolations st m, int (mt_day1 m), int (mt_gap2 m), int (mt_sessions m), int (mt_gap1 m), int (mt_days m)]"

definition compareTuple :: "eng \<Rightarrow> metrics option \<Rightarrow> metrics option \<Rightarrow> int" where
  "compareTuple st a b = (case (a, b) of (None, _) \<Rightarrow> 1 | (Some _, None) \<Rightarrow> - 1
     | (Some x, Some y) \<Rightarrow> first_diff (zip (tuple_of st x) (tuple_of st y)))"

definition compare_on :: "(metrics \<Rightarrow> nat) list \<Rightarrow> metrics \<Rightarrow> metrics \<Rightarrow> int" where
  "compare_on fs a b = first_diff (map (\<lambda>f. (int (f a), int (f b))) fs)"

definition guard_first :: "metrics \<Rightarrow> metrics \<Rightarrow> int \<Rightarrow> int" where
  "guard_first a b rest = (if mt_day1 a > mt_day1 b \<or> mt_gap2 a > mt_gap2 b then 1
     else if mt_day1 a < mt_day1 b then - 1 else if mt_gap2 a < mt_gap2 b then - 1 else rest)"

definition compare_mode :: "eng \<Rightarrow> opt_mode \<Rightarrow> metrics \<Rightarrow> metrics \<Rightarrow> int" where
  "compare_mode st mode a b = (case mode of
     Singletons \<Rightarrow> compare_on [mt_day1, mt_gap2, mt_sessions, mt_gap1, mt_singleDays, mt_days] a b
   | Gap2 \<Rightarrow> (if mt_gap2 a \<noteq> mt_gap2 b
              then (if e_lockS1 st = None \<and> mt_gap2 a < mt_gap2 b \<and> mt_day1 a > mt_day1 b then 1
                    else int (mt_gap2 a) - int (mt_gap2 b))
              else compare_on [mt_day1, mt_sessions, mt_gap1, mt_days] a b)
   | Sessions \<Rightarrow> guard_first a b (compare_on [mt_sessions, \<lambda>m. mt_day2 m * 2 + mt_day3 m, mt_gap1, mt_days] a b)
   | Gap1 \<Rightarrow> guard_first a b (compare_on [mt_sessions, mt_gap1] a b)
   | OtherMode \<Rightarrow> compare_on [mt_day1, mt_gap2, mt_sessions] a b)"

definition compareMetrics :: "eng \<Rightarrow> opt_mode \<Rightarrow> metrics option \<Rightarrow> metrics option \<Rightarrow> int" where
  "compareMetrics st mode a b = (case (a, b) of (None, _) \<Rightarrow> 1 | (Some _, None) \<Rightarrow> - 1
     | (Some x, Some y) \<Rightarrow> if lockViolations st x \<noteq> lockViolations st y then lockViolations st x - lockViolations st y
                          else compare_mode st mode x y)"

subsection \<open>Empty cells of the pupils\<close>

text \<open>The free cells before the last lesson of a half day.\<close>

definition half_holes :: "gcell list \<Rightarrow> nat" where
  "half_holes cells =
     (let last = length (dropWhile (\<lambda>c. \<not> taken c) (rev cells)) in length (filter (\<lambda>c. c = GFree) (take last cells)))"

definition class_holes :: "eng \<Rightarrow> ustr \<Rightarrow> nat" where
  "class_holes st c = sum_list (map (\<lambda>h. half_holes (map (\<lambda>p. cell_at (e_cgrid st) c (h * periods_per_session + p)) [0..<periods_per_session]))
     [0..<total_slots div periods_per_session])"

definition countStudentHoles :: "eng \<Rightarrow> nat" where
  "countStudentHoles st = sum_list (map (class_holes st) (map fst (e_cgrid st)))"

end
