(* ===== verification/FeGuard.thy ===== *)
theory FeGuard
  imports FeSolve FeMetrics
begin

section \<open>FET engine: repairing, perturbing and guarding\<close>

text \<open>
  \<open>verifyPlacementIntegrity\<close>, \<open>repairHardConflicts\<close>, \<open>perturbForRestart\<close>, three of the ruin-and-recreate
  operators, and the wrapper that restores the snapshot when an operator throws or breaks the timetable.

  \<^item> A \<open>Set\<close> of activity numbers that is iterated is a list without repetition, in insertion order.
  \<^item> An operator is a function of the state that throws (\<open>Inl\<close>) or returns (\<open>Inr\<close>), and leaves a state.
\<close>

subsection \<open>The integrity gate\<close>

text \<open>The teacher cells seen so far, each with the activity that claimed it.\<close>

type_synonym seen = "((ustr \<times> nat) \<times> nat) list"

fun claim_teachers :: "eng \<Rightarrow> nat \<Rightarrow> nat \<Rightarrow> ustr list \<Rightarrow> seen \<Rightarrow> seen option" where
  "claim_teachers st i s [] seen = Some seen"
| "claim_teachers st i s (t # ts) seen =
     (if (t, s) \<in> e_toff st then None
      else case map_of seen (t, s) of
             Some j \<Rightarrow> (if j \<noteq> i then None else claim_teachers st i s ts (((t, s), i) # seen))
           | None \<Rightarrow> claim_teachers st i s ts (((t, s), i) # seen))"

fun claim_slots :: "eng \<Rightarrow> nat \<Rightarrow> act \<Rightarrow> nat list \<Rightarrow> seen \<Rightarrow> seen option" where
  "claim_slots st i a [] seen = Some seen"
| "claim_slots st i a (s # ss) seen =
     (if cell_at (e_cgrid st) (ac_class a) s \<noteq> GAct i \<or> (ac_class a, s) \<in> e_off st
         \<or> map_of (e_fixed st) (ac_class a, s) \<noteq> None then None
      else case claim_teachers st i s (act_teachers a) seen of None \<Rightarrow> None | Some seen' \<Rightarrow> claim_slots st i a ss seen')"

definition exempt :: "eng \<Rightarrow> nat \<Rightarrow> bool" where
  "exempt st i = (case e_permanent st of Some ps \<Rightarrow> i \<in> ps | None \<Rightarrow> False)"

fun claim_acts :: "eng \<Rightarrow> nat list \<Rightarrow> seen \<Rightarrow> seen option" where
  "claim_acts st [] seen = Some seen"
| "claim_acts st (i # is) seen =
     (case e_place st ! i of
        None \<Rightarrow> if exempt st i then claim_acts st is seen else None
      | Some p \<Rightarrow> let a = e_acts st ! i
                  in if map_of (e_cgrid st) (ac_class a) = None then None
                     else case claim_slots st i a (slots_from p (ac_dur a)) seen of
                            None \<Rightarrow> None | Some seen' \<Rightarrow> claim_acts st is seen')"

definition orphan_cell :: "eng \<Rightarrow> nat \<Rightarrow> nat \<Rightarrow> bool" where
  "orphan_cell st s v \<longleftrightarrow> v \<ge> length (e_acts st) \<or> (case e_place st ! v of None \<Rightarrow> True
     | Some p \<Rightarrow> s < p \<or> s \<ge> p + ac_dur (e_acts st ! v))"

text \<open>The activity cells of the class grid, with their slots.\<close>

definition covered_cells :: "eng \<Rightarrow> (nat \<times> nat) list" where
  "covered_cells st = concat (map (\<lambda>(c, row). List.map_filter
     (\<lambda>s. case row ! s of GAct v \<Rightarrow> Some (s, v) | _ \<Rightarrow> None) [0..<length row]) (e_cgrid st))"

definition verifyPlacementIntegrity :: "eng \<Rightarrow> bool" where
  "verifyPlacementIntegrity st \<longleftrightarrow>
     claim_acts st [0..<length (e_acts st)] [] \<noteq> None
     \<and> list_all (\<lambda>(s, v). \<not> orphan_cell st s v) (covered_cells st)
     \<and> length (covered_cells st) = placed_periods st
     \<and> (case e_holes st of Some n \<Rightarrow> countStudentHoles st \<le> n | None \<Rightarrow> True)"

subsection \<open>Repairing hard conflicts\<close>

definition add_once :: "'a \<Rightarrow> 'a list \<Rightarrow> 'a list" where
  "add_once i xs = (if i \<in> set xs then xs else xs @ [i])"

fun offend_teachers :: "eng \<Rightarrow> nat \<Rightarrow> nat \<Rightarrow> ustr list \<Rightarrow> nat list \<times> seen \<Rightarrow> nat list \<times> seen" where
  "offend_teachers st i s [] os = os"
| "offend_teachers st i s (t # ts) (offs, seen) =
     (let fixed = ac_fixed (e_acts st ! i); blame = (if fixed then offs else add_once i offs)
      in if (t, s) \<in> e_toff st then offend_teachers st i s ts (blame, seen)
         else case map_of seen (t, s) of
                None \<Rightarrow> offend_teachers st i s ts (offs, ((t, s), i) # seen)
              | Some j \<Rightarrow> if j = i then offend_teachers st i s ts (offs, ((t, s), i) # seen)
                  else offend_teachers st i s ts
                    (if fixed \<and> j < length (e_acts st) \<and> \<not> ac_fixed (e_acts st ! j) then add_once j offs else blame, seen))"

definition offend_slot :: "eng \<Rightarrow> nat \<Rightarrow> nat \<Rightarrow> nat list \<times> seen \<Rightarrow> nat list \<times> seen" where
  "offend_slot st i s os =
     (let a = e_acts st ! i
      in if (ac_class a, s) \<in> e_off st \<or> map_of (e_fixed st) (ac_class a, s) \<noteq> None
         then (if ac_fixed a then fst os else add_once i (fst os), snd os)
         else offend_teachers st i s (act_teachers a) os)"

definition offend_act :: "eng \<Rightarrow> nat \<Rightarrow> nat list \<times> seen \<Rightarrow> nat list \<times> seen" where
  "offend_act st i os = (case e_place st ! i of None \<Rightarrow> os
     | Some p \<Rightarrow> fold (offend_slot st i) (slots_from p (dur_or_1 (e_acts st ! i))) os)"

definition offenders :: "eng \<Rightarrow> nat list" where
  "offenders st = fst (fold (offend_act st) [0..<length (e_acts st)] ([], []))"

definition preferred_in_half :: "eng \<Rightarrow> ustr \<Rightarrow> nat \<Rightarrow> nat list" where
  "preferred_in_half st t h =
     (let ps = half_taught st t h; start = h * periods_per_session
      in if ps = [] then []
         else map (\<lambda>p. start + p) (filter (\<lambda>p. cell_at (e_tgrid st) t (start + p) = GFree
                \<and> (hd ps < p \<and> p < last ps \<or> p + 1 = hd ps \<or> p = last ps + 1)) [0..<periods_per_session]))"

definition preferredSlotsFor :: "eng \<Rightarrow> act \<Rightarrow> nat list" where
  "preferredSlotsFor st a = concat (map (\<lambda>t. concat (map (preferred_in_half st t) [0..<total_slots div periods_per_session])) (act_teachers a))"

text \<open>The three attempts, the second and third with a fresh call counter.\<close>

definition repair_attempts :: "nat \<Rightarrow> eng \<Rightarrow> bool \<times> eng" where
  "repair_attempts i st =
     (let preferred = preferredSlotsFor st (e_acts st ! i);
          (ok1, st1) = (if preferred = [] then (False, st) else randomSwap 0 (Some preferred) i st)
      in if ok1 then (True, st1) else
         (case fresh_swap None i st1 of (ok2, st2) \<Rightarrow> if ok2 then (True, st2) else
          case tryEjectionChain i st2 of (ok3, st3) \<Rightarrow> if ok3 \<and> e_place st3 ! i \<noteq> None then (True, st3) else
          case fresh_swap None i (st3\<lparr>e_strict := False\<rparr>) of (ok4, st4) \<Rightarrow> (ok4, st4\<lparr>e_strict := e_strict st3\<rparr>)))"

definition repair_one :: "nat \<Rightarrow> nat \<Rightarrow> nat \<times> nat \<times> eng \<Rightarrow> nat \<times> nat \<times> eng" where
  "repair_one saved i r =
     (case r of (n, bad, st) \<Rightarrow>
        if e_place st ! i \<noteq> None then r
        else case repair_attempts i (st\<lparr>e_limit := max saved 30000, e_calls := 0\<rparr>) of
               (ok, st') \<Rightarrow> if ok then (n + 1, bad, st') else (n, bad + 1, st'))"

definition stuck_acts :: "eng \<Rightarrow> nat list" where
  "stuck_acts st = filter (\<lambda>i. e_place st ! i = None \<and> \<not> ac_fixed (e_acts st ! i)) [0..<length (e_acts st)]"

definition repairHardConflicts :: "eng \<Rightarrow> (nat \<times> nat) \<times> eng" where
  "repairHardConflicts st =
     (let offs = offenders st; unplaced = stuck_acts st
      in if offs = [] \<and> unplaced = [] then ((0, 0), st)
         else let st1 = fold unplaceActivity offs st; saved = e_limit st1;
                  (n, m, st2) = fold (repair_one saved) (offs @ filter (\<lambda>i. i \<notin> set offs) unplaced) (0, 0, st1);
                  st3 = st2\<lparr>e_limit := saved\<rparr>
              in ((n, m), st3\<lparr>e_permanent := Some (set (stuck_acts st3))\<rparr>))"

subsection \<open>Perturbing\<close>

definition shake_once :: "nat list \<Rightarrow> eng \<Rightarrow> eng" where
  "shake_once ids st =
     (case nextInt (length ids) (e_rng st) of (k, rng) \<Rightarrow>
        let i = ids ! k; st1 = st\<lparr>e_rng := rng\<rparr>
        in case e_place st1 ! i of None \<Rightarrow> st1
           | Some old \<Rightarrow> (case fresh_swap None i (unplaceActivity i st1) of (ok, st2) \<Rightarrow>
               if ok then st2 else placeActivityDirect i old st2))"

definition perturbForRestart :: "nat \<Rightarrow> eng \<Rightarrow> eng" where
  "perturbForRestart n st =
     (let ids = filter (\<lambda>i. \<not> ac_fixed (e_acts st ! i) \<and> e_place st ! i \<noteq> None) [0..<length (e_acts st)]
      in if ids = [] then st
         else let st1 = (shake_once ids ^^ n) (st\<lparr>e_limit := max (e_limit st) 3000\<rparr>);
                  st2 = st1\<lparr>e_limit := e_limit st\<rparr>
              in if verifyPlacementIntegrity st2 then st2 else restoreStateSnapshot (captureStateSnapshot st) st2)"

subsection \<open>Ruin and recreate\<close>

text \<open>Place the activities in turn; stop at the first that finds no place.\<close>

fun place_again :: "nat list \<Rightarrow> eng \<Rightarrow> bool \<times> eng" where
  "place_again [] st = (True, st)"
| "place_again (i # is) st = (case fresh_swap None i st of (ok, st1) \<Rightarrow> if ok then place_again is st1 else (False, st1))"

definition lessons_at :: "eng \<Rightarrow> ustr \<Rightarrow> nat list \<Rightarrow> nat list" where
  "lessons_at st t slots = List.map_filter (\<lambda>s. case cell_at (e_tgrid st) t s of GAct i \<Rightarrow> Some i | _ \<Rightarrow> None) slots"

definition forbid :: "ustr \<Rightarrow> nat list \<Rightarrow> eng \<Rightarrow> eng" where
  "forbid t slots st = st\<lparr>e_toff := e_toff st \<union> set (map (\<lambda>s. (t, s)) slots)\<rparr>"

text \<open>
  Take the lessons of a teacher off the given slots, forbid those slots for the teacher while the
  lessons are placed again, and keep the result only when it passes the test.
\<close>

definition vacate :: "nat \<Rightarrow> (eng \<Rightarrow> metrics option) \<Rightarrow> ustr \<Rightarrow> nat list \<Rightarrow> eng \<Rightarrow> metrics option \<times> eng" where
  "vacate most accept t slots st =
     (let targets = lessons_at st t slots
      in if map_of (e_tgrid st) t = None \<or> list_ex (\<lambda>s. cell_at (e_tgrid st) t s = GFixed) slots
            \<or> targets = [] \<or> length targets > most then (None, st)
         else let snap = captureStateSnapshot st;
                  st1 = (forbid t slots (fold unplaceActivity targets st))\<lparr>e_limit := 250\<rparr>;
                  (ok, st2) = place_again targets st1;
                  st3 = st2\<lparr>e_toff := e_toff st\<rparr>
              in case (if ok then accept st3 else None) of
                   Some m \<Rightarrow> (Some m, st3)
                 | None \<Rightarrow> (None, restoreStateSnapshot snap st3))"

definition day_slots :: "nat \<Rightarrow> nat list" where
  "day_slots d = [d * slots_per_day..<(d + 1) * slots_per_day]"

definition half_slots :: "nat \<Rightarrow> nat \<Rightarrow> nat list" where
  "half_slots d b = (let s = d * slots_per_day + b * periods_per_session in [s..<s + periods_per_session])"

definition tryVacateTeacherDay :: "ustr \<Rightarrow> nat \<Rightarrow> metrics \<Rightarrow> metrics \<Rightarrow> eng \<Rightarrow> metrics option \<times> eng" where
  "tryVacateTeacherDay t d best initial =
     vacate 2 (\<lambda>st. let m = evaluateMetrics st
       in if mt_day1 m \<le> mt_day1 best \<and> mt_gap2 m \<le> mt_gap2 initial \<and> (mt_days m < mt_days best \<or> mt_sessions m < mt_sessions best)
          then Some m else None) t (day_slots d)"

definition tryVacateTeacherSession :: "ustr \<Rightarrow> nat \<Rightarrow> nat \<Rightarrow> metrics \<Rightarrow> opt_mode \<Rightarrow> eng \<Rightarrow> metrics option \<times> eng" where
  "tryVacateTeacherSession t d b best mode =
     vacate 3 (\<lambda>st. let m = evaluateMetrics st
       in if isLessonBlockSafe st [] \<and> compareMetrics st mode (Some m) (Some best) < 0 then Some m else None) t (half_slots d b)"

definition ruin_slot :: "ustr \<Rightarrow> nat \<Rightarrow> nat list \<times> eng \<Rightarrow> nat list \<times> eng" where
  "ruin_slot t s r = (case cell_at (e_tgrid (snd r)) t s of
     GAct i \<Rightarrow> (if i < length (e_acts (snd r)) \<and> \<not> ac_fixed (e_acts (snd r) ! i) \<and> ac_dur (e_acts (snd r) ! i) = 1
               then (fst r @ [i], unplaceActivity i (snd r)) else r)
   | _ \<Rightarrow> r)"

definition ruin_teacher :: "ustr \<Rightarrow> nat list \<times> eng \<Rightarrow> nat list \<times> eng" where
  "ruin_teacher t r = (if map_of (e_tgrid (snd r)) t = None then r else fold (ruin_slot t) [0..<total_slots] r)"

definition tryLnsRuinAndRecreate :: "ustr list \<Rightarrow> metrics \<Rightarrow> opt_mode \<Rightarrow> eng \<Rightarrow> metrics option \<times> eng" where
  "tryLnsRuinAndRecreate ts best mode st =
     (let snap = captureStateSnapshot st; (ids, st1) = fold ruin_teacher ts ([], st)
      in if ids = [] then (None, st1)
         else let order = sort_key (\<lambda>i. free_class_cells st1 (ac_class (e_acts st1 ! i))) ids;
                  (ok, st2) = place_again order (st1\<lparr>e_limit := 6000\<rparr>); m = evaluateMetrics st2
              in if ok \<and> isLessonBlockSafe st2 [] \<and> compareMetrics st2 mode (Some m) (Some best) < 0 then (Some m, st2)
                 else (None, restoreStateSnapshot snap st2))"

subsection \<open>The wrapper of the operators\<close>

definition rejected :: "snapshot \<Rightarrow> eng \<Rightarrow> eng" where
  "rejected snap st = (let st1 = restoreStateSnapshot snap st in st1\<lparr>e_rejections := Suc (e_rejections st1)\<rparr>)"

definition guarded :: "int option \<Rightarrow> (eng \<Rightarrow> ('x + 'r) \<times> eng) \<Rightarrow> eng \<Rightarrow> 'r option \<times> eng" where
  "guarded deadline impl st =
     (let (late, st0) = (case deadline of None \<Rightarrow> (False, st) | Some d \<Rightarrow> (case date_now st of (t, st1) \<Rightarrow> (t > d, st1)))
      in if late then (None, st0)
         else let snap = captureStateSnapshot st0
              in case impl st0 of
                   (Inl _, st1) \<Rightarrow> (None, rejected snap st1)
                 | (Inr r, st1) \<Rightarrow> if verifyPlacementIntegrity st1 then (Some r, st1) else (None, rejected snap st1))"

end
