(* ===== verification/FeGateOk.thy ===== *)
theory FeGateOk
  imports FeSolveOk FeGuard
begin

section \<open>FET engine: what the integrity gate guarantees\<close>

text \<open>
  A state that passes \<open>verifyPlacementIntegrity\<close> has no teacher in two lessons at once, no lesson on an
  OFF or fixed cell, and a class grid that shows exactly the placed lessons: the test that counts the
  covered cells closes the last gap. In the other direction, a consistent state that has placed all it
  can passes, so the gate refuses nothing that the construction makes.
\<close>

subsection \<open>Claims are recorded\<close>

definition claimed :: "seen \<Rightarrow> seen \<Rightarrow> bool" where
  "claimed a b \<longleftrightarrow> (\<forall>k j. map_of a k = Some j \<longrightarrow> map_of b k = Some j)"

lemma claimed_refl: "claimed a a"
  by (simp add: claimed_def)

lemma claimed_trans: "claimed a b \<Longrightarrow> claimed b c \<Longrightarrow> claimed a c"
  by (simp add: claimed_def)

lemma claimedD: "claimed a b \<Longrightarrow> map_of a k = Some j \<Longrightarrow> map_of b k = Some j"
  unfolding claimed_def by blast

lemma claim_teachers_sound:
  "claim_teachers st i s ts seen = Some seen' \<Longrightarrow>
     claimed seen seen' \<and> (\<forall>t \<in> set ts. (t, s) \<notin> e_toff st \<and> map_of seen' (t, s) = Some i)"
proof (induction ts arbitrary: seen)
  case Nil
  then show ?case by (simp add: claimed_refl)
next
  case (Cons t ts)
  have off: "(t, s) \<notin> e_toff st" and r: "claim_teachers st i s ts (((t, s), i) # seen) = Some seen'"
    and own: "map_of seen (t, s) = None \<or> map_of seen (t, s) = Some i"
    using Cons.prems by (auto split: if_splits option.splits)
  note ih = Cons.IH [OF r]
  have "claimed seen (((t, s), i) # seen)" using own by (auto simp: claimed_def)
  moreover have "map_of seen' (t, s) = Some i" using ih claimedD by fastforce
  ultimately show ?case using ih off claimed_trans by auto
qed

definition slot_sound :: "eng \<Rightarrow> nat \<Rightarrow> seen \<Rightarrow> nat \<Rightarrow> bool" where
  "slot_sound st i seen s \<longleftrightarrow> (let a = e_acts st ! i in
     cell_at (e_cgrid st) (ac_class a) s = GAct i \<and> (ac_class a, s) \<notin> e_off st \<and> map_of (e_fixed st) (ac_class a, s) = None
     \<and> (\<forall>t \<in> set (act_teachers a). (t, s) \<notin> e_toff st \<and> map_of seen (t, s) = Some i))"

lemma slot_sound_mono: "slot_sound st i a s \<Longrightarrow> claimed a b \<Longrightarrow> slot_sound st i b s"
  by (auto simp: slot_sound_def Let_def claimed_def)

lemma claim_slots_sound:
  "claim_slots st i (e_acts st ! i) ss seen = Some seen' \<Longrightarrow>
     claimed seen seen' \<and> (\<forall>s \<in> set ss. slot_sound st i seen' s)"
proof (induction ss arbitrary: seen)
  case Nil
  then show ?case by (simp add: claimed_refl)
next
  case (Cons s ss)
  obtain seen1 where t: "claim_teachers st i s (act_teachers (e_acts st ! i)) seen = Some seen1"
    and r: "claim_slots st i (e_acts st ! i) ss seen1 = Some seen'"
    and c: "cell_at (e_cgrid st) (ac_class (e_acts st ! i)) s = GAct i" "(ac_class (e_acts st ! i), s) \<notin> e_off st"
      "map_of (e_fixed st) (ac_class (e_acts st ! i), s) = None"
    using Cons.prems by (auto split: if_splits option.splits)
  note T = claim_teachers_sound [OF t] and R = Cons.IH [OF r]
  have "slot_sound st i seen1 s" using T c by (simp add: slot_sound_def Let_def)
  then show ?case using T R claimed_trans slot_sound_mono by auto
qed

definition act_sound :: "eng \<Rightarrow> seen \<Rightarrow> nat \<Rightarrow> bool" where
  "act_sound st seen i \<longleftrightarrow> (case e_place st ! i of None \<Rightarrow> exempt st i
     | Some p \<Rightarrow> \<forall>s. p \<le> s \<and> s < p + ac_dur (e_acts st ! i) \<longrightarrow> slot_sound st i seen s)"

lemma claim_acts_sound:
  "claim_acts st is seen = Some seen' \<Longrightarrow> claimed seen seen' \<and> (\<forall>i \<in> set is. act_sound st seen' i)"
proof (induction "is" arbitrary: seen)
  case Nil
  then show ?case by (simp add: claimed_refl)
next
  case (Cons i "is")
  show ?case
  proof (cases "e_place st ! i")
    case None
    then have "exempt st i" "claim_acts st is seen = Some seen'" using Cons.prems by (auto split: if_splits)
    then show ?thesis using Cons.IH None by (simp add: act_sound_def)
  next
    case (Some p)
    then obtain seen1 where t: "claim_slots st i (e_acts st ! i) (slots_from p (ac_dur (e_acts st ! i))) seen = Some seen1"
      and r: "claim_acts st is seen1 = Some seen'"
      using Cons.prems by (auto simp: Let_def split: if_splits option.splits)
    note T = claim_slots_sound [OF t] and R = Cons.IH [OF r]
    have "slot_sound st i seen' s" if "p \<le> s \<and> s < p + ac_dur (e_acts st ! i)" for s
      by (rule slot_sound_mono [of _ _ seen1]) (use T R that in \<open>simp_all add: mem_slots_from\<close>)
    then have "act_sound st seen' i" using Some by (simp add: act_sound_def)
    then show ?thesis using T R claimed_trans by auto
  qed
qed

text \<open>What a claimed state says of every lesson, and of every two.\<close>

lemma integrity_claims:
  assumes "verifyPlacementIntegrity st"
  obtains seen where "\<forall>i < length (e_acts st). act_sound st seen i"
proof -
  obtain seen where "claim_acts st [0..<length (e_acts st)] [] = Some seen"
    using assms unfolding verifyPlacementIntegrity_def by blast
  from claim_acts_sound [OF this] have "\<forall>i < length (e_acts st). act_sound st seen i" by simp
  then show thesis by (rule that)
qed

lemma sound_cover:
  assumes "\<forall>i < length (e_acts st). act_sound st seen i" "i < length (e_acts st)" "covers (e_acts st) (e_place st) i s"
  shows "slot_sound st i seen s"
  using assms unfolding covers_def act_sound_def by fastforce

lemma integrity_cell:
  assumes "verifyPlacementIntegrity st" "i < length (e_acts st)" "covers (e_acts st) (e_place st) i s"
  shows "cell_at (e_cgrid st) (ac_class (e_acts st ! i)) s = GAct i" "(ac_class (e_acts st ! i), s) \<notin> e_off st"
    "map_of (e_fixed st) (ac_class (e_acts st ! i), s) = None" "t \<in> set (act_teachers (e_acts st ! i)) \<Longrightarrow> (t, s) \<notin> e_toff st"
proof -
  obtain seen where "\<forall>i < length (e_acts st). act_sound st seen i" using integrity_claims [OF assms(1)] .
  from sound_cover [OF this assms(2,3)]
  show "cell_at (e_cgrid st) (ac_class (e_acts st ! i)) s = GAct i" "(ac_class (e_acts st ! i), s) \<notin> e_off st"
    "map_of (e_fixed st) (ac_class (e_acts st ! i), s) = None" "t \<in> set (act_teachers (e_acts st ! i)) \<Longrightarrow> (t, s) \<notin> e_toff st"
    by (simp_all add: slot_sound_def Let_def)
qed

lemma integrity_disjoint:
  assumes v: "verifyPlacementIntegrity st" and ij: "i < length (e_acts st)" "j < length (e_acts st)" "i \<noteq> j"
    and c: "covers (e_acts st) (e_place st) i s" "covers (e_acts st) (e_place st) j s"
  shows "ac_class (e_acts st ! i) \<noteq> ac_class (e_acts st ! j)"
    "set (act_teachers (e_acts st ! i)) \<inter> set (act_teachers (e_acts st ! j)) = {}"
proof -
  show "ac_class (e_acts st ! i) \<noteq> ac_class (e_acts st ! j)"
    using integrity_cell(1) [OF v ij(1) c(1)] integrity_cell(1) [OF v ij(2) c(2)] ij(3) by auto
  obtain seen where "\<forall>i < length (e_acts st). act_sound st seen i" using integrity_claims [OF v] .
  then have "slot_sound st i seen s" "slot_sound st j seen s" using sound_cover ij c by blast+
  then show "set (act_teachers (e_acts st ! i)) \<inter> set (act_teachers (e_acts st ! j)) = {}"
    using ij(3) unfolding slot_sound_def Let_def by force
qed

lemma integrity_unplaced:
  assumes "verifyPlacementIntegrity st" "i < length (e_acts st)" "e_place st ! i = None"
  shows "exempt st i"
proof -
  obtain seen where "\<forall>i < length (e_acts st). act_sound st seen i" using integrity_claims [OF assms(1)] .
  then have "act_sound st seen i" using assms(2) by blast
  then show ?thesis using assms(3) by (simp add: act_sound_def)
qed

subsection \<open>The cells of the class grid, counted\<close>

definition act_cells :: "eng \<Rightarrow> (ustr \<times> nat) set" where
  "act_cells st = {(c, s). \<exists>i. cell_at (e_cgrid st) c s = GAct i}"

definition lesson_periods :: "eng \<Rightarrow> (nat \<times> nat) set" where
  "lesson_periods st = {(i, s). i < length (e_acts st) \<and> covers (e_acts st) (e_place st) i s}"

text \<open>One row after the other, \<open>covered_cells\<close> has as many entries as there are activity cells.\<close>

lemma length_map_filter: "length (List.map_filter f xs) = length (filter (\<lambda>x. f x \<noteq> None) xs)"
  by (induction xs) (auto simp: List.map_filter_simps split: option.splits)

definition act_slots :: "gcell list \<Rightarrow> nat set" where
  "act_slots row = {s. s < length row \<and> (\<exists>i. row ! s = GAct i)}"

lemma row_count:
  "length (List.map_filter (\<lambda>s. case row ! s of GAct v \<Rightarrow> Some (s, v) | _ \<Rightarrow> None) [0..<length row]) = card (act_slots row)"
proof -
  have "(\<lambda>s. (case row ! s of GAct v \<Rightarrow> Some (s, v) | _ \<Rightarrow> None) \<noteq> None) = (\<lambda>s. \<exists>i. row ! s = GAct i)"
    by (intro ext) (auto split: gcell.splits)
  then have "length (List.map_filter (\<lambda>s. case row ! s of GAct v \<Rightarrow> Some (s, v) | _ \<Rightarrow> None) [0..<length row])
      = length (filter (\<lambda>s. \<exists>i. row ! s = GAct i) [0..<length row])"
    by (simp only: length_map_filter)
  also have "\<dots> = card {s \<in> {0..<length row}. \<exists>i. row ! s = GAct i}"
    using distinct_length_filter [OF distinct_upt] by (simp add: Int_def conj_commute)
  finally show ?thesis by (simp add: act_slots_def)
qed

lemma covered_count_rows:
  "length (covered_cells st) = (\<Sum>x\<leftarrow>e_cgrid st. card (act_slots (snd x)))"
  unfolding covered_cells_def
  by (simp add: length_concat comp_def row_count split_beta)

lemma act_cells_rows:
  assumes "distinct (map fst (e_cgrid st))"
  shows "act_cells st = (\<Union>x \<in> set (e_cgrid st). Pair (fst x) ` act_slots (snd x))"
proof -
  have "(c, s) \<in> act_cells st \<longleftrightarrow> (\<exists>row. map_of (e_cgrid st) c = Some row \<and> s \<in> act_slots row)" for c s
    by (cases "map_of (e_cgrid st) c") (simp_all add: act_cells_def act_slots_def cell_at_def)
  then have "(c, s) \<in> act_cells st \<longleftrightarrow> (\<exists>row. (c, row) \<in> set (e_cgrid st) \<and> s \<in> act_slots row)" for c s
    by (simp only: map_of_eq_Some_iff [OF assms])
  then show ?thesis by force
qed

lemma covered_count:
  assumes "distinct (map fst (e_cgrid st))"
  shows "finite (act_cells st)" "length (covered_cells st) = card (act_cells st)"
proof -
  have fin: "finite (act_slots row)" for row unfolding act_slots_def by simp
  then show "finite (act_cells st)" unfolding act_cells_rows [OF assms] by auto
  have "distinct (e_cgrid st)" using assms by (metis distinct_map)
  then have "(\<Sum>x\<leftarrow>e_cgrid st. card (act_slots (snd x))) = (\<Sum>x \<in> set (e_cgrid st). card (Pair (fst x) ` act_slots (snd x)))"
    by (simp add: sum_list_distinct_conv_sum_set card_image inj_on_def)
  also have "\<dots> = card (\<Union>x \<in> set (e_cgrid st). Pair (fst x) ` act_slots (snd x))"
  proof (rule card_UN_disjoint [symmetric])
    show "\<forall>x \<in> set (e_cgrid st). \<forall>y \<in> set (e_cgrid st). x \<noteq> y \<longrightarrow>
        Pair (fst x) ` act_slots (snd x) \<inter> Pair (fst y) ` act_slots (snd y) = {}"
      using assms unfolding distinct_map inj_on_def by blast
  qed (use fin in simp_all)
  finally show "length (covered_cells st) = card (act_cells st)"
    by (simp add: covered_count_rows act_cells_rows [OF assms])
qed

lemma lesson_slots_card:
  assumes "i < length (e_place st)"
  shows "finite {s. covers (e_acts st) (e_place st) i s}"
    "card {s. covers (e_acts st) (e_place st) i s} = (if e_place st ! i \<noteq> None then ac_dur (e_acts st ! i) else 0)"
proof -
  have "{s. covers (e_acts st) (e_place st) i s} = (case e_place st ! i of None \<Rightarrow> {} | Some p \<Rightarrow> {p..<p + ac_dur (e_acts st ! i)})"
    using assms by (auto simp: covers_def split: option.splits)
  then show "finite {s. covers (e_acts st) (e_place st) i s}"
    "card {s. covers (e_acts st) (e_place st) i s} = (if e_place st ! i \<noteq> None then ac_dur (e_acts st ! i) else 0)"
    by (auto split: option.splits)
qed

lemma lesson_count:
  assumes len: "length (e_place st) = length (e_acts st)"
  shows "finite (lesson_periods st)" "card (lesson_periods st) = placed_periods st"
proof -
  let ?S = "\<lambda>i. {s. covers (e_acts st) (e_place st) i s}" and ?n = "length (e_acts st)"
  have eq: "lesson_periods st = (SIGMA i:{..<?n}. ?S i)" by (auto simp: lesson_periods_def)
  show "finite (lesson_periods st)" using lesson_slots_card(1) [of _ st] len unfolding eq by (intro finite_SigmaI) simp_all
  have "card (lesson_periods st) = (\<Sum>i<?n. card (?S i))"
    unfolding eq using lesson_slots_card(1) [of _ st] len by (intro card_SigmaI) simp_all
  also have "\<dots> = (\<Sum>i<?n. if e_place st ! i \<noteq> None then ac_dur (e_acts st ! i) else 0)"
    using lesson_slots_card(2) [of _ st] len by (intro sum.cong) simp_all
  also have "\<dots> = placed_periods st"
    using len by (simp add: placed_periods_def sum_list_sum_nth atLeast0LessThan)
  finally show "card (lesson_periods st) = placed_periods st" .
qed

text \<open>Where every lesson has its own cell, equal numbers mean that no other cell holds an activity.\<close>

definition home :: "eng \<Rightarrow> nat \<times> nat \<Rightarrow> ustr \<times> nat" where
  "home st x = (ac_class (e_acts st ! fst x), snd x)"

definition at_home :: "eng \<Rightarrow> bool" where
  "at_home st \<longleftrightarrow> (\<forall>(i, s) \<in> lesson_periods st. cell_at (e_cgrid st) (ac_class (e_acts st ! i)) s = GAct i)"

lemma at_homeD: "at_home st \<Longrightarrow> (i, s) \<in> lesson_periods st \<Longrightarrow> cell_at (e_cgrid st) (ac_class (e_acts st ! i)) s = GAct i"
  unfolding at_home_def by blast

lemma home_inj: "at_home st \<Longrightarrow> inj_on (home st) (lesson_periods st)"
proof (rule inj_onI)
  fix x y
  assume h: "at_home st" and xy: "x \<in> lesson_periods st" "y \<in> lesson_periods st" "home st x = home st y"
  have "cell_at (e_cgrid st) (ac_class (e_acts st ! fst z)) (snd z) = GAct (fst z)" if "z \<in> lesson_periods st" for z
    using at_homeD [OF h, of "fst z" "snd z"] that by simp
  note cell = this [OF xy(1)] this [OF xy(2)]
  have e: "ac_class (e_acts st ! fst x) = ac_class (e_acts st ! fst y)" "snd x = snd y" using xy(3) by (simp_all add: home_def)
  have "GAct (fst x) = GAct (fst y)" using cell [unfolded e] by metis
  then show "x = y" using e(2) by (simp add: prod_eq_iff)
qed

lemma home_cells: "at_home st \<Longrightarrow> home st ` lesson_periods st \<subseteq> act_cells st"
proof
  fix x
  assume h: "at_home st" and "x \<in> home st ` lesson_periods st"
  then obtain y where y: "y \<in> lesson_periods st" "x = home st y" by blast
  then have "cell_at (e_cgrid st) (fst x) (snd x) = GAct (fst y)"
    using at_homeD [OF h, of "fst y" "snd y"] by (simp add: home_def)
  then show "x \<in> act_cells st" by (auto simp: act_cells_def split_beta)
qed

lemma counts_exact:
  assumes d: "distinct (map fst (e_cgrid st))" and len: "length (e_place st) = length (e_acts st)" and h: "at_home st"
  shows "length (covered_cells st) = placed_periods st \<longleftrightarrow> home st ` lesson_periods st = act_cells st"
proof -
  have "card (home st ` lesson_periods st) = placed_periods st"
    using card_image [OF home_inj [OF h]] lesson_count [OF len] by simp
  then show ?thesis
    using card_subset_eq [OF covered_count(1) [OF d] home_cells [OF h]] covered_count(2) [OF d] by metis
qed

lemma exact_grid:
  assumes "at_home st" "home st ` lesson_periods st = act_cells st"
  shows "cell_at (e_cgrid st) c s = GAct i \<longleftrightarrow> (i, s) \<in> lesson_periods st \<and> ac_class (e_acts st ! i) = c"
proof
  assume cell: "cell_at (e_cgrid st) c s = GAct i"
  then have "(c, s) \<in> home st ` lesson_periods st" using assms(2) by (auto simp: act_cells_def)
  then obtain j where j: "(j, s) \<in> lesson_periods st" "c = ac_class (e_acts st ! j)" by (auto simp: home_def)
  then have "cell_at (e_cgrid st) c s = GAct j" using at_homeD [OF assms(1)] by simp
  with cell j show "(i, s) \<in> lesson_periods st \<and> ac_class (e_acts st ! i) = c" by simp
qed (use at_homeD [OF assms(1)] in blast)

lemma integrity_home: "verifyPlacementIntegrity st \<Longrightarrow> at_home st"
  using integrity_cell(1) by (auto simp: at_home_def lesson_periods_def)

lemma integrity_grid:
  assumes v: "verifyPlacementIntegrity st" and "distinct (map fst (e_cgrid st))" "length (e_place st) = length (e_acts st)"
  shows "cell_at (e_cgrid st) c s = GAct i \<longleftrightarrow>
    i < length (e_acts st) \<and> covers (e_acts st) (e_place st) i s \<and> ac_class (e_acts st ! i) = c"
proof -
  have "length (covered_cells st) = placed_periods st" using v by (simp add: verifyPlacementIntegrity_def)
  then have "home st ` lesson_periods st = act_cells st" using counts_exact assms(2,3) integrity_home [OF v] by simp
  from exact_grid [OF integrity_home [OF v] this] show ?thesis by (auto simp: lesson_periods_def)
qed

end
