(* ===== verification/FeGuardOk.thy ===== *)
theory FeGuardOk
  imports FeGateOk
begin

section \<open>FET engine: gate, guard and operators on a consistent state\<close>

text \<open>
  On a consistent state the integrity gate asks only that every unplaced lesson is exempt and that the
  pupils' empty cells have not grown. The wrapper of the operators lets out a state that passes the gate
  or the state it was given; perturbing, vacating and repairing keep a consistent state consistent.
\<close>

subsection \<open>A consistent state passes the gate\<close>

definition seen_ok :: "eng \<Rightarrow> seen \<Rightarrow> bool" where
  "seen_ok st seen \<longleftrightarrow> (\<forall>t s j. map_of seen (t, s) = Some j \<longrightarrow>
     covers (e_acts st) (e_place st) j s \<and> t \<in> set (act_teachers (e_acts st ! j)))"

lemma seen_ok_add:
  "seen_ok st seen \<Longrightarrow> covers (e_acts st) (e_place st) i s \<Longrightarrow> t \<in> set (act_teachers (e_acts st ! i)) \<Longrightarrow>
     seen_ok st (((t, s), i) # seen)"
  unfolding seen_ok_def by simp

lemma claim_teachers_complete:
  assumes g: "good B st (e_place st)" and c: "covers (e_acts st) (e_place st) i s"
  shows "seen_ok st seen \<Longrightarrow> set ts \<subseteq> set (act_teachers (e_acts st ! i)) \<Longrightarrow>
    \<exists>seen'. claim_teachers st i s ts seen = Some seen' \<and> seen_ok st seen'"
proof (induction ts arbitrary: seen)
  case Nil
  then show ?case by simp
next
  case (Cons t ts)
  have t: "t \<in> set (act_teachers (e_acts st ! i))" using Cons.prems(2) by simp
  have off: "(t, s) \<notin> e_toff st" using goodD(4) [OF g c] t unfolding open_cell_def by blast
  have mine: "j = i" if j: "map_of seen (t, s) = Some j" for j
  proof (rule ccontr)
    assume ne: "j \<noteq> i"
    have "covers (e_acts st) (e_place st) j s" "t \<in> set (act_teachers (e_acts st ! j))"
      using Cons.prems(1) j unfolding seen_ok_def by blast+
    then show False using goodD(5) [OF g ne _ c] t unfolding disjoint_acts_def by blast
  qed
  have "seen_ok st (((t, s), i) # seen)" by (rule seen_ok_add [OF Cons.prems(1) c t])
  from Cons.IH [OF this] Cons.prems(2) obtain seen' where
    "claim_teachers st i s ts (((t, s), i) # seen) = Some seen'" "seen_ok st seen'" by auto
  then show ?case using off mine by (auto split: option.splits)
qed

lemma claim_slots_complete:
  assumes con: "consistent B st" and i: "i < length (e_acts st)"
  shows "seen_ok st seen \<Longrightarrow> \<forall>s \<in> set ss. covers (e_acts st) (e_place st) i s \<Longrightarrow>
    \<exists>seen'. claim_slots st i (e_acts st ! i) ss seen = Some seen' \<and> seen_ok st seen'"
proof (induction ss arbitrary: seen)
  case Nil
  then show ?case by simp
next
  case (Cons s ss)
  have ag: "agree B st" and g: "good B st (e_place st)" using con by (simp_all add: consistent_def)
  have c: "covers (e_acts st) (e_place st) i s" using Cons.prems(2) by simp
  have cell: "cell_at (e_cgrid st) (ac_class (e_acts st ! i)) s = GAct i"
    using displaysD(1) [OF agreeD(6) [OF ag]] c i by simp
  have op: "(ac_class (e_acts st ! i), s) \<notin> e_off st" "map_of (e_fixed st) (ac_class (e_acts st ! i), s) = None"
    using goodD(4) [OF g c] unfolding open_cell_def by blast+
  obtain seen1 where t: "claim_teachers st i s (act_teachers (e_acts st ! i)) seen = Some seen1" "seen_ok st seen1"
    using claim_teachers_complete [OF g c Cons.prems(1)] by blast
  from Cons.IH [OF t(2)] Cons.prems(2) show ?case using t(1) cell op by simp
qed

lemma claim_acts_complete:
  assumes con: "consistent B st" and ex: "\<forall>i < length (e_acts st). e_place st ! i = None \<longrightarrow> exempt st i"
  shows "seen_ok st seen \<Longrightarrow> \<forall>i \<in> set is. i < length (e_acts st) \<Longrightarrow> \<exists>seen'. claim_acts st is seen = Some seen'"
proof (induction "is" arbitrary: seen)
  case Nil
  then show ?case by simp
next
  case (Cons i "is")
  have i: "i < length (e_acts st)" using Cons.prems(2) by simp
  have ag: "agree B st" using con by (simp add: consistent_def)
  have row: "map_of (e_cgrid st) (ac_class (e_acts st ! i)) \<noteq> None" by (rule agreeD(4) [OF ag i])
  show ?case
  proof (cases "e_place st ! i")
    case None
    then show ?thesis using Cons ex by simp
  next
    case (Some p)
    have "\<forall>s \<in> set (slots_from p (ac_dur (e_acts st ! i))). covers (e_acts st) (e_place st) i s"
      using Some i agreeD(1) [OF ag] by (simp add: covers_def mem_slots_from)
    from claim_slots_complete [OF con i Cons.prems(1) this] obtain seen1 where
      s: "claim_slots st i (e_acts st ! i) (slots_from p (ac_dur (e_acts st ! i))) seen = Some seen1" "seen_ok st seen1" by blast
    have "\<exists>seen'. claim_acts st is seen1 = Some seen'" by (rule Cons.IH [OF s(2)]) (use Cons.prems(2) in simp)
    then show ?thesis using Some row s(1) by (simp add: Let_def del: not_None_eq)
  qed
qed

lemma consistent_home:
  assumes "consistent B st"
  shows "at_home st" "home st ` lesson_periods st = act_cells st"
proof -
  have ag: "agree B st" using assms by (simp add: consistent_def)
  note D = displaysD(1) [OF agreeD(6) [OF ag]]
  show "at_home st" using D unfolding at_home_def lesson_periods_def by blast
  then have "home st ` lesson_periods st \<subseteq> act_cells st" by (rule home_cells)
  moreover have "(c, s) \<in> home st ` lesson_periods st" if "(c, s) \<in> act_cells st" for c s
  proof -
    from that obtain i where "cell_at (e_cgrid st) c s = GAct i" unfolding act_cells_def by blast
    then have "(i, s) \<in> lesson_periods st" "home st (i, s) = (c, s)" using D by (simp_all add: lesson_periods_def home_def)
    then show ?thesis by force
  qed
  ultimately show "home st ` lesson_periods st = act_cells st" by (metis subrelI subset_antisym)
qed

lemma covered_cell_at:
  assumes d: "distinct (map fst (e_cgrid st))" and m: "(s, v) \<in> set (covered_cells st)"
  shows "\<exists>c. cell_at (e_cgrid st) c s = GAct v"
proof -
  obtain x y where y: "x \<in> set (e_cgrid st)" "y < length (snd x)"
    "(case snd x ! y of GAct w \<Rightarrow> Some (y, w) | _ \<Rightarrow> None) = Some (s, v)"
    using m by (auto simp: covered_cells_def in_map_filter)
  have x: "x \<in> set (e_cgrid st)" "s < length (snd x)" "snd x ! s = GAct v"
    using y by (cases "snd x ! y"; simp)+
  have "map_of (e_cgrid st) (fst x) = Some (snd x)" by (rule map_of_is_SomeI [OF d]) (use x(1) in simp)
  then have "cell_at (e_cgrid st) (fst x) s = GAct v" using x(2,3) by (simp add: cell_at_def)
  then show ?thesis by blast
qed

lemma consistent_gate:
  assumes con: "consistent B st"
  shows "verifyPlacementIntegrity st \<longleftrightarrow>
    (\<forall>i < length (e_acts st). e_place st ! i = None \<longrightarrow> exempt st i)
    \<and> (case e_holes st of Some n \<Rightarrow> countStudentHoles st \<le> n | None \<Rightarrow> True)"
proof
  assume v: "verifyPlacementIntegrity st"
  then show "(\<forall>i < length (e_acts st). e_place st ! i = None \<longrightarrow> exempt st i)
    \<and> (case e_holes st of Some n \<Rightarrow> countStudentHoles st \<le> n | None \<Rightarrow> True)"
    using integrity_unplaced [OF v] by (simp add: verifyPlacementIntegrity_def)
next
  assume r: "(\<forall>i < length (e_acts st). e_place st ! i = None \<longrightarrow> exempt st i)
    \<and> (case e_holes st of Some n \<Rightarrow> countStudentHoles st \<le> n | None \<Rightarrow> True)"
  have ag: "agree B st" using con by (simp add: consistent_def)
  note d = agreeD(9) [OF ag] and len = agreeD(1) [OF ag]
  have "claim_acts st [0..<length (e_acts st)] [] \<noteq> None"
    using claim_acts_complete [OF con _, of "[]" "[0..<length (e_acts st)]"] r by (auto simp: seen_ok_def)
  moreover have "length (covered_cells st) = placed_periods st"
    using counts_exact [OF d len consistent_home(1) [OF con]] consistent_home(2) [OF con] by simp
  moreover have "\<not> orphan_cell st s v" if "(s, v) \<in> set (covered_cells st)" for s v
  proof -
    from covered_cell_at [OF d that] obtain c where "cell_at (e_cgrid st) c s = GAct v" by blast
    then have "v < length (e_acts st)" "covers (e_acts st) (e_place st) v s"
      using displaysD(1) [OF agreeD(6) [OF ag]] by simp_all
    then show ?thesis by (auto simp: orphan_cell_def covers_def)
  qed
  ultimately show "verifyPlacementIntegrity st" using r by (auto simp: verifyPlacementIntegrity_def list_all_iff)
qed

subsection \<open>The wrapper\<close>

lemma restored: "grids (restoreStateSnapshot (captureStateSnapshot st) st') = grids st"
  by (simp add: grids_def restoreStateSnapshot_def captureStateSnapshot_def)

lemma date_now_fields:
  "sig (snd (date_now st)) = sig st" "grids (snd (date_now st)) = grids st"
  by (simp_all add: date_now_def sig_def grids_def)

lemma guarded_outcome:
  "fst (guarded deadline impl st) = None \<and> grids (snd (guarded deadline impl st)) = grids st
   \<or> fst (guarded deadline impl st) \<noteq> None \<and> verifyPlacementIntegrity (snd (guarded deadline impl st))"
proof -
  obtain late st0 where l: "(case deadline of None \<Rightarrow> (False, st) | Some d \<Rightarrow> (case date_now st of (t, st1) \<Rightarrow> (t > d, st1))) = (late, st0)"
    by (cases "case deadline of None \<Rightarrow> (False, st) | Some d \<Rightarrow> (case date_now st of (t, st1) \<Rightarrow> (t > d, st1))")
  have g: "grids st0 = grids st" using l date_now_fields(2) [of st] by (cases deadline) (auto split: prod.splits)
  have rej: "grids (rejected (captureStateSnapshot st0) st1) = grids st" for st1
    using restored [of st0 st1] g by (simp add: rejected_def grids_def Let_def)
  obtain r st1 where i: "impl st0 = (r, st1)" by (cases "impl st0")
  show ?thesis
    using g rej by (cases r) (simp_all add: guarded_def l i)
qed

end
