(* ===== verification/FeOpsOk.thy ===== *)
theory FeOpsOk
  imports FeGuardOk
begin

section \<open>FET engine: the operators drop no lesson\<close>

text \<open>
  \<open>steady\<close> says that a state is consistent and places the same activities as the one before. Perturbing,
  vacating and ruin-and-recreate are steady; repairing places more and registers what stays out.
\<close>

definition steady :: "fe_base \<Rightarrow> eng \<Rightarrow> eng \<Rightarrow> bool" where
  "steady B st st' \<longleftrightarrow> consistent B st' \<and> sig st' = sig st \<and> placed st' = placed st"

lemma steady_refl: "consistent B st \<Longrightarrow> steady B st st"
  by (simp add: steady_def)

lemma steady_trans: "steady B st st1 \<Longrightarrow> steady B st1 st2 \<Longrightarrow> steady B st st2"
  by (simp add: steady_def)

lemma steadyD: "steady B st st' \<Longrightarrow> consistent B st'" "steady B st st' \<Longrightarrow> e_acts st' = e_acts st"
  "steady B st st' \<Longrightarrow> placed st' = placed st" "steady B st st' \<Longrightarrow> sig st' = sig st"
  by (simp_all add: steady_def sig_def)

lemma steady_ctrl: "steady B st st' \<Longrightarrow> sig st'' = sig st' \<Longrightarrow> grids st'' = grids st' \<Longrightarrow> steady B st st''"
  using consistent_cong [of st'' st' B] grids_placed [of st'' st'] by (simp add: steady_def)

lemma steady_restored:
  assumes "consistent B st" "sig st' = sig st"
  shows "steady B st (restoreStateSnapshot (captureStateSnapshot st) st')"
proof -
  have "sig (restoreStateSnapshot (captureStateSnapshot st) st') = sig st"
    using assms(2) by (simp add: sig_def restoreStateSnapshot_def)
  from steady_ctrl [OF steady_refl [OF assms(1)] this restored] show ?thesis .
qed

lemma placed_lt: "consistent B st \<Longrightarrow> i \<in> placed st \<Longrightarrow> i < length (e_acts st)"
  using agreeD(1) by (auto simp: consistent_def placed_def)

lemma unplace_consistent:
  assumes "consistent B st" "i < length (e_acts st)"
  shows "consistent B (unplaceActivity i st)" "sig (unplaceActivity i st) = sig st"
    "e_place (unplaceActivity i st) = (e_place st)[i := None]" "placed (unplaceActivity i st) = placed st - {i}"
proof -
  have u: "agree B (unplaceActivity i st)" "frame st (unplaceActivity i st)" "e_place (unplaceActivity i st) = (e_place st)[i := None]"
    using unplace_agree assms unfolding consistent_def by blast+
  note s = frame_fields(1) [OF u(2)]
  have "good B st ((e_place st)[i := None])" using assms good_remove by (simp add: consistent_def)
  then show "consistent B (unplaceActivity i st)" using u(1,3) good_cong [OF s, of B] by (simp add: consistent_def)
  show "sig (unplaceActivity i st) = sig st" by (rule s)
  show "e_place (unplaceActivity i st) = (e_place st)[i := None]" by (rule u(3))
  show "placed (unplaceActivity i st) = placed st - {i}"
    by (auto simp: placed_def u(3) nth_update split: if_splits)
qed

lemma fresh_swap_result:
  assumes "consistent B st" "i < length (e_acts st)" "\<forall>s \<in> set (all_slots_of restrict). s < total_slots"
  shows "swap_result B i st (fresh_swap restrict i st)"
proof -
  have s: "sig (st\<lparr>e_calls := 0\<rparr>) = sig st" "grids (st\<lparr>e_calls := 0\<rparr>) = grids st" by (simp_all add: sig_def grids_def)
  have "consistent B (st\<lparr>e_calls := 0\<rparr>)" using consistent_cong [OF s] assms(1) by simp
  then have "swap_result B i (st\<lparr>e_calls := 0\<rparr>) (fresh_swap restrict i st)"
    unfolding fresh_swap_def using assms(2,3) by (intro randomSwap_ok) (simp_all add: consistent_def)
  then show ?thesis using grids_placed [OF s(2)] s(1) by (simp add: swap_result_def)
qed

lemma swap_resultD:
  assumes "swap_result B i st (ok, st')"
  shows "consistent B st'" "sig st' = sig st" "e_acts st' = e_acts st" "ok \<Longrightarrow> placed st' = insert i (placed st)"
    "\<not> ok \<Longrightarrow> e_place st' = e_place st" "\<not> ok \<Longrightarrow> placed st' = placed st"
  using assms by (auto simp: swap_result_def consistent_def sig_def placed_def)

subsection \<open>Perturbing\<close>

lemma shake_steady:
  assumes con: "consistent B st" and ids: "\<forall>i \<in> set ids. i < length (e_acts st)" "ids \<noteq> []"
  shows "steady B st (shake_once ids st)"
proof -
  obtain k rng where k: "nextInt (length ids) (e_rng st) = (k, rng)" by (cases "nextInt (length ids) (e_rng st)")
  let ?i = "ids ! k"
  define st1 where "st1 = st\<lparr>e_rng := rng\<rparr>"
  have s1: "steady B st st1" by (rule steady_ctrl [OF steady_refl [OF con]]) (simp_all add: st1_def sig_def grids_def)
  have "k < length ids" using nextInt_bound [of "length ids" "e_rng st"] k ids(2) by simp
  then have i: "?i < length (e_acts st1)" using ids(1) steadyD(2) [OF s1] by simp
  show ?thesis
  proof (cases "e_place st1 ! ?i")
    case None
    then have "shake_once ids st = st1" by (simp add: shake_once_def k Let_def st1_def)
    then show ?thesis using s1 by simp
  next
    case (Some old)
    note U = unplace_consistent [OF steadyD(1) [OF s1] i]
    obtain ok st2 where f: "fresh_swap None ?i (unplaceActivity ?i st1) = (ok, st2)" by (cases "fresh_swap None ?i (unplaceActivity ?i st1)")
    have i2: "?i < length (e_acts (unplaceActivity ?i st1))" using i U(2) by (simp add: sig_def)
    note R = swap_resultD [OF fresh_swap_result [OF U(1) i2 every_slot, unfolded f]]
    have mem: "?i \<in> placed st1" using Some i agreeD(1) steadyD(1) [OF s1] by (auto simp: placed_def consistent_def)
    have r: "shake_once ids st = (if ok then st2 else placeActivityDirect ?i old st2)"
      using Some f by (simp add: shake_once_def k Let_def st1_def)
    show ?thesis
    proof (cases ok)
      case True
      then have "steady B st1 st2" using R U(2,4) mem by (auto simp: steady_def)
      then show ?thesis using r True steady_trans [OF s1] by simp
    next
      case False
      have pl: "e_place st2 = (e_place st1)[?i := None]" using R(5) U(3) False by simp
      have same: "(e_place st2)[?i := Some old] = e_place st1" using Some list_update_id [of "e_place st1" ?i] by (simp add: pl)
      have sg: "sig st2 = sig st1" using R(2) U(2) by simp
      have "good B st2 ((e_place st2)[?i := Some old])"
        using steadyD(1) [OF s1] good_cong [OF sg] same by (simp add: consistent_def)
      moreover have "?i < length (e_acts st2)" "e_place st2 ! ?i = None"
        using i sg pl agreeD(1) [of B st1] steadyD(1) [OF s1] by (simp_all add: sig_def consistent_def)
      ultimately have P: "agree B (placeActivityDirect ?i old st2)" "frame st2 (placeActivityDirect ?i old st2)"
        "e_place (placeActivityDirect ?i old st2) = e_place st1"
        using place_agree [of B st2 ?i old] R(1) same unfolding consistent_def by simp_all
      have sg2: "sig (placeActivityDirect ?i old st2) = sig st1" using frame_fields(1) [OF P(2)] sg by simp
      have "steady B st1 (placeActivityDirect ?i old st2)"
        using P(1,3) sg2 good_cong [OF sg2, of B] steadyD(1) [OF s1] by (simp add: steady_def consistent_def placed_def)
      then show ?thesis using r False steady_trans [OF s1] by simp
    qed
  qed
qed

lemma shake_all_steady:
  assumes "consistent B st" "\<forall>i \<in> set ids. i < length (e_acts st)" "ids \<noteq> []"
  shows "steady B st ((shake_once ids ^^ n) st)"
proof (induction n)
  case 0
  then show ?case using steady_refl assms(1) by simp
next
  case (Suc n)
  have "steady B ((shake_once ids ^^ n) st) (shake_once ids ((shake_once ids ^^ n) st))"
    by (rule shake_steady [OF steadyD(1) [OF Suc.IH]]) (use steadyD(2) [OF Suc.IH] assms(2,3) in simp_all)
  then show ?case using steady_trans [OF Suc.IH] by simp
qed

lemma perturb_steady:
  assumes con: "consistent B st"
  shows "steady B st (perturbForRestart n st)"
proof -
  define ids where "ids = filter (\<lambda>i. \<not> ac_fixed (e_acts st ! i) \<and> e_place st ! i \<noteq> None) [0..<length (e_acts st)]"
  define st0 where "st0 = st\<lparr>e_limit := max (e_limit st) 3000\<rparr>"
  define st2 where "st2 = ((shake_once ids ^^ n) st0)\<lparr>e_limit := e_limit st\<rparr>"
  have p: "perturbForRestart n st = (if ids = [] then st else if verifyPlacementIntegrity st2 then st2
      else restoreStateSnapshot (captureStateSnapshot st) st2)"
    by (simp add: perturbForRestart_def ids_def st2_def st0_def Let_def)
  show ?thesis
  proof (cases "ids = []")
    case False
    have s0: "steady B st st0" by (rule steady_ctrl [OF steady_refl [OF con]]) (simp_all add: st0_def sig_def grids_def)
    have "steady B st0 ((shake_once ids ^^ n) st0)"
      by (rule shake_all_steady [OF steadyD(1) [OF s0] _ False]) (simp add: ids_def st0_def)
    from steady_ctrl [OF steady_trans [OF s0 this]] have s2: "steady B st st2"
      by (simp add: st2_def sig_def grids_def)
    then show ?thesis using steady_restored [OF con steadyD(4) [OF s2]] False by (simp add: p)
  qed (simp add: p steady_refl con)
qed

lemma perturb_gate:
  "grids (perturbForRestart n st) = grids st \<or> verifyPlacementIntegrity (perturbForRestart n st)"
  by (simp add: perturbForRestart_def Let_def restored)

subsection \<open>Placing again\<close>

lemma place_again_ok:
  "consistent B st \<Longrightarrow> \<forall>i \<in> set is. i < length (e_acts st) \<Longrightarrow> place_again is st = (ok, st') \<Longrightarrow>
     consistent B st' \<and> sig st' = sig st \<and> (ok \<longrightarrow> placed st' = placed st \<union> set is)"
proof (induction "is" arbitrary: st)
  case Nil
  then show ?case by simp
next
  case (Cons i "is")
  obtain ok1 st1 where f: "fresh_swap None i st = (ok1, st1)" by (cases "fresh_swap None i st")
  have i: "i < length (e_acts st)" using Cons.prems(2) by simp
  note R = swap_resultD [OF fresh_swap_result [OF Cons.prems(1) i every_slot, unfolded f]]
  show ?case
  proof (cases ok1)
    case True
    then have r: "place_again is st1 = (ok, st')" using Cons.prems(3) f by simp
    have "consistent B st' \<and> sig st' = sig st1 \<and> (ok \<longrightarrow> placed st' = placed st1 \<union> set is)"
      by (rule Cons.IH [OF R(1) _ r]) (use Cons.prems(2) R(3) in simp)
    then show ?thesis using R(2,4) True by auto
  next
    case False
    then have "ok = False" "st' = st1" using Cons.prems(3) f by simp_all
    then show ?thesis using R(1,2) by simp
  qed
qed

lemma unplace_all_ok:
  "consistent B st \<Longrightarrow> \<forall>i \<in> set is. i < length (e_acts st) \<Longrightarrow>
     consistent B (fold unplaceActivity is st) \<and> sig (fold unplaceActivity is st) = sig st
     \<and> placed (fold unplaceActivity is st) = placed st - set is \<and> e_place (fold unplaceActivity is st) = clear_acts is (e_place st)"
proof (induction "is" arbitrary: st)
  case Nil
  then show ?case by simp
next
  case (Cons i "is")
  have i: "i < length (e_acts st)" using Cons.prems(2) by simp
  note U = unplace_consistent [OF Cons.prems(1) i]
  have "\<forall>j \<in> set is. j < length (e_acts (unplaceActivity i st))" using Cons.prems(2) U(2) by (simp add: sig_def)
  from Cons.IH [OF U(1) this] show ?case using U(2-4) by (auto simp: clear_acts_def)
qed

subsection \<open>Vacating\<close>

text \<open>The teacher teaches none of the movable lessons at the slots.\<close>

definition vacant :: "ustr \<Rightarrow> nat list \<Rightarrow> eng \<Rightarrow> bool" where
  "vacant t slots st \<longleftrightarrow> (\<forall>s \<in> set slots. \<forall>i. cell_at (e_tgrid st) t s \<noteq> GAct i)"

lemma mem_lessons_at: "i \<in> set (lessons_at st t slots) \<longleftrightarrow> (\<exists>s \<in> set slots. cell_at (e_tgrid st) t s = GAct i)"
proof -
  have "(case c of GAct j \<Rightarrow> Some j | _ \<Rightarrow> None) = Some i \<longleftrightarrow> c = GAct i" for c by (cases c) auto
  then show ?thesis unfolding lessons_at_def in_map_filter by simp
qed

lemma teacher_cell:
  "consistent B st \<Longrightarrow> cell_at (e_tgrid st) t s = GAct i \<longleftrightarrow>
     i < length (e_acts st) \<and> own_teacher (e_acts st ! i) t \<and> covers (e_acts st) (e_place st) i s"
proof -
  assume "consistent B st"
  then have "agree B st" by (simp add: consistent_def)
  from displaysD(1) [OF agreeD(7) [OF this]] show ?thesis .
qed

lemma agree_ban: "agree B (st\<lparr>e_toff := T\<rparr>) = agree B st"
  unfolding agree_def by simp

lemma good_ban:
  assumes "good B st (e_place st)" "\<And>i s. covers (e_acts st) (e_place st) i s \<Longrightarrow> open_cell B (st\<lparr>e_toff := T\<rparr>) (e_acts st ! i) s"
  shows "consistent B (st\<lparr>e_toff := T\<rparr>) = agree B st"
  using assms by (simp add: consistent_def agree_ban good_def)

text \<open>Forbidding slots on which the teacher teaches nothing keeps the invariant; so does lifting a ban.\<close>

lemma forbid_consistent:
  assumes con: "consistent B st" and v: "vacant t slots st"
  shows "consistent B (forbid t slots st)"
proof -
  let ?f = "forbid t slots st"
  have ag: "agree B st" and g: "good B st (e_place st)" using con by (simp_all add: consistent_def)
  have oc: "open_cell B ?f (e_acts st ! i) s" if c: "covers (e_acts st) (e_place st) i s" for i s
  proof -
    have i: "i < length (e_acts st)" using c agreeD(1) [OF ag] by (simp add: covers_def)
    have "\<not> (s \<in> set slots \<and> own_teacher (e_acts st ! i) t)"
      using v teacher_cell [OF con, of t s i] i c unfolding vacant_def by blast
    then show ?thesis using goodD(4) [OF g c] by (auto simp: open_cell_def forbid_def)
  qed
  from good_ban [OF g oc [unfolded forbid_def]] show ?thesis using ag by (simp add: forbid_def)
qed

lemma lift_consistent:
  assumes "consistent B st" "T \<subseteq> e_toff st"
  shows "consistent B (st\<lparr>e_toff := T\<rparr>)"
proof -
  have ag: "agree B st" and g: "good B st (e_place st)" using assms(1) by (simp_all add: consistent_def)
  have "open_cell B (st\<lparr>e_toff := T\<rparr>) (e_acts st ! i) s" if "covers (e_acts st) (e_place st) i s" for i s
    using goodD(4) [OF g that] assms(2) by (auto simp: open_cell_def)
  from good_ban [OF g this] show ?thesis using ag by simp
qed

lemma unplaced_vacant:
  assumes con: "consistent B st"
  shows "vacant t slots (fold unplaceActivity (lessons_at st t slots) st)"
proof -
  let ?is = "lessons_at st t slots" and ?st1 = "fold unplaceActivity (lessons_at st t slots) st"
  have "\<forall>i \<in> set ?is. i < length (e_acts st)" using teacher_cell [OF con] by (auto simp: mem_lessons_at)
  note U = unplace_all_ok [OF con this]
  have e: "e_acts ?st1 = e_acts st" using U by (simp add: sig_def)
  show ?thesis
    unfolding vacant_def
  proof (intro ballI allI notI)
    fix s i
    assume s: "s \<in> set slots" and c: "cell_at (e_tgrid ?st1) t s = GAct i"
    have "covers (e_acts st) (clear_acts ?is (e_place st)) i s" "own_teacher (e_acts st ! i) t" "i < length (e_acts st)"
      using teacher_cell [of B ?st1 t s i] U c e by simp_all
    moreover from this have "i \<notin> set ?is" "covers (e_acts st) (e_place st) i s"
      by (auto simp: covers_def nth_clear split: if_splits)
    ultimately show False using s teacher_cell [OF con, of t s i] mem_lessons_at by blast
  qed
qed

lemma vacate_ok:
  assumes con: "consistent B st" and v: "vacate most accept t slots st = (r, st')"
  shows "steady B st st'"
    and "r = None \<Longrightarrow> grids st' = grids st"
    and "r = Some m \<Longrightarrow> accept st' = Some m \<and> vacant t slots st'"
proof -
  define targets where "targets = lessons_at st t slots"
  define st0 where "st0 = fold unplaceActivity targets st"
  define st1 where "st1 = (forbid t slots st0)\<lparr>e_limit := 250\<rparr>"
  obtain ok st2 where p: "place_again targets st1 = (ok, st2)" by (cases "place_again targets st1")
  define st3 where "st3 = st2\<lparr>e_toff := e_toff st\<rparr>"
  define skip where "skip \<longleftrightarrow> map_of (e_tgrid st) t = None \<or> list_ex (\<lambda>s. cell_at (e_tgrid st) t s = GFixed) slots
    \<or> targets = [] \<or> length targets > most"
  have V: "(r, st') = (if skip then (None, st) else case (if ok then accept st3 else None) of
      Some m \<Rightarrow> (Some m, st3) | None \<Rightarrow> (None, restoreStateSnapshot (captureStateSnapshot st) st3))"
    unfolding v [symmetric] vacate_def Let_def targets_def [symmetric] st0_def [symmetric] st1_def [symmetric] p split
      st3_def [symmetric] skip_def [symmetric] by (rule refl)
  have bnd: "\<forall>i \<in> set targets. i < length (e_acts st)"
    using teacher_cell [OF con] by (auto simp: targets_def mem_lessons_at)
  have inp: "set targets \<subseteq> placed st"
    using teacher_cell [OF con] by (auto simp: targets_def mem_lessons_at placed_def covers_def)
  note U = unplace_all_ok [OF con bnd, folded st0_def]
  have vac0: "vacant t slots st0" using unplaced_vacant [OF con] by (simp add: st0_def targets_def)
  have c1: "consistent B st1"
    using forbid_consistent [OF _ vac0, of B] U consistent_cong [of st1 "forbid t slots st0" B]
    by (simp add: st1_def sig_def grids_def)
  have b1: "\<forall>i \<in> set targets. i < length (e_acts st1)" using bnd U by (simp add: st1_def forbid_def sig_def)
  note P = place_again_ok [OF c1 b1 p]
  have t2: "e_toff st2 = e_toff st \<union> set (map (\<lambda>s. (t, s)) slots)"
    using P U by (simp add: sig_def st1_def forbid_def)
  have c3: "consistent B st3" unfolding st3_def by (rule lift_consistent) (use P t2 in simp_all)
  have s3: "sig st3 = sig st" using P U by (simp add: st3_def sig_def st1_def forbid_def)
  have p3: "placed st3 = placed st" if ok
  proof -
    have "placed st3 = placed st2" "placed st1 = placed st0" by (simp_all add: st3_def st1_def forbid_def placed_def)
    then show ?thesis using P U inp that by blast
  qed
  have v3: "vacant t slots st3"
    unfolding vacant_def
  proof (intro ballI allI notI)
    fix s i
    assume s: "s \<in> set slots" and "cell_at (e_tgrid st3) t s = GAct i"
    then have "own_teacher (e_acts st2 ! i) t" "covers (e_acts st2) (e_place st2) i s"
      using teacher_cell [of B st2 t s i] P by (simp_all add: st3_def)
    moreover have "good B st2 (e_place st2)" using P by (simp add: consistent_def)
    ultimately have "(t, s) \<notin> e_toff st2" using goodD(4) open_cell_def by blast
    then show False using t2 s by auto
  qed
  show "steady B st st'"
    using V steady_restored [OF con s3] steady_refl [OF con] c3 s3 p3
    by (auto simp: steady_def split: if_splits option.splits)
  show "grids st' = grids st" if "r = None" using V that restored by (auto split: if_splits option.splits)
  show "accept st' = Some m \<and> vacant t slots st'" if "r = Some m"
    using V that v3 by (auto split: if_splits option.splits)
qed

subsection \<open>Ruin and recreate\<close>

text \<open>The activities taken off are those of the list; nothing else moves.\<close>

definition ruined :: "fe_base \<Rightarrow> eng \<Rightarrow> nat list \<times> eng \<Rightarrow> bool" where
  "ruined B st r \<longleftrightarrow> consistent B (snd r) \<and> sig (snd r) = sig st \<and> set (fst r) \<subseteq> placed st
     \<and> placed (snd r) = placed st - set (fst r)"

lemma ruin_slot_ok:
  assumes "ruined B st r"
  shows "ruined B st (ruin_slot t s r)"
proof -
  obtain ids st1 where r: "r = (ids, st1)" by (cases r)
  have R: "consistent B st1" "sig st1 = sig st" "set ids \<subseteq> placed st" "placed st1 = placed st - set ids"
    using assms by (simp_all add: ruined_def r)
  show ?thesis
  proof (cases "cell_at (e_tgrid st1) t s")
    case (GAct i)
    then have i: "i < length (e_acts st1)" "covers (e_acts st1) (e_place st1) i s" using teacher_cell [OF R(1)] by simp_all
    have "i \<in> placed st1" using i by (auto simp: placed_def covers_def)
    with R unplace_consistent [OF R(1) i(1)] have "ruined B st (ids @ [i], unplaceActivity i st1)"
      by (auto simp: ruined_def)
    then show ?thesis using assms by (simp add: ruin_slot_def GAct r)
  qed (use assms in \<open>simp_all add: ruin_slot_def r\<close>)
qed

lemma ruin_teachers_ok:
  assumes "consistent B st"
  shows "ruined B st (fold ruin_teacher ts ([], st))"
proof -
  have one: "ruined B st (ruin_teacher t r)" if "ruined B st r" for t r
    unfolding ruin_teacher_def
    using fold_invariant [of "[0..<total_slots]" "\<lambda>_. True" "ruined B st" r "ruin_slot t"] ruin_slot_ok that by simp
  show ?thesis
    by (rule fold_invariant [where Q = "\<lambda>_. True"]) (use assms one in \<open>simp_all add: ruined_def\<close>)
qed

lemma ruin_slot_keeps_ids: "fst (ruin_slot t s r) = [] \<Longrightarrow> ruin_slot t s r = r"
  by (auto simp: ruin_slot_def split: gcell.splits)

lemma ruin_slot_grows: "length (fst r) \<le> length (fst (ruin_slot t s r))"
  by (auto simp: ruin_slot_def split: gcell.splits)

lemma fold_still:
  assumes "\<And>x r. length (fst r) \<le> length (fst (f x r))" "\<And>x r. fst (f x r) = [] \<Longrightarrow> f x r = r"
  shows "length (fst r) \<le> length (fst (fold f xs r))" "fst (fold f xs r) = [] \<Longrightarrow> fold f xs r = r"
proof (induction xs arbitrary: r)
  case (Cons x xs)
  { case 1
    then show ?case using Cons.IH(1) [of "f x r"] assms(1) [of r x] by simp
  next
    case 2
    then have "fold f xs (f x r) = f x r" using Cons.IH(2) [of "f x r"] by simp
    moreover from this have "f x r = r" using 2 assms(2) [of x r] by simp
    ultimately show ?case by simp }
qed simp_all

lemma lns_nothing:
  assumes "fold ruin_teacher ts (ids, st) = ([], st1)"
  shows "st1 = st"
proof -
  have one: "length (fst r) \<le> length (fst (ruin_teacher t r))" "fst (ruin_teacher t r) = [] \<Longrightarrow> ruin_teacher t r = r" for t r
    using fold_still [of "ruin_slot t", OF ruin_slot_grows ruin_slot_keeps_ids] by (simp_all add: ruin_teacher_def split: if_splits)
  from fold_still(2) [of ruin_teacher ts "(ids, st)", OF one] assms show ?thesis by simp
qed

lemma lns_ok:
  assumes con: "consistent B st" and v: "tryLnsRuinAndRecreate ts best mode st = (r, st')"
  shows "steady B st st'"
    and "r = None \<Longrightarrow> grids st' = grids st"
    and "r = Some m \<Longrightarrow> m = evaluateMetrics st' \<and> isLessonBlockSafe st' [] \<and> compareMetrics st' mode (Some m) (Some best) < 0"
proof -
  obtain ids st1 where f: "fold ruin_teacher ts ([], st) = (ids, st1)" by (cases "fold ruin_teacher ts ([], st)")
  have R: "consistent B st1" "sig st1 = sig st" "set ids \<subseteq> placed st" "placed st1 = placed st - set ids"
    using ruin_teachers_ok [OF con, of ts] by (simp_all add: ruined_def f)
  define order where "order = sort_key (\<lambda>i. free_class_cells st1 (ac_class (e_acts st1 ! i))) ids"
  define st0 where "st0 = st1\<lparr>e_limit := 6000\<rparr>"
  obtain ok st2 where p: "place_again order st0 = (ok, st2)" by (cases "place_again order st0")
  define better where "better \<longleftrightarrow> ok \<and> isLessonBlockSafe st2 [] \<and> compareMetrics st2 mode (Some (evaluateMetrics st2)) (Some best) < 0"
  have V: "(r, st') = (if ids = [] then (None, st1)
      else if better then (Some (evaluateMetrics st2), st2) else (None, restoreStateSnapshot (captureStateSnapshot st) st2))"
    unfolding v [symmetric] tryLnsRuinAndRecreate_def Let_def f split order_def [symmetric] st0_def [symmetric] p
      better_def [symmetric] by (rule refl)
  have s0: "sig st0 = sig st1" "grids st0 = grids st1" by (simp_all add: st0_def sig_def grids_def)
  have c0: "consistent B st0" "placed st0 = placed st1" using consistent_cong [OF s0, of B] R(1) grids_placed [OF s0(2)] by simp_all
  have bnd: "\<forall>i \<in> set order. i < length (e_acts st0)"
    using placed_lt [OF con] R(2,3) s0(1) by (auto simp: order_def sig_def)
  note P = place_again_ok [OF c0(1) bnd p]
  have s2: "sig st2 = sig st" using P s0(1) R(2) by simp
  have ok2: "steady B st st2" if ok using P c0(2) R that by (auto simp: steady_def s2 order_def)
  have untouched: "grids st1 = grids st" if "ids = []"
  proof -
    have "fold ruin_teacher ts ([], st) = ([], st1)" using f that by simp
    then show ?thesis using lns_nothing by blast
  qed
  show "steady B st st'"
    using V ok2 steady_restored [OF con s2] R by (auto simp: better_def steady_def split: if_splits)
  show "grids st' = grids st" if "r = None"
  proof (cases "ids = []")
    case True
    then show ?thesis using V untouched [OF True] by simp
  next
    case False
    then show ?thesis using V that restored by (auto split: if_splits)
  qed
  show "m = evaluateMetrics st' \<and> isLessonBlockSafe st' [] \<and> compareMetrics st' mode (Some m) (Some best) < 0" if "r = Some m"
    using V that by (auto simp: better_def split: if_splits)
qed

end
