(* ===== verification/FeRepairOk.thy ===== *)
theory FeRepairOk
  imports FeOpsOk
begin

section \<open>FET engine: repairing hard conflicts\<close>

text \<open>
  On a consistent state \<open>repairHardConflicts\<close> finds no offender, takes no lesson off, tries every lesson
  that is out, counts what it placed and what it could not, and registers the latter, so the integrity
  gate opens.
\<close>

subsection \<open>No false alarm\<close>

lemma offend_teachers_none:
  assumes g: "good B st (e_place st)" and c: "covers (e_acts st) (e_place st) i s"
  shows "seen_ok st seen \<Longrightarrow> set ts \<subseteq> set (act_teachers (e_acts st ! i)) \<Longrightarrow>
    \<exists>seen'. offend_teachers st i s ts (offs, seen) = (offs, seen') \<and> seen_ok st seen'"
proof (induction ts arbitrary: seen)
  case Nil
  then show ?case by simp
next
  case (Cons t ts)
  have t: "t \<in> set (act_teachers (e_acts st ! i))" using Cons.prems(2) by simp
  have off: "(t, s) \<notin> e_toff st" using goodD(4) [OF g c] t unfolding open_cell_def by blast
  have mine: "j = i" if j: "map_of seen (t, s) = Some j" for j
  proof (rule ccontr)
    assume ne: "j \<noteq> i"
    have "covers (e_acts st) (e_place st) j s" "t \<in> set (act_teachers (e_acts st ! j))"
      using Cons.prems(1) j unfolding seen_ok_def by blast+
    then show False using goodD(5) [OF g ne _ c] t unfolding disjoint_acts_def by blast
  qed
  have "seen_ok st (((t, s), i) # seen)" by (rule seen_ok_add [OF Cons.prems(1) c t])
  from Cons.IH [OF this] Cons.prems(2) obtain seen' where
    "offend_teachers st i s ts (offs, ((t, s), i) # seen) = (offs, seen')" "seen_ok st seen'" by auto
  then show ?case using off mine by (auto simp: Let_def split: option.splits)
qed

definition quiet :: "eng \<Rightarrow> nat list \<times> seen \<Rightarrow> bool" where
  "quiet st os \<longleftrightarrow> fst os = [] \<and> seen_ok st (snd os)"

lemma offend_slot_quiet:
  assumes g: "good B st (e_place st)" and c: "covers (e_acts st) (e_place st) i s" and q: "quiet st os"
  shows "quiet st (offend_slot st i s os)"
proof -
  obtain seen where os: "os = ([], seen)" "seen_ok st seen" using q by (cases os) (simp add: quiet_def)
  have "\<not> ((ac_class (e_acts st ! i), s) \<in> e_off st \<or> map_of (e_fixed st) (ac_class (e_acts st ! i), s) \<noteq> None)"
    using goodD(4) [OF g c] by (simp add: open_cell_def)
  then have "offend_slot st i s os = offend_teachers st i s (act_teachers (e_acts st ! i)) ([], seen)"
    by (simp only: offend_slot_def Let_def if_False os)
  then show ?thesis using offend_teachers_none [OF g c os(2) subset_refl, of "[]"] by (auto simp: quiet_def)
qed

lemma offenders_none:
  assumes "consistent B st"
  shows "offenders st = []"
proof -
  have ag: "agree B st" and g: "good B st (e_place st)" using assms by (simp_all add: consistent_def)
  have one: "quiet st (offend_act st i os)" if i: "i < length (e_acts st)" and q: "quiet st os" for i os
  proof (cases "e_place st ! i")
    case None
    then show ?thesis using q by (simp add: offend_act_def)
  next
    case (Some p)
    let ?ss = "slots_from p (dur_or_1 (e_acts st ! i))"
    have d: "dur_or_1 (e_acts st ! i) = ac_dur (e_acts st ! i)" using agreeD(3) [OF ag i] by (simp add: dur_or_1_def)
    have cov: "covers (e_acts st) (e_place st) i s" if "s \<in> set ?ss" for s
      using that Some i agreeD(1) [OF ag] by (simp add: d mem_slots_from covers_def)
    have "quiet st (fold (offend_slot st i) ?ss os)"
      by (rule fold_invariant [where Q = "\<lambda>s. s \<in> set ?ss"]) (use q offend_slot_quiet [OF g] cov in auto)
    then show ?thesis using Some by (simp add: offend_act_def)
  qed
  have "quiet st (fold (offend_act st) [0..<length (e_acts st)] ([], []))"
  proof (rule fold_invariant [where Q = "\<lambda>i. i < length (e_acts st)"])
    show "quiet st ([], [])" by (simp add: quiet_def seen_ok_def)
    show "quiet st (offend_act st i os)" if "i < length (e_acts st)" "quiet st os" for i os by (rule one [OF that])
  qed simp
  then show ?thesis by (simp add: offenders_def quiet_def)
qed

subsection \<open>The attempts\<close>

lemma preferred_bound: "s \<in> set (preferredSlotsFor st a) \<Longrightarrow> s < total_slots"
proof -
  have "s < total_slots" if "s \<in> set (preferred_in_half st t h)" "h < 12" for t h
    using that by (auto simp: preferred_in_half_def Let_def split: if_splits)
  then show "s \<in> set (preferredSlotsFor st a) \<Longrightarrow> s < total_slots" by (auto simp: preferredSlotsFor_def)
qed

lemma preferred_slots: "\<forall>s \<in> set (all_slots_of (Some (preferredSlotsFor st a))). s < total_slots"
  using preferred_bound [of _ st a] by (cases "preferredSlotsFor st a") (auto simp: all_slots_of_def)

lemma waiting_con: "waiting B i st \<longleftrightarrow> consistent B st \<and> i < length (e_acts st) \<and> i \<notin> placed st"
  using agreeD(1) by (auto simp: waiting_def consistent_def placed_def)

lemma swap_result_ctrl:
  assumes "swap_result B i st (ok, st')" "sig st'' = sig st'" "grids st'' = grids st'"
  shows "swap_result B i st (ok, st'')"
proof -
  have "e_place st'' = e_place st'" using assms(3) by (simp add: grids_def)
  then show ?thesis
    using assms(1,2) agree_cong [OF assms(2,3), of B] good_cong [OF assms(2), of B] grids_placed [OF assms(3)]
    by (simp add: swap_result_def split: if_splits)
qed

lemma waiting_ctrl: "waiting B i st \<Longrightarrow> sig st' = sig st \<Longrightarrow> grids st' = grids st \<Longrightarrow> waiting B i st'"
  using consistent_cong [of st' st B] grids_placed [of st' st] by (simp add: waiting_con sig_def)

lemma waiting_swap:
  assumes "waiting B i st" "\<forall>s \<in> set (all_slots_of restrict). s < total_slots"
  shows "swap_result B i st (fresh_swap restrict i st)" "swap_result B i st (randomSwap level restrict i st)"
  using assms fresh_swap_result randomSwap_ok by (simp_all add: waiting_def consistent_def)

lemma result_start:
  assumes "swap_result B i st0 r" "sig st0 = sig st" "grids st0 = grids st"
  shows "swap_result B i st r"
proof -
  have "e_place st0 = e_place st" using assms(3) by (simp add: grids_def)
  then show ?thesis using assms(1,2) grids_placed [OF assms(3)] by (simp add: swap_result_def)
qed

lemma repair_attempts_ok:
  assumes w: "waiting B i st"
  shows "swap_result B i st (repair_attempts i st)"
proof -
  define pref where "pref = preferredSlotsFor st (e_acts st ! i)"
  obtain ok1 st1 where a1: "(if pref = [] then (False, st) else randomSwap 0 (Some pref) i st) = (ok1, st1)"
    by (cases "if pref = [] then (False, st) else randomSwap 0 (Some pref) i st")
  have r1: "swap_result B i st (ok1, st1)"
    using a1 result_refl [OF w] waiting_swap(2) [OF w preferred_slots, of 0 st "e_acts st ! i", folded pref_def]
    by (simp split: if_splits)
  obtain ok2 st2 where a2: "fresh_swap None i st1 = (ok2, st2)" by (cases "fresh_swap None i st1")
  obtain ok3 st3 where a3: "tryEjectionChain i st2 = (ok3, st3)" by (cases "tryEjectionChain i st2")
  define st3' where "st3' = st3\<lparr>e_strict := False\<rparr>"
  obtain ok4 st4 where a4: "fresh_swap None i st3' = (ok4, st4)" by (cases "fresh_swap None i st3'")
  have R: "repair_attempts i st = (if ok1 then (True, st1) else if ok2 then (True, st2)
      else if ok3 \<and> e_place st3 ! i \<noteq> None then (True, st3) else (ok4, st4\<lparr>e_strict := e_strict st3\<rparr>))"
    unfolding repair_attempts_def pref_def [symmetric] Let_def a1 a2 a3 split st3'_def [symmetric] a4 by (rule refl)
  show ?thesis
  proof (cases ok1)
    case False
    then have r1': "swap_result B i st (False, st1)" using r1 by simp
    have w1: "waiting B i st1" by (rule result_failed [OF w r1'])
    have r2: "swap_result B i st (ok2, st2)" using result_trans [OF r1' waiting_swap(1) [OF w1 every_slot, unfolded a2]] .
    show ?thesis
    proof (cases ok2)
      case False
      then have r2': "swap_result B i st (False, st2)" using r2 by simp
      have w2: "waiting B i st2" by (rule result_failed [OF w r2'])
      have r3: "swap_result B i st (ok3, st3)" using result_trans [OF r2' tryEjectionChain_ok [OF w2, unfolded a3]] .
      show ?thesis
      proof (cases ok3)
        case True
        then have "i \<in> placed st3" using r3 by (simp add: swap_result_def)
        then have "e_place st3 ! i \<noteq> None" unfolding placed_def by blast
        then show ?thesis using R r3 True \<open>\<not> ok1\<close> \<open>\<not> ok2\<close> by simp
      next
        case False
        then have r3': "swap_result B i st (False, st3)" using r3 by simp
        have w3: "waiting B i st3" by (rule result_failed [OF w r3'])
        have s: "sig st3' = sig st3" "grids st3' = grids st3" by (simp_all add: st3'_def sig_def grids_def)
        have "swap_result B i st3 (ok4, st4)"
          using result_start [OF waiting_swap(1) [OF waiting_ctrl [OF w3 s] every_slot] s] a4 by simp
        from swap_result_ctrl [OF result_trans [OF r3' this], of "st4\<lparr>e_strict := e_strict st3\<rparr>"]
        have "swap_result B i st (ok4, st4\<lparr>e_strict := e_strict st3\<rparr>)" by (simp add: sig_def grids_def)
        then show ?thesis using R False \<open>\<not> ok1\<close> \<open>\<not> ok2\<close> by simp
      qed
    qed (use R r2 \<open>\<not> ok1\<close> in simp)
  qed (use R r1 in simp)
qed

subsection \<open>The whole repair\<close>

definition repaired :: "fe_base \<Rightarrow> nat list \<Rightarrow> nat \<times> nat \<times> eng \<Rightarrow> nat \<times> nat \<times> eng \<Rightarrow> bool" where
  "repaired B is r r' \<longleftrightarrow> (case (r, r') of ((n, m, st), (n', m', st')) \<Rightarrow>
     consistent B st' \<and> sig st' = sig st \<and> placed st \<subseteq> placed st' \<and> placed st' \<subseteq> placed st \<union> set is
     \<and> n' = n + card (placed st' - placed st) \<and> n' + m' = n + m + length is)"

lemma finite_placed [simp]: "finite (placed st)"
  by (simp add: placed_def)

lemma repair_one_ok:
  assumes con: "consistent B st" and i: "i < length (e_acts st)" "i \<notin> placed st"
  shows "repaired B [i] (n, m, st) (repair_one saved i (n, m, st))"
proof -
  define st0 where "st0 = st\<lparr>e_limit := max saved 30000, e_calls := 0\<rparr>"
  have s: "sig st0 = sig st" "grids st0 = grids st" by (simp_all add: st0_def sig_def grids_def)
  have w: "waiting B i st" using con i by (simp add: waiting_con)
  have none: "e_place st ! i = None" using w by (simp add: waiting_def)
  obtain ok st' where r: "repair_attempts i st0 = (ok, st')" by (cases "repair_attempts i st0")
  have "swap_result B i st (ok, st')" using result_start [OF repair_attempts_ok [OF waiting_ctrl [OF w s]] s] r by simp
  note R = swap_resultD [OF this]
  have "repair_one saved i (n, m, st) = (if ok then (n + 1, m, st') else (n, m + 1, st'))"
    using none r by (simp add: repair_one_def st0_def)
  then show ?thesis using R i(2) by (cases ok) (auto simp: repaired_def insert_Diff_if)
qed

lemma repair_fold_ok:
  "consistent B st \<Longrightarrow> distinct is \<Longrightarrow> \<forall>i \<in> set is. i < length (e_acts st) \<and> i \<notin> placed st \<Longrightarrow>
     repaired B is (n, m, st) (fold (repair_one saved) is (n, m, st))"
proof (induction "is" arbitrary: n m st)
  case Nil
  then show ?case by (simp add: repaired_def)
next
  case (Cons i "is")
  obtain n1 m1 st1 where o: "repair_one saved i (n, m, st) = (n1, m1, st1)" by (cases "repair_one saved i (n, m, st)")
  have R: "consistent B st1" "sig st1 = sig st" "placed st \<subseteq> placed st1" "placed st1 \<subseteq> insert i (placed st)"
    "n1 = n + card (placed st1 - placed st)" "n1 + m1 = n + m + 1"
    using repair_one_ok [OF Cons.prems(1), of i n m saved] Cons.prems(3) by (simp_all add: repaired_def o)
  obtain n2 m2 st2 where f: "fold (repair_one saved) is (n1, m1, st1) = (n2, m2, st2)"
    by (cases "fold (repair_one saved) is (n1, m1, st1)")
  have "\<forall>j \<in> set is. j < length (e_acts st1) \<and> j \<notin> placed st1"
    using Cons.prems(2,3) R(2,4) by (auto simp: sig_def)
  from Cons.IH [OF R(1) _ this, of n1 m1] Cons.prems(2) f
  have Q: "consistent B st2" "sig st2 = sig st1" "placed st1 \<subseteq> placed st2" "placed st2 \<subseteq> placed st1 \<union> set is"
    "n2 = n1 + card (placed st2 - placed st1)" "n2 + m2 = n1 + m1 + length is"
    by (simp_all add: repaired_def)
  have "placed st2 - placed st = (placed st2 - placed st1) \<union> (placed st1 - placed st)" using R(3) Q(3) by blast
  then have "card (placed st2 - placed st) = card (placed st2 - placed st1) + card (placed st1 - placed st)"
    by (metis Diff_disjoint Int_Diff card_Un_disjoint finite_Diff finite_placed inf_commute)
  moreover have "fold (repair_one saved) (i # is) (n, m, st) = (n2, m2, st2)" by (simp only: fold_simps o f)
  moreover have "placed st \<subseteq> placed st2" "placed st2 \<subseteq> placed st \<union> set (i # is)" "sig st2 = sig st" "n2 + m2 = n + m + length (i # is)"
    using R Q by auto
  ultimately show ?case using R(5) Q(1,5) by (simp only: repaired_def split) simp
qed

lemma stuck_mem: "consistent B st \<Longrightarrow> i \<in> set (stuck_acts st) \<longleftrightarrow> i < length (e_acts st) \<and> i \<notin> placed st \<and> \<not> ac_fixed (e_acts st ! i)"
  using agreeD(1) by (auto simp: stuck_acts_def placed_def consistent_def)

lemma stuck_distinct: "distinct (stuck_acts st)"
  by (simp add: stuck_acts_def)

lemma repair_ok:
  assumes con: "consistent B st" and r: "repairHardConflicts st = ((n, m), st')"
  shows "keeps B st st'" "n = card (placed st' - placed st)" "m = length (stuck_acts st')"
    "set (stuck_acts st') = set (stuck_acts st) - placed st'"
    "stuck_acts st \<noteq> [] \<Longrightarrow> e_permanent st' = Some (set (stuck_acts st'))"
proof -
  let ?is = "stuck_acts st" and ?saved = "e_limit st"
  obtain n2 m2 st2 where f: "fold (repair_one ?saved) ?is (0, 0, st) = (n2, m2, st2)" by (cases "fold (repair_one ?saved) ?is (0, 0, st)")
  define st3 where "st3 = st2\<lparr>e_limit := ?saved\<rparr>"
  have R: "((n, m), st') = (if ?is = [] then ((0, 0), st) else ((n2, m2), st3\<lparr>e_permanent := Some (set (stuck_acts st3))\<rparr>))"
    unfolding r [symmetric] repairHardConflicts_def offenders_none [OF con] Let_def by (simp add: f st3_def)
  have bnd: "\<forall>i \<in> set ?is. i < length (e_acts st) \<and> i \<notin> placed st" using stuck_mem [OF con] by blast
  have Q: "consistent B st2" "sig st2 = sig st" "placed st \<subseteq> placed st2" "placed st2 \<subseteq> placed st \<union> set ?is"
    "n2 = card (placed st2 - placed st)" "n2 + m2 = length ?is"
    using repair_fold_ok [OF con stuck_distinct [of st] bnd, where n = 0 and m = 0 and saved = ?saved]
    by (simp_all add: repaired_def f)
  define E where "E = (if ?is = [] then st else st2)"
  have E: "consistent B E" "sig E = sig st" "placed st \<subseteq> placed E" "placed E \<subseteq> placed st \<union> set ?is" "n = card (placed E - placed st)"
    "n + m = length ?is"
    using Q con R by (simp_all add: E_def split: if_splits)
  have same: "sig st' = sig E" "grids st' = grids E" "placed st' = placed E" "stuck_acts st' = stuck_acts E"
    using R by (simp_all add: E_def st3_def sig_def grids_def placed_def stuck_acts_def split: if_splits)
  show "keeps B st st'" using E same consistent_cong [OF same(1,2), of B] by (simp add: keeps_def)
  show "n = card (placed st' - placed st)" using E same by simp
  have acts: "e_acts E = e_acts st" using E(2) by (simp add: sig_def)
  show mem: "set (stuck_acts st') = set (stuck_acts st) - placed st'"
    using E(3) by (auto simp: same stuck_mem [OF con] stuck_mem [OF E(1)] acts)
  have "placed E - placed st = set ?is \<inter> placed E" using E(3,4) stuck_mem [OF con] by auto
  then have "card (set (stuck_acts E)) = card (set ?is) - n"
    using mem E(5) by (simp add: same card_Diff_subset_Int)
  then show "m = length (stuck_acts st')"
    using E(6) by (simp add: same distinct_card [OF stuck_distinct])
  show "e_permanent st' = Some (set (stuck_acts st'))" if "stuck_acts st \<noteq> []"
    using R that by (simp add: stuck_acts_def)
qed

lemma repair_gate:
  assumes con: "consistent B st" and r: "repairHardConflicts st = (c, st')" and nf: "\<forall>a \<in> set (e_acts st). \<not> ac_fixed a"
  shows "verifyPlacementIntegrity st' \<longleftrightarrow> (case e_holes st' of Some k \<Rightarrow> countStudentHoles st' \<le> k | None \<Rightarrow> True)"
proof -
  obtain n m where c: "c = (n, m)" by (cases c)
  note R = repair_ok [OF con r [unfolded c]]
  have con': "consistent B st'" and acts: "e_acts st' = e_acts st" using keepsD [OF R(1)] by simp_all
  have "exempt st' i" if i: "i < length (e_acts st')" "e_place st' ! i = None" for i
  proof -
    have s: "i \<in> set (stuck_acts st')" using i nf by (simp add: stuck_acts_def acts)
    then have "stuck_acts st \<noteq> []" using R(4) by auto
    then show ?thesis using R(5) s by (simp add: exempt_def)
  qed
  then show ?thesis using consistent_gate [OF con'] by blast
qed

end
