(* ===== verification/FeApplyOk.thy ===== *)
theory FeApplyOk
  imports FeSolveOk
begin

section \<open>FET engine: the written timetable is the grid\<close>

text \<open>
  \<open>applyToDataTKB\<close> creates the missing tables of the data object, blanks every class and writes the
  placed lessons. Reading a cell back gives the stored fixed cell, \<open>OFF\<close>, the subject of the lesson that
  the grid shows, or \<open>null\<close>.
\<close>

subsection \<open>Values along a path\<close>

fun is_obj :: "js \<Rightarrow> bool" where
  "is_obj (JObj _) = True"
| "is_obj _ = False"

fun jpath :: "ustr list \<Rightarrow> js \<Rightarrow> js" where
  "jpath [] v = v"
| "jpath (k # ks) v = jpath ks (jget v k)"

fun obj_path :: "ustr list \<Rightarrow> js \<Rightarrow> bool" where
  "obj_path [] v = True"
| "obj_path (k # ks) v \<longleftrightarrow> is_obj v \<and> obj_path ks (jget v k)"

text \<open>A path whose values are missing or objects, up to its last key.\<close>

fun soft_path :: "ustr list \<Rightarrow> js \<Rightarrow> bool" where
  "soft_path [] v = True"
| "soft_path (k # ks) v \<longleftrightarrow> is_obj v \<and> (js_truthy (jget v k) \<longrightarrow> soft_path ks (jget v k))"

fun diverge :: "ustr list \<Rightarrow> ustr list \<Rightarrow> bool" where
  "diverge (k # ks) (l # ls) \<longleftrightarrow> k \<noteq> l \<or> diverge ks ls"
| "diverge _ _ = False"

lemma jget_jput: "jget (jput k x v) l = (if is_obj v \<and> l = k then x else jget v l)"
  by (cases v) auto

lemma is_obj_jput [simp]: "is_obj (jput k x v) = is_obj v"
  by (cases v) auto

lemma jput_other: "\<not> is_obj v \<Longrightarrow> jput k x v = v"
  by (cases v) auto

lemma is_obj_truthy: "is_obj v \<Longrightarrow> js_truthy v"
  by (cases v) auto

lemma jput_same: "jget v k \<noteq> JUndef \<Longrightarrow> jput k (jget v k) v = v"
  by (cases v) (auto simp: update_triv split: option.splits)

lemma diverge_same_length: "length ks = length ls \<Longrightarrow> ks \<noteq> ls \<Longrightarrow> diverge ks ls"
  by (induction ks ls rule: list_induct2) auto

lemma jpath_jupd_same: "obj_path ks v \<Longrightarrow> jpath ks (jupd ks f v) = f (jpath ks v)"
  by (induction ks arbitrary: v) (simp_all add: jget_jput)

lemma jpath_jupd_other: "diverge ks ls \<Longrightarrow> jpath ls (jupd ks f v) = jpath ls v"
  by (induction ks ls arbitrary: v rule: diverge.induct) (auto simp: jget_jput)

lemma obj_jupd_other: "diverge ks ls \<Longrightarrow> obj_path ls (jupd ks f v) = obj_path ls v"
  by (induction ks ls arbitrary: v rule: diverge.induct) (auto simp: jget_jput)

lemma obj_jupd_short: "length ls \<le> length ks \<Longrightarrow> obj_path ls v \<Longrightarrow> obj_path ls (jupd ks f v)"
proof (induction ls arbitrary: ks v)
  case (Cons l ls)
  then show ?case by (cases ks) (auto simp: jget_jput)
qed simp

lemma jpath_undef: "jpath ks JUndef = JUndef"
  by (induction ks) simp_all

lemma jupd_triv: "f (jpath ks v) = jpath ks v \<Longrightarrow> jpath ks v \<noteq> JUndef \<Longrightarrow> jupd ks f v = v"
proof (induction ks arbitrary: v)
  case (Cons k ks)
  then have "jget v k \<noteq> JUndef" using jpath_undef by auto
  then show ?case using Cons jput_same by simp
qed simp

lemma jupd_falsy: "\<not> js_truthy v \<Longrightarrow> ks \<noteq> [] \<Longrightarrow> jupd ks f v = v"
proof -
  assume "\<not> js_truthy v" "ks \<noteq> []"
  moreover from this have "\<not> is_obj v" using is_obj_truthy by blast
  ultimately show ?thesis by (cases ks) (simp_all add: jput_other)
qed

lemma soft_new: "soft_path ls (JObj [])"
  by (cases ls) simp_all

lemma soft_or_new: "soft_path ls v \<Longrightarrow> soft_path ls (jupd ks or_new v)"
proof (induction ks arbitrary: ls v)
  case Nil
  then show ?case using soft_new by (simp add: or_new_def)
next
  case (Cons k ks)
  show ?case
  proof (cases ls)
    case l: (Cons l ls')
    have o: "is_obj v" using Cons.prems l by simp
    have "soft_path ls' (jupd ks or_new (jget v k))" if "l = k" "js_truthy (jupd ks or_new (jget v k))"
    proof (cases "js_truthy (jget v k)")
      case True
      then show ?thesis using Cons that l by simp
    next
      case False
      show ?thesis
      proof (cases "ks = []")
        case True
        then show ?thesis using False soft_new by (simp add: or_new_def)
      next
        case ne: False
        then show ?thesis using that(2) jupd_falsy [OF False ne] False by simp
      qed
    qed
    then show ?thesis using Cons.prems l o by (auto simp: jget_jput)
  qed simp
qed

lemma soft_jupd_short: "length ls \<le> length ks \<Longrightarrow> soft_path ls v \<Longrightarrow> soft_path ls (jupd ks f v)"
proof (induction ls arbitrary: ks v)
  case (Cons l ls)
  obtain k ks' where ks: "ks = k # ks'" using Cons.prems(1) by (cases ks) auto
  have "soft_path ls (jupd ks' f (jget v k))" if "l = k" "js_truthy (jupd ks' f (jget v k))"
  proof (cases "js_truthy (jget v k)")
    case True
    then show ?thesis using Cons that ks by simp
  next
    case False
    then show ?thesis using that jupd_falsy [OF False, of ks' f] Cons.prems(1) ks by (cases ks'; cases ls) auto
  qed
  then show ?case using Cons.prems ks by (auto simp: jget_jput)
qed simp

text \<open>Creating the object at the end of a path makes the next step of the path possible.\<close>

lemma or_new_extends:
  "obj_path (ks @ [k]) v \<Longrightarrow> soft_path (ks @ [k, l]) v \<Longrightarrow> obj_path (ks @ [k, l]) (jupd (ks @ [k]) or_new v)"
proof (induction ks arbitrary: v)
  case Nil
  then show ?case by (auto simp: jget_jput or_new_def)
next
  case (Cons m ks)
  have o: "is_obj v" using Cons.prems by simp
  have "is_obj (jget v m)" using Cons.prems(1) by (cases ks) simp_all
  then have "js_truthy (jget v m)" by (rule is_obj_truthy)
  then show ?case using Cons o by (simp add: jget_jput)
qed

subsection \<open>Creating the tables\<close>

declare jupd.simps [simp del]

definition ready_at :: "ustr list \<Rightarrow> js \<Rightarrow> bool" where
  "ready_at p v \<longleftrightarrow> obj_path p v \<and> is_array (jpath p v)"

lemma obj_path_prefix: "obj_path (ks @ k # ls) v \<Longrightarrow> is_obj (jpath ks v)"
  by (induction ks arbitrary: v) simp_all

lemma prefix_or_diverge: "length ks \<le> length p \<Longrightarrow> p = ks @ drop (length ks) p \<or> diverge ks p"
proof (induction ks arbitrary: p)
  case (Cons k ks)
  then show ?case by (cases p) auto
qed simp

lemma ready_or_new:
  assumes r: "ready_at p v" and l: "length ks < length p"
  shows "ready_at p (jupd ks or_new v)"
proof (cases "diverge ks p")
  case True
  then show ?thesis using r by (simp add: ready_at_def jpath_jupd_other obj_jupd_other)
next
  case False
  then have "p = ks @ drop (length ks) p" using prefix_or_diverge [of ks p] l by simp
  moreover obtain k ls where "drop (length ks) p = k # ls" using l by (cases "drop (length ks) p") auto
  ultimately have "obj_path (ks @ k # ls) v" using r by (simp add: ready_at_def)
  then have o: "is_obj (jpath ks v)" by (rule obj_path_prefix)
  then have "jupd ks or_new v = v" by (intro jupd_triv) (use is_obj_truthy in \<open>auto simp: or_new_def\<close>)
  then show ?thesis using r by simp
qed

abbreviation make_array :: "js \<Rightarrow> js" where
  "make_array \<equiv> (\<lambda>v. if is_array v then v else five_nulls)"

lemma ready_make:
  assumes r: "ready_at p v" and l: "length ks = length p"
  shows "ready_at p (jupd ks make_array v)"
proof (cases "diverge ks p")
  case True
  then show ?thesis using r by (simp add: ready_at_def jpath_jupd_other obj_jupd_other)
next
  case False
  then have "ks = p" using l diverge_same_length by blast
  moreover have "jupd p make_array v = v"
    by (rule jupd_triv) (use r in \<open>auto simp: ready_at_def\<close>)
  ultimately show ?thesis using r by simp
qed

lemma made_ready: "obj_path p v \<Longrightarrow> ready_at p (jupd p make_array v)"
  by (simp add: ready_at_def jpath_jupd_same obj_jupd_short five_nulls_def)

text \<open>A loop whose steps keep an invariant, keep what is established, and establish one thing each.\<close>

lemma fold_establish:
  assumes "P v" and "\<And>x v. x \<in> set xs \<Longrightarrow> P v \<Longrightarrow> P (f x v)"
    and "\<And>x v. x \<in> set xs \<Longrightarrow> P v \<Longrightarrow> Q x (f x v)"
    and "\<And>x y v. x \<in> set xs \<Longrightarrow> P v \<Longrightarrow> Q y v \<Longrightarrow> Q y (f x v)"
  shows "P (fold f xs v) \<and> (\<forall>x \<in> set xs. Q x (fold f xs v))"
  using assms
proof (induction xs arbitrary: v)
  case (Cons x xs)
  have ih: "P (fold f xs (f x v)) \<and> (\<forall>y \<in> set xs. Q y (fold f xs (f x v)))"
    by (rule Cons.IH) (use Cons.prems in auto)
  have "P (fold f xs (f x v)) \<and> Q x (fold f xs (f x v))"
    by (rule fold_invariant [where P = "\<lambda>v. P v \<and> Q x v" and Q = "\<lambda>y. y \<in> set xs"]) (use Cons.prems in auto)
  then show ?case using ih by simp
qed simp

definition cell_path :: "ustr \<Rightarrow> ustr \<Rightarrow> ustr \<Rightarrow> ustr list" where
  "cell_path cid thu buoi = [u ''tkb'', cid, thu, buoi]"

text \<open>The tables that exist are objects.\<close>

definition sane :: "js list \<Rightarrow> js \<Rightarrow> bool" where
  "sane classes v \<longleftrightarrow> is_obj v \<and> (js_truthy (jget v (u ''tkb'')) \<longrightarrow> is_obj (jget v (u ''tkb''))) \<and> (\<forall>l \<in> set classes. \<forall>thu \<in> set days_list. \<forall>buoi \<in> set sessions_list.
     soft_path (cell_path (class_id l) thu buoi) v)"

definition rooted :: "js list \<Rightarrow> js \<Rightarrow> bool" where
  "rooted classes v \<longleftrightarrow> sane classes v \<and> is_obj (jget v (u ''tkb''))"

definition ready :: "ustr \<Rightarrow> js \<Rightarrow> bool" where
  "ready cid v \<longleftrightarrow> (\<forall>thu \<in> set days_list. \<forall>buoi \<in> set sessions_list. ready_at (cell_path cid thu buoi) v)"

lemma rooted_keep:
  assumes r: "rooted classes v" and l: "2 \<le> length ks" and s: "\<And>p. length p = 4 \<Longrightarrow> soft_path p v \<Longrightarrow> soft_path p (jupd ks f v)"
  shows "rooted classes (jupd ks f v)"
proof -
  have "obj_path [u ''tkb'', []] (jupd ks f v)"
    by (rule obj_jupd_short) (use l r in \<open>simp_all add: rooted_def sane_def\<close>)
  moreover have "soft_path (cell_path (class_id c) thu buoi) (jupd ks f v)"
    if "c \<in> set classes" "thu \<in> set days_list" "buoi \<in> set sessions_list" for c thu buoi
  proof (rule s)
    show "soft_path (cell_path (class_id c) thu buoi) v" using r that unfolding rooted_def sane_def by blast
  qed (simp add: cell_path_def)
  ultimately show ?thesis unfolding rooted_def sane_def by simp
qed

lemma rooted_or_new: "rooted classes v \<Longrightarrow> 2 \<le> length ks \<Longrightarrow> rooted classes (jupd ks or_new v)"
  by (erule rooted_keep) (auto intro: soft_or_new)

lemma rooted_make: "rooted classes v \<Longrightarrow> length ks = 4 \<Longrightarrow> rooted classes (jupd ks make_array v)"
  by (erule rooted_keep) (auto intro: soft_jupd_short)

lemma sane_or_new: "sane classes v \<Longrightarrow> sane classes (jupd [k] or_new v)"
  using soft_or_new [of _ v "[k]"] by (auto simp: sane_def jget_jput or_new_def jupd.simps)

lemma tkb_keys: "u ''tkbLessonTeachers'' \<noteq> u ''tkb''" "u ''tkbLessonRooms'' \<noteq> u ''tkb''"
  by code_simp+

lemma ensure_tables_rooted:
  assumes s: "sane classes v"
  shows "rooted classes (ensure_tables v)"
proof -
  have "sane classes (ensure_tables v)" unfolding ensure_tables_def by (intro sane_or_new s)
  moreover have "is_obj (jget (ensure_tables v) (u ''tkb''))"
    using s tkb_keys by (simp add: ensure_tables_def jget_jput or_new_def sane_def jupd.simps)
  ultimately show ?thesis by (simp add: rooted_def)
qed

text \<open>Within a rooted object, the tables of one class are made, and those that are there stay.\<close>

lemma in_days: "thu \<in> set days_list \<Longrightarrow> buoi \<in> set sessions_list \<Longrightarrow> c \<in> set classes \<Longrightarrow> rooted classes v \<Longrightarrow>
    soft_path (cell_path (class_id c) thu buoi) v"
  unfolding rooted_def sane_def by blast

definition dayed :: "js list \<Rightarrow> ustr \<Rightarrow> js \<Rightarrow> bool" where
  "dayed classes cid v \<longleftrightarrow> rooted classes v \<and> obj_path [u ''tkb'', cid, []] v"

definition day_open :: "js list \<Rightarrow> ustr \<Rightarrow> ustr \<Rightarrow> js \<Rightarrow> bool" where
  "day_open classes cid thu v \<longleftrightarrow> rooted classes v \<and> obj_path [u ''tkb'', cid, thu, []] v"

lemma obj_last: "obj_path (ks @ [k]) v \<Longrightarrow> obj_path (ks @ [l]) v"
  by (induction ks arbitrary: v) simp_all

lemma open_class:
  assumes r: "rooted classes v" and c: "c \<in> set classes"
  shows "dayed classes (class_id c) (jupd [u ''tkb'', class_id c] or_new v)"
proof -
  have "soft_path (cell_path (class_id c) (u ''thu2'') (u ''sang'')) v"
    by (rule in_days [OF _ _ c r]) (simp_all add: days_list_def sessions_list_def)
  then have "soft_path ([u ''tkb''] @ [class_id c, u ''thu2'']) v" by (simp add: cell_path_def)
  moreover have "obj_path ([u ''tkb''] @ [class_id c]) v" using r by (simp add: rooted_def sane_def)
  ultimately have "obj_path ([u ''tkb''] @ [class_id c, u ''thu2'']) (jupd ([u ''tkb''] @ [class_id c]) or_new v)"
    by (intro or_new_extends)
  then have "obj_path [u ''tkb'', class_id c, []] (jupd [u ''tkb'', class_id c] or_new v)"
    using obj_last [of "[u ''tkb'', class_id c]"] by simp
  then show ?thesis using rooted_or_new [OF r] by (simp add: dayed_def)
qed

lemma open_day:
  assumes d: "dayed classes (class_id c) v" and c: "c \<in> set classes" and t: "thu \<in> set days_list"
  shows "day_open classes (class_id c) thu (jupd [u ''tkb'', class_id c, thu] or_new v)"
proof -
  have r: "rooted classes v" using d by (simp add: dayed_def)
  have "soft_path ([u ''tkb'', class_id c] @ [thu, u ''sang'']) v"
    using in_days [OF t _ c r, of "u ''sang''"] by (simp add: cell_path_def sessions_list_def)
  moreover have "obj_path ([u ''tkb'', class_id c] @ [thu]) v" using d obj_last [of "[u ''tkb'', class_id c]"] by (simp add: dayed_def)
  ultimately have "obj_path ([u ''tkb'', class_id c] @ [thu, u ''sang'']) (jupd ([u ''tkb'', class_id c] @ [thu]) or_new v)"
    by (intro or_new_extends)
  then have "obj_path [u ''tkb'', class_id c, thu, []] (jupd [u ''tkb'', class_id c, thu] or_new v)"
    using obj_last [of "[u ''tkb'', class_id c, thu]"] by simp
  then show ?thesis using rooted_or_new [OF r] by (simp add: day_open_def)
qed

definition day_ready :: "ustr \<Rightarrow> ustr \<Rightarrow> js \<Rightarrow> bool" where
  "day_ready cid thu v \<longleftrightarrow> (\<forall>buoi \<in> set sessions_list. ready_at (cell_path cid thu buoi) v)"

lemma ready_step:
  assumes "ready_at (cell_path cid thu buoi) v"
  shows "length ks < 4 \<Longrightarrow> ready_at (cell_path cid thu buoi) (jupd ks or_new v)"
    and "length ks = 4 \<Longrightarrow> ready_at (cell_path cid thu buoi) (jupd ks make_array v)"
  using ready_or_new [OF assms, of ks] ready_make [OF assms, of ks] by (simp_all add: cell_path_def)

lemma ensure_session_ok:
  assumes o: "day_open classes cid thu v"
  shows "day_open classes cid thu (ensure_session cid thu buoi v)"
    "ready_at (cell_path cid thu buoi) (ensure_session cid thu buoi v)"
proof -
  have r: "rooted classes v" and p: "obj_path [u ''tkb'', cid, thu, []] v" using o by (simp_all add: day_open_def)
  have "obj_path [u ''tkb'', cid, thu, []] (ensure_session cid thu buoi v)"
    unfolding ensure_session_def by (rule obj_jupd_short [OF _ p]) simp
  then show "day_open classes cid thu (ensure_session cid thu buoi v)"
    using rooted_make [OF r] by (simp add: day_open_def ensure_session_def)
  have "obj_path (cell_path cid thu buoi) v" using p obj_last [of "[u ''tkb'', cid, thu]"] by (simp add: cell_path_def)
  then show "ready_at (cell_path cid thu buoi) (ensure_session cid thu buoi v)"
    unfolding ensure_session_def cell_path_def by (rule made_ready)
qed

lemma ensure_day_ok:
  assumes d: "dayed classes (class_id c) v" and c: "c \<in> set classes" and t: "thu \<in> set days_list"
  shows "dayed classes (class_id c) (ensure_day (class_id c) thu v)" "day_ready (class_id c) thu (ensure_day (class_id c) thu v)"
proof -
  let ?w = "jupd [u ''tkb'', class_id c, thu] or_new v"
  have "day_open classes (class_id c) thu (ensure_day (class_id c) thu v)
      \<and> (\<forall>buoi \<in> set sessions_list. ready_at (cell_path (class_id c) thu buoi) (ensure_day (class_id c) thu v))"
    unfolding ensure_day_def
  proof (rule fold_establish [where P = "day_open classes (class_id c) thu"
        and Q = "\<lambda>buoi. ready_at (cell_path (class_id c) thu buoi)"])
    show "day_open classes (class_id c) thu ?w" by (rule open_day [OF d c t])
  next
    fix x y w
    assume "day_open classes (class_id c) thu w" "ready_at (cell_path (class_id c) thu y) w"
    then show "ready_at (cell_path (class_id c) thu y) (ensure_session (class_id c) thu x w)"
      unfolding ensure_session_def by (intro ready_step(2)) simp_all
  qed (simp_all add: ensure_session_ok)
  then show "dayed classes (class_id c) (ensure_day (class_id c) thu v)" "day_ready (class_id c) thu (ensure_day (class_id c) thu v)"
    by (auto simp: dayed_def day_open_def day_ready_def)
qed

lemma ensure_day_keeps: "ready_at (cell_path k thu buoi) v \<Longrightarrow> ready_at (cell_path k thu buoi) (ensure_day cid d v)"
  unfolding ensure_day_def ensure_session_def
  by (rule fold_invariant [where Q = "\<lambda>_. True"]) (auto intro: ready_step)

lemma ensure_class_keeps: "ready_at (cell_path k thu buoi) v \<Longrightarrow> ready_at (cell_path k thu buoi) (ensure_class cid v)"
  unfolding ensure_class_def
  by (rule fold_invariant [where Q = "\<lambda>_. True"]) (auto intro: ready_step ensure_day_keeps)

lemma ensure_class_ok:
  assumes r: "rooted classes v" and c: "c \<in> set classes"
  shows "rooted classes (ensure_class (class_id c) v)" "ready (class_id c) (ensure_class (class_id c) v)"
proof -
  have "dayed classes (class_id c) (ensure_class (class_id c) v) \<and> (\<forall>thu \<in> set days_list. day_ready (class_id c) thu (ensure_class (class_id c) v))"
    unfolding ensure_class_def
    by (rule fold_establish [where P = "dayed classes (class_id c)" and Q = "day_ready (class_id c)"])
      (use open_class [OF r c] ensure_day_ok [OF _ c] in \<open>auto simp: day_ready_def intro: ensure_day_keeps\<close>)
  then show "rooted classes (ensure_class (class_id c) v)" "ready (class_id c) (ensure_class (class_id c) v)"
    by (auto simp: dayed_def ready_def day_ready_def)
qed

lemma tables_ready:
  assumes "sane classes v"
  shows "\<forall>c \<in> set classes. ready (class_id c) (fold ensure_class (map class_id classes) (ensure_tables v))"
proof -
  have "rooted classes (fold (ensure_class \<circ> class_id) classes (ensure_tables v))
      \<and> (\<forall>c \<in> set classes. ready (class_id c) (fold (ensure_class \<circ> class_id) classes (ensure_tables v)))"
    by (rule fold_establish [where P = "rooted classes" and Q = "\<lambda>c. ready (class_id c)"])
      (use ensure_tables_rooted [OF assms] in \<open>auto simp: ready_def ensure_class_ok [unfolded ready_def] intro: ensure_class_keeps\<close>)
  then show ?thesis by (simp add: fold_map)
qed

subsection \<open>Writing cells\<close>

lemma index_of_nth: "distinct xs \<Longrightarrow> i < length xs \<Longrightarrow> index_of (xs ! i) xs = Some i"
proof (induction xs arbitrary: i)
  case (Cons x xs)
  then show ?case by (cases i) auto
qed simp

lemma days_distinct: "distinct days_list" "distinct sessions_list" "length days_list = 6" "length sessions_list = 2"
  by code_simp+

lemma slot_fields:
  assumes "s < total_slots"
  shows "s div 10 < length days_list" "s mod 10 div 5 < length sessions_list"
    "sd_thu (slotToDetails s) = days_list ! (s div 10)" "sd_buoi (slotToDetails s) = sessions_list ! (s mod 10 div 5)"
    "sd_period (slotToDetails s) = s mod 10 mod 5"
proof -
  show d: "s div 10 < length days_list" using assms days_distinct by (simp add: less_mult_imp_div_less)
  show b: "s mod 10 div 5 < length sessions_list" using days_distinct by (simp add: less_mult_imp_div_less)
  show "sd_thu (slotToDetails s) = days_list ! (s div 10)" "sd_buoi (slotToDetails s) = sessions_list ! (s mod 10 div 5)"
    "sd_period (slotToDetails s) = s mod 10 mod 5"
    using d b by (simp_all only: slotToDetails_def Let_def slot_details.simps if_True)
qed

lemma slot_parts:
  assumes "s < total_slots"
  shows "sd_thu (slotToDetails s) \<in> set days_list" "sd_buoi (slotToDetails s) \<in> set sessions_list"
    "sd_period (slotToDetails s) < periods_per_session"
  unfolding slot_fields [OF assms] using slot_fields(1,2) [OF assms] by simp_all

lemma slot_back:
  assumes "s < total_slots"
  shows "detailsToSlot (sd_thu (slotToDetails s)) (sd_buoi (slotToDetails s)) (sd_period (slotToDetails s)) = Some s"
proof -
  note F = slot_fields [OF assms]
  have i: "index_of (days_list ! (s div 10)) days_list = Some (s div 10)"
    "index_of (sessions_list ! (s mod 10 div 5)) sessions_list = Some (s mod 10 div 5)"
    using F(1,2) days_distinct by (simp_all add: index_of_nth)
  have "s div 10 * 10 + s mod 10 div 5 * 5 + s mod 10 mod 5 = s" by (metis add.assoc div_mult_mod_eq)
  moreover have "s mod 10 mod 5 < 5" by simp
  ultimately show ?thesis by (simp only: detailsToSlot_def F(3-5) i prod.case option.case if_True)
qed

definition part_key :: "nat \<Rightarrow> ustr \<times> ustr \<times> nat" where
  "part_key s = (sd_thu (slotToDetails s), sd_buoi (slotToDetails s), sd_period (slotToDetails s))"

lemma part_key_inj: "s < total_slots \<Longrightarrow> s' < total_slots \<Longrightarrow> part_key s = part_key s' \<Longrightarrow> s = s'"
  unfolding part_key_def prod.inject using slot_back [of s] slot_back [of s'] by (metis option.inject)

lemma slot_path_cell: "slot_path cid s = cell_path cid (sd_thu (slotToDetails s)) (sd_buoi (slotToDetails s))"
  by (simp add: slot_path_def cell_path_def)

lemma stored_path: "stored_cell data cid s = jidx (jpath (slot_path cid s) data) (sd_period (slotToDetails s))"
  by (simp add: stored_cell_def slot_path_def Let_def)

lemma jidx_jset: "is_array v \<Longrightarrow> jidx (jset_idx i x v) j = (if j = i then x else jidx v j)"
  by (cases v) (auto simp: nth_append nth_list_update nth_Cons')

lemma is_array_jset [simp]: "is_array (jset_idx i x v) = is_array v"
  by (cases v) auto

lemma cell_path_eq: "cell_path c t b = cell_path c' t' b' \<longleftrightarrow> c = c' \<and> t = t' \<and> b = b'"
  by (simp add: cell_path_def)

lemma write_ready:
  assumes "ready_at (cell_path c t b) v"
  shows "ready_at (cell_path c t b) (write_cell cid s x v)"
proof (cases "slot_path cid s = cell_path c t b")
  case True
  then show ?thesis
    using assms by (simp add: ready_at_def write_cell_def jpath_jupd_same obj_jupd_short)
next
  case False
  then have "diverge (slot_path cid s) (cell_path c t b)" by (intro diverge_same_length) (simp_all add: slot_path_def cell_path_def)
  then show ?thesis using assms by (simp add: ready_at_def write_cell_def jpath_jupd_other obj_jupd_other)
qed

lemma readyD: "ready cid v \<Longrightarrow> s < total_slots \<Longrightarrow> ready_at (slot_path cid s) v"
  using slot_parts by (simp add: ready_def slot_path_cell)

lemma write_ready_class: "ready c v \<Longrightarrow> ready c (write_cell cid s x v)"
  by (simp add: ready_def write_ready)

lemma write_read:
  assumes r: "ready cid v" and s: "s < total_slots" "s' < total_slots"
  shows "stored_cell (write_cell cid s x v) cid' s' = (if cid' = cid \<and> s' = s then x else stored_cell v cid' s')"
proof (cases "slot_path cid s = slot_path cid' s'")
  case True
  note same = this
  have R: "obj_path (slot_path cid s) v" "is_array (jpath (slot_path cid s) v)" using readyD [OF r s(1)] by (simp_all add: ready_at_def)
  have c: "cid' = cid" and k: "sd_thu (slotToDetails s') = sd_thu (slotToDetails s)" "sd_buoi (slotToDetails s') = sd_buoi (slotToDetails s)"
    using same by (simp_all add: slot_path_def)
  have "sd_period (slotToDetails s') = sd_period (slotToDetails s) \<longleftrightarrow> s' = s"
    using part_key_inj [OF s] k by (auto simp: part_key_def)
  then show ?thesis
    using R c same by (simp add: stored_path write_cell_def same [symmetric] jpath_jupd_same jidx_jset)
next
  case False
  then have "diverge (slot_path cid s) (slot_path cid' s')" by (intro diverge_same_length) (simp_all add: slot_path_def)
  then have "stored_cell (write_cell cid s x v) cid' s' = stored_cell v cid' s'"
    by (simp add: stored_path write_cell_def jpath_jupd_other)
  moreover have "\<not> (cid' = cid \<and> s' = s)" using False by auto
  ultimately show ?thesis by (simp only: if_False)
qed

subsection \<open>The blank timetable\<close>

definition all_ready :: "js list \<Rightarrow> js \<Rightarrow> bool" where
  "all_ready classes v \<longleftrightarrow> (\<forall>c \<in> set classes. ready (class_id c) v)"

lemma all_ready_write: "all_ready classes v \<Longrightarrow> all_ready classes (write_cell cid s x v)"
  by (simp add: all_ready_def write_ready_class)

lemma all_readyD: "all_ready classes v \<Longrightarrow> cid \<in> class_id ` set classes \<Longrightarrow> ready cid v"
  by (auto simp: all_ready_def)

definition blank_at :: "eng \<Rightarrow> ustr \<Rightarrow> nat \<Rightarrow> js \<Rightarrow> bool" where
  "blank_at st cid s v \<longleftrightarrow> stored_cell v cid s = blank_cell st cid s"

lemma blank_write_keeps:
  assumes "all_ready classes v" "cid \<in> class_id ` set classes" "s < total_slots" "s' < total_slots" "blank_at st k s' v"
  shows "blank_at st k s' (write_cell cid s (blank_cell st cid s) v)"
  using write_read [OF all_readyD [OF assms(1,2)] assms(3,4)] assms(5) by (simp add: blank_at_def)

lemma blank_class_ok:
  assumes "all_ready classes v" "cid \<in> class_id ` set classes"
  shows "all_ready classes (blank_class st cid v) \<and> (\<forall>s < total_slots. blank_at st cid s (blank_class st cid v))"
proof -
  have "all_ready classes (blank_class st cid v) \<and> (\<forall>s \<in> set [0..<total_slots]. blank_at st cid s (blank_class st cid v) \<or> total_slots \<le> s)"
    unfolding blank_class_def
  proof (rule fold_establish [where P = "all_ready classes" and Q = "\<lambda>s v. blank_at st cid s v \<or> total_slots \<le> s"])
    fix s w
    assume s: "s \<in> set [0..<total_slots]" and w: "all_ready classes w"
    show "all_ready classes (write_cell cid s (blank_cell st cid s) w)" by (rule all_ready_write [OF w])
    show "blank_at st cid s (write_cell cid s (blank_cell st cid s) w) \<or> total_slots \<le> s"
      using write_read [OF all_readyD [OF w assms(2)], of s s] s by (simp add: blank_at_def)
    show "blank_at st cid y (write_cell cid s (blank_cell st cid s) w) \<or> total_slots \<le> y"
      if "blank_at st cid y w \<or> total_slots \<le> y" for y
      using blank_write_keeps [OF w assms(2), of s y st cid] s that by auto
  qed (use assms(1) in simp)
  then show ?thesis by auto
qed

lemma blank_class_keeps:
  assumes "all_ready classes v" "cid \<in> class_id ` set classes" "blank_at st k s' v" "s' < total_slots"
  shows "blank_at st k s' (blank_class st cid v)"
proof -
  have "all_ready classes (blank_class st cid v) \<and> blank_at st k s' (blank_class st cid v)"
    unfolding blank_class_def
    by (rule fold_invariant [where P = "\<lambda>v. all_ready classes v \<and> blank_at st k s' v" and Q = "\<lambda>s. s < total_slots"])
      (use assms blank_write_keeps all_ready_write in auto)
  then show ?thesis by simp
qed

lemma blanked:
  assumes "all_ready classes v"
  shows "all_ready classes (fold (blank_class st) (map class_id classes) v)
    \<and> (\<forall>cid \<in> set (map class_id classes). \<forall>s < total_slots. blank_at st cid s (fold (blank_class st) (map class_id classes) v))"
proof (rule fold_establish [where P = "all_ready classes" and Q = "\<lambda>cid v. \<forall>s < total_slots. blank_at st cid s v"])
  fix x y v
  assume "x \<in> set (map class_id classes)" "all_ready classes v" "\<forall>s < total_slots. blank_at st y s v"
  then show "\<forall>s < total_slots. blank_at st y s (blank_class st x v)" using blank_class_keeps by auto
qed (use assms blank_class_ok in auto)

subsection \<open>The placed lessons\<close>

definition shown_at :: "eng \<Rightarrow> act \<Rightarrow> ustr \<Rightarrow> nat \<Rightarrow> bool" where
  "shown_at st a c s \<longleftrightarrow> ac_class a = c \<and> (\<exists>p. e_place st ! ac_id a = Some p \<and> p \<le> s \<and> s < p + ac_dur a)"

lemma side_table:
  assumes "k = u ''tkbLessonTeachers'' \<or> k = u ''tkbLessonRooms''"
  shows "stored_cell (jupd [k] f v) cid s = stored_cell v cid s" "all_ready classes (jupd [k] f v) = all_ready classes v"
proof -
  have d: "diverge [k] (cell_path c t b)" for c t b using assms tkb_keys by (auto simp: cell_path_def)
  show "stored_cell (jupd [k] f v) cid s = stored_cell v cid s" by (simp add: stored_path slot_path_cell jpath_jupd_other d)
  show "all_ready classes (jupd [k] f v) = all_ready classes v"
    by (simp add: all_ready_def ready_def ready_at_def jpath_jupd_other obj_jupd_other d)
qed

lemma write_period_ok:
  assumes r: "all_ready classes v" and c: "ac_class a \<in> class_id ` set classes" and s: "s < total_slots"
  shows "all_ready classes (write_period st a s v)"
    "s' < total_slots \<Longrightarrow> stored_cell (write_period st a s v) cid s' =
       (if cid = ac_class a \<and> s' = s \<and> \<not> protected_cell st cid s then JStr (ac_mon a) else stored_cell v cid s')"
  using write_read [OF all_readyD [OF r c] s, of s' "JStr (ac_mon a)" cid] all_ready_write [OF r] r
  by (auto simp: write_period_def Let_def side_table)

lemma write_slots_ok:
  assumes "ac_class a \<in> class_id ` set classes" "\<forall>s \<in> set ss. s < total_slots" "all_ready classes v"
  shows "all_ready classes (fold (write_period st a) ss v) \<and> (\<forall>s' < total_slots. stored_cell (fold (write_period st a) ss v) cid s' =
     (if cid = ac_class a \<and> s' \<in> set ss \<and> \<not> protected_cell st cid s' then JStr (ac_mon a) else stored_cell v cid s'))"
  using assms(2,3)
proof (induction ss arbitrary: v)
  case (Cons s ss)
  have s: "s < total_slots" using Cons.prems(1) by simp
  note W = write_period_ok [OF Cons.prems(2) assms(1) s]
  from Cons.IH [OF _ W(1)] Cons.prems(1) show ?case using W(2) by auto
qed simp

lemma write_act_ok:
  assumes r: "all_ready classes v" and c: "ac_class a \<in> class_id ` set classes"
    and p: "\<forall>s. shown_at st a (ac_class a) s \<longrightarrow> s < total_slots"
  shows "all_ready classes (write_act st a v)"
    "s < total_slots \<Longrightarrow> stored_cell (write_act st a v) cid s =
       (if shown_at st a cid s \<and> \<not> protected_cell st cid s then JStr (ac_mon a) else stored_cell v cid s)"
proof -
  have "all_ready classes (write_act st a v) \<and> (\<forall>s < total_slots. stored_cell (write_act st a v) cid s =
       (if shown_at st a cid s \<and> \<not> protected_cell st cid s then JStr (ac_mon a) else stored_cell v cid s))"
  proof (cases "e_place st ! ac_id a")
    case None
    then show ?thesis using r by (simp add: write_act_def shown_at_def)
  next
    case (Some q)
    have "\<forall>s \<in> set (slots_from q (ac_dur a)). s < total_slots"
      using p Some by (simp add: shown_at_def mem_slots_from)
    from write_slots_ok [OF c this r] Some show ?thesis
      by (simp add: write_act_def shown_at_def mem_slots_from) (metis (full_types))
  qed
  then show "all_ready classes (write_act st a v)"
    "s < total_slots \<Longrightarrow> stored_cell (write_act st a v) cid s =
       (if shown_at st a cid s \<and> \<not> protected_cell st cid s then JStr (ac_mon a) else stored_cell v cid s)"
    by blast+
qed

text \<open>When all lessons that are shown in a cell are of one subject, the cell holds it after the loop.\<close>

lemma write_acts_ok:
  assumes "\<forall>a \<in> set as. ac_class a \<in> class_id ` set classes \<and> (\<forall>s. shown_at st a (ac_class a) s \<longrightarrow> s < total_slots)"
    and s: "s < total_slots" and same: "\<forall>a \<in> set as. shown_at st a cid s \<longrightarrow> ac_mon a = m" and "all_ready classes v"
  shows "stored_cell (fold (write_act st) as v) cid s =
    (if (\<exists>a \<in> set as. shown_at st a cid s) \<and> \<not> protected_cell st cid s then JStr m else stored_cell v cid s)"
  using assms(1,3,4)
proof (induction as arbitrary: v)
  case (Cons a as)
  have a: "ac_class a \<in> class_id ` set classes" "\<forall>s. shown_at st a (ac_class a) s \<longrightarrow> s < total_slots" using Cons.prems(1) by simp_all
  note W = write_act_ok [where st = st, OF Cons.prems(3) a]
  have "stored_cell (fold (write_act st) as (write_act st a v)) cid s =
      (if (\<exists>a \<in> set as. shown_at st a cid s) \<and> \<not> protected_cell st cid s then JStr m else stored_cell (write_act st a v) cid s)"
    by (rule Cons.IH [OF _ _ W(1)]) (use Cons.prems in simp_all)
  then show ?case using W(2) [OF s, of cid] Cons.prems(2) by auto
qed simp

lemma restore_nothing: "ac_init a = None \<or> e_place st ! ac_id a \<noteq> None \<Longrightarrow> restore_act st a v = v"
  by (auto simp: restore_act_def split: option.splits)

subsection \<open>The whole\<close>

definition grid_cell :: "eng \<Rightarrow> ustr \<Rightarrow> nat \<Rightarrow> js" where
  "grid_cell st cid s = (case map_of (e_raw st) (cid, s) of Some raw \<Rightarrow> raw
     | None \<Rightarrow> (case cell_at (e_cgrid st) cid s of GAct i \<Rightarrow> JStr (ac_mon (e_acts st ! i))
         | _ \<Rightarrow> if (cid, s) \<in> e_off st then JStr (u ''OFF'') else JNull))"

lemma apply_writes_grid:
  assumes con: "consistent B st" and raw: "\<forall>k. map_of (e_raw st) k \<noteq> None \<longrightarrow> map_of (e_fixed st) k \<noteq> None"
    and cls: "\<forall>a \<in> set (e_acts st). ac_class a \<in> class_id ` set (e_classes st)"
    and lost: "\<forall>a \<in> set (e_acts st). ac_init a = None \<or> e_place st ! ac_id a \<noteq> None"
    and sane: "sane (e_classes st) (e_data st)"
    and c: "cid \<in> class_id ` set (e_classes st)" and s: "s < total_slots"
  shows "stored_cell (e_data (applyToDataTKB st)) cid s = grid_cell st cid s"
proof -
  let ?ids = "map class_id (e_classes st)"
  have ag: "agree B st" and g: "good B st (e_place st)" using con by (simp_all add: consistent_def)
  define v1 where "v1 = fold ensure_class ?ids (ensure_tables (e_data st))"
  define v2 where "v2 = fold (blank_class st) ?ids v1"
  define v3 where "v3 = fold (write_act st) (e_acts st) v2"
  have "fold (restore_act st) as v = v" if "set as \<subseteq> set (e_acts st)" for as v
    using that lost restore_nothing by (induction as arbitrary: v) auto
  then have d: "e_data (applyToDataTKB st) = v3"
    by (simp add: applyToDataTKB_def timetable_of_def Let_def v1_def v2_def v3_def)
  have r1: "all_ready (e_classes st) v1" using tables_ready [OF sane] by (simp add: all_ready_def v1_def)
  have r2: "all_ready (e_classes st) v2" and b2: "blank_at st cid s v2"
    using blanked [OF r1, of st, folded v2_def] c s by auto
  have sh: "shown_at st (e_acts st ! i) k t \<longleftrightarrow> ac_class (e_acts st ! i) = k \<and> covers (e_acts st) (e_place st) i t"
    if "i < length (e_acts st)" for i k t
    using that agreeD(1,2) [OF ag] by (simp add: shown_at_def covers_def)
  have cell: "cell_at (e_cgrid st) cid s = GAct i \<longleftrightarrow> i < length (e_acts st) \<and> shown_at st (e_acts st ! i) cid s" for i
    using displaysD(1) [OF agreeD(6) [OF ag], of cid s i] sh by blast
  have bnd: "t < total_slots" if a: "a \<in> set (e_acts st)" and t: "shown_at st a (ac_class a) t" for a t
  proof -
    obtain i where "i < length (e_acts st)" "a = e_acts st ! i" using a by (metis in_set_conv_nth)
    then show ?thesis using t sh covers_bound [OF g] by blast
  qed
  have open_cells: "\<not> protected_cell st cid s" if "i < length (e_acts st)" "shown_at st (e_acts st ! i) cid s" for i
  proof -
    have o: "open_cell B st (e_acts st ! i) s" "ac_class (e_acts st ! i) = cid" using that sh goodD(4) [OF g] by blast+
    then have "map_of (e_raw st) (cid, s) = None" "(cid, s) \<notin> e_off st" using raw unfolding open_cell_def by blast+
    then show ?thesis by (simp add: protected_cell_def)
  qed
  show ?thesis
  proof (cases "\<exists>i < length (e_acts st). shown_at st (e_acts st ! i) cid s")
    case True
    then obtain i where i: "i < length (e_acts st)" "shown_at st (e_acts st ! i) cid s" by blast
    have gc: "cell_at (e_cgrid st) cid s = GAct i" using cell i by blast
    have same: "\<forall>a \<in> set (e_acts st). shown_at st a cid s \<longrightarrow> ac_mon a = ac_mon (e_acts st ! i)"
      using cell gc by (metis gcell.inject in_set_conv_nth)
    have "stored_cell v3 cid s = JStr (ac_mon (e_acts st ! i))"
      unfolding v3_def using write_acts_ok [OF _ s same r2] cls bnd open_cells [OF i] i by (metis nth_mem)
    moreover have "map_of (e_raw st) (cid, s) = None" using open_cells [OF i] by (simp add: protected_cell_def)
    ultimately show ?thesis using gc by (simp add: d grid_cell_def)
  next
    case False
    then have none: "\<forall>a \<in> set (e_acts st). \<not> shown_at st a cid s" by (metis in_set_conv_nth)
    have "stored_cell v3 cid s = stored_cell v2 cid s"
      unfolding v3_def using write_acts_ok [OF _ s _ r2, of "e_acts st" st cid "[]"] cls bnd none by simp
    moreover have "cell_at (e_cgrid st) cid s \<noteq> GAct i" for i using False cell by blast
    ultimately show ?thesis using b2
      by (auto simp: d grid_cell_def blank_at_def blank_cell_def split: option.splits gcell.splits)
  qed
qed

lemma solve_written:
  assumes sane: "sane (school_classes (e_data st)) (e_data st)"
    and c: "cid \<in> class_id ` set (school_classes (e_data st))" and s: "s < total_slots" and f: "st' = snd (snd (solve cb st))"
  shows "stored_cell (e_data st') cid s = grid_cell st' cid s"
proof -
  define st1 where "st1 = snd (constructed cb st)"
  note F = constructed_fields [OF st1_def]
  have st': "st' = applyToDataTKB st1" using f by (simp add: solve_state st1_def)
  have "grid_cell st' cid s = grid_cell st1 cid s" unfolding st' grid_cell_def apply_same by (rule refl)
  moreover have "stored_cell (e_data (applyToDataTKB st1)) cid s = grid_cell st1 cid s"
    by (rule apply_writes_grid [OF constructed_consistent [of st cb, folded st1_def] F(5) _ _ _ _ s])
      (use F sane c acts_ok_mem [OF F(6)] in simp_all)
  ultimately show ?thesis by (simp add: st')
qed

end
