(* ===== verification/FeLoadOk.thy ===== *)
theory FeLoadOk
  imports FeSolveOk
begin

section \<open>FET engine: a loaded timetable is consistent\<close>

text \<open>
  Whatever the stored timetable holds, the engine that \<open>loadExistingSchedule\<close> leaves is consistent: a
  lesson that clashes with one already loaded stays out. Every movable cell belongs to one activity.
\<close>

subsection \<open>One placement\<close>

lemma free_cellD:
  assumes "free_cell st a s"
  shows "s < total_slots" "(ac_class a, s) \<notin> e_off st" "map_of (e_fixed st) (ac_class a, s) = None"
    "cell_at (e_cgrid st) (ac_class a) s = GFree" "t \<in> set (act_teachers a) \<Longrightarrow> (t, s) \<notin> e_toff st \<and> cell_at (e_tgrid st) t s = GFree"
    "has_room a r \<Longrightarrow> cell_at (e_rgrid st) r s = GFree"
  using assms by (auto simp: free_cell_def list_all_iff has_room_def)

lemma displays_free: "displays acts pl own base m \<Longrightarrow> cell_at m k s = GFree \<Longrightarrow> base k s = GFree"
  using displaysD(2) [of acts pl own base m k s] by simp

lemma free_cell_open:
  assumes ag: "agree B st" and f: "free_cell st a s"
  shows "open_cell B st a s"
proof -
  note F = free_cellD [OF f]
  have "fb_c B (ac_class a) s = GFree" by (rule displays_free [OF agreeD(6) [OF ag] F(4)])
  moreover have "fb_t B t s = GFree" if "t \<in> set (act_teachers a)" for t
    by (rule displays_free [OF agreeD(7) [OF ag]]) (use F(5) [OF that] in simp)
  moreover have "fb_r B (room_key a) s = GFree" if "ac_room a \<noteq> []"
    by (rule displays_free [OF agreeD(8) [OF ag] F(6)]) (use that in \<open>simp add: has_room_def\<close>)
  ultimately show ?thesis using F(2,3,5) by (simp add: open_cell_def)
qed

lemma free_cell_disjoint:
  assumes ag: "agree B st" and f: "free_cell st a s" and j: "covers (e_acts st) (e_place st) j s"
  shows "disjoint_acts a (e_acts st ! j)"
proof -
  note F = free_cellD [OF f]
  have n: "j < length (e_acts st)" using j agreeD(1) [OF ag] by (simp add: covers_def)
  have "ac_class a \<noteq> ac_class (e_acts st ! j)"
    using displaysD(1) [OF agreeD(6) [OF ag], of "ac_class a" s j] F(4) n j by auto
  moreover have "t \<notin> set (act_teachers (e_acts st ! j))" if "t \<in> set (act_teachers a)" for t
    using displaysD(1) [OF agreeD(7) [OF ag], of t s j] F(5) [OF that] n j by auto
  moreover have "\<not> has_room (e_acts st ! j) r" if "has_room a r" for r
    using displaysD(1) [OF agreeD(8) [OF ag], of r s j] F(6) [OF that] n j by auto
  ultimately show ?thesis by (auto simp: disjoint_acts_def has_room_def)
qed

lemma canLoad_good:
  assumes ag: "agree B st" and g: "good B st (e_place st)" and i: "i < length (e_acts st)"
    and p: "p < total_slots" "p mod periods_per_session + ac_dur (e_acts st ! i) \<le> periods_per_session"
    and c: "canLoadPlacement st (e_acts st ! i) p"
  shows "good B st ((e_place st)[i := Some p])"
proof -
  have f: "free_cell st (e_acts st ! i) s" if "p \<le> s" "s < p + ac_dur (e_acts st ! i)" for s
    using c that agreeD(3) [OF ag i] by (simp add: canLoadPlacement_def list_all_iff mem_slots_from)
  show ?thesis
    by (rule good_add [OF g _ p]) (use i agreeD(1) [OF ag] free_cell_open [OF ag f] free_cell_disjoint [OF ag f] in simp_all)
qed

subsection \<open>The activities of the stored cells\<close>

definition from_cell :: "ustr set \<Rightarrow> nat \<Rightarrow> act \<Rightarrow> bool" where
  "from_cell C n a \<longleftrightarrow> ac_id a = n \<and> 0 < ac_dur a \<and> \<not> ac_fixed a \<and> ac_class a \<in> C
     \<and> (\<exists>s. ac_init a = Some s \<and> s < total_slots \<and> s mod periods_per_session + ac_dur a \<le> periods_per_session)"

definition loaded_ok :: "ustr set \<Rightarrow> act list \<Rightarrow> bool" where
  "loaded_ok C acts \<longleftrightarrow> (\<forall>i < length acts. from_cell C i (acts ! i))"

lemma loaded_ok_snoc: "loaded_ok C acts \<Longrightarrow> from_cell C (length acts) a \<Longrightarrow> loaded_ok C (acts @ [a])"
  by (auto simp: loaded_ok_def nth_append less_Suc_eq)

lemma block_len_range: "block_len st lop s = 1 \<or> block_len st lop s = 2 \<and> s mod periods_per_session + 1 < periods_per_session
    \<and> movable_cell (stored_cell (e_data st) (class_id lop) (s + 1))"
proof -
  have "sd_period (slotToDetails s) = s mod periods_per_session"
    by (simp add: slotToDetails_def Let_def mod_mod_cancel)
  then show ?thesis by (auto simp: block_len_def Let_def)
qed

lemma loaded_act_ok:
  assumes "s < total_slots" "class_id lop \<in> C"
  shows "from_cell C n (loaded_act st lop s n (block_len st lop s))"
  using block_len_range [of st lop s] assms mod_less_divisor [of periods_per_session s]
  by (auto simp: from_cell_def loaded_act_def Let_def)

lemma in_half: "(s :: nat) = b * 5 + (5 - n) \<Longrightarrow> 0 < n \<Longrightarrow> n \<le> 5 \<Longrightarrow> b < 12 \<Longrightarrow> s < 60 \<and> s mod 5 = 5 - n"
proof -
  assume s: "s = b * 5 + (5 - n)" and n: "0 < n" "n \<le> 5" and b: "b < 12"
  define m where "m = 5 - n"
  have "m < 5" "s = b * 5 + m" using n s by (simp_all add: m_def)
  then show ?thesis using b by (simp add: m_def [symmetric])
qed

definition movable_in :: "eng \<Rightarrow> js \<Rightarrow> nat \<Rightarrow> nat \<Rightarrow> nat" where
  "movable_in st lop s n = length (filter (\<lambda>k. movable_cell (stored_cell (e_data st) (class_id lop) k)) [s..<s + n])"

lemma movable_in_Suc: "movable_in st lop s (Suc n) =
    (if movable_cell (stored_cell (e_data st) (class_id lop) s) then 1 else 0) + movable_in st lop (s + 1) n"
proof -
  have "[s..<s + Suc n] = s # [s + 1..<s + 1 + n]" by (simp add: upt_conv_Cons del: upt_Suc)
  then show ?thesis unfolding movable_in_def by simp
qed

text \<open>A half day: the new activities are well formed and cover its movable cells once each.\<close>

lemma load_cells_ok:
  assumes "class_id lop \<in> C" "b < 12"
  shows "s = b * 5 + (5 - n) \<Longrightarrow> n \<le> 5 \<Longrightarrow> loaded_ok C acts \<Longrightarrow>
    loaded_ok C (load_cells st lop s n acts)
    \<and> sum_list (map ac_dur (load_cells st lop s n acts)) = sum_list (map ac_dur acts) + movable_in st lop s n"
proof (induction n arbitrary: s acts rule: less_induct)
  case (less n)
  show ?case
  proof (cases n)
    case 0
    then show ?thesis using less.prems by (simp add: movable_in_def)
  next
    case (Suc k)
    have s: "s < 60" "s mod 5 = 5 - n" using in_half [OF less.prems(1)] Suc less.prems(2) assms(2) by simp_all
    show ?thesis
    proof (cases "movable_cell (stored_cell (e_data st) (class_id lop) s)")
      case False
      have "s + 1 = b * 5 + (5 - k)" using less.prems(1,2) Suc by simp
      from less.IH [OF _ this _ less.prems(3)] Suc less.prems(2) False show ?thesis by (simp add: movable_in_Suc)
    next
      case True
      let ?len = "block_len st lop s"
      let ?acts = "acts @ [loaded_act st lop s (length acts) ?len]"
      have ok: "loaded_ok C ?acts"
        by (rule loaded_ok_snoc [OF less.prems(3) loaded_act_ok]) (use s assms in simp_all)
      have len: "?len = 1 \<or> ?len = 2 \<and> 1 < n \<and> movable_cell (stored_cell (e_data st) (class_id lop) (s + 1))"
        using block_len_range [of st lop s] s(2) Suc by auto
      have nxt: "s + ?len = b * 5 + (5 - (n - ?len))" using less.prems(1,2) len Suc by auto
      have dur: "ac_dur (loaded_act st lop s (length acts) ?len) = ?len" by (simp add: loaded_act_def Let_def)
      have "movable_in st lop s n = ?len + movable_in st lop (s + ?len) (n - ?len)"
        using len True Suc by (cases k) (auto simp: movable_in_Suc)
      with less.IH [OF _ nxt _ ok] less.prems(2) len Suc True dur show ?thesis by auto
    qed
  qed
qed

lemma load_class_ok:
  assumes c: "class_id lop \<in> C" and a: "loaded_ok C acts"
  shows "loaded_ok C (load_class st lop acts) \<and>
    sum_list (map ac_dur (load_class st lop acts)) = sum_list (map ac_dur acts) + (\<Sum>b\<leftarrow>[0..<12]. movable_in st lop (b * 5) 5)"
proof -
  have "loaded_ok C (fold (\<lambda>b. load_cells st lop (b * 5) 5) bs acts) \<and>
      sum_list (map ac_dur (fold (\<lambda>b. load_cells st lop (b * 5) 5) bs acts)) = sum_list (map ac_dur acts) + (\<Sum>b\<leftarrow>bs. movable_in st lop (b * 5) 5)"
    if "\<forall>b \<in> set bs. b < 12" for bs
    using a that
  proof (induction bs arbitrary: acts)
    case (Cons b bs)
    then have "b < 12" "\<forall>x \<in> set bs. x < 12" by simp_all
    with Cons.IH load_cells_ok [OF c \<open>b < 12\<close>, of "b * 5" 5 acts st] Cons.prems(1) show ?case by simp
  qed simp
  from this [of "[0..<12]"] show ?thesis by (simp add: load_class_def)
qed

definition loaded_acts :: "eng \<Rightarrow> act list" where
  "loaded_acts st = fold (load_class (init st)) (e_classes (init st)) []"

lemma loaded_acts_ok:
  "loaded_ok (class_id ` set (e_classes (init st))) (loaded_acts st)"
  "sum_list (map ac_dur (loaded_acts st)) =
     (\<Sum>lop\<leftarrow>e_classes (init st). \<Sum>b\<leftarrow>[0..<12]. movable_in (init st) lop (b * 5) 5)"
proof -
  let ?C = "class_id ` set (e_classes (init st))"
  have "loaded_ok ?C (fold (load_class (init st)) ls acts) \<and>
      sum_list (map ac_dur (fold (load_class (init st)) ls acts)) =
        sum_list (map ac_dur acts) + (\<Sum>lop\<leftarrow>ls. \<Sum>b\<leftarrow>[0..<12]. movable_in (init st) lop (b * 5) 5)"
    if "class_id ` set ls \<subseteq> ?C" "loaded_ok ?C acts" for ls acts
    using that
  proof (induction ls arbitrary: acts)
    case (Cons l ls)
    then show ?case using load_class_ok [of l ?C acts "init st"] by simp
  qed simp
  from this [of "e_classes (init st)" "[]"]
  show "loaded_ok ?C (loaded_acts st)" "sum_list (map ac_dur (loaded_acts st)) =
     (\<Sum>lop\<leftarrow>e_classes (init st). \<Sum>b\<leftarrow>[0..<12]. movable_in (init st) lop (b * 5) 5)"
    by (simp_all add: loaded_acts_def loaded_ok_def)
qed

subsection \<open>Loading\<close>

definition load_start :: "eng \<Rightarrow> eng" where
  "load_start st = (init st)\<lparr>e_acts := loaded_acts st, e_place := replicate (length (loaded_acts st)) None\<rparr>"

lemma load_as_fold: "loadExistingSchedule st = fold load_place (loaded_acts st) (load_start st)"
  by (simp add: loadExistingSchedule_def Let_def loaded_acts_def load_start_def)

lemma load_start_consistent: "consistent (base_now (load_start st)) (load_start st)"
proof -
  have "reading (load_start st)"
    using init_empty [of st] unfolding empty_state_def load_start_def by (intro apply_fields) simp
  then show ?thesis
    unfolding consistent_def
    by (intro conjI fresh_agree) (use loaded_acts_ok(1) [of st] in \<open>auto simp: load_start_def loaded_ok_def from_cell_def\<close>)
qed

text \<open>The activities not yet visited are not placed.\<close>

lemma load_place_step:
  assumes con: "consistent B st" and i: "i < length (e_acts st)" "e_place st ! i = None" and a: "from_cell C i (e_acts st ! i)"
  shows "consistent B (load_place (e_acts st ! i) st)" "sig (load_place (e_acts st ! i) st) = sig st"
    "j \<noteq> i \<Longrightarrow> e_place (load_place (e_acts st ! i) st) ! j = e_place st ! j"
proof -
  let ?a = "e_acts st ! i"
  obtain s where s: "ac_init ?a = Some s" "s < total_slots" "s mod periods_per_session + ac_dur ?a \<le> periods_per_session" "ac_id ?a = i"
    using a unfolding from_cell_def by blast
  have ag: "agree B st" and g: "good B st (e_place st)" using con by (simp_all add: consistent_def)
  have "consistent B (load_place ?a st) \<and> sig (load_place ?a st) = sig st \<and> (j \<noteq> i \<longrightarrow> e_place (load_place ?a st) ! j = e_place st ! j)"
  proof (cases "canLoadPlacement st ?a s")
    case True
    have g': "good B st ((e_place st)[i := Some s])" by (rule canLoad_good [OF ag g i(1) s(2,3) True])
    have P: "agree B (placeActivityDirect i s st)" "frame st (placeActivityDirect i s st)"
      "e_place (placeActivityDirect i s st) = (e_place st)[i := Some s]"
      using place_agree [OF ag i g'] by blast+
    note sg = frame_fields(1) [OF P(2)]
    have "consistent B (placeActivityDirect i s st)"
      using P(1,3) g' good_cong [OF sg, of B] by (simp add: consistent_def)
    then show ?thesis using True s P(3) sg by (simp add: load_place_def)
  qed (use con s in \<open>simp add: load_place_def\<close>)
  then show "consistent B (load_place ?a st)" "sig (load_place ?a st) = sig st"
    "j \<noteq> i \<Longrightarrow> e_place (load_place ?a st) ! j = e_place st ! j" by blast+
qed

lemma load_fold:
  assumes "loaded_ok C acts"
  shows "consistent B st \<Longrightarrow> e_acts st = acts \<Longrightarrow> k \<le> length acts \<Longrightarrow> \<forall>j. k \<le> j \<longrightarrow> j < length acts \<longrightarrow> e_place st ! j = None \<Longrightarrow>
    consistent B (fold load_place (drop k acts) st) \<and> sig (fold load_place (drop k acts) st) = sig st"
proof (induction "length acts - k" arbitrary: k st)
  case 0
  then show ?case by simp
next
  case (Suc n)
  then have k: "k < length (e_acts st)" "e_place st ! k = None" by simp_all
  have "from_cell C k (e_acts st ! k)" using assms Suc.prems(2) k(1) by (simp add: loaded_ok_def)
  note L = load_place_step [OF Suc.prems(1) k this]
  have d: "drop k acts = acts ! k # drop (Suc k) acts" using k Suc.prems(2) by (simp add: Cons_nth_drop_Suc)
  have "consistent B (fold load_place (drop (Suc k) acts) (load_place (acts ! k) st))
      \<and> sig (fold load_place (drop (Suc k) acts) (load_place (acts ! k) st)) = sig (load_place (acts ! k) st)"
    using L Suc.hyps(2) Suc.prems by (intro Suc.hyps(1)) (auto simp: sig_def)
  then show ?case using L(2) Suc.prems(2) by (simp add: d)
qed

lemma load_consistent:
  "consistent (base_now (load_start st)) (loadExistingSchedule st)" "sig (loadExistingSchedule st) = sig (load_start st)"
proof -
  have "consistent (base_now (load_start st)) (fold load_place (drop 0 (loaded_acts st)) (load_start st))
      \<and> sig (fold load_place (drop 0 (loaded_acts st)) (load_start st)) = sig (load_start st)"
    by (rule load_fold [OF loaded_acts_ok(1) load_start_consistent]) (simp_all add: load_start_def)
  then show "consistent (base_now (load_start st)) (loadExistingSchedule st)" "sig (loadExistingSchedule st) = sig (load_start st)"
    by (simp_all add: load_as_fold)
qed

end
