(* ===== verification/FeDemo.thy ===== *)
theory FeDemo
  imports FeRepairOk FeApplyOk FeLoadOk
begin

section \<open>FET engine: a small school\<close>

text \<open>
  Two classes, two teachers and three lessons, one of two periods; the fifth period of the first Monday
  morning is OFF for class a. The state in which two of the lessons stand is consistent. The concrete
  inputs of the properties' witnesses are taken from it.
\<close>

definition demo_act :: "nat \<Rightarrow> ustr \<Rightarrow> ustr \<Rightarrow> ustr \<Rightarrow> nat \<Rightarrow> act" where
  "demo_act i c mon gv dur = \<lparr>ac_id = i, ac_class = c, ac_classCanon = c, ac_lop = JObj [(u ''id'', JStr c)], ac_mon = mon,
     ac_canon = mon, ac_gv = gv, ac_room = [], ac_dur = dur, ac_fixed = False, ac_ninc = 0, ac_init = None,
     ac_raw = JUndef, ac_raw2 = JUndef\<rparr>"

definition demo_acts :: "act list" where
  "demo_acts = [demo_act 0 (u ''a'') (u ''toan'') (u ''x'') 2, demo_act 1 (u ''b'') (u ''toan'') (u ''x'') 1,
     demo_act 2 (u ''a'') (u ''van'') (u ''y'') 1]"

definition demo_class :: "ustr \<Rightarrow> js" where
  "demo_class c = JObj [(u ''id'', JStr c)]"

definition demo :: eng where
  "demo = \<lparr>e_data = JObj [(u ''lop'', JArr [demo_class (u ''a''), demo_class (u ''b'')])], e_opts = JObj [], e_classes = [demo_class (u ''a''), demo_class (u ''b'')],
     e_acts = demo_acts, e_fixed = [], e_raw = [], e_off = {(u ''a'', 4)}, e_toff = {}, e_roff = {}, e_soff = {},
     e_cgrid = [(u ''a'', empty_row[4 := GOff]), (u ''b'', empty_row)], e_tgrid = [], e_rgrid = [],
     e_place = replicate 3 None, e_blocks = [], e_blockConflicts = [], e_scored = None, e_tabu = (\<lambda>_. 0), e_step = 0,
     e_calls = 0, e_limit = 8000, e_journal = [], e_branch = {}, e_rng = prng_new 12345, e_clock = int, e_ticks = 0,
     e_deadline = None, e_hit = False, e_strict = True, e_mintwo = False, e_weekly = None, e_permanent = None,
     e_holes = None, e_lockS1 = None, e_lockGap2 = None, e_rejections = 0\<rparr>"

text \<open>Computed facts.\<close>

lemma demo_names [simp]:
  "act_teachers (demo_act i c mon (u ''x'') d) = [u ''x'']" "act_teachers (demo_act i c mon (u ''y'') d) = [u ''y'']"
  by (simp_all add: act_teachers_def demo_act_def) code_simp+

lemma demo_act_simps [simp]:
  "ac_id (demo_act i c mon gv d) = i" "ac_class (demo_act i c mon gv d) = c" "ac_dur (demo_act i c mon gv d) = d"
  "ac_room (demo_act i c mon gv d) = []" "ac_fixed (demo_act i c mon gv d) = False" "ac_init (demo_act i c mon gv d) = None" "ac_mon (demo_act i c mon gv d) = mon"
  by (simp_all add: demo_act_def)

lemma demo_keys [simp]: "u ''a'' \<noteq> u ''b''" "u ''b'' \<noteq> u ''a''" "u ''x'' \<noteq> u ''y''" "u ''y'' \<noteq> u ''x''"
  by code_simp+

lemma demo_class_id [simp]: "class_id (demo_class c) = c"
proof -
  have "jprop (demo_class c) ''id'' = JStr c" by (simp add: demo_class_def)
  then show ?thesis by (simp add: class_id_def str_or_empty_def)
qed

lemma demo_fields [simp]:
  "e_acts demo = demo_acts" "e_place demo = [None, None, None]" "e_off demo = {(u ''a'', 4)}" "e_fixed demo = []" "e_toff demo = {}"
  "e_tgrid demo = []" "e_rgrid demo = []"
  "e_classes demo = [demo_class (u ''a''), demo_class (u ''b'')]"
  by (simp_all add: demo_def numeral_3_eq_3)

lemma demo_cell:
  "cell_at (e_cgrid demo) c s = (if c = u ''a'' \<and> s = 4 then GOff else GFree)"
  by (simp add: demo_def cell_at_def empty_row_def nth_list_update)

lemma demo_rows: "map_of (e_cgrid demo) k = (if k = u ''a'' then Some (empty_row[4 := GOff]) else if k = u ''b'' then Some empty_row else None)"
  by (simp add: demo_def)

lemma demo_empty: "empty_state demo"
proof -
  have "idle_rows (e_cgrid demo)"
    unfolding idle_rows_def using demo_cell by (simp add: rows_ok_def demo_rows) (simp add: empty_row_def)
  moreover have "acts_ok {u ''a'', u ''b''} demo_acts"
    by (auto simp: acts_ok_def demo_acts_def less_Suc_eq)
  ultimately show ?thesis
    using demo_cell demo_rows
    by (auto simp: empty_state_def reading_def one_row_each_def demo_acts_def) (simp_all add: demo_def idle_rows_def rows_ok_def cell_at_def)
qed

definition demo_base :: fe_base where
  "demo_base = base_now demo"

lemma demo_consistent: "consistent demo_base demo"
  using empty_agree [OF demo_empty] by (simp add: consistent_def demo_base_def)

text \<open>The lesson of two periods stands at the start of Monday, the other lesson of its teacher in the afternoon.\<close>

definition demo_one :: eng where
  "demo_one = placeActivityDirect 0 0 demo"

definition demo_two :: eng where
  "demo_two = placeActivityDirect 1 5 demo_one"

lemma demo_nth [simp]: "demo_acts ! 0 = demo_act 0 (u ''a'') (u ''toan'') (u ''x'') 2"
  "demo_acts ! Suc 0 = demo_act 1 (u ''b'') (u ''toan'') (u ''x'') 1" "length demo_acts = 3"
  by (simp_all add: demo_acts_def)

lemma demo_base_cells:
  "fb_c demo_base = cell_at (e_cgrid demo)" "fb_t demo_base t s = GFree" "fb_r demo_base r s = GFree"
  by (simp_all add: demo_base_def base_now_def cell_at_def)

lemma demo_good_one: "good demo_base demo [Some 0, None, None]"
proof -
  have "covers (e_acts demo) [Some 0, None, None] i s \<longleftrightarrow> i = 0 \<and> s < 2" for i s
    by (auto simp: covers_def less_Suc_eq nth_Cons' numeral_2_eq_2)
  then show ?thesis
    unfolding good_def by (auto simp: less_Suc_eq open_cell_def demo_base_cells demo_cell)
qed

lemma demo_good_two: "good demo_base demo [Some 0, Some 5, None]"
proof -
  have "covers (e_acts demo) [Some 0, Some 5, None] i s \<longleftrightarrow> i = 0 \<and> s < 2 \<or> i = Suc 0 \<and> s = 5" for i s
  proof -
    consider "i = 0" | "i = Suc 0" | "2 \<le> i" by linarith
    then show ?thesis by cases (auto simp: covers_def nth_Cons')
  qed
  then show ?thesis
    unfolding good_def by (auto simp: less_Suc_eq open_cell_def demo_base_cells demo_cell)
qed

lemma demo_one_consistent: "consistent demo_base demo_one" "sig demo_one = sig demo" "e_place demo_one = [Some 0, None, None]"
proof -
  have "agree demo_base demo_one \<and> frame demo demo_one \<and> e_place demo_one = (e_place demo)[0 := Some 0]"
    unfolding demo_one_def by (rule place_agree) (use demo_consistent demo_good_one in \<open>simp_all add: consistent_def\<close>)
  then have p: "agree demo_base demo_one" "e_place demo_one = [Some 0, None, None]" and s: "sig demo_one = sig demo"
    using frame_fields(1) by simp_all
  show "sig demo_one = sig demo" "e_place demo_one = [Some 0, None, None]" by (rule s, rule p(2))
  show "consistent demo_base demo_one" using p demo_good_one good_cong [OF s, of demo_base] by (simp add: consistent_def)
qed

lemma demo_two_consistent: "consistent demo_base demo_two" "sig demo_two = sig demo" "e_place demo_two = [Some 0, Some 5, None]"
proof -
  note one = demo_one_consistent
  have "agree demo_base demo_two \<and> frame demo_one demo_two \<and> e_place demo_two = (e_place demo_one)[1 := Some 5]"
    unfolding demo_two_def
    by (rule place_agree) (use one demo_good_two good_cong [OF one(2), of demo_base] in \<open>simp_all add: consistent_def sig_def\<close>)
  then have p: "agree demo_base demo_two" "e_place demo_two = [Some 0, Some 5, None]" and "frame demo_one demo_two" using one by simp_all
  then have s: "sig demo_two = sig demo" using frame_fields(1) one(2) by simp
  show "sig demo_two = sig demo" "e_place demo_two = [Some 0, Some 5, None]" by (rule s, rule p(2))
  show "consistent demo_base demo_two" using p demo_good_two good_cong [OF s, of demo_base] by (simp add: consistent_def)
qed

lemma frame_permanent: "frame st st' \<Longrightarrow> e_permanent st' = e_permanent st"
  by (auto simp: frame_def)

lemma demo_two_permanent: "e_permanent demo_two = None"
proof -
  have "agree demo_base demo_one \<and> frame demo demo_one \<and> e_place demo_one = (e_place demo)[0 := Some 0]"
    unfolding demo_one_def by (rule place_agree) (use demo_consistent demo_good_one in \<open>simp_all add: consistent_def\<close>)
  moreover have "agree demo_base demo_two \<and> frame demo_one demo_two \<and> e_place demo_two = (e_place demo_one)[1 := Some 5]"
    unfolding demo_two_def
    by (rule place_agree)
      (use demo_one_consistent demo_good_two good_cong [OF demo_one_consistent(2), of demo_base] in \<open>simp_all add: consistent_def sig_def\<close>)
  ultimately have "frame demo demo_two" using frame_trans by blast
  from frame_permanent [OF this] show ?thesis by (simp add: demo_def)
qed

lemma demo_two_fields:
  "e_acts demo_two = demo_acts" "e_off demo_two = {(u ''a'', 4)}" "e_fixed demo_two = []" "e_toff demo_two = {}" "e_holes demo_two = None"
  using demo_two_consistent(2) by (simp_all add: sig_def) (simp add: demo_def)

lemma demo_two_placed: "placed demo_two = {0, 1}"
  by (auto simp: placed_def demo_two_consistent(3) less_Suc_eq nth_Cons')

end
