(* ===== verification/FeMeasureOk.thy ===== *)
theory FeMeasureOk
  imports FeMetrics
begin

section \<open>FET engine: facts about the measures\<close>

text \<open>
  The metrics of the school are the sums of the metrics of its teachers, the list of residual sessions
  is as long as the metric says, and a strictly better metric is smaller in a well-founded order, in
  every mode: no sequence of accepted moves goes on for ever.
\<close>

subsection \<open>Adding metrics\<close>

instantiation metrics_ext :: (comm_monoid_add) comm_monoid_add
begin

definition zero_metrics_ext :: "'a metrics_ext" where
  "0 = \<lparr>mt_singleDays = 0, mt_day1 = 0, mt_day2 = 0, mt_day3 = 0, mt_sessions = 0, mt_days = 0, mt_gap1 = 0, mt_gap2 = 0, \<dots> = 0\<rparr>"

definition plus_metrics_ext :: "'a metrics_ext \<Rightarrow> 'a metrics_ext \<Rightarrow> 'a metrics_ext" where
  "a + b = \<lparr>mt_singleDays = mt_singleDays a + mt_singleDays b, mt_day1 = mt_day1 a + mt_day1 b, mt_day2 = mt_day2 a + mt_day2 b,
     mt_day3 = mt_day3 a + mt_day3 b, mt_sessions = mt_sessions a + mt_sessions b, mt_days = mt_days a + mt_days b,
     mt_gap1 = mt_gap1 a + mt_gap1 b, mt_gap2 = mt_gap2 a + mt_gap2 b, \<dots> = metrics.more a + metrics.more b\<rparr>"

instance
  by standard (simp_all add: plus_metrics_ext_def zero_metrics_ext_def ac_simps)

end

instantiation unit :: comm_monoid_add
begin

definition zero_unit :: unit where "0 = ()"
definition plus_unit :: "unit \<Rightarrow> unit \<Rightarrow> unit" where "a + b = ()"

instance
  by standard simp_all

end

lemma metrics_plus [simp]:
  "mt_singleDays (a + b) = mt_singleDays a + mt_singleDays b" "mt_day1 (a + b) = mt_day1 a + mt_day1 b"
  "mt_day2 (a + b) = mt_day2 a + mt_day2 b" "mt_day3 (a + b) = mt_day3 a + mt_day3 b"
  "mt_sessions (a + b) = mt_sessions a + mt_sessions b" "mt_days (a + b) = mt_days a + mt_days b"
  "mt_gap1 (a + b) = mt_gap1 a + mt_gap1 b" "mt_gap2 (a + b) = mt_gap2 a + mt_gap2 b"
  by (simp_all add: plus_metrics_ext_def)

lemma no_metrics_zero: "no_metrics = 0"
  by (simp add: no_metrics_def zero_metrics_ext_def zero_unit_def)

lemma metrics_eqI:
  fixes a b :: metrics
  assumes "mt_singleDays a = mt_singleDays b" "mt_day1 a = mt_day1 b" "mt_day2 a = mt_day2 b" "mt_day3 a = mt_day3 b"
    "mt_sessions a = mt_sessions b" "mt_days a = mt_days b" "mt_gap1 a = mt_gap1 b" "mt_gap2 a = mt_gap2 b"
  shows "a = b"
  using assms by (cases a; cases b) simp

text \<open>Every step of the evaluation adds the same, whatever has been counted before.\<close>

lemma add_half_shift: "add_half ps (m + x) = m + add_half ps x"
  by (rule metrics_eqI) (simp_all add: add_half_def Let_def)

lemma add_day_shift: "add_day st t d (m + x) = m + add_day st t d x"
  by (rule metrics_eqI) (simp_all add: add_day_def Let_def add_half_shift)

lemma fold_shift:
  assumes "\<And>y x. f y (m + x) = (m :: metrics) + f y x"
  shows "fold f ys (m + x) = m + fold f ys x"
  by (induction ys arbitrary: x) (simp_all add: assms)

lemma add_teacher_shift: "add_teacher st t m = m + add_teacher st t 0"
  unfolding add_teacher_def using fold_shift [of "add_day st t" m "[0..<length days_list]" 0] add_day_shift by simp

lemma fold_sum:
  assumes "\<And>y m. f y m = (m :: metrics) + f y 0"
  shows "fold f ys m = m + (\<Sum>y\<leftarrow>ys. f y 0)"
proof (induction ys arbitrary: m)
  case (Cons y ys)
  then show ?case using assms [of y m] by (simp add: add.assoc)
qed simp

lemma evaluate_sum:
  "evaluateMetrics st = (\<Sum>t\<leftarrow>filter (\<lambda>t. t \<noteq> [] \<and> isScoredTeacher st t) (map fst (e_tgrid st)). evaluateTeacherMetrics st t)"
proof -
  let ?ts = "filter (\<lambda>t. t \<noteq> [] \<and> isScoredTeacher st t) (map fst (e_tgrid st))"
  have "evaluateMetrics st = (\<Sum>t\<leftarrow>?ts. add_teacher st t 0)"
    using fold_sum [of "add_teacher st", OF add_teacher_shift, of ?ts 0] by (simp add: evaluateMetrics_def no_metrics_zero)
  also have "\<dots> = (\<Sum>t\<leftarrow>?ts. evaluateTeacherMetrics st t)"
  proof (rule arg_cong [where f = sum_list], rule map_cong [OF refl])
    fix t
    assume "t \<in> set ?ts"
    then have "map_of (e_tgrid st) t \<noteq> None" "isScoredTeacher st t" by (auto simp: map_of_eq_None_iff)
    then show "add_teacher st t 0 = evaluateTeacherMetrics st t"
      by (simp add: evaluateTeacherMetrics_def no_metrics_zero del: not_None_eq)
  qed
  finally show ?thesis .
qed

subsection \<open>Residual sessions\<close>

definition single_halves :: "eng \<Rightarrow> ustr \<Rightarrow> nat" where
  "single_halves st t = length (filter (\<lambda>h. length (half_taught st t h) = 1) [0..<total_slots div periods_per_session])"

lemma day1_shift: "mt_day1 (add_half ps m) = mt_day1 m + (if length ps = 1 then 1 else 0)"
  by (simp add: add_half_def Let_def)

lemma add_teacher_day1: "mt_day1 (add_teacher st t m) = mt_day1 m + single_halves st t"
proof -
  have "mt_day1 (add_day st t d m) = mt_day1 m + length (filter (\<lambda>h. length (half_taught st t h) = 1) [2 * d, 2 * d + 1])" for d m
    by (simp add: add_day_def Let_def day1_shift)
  then have "mt_day1 (fold (add_day st t) [0..<n] m) = mt_day1 m + length (filter (\<lambda>h. length (half_taught st t h) = 1) [0..<2 * n])" for n
    by (induction n) simp_all
  from this [of "length days_list"] show ?thesis by (simp add: add_teacher_def single_halves_def days_list_def)
qed

lemma residual_length: "length (residual_at st t h) = (if length (half_taught st t h) = 1 then 1 else 0)"
  by (auto simp: residual_at_def Let_def length_Suc_conv split: list.splits prod.splits)

lemma length_concat_map: "length (concat (map f xs)) = (\<Sum>x\<leftarrow>xs. length (f x))"
  by (induction xs) simp_all

lemma count_filter: "length (filter P xs) = (\<Sum>x\<leftarrow>xs. if P x then 1 else 0)"
  by (induction xs) simp_all

lemma residual_day1: "length (getResidualSingletons st) = mt_day1 (evaluateMetrics st)"
proof -
  let ?ts = "filter (\<lambda>t. t \<noteq> [] \<and> isScoredTeacher st t) (map fst (e_tgrid st))"
  have one: "length (concat (map (residual_at st t) [0..<total_slots div periods_per_session])) = single_halves st t" for t
    by (simp add: length_concat_map residual_length single_halves_def count_filter)
  have "mt_day1 (fold (add_teacher st) ts m) = mt_day1 m + (\<Sum>t\<leftarrow>ts. single_halves st t)" for ts m
    by (induction ts arbitrary: m) (simp_all add: add_teacher_day1)
  then have "mt_day1 (evaluateMetrics st) = (\<Sum>t\<leftarrow>?ts. single_halves st t)" by (simp add: evaluateMetrics_def no_metrics_def)
  then show ?thesis by (simp only: getResidualSingletons_def length_concat_map [of _ ?ts] one)
qed

subsection \<open>Better is well founded\<close>

lemma first_diff_less:
  "first_diff ((x, y) # xs) < 0 \<longleftrightarrow> x < y \<or> x = y \<and> first_diff xs < 0"
  by auto

lemma compare_on_less:
  "compare_on [] a b < 0 \<longleftrightarrow> False"
  "compare_on (f # fs) a b < 0 \<longleftrightarrow> f a < f b \<or> f a = f b \<and> compare_on fs a b < 0"
  unfolding compare_on_def list.map first_diff_less by simp_all

definition locks :: "eng \<Rightarrow> metrics \<Rightarrow> nat" where
  "locks st m = nat (lockViolations st m)"

lemma locks_nonneg: "lockViolations st m \<ge> 0"
  by (simp add: lockViolations_def split: option.splits)

definition rank_of :: "eng \<Rightarrow> opt_mode \<Rightarrow> (metrics \<Rightarrow> nat) list" where
  "rank_of st mode = locks st # (case mode of
     Singletons \<Rightarrow> [mt_day1, mt_gap2, mt_sessions, mt_gap1, mt_singleDays, mt_days]
   | Gap2 \<Rightarrow> [mt_gap2, mt_day1, mt_sessions, mt_gap1, mt_days]
   | Sessions \<Rightarrow> [mt_day1, mt_gap2, mt_sessions, \<lambda>m. mt_day2 m * 2 + mt_day3 m, mt_gap1, mt_days]
   | Gap1 \<Rightarrow> [mt_day1, mt_gap2, mt_sessions, mt_gap1]
   | OtherMode \<Rightarrow> [mt_day1, mt_gap2, mt_sessions])"

definition better :: "eng \<Rightarrow> opt_mode \<Rightarrow> (metrics \<times> metrics) set" where
  "better st mode = {(a, b). compareMetrics st mode (Some a) (Some b) < 0}"

lemma better_cases:
  "(a, b) \<in> better st mode \<longleftrightarrow> locks st a < locks st b \<or> locks st a = locks st b \<and> compare_mode st mode a b < 0"
  using locks_nonneg [of st a] locks_nonneg [of st b] by (auto simp: better_def compareMetrics_def locks_def)

lemma mode_rank: "compare_mode st mode a b < 0 \<Longrightarrow> (a, b) \<in> measures (tl (rank_of st mode))"
  by (cases mode) (auto simp: compare_mode_def guard_first_def compare_on_less rank_of_def split: if_splits)

lemma better_rank: "better st mode \<subseteq> measures (rank_of st mode)"
proof (rule subrelI)
  fix a b
  assume "(a, b) \<in> better st mode"
  then show "(a, b) \<in> measures (rank_of st mode)"
    unfolding better_cases using mode_rank [of st mode a b] by (auto simp: rank_of_def)
qed

lemma better_wf: "wf (better st mode)"
  by (rule wf_subset [OF wf_measures better_rank])

lemma better_trans: "trans (better st mode)"
proof (rule transI)
  fix a b c
  assume ab: "(a, b) \<in> better st mode" and bc: "(b, c) \<in> better st mode"
  have "compare_mode st mode a b < 0 \<Longrightarrow> compare_mode st mode b c < 0 \<Longrightarrow> compare_mode st mode a c < 0"
    by (cases mode) (auto simp: compare_mode_def guard_first_def compare_on_less split: if_splits)
  then show "(a, c) \<in> better st mode" using ab bc unfolding better_cases by auto
qed

text \<open>\<open>compareTuple\<close> is the lexicographic order of the tuples, a total preorder.\<close>

lemma first_diff_zip_sign:
  "length xs = length ys \<Longrightarrow> (first_diff (zip xs ys) = 0 \<longleftrightarrow> xs = ys)
     \<and> (first_diff (zip xs ys) < 0 \<longleftrightarrow> (xs, ys) \<in> lexord {(x, y). x < y})"
  by (induction xs ys rule: list_induct2) auto

lemma compareTuple_lex:
  "compareTuple st (Some a) (Some b) < 0 \<longleftrightarrow> (tuple_of st a, tuple_of st b) \<in> lexord {(x, y). x < y}"
  "compareTuple st (Some a) (Some b) = 0 \<longleftrightarrow> tuple_of st a = tuple_of st b"
  using first_diff_zip_sign [of "tuple_of st a" "tuple_of st b"] by (simp_all add: compareTuple_def tuple_of_def)

lemma first_diff_swap: "length xs = length ys \<Longrightarrow> first_diff (zip ys xs) = - first_diff (zip xs ys)"
  by (induction xs ys rule: list_induct2) auto

lemma compareTuple_antisym: "compareTuple st (Some b) (Some a) = - compareTuple st (Some a) (Some b)"
  using first_diff_swap [of "tuple_of st a" "tuple_of st b"] by (simp add: compareTuple_def tuple_of_def)

end
