(* ===== verification/FeProps.thy ===== *)
theory FeProps
  imports FeDemo FeMeasureOk
begin

section \<open>FET engine: the properties of the construction\<close>

text \<open>
  The properties of \<open>solve\<close>, of the moves it is made of, of loading and of writing back, each with a
  witness on the small school where it has hypotheses.
\<close>

subsection \<open>What is asked of a timetable\<close>

text \<open>The lesson periods of the placement, and those that break a rule.\<close>

definition lesson_list :: "eng \<Rightarrow> (nat \<times> nat) list" where
  "lesson_list st = concat (map (\<lambda>i. case e_place st ! i of None \<Rightarrow> []
     | Some p \<Rightarrow> map (\<lambda>s. (i, s)) (slots_from p (ac_dur (e_acts st ! i)))) [0..<length (e_acts st)])"

definition clashes :: "eng \<Rightarrow> ((nat \<times> nat) \<times> (nat \<times> nat)) list" where
  "clashes st = filter (\<lambda>(x, y). snd x = snd y \<and> fst x \<noteq> fst y \<and> \<not> disjoint_acts (e_acts st ! fst x) (e_acts st ! fst y))
     (List.product (lesson_list st) (lesson_list st))"

definition misplaced :: "eng \<Rightarrow> (nat \<times> nat) list" where
  "misplaced st = filter (\<lambda>(i, s). let a = e_acts st ! i in
     s \<ge> total_slots \<or> (ac_class a, s) \<in> e_off st \<or> map_of (e_fixed st) (ac_class a, s) \<noteq> None
     \<or> list_ex (\<lambda>t. (t, s) \<in> e_toff st) (act_teachers a)) (lesson_list st)"

definition torn :: "eng \<Rightarrow> nat list" where
  "torn st = filter (\<lambda>i. case e_place st ! i of None \<Rightarrow> False
     | Some p \<Rightarrow> p mod periods_per_session + ac_dur (e_acts st ! i) > periods_per_session) [0..<length (e_acts st)]"

lemma lesson_in:
  assumes len: "length (e_place st) = length (e_acts st)"
  shows "x \<in> set (lesson_list st) \<longleftrightarrow> fst x < length (e_acts st) \<and> covers (e_acts st) (e_place st) (fst x) (snd x)"
proof -
  have one: "x \<in> set (case e_place st ! j of None \<Rightarrow> [] | Some p \<Rightarrow> map (\<lambda>s. (j, s)) (slots_from p (ac_dur (e_acts st ! j))))
      \<longleftrightarrow> j = fst x \<and> covers (e_acts st) (e_place st) j (snd x)" if "j < length (e_acts st)" for j
    using that len by (cases x; cases "e_place st ! j") (auto simp: covers_def mem_slots_from)
  have "x \<in> set (lesson_list st) \<longleftrightarrow> (\<exists>j \<in> set [0..<length (e_acts st)]. j = fst x \<and> covers (e_acts st) (e_place st) j (snd x))"
    unfolding lesson_list_def set_concat set_map UN_iff bex_simps using one by (intro bex_cong) simp_all
  then show ?thesis by auto
qed

lemma lesson_mem: "consistent B st \<Longrightarrow> x \<in> set (lesson_list st) \<longleftrightarrow>
    fst x < length (e_acts st) \<and> covers (e_acts st) (e_place st) (fst x) (snd x)"
  by (rule lesson_in) (auto simp: consistent_def intro: agreeD(1))

lemma consistent_clean:
  assumes con: "consistent B st"
  shows "clashes st = []" "misplaced st = []" "torn st = []"
proof -
  have g: "good B st (e_place st)" and len: "length (e_place st) = length (e_acts st)"
    using con agreeD(1) by (auto simp: consistent_def)
  show "clashes st = []"
    using goodD(5) [OF g] unfolding clashes_def filter_empty_conv by (auto simp: lesson_mem [OF con]) blast
  show "misplaced st = []"
    using goodD(4) [OF g] covers_bound [OF g]
    by (fastforce simp: misplaced_def filter_empty_conv lesson_mem [OF con] open_cell_def list_ex_iff Let_def)
  show "torn st = []"
    using goodD(3) [OF g] len by (auto simp: torn_def filter_empty_conv not_less split: option.splits)
qed

lemma placed_none: "consistent B st \<Longrightarrow> i < length (e_acts st) \<Longrightarrow> e_place st ! i = None \<longleftrightarrow> i \<notin> placed st"
  using agreeD(1) by (auto simp: placed_def consistent_def)

lemma unplaced_mem: "consistent B st \<Longrightarrow> (\<exists>a \<in> set (unplaced_acts st). ac_id a = i) \<longleftrightarrow> i < length (e_acts st) \<and> e_place st ! i = None"
proof -
  assume "consistent B st"
  then have id: "\<And>i. i < length (e_acts st) \<Longrightarrow> ac_id (e_acts st ! i) = i" using agreeD(2) by (auto simp: consistent_def)
  show ?thesis unfolding unplaced_acts_def using id by (auto simp: in_set_conv_nth)
qed

lemma unplaced_sum:
  assumes con: "consistent B st"
  shows "unplaced_periods st = 0 \<longleftrightarrow> unplaced_acts st = []"
proof -
  have ag: "agree B st" using con by (simp add: consistent_def)
  have len: "length (e_place st) = length (e_acts st)" and pos: "\<And>i. i < length (e_acts st) \<Longrightarrow> 0 < ac_dur (e_acts st ! i)"
    using agreeD(1,3) [OF ag] by auto
  have "unplaced_periods st = (\<Sum>i<length (e_acts st). if e_place st ! i = None then ac_dur (e_acts st ! i) else 0)"
    using len by (simp add: unplaced_periods_def sum_list_sum_nth atLeast0LessThan)
  then have "unplaced_periods st = 0 \<longleftrightarrow> (\<forall>i \<in> {..<length (e_acts st)}. (if e_place st ! i = None then ac_dur (e_acts st ! i) else 0) = 0)"
    by (simp only: sum_eq_0_iff finite_lessThan)
  also have "\<dots> \<longleftrightarrow> (\<forall>i < length (e_acts st). e_place st ! i \<noteq> None)" using pos by (metis (full_types) lessThan_iff less_irrefl)
  also have "\<dots> \<longleftrightarrow> unplaced_acts st = []"
    using unplaced_mem [OF con] by (metis (no_types, opaque_lifting) empty_iff equals0I list.set(1) set_empty)
  finally show ?thesis .
qed

subsection \<open>The properties\<close>

text \<open>
  C14: in the timetable that \<open>solve\<close> leaves, no two lessons of one period share a class, a teacher or a
  room; no lesson is past the week, on an OFF or fixed cell of its class or on an OFF cell of one of its
  teachers; no lesson crosses the end of a half day. This holds for all data, options, seeds and clocks.
\<close>

theorem solve_safe:
  "clashes (snd (snd (solve cb st))) = [] \<and> misplaced (snd (snd (solve cb st))) = [] \<and> torn (snd (snd (solve cb st))) = []"
  using consistent_clean [OF solve_consistent] by blast

text \<open>
  C15: the numbers that \<open>solve\<close> reports are those of the timetable: placed and unassigned periods add up
  to the total, which is the demand of the activities and the fixed cells, and the result is ok exactly
  when no activity is left out.
\<close>

theorem solve_accounts:
  "sr_total (fst (solve cb st)) = totalLessons (snd (snd (solve cb st))) + length (e_fixed (snd (snd (solve cb st))))
   \<and> sr_placed (fst (solve cb st)) = placed_periods (snd (snd (solve cb st))) + length (e_fixed (snd (snd (solve cb st))))
   \<and> sr_placed (fst (solve cb st)) + sr_unassigned (fst (solve cb st)) = sr_total (fst (solve cb st))
   \<and> (sr_ok (fst (solve cb st)) \<longleftrightarrow> unplaced_acts (snd (snd (solve cb st))) = [])"
proof -
  let ?s = "snd (snd (solve cb st))"
  have con: "consistent (solve_base st) ?s" by (rule solve_consistent)
  have r: "sr_placed (fst (solve cb st)) = placed_periods ?s + length (e_fixed ?s)" "sr_unassigned (fst (solve cb st)) = unplaced_periods ?s"
    "sr_total (fst (solve cb st)) = sr_placed (fst (solve cb st)) + sr_unassigned (fst (solve cb st))"
    "sr_ok (fst (solve cb st)) = (sr_unassigned (fst (solve cb st)) = 0)"
    by (simp_all add: solve_def Let_def split_beta)
  have "placed_periods ?s + unplaced_periods ?s = totalLessons ?s"
    using con agreeD(1) by (intro periods_split) (auto simp: consistent_def)
  then show ?thesis using r unplaced_sum [OF con] by simp
qed

text \<open>
  C16: every cell of the stored timetable that \<open>solve\<close> has written is the stored fixed cell, \<open>OFF\<close>, the
  subject of the lesson that the class grid shows there, or \<open>null\<close>.
\<close>

theorem solve_writes_grid:
  assumes "sane (school_classes (e_data st)) (e_data st)" "cid \<in> class_id ` set (school_classes (e_data st))" "s < total_slots"
  shows "stored_cell (e_data (snd (snd (solve cb st)))) cid s = grid_cell (snd (snd (solve cb st))) cid s"
  by (rule solve_written [OF assms refl])

lemma demo_school_classes: "school_classes (e_data demo) = [demo_class (u ''a''), demo_class (u ''b'')]"
proof -
  have "real_class (demo_class c)" if "c \<noteq> []" for c using that by (simp add: real_class_def demo_class_def)
  moreover have "u ''a'' \<noteq> []" "u ''b'' \<noteq> []" by code_simp+
  ultimately show ?thesis by (simp add: school_classes_def demo_def)
qed

lemma demo_sane: "sane [demo_class (u ''a''), demo_class (u ''b'')] (e_data demo)"
proof -
  have "jget (e_data demo) (u ''tkb'') = JUndef" "is_obj (e_data demo)" by (simp_all add: demo_def) code_simp
  then show ?thesis by (simp add: sane_def cell_path_def)
qed

lemma solve_writes_grid_witness:
  "stored_cell (e_data (snd (snd (solve True demo)))) (u ''a'') 4 = grid_cell (snd (snd (solve True demo))) (u ''a'') 4"
  by (rule solve_writes_grid) (simp_all add: demo_sane demo_school_classes)

text \<open>
  The timetable of \<open>solve\<close> passes the integrity gate of the optimiser exactly when every activity
  that is left out is registered as impossible to place.
\<close>

lemma solve_meets_gate:
  "verifyPlacementIntegrity (snd (snd (solve cb st))) \<longleftrightarrow>
    list_all (\<lambda>a. exempt (snd (snd (solve cb st))) (ac_id a)) (unplaced_acts (snd (snd (solve cb st))))"
proof -
  let ?s = "snd (snd (solve cb st))"
  have con: "consistent (solve_base st) ?s" by (rule solve_consistent)
  have "e_holes ?s = None" using constructed_fields(3) [OF refl, of cb st] by (simp add: solve_state apply_same)
  then have "verifyPlacementIntegrity ?s \<longleftrightarrow> (\<forall>i < length (e_acts ?s). e_place ?s ! i = None \<longrightarrow> exempt ?s i)"
    using consistent_gate [OF con] by simp
  also have "\<dots> \<longleftrightarrow> (\<forall>a \<in> set (unplaced_acts ?s). exempt ?s (ac_id a))"
    using unplaced_mem [OF con] by metis
  finally show ?thesis by (simp add: list_all_iff)
qed

text \<open>
  C18: \<open>randomSwap\<close> is all or nothing. Called on a consistent engine, at any depth, for any activity and
  any slots of the week, it leaves a consistent engine; when it succeeds exactly the one activity has
  become placed, every displaced activity standing somewhere else; when it fails every activity stands
  where it stood and every cell of the three grids is what it was.
\<close>

theorem randomSwap_all_or_nothing:
  assumes con: "consistent B st" and i: "i < length (e_acts st)" and sl: "\<forall>s \<in> set (all_slots_of restrict). s < total_slots"
    and r: "randomSwap level restrict i st = (ok, st')"
  shows "consistent B st' \<and> (if ok then placed st' = insert i (placed st) else e_place st' = e_place st \<and> same_cells st st')"
proof -
  have "swap_result B i st (ok, st')" using randomSwap_ok [of B st i restrict level] con i sl r by (simp add: consistent_def)
  note R = swap_resultD [OF this]
  have "same_cells st st'" if "\<not> ok"
    using agree_same_cells [of B st st'] con R(1,2) R(5) [OF that] by (simp add: consistent_def)
  then show ?thesis using R(1,4,5) by simp
qed

lemma randomSwap_all_or_nothing_witness:
  "\<exists>ok st'. randomSwap 0 None 2 demo_two = (ok, st') \<and> consistent demo_base st' \<and>
    (if ok then placed st' = insert 2 (placed demo_two) else e_place st' = e_place demo_two \<and> same_cells demo_two st')"
proof -
  obtain ok st' where r: "randomSwap 0 None 2 demo_two = (ok, st')" by (cases "randomSwap 0 None 2 demo_two")
  have "2 < length (e_acts demo_two)" "\<forall>s \<in> set (all_slots_of None). s < total_slots"
    by (simp_all add: demo_two_fields all_slots_of_def)
  from randomSwap_all_or_nothing [OF demo_two_consistent(1) this r] r show ?thesis by blast
qed

text \<open>So is \<open>tryEjectionChain\<close>, through its four rounds of chains of one and two displacements.\<close>

lemma tryEjectionChain_all_or_nothing:
  assumes con: "consistent B st" and i: "i < length (e_acts st)" "i \<notin> placed st" and r: "tryEjectionChain i st = (ok, st')"
  shows "consistent B st' \<and> (if ok then placed st' = insert i (placed st) else e_place st' = e_place st \<and> same_cells st st')"
proof -
  have "waiting B i st" using con i by (simp add: waiting_con)
  then have "swap_result B i st (ok, st')" using tryEjectionChain_ok [of B i st] r by simp
  note R = swap_resultD [OF this]
  have "same_cells st st'" if "\<not> ok"
    using agree_same_cells [of B st st'] con R(1,2) R(5) [OF that] by (simp add: consistent_def)
  then show ?thesis using R(1,4,5) by simp
qed

text \<open>
  Rolling the move journal back to a mark undoes everything: after any journalled moves from a
  consistent state (here placing one activity and taking another off), the activities stand where they
  stood, the journal is as it was, and so is every cell of the grids.
\<close>

lemma jrnRollback_undoes:
  assumes con: "consistent B st" and i: "i < length (e_acts st)" and j: "j < length (e_acts st)"
    and g: "good B (jrnUnplace j st) ((e_place (jrnUnplace j st))[i := Some p])"
    and r: "st' = jrnRollback (length (e_journal st)) (jrnPlace i p (jrnUnplace j st))"
  shows "e_place st' = e_place st \<and> e_journal st' = e_journal st \<and> same_cells st st'"
proof -
  have ag: "agree B st" and gd: "good B st (e_place st)" using con by (simp_all add: consistent_def)
  note u = jrnUnplace_ext [OF ag gd j]
  then have ju: "jext B st (jrnUnplace j st)" by blast
  have "i < length (e_acts (jrnUnplace j st))" using jextD(4) [OF ju] i by simp
  from jrnPlace_ext [OF jextD(1,2) [OF ju] this g] have "jext B (jrnUnplace j st) (jrnPlace i p (jrnUnplace j st))" by blast
  from jext_trans [OF ju this] have je: "jext B st (jrnPlace i p (jrnUnplace j st))" .
  note R = rollback_restores [OF je, folded r]
  show ?thesis using R agree_same_cells [OF ag R(1)] by blast
qed

lemma demo_unplaced: "sig (jrnUnplace 0 demo_two) = sig demo" "e_place (jrnUnplace 0 demo_two) = [None, Some 5, None]"
proof -
  have con: "agree demo_base demo_two" "good demo_base demo_two (e_place demo_two)"
    using demo_two_consistent(1) by (simp_all add: consistent_def)
  have "0 < length (e_acts demo_two)" by (simp add: demo_two_fields)
  from jrnUnplace_ext [OF con this] jextD(3) demo_two_consistent(2,3)
  show "sig (jrnUnplace 0 demo_two) = sig demo" "e_place (jrnUnplace 0 demo_two) = [None, Some 5, None]" by force+
qed

lemma demo_good_three: "good demo_base demo [None, Some 5, Some 10]"
proof -
  have "covers (e_acts demo) [None, Some 5, Some 10] i s \<longleftrightarrow> i = Suc 0 \<and> s = 5 \<or> i = 2 \<and> s = 10" for i s
  proof -
    consider "i = 0" | "i = Suc 0" | "i = 2" | "3 \<le> i" by linarith
    then show ?thesis by cases (auto simp: covers_def nth_Cons' demo_acts_def)
  qed
  then show ?thesis
    unfolding good_def by (auto simp: less_Suc_eq open_cell_def demo_base_cells demo_cell demo_acts_def)
qed

lemma jrnRollback_undoes_witness:
  "\<exists>st'. st' = jrnRollback (length (e_journal demo_two)) (jrnPlace 2 10 (jrnUnplace 0 demo_two))
    \<and> e_place st' = e_place demo_two \<and> e_journal st' = e_journal demo_two \<and> same_cells demo_two st'"
proof -
  have "good demo_base (jrnUnplace 0 demo_two) ((e_place (jrnUnplace 0 demo_two))[2 := Some 10])"
    using demo_good_three good_cong [OF demo_unplaced(1), of demo_base] by (simp add: demo_unplaced(2))
  from jrnRollback_undoes [OF demo_two_consistent(1) _ _ this refl] show ?thesis by (simp add: demo_two_fields)
qed

end
