(* ===== verification/FeDemandOk.thy ===== *)
theory FeDemandOk
  imports FeInitOk FeSolve
begin

section \<open>FET engine: the activities meet the demand\<close>

text \<open>
  Every item of a class has the periods, the teacher and the room that the data give its subject there, and
  what remains of it is its periods less the fixed cells counted for it. So the activities of a class and a
  subject cover the demand exactly.
\<close>

definition item_ok :: "js \<Rightarrow> js \<Rightarrow> subject_item \<Rightarrow> bool" where
  "item_ok data lop it \<longleftrightarrow> (si_gv it \<noteq> [] \<or> si_noTeacher it) \<and> si_remain it = si_required it - si_exactFixed it
     \<and> si_required it = getRequiredPeriods data lop (si_mon it) \<and> si_gv it = getTeacherForClassMon data lop (si_mon it)
     \<and> si_room it = getRoomForClassMon data lop (si_mon it)"

definition items_ok :: "js \<Rightarrow> js \<Rightarrow> subject_map \<Rightarrow> bool" where
  "items_ok data lop m \<longleftrightarrow> (\<forall>it \<in> snd ` set m. item_ok data lop it)"

lemma set_update_sub: "set (AList.update k v m) \<subseteq> insert (k, v) (set m)"
  by (induction m) auto

lemma items_ok_update: "items_ok data lop m \<Longrightarrow> item_ok data lop it \<Longrightarrow> items_ok data lop (AList.update k it m)"
  using set_update_sub [of k it m] by (auto simp: items_ok_def)

lemma items_ok_lookup: "items_ok data lop m \<Longrightarrow> map_of m k = Some it \<Longrightarrow> item_ok data lop it"
  using map_of_SomeD by (force simp: items_ok_def)

lemma scan_key_items: "items_ok data lop m \<Longrightarrow> items_ok data lop (scan_key data lop k m)"
  by (auto simp: scan_key_def Let_def item_ok_def intro!: items_ok_update)

lemma count_fixed_items: "items_ok data lop m \<Longrightarrow> items_ok data lop (count_fixed st cid slot m)"
  by (auto simp: count_fixed_def count_fixed_item_def item_ok_def intro!: items_ok_update dest: items_ok_lookup split: option.splits)

lemma class_items_ok: "items_ok (e_data st) lop (class_items st lop)"
  unfolding class_items_def subject_map_of_def
  by (intro fold_invariant [where P = "items_ok (e_data st) lop" and Q = "\<lambda>_. True"] count_fixed_items scan_key_items) (simp_all add: items_ok_def)

text \<open>The periods that the activities of a class have in a subject, and those asked for.\<close>

definition built_periods :: "ustr \<Rightarrow> ustr \<Rightarrow> act list \<Rightarrow> nat" where
  "built_periods c m as = sum_list (map ac_dur (filter (\<lambda>a. ac_class a = c \<and> ac_mon a = m) as))"

definition asked_item :: "eng \<Rightarrow> ustr \<Rightarrow> ustr \<Rightarrow> js \<Rightarrow> subject_item \<Rightarrow> nat" where
  "asked_item st c m lop it = (if class_id lop = c \<and> si_mon it = m then getRequiredPeriods (e_data st) lop m - si_exactFixed it else 0)"

definition asked_periods :: "eng \<Rightarrow> ustr \<Rightarrow> ustr \<Rightarrow> nat" where
  "asked_periods st c m = (\<Sum>lop\<leftarrow>e_classes st. \<Sum>it\<leftarrow>map snd (class_items st lop). asked_item st c m lop it)"

text \<open>An activity belongs to a class of the data, with the teacher and the room of its subject there.\<close>

definition act_of_data :: "eng \<Rightarrow> act \<Rightarrow> bool" where
  "act_of_data st a \<longleftrightarrow> ac_lop a \<in> set (e_classes st) \<and> ac_class a = class_id (ac_lop a) \<and> 0 < ac_dur a
     \<and> ac_gv a = getTeacherForClassMon (e_data st) (ac_lop a) (ac_mon a) \<and> ac_room a = getRoomForClassMon (e_data st) (ac_lop a) (ac_mon a)"

lemma new_acts:
  assumes "fst (item_durs st lop (snd kv)) = ds"
  obtains as where "fst (add_item st lop kv acc) = fst acc @ as" "map ac_dur as = ds"
    "\<And>a. a \<in> set as \<Longrightarrow> \<exists>n d. d \<in> set ds \<and> a = new_act lop (snd kv) n d"
proof -
  let ?as = "map2 (new_act lop (snd kv)) [length (fst acc)..<length (fst acc) + length ds] ds"
  have "map ac_dur ?as = ds" by (rule nth_equalityI) (simp_all add: new_act_def)
  moreover have "\<exists>n d. d \<in> set ds \<and> a = new_act lop (snd kv) n d" if "a \<in> set ?as" for a
    using that by (auto dest: set_zip_rightD)
  moreover have "fst (add_item st lop kv acc) = fst acc @ ?as" using assms by (simp add: add_item_def split_beta)
  ultimately show ?thesis by (rule that [rotated])
qed

lemma add_item_sum:
  assumes "item_ok (e_data st) lop (snd kv)"
  shows "built_periods c m (fst (add_item st lop kv acc)) = built_periods c m (fst acc) + asked_item st c m lop (snd kv)"
proof -
  obtain as where as: "fst (add_item st lop kv acc) = fst acc @ as" "map ac_dur as = fst (item_durs st lop (snd kv))"
    "\<And>a. a \<in> set as \<Longrightarrow> \<exists>n d. d \<in> set (fst (item_durs st lop (snd kv))) \<and> a = new_act lop (snd kv) n d"
    by (rule new_acts [OF refl]) blast
  have "ac_class a = class_id lop \<and> ac_mon a = si_mon (snd kv)" if "a \<in> set as" for a
    using as(3) [OF that] by (auto simp: new_act_def)
  then have "filter (\<lambda>a. ac_class a = c \<and> ac_mon a = m) as = (if class_id lop = c \<and> si_mon (snd kv) = m then as else [])"
    by (auto simp: filter_empty_conv filter_id_conv)
  moreover have "sum_list (map ac_dur as) = si_required (snd kv) - si_exactFixed (snd kv)"
    using item_durs_sum [of st lop "snd kv"] assms by (auto simp: as(2) item_ok_def)
  ultimately show ?thesis using assms by (auto simp: built_periods_def as(1) asked_item_def item_ok_def)
qed

lemma add_item_acts:
  assumes "item_ok (e_data st) lop (snd kv)" "lop \<in> set (e_classes st)" "list_all (act_of_data st) (fst acc)"
  shows "list_all (act_of_data st) (fst (add_item st lop kv acc))"
proof -
  obtain as where as: "fst (add_item st lop kv acc) = fst acc @ as"
    "\<And>a. a \<in> set as \<Longrightarrow> \<exists>n d. d \<in> set (fst (item_durs st lop (snd kv))) \<and> a = new_act lop (snd kv) n d"
    by (rule new_acts [OF refl]) blast
  have "act_of_data st a" if p: "a \<in> set as" for a
  proof -
    obtain n d where "d \<in> set (fst (item_durs st lop (snd kv)))" "a = new_act lop (snd kv) n d" using as(2) [OF p] by blast
    moreover from this(1) have "0 < d" by (rule item_durs_pos)
    ultimately show ?thesis using assms(1,2) by (simp add: act_of_data_def new_act_def item_ok_def)
  qed
  then show ?thesis using assms(3) by (auto simp: as(1) list_all_iff)
qed

lemma add_class_fold:
  "items_ok (e_data st) lop kvs \<Longrightarrow> built_periods c m (fst (fold (add_item st lop) kvs acc))
      = built_periods c m (fst acc) + (\<Sum>it\<leftarrow>map snd kvs. asked_item st c m lop it)
    \<and> (lop \<in> set (e_classes st) \<longrightarrow> list_all (act_of_data st) (fst acc) \<longrightarrow> list_all (act_of_data st) (fst (fold (add_item st lop) kvs acc)))"
proof (induction kvs arbitrary: acc)
  case (Cons kv kvs)
  then have "item_ok (e_data st) lop (snd kv)" "items_ok (e_data st) lop kvs" by (simp_all add: items_ok_def)
  with Cons.IH [of "add_item st lop kv acc"] add_item_sum [of st lop kv c m acc] add_item_acts [of st lop kv acc] show ?case by simp
qed simp

lemma build_fold:
  "set ls \<subseteq> set (e_classes st) \<Longrightarrow> list_all (act_of_data st) (fst acc)
    \<Longrightarrow> built_periods c m (fst (fold (add_class st) ls acc)) = built_periods c m (fst acc)
        + (\<Sum>lop\<leftarrow>ls. \<Sum>it\<leftarrow>map snd (class_items st lop). asked_item st c m lop it)
      \<and> list_all (act_of_data st) (fst (fold (add_class st) ls acc))"
proof (induction ls arbitrary: acc)
  case (Cons lop ls)
  with add_class_fold [OF class_items_ok, where st = st and lop = lop and c = c and m = m and acc = acc]
    Cons.IH [of "add_class st lop acc"] show ?case by (simp add: add_class_def)
qed simp

lemma build_periods:
  "built_periods c m (e_acts (buildActivities st)) = asked_periods st c m \<and> list_all (act_of_data st) (e_acts (buildActivities st))"
  using build_fold [of "e_classes st" st "([], [])" c m]
  by (simp add: buildActivities_def split_beta asked_periods_def built_periods_def)

end
