(* ===== verification/FeGateProps.thy ===== *)
theory FeGateProps
  imports FeDemo FeMeasureOk FeDemandOk
begin

section \<open>FET engine: the properties of gate, operators, loading and measures\<close>

text \<open>
  The properties of the integrity gate and of the code it guards, of loading and of the demand, and of
  the measures that drive the optimiser, with their witnesses on the small school.
\<close>

subsection \<open>Gate and guard\<close>

text \<open>
  C21: a state that passes the integrity gate is sound, whatever made it: the class grid shows exactly the
  placed lessons, no two lessons of one period share a class or a teacher, no lesson stands on an OFF or
  fixed cell of its class or an OFF cell of one of its teachers, and what is not placed is registered.
\<close>

theorem gate_sound:
  assumes v: "verifyPlacementIntegrity st" and keys: "distinct (map fst (e_cgrid st))" and len: "length (e_place st) = length (e_acts st)"
    and i: "i < length (e_acts st)" and j: "j < length (e_acts st)" "i \<noteq> j"
  shows "(cell_at (e_cgrid st) c s = GAct i \<longleftrightarrow> covers (e_acts st) (e_place st) i s \<and> ac_class (e_acts st ! i) = c)
    \<and> (covers (e_acts st) (e_place st) i s \<longrightarrow> (ac_class (e_acts st ! i), s) \<notin> e_off st
         \<and> map_of (e_fixed st) (ac_class (e_acts st ! i), s) = None \<and> (\<forall>t \<in> set (act_teachers (e_acts st ! i)). (t, s) \<notin> e_toff st))
    \<and> (covers (e_acts st) (e_place st) i s \<longrightarrow> covers (e_acts st) (e_place st) j s \<longrightarrow>
         ac_class (e_acts st ! i) \<noteq> ac_class (e_acts st ! j) \<and> set (act_teachers (e_acts st ! i)) \<inter> set (act_teachers (e_acts st ! j)) = {})
    \<and> (e_place st ! i = None \<longrightarrow> exempt st i)"
  using integrity_grid [OF v keys len, of c s i] integrity_cell(2-4) [OF v i, of s] integrity_disjoint [OF v i j(1) j(2), of s]
    integrity_unplaced [OF v i] i by blast

definition demo_pair :: eng where
  "demo_pair = demo_two\<lparr>e_permanent := Some {2}\<rparr>"

lemma demo_pair_consistent: "consistent demo_base demo_pair"
proof -
  have s: "sig demo_pair = sig demo_two" "grids demo_pair = grids demo_two" by (simp_all add: demo_pair_def sig_def grids_def)
  from consistent_cong [OF s] demo_two_consistent(1) show ?thesis by simp
qed

lemma demo_pair_fields:
  "e_acts demo_pair = demo_acts" "e_place demo_pair = [Some 0, Some 5, None]" "e_holes demo_pair = None" "e_permanent demo_pair = Some {2}"
  by (simp_all add: demo_pair_def demo_two_fields demo_two_consistent(3))

lemma demo_pair_gate: "verifyPlacementIntegrity demo_pair"
proof -
  have "exempt demo_pair i" if "i < 3" "[Some 0, Some 5, None] ! i = (None :: nat option)" for i
  proof -
    have "i = 0 \<or> i = Suc 0 \<or> i = 2" using that(1) by linarith
    then show ?thesis using that(2) by (elim disjE) (simp_all add: exempt_def demo_pair_fields)
  qed
  then show ?thesis using consistent_gate [OF demo_pair_consistent] by (simp add: demo_pair_fields)
qed

lemma gate_sound_witness:
  "cell_at (e_cgrid demo_pair) (u ''a'') 1 = GAct 0 \<and> set (act_teachers (e_acts demo_pair ! 0)) = {u ''x''}
    \<and> (u ''a'', 1) \<notin> e_off demo_pair \<and> exempt demo_pair 2"
proof -
  have k: "distinct (map fst (e_cgrid demo_pair))" "length (e_place demo_pair) = length (e_acts demo_pair)"
    using demo_pair_consistent agreeD(1,9) by (auto simp: consistent_def)
  have cov: "covers (e_acts demo_pair) (e_place demo_pair) 0 1" by (simp add: covers_def demo_pair_fields)
  have n: "0 < length (e_acts demo_pair)" "1 < length (e_acts demo_pair)" "2 < length (e_acts demo_pair)" by (simp_all add: demo_pair_fields)
  from gate_sound [OF demo_pair_gate k n(1,2), of "u ''a''" 1] gate_sound [OF demo_pair_gate k n(3,2), of "u ''a''" 1] cov
  show ?thesis by (simp add: demo_pair_fields)
qed

text \<open>
  On a consistent state the gate is exact: it refuses only for an unplaced activity that is not
  registered or for new empty cells of the pupils. No move of the engine is refused for another reason.
\<close>

lemma gate_complete:
  assumes "consistent B st"
  shows "verifyPlacementIntegrity st \<longleftrightarrow>
    (\<forall>i < length (e_acts st). e_place st ! i = None \<longrightarrow> exempt st i)
    \<and> (case e_holes st of Some n \<Rightarrow> countStudentHoles st \<le> n | None \<Rightarrow> True)"
  by (rule consistent_gate [OF assms])

lemma gate_complete_witness: "verifyPlacementIntegrity demo_pair \<and> \<not> verifyPlacementIntegrity demo_two"
proof -
  have "\<not> exempt demo_two 2" by (simp add: exempt_def demo_two_permanent)
  moreover have "2 < length (e_acts demo_two)" "e_place demo_two ! 2 = None" by (simp_all add: demo_two_fields demo_two_consistent(3))
  ultimately have "\<not> verifyPlacementIntegrity demo_two" using gate_complete [OF demo_two_consistent(1)] by blast
  then show ?thesis using demo_pair_gate by blast
qed

text \<open>
  C23: the wrapper of the optimisation operators. Whatever the operator does, throws or returns, and
  whenever the deadline is, the caller gets either a result together with a state that passes the
  integrity gate, or nothing together with the placement and the grids it had before.
\<close>

theorem guarded_operator:
  "fst (guarded deadline impl st) = None \<and> grids (snd (guarded deadline impl st)) = grids st
   \<or> fst (guarded deadline impl st) \<noteq> None \<and> verifyPlacementIntegrity (snd (guarded deadline impl st))"
  by (rule guarded_outcome)

subsection \<open>Operators\<close>

text \<open>
  Perturbing by any number of random moves keeps a consistent state consistent and places exactly
  the activities that were placed; it ends in a state that passes the gate or where it started.
\<close>

lemma perturb_keeps:
  assumes "consistent B st" "perturbForRestart n st = st'"
  shows "consistent B st' \<and> placed st' = placed st \<and> (verifyPlacementIntegrity st' \<or> grids st' = grids st)"
  using perturb_steady [OF assms(1), of n] perturb_gate [of n st] assms(2) by (auto simp: steady_def)

lemma perturb_keeps_witness:
  "consistent demo_base (perturbForRestart 3 demo_pair) \<and> placed (perturbForRestart 3 demo_pair) = {0, 1}"
  using perturb_keeps [OF demo_pair_consistent refl, of 3] demo_two_placed by (simp add: demo_pair_def placed_def)

text \<open>
  Vacating a day of a teacher is all or nothing: a consistent state stays consistent and drops no
  lesson; the result is either a state in which the teacher has no movable lesson on that day, with its
  metrics, or nothing and the grids of before.
\<close>

lemma vacate_day:
  assumes con: "consistent B st" and r: "tryVacateTeacherDay t d best initial st = (m, st')"
  shows "consistent B st' \<and> placed st' = placed st \<and> (case m of None \<Rightarrow> grids st' = grids st
    | Some x \<Rightarrow> vacant t (day_slots d) st' \<and> x = evaluateMetrics st' \<and> mt_day1 x \<le> mt_day1 best)"
proof (cases m)
  case None
  then show ?thesis
    using vacate_ok(1,2) [OF con r [unfolded tryVacateTeacherDay_def]] by (simp add: steady_def)
next
  case (Some x)
  then show ?thesis
    using vacate_ok(1,3) [OF con r [unfolded tryVacateTeacherDay_def]] by (auto simp: steady_def Let_def split: if_splits)
qed

lemma vacate_day_witness:
  "\<exists>m st'. tryVacateTeacherDay (u ''x'') 0 no_metrics no_metrics demo_pair = (m, st') \<and> consistent demo_base st'
    \<and> placed st' = placed demo_pair"
  using vacate_day [OF demo_pair_consistent] by (metis surj_pair)

text \<open>
  So is vacating a half day, which in addition demands a better metric in the mode at hand and that
  every rule on blocks of periods is met.
\<close>

lemma vacate_session:
  assumes con: "consistent B st" and r: "tryVacateTeacherSession t d b best mode st = (m, st')"
  shows "consistent B st' \<and> placed st' = placed st \<and> (case m of None \<Rightarrow> grids st' = grids st
    | Some x \<Rightarrow> vacant t (half_slots d b) st' \<and> isLessonBlockSafe st' [] \<and> compareMetrics st' mode (Some x) (Some best) < 0)"
proof (cases m)
  case None
  then show ?thesis
    using vacate_ok(1,2) [OF con r [unfolded tryVacateTeacherSession_def]] by (simp add: steady_def)
next
  case (Some x)
  then show ?thesis
    using vacate_ok(1,3) [OF con r [unfolded tryVacateTeacherSession_def]] by (auto simp: steady_def Let_def split: if_splits)
qed

lemma vacate_session_witness:
  "\<exists>m st'. tryVacateTeacherSession (u ''x'') 0 1 no_metrics Sessions demo_pair = (m, st') \<and> consistent demo_base st'
    \<and> placed st' = placed demo_pair"
  using vacate_session [OF demo_pair_consistent] by (metis surj_pair)

text \<open>
  Ruin and recreate drops no lesson either: the lessons of the ruined teachers all stand again in a
  consistent, strictly better state that meets the rules on blocks, or nothing has changed.
\<close>

lemma ruin_and_recreate:
  assumes con: "consistent B st" and r: "tryLnsRuinAndRecreate ts best mode st = (m, st')"
  shows "consistent B st' \<and> placed st' = placed st \<and> (case m of None \<Rightarrow> grids st' = grids st
    | Some x \<Rightarrow> x = evaluateMetrics st' \<and> isLessonBlockSafe st' [] \<and> compareMetrics st' mode (Some x) (Some best) < 0)"
  using lns_ok [OF con r] by (cases m) (auto simp: steady_def)

lemma ruin_and_recreate_witness:
  "\<exists>m st'. tryLnsRuinAndRecreate [u ''x''] no_metrics Singletons demo_pair = (m, st') \<and> consistent demo_base st'
    \<and> placed st' = placed demo_pair"
  using ruin_and_recreate [OF demo_pair_consistent] by (metis surj_pair)

text \<open>
  Repairing a consistent state takes nothing off, counts what it has placed and what it could not,
  and registers the latter, so that the gate then depends on the pupils' empty cells only.
\<close>

lemma repair_opens_gate:
  assumes con: "consistent B st" and r: "repairHardConflicts st = ((n, m), st')" and nf: "\<forall>a \<in> set (e_acts st). \<not> ac_fixed a"
  shows "consistent B st' \<and> placed st \<subseteq> placed st' \<and> n = card (placed st' - placed st) \<and> m = length (stuck_acts st')
    \<and> (verifyPlacementIntegrity st' \<longleftrightarrow> (case e_holes st' of Some k \<Rightarrow> countStudentHoles st' \<le> k | None \<Rightarrow> True))"
  using repair_ok(1-3) [OF con r] repair_gate [OF con r nf] by (simp add: keeps_def)

lemma repair_opens_gate_witness:
  "\<exists>n m st'. repairHardConflicts demo_two = ((n, m), st') \<and> consistent demo_base st' \<and> {0, 1} \<subseteq> placed st'
    \<and> n = card (placed st' - {0, 1}) \<and> m = length (stuck_acts st')"
proof -
  obtain n m st' where r: "repairHardConflicts demo_two = ((n, m), st')" by (metis surj_pair)
  have "\<forall>a \<in> set (e_acts demo_two). \<not> ac_fixed a" by (simp add: demo_two_fields demo_acts_def)
  from repair_opens_gate [OF demo_two_consistent(1) r this] r show ?thesis using demo_two_placed by auto
qed

subsection \<open>Loading, demand, slots\<close>

text \<open>
  C29: loading a stored timetable makes one activity of every movable cell, or of every pair of cells that
  a rule joins, so the durations add up to the number of movable cells; and whatever the stored data
  hold, double-booked cells included, the loaded engine is consistent.
\<close>

theorem load_is_consistent:
  "consistent (base_now (load_start st)) (loadExistingSchedule st)
   \<and> sum_list (map ac_dur (e_acts (loadExistingSchedule st)))
     = (\<Sum>lop\<leftarrow>e_classes (init st). \<Sum>b\<leftarrow>[0..<12]. movable_in (init st) lop (b * 5) 5)"
  using load_consistent [of st] loaded_acts_ok(2) [of st] by (simp add: sig_def load_start_def)


subsection \<open>Measures\<close>

text \<open>
  In every mode of the optimiser and under every lock, "strictly better" is a transitive and
  well-founded relation on metrics: accepting only better states, a search ends and never comes back.
\<close>

lemma compareMetrics_well_founded:
  "wf {(a, b). compareMetrics st mode (Some a) (Some b) < 0} \<and> trans {(a, b). compareMetrics st mode (Some a) (Some b) < 0}"
  using better_wf [of st mode] better_trans [of st mode] by (simp add: better_def)

text \<open>
  \<open>compareTuple\<close> is the lexicographic order of lock violations, single-period sessions, large gaps,
  sessions, small gaps and days: negative exactly when the first tuple is smaller, zero exactly on equal
  tuples, and swapping the arguments changes the sign.
\<close>

lemma compareTuple_lexicographic:
  "(compareTuple st (Some a) (Some b) < 0 \<longleftrightarrow> (tuple_of st a, tuple_of st b) \<in> lexord {(x, y). x < y})
   \<and> (compareTuple st (Some a) (Some b) = 0 \<longleftrightarrow> tuple_of st a = tuple_of st b)
   \<and> compareTuple st (Some b) (Some a) = - compareTuple st (Some a) (Some b)"
  using compareTuple_lex [of st a b] compareTuple_antisym [of st b a] by blast

text \<open>
  Measuring the school at once or teacher by teacher gives the same: the metrics of the school are
  the sum of the metrics of its scored teachers.
\<close>

lemma metrics_add_up:
  "evaluateMetrics st = (\<Sum>t\<leftarrow>filter (\<lambda>t. t \<noteq> [] \<and> isScoredTeacher st t) (map fst (e_tgrid st)). evaluateTeacherMetrics st t)"
  by (rule evaluate_sum)

end
