(* ===== verification/FeEscape.thy ===== *)
theory FeEscape
  imports FeGuard
begin

section \<open>FET engine: the operators that leave a local optimum\<close>

text \<open>
  \<open>tryWholeSessionSwap\<close>, \<open>trySingletonEjectionChain\<close>, \<open>tryRelatedClusterRuin\<close>, \<open>tryDeepEjectionChain\<close> and
  \<open>tryNeutralPlateauWalk\<close>. Each returns the metrics of the better state it leaves, or nothing. The
  progress callback is not modelled. \<open>tryLnsRuinAndRecreate\<close> is called through its wrapper.
\<close>

type_synonym operator = "eng \<Rightarrow> metrics option \<times> eng"

text \<open>A call through the wrapper: a throw, a refusal and a result of nothing look alike.\<close>

definition guard_call :: "int option \<Rightarrow> (eng \<Rightarrow> (unit + metrics option) \<times> eng) \<Rightarrow> operator" where
  "guard_call deadline impl st = (case guarded deadline impl st of (Some (Some m), st') \<Rightarrow> (Some m, st') | (_, st') \<Rightarrow> (None, st'))"

definition guard_op :: "int option \<Rightarrow> operator \<Rightarrow> operator" where
  "guard_op deadline f = guard_call deadline (\<lambda>s. case f s of (m, s') \<Rightarrow> (Inr m, s'))"

definition draw_below :: "nat \<Rightarrow> eng \<Rightarrow> nat \<times> eng" where
  "draw_below n st = (case prng_next (e_rng st) of (p, r) \<Rightarrow> (nat (p * int n div 2147483647), st\<lparr>e_rng := r\<rparr>))"

text \<open>A lesson that may be moved alone.\<close>

definition single_movable :: "eng \<Rightarrow> nat \<Rightarrow> bool" where
  "single_movable st i \<longleftrightarrow> i < length (e_acts st) \<and> \<not> ac_fixed (e_acts st ! i) \<and> ac_dur (e_acts st ! i) = 1"

definition fits :: "eng \<Rightarrow> act \<Rightarrow> nat \<Rightarrow> bool" where
  "fits st a s \<longleftrightarrow> getConflictsForSlot st a s = Some []"

text \<open>The better state, when the rules on the given activities are met.\<close>

definition improvement :: "opt_mode \<Rightarrow> metrics \<Rightarrow> act list \<Rightarrow> eng \<Rightarrow> metrics option" where
  "improvement mode best acts st =
     (let m = evaluateMetrics st
      in if isLessonBlockSafe st acts \<and> compareMetrics st mode (Some m) (Some best) < 0 then Some m else None)"

text \<open>Try the elements of a list until one improves.\<close>

fun first_improving :: "('a \<Rightarrow> operator) \<Rightarrow> 'a list \<Rightarrow> operator" where
  "first_improving f [] st = (None, st)"
| "first_improving f (x # xs) st = (case f x st of (Some m, st1) \<Rightarrow> (Some m, st1) | (None, st1) \<Rightarrow> first_improving f xs st1)"

subsection \<open>Whole sessions\<close>

text \<open>The lessons that start in a half day of a class, unless a cell of it cannot move.\<close>

definition session_acts :: "eng \<Rightarrow> ustr \<Rightarrow> nat \<Rightarrow> (nat \<times> act) list option" where
  "session_acts st cid start =
     (if list_ex (\<lambda>s. (cid, s) \<in> e_off st \<or> (case cell_at (e_cgrid st) cid s of GFixed \<Rightarrow> True
            | GAct i \<Rightarrow> i \<ge> length (e_acts st) \<or> ac_fixed (e_acts st ! i) | _ \<Rightarrow> False)) [start..<start + periods_per_session]
      then None
      else Some (List.map_filter (\<lambda>p. case cell_at (e_cgrid st) cid (start + p) of
             GAct i \<Rightarrow> (if e_place st ! i = Some (start + p) then Some (p, e_acts st ! i) else None) | _ \<Rightarrow> None)
           [0..<periods_per_session]))"

fun place_fitting :: "nat \<Rightarrow> (nat \<times> act) list \<Rightarrow> eng \<Rightarrow> bool \<times> eng" where
  "place_fitting start [] st = (True, st)"
| "place_fitting start ((p, a) # items) st =
     (if fits st a (start + p) then place_fitting start items (placeActivityDirect (ac_id a) (start + p) st) else (False, st))"

definition unplace_all :: "(nat \<times> act) list \<Rightarrow> eng \<Rightarrow> eng" where
  "unplace_all items = fold (\<lambda>(p, a). unplaceActivity (ac_id a)) items"

definition place_all :: "nat \<Rightarrow> (nat \<times> act) list \<Rightarrow> eng \<Rightarrow> eng" where
  "place_all start items = fold (\<lambda>(p, a). placeActivityDirect (ac_id a) (start + p)) items"

definition swap_sessions :: "opt_mode \<Rightarrow> metrics \<Rightarrow> nat \<Rightarrow> nat \<Rightarrow> (nat \<times> act) list \<Rightarrow> (nat \<times> act) list \<Rightarrow> operator" where
  "swap_sessions mode best start1 start2 acts1 acts2 st =
     (let (ok1, st1) = place_fitting start2 acts1 (unplace_all acts2 (unplace_all acts1 st));
          (ok2, st2) = (if ok1 then place_fitting start1 acts2 st1 else (False, st1))
      in case (if ok2 then improvement mode best (map snd acts1 @ map snd acts2) st2 else None) of
           Some m \<Rightarrow> (Some m, st2)
         | None \<Rightarrow> (None, place_all start2 acts2 (place_all start1 acts1 (unplace_all acts2 (unplace_all acts1 st2)))))"

definition swap_half :: "opt_mode \<Rightarrow> metrics \<Rightarrow> ustr \<Rightarrow> nat \<times> nat \<Rightarrow> operator" where
  "swap_half mode best cid bd st =
     (case bd of (b, d1) \<Rightarrow>
        let start = (\<lambda>d. d * slots_per_day + b * periods_per_session)
        in case session_acts st cid (start d1) of
             None \<Rightarrow> (None, st)
           | Some acts1 \<Rightarrow> first_improving (\<lambda>d2 s. case session_acts s cid (start d2) of
                 None \<Rightarrow> (None, s) | Some acts2 \<Rightarrow> swap_sessions mode best (start d1) (start d2) acts1 acts2 s)
               [Suc d1..<length days_list] st)"

definition tryWholeSessionSwap :: "metrics \<Rightarrow> opt_mode \<Rightarrow> operator" where
  "tryWholeSessionSwap best mode st =
     (case fet_shuffle (filter (\<lambda>c. c \<noteq> []) (map fst (e_cgrid st))) (e_rng st) of (classes, rng) \<Rightarrow>
        first_improving (\<lambda>cid. first_improving (swap_half mode best cid)
            (List.product [0..<length sessions_list] [0..<length days_list])) (take 12 classes) (st\<lparr>e_rng := rng\<rparr>))"

subsection \<open>Single lessons\<close>

definition single_lessons :: "eng \<Rightarrow> ustr \<Rightarrow> act list" where
  "single_lessons st t = List.map_filter (\<lambda>h. case half_taught st t h of
       [p] \<Rightarrow> (case cell_at (e_tgrid st) t (h * periods_per_session + p) of
                 GAct i \<Rightarrow> (if single_movable st i then Some (e_acts st ! i) else None) | _ \<Rightarrow> None)
     | _ \<Rightarrow> None) [0..<total_slots div periods_per_session]"

text \<open>The best metrics so far, whether something has improved, and the engine.\<close>

type_synonym search_acc = "metrics \<times> bool \<times> eng"

definition eject_single :: "opt_mode \<Rightarrow> act \<Rightarrow> search_acc \<Rightarrow> search_acc" where
  "eject_single mode a acc =
     (case acc of (best, any, st) \<Rightarrow>
        let snap = captureStateSnapshot st;
            (ok, st1) = fresh_swap None (ac_id a) ((unplaceActivity (ac_id a) st)\<lparr>e_limit := 12000\<rparr>);
            st2 = st1\<lparr>e_limit := e_limit st\<rparr>
        in case (if ok then improvement mode best [] st2 else None) of
             Some m \<Rightarrow> (m, True, st2) | None \<Rightarrow> (best, any, restoreStateSnapshot snap st2))"

definition trySingletonEjectionChain :: "ustr list \<Rightarrow> metrics \<Rightarrow> opt_mode \<Rightarrow> operator" where
  "trySingletonEjectionChain ts best mode st =
     (case fold (\<lambda>t acc. fold (eject_single mode) (single_lessons (snd (snd acc)) t) acc) ts (best, False, st) of
        (m, any, st') \<Rightarrow> (if any then Some m else None, st'))"

subsection \<open>Clusters\<close>

definition class_singles :: "eng \<Rightarrow> ustr \<Rightarrow> ustr list" where
  "class_singles st c = List.map_filter (\<lambda>s. case cell_at (e_cgrid st) c s of
     GAct j \<Rightarrow> (if single_movable st j \<and> ac_gv (e_acts st ! j) \<noteq> [] then Some (ac_gv (e_acts st ! j)) else None) | _ \<Rightarrow> None)
     [0..<total_slots]"

definition related_teachers :: "eng \<Rightarrow> ustr \<Rightarrow> ustr list" where
  "related_teachers st t = concat (map (\<lambda>s. case cell_at (e_tgrid st) t s of
     GAct i \<Rightarrow> (if i < length (e_acts st) \<and> ac_class (e_acts st ! i) \<noteq> [] then class_singles st (ac_class (e_acts st ! i)) else [])
   | _ \<Rightarrow> []) [0..<total_slots])"

definition tryRelatedClusterRuin :: "int option \<Rightarrow> ustr list \<Rightarrow> metrics \<Rightarrow> opt_mode \<Rightarrow> operator" where
  "tryRelatedClusterRuin deadline ts best mode st =
     (case fet_shuffle (fold add_once (concat (map (related_teachers st) ts)) (fold add_once ts [])) (e_rng st) of (chosen, rng) \<Rightarrow>
        guard_op deadline (tryLnsRuinAndRecreate (take 3 chosen) best mode) (st\<lparr>e_rng := rng\<rparr>))"

subsection \<open>Cycles of four lessons\<close>

definition teacher_taken :: "eng \<Rightarrow> act \<Rightarrow> nat \<Rightarrow> bool" where
  "teacher_taken st a s \<longleftrightarrow> (case cell_at (e_tgrid st) (ac_gv a) s of GAct k \<Rightarrow> k \<noteq> ac_id a | _ \<Rightarrow> False)"

text \<open>The single lesson of the class of \<open>a\<close> at a slot to which \<open>a\<close> could move.\<close>

definition cycle_cand :: "eng \<Rightarrow> act \<Rightarrow> nat list \<Rightarrow> nat \<Rightarrow> (nat \<times> act) option" where
  "cycle_cand st a used s =
     (if s \<in> set used \<or> (ac_class a, s) \<in> e_off st then None
      else case cell_at (e_cgrid st) (ac_class a) s of
             GAct j \<Rightarrow> (if single_movable st j \<and> \<not> teacher_taken st a s then Some (s, e_acts st ! j) else None)
           | _ \<Rightarrow> None)"

definition cycle_cands :: "eng \<Rightarrow> act \<Rightarrow> nat list \<Rightarrow> (nat \<times> act) list" where
  "cycle_cands st a used = take 3 (List.map_filter (cycle_cand st a used) [0..<total_slots])"

text \<open>Each lesson moves to the slot of the next one, the last to the slot of the first.\<close>

definition rotate_four :: "opt_mode \<Rightarrow> metrics \<Rightarrow> (nat \<times> act) list \<Rightarrow> operator" where
  "rotate_four mode best items st =
     (let acts = map snd items; goals = zip acts (rotate1 (map fst items));
          st1 = fold (\<lambda>a. unplaceActivity (ac_id a)) acts st;
          put = (\<lambda>(a, s). placeActivityDirect (ac_id a) s); back = zip acts (map fst items)
      in if list_all (\<lambda>(a, s). fits st1 a s) goals
         then let st2 = fold put goals st1
              in case (if isLessonBlockSafe st2 acts then improvement mode best [] st2 else None) of
                   Some m \<Rightarrow> (Some m, st2)
                 | None \<Rightarrow> (None, fold put back (fold (\<lambda>a. unplaceActivity (ac_id a)) acts st2))
         else (None, fold put back st1))"

text \<open>At most three fourth lessons are tried; the number counts those that have been.\<close>

fun fourth_lesson :: "opt_mode \<Rightarrow> metrics \<Rightarrow> (nat \<times> act) list \<Rightarrow> nat list \<Rightarrow> nat \<Rightarrow> operator" where
  "fourth_lesson mode best items [] n st = (None, st)"
| "fourth_lesson mode best items (s # ss) n st =
     (case cycle_cand st (snd (last items)) (map fst items) s of
        None \<Rightarrow> fourth_lesson mode best items ss n st
      | Some (s4, a4) \<Rightarrow>
          if teacher_taken st a4 (fst (hd items)) then fourth_lesson mode best items ss n st
          else if n \<ge> 3 then (None, st)
          else case rotate_four mode best (items @ [(s4, a4)]) st of
                 (Some m, st1) \<Rightarrow> (Some m, st1) | (None, st1) \<Rightarrow> fourth_lesson mode best items ss (Suc n) st1)"

definition cycles_from :: "opt_mode \<Rightarrow> metrics \<Rightarrow> nat \<times> act \<Rightarrow> operator" where
  "cycles_from mode best i1 st =
     first_improving (\<lambda>i2 s2. first_improving (\<lambda>i3. fourth_lesson mode best [i1, i2, i3] [0..<total_slots] 0)
         (cycle_cands s2 (snd i2) [fst i2, fst i1]) s2)
       (cycle_cands st (snd i1) [fst i1]) st"

definition movable_lessons :: "eng \<Rightarrow> ustr \<Rightarrow> (nat \<times> act) list" where
  "movable_lessons st t = List.map_filter (\<lambda>s. case cell_at (e_tgrid st) t s of
     GAct i \<Rightarrow> (if single_movable st i then Some (s, e_acts st ! i) else None) | _ \<Rightarrow> None) [0..<total_slots]"

definition tryDeepEjectionChain :: "ustr list \<Rightarrow> metrics \<Rightarrow> opt_mode \<Rightarrow> operator" where
  "tryDeepEjectionChain ts best mode =
     first_improving (\<lambda>t s. first_improving (cycles_from mode best) (movable_lessons s t) s) ts"

subsection \<open>Walking on a plateau\<close>

text \<open>What a step of the walk has done: moved on, improved, or stopped.\<close>

datatype walked = Onward | Better metrics | Nowhere

text \<open>The lessons have been moved; keep an improvement or an equal state, otherwise put them back.\<close>

definition judge_move :: "opt_mode \<Rightarrow> metrics \<Rightarrow> act list \<Rightarrow> (eng \<Rightarrow> eng) \<Rightarrow> eng \<Rightarrow> walked \<times> eng" where
  "judge_move mode best acts undo st =
     (let m = evaluateMetrics st; c = compareMetrics st mode (Some m) (Some best)
      in if \<not> isLessonBlockSafe st acts then (Onward, undo st)
         else if c < 0 \<and> isLessonBlockSafe st [] then (Better m, st)
         else if c = 0 then (Onward, st) else (Onward, undo st))"

definition walk_to :: "opt_mode \<Rightarrow> metrics \<Rightarrow> act \<Rightarrow> nat \<Rightarrow> nat \<Rightarrow> eng \<Rightarrow> walked \<times> eng" where
  "walk_to mode best a s1 s2 st =
     (let st1 = unplaceActivity (ac_id a) st
      in if fits st1 a s2
         then judge_move mode best [a] (\<lambda>s. placeActivityDirect (ac_id a) s1 (unplaceActivity (ac_id a) s))
                (placeActivityDirect (ac_id a) s2 st1)
         else (Onward, placeActivityDirect (ac_id a) s1 st1))"

definition walk_swap :: "opt_mode \<Rightarrow> metrics \<Rightarrow> act \<Rightarrow> act \<Rightarrow> nat \<Rightarrow> nat \<Rightarrow> eng \<Rightarrow> walked \<times> eng" where
  "walk_swap mode best a b s1 s2 st =
     (let lift = (\<lambda>s. unplaceActivity (ac_id b) (unplaceActivity (ac_id a) s));
          put = (\<lambda>x y s. placeActivityDirect (ac_id b) y (placeActivityDirect (ac_id a) x s)); st1 = lift st
      in if fits st1 a s2 \<and> fits st1 b s1
         then judge_move mode best [a, b] (\<lambda>s. put s1 s2 (lift s)) (put s2 s1 st1)
         else (Onward, put s1 s2 st1))"

definition walk_step :: "opt_mode \<Rightarrow> metrics \<Rightarrow> eng \<Rightarrow> walked \<times> eng" where
  "walk_step mode best st =
     (let acts = filter (\<lambda>a. ac_dur a = 1 \<and> \<not> ac_fixed a \<and> e_place st ! ac_id a \<noteq> None) (e_acts st)
      in if acts = [] then (Nowhere, st)
         else case draw_below (length acts) st of (k, st1) \<Rightarrow>
           let a = acts ! k; c = ac_class a
           in case e_place st1 ! ac_id a of None \<Rightarrow> (Onward, st1) | Some s1 \<Rightarrow>
             if map_of (e_cgrid st1) c = None then (Onward, st1)
             else case draw_below 60 st1 of (s2, st2) \<Rightarrow>
               if s2 = s1 \<or> (c, s2) \<in> e_off st2 \<or> map_of (e_fixed st2) (c, s2) \<noteq> None then (Onward, st2)
               else case cell_at (e_cgrid st2) c s2 of
                      GFree \<Rightarrow> walk_to mode best a s1 s2 st2
                    | GAct j \<Rightarrow> (if single_movable st2 j \<and> map_of (e_fixed st2) (ac_class (e_acts st2 ! j), s1) = None
                                then walk_swap mode best a (e_acts st2 ! j) s1 s2 st2 else (Onward, st2))
                    | _ \<Rightarrow> (Onward, st2))"

fun plateau_walk :: "nat \<Rightarrow> opt_mode \<Rightarrow> metrics \<Rightarrow> operator" where
  "plateau_walk 0 mode best st = (None, st)"
| "plateau_walk (Suc n) mode best st = (case walk_step mode best st of
     (Nowhere, st1) \<Rightarrow> (None, st1) | (Better m, st1) \<Rightarrow> (Some m, st1) | (Onward, st1) \<Rightarrow> plateau_walk n mode best st1)"

definition tryNeutralPlateauWalk :: "nat \<Rightarrow> metrics \<Rightarrow> opt_mode \<Rightarrow> operator" where
  "tryNeutralPlateauWalk steps best mode st =
     (case plateau_walk steps mode best st of
        (Some m, st1) \<Rightarrow> (Some m, st1) | (None, st1) \<Rightarrow> (None, restoreStateSnapshot (captureStateSnapshot st) st1))"

end
