(* ===== verification/FeOptimize.thy ===== *)
theory FeOptimize
  imports FeEscape
begin

section \<open>FET engine: the optimiser\<close>

text \<open>
  \<open>optimize\<close>: rounds of guarded operators from the loaded timetable, an archive of good states, escapes
  when a round does not improve, restarts from perturbed states, and the final defence.

  \<^item> The operators of \<open>op_call\<close> are not modelled. They are a parameter: any function that reads the whole
    search and throws or returns, and changes what those methods assign (placement, grids, journal,
    tabu marks, call counters, generator, clock); each runs inside the modelled wrapper.
  \<^item> The flag by which the page asks to stop is another parameter, read at a moment of the clock.
  \<^item> The progress callback and the pause between rounds are left out, and fields nobody reads
    (\<open>gap2SessionBudget\<close>, \<open>initialMetricsSnapshot\<close>, \<open>destroyStrength\<close>, the snapshot of the local best).
  \<^item> Times are rationals. A deadline that is 0 counts as none.
\<close>

subsection \<open>Options\<close>

record opt_params =
  om_slack :: rat
  om_s1Ceil :: "rat option"
  om_gap2Lock :: "rat option"
  om_restartMs :: rat
  om_maxRestarts :: rat
  om_hardCapMs :: rat

definition num_or :: "rat \<Rightarrow> js \<Rightarrow> rat" where
  "num_or d v = (case js_number v of Some q \<Rightarrow> (if q = 0 then d else q) | None \<Rightarrow> d)"

definition read_params :: "js \<Rightarrow> opt_params" where
  "read_params opts =
     \<lparr>om_slack = max 0 (num_or 0 (jprop opts ''singletonSlack'')), om_s1Ceil = js_number (jprop opts ''s1CeilingAbsolute''),
      om_gap2Lock = js_number (jprop opts ''gap2LockAbsolute''), om_restartMs = num_or 180000 (jprop opts ''optimizeRestartBudgetMs''),
      om_maxRestarts = num_or 20 (jprop opts ''optimizeMaxRestarts''), om_hardCapMs = num_or 240000 (jprop opts ''optimizeHardCapMs'')\<rparr>"

definition metric_val :: "opt_mode \<Rightarrow> metrics \<Rightarrow> nat" where
  "metric_val mode m = (case mode of Singletons \<Rightarrow> mt_day1 m | Sessions \<Rightarrow> mt_sessions m | Gap2 \<Rightarrow> mt_gap2 m
     | Gap1 \<Rightarrow> mt_gap1 m | OtherMode \<Rightarrow> mt_day1 m)"

definition max_rounds :: "opt_mode \<Rightarrow> nat" where
  "max_rounds mode = (if mode = Singletons then 65 else if mode = Gap2 then 28 else 55)"

definition max_stagnant :: "opt_mode \<Rightarrow> nat" where
  "max_stagnant mode = (if mode = Singletons then 25 else if mode = Gap2 then 8 else 18)"

subsection \<open>The search\<close>

record search =
  sh_eng :: eng
  sh_initial :: metrics
  sh_placed :: nat
  sh_bestM :: metrics
  sh_elite :: "(metrics \<times> snapshot) list"
  sh_globM :: metrics
  sh_glob :: snapshot
  sh_opDeadline :: "rat option"
  sh_stale :: nat
  sh_improved :: bool
  sh_round :: nat

datatype op_call = FastSingletonRepair | SingletonRelabelCycles | FixDaySingletons | ObliterateSingletons nat
  | CrossSubjectSwap nat | AugmentingChain nat | ReinforceSingletons | ConsolidateSingletons | VacateSessions
  | ObliterateThin nat "nat list" | SingleDoubleSwap | RelaxAndRepair | CrushExtremeGaps | MergeSplitPeriods
  | BorrowLesson opt_mode | InterDayRelocate | BlockShift | CrossClassChain | DissolveGap | GapRelabelCycles opt_mode
  | CrushGaps opt_mode | FillGap | DoubleIntoGap | EjectIntoGap opt_mode | RelocateGap opt_mode | MergeIntoGaps
  | KempeSwap opt_mode | EjectWithCompanion | ExileEdge

record opt_env =
  oe_stop :: "nat \<Rightarrow> bool"
  oe_op :: "op_call \<Rightarrow> search \<Rightarrow> eng \<Rightarrow> (unit + metrics option) \<times> eng"

text \<open>
  What an operator may change. It leaves an array with an entry for each activity and a \<open>Map\<close>, which has
  no key twice; other values of the parameter are no behaviour of an operator.
\<close>

definition shaped :: "eng \<Rightarrow> eng \<Rightarrow> bool" where
  "shaped st st' \<longleftrightarrow> length (e_place st') = length (e_place st) \<and> distinct (map fst (e_cgrid st'))"

definition absorb :: "eng \<Rightarrow> eng \<Rightarrow> eng" where
  "absorb st st' = st\<lparr>e_place := e_place st', e_cgrid := e_cgrid st', e_tgrid := e_tgrid st', e_rgrid := e_rgrid st',
     e_tabu := e_tabu st', e_step := e_step st', e_calls := e_calls st', e_limit := e_limit st', e_journal := e_journal st',
     e_branch := e_branch st', e_rng := e_rng st', e_ticks := e_ticks st', e_hit := e_hit st', e_rejections := e_rejections st'\<rparr>"

type_synonym call = "search \<Rightarrow> eng \<Rightarrow> (unit + metrics option) \<times> eng"

definition outside :: "opt_env \<Rightarrow> op_call \<Rightarrow> call" where
  "outside env c sh st = (case oe_op env c sh st of (r, st') \<Rightarrow> (r, if shaped st st' then absorb st st' else st))"

definition inside :: "(search \<Rightarrow> operator) \<Rightarrow> call" where
  "inside f sh st = (case f sh st of (m, st') \<Rightarrow> (Inr m, st'))"

definition deadline_of :: "rat \<Rightarrow> rat option" where
  "deadline_of v = (if v = 0 then None else Some v)"

definition search_now :: "search \<Rightarrow> rat \<times> search" where
  "search_now sh = (case date_now (sh_eng sh) of (t, st) \<Rightarrow> (of_int t, sh\<lparr>sh_eng := st\<rparr>))"

definition stop_asked :: "opt_env \<Rightarrow> search \<Rightarrow> bool \<times> search" where
  "stop_asked env sh = (oe_stop env (e_ticks (sh_eng sh)), sh\<lparr>sh_eng := (sh_eng sh)\<lparr>e_ticks := Suc (e_ticks (sh_eng sh))\<rparr>\<rparr>)"

subsection \<open>Keeping the best state\<close>

definition keep_elite :: "opt_mode \<Rightarrow> search \<Rightarrow> search" where
  "keep_elite mode sh =
     (if length (sh_elite sh) < 3 \<or> compareMetrics (sh_eng sh) mode (Some (sh_bestM sh)) (Some (fst (hd (sh_elite sh)))) < 0
      then sh\<lparr>sh_elite := take 3 ((sh_bestM sh, captureStateSnapshot (sh_eng sh)) # sh_elite sh)\<rparr> else sh)"

definition keep_global :: "opt_mode \<Rightarrow> search \<Rightarrow> search" where
  "keep_global mode sh =
     (if compareMetrics (sh_eng sh) mode (Some (sh_bestM sh)) (Some (sh_globM sh)) < 0
      then let sh1 = sh\<lparr>sh_globM := sh_bestM sh, sh_glob := captureStateSnapshot (sh_eng sh)\<rparr>
           in if metric_val mode (sh_globM sh1) = 0
              then case search_now sh1 of (t, sh2) \<Rightarrow> sh2\<lparr>sh_opDeadline := deadline_of (t - 1)\<rparr> else sh1
      else sh)"

definition saveBestSnapshot :: "opt_mode \<Rightarrow> search \<Rightarrow> search" where
  "saveBestSnapshot mode sh =
     (if placed_periods (sh_eng sh) < sh_placed sh then sh
      else if (case e_holes (sh_eng sh) of Some n \<Rightarrow> countStudentHoles (sh_eng sh) > n | None \<Rightarrow> False) then sh
      else keep_global mode (keep_elite mode sh))"

definition accept :: "opt_mode \<Rightarrow> metrics option \<Rightarrow> search \<Rightarrow> bool \<times> search" where
  "accept mode m sh = (case m of None \<Rightarrow> (False, sh)
     | Some x \<Rightarrow> if compareMetrics (sh_eng sh) mode (Some x) (Some (sh_bestM sh)) < 0
                then (True, saveBestSnapshot mode (sh\<lparr>sh_bestM := x, sh_improved := True\<rparr>)) else (False, sh))"

definition run_call :: "call \<Rightarrow> search \<Rightarrow> metrics option \<times> search" where
  "run_call f sh = (case guard_call (map_option floor (sh_opDeadline sh)) (f sh) (sh_eng sh) of (m, st) \<Rightarrow> (m, sh\<lparr>sh_eng := st\<rparr>))"

definition attempt :: "opt_mode \<Rightarrow> call \<Rightarrow> search \<Rightarrow> bool \<times> search" where
  "attempt mode f sh = (case run_call f sh of (m, sh1) \<Rightarrow> accept mode m sh1)"

definition attempts :: "opt_mode \<Rightarrow> call list \<Rightarrow> search \<Rightarrow> search" where
  "attempts mode fs sh = fold (\<lambda>f sh. snd (attempt mode f sh)) fs sh"

subsection \<open>The passes of a round\<close>

text \<open>The first component says that the round ends the loop.\<close>

definition pass_singletons :: "opt_env \<Rightarrow> search \<Rightarrow> bool \<times> search" where
  "pass_singletons env sh =
     (let sh1 = snd (attempt Singletons (outside env FastSingletonRepair) sh)
      in if mt_day1 (sh_bestM sh1) \<le> 1 then (True, sh1)
         else (False, attempts Singletons (map (outside env) [SingletonRelabelCycles, FixDaySingletons, ObliterateSingletons 12,
                 CrossSubjectSwap 10, AugmentingChain 8, ReinforceSingletons, ConsolidateSingletons]) sh1))"

definition vacate_call :: "opt_mode \<Rightarrow> ustr \<Rightarrow> nat \<Rightarrow> nat \<Rightarrow> call" where
  "vacate_call mode t d b = inside (\<lambda>sh. tryVacateTeacherSession t d b (sh_bestM sh) mode)"

definition scored_rows :: "eng \<Rightarrow> ustr list" where
  "scored_rows st = filter (\<lambda>t. t \<noteq> [] \<and> isScoredTeacher st t) (map fst (e_tgrid st))"

definition thin_sessions :: "eng \<Rightarrow> (nat \<times> ustr \<times> nat \<times> nat) list" where
  "thin_sessions st = concat (map (\<lambda>t. List.map_filter (\<lambda>h. let n = length (half_taught st t h) in
       if n = 1 \<or> n = 2 then Some (n, t, h div 2, h mod 2) else None) [0..<total_slots div periods_per_session]) (scored_rows st))"

fun vacate_first :: "(nat \<times> ustr \<times> nat \<times> nat) list \<Rightarrow> search \<Rightarrow> search" where
  "vacate_first [] sh = sh"
| "vacate_first ((n, t, d, b) # xs) sh =
     (case attempt Sessions (vacate_call Sessions t d b) sh of (ok, sh1) \<Rightarrow> if ok then sh1 else vacate_first xs sh1)"

definition pass_sessions :: "opt_env \<Rightarrow> search \<Rightarrow> search" where
  "pass_sessions env sh =
     (let sh1 = snd (attempt Sessions (outside env VacateSessions) sh)
      in case fet_shuffle (thin_sessions (sh_eng sh1)) (e_rng (sh_eng sh1)) of (xs, rng) \<Rightarrow>
        attempts Sessions (map (outside env) [ObliterateThin 8 [1, 2], ObliterateSingletons 8, ConsolidateSingletons])
          (vacate_first (take 30 (sort_key fst xs)) (sh1\<lparr>sh_eng := (sh_eng sh1)\<lparr>e_rng := rng\<rparr>\<rparr>)))"

definition has_gap2 :: "eng \<Rightarrow> ustr \<Rightarrow> nat \<Rightarrow> bool" where
  "has_gap2 st t h = (let ps = half_taught st t h in length ps \<ge> 2 \<and> span_of ps - length ps \<ge> 2)"

fun vacate_halves :: "ustr \<Rightarrow> nat \<Rightarrow> nat list \<Rightarrow> search \<Rightarrow> search" where
  "vacate_halves t d [] sh = sh"
| "vacate_halves t d (b # bs) sh =
     (if has_gap2 (sh_eng sh) t (2 * d + b)
      then case attempt Gap2 (vacate_call Gap2 t d b) sh of (ok, sh1) \<Rightarrow> if ok then sh1 else vacate_halves t d bs sh1
      else vacate_halves t d bs sh)"

text \<open>The outer loops stop as soon as anything has improved in the round.\<close>

fun until_improved :: "('a \<Rightarrow> search \<Rightarrow> search) \<Rightarrow> 'a list \<Rightarrow> search \<Rightarrow> search" where
  "until_improved f [] sh = sh"
| "until_improved f (x # xs) sh = (let sh1 = f x sh in if sh_improved sh1 then sh1 else until_improved f xs sh1)"

definition vacate_gaps :: "search \<Rightarrow> search" where
  "vacate_gaps sh =
     (case fet_shuffle (filter (\<lambda>t. mt_gap2 (evaluateTeacherMetrics (sh_eng sh) t) > 0) (scored_rows (sh_eng sh)))
             (e_rng (sh_eng sh)) of (ts, rng) \<Rightarrow>
        until_improved (\<lambda>t. until_improved (\<lambda>d. vacate_halves t d [0, 1]) [0..<length days_list]) (take 15 ts)
          (sh\<lparr>sh_eng := (sh_eng sh)\<lparr>e_rng := rng\<rparr>\<rparr>))"

definition pass_gap2 :: "opt_env \<Rightarrow> search \<Rightarrow> search" where
  "pass_gap2 env sh =
     (let heavy = mt_gap2 (sh_bestM sh) \<le> 3 \<or> sh_stale sh \<ge> 2 \<and> sh_round sh mod 3 = 0;
          sh1 = (if heavy then attempts Gap2 (map (outside env) [SingleDoubleSwap, RelaxAndRepair, CrushExtremeGaps,
                    MergeSplitPeriods, BorrowLesson Gap2, InterDayRelocate, BlockShift, CrossClassChain]) sh else sh)
      in vacate_gaps (attempts Gap2 (map (outside env) [DissolveGap, GapRelabelCycles Gap2, CrushGaps Gap2, FillGap, DoubleIntoGap,
           EjectIntoGap Gap2, RelocateGap Gap2, MergeIntoGaps, KempeSwap Gap2, EjectWithCompanion, ExileEdge, CrossClassChain]) sh1))"

text \<open>The result of \<open>tryRelocateGapSessionToNewDay\<close> is judged only after the next operator has run.\<close>

definition pass_gap1 :: "opt_env \<Rightarrow> search \<Rightarrow> search" where
  "pass_gap1 env sh =
     (let sh1 = attempts Gap1 (map (outside env) [GapRelabelCycles Gap1, CrushGaps Gap1, EjectIntoGap Gap1]) sh;
          (m1, sh2) = run_call (outside env (RelocateGap Gap1)) sh1;
          (m2, sh3) = run_call (outside env (BorrowLesson Gap1)) sh2;
          sh4 = snd (accept Gap1 m1 (snd (accept Gap1 m2 sh3)))
      in snd (attempt Gap1 (outside env (KempeSwap Gap1)) sh4))"

definition pass_of :: "opt_env \<Rightarrow> opt_mode \<Rightarrow> search \<Rightarrow> bool \<times> search" where
  "pass_of env mode sh = (case mode of Singletons \<Rightarrow> pass_singletons env sh | Sessions \<Rightarrow> (False, pass_sessions env sh)
     | Gap2 \<Rightarrow> (False, pass_gap2 env sh) | Gap1 \<Rightarrow> (False, pass_gap1 env sh) | OtherMode \<Rightarrow> (False, sh))"

subsection \<open>Escapes\<close>

definition bottleneck :: "opt_mode \<Rightarrow> metrics \<Rightarrow> bool" where
  "bottleneck mode m = (case mode of Singletons \<Rightarrow> mt_day1 m > 0
     | Sessions \<Rightarrow> mt_sessions m \<ge> 4 \<or> mt_day2 m > 0 \<or> mt_day3 m > 0
     | Gap2 \<Rightarrow> mt_gap2 m > 0 | Gap1 \<Rightarrow> mt_gap1 m > 0 | OtherMode \<Rightarrow> False)"

definition escape_by :: "opt_mode \<Rightarrow> (nat \<Rightarrow> bool) \<Rightarrow> call \<Rightarrow> search \<Rightarrow> search" where
  "escape_by mode due f sh =
     (if sh_improved sh \<or> \<not> due (sh_stale sh) then sh
      else case attempt mode f sh of (ok, sh1) \<Rightarrow> if ok then sh1\<lparr>sh_stale := 0\<rparr> else sh1)"

text \<open>Another branch of the archive, and a walk whose result is ignored.\<close>

definition escape_elite :: "opt_mode \<Rightarrow> search \<Rightarrow> search" where
  "escape_elite mode sh =
     (if sh_improved sh \<or> sh_stale sh < 10 \<or> length (sh_elite sh) \<le> 1 then sh
      else case draw_below (length (sh_elite sh)) (sh_eng sh) of (k, st) \<Rightarrow>
        snd (run_call (inside (\<lambda>sh. tryNeutralPlateauWalk 8 (sh_bestM sh) mode))
          (sh\<lparr>sh_eng := restoreStateSnapshot (snd (sh_elite sh ! k)) st\<rparr>)))"

definition escape :: "opt_mode \<Rightarrow> search \<Rightarrow> search" where
  "escape mode sh0 =
     (let sh = sh0\<lparr>sh_stale := Suc (sh_stale sh0)\<rparr>; st = sh_eng sh
      in case fet_shuffle (filter (\<lambda>t. bottleneck mode (evaluateTeacherMetrics st t)) (scored_rows st)) (e_rng st) of (ts, rng) \<Rightarrow>
        let sh1 = escape_by mode (\<lambda>n. n mod 4 = 1) (inside (\<lambda>sh. tryWholeSessionSwap (sh_bestM sh) mode)) (sh\<lparr>sh_eng := st\<lparr>e_rng := rng\<rparr>\<rparr>);
            sh2 = escape_by mode (\<lambda>n. (n mod 4 = 2 \<or> n \<ge> 5) \<and> ts \<noteq> [])
                    (inside (\<lambda>sh. tryDeepEjectionChain (take 5 ts) (sh_bestM sh) mode)) sh1;
            sh3 = escape_by mode (\<lambda>n. n \<ge> 6 \<and> ts \<noteq> []) (inside (\<lambda>sh. trySingletonEjectionChain (take 8 ts) (sh_bestM sh) mode)) sh2;
            sh4 = escape_by mode (\<lambda>n. (n mod 4 = 3 \<or> n \<ge> 6) \<and> ts \<noteq> [])
                    (inside (\<lambda>sh. tryRelatedClusterRuin (map_option floor (sh_opDeadline sh)) (take 4 ts) (sh_bestM sh) mode)) sh3;
            sh5 = escape_by mode (\<lambda>n. n \<ge> 4 \<and> n mod 3 = 0) (inside (\<lambda>sh. tryNeutralPlateauWalk 12 (sh_bestM sh) mode)) sh4
        in escape_elite mode sh5)"

subsection \<open>Rounds and restarts\<close>

text \<open>What stays fixed during one call of \<open>optimize\<close>.\<close>

record opt_run =
  or_mode :: opt_mode
  or_params :: opt_params
  or_inAll :: bool
  or_stage :: "rat option"
  or_start :: rat

definition too_late :: "rat option \<Rightarrow> search \<Rightarrow> bool \<times> search" where
  "too_late d sh = (case d of None \<Rightarrow> (False, sh) | Some x \<Rightarrow> (case search_now sh of (t, sh1) \<Rightarrow> (t > x, sh1)))"

definition may_go_on :: "opt_env \<Rightarrow> opt_run \<Rightarrow> search \<Rightarrow> bool \<times> search" where
  "may_go_on env r sh =
     (case stop_asked env sh of (stop, sh1) \<Rightarrow> if stop then (False, sh1)
      else case too_late (or_stage r) sh1 of (late, sh2) \<Rightarrow> if late then (False, sh2)
      else case search_now sh2 of (t, sh3) \<Rightarrow> (t - or_start r \<le> om_hardCapMs (or_params r), sh3))"

definition reached :: "opt_mode \<Rightarrow> metrics \<Rightarrow> bool" where
  "reached mode m \<longleftrightarrow> mode = Singletons \<and> mt_day1 m \<le> 1 \<or> metric_val mode m = 0"

definition one_round :: "opt_env \<Rightarrow> opt_run \<Rightarrow> search \<Rightarrow> bool \<times> search" where
  "one_round env r sh =
     (case may_go_on env r sh of (go, sh1) \<Rightarrow> if \<not> go then (True, sh1)
      else case pass_of env (or_mode r) (sh1\<lparr>sh_improved := False\<rparr>) of (done, sh2) \<Rightarrow> if done then (True, sh2)
      else let sh3 = (if sh_improved sh2 then sh2\<lparr>sh_stale := 0\<rparr> else escape (or_mode r) sh2)
           in (reached (or_mode r) (sh_bestM sh3) \<or> sh_stale sh3 \<ge> max_stagnant (or_mode r), sh3))"

fun rounds :: "opt_env \<Rightarrow> opt_run \<Rightarrow> nat \<Rightarrow> nat \<Rightarrow> search \<Rightarrow> search" where
  "rounds env r 0 k sh = sh"
| "rounds env r (Suc n) k sh =
     (case one_round env r (sh\<lparr>sh_round := k\<rparr>) of (done, sh1) \<Rightarrow> if done then sh1 else rounds env r n (Suc k) sh1)"

definition may_restart :: "opt_env \<Rightarrow> opt_run \<Rightarrow> search \<Rightarrow> bool \<times> search" where
  "may_restart env r sh =
     (if reached (or_mode r) (sh_globM sh) \<or> or_inAll r \<or> or_mode r \<notin> {Gap2, Gap1, Singletons} then (False, sh)
      else case search_now sh of (t, sh1) \<Rightarrow>
        if t - or_start r \<ge> min (om_restartMs (or_params r)) (om_hardCapMs (or_params r)) then (False, sh1)
        else case stop_asked env sh1 of (stop, sh2) \<Rightarrow> if stop then (False, sh2)
        else case too_late (or_stage r) sh2 of (late, sh3) \<Rightarrow> (\<not> late, sh3))"

definition spin :: "nat \<Rightarrow> prng \<Rightarrow> prng" where
  "spin n r = ((\<lambda>r. snd (prng_next r)) ^^ n) r"

definition restart :: "snapshot \<Rightarrow> nat \<Rightarrow> search \<Rightarrow> search" where
  "restart initial k sh =
     (let st1 = restoreStateSnapshot (if odd k then initial else sh_glob sh) (sh_eng sh);
          st2 = (if odd k then perturbForRestart (6 + 3 * k) st1 else st1)
      in sh\<lparr>sh_bestM := evaluateMetrics st2, sh_stale := 0, sh_eng := st2\<lparr>e_rng := spin (97 + 31 * k) (e_rng st2)\<rparr>\<rparr>)"

text \<open>The first number counts the restarts that are left, the second those made.\<close>

fun portfolio :: "opt_env \<Rightarrow> opt_run \<Rightarrow> snapshot \<Rightarrow> nat \<Rightarrow> nat \<Rightarrow> search \<Rightarrow> search" where
  "portfolio env r initial 0 k sh = rounds env r (max_rounds (or_mode r)) 0 sh"
| "portfolio env r initial (Suc n) k sh =
     (case may_restart env r (rounds env r (max_rounds (or_mode r)) 0 sh) of (again, sh1) \<Rightarrow>
        if again then portfolio env r initial n (Suc k) (restart initial (Suc k) sh1) else sh1)"

subsection \<open>optimize\<close>

definition getResidualGap2Sessions :: "eng \<Rightarrow> (ustr \<times> ustr \<times> ustr \<times> ustr) list" where
  "getResidualGap2Sessions st = concat (map (\<lambda>t. List.map_filter (\<lambda>h.
       let start = h * periods_per_session;
           ids = List.map_filter (\<lambda>p. case cell_at (e_tgrid st) t (start + p) of GAct i \<Rightarrow> Some i | _ \<Rightarrow> None) [0..<periods_per_session];
           reason = (if list_all (\<lambda>i. \<not> single_movable st i) ids then u ''duration-locked''
                     else if list_ex (\<lambda>i. i < length (e_acts st) \<and> ac_class (e_acts st ! i) \<noteq> []
                            \<and> (ac_class (e_acts st ! i), start) \<in> e_off st) ids then u ''class-fixed-halfday-shift''
                     else u ''algorithm-not-yet-resolved'')
       in if has_gap2 st t h then Some (t, fst (half_day_name h), snd (half_day_name h), reason) else None)
     [0..<total_slots div periods_per_session]) (filter (\<lambda>t. t \<noteq> []) (map fst (e_tgrid st))))"

record opt_result =
  ot_placed :: nat
  ot_unassigned :: nat
  ot_initial :: metrics
  ot_metrics :: metrics
  ot_singletons :: "residual list"
  ot_gap2 :: "(ustr \<times> ustr \<times> ustr \<times> ustr) list"

text \<open>The loaded and repaired engine, with the baseline of empty cells.\<close>

definition loaded :: "opt_mode \<Rightarrow> eng \<Rightarrow> eng" where
  "loaded mode st =
     (let st1 = snd (repairHardConflicts (loadExistingSchedule (st\<lparr>e_mintwo := False\<rparr>)))
      in st1\<lparr>e_holes := Some (countStudentHoles st1), e_strict := (mode \<noteq> Singletons)\<rparr>)"

definition with_locks :: "opt_params \<Rightarrow> metrics \<Rightarrow> eng \<Rightarrow> eng" where
  "with_locks par initial st =
     (let ceil = (case om_s1Ceil par of Some c \<Rightarrow> Some c
             | None \<Rightarrow> if om_slack par > 0 then Some (of_nat (mt_day1 initial) + om_slack par) else None)
      in st\<lparr>e_lockS1 := (if ceil = None then e_lockS1 st else ceil),
            e_lockGap2 := (if om_gap2Lock par = None then e_lockGap2 st else om_gap2Lock par)\<rparr>)"

definition begin_search :: "opt_params \<Rightarrow> rat option \<Rightarrow> opt_mode \<Rightarrow> eng \<Rightarrow> rat \<times> search" where
  "begin_search par stage mode st =
     (let st1 = loaded mode st; initial = evaluateMetrics st1; st2 = with_locks par initial st1; snap = captureStateSnapshot st2
      in case date_now st2 of (t, st3) \<Rightarrow>
        (of_int t, \<lparr>sh_eng = st3, sh_initial = initial, sh_placed = placed_periods st2, sh_bestM = initial, sh_elite = [(initial, snap)],
          sh_globM = initial, sh_glob = snap,
          sh_opDeadline = (if stage = None then deadline_of (of_int t + om_hardCapMs par) else stage),
          sh_stale = 0, sh_improved = False, sh_round = 0\<rparr>))"

text \<open>The end: the global best, unless it is not intact or worse than the start.\<close>

definition finish :: "opt_mode \<Rightarrow> snapshot \<Rightarrow> search \<Rightarrow> opt_result \<times> eng" where
  "finish mode initial sh =
     (let st1 = restoreStateSnapshot (sh_glob sh) (sh_eng sh);
          bad = (\<not> verifyPlacementIntegrity st1
                 \<or> compareMetrics st1 mode (Some (evaluateMetrics st1)) (Some (sh_initial sh)) > 0);
          st2 = applyToDataTKB (if bad then restoreStateSnapshot initial st1 else st1)
      in (\<lparr>ot_placed = placed_periods st2 + length (e_fixed st2), ot_unassigned = 0, ot_initial = sh_initial sh,
            ot_metrics = (if bad then sh_initial sh else sh_globM sh),
            ot_singletons = getResidualSingletons st2, ot_gap2 = getResidualGap2Sessions st2\<rparr>, st2))"

definition optimize :: "opt_env \<Rightarrow> opt_params \<Rightarrow> bool \<Rightarrow> rat option \<Rightarrow> opt_mode \<Rightarrow> eng \<Rightarrow> opt_result \<times> eng" where
  "optimize env par inAll stage mode st =
     (case begin_search par stage mode st of (t, sh) \<Rightarrow>
        let r = \<lparr>or_mode = mode, or_params = par, or_inAll = inAll, or_stage = stage, or_start = t\<rparr>;
            initial = captureStateSnapshot (sh_eng sh)
        in finish mode initial (portfolio env r initial (nat \<lceil>om_maxRestarts par\<rceil>) 0 sh))"

end
