(* ===== verification/FeOptimizeAll.thy ===== *)
theory FeOptimizeAll
  imports FeOptimize
begin

section \<open>FET engine: the controllers of the optimiser\<close>

text \<open>
  \<open>optimizeAll\<close> runs the four modes in turn, at most three slices each, and locks what a stage has
  reached; \<open>optimizeGap2WithBorrow\<close> lets large gaps shrink at the price of single-period sessions that
  later phases have to pay back, each phase on a new engine over the same data.

  \<^item> The shares of the time budget are exact rationals. A seed that is not an integer is rounded down.
\<close>

definition eng_stop :: "opt_env \<Rightarrow> eng \<Rightarrow> bool \<times> eng" where
  "eng_stop env st = (oe_stop env (e_ticks st), st\<lparr>e_ticks := Suc (e_ticks st)\<rparr>)"

definition eng_now :: "eng \<Rightarrow> rat \<times> eng" where
  "eng_now st = (case date_now st of (t, st1) \<Rightarrow> (of_int t, st1))"

definition put_tkb :: "js \<Rightarrow> eng \<Rightarrow> eng" where
  "put_tkb t st = st\<lparr>e_data := jput (u ''tkb'') (json_clone t) (e_data st)\<rparr>"

subsection \<open>optimizeAll\<close>

datatype lock_key = LockDay1 | LockGap2

fun lock_val :: "lock_key \<Rightarrow> metrics \<Rightarrow> nat" where
  "lock_val LockDay1 m = mt_day1 m"
| "lock_val LockGap2 m = mt_gap2 m"

fun set_lock :: "lock_key \<Rightarrow> nat \<Rightarrow> eng \<Rightarrow> eng" where
  "set_lock LockDay1 n st = st\<lparr>e_lockS1 := Some (of_nat n)\<rparr>"
| "set_lock LockGap2 n st = st\<lparr>e_lockGap2 := Some (of_nat n)\<rparr>"

datatype exit_reason = AlreadyZero | NoGain | Improved | RolledBack | Locked lock_key nat

record stage =
  sg_mode :: opt_mode
  sg_cycle :: "nat option"
  sg_ms :: rat
  sg_before :: "metrics option"
  sg_after :: metrics
  sg_exit :: exit_reason

record all_state =
  al_eng :: eng
  al_best :: metrics
  al_tkb :: js
  al_stages :: "stage list"

record phase =
  ph_mode :: opt_mode
  ph_share :: rat
  ph_lock :: "lock_key option"

definition phases :: "phase list" where
  "phases = [\<lparr>ph_mode = Singletons, ph_share = 2 / 5, ph_lock = Some LockDay1\<rparr>, \<lparr>ph_mode = Gap2, ph_share = 3 / 10, ph_lock = Some LockGap2\<rparr>,
     \<lparr>ph_mode = Sessions, ph_share = 3 / 20, ph_lock = None\<rparr>, \<lparr>ph_mode = Gap1, ph_share = 1, ph_lock = None\<rparr>]"

definition at_zero :: "phase \<Rightarrow> metrics \<Rightarrow> bool" where
  "at_zero ph m = (case ph_lock ph of Some k \<Rightarrow> lock_val k m = 0 | None \<Rightarrow> False)"

text \<open>One slice: run the mode until the slice ends, then keep its result, roll it back or leave it.\<close>

definition judge_slice :: "opt_mode \<Rightarrow> nat \<Rightarrow> rat \<Rightarrow> metrics \<Rightarrow> all_state \<Rightarrow> exit_reason \<times> all_state" where
  "judge_slice mode n t0 after al =
     (let before = al_best al; c = compareTuple (al_eng al) (Some after) (Some before);
          (reason, al1) =
            (if c < 0 then (Improved, case getSnapshotTKB None (al_eng al) of (t, st) \<Rightarrow> al\<lparr>al_best := after, al_tkb := t, al_eng := st\<rparr>)
             else if c > 0 then (RolledBack, al\<lparr>al_eng := loadExistingSchedule (put_tkb (al_tkb al) (al_eng al))\<rparr>)
             else (NoGain, al));
          (t1, st1) = eng_now (al_eng al1)
      in (reason, al1\<lparr>al_eng := st1, al_stages := al_stages al1 @ [\<lparr>sg_mode = mode, sg_cycle = Some n, sg_ms = t1 - t0,
            sg_before = Some before, sg_after = al_best al1, sg_exit = reason\<rparr>]\<rparr>))"

definition run_slice :: "opt_env \<Rightarrow> opt_mode \<Rightarrow> nat \<Rightarrow> rat \<Rightarrow> all_state \<Rightarrow> exit_reason \<times> all_state" where
  "run_slice env mode n ms al =
     (let (t, st1) = eng_now (al_eng al); (t0, st2) = eng_now st1;
          (res, st3) = optimize env (read_params (e_opts st2)) True (deadline_of (t + ms)) mode st2
      in judge_slice mode n t0 (ot_metrics res) (al\<lparr>al_eng := st3\<rparr>))"

text \<open>At most three slices; the argument lists their numbers.\<close>

fun slices :: "opt_env \<Rightarrow> phase \<Rightarrow> rat \<Rightarrow> rat \<Rightarrow> nat list \<Rightarrow> all_state \<Rightarrow> all_state" where
  "slices env ph deadline ms [] al = al"
| "slices env ph deadline ms (n # ns) al =
     (case eng_stop env (al_eng al) of (stop, st1) \<Rightarrow>
        if stop \<or> at_zero ph (al_best al) then al\<lparr>al_eng := st1\<rparr>
        else case eng_now st1 of (t, st2) \<Rightarrow>
          let left = min (deadline - t) (of_int \<lfloor>ms / (if n = 0 then 1 else 2)\<rfloor>)
          in if left < 4000 then al\<lparr>al_eng := st2\<rparr>
             else case run_slice env (ph_mode ph) n left (al\<lparr>al_eng := st2\<rparr>) of (reason, al1) \<Rightarrow>
               if reason = Improved then slices env ph deadline ms ns al1 else al1)"

definition lock_stage :: "phase \<Rightarrow> all_state \<Rightarrow> all_state" where
  "lock_stage ph al = (case ph_lock ph of None \<Rightarrow> al
     | Some k \<Rightarrow> al\<lparr>al_eng := set_lock k (lock_val k (al_best al)) (al_eng al),
         al_stages := al_stages al @ [\<lparr>sg_mode = ph_mode ph, sg_cycle = None, sg_ms = 0, sg_before = None, sg_after = al_best al,
           sg_exit = Locked k (lock_val k (al_best al))\<rparr>]\<rparr>)"

definition zero_stage :: "phase \<Rightarrow> all_state \<Rightarrow> all_state" where
  "zero_stage ph al = (case ph_lock ph of None \<Rightarrow> al
     | Some k \<Rightarrow> al\<lparr>al_eng := set_lock k 0 (al_eng al),
         al_stages := al_stages al @ [\<lparr>sg_mode = ph_mode ph, sg_cycle = None, sg_ms = 0, sg_before = Some (al_best al),
           sg_after = al_best al, sg_exit = AlreadyZero\<rparr>]\<rparr>)"

fun run_phases :: "opt_env \<Rightarrow> rat \<Rightarrow> rat \<Rightarrow> phase list \<Rightarrow> all_state \<Rightarrow> all_state" where
  "run_phases env whole deadline [] al = al"
| "run_phases env whole deadline (ph # phs) al =
     (case eng_stop env (al_eng al) of (stop, st1) \<Rightarrow> if stop then al\<lparr>al_eng := st1\<rparr>
      else case eng_now st1 of (t, st2) \<Rightarrow>
        let left = deadline - t; al1 = al\<lparr>al_eng := st2\<rparr>;
            ms = (if ph_mode ph = Gap1 then left else max 10000 (min left (of_int \<lfloor>whole * ph_share ph\<rfloor>)))
        in if left < 5000 then al1
           else run_phases env whole deadline phs
             (if at_zero ph (al_best al) then zero_stage ph al1 else lock_stage ph (slices env ph deadline ms [0, 1, 2] al1)))"

record all_result =
  ar_placed :: nat
  ar_unassigned :: nat
  ar_initial :: metrics
  ar_metrics :: metrics
  ar_stages :: "stage list"
  ar_elapsed :: rat
  ar_singletons :: "residual list"
  ar_gap2 :: "(ustr \<times> ustr \<times> ustr \<times> ustr) list"

definition begin_all :: "eng \<Rightarrow> metrics \<times> all_state" where
  "begin_all st =
     (let st1 = snd (repairHardConflicts (loadExistingSchedule st)); initial = evaluateMetrics st1;
          (t, st2) = getSnapshotTKB None st1
      in (initial, \<lparr>al_eng = st2\<lparr>e_lockS1 := None, e_lockGap2 := None\<rparr>, al_best = initial, al_tkb = t, al_stages = []\<rparr>))"

definition total_budget :: "js \<Rightarrow> rat" where
  "total_budget opts = max 20000 (num_or 150000 (jprop opts ''optimizeAllBudgetMs''))"

text \<open>The state after the last phase, before the best timetable is loaded for good.\<close>

definition all_phases :: "opt_env \<Rightarrow> eng \<Rightarrow> rat \<times> metrics \<times> all_state" where
  "all_phases env st =
     (let whole = total_budget (e_opts st); (t, st1) = eng_now st; (initial, al) = begin_all st1
      in (t, initial, run_phases env whole (t + whole) phases al))"

definition optimizeAll :: "opt_env \<Rightarrow> eng \<Rightarrow> all_result \<times> eng" where
  "optimizeAll env st =
     (let (t, initial, al) = all_phases env st;
          st1 = (loadExistingSchedule (put_tkb (al_tkb al) (al_eng al)))\<lparr>e_lockS1 := None, e_lockGap2 := None\<rparr>;
          (t1, st2) = eng_now st1
      in (\<lparr>ar_placed = placed_periods st2 + length (e_fixed st2), ar_unassigned = 0, ar_initial = initial, ar_metrics = al_best al,
            ar_stages = al_stages al, ar_elapsed = t1 - t, ar_singletons = getResidualSingletons st2,
            ar_gap2 = getResidualGap2Sessions st2\<rparr>, st2))"

subsection \<open>Borrowing single-period sessions\<close>

definition set_budget :: "rat \<Rightarrow> rat \<Rightarrow> rat \<Rightarrow> eng \<Rightarrow> rat \<times> eng" where
  "set_budget cap t0 share st =
     (case eng_now st of (t, st1) \<Rightarrow> (min (max 20000 (of_int \<lfloor>cap * share\<rfloor>)) (max 20000 (cap - (t - t0))), st1))"

text \<open>The new engine of a phase shares the data; its clock goes on where the parent's stands.\<close>

definition child_engine :: "int \<Rightarrow> eng \<Rightarrow> eng" where
  "child_engine seed st = new_engine (e_data st) (jput (u ''seed'') (JNum seed) (e_opts st)) (\<lambda>n. e_clock st (e_ticks st + n))"

definition child_stop :: "eng \<Rightarrow> opt_env \<Rightarrow> opt_env" where
  "child_stop st env = env\<lparr>oe_stop := (\<lambda>n. oe_stop env (e_ticks st + n))\<rparr>"

definition run_phase :: "opt_env \<Rightarrow> rat \<Rightarrow> rat \<Rightarrow> int \<Rightarrow> opt_mode \<Rightarrow> rat \<Rightarrow> (opt_params \<Rightarrow> opt_params) \<Rightarrow> nat \<Rightarrow> eng \<Rightarrow> opt_result \<times> eng" where
  "run_phase env cap t0 seed mode share extra idx st =
     (let (ms, st1) = set_budget cap t0 share st;
          par = extra ((read_params (e_opts st1))\<lparr>om_hardCapMs := ms, om_restartMs := max 15000 (ms - 10000)\<rparr>);
          (res, child) = optimize (child_stop st1 env) par False None mode (child_engine (seed + int idx * 104729) st1)
      in (res, st1\<lparr>e_data := e_data child, e_ticks := e_ticks st1 + e_ticks child\<rparr>))"

definition better_for_button :: "metrics \<Rightarrow> metrics \<Rightarrow> int" where
  "better_for_button x y = compare_on [mt_gap2, mt_day1, mt_sessions, mt_gap1, mt_days] x y"

record borrow_state =
  bw_eng :: eng
  bw_res :: opt_result
  bw_best :: metrics
  bw_tkb :: js
  bw_borrowed :: bool

definition grab_tkb :: "eng \<Rightarrow> js" where
  "grab_tkb st = json_clone (jprop (e_data st) ''tkb'')"

definition no_slack :: "opt_params \<Rightarrow> opt_params" where
  "no_slack par = par\<lparr>om_slack := 0\<rparr>"

text \<open>Borrow, pay back, sweep; keep the result when it is better and owes nothing.\<close>

definition borrow_round :: "opt_env \<Rightarrow> rat \<Rightarrow> rat \<Rightarrow> int \<Rightarrow> nat \<Rightarrow> nat \<Rightarrow> borrow_state \<Rightarrow> borrow_state" where
  "borrow_round env cap t0 seed s1 k bw =
     (let slack = k mod 2 + 1; idx = 2 + k * 3; st = put_tkb (bw_tkb bw) (bw_eng bw);
          (resB, st1) = run_phase env cap t0 seed Gap2 (3 / 25) (\<lambda>p. (no_slack p)\<lparr>om_s1Ceil := Some (of_nat (s1 + slack))\<rparr>) idx st;
          (resC, st2) = run_phase env cap t0 seed Singletons (2 / 25)
             (\<lambda>p. (no_slack p)\<lparr>om_gap2Lock := Some (of_nat (mt_gap2 (ot_metrics resB)))\<rparr>) (idx + 1) st1;
          (resD, st3) = run_phase env cap t0 seed Gap2 (3 / 50) no_slack (idx + 2) st2;
          fin = ot_metrics resD
      in if mt_day1 fin \<le> s1 \<and> better_for_button fin (bw_best bw) < 0
         then \<lparr>bw_eng = st3, bw_res = resD, bw_best = fin, bw_tkb = grab_tkb st3, bw_borrowed = True\<rparr>
         else bw\<lparr>bw_eng := st3\<rparr>)"

fun borrow_rounds :: "opt_env \<Rightarrow> rat \<Rightarrow> rat \<Rightarrow> int \<Rightarrow> nat \<Rightarrow> nat list \<Rightarrow> borrow_state \<Rightarrow> borrow_state" where
  "borrow_rounds env cap t0 seed s1 [] bw = bw"
| "borrow_rounds env cap t0 seed s1 (k # ks) bw =
     (if mt_gap2 (bw_best bw) = 0 then bw
      else case eng_now (bw_eng bw) of (t, st1) \<Rightarrow>
        if t - t0 > cap - 62000 then bw\<lparr>bw_eng := st1\<rparr>
        else borrow_rounds env cap t0 seed s1 ks (borrow_round env cap t0 seed s1 k (bw\<lparr>bw_eng := st1\<rparr>)))"

record borrow_result =
  bo_res :: opt_result
  bo_initial :: metrics
  bo_metrics :: metrics
  bo_borrowed :: bool

definition seed_base :: "eng \<Rightarrow> int \<times> eng" where
  "seed_base st = (case js_number (jprop (e_opts st) ''seed'') of
     Some q \<Rightarrow> (if q = 0 then date_now st else (\<lfloor>q\<rfloor>, st)) | None \<Rightarrow> date_now st)"

definition optimizeGap2WithBorrow :: "opt_env \<Rightarrow> eng \<Rightarrow> borrow_result \<times> eng" where
  "optimizeGap2WithBorrow env st =
     (let cap = num_or 240000 (jprop (e_opts st) ''optimizeHardCapMs''); (t0, st1) = eng_now st; (seed, st2) = seed_base st1;
          (resA, st3) = run_phase env cap t0 seed Gap2 (2 / 5) no_slack 1 st2; m = ot_metrics resA; initial = ot_initial resA;
          (late, st4) = (if mt_gap2 m = 0 then (True, st3) else case eng_now st3 of (t, s) \<Rightarrow> (t - t0 > cap * (9 / 10), s))
      in if late then (\<lparr>bo_res = resA, bo_initial = initial, bo_metrics = m, bo_borrowed = False\<rparr>, loadExistingSchedule st4)
         else let bw = borrow_rounds env cap t0 seed (mt_day1 initial) [0..<6]
                    \<lparr>bw_eng = st4, bw_res = resA, bw_best = m, bw_tkb = grab_tkb st4, bw_borrowed = False\<rparr>
              in (\<lparr>bo_res = bw_res bw, bo_initial = initial, bo_metrics = bw_best bw, bo_borrowed = bw_borrowed bw\<rparr>,
                  loadExistingSchedule (put_tkb (bw_tkb bw) (bw_eng bw))))"

end
