(* ===== verification/FeFrameOk.thy ===== *)
theory FeFrameOk
  imports FeEscape FeRepairOk FeLoadOk
begin

section \<open>FET engine: what no operator touches\<close>

text \<open>
  Whatever state it starts from, sound or not, a move, a repair or an operator changes neither the
  reading of the data nor the fields that steer the optimiser, keeps one entry of the placement for
  each activity and one row of the class grid for each class.
\<close>

definition steering :: "eng \<Rightarrow> js \<times> (nat \<Rightarrow> int) \<times> int option \<times> rat option \<times> rat option" where
  "steering st = (e_opts st, e_clock st, e_deadline st, e_lockS1 st, e_lockGap2 st)"

definition frozen where
  "frozen st = (sig st, steering st, e_permanent st)"

definition framed where
  "framed F n st \<longleftrightarrow> frozen st = F \<and> length (e_place st) = n \<and> distinct (map fst (e_cgrid st))"

named_theorems frames \<open>operations that keep the frame\<close>

lemma framed_ctrl [simp]:
  "framed F n (st\<lparr>e_tabu := x1\<rparr>) = framed F n st" "framed F n (st\<lparr>e_step := x2\<rparr>) = framed F n st"
  "framed F n (st\<lparr>e_calls := x3\<rparr>) = framed F n st" "framed F n (st\<lparr>e_limit := x4\<rparr>) = framed F n st"
  "framed F n (st\<lparr>e_journal := x5\<rparr>) = framed F n st" "framed F n (st\<lparr>e_branch := x6\<rparr>) = framed F n st"
  "framed F n (st\<lparr>e_rng := x7\<rparr>) = framed F n st" "framed F n (st\<lparr>e_ticks := x8\<rparr>) = framed F n st"
  "framed F n (st\<lparr>e_hit := x9\<rparr>) = framed F n st" "framed F n (st\<lparr>e_rejections := x10\<rparr>) = framed F n st"
  "framed F n (st\<lparr>e_strict := x11\<rparr>) = framed F n st" "framed F n (st\<lparr>e_mintwo := x12\<rparr>) = framed F n st"
  "framed F n (st\<lparr>e_tgrid := x13\<rparr>) = framed F n st" "framed F n (st\<lparr>e_rgrid := x14\<rparr>) = framed F n st"
  by (simp_all add: framed_def frozen_def sig_def steering_def)

lemma framed_place [simp]: "length p = length (e_place st) \<Longrightarrow> framed F n (st\<lparr>e_place := p\<rparr>) = framed F n st"
  by (simp add: framed_def frozen_def sig_def steering_def)

lemma framed_cgrid: "framed F n st \<Longrightarrow> distinct (map fst g) \<Longrightarrow> framed F n (st\<lparr>e_cgrid := g\<rparr>)"
  by (simp add: framed_def frozen_def sig_def steering_def)

lemma framedD: "framed F n st \<Longrightarrow> frozen st = F" "framed F n st \<Longrightarrow> length (e_place st) = n"
  "framed F n st \<Longrightarrow> distinct (map fst (e_cgrid st))"
  by (simp_all add: framed_def)

lemma framed_fold: "framed F n st \<Longrightarrow> (\<And>x st. framed F n st \<Longrightarrow> framed F n (f x st)) \<Longrightarrow> framed F n (fold f xs st)"
  by (induction xs arbitrary: st) simp_all

lemma distinct_set_rows [simp]: "distinct (map fst m) \<Longrightarrow> distinct (map fst (set_cell_at k s v m))"
  by (auto simp: set_cell_at_def distinct_update split: option.splits)

subsection \<open>Moves\<close>

lemma unplace_cell_frame: "framed F n st \<Longrightarrow> framed F n (unplace_cell i a s st)"
  unfolding unplace_cell_def Let_def by (simp add: framed_cgrid framedD(3))

lemma unplace_frame [frames]: "framed F n st \<Longrightarrow> framed F n (unplaceActivity i st)"
  by (auto simp: unplaceActivity_def Let_def intro!: framed_fold unplace_cell_frame split: option.splits)

lemma place_cell_frame: "framed F n st \<Longrightarrow> framed F n (place_cell i a s st)"
  unfolding place_cell_def by (simp add: framed_cgrid framedD(3))

lemma place_frame [frames]: "framed F n st \<Longrightarrow> framed F n (placeActivityDirect i s st)"
proof -
  assume f: "framed F n st"
  have g: "framed F n (fold (place_cell i a) ss st1)" if "framed F n st1" for a ss st1
    by (rule framed_fold [OF that]) (rule place_cell_frame)
  show ?thesis
    unfolding placeActivityDirect_def Let_def using f by (auto intro!: g unplace_frame split: option.splits)
qed

lemma jrnUnplace_frame [frames]: "framed F n st \<Longrightarrow> framed F n (jrnUnplace i st)"
  by (auto simp: jrnUnplace_def intro: unplace_frame split: option.splits)

lemma jrnPlace_frame [frames]: "framed F n st \<Longrightarrow> framed F n (jrnPlace i s st)"
  by (auto simp: jrnPlace_def Let_def intro!: place_frame jrnUnplace_frame)

lemma undo_frame: "framed F n st \<Longrightarrow> framed F n (undo_op j st)"
  by (cases j) (simp_all add: unplace_frame place_frame)

lemma rollback_frame [frames]: "framed F n st \<Longrightarrow> framed F n (jrnRollback k st)"
  unfolding jrnRollback_def Let_def by (intro framed_fold undo_frame) simp

lemma displace_frame: "framed F n st \<Longrightarrow> framed F n (fold displace cs st)"
  by (rule framed_fold) (simp_all add: displace_def Let_def jrnUnplace_frame)

lemma mark_frame: "framed F n (mark_tabu i old st) = framed F n st"
  by (simp add: mark_tabu_def split: option.splits)

lemma release_frame: "framed F n (release cs st) = framed F n st"
  by (simp add: release_def)

text \<open>A step that takes an argument and answers yes or no.\<close>

definition frame_step where
  "frame_step F n f \<longleftrightarrow> (\<forall>c st. framed F n st \<longrightarrow> framed F n (snd (f c st :: bool \<times> eng)))"

lemma frame_stepD: "frame_step F n f \<Longrightarrow> framed F n st \<Longrightarrow> f c st = (ok, st') \<Longrightarrow> framed F n st'"
  by (metis frame_step_def snd_conv)

lemma place_displaced_frame: "frame_step F n swap \<Longrightarrow> framed F n st \<Longrightarrow> framed F n (snd (place_displaced swap cs st))"
  by (induction cs arbitrary: st) (auto split: prod.split dest: frame_stepD)

lemma try_candidates_frame:
  assumes "frame_step F n swap"
  shows "framed F n st \<Longrightarrow> framed F n (snd (try_candidates swap i level cs st))"
proof (induction cs arbitrary: st)
  case (Cons c cs)
  let ?st1 = "fold displace (cd_conf c) st"
  let ?st2 = "mark_tabu i (e_place ?st1 ! i) (jrnPlace i (cd_slot c) ?st1)"
  obtain ok st3 where pd: "place_displaced swap (cd_conf c) ?st2 = (ok, st3)" by fastforce
  have "framed F n ?st2" using Cons.prems by (simp add: mark_frame jrnPlace_frame displace_frame)
  from place_displaced_frame [OF assms this, where cs = "cd_conf c"] have f3: "framed F n st3" using pd by simp
  have "framed F n (release (cd_conf c) (jrnRollback (length (e_journal st)) st3))"
    using rollback_frame [OF f3] by (simp add: release_frame)
  then show ?case using Cons f3 by (simp add: Let_def pd release_frame)
qed simp

lemma deadline_frame: "framed F n st \<Longrightarrow> framed F n (snd (deadline_passed st))"
  by (simp add: deadline_passed_def Let_def split: option.splits)

lemma swap_step_frame:
  assumes rec: "frame_step F n (randomSwap (Suc level) None)" and f: "framed F n st"
  shows "framed F n (snd (randomSwap level restrict i st))"
proof -
  obtain late st0 where d: "deadline_passed st = (late, st0)" by fastforce
  have f0: "framed F n st0" using deadline_frame [OF f] d by simp
  have c: "framed F n (snd (try_candidates (randomSwap (Suc level) None) i level cs s))" if "framed F n s" for cs s
    by (rule try_candidates_frame [OF rec that])
  show ?thesis
    using c [of _ _] by (subst randomSwap.simps) (auto simp: d f f0 Let_def jrnPlace_frame split: prod.split)
qed

lemma randomSwap_frame [frames]: "framed F n st \<Longrightarrow> framed F n (snd (randomSwap level restrict i st))"
proof (induction "max_recursion_level - level" arbitrary: level restrict i st)
  case 0
  then show ?case by (subst randomSwap.simps) simp
next
  case (Suc k)
  have "frame_step F n (randomSwap (Suc level) None)" unfolding frame_step_def using Suc.hyps by simp
  then show ?case by (rule swap_step_frame [OF _ Suc.prems])
qed

lemma fresh_swap_frame [frames]: "framed F n st \<Longrightarrow> framed F n (snd (fresh_swap restrict i st))"
  by (simp add: fresh_swap_def randomSwap_frame)

lemma try_slots_frame:
  "(\<And>s st. framed F n st \<Longrightarrow> framed F n (snd (f s st))) \<Longrightarrow> framed F n st \<Longrightarrow> framed F n (snd (try_slots f ss st))"
proof (induction ss arbitrary: st)
  case (Cons s ss)
  obtain ok st1 where r: "f s st = (ok, st1)" by fastforce
  then have "framed F n st1" using Cons.prems by (metis snd_conv)
  then show ?case using Cons by (simp add: r)
qed simp

lemma put_back_frame: "framed F n st \<Longrightarrow> framed F n (put_back b old st)"
  by (simp add: put_back_def place_frame split: option.splits)

lemma place_free_frame: "framed F n st \<Longrightarrow> framed F n (snd (place_free b old s st))"
  by (simp add: place_free_def place_frame)

lemma eject_one_frame:
  assumes go: "\<And>b old st. framed F n st \<Longrightarrow> framed F n (snd (go b old st))" and f: "framed F n st"
  shows "framed F n (snd (eject_one may go i slot st))"
proof -
  have g: "framed F n (snd (case go b old s of (ok, st2) \<Rightarrow> if ok then (True, st2) else (False, put_back b old (unplaceActivity i st2))))"
    if "framed F n s" for b old s
  proof -
    obtain ok st2 where r: "go b old s = (ok, st2)" by fastforce
    then have "framed F n st2" using go [OF that, of b old] by simp
    then show ?thesis by (simp add: r put_back_frame unplace_frame)
  qed
  show ?thesis
    using f by (simp add: eject_one_def Let_def g place_frame unplace_frame split: option.split list.split)
qed

lemma relocate_frame: "framed F n st \<Longrightarrow> framed F n (snd (relocate b old st))"
  unfolding relocate_def by (rule try_slots_frame) (rule place_free_frame)

lemma relocate_via_frame: "framed F n st \<Longrightarrow> framed F n (snd (relocate_via ok may b old st))"
  unfolding relocate_via_def by (rule try_slots_frame) (simp_all add: eject_one_frame relocate_frame)

lemma else_frame:
  "framed F n (snd r) \<Longrightarrow> (\<And>s. framed F n s \<Longrightarrow> framed F n (snd (k s))) \<Longrightarrow>
     framed F n (snd (case r of (ok, s) \<Rightarrow> if ok then (True, s) else k s))"
  by (cases r) auto

lemma chain_frame [frames]: "framed F n st \<Longrightarrow> framed F n (snd (tryEjectionChain i st))"
proof -
  assume f: "framed F n st"
  have p: "framed F n (snd (place_free i None s st))" if "framed F n st" for s st by (rule place_free_frame [OF that])
  have e: "framed F n (snd (eject_one may go i s st))"
    if "\<And>b old st. framed F n st \<Longrightarrow> framed F n (snd (go b old st))" "framed F n st" for may go s st
    by (rule eject_one_frame [OF that])
  show ?thesis
  proof (cases "i \<ge> length (e_acts st) \<or> e_place st ! i \<noteq> None")
    case False
    obtain order rng where sh: "fet_shuffle [0..<total_slots] (e_rng st) = (order, rng)" by fastforce
    have "framed F n (st\<lparr>e_rng := rng\<rparr>)" using f by simp
    then show ?thesis
      unfolding tryEjectionChain_def if_not_P [OF False] sh prod.case
      by (intro else_frame try_slots_frame p e relocate_frame relocate_via_frame)
  qed (simp add: tryEjectionChain_def f)
qed

subsection \<open>Snapshots, clock and wrapper\<close>

definition snap_framed :: "nat \<Rightarrow> snapshot \<Rightarrow> bool" where
  "snap_framed n sn \<longleftrightarrow> length (sn_place sn) = n \<and> distinct (map fst (sn_c sn))"

lemma capture_frame: "framed F n st \<Longrightarrow> snap_framed n (captureStateSnapshot st)"
  by (simp add: framed_def snap_framed_def captureStateSnapshot_def)

lemma restore_frame: "framed F n st \<Longrightarrow> snap_framed n sn \<Longrightarrow> framed F n (restoreStateSnapshot sn st)"
  by (simp add: framed_def snap_framed_def restoreStateSnapshot_def frozen_def sig_def steering_def)

lemma date_now_frame: "framed F n (snd (date_now st)) = framed F n st"
  by (simp add: date_now_def)

lemma draw_frame: "framed F n (snd (draw_below k st)) = framed F n st"
  by (simp add: draw_below_def split: prod.split)

text \<open>An operator, and an operator that may throw.\<close>

definition op_frame where
  "op_frame F n f \<longleftrightarrow> (\<forall>st. framed F n st \<longrightarrow> framed F n (snd (f st :: 'r \<times> eng)))"

lemma op_frameI: "(\<And>st. framed F n st \<Longrightarrow> framed F n (snd (f st))) \<Longrightarrow> op_frame F n f"
  by (simp add: op_frame_def)

lemma op_frameD: "op_frame F n f \<Longrightarrow> framed F n st \<Longrightarrow> framed F n (snd (f st))"
  by (simp add: op_frame_def)

lemma rejected_frame: "framed F n st \<Longrightarrow> snap_framed n sn \<Longrightarrow> framed F n (rejected sn st)"
  by (simp add: rejected_def Let_def restore_frame)

lemma guarded_frame:
  assumes "op_frame F n impl" and f: "framed F n st"
  shows "framed F n (snd (guarded deadline impl st))"
proof -
  obtain late st0 where l: "(case deadline of None \<Rightarrow> (False, st) | Some d \<Rightarrow> (case date_now st of (t, st1) \<Rightarrow> (t > d, st1))) = (late, st0)"
    by fastforce
  have f0: "framed F n st0" using l f by (auto simp: date_now_def split: option.splits)
  obtain r st1 where i: "impl st0 = (r, st1)" by fastforce
  have f1: "framed F n st1" using op_frameD [OF assms(1) f0] i by simp
  then show ?thesis
    using f0 rejected_frame [OF f1 capture_frame [OF f0]] by (auto simp: guarded_def l i Let_def split: sum.split)
qed

lemma guard_call_frame:
  assumes "op_frame F n impl" "framed F n st"
  shows "framed F n (snd (guard_call deadline impl st))"
proof -
  have "snd (guard_call deadline impl st) = snd (guarded deadline impl st)"
    by (auto simp: guard_call_def split: prod.split option.split)
  then show ?thesis using guarded_frame [OF assms, of deadline] by simp
qed

lemma plain_frame: "op_frame F n f \<Longrightarrow> op_frame F n (\<lambda>s. case f s of (m, s') \<Rightarrow> (Inr m, s'))"
  unfolding op_frame_def by (metis (no_types, lifting) case_prod_beta snd_conv)

lemma guard_op_frame: "op_frame F n f \<Longrightarrow> op_frame F n (guard_op deadline f)"
  by (rule op_frameI) (simp add: guard_op_def guard_call_frame plain_frame)

subsection \<open>Operators\<close>

lemma place_again_frame: "framed F n st \<Longrightarrow> framed F n (snd (place_again is st))"
proof (induction "is" arbitrary: st)
  case (Cons i "is")
  obtain ok st1 where r: "fresh_swap None i st = (ok, st1)" by fastforce
  then have "framed F n st1" using fresh_swap_frame [OF Cons.prems, of None i] by simp
  then show ?case using Cons.IH by (simp add: r)
qed simp

lemma frozen_toff: "frozen st2 = frozen (st0\<lparr>e_toff := X\<rparr>) \<Longrightarrow> frozen (st2\<lparr>e_toff := e_toff st0\<rparr>) = frozen st0"
  by (simp add: frozen_def sig_def steering_def)

lemma vacate_frame: "framed F n st \<Longrightarrow> framed F n (snd (vacate most ok t slots st))"
proof -
  assume f: "framed F n st"
  let ?targets = "lessons_at st t slots"
  define st0 where "st0 = fold unplaceActivity ?targets st"
  have f0: "framed F n st0" unfolding st0_def by (rule framed_fold [OF f]) (rule unplace_frame)
  define st1 where "st1 = (forbid t slots st0)\<lparr>e_limit := 250\<rparr>"
  have "framed (frozen (forbid t slots st0)) n st1"
    using f0 by (simp add: st1_def framed_def forbid_def frozen_def sig_def steering_def)
  note f2 = place_again_frame [OF this, of ?targets]
  obtain ok' st2 where pa: "place_again ?targets st1 = (ok', st2)" by fastforce
  have "frozen st0 = frozen st" using f0 f by (simp add: framed_def)
  then have toff: "e_toff st0 = e_toff st" by (simp add: frozen_def sig_def)
  have "frozen (st2\<lparr>e_toff := e_toff st0\<rparr>) = F"
    using f2 pa frozen_toff [where ?st2.0 = st2 and ?st0.0 = st0] framedD(1) [OF f0] by (simp add: framed_def forbid_def)
  then have f3: "framed F n (st2\<lparr>e_toff := e_toff st\<rparr>)" using f2 pa toff by (simp add: framed_def)
  then show ?thesis
    using f restore_frame [OF f3 capture_frame [OF f]]
    by (simp add: vacate_def Let_def pa flip: st0_def st1_def split: option.split)
qed

lemma vacate_session_frame: "op_frame F n (tryVacateTeacherSession t d b best mode)"
  by (rule op_frameI) (simp add: tryVacateTeacherSession_def vacate_frame)

lemma vacate_day_frame: "op_frame F n (tryVacateTeacherDay t d best initial)"
  by (rule op_frameI) (simp add: tryVacateTeacherDay_def vacate_frame)

lemma ruin_frame: "framed F n (snd r) \<Longrightarrow> framed F n (snd (fold ruin_teacher ts r))"
proof -
  have s: "framed F n (snd (ruin_slot t s r))" if "framed F n (snd r)" for t s r
    using that by (auto simp: ruin_slot_def unplace_frame split: gcell.split)
  have t: "framed F n (snd (ruin_teacher t r))" if "framed F n (snd r)" for t r
    unfolding ruin_teacher_def using that
    by (auto intro: fold_invariant [where P = "\<lambda>r. framed F n (snd r)" and Q = "\<lambda>_. True"] s)
  show "framed F n (snd r) \<Longrightarrow> framed F n (snd (fold ruin_teacher ts r))"
    by (rule fold_invariant [where P = "\<lambda>r. framed F n (snd r)" and Q = "\<lambda>_. True"]) (simp_all add: t)
qed

lemma lns_frame: "op_frame F n (tryLnsRuinAndRecreate ts best mode)"
proof (rule op_frameI)
  fix st
  assume f: "framed F n st"
  obtain ids st1 where r: "fold ruin_teacher ts ([], st) = (ids, st1)" by fastforce
  have f1: "framed F n st1" using ruin_frame [of F n "([], st)" ts] f r by simp
  let ?order = "sort_key (\<lambda>i. free_class_cells st1 (ac_class (e_acts st1 ! i))) ids"
  obtain ok st2 where p: "place_again ?order (st1\<lparr>e_limit := 6000\<rparr>) = (ok, st2)" by fastforce
  have f2: "framed F n st2" using place_again_frame [of F n "st1\<lparr>e_limit := 6000\<rparr>" ?order] f1 p by simp
  show "framed F n (snd (tryLnsRuinAndRecreate ts best mode st))"
    using f1 f2 restore_frame [OF f2 capture_frame [OF f]] by (simp add: tryLnsRuinAndRecreate_def r p Let_def)
qed

text \<open>The loops over candidates.\<close>

lemma first_improving_frame: "(\<And>x. x \<in> set xs \<Longrightarrow> op_frame F n (f x)) \<Longrightarrow> op_frame F n (first_improving f xs)"
proof (induction xs)
  case Nil
  then show ?case by (simp add: op_frame_def)
next
  case (Cons x xs)
  show ?case
  proof (rule op_frameI)
    fix st
    assume f: "framed F n st"
    obtain m st1 where r: "f x st = (m, st1)" by fastforce
    have f1: "framed F n st1" using op_frameD [OF Cons.prems f, of x] r by simp
    have "op_frame F n (first_improving f xs)" using Cons by simp
    from op_frameD [OF this f1] show "framed F n (snd (first_improving f (x # xs) st))"
      using f1 by (cases m) (simp_all add: r)
  qed
qed

text \<open>The inner list may depend on the state it starts from.\<close>

lemma first_improving_frame':
  assumes "\<And>x. op_frame F n (f x)" "framed F n st"
  shows "framed F n (snd (first_improving f xs st))"
  by (rule op_frameD [OF first_improving_frame assms(2)]) (rule assms(1))

lemma place_all_frame: "framed F n st \<Longrightarrow> framed F n (place_all s items st)" "framed F n st \<Longrightarrow> framed F n (unplace_all items st)"
  unfolding place_all_def unplace_all_def by (auto intro!: framed_fold place_frame unplace_frame split: prod.splits)

lemma place_fitting_frame: "framed F n st \<Longrightarrow> framed F n (snd (place_fitting s items st))"
  by (induction s items st rule: place_fitting.induct) (simp_all add: place_frame)

lemma swap_sessions_frame: "framed F n st \<Longrightarrow> framed F n (snd (swap_sessions mode best s1 s2 as1 as2 st))"
proof -
  assume f: "framed F n st"
  obtain ok1 st1 where r1: "place_fitting s2 as1 (unplace_all as2 (unplace_all as1 st)) = (ok1, st1)" by fastforce
  have f1: "framed F n st1"
    using place_fitting_frame [of F n "unplace_all as2 (unplace_all as1 st)" s2 as1] place_all_frame(2) f r1 by simp
  obtain ok2 st2 where r2: "(if ok1 then place_fitting s1 as2 st1 else (False, st1)) = (ok2, st2)" by fastforce
  have f2: "framed F n st2" using place_fitting_frame [OF f1, of s1 as2] f1 r2 by (auto split: if_splits)
  then show ?thesis by (simp add: swap_sessions_def r1 r2 place_all_frame split: option.split)
qed

lemma session_swap_frame: "op_frame F n (tryWholeSessionSwap best mode)"
proof -
  have h: "op_frame F n (swap_half mode best cid bd)" for cid bd
  proof (rule op_frameI)
    fix st
    assume f: "framed F n st"
    have "op_frame F n (\<lambda>s. case session_acts s cid k of None \<Rightarrow> (None, s) | Some as2 \<Rightarrow> swap_sessions mode best i j as1 as2 s)" for i j k as1
      by (rule op_frameI) (simp add: swap_sessions_frame split: option.split)
    then show "framed F n (snd (swap_half mode best cid bd st))"
      using f by (auto simp: swap_half_def Let_def intro!: first_improving_frame' split: prod.split option.split)
  qed
  show ?thesis
    by (rule op_frameI) (auto simp: tryWholeSessionSwap_def intro!: first_improving_frame' first_improving_frame h split: prod.split)
qed

lemma eject_single_frame: "framed F n (snd (snd acc)) \<Longrightarrow> framed F n (snd (snd (eject_single mode a acc)))"
proof -
  obtain best any st where acc: "acc = (best, any, st)" by (cases acc)
  assume "framed F n (snd (snd acc))"
  then have f: "framed F n st" by (simp add: acc)
  obtain ok st1 where r: "fresh_swap None (ac_id a) ((unplaceActivity (ac_id a) st)\<lparr>e_limit := 12000\<rparr>) = (ok, st1)" by fastforce
  have f1: "framed F n st1"
    using fresh_swap_frame [of F n "(unplaceActivity (ac_id a) st)\<lparr>e_limit := 12000\<rparr>" None "ac_id a"] unplace_frame [OF f] r by simp
  have f2: "framed F n (st1\<lparr>e_limit := e_limit st\<rparr>)" using f1 by simp
  show ?thesis
    using f1 restore_frame [OF f2 capture_frame [OF f]] by (simp add: eject_single_def acc r Let_def split: option.split)
qed

lemma single_chain_frame: "op_frame F n (trySingletonEjectionChain ts best mode)"
proof (rule op_frameI)
  fix st
  assume f: "framed F n st"
  let ?P = "\<lambda>acc :: search_acc. framed F n (snd (snd acc))"
  have i: "?P (fold (eject_single mode) as acc)" if "?P acc" for as acc
    by (rule fold_invariant [where P = ?P and Q = "\<lambda>_. True"]) (simp_all add: that eject_single_frame)
  have "?P (fold (\<lambda>t acc. fold (eject_single mode) (single_lessons (snd (snd acc)) t) acc) ts (best, False, st))"
    by (rule fold_invariant [where P = ?P and Q = "\<lambda>_. True"]) (simp_all add: f i)
  then show "framed F n (snd (trySingletonEjectionChain ts best mode st))"
    unfolding trySingletonEjectionChain_def by (simp add: split_beta)
qed

lemma cluster_frame: "op_frame F n (tryRelatedClusterRuin deadline ts best mode)"
  by (rule op_frameI) (auto simp: tryRelatedClusterRuin_def intro!: op_frameD [OF guard_op_frame [OF lns_frame]] split: prod.split)

lemma rotate_frame: "framed F n st \<Longrightarrow> framed F n (snd (rotate_four mode best items st))"
proof -
  assume f: "framed F n st"
  have p: "framed F n (fold (\<lambda>(a, s). placeActivityDirect (ac_id a) s) xs s)" if "framed F n s" for xs s
    by (rule framed_fold [OF that]) (auto simp: place_frame split: prod.split)
  have q: "framed F n (fold (\<lambda>a. unplaceActivity (ac_id a)) xs s)" if "framed F n s" for xs s
    by (rule framed_fold [OF that]) (rule unplace_frame)
  show ?thesis using f by (simp add: rotate_four_def Let_def p q split: option.split)
qed

lemma fourth_frame: "framed F n st \<Longrightarrow> framed F n (snd (fourth_lesson mode best items ss k st))"
proof (induction ss arbitrary: k st)
  case (Cons s ss)
  show ?case
  proof (cases "cycle_cand st (snd (last items)) (map fst items) s")
    case (Some x)
    obtain s4 a4 where x: "x = (s4, a4)" by (cases x)
    obtain m st1 where r: "rotate_four mode best (items @ [(s4, a4)]) st = (m, st1)" by fastforce
    have "framed F n st1" using rotate_frame [OF Cons.prems, of mode best "items @ [(s4, a4)]"] r by simp
    then show ?thesis using Cons by (simp add: Some x r split: option.split)
  qed (simp add: Cons)
qed simp

lemma deep_chain_frame: "op_frame F n (tryDeepEjectionChain ts best mode)"
proof -
  have c: "op_frame F n (cycles_from mode best i1)" for i1
    unfolding cycles_from_def
    by (intro op_frameI first_improving_frame' fourth_frame)
  show ?thesis
    unfolding tryDeepEjectionChain_def by (intro first_improving_frame op_frameI first_improving_frame' c)
qed

lemma judge_frame:
  "framed F n st \<Longrightarrow> (\<And>s. framed F n s \<Longrightarrow> framed F n (undo s)) \<Longrightarrow> framed F n (snd (judge_move mode best acts undo st))"
  by (simp add: judge_move_def Let_def)

lemma walk_frame: "framed F n st \<Longrightarrow> framed F n (snd (walk_step mode best st))"
proof -
  have to: "framed F n (snd (walk_to mode best a s1 s2 st))" if "framed F n st" for a s1 s2 st
    using that by (simp add: walk_to_def Let_def judge_frame place_frame unplace_frame)
  have sw: "framed F n (snd (walk_swap mode best a b s1 s2 st))" if "framed F n st" for a b s1 s2 st
    using that by (simp add: walk_swap_def Let_def judge_frame place_frame unplace_frame)
  have d: "framed F n st1" if "draw_below k st = (x, st1)" "framed F n st" for k x st st1
    using draw_frame [of F n k st] that by simp
  show "framed F n st \<Longrightarrow> framed F n (snd (walk_step mode best st))"
    by (auto simp: walk_step_def Let_def to sw dest: d split: prod.split option.split gcell.split)
qed

lemma plateau_frame: "framed F n st \<Longrightarrow> framed F n (snd (plateau_walk k mode best st))"
proof (induction k arbitrary: st)
  case (Suc k)
  obtain w st1 where r: "walk_step mode best st = (w, st1)" by fastforce
  then have "framed F n st1" using walk_frame [OF Suc.prems, of mode best] by simp
  then show ?case using Suc.IH by (cases w) (simp_all add: r)
qed simp

lemma neutral_frame: "op_frame F n (tryNeutralPlateauWalk k best mode)"
proof (rule op_frameI)
  fix st
  assume f: "framed F n st"
  obtain m st1 where r: "plateau_walk k mode best st = (m, st1)" by fastforce
  then have f1: "framed F n st1" using plateau_frame [OF f, of k mode best] by simp
  show "framed F n (snd (tryNeutralPlateauWalk k best mode st))"
    using f1 restore_frame [OF f1 capture_frame [OF f]] by (simp add: tryNeutralPlateauWalk_def r split: option.split)
qed

lemma shake_frame: "framed F n st \<Longrightarrow> framed F n (shake_once ids st)"
proof -
  assume f: "framed F n st"
  obtain k rng where r: "nextInt (length ids) (e_rng st) = (k, rng)" by fastforce
  let ?st1 = "st\<lparr>e_rng := rng\<rparr>"
  obtain ok st2 where s: "fresh_swap None (ids ! k) (unplaceActivity (ids ! k) ?st1) = (ok, st2)" by fastforce
  have "framed F n st2" using fresh_swap_frame [of F n "unplaceActivity (ids ! k) ?st1" None "ids ! k"] unplace_frame [of F n ?st1] f s by simp
  then show ?thesis using f by (simp add: shake_once_def r s place_frame Let_def split: option.split)
qed

lemma perturb_frame: "framed F n st \<Longrightarrow> framed F n (perturbForRestart k st)"
proof -
  assume f: "framed F n st"
  have p: "framed F n ((shake_once ids ^^ j) s)" if "framed F n s" for ids j s
    using that by (induction j) (simp_all add: shake_frame)
  have r: "framed F n (restoreStateSnapshot (captureStateSnapshot st) s)" if "framed F n s" for s
    by (rule restore_frame [OF that capture_frame [OF f]])
  show ?thesis using f by (simp add: perturbForRestart_def Let_def p r)
qed

end
