(* ===== verification/FeOptimizeOk.thy ===== *)
theory FeOptimizeOk
  imports FeOptimize FeFrameOk FeMeasureOk
begin

section \<open>FET engine: the optimiser never makes things worse\<close>

text \<open>
  Through all rounds, escapes and restarts, and whatever the operators do, the search keeps the frame
  it started with, snapshots that fit it, and a global best that is the start or strictly better. So the
  final defence always has an intact state to fall back to.
\<close>

subsection \<open>What the comparisons depend on\<close>

lemma frozenD:
  assumes "frozen st = frozen st'"
  shows "sig st = sig st'" "e_permanent st = e_permanent st'" "e_acts st = e_acts st'" "e_holes st = e_holes st'" "e_scored st = e_scored st'"
    "e_lockS1 st = e_lockS1 st'" "e_lockGap2 st = e_lockGap2 st'" "e_opts st = e_opts st'" "e_fixed st = e_fixed st'" "e_off st = e_off st'"
    "e_toff st = e_toff st'"
  using assms by (simp_all add: frozen_def sig_def steering_def)

lemma compare_cong:
  assumes "frozen st = frozen st'"
  shows "compareMetrics st = compareMetrics st'"
  by (intro ext) (simp only: compareMetrics_def compare_mode_def lockViolations_def frozenD(6,7) [OF assms])

lemma evaluate_cong: "e_tgrid st = e_tgrid st' \<Longrightarrow> e_scored st = e_scored st' \<Longrightarrow> evaluateMetrics st = evaluateMetrics st'"
  unfolding evaluateMetrics_def add_teacher_def add_day_def half_taught_def isScoredTeacher_def by simp

lemma holes_cong: "e_cgrid st = e_cgrid st' \<Longrightarrow> countStudentHoles st = countStudentHoles st'"
  unfolding countStudentHoles_def class_holes_def by simp

lemma first_diff_refl: "first_diff (map (\<lambda>f. (int (f a), int (f a))) fs) = 0"
  by (induction fs) simp_all

lemma compare_refl: "compareMetrics st mode (Some a) (Some a) = 0"
  using first_diff_refl [of a] by (cases mode) (auto simp: compareMetrics_def compare_mode_def guard_first_def compare_on_def)

subsection \<open>The invariant of the search\<close>

definition fitting :: "eng \<Rightarrow> snapshot \<Rightarrow> bool" where
  "fitting S sn \<longleftrightarrow> snap_framed (length (e_place S)) sn"

definition like :: "eng \<Rightarrow> eng \<Rightarrow> bool" where
  "like S st \<longleftrightarrow> framed (frozen S) (length (e_place S)) st"

text \<open>The last clause: what is kept holds at least as many placed periods as the start.\<close>

definition full :: "eng \<Rightarrow> snapshot \<Rightarrow> bool" where
  "full S sn \<longleftrightarrow> placed_periods S \<le> placed_periods (restoreStateSnapshot sn S)"

definition searching :: "eng \<Rightarrow> opt_mode \<Rightarrow> metrics \<Rightarrow> search \<Rightarrow> bool" where
  "searching S mode m0 sh \<longleftrightarrow> like S (sh_eng sh) \<and> fitting S (sh_glob sh) \<and> sh_elite sh \<noteq> [] \<and> (\<forall>x \<in> set (sh_elite sh). fitting S (snd x))
     \<and> sh_initial sh = m0 \<and> (sh_globM sh = m0 \<or> compareMetrics S mode (Some (sh_globM sh)) (Some m0) < 0)
     \<and> sh_placed sh = placed_periods S \<and> full S (sh_glob sh)"

lemma searchingD:
  assumes "searching S mode m0 sh"
  shows "like S (sh_eng sh)" "fitting S (sh_glob sh)" "\<And>x. x \<in> set (sh_elite sh) \<Longrightarrow> fitting S (snd x)" "sh_initial sh = m0"
    "sh_globM sh = m0 \<or> compareMetrics S mode (Some (sh_globM sh)) (Some m0) < 0" "sh_placed sh = placed_periods S" "full S (sh_glob sh)"
  using assms by (auto simp: searching_def)

lemma placed_restore: "e_acts st = e_acts S \<Longrightarrow> placed_periods (restoreStateSnapshot sn st) = placed_periods (restoreStateSnapshot sn S)"
  by (simp add: placed_periods_def restoreStateSnapshot_def)

lemma like_full: "like S st \<Longrightarrow> full S (captureStateSnapshot st) \<longleftrightarrow> placed_periods S \<le> placed_periods st"
  unfolding like_def
  by (drule framedD(1), drule frozenD(3)) (simp add: full_def placed_periods_def restoreStateSnapshot_def captureStateSnapshot_def)

lemma searching_ctrl [simp]:
  "searching S mode m0 (sh\<lparr>sh_bestM := x1\<rparr>) = searching S mode m0 sh" "searching S mode m0 (sh\<lparr>sh_opDeadline := x2\<rparr>) = searching S mode m0 sh"
  "searching S mode m0 (sh\<lparr>sh_stale := x3\<rparr>) = searching S mode m0 sh" "searching S mode m0 (sh\<lparr>sh_improved := x4\<rparr>) = searching S mode m0 sh"
  "searching S mode m0 (sh\<lparr>sh_round := x5\<rparr>) = searching S mode m0 sh"
  by (simp_all add: searching_def)

lemma searching_eng: "searching S mode m0 sh \<Longrightarrow> like S st \<Longrightarrow> searching S mode m0 (sh\<lparr>sh_eng := st\<rparr>)"
  by (simp add: searching_def)

lemma like_ctrl [simp]: "like S (st\<lparr>e_rng := x1\<rparr>) = like S st" "like S (st\<lparr>e_ticks := x2\<rparr>) = like S st"
  by (simp_all add: like_def)

lemma like_compare: "like S st \<Longrightarrow> compareMetrics st = compareMetrics S"
  unfolding like_def by (rule compare_cong) (rule framedD(1))

lemma like_capture: "like S st \<Longrightarrow> fitting S (captureStateSnapshot st)"
  unfolding like_def fitting_def by (rule capture_frame)

lemma like_restore: "like S st \<Longrightarrow> fitting S sn \<Longrightarrow> like S (restoreStateSnapshot sn st)"
  unfolding like_def fitting_def by (rule restore_frame)

text \<open>A step of the search, and one with an answer.\<close>

definition calm where
  "calm S mode m0 f \<longleftrightarrow> (\<forall>sh. searching S mode m0 sh \<longrightarrow> searching S mode m0 (f sh))"

lemma calmI: "(\<And>sh. searching S mode m0 sh \<Longrightarrow> searching S mode m0 (f sh)) \<Longrightarrow> calm S mode m0 f"
  by (simp add: calm_def)

lemma calmD: "calm S mode m0 f \<Longrightarrow> searching S mode m0 sh \<Longrightarrow> searching S mode m0 (f sh)"
  by (simp add: calm_def)

lemma now_calm: "calm S mode m0 (\<lambda>sh. snd (search_now sh))"
  by (rule calmI) (auto simp: search_now_def date_now_def searchingD(1) intro: searching_eng)

lemma stop_calm: "calm S mode m0 (\<lambda>sh. snd (stop_asked env sh))"
  by (rule calmI) (auto simp: stop_asked_def searchingD(1) intro: searching_eng)

subsection \<open>Keeping the best state\<close>

lemma elite_calm: "calm S mode m0 (keep_elite md)"
proof (rule calmI)
  fix sh
  assume s: "searching S mode m0 sh"
  then have "fitting S (captureStateSnapshot (sh_eng sh))" using like_capture searchingD(1) by blast
  then show "searching S mode m0 (keep_elite md sh)"
    using s by (auto simp: keep_elite_def searching_def dest: in_set_takeD)
qed

lemma mode_trans: "trans {(a, b). compareMetrics S mode (Some a) (Some b) < 0}"
  using better_trans [of S mode] by (simp add: better_def)

lemma keep_global_ok:
  assumes s: "searching S mode m0 sh" and n: "sh_placed sh \<le> placed_periods (sh_eng sh)"
  shows "searching S mode m0 (keep_global mode sh)"
proof -
  let ?sh1 = "sh\<lparr>sh_globM := sh_bestM sh, sh_glob := captureStateSnapshot (sh_eng sh)\<rparr>"
  have "searching S mode m0 ?sh1" if c: "compareMetrics (sh_eng sh) mode (Some (sh_bestM sh)) (Some (sh_globM sh)) < 0"
  proof -
    have "compareMetrics S mode (Some (sh_bestM sh)) (Some (sh_globM sh)) < 0" using c like_compare [OF searchingD(1) [OF s]] by simp
    then have "compareMetrics S mode (Some (sh_bestM sh)) (Some m0) < 0" using transD [OF mode_trans] searchingD(5) [OF s] by blast
    then show ?thesis using s n like_capture [OF searchingD(1) [OF s]] like_full [OF searchingD(1) [OF s]] by (simp add: searching_def)
  qed
  then show ?thesis
    using s calmD [OF now_calm, of S mode m0 ?sh1] by (auto simp: keep_global_def Let_def split: prod.splits)
qed

lemma keep_elite_same: "sh_placed (keep_elite mode sh) = sh_placed sh" "sh_eng (keep_elite mode sh) = sh_eng sh"
  by (simp_all add: keep_elite_def)

lemma save_calm: "calm S mode m0 (saveBestSnapshot mode)"
  by (rule calmI) (simp add: saveBestSnapshot_def keep_global_ok keep_elite_same calmD [OF elite_calm] split: option.split)

lemma accept_calm: "calm S mode m0 (\<lambda>sh. snd (accept mode m sh))"
  by (rule calmI) (simp add: accept_def calmD [OF save_calm] split: option.split)

subsection \<open>Calls\<close>

text \<open>A call that keeps the frame, whatever the search holds.\<close>

definition tame where
  "tame S f \<longleftrightarrow> (\<forall>sh :: search. op_frame (frozen S) (length (e_place S)) (f sh :: eng \<Rightarrow> (unit + metrics option) \<times> eng))"

lemma outside_tame: "tame S (outside env c)"
  unfolding tame_def
proof (intro allI op_frameI)
  fix sh st
  assume f: "framed (frozen S) (length (e_place S)) st"
  have "framed (frozen S) (length (e_place S)) (absorb st st')" if "shaped st st'" for st'
    using that f by (simp add: framed_def shaped_def absorb_def frozen_def sig_def steering_def)
  then show "framed (frozen S) (length (e_place S)) (snd (outside env c sh st))"
    using f by (simp add: outside_def split: prod.split)
qed

lemma inside_tame: "(\<And>sh F n. op_frame F n (f sh)) \<Longrightarrow> tame S (inside f)"
  unfolding tame_def inside_def by (intro allI plain_frame)

lemma run_call_calm: "tame S f \<Longrightarrow> calm S mode m0 (\<lambda>sh. snd (run_call f sh))"
  unfolding tame_def
  by (rule calmI) (auto simp: run_call_def split_beta like_def searchingD(1) [unfolded like_def] intro!: searching_eng guard_call_frame)

lemma attempt_calm: "tame S f \<Longrightarrow> calm S mode m0 (\<lambda>sh. snd (attempt mode f sh))"
  unfolding attempt_def
  by (rule calmI) (simp add: split_beta calmD [OF accept_calm] calmD [OF run_call_calm])

lemma fold_calm: "(\<And>x. x \<in> set xs \<Longrightarrow> calm S mode m0 (f x)) \<Longrightarrow> calm S mode m0 (fold f xs)"
  by (induction xs) (auto simp: calm_def)

lemma attempts_calm: "(\<And>f. f \<in> set fs \<Longrightarrow> tame S f) \<Longrightarrow> calm S mode m0 (attempts mode fs)"
  unfolding attempts_def by (intro fold_calm attempt_calm)

lemma outside_attempts: "calm S mode m0 (attempts mode (map (outside env) cs))"
  by (rule attempts_calm) (auto intro: outside_tame)

subsection \<open>Passes, escapes, rounds\<close>

lemma vacate_tame: "tame S (vacate_call md t d b)"
  unfolding vacate_call_def by (intro inside_tame vacate_session_frame)

lemma vacate_attempt: "searching S mode m0 sh \<Longrightarrow> attempt mode (vacate_call md t d b) sh = (ok, sh1) \<Longrightarrow> searching S mode m0 sh1"
  using calmD [OF attempt_calm [OF vacate_tame], of S mode m0 sh md t d b] by simp

lemma singles_calm: "calm S Singletons m0 (\<lambda>sh. snd (pass_singletons env sh))"
  by (rule calmI) (simp add: pass_singletons_def Let_def calmD [OF outside_attempts] calmD [OF attempt_calm [OF outside_tame]]
      del: list.map)

lemma vacate_first_calm: "calm S Sessions m0 (vacate_first xs)"
proof (rule calmI)
  show "searching S Sessions m0 sh \<Longrightarrow> searching S Sessions m0 (vacate_first xs sh)" for sh
    by (induction xs sh rule: vacate_first.induct) (auto split: prod.split dest: vacate_attempt)
qed

lemma sessions_calm: "calm S Sessions m0 (pass_sessions env)"
  by (rule calmI)
    (auto simp: pass_sessions_def Let_def simp del: list.map split: prod.split intro!: calmD [OF outside_attempts] calmD [OF vacate_first_calm] searching_eng
      searchingD(1) calmD [OF attempt_calm [OF outside_tame]])

lemma halves_calm: "calm S Gap2 m0 (vacate_halves t d bs)"
proof (rule calmI)
  show "searching S Gap2 m0 sh \<Longrightarrow> searching S Gap2 m0 (vacate_halves t d bs sh)" for sh
    by (induction t d bs sh rule: vacate_halves.induct) (auto split: prod.split dest: vacate_attempt)
qed

lemma until_calm: "(\<And>x. calm S mode m0 (f x)) \<Longrightarrow> calm S mode m0 (until_improved f xs)"
proof (induction xs)
  case Nil
  then show ?case by (simp add: calm_def)
next
  case (Cons x xs)
  then have "calm S mode m0 (until_improved f xs)" "calm S mode m0 (f x)" by blast+
  then show ?case by (simp add: calm_def Let_def)
qed

lemma gaps_calm: "calm S Gap2 m0 vacate_gaps"
  by (rule calmI) (auto simp: vacate_gaps_def searchingD(1) intro!: calmD [OF until_calm] until_calm halves_calm searching_eng split: prod.split)

lemma gap2_calm: "calm S Gap2 m0 (pass_gap2 env)"
  by (rule calmI) (simp add: pass_gap2_def Let_def calmD [OF gaps_calm] calmD [OF outside_attempts] del: list.map)

lemma gap1_calm: "calm S Gap1 m0 (pass_gap1 env)"
  by (rule calmI) (simp add: pass_gap1_def split_beta Let_def calmD [OF outside_attempts] calmD [OF attempt_calm [OF outside_tame]]
      calmD [OF accept_calm] calmD [OF run_call_calm [OF outside_tame]] del: list.map)

lemma pass_calm: "calm S mode m0 (\<lambda>sh. snd (pass_of env mode sh))"
  by (cases mode) (simp_all add: pass_of_def singles_calm sessions_calm gap2_calm gap1_calm, simp add: calm_def)

lemma escape_by_calm:
  assumes "tame S f"
  shows "calm S mode m0 (escape_by mode due f)"
proof (rule calmI)
  fix sh
  assume s: "searching S mode m0 sh"
  show "searching S mode m0 (escape_by mode due f sh)"
    using s calmD [OF attempt_calm [OF assms] s] by (simp add: escape_by_def split_beta)
qed

lemma draw_bound:
  assumes "0 < n"
  shows "fst (draw_below n st) < n"
proof -
  obtain p r where p: "prng_next (e_rng st) = (p, r)" by fastforce
  then have b: "0 \<le> p" "p < 2147483647" by (auto simp: prng_next_def Let_def)
  have "p * int n < int n * 2147483647" using b(2) assms by (simp add: mult.commute)
  then have "p * int n div 2147483647 < int n" by linarith
  then show ?thesis using b assms by (auto simp: draw_below_def p nat_less_iff)
qed

lemma elite_escape_calm: "calm S mode m0 (escape_elite mode)"
proof (rule calmI)
  fix sh
  assume s: "searching S mode m0 sh"
  obtain k st where d: "draw_below (length (sh_elite sh)) (sh_eng sh) = (k, st)" by fastforce
  have "k < length (sh_elite sh)" if "1 < length (sh_elite sh)" using draw_bound [of "length (sh_elite sh)" "sh_eng sh"] that
    unfolding d fst_conv by linarith
  moreover have "like S st" using searchingD(1) [OF s] draw_frame [of "frozen S" "length (e_place S)" "length (sh_elite sh)" "sh_eng sh"] d
    by (simp add: like_def)
  ultimately have "searching S mode m0 (sh\<lparr>sh_eng := restoreStateSnapshot (snd (sh_elite sh ! k)) st\<rparr>)" if "1 < length (sh_elite sh)"
    using that s searchingD(3) [OF s] by (intro searching_eng like_restore) auto
  then show "searching S mode m0 (escape_elite mode sh)"
    using s by (auto simp: escape_elite_def d intro!: calmD [OF run_call_calm] inside_tame neutral_frame)
qed

lemma escape_tame:
  "tame S (inside (\<lambda>sh. tryWholeSessionSwap (sh_bestM sh) mode))" "tame S (inside (\<lambda>sh. tryDeepEjectionChain ts (sh_bestM sh) mode))"
  "tame S (inside (\<lambda>sh. trySingletonEjectionChain ts (sh_bestM sh) mode))"
  "tame S (inside (\<lambda>sh. tryRelatedClusterRuin (map_option floor (sh_opDeadline sh)) ts (sh_bestM sh) mode))"
  "tame S (inside (\<lambda>sh. tryNeutralPlateauWalk n (sh_bestM sh) mode))"
  by (intro inside_tame session_swap_frame deep_chain_frame single_chain_frame cluster_frame neutral_frame)+

lemma escape_calm: "calm S mode m0 (escape mode)"
  by (rule calmI)
    (simp add: escape_def Let_def split_beta calmD [OF elite_escape_calm] calmD [OF escape_by_calm [OF escape_tame(1)]]
      calmD [OF escape_by_calm [OF escape_tame(2)]] calmD [OF escape_by_calm [OF escape_tame(3)]] calmD [OF escape_by_calm [OF escape_tame(4)]]
      calmD [OF escape_by_calm [OF escape_tame(5)]] searching_eng searchingD(1))

lemma late_calm: "calm S mode m0 (\<lambda>sh. snd (too_late d sh))"
proof (rule calmI)
  fix sh
  assume "searching S mode m0 sh"
  then show "searching S mode m0 (snd (too_late d sh))"
    using calmD [OF now_calm, of S mode m0 sh] by (simp add: too_late_def split_beta split: option.split)
qed

lemma go_on_calm: "calm S mode m0 (\<lambda>sh. snd (may_go_on env r sh))"
  by (rule calmI) (simp add: may_go_on_def split_beta calmD [OF stop_calm] calmD [OF late_calm] calmD [OF now_calm])

lemma round_calm:
  assumes "or_mode r = mode"
  shows "calm S mode m0 (\<lambda>sh. snd (one_round env r sh))"
  using assms
  by (intro calmI) (simp add: one_round_def Let_def split_beta calmD [OF go_on_calm] calmD [OF pass_calm] calmD [OF escape_calm])

lemma rounds_calm:
  assumes "or_mode r = mode"
  shows "calm S mode m0 (rounds env r n k)"
proof (rule calmI)
  show "searching S mode m0 sh \<Longrightarrow> searching S mode m0 (rounds env r n k sh)" for sh
  proof (induction n arbitrary: k sh)
    case (Suc n)
    then show ?case using calmD [OF round_calm [OF assms], of S m0 "sh\<lparr>sh_round := k\<rparr>" env] by (simp add: split_beta)
  qed simp
qed

lemma may_restart_calm: "calm S mode m0 (\<lambda>sh. snd (may_restart env r sh))"
  by (rule calmI) (simp add: may_restart_def split_beta calmD [OF stop_calm] calmD [OF late_calm] calmD [OF now_calm])

lemma restart_calm:
  assumes "fitting S initial"
  shows "calm S mode m0 (restart initial k)"
proof (rule calmI)
  fix sh
  assume s: "searching S mode m0 sh"
  let ?st = "restoreStateSnapshot (if odd k then initial else sh_glob sh) (sh_eng sh)"
  have r: "like S ?st" using assms searchingD(1,2) [OF s] by (intro like_restore) auto
  have "like S (perturbForRestart n ?st)" for n using r unfolding like_def by (rule perturb_frame)
  then show "searching S mode m0 (restart initial k sh)"
    using s r by (auto simp: restart_def Let_def searching_def)
qed

lemma portfolio_calm:
  assumes "or_mode r = mode" and "fitting S initial"
  shows "calm S mode m0 (portfolio env r initial n k)"
proof (rule calmI)
  show "searching S mode m0 sh \<Longrightarrow> searching S mode m0 (portfolio env r initial n k sh)" for sh
  proof (induction n arbitrary: k sh)
    case (Suc n)
    let ?sh = "rounds env r (max_rounds (or_mode r)) 0 sh"
    have s: "searching S mode m0 (snd (may_restart env r ?sh))" using Suc.prems calmD [OF may_restart_calm] calmD [OF rounds_calm [OF assms(1)]] by blast
    then show ?case using Suc.IH calmD [OF restart_calm [OF assms(2)] s] by (simp add: split_beta)
  qed (simp add: calmD [OF rounds_calm [OF assms(1)]])
qed

subsection \<open>The start\<close>

lemma consistent_holes: "consistent B (st\<lparr>e_holes := h\<rparr>) = consistent B st"
  unfolding consistent_def agree_def good_def open_cell_def by simp

lemma loaded_acts_same: "e_acts (loadExistingSchedule st) = loaded_acts st"
  using load_consistent(2) [of st] by (simp add: sig_def load_start_def)

lemma load_unfixed: "a \<in> set (e_acts (loadExistingSchedule st)) \<Longrightarrow> \<not> ac_fixed a"
  using loaded_acts_ok(1) [of st] by (auto simp: loaded_acts_same loaded_ok_def from_cell_def in_set_conv_nth)

lemma load_positive: "a \<in> set (e_acts (loadExistingSchedule st)) \<Longrightarrow> 0 < ac_dur a"
  using loaded_acts_ok(1) [of st] by (auto simp: loaded_acts_same loaded_ok_def from_cell_def in_set_conv_nth)

definition exempts_stuck :: "eng \<Rightarrow> bool" where
  "exempts_stuck st \<longleftrightarrow> stuck_acts st = [] \<or> e_permanent st = Some (set (stuck_acts st))"

lemma loaded_start:
  assumes L: "L = loaded mode st"
  shows "\<exists>B. consistent B L" "verifyPlacementIntegrity L" "e_holes L = Some (countStudentHoles L)" "exempts_stuck L"
    "\<And>a. a \<in> set (e_acts L) \<Longrightarrow> \<not> ac_fixed a \<and> 0 < ac_dur a"
proof -
  let ?st0 = "st\<lparr>e_mintwo := False\<rparr>"
  define st1 where "st1 = loadExistingSchedule ?st0"
  obtain n m st2 where r: "repairHardConflicts st1 = ((n, m), st2)" by (metis surj_pair)
  have L': "L = st2\<lparr>e_holes := Some (countStudentHoles st2), e_strict := (mode \<noteq> Singletons)\<rparr>"
    by (simp add: L loaded_def r [unfolded st1_def])
  obtain B where c1: "consistent B st1" using load_consistent(1) [of ?st0] by (auto simp: st1_def)
  note R = repair_ok [OF c1 r]
  have c2: "consistent B st2" and acts: "e_acts st2 = e_acts st1" using keepsD [OF R(1)] by simp_all
  have "sig L = sig (st2\<lparr>e_holes := Some (countStudentHoles st2)\<rparr>)" "grids L = grids (st2\<lparr>e_holes := Some (countStudentHoles st2)\<rparr>)"
    by (simp_all add: L' sig_def grids_def)
  from consistent_cong [OF this] have c: "consistent B L" using c2 by (simp add: consistent_holes)
  then show "\<exists>B. consistent B L" by blast
  show h: "e_holes L = Some (countStudentHoles L)" using holes_cong [of L st2] by (simp add: L')
  show u: "\<not> ac_fixed a \<and> 0 < ac_dur a" if "a \<in> set (e_acts L)" for a
    using that load_unfixed [of a ?st0] load_positive [of a ?st0] by (simp add: L' acts st1_def)
  have st: "stuck_acts L = stuck_acts st2" by (simp add: L' stuck_acts_def)
  show x: "exempts_stuck L"
  proof (cases "stuck_acts st1 = []")
    case True
    then show ?thesis using R(4) by (simp add: exempts_stuck_def st)
  next
    case False
    then show ?thesis using R(5) by (simp add: exempts_stuck_def st) (simp add: L')
  qed
  have "exempt L i" if "i < length (e_acts L)" "e_place L ! i = None" for i
  proof -
    have i: "i \<in> set (stuck_acts L)" using that u [of "e_acts L ! i"] by (simp add: stuck_acts_def)
    then have "stuck_acts L \<noteq> []" by auto
    then show ?thesis using x i by (simp add: exempts_stuck_def exempt_def)
  qed
  then show "verifyPlacementIntegrity L" using consistent_gate [OF c] h by simp
qed

subsection \<open>What the gate reads\<close>

definition gate_view where
  "gate_view st = (e_acts st, e_place st, e_cgrid st, (e_off st, e_toff st, e_fixed st), e_permanent st, e_holes st)"

lemma claim_teachers_cong: "e_toff st = e_toff st' \<Longrightarrow> claim_teachers st i s ts seen = claim_teachers st' i s ts seen"
  by (induction ts arbitrary: seen) (simp_all split: option.split)

lemma claim_slots_cong:
  "gate_view st = gate_view st' \<Longrightarrow> claim_slots st i a ss seen = claim_slots st' i a ss seen"
  by (induction ss arbitrary: seen) (simp_all add: gate_view_def claim_teachers_cong [of st st'] split: option.split)

lemma claim_acts_cong: "gate_view st = gate_view st' \<Longrightarrow> claim_acts st is seen = claim_acts st' is seen"
proof (induction "is" arbitrary: seen)
  case (Cons i "is")
  have "exempt st i = exempt st' i" using Cons.prems by (simp add: gate_view_def exempt_def)
  then show ?case using Cons claim_slots_cong [OF Cons.prems] by (simp add: gate_view_def Let_def del: not_None_eq split: option.split)
qed simp

lemma gate_cong:
  assumes v: "gate_view st = gate_view st'"
  shows "verifyPlacementIntegrity st = verifyPlacementIntegrity st'"
proof -
  have e: "e_acts st = e_acts st'" "e_place st = e_place st'" "e_cgrid st = e_cgrid st'" using v by (simp_all add: gate_view_def)
  have "covered_cells st = covered_cells st'" "placed_periods st = placed_periods st'" "orphan_cell st = orphan_cell st'"
    by (simp_all only: covered_cells_def placed_periods_def orphan_cell_def fun_eq_iff e simp_thms)
  moreover have "countStudentHoles st = countStudentHoles st'" using e(3) by (rule holes_cong)
  ultimately have "covered_cells st = covered_cells st'" "placed_periods st = placed_periods st'" "orphan_cell st = orphan_cell st'"
    "countStudentHoles st = countStudentHoles st'" by this+
  then show ?thesis using v claim_acts_cong [OF v] by (simp add: verifyPlacementIntegrity_def gate_view_def split: option.split)
qed

subsection \<open>No lesson is lost\<close>

lemma placed_as_sum:
  "length (e_place st) = length (e_acts st) \<Longrightarrow>
    placed_periods st = (\<Sum>i<length (e_acts st). if e_place st ! i = None then 0 else ac_dur (e_acts st ! i))"
  by (simp add: placed_periods_def sum_list_sum_nth atLeast0LessThan) (rule sum.cong, simp_all)

lemma all_placed:
  assumes len: "length (e_place st) = length (e_acts st)" and pos: "\<And>a. a \<in> set (e_acts st) \<Longrightarrow> 0 < ac_dur a"
    and much: "(\<Sum>i<length (e_acts st). ac_dur (e_acts st ! i)) \<le> placed_periods st" and i: "i < length (e_acts st)"
  shows "e_place st ! i \<noteq> None"
proof
  assume n: "e_place st ! i = None"
  have "placed_periods st < (\<Sum>i<length (e_acts st). ac_dur (e_acts st ! i))"
    unfolding placed_as_sum [OF len] using i n pos [of "e_acts st ! i"] by (intro sum_strict_mono_ex1) auto
  then show False using much by simp
qed

lemma none_lost:
  assumes x: "exempts_stuck L" and u: "\<And>a. a \<in> set (e_acts L) \<Longrightarrow> \<not> ac_fixed a \<and> 0 < ac_dur a"
    and len: "length (e_place L) = length (e_acts L)" "length (e_place st) = length (e_acts L)"
    and same: "e_acts st = e_acts L" "e_permanent st = e_permanent L"
    and v: "verifyPlacementIntegrity st" and p: "placed_periods L \<le> placed_periods st"
  shows "placed L \<subseteq> placed st"
proof
  fix i
  assume "i \<in> placed L"
  then have i: "i < length (e_acts L)" "e_place L ! i \<noteq> None" by (auto simp: placed_def len)
  have "e_place st ! i \<noteq> None"
  proof (cases "stuck_acts L = []")
    case True
    have "e_place L ! k \<noteq> None" if "k < length (e_acts L)" for k
      using True that u by (auto simp: stuck_acts_def filter_empty_conv)
    then have "placed_periods L = (\<Sum>k<length (e_acts L). ac_dur (e_acts L ! k))"
      unfolding placed_as_sum [OF len(1)] by (intro sum.cong) (simp_all del: not_None_eq)
    then show ?thesis using all_placed [of st i] len(2) u p i(1) by (simp add: same)
  next
    case False
    then have "\<not> exempt st i" using x i by (simp add: exempts_stuck_def exempt_def same stuck_acts_def)
    then show ?thesis using integrity_unplaced [OF v] i(1) same(1) by auto
  qed
  then show "i \<in> placed st" using i(1) len(2) by (simp add: placed_def)
qed

subsection \<open>The whole run\<close>

text \<open>Options and locks.\<close>

definition settings :: "eng \<Rightarrow> js \<times> rat option \<times> rat option" where
  "settings st = (e_opts st, e_lockS1 st, e_lockGap2 st)"

lemma locks_same:
  "gate_view (with_locks par m st) = gate_view st" "grids (with_locks par m st) = grids st"
  "sig (with_locks par m st) = sig st" "stuck_acts (with_locks par m st) = stuck_acts st" "evaluateMetrics (with_locks par m st) = evaluateMetrics st"
  by (simp_all add: with_locks_def Let_def gate_view_def grids_def sig_def stuck_acts_def evaluate_cong [of "_\<lparr>e_lockS1 := _, e_lockGap2 := _\<rparr>" st])

lemma begin_ok:
  assumes b: "begin_search par stage mode st = (t, sh)"
  shows "searching (sh_eng sh) mode (evaluateMetrics (loaded mode st)) sh" "gate_view (sh_eng sh) = gate_view (loaded mode st)"
    "sig (sh_eng sh) = sig (loaded mode st)" "evaluateMetrics (sh_eng sh) = evaluateMetrics (loaded mode st)"
    "settings (sh_eng sh) = settings (with_locks par (evaluateMetrics (loaded mode st)) (loaded mode st))"
proof -
  define L where "L = loaded mode st"
  define st2 where "st2 = with_locks par (evaluateMetrics L) L"
  have e: "sh_eng sh = st2\<lparr>e_ticks := Suc (e_ticks st2)\<rparr>"
    using b by (auto simp: begin_search_def Let_def date_now_def st2_def L_def)
  show "settings (sh_eng sh) = settings (with_locks par (evaluateMetrics (loaded mode st)) (loaded mode st))"
    by (simp add: e st2_def settings_def L_def)
  show v: "gate_view (sh_eng sh) = gate_view (loaded mode st)" and s: "sig (sh_eng sh) = sig (loaded mode st)"
    using locks_same(1,3) [of par "evaluateMetrics L" L] by (simp_all add: e st2_def gate_view_def sig_def L_def)
  show m: "evaluateMetrics (sh_eng sh) = evaluateMetrics (loaded mode st)"
    using locks_same(5) [of par "evaluateMetrics L" L] evaluate_cong [of "sh_eng sh" st2] by (simp add: e st2_def L_def)
  obtain B where "consistent B L" using loaded_start(1) [OF L_def] by blast
  then have "distinct (map fst (e_cgrid L))" using agreeD(9) by (auto simp: consistent_def)
  then have k: "distinct (map fst (e_cgrid st2))"
    using locks_same(2) [of par "evaluateMetrics L" L] by (simp add: st2_def grids_def)
  have f: "sh_glob sh = captureStateSnapshot st2" "sh_elite sh = [(evaluateMetrics L, captureStateSnapshot st2)]" "sh_initial sh = evaluateMetrics L"
    "sh_globM sh = evaluateMetrics L" "sh_placed sh = placed_periods st2"
    using b by (auto simp: begin_search_def Let_def date_now_def st2_def L_def)
  show "searching (sh_eng sh) mode (evaluateMetrics (loaded mode st)) sh"
    using k by (simp add: searching_def f e like_def framed_def fitting_def snap_framed_def full_def captureStateSnapshot_def restoreStateSnapshot_def
        placed_periods_def flip: L_def)
qed

lemma capture_view: "frozen st = frozen S \<Longrightarrow> gate_view (restoreStateSnapshot (captureStateSnapshot S) st) = gate_view S"
  using frozenD [of st S] by (simp add: gate_view_def restoreStateSnapshot_def captureStateSnapshot_def)

text \<open>What holds of the state and the metrics at the end.\<close>

definition no_worse :: "eng \<Rightarrow> opt_mode \<Rightarrow> metrics \<Rightarrow> eng \<Rightarrow> bool" where
  "no_worse S mode m0 st \<longleftrightarrow> like S st \<and> verifyPlacementIntegrity st \<and> placed_periods S \<le> placed_periods st
     \<and> compareMetrics S mode (Some (evaluateMetrics st)) (Some m0) \<le> 0"

lemma finish_ok:
  assumes s: "searching S mode m0 sh" and v: "verifyPlacementIntegrity S" and m: "m0 = evaluateMetrics S"
    and k: "fitting S (captureStateSnapshot S)"
  obtains st where "no_worse S mode m0 st" "snd (finish mode (captureStateSnapshot S) sh) = applyToDataTKB st"
    "ot_initial (fst (finish mode (captureStateSnapshot S) sh)) = m0"
    "ot_metrics (fst (finish mode (captureStateSnapshot S) sh)) = m0
     \<or> compareMetrics S mode (Some (ot_metrics (fst (finish mode (captureStateSnapshot S) sh)))) (Some m0) < 0"
proof -
  let ?st1 = "restoreStateSnapshot (sh_glob sh) (sh_eng sh)" and ?i = "captureStateSnapshot S"
  define bad where "bad = (\<not> verifyPlacementIntegrity ?st1 \<or> compareMetrics ?st1 mode (Some (evaluateMetrics ?st1)) (Some (sh_initial sh)) > 0)"
  define st where "st = (if bad then restoreStateSnapshot ?i ?st1 else ?st1)"
  have l1: "like S ?st1" using like_restore [OF searchingD(1,2) [OF s]] .
  have l2: "like S (restoreStateSnapshot ?i ?st1)" using like_restore [OF l1 k] .
  have fr: "frozen ?st1 = frozen S" "frozen (sh_eng sh) = frozen S" using l1 searchingD(1) [OF s] framedD(1) unfolding like_def by blast+
  have "no_worse S mode m0 st"
  proof (cases bad)
    case True
    have "gate_view (restoreStateSnapshot ?i ?st1) = gate_view S" using capture_view [OF fr(1)] .
    moreover have "evaluateMetrics (restoreStateSnapshot ?i ?st1) = m0"
      unfolding m using frozenD(5) [OF fr(1)] by (intro evaluate_cong) (simp_all add: restoreStateSnapshot_def captureStateSnapshot_def)
    ultimately show ?thesis
      using True l2 v gate_cong [of "restoreStateSnapshot ?i ?st1" S] by (simp add: no_worse_def st_def compare_refl) (simp add: gate_view_def placed_periods_def)
  next
    case False
    have "placed_periods ?st1 = placed_periods (restoreStateSnapshot (sh_glob sh) S)" using placed_restore frozenD(3) [OF fr(2)] by blast
    then show ?thesis
      using False l1 searchingD(4,7) [OF s] like_compare [OF l1] by (simp add: no_worse_def st_def bad_def full_def)
  qed
  moreover have "snd (finish mode ?i sh) = applyToDataTKB st" by (simp add: finish_def Let_def st_def bad_def)
  ultimately show thesis
    using that searchingD(4,5) [OF s] by (simp add: finish_def Let_def)
qed

lemma optimize_ok:
  assumes L: "L = loaded mode st"
  obtains st1 S where "snd (optimize env par inAll stage mode st) = applyToDataTKB st1" "no_worse S mode (evaluateMetrics L) st1"
    "gate_view S = gate_view L" "sig S = sig L" "settings S = settings (with_locks par (evaluateMetrics L) L)" "ot_initial (fst (optimize env par inAll stage mode st)) = evaluateMetrics L"
    "ot_metrics (fst (optimize env par inAll stage mode st)) = evaluateMetrics L
     \<or> compareMetrics S mode (Some (ot_metrics (fst (optimize env par inAll stage mode st)))) (Some (evaluateMetrics L)) < 0"
proof -
  obtain t sh where b: "begin_search par stage mode st = (t, sh)" by fastforce
  let ?S = "sh_eng sh" and ?m = "evaluateMetrics L"
  define r where "r = \<lparr>or_mode = mode, or_params = par, or_inAll = inAll, or_stage = stage, or_start = t\<rparr>"
  define sh1 where "sh1 = portfolio env r (captureStateSnapshot ?S) (nat \<lceil>om_maxRestarts par\<rceil>) 0 sh"
  have o: "optimize env par inAll stage mode st = finish mode (captureStateSnapshot ?S) sh1"
    by (simp add: optimize_def b r_def sh1_def Let_def)
  note B = begin_ok [OF b, folded L]
  have k: "fitting ?S (captureStateSnapshot ?S)" using like_capture searchingD(1) [OF B(1)] .
  have "searching ?S mode ?m sh1"
    unfolding sh1_def using B(1) by (rule calmD [OF portfolio_calm, rotated 2]) (simp_all add: r_def k)
  moreover have "verifyPlacementIntegrity ?S" using gate_cong [OF B(2)] loaded_start(2) [OF L] by simp
  ultimately show thesis
    using finish_ok [of ?S mode ?m sh1] B(2-5) k that [folded o] by (metis o)
qed

end
