(* ===== verification/FeOptimizeAllOk.thy ===== *)
theory FeOptimizeAllOk
  imports FeOptimizeAll FeOptimizeOk
begin

section \<open>FET engine: the controllers keep what they have reached\<close>

text \<open>
  Options and locks through loading, repair and one run of \<open>optimize\<close>; the invariant of \<open>optimizeAll\<close>,
  whose best metrics only improve and stay below every lock; and the measures of a run that borrows.
\<close>

subsection \<open>Options and locks\<close>

lemma settings_ctrl [simp]:
  "settings (st\<lparr>e_ticks := x1\<rparr>) = settings st" "settings (st\<lparr>e_data := x2\<rparr>) = settings st" "settings (st\<lparr>e_permanent := x3\<rparr>) = settings st"
  "settings (st\<lparr>e_holes := x4\<rparr>) = settings st" "settings (st\<lparr>e_strict := x5\<rparr>) = settings st" "settings (st\<lparr>e_mintwo := x6\<rparr>) = settings st"
  "settings (st\<lparr>e_limit := x7\<rparr>) = settings st"
  by (simp_all add: settings_def)

lemma framed_settings: "framed F n st \<Longrightarrow> framed F n st' \<Longrightarrow> settings st' = settings st"
  by (auto simp: framed_def frozen_def steering_def settings_def)

lemma like_settings: "like S st \<Longrightarrow> settings st = settings S"
  by (auto simp: like_def framed_def frozen_def steering_def settings_def)

lemma framed_self: "distinct (map fst (e_cgrid st)) \<Longrightarrow> framed (frozen st) (length (e_place st)) st"
  by (simp add: framed_def)

lemma consistent_keys: "consistent B st \<Longrightarrow> distinct (map fst (e_cgrid st))"
  using agreeD(9) by (auto simp: consistent_def)

lemma load_place_frame: "framed F n st \<Longrightarrow> framed F n (load_place a st)"
  by (simp add: load_place_def place_frame split: option.split)

lemma load_frame:
  "framed (frozen (load_start st)) (length (e_place (load_start st))) (load_start st)"
  "framed (frozen (load_start st)) (length (e_place (load_start st))) (loadExistingSchedule st)"
proof -
  show f: "framed (frozen (load_start st)) (length (e_place (load_start st))) (load_start st)"
    using load_start_consistent by (intro framed_self consistent_keys)
  then show "framed (frozen (load_start st)) (length (e_place (load_start st))) (loadExistingSchedule st)"
    unfolding load_as_fold by (rule framed_fold) (rule load_place_frame)
qed

lemma load_settings: "settings (loadExistingSchedule st) = settings st"
  using framed_settings [OF load_frame, of st] init_header [of st] by (simp add: load_start_def settings_def header_def)

text \<open>The deadline that \<open>solve\<close> sets survives a reload.\<close>

lemma load_deadline: "e_deadline (loadExistingSchedule st) = e_deadline st" "e_clock (loadExistingSchedule st) = e_clock st"
  using load_frame(2) [of st] init_header [of st] by (simp_all add: framed_def frozen_def steering_def load_start_def header_def)

lemma late_swap:
  assumes "e_deadline st = Some d" "d < e_clock st (e_ticks st)"
  shows "\<not> fst (fresh_swap restrict i st) \<and> grids (snd (fresh_swap restrict i st)) = grids st"
  using assms unfolding fresh_swap_def by (subst (1 2) randomSwap.simps) (simp add: deadline_passed_def grids_def)

lemma attempts_frame: "framed F n st \<Longrightarrow> framed F n (snd (repair_attempts i st))"
proof -
  assume f: "framed F n st"
  obtain ok1 st1 where r1: "(if preferredSlotsFor st (e_acts st ! i) = [] then (False, st)
      else randomSwap 0 (Some (preferredSlotsFor st (e_acts st ! i))) i st) = (ok1, st1)" by fastforce
  obtain ok2 st2 where r2: "fresh_swap None i st1 = (ok2, st2)" by fastforce
  obtain ok3 st3 where r3: "tryEjectionChain i st2 = (ok3, st3)" by fastforce
  have f1: "framed F n st1" using f r1 randomSwap_frame [OF f, of 0 "Some (preferredSlotsFor st (e_acts st ! i))" i] by (auto split: if_splits)
  have f2: "framed F n st2" using fresh_swap_frame [OF f1, of None i] r2 by simp
  have f3: "framed F n st3" using chain_frame [OF f2, of i] r3 by simp
  have "framed F n (snd (fresh_swap None i (st3\<lparr>e_strict := False\<rparr>)))" using f3 by (intro fresh_swap_frame) simp
  then show ?thesis using f1 f2 f3 by (simp add: repair_attempts_def Let_def r1 r2 r3 split_beta)
qed

lemma repair_one_frame: "framed F n (snd (snd r)) \<Longrightarrow> framed F n (snd (snd (repair_one saved i r)))"
  using attempts_frame [of F n "(snd (snd r))\<lparr>e_limit := max saved 30000, e_calls := 0\<rparr>" i] by (auto simp: repair_one_def split: prod.splits)

lemma repair_fold_frame: "framed F n (snd (snd r)) \<Longrightarrow> framed F n (snd (snd (fold (repair_one saved) is r)))"
  by (induction "is" arbitrary: r) (simp_all add: repair_one_frame)

lemma repair_settings:
  assumes "distinct (map fst (e_cgrid st))"
  shows "settings (snd (repairHardConflicts st)) = settings st"
proof -
  let ?st1 = "fold unplaceActivity (offenders st) st" and ?F = "frozen st" and ?n = "length (e_place st)"
  have f: "framed ?F ?n st" using assms by (rule framed_self)
  have f1: "framed ?F ?n ?st1" using f by (rule framed_fold) (rule unplace_frame)
  have "framed ?F ?n (snd (snd (fold (repair_one (e_limit ?st1)) is (0, 0, ?st1))))" for "is"
    by (rule repair_fold_frame) (simp add: f1)
  from framed_settings [OF f this] show ?thesis by (simp add: repairHardConflicts_def Let_def split_beta del: fold_append)
qed

lemma loaded_settings: "settings (loaded mode st) = settings st"
proof -
  have "distinct (map fst (e_cgrid (loadExistingSchedule st)))" for st using load_consistent(1) by (rule consistent_keys)
  then show ?thesis by (simp add: loaded_def Let_def repair_settings load_settings)
qed

text \<open>Options that do not override the locks.\<close>

definition no_override :: "opt_params \<Rightarrow> bool" where
  "no_override par \<longleftrightarrow> om_slack par = 0 \<and> om_s1Ceil par = None \<and> om_gap2Lock par = None"

lemma with_locks_none: "no_override par \<Longrightarrow> with_locks par m st = st"
  by (simp add: no_override_def with_locks_def Let_def)

lemma apply_settings: "settings (applyToDataTKB st) = settings st"
  by (simp add: applyToDataTKB_def)

lemma optimize_settings:
  assumes "no_override par"
  shows "settings (snd (optimize env par inAll stage mode st)) = settings st"
proof (rule optimize_ok [OF refl, of env par inAll stage mode st])
  fix st1 S
  assume o: "snd (optimize env par inAll stage mode st) = applyToDataTKB st1" and n: "no_worse S mode (evaluateMetrics (loaded mode st)) st1"
    and s: "settings S = settings (with_locks par (evaluateMetrics (loaded mode st)) (loaded mode st))"
  have "settings st1 = settings S" using n like_settings by (simp add: no_worse_def)
  then show ?thesis using s by (simp add: o apply_settings with_locks_none [OF assms] loaded_settings)
qed

subsection \<open>The order of the whole\<close>

definition no_later :: "metrics \<Rightarrow> metrics \<Rightarrow> bool" where
  "no_later a b \<longleftrightarrow> compare_on [mt_day1, mt_gap2, mt_sessions, mt_gap1, mt_days] a b \<le> 0"

lemma first_diff_trans:
  "first_diff (map (\<lambda>f. (int (f a), int (f b))) fs) \<le> 0 \<Longrightarrow> first_diff (map (\<lambda>f. (int (f b), int (f c))) fs) \<le> 0 \<Longrightarrow>
    first_diff (map (\<lambda>f. (int (f a), int (f c))) fs) \<le> 0"
  by (induction fs) (auto split: if_splits)

lemma no_later_trans: "no_later a b \<Longrightarrow> no_later b c \<Longrightarrow> no_later a c"
  unfolding no_later_def compare_on_def by (rule first_diff_trans)

lemma no_later_refl [simp]: "no_later a a"
  by (simp add: no_later_def compare_on_def)

lemma tuple_improves:
  assumes c: "compareTuple st (Some a) (Some b) < 0" and v: "lockViolations st b = 0"
  shows "no_later a b" "lockViolations st a = 0"
proof -
  have "first_diff ((lockViolations st a, 0) # map (\<lambda>f. (int (f a), int (f b))) [mt_day1, mt_gap2, mt_sessions, mt_gap1, mt_days]) < 0"
    using c v by (simp add: compareTuple_def tuple_of_def)
  then show "no_later a b" "lockViolations st a = 0"
    using locks_nonneg [of st a] unfolding no_later_def compare_on_def first_diff_less by auto
qed

subsection \<open>What the controller holds\<close>

fun lock_of :: "lock_key \<Rightarrow> eng \<Rightarrow> rat option" where
  "lock_of LockDay1 st = e_lockS1 st"
| "lock_of LockGap2 st = e_lockGap2 st"

definition stage_kept :: "eng \<Rightarrow> stage \<Rightarrow> bool" where
  "stage_kept st sg \<longleftrightarrow> (case sg_before sg of Some b \<Rightarrow> no_later (sg_after sg) b | None \<Rightarrow> True)
     \<and> (case sg_exit sg of Locked k n \<Rightarrow> \<exists>v. lock_of k st = Some v \<and> v \<le> of_nat n | _ \<Rightarrow> True)"

definition held :: "js \<Rightarrow> metrics \<Rightarrow> all_state \<Rightarrow> bool" where
  "held opts m0 al \<longleftrightarrow> e_opts (al_eng al) = opts \<and> lockViolations (al_eng al) (al_best al) = 0 \<and> no_later (al_best al) m0
     \<and> (\<forall>sg \<in> set (al_stages al). stage_kept (al_eng al) sg)"

lemma lock_of_cong: "settings st = settings st' \<Longrightarrow> lock_of k st = lock_of k st'"
  by (cases k) (simp_all add: settings_def)

lemma stage_kept_cong: "settings st = settings st' \<Longrightarrow> stage_kept st sg = stage_kept st' sg"
  by (simp add: stage_kept_def lock_of_cong [of st st'] split: exit_reason.split)

lemma violations_cong: "settings st = settings st' \<Longrightarrow> lockViolations st = lockViolations st'"
  by (simp add: lockViolations_def settings_def fun_eq_iff)

lemma held_eng:
  assumes "held opts m0 al" and s: "settings st = settings (al_eng al)"
  shows "held opts m0 (al\<lparr>al_eng := st\<rparr>)"
  using assms(1) stage_kept_cong [OF s] violations_cong [OF s] s by (simp add: held_def settings_def)

lemma now_settings: "settings (snd (eng_now st)) = settings st"
  by (simp add: eng_now_def date_now_def)

lemma stop_settings: "settings (snd (eng_stop env st)) = settings st"
  by (simp add: eng_stop_def)

lemma snapshot_settings: "settings (snd (getSnapshotTKB None st)) = settings st"
  by (simp add: getSnapshotTKB_def Let_def apply_settings)

lemma put_settings: "settings (put_tkb t st) = settings st"
  by (simp add: put_tkb_def)

lemma held_better:
  assumes h: "held opts m0 al" and c: "compareTuple (al_eng al) (Some m) (Some (al_best al)) < 0"
  shows "held opts m0 (al\<lparr>al_best := m, al_tkb := t\<rparr>)" "no_later m (al_best al)"
  using tuple_improves [OF c] h no_later_trans by (auto simp: held_def)

lemma held_stage:
  assumes "held opts m0 al" "stage_kept (al_eng al) sg"
  shows "held opts m0 (al\<lparr>al_stages := al_stages al @ [sg]\<rparr>)"
  using assms by (auto simp: held_def)

lemma judge_held:
  assumes h: "held opts m0 al"
  shows "held opts m0 (snd (judge_slice mode n t0 after al))"
proof -
  let ?c = "compareTuple (al_eng al) (Some after) (Some (al_best al))"
  obtain reason al1 where r: "(if ?c < 0 then (Improved, case getSnapshotTKB None (al_eng al) of (t, st) \<Rightarrow> al\<lparr>al_best := after, al_tkb := t, al_eng := st\<rparr>)
      else if ?c > 0 then (RolledBack, al\<lparr>al_eng := loadExistingSchedule (put_tkb (al_tkb al) (al_eng al))\<rparr>)
      else (NoGain, al)) = (reason, al1)" by fastforce
  obtain t st where g: "getSnapshotTKB None (al_eng al) = (t, st)" by fastforce
  have s: "settings st = settings (al_eng al)" using snapshot_settings [of "al_eng al"] g by simp
  have k: "held opts m0 al1 \<and> no_later (al_best al1) (al_best al) \<and> (\<forall>k n. reason \<noteq> Locked k n)"
  proof (cases "?c < 0")
    case True
    then have "held opts m0 ((al\<lparr>al_best := after, al_tkb := t\<rparr>)\<lparr>al_eng := st\<rparr>)" using held_eng [OF held_better(1) [OF h True]] s by simp
    then show ?thesis using True r g held_better(2) [OF h True] by auto
  next
    case False
    then show ?thesis using r h held_eng [OF h, of "loadExistingSchedule (put_tkb (al_tkb al) (al_eng al))"]
      by (auto simp: load_settings put_settings split: if_splits)
  qed
  obtain t1 st1 where t1: "eng_now (al_eng al1) = (t1, st1)" by fastforce
  have s1: "settings st1 = settings (al_eng al1)" using now_settings [of "al_eng al1"] t1 by simp
  have "held opts m0 ((al1\<lparr>al_eng := st1\<rparr>)\<lparr>al_stages := al_stages (al1\<lparr>al_eng := st1\<rparr>) @ [\<lparr>sg_mode = mode, sg_cycle = Some n, sg_ms = t1 - t0,
      sg_before = Some (al_best al), sg_after = al_best al1, sg_exit = reason\<rparr>]\<rparr>)"
    using k s1 by (intro held_stage held_eng) (auto simp: stage_kept_def split: exit_reason.split)
  then show ?thesis by (simp add: judge_slice_def Let_def r t1)
qed

lemma slice_held:
  assumes h: "held opts m0 al" and o: "no_override (read_params opts)"
  shows "held opts m0 (snd (run_slice env mode n ms al))"
proof -
  obtain t st1 where t: "eng_now (al_eng al) = (t, st1)" by fastforce
  obtain t0 st2 where t0: "eng_now st1 = (t0, st2)" by fastforce
  obtain res st3 where r: "optimize env (read_params (e_opts st2)) True (deadline_of (t + ms)) mode st2 = (res, st3)" by fastforce
  have s2: "settings st2 = settings (al_eng al)" using now_settings [of "al_eng al"] now_settings [of st1] t t0 by simp
  then have e: "e_opts st2 = opts" using h by (simp add: settings_def held_def)
  have "settings st3 = settings st2" using optimize_settings [of "read_params (e_opts st2)" env True "deadline_of (t + ms)" mode st2] o r by (simp add: e)
  then have "held opts m0 (al\<lparr>al_eng := st3\<rparr>)" using h s2 by (simp add: held_eng)
  then show ?thesis by (simp add: run_slice_def Let_def t t0 r judge_held)
qed

lemma slices_held:
  assumes "no_override (read_params opts)" "held opts m0 al"
  shows "held opts m0 (slices env ph deadline ms ns al)"
  using assms(2)
proof (induction ns arbitrary: al)
  case (Cons n ns)
  obtain stop st1 where st1: "eng_stop env (al_eng al) = (stop, st1)" by fastforce
  obtain t st2 where st2: "eng_now st1 = (t, st2)" by fastforce
  have s: "settings st1 = settings (al_eng al)" "settings st2 = settings (al_eng al)"
    using stop_settings [of env "al_eng al"] now_settings [of st1] st1 st2 by simp_all
  have h: "held opts m0 (al\<lparr>al_eng := st1\<rparr>)" "held opts m0 (al\<lparr>al_eng := st2\<rparr>)" using Cons.prems s held_eng by blast+
  show ?case using h slice_held [OF h(2) assms(1), of env "ph_mode ph" n] Cons.IH
    by (auto simp: st1 st2 Let_def split: prod.split) (metis snd_conv)+
qed simp

lemma lock_held:
  assumes h: "held opts m0 al" and n: "n = lock_val k (al_best al)"
  shows "held opts m0 (al\<lparr>al_eng := set_lock k n (al_eng al)\<rparr>)" "lock_of k (set_lock k n (al_eng al)) = Some (of_nat n)"
proof -
  have v: "lockViolations (al_eng al) (al_best al) = 0" using h by (simp add: held_def)
  have "stage_kept (set_lock k n (al_eng al)) sg" if "stage_kept (al_eng al) sg" for sg
  proof -
    have "\<exists>v. lock_of j (set_lock k n (al_eng al)) = Some v \<and> v \<le> of_nat i" if "lock_of j (al_eng al) = Some w" "w \<le> of_nat i" for j w i
      using that v n by (cases j; cases k) (auto simp: lockViolations_def split: if_splits option.splits)
    then show ?thesis using that by (auto simp: stage_kept_def split: exit_reason.splits)
  qed
  moreover have "lockViolations (set_lock k n (al_eng al)) (al_best al) = 0"
    using v n by (cases k) (auto simp: lockViolations_def split: if_splits option.splits)
  moreover have "e_opts (set_lock k n (al_eng al)) = e_opts (al_eng al)" by (cases k) simp_all
  ultimately show "held opts m0 (al\<lparr>al_eng := set_lock k n (al_eng al)\<rparr>)" using h by (simp add: held_def)
  show "lock_of k (set_lock k n (al_eng al)) = Some (of_nat n)" by (cases k) simp_all
qed

lemma stages_held:
  assumes h: "held opts m0 al"
  shows "held opts m0 (lock_stage ph al)" "at_zero ph (al_best al) \<Longrightarrow> held opts m0 (zero_stage ph al)"
proof -
  show "held opts m0 (lock_stage ph al)"
  proof (cases "ph_lock ph")
    case (Some k)
    then show ?thesis
      using held_stage [OF lock_held(1) [OF h refl, of k]] lock_held(2) [OF h refl, of k] by (auto simp: lock_stage_def stage_kept_def)
  qed (simp add: lock_stage_def h)
  show "held opts m0 (zero_stage ph al)" if z: "at_zero ph (al_best al)"
  proof (cases "ph_lock ph")
    case (Some k)
    then have "lock_val k (al_best al) = 0" using z by (simp add: at_zero_def)
    then show ?thesis
      using Some held_stage [OF lock_held(1) [OF h, of 0 k]] by (auto simp: zero_stage_def stage_kept_def)
  qed (simp add: zero_stage_def h)
qed

lemma phases_held:
  assumes o: "no_override (read_params opts)" and h: "held opts m0 al"
  shows "held opts m0 (run_phases env whole deadline phs al)"
  using h
proof (induction phs arbitrary: al)
  case (Cons ph phs)
  obtain stop st1 where st1: "eng_stop env (al_eng al) = (stop, st1)" by fastforce
  obtain t st2 where st2: "eng_now st1 = (t, st2)" by fastforce
  have s: "settings st1 = settings (al_eng al)" "settings st2 = settings (al_eng al)"
    using stop_settings [of env "al_eng al"] now_settings [of st1] st1 st2 by simp_all
  have h: "held opts m0 (al\<lparr>al_eng := st1\<rparr>)" "held opts m0 (al\<lparr>al_eng := st2\<rparr>)" using Cons.prems s held_eng by blast+
  show ?case
    using h(1) h(2) Cons.IH [OF stages_held(1) [OF slices_held [OF o h(2)]]] Cons.IH [OF stages_held(2) [OF h(2)]]
    by (auto simp: st1 st2 Let_def simp del: slices.simps)
qed simp

text \<open>Through the last phase, and what a lock promises of the result.\<close>

lemma begin_held:
  assumes "begin_all st = (m0, al)"
  shows "held (e_opts st) m0 al" "m0 = evaluateMetrics (snd (repairHardConflicts (loadExistingSchedule st)))"
proof -
  let ?st1 = "snd (repairHardConflicts (loadExistingSchedule st))"
  have "settings ?st1 = settings st" using repair_settings [OF consistent_keys [OF load_consistent(1)]] by (simp add: load_settings)
  then have e: "e_opts (snd (getSnapshotTKB None ?st1)) = e_opts st" using snapshot_settings [of ?st1] by (simp add: settings_def)
  have al: "al_best al = m0" "al_stages al = []" "m0 = evaluateMetrics ?st1" "e_lockS1 (al_eng al) = None" "e_lockGap2 (al_eng al) = None"
    "e_opts (al_eng al) = e_opts (snd (getSnapshotTKB None ?st1))"
    using assms by (auto simp: begin_all_def Let_def split_beta)
  show "held (e_opts st) m0 al" by (simp add: held_def al e lockViolations_def)
  show "m0 = evaluateMetrics ?st1" by (rule al(3))
qed

lemma all_phases_held:
  assumes o: "no_override (read_params (e_opts st))" and r: "all_phases env st = (t, m0, al)"
  shows "held (e_opts st) m0 al"
proof -
  obtain t1 st1 where t: "eng_now st = (t1, st1)" by fastforce
  obtain m al0 where b: "begin_all st1 = (m, al0)" by fastforce
  have e: "e_opts st1 = e_opts st" using now_settings [of st] t by (simp add: settings_def)
  show ?thesis using r phases_held [OF o, of m al0] begin_held(1) [OF b] e by (auto simp: all_phases_def t b Let_def)
qed

lemma lock_promise:
  assumes h: "held opts m0 al" and sg: "sg \<in> set (al_stages al)" "sg_exit sg = Locked k n"
  shows "lock_val k (al_best al) \<le> n"
proof -
  obtain v where v: "lock_of k (al_eng al) = Some v" "v \<le> of_nat n" using h sg by (fastforce simp: held_def stage_kept_def)
  moreover have "of_nat (lock_val k (al_best al)) \<le> v"
    using h v(1) by (cases k) (auto simp: held_def lockViolations_def split: if_splits option.splits)
  ultimately show ?thesis by (meson of_nat_le_iff order_trans)
qed

lemma all_held:
  assumes o: "no_override (read_params (e_opts st))" and r: "optimizeAll env st = (res, st')"
  shows "no_later (ar_metrics res) (ar_initial res)"
    "\<And>sg. sg \<in> set (ar_stages res) \<Longrightarrow> (case sg_before sg of Some b \<Rightarrow> no_later (sg_after sg) b | None \<Rightarrow> True)
        \<and> (case sg_exit sg of Locked k n \<Rightarrow> lock_val k (ar_metrics res) \<le> n | _ \<Rightarrow> True)"
proof -
  obtain t m0 al where a: "all_phases env st = (t, m0, al)" by (metis surj_pair)
  have res: "ar_metrics res = al_best al" "ar_initial res = m0" "ar_stages res = al_stages al"
    using r by (auto simp: optimizeAll_def a Let_def split_beta)
  note h = all_phases_held [OF o a]
  show "no_later (ar_metrics res) (ar_initial res)" using h by (simp add: res held_def)
  show "(case sg_before sg of Some b \<Rightarrow> no_later (sg_after sg) b | None \<Rightarrow> True)
      \<and> (case sg_exit sg of Locked k n \<Rightarrow> lock_val k (ar_metrics res) \<le> n | _ \<Rightarrow> True)" if "sg \<in> set (ar_stages res)" for sg
    using that h lock_promise [OF h, of sg] by (auto simp: res held_def stage_kept_def split: exit_reason.splits)
qed

subsection \<open>The engine that is left\<close>

lemma all_final:
  assumes "optimizeAll env st = (res, st')"
  obtains B where "consistent B st'"
proof -
  obtain t m0 al where a: "all_phases env st = (t, m0, al)" by (metis surj_pair)
  let ?s = "loadExistingSchedule (put_tkb (al_tkb al) (al_eng al))"
  have "sig st' = sig ?s" "grids st' = grids ?s"
    using assms by (auto simp: optimizeAll_def a Let_def split_beta eng_now_def date_now_def sig_def grids_def)
  then show thesis using that consistent_cong load_consistent(1) by blast
qed

subsection \<open>Borrowing\<close>

lemma gap2_order:
  assumes "e_lockS1 st = None" "e_lockGap2 st = None" "a = b \<or> compareMetrics st Gap2 (Some a) (Some b) < 0"
  shows "mt_gap2 a \<le> mt_gap2 b" "mt_day1 a \<le> mt_day1 b"
  using assms by (auto simp: compareMetrics_def compare_mode_def lockViolations_def compare_on_less split: if_splits)

lemma child_settings: "e_lockS1 (child_engine seed st) = None" "e_lockGap2 (child_engine seed st) = None"
  by (simp_all add: child_engine_def new_engine_def)

text \<open>The first phase runs without any lock, so it trades neither measure for the other.\<close>

lemma optimize_gap2:
  assumes "no_override par" "e_lockS1 st = None" "e_lockGap2 st = None" and m: "m = ot_metrics (fst (optimize env par inAll stage Gap2 st))"
    "m0 = ot_initial (fst (optimize env par inAll stage Gap2 st))"
  shows "mt_gap2 m \<le> mt_gap2 m0 \<and> mt_day1 m \<le> mt_day1 m0"
proof (rule optimize_ok [OF refl, of env par inAll stage Gap2 st])
  fix st1 S
  let ?L = "loaded Gap2 st"
  assume s: "settings S = settings (with_locks par (evaluateMetrics ?L) ?L)" and i: "ot_initial (fst (optimize env par inAll stage Gap2 st)) = evaluateMetrics ?L"
    and b: "ot_metrics (fst (optimize env par inAll stage Gap2 st)) = evaluateMetrics ?L
      \<or> compareMetrics S Gap2 (Some (ot_metrics (fst (optimize env par inAll stage Gap2 st)))) (Some (evaluateMetrics ?L)) < 0"
  have "e_lockS1 S = None" "e_lockGap2 S = None"
    using s loaded_settings [of Gap2 st] assms(2,3) by (simp_all add: with_locks_none [OF assms(1)] settings_def)
  then show ?thesis using gap2_order b by (simp add: m i)
qed

lemma button_trans: "better_for_button x y < 0 \<Longrightarrow> better_for_button y z \<le> 0 \<Longrightarrow> better_for_button x z < 0"
  by (auto simp: better_for_button_def compare_on_def split: if_splits)

lemma button_gap2: "better_for_button x y \<le> 0 \<Longrightarrow> mt_gap2 x \<le> mt_gap2 y"
  by (simp add: better_for_button_def compare_on_def split: if_splits)

lemma no_slack_ok: "om_s1Ceil par = None \<Longrightarrow> om_gap2Lock par = None \<Longrightarrow> no_override (no_slack (par\<lparr>om_hardCapMs := x, om_restartMs := y\<rparr>))"
  by (simp add: no_override_def no_slack_def)

lemma phase_gap2:
  assumes "om_s1Ceil (read_params (e_opts st)) = None" "om_gap2Lock (read_params (e_opts st)) = None"
    and r: "run_phase env cap t0 seed Gap2 share no_slack idx st = (res, st')"
  shows "mt_gap2 (ot_metrics res) \<le> mt_gap2 (ot_initial res) \<and> mt_day1 (ot_metrics res) \<le> mt_day1 (ot_initial res)"
proof -
  obtain ms st1 where b: "set_budget cap t0 share st = (ms, st1)" by fastforce
  then have "settings st1 = settings st" using now_settings [of st] by (auto simp: set_budget_def split: prod.splits)
  then have e: "e_opts st1 = e_opts st" by (simp add: settings_def)
  let ?par = "no_slack ((read_params (e_opts st))\<lparr>om_hardCapMs := ms, om_restartMs := max 15000 (ms - 10000)\<rparr>)"
  have res: "res = fst (optimize (child_stop st1 env) ?par False None Gap2 (child_engine (seed + int idx * 104729) st1))"
    using r by (auto simp: run_phase_def b Let_def e split: prod.splits)
  show ?thesis by (rule optimize_gap2 [OF no_slack_ok [OF assms(1,2)] child_settings]) (simp_all add: res)
qed

text \<open>What the rounds keep, against the start and the first phase.\<close>

definition repaid :: "nat \<Rightarrow> opt_result \<Rightarrow> borrow_state \<Rightarrow> bool" where
  "repaid s1 resA bw \<longleftrightarrow> (if bw_borrowed bw then mt_day1 (bw_best bw) \<le> s1 \<and> better_for_button (bw_best bw) (ot_metrics resA) < 0
     else bw_best bw = ot_metrics resA) \<and> bw_best bw = ot_metrics (bw_res bw)"

lemma repaid_round:
  assumes "repaid s1 resA bw"
  shows "repaid s1 resA (borrow_round env cap t0 seed s1 k bw)"
proof -
  have "better_for_button (bw_best bw) (ot_metrics resA) \<le> 0"
    using assms by (auto simp: repaid_def better_for_button_def compare_on_def split: if_splits)
  then have "better_for_button x (ot_metrics resA) < 0" if "better_for_button x (bw_best bw) < 0" for x
    using that button_trans by blast
  then show ?thesis using assms by (auto simp: borrow_round_def Let_def repaid_def split: prod.split)
qed

lemma repaid_eng [simp]: "repaid s1 resA (bw\<lparr>bw_eng := st\<rparr>) = repaid s1 resA bw"
  by (simp add: repaid_def)

lemma repaid_rounds: "repaid s1 resA bw \<Longrightarrow> repaid s1 resA (borrow_rounds env cap t0 seed s1 ks bw)"
proof (induction ks arbitrary: bw)
  case (Cons k ks)
  then show ?case using repaid_round [of s1 resA "bw\<lparr>bw_eng := snd (eng_now (bw_eng bw))\<rparr>"] by (simp add: split_beta)
qed simp

lemma borrow_ok:
  assumes p: "om_s1Ceil (read_params (e_opts st)) = None" "om_gap2Lock (read_params (e_opts st)) = None"
    and r: "optimizeGap2WithBorrow env st = (res, st')"
  shows "mt_gap2 (bo_metrics res) \<le> mt_gap2 (bo_initial res)" "mt_day1 (bo_metrics res) \<le> mt_day1 (bo_initial res)"
    "bo_metrics res = ot_metrics (bo_res res)" "\<exists>B. consistent B st'"
proof -
  let ?cap = "num_or 240000 (jprop (e_opts st) ''optimizeHardCapMs'')"
  obtain t0 st1 where t: "eng_now st = (t0, st1)" by fastforce
  obtain seed st2 where s: "seed_base st1 = (seed, st2)" by fastforce
  obtain resA st3 where a: "run_phase env ?cap t0 seed Gap2 (2 / 5) no_slack 1 st2 = (resA, st3)" by fastforce
  obtain late st4 where l: "(if mt_gap2 (ot_metrics resA) = 0 then (True, st3)
      else case eng_now st3 of (t, s) \<Rightarrow> (t - t0 > ?cap * (9 / 10), s)) = (late, st4)" by fastforce
  define bw where "bw = borrow_rounds env ?cap t0 seed (mt_day1 (ot_initial resA)) [0..<6]
    \<lparr>bw_eng = st4, bw_res = resA, bw_best = ot_metrics resA, bw_tkb = grab_tkb st4, bw_borrowed = False\<rparr>"
  have e: "e_opts st2 = e_opts st"
    using t s by (auto simp: eng_now_def date_now_def seed_base_def split: option.splits if_splits)
  have g: "mt_gap2 (ot_metrics resA) \<le> mt_gap2 (ot_initial resA) \<and> mt_day1 (ot_metrics resA) \<le> mt_day1 (ot_initial resA)"
    by (rule phase_gap2 [OF _ _ a]) (simp_all only: e p)
  have bw: "repaid (mt_day1 (ot_initial resA)) resA bw" unfolding bw_def by (rule repaid_rounds) (simp add: repaid_def)
  have w: "(res, st') = (if late then (\<lparr>bo_res = resA, bo_initial = ot_initial resA, bo_metrics = ot_metrics resA, bo_borrowed = False\<rparr>, loadExistingSchedule st4)
      else (\<lparr>bo_res = bw_res bw, bo_initial = ot_initial resA, bo_metrics = bw_best bw, bo_borrowed = bw_borrowed bw\<rparr>,
        loadExistingSchedule (put_tkb (bw_tkb bw) (bw_eng bw))))"
    unfolding r [symmetric] optimizeGap2WithBorrow_def Let_def t prod.case s a l bw_def by (rule refl)
  show "mt_gap2 (bo_metrics res) \<le> mt_gap2 (bo_initial res)" "mt_day1 (bo_metrics res) \<le> mt_day1 (bo_initial res)"
    "bo_metrics res = ot_metrics (bo_res res)"
    using w g bw button_gap2 [of "bw_best bw" "ot_metrics resA"] by (auto simp: repaid_def split: if_splits)
  show "\<exists>B. consistent B st'" using w load_consistent(1) by (auto split: if_splits)
qed

end
