(* ===== verification/FeOptProps.thy ===== *)
theory FeOptProps
  imports FeProps FeOptimizeAllOk
begin

section \<open>FET engine: the properties of the optimiser\<close>

text \<open>
  What holds of \<open>optimize\<close>, \<open>optimizeAll\<close> and \<open>optimizeGap2WithBorrow\<close> for every behaviour of the
  operators that are not modelled, every clock and every moment at which the page asks to stop.
\<close>

subsection \<open>One run\<close>

text \<open>
  C12: one run of \<open>optimize\<close> in any mode ends in a state that passes the integrity gate, has every lesson
  that stood after loading and repair, no more empty cells for the pupils, and measures that are no worse
  than at the start; the metrics it reports are those of the start or strictly better ones.
\<close>

theorem optimize_never_worse:
  "let L = loaded mode st; r = optimize env par inAll stage mode st
   in verifyPlacementIntegrity (snd r) \<and> e_acts (snd r) = e_acts L \<and> placed L \<subseteq> placed (snd r)
     \<and> countStudentHoles (snd r) \<le> countStudentHoles L \<and> ot_initial (fst r) = evaluateMetrics L
     \<and> compareMetrics (snd r) mode (Some (evaluateMetrics (snd r))) (Some (evaluateMetrics L)) \<le> 0
     \<and> (ot_metrics (fst r) = evaluateMetrics L \<or> compareMetrics (snd r) mode (Some (ot_metrics (fst r))) (Some (evaluateMetrics L)) < 0)"
proof (rule optimize_ok [OF refl, of env par inAll stage mode st])
  fix st1 S
  define L where "L = loaded mode st"
  define r where "r = optimize env par inAll stage mode st"
  assume *: "snd (optimize env par inAll stage mode st) = applyToDataTKB st1" "no_worse S mode (evaluateMetrics (loaded mode st)) st1"
    "gate_view S = gate_view (loaded mode st)" "sig S = sig (loaded mode st)"
    "ot_initial (fst (optimize env par inAll stage mode st)) = evaluateMetrics (loaded mode st)"
    "ot_metrics (fst (optimize env par inAll stage mode st)) = evaluateMetrics (loaded mode st)
     \<or> compareMetrics S mode (Some (ot_metrics (fst (optimize env par inAll stage mode st)))) (Some (evaluateMetrics (loaded mode st))) < 0"
  have o: "snd r = applyToDataTKB st1" and n: "no_worse S mode (evaluateMetrics L) st1" and V: "gate_view S = gate_view L" "sig S = sig L"
    and i: "ot_initial (fst r) = evaluateMetrics L"
    and m: "ot_metrics (fst r) = evaluateMetrics L \<or> compareMetrics S mode (Some (ot_metrics (fst r))) (Some (evaluateMetrics L)) < 0"
    by (rule * [folded L_def r_def])+
  have N: "verifyPlacementIntegrity st1" "placed_periods S \<le> placed_periods st1" "compareMetrics S mode (Some (evaluateMetrics st1)) (Some (evaluateMetrics L)) \<le> 0"
    using n by (simp_all add: no_worse_def)
  have l: "framed (frozen S) (length (e_place S)) st1" using n by (simp add: no_worse_def like_def)
  note f = framedD(1,2) [OF l]
  have s: "gate_view (snd r) = gate_view st1" "evaluateMetrics (snd r) = evaluateMetrics st1" "settings (snd r) = settings S" "placed (snd r) = placed st1"
    using f(1) by (simp_all add: o applyToDataTKB_def gate_view_def placed_def settings_def frozen_def steering_def
        evaluate_cong [of "_\<lparr>e_data := _\<rparr>" st1])
  have c: "compareMetrics (snd r) = compareMetrics S"
    using s(3) by (intro ext, simp only: compareMetrics_def compare_mode_def lockViolations_def settings_def prod.inject)
  have a: "e_acts st1 = e_acts L" "e_permanent st1 = e_permanent L" "e_holes st1 = e_holes L" "placed_periods S = placed_periods L"
    "length (e_place st1) = length (e_place L)"
    using frozenD [OF f(1)] V f(2) by (simp_all add: gate_view_def placed_periods_def)
  obtain B where "consistent B L" using loaded_start(1) [OF L_def] by blast
  then have len: "length (e_place L) = length (e_acts L)" using agreeD(1) by (auto simp: consistent_def)
  have "placed L \<subseteq> placed st1"
    using none_lost [OF loaded_start(4,5) [OF L_def] len _ a(1,2) N(1)] N(2) a(4,5) len by simp
  moreover have "countStudentHoles (snd r) \<le> countStudentHoles L"
    using holes_cong [of "snd r" st1] s(1) N(1) loaded_start(3) [OF L_def] a(3) by (simp add: verifyPlacementIntegrity_def gate_view_def)
  moreover have "verifyPlacementIntegrity (snd r)" using gate_cong [OF s(1)] N(1) by simp
  moreover have "e_acts (snd r) = e_acts L" using s(1) a(1) by (simp add: gate_view_def)
  ultimately show ?thesis unfolding Let_def L_def [symmetric] r_def [symmetric] c s(2,4) using i m N(3) by (intro conjI)
qed

text \<open>The lesson periods that share a class or a teacher with another, and those on a closed cell.\<close>

definition double_booked :: "eng \<Rightarrow> ((nat \<times> nat) \<times> (nat \<times> nat)) list" where
  "double_booked st = filter (\<lambda>(x, y). snd x = snd y \<and> fst x \<noteq> fst y
       \<and> (ac_class (e_acts st ! fst x) = ac_class (e_acts st ! fst y)
          \<or> list_ex (\<lambda>t. t \<in> set (act_teachers (e_acts st ! fst y))) (act_teachers (e_acts st ! fst x))))
     (List.product (lesson_list st) (lesson_list st))"

definition closed_lessons :: "eng \<Rightarrow> (nat \<times> nat) list" where
  "closed_lessons st = filter (\<lambda>(i, s). let a = e_acts st ! i in
     (ac_class a, s) \<in> e_off st \<or> map_of (e_fixed st) (ac_class a, s) \<noteq> None
     \<or> list_ex (\<lambda>t. (t, s) \<in> e_toff st) (act_teachers a)) (lesson_list st)"

lemma gate_lists:
  assumes v: "verifyPlacementIntegrity st" and len: "length (e_place st) = length (e_acts st)"
  shows "double_booked st = []" "closed_lessons st = []"
proof -
  have "\<not> (snd x = snd y \<and> fst x \<noteq> fst y \<and> (ac_class (e_acts st ! fst x) = ac_class (e_acts st ! fst y)
      \<or> list_ex (\<lambda>t. t \<in> set (act_teachers (e_acts st ! fst y))) (act_teachers (e_acts st ! fst x))))"
    if "x \<in> set (lesson_list st)" "y \<in> set (lesson_list st)" for x y
    using integrity_disjoint [OF v, of "fst x" "fst y" "snd x"] that unfolding lesson_in [OF len] list_ex_iff by auto
  then show "double_booked st = []" by (auto simp: double_booked_def filter_empty_conv)
  show "closed_lessons st = []"
    using integrity_cell(2-4) [OF v] by (auto simp: closed_lessons_def filter_empty_conv lesson_in [OF len] list_ex_iff Let_def)
qed

text \<open>
  C32: whatever the operators do, the timetable that \<open>optimize\<close> leaves has no two lessons of one period
  that share a class or a teacher and no lesson on a closed cell.
\<close>

theorem optimize_sound:
  "double_booked (snd (optimize env par inAll stage mode st)) = [] \<and> closed_lessons (snd (optimize env par inAll stage mode st)) = []"
proof (rule optimize_ok [OF refl, of env par inAll stage mode st])
  fix st1 S
  assume o: "snd (optimize env par inAll stage mode st) = applyToDataTKB st1" and n: "no_worse S mode (evaluateMetrics (loaded mode st)) st1"
    and V: "sig S = sig (loaded mode st)" "gate_view S = gate_view (loaded mode st)"
  have l: "framed (frozen S) (length (e_place S)) st1" using n by (simp add: no_worse_def like_def)
  obtain B where "consistent B (loaded mode st)" using loaded_start(1) [OF refl] by blast
  then have "length (e_place (loaded mode st)) = length (e_acts (loaded mode st))" using agreeD(1) by (auto simp: consistent_def)
  then have len: "length (e_place st1) = length (e_acts st1)"
    using framedD(2) [OF l] frozenD(3) [OF framedD(1) [OF l]] V by (simp add: gate_view_def)
  have w: "gate_view (applyToDataTKB st1) = gate_view st1" by (simp add: applyToDataTKB_def gate_view_def)
  then have "verifyPlacementIntegrity (applyToDataTKB st1)" using gate_cong [OF w] n by (simp add: no_worse_def)
  then show ?thesis using gate_lists [of "applyToDataTKB st1"] w len by (simp add: o gate_view_def)
qed

subsection \<open>The controllers\<close>

text \<open>
  C37: with options that do not override the locks, \<open>optimizeAll\<close> reports metrics that are
  lexicographically no worse than those it started from, each of its stages ends no worse than it began,
  and no later stage raises a measure above the value at which an earlier one has locked it.
\<close>

theorem optimizeAll_keeps_locks:
  assumes "no_override (read_params (e_opts st))" and "optimizeAll env st = (res, st')"
  shows "compare_on [mt_day1, mt_gap2, mt_sessions, mt_gap1, mt_days] (ar_metrics res) (ar_initial res) \<le> 0
    \<and> list_all (\<lambda>sg. (case sg_before sg of None \<Rightarrow> True
             | Some b \<Rightarrow> compare_on [mt_day1, mt_gap2, mt_sessions, mt_gap1, mt_days] (sg_after sg) b \<le> 0)
         \<and> (case sg_exit sg of Locked k n \<Rightarrow> lock_val k (ar_metrics res) \<le> n | _ \<Rightarrow> True)) (ar_stages res)"
  using all_held(1) [OF assms] all_held(2) [OF assms] by (simp add: no_later_def list_all_iff cong: option.case_cong)

lemma demo_options: "no_override (read_params (e_opts demo))"
  by (simp add: demo_def read_params_def no_override_def num_or_def)

lemma optimizeAll_keeps_locks_witness:
  "compare_on [mt_day1, mt_gap2, mt_sessions, mt_gap1, mt_days] (ar_metrics (fst (optimizeAll \<lparr>oe_stop = (\<lambda>_. False), oe_op = (\<lambda>_ _ s. (Inl (), s))\<rparr> demo)))
     (ar_initial (fst (optimizeAll \<lparr>oe_stop = (\<lambda>_. False), oe_op = (\<lambda>_ _ s. (Inl (), s))\<rparr> demo))) \<le> 0"
  using optimizeAll_keeps_locks [OF demo_options prod.collapse [symmetric],
      of "\<lparr>oe_stop = (\<lambda>_. False), oe_op = (\<lambda>_ _ s. (Inl (), s))\<rparr>"] by (rule conjunct1)

text \<open>
  A run that borrows single-period sessions ends with no more large gaps and no more single-period
  sessions than it started with; the metrics it reports are those of the run it returns, and the engine
  is consistent.
\<close>

lemma optimizeGap2WithBorrow_repays:
  assumes "om_s1Ceil (read_params (e_opts st)) = None" "om_gap2Lock (read_params (e_opts st)) = None"
    and "optimizeGap2WithBorrow env st = (res, st')"
  shows "mt_gap2 (bo_metrics res) \<le> mt_gap2 (bo_initial res) \<and> mt_day1 (bo_metrics res) \<le> mt_day1 (bo_initial res)
    \<and> bo_metrics res = ot_metrics (bo_res res) \<and> (\<exists>B. consistent B st')"
  using borrow_ok [OF assms] by simp

lemma optimizeGap2WithBorrow_repays_witness:
  "\<exists>res st'. optimizeGap2WithBorrow \<lparr>oe_stop = (\<lambda>_. False), oe_op = (\<lambda>_ _ s. (Inl (), s))\<rparr> demo = (res, st')
     \<and> mt_gap2 (bo_metrics res) \<le> mt_gap2 (bo_initial res) \<and> mt_day1 (bo_metrics res) \<le> mt_day1 (bo_initial res)"
proof -
  have "om_s1Ceil (read_params (e_opts demo)) = None" "om_gap2Lock (read_params (e_opts demo)) = None"
    using demo_options by (simp_all add: no_override_def)
  from optimizeGap2WithBorrow_repays [OF this] show ?thesis by (metis surj_pair)
qed

subsection \<open>The deadline that is left over\<close>

text \<open>
  C39: the deadline of \<open>solve\<close> survives a reload. Once it has passed, every fresh search for a place in
  the reloaded engine, and in whatever state the moves make of it, fails at once and changes no grid.
\<close>

theorem late_engine_stuck:
  assumes "e_deadline st = Some d" "\<forall>n. d < e_clock st n" and "frozen st1 = frozen (loadExistingSchedule st)"
  shows "\<not> fst (fresh_swap restrict i st1) \<and> grids (snd (fresh_swap restrict i st1)) = grids st1"
proof (rule late_swap)
  show "e_deadline st1 = Some d" "d < e_clock st1 (e_ticks st1)"
    using assms load_deadline [of st] by (simp_all add: frozen_def steering_def)
qed

lemma late_engine_stuck_witness:
  "\<not> fst (fresh_swap None 0 (loadExistingSchedule (demo\<lparr>e_deadline := Some (- 1)\<rparr>)))"
  using late_engine_stuck [of "demo\<lparr>e_deadline := Some (- 1)\<rparr>" "- 1", OF _ _ refl] by (simp add: demo_def)

end
