(* ===== verification/FeWorker.thy ===== *)
theory FeWorker
  imports FeOptimizeAll
begin

section \<open>FET engine: the worker\<close>

text \<open>
  \<open>pages/tkb-fet-worker.js\<close>: the construction with several seeds followed by the optimiser, and the
  handler of the messages of the page.

  \<^item> One clock \<open>clk\<close> is read by the worker and by its engines in turn; an engine started at its \<open>t\<close>-th
    reading goes on from there.
  \<^item> Progress messages and the snapshots taken for them are left out, as the progress callbacks of the
    engine are. The engine model has no exceptions, so the answer \<open>error\<close> only refuses a request.
\<close>

definition engine_at :: "(nat \<Rightarrow> int) \<Rightarrow> nat \<Rightarrow> js \<Rightarrow> js \<Rightarrow> eng" where
  "engine_at clk t data opts = new_engine data opts (\<lambda>n. clk (t + n))"

definition env_at :: "nat \<Rightarrow> opt_env \<Rightarrow> opt_env" where
  "env_at t env = env\<lparr>oe_stop := (\<lambda>n. oe_stop env (t + n))\<rparr>"

subsection \<open>Construction with several seeds\<close>

definition max_attempts :: nat where
  "max_attempts = 8"

definition attempt_window :: int where
  "attempt_window = 75000"

definition max_safe :: nat where
  "max_safe = 9007199254740991"

definition base_seed :: "js \<Rightarrow> int" where
  "base_seed opts = (case js_number (jprop opts ''seed'') of Some q \<Rightarrow> (if q = 0 then 12345 else \<lfloor>q\<rfloor>) | None \<Rightarrow> 12345)"

definition shortage :: "solve_result \<Rightarrow> nat" where
  "shortage r = (if sr_ok r then sr_unassigned r else max_safe)"

text \<open>An attempt: its result, its engine, the reading of the clock at which the engine was made.\<close>

record built =
  bt_res :: solve_result
  bt_eng :: eng
  bt_start :: nat

definition build_once :: "(nat \<Rightarrow> int) \<Rightarrow> js \<Rightarrow> js \<Rightarrow> nat \<Rightarrow> nat \<Rightarrow> built" where
  "build_once clk data opts t k =
     (case solve True (engine_at clk t (json_clone data) (jput (u ''seed'') (JNum (base_seed opts + int k * 7919)) opts)) of
        (r, _, e) \<Rightarrow> \<lparr>bt_res = r, bt_eng = snd (getSnapshotTKB None e), bt_start = t\<rparr>)"

definition bt_end :: "built \<Rightarrow> nat" where
  "bt_end b = bt_start b + e_ticks (bt_eng b)"

definition keep_better :: "built option \<Rightarrow> built \<Rightarrow> built" where
  "keep_better best b = (case best of None \<Rightarrow> b | Some b0 \<Rightarrow> if shortage (bt_res b) < shortage (bt_res b0) then b else b0)"

fun try_seeds :: "(nat \<Rightarrow> int) \<Rightarrow> js \<Rightarrow> js \<Rightarrow> int \<Rightarrow> nat list \<Rightarrow> built option \<Rightarrow> nat \<Rightarrow> built option" where
  "try_seeds clk data opts deadline [] best t = best"
| "try_seeds clk data opts deadline (k # ks) best t =
     (let b = build_once clk data opts t k; best1 = keep_better best b
      in if shortage (bt_res b) = 0 then Some best1
         else if deadline < clk (bt_end b) then Some best1
         else try_seeds clk data opts deadline ks (Some best1) (Suc (bt_end b)))"

datatype all_outcome = Unbuilt solve_result | Optimised all_result nat nat

text \<open>\<open>runSolveOptimizeAllImpl\<close>; of the optimised outcome the two numbers are \<open>placed\<close> and \<open>unassigned\<close>.\<close>

definition runSolveOptimizeAllImpl :: "opt_env \<Rightarrow> (nat \<Rightarrow> int) \<Rightarrow> js \<Rightarrow> js \<Rightarrow> nat \<Rightarrow> (all_outcome \<times> eng) option" where
  "runSolveOptimizeAllImpl env clk data opts t =
     (case try_seeds clk data opts (clk t + attempt_window) [0..<max_attempts] None (Suc t) of
        None \<Rightarrow> None
      | Some b \<Rightarrow>
          if \<not> sr_ok (bt_res b) then Some (Unbuilt (bt_res b), bt_eng b)
          else case optimizeAll (env_at (bt_start b) env) (bt_eng b) of
                 (out, e) \<Rightarrow> Some (Optimised out (sr_placed (bt_res b)) (shortage (bt_res b)), e))"

subsection \<open>The messages\<close>

datatype answer =
    Done js "metrics option" "metrics option" "nat option" "nat option"
  | SolveDone js solve_result
  | RefusedMode
  | Ignored

definition mode_of :: "ustr \<Rightarrow> opt_mode" where
  "mode_of s = (if s = u ''optimize_singletons'' then Singletons else if s = u ''optimize_gap2'' then Gap2
     else if s = u ''optimize_sessions'' then Sessions else if s = u ''optimize_gap1'' then Gap1 else OtherMode)"

definition worker_options :: "js \<Rightarrow> js" where
  "worker_options opts = JObj (fold (\<lambda>(k, v). AList.update k v) (entries opts) [(u ''uiBreathingMs'', JNum 0)])"

definition snapshot_done :: "eng \<Rightarrow> metrics option \<Rightarrow> metrics option \<Rightarrow> nat option \<Rightarrow> nat option \<Rightarrow> answer" where
  "snapshot_done e a b p q = Done (fst (getSnapshotTKB None e)) a b p q"

definition run_optimize :: "opt_env \<Rightarrow> (nat \<Rightarrow> int) \<Rightarrow> js \<Rightarrow> ustr \<Rightarrow> js \<Rightarrow> answer" where
  "run_optimize env clk data mode opts =
     (let st = engine_at clk 0 data opts
      in if mode = u ''solve_optimize_all'' \<or> mode = u ''solve_optimize_all_fresh'' then
           (case runSolveOptimizeAllImpl env clk data opts (e_ticks st) of
              None \<Rightarrow> snapshot_done st None None None None
            | Some (Unbuilt r, e) \<Rightarrow> snapshot_done e None None (Some (sr_placed r)) (Some (sr_unassigned r))
            | Some (Optimised a p q, e) \<Rightarrow> snapshot_done e (Some (ar_initial a)) (Some (ar_metrics a)) (Some p) (Some q))
         else if mode = u ''optimize_all'' then
           (case optimizeAll env st of (a, e) \<Rightarrow>
              snapshot_done e (Some (ar_initial a)) (Some (ar_metrics a)) (Some (ar_placed a)) (Some (ar_unassigned a)))
         else if mode = u ''optimize_gap2'' then
           (case optimizeGap2WithBorrow env st of (b, e) \<Rightarrow>
              snapshot_done e (Some (bo_initial b)) (Some (bo_metrics b)) (Some (ot_placed (bo_res b))) (Some (ot_unassigned (bo_res b))))
         else
           (case optimize env (read_params opts) False None (mode_of mode) st of (r, e) \<Rightarrow>
              snapshot_done e (Some (ot_initial r)) (Some (ot_metrics r)) (Some (ot_placed r)) (Some (ot_unassigned r))))"

definition onmessage :: "opt_env \<Rightarrow> (nat \<Rightarrow> int) \<Rightarrow> js \<Rightarrow> answer" where
  "onmessage env clk msg =
     (let act = js_or (jprop msg ''action'') (jprop msg ''type''); mode = js_string (js_or (jprop msg ''mode'') (JStr []));
          data = js_or (jprop msg ''data'') (JObj []); opts = js_or (jprop msg ''options'') (JObj [])
      in if act = JStr (u ''optimize'') then run_optimize env clk data mode (worker_options opts)
         else if act = JStr (u ''solve'') then
           (if starts_with (u ''optimize'') (toLowerCase mode) then RefusedMode
            else case solve True (engine_at clk 0 data opts) of (r, _, e) \<Rightarrow> SolveDone (fst (getSnapshotTKB None e)) r)
         else Ignored)"

end
