(* ===== verification/FeWorkProps.thy ===== *)
theory FeWorkProps
  imports FeWorker FeOptProps
begin

section \<open>FET engine: what the worker answers\<close>

text \<open>The loop over the seeds, and the composition of construction and optimiser.\<close>

lemma solve_ok_iff: "sr_ok (fst (solve cb st)) \<longleftrightarrow> sr_unassigned (fst (solve cb st)) = 0"
  by (simp add: solve_def Let_def split_beta)

lemma build_once_res:
  "bt_res (build_once clk data opts t k) = fst (solve True (engine_at clk t (json_clone data)
     (jput (u ''seed'') (JNum (base_seed opts + int k * 7919)) opts)))"
  by (simp add: build_once_def split_beta)

lemma shortage_zero: "shortage (bt_res (build_once clk data opts t k)) = 0 \<longleftrightarrow> sr_ok (bt_res (build_once clk data opts t k))"
  by (simp add: shortage_def build_once_res solve_ok_iff max_safe_def)

lemma shortage_short: "\<not> sr_ok r \<Longrightarrow> shortage r = max_safe"
  by (simp add: shortage_def)

definition an_attempt :: "(nat \<Rightarrow> int) \<Rightarrow> js \<Rightarrow> js \<Rightarrow> built \<Rightarrow> bool" where
  "an_attempt clk data opts b \<longleftrightarrow> (\<exists>t k. b = build_once clk data opts t k)"

lemma attempt_consistent:
  assumes "an_attempt clk data opts b"
  shows "\<exists>B. consistent B (bt_eng b)"
proof -
  obtain t k where b: "b = build_once clk data opts t k" using assms by (auto simp: an_attempt_def)
  let ?s = "engine_at clk t (json_clone data) (jput (u ''seed'') (JNum (base_seed opts + int k * 7919)) opts)"
  have "bt_eng b = applyToDataTKB (snd (snd (solve True ?s)))"
    by (simp add: b build_once_def getSnapshotTKB_def split_beta Let_def)
  then have "consistent (solve_base ?s) (bt_eng b)"
    using solve_consistent [of ?s True] by (simp add: applyToDataTKB_def consistent_data)
  then show ?thesis ..
qed

text \<open>Once an attempt falls short, only a complete one replaces it.\<close>

lemma try_seeds_kept:
  assumes "an_attempt clk data opts b0" "\<not> sr_ok (bt_res b0)"
  shows "\<exists>b. try_seeds clk data opts dl ks (Some b0) t = Some b \<and> an_attempt clk data opts b
     \<and> (b = b0 \<or> sr_ok (bt_res b))"
  using assms
proof (induction ks arbitrary: t)
  case (Cons k ks)
  define b where "b = build_once clk data opts t k"
  have at: "an_attempt clk data opts b" by (auto simp: an_attempt_def b_def)
  show ?case
  proof (cases "sr_ok (bt_res b)")
    case True
    then have "shortage (bt_res b) = 0" using shortage_zero unfolding b_def by blast
    then show ?thesis
      using at True Cons.prems(2)
      by (simp add: Let_def b_def [symmetric] keep_better_def shortage_short max_safe_def)
  next
    case False
    then have "shortage (bt_res b) = max_safe" "keep_better (Some b0) b = b0"
      using Cons.prems(2) by (simp_all add: keep_better_def shortage_short)
    then show ?thesis
      using Cons.IH [OF Cons.prems] Cons.prems(1) by (simp add: Let_def b_def [symmetric] max_safe_def)
  qed
qed simp

lemma try_seeds_first:
  "\<exists>b. try_seeds clk data opts dl (0 # ks) None t = Some b \<and> an_attempt clk data opts b
     \<and> (b = build_once clk data opts t 0 \<or> sr_ok (bt_res b))"
proof -
  define b where "b = build_once clk data opts t 0"
  have at: "an_attempt clk data opts b" by (auto simp: an_attempt_def b_def)
  show ?thesis
  proof (cases "sr_ok (bt_res b)")
    case True
    then have "shortage (bt_res b) = 0" using shortage_zero unfolding b_def by blast
    then show ?thesis using at by (simp add: Let_def b_def [symmetric] keep_better_def)
  next
    case False
    then show ?thesis
      using at try_seeds_kept [OF at False] by (simp add: Let_def b_def [symmetric] keep_better_def)
  qed
qed

lemma optimizeAll_consistent: "\<exists>B. consistent B (snd (optimizeAll env st))"
proof -
  obtain t m al where a: "all_phases env st = (t, m, al)" by (metis surj_pair)
  let ?l = "loadExistingSchedule (put_tkb (al_tkb al) (al_eng al))"
  have "snd (optimizeAll env st) = snd (eng_now (?l\<lparr>e_lockS1 := None, e_lockGap2 := None\<rparr>))"
    by (simp add: optimizeAll_def a Let_def split_beta)
  then have "sig (snd (optimizeAll env st)) = sig ?l" "grids (snd (optimizeAll env st)) = grids ?l"
    by (simp_all add: eng_now_def date_now_def sig_def grids_def)
  then show ?thesis using consistent_cong load_consistent(1) by blast
qed

text \<open>
  C19: the all-in-one request is always answered, with a timetable in which no two lessons of one period
  share a class, a teacher or a room and none is misplaced or torn. If no attempt is complete the answer is
  the result of the first attempt, whatever the later ones have reached, and nothing is optimised; else
  a complete attempt is optimised, and no period is reported as left out.
\<close>

theorem worker_answers:
  "case runSolveOptimizeAllImpl env clk data opts t of None \<Rightarrow> False
   | Some (out, e) \<Rightarrow> clashes e = [] \<and> misplaced e = [] \<and> torn e = []
       \<and> (case out of Unbuilt r \<Rightarrow> r = bt_res (build_once clk data opts (Suc t) 0) \<and> \<not> sr_ok r
          | Optimised a p q \<Rightarrow> q = 0 \<and> (\<exists>b. an_attempt clk data opts b \<and> sr_ok (bt_res b) \<and> p = sr_placed (bt_res b)
               \<and> (a, e) = optimizeAll (env_at (bt_start b) env) (bt_eng b)))"
proof -
  have "[0..<max_attempts] = 0 # [1..<max_attempts]" by (simp add: max_attempts_def upt_rec)
  then obtain b where b: "try_seeds clk data opts (clk t + attempt_window) [0..<max_attempts] None (Suc t) = Some b"
    and at: "an_attempt clk data opts b" and first: "b = build_once clk data opts (Suc t) 0 \<or> sr_ok (bt_res b)"
    using try_seeds_first by metis
  show ?thesis
  proof (cases "sr_ok (bt_res b)")
    case False
    obtain B where "consistent B (bt_eng b)" using attempt_consistent [OF at] by blast
    then show ?thesis using consistent_clean False first by (auto simp: runSolveOptimizeAllImpl_def b)
  next
    case True
    obtain B where B: "consistent B (snd (optimizeAll (env_at (bt_start b) env) (bt_eng b)))"
      using optimizeAll_consistent by blast
    have "shortage (bt_res b) = 0" using at True shortage_zero by (auto simp: an_attempt_def)
    then show ?thesis using consistent_clean [OF B] True at by (auto simp: runSolveOptimizeAllImpl_def b split_beta)
  qed
qed

end
