(* ===== verification/StStore.thy ===== *)
theory StStore
  imports JsPrelude
begin

section \<open>The school store and its save guard\<close>

text \<open>
  \<open>shared/storage.js\<close>: loading the data of a school from the server, saving them, and the guard that
  keeps a page which does not know what the server holds from overwriting it. \<open>sanitizeSchoolId\<close> is from
  \<open>shared/school-context.js\<close>, which every page loads before.

  \<^item> A request ends with a status and a body (\<open>None\<close> when it is not JSON), or without a reply. What the
    server answers is an argument. A save is a start, up to the request, and an end, when the reply
    arrives; so is a load.
  \<^item> The texts of the messages, the banner, the console and the purge of the local caches are left out;
    \<open>REMOTE_ONLY_STORAGE\<close> is the constant true.
  \<^item> \<open>normalize("NFC")\<close> is a parameter.
\<close>

subsection \<open>School ids\<close>

definition is_alnum :: "nat \<Rightarrow> bool" where
  "is_alnum c \<longleftrightarrow> 48 \<le> c \<and> c \<le> 57 \<or> 65 \<le> c \<and> c \<le> 90 \<or> 97 \<le> c \<and> c \<le> 122"

definition stripVietnameseMarks :: "ustr \<Rightarrow> ustr" where
  "stripVietnameseMarks s = nfd_strip (map (\<lambda>c. if c = 273 \<or> c = 272 then 100 else c) s)"

definition sanitizeOptionalSchoolId :: "js \<Rightarrow> ustr" where
  "sanitizeOptionalSchoolId x = toLowerCase (filter is_alnum (stripVietnameseMarks (trim (js_string (js_or x (JStr [])))) ))"

definition cleanSchoolId :: "js \<Rightarrow> ustr" where
  "cleanSchoolId x = (let s = sanitizeOptionalSchoolId x in if s = [] then u ''default'' else s)"

subsection \<open>Data worth keeping\<close>

definition hasObjectEntries :: "js \<Rightarrow> bool" where
  "hasObjectEntries v \<longleftrightarrow> is_object v \<and> \<not> is_array v \<and> entries v \<noteq> []"

fun hasDeepContent :: "js \<Rightarrow> bool" where
  "hasDeepContent (JArr xs) = (xs \<noteq> [])"
| "hasDeepContent (JObj kvs) = list_ex (\<lambda>kv. hasDeepContent (snd kv)) kvs"
| "hasDeepContent v = (\<not> nullish v \<and> trim (js_string v) \<noteq> [])"

definition hasMeaningfulConstraints :: "js \<Rightarrow> bool" where
  "hasMeaningfulConstraints c \<longleftrightarrow> is_object c \<and> \<not> is_array c
     \<and> list_ex (\<lambda>(k, v). k \<noteq> u ''meta'' \<and> k \<noteq> u ''__normalizedBy'' \<and> hasDeepContent v) (entries c)"

definition hasMeaningfulData :: "js \<Rightarrow> bool" where
  "hasMeaningfulData d \<longleftrightarrow> is_object d \<and> \<not> is_array d
     \<and> (list_ex (\<lambda>k. array_of (jprop d k) \<noteq> []) [''khoi'', ''lop'', ''giaovien'', ''monhoc'', ''mon'']
        \<or> list_ex (\<lambda>k. hasObjectEntries (jprop d k)) [''pccmMatrix'', ''pccmTietMatrix'', ''pccmGioihanMatrix'', ''tkb'', ''tkbUserOff'']
        \<or> hasMeaningfulConstraints (jprop d ''tkbConstraints''))"

subsection \<open>The page\<close>

datatype load_state = LoadOk | LoadEmpty | LoadFailed

record save_error =
  se_status :: nat
  se_kind :: js

text \<open>\<open>remoteLoadState\<close>, \<open>remoteAuthRequired\<close>, \<open>TKBStorage_lastSaveError\<close>.\<close>

record page =
  pg_loads :: "ustr \<Rightarrow> load_state option"
  pg_auth :: bool
  pg_error :: "save_error option"

definition fresh_page :: page where
  "fresh_page = \<lparr>pg_loads = (\<lambda>_. None), pg_auth = False, pg_error = None\<rparr>"

definition noteRemoteLoad :: "js \<Rightarrow> js \<Rightarrow> page \<Rightarrow> page" where
  "noteRemoteLoad sid d p = p\<lparr>pg_loads := (pg_loads p)(cleanSchoolId sid \<mapsto>
     (if \<not> is_object d then LoadFailed else if hasMeaningfulData d then LoadOk else LoadEmpty))\<rparr>"

datatype guard_answer = Refused string | Passed bool

definition remoteSaveGuard :: "js \<Rightarrow> js \<Rightarrow> page \<Rightarrow> guard_answer" where
  "remoteSaveGuard sid d p =
     (let state = pg_loads p (cleanSchoolId sid); meaningful = hasMeaningfulData d
      in if state = Some LoadFailed then Refused ''remote_load_failed_guard''
         else if \<not> meaningful \<and> state \<noteq> Some LoadEmpty then Refused ''empty_payload_guard''
         else Passed meaningful)"

subsection \<open>Loading\<close>

datatype reply = Reply nat "js option" | NoReply

definition denied :: "nat \<Rightarrow> bool" where
  "denied s \<longleftrightarrow> s = 401 \<or> s = 403"

definition status_ok :: "nat \<Rightarrow> bool" where
  "status_ok s \<longleftrightarrow> 200 \<le> s \<and> s < 300"

definition reportRemoteAuthRequired :: "nat \<Rightarrow> page \<Rightarrow> page" where
  "reportRemoteAuthRequired s p = (if denied s then p\<lparr>pg_auth := True\<rparr> else p)"

text \<open>The reply of a load, and \<open>loadRemoteSchoolData\<close> from the moment it arrives.\<close>

definition received :: "reply \<Rightarrow> page \<Rightarrow> js \<times> page" where
  "received r p = (case r of NoReply \<Rightarrow> (JNull, p)
     | Reply s b \<Rightarrow> if denied s then (JNull, reportRemoteAuthRequired s p)
        else if \<not> status_ok s then (JNull, p) else ((case b of Some d \<Rightarrow> d | None \<Rightarrow> JNull), p))"

definition load_end :: "js \<Rightarrow> reply \<Rightarrow> page \<Rightarrow> js \<times> page" where
  "load_end sid r p = (case received r p of (d, p1) \<Rightarrow> (d, noteRemoteLoad sid d p1))"

definition loadRemoteSchoolData :: "js \<Rightarrow> reply \<Rightarrow> page \<Rightarrow> js \<times> page" where
  "loadRemoteSchoolData sid r p = (if pg_auth p then (JNull, noteRemoteLoad sid JNull p) else load_end sid r p)"

subsection \<open>Saving\<close>

text \<open>
  Up to the request; the answer tells whether one is sent and whether its payload means anything. A
  payload that is not JSON counts as the empty object.
\<close>

definition payload_of :: "js option \<Rightarrow> js" where
  "payload_of t = (case t of Some d \<Rightarrow> d | None \<Rightarrow> JObj [])"

definition save_failed :: "nat \<Rightarrow> js \<Rightarrow> page \<Rightarrow> page" where
  "save_failed s k p = p\<lparr>pg_error := Some \<lparr>se_status = s, se_kind = k\<rparr>\<rparr>"

definition save_start :: "js \<Rightarrow> js option \<Rightarrow> page \<Rightarrow> bool option \<times> page" where
  "save_start sid t p =
     (if pg_auth p then (None, save_failed 401 (JStr (u ''auth_required_latched'')) p)
      else case remoteSaveGuard sid (payload_of t) p of
             Refused k \<Rightarrow> (None, save_failed 0 (JStr (u k)) p)
           | Passed m \<Rightarrow> (Some m, p))"

definition reply_kind :: "js option \<Rightarrow> ustr \<Rightarrow> js" where
  "reply_kind b dflt = (case b of None \<Rightarrow> JStr dflt | Some v \<Rightarrow> js_or (js_or (jprop v ''kind'') (jprop v ''error'')) (JStr dflt))"

definition save_end :: "js \<Rightarrow> bool \<Rightarrow> reply \<Rightarrow> page \<Rightarrow> bool \<times> page" where
  "save_end sid m r p = (case r of NoReply \<Rightarrow> (False, save_failed 0 (JStr (u ''network'')) p)
     | Reply s b \<Rightarrow>
        if denied s then (False, save_failed s (reply_kind b (u ''unauthorized'')) (reportRemoteAuthRequired s p))
        else if \<not> status_ok s then (False, save_failed s (reply_kind b (u ''http_'' @ nat_str s)) p)
        else (True, p\<lparr>pg_error := None, pg_loads := (pg_loads p)(cleanSchoolId sid \<mapsto> (if m then LoadOk else LoadEmpty))\<rparr>))"

definition saveRemoteSchoolData :: "js \<Rightarrow> js option \<Rightarrow> reply \<Rightarrow> page \<Rightarrow> bool \<times> page" where
  "saveRemoteSchoolData sid t r p = (case save_start sid t p of (None, p1) \<Rightarrow> (False, p1) | (Some m, p1) \<Rightarrow> save_end sid m r p1)"

definition auth_ready :: "page \<Rightarrow> page" where
  "auth_ready p = p\<lparr>pg_auth := False\<rparr>"

subsection \<open>Related stores\<close>

definition addUnique :: "js \<Rightarrow> ustr list \<Rightarrow> ustr list" where
  "addUnique v xs = (let i = cleanSchoolId v in if i \<in> set xs then xs else xs @ [i])"

definition num_or_zero :: "js \<Rightarrow> rat" where
  "num_or_zero v = (case js_number v of Some q \<Rightarrow> q | None \<Rightarrow> 0)"

text \<open>\<open>schedules.find(item => Number(item.number) === activeNum)\<close>; \<open>None\<close> when it reads a property of null.\<close>

fun find_active :: "rat option \<Rightarrow> js list \<Rightarrow> js option option" where
  "find_active n [] = Some None"
| "find_active n (x # xs) =
     (if nullish x then None
      else if n \<noteq> None \<and> js_number (jprop x ''number'') = n then Some (Some x) else find_active n xs)"

definition add_found :: "js option \<Rightarrow> ustr list \<Rightarrow> ustr list" where
  "add_found x out = (case x of Some i \<Rightarrow> if js_truthy i then addUnique (jprop i ''sid'') out else out | None \<Rightarrow> out)"

definition is_match :: "ustr \<Rightarrow> ustr \<times> js \<Rightarrow> bool" where
  "is_match target kv \<longleftrightarrow> cleanSchoolId (JStr (fst kv)) = target
     \<or> list_ex (\<lambda>x. cleanSchoolId (jprop x ''sid'') = target) (array_of (jprop (snd kv) ''schedules''))"

definition related_of_school :: "ustr \<times> js \<Rightarrow> js option \<Rightarrow> ustr list \<Rightarrow> ustr list" where
  "related_of_school kv active out =
     (let schedules = array_of (jprop (snd kv) ''schedules'');
          original = find (\<lambda>x. js_truthy (jprop x ''original'')) schedules;
          sorted = sort_key (\<lambda>x. num_or_zero (jprop x ''number'')) schedules
      in addUnique (JStr (fst kv)) (fold (\<lambda>x. addUnique (jprop x ''sid'')) sorted (add_found original (add_found active out))))"

text \<open>An exception ends the walk over the schools; the ids found before it are kept.\<close>

fun related_walk :: "ustr \<Rightarrow> (ustr \<times> js) list \<Rightarrow> ustr list \<Rightarrow> ustr list" where
  "related_walk target [] out = out"
| "related_walk target (kv # kvs) out =
     (if \<not> is_match target kv then related_walk target kvs out
      else case find_active (js_number (jprop (snd kv) ''activeSchedule'')) (array_of (jprop (snd kv) ''schedules'')) of
             None \<Rightarrow> out
           | Some active \<Rightarrow> related_walk target kvs (related_of_school kv active out))"

definition relatedStoreIds :: "js \<Rightarrow> js \<Rightarrow> ustr list" where
  "relatedStoreIds reg sid = (let target = cleanSchoolId sid
     in related_walk target (entries (jprop reg ''schools'')) (addUnique (JStr target) []))"

text \<open>
  The synchronous load asks by an \<open>XMLHttpRequest\<close>. It parses the body with \<open>safeParseJSON\<close> and
  the fallback null, for which that function answers the empty object: a body that is not JSON counts as
  an empty school here, where the asynchronous load counts it as failed.
\<close>

definition loadRemoteSchoolDataSync :: "js \<Rightarrow> reply \<Rightarrow> page \<Rightarrow> js \<times> page" where
  "loadRemoteSchoolDataSync sid r p =
     (if pg_auth p then (JNull, noteRemoteLoad sid JNull p)
      else case r of NoReply \<Rightarrow> (JNull, noteRemoteLoad sid JNull p)
         | Reply s b \<Rightarrow>
             if denied s then (JNull, noteRemoteLoad sid JNull (reportRemoteAuthRequired s p))
             else if \<not> status_ok s then (JNull, noteRemoteLoad sid JNull p)
             else (let d = (case b of Some d \<Rightarrow> d | None \<Rightarrow> JObj []) in (d, noteRemoteLoad sid d p)))"

text \<open>
  The fallback: the related stores in turn until one holds something. It then starts a save of what it
  found into the target, whose end is not awaited; the middle component is that start. The asynchronous
  and the synchronous one are the same but for the load they call.
\<close>

fun load_related :: "(js \<Rightarrow> reply \<Rightarrow> page \<Rightarrow> js \<times> page) \<Rightarrow> (ustr \<Rightarrow> reply) \<Rightarrow> js \<Rightarrow> ustr list \<Rightarrow> page
    \<Rightarrow> (js \<times> bool option) option \<times> page" where
  "load_related load net target [] p = (None, p)"
| "load_related load net target (i # is) p =
     (if pg_auth p then (Some (JNull, None), p)
      else case load (JStr i) (net i) p of (d, p1) \<Rightarrow>
        if hasMeaningfulData d then (case save_start target (Some d) p1 of (m, p2) \<Rightarrow> (Some (d, m), p2))
        else load_related load net target is p1)"

definition with_fallback :: "(js \<Rightarrow> reply \<Rightarrow> page \<Rightarrow> js \<times> page) \<Rightarrow> (ustr \<Rightarrow> reply) \<Rightarrow> js \<Rightarrow> js \<Rightarrow> page
    \<Rightarrow> (js \<times> bool option) \<times> page" where
  "with_fallback load net reg sid p =
     (let target = cleanSchoolId sid
      in case load (JStr target) (net target) p of (direct, p1) \<Rightarrow>
        if pg_auth p1 then ((JNull, None), p1)
        else if hasMeaningfulData direct then ((direct, None), p1)
        else case load_related load net (JStr target) (filter (\<lambda>i. i \<noteq> target) (relatedStoreIds reg (JStr target))) p1 of
               (Some r, p2) \<Rightarrow> (r, p2) | (None, p2) \<Rightarrow> ((direct, None), p2))"

definition loadRemoteSchoolDataWithFallback :: "(ustr \<Rightarrow> reply) \<Rightarrow> js \<Rightarrow> js \<Rightarrow> page \<Rightarrow> (js \<times> bool option) \<times> page" where
  "loadRemoteSchoolDataWithFallback = with_fallback loadRemoteSchoolData"

definition loadRemoteSchoolDataWithFallbackSync :: "(ustr \<Rightarrow> reply) \<Rightarrow> js \<Rightarrow> js \<Rightarrow> page \<Rightarrow> (js \<times> bool option) \<times> page" where
  "loadRemoteSchoolDataWithFallbackSync = with_fallback loadRemoteSchoolDataSync"

definition loadSchoolData :: "(ustr \<Rightarrow> reply) \<Rightarrow> js \<Rightarrow> js \<Rightarrow> page \<Rightarrow> (js \<times> ustr) \<times> page" where
  "loadSchoolData net reg sid p = (case loadRemoteSchoolDataWithFallback net reg sid p of ((d, _), p1) \<Rightarrow>
     (if hasMeaningfulData d then (d, u ''remote'') else (JObj [], u ''empty''), p1))"

definition saveSchoolData :: "js \<Rightarrow> js option \<Rightarrow> reply \<Rightarrow> page \<Rightarrow> bool \<times> page" where
  "saveSchoolData = saveRemoteSchoolData"

subsection \<open>Normalized text\<close>

text \<open>
  The walk normalizes what is below a key first; a key that changes is deleted, and its value moves to
  the normalized key at the end of the object unless that key is taken.
\<close>

definition rekey :: "(ustr \<Rightarrow> ustr) \<Rightarrow> ustr \<Rightarrow> (ustr \<times> js) list \<Rightarrow> (ustr \<times> js) list" where
  "rekey nfc k kvs = (if nfc k = k then kvs
     else let kvs1 = filter (\<lambda>kv. fst kv \<noteq> k) kvs
          in case map_of kvs k of None \<Rightarrow> kvs
             | Some v \<Rightarrow> if map_of kvs1 (nfc k) \<noteq> None then kvs1 else kvs1 @ [(nfc k, v)])"

fun nfc_value :: "(ustr \<Rightarrow> ustr) \<Rightarrow> js \<Rightarrow> js" where
  "nfc_value nfc (JStr s) = JStr (nfc s)"
| "nfc_value nfc (JArr xs) = JArr (map (nfc_value nfc) xs)"
| "nfc_value nfc (JObj kvs) = JObj (fold (rekey nfc) (map fst kvs) (map (\<lambda>(k, v). (k, nfc_value nfc v)) kvs))"
| "nfc_value nfc v = v"

fun nfc_changes :: "(ustr \<Rightarrow> ustr) \<Rightarrow> js \<Rightarrow> bool" where
  "nfc_changes nfc (JStr s) = (nfc s \<noteq> s)"
| "nfc_changes nfc (JArr xs) = list_ex (nfc_changes nfc) xs"
| "nfc_changes nfc (JObj kvs) = list_ex (\<lambda>(k, v). nfc k \<noteq> k \<or> nfc_changes nfc v) kvs"
| "nfc_changes nfc v = False"

definition normalizeUnicodeNFC :: "(ustr \<Rightarrow> ustr) \<Rightarrow> js \<Rightarrow> bool \<times> js" where
  "normalizeUnicodeNFC nfc v = (if is_object v then (nfc_changes nfc v, nfc_value nfc v) else (False, v))"

end
