(* ===== verification/StOk.thy ===== *)
theory StOk
  imports StStore
begin

section \<open>Facts of the school store\<close>

text \<open>
  Ids of schools and lists of them; the guard over every interleaving of the events of many pages and
  the server; the walk that normalizes text.
\<close>

subsection \<open>Ids\<close>

definition clean_char :: "nat \<Rightarrow> bool" where
  "clean_char c \<longleftrightarrow> 48 \<le> c \<and> c \<le> 57 \<or> 97 \<le> c \<and> c \<le> 122"

lemma clean_charD:
  assumes "clean_char c"
  shows "\<not> is_space c" "c \<noteq> 273" "c \<noteq> 272" "nfd_cu c = [c]" "\<not> is_mark c" "is_alnum c" "lower_cu c = [c]"
proof -
  have le: "c \<le> 122" and ge: "48 \<le> c" and up: "\<not> (65 \<le> c \<and> c \<le> 90)"
    using assms by (auto simp: clean_char_def)
  show "\<not> is_space c" using le ge by (simp add: is_space_def)
  show "c \<noteq> 273" "c \<noteq> 272" using le by simp_all
  show "nfd_cu c = [c]" using le by (simp add: nfd_cu_def)
  show "\<not> is_mark c" using le by (simp add: is_mark_def)
  show "is_alnum c" using assms by (auto simp: is_alnum_def clean_char_def)
  show "lower_cu c = [c]" using le up unfolding lower_cu_def by simp
qed

lemma lower_alnum: "is_alnum c \<Longrightarrow> c' \<in> set (lower_cu c) \<Longrightarrow> clean_char c'"
  by (auto simp: is_alnum_def lower_cu_def clean_char_def split: if_splits)

lemma sanitized_chars: "list_all clean_char (sanitizeOptionalSchoolId x)"
  by (auto simp: sanitizeOptionalSchoolId_def list_all_iff toLowerCase_def intro: lower_alnum)

lemma default_clean: "list_all clean_char (u ''default'')"
  by code_simp

lemma cleanSchoolId_chars: "list_all clean_char (cleanSchoolId x)"
  by (simp add: cleanSchoolId_def Let_def sanitized_chars default_clean)

lemma cleanSchoolId_ne: "cleanSchoolId x \<noteq> []"
  by (simp add: cleanSchoolId_def Let_def u_def)

lemma trim_clean: "list_all clean_char s \<Longrightarrow> trim s = s"
  unfolding trim_def by (subst dropWhile_hd_id | simp add: dropWhile_hd_id hd_rev clean_charD(1) list_all_iff)+

lemma sanitize_clean:
  assumes "list_all clean_char s"
  shows "sanitizeOptionalSchoolId (JStr s) = s"
proof -
  have c: "clean_char c" if "c \<in> set s" for c using assms that by (simp add: list_all_iff)
  have "map (\<lambda>c. if c = 273 \<or> c = 272 then 100 else c) s = s" by (rule map_idI) (use c clean_charD(2,3) in auto)
  moreover have "concat (map nfd_cu s) = s" "concat (map lower_cu s) = s"
    by (rule concat_singletons; simp add: c clean_charD)+
  moreover have "filter (\<lambda>c. \<not> is_mark c) s = s" "filter is_alnum s = s"
    by (rule filter_True; simp add: c clean_charD)+
  ultimately show ?thesis
    using trim_clean [OF assms]
    by (cases s) (simp_all add: sanitizeOptionalSchoolId_def stripVietnameseMarks_def nfd_strip_def toLowerCase_def js_or_def)
qed

lemma clean_clean [simp]: "cleanSchoolId (JStr (cleanSchoolId x)) = cleanSchoolId x"
  unfolding cleanSchoolId_def [of "JStr _"]
  by (simp add: sanitize_clean [OF cleanSchoolId_chars] cleanSchoolId_ne)

definition is_id :: "ustr \<Rightarrow> bool" where
  "is_id i \<longleftrightarrow> cleanSchoolId (JStr i) = i"

lemma is_id_clean [simp, intro]: "is_id (cleanSchoolId x)"
  by (simp add: is_id_def)

definition good_ids :: "ustr list \<Rightarrow> bool" where
  "good_ids xs \<longleftrightarrow> distinct xs \<and> list_all is_id xs"

text \<open>A list of ids that grows at its end.\<close>

definition extends :: "ustr list \<Rightarrow> ustr list \<Rightarrow> bool" where
  "extends xs ys \<longleftrightarrow> good_ids ys \<and> (\<exists>zs. ys = xs @ zs)"

lemma extends_refl: "good_ids xs \<Longrightarrow> extends xs xs"
  by (simp add: extends_def)

lemma extends_good: "extends xs ys \<Longrightarrow> good_ids ys"
  by (simp add: extends_def)

lemma extends_trans: "extends xs ys \<Longrightarrow> extends ys zs \<Longrightarrow> extends xs zs"
  by (auto simp: extends_def)

lemma addUnique_extends: "good_ids xs \<Longrightarrow> extends xs (addUnique v xs)"
  by (auto simp: extends_def good_ids_def addUnique_def Let_def)

lemma add_found_extends: "good_ids xs \<Longrightarrow> extends xs (add_found i xs)"
  by (auto simp: add_found_def intro: addUnique_extends extends_refl split: option.split)

lemma add_all_extends: "good_ids xs \<Longrightarrow> extends xs (fold (\<lambda>x. addUnique (f x)) ys xs)"
proof (induction ys arbitrary: xs)
  case (Cons y ys)
  have one: "extends xs (addUnique (f y) xs)" by (rule addUnique_extends [OF Cons.prems])
  show ?case using extends_trans [OF one Cons.IH [OF extends_good [OF one]]] by simp
qed (simp add: extends_refl)

lemmas extends_rules = addUnique_extends add_found_extends add_all_extends

lemma related_of_school_extends: "good_ids out \<Longrightarrow> extends out (related_of_school kv active out)"
  unfolding related_of_school_def Let_def
  by (rule extends_trans [OF extends_trans [OF extends_trans]]; (rule extends_rules)?)
    (assumption | rule extends_good, rule extends_rules)+

lemma related_walk_extends: "good_ids out \<Longrightarrow> extends out (related_walk target kvs out)"
proof (induction target kvs out rule: related_walk.induct)
  case (2 target kv kvs out)
  have one: "extends out (related_of_school kv a out)" for a by (rule related_of_school_extends [OF "2.prems"])
  show ?case
    using "2.IH"(1) [OF _ "2.prems"] "2.IH"(2) [OF _ _ extends_good [OF one]] extends_refl [OF "2.prems"]
    by (auto split: option.split intro: extends_trans [OF one])
qed (simp add: extends_refl)

lemma relatedStoreIds_extends: "extends [cleanSchoolId sid] (relatedStoreIds reg sid)"
proof -
  have "good_ids [cleanSchoolId sid]" by (simp add: good_ids_def)
  moreover have "addUnique (JStr (cleanSchoolId sid)) [] = [cleanSchoolId sid]" by (simp add: addUnique_def)
  ultimately show ?thesis by (simp add: relatedStoreIds_def Let_def related_walk_extends)
qed

subsection \<open>Pages and the server\<close>

text \<open>
  The server holds one object per school. Any number of pages run the code at the same time: the tabs of
  one user, or those of many. A request and its reply are separate events, and nothing orders them:

  \<^item> a load that was sent is answered at any time, with a value the server has held, with an error or not
    at all; one that is not sent, because the page has been told to sign in, is noted as failed at once;
  \<^item> a synchronous load is answered in the same way, but with an intact body if it succeeds: a body that
    is not JSON is the case the guard does not survive;
  \<^item> a save that the guard lets pass is in flight from then on: it may be stored at any time, more than
    once or never, and be answered at any time, with success or failure whether it was stored or not;
  \<^item> the user signs in again, or reloads the page, which forgets what the page knows and leaves the saves
    in flight where they are;
  \<^item> something else than these pages stores data that mean something.
\<close>

record save =
  sv_tab :: nat
  sv_school :: js
  sv_data :: js
  sv_means :: bool

text \<open>What a store holds is the head of what it has held.\<close>

record world =
  w_tab :: "nat \<Rightarrow> page"
  w_held :: "ustr \<Rightarrow> js list"
  w_sent :: "save list"

definition stored :: "world \<Rightarrow> ustr \<Rightarrow> js" where
  "stored w i = hd (w_held w i)"

definition opened :: "(ustr \<Rightarrow> js) \<Rightarrow> world" where
  "opened st = \<lparr>w_tab = (\<lambda>_. fresh_page), w_held = (\<lambda>i. [st i]), w_sent = []\<rparr>"

definition set_tab :: "nat \<Rightarrow> page \<Rightarrow> world \<Rightarrow> world" where
  "set_tab n p w = w\<lparr>w_tab := (w_tab w)(n := p)\<rparr>"

definition put_store :: "ustr \<Rightarrow> js \<Rightarrow> world \<Rightarrow> world" where
  "put_store i d w = w\<lparr>w_held := (w_held w)(i := d # w_held w i)\<rparr>"

definition in_flight :: "nat \<Rightarrow> js \<Rightarrow> js \<Rightarrow> bool option \<Rightarrow> world \<Rightarrow> world" where
  "in_flight n sid d m w = (case m of None \<Rightarrow> w
     | Some b \<Rightarrow> w\<lparr>w_sent := \<lparr>sv_tab = n, sv_school = sid, sv_data = d, sv_means = b\<rparr> # w_sent w\<rparr>)"

fun honest :: "js \<Rightarrow> reply \<Rightarrow> bool" where
  "honest d (Reply s b) = (status_ok s \<longrightarrow> b = None \<or> b = Some d)"
| "honest d NoReply = True"

definition answers :: "world \<Rightarrow> js \<Rightarrow> reply \<Rightarrow> bool" where
  "answers w sid r \<longleftrightarrow> (\<exists>d \<in> set (w_held w (cleanSchoolId sid)). honest d r)"

fun intact :: "reply \<Rightarrow> bool" where
  "intact (Reply s b) = (status_ok s \<longrightarrow> b \<noteq> None)"
| "intact NoReply = True"

fun acknowledges :: "reply \<Rightarrow> bool" where
  "acknowledges (Reply s _) = status_ok s"
| "acknowledges NoReply = False"

datatype event =
    LoadRefused nat js | LoadReply nat js reply | SyncLoad nat js reply
  | Send nat js "js option" | Stored save | SaveReply save reply
  | SignIn nat | Reload nat | Elsewhere ustr js

inductive happens :: "world \<Rightarrow> event \<Rightarrow> world \<Rightarrow> bool" where
  LoadRefused: "pg_auth (w_tab w n)
    \<Longrightarrow> happens w (LoadRefused n sid) (set_tab n (snd (loadRemoteSchoolData sid NoReply (w_tab w n))) w)"
| LoadReply: "answers w sid r
    \<Longrightarrow> happens w (LoadReply n sid r) (set_tab n (snd (load_end sid r (w_tab w n))) w)"
| SyncLoad: "answers w sid r \<Longrightarrow> intact r
    \<Longrightarrow> happens w (SyncLoad n sid r) (set_tab n (snd (loadRemoteSchoolDataSync sid r (w_tab w n))) w)"
| Send: "save_start sid t (w_tab w n) = (m, p)
    \<Longrightarrow> happens w (Send n sid t) (set_tab n p (in_flight n sid (payload_of t) m w))"
| Stored: "sv \<in> set (w_sent w)
    \<Longrightarrow> happens w (Stored sv) (put_store (cleanSchoolId (sv_school sv)) (sv_data sv) w)"
| SaveReply: "sv \<in> set (w_sent w)
    \<Longrightarrow> happens w (SaveReply sv r)
          (set_tab (sv_tab sv) (snd (save_end (sv_school sv) (sv_means sv) r (w_tab w (sv_tab sv)))) w)"
| SignIn: "happens w (SignIn n) (set_tab n (auth_ready (w_tab w n)) w)"
| Reload: "happens w (Reload n) (set_tab n fresh_page w)"
| Elsewhere: "hasMeaningfulData d \<Longrightarrow> happens w (Elsewhere i d) (put_store i d w)"

inductive run :: "world \<Rightarrow> event list \<Rightarrow> world \<Rightarrow> bool" where
  Nil: "run w [] w"
| Cons: "happens w e w1 \<Longrightarrow> run w1 es w2 \<Longrightarrow> run w (e # es) w2"

inductive_simps run_simps [simp]: "run w [] w'" "run w (e # es) w'"

lemma run_append: "run w es w1 \<Longrightarrow> run w1 fs w2 \<Longrightarrow> run w (es @ fs) w2"
  by (induction rule: run.induct) (auto intro: run.Cons)

lemma run_one: "happens w e w1 \<Longrightarrow> run w [e] w1"
  by (auto intro: run.intros)

named_theorems world_simps

lemma set_tab_simps [world_simps, simp]:
  "w_tab (set_tab n p w) = (w_tab w)(n := p)" "w_held (set_tab n p w) = w_held w" "w_sent (set_tab n p w) = w_sent w"
  by (simp_all add: set_tab_def)

lemma put_store_simps [world_simps, simp]:
  "w_tab (put_store i d w) = w_tab w" "w_held (put_store i d w) = (w_held w)(i := d # w_held w i)"
  "w_sent (put_store i d w) = w_sent w"
  by (simp_all add: put_store_def)

lemma in_flight_simps [world_simps, simp]:
  "w_tab (in_flight n sid d m w) = w_tab w" "w_held (in_flight n sid d m w) = w_held w"
  "set (w_sent (in_flight n sid d m w)) = set (w_sent w)
     \<union> (case m of None \<Rightarrow> {} | Some b \<Rightarrow> {\<lparr>sv_tab = n, sv_school = sid, sv_data = d, sv_means = b\<rparr>})"
  by (auto simp: in_flight_def split: option.split)

subsection \<open>What the operations do to the notes of a page\<close>

lemma loads_other [simp]:
  "pg_loads (reportRemoteAuthRequired s p) = pg_loads p"
  "pg_loads (save_failed s k p) = pg_loads p"
  "pg_loads (auth_ready p) = pg_loads p"
  by (simp_all add: reportRemoteAuthRequired_def save_failed_def auth_ready_def)

lemma loads_received: "received r p = (d, p1) \<Longrightarrow> pg_loads p1 = pg_loads p"
  by (auto simp: received_def split: reply.splits if_splits)

lemma received_honest:
  "honest x r \<Longrightarrow> received r p = (d, p1) \<Longrightarrow> is_object d \<Longrightarrow> d = x"
  by (cases r) (auto simp: received_def split: if_splits option.splits)

definition noted :: "js \<Rightarrow> js \<Rightarrow> page \<Rightarrow> ustr \<Rightarrow> load_state option" where
  "noted sid d p = (pg_loads p)(cleanSchoolId sid \<mapsto>
    (if \<not> is_object d then LoadFailed else if hasMeaningfulData d then LoadOk else LoadEmpty))"

lemma loads_note [simp]: "pg_loads (noteRemoteLoad sid d p) = noted sid d p"
  by (simp add: noteRemoteLoad_def noted_def)

lemma noted_other [simp]: "i \<noteq> cleanSchoolId sid \<Longrightarrow> noted sid d p i = pg_loads p i"
  by (simp add: noted_def)

lemma noted_cong: "pg_loads p = pg_loads q \<Longrightarrow> noted sid d p = noted sid d q"
  by (simp add: noted_def)

text \<open>A load notes what it returns.\<close>

lemma load_end_loads: "pg_loads (snd (load_end sid r p)) = noted sid (fst (load_end sid r p)) p"
  by (auto simp: load_end_def noted_def loads_received split: prod.split)

lemma load_loads: "pg_loads (snd (loadRemoteSchoolData sid r p)) = noted sid (fst (loadRemoteSchoolData sid r p)) p"
  by (simp add: loadRemoteSchoolData_def load_end_loads)

lemma sync_loads: "pg_loads (snd (loadRemoteSchoolDataSync sid r p)) = noted sid (fst (loadRemoteSchoolDataSync sid r p)) p"
  by (auto simp: loadRemoteSchoolDataSync_def noted_def Let_def split: reply.split)

text \<open>What is noted is no more than what the server has held.\<close>

lemma load_end_honest: "honest x r \<Longrightarrow> is_object (fst (load_end sid r p)) \<Longrightarrow> fst (load_end sid r p) = x"
  by (auto simp: load_end_def received_honest split: prod.splits)

lemma sync_honest:
  "honest x r \<Longrightarrow> intact r \<Longrightarrow> is_object (fst (loadRemoteSchoolDataSync sid r p))
     \<Longrightarrow> fst (loadRemoteSchoolDataSync sid r p) = x"
  by (cases r) (auto simp: loadRemoteSchoolDataSync_def Let_def split: if_splits option.splits)

lemma save_start_loads: "save_start sid t p = (m, p1) \<Longrightarrow> pg_loads p1 = pg_loads p"
  by (auto simp: save_start_def split: if_splits guard_answer.splits)

lemma save_start_may:
  "save_start sid t p = (Some m, p1) \<Longrightarrow> m = hasMeaningfulData (payload_of t)
     \<and> pg_loads p (cleanSchoolId sid) \<noteq> Some LoadFailed \<and> (\<not> m \<longrightarrow> pg_loads p (cleanSchoolId sid) = Some LoadEmpty)"
  by (auto simp: save_start_def remoteSaveGuard_def Let_def split: if_splits)

lemma save_end_loads: "pg_loads (snd (save_end sid m r p)) = (if acknowledges r
    then (pg_loads p)(cleanSchoolId sid \<mapsto> (if m then LoadOk else LoadEmpty)) else pg_loads p)"
  by (cases r) (auto simp: save_end_def denied_def status_ok_def)

subsection \<open>A school that holds something\<close>

text \<open>Nobody believes it to be empty, and no save in flight would empty it.\<close>

definition store_guarded :: "ustr \<Rightarrow> world \<Rightarrow> bool" where
  "store_guarded i w \<longleftrightarrow> w_held w i \<noteq> [] \<and> (\<forall>d \<in> set (w_held w i). hasMeaningfulData d)
     \<and> (\<forall>n. pg_loads (w_tab w n) i \<noteq> Some LoadEmpty)
     \<and> (\<forall>sv \<in> set (w_sent w). cleanSchoolId (sv_school sv) = i \<longrightarrow> sv_means sv \<and> hasMeaningfulData (sv_data sv))"

lemma store_guarded_opened: "hasMeaningfulData (st i) \<Longrightarrow> store_guarded i (opened st)"
  by (simp add: store_guarded_def opened_def fresh_page_def)

lemma store_guarded_tab: "store_guarded i w \<Longrightarrow> pg_loads p i \<noteq> Some LoadEmpty \<Longrightarrow> store_guarded i (set_tab n p w)"
  by (simp add: store_guarded_def)

lemma store_guarded_stored: "store_guarded i w \<Longrightarrow> hasMeaningfulData (stored w i)"
  by (simp add: store_guarded_def stored_def)

lemma store_guarded_noted:
  assumes "store_guarded i w" and "pg_loads q = noted sid d (w_tab w n)"
    and "is_object d \<Longrightarrow> d \<in> set (w_held w (cleanSchoolId sid))"
  shows "store_guarded i (set_tab n q w)"
  using assms by (intro store_guarded_tab) (auto simp: noted_def store_guarded_def)

lemma happens_keeps:
  assumes h: "happens w e w'" and g: "store_guarded i w"
  shows "store_guarded i w'"
  using h
proof cases
  case (LoadRefused n sid)
  then show ?thesis
    by (auto intro!: store_guarded_noted [OF g] load_loads simp: loadRemoteSchoolData_def)
next
  case (LoadReply sid r n)
  then show ?thesis
    using load_end_honest by (auto intro!: store_guarded_noted [OF g] load_end_loads simp: answers_def)
next
  case (SyncLoad sid r n)
  then show ?thesis
    using sync_honest by (auto intro!: store_guarded_noted [OF g] sync_loads simp: answers_def)
next
  case (Send sid t n m p)
  have "m = None \<or> m = Some True \<and> hasMeaningfulData (payload_of t)" if "cleanSchoolId sid = i"
    using g that save_start_may [of sid t "w_tab w n" _ p] Send(3) by (cases m) (auto simp: store_guarded_def)
  with g show ?thesis
    using save_start_loads [OF Send(3)] by (auto simp: Send store_guarded_def split: option.splits)
next
  case (SaveReply sv r)
  with g show ?thesis by (auto simp: store_guarded_def save_end_loads)
qed (use g in \<open>auto simp: store_guarded_def auth_ready_def fresh_page_def\<close>)

lemma run_keeps: "run w es w' \<Longrightarrow> store_guarded i w \<Longrightarrow> store_guarded i w'"
  by (induction rule: run.induct) (auto dest: happens_keeps)

subsection \<open>A load that failed\<close>

text \<open>The events that are a failed load of a school by a page, and those after which it may save again.\<close>

fun no_object :: "reply \<Rightarrow> bool" where
  "no_object (Reply s b) = (status_ok s \<longrightarrow> (case b of Some d \<Rightarrow> \<not> is_object d | None \<Rightarrow> True))"
| "no_object NoReply = True"

fun failed_load :: "nat \<Rightarrow> ustr \<Rightarrow> event \<Rightarrow> bool" where
  "failed_load n i (LoadRefused k sid) = (k = n \<and> cleanSchoolId sid = i)"
| "failed_load n i (LoadReply k sid r) = (k = n \<and> cleanSchoolId sid = i \<and> no_object r)"
| "failed_load n i (SyncLoad k sid r) = (k = n \<and> cleanSchoolId sid = i \<and> no_object r)"
| "failed_load n i _ = False"

fun may_unblock :: "nat \<Rightarrow> ustr \<Rightarrow> event \<Rightarrow> bool" where
  "may_unblock n i (LoadReply k sid r) = (k = n \<and> cleanSchoolId sid = i \<and> \<not> no_object r)"
| "may_unblock n i (SyncLoad k sid r) = (k = n \<and> cleanSchoolId sid = i \<and> \<not> no_object r)"
| "may_unblock n i (SaveReply sv r) = (sv_tab sv = n \<and> cleanSchoolId (sv_school sv) = i \<and> acknowledges r)"
| "may_unblock n i (Reload k) = (k = n)"
| "may_unblock n i _ = False"

definition blocked :: "nat \<Rightarrow> ustr \<Rightarrow> world \<Rightarrow> bool" where
  "blocked n i w \<longleftrightarrow> pg_loads (w_tab w n) i = Some LoadFailed"

definition sent_by :: "nat \<Rightarrow> ustr \<Rightarrow> world \<Rightarrow> save set" where
  "sent_by n i w = {sv \<in> set (w_sent w). sv_tab sv = n \<and> cleanSchoolId (sv_school sv) = i}"

lemma load_end_no_object: "no_object r \<Longrightarrow> \<not> is_object (fst (load_end sid r p))"
  by (cases r) (auto simp: load_end_def received_def split: option.splits)

lemma sync_no_object: "no_object r \<Longrightarrow> intact r \<Longrightarrow> \<not> is_object (fst (loadRemoteSchoolDataSync sid r p))"
  by (cases r) (auto simp: loadRemoteSchoolDataSync_def Let_def split: option.splits)

lemma noted_failed: "\<not> is_object d \<Longrightarrow> noted sid d p (cleanSchoolId sid) = Some LoadFailed"
  by (simp add: noted_def)

lemma failed_load_notes: "happens w e w' \<Longrightarrow> failed_load n i e \<Longrightarrow> blocked n i w'"
  by (induction rule: happens.cases)
    (auto simp: blocked_def load_loads load_end_loads sync_loads noted_failed load_end_no_object sync_no_object
       loadRemoteSchoolData_def)

lemma blocked_no_save: "blocked n (cleanSchoolId sid) w \<Longrightarrow> fst (save_start sid t (w_tab w n)) = None"
  by (cases "save_start sid t (w_tab w n)"; cases "fst (save_start sid t (w_tab w n))")
    (auto simp: blocked_def dest: save_start_may)

lemma sent_by_tab [simp]: "sent_by n i (set_tab k p w) = sent_by n i w"
  by (simp add: sent_by_def)

lemma sent_by_flight:
  assumes "k = n \<Longrightarrow> cleanSchoolId sid = i \<Longrightarrow> m = None"
  shows "sent_by n i (in_flight k sid d m w) = sent_by n i w"
proof (cases m)
  case (Some b)
  with assms have "\<not> (k = n \<and> cleanSchoolId sid = i)" by auto
  with Some show ?thesis unfolding sent_by_def in_flight_simps by auto
qed (simp add: in_flight_def)

lemma happens_blocked:
  assumes h: "happens w e w'" and b: "blocked n i w" and u: "\<not> may_unblock n i e"
  shows "blocked n i w' \<and> sent_by n i w' = sent_by n i w"
proof (cases "failed_load n i e")
  case True
  with h have "w_sent w' = w_sent w" by (cases rule: happens.cases) simp_all
  with failed_load_notes [OF h True] show ?thesis by (simp add: sent_by_def)
next
  case False
  from h show ?thesis
  proof cases
    case (Send sid t k m p)
    have "m = None" if "k = n" "cleanSchoolId sid = i"
      using blocked_no_save [of n sid w t] b Send(3) that by simp
    then show ?thesis
      using b save_start_loads [OF Send(3)] by (auto simp: Send blocked_def sent_by_flight)
  next
    case (LoadRefused k sid)
    then show ?thesis using b False by (auto simp: blocked_def sent_by_def load_loads)
  next
    case (LoadReply sid r k)
    then show ?thesis using b False u by (auto simp: blocked_def sent_by_def load_end_loads)
  next
    case (SyncLoad sid r k)
    then show ?thesis using b False u by (auto simp: blocked_def sent_by_def sync_loads)
  qed (use b u in \<open>auto simp: blocked_def sent_by_def save_end_loads\<close>)
qed

lemma run_blocked:
  "run w es w' \<Longrightarrow> blocked n i w \<Longrightarrow> \<forall>e \<in> set es. \<not> may_unblock n i e
     \<Longrightarrow> blocked n i w' \<and> sent_by n i w' = sent_by n i w"
  by (induction rule: run.induct) (auto dest!: happens_blocked)

subsection \<open>Opening a school is such a run\<close>

text \<open>
  With the fallback, a page loads the school and the related ones in turn and sends what it finds
  without waiting for the reply. With nothing in between, this is a run of the events above; with other
  events in between, it is another one.
\<close>

definition loads_as :: "(js \<Rightarrow> reply \<Rightarrow> page \<Rightarrow> js \<times> page) \<Rightarrow> (reply \<Rightarrow> bool) \<Rightarrow> bool" where
  "loads_as load ok \<longleftrightarrow> (\<forall>w n sid r. answers w sid r \<longrightarrow> ok r
     \<longrightarrow> (\<exists>e. happens w e (set_tab n (snd (load sid r (w_tab w n))) w)))"

lemma async_loads_as: "loads_as loadRemoteSchoolData (\<lambda>_. True)"
  unfolding loads_as_def
proof (intro allI impI)
  fix w n sid r assume a: "answers w sid r"
  show "\<exists>e. happens w e (set_tab n (snd (loadRemoteSchoolData sid r (w_tab w n))) w)"
  proof (cases "pg_auth (w_tab w n)")
    case True
    with LoadRefused [OF True, of sid] show ?thesis by (auto simp: loadRemoteSchoolData_def)
  next
    case False
    with LoadReply [OF a, of n] show ?thesis by (auto simp: loadRemoteSchoolData_def)
  qed
qed

lemma sync_loads_as: "loads_as loadRemoteSchoolDataSync intact"
  unfolding loads_as_def by (blast intro: SyncLoad)

lemma set_tab_set [simp]: "set_tab n q (set_tab n p w) = set_tab n q w"
  by (simp add: set_tab_def)

lemma set_tab_flight: "set_tab n q (in_flight n sid d m (set_tab n p w)) = set_tab n q (in_flight n sid d m w)"
  by (simp add: set_tab_def in_flight_def split: option.split)

lemma answers_set_tab [simp]: "answers (set_tab n p w) sid r = answers w sid r"
  by (simp add: answers_def)

lemma in_flight_none [simp]: "in_flight n sid d None w = w"
  by (simp add: in_flight_def)

lemma load_related_runs:
  assumes l: "loads_as load ok"
  shows "load_related load net target is (w_tab w n) = (res, p) \<Longrightarrow> \<forall>i. answers w (JStr i) (net i) \<and> ok (net i)
    \<Longrightarrow> \<exists>es d. run w es (set_tab n p (in_flight n target d (case res of None \<Rightarrow> None | Some (_, m) \<Rightarrow> m) w))
          \<and> (\<forall>x m. res = Some (x, Some m) \<longrightarrow> x = d)"
proof (induction "is" arbitrary: w)
  case Nil
  then show ?case by (auto simp: set_tab_def intro: exI [of _ "[]"])
next
  case (Cons i "is")
  obtain d p1 where d: "load (JStr i) (net i) (w_tab w n) = (d, p1)" by fastforce
  obtain e where e: "happens w e (set_tab n p1 w)"
    using l Cons.prems(2) d unfolding loads_as_def by (metis snd_conv)
  consider "pg_auth (w_tab w n)" | "\<not> pg_auth (w_tab w n)" "hasMeaningfulData d"
    | "\<not> pg_auth (w_tab w n)" "\<not> hasMeaningfulData d" by blast
  then show ?case
  proof cases
    case 1
    then show ?thesis using Cons.prems(1) by (auto simp: set_tab_def intro: exI [of _ "[]"])
  next
    case 2
    obtain m p2 where s: "save_start target (Some d) p1 = (m, p2)" by fastforce
    have "happens (set_tab n p1 w) (Send n target (Some d)) (set_tab n p2 (in_flight n target d m (set_tab n p1 w)))"
      using Send [of target "Some d" "set_tab n p1 w" n m p2] s by (simp add: payload_of_def)
    then have "run w [e, Send n target (Some d)] (set_tab n p2 (in_flight n target d m w))"
      using e by (auto simp: set_tab_flight)
    moreover have "res = Some (d, m)" "p = p2" using Cons.prems(1) 2 d s by auto
    ultimately show ?thesis by (auto simp del: run_simps)
  next
    case 3
    have "load_related load net target is (w_tab (set_tab n p1 w) n) = (res, p)" using Cons.prems(1) 3 d by simp
    from Cons.IH [OF this] Cons.prems(2) obtain es x where
      "run (set_tab n p1 w) es (set_tab n p (in_flight n target x (case res of None \<Rightarrow> None | Some (_, m) \<Rightarrow> m) w))"
      "\<forall>y m. res = Some (y, Some m) \<longrightarrow> y = x"
      by (auto simp: set_tab_flight)
    with run.Cons [OF e] show ?thesis by blast
  qed
qed

lemma with_fallback_runs:
  assumes l: "loads_as load ok" and a: "\<forall>i. answers w (JStr i) (net i) \<and> ok (net i)"
    and f: "with_fallback load net reg sid (w_tab w n) = ((d, m), p)"
  shows "\<exists>es. run w es (set_tab n p (in_flight n (JStr (cleanSchoolId sid)) d m w))"
proof -
  define target where "target = cleanSchoolId sid"
  obtain d0 p0 where d0: "load (JStr target) (net target) (w_tab w n) = (d0, p0)" by fastforce
  obtain e where e: "happens w e (set_tab n p0 w)"
    using l a d0 unfolding loads_as_def by (metis snd_conv)
  note f' = f [unfolded with_fallback_def, folded target_def, unfolded Let_def d0 prod.case]
  show ?thesis
  proof (cases "pg_auth p0 \<or> hasMeaningfulData d0")
    case True
    then have "m = None" "p = p0" using f' by (auto split: if_splits)
    with run_one [OF e] show ?thesis by (auto intro: exI [of _ "[e]"])
  next
    case False
    obtain res p2 where r: "load_related load net (JStr target)
        (filter (\<lambda>i. i \<noteq> target) (relatedStoreIds reg (JStr target))) (w_tab (set_tab n p0 w) n) = (res, p2)" by fastforce
    from load_related_runs [OF l r] a obtain es x where
      run: "run (set_tab n p0 w) es (set_tab n p2 (in_flight n (JStr target) x (case res of None \<Rightarrow> None | Some (_, m) \<Rightarrow> m) w))"
      and x: "\<forall>y m. res = Some (y, Some m) \<longrightarrow> y = x"
      by (auto simp: set_tab_flight)
    have "p2 = p" "m = (case res of None \<Rightarrow> None | Some (_, m) \<Rightarrow> m)" "m = Some b \<Longrightarrow> x = d" for b
      using f' r False x by (auto split: option.splits)
    moreover from this(3) have "in_flight n (JStr target) x m w = in_flight n (JStr target) d m w"
      by (cases m) simp_all
    ultimately show ?thesis using run.Cons [OF e run] unfolding target_def by metis
  qed
qed

lemmas fallback_runs = with_fallback_runs [OF async_loads_as, folded loadRemoteSchoolDataWithFallback_def]
lemmas fallback_sync_runs = with_fallback_runs [OF sync_loads_as, folded loadRemoteSchoolDataWithFallbackSync_def]

subsection \<open>Normalized text\<close>

text \<open>Idempotence of the conversion is its only property the walk relies on.\<close>

definition normal_form :: "(ustr \<Rightarrow> ustr) \<Rightarrow> bool" where
  "normal_form nfc \<longleftrightarrow> (\<forall>s. nfc (nfc s) = nfc s)"

lemma nfc_idem: "normal_form nfc \<Longrightarrow> nfc (nfc s) = nfc s"
  by (simp add: normal_form_def)

lemma rekey_entry:
  "normal_form nfc \<Longrightarrow> (k', v) \<in> set (rekey nfc k kvs) \<Longrightarrow> (\<exists>k. (k, v) \<in> set kvs) \<and> (nfc k' = k' \<or> k' \<noteq> k \<and> (k', v) \<in> set kvs)"
  by (auto simp: rekey_def Let_def nfc_idem map_of_eq_None_iff image_iff split: if_splits option.splits dest: map_of_SomeD)

lemma rekeyed:
  "normal_form nfc \<Longrightarrow> (k', v) \<in> set (fold (rekey nfc) ks kvs)
     \<Longrightarrow> (\<exists>k. (k, v) \<in> set kvs) \<and> (nfc k' = k' \<or> k' \<notin> set ks \<and> k' \<in> fst ` set kvs)"
proof (induction ks arbitrary: kvs)
  case (Cons a ks)
  from Cons.IH [of "rekey nfc a kvs", OF Cons.prems(1)] Cons.prems(2)
  have "\<exists>k. (k, v) \<in> set (rekey nfc a kvs)" "nfc k' = k' \<or> k' \<notin> set ks \<and> k' \<in> fst ` set (rekey nfc a kvs)" by auto
  then show ?case by (fastforce dest: rekey_entry [OF Cons.prems(1)])
qed force

lemma changes_none: "normal_form nfc \<Longrightarrow> \<not> nfc_changes nfc (nfc_value nfc v)"
proof (induction v)
  case (JObj kvs)
  have "nfc k = k \<and> \<not> nfc_changes nfc x"
    if kx: "(k, x) \<in> set (fold (rekey nfc) (map fst kvs) (map (\<lambda>(k, v). (k, nfc_value nfc v)) kvs))" for k x
  proof -
    have "fst ` set (map (\<lambda>(k, v). (k, nfc_value nfc v)) kvs) = set (map fst kvs)" by (force simp: image_iff)
    with rekeyed [OF JObj.prems kx] obtain k0 y where "nfc k = k" "(k0, y) \<in> set kvs" "x = nfc_value nfc y" by auto
    then show ?thesis using JObj by (simp add: Basic_BNFs.prod_set_defs) fastforce
  qed
  then show ?case by (auto simp: list_ex_iff simp del: map_map)
qed (auto simp: list_ex_iff nfc_idem)

lemma fold_rekey_id: "\<forall>k \<in> set ks. nfc k = k \<Longrightarrow> fold (rekey nfc) ks kvs = kvs"
  by (induction ks) (simp_all add: rekey_def)

lemma unchanged: "\<not> nfc_changes nfc v \<Longrightarrow> nfc_value nfc v = v"
proof (induction v)
  case (JArr xs)
  then show ?case by (auto simp: list_ex_iff intro: map_idI)
next
  case (JObj kvs)
  have "map (\<lambda>(k, v). (k, nfc_value nfc v)) kvs = kvs"
    by (rule map_idI) (use JObj in \<open>fastforce simp: list_ex_iff Basic_BNFs.prod_set_defs\<close>)
  moreover have "\<forall>k \<in> set (map fst kvs). nfc k = k" using JObj.prems by (auto simp: list_ex_iff)
  ultimately show ?case by (simp add: fold_rekey_id)
qed auto

lemma changes_iff: "normal_form nfc \<Longrightarrow> nfc_changes nfc v \<longleftrightarrow> nfc_value nfc v \<noteq> v"
  using changes_none unchanged by metis

end
