(* ===== verification/StProps.thy ===== *)
theory StProps
  imports StOk
begin

section \<open>What the school store promises\<close>

text \<open>
  The properties of \<open>shared/storage.js\<close>, over every interleaving of the events of any number of pages
  and the server, and the schedules in which the guard lets an empty payload through.
\<close>

text \<open>
  C13: A school the server holds something of when the pages are opened is never emptied, and no save
  that would empty it is ever sent. Any number of pages run the code's loads, synchronous loads and saves
  (opening a school with its fallback is such a run, \<open>fallback_runs\<close>); requests and replies
  interleave in any order, are repeated, delayed or lost, users sign in again and reload. A load is
  answered with a value the server has held, or with an error, and a synchronous load that succeeds has
  a body that is JSON; what else than these pages writes into a store means something.
\<close>

theorem store_never_wiped:
  assumes "run (opened st) es w" and "hasMeaningfulData (st i)"
  shows "hasMeaningfulData (stored w i) \<and> list_all hasMeaningfulData (w_held w i)
    \<and> list_all (\<lambda>sv. cleanSchoolId (sv_school sv) = i \<longrightarrow> hasMeaningfulData (sv_data sv)) (w_sent w)"
  using store_guarded_stored run_keeps [OF assms(1) store_guarded_opened [of st i, OF assms(2)]]
  by (auto simp: store_guarded_def list_all_iff)

definition demo_school :: js where
  "demo_school = JObj [(u ''lop'', JArr [JStr (u ''6a1'')])]"

definition demo_store :: "ustr \<Rightarrow> js" where
  "demo_store = (\<lambda>i. if i = u ''abc'' then demo_school else JObj [])"

abbreviation "demo_id \<equiv> JStr (u ''abc'')"

text \<open>
  One tab loads a school, and sends it while a load of the other tab has no reply. The save is stored,
  its reply is lost, and an empty payload follows.
\<close>

definition demo_save :: save where
  "demo_save = \<lparr>sv_tab = 0, sv_school = demo_id, sv_data = demo_school, sv_means = True\<rparr>"

definition demo_events :: "event list" where
  "demo_events = [LoadReply 0 demo_id (Reply 200 (Some demo_school)), Send 0 demo_id (Some demo_school),
     LoadReply 1 demo_id NoReply, Stored demo_save, SaveReply demo_save NoReply, Send 0 demo_id (Some (JObj []))]"

lemma demo_first_save:
  "fst (save_start demo_id (Some demo_school) (snd (load_end demo_id (Reply 200 (Some demo_school)) fresh_page))) = Some True"
  by code_simp

lemma demo_held: "demo_school \<in> set (w_held (opened demo_store) (cleanSchoolId demo_id))"
proof -
  have "cleanSchoolId demo_id = u ''abc''" by code_simp
  then show ?thesis by (simp add: opened_def demo_store_def)
qed

lemma sends: "\<exists>w'. happens w (Send n sid t) w'"
  using Send [of sid t w n] by (metis prod.exhaust)

lemma demo_run: "\<exists>w. run (opened demo_store) demo_events w"
proof -
  let ?r = "Reply 200 (Some demo_school)"
  let ?w1 = "set_tab 0 (snd (load_end demo_id ?r fresh_page)) (opened demo_store)"
  have e1: "happens (opened demo_store) (LoadReply 0 demo_id ?r) ?w1"
    using LoadReply [of "opened demo_store" demo_id ?r 0] demo_held by (auto simp: answers_def opened_def)
  obtain p where s: "save_start demo_id (Some demo_school) (w_tab ?w1 0) = (Some True, p)"
    using demo_first_save by (metis fst_conv fun_upd_same prod.exhaust set_tab_simps(1))
  obtain w2 where e2: "happens ?w1 (Send 0 demo_id (Some demo_school)) w2" and m: "demo_save \<in> set (w_sent w2)"
      and h: "w_held w2 = w_held (opened demo_store)"
    using Send [OF s] by (auto simp: demo_save_def payload_of_def)
  have "answers w2 demo_id NoReply" using demo_held by (auto simp: answers_def h)
  then obtain w3 where e3: "happens w2 (LoadReply 1 demo_id NoReply) w3" and m3: "demo_save \<in> set (w_sent w3)"
    using LoadReply [of w2 demo_id NoReply 1] m by fastforce
  obtain w4 where e4: "happens w3 (Stored demo_save) w4" and m4: "demo_save \<in> set (w_sent w4)"
    using Stored [OF m3] m3 by fastforce
  obtain w5 where e5: "happens w4 (SaveReply demo_save NoReply) w5" using SaveReply [OF m4] by blast
  from e1 e2 e3 e4 e5 sends [of w5 0 demo_id] show ?thesis unfolding demo_events_def run_simps by blast
qed

lemma store_never_wiped_witness:
  "\<exists>w. run (opened demo_store) demo_events w \<and> hasMeaningfulData (stored w (u ''abc''))"
proof -
  obtain w where r: "run (opened demo_store) demo_events w" using demo_run by blast
  have "hasMeaningfulData (demo_store (u ''abc''))" by code_simp
  from r store_never_wiped [OF r this] show ?thesis by blast
qed

text \<open>
  C31: After a load of a school has failed on a page - it was not sent, got no reply, an error, or a
  success whose body is not JSON or not an object - every save of that school the page tries is refused
  and none is sent, in any interleaving with other events, until the page loads the school successfully,
  learns that a save of it sent before was accepted, or is reloaded.
\<close>

theorem failed_load_blocks:
  assumes "happens w e w0" and "failed_load n (cleanSchoolId sid) e"
    and "run w0 es w1" and "list_all (\<lambda>e. \<not> may_unblock n (cleanSchoolId sid) e) es"
  shows "fst (save_start sid t (w_tab w1 n)) = None \<and> sent_by n (cleanSchoolId sid) w1 = sent_by n (cleanSchoolId sid) w"
proof -
  have "w_sent w0 = w_sent w" using assms(1,2) by (cases rule: happens.cases) simp_all
  with run_blocked [OF assms(3) failed_load_notes [OF assms(1,2)]] assms(4) blocked_no_save
  show ?thesis by (simp add: sent_by_def list_all_iff)
qed

lemma failed_load_blocks_witness:
  "\<exists>w. run (opened demo_store) [LoadReply 0 demo_id (Reply 200 None), SignIn 0] w
     \<and> fst (save_start demo_id (Some demo_school) (w_tab w 0)) = None"
proof -
  let ?w = "opened demo_store"
  have "answers ?w demo_id (Reply 200 None)" by (simp add: answers_def opened_def)
  from LoadReply [OF this, of 0] obtain w0 where h: "happens ?w (LoadReply 0 demo_id (Reply 200 None)) w0" by blast
  from SignIn [of w0 0] obtain w1 where r: "run w0 [SignIn 0] w1" by (blast intro: run_one)
  from failed_load_blocks [OF h _ r, of 0 demo_id] run.Cons [OF h r] show ?thesis by auto
qed

text \<open>
  Normalizing is idempotent and its answer is exact: it says that something changed precisely when
  the data differ, and a second run changes nothing.
\<close>

lemma normalizeUnicodeNFC_idempotent:
  assumes "normal_form nfc" and "normalizeUnicodeNFC nfc v = (c, v')"
  shows "(c \<longleftrightarrow> v' \<noteq> v) \<and> normalizeUnicodeNFC nfc v' = (False, v')"
  using assms unchanged [OF changes_none [OF assms(1)], of v]
  by (auto simp: normalizeUnicodeNFC_def changes_none changes_iff split: if_splits)

text \<open>A conversion that composes one letter.\<close>

fun compose_a :: "ustr \<Rightarrow> ustr" where
  "compose_a (c # d # s) = (if c = 97 \<and> d = 768 then 224 # compose_a s else c # compose_a (d # s))"
| "compose_a s = s"

lemma compose_a_hd: "hd (compose_a (d # s)) = 768 \<longleftrightarrow> d = 768"
  by (cases s) auto

lemma compose_a_idem: "compose_a (compose_a s) = compose_a s"
proof (induction s rule: compose_a.induct)
  case (1 c d s)
  show ?case
  proof (cases "c = 97 \<and> d = 768")
    case True
    then show ?thesis using "1.IH"(1) by (cases "compose_a s") auto
  next
    case False
    then show ?thesis using "1.IH"(2) compose_a_hd [of d s] by (cases "compose_a (d # s)") auto
  qed
qed auto

lemma normalizeUnicodeNFC_idempotent_witness:
  "\<exists>v. normalizeUnicodeNFC compose_a (JObj [([97, 768], JNum 1), ([224], JStr [97, 768])]) = (True, v)
     \<and> normalizeUnicodeNFC compose_a v = (False, v)"
proof -
  have n: "normal_form compose_a" by (simp add: normal_form_def compose_a_idem)
  have "normalizeUnicodeNFC compose_a (JObj [([97, 768], JNum 1), ([224], JStr [97, 768])]) = (True, JObj [([224], JStr [224])])"
    by code_simp
  from this normalizeUnicodeNFC_idempotent [OF n this] show ?thesis by blast
qed

subsection \<open>Where the guard fails\<close>

text \<open>
  Two loads of a new school overlap. The first is answered and the school saved; the second, answered
  before the save was stored, arrives after it and marks the school as empty again. The guard then lets
  an empty payload through, although this page has just saved the school.
\<close>

lemma late_reply_reopens:
  "let sid = JStr (u ''abc''); empty = Reply 200 (Some (JObj []));
       p1 = snd (load_end sid empty fresh_page);
       p2 = snd (saveRemoteSchoolData sid (Some demo_school) (Reply 200 None) p1);
       p3 = snd (load_end sid empty p2)
   in fst (save_start sid (Some (JObj [])) p2) = None \<and> fst (save_start sid (Some (JObj [])) p3) = Some False"
  by code_simp

text \<open>The same happens when a save is stored but its reply is lost.\<close>

lemma lost_reply_reopens:
  "let sid = JStr (u ''abc'');
       p1 = snd (load_end sid (Reply 200 (Some (JObj []))) fresh_page);
       p2 = snd (saveRemoteSchoolData sid (Some demo_school) NoReply p1)
   in fst (save_start sid (Some demo_school) p1) = Some True \<and> fst (save_start sid (Some (JObj [])) p2) = Some False"
  by code_simp

text \<open>
  A synchronous load that is answered with a success and a broken body marks the school as empty: an
  empty payload passes. The asynchronous load of the same reply refuses every save.
\<close>

lemma broken_sync_reopens:
  "let sid = JStr (u ''abc''); broken = Reply 200 None;
       p1 = snd (loadRemoteSchoolDataSync sid broken fresh_page);
       p2 = snd (loadRemoteSchoolData sid broken fresh_page)
   in fst (save_start sid (Some (JObj [])) p1) = Some False \<and> fst (save_start sid (Some (JObj [])) p2) = None"
  by code_simp

text \<open>After a failed load a successful one allows saving again, without reloading the page.\<close>

lemma reload_not_needed:
  "let sid = JStr (u ''abc'');
       p1 = snd (load_end sid NoReply fresh_page);
       p2 = snd (load_end sid (Reply 200 (Some demo_school)) p1)
   in fst (save_start sid (Some demo_school) p1) = None \<and> fst (save_start sid (Some demo_school) p2) = Some True"
  by code_simp

end
