(* ===== verification/ChFile.thy ===== *)
theory ChFile
  imports JsJson StStore
begin

section \<open>The school file\<close>

text \<open>
  \<open>modules/cherry-file.js\<close>: export of the data of the open school into one text, and its import.

  \<^item> The id and the label of the school, the time and the answer to the confirmation are arguments; so are
    \<open>appAdoptRemoteData\<close>, which replaces the data of the page, and \<open>saveStore\<close>, which answers and stamps them.
  \<^item> The texts of messages, the dialog and the download are left out. A message is its case.
\<close>

definition cherry_format :: ustr where
  "cherry_format = u ''tkbcherry''"

definition cherry_version :: int where
  "cherry_version = 1"

subsection \<open>The school\<close>

text \<open>\<open>None\<close> is a function that is missing, throws or answers something falsy.\<close>

definition cherryFileSchoolId :: "ustr option \<Rightarrow> ustr option \<Rightarrow> ustr" where
  "cherryFileSchoolId sid ctx = (case sid of Some s \<Rightarrow> s | None \<Rightarrow> (case ctx of Some s \<Rightarrow> s | None \<Rightarrow> u ''default''))"

definition cherryFileSchoolLabel :: "ustr option \<Rightarrow> ustr \<Rightarrow> ustr" where
  "cherryFileSchoolLabel label sid = (case label of Some s \<Rightarrow> s | None \<Rightarrow> sid)"

definition is_name_char :: "nat \<Rightarrow> bool" where
  "is_name_char c \<longleftrightarrow> is_alnum c \<or> c = 95 \<or> c = 45"

definition cherryFileSafeName :: "ustr \<Rightarrow> ustr" where
  "cherryFileSafeName sid = (let s = filter is_name_char (trim (if sid = [] then u ''default'' else sid))
     in (if s = [] then u ''default'' else s) @ u ''.cherry'')"

definition cherryFileData :: "js \<Rightarrow> js" where
  "cherryFileData d = (if is_object d then d else JObj [])"

subsection \<open>Counting\<close>

definition obj_values :: "js \<Rightarrow> js list" where
  "obj_values v = map snd (entries v)"

definition counts_cell :: "js \<Rightarrow> bool" where
  "counts_cell c \<longleftrightarrow> js_truthy c \<and> c \<noteq> JStr (u ''OFF'')
     \<and> (is_object c \<longrightarrow> jprop c ''off'' \<noteq> JBool True
          \<and> trim (js_string (js_or (js_or (jprop c ''mon'') (jprop c ''val'')) (JStr []))) \<noteq> [])"

definition cherryFileCountTkbCells :: "js \<Rightarrow> nat" where
  "cherryFileCountTkbCells tkb = (\<Sum>day\<leftarrow>obj_values tkb. \<Sum>buoi\<leftarrow>obj_values day. \<Sum>cells\<leftarrow>obj_values buoi. length (filter counts_cell (array_of cells)))"

definition cherryFileCountRules :: "js \<Rightarrow> nat" where
  "cherryFileCountRules c =
     (\<Sum>branch\<leftarrow>obj_values (jprop c ''fixedOff''). \<Sum>slots\<leftarrow>obj_values branch. length (filter js_truthy (obj_values slots)))
     + (\<Sum>rule\<leftarrow>obj_values (jprop c ''teacher''). length (entries rule))
     + (\<Sum>s\<leftarrow>obj_values (jprop c ''subject''). \<Sum>rule\<leftarrow>obj_values (jprop s ''byClass''). length (entries rule))"

record summary =
  sm_khoi :: nat
  sm_lop :: nat
  sm_giaovien :: nat
  sm_monhoc :: nat
  sm_tietchuan :: nat
  sm_phancong :: nat
  sm_dayGhep :: nat
  sm_tkbCells :: nat
  sm_yeuCau :: nat

definition key_count :: "js \<Rightarrow> nat" where
  "key_count v = (if is_array v then 0 else length (entries v))"

definition cherryFileSummary :: "js \<Rightarrow> summary" where
  "cherryFileSummary d = \<lparr>
     sm_khoi = length (array_of (jprop d ''khoi'')), sm_lop = length (array_of (jprop d ''lop'')),
     sm_giaovien = length (array_of (jprop d ''giaovien'')), sm_monhoc = length (array_of (jprop d ''monhoc'')),
     sm_tietchuan = length (array_of (jprop d ''mon'')), sm_phancong = key_count (jprop d ''pccmMatrix''),
     sm_dayGhep = length (array_of (jprop d ''dayGhep'')), sm_tkbCells = cherryFileCountTkbCells (jprop d ''tkb''),
     sm_yeuCau = cherryFileCountRules (jprop d ''tkbConstraints'')\<rparr>"

definition summary_js :: "summary \<Rightarrow> js" where
  "summary_js s = JObj (map (\<lambda>(k, n). (u k, JNum (int n)))
     [(''khoi'', sm_khoi s), (''lop'', sm_lop s), (''giaovien'', sm_giaovien s), (''monhoc'', sm_monhoc s),
      (''tietchuan'', sm_tietchuan s), (''phancong'', sm_phancong s), (''dayGhep'', sm_dayGhep s),
      (''tkbCells'', sm_tkbCells s), (''yeuCau'', sm_yeuCau s)])"

text \<open>The criterion of the store where it is loaded, else one of its own.\<close>

definition own_meaningful :: "js \<Rightarrow> bool" where
  "own_meaningful d \<longleftrightarrow> is_object d \<and> \<not> is_array d
     \<and> (list_ex (\<lambda>k. array_of (jprop d k) \<noteq> []) [''khoi'', ''lop'', ''giaovien'', ''monhoc'', ''mon'']
        \<or> list_ex (\<lambda>k. hasObjectEntries (jprop d k))
            [''pccmMatrix'', ''pccmTietMatrix'', ''pccmGioihanMatrix'', ''tkb'', ''tkbUserOff'', ''tkbConstraints''])"

definition cherryFileHasMeaningfulData :: "bool \<Rightarrow> js \<Rightarrow> bool" where
  "cherryFileHasMeaningfulData store d = (if store then hasMeaningfulData d else own_meaningful d)"

subsection \<open>Export\<close>

record export =
  ex_name :: ustr
  ex_text :: ustr
  ex_summary :: summary

text \<open>\<open>appNormalizeDataNFC\<close> works in place on the data that are exported.\<close>

definition cherry_payload :: "ustr \<Rightarrow> ustr \<Rightarrow> ustr \<Rightarrow> js \<Rightarrow> js" where
  "cherry_payload sid label now d = JObj [
     (u ''format'', JStr cherry_format), (u ''version'', JNum cherry_version), (u ''app'', JStr (u ''tkbcherry.com'')),
     (u ''schoolId'', JStr sid), (u ''schoolName'', JStr label), (u ''exportedAt'', JStr now),
     (u ''summary'', summary_js (cherryFileSummary d)), (u ''data'', d)]"

definition cherryFileBuildExport :: "(ustr \<Rightarrow> ustr) \<Rightarrow> ustr \<Rightarrow> ustr \<Rightarrow> ustr \<Rightarrow> js \<Rightarrow> export" where
  "cherryFileBuildExport nfc sid label now dat =
     (let d = snd (normalizeUnicodeNFC nfc (cherryFileData dat))
      in \<lparr>ex_name = cherryFileSafeName sid, ex_text = json_text (cherry_payload sid label now d),
          ex_summary = cherryFileSummary d\<rparr>)"

subsection \<open>Import\<close>

record file_meta =
  fm_schoolId :: ustr
  fm_schoolName :: ustr
  fm_exportedAt :: ustr
  fm_version :: rat
  fm_wrapped :: bool

datatype refusal = BadJson | NotAnObject | NoData | NoFormat | Meaningless

record import =
  im_data :: js
  im_meta :: file_meta
  im_newer :: bool
  im_summary :: summary

definition or_empty :: "js \<Rightarrow> ustr" where
  "or_empty v = js_string (js_or v (JStr []))"

definition bare_meta :: file_meta where
  "bare_meta = \<lparr>fm_schoolId = [], fm_schoolName = [], fm_exportedAt = [], fm_version = 0, fm_wrapped = False\<rparr>"

definition file_content :: "js \<Rightarrow> refusal + js \<times> file_meta" where
  "file_content obj =
     (if or_empty (jprop obj ''format'') = cherry_format then
        (let d = jprop obj ''data''
         in if \<not> is_object d \<or> is_array d then Inl NoData
            else Inr (d, \<lparr>fm_schoolId = or_empty (jprop obj ''schoolId''), fm_schoolName = or_empty (jprop obj ''schoolName''),
                   fm_exportedAt = or_empty (jprop obj ''exportedAt''), fm_version = num_or_zero (jprop obj ''version''),
                   fm_wrapped = True\<rparr>))
      else if is_array (jprop obj ''lop'') \<or> is_array (jprop obj ''giaovien'') \<or> is_object (jprop obj ''pccmMatrix'')
      then Inr (obj, bare_meta)
      else Inl NoFormat)"

definition cherryFileParse :: "bool \<Rightarrow> ustr \<Rightarrow> refusal + import" where
  "cherryFileParse store t = (case json_parse t of None \<Rightarrow> Inl BadJson
     | Some obj \<Rightarrow>
        if \<not> is_object obj \<or> is_array obj then Inl NotAnObject
        else case file_content obj of Inl e \<Rightarrow> Inl e
           | Inr (d, meta) \<Rightarrow>
              if \<not> cherryFileHasMeaningfulData store d then Inl Meaningless
              else Inr \<lparr>im_data = d, im_meta = meta, im_newer = of_int cherry_version < fm_version meta,
                     im_summary = cherryFileSummary d\<rparr>)"

text \<open>
  \<open>cherryFileApplyImport\<close>: the outcome, and the data of the page afterwards. The incoming data lose their
  time stamps.
\<close>

datatype outcome = Cancelled | NotSaved | Imported

definition drop_keys :: "string list \<Rightarrow> js \<Rightarrow> js" where
  "drop_keys ks v = (case v of JObj kvs \<Rightarrow> JObj (filter (\<lambda>kv. fst kv \<notin> u ` set ks) kvs) | _ \<Rightarrow> v)"

definition cherryFileApplyImport :: "bool \<Rightarrow> (js \<Rightarrow> js) \<Rightarrow> (js \<Rightarrow> bool \<times> js) \<Rightarrow> import \<Rightarrow> js \<Rightarrow> outcome \<times> js" where
  "cherryFileApplyImport confirmed adopt save im dat =
     (if \<not> confirmed then (Cancelled, dat)
      else case save (adopt (drop_keys [''_lastModified'', ''_updatedAt''] (im_data im))) of
             (ok, d) \<Rightarrow> (if ok then Imported else NotSaved, d))"

definition cherryFileImportText :: "bool \<Rightarrow> bool \<Rightarrow> (js \<Rightarrow> js) \<Rightarrow> (js \<Rightarrow> bool \<times> js) \<Rightarrow> ustr \<Rightarrow> js \<Rightarrow> refusal option \<times> outcome option \<times> js" where
  "cherryFileImportText store confirmed adopt save t dat = (case cherryFileParse store t of
       Inl e \<Rightarrow> (Some e, None, dat)
     | Inr im \<Rightarrow> (case cherryFileApplyImport confirmed adopt save im dat of (o', d) \<Rightarrow> (None, Some o', d)))"

end
