(* ===== verification/JsJsonOk.thy ===== *)
theory JsJsonOk
  imports JsJson
begin

section \<open>Printing and parsing JSON are inverse\<close>

text \<open>Enough fuel gives the result of the parser; what is printed is read back.\<close>

subsection \<open>Fuel\<close>

lemma skip_ws_length: "length (skip_ws s) \<le> length s"
  by (simp add: skip_ws_def length_dropWhile_le)

lemma skip_ws_Cons: "skip_ws s = c # r \<Longrightarrow> length r < length s"
  using skip_ws_length [of s] by simp

lemma parse_body_shorter: "parse_body s = Some (b, t) \<Longrightarrow> length t < length s"
proof (induction s arbitrary: b t rule: parse_body.induct)
  case (1 s)
  show ?case
  proof (cases "s = [] \<or> hd s = 34")
    case True
    with "1.prems" have "s \<noteq> []" "t = tl s" by (subst (asm) parse_body.simps; auto split: if_splits)+
    then show ?thesis by (cases s) auto
  next
    case False
    with "1.prems" obtain c r b' where c: "parse_char s = Some (c, r)" and r: "parse_body r = Some (b', t)"
      by (subst (asm) parse_body.simps) (auto split: option.splits)
    from parse_char_shorter [OF c] "1.IH" [OF _ _ c refl r] False show ?thesis by simp
  qed
qed

lemma parse_num_shorter: "parse_num s = Some (v, r) \<Longrightarrow> length r < length s"
proof -
  have *: "takeWhile is_digit x \<noteq> [] \<Longrightarrow> length (dropWhile is_digit x) < length x" for x
    by (cases x) (auto simp: le_imp_less_Suc length_dropWhile_le split: if_splits)
  show "parse_num s = Some (v, r) \<Longrightarrow> length r < length s"
    using * [of s] * [of "tl s"] by (cases s) (auto simp: parse_num_def Let_def split: if_splits)
qed

lemma parse_word_shorter: "parse_word w v s = Some (v', r) \<Longrightarrow> w \<noteq> [] \<Longrightarrow> length r < length s"
  by (cases s) (auto simp: parse_word_def u_def split: if_splits)

definition enough_v :: "nat \<Rightarrow> bool" where
  "enough_v n \<longleftrightarrow> (\<forall>s v r. parse_value n s = Some (v, r)
     \<longrightarrow> length r < length s \<and> (\<forall>m. 2 * length s + 1 \<le> m \<longrightarrow> parse_value m s = Some (v, r)))"

definition enough_e :: "nat \<Rightarrow> bool" where
  "enough_e n \<longleftrightarrow> (\<forall>s v r. parse_elems n s = Some (v, r)
     \<longrightarrow> length r < length s \<and> (\<forall>m. 2 * length s + 2 \<le> m \<longrightarrow> parse_elems m s = Some (v, r)))"

definition enough_m :: "nat \<Rightarrow> bool" where
  "enough_m n \<longleftrightarrow> (\<forall>s v r. parse_members n s = Some (v, r)
     \<longrightarrow> length r < length s \<and> (\<forall>m. 2 * length s + 2 \<le> m \<longrightarrow> parse_members m s = Some (v, r)))"

lemma enough_vD: "enough_v n \<Longrightarrow> parse_value n s = Some (v, r) \<Longrightarrow> length r < length s"
    "enough_v n \<Longrightarrow> parse_value n s = Some (v, r) \<Longrightarrow> 2 * length s + 1 \<le> m \<Longrightarrow> parse_value m s = Some (v, r)"
  and enough_eD: "enough_e n \<Longrightarrow> parse_elems n s = Some (xs, r) \<Longrightarrow> length r < length s"
    "enough_e n \<Longrightarrow> parse_elems n s = Some (xs, r) \<Longrightarrow> 2 * length s + 2 \<le> m \<Longrightarrow> parse_elems m s = Some (xs, r)"
  and enough_mD: "enough_m n \<Longrightarrow> parse_members n s = Some (ms, r) \<Longrightarrow> length r < length s"
    "enough_m n \<Longrightarrow> parse_members n s = Some (ms, r) \<Longrightarrow> 2 * length s + 2 \<le> m \<Longrightarrow> parse_members m s = Some (ms, r)"
  unfolding enough_v_def enough_e_def enough_m_def by blast+

lemma enough_v_Suc:
  assumes "enough_e n" "enough_m n"
  shows "enough_v (Suc n)"
  unfolding enough_v_def
proof (intro allI impI conjI)
  fix s v t assume p: "parse_value (Suc n) s = Some (v, t)"
  then obtain c r where sk: "skip_ws s = c # r" by (cases "skip_ws s") auto
  note l = skip_ws_Cons [OF sk] skip_ws_Cons [of r]
  have cr: "length (c # r) \<le> length s" using l(1) by simp
  show "length t < length s"
    using p sk l cr enough_eD(1) [OF assms(1)] enough_mD(1) [OF assms(2)]
    by (fastforce split: if_splits list.splits dest: parse_body_shorter parse_num_shorter parse_word_shorter)
  fix m assume "2 * length s + 1 \<le> m"
  then obtain k where k: "m = Suc k" "2 * length r + 2 \<le> k" using l(1) by (cases m) auto
  show "parse_value m s = Some (v, t)"
    using p sk enough_eD(2) [OF assms(1) _ k(2)] enough_mD(2) [OF assms(2) _ k(2)] unfolding k(1)
    by (auto split: if_splits list.splits)
qed

lemma enough_e_Suc:
  assumes "enough_v n" "enough_e n"
  shows "enough_e (Suc n)"
  unfolding enough_e_def
proof (intro allI impI conjI)
  fix s xs t assume p: "parse_elems (Suc n) s = Some (xs, t)"
  then obtain v r where v: "parse_value n s = Some (v, r)" by (auto split: option.splits)
  with p obtain d q where sk: "skip_ws r = d # q" by (cases "skip_ws r") auto
  have l: "length r < length s" "length q < length r"
    using enough_vD(1) [OF assms(1) v] skip_ws_Cons [OF sk] by simp_all
  show "length t < length s"
    using p v sk l enough_eD(1) [OF assms(2)] by (fastforce split: if_splits)
  fix m assume m: "2 * length s + 2 \<le> m"
  then obtain k where k: "m = Suc k" "2 * length s + 1 \<le> k" "2 * length q + 2 \<le> k" using l by (cases m) auto
  show "parse_elems m s = Some (xs, t)"
    using p v sk enough_vD(2) [OF assms(1) v k(2)] enough_eD(2) [OF assms(2) _ k(3)] unfolding k(1)
    by (auto split: if_splits)
qed

lemma enough_m_Suc:
  assumes "enough_v n" "enough_m n"
  shows "enough_m (Suc n)"
  unfolding enough_m_def
proof (intro allI impI conjI)
  fix s ms t assume p: "parse_members (Suc n) s = Some (ms, t)"
  then obtain s1 where s1: "skip_ws s = 34 # s1" by (auto split: list.splits if_splits)
  with p obtain k s2 where s2: "parse_body s1 = Some (k, s2)" by (auto split: option.splits)
  with p s1 obtain s3 where s3: "skip_ws s2 = 58 # s3" by (auto split: list.splits if_splits)
  with p s1 s2 obtain v s4 where s4: "parse_value n s3 = Some (v, s4)" by (auto split: option.splits)
  with p s1 s2 s3 obtain d q where q: "skip_ws s4 = d # q" by (cases "skip_ws s4") auto
  have l: "length s3 < length s" "length q < length s" "length q < length s3"
    using skip_ws_Cons [OF s1] skip_ws_Cons [OF s3] skip_ws_Cons [OF q] parse_body_shorter [OF s2] enough_vD(1) [OF assms(1) s4]
    by simp_all
  show "length t < length s"
    using p s1 s2 s3 s4 q l enough_mD(1) [OF assms(2)] by (fastforce split: if_splits)
  fix m assume m: "2 * length s + 2 \<le> m"
  then obtain j where j: "m = Suc j" "2 * length s3 + 1 \<le> j" "2 * length q + 2 \<le> j" using l by (cases m) auto
  show "parse_members m s = Some (ms, t)"
    using p s1 s2 s3 s4 q enough_vD(2) [OF assms(1) s4 j(2)] enough_mD(2) [OF assms(2) _ j(3)] unfolding j(1)
    by (auto split: if_splits)
qed

lemma enough_fuel: "enough_v n \<and> enough_e n \<and> enough_m n"
proof (induction n)
  case 0
  show ?case by (simp add: enough_v_def enough_e_def enough_m_def)
next
  case (Suc n)
  then show ?case using enough_v_Suc enough_e_Suc enough_m_Suc by blast
qed

lemma json_parse_complete:
  "parse_value n s = Some (v, r) \<Longrightarrow> skip_ws r = [] \<Longrightarrow> json_parse s = Some v"
  using enough_fuel [of n] enough_vD(2) [of n s v r "2 * length s + 1"] by (simp add: json_parse_def)

subsection \<open>Strings\<close>

lemma hex_val_digit: "n < 16 \<Longrightarrow> hex_val (hex_digit n) = Some n"
  by (auto simp: hex_val_def hex_digit_def)

lemma parse_hex4_hex4:
  assumes "c < 65536"
  shows "parse_hex4 (hex4 c @ r) = Some (c, r)"
proof -
  have "c div 4096 mod 16 = c div 4096" using assms by simp
  moreover have "c div 4096 * 16 + c div 256 mod 16 = c div 256"
    using div_mult_mod_eq [of "c div 256" 16] by (simp add: div_mult2_eq [symmetric])
  moreover have "c div 256 * 16 + c div 16 mod 16 = c div 16"
    using div_mult_mod_eq [of "c div 16" 16] by (simp add: div_mult2_eq [symmetric])
  moreover have "c div 4096 < 16" using assms by simp
  ultimately show ?thesis by (simp add: parse_hex4_def hex4_def hex_val_digit)
qed

definition unit_ok :: "nat \<Rightarrow> bool" where
  "unit_ok c \<longleftrightarrow> c < 65536"

lemma parse_char_escape:
  assumes "c < 65536"
  shows "parse_char (escape_cu c @ r) = Some (c, r)"
proof (cases "c \<in> {34, 92, 8, 9, 10, 12, 13}")
  case True
  then show ?thesis by (elim insertE emptyE) (simp_all add: escape_cu_def parse_char_def unescape_def)
next
  case False
  then have "escape_cu c = (if c < 32 \<or> is_high c \<or> is_low c then 92 # 117 # hex4 c else [c])"
    by (simp add: escape_cu_def)
  then show ?thesis using False parse_hex4_hex4 [OF assms, of r] by (simp add: parse_char_def)
qed

lemma escape_hd: "escape_cu c \<noteq> [] \<and> hd (escape_cu c) \<noteq> 34"
  by (auto simp: escape_cu_def)

lemma body_step: "s \<noteq> [] \<Longrightarrow> hd s \<noteq> 34 \<Longrightarrow> parse_char s = Some (c, r) \<Longrightarrow> parse_body r = Some (b, t)
   \<Longrightarrow> parse_body s = Some (c # b, t)"
  by (simp add: parse_body.simps [of s])

lemma parse_char_plain: "32 \<le> c \<Longrightarrow> c \<noteq> 92 \<Longrightarrow> parse_char (c # r) = Some (c, r)"
  by (simp add: parse_char_def)

text \<open>Every code unit is below \<open>2 ^ 16\<close> in a JavaScript string; only surrogates and controls need it.\<close>

lemma escape_cu_unit: "\<not> c < 65536 \<Longrightarrow> escape_cu c = [c]"
  by (auto simp: escape_cu_def is_high_def is_low_def)

lemma parse_char_escape': "parse_char (escape_cu c @ r) = Some (c, r)"
  using parse_char_escape [of c r] escape_cu_unit [of c] by (cases "c < 65536") (auto simp: parse_char_plain)

lemma parse_quote_body: "parse_body (quote_body s @ 34 # r) = Some (s, r)"
proof (induction s rule: quote_body.induct)
  case 1
  then show ?case by (simp add: parse_body.simps)
next
  case (2 c)
  have "parse_body (34 # r) = Some ([], r)" by (simp add: parse_body.simps)
  with body_step [OF _ _ parse_char_escape', of c "34 # r"] show ?case using escape_hd [of c] by simp
next
  case (3 c d s)
  show ?case
  proof (cases "is_high c \<and> is_low d")
    case True
    then have cd: "32 \<le> c" "c \<noteq> 92" "32 \<le> d" "d \<noteq> 92" "c \<noteq> 34" "d \<noteq> 34" by (auto simp: is_high_def is_low_def)
    have "parse_body (d # quote_body s @ 34 # r) = Some (d # s, r)"
      by (rule body_step [OF _ _ parse_char_plain]) (use cd "3.IH"(1) [OF True] in simp_all)
    from body_step [OF _ _ parse_char_plain this, of c] cd True show ?thesis by simp
  next
    case False
    then have "quote_body (c # d # s) = escape_cu c @ quote_body (d # s)" by (simp only: quote_body.simps if_False)
    with body_step [OF _ _ parse_char_escape' "3.IH"(2) [OF False], of c] escape_hd [of c] show ?thesis by simp
  qed
qed

subsection \<open>Numbers\<close>

text \<open>What may follow a value.\<close>

definition stops :: "ustr \<Rightarrow> bool" where
  "stops r \<longleftrightarrow> r = [] \<or> hd r \<in> {44, 93, 125}"

lemma printed_digits: "list_all is_digit (nat_str n) \<and> nat_str n \<noteq> []"
  by (simp add: list_all_iff nat_str_digits)

lemma nat_str_hd: "0 < n \<Longrightarrow> hd (nat_str n) \<noteq> 48"
proof (induction n rule: nat_str.induct)
  case (1 n)
  then show ?case using printed_digits [of "n div 10"] by (subst nat_str.simps) (auto simp: hd_append)
qed

lemma takeWhile_digits: "list_all is_digit ds \<Longrightarrow> stops r \<Longrightarrow> takeWhile is_digit (ds @ r) = ds \<and> dropWhile is_digit (ds @ r) = r"
  by (induction ds) (cases r, auto simp: stops_def is_digit_def)

lemma parse_num_int:
  assumes "stops r"
  shows "parse_num (int_str i @ r) = Some (JNum i, r)"
proof -
  have nat: "parse_num (nat_str n @ r) = Some (JNum (int n), r)
      \<and> parse_num (45 # nat_str n @ r) = Some (JNum (- int n), r)" if "True" for n
  proof -
    have d: "list_all is_digit (nat_str n)" "nat_str n \<noteq> []" using printed_digits [of n] by auto
    note tw = takeWhile_digits [OF d(1) assms]
    have h: "hd (nat_str n @ r) \<noteq> 45" using d by (cases "nat_str n") (auto simp: is_digit_def)
    have z: "\<not> (hd (nat_str n) = 48 \<and> 1 < length (nat_str n))"
      using nat_str_hd [of n] by (cases "n = 0") (simp_all add: nat_str.simps [of 0])
    have s: "\<not> (r \<noteq> [] \<and> hd r \<in> {46, 69, 101})" using assms by (auto simp: stops_def)
    show ?thesis using d h z s tw by (auto simp: parse_num_def Let_def digits_val_nat_str)
  qed
  show ?thesis using nat [of "nat i"] nat [of "nat (- i)"] by (auto simp: int_str_def)
qed

subsection \<open>Values\<close>

text \<open>What the printer can write without loss: keys are distinct and nothing is \<open>undefined\<close>.\<close>

fun json_ok :: "js \<Rightarrow> bool" where
  "json_ok JUndef = False"
| "json_ok (JArr xs) = list_all json_ok xs"
| "json_ok (JObj kvs) = (distinct (map fst kvs) \<and> list_all (\<lambda>kv. json_ok (snd kv)) kvs)"
| "json_ok _ = True"

text \<open>Reading back with any amount of fuel that is large enough.\<close>

definition reads_as :: "ustr \<Rightarrow> js \<Rightarrow> bool" where
  "reads_as t v \<longleftrightarrow> (\<forall>r. stops r \<longrightarrow> (\<exists>n. parse_value n (t @ r) = Some (v, r)))"

lemma reads_asD: "reads_as t v \<Longrightarrow> stops r \<Longrightarrow> \<exists>n. parse_value n (t @ r) = Some (v, r)"
  by (simp add: reads_as_def)

lemma fuel_mono:
  assumes "\<exists>n. parse_value n s = Some (v, r)"
  shows "2 * length s + 1 \<le> m \<Longrightarrow> parse_value m s = Some (v, r)"
  using assms enough_fuel enough_vD(2) by blast

lemma skip_ws_id: "s = [] \<or> \<not> is_json_space (hd s) \<Longrightarrow> skip_ws s = s"
  by (cases s) (auto simp: skip_ws_def)

lemma stops_skip: "stops r \<Longrightarrow> skip_ws r = r"
  by (rule skip_ws_id) (auto simp: stops_def is_json_space_def)

lemma stopsI [simp]: "stops (44 # r)" "stops (93 # r)" "stops (125 # r)" "stops []"
  by (simp_all add: stops_def)

lemma skip_ws_stop [simp]: "skip_ws (44 # r) = 44 # r" "skip_ws (93 # r) = 93 # r" "skip_ws (125 # r) = 125 # r"
    "skip_ws (34 # r) = 34 # r" "skip_ws (58 # r) = 58 # r" "skip_ws (91 # r) = 91 # r" "skip_ws (123 # r) = 123 # r"
  by (simp_all add: skip_ws_def is_json_space_def)

text \<open>The first unit of a printed value decides its kind.\<close>

lemma int_str_hd: "int_str i \<noteq> [] \<and> (hd (int_str i) = 45 \<or> is_digit (hd (int_str i)))"
  using printed_digits [of "nat i"] by (cases "nat_str (nat i)") (auto simp: int_str_def)

lemma reads_int: "reads_as (int_str i) (JNum i)"
  unfolding reads_as_def
proof (intro allI impI)
  fix r assume r: "stops r"
  obtain c t where ct: "int_str i = c # t" "c = 45 \<or> is_digit c" using int_str_hd [of i] by (cases "int_str i") auto
  have "skip_ws (int_str i @ r) = c # t @ r" using ct by (auto simp: skip_ws_def is_json_space_def is_digit_def)
  moreover have "parse_num (c # t @ r) = Some (JNum i, r)" using parse_num_int [OF r, of i] ct by simp
  moreover have "c \<notin> {34, 91, 123, 110, 116, 102}" using ct(2) by (auto simp: is_digit_def)
  ultimately have "parse_value 1 (int_str i @ r) = Some (JNum i, r)" by simp
  then show "\<exists>n. parse_value n (int_str i @ r) = Some (JNum i, r)" ..
qed

lemma reads_quoted: "reads_as (quoted s) (JStr s)"
proof -
  have "parse_value 1 (quoted s @ r) = Some (JStr s, r)" for r
    using parse_quote_body [of s r] by (simp add: quoted_def)
  then show ?thesis unfolding reads_as_def by blast
qed

lemma reads_word:
  "reads_as (u ''null'') JNull" "reads_as (u ''true'') (JBool True)" "reads_as (u ''false'') (JBool False)"
proof -
  have "parse_value 1 (u ''null'' @ r) = Some (JNull, r)" "parse_value 1 (u ''true'' @ r) = Some (JBool True, r)"
    "parse_value 1 (u ''false'' @ r) = Some (JBool False, r)" for r
    by (simp_all add: u_def skip_ws_def is_json_space_def parse_word_def)
  then show "reads_as (u ''null'') JNull" "reads_as (u ''true'') (JBool True)" "reads_as (u ''false'') (JBool False)"
    unfolding reads_as_def by blast+
qed

lemma json_text_hd: "json_text v \<noteq> [] \<and> hd (json_text v) \<noteq> 93 \<and> \<not> is_json_space (hd (json_text v))"
proof (cases v)
  case (JNum i)
  then show ?thesis using int_str_hd [of i] by (auto simp: is_json_space_def is_digit_def)
qed (auto simp: u_def quoted_def is_json_space_def)

lemma join_Cons: "ws \<noteq> [] \<Longrightarrow> join_with [c] (w # ws) = w @ c # join_with [c] ws"
  by (cases ws) simp_all

lemma read_elems:
  assumes "\<And>x. x \<in> set xs \<Longrightarrow> reads_as (json_text x) x" and "xs \<noteq> []"
  shows "\<exists>n. parse_elems n (join_with [44] (map json_text xs) @ 93 # r) = Some (xs, r)"
  using assms
proof (induction xs)
  case (Cons x xs)
  show ?case
  proof (cases "xs = []")
    case True
    have "\<exists>n. parse_value n (json_text x @ 93 # r) = Some (x, 93 # r)"
      by (rule reads_asD) (use Cons.prems in simp_all)
    then obtain n where "parse_value n (json_text x @ 93 # r) = Some (x, 93 # r)" by blast
    then have "parse_elems (Suc n) (json_text x @ 93 # r) = Some ([x], r)" by simp
    then have "\<exists>n. parse_elems n (json_text x @ 93 # r) = Some ([x], r)" by blast
    with True show ?thesis by simp
  next
    case False
    define rest where "rest = join_with [44] (map json_text xs) @ 93 # r"
    have "\<exists>n. parse_elems n rest = Some (xs, r)" unfolding rest_def by (rule Cons.IH) (use Cons.prems False in simp_all)
    then obtain n where n: "parse_elems n rest = Some (xs, r)" by blast
    have "\<exists>n. parse_value n (json_text x @ 44 # rest) = Some (x, 44 # rest)"
      by (rule reads_asD) (use Cons.prems in simp_all)
    then have v: "parse_value m (json_text x @ 44 # rest) = Some (x, 44 # rest)" if "2 * length (json_text x @ 44 # rest) + 1 \<le> m" for m
      using fuel_mono that by blast
    let ?m = "2 * length (json_text x @ 44 # rest) + 1"
    have "parse_elems ?m rest = Some (xs, r)"
      by (rule enough_eD(2) [OF _ n]) (use enough_fuel in simp_all)
    then have "parse_elems (Suc ?m) (json_text x @ 44 # rest) = Some (x # xs, r)" using v [of ?m] by simp
    then have "\<exists>n. parse_elems n (json_text x @ 44 # rest) = Some (x # xs, r)" by blast
    then show ?thesis using False by (simp add: rest_def join_Cons)
  qed
qed simp

abbreviation member_text :: "ustr \<times> js \<Rightarrow> ustr" where
  "member_text kv \<equiv> quoted (fst kv) @ [58] @ json_text (snd kv)"

lemma read_members:
  assumes "\<And>kv. kv \<in> set kvs \<Longrightarrow> reads_as (json_text (snd kv)) (snd kv)" and "kvs \<noteq> []"
  shows "\<exists>n. parse_members n (join_with [44] (map member_text kvs) @ 125 # r) = Some (kvs, r)"
  using assms
proof (induction kvs)
  case (Cons kx kvs)
  obtain k x where kx: "kx = (k, x)" by (cases kx)
  have rx: "reads_as (json_text x) x" using Cons.prems(1) [of kx] by (simp add: kx)
  have body: "parse_body (quote_body k @ 34 # 58 # q) = Some (k, 58 # q)" for q by (rule parse_quote_body)
  show ?case
  proof (cases "kvs = []")
    case True
    have "\<exists>n. parse_value n (json_text x @ 125 # r) = Some (x, 125 # r)" by (rule reads_asD [OF rx]) simp
    then obtain n where "parse_value n (json_text x @ 125 # r) = Some (x, 125 # r)" by blast
    then have "parse_members (Suc n) (member_text kx @ 125 # r) = Some ([(k, x)], r)" using body by (simp add: kx quoted_def)
    then have "\<exists>n. parse_members n (member_text kx @ 125 # r) = Some ([(k, x)], r)" by blast
    with True kx show ?thesis by simp
  next
    case False
    define rest where "rest = join_with [44] (map member_text kvs) @ 125 # r"
    have "\<exists>n. parse_members n rest = Some (kvs, r)" unfolding rest_def by (rule Cons.IH) (use Cons.prems False in \<open>auto simp: kx\<close>)
    then obtain n where n: "parse_members n rest = Some (kvs, r)" by blast
    have v: "\<exists>n. parse_value n (json_text x @ 44 # rest) = Some (x, 44 # rest)" by (rule reads_asD [OF rx]) simp
    let ?m = "2 * length (json_text x @ 44 # rest) + 1"
    have "parse_members ?m rest = Some (kvs, r)"
      by (rule enough_mD(2) [OF _ n]) (use enough_fuel in simp_all)
    moreover have "parse_value ?m (json_text x @ 44 # rest) = Some (x, 44 # rest)" by (rule fuel_mono [OF v]) simp
    ultimately have "parse_members (Suc ?m) (member_text kx @ 44 # rest) = Some ((k, x) # kvs, r)"
      using body by (simp add: kx quoted_def)
    then have "\<exists>n. parse_members n (member_text kx @ 44 # rest) = Some ((k, x) # kvs, r)" by blast
    then show ?thesis using False by (simp add: rest_def join_Cons kx)
  qed
qed simp

lemma fold_update_distinct:
  "distinct (map fst (m @ kvs)) \<Longrightarrow> fold (\<lambda>(k, v). AList.update k v) kvs m = m @ kvs"
proof (induction kvs arbitrary: m)
  case (Cons kv kvs)
  obtain k v where kv: "kv = (k, v)" by (cases kv)
  have "AList.update k v m = m @ [(k, v)]" using Cons.prems by (induction m) (auto simp: kv)
  then show ?case using Cons.IH [of "m @ [(k, v)]"] Cons.prems by (simp add: kv)
qed simp

lemma reads_text: "json_ok v \<Longrightarrow> reads_as (json_text v) v"
proof (induction v)
  case (JArr xs)
  then have xs: "\<And>x. x \<in> set xs \<Longrightarrow> reads_as (json_text x) x" by (auto simp: list_all_iff)
  show ?case unfolding reads_as_def
  proof (intro allI impI)
    fix r :: ustr assume "stops r"
    show "\<exists>n. parse_value n (json_text (JArr xs) @ r) = Some (JArr xs, r)"
    proof (cases xs)
      case Nil
      have "parse_value 1 (json_text (JArr xs) @ r) = Some (JArr xs, r)" by (simp add: Nil)
      then show ?thesis ..
    next
      case (Cons x ys)
      obtain n where n: "parse_elems n (join_with [44] (map json_text xs) @ 93 # r) = Some (xs, r)"
        using read_elems [of xs r, OF xs] Cons by auto
      obtain c t where ct: "join_with [44] (map json_text xs) = c # t" "c \<noteq> 93" "\<not> is_json_space c"
        using json_text_hd [of x] by (cases "json_text x"; cases ys) (auto simp: Cons)
      have "parse_value (Suc n) (json_text (JArr xs) @ r) = Some (JArr xs, r)"
        using n ct by (simp add: skip_ws_id)
      then show ?thesis ..
    qed
  qed
next
  case (JObj kvs)
  then have kvs: "\<And>kv. kv \<in> set kvs \<Longrightarrow> reads_as (json_text (snd kv)) (snd kv)"
    by (auto simp: list_all_iff Basic_BNFs.prod_set_defs)
  have f: "filter (\<lambda>(k, v). v \<noteq> JUndef) kvs = kvs"
    by (rule filter_True) (use JObj.prems in \<open>auto simp: list_all_iff\<close>)
  have g: "fold (\<lambda>(k, v). AList.update k v) kvs [] = kvs"
    using fold_update_distinct [of "[]" kvs] JObj.prems by simp
  have printed: "json_text (JObj kvs) = [123] @ join_with [44] (map member_text kvs) @ [125]"
    unfolding json_text.simps f by (simp add: case_prod_unfold)
  show ?case unfolding reads_as_def
  proof (intro allI impI)
    fix r :: ustr assume "stops r"
    show "\<exists>n. parse_value n (json_text (JObj kvs) @ r) = Some (JObj kvs, r)"
    proof (cases kvs)
      case Nil
      have "parse_value 1 (json_text (JObj kvs) @ r) = Some (JObj kvs, r)" by (simp add: Nil)
      then show ?thesis ..
    next
      case (Cons kx ys)
      define b where "b = join_with [44] (map member_text kvs)"
      obtain n where n: "parse_members n (b @ 125 # r) = Some (kvs, r)"
        using read_members [of kvs r, OF kvs] Cons unfolding b_def by blast
      obtain t where ct: "b = 34 # t" by (cases ys) (simp_all add: Cons quoted_def b_def)
      have "parse_value (Suc n) ([123] @ b @ [125] @ r) = Some (JObj kvs, r)"
        using n g by (simp add: ct)
      then have "\<exists>n. parse_value n ([123] @ b @ [125] @ r) = Some (JObj kvs, r)" by blast
      then show ?thesis unfolding printed b_def by simp
    qed
  qed
qed (simp_all add: reads_int reads_quoted reads_word)

theorem json_round_trip: "json_ok v \<Longrightarrow> json_parse (json_text v) = Some v"
  using reads_asD [OF reads_text, of v "[]"] json_parse_complete [of _ "json_text v" v "[]"]
  by (auto simp: skip_ws_def)

end
