(* ===== verification/ChProps.thy ===== *)
theory ChProps
  imports ChFile JsJsonOk StOk
begin

section \<open>What exporting and importing a school promises\<close>

text \<open>The file gives back what it was made of; what is refused or cancelled changes nothing.\<close>

subsection \<open>Normalized data can be written\<close>

lemma rekey_ok:
  assumes "distinct (map fst kvs)" "list_all (\<lambda>kv. json_ok (snd kv)) kvs"
  shows "distinct (map fst (rekey nfc k kvs))" "list_all (\<lambda>kv. json_ok (snd kv)) (rekey nfc k kvs)"
  using assms
  by (auto simp: rekey_def Let_def map_of_eq_None_iff distinct_map_filter list_all_iff image_iff
      split: option.split dest!: map_of_SomeD)

lemma fold_rekey_ok:
  "distinct (map fst kvs) \<Longrightarrow> list_all (\<lambda>kv. json_ok (snd kv)) kvs
     \<Longrightarrow> json_ok (JObj (fold (rekey nfc) ks kvs))"
  by (induction ks arbitrary: kvs) (simp_all add: rekey_ok)

lemma nfc_value_ok: "json_ok v \<Longrightarrow> json_ok (nfc_value nfc v)"
proof (induction v)
  case (JObj kvs)
  then show ?case
    unfolding nfc_value.simps
    by (intro fold_rekey_ok)
      (auto simp: list_all_iff Basic_BNFs.prod_set_defs comp_def case_prod_unfold)
qed (auto simp: list_all_iff)

lemma normalize_ok: "json_ok d \<Longrightarrow> json_ok (snd (normalizeUnicodeNFC nfc d))"
  by (simp add: normalizeUnicodeNFC_def nfc_value_ok)

lemma payload_ok: "json_ok d \<Longrightarrow> json_ok (cherry_payload sid label now d)"
  by (simp add: cherry_payload_def summary_js_def u_def)

lemma payload_props:
  "jprop (cherry_payload sid label now d) ''format'' = JStr cherry_format"
  "jprop (cherry_payload sid label now d) ''version'' = JNum cherry_version"
  "jprop (cherry_payload sid label now d) ''schoolId'' = JStr sid"
  "jprop (cherry_payload sid label now d) ''schoolName'' = JStr label"
  "jprop (cherry_payload sid label now d) ''exportedAt'' = JStr now"
  "jprop (cherry_payload sid label now d) ''data'' = d"
  by (simp_all add: cherry_payload_def u_def)

lemma or_empty_str [simp]: "or_empty (JStr s) = s"
  by (simp add: or_empty_def js_or_def)

lemma meaningful_object: "cherryFileHasMeaningfulData store d \<Longrightarrow> is_object d \<and> \<not> is_array d"
  by (simp add: cherryFileHasMeaningfulData_def hasMeaningfulData_def own_meaningful_def split: if_splits)

lemma content_payload:
  assumes "is_object d" "\<not> is_array d"
  shows "file_content (cherry_payload sid label now d) = Inr (d, \<lparr>fm_schoolId = sid, fm_schoolName = label,
    fm_exportedAt = now, fm_version = 1, fm_wrapped = True\<rparr>)"
  using assms by (simp add: file_content_def payload_props Let_def num_or_zero_def cherry_version_def)

text \<open>
  C40: importing the text of an export gives back the exported data, normalized, with the school, the
  label and the time of the export and the same counts; confirmed, they replace the data of the page but
  for their time stamps.
\<close>

theorem export_import:
  assumes "json_ok d" and "is_object d" and "cherryFileHasMeaningfulData store (snd (normalizeUnicodeNFC nfc d))"
    and "cherryFileBuildExport nfc sid label now d = ex"
  shows "cherryFileParse store (ex_text ex) = Inr \<lparr>im_data = snd (normalizeUnicodeNFC nfc d),
      im_meta = \<lparr>fm_schoolId = sid, fm_schoolName = label, fm_exportedAt = now, fm_version = 1, fm_wrapped = True\<rparr>,
      im_newer = False, im_summary = ex_summary ex\<rparr>
    \<and> snd (snd (cherryFileImportText store True adopt save (ex_text ex) dat))
      = snd (save (adopt (drop_keys [''_lastModified'', ''_updatedAt''] (snd (normalizeUnicodeNFC nfc d)))))"
proof -
  define n where "n = snd (normalizeUnicodeNFC nfc d)"
  have ex: "ex_text ex = json_text (cherry_payload sid label now n)" "ex_summary ex = cherryFileSummary n"
    using assms(2,4) by (auto simp: cherryFileBuildExport_def cherryFileData_def n_def Let_def)
  have n: "json_ok n" "is_object n" "\<not> is_array n"
    using normalize_ok [OF assms(1)] meaningful_object [OF assms(3)] by (simp_all add: n_def)
  have "json_parse (ex_text ex) = Some (cherry_payload sid label now n)"
    unfolding ex by (rule json_round_trip) (rule payload_ok [OF n(1)])
  then have p: "cherryFileParse store (ex_text ex) = Inr \<lparr>im_data = n,
      im_meta = \<lparr>fm_schoolId = sid, fm_schoolName = label, fm_exportedAt = now, fm_version = 1, fm_wrapped = True\<rparr>,
      im_newer = False, im_summary = ex_summary ex\<rparr>"
    using assms(3) content_payload [OF n(2,3)]
    by (simp add: cherryFileParse_def n_def ex(2) [unfolded n_def] cherry_version_def, simp add: cherry_payload_def)
  then show ?thesis
    unfolding n_def [symmetric] by (simp add: cherryFileImportText_def cherryFileApplyImport_def split: prod.split)
qed

definition demo_data :: js where
  "demo_data = JObj [(u ''lop'', JArr [JObj [(u ''ten'', JStr (u ''6a'' @ [34, 10]))]]), (u ''_lastModified'', JNum 5)]"

lemma export_import_witness:
  "cherryFileParse True (ex_text (cherryFileBuildExport (\<lambda>s. s) (u ''abc'') [7844] (u ''2026'') demo_data))
     = Inr \<lparr>im_data = demo_data,
        im_meta = \<lparr>fm_schoolId = u ''abc'', fm_schoolName = [7844], fm_exportedAt = u ''2026'', fm_version = 1, fm_wrapped = True\<rparr>,
        im_newer = False, im_summary = cherryFileSummary demo_data\<rparr>"
proof -
  have d: "json_ok demo_data" "is_object demo_data" "snd (normalizeUnicodeNFC (\<lambda>s. s) demo_data) = demo_data"
    "cherryFileHasMeaningfulData True demo_data" by code_simp+
  have "ex_summary (cherryFileBuildExport (\<lambda>s. s) (u ''abc'') [7844] (u ''2026'') demo_data) = cherryFileSummary demo_data"
    using d by (simp add: cherryFileBuildExport_def cherryFileData_def Let_def)
  with export_import [OF d(1,2) _ refl, of True "\<lambda>s. s" "u ''abc''" "[7844]" "u ''2026''"] d show ?thesis by simp
qed

end
