(* ===== verification/DaText.thy ===== *)
theory DaText
  imports FeText
begin

section \<open>School data: names and look-ups\<close>

text \<open>
  What \<open>app.js\<close> uses to recognise classes, subjects and teachers in the tables of a school. \<open>d\<close> is the
  \<open>DATA\<close> object; its rows are objects (a null row, on which most of this code throws, is read as an empty
  one) whose names are texts. The caches of the look-ups are transparent and left out.
\<close>

subsection \<open>Texts\<close>

definition norm_text :: "js \<Rightarrow> ustr" where
  "norm_text x = trim (collapse_ws (nfc (js_string (js_nullor x (JStr [])))))"

definition norm_low :: "js \<Rightarrow> ustr" where
  "norm_low x = toLowerCase (norm_text x)"

text \<open>\<open>(v || "").toString().trim()\<close>.\<close>

definition trimmed :: "js \<Rightarrow> ustr" where
  "trimmed v = trim (js_string (js_or v (JStr [])))"

text \<open>\<open>toUpperCase\<close>, for the alphabet of the prelude.\<close>

definition upper_cu :: "nat \<Rightarrow> nat list" where
  "upper_cu c =
    (if c \<le> 127 then (if 97 \<le> c \<and> c \<le> 122 then [c - 32] else [c])
     else if c = 181 then [924] else if c = 223 then [83, 83] else if c = 255 then [376]
     else if 224 \<le> c \<and> c \<le> 254 \<and> c \<noteq> 247 then [c - 32]
     else if c = 305 then [73] else if c = 329 then [700, 78] else if c = 383 then [83]
     else if (256 \<le> c \<and> c \<le> 311 \<or> 330 \<le> c \<and> c \<le> 375 \<or> c = 417 \<or> c = 419 \<or> c = 421
              \<or> 7680 \<le> c \<and> c \<le> 7829 \<or> 7840 \<le> c \<and> c \<le> 7935) \<and> odd c then [c - 1]
     else if (313 \<le> c \<and> c \<le> 328 \<or> 377 \<le> c \<and> c \<le> 382 \<or> c = 432) \<and> even c then [c - 1]
     else [c])"

definition toUpperCase :: "ustr \<Rightarrow> ustr" where
  "toUpperCase s = concat (map upper_cu s)"

definition add_text :: "ustr \<Rightarrow> ustr list \<Rightarrow> ustr list" where
  "add_text v out = (let s = trim v in if s = [] \<or> s \<in> set out then out else out @ [s])"

definition rows_of :: "js \<Rightarrow> string \<Rightarrow> js list" where
  "rows_of d k = array_of (jprop d k)"

subsection \<open>Names of classes\<close>

text \<open>A number, separators, a number: \<open>/^(\d+)[\.\-_/ ]+(\d+)$/\<close>; a number, an A, a number.\<close>

definition is_class_sep :: "nat \<Rightarrow> bool" where
  "is_class_sep c \<longleftrightarrow> c = 46 \<or> c = 45 \<or> c = 95 \<or> c = 47 \<or> c = 32"

definition split_sep_name :: "ustr \<Rightarrow> (ustr \<times> ustr) option" where
  "split_sep_name s =
     (let a = takeWhile is_digit s; r = dropWhile is_digit s; q = dropWhile is_class_sep r
      in if a \<noteq> [] \<and> r \<noteq> [] \<and> is_class_sep (hd r) \<and> q \<noteq> [] \<and> list_all is_digit q then Some (a, q) else None)"

definition split_a_name :: "ustr \<Rightarrow> (ustr \<times> ustr) option" where
  "split_a_name s =
     (let a = takeWhile is_digit s; r = dropWhile is_digit s; q = tl r;
          q1 = (if 1 < length q \<and> hd q = 48 then tl q else q)
      in if a \<noteq> [] \<and> r \<noteq> [] \<and> (hd r = 65 \<or> hd r = 97) \<and> q \<noteq> [] \<and> list_all is_digit q then Some (a, q1) else None)"

definition normalizeClassName :: "ustr \<Rightarrow> ustr" where
  "normalizeClassName name =
     (let s = trim name
      in case split_sep_name s of Some (a, b) \<Rightarrow> a @ [47] @ nat_str (digits_val b)
         | None \<Rightarrow> (case split_a_name s of Some (a, b) \<Rightarrow> toUpperCase (a @ [65] @ b)
             | None \<Rightarrow> toUpperCase (filter (\<lambda>c. \<not> is_space c) s)))"

definition legacyClassNameAliases :: "js \<Rightarrow> ustr list" where
  "legacyClassNameAliases name =
     (let raw = trimmed name;
          out = add_text (normalizeClassName raw) (add_text raw []);
          out1 = (case split_sep_name raw of Some (a, b) \<Rightarrow> add_text (toUpperCase (a @ [65] @ nat_str (digits_val b))) out | None \<Rightarrow> out)
      in case split_a_name raw of Some (a, b) \<Rightarrow> add_text (a @ [47] @ nat_str (digits_val b)) out1 | None \<Rightarrow> out1)"

definition first_text :: "ustr list \<Rightarrow> ustr" where
  "first_text ss = (case find (\<lambda>s. s \<noteq> []) ss of Some s \<Rightarrow> s | None \<Rightarrow> [])"

definition classCanonFromLop :: "js \<Rightarrow> ustr" where
  "classCanonFromLop l = first_text [trimmed (jprop l ''ten''), trimmed (jprop l ''ten2''), trimmed (jprop l ''id'')]"

definition own_aliases :: "js \<Rightarrow> ustr list" where
  "own_aliases lop = fold (\<lambda>v own. fold (\<lambda>a own. if a \<noteq> [] \<and> a \<notin> set own then own @ [a] else own) (legacyClassNameAliases v) own)
     (filter js_truthy [JStr (classCanonFromLop lop), jprop lop ''ten'', jprop lop ''ten2'', jprop lop ''id'']) []"

definition classLookupCandidates :: "js \<Rightarrow> js \<Rightarrow> ustr list" where
  "classLookupCandidates d name =
     (let raw = legacyClassNameAliases name; low = map toLowerCase raw
      in fold (\<lambda>lop out. let own = own_aliases lop
                         in if list_ex (\<lambda>a. toLowerCase a \<in> set low) own then fold add_text own out else out)
           (rows_of d ''lop'') (fold add_text raw []))"

text \<open>\<open>(str+"").match(/\d+/)?.[0] || ""\<close>.\<close>

definition khoi_number :: "ustr \<Rightarrow> ustr" where
  "khoi_number s = first_digits s"

subsection \<open>Teachers\<close>

text \<open>The first row with a code, or with a full name, wins.\<close>

definition teacher_code :: "js \<Rightarrow> ustr" where
  "teacher_code g = norm_text (jprop g ''magv'')"

definition teacher_full :: "js \<Rightarrow> ustr" where
  "teacher_full g = norm_low (JStr (trimmed (jprop g ''hodem'') @ [32] @ trimmed (jprop g ''ten'')))"

definition resolveTeacherCode :: "js \<Rightarrow> ustr \<Rightarrow> ustr" where
  "resolveTeacherCode d s =
     (let raw = norm_text (JStr s); low = toLowerCase raw; gv = rows_of d ''giaovien''
      in if raw = [] then []
         else case find (\<lambda>g. teacher_code g \<noteq> [] \<and> toLowerCase (teacher_code g) = low) gv of
                Some g \<Rightarrow> teacher_code g
              | None \<Rightarrow> (case find (\<lambda>g. teacher_full g \<noteq> [] \<and> teacher_full g = low) gv of
                  Some g \<Rightarrow> (if teacher_code g = [] then raw else teacher_code g) | None \<Rightarrow> raw))"

text \<open>
  Line ends, semicolons and plus signs (with the spaces around them) become commas; as each piece is
  trimmed and empty ones are dropped, splitting at each of them gives the same list.
\<close>

definition is_name_sep :: "nat \<Rightarrow> bool" where
  "is_name_sep c \<longleftrightarrow> c = 44 \<or> c = 10 \<or> c = 59 \<or> c = 65307 \<or> c = 43 \<or> c = 65291"

definition add_unless :: "ustr \<Rightarrow> ustr list \<Rightarrow> ustr list" where
  "add_unless s out = (if s = [] \<or> toLowerCase s \<in> toLowerCase ` set out then out else out @ [s])"

definition pccmTeacherListFromValue :: "js \<Rightarrow> js \<Rightarrow> ustr list" where
  "pccmTeacherListFromValue d raw =
     (let parts = (case raw of JArr xs \<Rightarrow> xs | _ \<Rightarrow> map JStr (split_on is_name_sep (js_string (js_nullor raw (JStr [])))))
      in fold (\<lambda>x. add_unless (resolveTeacherCode d (norm_text x))) parts [])"

definition pccmNormalizeTeacherValue :: "js \<Rightarrow> js \<Rightarrow> ustr" where
  "pccmNormalizeTeacherValue d raw = join_with [44, 32] (pccmTeacherListFromValue d raw)"

subsection \<open>Subjects\<close>

record mon_obj =
  mo_key :: ustr
  mo_ten :: ustr
  mo_code :: ustr
  mo_ma :: ustr
  mo_ma2 :: ustr

definition looksLikeCode :: "ustr \<Rightarrow> bool" where
  "looksLikeCode s = (let t = norm_text (JStr s)
     in t \<noteq> [] \<and> list_all (\<lambda>c. c \<le> 127 \<and> \<not> is_space c) t \<and> length t \<le> 12)"

definition mon_of_row :: "js \<Rightarrow> mon_obj option" where
  "mon_of_row r =
     (let ten = norm_text (jprop r ''ten''); ma = norm_text (jprop r ''ma''); ma2 = norm_text (jprop r ''ma2'');
          fields = filter (\<lambda>s. s \<noteq> []) [ten, ma, ma2];
          first_code = (case find looksLikeCode fields of Some s \<Rightarrow> s | None \<Rightarrow> []);
          first_name = (case find (\<lambda>s. \<not> looksLikeCode s) fields of Some s \<Rightarrow> s | None \<Rightarrow> []);
          name = norm_text (JStr (first_text [first_name, ten, ma, ma2]));
          code = norm_text (JStr (first_text [if looksLikeCode ma then ma else [], if looksLikeCode ma2 then ma2 else [], first_code, ma, ma2]))
      in if fields = [] \<or> name = [] then None
         else Some \<lparr>mo_key = (if code = [] then name else code), mo_ten = name, mo_code = code, mo_ma = ma, mo_ma2 = ma2\<rparr>)"

definition add_mon :: "js \<Rightarrow> mon_obj list \<Rightarrow> mon_obj list" where
  "add_mon r out = (case mon_of_row r of None \<Rightarrow> out
     | Some m \<Rightarrow> if toLowerCase (mo_key m) \<in> (toLowerCase \<circ> mo_key) ` set out then out else out @ [m])"

definition buildPCCMMonList :: "js \<Rightarrow> mon_obj list" where
  "buildPCCMMonList d = fold add_mon (rows_of d ''monhoc'') []"

definition pccmSubjectCode :: "mon_obj \<Rightarrow> ustr" where
  "pccmSubjectCode m = first_text (map (\<lambda>s. norm_text (JStr s)) [mo_code m, mo_ma m, mo_ma2 m, mo_key m, mo_ten m])"

text \<open>
  The standard periods of a subject in a grade: the first row of \<open>DATA.mon\<close> for the name, the key or the
  second code of the subject, given as lower-case texts.
\<close>

definition tiet_chuan_row :: "js \<Rightarrow> ustr \<Rightarrow> ustr \<Rightarrow> js option" where
  "tiet_chuan_row d knum name = find (\<lambda>r. khoi_number (norm_text (jprop r ''khoi'')) = knum
     \<and> norm_low (jprop r ''ten'') \<noteq> [] \<and> norm_low (jprop r ''ten'') = name) (rows_of d ''mon'')"

definition lookupTietChuan :: "js \<Rightarrow> ustr \<Rightarrow> ustr \<Rightarrow> ustr \<Rightarrow> ustr \<Rightarrow> js option" where
  "lookupTietChuan d khoi ten key ma2 =
     (let knum = khoi_number (norm_text (JStr khoi))
      in if knum = [] then None
         else case tiet_chuan_row d knum (toLowerCase ten) of Some r \<Rightarrow> Some r
            | None \<Rightarrow> (case tiet_chuan_row d knum (toLowerCase key) of Some r \<Rightarrow> Some r
                | None \<Rightarrow> if ma2 = [] then None else tiet_chuan_row d knum (toLowerCase ma2)))"

end
