(* ===== verification/DgData.thy ===== *)
theory DgData
  imports DaText "HOL-Library.List_Lexorder"
begin

section \<open>Joint lessons: rows, labels and identities\<close>

text \<open>
  The data part of \<open>modules/day-ghep.js\<close>. A row of \<open>DATA.dayGhep\<close> joins classes, subjects and teachers in
  one lesson. It has a free label (\<open>viettat\<close>) and an identity (\<open>ten\<close>), the text behind \<open>class|\<close> under which
  it is entered into the assignment tables and the timetable. \<open>d\<close> is \<open>DATA\<close>, \<open>e\<close> a row.

  The search for a free identity counts up until one is free; its fuel exceeds the number of texts that
  can be taken (\<open>identity_free\<close> in \<open>DgOk\<close>).
\<close>

subsection \<open>Reading a row\<close>

definition dayGhepList :: "js \<Rightarrow> js list" where
  "dayGhepList d = rows_of d ''dayGhep''"

definition dgUniqueTexts :: "js \<Rightarrow> ustr list" where
  "dgUniqueTexts raw =
     (let parts = (case raw of JArr xs \<Rightarrow> xs
           | _ \<Rightarrow> map JStr (split_on (\<lambda>c. c = 44 \<or> c = 59) (js_string (js_nullor raw (JStr [])))))
      in fold (\<lambda>v. add_unless (norm_text v)) parts [])"

definition dayGhepClasses :: "js \<Rightarrow> ustr list" where
  "dayGhepClasses e = dgUniqueTexts (jprop e ''lop'')"

definition dayGhepSubjects :: "js \<Rightarrow> ustr list" where
  "dayGhepSubjects e = dgUniqueTexts (jprop e ''mon'')"

definition dayGhepMonObj :: "js \<Rightarrow> ustr \<Rightarrow> mon_obj option" where
  "dayGhepMonObj d key =
     (let k = norm_low (JStr key); mons = buildPCCMMonList d
      in if k = [] then None
         else case find (\<lambda>m. norm_low (JStr (mo_key m)) = k) mons of Some m \<Rightarrow> Some m
            | None \<Rightarrow> find (\<lambda>m. list_ex (\<lambda>v. v \<noteq> [] \<and> norm_low (JStr v) = k) [mo_ten m, mo_ma m, mo_ma2 m]) mons)"

definition dayGhepSubjectCode :: "js \<Rightarrow> ustr \<Rightarrow> ustr" where
  "dayGhepSubjectCode d key =
     first_text [case dayGhepMonObj d key of Some m \<Rightarrow> pccmSubjectCode m | None \<Rightarrow> [], norm_text (JStr key)]"

definition dayGhepSubjectCodes :: "js \<Rightarrow> js \<Rightarrow> ustr" where
  "dayGhepSubjectCodes d e = join_with [47] (filter (\<lambda>s. s \<noteq> []) (map (dayGhepSubjectCode d) (dayGhepSubjects e)))"

definition dayGhepAutoName :: "js \<Rightarrow> js \<Rightarrow> ustr" where
  "dayGhepAutoName d e =
     (let codes = dayGhepSubjectCodes d e; classes = dayGhepClasses e
      in trim (if 1 < length classes then codes @ u '' ('' @ join_with [44, 32] classes @ u '')''
               else codes @ [32] @ (case classes of c # _ \<Rightarrow> c | [] \<Rightarrow> [])))"

definition dgLegacyAutoName :: "js \<Rightarrow> js \<Rightarrow> ustr" where
  "dgLegacyAutoName d e =
     (let codes = dayGhepSubjectCodes d e; classes = dayGhepClasses e
      in trim (if 1 < length classes then codes @ dash @ join_with [44, 32] classes
               else codes @ [32] @ (case classes of c # _ \<Rightarrow> c | [] \<Rightarrow> [])))"

definition dayGhepLabel :: "js \<Rightarrow> js \<Rightarrow> ustr" where
  "dayGhepLabel d e = first_text [norm_text (jprop e ''viettat''), dayGhepAutoName d e]"

definition dayGhepIdentity :: "js \<Rightarrow> js \<Rightarrow> ustr" where
  "dayGhepIdentity d e = first_text [norm_text (jprop e ''ten''), dayGhepLabel d e]"

definition dayGhepKeys :: "js \<Rightarrow> js \<Rightarrow> ustr list" where
  "dayGhepKeys d e = (let i = dayGhepIdentity d e in if i = [] then [] else map (\<lambda>c. c @ [124] @ i) (dayGhepClasses e))"

definition dayGhepTeachers :: "js \<Rightarrow> js \<Rightarrow> ustr list" where
  "dayGhepTeachers d e = pccmTeacherListFromValue d (js_or (jprop e ''gv'') (JArr []))"

definition dayGhepHasNoTeacher :: "js \<Rightarrow> js \<Rightarrow> bool" where
  "dayGhepHasNoTeacher d e \<longleftrightarrow> js_truthy e \<and> dayGhepTeachers d e = []"

definition dayGhepNoTeacherKeySet :: "js \<Rightarrow> ustr list" where
  "dayGhepNoTeacherKeySet d = map toLowerCase (concat (map (dayGhepKeys d) (filter (dayGhepHasNoTeacher d) (dayGhepList d))))"

definition dayGhepOwnedKeySet :: "js \<Rightarrow> ustr list" where
  "dayGhepOwnedKeySet d = map toLowerCase (concat (map (dayGhepKeys d) (dayGhepList d)))"

definition dayGhepOwnsKey :: "js \<Rightarrow> ustr \<Rightarrow> bool" where
  "dayGhepOwnsKey d k \<longleftrightarrow> norm_low (JStr k) \<in> set (dayGhepOwnedKeySet d)"

definition count_text :: "js \<Rightarrow> rat option" where
  "count_text v = string_number (trim (js_string (js_nullor v (JStr []))))"

definition dayGhepPeriods :: "js \<Rightarrow> rat" where
  "dayGhepPeriods e = (case count_text (jprop e ''sotiet'') of Some q \<Rightarrow> (if q > 0 then q else 0) | None \<Rightarrow> 0)"

definition dayGhepPeriodsWhere :: "(js \<Rightarrow> bool) \<Rightarrow> js \<Rightarrow> rat" where
  "dayGhepPeriodsWhere P d = (\<Sum>e\<leftarrow>filter P (dayGhepList d). dayGhepPeriods e * of_nat (max 1 (length (dayGhepClasses e))))"

definition dayGhepNewId :: "js list \<Rightarrow> ustr" where
  "dayGhepNewId es =
     (let tail_digits = (\<lambda>e. rev (takeWhile is_digit (rev (js_string (js_or (jprop e ''id'') (JStr []))))));
          n = nat_str (fold (\<lambda>e m. max m (digits_val (tail_digits e))) es 0 + 1)
      in u ''DG'' @ replicate (3 - length n) 48 @ n)"

subsection \<open>The identity\<close>

definition truthy_low :: "js \<Rightarrow> ustr list" where
  "truthy_low v = (if js_truthy v then [norm_low v] else [])"

text \<open>
  The subject whose name an identity would take, in full or in the short form of the engine: the text
  that the code answers, which is empty when there is none.
\<close>

definition names_of_row :: "js \<Rightarrow> ustr list" where
  "names_of_row m = concat (map (\<lambda>k. truthy_low (jprop m k)) [''ten'', ''ma'', ''ma2'', ''id''])"

definition dgSubjectClashingWith :: "js \<Rightarrow> ustr \<Rightarrow> ustr" where
  "dgSubjectClashingWith d name =
     (let low = norm_low (JStr name);
          shown = (\<lambda>m. norm_text (js_or (js_or (js_or (jprop m ''ten'') (jprop m ''ma'')) (jprop m ''ma2'')) (JStr name)))
      in if low = [] then []
         else case find (\<lambda>m. low \<in> set (names_of_row m)) (rows_of d ''monhoc'') of Some m \<Rightarrow> shown m
            | None \<Rightarrow> (case find (\<lambda>m. js_truthy m \<and> norm_low (jprop m ''ten'') = low) (rows_of d ''mon'') of
                Some m \<Rightarrow> shown m | None \<Rightarrow> []))"

definition dgFetStem :: "js \<Rightarrow> ustr" where
  "dgFetStem v = trim (strip_num_suffix (map (\<lambda>c. if c = 273 then 100 else c) (nfd_strip (norm_low v))))"

definition stems_of_row :: "js \<Rightarrow> ustr list" where
  "stems_of_row m = map dgFetStem (filter js_truthy [jprop m ''ten'', jprop m ''ma'', jprop m ''ma2''])"

definition dgFetStemClash :: "js \<Rightarrow> ustr \<Rightarrow> ustr" where
  "dgFetStemClash d name =
     (let stem = dgFetStem (JStr name)
      in if stem = [] then []
         else case find (\<lambda>m. stem \<in> set (stems_of_row m)) (rows_of d ''monhoc'') of
                Some m \<Rightarrow> norm_text (js_or (js_or (jprop m ''ma'') (jprop m ''ma2'')) (jprop m ''ten'')) | None \<Rightarrow> [])"

text \<open>A key of the main assignment that has a value and is not known to be one of a joint lesson.\<close>

definition projected_keys :: "js \<Rightarrow> ustr list" where
  "projected_keys d = map js_string (rows_of d ''dayGhepProjected'')"

definition main_keys :: "js \<Rightarrow> ustr list" where
  "main_keys d = filter (\<lambda>k. k \<notin> set (map toLowerCase (projected_keys d)))
     (map (\<lambda>kv. toLowerCase (fst kv)) (filter (\<lambda>kv. norm_text (snd kv) \<noteq> []) (entries (jprop d ''pccmMatrix''))))"

definition key_low :: "ustr \<Rightarrow> ustr \<Rightarrow> ustr" where
  "key_low c identity = toLowerCase (c @ [124] @ norm_low (JStr identity))"

definition dgIdentityFree :: "js \<Rightarrow> ustr \<Rightarrow> ustr list \<Rightarrow> ustr list \<Rightarrow> bool" where
  "dgIdentityFree d identity classes seen \<longleftrightarrow>
     (let i = norm_text (JStr identity)
      in i \<noteq> [] \<and> 124 \<notin> set i \<and> dgSubjectClashingWith d i = [] \<and> dgFetStemClash d i = []
         \<and> list_all (\<lambda>c. key_low c identity \<notin> set seen \<and> key_low c identity \<notin> set (main_keys d)) classes)"

text \<open>\<open>replace(/\s*-\s+|\s+-\s*/g, "-")\<close> after \<open>|\<close> has become \<open>/\<close>: a hyphen beside white space swallows it.\<close>

definition tight :: "ustr \<Rightarrow> ustr" where
  "tight s = foldr (\<lambda>c r. if is_space c \<and> r \<noteq> [] \<and> hd r = 45 then r
                   else if c = 45 then 45 # dropWhile is_space r else c # r) s []"

definition dgIdentityBase :: "ustr \<Rightarrow> ustr" where
  "dgIdentityBase label = trim (collapse_ws (tight (map (\<lambda>c. if c = 124 then 47 else c) (norm_text (JStr label)))))"

text \<open>The suffix: the word for "joint" in brackets, from the second time on with a number.\<close>

definition ghep :: ustr where
  "ghep = u ''(gh'' @ [233] @ u ''p''"

definition with_suffix :: "ustr \<Rightarrow> nat \<Rightarrow> ustr" where
  "with_suffix base k = base @ [32] @ ghep @ (if k = 1 then [] else 32 # nat_str k) @ [41]"

fun free_from :: "js \<Rightarrow> ustr list \<Rightarrow> ustr list \<Rightarrow> ustr \<Rightarrow> nat \<Rightarrow> nat \<Rightarrow> nat" where
  "free_from d classes seen base 0 k = k"
| "free_from d classes seen base (Suc f) k =
     (if dgIdentityFree d (with_suffix base k) classes seen then k else free_from d classes seen base f (Suc k))"

definition taken_bound :: "js \<Rightarrow> ustr list \<Rightarrow> ustr list \<Rightarrow> nat" where
  "taken_bound d classes seen =
     length (concat (map names_of_row (rows_of d ''monhoc''))) + length (rows_of d ''mon'')
     + length (concat (map stems_of_row (rows_of d ''monhoc'')))
     + length classes * (length seen + length (main_keys d)) + 1"

text \<open>\<open>current.replace(/ \(gh.p(?: \d+)?\)$/, "")\<close>.\<close>

definition drop_suffix :: "ustr \<Rightarrow> ustr" where
  "drop_suffix s =
     (if s \<noteq> [] \<and> last s = 41 then
        let r = rev (butlast s); ds = takeWhile is_digit r; q = dropWhile is_digit r;
            body = (if ds \<noteq> [] \<and> q \<noteq> [] \<and> hd q = 32 then tl q else r); mark = rev (32 # ghep)
        in if take (length mark) body = mark then rev (drop (length mark) body) else s
      else s)"

definition dayGhepResolveIdentity :: "js \<Rightarrow> js \<Rightarrow> ustr list \<Rightarrow> ustr" where
  "dayGhepResolveIdentity d e seen =
     (let classes = dayGhepClasses e; base = dgIdentityBase (dayGhepLabel d e); current = norm_text (jprop e ''ten'')
      in if current \<noteq> [] \<and> drop_suffix current = base \<and> dgIdentityFree d current classes seen then current
         else if dgIdentityFree d base classes seen then base
         else with_suffix base (free_from d classes seen base (taken_bound d classes seen) 1))"

subsection \<open>Rows from before the identities\<close>

definition dgLegacyIdentity :: "js \<Rightarrow> js \<Rightarrow> ustr" where
  "dgLegacyIdentity d e =
     (case dayGhepSubjects e of
        [s] \<Rightarrow> (case dayGhepMonObj d s of Some m \<Rightarrow> norm_text (JStr (first_text [mo_key m, mo_ten m])) | None \<Rightarrow> norm_text (JStr s))
      | _ \<Rightarrow> first_text [if jprop e ''hienthi'' = JStr (u ''viettat'') then norm_text (jprop e ''viettat'') else [], dgLegacyAutoName d e])"

definition dgLegacyCellNames :: "js \<Rightarrow> js \<Rightarrow> ustr list" where
  "dgLegacyCellNames d e =
     (case dayGhepSubjects e of
        [s] \<Rightarrow> dgUniqueTexts (JArr (map JStr (filter (\<lambda>s. s \<noteq> []) (s # (case dayGhepMonObj d s of
                 Some m \<Rightarrow> [mo_key m, mo_ten m, mo_ma m, mo_ma2 m] | None \<Rightarrow> [])))))
      | _ \<Rightarrow> filter (\<lambda>s. s \<noteq> []) [dgLegacyIdentity d e])"

definition dayGhepCellNames :: "js \<Rightarrow> js \<Rightarrow> ustr list" where
  "dayGhepCellNames d e = filter (\<lambda>s. s \<noteq> []) [dayGhepIdentity d e]"

end
