(* ===== verification/DgSync.thy ===== *)
theory DgSync
  imports DgData FeApply
begin

section \<open>Joint lessons: the other tables\<close>

text \<open>
  The part of \<open>modules/day-ghep.js\<close> that keeps the timetable and the assignment tables in step with the
  rows: cells are renamed or emptied, orphaned rows dropped, identities given, and the rows projected into
  the assignment. Each operation takes \<open>DATA\<close> and gives it back changed.
\<close>

subsection \<open>Objects\<close>

definition jdel :: "ustr \<Rightarrow> js \<Rightarrow> js" where
  "jdel k v = (case v of JObj kvs \<Rightarrow> JObj (filter (\<lambda>kv. fst kv \<noteq> k) kvs) | _ \<Rightarrow> v)"

definition has_key :: "ustr \<Rightarrow> js \<Rightarrow> bool" where
  "has_key k v \<longleftrightarrow> k \<in> fst ` set (entries v)"

definition map_members :: "(ustr \<Rightarrow> js \<Rightarrow> js) \<Rightarrow> js \<Rightarrow> js" where
  "map_members f v = (case v of JObj kvs \<Rightarrow> JObj (map (\<lambda>(k, x). (k, f k x)) kvs)
     | JArr xs \<Rightarrow> JArr (map (f []) xs) | _ \<Rightarrow> v)"

definition map_array :: "(js \<Rightarrow> js) \<Rightarrow> js \<Rightarrow> js" where
  "map_array f v = (case v of JArr xs \<Rightarrow> JArr (map f xs) | _ \<Rightarrow> v)"

definition change_key :: "string \<Rightarrow> (js \<Rightarrow> js) \<Rightarrow> js \<Rightarrow> js" where
  "change_key k f v = (case v of JObj kvs \<Rightarrow> JObj (map (\<lambda>(k', x). (k', if k' = u k then f x else x)) kvs) | _ \<Rightarrow> v)"

subsection \<open>Cells of the timetable\<close>

definition dayGhepClassIds :: "js \<Rightarrow> ustr \<Rightarrow> ustr list" where
  "dayGhepClassIds d lop =
     (let want = norm_low (JStr lop)
      in if want = [] then []
         else filter (\<lambda>i. i \<noteq> []) (map (\<lambda>l. js_string (jprop l ''id''))
           (filter (\<lambda>l. is_object l \<and> want \<in> set (norm_low (JStr (classCanonFromLop l)) #
               map (\<lambda>k. norm_low (jprop l k)) [''ten2'', ''ten'', ''id''])) (rows_of d ''lop''))))"

definition dayGhepCellMon :: "js \<Rightarrow> ustr" where
  "dayGhepCellMon cell = (case cell of JStr s \<Rightarrow> (if s = u ''OFF'' then [] else s)
     | JObj _ \<Rightarrow> (if js_truthy (jprop cell ''mon'') then js_string (jprop cell ''mon'') else []) | _ \<Rightarrow> [])"

text \<open>A function on cells at every cell of the two half days of a class's grid.\<close>

definition each_cell :: "(js \<Rightarrow> js) \<Rightarrow> js \<Rightarrow> js" where
  "each_cell f grid = map_members (\<lambda>_ day. change_key ''chieu'' (map_array f) (change_key ''sang'' (map_array f) day)) grid"

definition change_cells :: "js \<Rightarrow> ustr \<Rightarrow> (js \<Rightarrow> js) \<Rightarrow> js" where
  "change_cells d lop f = fold (\<lambda>i d. change_key ''tkb'' (map_members (\<lambda>k grid. if k = i then each_cell f grid else grid)) d)
     (dayGhepClassIds d lop) d"

definition dgNameSet :: "ustr list \<Rightarrow> ustr list" where
  "dgNameSet names = filter (\<lambda>s. s \<noteq> []) (map (\<lambda>n. norm_low (JStr n)) names)"

definition cell_low :: "js \<Rightarrow> ustr" where
  "cell_low cell = norm_low (JStr (dayGhepCellMon cell))"

definition class_part :: "ustr \<Rightarrow> ustr" where
  "class_part k = takeWhile (\<lambda>c. c \<noteq> 124) k"

definition subject_part :: "ustr \<Rightarrow> ustr" where
  "subject_part k = tl (dropWhile (\<lambda>c. c \<noteq> 124) k)"

definition rekey_entry_to :: "ustr \<Rightarrow> ustr list \<Rightarrow> ustr \<Rightarrow> ustr \<Rightarrow> js \<Rightarrow> js" where
  "rekey_entry_to cls from to k obj =
     (if 124 \<in> set k \<and> norm_low (JStr (class_part k)) = cls \<and> norm_low (JStr (subject_part k)) \<in> set from
      then let v = jget obj k; o1 = jdel k obj in if to = [] then o1 else jput (class_part k @ [124] @ to) v o1
      else obj)"

definition dayGhepRekeyLessonMaps :: "ustr \<Rightarrow> ustr list \<Rightarrow> ustr \<Rightarrow> js \<Rightarrow> js" where
  "dayGhepRekeyLessonMaps lop old new d =
     (let cls = norm_low (JStr lop); from = dgNameSet old; to = norm_text (JStr new);
          one = (\<lambda>obj. fold (rekey_entry_to cls from to) (map fst (entries obj)) obj)
      in if cls = [] \<or> from = [] then d else change_key ''tkbLessonRooms'' one (change_key ''tkbLessonTeachers'' one d))"

definition dayGhepRenameTkbCells :: "ustr \<Rightarrow> ustr list \<Rightarrow> ustr \<Rightarrow> js \<Rightarrow> js" where
  "dayGhepRenameTkbCells lop old new d =
     (let to = norm_text (JStr new); from = filter (\<lambda>s. s \<noteq> toLowerCase to) (dgNameSet old)
      in if to = [] \<or> from = [] then d
         else dayGhepRekeyLessonMaps lop from new
           (change_cells d lop (\<lambda>cell. if cell_low cell \<in> set from
              then (case cell of JStr _ \<Rightarrow> JStr to | _ \<Rightarrow> jput (u ''mon'') (JStr to) cell) else cell)))"

definition dayGhepRemoveTkbCells :: "ustr \<Rightarrow> ustr list \<Rightarrow> js \<Rightarrow> js" where
  "dayGhepRemoveTkbCells lop names d =
     (let from = dgNameSet names
      in if from = [] then d
         else dayGhepRekeyLessonMaps lop from []
           (change_cells d lop (\<lambda>cell. if cell_low cell \<in> set from then JStr [] else cell)))"

subsection \<open>Keeping the rows sound\<close>

text \<open>
  What \<open>syncDerivedDataIntegrity\<close> hands over: the canonical name of each class alias, and the aliases of
  the subjects, all in lower case; \<open>None\<close> where it hands over nothing.
\<close>

record ghep_ctx =
  cx_core :: bool
  cx_classes :: "(ustr \<times> ustr) list option"
  cx_mons :: "ustr list option"

text \<open>The rows seen so far (kept or not), the kept ones, the keys these own, and \<open>DATA\<close>.\<close>

record ghep_sync =
  gs_data :: js
  gs_seen :: "ustr list"
  gs_past :: "js list"
  gs_kept :: "js list"
  gs_changed :: bool

definition set_texts :: "string \<Rightarrow> ustr list \<Rightarrow> js \<Rightarrow> js \<times> bool" where
  "set_texts k xs e =
     (case jprop e k of
        JArr ys \<Rightarrow> (if join_with [124] (map js_string ys) = join_with [124] xs then (e, False)
                   else (jput (u k) (JArr (map JStr xs)) e, True))
      | _ \<Rightarrow> (jput (u k) (JArr (map JStr xs)) e, True))"

definition canon_classes :: "ghep_ctx \<Rightarrow> ustr list \<Rightarrow> ustr list" where
  "canon_classes cx lops = fold (\<lambda>l out. case (case cx_classes cx of None \<Rightarrow> Some l | Some m \<Rightarrow> map_of m (toLowerCase l)) of
       None \<Rightarrow> out | Some c \<Rightarrow> add_unless c out) lops []"

definition set_limit :: "js \<Rightarrow> js \<times> bool" where
  "set_limit e = (if (case count_text (jprop e ''gioihan'') of Some q \<Rightarrow> q > 0 | None \<Rightarrow> False) then (e, False)
     else (jput (u ''gioihan'') (JStr (u ''1'')) e, True))"

definition drop_fixed :: "js \<Rightarrow> js \<times> bool" where
  "drop_fixed e = (if has_key (u ''codinh'') e then (jdel (u ''codinh'') e, True) else (e, False))"

definition set_label :: "js \<Rightarrow> js \<Rightarrow> js \<times> bool" where
  "set_label d e =
     (if has_key (u ''hienthi'') e
      then (jdel (u ''hienthi'') (jput (u ''viettat'') (JStr (first_text [norm_text (jprop e ''viettat''), dayGhepAutoName d e])) e), True)
      else if norm_text (jprop e ''viettat'') = [] then (jput (u ''viettat'') (JStr (dayGhepAutoName d e)) e, True)
      else (e, False))"

definition set_identity :: "js \<Rightarrow> ustr list \<Rightarrow> js \<Rightarrow> js \<times> bool" where
  "set_identity d seen e = (let i = dayGhepResolveIdentity d e seen
     in if jprop e ''ten'' = JStr i then (e, False) else (jput (u ''ten'') (JStr i) e, True))"

definition set_id :: "js list \<Rightarrow> js \<Rightarrow> js \<times> bool" where
  "set_id es e = (if norm_text (jprop e ''id'') = [] then (jput (u ''id'') (JStr (dayGhepNewId es)) e, True) else (e, False))"

definition drop_row :: "js \<Rightarrow> ghep_sync \<Rightarrow> ghep_sync" where
  "drop_row raw gs = gs\<lparr>gs_past := gs_past gs @ [raw], gs_changed := True\<rparr>"

definition cells_removed :: "ustr list \<Rightarrow> ustr list \<Rightarrow> ghep_sync \<Rightarrow> ghep_sync" where
  "cells_removed classes names gs = gs\<lparr>gs_data := fold (\<lambda>c. dayGhepRemoveTkbCells c names) classes (gs_data gs)\<rparr>"

text \<open>A row with its classes, subjects, teachers and numbers in order; \<open>f\<close> tells whether it has changed.\<close>

definition finish_row :: "js \<Rightarrow> js list \<Rightarrow> ustr list \<Rightarrow> ustr list \<Rightarrow> ustr \<Rightarrow> js \<times> bool \<Rightarrow> ghep_sync \<Rightarrow> ghep_sync" where
  "finish_row raw rest classes oldNames oldIdentity ef gs =
     (let d = gs_data gs;
          (e1, f1) = set_limit (fst ef); (e2, f2) = drop_fixed e1; (e3, f3) = set_label d e2; (e4, f4) = set_identity d (gs_seen gs) e3;
          keys = map toLowerCase (dayGhepKeys d e4); new = dayGhepResolveIdentity d e3 (gs_seen gs)
      in if keys = [] then drop_row raw gs
         else let d1 = (if new \<noteq> oldIdentity then fold (\<lambda>c. dayGhepRenameTkbCells c oldNames new) classes d else d);
                  (e5, f5) = set_id (gs_past gs @ e4 # rest) e4
              in \<lparr>gs_data = d1, gs_seen = gs_seen gs @ keys, gs_past = gs_past gs @ [e5], gs_kept = gs_kept gs @ [e5],
                  gs_changed = (gs_changed gs \<or> snd ef \<or> f1 \<or> f2 \<or> f3 \<or> f4 \<or> f5)\<rparr>)"

definition sync_row :: "ghep_ctx \<Rightarrow> js \<Rightarrow> js list \<Rightarrow> ghep_sync \<Rightarrow> ghep_sync" where
  "sync_row cx raw rest gs =
     (if \<not> is_object raw then drop_row raw gs
      else let d = gs_data gs; legacy = has_key (u ''hienthi'') raw;
               oldNames = (if legacy then dgLegacyCellNames d raw else dayGhepCellNames d raw);
               oldIdentity = (if legacy then dgLegacyIdentity d raw else dayGhepIdentity d raw);
               classes = canon_classes cx (dayGhepClasses raw)
           in if classes = [] then drop_row raw gs
              else let (e1, f1) = set_texts ''lop'' classes raw; before = dayGhepSubjects e1;
                       mons = (case cx_mons cx of None \<Rightarrow> before | Some m \<Rightarrow> filter (\<lambda>k. toLowerCase k \<in> set m) before)
                   in if mons = [] then cells_removed classes oldNames (drop_row raw gs)
                      else let (e2, f2) = set_texts ''mon'' mons e1;
                               (e3, f3) = set_texts ''gv'' (pccmTeacherListFromValue d (jprop e2 ''gv'')) e2
                           in if \<not> dayGhepPeriods e3 > 0 then cells_removed classes oldNames (drop_row raw gs)
                              else finish_row raw rest classes oldNames oldIdentity (e3, f1 \<or> f2 \<or> f3) gs)"

fun sync_rows :: "ghep_ctx \<Rightarrow> js list \<Rightarrow> ghep_sync \<Rightarrow> ghep_sync" where
  "sync_rows cx [] gs = gs"
| "sync_rows cx (e # es) gs = sync_rows cx es (sync_row cx e es gs)"

definition ensure_rows :: "js \<Rightarrow> js" where
  "ensure_rows d = (if is_array (jprop d ''dayGhep'') then d else jput (u ''dayGhep'') (JArr []) d)"

definition syncDayGhepIntegrity :: "ghep_ctx \<Rightarrow> js \<Rightarrow> bool \<times> js" where
  "syncDayGhepIntegrity cx d =
     (let rows = dayGhepList d
      in if rows = [] then (False, ensure_rows d)
         else if \<not> cx_core cx then (True, jput (u ''dayGhep'') (JArr []) d)
         else let gs = sync_rows cx rows \<lparr>gs_data = d, gs_seen = [], gs_past = [], gs_kept = [], gs_changed = False\<rparr>
              in (gs_changed gs \<or> length (gs_kept gs) \<noteq> length rows, jput (u ''dayGhep'') (JArr (gs_kept gs)) (gs_data gs)))"

subsection \<open>The projection into the assignment\<close>

text \<open>\<open>String(n)\<close> of a number that a decimal numeral of at most 17 places spells.\<close>

fun fraction_digits :: "nat \<Rightarrow> rat \<Rightarrow> ustr" where
  "fraction_digits 0 f = []"
| "fraction_digits (Suc n) f = (if f = 0 then [] else (let c = \<lfloor>10 * f\<rfloor> in (48 + nat c) # fraction_digits n (10 * f - of_int c)))"

definition number_str :: "rat \<Rightarrow> ustr" where
  "number_str q = (let i = \<lfloor>q\<rfloor>; f = q - of_int i in int_str i @ (if f = 0 then [] else 46 # fraction_digits 17 f))"

record projection =
  pj_gv :: ustr
  pj_sotiet :: ustr
  pj_gioihan :: ustr

definition projection_of :: "js \<Rightarrow> js \<Rightarrow> projection" where
  "projection_of d e = \<lparr>pj_gv = pccmNormalizeTeacherValue d (js_or (jprop e ''gv'') (JArr [])), pj_sotiet = number_str (dayGhepPeriods e),
     pj_gioihan = (case count_text (jprop e ''gioihan'') of Some q \<Rightarrow> (if q > 0 then number_str q else u ''1'') | None \<Rightarrow> u ''1'')\<rparr>"

definition add_new :: "projection \<Rightarrow> ustr \<Rightarrow> (ustr \<times> projection) list \<Rightarrow> (ustr \<times> projection) list" where
  "add_new p k m = (if map_of m k = None then m @ [(k, p)] else m)"

definition projections :: "js \<Rightarrow> (ustr \<times> projection) list" where
  "projections d = fold (\<lambda>e m. if dayGhepPeriods e = 0 then m else fold (add_new (projection_of d e)) (dayGhepKeys d e) m) (dayGhepList d) []"

definition matrices :: "string list" where
  "matrices = [''pccmMatrix'', ''pccmTietMatrix'', ''pccmGioihanMatrix'']"

definition lesson_tables :: "string list" where
  "lesson_tables = matrices @ [''pccmRoomMatrix'', ''tkbLessonTeachers'', ''tkbLessonRooms'']"

definition make_matrices :: "js \<Rightarrow> js" where
  "make_matrices d = fold (\<lambda>f d. if is_object (jprop d f) \<and> \<not> is_array (jprop d f) then d else jput (u f) (JObj []) d) matrices d"

text \<open>Each step on \<open>DATA\<close> and the flag that tells whether it has changed.\<close>

type_synonym tracked = "bool \<times> js"

definition del_in :: "ustr \<Rightarrow> string \<Rightarrow> tracked \<Rightarrow> tracked" where
  "del_in k f fd = (if has_key k (jprop (snd fd) f) then (True, change_key f (jdel k) (snd fd)) else fd)"

definition put_in :: "ustr \<Rightarrow> string \<Rightarrow> ustr \<Rightarrow> tracked \<Rightarrow> tracked" where
  "put_in k f s fd = (True, change_key f (jput k (JStr s)) (snd fd))"

definition shown_value :: "js \<Rightarrow> string \<Rightarrow> ustr \<Rightarrow> ustr" where
  "shown_value d f k = js_string (js_nullor (jget (jprop d f) k) (JStr []))"

definition project_teacher :: "ustr \<Rightarrow> ustr \<Rightarrow> tracked \<Rightarrow> tracked" where
  "project_teacher k gv fd =
     (if gv \<noteq> [] then (if jget (jprop (snd fd) ''pccmMatrix'') k = JStr gv then fd else put_in k ''pccmMatrix'' gv fd)
      else let fd0 = del_in k ''pccmMatrix'' fd
           in if norm_text (jget (jprop (snd fd0) ''tkbLessonTeachers'') k) \<noteq> []
              then (True, change_key ''tkbLessonTeachers'' (jdel k) (snd fd0)) else fd0)"

definition project_shown :: "ustr \<Rightarrow> string \<Rightarrow> ustr \<Rightarrow> tracked \<Rightarrow> tracked" where
  "project_shown k f s fd = (if shown_value (snd fd) f k = s then fd else put_in k f s fd)"

definition project_one :: "ustr \<times> projection \<Rightarrow> tracked \<Rightarrow> tracked" where
  "project_one kv fd =
     (let k = fst kv; p = snd kv
      in project_shown k ''pccmGioihanMatrix'' (pj_gioihan p) (project_shown k ''pccmTietMatrix'' (pj_sotiet p)
           (project_teacher k (pj_gv p) fd)))"

definition syncDayGhepProjection :: "js \<Rightarrow> tracked" where
  "syncDayGhepProjection d0 =
     (if \<not> is_object d0 then (False, d0)
      else let d = ensure_rows (make_matrices d0); new = projections d; prev = projected_keys d;
               gone = filter (\<lambda>k. map_of new k = None) prev;
               fd1 = fold (\<lambda>k. fold (del_in k) lesson_tables) gone (False, d);
               fd2 = fold project_one new fd1; keys = sort (map fst new)
           in if keys = sort prev then fd2
              else (True, jput (u ''dayGhepProjected'') (JArr (map JStr keys)) (snd fd2)))"

definition dayGhepNameProblem :: "js \<Rightarrow> js \<Rightarrow> string option" where
  "dayGhepNameProblem d e = (if dayGhepClasses e = [] then Some ''class'' else if dayGhepSubjects e = [] then Some ''subject''
     else if dayGhepLabel d e = [] then Some ''label'' else None)"

end
