(* ===== verification/DgOk.thy ===== *)
theory DgOk
  imports DgSync
begin

section \<open>Joint lessons: identities are free\<close>

text \<open>
  The candidates of the search are pairwise different in every form in which the code compares them, so
  no more of them can be taken than there are texts to clash with.
\<close>

subsection \<open>Normalization keeps the end of a text\<close>

lemma plain_nfd: "c < 192 \<Longrightarrow> nfd_cu c = [c]"
  by (simp add: nfd_cu_def)

lemma plain_not_mark: "c < 192 \<Longrightarrow> \<not> is_mark c"
  by (simp add: is_mark_def)

lemma insert_mark_stop: "\<not> is_mark c \<Longrightarrow> insert_mark m (r @ c # s) = insert_mark m r @ c # s"
  by (induction m r rule: insert_mark.induct) auto

lemma nfd_split:
  assumes "c < 192"
  shows "nfd (xs @ c # ys) = nfd xs @ nfd (c # ys)"
proof -
  have nfd_c: "nfd (c # ys) = c # nfd ys" using assms by (simp add: nfd_def plain_nfd plain_not_mark)
  have "foldr (\<lambda>c r. if is_mark c then insert_mark c r else c # r) zs (c # nfd ys)
      = foldr (\<lambda>c r. if is_mark c then insert_mark c r else c # r) zs [] @ c # nfd ys" for zs
    by (induction zs) (auto simp: insert_mark_stop plain_not_mark assms)
  then show ?thesis using nfd_c by (simp add: nfd_def plain_nfd assms foldr_append plain_not_mark)
qed

lemma compose_split: "\<not> is_mark c \<Longrightarrow> compose st pend (xs @ c # ys) = compose st pend xs @ compose (Some c) [] ys"
  by (induction st pend xs rule: compose.induct) (auto split: option.split)

lemma nfc_split:
  assumes "c < 192"
  shows "nfc (xs @ c # ys) = nfc xs @ nfc (c # ys)"
proof -
  have "nfd (c # ys) = c # nfd ys" using assms by (simp add: nfd_def plain_nfd plain_not_mark)
  then show ?thesis
    using compose_split [of c None "[]" "nfd xs" "nfd ys"] assms by (simp add: nfc_def nfd_split plain_not_mark)
qed

lemma nfc_plain: "list_all (\<lambda>c. c < 192) s \<Longrightarrow> nfc s = s"
proof (induction s rule: rev_induct)
  case (snoc c s)
  have "nfc [c] = [c]" using snoc.prems by (simp add: nfc_def nfd_def plain_nfd plain_not_mark)
  then show ?case using snoc nfc_split [of c s "[]"] by simp
qed (simp add: nfc_def nfd_def)

lemma collapse_split: "\<not> is_space c \<Longrightarrow> collapse_ws (xs @ c # ys) = collapse_ws xs @ collapse_ws (c # ys)"
  by (induction xs rule: collapse_ws.induct) auto

lemma collapse_plain: "list_all (\<lambda>c. \<not> is_space c) s \<Longrightarrow> collapse_ws s = s"
  by (induction s rule: collapse_ws.induct) auto

lemma trim_end:
  assumes "\<not> is_space a" "\<not> is_space b"
  shows "\<exists>q. trim (p @ a # s @ [b]) = q @ a # s @ [b]"
proof -
  have "\<exists>q. dropWhile is_space (p @ a # s @ [b]) = q @ a # s @ [b]"
    using assms(1) by (induction p) auto
  then obtain q where q: "dropWhile is_space (p @ a # s @ [b]) = q @ a # s @ [b]" ..
  show ?thesis unfolding trim_def q using assms(2) by simp
qed

text \<open>The end of a candidate, from the opening bracket.\<close>

definition mark_end :: "nat \<Rightarrow> ustr" where
  "mark_end k = ghep @ (if k = 1 then [] else 32 # nat_str k) @ [41]"

definition ends_as :: "nat \<Rightarrow> ustr \<Rightarrow> bool" where
  "ends_as k s \<longleftrightarrow> (\<exists>p. s = p @ mark_end k)"

lemma ghep_units: "ghep = [40, 103, 104, 233, 112]"
  by code_simp

lemma mark_end_Cons: "mark_end k = 40 # [103, 104, 233, 112] @ (if k = 1 then [] else 32 # nat_str k) @ [41]"
  by (simp add: mark_end_def ghep_units)

lemma nat_str_unit: "c \<in> set (nat_str n) \<Longrightarrow> 48 \<le> c \<and> c \<le> 57"
  using nat_str_digits [of c n] by (simp add: is_digit_def)

lemma ends_as_mark: "ends_as k (with_suffix base k)"
  by (auto simp: ends_as_def with_suffix_def mark_end_def intro: exI [of _ "base @ [32]"])

lemma ends_as_nfc:
  assumes "ends_as k s"
  shows "ends_as k (nfc s)"
proof -
  define t where "t = 112 # (if k = 1 then [] else 32 # nat_str k) @ [41]"
  obtain p where "s = p @ mark_end k" using assms by (auto simp: ends_as_def)
  then have s: "s = p @ 40 # [103, 104, 233] @ t" by (simp add: mark_end_Cons t_def)
  have "list_all (\<lambda>c. c < 192) t" using nat_str_unit [of _ k] by (fastforce simp: t_def list_all_iff)
  then have "nfc t = t" by (rule nfc_plain)
  moreover have "nfc [40, 103, 104, 233] = [40, 103, 104, 233]" by code_simp
  ultimately have "nfc (40 # [103, 104, 233] @ t) = 40 # [103, 104, 233] @ t"
    using nfc_split [of 112 "[40, 103, 104, 233]" "tl t"] by (simp add: t_def)
  then have "nfc s = nfc p @ mark_end k"
    using nfc_split [of 40 p "[103, 104, 233] @ t"] s by (simp add: mark_end_Cons t_def)
  then show ?thesis by (auto simp: ends_as_def)
qed

lemma ends_as_collapse:
  assumes "ends_as k s"
  shows "ends_as k (collapse_ws s)"
proof -
  obtain p where s: "s = p @ mark_end k" using assms by (auto simp: ends_as_def)
  have d: "list_all (\<lambda>c. \<not> is_space c) (nat_str k)"
    using nat_str_unit [of _ k] by (fastforce simp: list_all_iff is_space_def)
  obtain c t where n: "nat_str k = c # t" by (cases "nat_str k") auto
  have "collapse_ws (mark_end k) = mark_end k"
  proof (cases "k = 1")
    case True
    then show ?thesis by (simp add: mark_end_Cons) (simp add: is_space_def)
  next
    case False
    have "collapse_ws (nat_str k @ [41]) = nat_str k @ [41]"
      by (rule collapse_plain) (use d in \<open>simp add: is_space_def\<close>)
    then have "collapse_ws ([40, 103, 104, 233, 112, 32] @ c # t @ [41]) = [40, 103, 104, 233, 112, 32] @ c # t @ [41]"
      using collapse_split [of c "[40, 103, 104, 233, 112, 32]" "t @ [41]"] d n by (simp add: is_space_def)
    then show ?thesis using False n by (simp add: mark_end_Cons)
  qed
  then have "collapse_ws s = collapse_ws p @ mark_end k"
    using collapse_split [of 40 p "[103, 104, 233, 112] @ (if k = 1 then [] else 32 # nat_str k) @ [41]"] s
    by (simp add: mark_end_Cons is_space_def)
  then show ?thesis by (auto simp: ends_as_def)
qed

lemma ends_as_trim:
  assumes "ends_as k s"
  shows "ends_as k (trim s)"
proof -
  obtain p where s: "s = p @ mark_end k" using assms by (auto simp: ends_as_def)
  show ?thesis
    using trim_end [of 40 41 p "[103, 104, 233, 112] @ (if k = 1 then [] else 32 # nat_str k)"]
    by (auto simp: s ends_as_def mark_end_Cons is_space_def)
qed

lemma ends_as_norm: "ends_as k s \<Longrightarrow> ends_as k (norm_text (JStr s))"
  by (simp add: norm_text_def js_nullor_def ends_as_nfc ends_as_collapse ends_as_trim)

lemma lower_append: "toLowerCase (s @ t) = toLowerCase s @ toLowerCase t"
  by (simp add: toLowerCase_def)

lemma lower_digits: "toLowerCase (nat_str k) = nat_str k"
proof -
  have "lower_cu c = [c]" if "c \<in> set (nat_str k)" for c
    using nat_str_unit [OF that] unfolding lower_cu_def by simp
  then show ?thesis unfolding toLowerCase_def by (rule concat_singletons)
qed

lemma lower_mark: "toLowerCase (mark_end k) = mark_end k"
proof -
  have "toLowerCase [40, 103, 104, 233, 112] = [40, 103, 104, 233, 112]" "toLowerCase [32] = [32]" "toLowerCase [41] = [41]"
    "toLowerCase [40, 103, 104, 233, 112, 32] = [40, 103, 104, 233, 112, 32]"
    "toLowerCase [40, 103, 104, 233, 112, 41] = [40, 103, 104, 233, 112, 41]" by code_simp+
  then show ?thesis
    using lower_append [of "[40, 103, 104, 233, 112, 32] @ nat_str k" "[41]"] lower_append [of "[40, 103, 104, 233, 112, 32]" "nat_str k"]
    by (simp add: mark_end_Cons lower_digits)
qed

lemma ends_as_lower: "ends_as k s \<Longrightarrow> ends_as k (toLowerCase s)"
  by (auto simp: ends_as_def lower_append lower_mark)

lemma ends_as_append: "ends_as k s \<Longrightarrow> ends_as k (p @ s)"
  by (auto simp: ends_as_def intro: exI [of _ "p @ _"])

text \<open>The end tells the number.\<close>

definition count_of :: "ustr \<Rightarrow> ustr" where
  "count_of s = rev (takeWhile is_digit (tl (rev s)))"

lemma ends_as_count: "ends_as k s \<Longrightarrow> count_of s = (if k = 1 then [] else nat_str k)"
proof -
  assume "ends_as k s"
  then obtain p where s: "s = p @ mark_end k" by (auto simp: ends_as_def)
  have d: "\<And>c. c \<in> set (rev (nat_str k)) \<Longrightarrow> is_digit c" using nat_str_digits by simp
  have "takeWhile is_digit (rev (nat_str k) @ 32 # r) = rev (nat_str k)" for r
    using d by (subst takeWhile_append2) (auto simp: is_digit_def)
  then show ?thesis by (auto simp: s count_of_def mark_end_Cons is_digit_def)
qed

lemma ends_as_inj:
  assumes "ends_as k s" "ends_as j s" "1 \<le> k" "1 \<le> j"
  shows "k = j"
  using ends_as_count [OF assms(1)] ends_as_count [OF assms(2)] assms(3,4) nat_str_ne
  by (metis nat_str_inject)

subsection \<open>No bar appears\<close>

lemma insert_mark_set: "set (insert_mark m r) = insert m (set r)"
  by (induction m r rule: insert_mark.induct) auto

lemma table_high: "list_all (\<lambda>(c, d). 192 \<le> c \<and> 124 \<notin> set d) nfd_table"
  by code_simp

lemma nfd_cu_bar: "124 \<in> set (nfd_cu c) \<Longrightarrow> c = 124"
  using table_high by (auto simp: nfd_cu_def list_all_iff split: if_splits option.splits dest!: map_of_SomeD)

lemma nfd_bar:
  assumes "124 \<in> set (nfd s)"
  shows "124 \<in> set s"
proof -
  have "set (foldr (\<lambda>c r. if is_mark c then insert_mark c r else c # r) zs []) = set zs" for zs
    by (induction zs) (auto simp: insert_mark_set)
  then have "124 \<in> (\<Union>c \<in> set s. set (nfd_cu c))" using assms by (simp add: nfd_def)
  then show ?thesis using nfd_cu_bar by auto
qed

lemma compose_pair_high: "compose_pair a b = Some x \<Longrightarrow> 192 \<le> x"
  using table_high by (fastforce simp: compose_pair_def list_all_iff dest!: map_of_SomeD)

lemma compose_set: "x \<in> set (compose st pend cs) \<Longrightarrow> x \<in> set_option st \<union> set pend \<union> set cs \<or> 192 \<le> x"
  by (induction st pend cs rule: compose.induct) (auto split: if_splits option.splits dest: compose_pair_high)

lemma nfc_bar: "124 \<in> set (nfc s) \<Longrightarrow> 124 \<in> set s"
  using compose_set [of 124 None "[]" "nfd s"] nfd_bar by (auto simp: nfc_def)

lemma collapse_set: "set (collapse_ws s) \<subseteq> insert 32 (set s)"
  by (induction s rule: collapse_ws.induct) auto

lemma trim_set: "set (trim s) \<subseteq> set s"
  by (auto simp: trim_def dest!: set_dropWhileD)

lemma norm_bar: "124 \<in> set (norm_text (JStr s)) \<Longrightarrow> 124 \<in> set s"
  using nfc_bar [of s] collapse_set [of "nfc s"] trim_set [of "collapse_ws (nfc s)"]
  by (auto simp: norm_text_def js_nullor_def)

lemma tight_set: "set (tight s) \<subseteq> set s"
proof (induction s)
  case (Cons c s)
  have "set (dropWhile is_space (tight s)) \<subseteq> set (tight s)" by (auto dest: set_dropWhileD)
  moreover have "set (tight (c # s)) \<subseteq> insert c (set (tight s)) \<union> set (dropWhile is_space (tight s)) \<union> (if c = 45 then {45} else {})"
    by (simp add: tight_def) auto
  ultimately show ?case using Cons.IH by (auto split: if_splits)
qed (simp add: tight_def)

lemma base_bar: "124 \<notin> set (dgIdentityBase label)"
proof -
  let ?s = "map (\<lambda>c. if c = 124 then 47 else c) (norm_text (JStr label))"
  have "124 \<notin> set ?s" by auto
  then have "124 \<notin> set (tight ?s)" using tight_set [of ?s] by (rule contra_subsetD [rotated])
  then have "124 \<notin> set (collapse_ws (tight ?s))" using collapse_set [of "tight ?s"] by fastforce
  then have "124 \<notin> set (trim (collapse_ws (tight ?s)))" using trim_set [of "collapse_ws (tight ?s)"] by (rule contra_subsetD [rotated])
  then show ?thesis unfolding dgIdentityBase_def .
qed

lemma candidate_bar: "124 \<notin> set base \<Longrightarrow> 124 \<notin> set (with_suffix base k)"
  using nat_str_unit [of 124 k] by (auto simp: with_suffix_def ghep_units)

subsection \<open>Short forms\<close>

definition stem_end :: "nat \<Rightarrow> ustr" where
  "stem_end k = [40, 103, 104, 101, 112] @ (if k = 1 then [] else 32 # nat_str k) @ [41]"

lemma nfd_strip_append: "nfd_strip (s @ t) = nfd_strip s @ nfd_strip t"
  by (simp add: nfd_strip_def)

lemma nfd_strip_plain: "list_all (\<lambda>c. c < 192) s \<Longrightarrow> nfd_strip s = s"
proof -
  assume "list_all (\<lambda>c. c < 192) s"
  then have c: "c < 192" if "c \<in> set s" for c using that by (simp add: list_all_iff)
  have "concat (map nfd_cu s) = s" by (rule concat_singletons) (simp add: c plain_nfd)
  then show ?thesis by (simp add: nfd_strip_def c plain_not_mark)
qed

lemma strip_mark: "nfd_strip (mark_end k) = stem_end k"
proof -
  let ?t = "(if k = 1 then [] else 32 # nat_str k) @ [41]"
  have "list_all (\<lambda>c. c < 192) ?t" using nat_str_unit [of _ k] by (fastforce simp: list_all_iff)
  moreover have "nfd_strip [40, 103, 104, 233, 112] = [40, 103, 104, 101, 112]" by code_simp
  ultimately show ?thesis
    using nfd_strip_append [of "[40, 103, 104, 233, 112]" ?t] nfd_strip_plain [of ?t] by (simp add: mark_end_Cons stem_end_def)
qed

lemma stem_ends:
  assumes "ends_as k s"
  shows "\<exists>p. dgFetStem (JStr s) = p @ stem_end k"
proof -
  have "ends_as k (norm_low (JStr s))" using assms by (simp add: norm_low_def ends_as_norm ends_as_lower)
  then obtain p where p: "norm_low (JStr s) = p @ mark_end k" by (auto simp: ends_as_def)
  define t where "t = map (\<lambda>c. if c = 273 then 100 else c) (nfd_strip (norm_low (JStr s)))"
  have "map (\<lambda>c. if c = 273 then 100 else c) (stem_end k) = stem_end k"
    by (rule map_idI) (use nat_str_unit [of 273 k] in \<open>auto simp: stem_end_def split: if_splits\<close>)
  then obtain q where t: "t = q @ stem_end k" by (simp add: t_def p nfd_strip_append strip_mark)
  have "strip_num_suffix t = t" by (simp add: strip_num_suffix_def Let_def t stem_end_def is_digit_def)
  then have "dgFetStem (JStr s) = trim t" by (simp add: dgFetStem_def t_def)
  then show ?thesis
    using trim_end [of 40 41 q "[103, 104, 101, 112] @ (if k = 1 then [] else 32 # nat_str k)"]
    by (simp add: t stem_end_def is_space_def)
qed

lemma stem_count: "s = p @ stem_end k \<Longrightarrow> count_of s = (if k = 1 then [] else nat_str k)"
proof -
  assume s: "s = p @ stem_end k"
  have d: "\<And>c. c \<in> set (rev (nat_str k)) \<Longrightarrow> is_digit c" using nat_str_digits by simp
  have "takeWhile is_digit (rev (nat_str k) @ 32 # r) = rev (nat_str k)" for r
    using d by (subst takeWhile_append2) (auto simp: is_digit_def)
  then show ?thesis by (auto simp: s count_of_def stem_end_def is_digit_def)
qed

subsection \<open>Counting the taken candidates\<close>

definition forms_inj :: "(nat \<Rightarrow> ustr) \<Rightarrow> bool" where
  "forms_inj f \<longleftrightarrow> inj_on f {1..}"

lemma forms_injI: "(\<And>k. count_of (f k) = (if k = 1 then [] else nat_str k)) \<Longrightarrow> forms_inj f"
  unfolding forms_inj_def inj_on_def by (metis nat_str_inject nat_str_ne)

lemma taken_card:
  assumes "forms_inj f"
  shows "card {k \<in> {1..n}. f k \<in> set xs} \<le> length xs"
proof -
  have "inj_on f {k \<in> {1..n}. f k \<in> set xs}" using assms by (auto simp: forms_inj_def intro: inj_on_subset)
  then have "card {k \<in> {1..n}. f k \<in> set xs} = card (f ` {k \<in> {1..n}. f k \<in> set xs})" by (simp add: card_image)
  also have "\<dots> \<le> card (set xs)" by (rule card_mono) auto
  finally show ?thesis using card_length [of xs] by simp
qed

lemma forms:
  "forms_inj (\<lambda>k. norm_low (JStr (norm_text (JStr (with_suffix base k)))))"
  "forms_inj (\<lambda>k. dgFetStem (JStr (norm_text (JStr (with_suffix base k)))))"
  "forms_inj (\<lambda>k. key_low c (with_suffix base k))"
proof -
  have n: "ends_as k (norm_text (JStr (with_suffix base k)))" for k by (simp add: ends_as_mark ends_as_norm)
  have l: "ends_as k (norm_low (JStr (norm_text (JStr (with_suffix base k)))))" for k
    by (simp add: norm_low_def n ends_as_norm ends_as_lower)
  show "forms_inj (\<lambda>k. norm_low (JStr (norm_text (JStr (with_suffix base k)))))"
    by (rule forms_injI) (rule ends_as_count [OF l])
  show "forms_inj (\<lambda>k. dgFetStem (JStr (norm_text (JStr (with_suffix base k)))))"
    by (rule forms_injI) (use stem_ends [OF n] stem_count in blast)
  have "ends_as k (key_low c (with_suffix base k))" for k
    using ends_as_append [of k "norm_low (JStr (with_suffix base k))" "c @ [124]"] n
    by (simp add: key_low_def ends_as_lower norm_low_def)
  then show "forms_inj (\<lambda>k. key_low c (with_suffix base k))"
    by (intro forms_injI) (rule ends_as_count)
qed

text \<open>What can make a candidate that is a text without a bar unfree.\<close>

definition name_texts :: "js \<Rightarrow> ustr list" where
  "name_texts d = concat (map names_of_row (rows_of d ''monhoc'')) @ map (\<lambda>m. norm_low (jprop m ''ten'')) (rows_of d ''mon'')"

definition stem_texts :: "js \<Rightarrow> ustr list" where
  "stem_texts d = concat (map stems_of_row (rows_of d ''monhoc''))"

lemma find_set: "find P xs = Some x \<Longrightarrow> x \<in> set xs \<and> P x"
  by (auto simp: find_Some_iff)

lemma subject_clash_in:
  assumes "dgSubjectClashingWith d i \<noteq> []"
  shows "norm_low (JStr i) \<in> set (name_texts d)"
proof -
  let ?low = "norm_low (JStr i)"
  have "(\<exists>m. find (\<lambda>m. ?low \<in> set (names_of_row m)) (rows_of d ''monhoc'') = Some m)
      \<or> (\<exists>m. find (\<lambda>m. js_truthy m \<and> norm_low (jprop m ''ten'') = ?low) (rows_of d ''mon'') = Some m)"
    using assms unfolding dgSubjectClashingWith_def Let_def by (simp split: if_splits option.splits)
  then show ?thesis
  proof (elim disjE exE)
    fix m assume "find (\<lambda>m. ?low \<in> set (names_of_row m)) (rows_of d ''monhoc'') = Some m"
    from find_set [OF this] have "m \<in> set (rows_of d ''monhoc'')" "?low \<in> set (names_of_row m)" by blast+
    then have "?low \<in> set (concat (map names_of_row (rows_of d ''monhoc'')))" unfolding set_concat set_map by blast
    then show ?thesis unfolding name_texts_def set_append by blast
  next
    fix m assume "find (\<lambda>m. js_truthy m \<and> norm_low (jprop m ''ten'') = ?low) (rows_of d ''mon'') = Some m"
    from find_set [OF this] have "m \<in> set (rows_of d ''mon'')" "?low = norm_low (jprop m ''ten'')" by metis+
    then have "?low \<in> set (map (\<lambda>m. norm_low (jprop m ''ten'')) (rows_of d ''mon''))" unfolding set_map by blast
    then show ?thesis unfolding name_texts_def set_append by blast
  qed
qed

lemma stem_clash_in: "dgFetStemClash d i \<noteq> [] \<Longrightarrow> dgFetStem (JStr i) \<in> set (stem_texts d)"
  by (auto simp: dgFetStemClash_def stem_texts_def Let_def dest!: find_set split: if_splits option.splits)

lemma candidate_taken:
  assumes "124 \<notin> set base" "\<not> dgIdentityFree d (with_suffix base k) classes seen"
  shows "norm_low (JStr (norm_text (JStr (with_suffix base k)))) \<in> set (name_texts d)
    \<or> dgFetStem (JStr (norm_text (JStr (with_suffix base k)))) \<in> set (stem_texts d)
    \<or> (\<exists>c \<in> set classes. key_low c (with_suffix base k) \<in> set (seen @ main_keys d))"
proof -
  let ?i = "norm_text (JStr (with_suffix base k))"
  have "?i \<noteq> []" using ends_as_norm [OF ends_as_mark, of k base] by (auto simp: ends_as_def mark_end_Cons)
  moreover have "124 \<notin> set ?i" using norm_bar candidate_bar [OF assms(1)] by blast
  ultimately show ?thesis
    using assms(2) subject_clash_in [of d ?i] stem_clash_in [of d ?i]
    by (auto simp: dgIdentityFree_def Let_def list_all_iff)
qed

lemma some_candidate_free:
  assumes "124 \<notin> set base"
  shows "\<exists>k \<in> {1..taken_bound d classes seen}. dgIdentityFree d (with_suffix base k) classes seen"
proof (rule ccontr)
  let ?n = "taken_bound d classes seen" and ?s = "seen @ main_keys d"
  let ?A = "{k \<in> {1..?n}. norm_low (JStr (norm_text (JStr (with_suffix base k)))) \<in> set (name_texts d)}"
  let ?B = "{k \<in> {1..?n}. dgFetStem (JStr (norm_text (JStr (with_suffix base k)))) \<in> set (stem_texts d)}"
  let ?C = "\<lambda>c. {k \<in> {1..?n}. key_low c (with_suffix base k) \<in> set ?s}"
  assume "\<not> (\<exists>k \<in> {1..?n}. dgIdentityFree d (with_suffix base k) classes seen)"
  then have "{1..?n} \<subseteq> ?A \<union> ?B \<union> (\<Union>c \<in> set classes. ?C c)" using candidate_taken [OF assms] by fastforce
  then have "card {1..?n} \<le> card (?A \<union> ?B \<union> (\<Union>c \<in> set classes. ?C c))" by (intro card_mono) auto
  also have "\<dots> \<le> card ?A + card ?B + card (\<Union>c \<in> set classes. ?C c)"
    using card_Un_le [of "?A \<union> ?B" "\<Union>c \<in> set classes. ?C c"] card_Un_le [of ?A ?B] by linarith
  also have "card (\<Union>c \<in> set classes. ?C c) \<le> (\<Sum>c \<in> set classes. card (?C c))" by (rule card_UN_le) simp
  also have "\<dots> \<le> (\<Sum>c \<in> set classes. length ?s)" by (intro sum_mono taken_card forms)
  also have "\<dots> = card (set classes) * length ?s" by simp
  also have "\<dots> \<le> length classes * length ?s" by (intro mult_right_mono card_length) simp
  finally have "?n \<le> length (name_texts d) + length (stem_texts d) + length classes * length ?s"
    using taken_card [OF forms(1), of ?n base "name_texts d"] taken_card [OF forms(2), of ?n base "stem_texts d"] by simp
  then show False by (simp add: taken_bound_def name_texts_def stem_texts_def)
qed

lemma free_from_free:
  "\<exists>j \<in> {k..<k + f}. dgIdentityFree d (with_suffix base j) classes seen
     \<Longrightarrow> dgIdentityFree d (with_suffix base (free_from d classes seen base f k)) classes seen"
proof (induction f arbitrary: k)
  case (Suc f)
  show ?case
  proof (cases "dgIdentityFree d (with_suffix base k) classes seen")
    case False
    with Suc.prems obtain j where "j \<in> {k..<k + Suc f}" "j \<noteq> k" "dgIdentityFree d (with_suffix base j) classes seen" by blast
    then have "\<exists>j \<in> {Suc k..<Suc k + f}. dgIdentityFree d (with_suffix base j) classes seen" by (intro bexI [of _ j]) auto
    then show ?thesis using Suc.IH False by simp
  qed simp
qed simp

lemma resolved_free: "dgIdentityFree d (dayGhepResolveIdentity d e seen) (dayGhepClasses e) seen"
proof -
  let ?base = "dgIdentityBase (dayGhepLabel d e)" and ?n = "taken_bound d (dayGhepClasses e) seen"
  have "\<exists>j \<in> {1..<1 + ?n}. dgIdentityFree d (with_suffix ?base j) (dayGhepClasses e) seen"
    using some_candidate_free [OF base_bar] by (auto simp: atLeastLessThanSuc_atLeastAtMost)
  from free_from_free [OF this] show ?thesis by (simp add: dayGhepResolveIdentity_def Let_def)
qed

end
