(* ===== verification/DgKeys.thy ===== *)
theory DgKeys
  imports DgOk FeApplyOk
begin

section \<open>Joint lessons: the rows after a sync\<close>

text \<open>
  What the walk over the rows keeps: every kept row has classes, periods and an identity that no subject
  has, the keys seen are those of the kept rows, and no key is seen twice.
\<close>

subsection \<open>Case\<close>

lemma lower_fix: "list_all (\<lambda>x. lower_cu x = [x]) (lower_cu c)"
  unfolding lower_cu_def [of c] by (auto simp: lower_cu_def)

lemma lower_idem: "toLowerCase (toLowerCase s) = toLowerCase s"
proof -
  have "concat (map lower_cu (lower_cu c)) = lower_cu c" for c
    using lower_fix [of c] by (intro concat_singletons) (simp add: list_all_iff)
  then show ?thesis by (induction s) (simp_all add: toLowerCase_def)
qed

lemma lower_Cons: "toLowerCase (c # s) = lower_cu c @ toLowerCase s"
  by (simp add: toLowerCase_def)

subsection \<open>Fields\<close>

lemma u_eq [simp]: "u s = u t \<longleftrightarrow> s = t"
  by (simp add: u_def inj_map_eq_map inj_of_char)

lemma map_of_map_value: "map_of (map (\<lambda>(k', x). (k', if k' = k then f x else x)) kvs) l = map_option (\<lambda>x. if l = k then f x else x) (map_of kvs l)"
  by (induction kvs) auto

lemma jget_change_key: "jget (change_key k f v) l = (if l = u k \<and> is_obj v \<and> l \<in> fst ` set (entries v) then f (jget v l) else jget v l)"
proof (cases v)
  case (JObj kvs)
  then show ?thesis
  proof (cases "map_of kvs l")
    case None
    then have "l \<notin> fst ` set kvs" by (simp add: map_of_eq_None_iff)
    with JObj None show ?thesis by (simp add: change_key_def map_of_map_value)
  next
    case (Some x)
    then have "l \<in> fst ` set kvs" by (metis domI dom_map_of_conv_image_fst)
    with JObj Some show ?thesis by (auto simp: change_key_def map_of_map_value)
  qed
qed (auto simp: change_key_def)

lemma jget_change_other: "l \<noteq> u k \<Longrightarrow> jget (change_key k f v) l = jget v l"
  by (simp add: jget_change_key)

lemma is_obj_change [simp]: "is_obj (change_key k f v) = is_obj v"
  by (cases v) (auto simp: change_key_def)

lemma map_of_filter_key: "map_of (filter (\<lambda>kv. fst kv \<noteq> k) kvs) l = (if l = k then None else map_of kvs l)"
  by (induction kvs) auto

lemma jget_jdel: "jget (jdel k v) l = (if l = k then JUndef else jget v l)"
  by (cases v) (auto simp: jdel_def map_of_filter_key)

lemma is_obj_jdel [simp]: "is_obj (jdel k v) = is_obj v"
  by (cases v) (auto simp: jdel_def)

text \<open>What the steps on a row leave alone.\<close>

lemma row_frames:
  "l \<noteq> u k \<Longrightarrow> jget (fst (set_texts k xs e)) l = jget e l" "is_obj (fst (set_texts k xs e)) = is_obj e"
  "l \<noteq> u ''gioihan'' \<Longrightarrow> jget (fst (set_limit e)) l = jget e l" "is_obj (fst (set_limit e)) = is_obj e"
  "l \<noteq> u ''codinh'' \<Longrightarrow> jget (fst (drop_fixed e)) l = jget e l" "is_obj (fst (drop_fixed e)) = is_obj e"
  "l \<noteq> u ''hienthi'' \<Longrightarrow> l \<noteq> u ''viettat'' \<Longrightarrow> jget (fst (set_label d e)) l = jget e l" "is_obj (fst (set_label d e)) = is_obj e"
  "l \<noteq> u ''ten'' \<Longrightarrow> jget (fst (set_identity d seen e)) l = jget e l" "is_obj (fst (set_identity d seen e)) = is_obj e"
  "l \<noteq> u ''id'' \<Longrightarrow> jget (fst (set_id es e)) l = jget e l" "is_obj (fst (set_id es e)) = is_obj e"
  by (auto simp: set_texts_def set_limit_def drop_fixed_def set_label_def set_identity_def set_id_def Let_def jget_jput jget_jdel
      split: js.splits option.splits)

lemma set_identity_ten:
  "is_obj e \<Longrightarrow> jprop (fst (set_identity d seen e)) ''ten'' = JStr (dayGhepResolveIdentity d e seen)"
  by (simp add: set_identity_def Let_def jget_jput)

lemma row_parts:
  "jprop e ''lop'' = jprop e' ''lop'' \<Longrightarrow> dayGhepClasses e = dayGhepClasses e'"
  "jprop e ''sotiet'' = jprop e' ''sotiet'' \<Longrightarrow> dayGhepPeriods e = dayGhepPeriods e'"
  by (simp_all add: dayGhepClasses_def dayGhepPeriods_def)

subsection \<open>The timetable apart\<close>

text \<open>The cells and the tables by lesson are all that moving cells changes.\<close>

definition same_rows :: "js \<Rightarrow> js \<Rightarrow> bool" where
  "same_rows d d' \<longleftrightarrow> is_obj d' = is_obj d
     \<and> (\<forall>l. l \<notin> {u ''tkb'', u ''tkbLessonTeachers'', u ''tkbLessonRooms''} \<longrightarrow> jget d' l = jget d l)"

lemma same_rows_refl [simp]: "same_rows d d"
  by (simp add: same_rows_def)

lemma same_rows_trans: "same_rows d e \<Longrightarrow> same_rows e f \<Longrightarrow> same_rows d f"
  by (simp add: same_rows_def)

lemma fold_same_rows: "(\<And>x d. same_rows d (f x d)) \<Longrightarrow> same_rows d (fold f xs d)"
  by (rule fold_invariant [where P = "same_rows d"]) (blast intro: same_rows_refl same_rows_trans)+

lemma same_rows_change: "k \<in> {''tkb'', ''tkbLessonTeachers'', ''tkbLessonRooms''} \<Longrightarrow> same_rows d (change_key k f d)"
  by (auto simp: same_rows_def jget_change_other)

lemma cells_same_rows: "same_rows d (change_cells d lop f)"
  unfolding change_cells_def by (rule fold_same_rows) (simp add: same_rows_change)

lemma rekey_same_rows: "same_rows d (dayGhepRekeyLessonMaps lop old new d)"
  unfolding dayGhepRekeyLessonMaps_def Let_def by (auto intro!: same_rows_trans [OF same_rows_change same_rows_change])

lemma rename_same_rows: "same_rows d (dayGhepRenameTkbCells lop old new d)"
  unfolding dayGhepRenameTkbCells_def Let_def by (auto intro: same_rows_trans [OF cells_same_rows rekey_same_rows])

lemma remove_same_rows: "same_rows d (dayGhepRemoveTkbCells lop names d)"
  unfolding dayGhepRemoveTkbCells_def Let_def by (auto intro: same_rows_trans [OF cells_same_rows rekey_same_rows])

lemma same_rows_subjects: "same_rows d d' \<Longrightarrow> dgSubjectClashingWith d' = dgSubjectClashingWith d"
proof (rule ext)
  fix name
  assume "same_rows d d'"
  then have "rows_of d' ''monhoc'' = rows_of d ''monhoc''" "rows_of d' ''mon'' = rows_of d ''mon''"
    by (simp_all add: same_rows_def rows_of_def)
  note rows = this
  show "dgSubjectClashingWith d' name = dgSubjectClashingWith d name" unfolding dgSubjectClashingWith_def rows ..
qed

subsection \<open>One row\<close>

definition row_key :: "js \<Rightarrow> ustr" where
  "row_key e = norm_text (jprop e ''ten'')"

definition row_keys :: "js \<Rightarrow> ustr list" where
  "row_keys e = map (\<lambda>c. toLowerCase (c @ [124] @ row_key e)) (dayGhepClasses e)"

definition sound_row :: "js \<Rightarrow> js \<Rightarrow> bool" where
  "sound_row d e \<longleftrightarrow> dayGhepClasses e \<noteq> [] \<and> dayGhepPeriods e > 0 \<and> row_key e \<noteq> [] \<and> 124 \<notin> set (row_key e)
     \<and> dgSubjectClashingWith d (row_key e) = []"

lemma row_key_identity: "row_key e \<noteq> [] \<Longrightarrow> dayGhepIdentity d e = row_key e"
  by (simp add: dayGhepIdentity_def row_key_def first_text_def)

lemma row_keys_eq: "row_key e \<noteq> [] \<Longrightarrow> map toLowerCase (dayGhepKeys d e) = row_keys e"
  by (simp add: dayGhepKeys_def Let_def row_key_identity row_keys_def)

lemma unique_texts: "distinct (map toLowerCase (dgUniqueTexts raw))"
proof -
  have "distinct (map toLowerCase (fold (\<lambda>v. add_unless (norm_text v)) xs out))" if "distinct (map toLowerCase out)" for xs out
    using that by (induction xs arbitrary: out) (simp_all add: add_unless_def)
  then show ?thesis by (simp add: dgUniqueTexts_def Let_def)
qed

lemma distinct_row_keys: "distinct (row_keys e)"
proof -
  have "row_keys e = map (\<lambda>c. c @ 124 # toLowerCase (row_key e)) (map toLowerCase (dayGhepClasses e))"
    by (simp add: row_keys_def lower_append) (simp add: toLowerCase_def lower_cu_def)
  then show ?thesis using unique_texts [of "jprop e ''lop''"] by (simp add: distinct_map inj_on_def dayGhepClasses_def)
qed

lemma key_low_eq: "key_low c i = toLowerCase (c @ [124] @ norm_text (JStr i))"
  by (simp add: key_low_def norm_low_def lower_append lower_Cons lower_idem)

text \<open>The row with its identity is sound, and its keys are new.\<close>

lemma identified_row:
  assumes "is_obj e" "dayGhepClasses e \<noteq> []" "dayGhepPeriods e > 0"
  shows "sound_row d (fst (set_identity d seen e))" "set (row_keys (fst (set_identity d seen e))) \<inter> set seen = {}"
proof -
  let ?i = "dayGhepResolveIdentity d e seen" and ?e = "fst (set_identity d seen e)"
  have k: "row_key ?e = norm_text (JStr ?i)" using assms(1) by (simp add: row_key_def set_identity_ten)
  have c: "dayGhepClasses ?e = dayGhepClasses e" "dayGhepPeriods ?e = dayGhepPeriods e"
    by (rule row_parts; simp add: row_frames)+
  have free: "dgIdentityFree d ?i (dayGhepClasses e) seen" by (rule resolved_free)
  then show "sound_row d ?e" using assms c k by (simp add: sound_row_def dgIdentityFree_def Let_def)
  show "set (row_keys ?e) \<inter> set seen = {}"
    using free by (auto simp: row_keys_def c k dgIdentityFree_def Let_def list_all_iff key_low_eq)
qed

subsection \<open>The walk\<close>

definition sync_inv :: "js \<Rightarrow> ghep_sync \<Rightarrow> bool" where
  "sync_inv d gs \<longleftrightarrow> same_rows d (gs_data gs) \<and> list_all (sound_row d) (gs_kept gs)
     \<and> gs_seen gs = concat (map row_keys (gs_kept gs)) \<and> distinct (gs_seen gs)"

lemma drop_row_inv: "sync_inv d gs \<Longrightarrow> sync_inv d (drop_row raw gs)"
  by (auto simp: sync_inv_def drop_row_def)

lemma cells_removed_inv:
  assumes "sync_inv d gs"
  shows "sync_inv d (cells_removed classes names gs)"
proof -
  have "same_rows (gs_data gs) (fold (\<lambda>c. dayGhepRemoveTkbCells c names) classes (gs_data gs))"
    by (rule fold_same_rows) (rule remove_same_rows)
  then show ?thesis using assms by (auto simp: sync_inv_def cells_removed_def intro: same_rows_trans)
qed

lemma finish_row_inv:
  assumes "sync_inv d gs" "is_obj (fst ef)" "dayGhepPeriods (fst ef) > 0"
  shows "sync_inv d (finish_row raw rest classes oldNames oldIdentity ef gs)"
proof -
  let ?d = "gs_data gs"
  define e1 where "e1 = fst (set_limit (fst ef))"
  define e2 where "e2 = fst (drop_fixed e1)"
  define e3 where "e3 = fst (set_label ?d e2)"
  define e4 where "e4 = fst (set_identity ?d (gs_seen gs) e3)"
  define e5 where "e5 = fst (set_id (gs_past gs @ e4 # rest) e4)"
  define new where "new = dayGhepResolveIdentity ?d e3 (gs_seen gs)"
  define d1 where "d1 = (if new \<noteq> oldIdentity then fold (\<lambda>c. dayGhepRenameTkbCells c oldNames new) classes ?d else ?d)"
  have fin: "\<exists>b. finish_row raw rest classes oldNames oldIdentity ef gs
      = (if map toLowerCase (dayGhepKeys ?d e4) = [] then drop_row raw gs
         else \<lparr>gs_data = d1, gs_seen = gs_seen gs @ map toLowerCase (dayGhepKeys ?d e4), gs_past = gs_past gs @ [e5],
               gs_kept = gs_kept gs @ [e5], gs_changed = b\<rparr>)"
    unfolding finish_row_def Let_def e5_def e4_def e3_def e2_def e1_def d1_def new_def
    by (simp add: case_prod_beta split: if_split)
  have o3: "is_obj e3" using assms(2) by (simp add: e1_def e2_def e3_def row_frames)
  have p3: "dayGhepPeriods e3 > 0"
    using assms(3) by (subst row_parts(2) [of _ "fst ef"]) (simp_all add: e1_def e2_def e3_def row_frames)
  have sd: "same_rows d ?d" using assms(1) by (simp add: sync_inv_def)
  have sd1: "same_rows d d1"
    unfolding d1_def by (auto intro: same_rows_trans [OF sd] fold_same_rows rename_same_rows sd)
  show ?thesis
  proof (cases "dayGhepClasses e3 = []")
    case True
    have "dayGhepClasses e4 = []" using True row_parts(1) [of e4 e3] by (simp add: e4_def row_frames)
    then have "dayGhepKeys ?d e4 = []" by (simp add: dayGhepKeys_def Let_def)
    then show ?thesis using fin drop_row_inv [OF assms(1)] by auto
  next
    case False
    have s4: "sound_row ?d e4" "set (row_keys e4) \<inter> set (gs_seen gs) = {}"
      unfolding e4_def using identified_row [OF o3 False p3] by blast+
    have k5: "row_key e5 = row_key e4" "row_keys e5 = row_keys e4" "dayGhepClasses e5 = dayGhepClasses e4" "dayGhepPeriods e5 = dayGhepPeriods e4"
      by (simp_all add: row_key_def row_keys_def dayGhepClasses_def dayGhepPeriods_def e5_def row_frames)
    then have s5: "sound_row d e5" using s4(1) same_rows_subjects [OF sd] by (simp add: sound_row_def)
    have "map toLowerCase (dayGhepKeys ?d e4) = row_keys e5"
      using s4(1) k5 by (simp add: row_keys_eq sound_row_def)
    moreover have "row_keys e5 \<noteq> []" using s5 by (simp add: row_keys_def sound_row_def)
    ultimately obtain b where "finish_row raw rest classes oldNames oldIdentity ef gs
        = \<lparr>gs_data = d1, gs_seen = gs_seen gs @ row_keys e5, gs_past = gs_past gs @ [e5], gs_kept = gs_kept gs @ [e5], gs_changed = b\<rparr>"
      using fin by auto
    then show ?thesis using assms(1) s5 s4(2) sd1 k5(2) distinct_row_keys [of e5] by (auto simp: sync_inv_def)
  qed
qed

lemma classes_obj: "is_object raw \<Longrightarrow> dayGhepClasses raw \<noteq> [] \<Longrightarrow> is_obj raw"
proof (cases raw)
  case (JArr xs)
  have "dgUniqueTexts JUndef = []" by code_simp
  then show "dayGhepClasses raw \<noteq> [] \<Longrightarrow> is_obj raw" using JArr by (simp add: dayGhepClasses_def)
qed auto

lemma sync_row_inv:
  assumes "sync_inv d gs"
  shows "sync_inv d (sync_row cx raw rest gs)"
proof (cases "is_object raw \<and> canon_classes cx (dayGhepClasses raw) \<noteq> []")
  case False
  then show ?thesis using drop_row_inv [OF assms] by (auto simp: sync_row_def Let_def)
next
  case True
  have "canon_classes cx [] = []" by (simp add: canon_classes_def)
  then have "dayGhepClasses raw \<noteq> []" using True by auto
  then have o: "is_obj raw" using True by (simp add: classes_obj)
  show ?thesis
    using True unfolding sync_row_def Let_def
    by (auto simp: case_prod_beta row_frames o intro!: cells_removed_inv drop_row_inv assms finish_row_inv)
qed

lemma sync_rows_inv: "sync_inv d gs \<Longrightarrow> sync_inv d (sync_rows cx es gs)"
  by (induction cx es gs rule: sync_rows.induct) (simp_all add: sync_row_inv)

lemma list_obj: "dayGhepList d \<noteq> [] \<Longrightarrow> is_obj d"
  by (cases d) (auto simp: dayGhepList_def rows_of_def)

lemma sync_trivial:
  assumes "dayGhepList d = [] \<or> \<not> cx_core cx"
  shows "dayGhepList (snd (syncDayGhepIntegrity cx d)) = []"
proof (cases "dayGhepList d = []")
  case True
  then show ?thesis
    by (cases "is_obj d") (simp_all add: syncDayGhepIntegrity_def Let_def ensure_rows_def dayGhepList_def rows_of_def jget_jput)
next
  case False
  then show ?thesis using assms list_obj [OF False]
    by (simp add: syncDayGhepIntegrity_def Let_def) (simp add: dayGhepList_def rows_of_def jget_jput)
qed

lemma synced:
  "list_all (\<lambda>e. sound_row (snd (syncDayGhepIntegrity cx d)) e) (dayGhepList (snd (syncDayGhepIntegrity cx d)))
   \<and> dayGhepOwnedKeySet (snd (syncDayGhepIntegrity cx d)) = concat (map row_keys (dayGhepList (snd (syncDayGhepIntegrity cx d))))
   \<and> distinct (dayGhepOwnedKeySet (snd (syncDayGhepIntegrity cx d)))"
proof -
  let ?d = "snd (syncDayGhepIntegrity cx d)"
  have owned: "dayGhepOwnedKeySet x = concat (map row_keys (dayGhepList x))" if "list_all (sound_row y) (dayGhepList x)" for x y
  proof -
    have "map toLowerCase (dayGhepKeys x e) = row_keys e" if "e \<in> set (dayGhepList x)" for e
      using that \<open>list_all _ _\<close> by (simp add: list_all_iff sound_row_def row_keys_eq)
    then show ?thesis by (simp add: dayGhepOwnedKeySet_def map_concat cong: map_cong)
  qed
  consider "dayGhepList ?d = []" | gs where "sync_inv d gs" "?d = jput (u ''dayGhep'') (JArr (gs_kept gs)) (gs_data gs)" "is_obj d"
  proof (cases "dayGhepList d = [] \<or> \<not> cx_core cx")
    case True
    then have "dayGhepList ?d = []" by (rule sync_trivial)
    then show ?thesis by (rule that(1))
  next
    case False
    then have "is_obj d" by (auto intro: list_obj)
    let ?gs = "sync_rows cx (dayGhepList d) \<lparr>gs_data = d, gs_seen = [], gs_past = [], gs_kept = [], gs_changed = False\<rparr>"
    have "sync_inv d ?gs" by (rule sync_rows_inv) (simp add: sync_inv_def)
    moreover have "?d = jput (u ''dayGhep'') (JArr (gs_kept ?gs)) (gs_data ?gs)"
      using False by (simp add: syncDayGhepIntegrity_def Let_def)
    ultimately show ?thesis using that(2) \<open>is_obj d\<close> by blast
  qed
  then show ?thesis
  proof cases
    case 1
    then show ?thesis by (simp add: dayGhepOwnedKeySet_def)
  next
    case 2
    then have "same_rows d (gs_data gs)" by (simp add: sync_inv_def)
    then have "is_obj (gs_data gs)" using 2(3) by (simp add: same_rows_def)
    then have l: "dayGhepList ?d = gs_kept gs" by (simp add: 2(2) dayGhepList_def rows_of_def jget_jput)
    have "dgSubjectClashingWith ?d = dgSubjectClashingWith d"
    proof (rule ext)
      fix n
      have "rows_of ?d ''monhoc'' = rows_of d ''monhoc''" "rows_of ?d ''mon'' = rows_of d ''mon''"
        using \<open>same_rows d (gs_data gs)\<close> by (simp_all add: 2(2) rows_of_def jget_jput same_rows_def)
      note rows = this
      show "dgSubjectClashingWith ?d n = dgSubjectClashingWith d n" unfolding dgSubjectClashingWith_def rows ..
    qed
    then have "sound_row ?d = sound_row d" by (intro ext) (simp add: sound_row_def)
    then have "list_all (sound_row ?d) (gs_kept gs)" using 2(1) by (simp add: sync_inv_def)
    moreover have "distinct (concat (map row_keys (gs_kept gs)))" using 2(1) by (metis sync_inv_def)
    ultimately show ?thesis using owned [of ?d ?d] by (simp add: l)
  qed
qed

end
