(* ===== verification/DgProj.thy ===== *)
theory DgProj
  imports DgKeys
begin

section \<open>Joint lessons: what the projection writes\<close>

text \<open>
  After \<open>syncDayGhepProjection\<close> every key of a lesson carries the teachers, periods and limit of its row,
  and a key that no row has any more is in none of the tables. A second run finds nothing to do.
\<close>

subsection \<open>The tables\<close>

definition mats :: "js \<Rightarrow> bool" where
  "mats d \<longleftrightarrow> is_obj d \<and> list_all (\<lambda>f. is_obj (jprop d f)) matrices"

text \<open>The steps change the named tables only, never the rows or the teachers.\<close>

definition tables_only :: "js \<Rightarrow> js \<Rightarrow> bool" where
  "tables_only d d' \<longleftrightarrow> is_obj d' = is_obj d \<and> (\<forall>l. l \<notin> u ` set lesson_tables \<longrightarrow> jget d' l = jget d l)
     \<and> (mats d \<longrightarrow> mats d')"

definition written :: "js \<Rightarrow> ustr \<times> projection \<Rightarrow> bool" where
  "written d kp \<longleftrightarrow>
     (if pj_gv (snd kp) \<noteq> [] then jget (jprop d ''pccmMatrix'') (fst kp) = JStr (pj_gv (snd kp))
      else \<not> has_key (fst kp) (jprop d ''pccmMatrix'') \<and> norm_text (jget (jprop d ''tkbLessonTeachers'') (fst kp)) = [])
     \<and> shown_value d ''pccmTietMatrix'' (fst kp) = pj_sotiet (snd kp)
     \<and> shown_value d ''pccmGioihanMatrix'' (fst kp) = pj_gioihan (snd kp)"

lemma tables_only_refl [simp]: "tables_only d d"
  by (simp add: tables_only_def)

lemma tables_only_trans: "tables_only d e \<Longrightarrow> tables_only e f \<Longrightarrow> tables_only d f"
  by (simp add: tables_only_def)

lemma tables_only_change:
  "f \<in> set lesson_tables \<Longrightarrow> (\<And>v. is_obj (g v) = is_obj v) \<Longrightarrow> tables_only d (change_key f g d)"
  by (auto simp: tables_only_def jget_change_key mats_def list_all_iff)

lemma tables_only_steps:
  assumes "f \<in> set lesson_tables"
  shows "tables_only (snd fd) (snd (del_in k f fd))" "tables_only (snd fd) (snd (put_in k f s fd))"
    "tables_only (snd fd) (snd (project_shown k f s fd))"
  using tables_only_change [OF assms, of "jdel k" "snd fd"] tables_only_change [OF assms, of "jput k (JStr s)" "snd fd"]
  by (simp_all add: del_in_def put_in_def project_shown_def)

lemma tables: "''pccmMatrix'' \<in> set lesson_tables" "''pccmTietMatrix'' \<in> set lesson_tables"
  "''pccmGioihanMatrix'' \<in> set lesson_tables" "''tkbLessonTeachers'' \<in> set lesson_tables"
  by (simp_all add: lesson_tables_def matrices_def)

lemma tables_only_teacher: "tables_only (snd fd) (snd (project_teacher k gv fd))"
proof -
  have "tables_only (snd fd) (change_key ''tkbLessonTeachers'' (jdel k) (snd (del_in k ''pccmMatrix'' fd)))"
    by (rule tables_only_trans [OF tables_only_steps(1) tables_only_change]) (simp_all add: tables)
  then show ?thesis using tables_only_steps [OF tables(1)] by (simp add: project_teacher_def Let_def)
qed

lemma tables_only_project: "tables_only (snd fd) (snd (project_one kv fd))"
  unfolding project_one_def Let_def
  by (rule tables_only_trans [OF tables_only_trans [OF tables_only_teacher]]; rule tables_only_steps; rule tables)

subsection \<open>One key\<close>

lemma has_key_jget: "\<not> has_key k v \<Longrightarrow> jget v k = JUndef"
  by (cases v) (auto simp: has_key_def split: option.splits dest: map_of_SomeD intro: rev_image_eqI)

lemma has_key_jdel [simp]: "is_obj v \<Longrightarrow> has_key l (jdel k v) \<longleftrightarrow> l \<noteq> k \<and> has_key l v"
  by (cases v) (auto simp: has_key_def jdel_def)

lemma has_key_jput [simp]: "is_obj v \<Longrightarrow> has_key l (jput k x v) \<longleftrightarrow> l = k \<or> has_key l v"
  by (cases v) (auto simp: has_key_def dom_update)

lemma mats_parts:
  assumes "mats d" "f \<in> set matrices"
  shows "is_obj d" "is_obj (jprop d f)" "jprop (change_key f g d) f = g (jprop d f)"
proof -
  show o: "is_obj d" "is_obj (jprop d f)" using assms by (auto simp: mats_def list_all_iff)
  have "u f \<in> fst ` set (entries d)"
  proof (rule ccontr)
    assume "u f \<notin> fst ` set (entries d)"
    then have "jprop d f = JUndef" using has_key_jget [of "u f" d] by (simp add: has_key_def)
    then show False using o by simp
  qed
  then show "jprop (change_key f g d) f = g (jprop d f)" using o by (simp add: jget_change_key)
qed

lemma norm_undef [simp]: "norm_text JUndef = []"
  by code_simp

lemma shown_other: "f \<noteq> f' \<Longrightarrow> shown_value (change_key f' g d) f k = shown_value d f k"
  by (simp add: shown_value_def jget_change_other)

lemma shown_put: "mats d \<Longrightarrow> f \<in> set matrices \<Longrightarrow> shown_value (change_key f (jput k (JStr s)) d) f l = (if l = k then s else shown_value d f l)"
  by (simp add: shown_value_def mats_parts jget_jput js_nullor_def)

text \<open>Steps for other keys change nothing of this one.\<close>

definition same_at :: "ustr \<Rightarrow> js \<Rightarrow> js \<Rightarrow> bool" where
  "same_at l d d' \<longleftrightarrow> list_all (\<lambda>f. jget (jprop d' f) l = jget (jprop d f) l) lesson_tables
     \<and> (has_key l (jprop d' ''pccmMatrix'') \<longleftrightarrow> has_key l (jprop d ''pccmMatrix''))"

lemma same_at_refl [simp]: "same_at l d d"
  by (simp add: same_at_def list_all_iff)

lemma same_at_trans: "same_at l d e \<Longrightarrow> same_at l e f \<Longrightarrow> same_at l d f"
  by (simp add: same_at_def list_all_iff)

lemma same_at_change:
  assumes "\<And>v. jget (g v) l = jget v l" "\<And>v. has_key l (g v) = has_key l v"
  shows "same_at l d (change_key f g d)"
  using assms by (simp add: same_at_def list_all_iff jget_change_key)

lemma same_at_jdel: "l \<noteq> k \<Longrightarrow> same_at l d (change_key f (jdel k) d)"
proof (rule same_at_change)
  fix v assume "l \<noteq> k"
  then show "jget (jdel k v) l = jget v l" "has_key l (jdel k v) = has_key l v"
    by (simp add: jget_jdel) (use \<open>l \<noteq> k\<close> in \<open>cases v; auto simp: has_key_def jdel_def\<close>)
qed

lemma same_at_jput: "l \<noteq> k \<Longrightarrow> same_at l d (change_key f (jput k x) d)"
proof (rule same_at_change)
  fix v assume "l \<noteq> k"
  then show "jget (jput k x v) l = jget v l" "has_key l (jput k x v) = has_key l v"
    by (simp add: jget_jput) (use \<open>l \<noteq> k\<close> in \<open>cases v; auto simp: has_key_def dom_update\<close>)
qed

lemma same_at_steps:
  assumes "l \<noteq> k"
  shows "same_at l (snd fd) (snd (del_in k f fd))" "same_at l (snd fd) (snd (put_in k f s fd))"
    "same_at l (snd fd) (snd (project_shown k f s fd))"
  using assms by (simp_all add: del_in_def put_in_def project_shown_def same_at_jdel same_at_jput)

lemma same_at_teacher: "l \<noteq> k \<Longrightarrow> same_at l (snd fd) (snd (project_teacher k gv fd))"
  using same_at_trans [OF same_at_steps(1) [of l k fd "''pccmMatrix''"] same_at_jdel]
  by (simp add: project_teacher_def Let_def same_at_steps)

lemma same_at_project: "l \<noteq> fst kp \<Longrightarrow> same_at l (snd fd) (snd (project_one kp fd))"
  unfolding project_one_def Let_def
  by (rule same_at_trans [OF same_at_trans [OF same_at_teacher]]; (rule same_at_steps)?)

lemma same_at_parts: "same_at l d d' \<Longrightarrow> f \<in> set lesson_tables \<Longrightarrow> jget (jprop d' f) l = jget (jprop d f) l"
  by (simp add: same_at_def list_all_iff)

lemma same_at_written: "same_at (fst kp) d d' \<Longrightarrow> written d' kp = written d kp"
  using same_at_parts [of "fst kp" d d', OF _ tables(1)] same_at_parts [of "fst kp" d d', OF _ tables(2)]
    same_at_parts [of "fst kp" d d', OF _ tables(3)] same_at_parts [of "fst kp" d d', OF _ tables(4)]
  by (simp add: written_def shown_value_def same_at_def)

lemma mats_tables_only: "tables_only d d' \<Longrightarrow> mats d \<Longrightarrow> mats d'"
  by (simp add: tables_only_def)

lemma matrix_names: "''pccmMatrix'' \<in> set matrices" "''pccmTietMatrix'' \<in> set matrices" "''pccmGioihanMatrix'' \<in> set matrices"
  by (simp_all add: matrices_def)

lemma shown_shown:
  assumes "mats (snd fd)" "f \<in> set matrices"
  shows "shown_value (snd (project_shown k f s fd)) f k = s"
  using shown_put [OF assms] by (simp add: project_shown_def put_in_def)

lemma shown_frame:
  assumes "f \<noteq> f'"
  shows "jprop (snd (project_shown k f s fd)) f' = jprop (snd fd) f'"
  using assms by (simp add: project_shown_def put_in_def jget_change_other)

lemma teacher_set:
  assumes "mats (snd fd)"
  shows "if gv \<noteq> [] then jget (jprop (snd (project_teacher k gv fd)) ''pccmMatrix'') k = JStr gv
     else \<not> has_key k (jprop (snd (project_teacher k gv fd)) ''pccmMatrix'')
       \<and> norm_text (jget (jprop (snd (project_teacher k gv fd)) ''tkbLessonTeachers'') k) = []"
proof -
  note m = mats_parts [OF assms matrix_names(1)]
  have d: "\<not> has_key k (jprop (snd (del_in k ''pccmMatrix'' fd)) ''pccmMatrix'')"
    by (simp add: del_in_def m)
  have "norm_text (jget (jprop (change_key ''tkbLessonTeachers'' (jdel k) e) ''tkbLessonTeachers'') k) = []"
    if "norm_text (jget (jprop e ''tkbLessonTeachers'') k) \<noteq> []" for e
  proof -
    have "is_obj e" using that by (cases e) auto
    moreover have "has_key (u ''tkbLessonTeachers'') e" using that has_key_jget by fastforce
    ultimately show ?thesis by (simp add: jget_change_key has_key_def jget_jdel)
  qed
  then show ?thesis using d
    by (auto simp: project_teacher_def Let_def put_in_def m jget_jput jget_change_other)
qed

lemma project_written:
  assumes "mats (snd fd)"
  shows "written (snd (project_one kp fd)) kp"
proof -
  obtain k p where kp: "kp = (k, p)" by (cases kp)
  define f1 where "f1 = project_teacher k (pj_gv p) fd"
  define f2 where "f2 = project_shown k ''pccmTietMatrix'' (pj_sotiet p) f1"
  define f3 where "f3 = project_shown k ''pccmGioihanMatrix'' (pj_gioihan p) f2"
  have m1: "mats (snd f1)" unfolding f1_def by (rule mats_tables_only [OF tables_only_teacher assms])
  have m2: "mats (snd f2)" unfolding f2_def by (rule mats_tables_only [OF tables_only_steps(3) [OF tables(2)] m1])
  have "shown_value (snd f3) ''pccmTietMatrix'' k = pj_sotiet p"
    using shown_shown [OF m1 matrix_names(2), of k "pj_sotiet p"] by (simp add: f3_def f2_def shown_value_def shown_frame)
  moreover have "shown_value (snd f3) ''pccmGioihanMatrix'' k = pj_gioihan p"
    unfolding f3_def by (rule shown_shown [OF m2 matrix_names(3)])
  moreover have "jprop (snd f3) ''pccmMatrix'' = jprop (snd f1) ''pccmMatrix''"
    "jprop (snd f3) ''tkbLessonTeachers'' = jprop (snd f1) ''tkbLessonTeachers''"
    by (simp_all add: f3_def f2_def shown_frame)
  moreover have "project_one kp fd = f3" by (simp add: kp project_one_def Let_def f1_def f2_def f3_def)
  ultimately show ?thesis
    using teacher_set [OF assms, of "pj_gv p" k, folded f1_def] by (cases "pj_gv p = []") (simp_all add: written_def kp)
qed

lemma project_again: "written (snd fd) kp \<Longrightarrow> project_one kp fd = fd"
  by (simp add: written_def project_one_def Let_def project_teacher_def project_shown_def del_in_def split: if_splits)

lemma project_all_again: "list_all (written (snd fd)) new \<Longrightarrow> fold project_one new fd = fd"
  by (induction new) (simp_all add: project_again)

lemma tables_only_fold:
  assumes "\<And>x fd. tables_only (snd fd) (snd (f x fd))"
  shows "tables_only (snd fd) (snd (fold f xs fd))"
proof (induction xs arbitrary: fd)
  case (Cons x xs)
  show ?case using tables_only_trans [OF assms [of fd x] Cons.IH [of "f x fd"]] by simp
qed simp

lemma same_at_fold:
  assumes "\<And>x fd. x \<in> set xs \<Longrightarrow> same_at l (snd fd) (snd (f x fd))"
  shows "same_at l (snd fd) (snd (fold f xs fd))"
  using assms
proof (induction xs arbitrary: fd)
  case (Cons x xs)
  have "same_at l (snd (f x fd)) (snd (fold f xs (f x fd)))" by (rule Cons.IH) (simp add: Cons.prems)
  with Cons.prems [of x fd] show ?case by (simp add: same_at_trans)
qed simp

lemma project_all_written:
  "distinct (map fst new) \<Longrightarrow> mats (snd fd) \<Longrightarrow> list_all (written (snd (fold project_one new fd))) new"
proof (induction new arbitrary: fd)
  case (Cons kp new)
  have m: "mats (snd (project_one kp fd))" by (rule mats_tables_only [OF tables_only_project Cons.prems(2)])
  have "same_at (fst kp) (snd (project_one kp fd)) (snd (fold project_one new (project_one kp fd)))"
    using Cons.prems(1) by (intro same_at_fold same_at_project) (force simp: image_iff)
  then show ?case using Cons m project_written [OF Cons.prems(2), of kp] same_at_written by simp
qed simp

subsection \<open>Keys that are gone\<close>

definition absent :: "js \<Rightarrow> ustr \<Rightarrow> bool" where
  "absent d k \<longleftrightarrow> list_all (\<lambda>f. jget (jprop d f) k = JUndef) lesson_tables"

lemma change_jdel: "jprop (change_key f (jdel k) d) f = jdel k (jprop d f)"
proof (cases "is_obj d \<and> has_key (u f) d")
  case True
  then show ?thesis by (simp add: jget_change_key has_key_def)
next
  case False
  then have "jprop d f = JUndef" by (cases "is_obj d") (simp add: has_key_jget, cases d, auto)
  moreover have "jdel k JUndef = JUndef" by (simp add: jdel_def)
  ultimately show ?thesis by (simp add: jget_change_key)
qed

lemma jget_del_in:
  "jget (jprop (snd (del_in k f fd)) f') l = (if l = k \<and> f = f' then JUndef else jget (jprop (snd fd) f') l)"
  by (cases "f = f'") (simp_all add: del_in_def change_jdel jget_jdel has_key_jget jget_change_other)

lemma jget_del_tables:
  "jget (jprop (snd (fold (del_in k) fs fd)) f) l = (if l = k \<and> f \<in> set fs then JUndef else jget (jprop (snd fd) f) l)"
  by (induction fs arbitrary: fd) (auto simp: jget_del_in)

lemma jget_del_all:
  "f \<in> set lesson_tables \<Longrightarrow> jget (jprop (snd (fold (\<lambda>k. fold (del_in k) lesson_tables) ks fd)) f) l
     = (if l \<in> set ks then JUndef else jget (jprop (snd fd) f) l)"
  by (induction ks arbitrary: fd) (auto simp: jget_del_tables)

lemma del_all_absent:
  "k \<in> set ks \<Longrightarrow> absent (snd (fold (\<lambda>k. fold (del_in k) lesson_tables) ks fd)) k"
  by (simp add: absent_def list_all_iff jget_del_all)

lemma same_at_absent: "same_at k d d' \<Longrightarrow> absent d k \<Longrightarrow> absent d' k"
  by (simp add: same_at_def absent_def list_all_iff)

lemma del_tables_only: "set fs \<subseteq> set lesson_tables \<Longrightarrow> tables_only (snd fd) (snd (fold (del_in k) fs fd))"
proof (induction fs arbitrary: fd)
  case (Cons f fs)
  then show ?case using tables_only_trans [OF tables_only_steps(1) [of f fd k] Cons.IH [of "del_in k f fd"]] by simp
qed simp

lemma del_all_tables_only: "tables_only (snd fd) (snd (fold (\<lambda>k. fold (del_in k) lesson_tables) ks fd))"
  by (rule tables_only_fold) (simp add: del_tables_only)

subsection \<open>The projections depend on the rows only\<close>

definition same_school :: "js \<Rightarrow> js \<Rightarrow> bool" where
  "same_school d d' \<longleftrightarrow> dayGhepList d' = dayGhepList d \<and> rows_of d' ''giaovien'' = rows_of d ''giaovien''
     \<and> rows_of d' ''monhoc'' = rows_of d ''monhoc''"

lemma same_school_names:
  assumes "same_school d d'"
  shows "dayGhepKeys d' = dayGhepKeys d" "projection_of d' = projection_of d"
proof -
  have gv: "rows_of d' ''giaovien'' = rows_of d ''giaovien''" and mh: "rows_of d' ''monhoc'' = rows_of d ''monhoc''"
    using assms by (simp_all add: same_school_def)
  have "buildPCCMMonList d' = buildPCCMMonList d" unfolding buildPCCMMonList_def mh ..
  then have "dayGhepMonObj d' = dayGhepMonObj d" by (intro ext) (simp add: dayGhepMonObj_def)
  then have "dayGhepSubjectCode d' = dayGhepSubjectCode d" by (intro ext) (simp add: dayGhepSubjectCode_def)
  then have "dayGhepAutoName d' = dayGhepAutoName d" by (intro ext) (simp add: dayGhepAutoName_def dayGhepSubjectCodes_def)
  then have "dayGhepIdentity d' = dayGhepIdentity d" by (intro ext) (simp add: dayGhepIdentity_def dayGhepLabel_def)
  then show "dayGhepKeys d' = dayGhepKeys d" by (intro ext) (simp add: dayGhepKeys_def)
  have "resolveTeacherCode d' = resolveTeacherCode d" by (intro ext) (simp only: resolveTeacherCode_def Let_def gv)
  then have "pccmTeacherListFromValue d' = pccmTeacherListFromValue d" by (intro ext) (simp add: pccmTeacherListFromValue_def)
  then show "projection_of d' = projection_of d" by (intro ext) (simp add: projection_of_def pccmNormalizeTeacherValue_def)
qed

lemma same_school_projections:
  assumes "same_school d d'"
  shows "projections d' = projections d"
proof -
  have "dayGhepList d' = dayGhepList d" using assms by (simp add: same_school_def)
  then show ?thesis unfolding projections_def same_school_names [OF assms] by simp
qed

lemma school_keys: "u k \<notin> u ` set lesson_tables" if "k \<in> {''dayGhep'', ''giaovien'', ''monhoc'', ''dayGhepProjected''}"
  using that by (auto simp: lesson_tables_def matrices_def)

lemma tables_only_school: "tables_only d d' \<Longrightarrow> same_school d d'"
  by (simp add: tables_only_def same_school_def dayGhepList_def rows_of_def school_keys)

lemma make_matrices_school: "same_school d (make_matrices d)"
  by (simp add: make_matrices_def matrices_def same_school_def dayGhepList_def rows_of_def jget_jput)

lemma ensure_rows_school: "same_school d (ensure_rows d)"
  by (cases "jprop d ''dayGhep''") (auto simp: ensure_rows_def same_school_def dayGhepList_def rows_of_def jget_jput)

subsection \<open>The whole projection\<close>

definition tabled :: "js \<Rightarrow> js" where
  "tabled d = ensure_rows (make_matrices d)"

definition gone_keys :: "js \<Rightarrow> ustr list" where
  "gone_keys d = filter (\<lambda>k. map_of (projections d) k = None) (projected_keys d)"

definition projecting :: "js \<Rightarrow> tracked" where
  "projecting d = fold project_one (projections d) (fold (\<lambda>k. fold (del_in k) lesson_tables) (gone_keys d) (False, d))"

lemma distinct_projections: "distinct (map fst (projections d))"
proof -
  have "distinct (map fst (fold (add_new p) ks m))" if "distinct (map fst m)" for p ks m
    using that by (induction ks arbitrary: m) (auto simp: add_new_def map_of_eq_None_iff)
  then have "distinct (map fst (fold (\<lambda>e m. if dayGhepPeriods e = 0 then m else fold (add_new (projection_of d e)) (dayGhepKeys d e) m) es m))"
    if "distinct (map fst m)" for es m
    using that by (induction es arbitrary: m) auto
  then show ?thesis by (simp add: projections_def)
qed

lemma projecting_tables_only: "tables_only d (snd (projecting d))"
proof -
  have "tables_only d (snd (fold (\<lambda>k. fold (del_in k) lesson_tables) (gone_keys d) (False, d)))"
    using del_all_tables_only [of "(False, d)"] by simp
  from tables_only_trans [OF this tables_only_fold [OF tables_only_project]] show ?thesis by (simp add: projecting_def)
qed

lemma projecting_written:
  assumes "mats d"
  shows "list_all (written (snd (projecting d))) (projections d)" "list_all (absent (snd (projecting d))) (gone_keys d)"
proof -
  let ?f = "fold (\<lambda>k. fold (del_in k) lesson_tables) (gone_keys d) (False, d)"
  have "mats (snd ?f)" using mats_tables_only [OF del_all_tables_only [of "(False, d)"]] assms by simp
  then show "list_all (written (snd (projecting d))) (projections d)"
    unfolding projecting_def by (rule project_all_written [OF distinct_projections])
  have "absent (snd (projecting d)) k" if k: "k \<in> set (gone_keys d)" for k
  proof -
    have "k \<noteq> fst kp" if "kp \<in> set (projections d)" for kp
      using k that by (auto simp: gone_keys_def map_of_eq_None_iff)
    then have "same_at k (snd ?f) (snd (projecting d))" unfolding projecting_def by (intro same_at_fold same_at_project)
    then show ?thesis using del_all_absent [OF k] same_at_absent by blast
  qed
  then show "list_all (absent (snd (projecting d))) (gone_keys d)" by (simp add: list_all_iff)
qed

lemma sync_projecting:
  "is_object d \<Longrightarrow> syncDayGhepProjection d
     = (if sort (map fst (projections (tabled d))) = sort (projected_keys (tabled d)) then projecting (tabled d)
        else (True, jput (u ''dayGhepProjected'') (JArr (map JStr (sort (map fst (projections (tabled d)))))) (snd (projecting (tabled d)))))"
  by (simp add: syncDayGhepProjection_def Let_def tabled_def projecting_def gone_keys_def)

lemma tabled_school: "same_school d (tabled d)"
  using make_matrices_school [of d] ensure_rows_school [of "make_matrices d"] by (simp add: tabled_def same_school_def)

lemma obj_kinds: "is_obj v \<Longrightarrow> is_object v" "is_obj v \<Longrightarrow> \<not> is_array v"
  by (cases v; simp)+

lemma tabled_mats: "is_obj d \<Longrightarrow> mats (tabled d)"
  by (simp add: tabled_def ensure_rows_def make_matrices_def mats_def matrices_def jget_jput) (auto elim!: is_object.elims)

lemma tabled_projected: "projected_keys (tabled d) = projected_keys d"
  by (simp add: tabled_def ensure_rows_def make_matrices_def matrices_def projected_keys_def rows_of_def jget_jput)

lemma tabled_done: "mats d \<Longrightarrow> is_array (jprop d ''dayGhep'') \<Longrightarrow> tabled d = d"
  by (simp add: tabled_def ensure_rows_def make_matrices_def matrices_def mats_def obj_kinds)

lemma jput_projected:
  assumes "is_obj d"
  shows "same_school d (jput (u ''dayGhepProjected'') x d)" "mats (jput (u ''dayGhepProjected'') x d) = mats d"
    "written (jput (u ''dayGhepProjected'') x d) = written d" "absent (jput (u ''dayGhepProjected'') x d) = absent d"
  by (simp add: same_school_def dayGhepList_def rows_of_def jget_jput)
    (simp add: mats_def matrices_def jget_jput, (intro ext, simp add: written_def shown_value_def absent_def lesson_tables_def matrices_def jget_jput)+)

lemma projected:
  assumes "is_obj d"
  shows "list_all (written (snd (syncDayGhepProjection d))) (projections d)
    \<and> list_all (absent (snd (syncDayGhepProjection d))) (gone_keys d)
    \<and> sort (projected_keys (snd (syncDayGhepProjection d))) = sort (map fst (projections d))
    \<and> same_school d (snd (syncDayGhepProjection d)) \<and> mats (snd (syncDayGhepProjection d))
    \<and> is_array (jprop (snd (syncDayGhepProjection d)) ''dayGhep'')"
proof -
  let ?r = "tabled d" and ?p = "snd (projecting (tabled d))"
  have m: "mats ?r" using assms by (rule tabled_mats)
  then have mp: "mats ?p" by (rule mats_tables_only [OF projecting_tables_only])
  then have o: "is_obj ?p" by (simp add: mats_def)
  have pr: "projections ?r = projections d" by (rule same_school_projections [OF tabled_school])
  then have g: "gone_keys ?r = gone_keys d" by (simp add: gone_keys_def tabled_projected)
  have sc: "same_school d ?p"
    using tabled_school [of d] tables_only_school [OF projecting_tables_only [of ?r]] by (simp add: same_school_def)
  have keep: "jprop ?p ''dayGhepProjected'' = jprop ?r ''dayGhepProjected''" "jprop ?p ''dayGhep'' = jprop ?r ''dayGhep''"
    using projecting_tables_only [of ?r] by (simp_all add: tables_only_def school_keys)
  have ra: "is_array (jprop ?r ''dayGhep'')"
    using m by (auto simp: tabled_def ensure_rows_def mats_def jget_jput split: if_splits)
  note w = projecting_written [OF m, unfolded pr g]
  show ?thesis
  proof (cases "sort (map fst (projections ?r)) = sort (projected_keys ?r)")
    case True
    then have "snd (syncDayGhepProjection d) = ?p" using assms by (simp add: sync_projecting obj_kinds)
    moreover have "projected_keys ?p = projected_keys ?r" by (simp add: projected_keys_def rows_of_def keep)
    ultimately show ?thesis using w sc mp ra True by (simp add: keep pr)
  next
    case False
    let ?d = "jput (u ''dayGhepProjected'') (JArr (map JStr (sort (map fst (projections d))))) ?p"
    have "snd (syncDayGhepProjection d) = ?d" using False assms by (simp add: sync_projecting obj_kinds pr)
    moreover have "projected_keys ?d = sort (map fst (projections d))"
      by (simp add: projected_keys_def rows_of_def jget_jput o comp_def)
    moreover have "same_school d ?d" using sc jput_projected(1) [OF o] by (simp add: same_school_def)
    moreover have "sort (sort (map fst (projections d))) = sort (map fst (projections d))"
      by (rule sorted_sort_id [OF sorted_sort])
    ultimately show ?thesis using w mp ra by (simp add: jput_projected [OF o] jget_jput keep)
  qed
qed

lemma nothing_left:
  assumes "is_obj d" "mats d" "is_array (jprop d ''dayGhep'')" "list_all (written d) (projections d)"
    "sort (projected_keys d) = sort (map fst (projections d))"
  shows "syncDayGhepProjection d = (False, d)"
proof -
  have "set (projected_keys d) = fst ` set (projections d)" using assms(5) by (metis set_map set_sort)
  then have "gone_keys d = []" by (auto simp: gone_keys_def filter_empty_conv map_of_eq_None_iff)
  then have "projecting d = (False, d)" using assms(4) by (simp add: projecting_def project_all_again)
  then show ?thesis using assms by (simp add: sync_projecting obj_kinds tabled_done)
qed

lemma not_obj_projection:
  assumes "\<not> is_obj d"
  shows "syncDayGhepProjection d = (False, d)" "projections d = []" "projected_keys d = []"
proof -
  have j: "jget d k = JUndef" for k using assms by (cases d) auto
  have l: "dayGhepList x = [] \<Longrightarrow> projections x = []" for x by (simp add: projections_def)
  show p: "projections d = []" "projected_keys d = []" by (simp_all add: l dayGhepList_def projected_keys_def rows_of_def j)
  have "tabled d = d" using assms
    by (simp add: tabled_def ensure_rows_def make_matrices_def matrices_def jput_other)
  then show "syncDayGhepProjection d = (False, d)"
    using p by (cases "is_object d") (simp_all add: sync_projecting projecting_def gone_keys_def, simp add: syncDayGhepProjection_def)
qed

lemma all_projected:
  assumes "distinct (dayGhepOwnedKeySet d)" "list_all (\<lambda>e. dayGhepPeriods e > 0) (dayGhepList d)"
  shows "map fst (projections d) = concat (map (dayGhepKeys d) (dayGhepList d))"
proof -
  have add: "map fst (fold (add_new p) ks m) = map fst m @ ks" if "distinct (map fst m @ ks)" for p ks m
    using that by (induction ks arbitrary: m) (auto simp: add_new_def map_of_eq_None_iff)
  have "map fst (fold (\<lambda>e m. if dayGhepPeriods e = 0 then m else fold (add_new (projection_of d e)) (dayGhepKeys d e) m) es m)
      = map fst m @ concat (map (dayGhepKeys d) es)"
    if "distinct (map fst m @ concat (map (dayGhepKeys d) es))" "list_all (\<lambda>e. dayGhepPeriods e > 0) es" for es m
    using that
  proof (induction es arbitrary: m)
    case (Cons e es)
    have "map fst (fold (add_new (projection_of d e)) (dayGhepKeys d e) m) = map fst m @ dayGhepKeys d e"
      using Cons.prems(1) by (intro add) (simp, blast)
    note a = this
    have "distinct (map fst (fold (add_new (projection_of d e)) (dayGhepKeys d e) m) @ concat (map (dayGhepKeys d) es))"
      unfolding a using Cons.prems(1) by simp
    from Cons.IH [OF this] Cons.prems(2) show ?case by (simp add: a)
  qed simp
  moreover have "distinct (concat (map (dayGhepKeys d) (dayGhepList d)))"
    using assms(1) by (simp add: dayGhepOwnedKeySet_def distinct_map)
  ultimately show ?thesis using assms(2) by (simp add: projections_def)
qed

end
