(* ===== verification/DgProps.thy ===== *)
theory DgProps
  imports DgProj
begin

section \<open>Joint lessons: the properties\<close>

text \<open>
  What the two syncs of \<open>modules/day-ghep.js\<close> promise to the rest of the application.
\<close>

text \<open>
  C10: The search for an identity ends: whatever rows, subjects and keys there are, the identity given to a
  row is free (a text without a bar that no subject has, in full or in its short form, and whose keys are
  neither seen nor in the main assignment), and more attempts than the bound find nothing else.
\<close>

theorem identity_found:
  "dgIdentityFree d (dayGhepResolveIdentity d e seen) (dayGhepClasses e) seen
   \<and> free_from d classes seen (dgIdentityBase label) (taken_bound d classes seen + extra) 1
     = free_from d classes seen (dgIdentityBase label) (taken_bound d classes seen) 1"
proof -
  have "free_from d classes seen b (f + extra) k = free_from d classes seen b f k"
    if "\<exists>j \<in> {k..<k + f}. dgIdentityFree d (with_suffix b j) classes seen" for b f k
    using that
  proof (induction f arbitrary: k)
    case (Suc f)
    show ?case
    proof (cases "dgIdentityFree d (with_suffix b k) classes seen")
      case False
      then have "\<exists>j \<in> {Suc k..<Suc k + f}. dgIdentityFree d (with_suffix b j) classes seen"
        using Suc.prems by (metis Suc_leI add_Suc_shift atLeastLessThan_iff le_neq_implies_less)
      then show ?thesis using Suc.IH False by simp
    qed simp
  qed simp
  moreover have "\<exists>j \<in> {1..<1 + taken_bound d classes seen}. dgIdentityFree d (with_suffix (dgIdentityBase label) j) classes seen"
    using some_candidate_free [OF base_bar] by (auto simp: atLeastLessThanSuc_atLeastAtMost)
  ultimately show ?thesis using resolved_free by blast
qed

text \<open>
  C34: After \<open>syncDayGhepIntegrity\<close>, whatever the data were, no two entries of the joint lessons have the
  same key, in any case of the letters, every row has classes, periods and an identity that is not the
  name of a subject, and the projection takes in every one of them.
\<close>

theorem lessons_apart:
  "distinct (dayGhepOwnedKeySet (snd (syncDayGhepIntegrity cx d)))
   \<and> list_all (sound_row (snd (syncDayGhepIntegrity cx d))) (dayGhepList (snd (syncDayGhepIntegrity cx d)))
   \<and> map fst (projections (snd (syncDayGhepIntegrity cx d)))
     = concat (map (dayGhepKeys (snd (syncDayGhepIntegrity cx d))) (dayGhepList (snd (syncDayGhepIntegrity cx d))))"
proof -
  let ?d = "snd (syncDayGhepIntegrity cx d)"
  have s: "list_all (sound_row ?d) (dayGhepList ?d)" "distinct (dayGhepOwnedKeySet ?d)" using synced [of cx d] by blast+
  then have "list_all (\<lambda>e. dayGhepPeriods e > 0) (dayGhepList ?d)" by (simp add: list_all_iff sound_row_def)
  then show ?thesis using s all_projected by blast
qed

text \<open>
  C35: After \<open>syncDayGhepProjection\<close> every key of a row with periods carries the teachers, the periods and
  the limit of the row that owns it first, and no teacher when it has none; a key projected before that no
  row has any more is in none of the six tables; and a second run changes nothing.
\<close>

theorem projection_settles:
  "list_all (written (snd (syncDayGhepProjection d))) (projections d)
   \<and> list_all (absent (snd (syncDayGhepProjection d))) (filter (\<lambda>k. map_of (projections d) k = None) (projected_keys d))
   \<and> syncDayGhepProjection (snd (syncDayGhepProjection d)) = (False, snd (syncDayGhepProjection d))"
proof (cases "is_obj d")
  case True
  note p = projected [OF True]
  then have "projections (snd (syncDayGhepProjection d)) = projections d" using same_school_projections by blast
  then have "syncDayGhepProjection (snd (syncDayGhepProjection d)) = (False, snd (syncDayGhepProjection d))"
    using p by (intro nothing_left) (auto simp: mats_def)
  then show ?thesis using p by (simp add: gone_keys_def)
qed (simp add: not_obj_projection)

end
