(* ===== verification/AiSync.thy ===== *)
theory AiSync
  imports DgSync StStore
begin

section \<open>School data: referential integrity\<close>

text \<open>
  What \<open>app.js\<close> does with \<open>DATA\<close> whenever it is loaded, imported or taken over from another tab:
  \<open>ensureDataShape\<close> gives it its tables, \<open>syncDerivedDataIntegrity\<close> removes what refers to classes or
  subjects that are gone. \<open>DATA\<close> and its tables by lesson are objects (a table that is an array, which no
  code writes, is left as it is). Each step gives back whether something has changed and \<open>DATA\<close> changed.
\<close>

subsection \<open>Shape\<close>

definition ensure_lists :: "js \<Rightarrow> js" where
  "ensure_lists d = fold (\<lambda>k d. if is_array (jprop d k) then d else jput (u k) (JArr []) d)
     [''khoi'', ''lop'', ''giaovien'', ''monhoc'', ''mon'', ''phong''] d"

definition drop_fields :: "string list \<Rightarrow> js \<Rightarrow> js" where
  "drop_fields ks r = fold (\<lambda>k. jdel (u k)) ks r"

definition ensure_table :: "string \<Rightarrow> js \<Rightarrow> js" where
  "ensure_table k d = (if js_truthy (jprop d k) then d else jput (u k) (JObj []) d)"

definition ensureDataShape :: "js \<Rightarrow> js" where
  "ensureDataShape d =
     (let d1 = ensure_lists d;
          d2 = change_key ''lop'' (map_array (drop_fields [''buoi'', ''buoihoc'', ''session'', ''shift''])) d1;
          d3 = change_key ''monhoc'' (map_array (drop_fields [''giaoan''])) d2;
          d4 = jput (u ''pccmRoomMatrix'') (JObj []) (ensure_table ''pccmMatrix'' d3)
      in ensure_rows (ensure_table ''pccmGioihanMatrix'' (ensure_table ''pccmTietMatrix'' d4)))"

subsection \<open>Free periods of classes\<close>

definition availability_aliases :: "js \<Rightarrow> ustr list" where
  "availability_aliases d = filter (\<lambda>s. s \<noteq> []) (map (\<lambda>a. norm_low (JStr a)) (concat (map (\<lambda>l.
     concat (map legacyClassNameAliases [jprop l ''id'', jprop l ''ten'', jprop l ''ten2'', JStr (classCanonFromLop l)]))
     (filter is_object (rows_of d ''lop'')))))"

definition prune_keys :: "(ustr \<Rightarrow> js \<Rightarrow> bool) \<Rightarrow> js \<Rightarrow> tracked" where
  "prune_keys keep obj = (case obj of
     JObj kvs \<Rightarrow> (list_ex (\<lambda>(k, v). \<not> keep k v) kvs, JObj (filter (\<lambda>(k, v). keep k v) kvs)) | _ \<Rightarrow> (False, obj))"

definition pruneMap :: "ustr list \<Rightarrow> js \<Rightarrow> tracked" where
  "pruneMap valid current =
     (if nullish current then (False, current)
      else if \<not> is_object current \<or> is_array current then (True, JObj [])
      else prune_keys (\<lambda>k v. norm_low (JStr k) \<in> set valid) current)"

definition syncClassAvailabilityIntegrity :: "js \<Rightarrow> tracked" where
  "syncClassAvailabilityIntegrity d =
     (let valid = availability_aliases d; off = jprop d ''tkbUserOff''; fixed = jprop (jprop (jprop d ''tkbConstraints'') ''fixedOff'') ''class''
      in (fst (pruneMap valid off) \<or> fst (pruneMap valid fixed),
          change_key ''tkbConstraints'' (change_key ''fixedOff'' (change_key ''class'' (snd \<circ> pruneMap valid)))
            (change_key ''tkbUserOff'' (snd \<circ> pruneMap valid) d)))"

subsection \<open>The indexes\<close>

text \<open>Canonical names by alias (the last one wins), names and ids of the classes, aliases of the subjects, grades.\<close>

record ref_ix =
  ix_canon :: "(ustr \<times> ustr) list"
  ix_names :: "ustr list"
  ix_ids :: "ustr list"
  ix_mons :: "ustr list"
  ix_khoi :: "(ustr \<times> ustr) list"

definition canon_entries :: "js \<Rightarrow> js \<Rightarrow> (ustr \<times> ustr) list" where
  "canon_entries d l =
     (let c = classCanonFromLop l
      in if c = [] then []
         else filter (\<lambda>kc. fst kc \<noteq> []) (concat (map (\<lambda>v. map (\<lambda>a. (norm_low (JStr a), c)) (classLookupCandidates d v))
                [JStr c, jprop l ''ten'', jprop l ''ten2'', jprop l ''id''])))"

definition mon_aliases :: "js \<Rightarrow> ustr list" where
  "mon_aliases d = filter (\<lambda>s. s \<noteq> [])
     (concat (map (\<lambda>m. map (\<lambda>k. norm_low (jprop m k)) [''ten'', ''ma'', ''ma2'']) (rows_of d ''monhoc''))
      @ concat (map (\<lambda>m. map (\<lambda>s. norm_low (JStr s)) [mo_key m, mo_ten m, mo_code m, mo_ma m, mo_ma2 m]) (buildPCCMMonList d)))"

definition khoi_of_row :: "js \<Rightarrow> ustr" where
  "khoi_of_row l = first_text [norm_text (jprop l ''khoi''), u ''Kh'' @ [7889] @ u ''i '' @ khoi_number (classCanonFromLop l)]"

definition ref_index :: "js \<Rightarrow> ref_ix" where
  "ref_index d =
     (let lops = rows_of d ''lop''
      in \<lparr>ix_canon = rev (concat (map (canon_entries d) lops)), ix_names = filter (\<lambda>s. s \<noteq> []) (map classCanonFromLop lops),
          ix_ids = filter (\<lambda>s. s \<noteq> []) (map (\<lambda>l. js_string (jprop l ''id'')) lops), ix_mons = mon_aliases d,
          ix_khoi = rev (map (\<lambda>l. (classCanonFromLop l, khoi_of_row l)) (filter (\<lambda>l. classCanonFromLop l \<noteq> []) lops))\<rparr>)"

subsection \<open>Keys of lessons\<close>

definition canonical_key :: "ref_ix \<Rightarrow> ustr \<Rightarrow> ustr option" where
  "canonical_key ix k =
     (if 124 \<notin> set k then None
      else case map_of (ix_canon ix) (norm_low (JStr (class_part k))) of None \<Rightarrow> None
        | Some c \<Rightarrow> (let m = norm_text (JStr (subject_part k)) in if m = [] then None else Some (c @ [124] @ m)))"

definition canonical_step :: "ref_ix \<Rightarrow> ustr \<Rightarrow> js \<Rightarrow> js" where
  "canonical_step ix k obj =
     (case canonical_key ix k of None \<Rightarrow> jdel k obj
      | Some k' \<Rightarrow> if k' = k then obj
                 else jdel k (if norm_text (jget obj k') = [] then jput k' (jget obj k) obj else obj))"

definition normalizeClassSubjectKeys :: "ref_ix \<Rightarrow> js \<Rightarrow> tracked" where
  "normalizeClassSubjectKeys ix obj =
     (if is_array obj then (False, obj)
      else (list_ex (\<lambda>kv. canonical_key ix (fst kv) \<noteq> Some (fst kv)) (entries obj),
            fold (canonical_step ix) (map fst (entries obj)) obj))"

definition keep_key :: "js \<Rightarrow> ref_ix \<Rightarrow> ustr list \<Rightarrow> ustr \<Rightarrow> bool" where
  "keep_key d ix owned k \<longleftrightarrow> toLowerCase k \<in> set owned
     \<or> 124 \<in> set k \<and> list_ex (\<lambda>c. c \<in> set (ix_names ix)) (classLookupCandidates d (JStr (class_part k)))
       \<and> norm_low (JStr (subject_part k)) \<in> set (ix_mons ix)"

subsection \<open>Periods that only repeat the standard\<close>

definition findPccmMonObj :: "js \<Rightarrow> ustr \<Rightarrow> js option" where
  "findPccmMonObj d monKey = (let k = norm_low (JStr monKey)
     in find (\<lambda>m. list_ex (\<lambda>f. norm_low (jprop m f) \<noteq> [] \<and> norm_low (jprop m f) = k) [''ten'', ''ma'', ''ma2'', ''id'']) (rows_of d ''monhoc''))"

definition sameNumber :: "js \<Rightarrow> js \<Rightarrow> bool" where
  "sameNumber a b = (case (js_number a, js_number b) of (Some x, Some y) \<Rightarrow> \<bar>x - y\<bar> < 1 / 1000000 | _ \<Rightarrow> False)"

definition text_or :: "js \<Rightarrow> ustr" where
  "text_or v = js_string (js_or v (JStr []))"

definition standard_row :: "js \<Rightarrow> ref_ix \<Rightarrow> ustr list \<Rightarrow> ustr \<Rightarrow> js option" where
  "standard_row d ix owned k =
     (let cls = norm_text (JStr (class_part k)); mon = norm_text (JStr (subject_part k))
      in if toLowerCase k \<in> set owned \<or> 124 \<notin> set k \<or> cls = [] \<or> mon = [] then None
         else case map_of (ix_khoi ix) cls of None \<Rightarrow> None
           | Some khoi \<Rightarrow> (case findPccmMonObj d mon of
               Some m \<Rightarrow> lookupTietChuan d khoi (text_or (jprop m ''ten'')) (text_or (jprop m ''key'')) (text_or (jprop m ''ma2''))
             | None \<Rightarrow> lookupTietChuan d khoi mon mon []))"

definition repeats_periods :: "js \<Rightarrow> ref_ix \<Rightarrow> ustr list \<Rightarrow> ustr \<Rightarrow> js \<Rightarrow> bool" where
  "repeats_periods d ix owned k v = (case standard_row d ix owned k of None \<Rightarrow> False | Some r \<Rightarrow> sameNumber v (jprop r ''sotiet''))"

definition repeats_limit :: "js \<Rightarrow> ref_ix \<Rightarrow> ustr list \<Rightarrow> ustr \<Rightarrow> js \<Rightarrow> bool" where
  "repeats_limit d ix owned k v = (case standard_row d ix owned k of None \<Rightarrow> False
     | Some r \<Rightarrow> sameNumber v (js_or (jprop r ''gioihan'') (JNum 1)))"

subsection \<open>The whole sync\<close>

text \<open>A step on one of the tables; emptying a table that is not empty.\<close>

definition on_table :: "string \<Rightarrow> (js \<Rightarrow> tracked) \<Rightarrow> tracked \<Rightarrow> tracked" where
  "on_table k f fd = (fst fd \<or> fst (f (jprop (snd fd) k)), change_key k (snd \<circ> f) (snd fd))"

definition clearObjIfNotEmpty :: "string \<Rightarrow> tracked \<Rightarrow> tracked" where
  "clearObjIfNotEmpty k fd = (if entries (jprop (snd fd) k) \<noteq> [] then (True, jput (u k) (JObj []) (snd fd)) else fd)"

definition healed :: "js \<Rightarrow> js \<Rightarrow> js" where
  "healed d v = (let h = pccmNormalizeTeacherValue d v in if h \<noteq> [] then JStr h else v)"

definition heal_teachers :: "js \<Rightarrow> js \<Rightarrow> tracked" where
  "heal_teachers d obj = (case obj of
     JObj kvs \<Rightarrow> (list_ex (\<lambda>kv. healed d (snd kv) \<noteq> snd kv) kvs, JObj (map (\<lambda>(k, v). (k, healed d v)) kvs)) | _ \<Rightarrow> (False, obj))"

definition positive_number :: "js \<Rightarrow> bool" where
  "positive_number v = (case string_number (trim (js_string v)) of Some q \<Rightarrow> q > 0 | None \<Rightarrow> False)"

definition clean_tables :: "js \<Rightarrow> ref_ix \<Rightarrow> ustr list \<Rightarrow> tracked \<Rightarrow> tracked" where
  "clean_tables d ix owned =
     on_table ''pccmGioihanMatrix'' (prune_keys (\<lambda>k v. keep_key d ix owned k \<and> positive_number v))
   \<circ> on_table ''pccmTietMatrix'' (prune_keys (\<lambda>k v. keep_key d ix owned k \<and> positive_number v))
   \<circ> on_table ''pccmRoomMatrix'' (prune_keys (\<lambda>k v. keep_key d ix owned k \<and> norm_text v \<noteq> []))
   \<circ> on_table ''pccmMatrix'' (prune_keys (\<lambda>k v. keep_key d ix owned k \<and> pccmTeacherListFromValue d v \<noteq> []))
   \<circ> on_table ''pccmMatrix'' (heal_teachers d)
   \<circ> on_table ''pccmGioihanMatrix'' (prune_keys (\<lambda>k v. \<not> repeats_limit d ix owned k v))
   \<circ> on_table ''pccmTietMatrix'' (prune_keys (\<lambda>k v. \<not> repeats_periods d ix owned k v))
   \<circ> on_table ''pccmGioihanMatrix'' (normalizeClassSubjectKeys ix)
   \<circ> on_table ''pccmTietMatrix'' (normalizeClassSubjectKeys ix)
   \<circ> on_table ''pccmRoomMatrix'' (normalizeClassSubjectKeys ix)
   \<circ> on_table ''pccmMatrix'' (normalizeClassSubjectKeys ix)"

definition has_rows :: "js \<Rightarrow> string \<Rightarrow> bool" where
  "has_rows d k \<longleftrightarrow> rows_of d k \<noteq> []"

definition has_core :: "js \<Rightarrow> bool" where
  "has_core d \<longleftrightarrow> has_rows d ''monhoc'' \<and> has_rows d ''lop'' \<and> has_rows d ''giaovien''"

definition sync_assignments :: "ref_ix \<Rightarrow> tracked \<Rightarrow> tracked" where
  "sync_assignments ix fd =
     (if \<not> has_core (snd fd)
      then (let fd1 = fold clearObjIfNotEmpty [''pccmMatrix'', ''pccmRoomMatrix'', ''pccmTietMatrix'', ''pccmGioihanMatrix''] fd;
                (c, d2) = syncDayGhepIntegrity \<lparr>cx_core = False, cx_classes = None, cx_mons = None\<rparr> (snd fd1)
            in (fst fd1 \<or> c, d2))
      else (let (c, d1) = syncDayGhepIntegrity \<lparr>cx_core = True, cx_classes = Some (ix_canon ix), cx_mons = Some (ix_mons ix)\<rparr> (snd fd)
            in clean_tables d1 ix (dayGhepOwnedKeySet d1) (fst fd \<or> c, d1)))"

definition sync_standard :: "ref_ix \<Rightarrow> tracked \<Rightarrow> tracked" where
  "sync_standard ix fd =
     (let rows = rows_of (snd fd) ''mon'';
          kept = (if has_rows (snd fd) ''monhoc'' \<and> has_rows (snd fd) ''lop''
                  then filter (\<lambda>r. norm_low (jprop r ''ten'') \<in> set (ix_mons ix)) rows else [])
      in if rows = [] then fd
         else (fst fd \<or> length kept \<noteq> length rows, jput (u ''mon'') (JArr kept) (snd fd)))"

definition sync_timetable :: "ref_ix \<Rightarrow> tracked \<Rightarrow> tracked" where
  "sync_timetable ix fd =
     (if \<not> has_rows (snd fd) ''lop'' then clearObjIfNotEmpty ''tkb'' fd
      else on_table ''tkb'' (prune_keys (\<lambda>k v. k \<in> set (ix_ids ix)))
             (if is_object (jprop (snd fd) ''tkb'') then fd else (fst fd, jput (u ''tkb'') (JObj []) (snd fd))))"

definition sync_references :: "js \<Rightarrow> tracked" where
  "sync_references d =
     (let fd1 = syncClassAvailabilityIntegrity d; ix = ref_index (snd fd1);
          fd2 = sync_timetable ix (sync_standard ix (sync_assignments ix fd1));
          fd3 = syncDayGhepProjection (snd fd2)
      in (fst fd2 \<or> fst fd3, snd fd3))"

definition syncDerivedDataIntegrity :: "js \<Rightarrow> tracked" where
  "syncDerivedDataIntegrity d =
     (let fd0 = normalizeUnicodeNFC nfc d; fd = sync_references (snd fd0) in (fst fd0 \<or> fst fd, snd fd))"

text \<open>Taking over the data of an import or of another tab; the page is drawn again afterwards.\<close>

definition appAdoptRemoteData :: "js \<Rightarrow> js" where
  "appAdoptRemoteData remote = snd (syncDerivedDataIntegrity (ensureDataShape remote))"

end
