(* ===== verification/AiOk.thy ===== *)
theory AiOk
  imports AiSync DgProj
begin

section \<open>School data: what the sync keeps\<close>

text \<open>
  None of the steps changes classes, subjects or teachers, so the indexes stay the ones of the result; what
  is pruned stays pruned.
\<close>

subsection \<open>The lists of classes, subjects and teachers\<close>

definition same_lists :: "js \<Rightarrow> js \<Rightarrow> bool" where
  "same_lists d d' \<longleftrightarrow> is_obj d' = is_obj d \<and> rows_of d' ''lop'' = rows_of d ''lop''
     \<and> rows_of d' ''monhoc'' = rows_of d ''monhoc'' \<and> rows_of d' ''giaovien'' = rows_of d ''giaovien''"

lemma same_lists_refl [simp]: "same_lists d d"
  by (simp add: same_lists_def)

lemma same_lists_trans: "same_lists d e \<Longrightarrow> same_lists e f \<Longrightarrow> same_lists d f"
  by (simp add: same_lists_def)

lemma same_lists_change: "k \<notin> {''lop'', ''monhoc'', ''giaovien''} \<Longrightarrow> same_lists d (change_key k f d)"
  by (auto simp: same_lists_def rows_of_def jget_change_other)

lemma same_lists_jput: "k \<notin> {''lop'', ''monhoc'', ''giaovien''} \<Longrightarrow> same_lists d (jput (u k) x d)"
  by (auto simp: same_lists_def rows_of_def jget_jput)

lemma same_lists_table: "k \<notin> {''lop'', ''monhoc'', ''giaovien''} \<Longrightarrow> same_lists (snd fd) (snd (on_table k f fd))"
  by (simp add: on_table_def same_lists_change)

lemma same_lists_clear: "k \<notin> {''lop'', ''monhoc'', ''giaovien''} \<Longrightarrow> same_lists (snd fd) (snd (clearObjIfNotEmpty k fd))"
  by (simp add: clearObjIfNotEmpty_def same_lists_jput)

lemma same_lists_rows: "same_rows d d' \<Longrightarrow> same_lists d d'"
  by (simp add: same_rows_def same_lists_def rows_of_def)

lemma same_lists_cong:
  assumes "same_lists d d'"
  shows "classLookupCandidates d' = classLookupCandidates d" "ref_index d' = ref_index d" "keep_key d' = keep_key d"
    "availability_aliases d' = availability_aliases d" "pccmTeacherListFromValue d' = pccmTeacherListFromValue d"
    "has_core d' = has_core d" "has_rows d' ''lop'' = has_rows d ''lop''" "has_rows d' ''monhoc'' = has_rows d ''monhoc''"
proof -
  have l: "rows_of d' ''lop'' = rows_of d ''lop''" and m: "rows_of d' ''monhoc'' = rows_of d ''monhoc''"
    and g: "rows_of d' ''giaovien'' = rows_of d ''giaovien''" using assms by (simp_all add: same_lists_def)
  show c: "classLookupCandidates d' = classLookupCandidates d" by (rule ext) (simp only: classLookupCandidates_def l)
  have "canon_entries d' = canon_entries d" unfolding canon_entries_def c ..
  moreover have "mon_aliases d' = mon_aliases d" by (simp add: mon_aliases_def buildPCCMMonList_def m)
  ultimately show "ref_index d' = ref_index d" unfolding ref_index_def by (simp add: l)
  show "keep_key d' = keep_key d" by (intro ext) (simp add: keep_key_def c)
  show "availability_aliases d' = availability_aliases d" by (simp add: availability_aliases_def l)
  have "resolveTeacherCode d' = resolveTeacherCode d" by (intro ext) (simp only: resolveTeacherCode_def Let_def g)
  then show "pccmTeacherListFromValue d' = pccmTeacherListFromValue d" by (intro ext) (simp add: pccmTeacherListFromValue_def)
  show "has_core d' = has_core d" "has_rows d' ''lop'' = has_rows d ''lop''" "has_rows d' ''monhoc'' = has_rows d ''monhoc''"
    by (simp_all add: has_core_def has_rows_def l m g)
qed

lemma healed_cong: "same_lists d d' \<Longrightarrow> healed d' = healed d"
  by (intro ext) (simp add: healed_def pccmNormalizeTeacherValue_def same_lists_cong)

subsection \<open>The steps\<close>

lemma availability_lists: "same_lists d (snd (syncClassAvailabilityIntegrity d))"
  unfolding syncClassAvailabilityIntegrity_def Let_def snd_conv
  by (rule same_lists_trans [OF same_lists_change same_lists_change]) auto

lemma ghep_lists: "same_lists d (snd (syncDayGhepIntegrity cx d))"
proof -
  have j: "same_lists d (jput (u ''dayGhep'') x e)" if "same_lists d e" for x e
    using same_lists_trans [OF that same_lists_jput] by simp
  have "sync_inv d (sync_rows cx es \<lparr>gs_data = d, gs_seen = [], gs_past = [], gs_kept = [], gs_changed = False\<rparr>)" for es
    by (rule sync_rows_inv) (simp add: sync_inv_def)
  then have "same_lists d (gs_data (sync_rows cx es \<lparr>gs_data = d, gs_seen = [], gs_past = [], gs_kept = [], gs_changed = False\<rparr>))" for es
    by (simp add: sync_inv_def same_lists_rows)
  then show ?thesis by (simp add: syncDayGhepIntegrity_def Let_def ensure_rows_def j)
qed

lemma clean_lists: "same_lists (snd fd) (snd (clean_tables d ix owned fd))"
proof -
  have s: "same_lists (snd fd) (snd (on_table k f gd))" if "same_lists (snd fd) (snd gd)" "k \<notin> {''lop'', ''monhoc'', ''giaovien''}" for k f gd
    using same_lists_trans [OF that(1) same_lists_table [OF that(2)]] .
  show ?thesis unfolding clean_tables_def comp_def by (intro s) simp_all
qed

lemma assignments_lists: "same_lists (snd fd) (snd (sync_assignments ix fd))"
proof (cases "has_core (snd fd)")
  case True
  obtain c d1 where g: "syncDayGhepIntegrity \<lparr>cx_core = True, cx_classes = Some (ix_canon ix), cx_mons = Some (ix_mons ix)\<rparr> (snd fd) = (c, d1)"
    by fastforce
  have "same_lists (snd fd) d1" using ghep_lists [of "snd fd"] by (metis g snd_conv)
  then have "same_lists (snd fd) (snd (clean_tables d1 ix (dayGhepOwnedKeySet d1) (fst fd \<or> c, d1)))"
    using clean_lists [of "(fst fd \<or> c, d1)"] by (auto intro: same_lists_trans)
  with True show ?thesis by (simp add: sync_assignments_def g)
next
  case False
  let ?fd = "fold clearObjIfNotEmpty [''pccmMatrix'', ''pccmRoomMatrix'', ''pccmTietMatrix'', ''pccmGioihanMatrix''] fd"
  have c: "same_lists (snd fd) (snd (fold clearObjIfNotEmpty ks fd))" if "set ks \<inter> {''lop'', ''monhoc'', ''giaovien''} = {}" for ks fd
    using that
  proof (induction ks arbitrary: fd)
    case (Cons k ks)
    have "same_lists (snd fd) (snd (clearObjIfNotEmpty k fd))" by (rule same_lists_clear) (use Cons.prems in auto)
    with Cons show ?case by (simp add: same_lists_trans)
  qed simp
  have "same_lists (snd fd) (snd ?fd)" by (rule c) simp
  with False show ?thesis using same_lists_trans [OF _ ghep_lists] by (simp only: sync_assignments_def case_prod_beta Let_def if_True not_False_eq_True snd_conv)
qed

lemma standard_lists: "same_lists (snd fd) (snd (sync_standard ix fd))"
  by (simp add: sync_standard_def Let_def same_lists_jput)

lemma timetable_lists: "same_lists (snd fd) (snd (sync_timetable ix fd))"
proof -
  have "same_lists (snd fd) (snd (on_table ''tkb'' f (b, jput (u ''tkb'') (JObj []) (snd fd))))" for f b
  proof -
    have "same_lists (snd fd) (jput (u ''tkb'') (JObj []) (snd fd))" by (rule same_lists_jput) simp
    moreover have "same_lists (jput (u ''tkb'') (JObj []) (snd fd)) (snd (on_table ''tkb'' f (b, jput (u ''tkb'') (JObj []) (snd fd))))"
      using same_lists_table [of "''tkb''" "(b, jput (u ''tkb'') (JObj []) (snd fd))" f] by simp
    ultimately show ?thesis by (rule same_lists_trans)
  qed
  then show ?thesis by (simp add: sync_timetable_def same_lists_clear same_lists_table)
qed

lemma projection_lists: "same_lists d (snd (syncDayGhepProjection d))"
proof (cases "is_obj d")
  case True
  have "same_lists d (tabled d)"
    by (simp add: tabled_def ensure_rows_def make_matrices_def matrices_def same_lists_def rows_of_def jget_jput)
  moreover have "same_lists e (snd (projecting e))" for e
    using projecting_tables_only [of e] by (simp add: tables_only_def same_lists_def rows_of_def lesson_tables_def matrices_def)
  ultimately have "same_lists d (snd (projecting (tabled d)))" by (blast intro: same_lists_trans)
  then show ?thesis using True same_lists_trans [OF _ same_lists_jput] by (simp add: sync_projecting obj_kinds)
qed (simp add: not_obj_projection)

text \<open>The states the sync runs through.\<close>

definition after_assignments :: "js \<Rightarrow> tracked" where
  "after_assignments d = (let fd = syncClassAvailabilityIntegrity d in sync_assignments (ref_index (snd fd)) fd)"

definition after_timetable :: "js \<Rightarrow> tracked" where
  "after_timetable d = (let ix = ref_index (snd (syncClassAvailabilityIntegrity d))
     in sync_timetable ix (sync_standard ix (after_assignments d)))"

lemma references_states: "snd (sync_references d) = snd (syncDayGhepProjection (snd (after_timetable d)))"
  by (simp add: sync_references_def after_timetable_def after_assignments_def Let_def)

lemma states_lists: "same_lists d (snd (after_assignments d))" "same_lists d (snd (after_timetable d))" "same_lists d (snd (sync_references d))"
proof -
  show a: "same_lists d (snd (after_assignments d))"
    unfolding after_assignments_def Let_def by (rule same_lists_trans [OF availability_lists assignments_lists])
  then show t: "same_lists d (snd (after_timetable d))"
    unfolding after_timetable_def Let_def by (blast intro: same_lists_trans standard_lists timetable_lists)
  show "same_lists d (snd (sync_references d))"
    unfolding references_states by (rule same_lists_trans [OF t projection_lists])
qed

subsection \<open>Tables stay pruned\<close>

definition all_keys :: "(ustr \<Rightarrow> bool) \<Rightarrow> js \<Rightarrow> bool" where
  "all_keys P v \<longleftrightarrow> (case v of JObj kvs \<Rightarrow> list_all (\<lambda>(k, x). P k) kvs | _ \<Rightarrow> True)"

lemma all_keys_mono: "all_keys P v \<Longrightarrow> (\<And>k. P k \<Longrightarrow> Q k) \<Longrightarrow> all_keys Q v"
  by (auto simp: all_keys_def list_all_iff split: js.splits)

lemma all_keys_has: "all_keys P v \<Longrightarrow> is_obj v \<Longrightarrow> has_key k v \<Longrightarrow> P k"
  by (cases v) (auto simp: all_keys_def has_key_def list_all_iff)

lemma all_keysI: "(\<And>k. is_obj v \<Longrightarrow> has_key k v \<Longrightarrow> P k) \<Longrightarrow> all_keys P v"
  by (cases v) (force simp: all_keys_def has_key_def list_all_iff)+

lemma all_keys_prune: "(\<And>k v. keep k v \<Longrightarrow> P k) \<Longrightarrow> all_keys P (snd (prune_keys keep obj))"
  by (cases obj) (auto simp: all_keys_def prune_keys_def list_all_iff)

lemma all_keys_map: "all_keys P obj \<Longrightarrow> all_keys P (snd (prune_keys keep obj))"
  by (cases obj) (auto simp: all_keys_def prune_keys_def list_all_iff)

lemma pruneMap_keys: "all_keys (\<lambda>k. norm_low (JStr k) \<in> set valid) (snd (pruneMap valid obj))"
  by (cases obj) (auto simp: pruneMap_def all_keys_def prune_keys_def list_all_iff)

lemma change_get:
  "jprop (change_key k f d) k = (if is_obj d \<and> has_key (u k) d then f (jprop d k) else jprop d k)"
  by (simp add: jget_change_key has_key_def)

lemma all_keys_undef [simp]: "all_keys P JUndef"
  by (simp add: all_keys_def)

lemma change_at:
  assumes "\<And>v. Q (f v)" and "Q JUndef"
  shows "Q (jprop (change_key k f d) k)"
proof (cases "is_obj d \<and> has_key (u k) d")
  case False
  then have "jprop d k = JUndef" by (cases "is_obj d") (simp add: has_key_jget, cases d, auto)
  with False assms(2) show ?thesis by (simp only: change_get if_False)
qed (simp add: change_get assms(1))

lemma all_keys_change: "(\<And>v. all_keys P (f v)) \<Longrightarrow> all_keys P (jprop (change_key k f d) k)"
  by (rule change_at) simp_all

lemma table_keys: "(\<And>v. all_keys P (snd (f v))) \<Longrightarrow> all_keys P (jprop (snd (on_table k f fd)) k)"
  by (simp add: on_table_def all_keys_change)

lemma table_other: "k \<noteq> k' \<Longrightarrow> jprop (snd (on_table k f fd)) k' = jprop (snd fd) k'"
  by (simp add: on_table_def jget_change_other)

lemma clean_keys:
  assumes "t \<in> set matrices \<or> t = ''pccmRoomMatrix''"
  shows "all_keys (keep_key d ix owned) (jprop (snd (clean_tables d ix owned fd)) t)"
proof -
  have p: "all_keys (keep_key d ix owned) (snd (prune_keys (\<lambda>k v. keep_key d ix owned k \<and> Q v) v))" for Q v
    by (rule all_keys_prune) simp
  note g = table_other [of "''pccmGioihanMatrix''" "''pccmMatrix''", simplified] table_other [of "''pccmGioihanMatrix''" "''pccmTietMatrix''", simplified]
  note t = table_other [of "''pccmTietMatrix''" "''pccmMatrix''", simplified] table_other [of "''pccmRoomMatrix''" "''pccmMatrix''", simplified]
  note r = table_other [of "''pccmGioihanMatrix''" "''pccmRoomMatrix''", simplified] table_other [of "''pccmTietMatrix''" "''pccmRoomMatrix''", simplified]
  have "all_keys (keep_key d ix owned) (jprop (snd (clean_tables d ix owned fd)) ''pccmGioihanMatrix'')"
    unfolding clean_tables_def comp_def by (rule table_keys) (rule p)
  moreover have "all_keys (keep_key d ix owned) (jprop (snd (clean_tables d ix owned fd)) ''pccmTietMatrix'')"
    unfolding clean_tables_def comp_def g by (rule table_keys) (rule p)
  moreover have "all_keys (keep_key d ix owned) (jprop (snd (clean_tables d ix owned fd)) ''pccmMatrix'')"
    unfolding clean_tables_def comp_def g t by (rule table_keys) (rule p)
  moreover have "all_keys (keep_key d ix owned) (jprop (snd (clean_tables d ix owned fd)) ''pccmRoomMatrix'')"
    unfolding clean_tables_def comp_def r by (rule table_keys) (rule p)
  ultimately show ?thesis using assms by (auto simp: matrices_def)
qed

text \<open>The projection adds keys of joint lessons only.\<close>

lemma has_key_change:
  assumes "l \<noteq> k"
  shows "has_key l (jprop (change_key f (jdel k) d) f') = has_key l (jprop d f')"
    "has_key l (jprop (change_key f (jput k x) d) f') = has_key l (jprop d f')"
proof -
  have "has_key l (jdel k v) = has_key l v" "has_key l (jput k x v) = has_key l v" for v
    using assms by (cases v; auto simp: has_key_def jdel_def dom_update)+
  then show "has_key l (jprop (change_key f (jdel k) d) f') = has_key l (jprop d f')"
    "has_key l (jprop (change_key f (jput k x) d) f') = has_key l (jprop d f')" by (simp_all add: jget_change_key)
qed

lemma project_has_key: "l \<noteq> fst kp \<Longrightarrow> has_key l (jprop (snd (project_one kp fd)) f') = has_key l (jprop (snd fd) f')"
  by (simp add: project_one_def project_teacher_def project_shown_def Let_def put_in_def del_in_def has_key_change)

lemma project_all_has_key: "l \<notin> fst ` set new \<Longrightarrow> has_key l (jprop (snd (fold project_one new fd)) f') = has_key l (jprop (snd fd) f')"
  by (induction new arbitrary: fd) (auto simp: project_has_key)

lemma del_has_key: "has_key l (jprop (snd (del_in k f fd)) f') \<Longrightarrow> has_key l (jprop (snd fd) f')"
proof (cases "l = k")
  case True
  assume "has_key l (jprop (snd (del_in k f fd)) f')"
  then show ?thesis using True by (cases "f' = f") (auto simp: del_in_def jget_change_other split: if_splits)
next
  case False
  assume "has_key l (jprop (snd (del_in k f fd)) f')"
  then show ?thesis using has_key_change(1) [OF False] by (simp add: del_in_def split: if_splits)
qed

lemma fold_fewer:
  assumes "\<And>x fd. Q (f x fd) \<Longrightarrow> Q fd"
  shows "Q (fold f xs fd) \<Longrightarrow> Q fd"
proof (induction xs arbitrary: fd)
  case (Cons x xs)
  from Cons.IH [of "f x fd"] Cons.prems show ?case by (simp add: assms)
qed simp

lemma del_all_has_key:
  "has_key l (jprop (snd (fold (\<lambda>k. fold (del_in k) fs) ks fd)) f) \<Longrightarrow> has_key l (jprop (snd fd) f)"
proof -
  have t: "has_key l (jprop (snd (fold (del_in k) fs fd)) f) \<Longrightarrow> has_key l (jprop (snd fd) f)" for k fd
    by (rule fold_fewer [where Q = "\<lambda>fd. has_key l (jprop (snd fd) f)"]) (rule del_has_key)
  show "has_key l (jprop (snd (fold (\<lambda>k. fold (del_in k) fs) ks fd)) f) \<Longrightarrow> has_key l (jprop (snd fd) f)"
    by (rule fold_fewer [where Q = "\<lambda>fd. has_key l (jprop (snd fd) f)"]) (rule t)
qed

lemma obj_change: "is_obj (f (jprop d k)) = is_obj (jprop d k) \<Longrightarrow> is_obj (jprop (change_key k f d) l) = is_obj (jprop d l)"
  by (cases "k = l") (auto simp: change_get jget_change_other)

lemma is_obj_del: "is_obj (jprop (snd (del_in k f fd)) l) = is_obj (jprop (snd fd) l)"
  by (simp add: del_in_def obj_change)

lemma is_obj_put: "is_obj (jprop (snd (put_in k f v fd)) l) = is_obj (jprop (snd fd) l)"
  by (simp add: put_in_def obj_change)

lemma is_obj_project: "is_obj (jprop (snd (project_one kp fd)) l) = is_obj (jprop (snd fd) l)"
proof -
  have t: "is_obj (jprop (snd (project_teacher k gv fd)) l) = is_obj (jprop (snd fd) l)" for k gv fd
    by (simp add: project_teacher_def Let_def is_obj_put is_obj_del obj_change)
  have "is_obj (jprop (snd (project_shown k f s fd)) l) = is_obj (jprop (snd fd) l)" for k f s fd
    by (simp add: project_shown_def is_obj_put)
  with t show ?thesis by (simp only: project_one_def Let_def)
qed

lemma projecting_obj: "is_obj (jprop (snd (projecting e)) l) \<Longrightarrow> is_obj (jprop e l)"
proof -
  have d: "is_obj (jprop (snd (fold (del_in k) fs fd)) l) = is_obj (jprop (snd fd) l)" for k fs fd
    by (induction fs arbitrary: fd) (simp_all add: is_obj_del)
  have g: "is_obj (jprop (snd (fold (\<lambda>k. fold (del_in k) fs) ks fd)) l) = is_obj (jprop (snd fd) l)" for fs ks fd
    by (induction ks arbitrary: fd) (simp_all add: d)
  have "is_obj (jprop (snd (fold project_one ps fd)) l) = is_obj (jprop (snd fd) l)" for ps fd
    by (induction ps arbitrary: fd) (simp_all add: is_obj_project)
  then show "is_obj (jprop (snd (projecting e)) l) \<Longrightarrow> is_obj (jprop e l)" by (simp add: projecting_def g)
qed

lemma tabled_table: "t \<in> set matrices \<or> t = ''pccmRoomMatrix'' \<Longrightarrow> all_keys P (jprop d t) \<Longrightarrow> is_obj d \<Longrightarrow> all_keys P (jprop (tabled d) t)"
  by (auto simp: tabled_def ensure_rows_def make_matrices_def matrices_def jget_jput all_keys_def)

lemma projection_keys:
  assumes "is_obj d" "t \<in> set matrices \<or> t = ''pccmRoomMatrix''" "all_keys P (jprop d t)"
  shows "all_keys (\<lambda>k. P k \<or> k \<in> fst ` set (projections d)) (jprop (snd (syncDayGhepProjection d)) t)"
proof -
  let ?p = "snd (projecting (tabled d))"
  have pr: "projections (tabled d) = projections d" by (rule same_school_projections [OF tabled_school])
  have "P k \<or> k \<in> fst ` set (projections d)" if o: "is_obj (jprop ?p t)" and "has_key k (jprop ?p t)" for k
  proof (rule disjCI)
    assume "k \<notin> fst ` set (projections d)"
    then have "has_key k (jprop (snd (fold (\<lambda>k. fold (del_in k) lesson_tables) (gone_keys (tabled d)) (False, tabled d))) t)"
      using that project_all_has_key by (simp add: projecting_def pr)
    then have "has_key k (jprop (tabled d) t)" using del_all_has_key by fastforce
    then show "P k" by (rule all_keys_has [OF tabled_table [OF assms(2,3,1)] projecting_obj [OF o]])
  qed
  then have "all_keys (\<lambda>k. P k \<or> k \<in> fst ` set (projections d)) (jprop ?p t)" by (rule all_keysI)
  moreover have "t \<noteq> ''dayGhepProjected''" using assms(2) by (auto simp: matrices_def)
  ultimately show ?thesis using assms(1) by (simp add: sync_projecting obj_kinds jget_jput)
qed

lemma projections_owned: "k \<in> fst ` set (projections d) \<Longrightarrow> toLowerCase k \<in> set (dayGhepOwnedKeySet d)"
proof -
  have a: "k \<in> fst ` set (fold (add_new p) ks m) \<Longrightarrow> k \<in> fst ` set m \<union> set ks" for p ks m
  proof (induction ks arbitrary: m)
    case (Cons l ks)
    have "fst ` set (add_new p l m) \<subseteq> insert l (fst ` set m)" by (auto simp: add_new_def)
    moreover have "k \<in> fst ` set (add_new p l m) \<union> set ks" by (rule Cons.IH) (use Cons.prems in simp)
    ultimately show ?case by auto
  qed simp
  have "k \<in> fst ` set m \<or> (\<exists>e \<in> set es. k \<in> set (dayGhepKeys d e))"
    if "k \<in> fst ` set (fold (\<lambda>e m. if dayGhepPeriods e = 0 then m else fold (add_new (projection_of d e)) (dayGhepKeys d e) m) es m)" for es m
    using that
  proof (induction es arbitrary: m)
    case (Cons e es)
    show ?case
    proof (cases "dayGhepPeriods e = 0")
      case True
      with Cons show ?thesis by auto
    next
      case False
      with Cons.prems Cons.IH [of "fold (add_new (projection_of d e)) (dayGhepKeys d e) m"] a [of "projection_of d e" "dayGhepKeys d e" m]
      show ?thesis by auto
    qed
  qed simp
  from this [of "dayGhepList d" "[]"]
  show "k \<in> fst ` set (projections d) \<Longrightarrow> toLowerCase k \<in> set (dayGhepOwnedKeySet d)"
    by (auto simp: projections_def dayGhepOwnedKeySet_def)
qed

subsection \<open>References\<close>

definition refs_ok :: "js \<Rightarrow> bool" where
  "refs_ok d \<longleftrightarrow>
     list_all (\<lambda>t. all_keys (keep_key d (ref_index d) (dayGhepOwnedKeySet d)) (jprop d t)) matrices
     \<and> all_keys (\<lambda>k. k \<in> set (ix_ids (ref_index d))) (jprop d ''tkb'')
     \<and> list_all (\<lambda>r. norm_low (jprop r ''ten'') \<in> set (ix_mons (ref_index d))) (rows_of d ''mon'')
     \<and> all_keys (keep_key d (ref_index d) (dayGhepOwnedKeySet d)) (jprop d ''pccmRoomMatrix'')
     \<and> all_keys (\<lambda>k. norm_low (JStr k) \<in> set (availability_aliases d)) (jprop d ''tkbUserOff'')
     \<and> all_keys (\<lambda>k. norm_low (JStr k) \<in> set (availability_aliases d))
          (jprop (jprop (jprop d ''tkbConstraints'') ''fixedOff'') ''class'')"

text \<open>Lists of joint lessons and tables that a later step leaves alone.\<close>

lemma table_frame: "l \<noteq> u k \<Longrightarrow> jget (snd (on_table k f fd)) l = jget (snd fd) l"
  by (simp add: on_table_def jget_change_other)

lemma clear_frame: "l \<noteq> u k \<Longrightarrow> jget (snd (clearObjIfNotEmpty k fd)) l = jget (snd fd) l"
  by (simp add: clearObjIfNotEmpty_def jget_jput)

lemma clear_empty: "all_keys P (jprop (snd (clearObjIfNotEmpty k fd)) k)"
proof (cases "entries (jprop (snd fd) k) = []")
  case True
  then show ?thesis by (cases "jprop (snd fd) k") (auto simp: clearObjIfNotEmpty_def all_keys_def)
next
  case False
  then have "is_obj (snd fd)" by (cases "snd fd") auto
  with False show ?thesis by (simp add: clearObjIfNotEmpty_def all_keys_def jget_jput)
qed

lemma standard_frame: "l \<noteq> u ''mon'' \<Longrightarrow> jget (snd (sync_standard ix fd)) l = jget (snd fd) l"
  by (simp add: sync_standard_def Let_def jget_jput)

lemma timetable_frame: "l \<noteq> u ''tkb'' \<Longrightarrow> jget (snd (sync_timetable ix fd)) l = jget (snd fd) l"
  by (simp add: sync_timetable_def clear_frame table_frame jget_jput)

lemma clean_frame: "l \<notin> u ` {''pccmMatrix'', ''pccmRoomMatrix'', ''pccmTietMatrix'', ''pccmGioihanMatrix''}
    \<Longrightarrow> jget (snd (clean_tables d ix owned fd)) l = jget (snd fd) l"
  by (simp add: clean_tables_def table_frame)

lemma standard_rows:
  "list_all (\<lambda>r. norm_low (jprop r ''ten'') \<in> set (ix_mons ix)) (rows_of (snd (sync_standard ix fd)) ''mon'')"
proof (cases "rows_of (snd fd) ''mon'' = []")
  case False
  then have "is_obj (snd fd)" by (cases "snd fd") (auto simp: rows_of_def)
  with False show ?thesis by (simp add: sync_standard_def Let_def rows_of_def jget_jput list_all_iff)
qed (simp add: sync_standard_def)

lemma timetable_keys: "all_keys (\<lambda>k. k \<in> set (ix_ids ix)) (jprop (snd (sync_timetable ix fd)) ''tkb'')"
  by (auto simp: sync_timetable_def intro: clear_empty table_keys all_keys_prune)

lemma owned_cong: "same_school d d' \<Longrightarrow> dayGhepOwnedKeySet d' = dayGhepOwnedKeySet d"
  using same_school_names [of d d'] by (simp add: dayGhepOwnedKeySet_def same_school_def)

lemma same_school_trans: "same_school d e \<Longrightarrow> same_school e f \<Longrightarrow> same_school d f"
  by (simp add: same_school_def)

lemma same_schoolI: "same_lists d d' \<Longrightarrow> jprop d' ''dayGhep'' = jprop d ''dayGhep'' \<Longrightarrow> same_school d d'"
  by (simp add: same_lists_def same_school_def dayGhepList_def rows_of_def)

lemma projection_school: "same_school d (snd (syncDayGhepProjection d))"
proof (cases "is_obj d")
  case True
  then show ?thesis using projected by blast
qed (simp add: not_obj_projection same_school_def)

lemma after_school: "same_school (snd (after_assignments d)) (snd (after_timetable d))"
proof (rule same_schoolI)
  show "same_lists (snd (after_assignments d)) (snd (after_timetable d))"
    unfolding after_timetable_def Let_def by (blast intro: same_lists_trans standard_lists timetable_lists)
  show "jprop (snd (after_timetable d)) ''dayGhep'' = jprop (snd (after_assignments d)) ''dayGhep''"
    by (simp add: after_timetable_def Let_def timetable_frame standard_frame)
qed

lemma ghep_tables: "l \<notin> {u ''tkb'', u ''tkbLessonTeachers'', u ''tkbLessonRooms'', u ''dayGhep''}
    \<Longrightarrow> jget (snd (syncDayGhepIntegrity cx d)) l = jget d l"
proof -
  assume l: "l \<notin> {u ''tkb'', u ''tkbLessonTeachers'', u ''tkbLessonRooms'', u ''dayGhep''}"
  have "sync_inv d (sync_rows cx es \<lparr>gs_data = d, gs_seen = [], gs_past = [], gs_kept = [], gs_changed = False\<rparr>)" for es
    by (rule sync_rows_inv) (simp add: sync_inv_def)
  then have "same_rows d (gs_data (sync_rows cx es \<lparr>gs_data = d, gs_seen = [], gs_past = [], gs_kept = [], gs_changed = False\<rparr>))" for es
    by (simp add: sync_inv_def)
  with l show ?thesis by (simp add: syncDayGhepIntegrity_def Let_def ensure_rows_def jget_jput same_rows_def)
qed

lemma assignments_frame:
  assumes "l \<notin> u ` ({''tkb'', ''dayGhep''} \<union> set lesson_tables)"
  shows "jget (snd (sync_assignments ix fd)) l = jget (snd fd) l"
  using assms by (simp add: sync_assignments_def case_prod_beta Let_def clean_frame clear_frame ghep_tables lesson_tables_def matrices_def)

lemma projection_frame:
  assumes "l \<notin> u ` ({''dayGhep'', ''dayGhepProjected''} \<union> set lesson_tables)"
  shows "jget (snd (syncDayGhepProjection d)) l = jget d l"
proof (cases "is_obj d")
  case True
  have "jget (tabled d) l = jget d l"
    using assms by (simp add: tabled_def ensure_rows_def make_matrices_def matrices_def lesson_tables_def jget_jput)
  moreover have "jget (snd (projecting e)) l = jget e l" for e
    using projecting_tables_only [of e] assms by (simp add: tables_only_def)
  ultimately show ?thesis using True assms by (simp add: sync_projecting obj_kinds jget_jput)
qed (simp add: not_obj_projection)

lemma assignment_keys:
  assumes "t \<in> set matrices \<or> t = ''pccmRoomMatrix''"
  shows "all_keys (keep_key d (ref_index d) (dayGhepOwnedKeySet (snd (after_assignments d)))) (jprop (snd (after_assignments d)) t)"
proof -
  let ?fd = "syncClassAvailabilityIntegrity d"
  have ix: "ref_index (snd ?fd) = ref_index d" by (rule same_lists_cong(2) [OF availability_lists])
  show ?thesis
  proof (cases "has_core (snd ?fd)")
    case True
    obtain c d1 where g: "syncDayGhepIntegrity \<lparr>cx_core = True, cx_classes = Some (ix_canon (ref_index d)), cx_mons = Some (ix_mons (ref_index d))\<rparr> (snd ?fd) = (c, d1)"
      by fastforce
    have l: "same_lists d d1"
      using same_lists_trans [OF availability_lists ghep_lists] g by (metis snd_conv)
    let ?r = "clean_tables d1 (ref_index d) (dayGhepOwnedKeySet d1) (fst ?fd \<or> c, d1)"
    have r: "after_assignments d = ?r" using True by (simp add: after_assignments_def Let_def sync_assignments_def ix g)
    have "same_school d1 (snd ?r)"
      using clean_lists [of "(fst ?fd \<or> c, d1)" d1] by (intro same_schoolI) (simp_all add: clean_frame)
    then have "dayGhepOwnedKeySet (snd ?r) = dayGhepOwnedKeySet d1" by (rule owned_cong)
    then show ?thesis using clean_keys [OF assms, of d1 "ref_index d" "dayGhepOwnedKeySet d1" "(fst ?fd \<or> c, d1)"]
      by (simp add: r same_lists_cong(3) [OF l])
  next
    case False
    define fd1 where "fd1 = fold clearObjIfNotEmpty [''pccmMatrix'', ''pccmRoomMatrix'', ''pccmTietMatrix'', ''pccmGioihanMatrix''] ?fd"
    have "all_keys P (jprop (snd fd1) t)" for P
    proof -
      have "t = ''pccmMatrix'' \<or> t = ''pccmTietMatrix'' \<or> t = ''pccmGioihanMatrix'' \<or> t = ''pccmRoomMatrix''" using assms by (auto simp: matrices_def)
      then show ?thesis by (elim disjE) (simp_all add: fd1_def clear_frame clear_empty)
    qed
    moreover have "jprop (snd (after_assignments d)) t = jprop (snd fd1) t"
      using False assms by (auto simp: after_assignments_def Let_def sync_assignments_def case_prod_beta ghep_tables matrices_def fd1_def)
    ultimately show ?thesis by simp
  qed
qed

text \<open>The constraint that closes cells of classes, two tables deep.\<close>

lemma fixed_off_keys:
  "all_keys (\<lambda>k. norm_low (JStr k) \<in> set (availability_aliases d))
     (jprop (jprop (jprop (snd (syncClassAvailabilityIntegrity d)) ''tkbConstraints'') ''fixedOff'') ''class'')"
proof -
  let ?P = "\<lambda>k. norm_low (JStr k) \<in> set (availability_aliases d)"
  have "all_keys ?P (jprop (change_key ''class'' (snd \<circ> pruneMap (availability_aliases d)) v) ''class'')" for v
    by (rule all_keys_change) (simp add: pruneMap_keys)
  then have "all_keys ?P (jprop (jprop (change_key ''fixedOff'' (change_key ''class'' (snd \<circ> pruneMap (availability_aliases d))) v) ''fixedOff'') ''class'')" for v
    by (rule change_at [where Q = "\<lambda>x. all_keys ?P (jprop x ''class'')"]) simp
  then show ?thesis unfolding syncClassAvailabilityIntegrity_def Let_def snd_conv
    by (rule change_at [where Q = "\<lambda>x. all_keys ?P (jprop (jprop x ''fixedOff'') ''class'')"]) simp
qed

lemma references: "refs_ok (snd (sync_references d))"
proof -
  let ?t = "snd (after_timetable d)" and ?r = "snd (sync_references d)"
  note l = states_lists(3) [of d]
  have s: "same_school (snd (after_assignments d)) ?t" "same_school ?t ?r"
    using after_school projection_school by (simp_all add: references_states)
  then have o: "dayGhepOwnedKeySet ?r = dayGhepOwnedKeySet (snd (after_assignments d))" "dayGhepOwnedKeySet ?r = dayGhepOwnedKeySet ?t"
    using owned_cong by metis+
  have "all_keys (keep_key ?r (ref_index ?r) (dayGhepOwnedKeySet ?r)) (jprop ?r t)"
    if t: "t \<in> set matrices \<or> t = ''pccmRoomMatrix''" for t
  proof (cases "is_obj ?t")
    case False
    then have "jprop ?r t = JUndef" by (cases ?t) (auto simp: references_states not_obj_projection)
    then show ?thesis by (simp add: all_keys_def)
  next
    case True
    have "u t \<noteq> u ''mon''" "u t \<noteq> u ''tkb''" using t by (auto simp: matrices_def)
    then have "jprop ?t t = jprop (snd (after_assignments d)) t"
      by (simp add: after_timetable_def Let_def standard_frame timetable_frame)
    then have "all_keys (keep_key d (ref_index d) (dayGhepOwnedKeySet ?r)) (jprop ?t t)"
      using assignment_keys [OF t, of d] by (simp add: o(1))
    from projection_keys [OF True t this]
    have "all_keys (\<lambda>k. keep_key d (ref_index d) (dayGhepOwnedKeySet ?r) k \<or> k \<in> fst ` set (projections ?t)) (jprop ?r t)"
      by (simp add: references_states)
    then show ?thesis
      unfolding same_lists_cong(2,3) [OF l]
    proof (rule all_keys_mono)
      fix k
      assume "keep_key d (ref_index d) (dayGhepOwnedKeySet ?r) k \<or> k \<in> fst ` set (projections ?t)"
      then show "keep_key d (ref_index d) (dayGhepOwnedKeySet ?r) k"
      proof
        assume "k \<in> fst ` set (projections ?t)"
        then have "toLowerCase k \<in> set (dayGhepOwnedKeySet ?r)" unfolding o(2) by (rule projections_owned)
        then show ?thesis unfolding keep_key_def by blast
      qed
    qed
  qed
  moreover have "all_keys (\<lambda>k. k \<in> set (ix_ids (ref_index ?r))) (jprop ?r ''tkb'')"
  proof -
    have "jprop ?r ''tkb'' = jprop ?t ''tkb''" by (simp add: references_states projection_frame lesson_tables_def matrices_def)
    then show ?thesis using timetable_keys [of "ref_index d"]
      by (simp add: same_lists_cong(2) [OF l] after_timetable_def Let_def same_lists_cong(2) [OF availability_lists])
  qed
  moreover have "list_all (\<lambda>r. norm_low (jprop r ''ten'') \<in> set (ix_mons (ref_index ?r))) (rows_of ?r ''mon'')"
  proof -
    have "rows_of ?r ''mon'' = rows_of (snd (sync_standard (ref_index d) (after_assignments d))) ''mon''"
      by (simp add: references_states projection_frame lesson_tables_def matrices_def rows_of_def after_timetable_def Let_def timetable_frame same_lists_cong(2) [OF availability_lists])
    then show ?thesis using standard_rows by (simp add: same_lists_cong(2) [OF l])
  qed
  moreover have "all_keys (\<lambda>k. norm_low (JStr k) \<in> set (availability_aliases ?r)) (jprop ?r ''tkbUserOff'')"
  proof -
    have "jprop ?r ''tkbUserOff'' = jprop (snd (syncClassAvailabilityIntegrity d)) ''tkbUserOff''"
      by (simp add: references_states projection_frame lesson_tables_def matrices_def after_timetable_def after_assignments_def Let_def timetable_frame standard_frame assignments_frame)
    moreover have "all_keys (\<lambda>k. norm_low (JStr k) \<in> set (availability_aliases d)) (jprop (snd (syncClassAvailabilityIntegrity d)) ''tkbUserOff'')"
      by (simp add: syncClassAvailabilityIntegrity_def Let_def jget_change_other all_keys_change pruneMap_keys)
    ultimately show ?thesis by (simp add: same_lists_cong(4) [OF l])
  qed
  moreover have "all_keys (\<lambda>k. norm_low (JStr k) \<in> set (availability_aliases ?r))
      (jprop (jprop (jprop ?r ''tkbConstraints'') ''fixedOff'') ''class'')"
  proof -
    have "jprop ?r ''tkbConstraints'' = jprop (snd (syncClassAvailabilityIntegrity d)) ''tkbConstraints''"
      by (simp add: references_states projection_frame lesson_tables_def matrices_def after_timetable_def after_assignments_def Let_def timetable_frame standard_frame assignments_frame)
    then show ?thesis using fixed_off_keys [of d] by (simp add: same_lists_cong(4) [OF l])
  qed
  ultimately show ?thesis by (simp only: refs_ok_def list_all_iff) blast
qed

end
