(* ===== verification/AiProps.thy ===== *)
theory AiProps
  imports AiOk
begin

section \<open>School data: what the sync does not lose\<close>

text \<open>
  An assignment of an existing class and subject survives the sync, whoever the teachers are: it moves to
  the canonical key of its class, and the value is only rewritten with the codes of the teachers that are
  known.
\<close>

lemma table_at: "jprop (snd fd) k \<noteq> JUndef \<Longrightarrow> jprop (snd (on_table k f fd)) k = snd (f (jprop (snd fd) k))"
proof -
  assume "jprop (snd fd) k \<noteq> JUndef"
  then have "is_obj (snd fd) \<and> has_key (u k) (snd fd)" using has_key_jget [of "u k" "snd fd"] by (metis is_obj.elims(3) jget.simps)
  then show ?thesis by (simp add: on_table_def change_get)
qed

lemma canonical_step_obj: "is_obj obj \<Longrightarrow> is_obj (canonical_step ix k obj)"
  by (simp add: canonical_step_def split: option.split)

text \<open>
  A value that is not blank lands under the key \<open>c\<close>: it is there already, or \<open>c\<close> is canonical and its key
  \<open>k\<close> is the only one of the table that moves to \<open>c\<close>.
\<close>

definition lands :: "ref_ix \<Rightarrow> js \<Rightarrow> ustr \<Rightarrow> ustr \<Rightarrow> bool" where
  "lands ix obj k c \<longleftrightarrow> canonical_key ix k = Some c \<and> canonical_key ix c = Some c
     \<and> (k = c \<or> list_all (\<lambda>kv. canonical_key ix (fst kv) = Some c \<longrightarrow> fst kv = k) (entries obj))"

lemma canonical_step_keeps:
  assumes "jget obj k = v" "norm_text v \<noteq> []" "canonical_key ix k = Some k \<or> k \<noteq> l" "is_obj obj"
  shows "jget (canonical_step ix l obj) k = v"
  using assms by (cases "l = k") (auto simp: canonical_step_def jget_jdel jget_jput split: option.split)

lemma canonical_step_absent:
  assumes "jget obj c = JUndef" "canonical_key ix l \<noteq> Some c" "is_obj obj"
  shows "jget (canonical_step ix l obj) c = JUndef"
  using assms by (auto simp: canonical_step_def jget_jdel jget_jput split: option.split)

lemma canonical_step_moves:
  assumes "canonical_key ix k = Some c" "k \<noteq> c" "jget obj c = JUndef" "is_obj obj"
  shows "jget (canonical_step ix k obj) c = jget obj k"
  using assms by (simp add: canonical_step_def jget_jdel jget_jput)

lemma canonical_lands:
  assumes "norm_text v \<noteq> []" "canonical_key ix k = Some c" "canonical_key ix c = Some c"
  shows "is_obj obj \<Longrightarrow> jget obj c = v
      \<or> k \<in> set ks \<and> jget obj k = v \<and> jget obj c = JUndef \<and> (\<forall>l \<in> set ks. canonical_key ix l = Some c \<longrightarrow> l = k)
    \<Longrightarrow> is_obj (fold (canonical_step ix) ks obj) \<and> jget (fold (canonical_step ix) ks obj) c = v"
proof (induction ks arbitrary: obj)
  case (Cons l ks)
  let ?o = "canonical_step ix l obj"
  have o: "is_obj ?o" by (rule canonical_step_obj [OF Cons.prems(1)])
  note kept = canonical_step_keeps [OF _ assms(1) _ Cons.prems(1)]
  from Cons.prems(2) have "jget ?o c = v
      \<or> k \<in> set ks \<and> jget ?o k = v \<and> jget ?o c = JUndef \<and> (\<forall>l \<in> set ks. canonical_key ix l = Some c \<longrightarrow> l = k)"
  proof
    assume "jget obj c = v"
    then show ?thesis using kept [of c ix l] assms(3) by simp
  next
    assume p: "k \<in> set (l # ks) \<and> jget obj k = v \<and> jget obj c = JUndef \<and> (\<forall>l \<in> set (l # ks). canonical_key ix l = Some c \<longrightarrow> l = k)"
    then have kc: "k \<noteq> c" using assms(1) by auto
    show ?thesis
    proof (cases "l = k")
      case True
      have "jget (canonical_step ix k obj) c = jget obj k"
        by (rule canonical_step_moves [OF assms(2) kc _ Cons.prems(1)]) (use p in blast)
      then have "jget ?o c = v" using p True by blast
      then show ?thesis ..
    next
      case False
      have "canonical_key ix l \<noteq> Some c" using p False by auto
      from canonical_step_absent [OF _ this Cons.prems(1)] have "jget ?o c = JUndef" using p by blast
      moreover have "jget ?o k = v" by (rule kept) (use p False in auto)
      moreover have "k \<in> set ks \<and> (\<forall>l \<in> set ks. canonical_key ix l = Some c \<longrightarrow> l = k)" using p False by simp
      ultimately show ?thesis by blast
    qed
  qed
  from Cons.IH [OF o this] show ?case by simp
qed simp

lemma canonical_keeps:
  assumes "jget obj k = v" "norm_text v \<noteq> []" "lands ix obj k c" "is_obj obj"
  shows "is_obj (snd (normalizeClassSubjectKeys ix obj)) \<and> jget (snd (normalizeClassSubjectKeys ix obj)) c = v"
proof -
  have ne: "jget obj k \<noteq> JUndef" using assms(1,2) by auto
  have "jget obj c = v \<or> k \<in> set (map fst (entries obj)) \<and> jget obj k = v \<and> jget obj c = JUndef
      \<and> (\<forall>l \<in> set (map fst (entries obj)). canonical_key ix l = Some c \<longrightarrow> l = k)"
  proof (cases "k = c")
    case False
    have keys: "jget obj l \<noteq> JUndef \<Longrightarrow> l \<in> set (map fst (entries obj))" for l
      using has_key_jget [of l obj] by (auto simp: has_key_def)
    have u: "\<forall>l \<in> set (map fst (entries obj)). canonical_key ix l = Some c \<longrightarrow> l = k"
      using assms(3) False by (auto simp: lands_def list_all_iff)
    then have "jget obj c = JUndef" using keys [of c] assms(3) False by (auto simp: lands_def)
    with keys [OF ne] u assms(1) show ?thesis by blast
  qed (use assms(1) in simp)
  from canonical_lands [OF assms(2) _ _ assms(4) this] assms(3,4) show ?thesis
    by (simp add: normalizeClassSubjectKeys_def obj_kinds lands_def)
qed

lemma heal_at: "is_obj obj \<Longrightarrow> has_key k obj \<Longrightarrow> is_obj (snd (heal_teachers d obj)) \<and> jget (snd (heal_teachers d obj)) k = healed d (jget obj k)"
proof (cases obj)
  case (JObj kvs)
  assume "has_key k obj"
  then have "map_of kvs k \<noteq> None" by (auto simp: JObj has_key_def map_of_eq_None_iff)
  moreover have "map_of (map (\<lambda>(k, v). (k, healed d v)) kvs) k = map_option (healed d) (map_of kvs k)"
    by (induction kvs) auto
  ultimately show ?thesis by (auto simp: JObj heal_teachers_def)
qed auto

lemma prune_at: "is_obj obj \<Longrightarrow> jget obj k \<noteq> JUndef \<Longrightarrow> keep k (jget obj k) \<Longrightarrow> jget (snd (prune_keys keep obj)) k = jget obj k"
proof (cases obj)
  case (JObj kvs)
  have "map_of (filter (\<lambda>(k, v). keep k v) kvs) k = Some x" if "map_of kvs k = Some x" "keep k x" for x
    using that by (induction kvs) (auto split: if_splits)
  then show "jget obj k \<noteq> JUndef \<Longrightarrow> keep k (jget obj k) \<Longrightarrow> jget (snd (prune_keys keep obj)) k = jget obj k"
    by (auto simp: JObj prune_keys_def split: option.splits)
qed auto

lemma clean_keeps:
  assumes "jget (jprop (snd fd) ''pccmMatrix'') k = v" "norm_text v \<noteq> []" "lands ix (jprop (snd fd) ''pccmMatrix'') k c"
    and "keep_key d ix owned c" "pccmTeacherListFromValue d (healed d v) \<noteq> []"
  shows "jget (jprop (snd (clean_tables d ix owned fd)) ''pccmMatrix'') c = healed d v"
proof -
  let ?P = "''pccmMatrix''"
  let ?n = "snd (normalizeClassSubjectKeys ix (jprop (snd fd) ?P))" and ?keep = "\<lambda>k v. keep_key d ix owned k \<and> pccmTeacherListFromValue d v \<noteq> []"
  note frames = table_other [of "''pccmGioihanMatrix''" ?P, simplified] table_other [of "''pccmTietMatrix''" ?P, simplified]
    table_other [of "''pccmRoomMatrix''" ?P, simplified]
  have v: "v \<noteq> JUndef" using assms(2) by auto
  then have o: "is_obj (jprop (snd fd) ?P)" using assms(1) by (cases "jprop (snd fd) ?P") auto
  note n = canonical_keeps [OF assms(1-3) o]
  then have hk: "has_key c ?n" using v has_key_jget by metis
  note h = heal_at [OF conjunct1 [OF n] hk, of d]
  have hn: "healed d v \<noteq> JUndef" using v by (auto simp: healed_def Let_def)
  have "jget (snd (prune_keys ?keep (snd (heal_teachers d ?n)))) c = healed d v"
    using prune_at [of "snd (heal_teachers d ?n)" c ?keep] h n hn assms(4,5) by simp
  moreover have "jprop (snd (clean_tables d ix owned fd)) ?P = snd (prune_keys ?keep (snd (heal_teachers d ?n)))"
  proof -
    have ne: "jprop (snd fd) ?P \<noteq> JUndef" "?n \<noteq> JUndef" "snd (heal_teachers d ?n) \<noteq> JUndef" using o n h by auto
    define x where "x = on_table ''pccmGioihanMatrix'' (prune_keys (\<lambda>k v. \<not> repeats_limit d ix owned k v))
      (on_table ''pccmTietMatrix'' (prune_keys (\<lambda>k v. \<not> repeats_periods d ix owned k v))
      (on_table ''pccmGioihanMatrix'' (normalizeClassSubjectKeys ix) (on_table ''pccmTietMatrix'' (normalizeClassSubjectKeys ix)
      (on_table ''pccmRoomMatrix'' (normalizeClassSubjectKeys ix) (on_table ?P (normalizeClassSubjectKeys ix) fd)))))"
    have x: "jprop (snd x) ?P = ?n" unfolding x_def frames by (rule table_at [OF ne(1)])
    have y: "jprop (snd (on_table ?P (heal_teachers d) x)) ?P = snd (heal_teachers d ?n)"
      using table_at [of x ?P "heal_teachers d"] ne(2) by (simp only: x not_False_eq_True simp_thms)
    have "jprop (snd (on_table ?P (prune_keys ?keep) (on_table ?P (heal_teachers d) x))) ?P = snd (prune_keys ?keep (snd (heal_teachers d ?n)))"
      using table_at [of "on_table ?P (heal_teachers d) x" ?P "prune_keys ?keep"] ne(3) by (simp only: y not_False_eq_True simp_thms)
    then show ?thesis unfolding clean_tables_def comp_def frames x_def .
  qed
  ultimately show ?thesis by simp
qed

lemma projection_keeps:
  assumes "k \<notin> fst ` set (projections d)" "k \<notin> set (projected_keys d)"
  shows "jget (jprop (snd (syncDayGhepProjection d)) ''pccmMatrix'') k = jget (jprop d ''pccmMatrix'') k"
proof (cases "is_obj d")
  case True
  let ?r = "tabled d" and ?P = "''pccmMatrix''"
  have pr: "projections ?r = projections d" by (rule same_school_projections [OF tabled_school])
  have k: "k \<notin> set (gone_keys ?r)" using assms(2) by (simp add: gone_keys_def tabled_projected)
  have "jget (jprop (snd (projecting ?r)) ?P) k = jget (jprop (snd (fold (\<lambda>k. fold (del_in k) lesson_tables) (gone_keys ?r) (False, ?r))) ?P) k"
    unfolding projecting_def pr using assms(1) by (intro same_at_parts [OF same_at_fold] same_at_project tables) auto
  also have "\<dots> = jget (jprop ?r ?P) k" using jget_del_all [OF tables(1)] k by simp
  also have "\<dots> = jget (jprop d ?P) k"
    using True by (cases "jprop d ?P") (auto simp: tabled_def ensure_rows_def make_matrices_def matrices_def jget_jput)
  finally show ?thesis using True by (simp add: sync_projecting obj_kinds jget_jput)
qed (simp add: not_obj_projection)

text \<open>
  There are classes, subjects and teachers; the class and the subject of the key exist, its value names
  teachers and lands under \<open>c\<close>.
\<close>

definition valid_assignment :: "js \<Rightarrow> ustr \<Rightarrow> ustr \<Rightarrow> js \<Rightarrow> bool" where
  "valid_assignment d k c v \<longleftrightarrow> has_core d \<and> lands (ref_index d) (jprop d ''pccmMatrix'') k c \<and> keep_key d (ref_index d) [] c
     \<and> jget (jprop d ''pccmMatrix'') k = v \<and> norm_text v \<noteq> [] \<and> pccmTeacherListFromValue d (healed d v) \<noteq> []"

lemma assignment_survives:
  assumes "valid_assignment d k c v" "map_of (projections (snd (sync_references d))) c = None" "c \<notin> set (projected_keys d)"
  shows "jget (jprop (snd (sync_references d)) ''pccmMatrix'') c = healed d v"
proof -
  let ?fd = "syncClassAvailabilityIntegrity d" and ?t = "snd (after_timetable d)"
  have ix: "ref_index (snd ?fd) = ref_index d" by (rule same_lists_cong(2) [OF availability_lists])
  obtain b d1 where g: "syncDayGhepIntegrity \<lparr>cx_core = True, cx_classes = Some (ix_canon (ref_index d)), cx_mons = Some (ix_mons (ref_index d))\<rparr> (snd ?fd) = (b, d1)"
    by fastforce
  have l: "same_lists d d1" using same_lists_trans [OF availability_lists ghep_lists] g by (metis snd_conv)
  have core: "has_core (snd ?fd)" using assms(1) same_lists_cong(6) [OF availability_lists] by (simp add: valid_assignment_def)
  have r: "after_assignments d = clean_tables d1 (ref_index d) (dayGhepOwnedKeySet d1) (fst ?fd \<or> b, d1)"
    using core by (simp add: after_assignments_def Let_def sync_assignments_def ix g)
  have "jprop (snd (syncDayGhepIntegrity cx (snd ?fd))) ''pccmMatrix'' = jprop (snd ?fd) ''pccmMatrix''" for cx
    by (rule ghep_tables) simp
  then have "jprop d1 ''pccmMatrix'' = jprop (snd ?fd) ''pccmMatrix''" using g by (metis snd_conv)
  also have "\<dots> = jprop d ''pccmMatrix''" by (simp add: syncClassAvailabilityIntegrity_def Let_def jget_change_other)
  finally have p: "jprop d1 ''pccmMatrix'' = jprop d ''pccmMatrix''" .
  have "keep_key d1 (ref_index d) (dayGhepOwnedKeySet d1) c"
    using assms(1) same_lists_cong(3) [OF l] by (auto simp: valid_assignment_def keep_key_def)
  then have "jget (jprop (snd (after_assignments d)) ''pccmMatrix'') c = healed d1 v"
    unfolding r using assms(1) p same_lists_cong(5) [OF l] healed_cong [OF l]
    by (intro clean_keeps) (auto simp: valid_assignment_def)
  then have t: "jget (jprop ?t ''pccmMatrix'') c = healed d v"
    by (simp add: after_timetable_def Let_def standard_frame timetable_frame healed_cong [OF l])
  have "projections (snd (sync_references d)) = projections ?t"
    unfolding references_states by (rule same_school_projections [OF projection_school])
  then have "c \<notin> fst ` set (projections ?t)" using assms(2) by (simp add: map_of_eq_None_iff)
  moreover have "projected_keys ?t = projected_keys d"
    by (simp add: projected_keys_def rows_of_def after_timetable_def after_assignments_def Let_def timetable_frame standard_frame
        assignments_frame lesson_tables_def matrices_def syncClassAvailabilityIntegrity_def jget_change_other)
  ultimately show ?thesis using projection_keeps [of c ?t] assms(3) t by (simp add: references_states)
qed

subsection \<open>The properties\<close>

text \<open>
  C5: After every sync, whatever was loaded, imported or taken over from another tab, the data refer to
  existing things only: every key of the assignment, of its rooms, of the periods and of the limits belongs
  to a joint lesson or names an existing class and subject, every stored timetable belongs to an existing
  class, every standard names an existing subject, and the cells closed for classes, by the user and by the
  constraint \<open>fixedOff\<close>, are those of existing classes.
\<close>

theorem references_sound:
  "refs_ok (snd (syncDerivedDataIntegrity d)) \<and> refs_ok (appAdoptRemoteData d)"
  by (simp add: syncDerivedDataIntegrity_def appAdoptRemoteData_def Let_def references)

text \<open>
  C26: The sync loses no assignment of an existing class and subject to teachers who are not in the list.
  Let the normalized data have classes, subjects and teachers, and an assignment of an existing class and
  subject that names somebody, under any alias of the class, that lands under the canonical key \<open>c\<close>: it is
  there already, or is the only one of the table that moves there. Unless a joint lesson owns \<open>c\<close> after
  the sync or has owned it before, the synced data hold the value under \<open>c\<close>, rewritten only by the codes of
  the teachers it names.
\<close>

theorem assignment_kept:
  assumes "e = snd (normalizeUnicodeNFC nfc d)" and "valid_assignment e k c v"
    and "map_of (projections (snd (syncDerivedDataIntegrity d))) c = None" and "c \<notin> set (projected_keys e)"
  shows "jget (jprop (snd (syncDerivedDataIntegrity d)) ''pccmMatrix'') c = healed e v"
  using assignment_survives [OF assms(2)] assms(1,3,4) by (simp add: syncDerivedDataIntegrity_def Let_def)

definition small_school :: js where
  "small_school = JObj [
     (u ''lop'', JArr [JObj [(u ''id'', JStr (u ''c1'')), (u ''ten'', JStr (u ''6/1'')), (u ''khoi'', JStr (u ''6''))]]),
     (u ''monhoc'', JArr [JObj [(u ''ten'', JStr (u ''Music'')), (u ''ma'', JStr (u ''MU''))]]),
     (u ''giaovien'', JArr [JObj [(u ''magv'', JStr (u ''GV1'')), (u ''hodem'', JStr (u ''An'')), (u ''ten'', JStr (u ''Binh''))]]),
     (u ''pccmMatrix'', JObj [(u ''c1|MU'', JStr (u ''An Binh, guest'')), (u ''9/9|MU'', JStr (u ''GV1''))])]"

lemma assignment_kept_witness:
  "jget (jprop (snd (syncDerivedDataIntegrity small_school)) ''pccmMatrix'') (u ''6/1|MU'') = JStr (u ''GV1, guest'')"
proof -
  have "valid_assignment (snd (normalizeUnicodeNFC nfc small_school)) (u ''c1|MU'') (u ''6/1|MU'') (JStr (u ''An Binh, guest''))"
    by code_simp
  moreover have "map_of (projections (snd (syncDerivedDataIntegrity small_school))) (u ''6/1|MU'') = None" by code_simp
  moreover have "u ''6/1|MU'' \<notin> set (projected_keys (snd (normalizeUnicodeNFC nfc small_school)))" by code_simp
  ultimately have "jget (jprop (snd (syncDerivedDataIntegrity small_school)) ''pccmMatrix'') (u ''6/1|MU'')
      = healed (snd (normalizeUnicodeNFC nfc small_school)) (JStr (u ''An Binh, guest''))"
    by (rule assignment_kept [OF refl])
  moreover have "healed (snd (normalizeUnicodeNFC nfc small_school)) (JStr (u ''An Binh, guest'')) = JStr (u ''GV1, guest'')"
    by code_simp
  ultimately show ?thesis by simp
qed

end
