(* ===== verification/PmNames.thy ===== *)
theory PmNames
  imports AiSync
begin

section \<open>Timetable page: names, teachers and rooms\<close>

text \<open>
  How \<open>pages/phanmon.js\<close> recognises classes, subjects and teachers, who teaches a subject in a class and
  where, and the clean-up of the data before every save. The page has its own versions of most look-ups of
  \<open>app.js\<close>; they differ in details and are modelled on their own. \<open>d\<close> is \<open>DATA\<close>. The caches are
  transparent and left out, and tables that are arrays are not followed.
\<close>

subsection \<open>Texts and classes\<close>

text \<open>\<open>tkbNFC(v).trim()\<close>, \<open>normKey\<close>, \<open>(v == null ? "" : String(v)).trim()\<close>.\<close>

definition nfc_trim :: "js \<Rightarrow> ustr" where
  "nfc_trim v = trim (nfc (js_string (js_nullor v (JStr []))))"

definition normKey :: "js \<Rightarrow> ustr" where
  "normKey v = toLowerCase (collapse_ws (trim (nfc (js_string (js_nullor v (JStr []))))))"

definition str_trim :: "js \<Rightarrow> ustr" where
  "str_trim v = trim (js_string (js_nullor v (JStr [])))"

definition low_trim :: "js \<Rightarrow> ustr" where
  "low_trim v = toLowerCase (trimmed v)"

definition pm_className :: "ustr \<Rightarrow> ustr" where
  "pm_className name =
     (let raw = toUpperCase (trim name)
      in case split_sep_name raw of Some (a, b) \<Rightarrow> a @ [47] @ nat_str (digits_val b)
         | None \<Rightarrow> (case split_a_name raw of Some (a, b) \<Rightarrow> toUpperCase (a @ [65] @ b)
             | None \<Rightarrow> toUpperCase (filter (\<lambda>c. \<not> is_space c) raw)))"

definition pm_classAliases :: "js \<Rightarrow> ustr list" where
  "pm_classAliases name =
     (let raw = trimmed name; out = add_text (pm_className raw) (add_text raw []);
          out1 = (case split_sep_name raw of Some (a, b) \<Rightarrow>
            add_text (toUpperCase (a @ [65] @ nat_str (digits_val b))) (add_text (a @ [47] @ nat_str (digits_val b)) out) | None \<Rightarrow> out)
      in case split_a_name raw of Some (a, b) \<Rightarrow>
           add_text (a @ [47] @ nat_str (digits_val b)) (add_text (toUpperCase (a @ [65] @ nat_str (digits_val b))) out1) | None \<Rightarrow> out1)"

definition pm_aliases_of_row :: "js \<Rightarrow> ustr list" where
  "pm_aliases_of_row l = filter (\<lambda>s. s \<noteq> []) [classCanonFromLop l, trimmed (jprop l ''id''), trimmed (jprop l ''ten''), trimmed (jprop l ''ten2'')]"

definition classKeyCandidates :: "js \<Rightarrow> ustr \<Rightarrow> ustr list" where
  "classKeyCandidates d name =
     (let raw = trim name; own = pm_classAliases (JStr raw); low = map toLowerCase own
      in fold (\<lambda>l out. let vals = pm_aliases_of_row l
                       in if list_ex (\<lambda>v. list_ex (\<lambda>a. toLowerCase a \<in> set low) (pm_classAliases (JStr v))) vals
                          then fold (\<lambda>v out. fold add_text (pm_classAliases (JStr v)) out) vals out else out)
           (rows_of d ''lop'') (fold add_text own []))"

definition getLopCanonById :: "js \<Rightarrow> ustr \<Rightarrow> ustr" where
  "getLopCanonById d i =
     (case find (\<lambda>l. js_string (jprop l ''id'') = i) (rows_of d ''lop'') of
        None \<Rightarrow> first_text [pm_className i, i]
      | Some l \<Rightarrow> trim (first_text [classCanonFromLop l, pm_className (text_or (jprop l ''id'')), i]))"

subsection \<open>Teachers\<close>

definition pm_code :: "js \<Rightarrow> ustr" where
  "pm_code g = nfc_trim (jprop g ''magv'')"

definition pm_full :: "js \<Rightarrow> ustr" where
  "pm_full g = toLowerCase (trim (nfc (trimmed (jprop g ''hodem'') @ [32] @ trimmed (jprop g ''ten''))))"

definition pm_resolve :: "js \<Rightarrow> ustr \<Rightarrow> ustr" where
  "pm_resolve d s =
     (let raw = trim (nfc s); low = toLowerCase raw; gv = rows_of d ''giaovien''
      in if raw = [] then []
         else case find (\<lambda>g. pm_code g \<noteq> [] \<and> toLowerCase (pm_code g) = low) gv of Some g \<Rightarrow> pm_code g
            | None \<Rightarrow> (case find (\<lambda>g. pm_full g \<noteq> [] \<and> pm_full g = low) gv of
                Some g \<Rightarrow> (if pm_code g = [] then raw else pm_code g) | None \<Rightarrow> raw))"

definition teacherListFromValue :: "js \<Rightarrow> js \<Rightarrow> ustr list" where
  "teacherListFromValue d raw =
     (let parts = (case raw of JArr xs \<Rightarrow> map trimmed xs | _ \<Rightarrow> map trim (split_on is_name_sep (text_or raw)))
      in fold (\<lambda>x. add_unless (pm_resolve d x)) parts [])"

definition teacherValueFromRaw :: "js \<Rightarrow> js \<Rightarrow> ustr" where
  "teacherValueFromRaw d raw = join_with [44, 32] (teacherListFromValue d raw)"

definition teacherValueHas :: "js \<Rightarrow> ustr \<Rightarrow> ustr \<Rightarrow> bool" where
  "teacherValueHas d raw code \<longleftrightarrow> (let t = toLowerCase (pm_resolve d (trim code))
     in t \<noteq> [] \<and> t \<in> toLowerCase ` set (teacherListFromValue d (JStr raw)))"

definition teacherValuesIntersect :: "js \<Rightarrow> ustr \<Rightarrow> ustr \<Rightarrow> bool" where
  "teacherValuesIntersect d a b \<longleftrightarrow>
     list_ex (\<lambda>x. toLowerCase x \<in> toLowerCase ` set (teacherListFromValue d (JStr b))) (teacherListFromValue d (JStr a))"

subsection \<open>Subjects that share an alias\<close>

text \<open>
  Union-find over the aliases of the subjects. The path compression of \<open>find\<close> changes no root and is left
  out; the fuel of \<open>alias_find\<close> is the number of keys, which \<open>PmNamesOk\<close> shows to be enough.
\<close>

definition allMonRecords :: "js \<Rightarrow> js list" where
  "allMonRecords d = rows_of d ''monhoc'' @ rows_of d ''mon''"

definition monRecordAliases :: "js \<Rightarrow> ustr list" where
  "monRecordAliases m = filter (\<lambda>s. s \<noteq> []) (map (\<lambda>k. str_trim (jprop m k)) [''ten'', ''mon'', ''mamon'', ''ma'', ''ma2'', ''id'', ''key''])"

definition mon_keys :: "js \<Rightarrow> ustr list" where
  "mon_keys m = filter (\<lambda>s. s \<noteq> []) (map (\<lambda>a. normKey (JStr a)) (monRecordAliases m))"

type_synonym alias_parents = "(ustr \<times> ustr) list"

fun alias_find :: "nat \<Rightarrow> alias_parents \<Rightarrow> ustr \<Rightarrow> ustr" where
  "alias_find 0 p k = k"
| "alias_find (Suc f) p k = (case map_of p k of None \<Rightarrow> k | Some q \<Rightarrow> if q = k then k else alias_find f p q)"

definition find_root :: "alias_parents \<Rightarrow> ustr \<Rightarrow> ustr" where
  "find_root p k = alias_find (length p) p k"

definition add_key :: "ustr \<Rightarrow> alias_parents \<Rightarrow> alias_parents" where
  "add_key k p = (if map_of p k = None then (k, k) # p else p)"

definition alias_union :: "ustr \<Rightarrow> ustr \<Rightarrow> alias_parents \<Rightarrow> alias_parents" where
  "alias_union a b p =
     (let p1 = add_key b (add_key a p); ra = find_root p1 a; rb = find_root p1 b
      in if ra \<noteq> rb then AList.update rb ra p1 else p1)"

definition unite_record :: "ustr list \<Rightarrow> alias_parents \<Rightarrow> alias_parents" where
  "unite_record ks p = (case ks of [] \<Rightarrow> p | r # _ \<Rightarrow> fold (alias_union r) ks (fold add_key ks p))"

definition mon_parents :: "js \<Rightarrow> alias_parents" where
  "mon_parents d = fold unite_record (map mon_keys (allMonRecords d)) []"

definition monCanonicalKey :: "js \<Rightarrow> ustr \<Rightarrow> ustr" where
  "monCanonicalKey d mon = find_root (mon_parents d) (normKey (JStr mon))"

definition monMatches :: "js \<Rightarrow> ustr \<Rightarrow> ustr \<Rightarrow> bool" where
  "monMatches d a b \<longleftrightarrow> monCanonicalKey d a \<noteq> [] \<and> monCanonicalKey d b \<noteq> [] \<and> monCanonicalKey d a = monCanonicalKey d b"

definition findMonHoc :: "js \<Rightarrow> ustr \<Rightarrow> js option" where
  "findMonHoc d mon = (let c = monCanonicalKey d mon
     in if c = [] then None
        else find (\<lambda>m. case mon_keys m of [] \<Rightarrow> False | k # _ \<Rightarrow> find_root (mon_parents d) k = c) (allMonRecords d))"

subsection \<open>Who teaches, and where\<close>

text \<open>The names under which a lesson of the subject may be entered: as given, then those of its record.\<close>

definition subject_names :: "js \<Rightarrow> ustr \<Rightarrow> ustr list" where
  "subject_names d mon = (case findMonHoc d mon of None \<Rightarrow> [mon]
     | Some m \<Rightarrow> fold (\<lambda>k out. let s = trimmed (jprop m k) in if s \<noteq> [] \<and> s \<notin> set out then out @ [s] else out) [''ma'', ''ten'', ''ma2'', ''id''] [mon])"

definition lesson_keys :: "js \<Rightarrow> ustr \<Rightarrow> ustr \<Rightarrow> ustr list" where
  "lesson_keys d lopCanon mon = concat (map (\<lambda>c. map (\<lambda>s. c @ [124] @ s) (subject_names d mon)) (classKeyCandidates d lopCanon))"

definition first_value :: "(js \<Rightarrow> bool) \<Rightarrow> js \<Rightarrow> ustr list \<Rightarrow> js option" where
  "first_value ok table ks = find ok (map (jget table) ks)"

definition pm_getTeacherForClassMon :: "js \<Rightarrow> ustr \<Rightarrow> ustr \<Rightarrow> ustr" where
  "pm_getTeacherForClassMon d lopCanon mon =
     (let m = trim mon; ks = lesson_keys d lopCanon m
      in if classKeyCandidates d lopCanon = [] \<or> m = [] then []
         else case first_value js_truthy (jprop d ''pccmMatrix'') ks of Some v \<Rightarrow> teacherValueFromRaw d v
            | None \<Rightarrow> (case first_value js_truthy (jprop d ''tkbLessonTeachers'') ks of Some v \<Rightarrow> teacherValueFromRaw d v | None \<Rightarrow> []))"

definition has_text :: "js \<Rightarrow> bool" where
  "has_text v \<longleftrightarrow> js_truthy v \<and> trim (js_string v) \<noteq> []"

definition pm_getRoomForClassMon :: "js \<Rightarrow> ustr \<Rightarrow> ustr \<Rightarrow> ustr" where
  "pm_getRoomForClassMon d lopCanon mon =
     (let m = trim mon; ks = lesson_keys d lopCanon m
      in if classKeyCandidates d lopCanon = [] \<or> m = [] then []
         else case first_value has_text (jprop d ''tkbLessonRooms'') ks of Some v \<Rightarrow> trim (js_string v)
            | None \<Rightarrow> (case first_value has_text (jprop d ''pccmRoomMatrix'') ks of Some v \<Rightarrow> trim (js_string v) | None \<Rightarrow> []))"

subsection \<open>The clean-up before a save\<close>

definition valid_class_ids :: "js \<Rightarrow> ustr list" where
  "valid_class_ids d = filter (\<lambda>s. s \<noteq> []) (map (\<lambda>l. trimmed (jprop l ''id'')) (rows_of d ''lop''))"

text \<open>The last entry for an alias wins.\<close>

definition canonical_names :: "js \<Rightarrow> (ustr \<times> ustr) list" where
  "canonical_names d = rev (concat (map (\<lambda>l. if classCanonFromLop l = [] then []
     else map (\<lambda>a. (toLowerCase a, classCanonFromLop l)) (concat (map pm_classAliases
       [jprop l ''id'', jprop l ''ten'', jprop l ''ten2'', JStr (classCanonFromLop l)]))) (rows_of d ''lop'')))"

definition alias_key :: "(ustr \<times> ustr) list \<Rightarrow> ustr \<Rightarrow> ustr option" where
  "alias_key m k =
     (let cls = trim (class_part k); subject = (if 124 \<in> set k then trim (subject_part k) else [])
      in if cls = [] \<or> subject = [] then None
         else case map_of m (toLowerCase cls) of None \<Rightarrow> None | Some c \<Rightarrow> Some (c @ [124] @ subject))"

definition alias_step :: "(ustr \<times> ustr) list \<Rightarrow> ustr \<Rightarrow> js \<Rightarrow> js" where
  "alias_step m k obj =
     (case alias_key m k of None \<Rightarrow> jdel k obj
      | Some k' \<Rightarrow> if k' = k then obj else jdel k (if str_trim (jget obj k') = [] then jput k' (jget obj k) obj else obj))"

definition normalizeClassSubjectMatrixByAliases :: "(ustr \<times> ustr) list \<Rightarrow> js \<Rightarrow> tracked" where
  "normalizeClassSubjectMatrixByAliases m obj =
     (if is_array obj then (False, obj)
      else (list_ex (\<lambda>kv. alias_key m (fst kv) \<noteq> Some (fst kv)) (entries obj), fold (alias_step m) (map fst (entries obj)) obj))"

definition sorted_teachers :: "js \<Rightarrow> js \<Rightarrow> ustr" where
  "sorted_teachers d v = join_with [44] (sort (map toLowerCase (teacherListFromValue d v)))"

text \<open>A teacher remembered for a lesson that contradicts the assignment is replaced by the assigned one.\<close>

definition corrected :: "js \<Rightarrow> ustr \<Rightarrow> js \<Rightarrow> js" where
  "corrected d k v =
     (if 124 \<notin> set k then v
      else case first_value js_truthy (jprop d ''pccmMatrix'') (map (\<lambda>s. class_part k @ [124] @ s) (subject_names d (subject_part k))) of
        None \<Rightarrow> v
      | Some p \<Rightarrow> (let q = JStr (js_string p)
          in if js_string p \<noteq> [] \<and> sorted_teachers d v \<noteq> [] \<and> sorted_teachers d q \<noteq> [] \<and> sorted_teachers d v \<noteq> sorted_teachers d q then q else v))"

definition pruneLessonTeacherConflicts :: "js \<Rightarrow> js \<Rightarrow> tracked" where
  "pruneLessonTeacherConflicts d obj = (case obj of
     JObj kvs \<Rightarrow> (list_ex (\<lambda>(k, v). corrected d k v \<noteq> v) kvs, JObj (map (\<lambda>(k, v). (k, corrected d k v)) kvs)) | _ \<Rightarrow> (False, obj))"

definition sanitizePlannerDataFromIndex :: "js \<Rightarrow> tracked" where
  "sanitizePlannerDataFromIndex d0 =
     (if \<not> is_object d0 then (False, d0)
      else let d1 = snd (normalizeUnicodeNFC nfc d0);
               d2 = (if is_array (jprop d1 ''lop'') then d1 else jput (u ''lop'') (JArr []) d1);
               ids = valid_class_ids d2; m = canonical_names d2; keep = prune_keys (\<lambda>k v. k \<in> set ids);
               d3 = (if is_object (jprop d2 ''tkb'') then d2 else jput (u ''tkb'') (JObj []) d2);
               fd4 = on_table ''tkbUserOff'' keep (on_table ''tkb'' keep (False, d3));
               off = jprop (jprop (jprop (snd fd4) ''tkbConstraints'') ''fixedOff'') ''class'';
               fd5 = (fst fd4 \<or> fst (keep off), change_key ''tkbConstraints'' (change_key ''fixedOff'' (change_key ''class'' (snd \<circ> keep))) (snd fd4));
               fd6 = fold (\<lambda>f. on_table f (normalizeClassSubjectMatrixByAliases m)) lesson_tables fd5
           in on_table ''tkbLessonTeachers'' (pruneLessonTeacherConflicts (snd fd6)) fd6)"

end
