(* ===== verification/PmCells.thy ===== *)
theory PmCells
  imports PmNames
begin

section \<open>Timetable page: cells, joint rows and conflicts\<close>

text \<open>
  Reading and writing the cells of \<open>DATA.tkb[class][day][session][period]\<close> in \<open>pages/phanmon.js\<close>, the
  rows of joint lessons as the page finds them, and the search for a teacher or a room that is taken at a
  slot. A class is named by its id, a text. The days and sessions are the constants of
  \<open>shared/tkb-constants.js\<close>. Rows are compared by reference in the code; here a row is found as its
  position in \<open>DATA.dayGhep\<close>.
\<close>

subsection \<open>Cells\<close>

definition off_cell :: js where
  "off_cell = JStr (u ''OFF'')"

definition cellMon :: "js \<Rightarrow> js" where
  "cellMon v = (if v = off_cell \<or> v = JStr [] \<or> nullish v then JStr []
     else case v of JStr s \<Rightarrow> v | _ \<Rightarrow> if is_object v \<and> js_truthy (jprop v ''mon'') then jprop v ''mon'' else JStr [])"

definition pm_isFixed :: "js \<Rightarrow> bool" where
  "pm_isFixed v \<longleftrightarrow> is_object v \<and> js_truthy (jprop v ''fixed'')"

text \<open>\<open>String(cellMon(v) || "").trim()\<close>, and in lower case.\<close>

definition mon_text :: "js \<Rightarrow> ustr" where
  "mon_text v = trimmed (cellMon v)"

definition mon_low :: "js \<Rightarrow> ustr" where
  "mon_low v = toLowerCase (mon_text v)"

text \<open>Day, session and period.\<close>

type_synonym slot = "ustr \<times> ustr \<times> nat"

definition half_days :: "(ustr \<times> ustr) list" where
  "half_days = List.product days_list sessions_list"

text \<open>\<open>userOffLockKey\<close>: the key of a slot.\<close>

fun slot_key :: "slot \<Rightarrow> ustr" where
  "slot_key (thu, buoi, ti) = thu @ [124] @ buoi @ [124] @ nat_str ti"

definition class_tkb :: "js \<Rightarrow> ustr \<Rightarrow> js" where
  "class_tkb d i = jget (jprop d ''tkb'') i"

definition session_at :: "js \<Rightarrow> ustr \<Rightarrow> ustr \<Rightarrow> ustr \<Rightarrow> js" where
  "session_at d i thu buoi = jget (jget (class_tkb d i) thu) buoi"

fun tkb_cell :: "js \<Rightarrow> ustr \<Rightarrow> slot \<Rightarrow> js" where
  "tkb_cell d i (thu, buoi, ti) = jidx (session_at d i thu buoi) ti"

fun set_tkb_cell :: "ustr \<Rightarrow> slot \<Rightarrow> js \<Rightarrow> js \<Rightarrow> js" where
  "set_tkb_cell i (thu, buoi, ti) v d = jupd [u ''tkb'', i, thu, buoi] (jset_idx ti v) d"

definition tkb_ids :: "js \<Rightarrow> ustr list" where
  "tkb_ids d = map fst (entries (jprop d ''tkb''))"

subsection \<open>Rows of joint lessons\<close>

definition ghep_rows :: "js \<Rightarrow> js list" where
  "ghep_rows d = rows_of d ''dayGhep''"

definition tkbGhepRowFor :: "js \<Rightarrow> ustr \<Rightarrow> js \<Rightarrow> nat option" where
  "tkbGhepRowFor d classRef mon =
     (let low = low_trim mon; canon = getLopCanonById d classRef;
          names = filter (\<lambda>t. t \<noteq> []) (map (\<lambda>v. low_trim (JStr v)) (classRef # canon # classKeyCandidates d (first_text [canon, classRef])))
      in if low = [] \<or> names = [] then None
         else find (\<lambda>k. let row = ghep_rows d ! k in js_truthy row
             \<and> list_ex (\<lambda>x. low_trim x \<in> set names) (array_of (jprop row ''lop'')) \<and> low_trim (jprop row ''ten'') = low)
           [0..<length (ghep_rows d)])"

definition tkbGhepRowByIdentity :: "js \<Rightarrow> js \<Rightarrow> js option" where
  "tkbGhepRowByIdentity d mon =
     (let low = low_trim mon in if low = [] then None
      else find (\<lambda>row. js_truthy row \<and> low_trim (jprop row ''ten'') = low) (ghep_rows d))"

definition tkbGhepLabelOf :: "js \<Rightarrow> ustr" where
  "tkbGhepLabelOf row = first_text [trimmed (jprop row ''viettat''), trimmed (jprop row ''ten'')]"

definition tkbGhepRowHasNoTeacher :: "js \<Rightarrow> bool" where
  "tkbGhepRowHasNoTeacher row \<longleftrightarrow> js_truthy row \<and>
     (case jprop row ''gv'' of JArr xs \<Rightarrow> list_all (\<lambda>x. trimmed x = []) xs
      | v \<Rightarrow> list_all (\<lambda>s. trim s = []) (split_on (\<lambda>c. c = 44 \<or> c = 59 \<or> c = 43 \<or> c = 10) (js_string (js_or v (JStr [])))))"

definition tkbIsNoTeacherGhep :: "js \<Rightarrow> ustr \<Rightarrow> js \<Rightarrow> bool" where
  "tkbIsNoTeacherGhep d classRef mon =
     (case tkbGhepRowFor d classRef mon of None \<Rightarrow> False | Some k \<Rightarrow> tkbGhepRowHasNoTeacher (ghep_rows d ! k))"

definition is_joint_row :: "js \<Rightarrow> bool" where
  "is_joint_row r \<longleftrightarrow> js_truthy r \<and> 2 \<le> length (array_of (jprop r ''lop'')) \<and> trimmed (jprop r ''ten'') \<noteq> []"

definition tkbJointGhepRows :: "js \<Rightarrow> js list" where
  "tkbJointGhepRows d = filter is_joint_row (ghep_rows d)"

definition tkbJointRowKey :: "js \<Rightarrow> ustr" where
  "tkbJointRowKey row = trimmed (js_or (jprop row ''id'') (jprop row ''ten''))"

text \<open>\<open>except\<close> is the class left out, if any.\<close>

definition tkbGhepSiblingClassIds :: "js \<Rightarrow> js \<Rightarrow> ustr option \<Rightarrow> ustr list" where
  "tkbGhepSiblingClassIds d row except =
     (let names = filter (\<lambda>t. t \<noteq> []) (map low_trim (array_of (jprop row ''lop'')));
          own = (\<lambda>l. js_string (jprop l ''id''));
          aliases = (\<lambda>l. filter (\<lambda>t. t \<noteq> []) (map low_trim
            [JStr (getLopCanonById d (js_string (js_or (jprop l ''id'') (JStr [])))), jprop l ''ten2'', jprop l ''ten'', jprop l ''id'']))
      in if names = [] then []
         else map own (filter (\<lambda>l. js_truthy l \<and> except \<noteq> Some (own l) \<and> list_ex (\<lambda>a. a \<in> set names) (aliases l)) (rows_of d ''lop'')))"

definition tkbGhepMemberClassIds :: "js \<Rightarrow> js \<Rightarrow> ustr list" where
  "tkbGhepMemberClassIds d row = tkbGhepSiblingClassIds d row None"

definition tkbGhepJointRowAt :: "js \<Rightarrow> ustr \<Rightarrow> js \<Rightarrow> nat option" where
  "tkbGhepJointRowAt d i mon = (case tkbGhepRowFor d i mon of None \<Rightarrow> None
     | Some k \<Rightarrow> if length (array_of (jprop (ghep_rows d ! k) ''lop'')) < 2 then None else Some k)"

definition tkbIsJointGhepPair :: "js \<Rightarrow> js \<Rightarrow> ustr \<Rightarrow> js \<Rightarrow> ustr \<Rightarrow> bool" where
  "tkbIsJointGhepPair d monA a monB b \<longleftrightarrow> a \<noteq> b \<and> tkbGhepJointRowAt d a monA \<noteq> None \<and> tkbGhepJointRowAt d b monB = tkbGhepJointRowAt d a monA"

subsection \<open>Who and what is taken at a slot\<close>

text \<open>The subject of a cell that holds a lesson.\<close>

definition cell_lesson :: "js \<Rightarrow> js option" where
  "cell_lesson cell = (if \<not> js_truthy cell \<or> cell = off_cell \<or> \<not> js_truthy (cellMon cell) then None else Some (cellMon cell))"

definition teacher_of_lesson :: "js \<Rightarrow> ustr \<Rightarrow> js \<Rightarrow> ustr" where
  "teacher_of_lesson d i mon = pm_getTeacherForClassMon d (getLopCanonById d i) (js_string mon)"

definition room_of_lesson :: "js \<Rightarrow> ustr \<Rightarrow> js \<Rightarrow> ustr" where
  "room_of_lesson d i mon = pm_getRoomForClassMon d (getLopCanonById d i) (js_string mon)"

definition findTeacherConflictAtSlot :: "js \<Rightarrow> js \<Rightarrow> slot \<Rightarrow> ustr \<Rightarrow> js \<Rightarrow> (ustr \<times> js) option" where
  "findTeacherConflictAtSlot d code s ignore jointMon =
     (let gv = teacherValueFromRaw d code;
          clash = (\<lambda>i. if ignore \<noteq> [] \<and> i = ignore then None
            else case cell_lesson (tkb_cell d i s) of None \<Rightarrow> None
            | Some mon \<Rightarrow> if js_truthy jointMon \<and> ignore \<noteq> [] \<and> tkbIsJointGhepPair d jointMon ignore mon i then None
                else let gv2 = teacher_of_lesson d i mon in if gv2 \<noteq> [] \<and> teacherValuesIntersect d gv2 gv then Some (i, mon) else None)
      in if gv = [] then None else case List.map_filter clash (tkb_ids d) of [] \<Rightarrow> None | c # _ \<Rightarrow> Some c)"

definition findRoomConflictAtSlot :: "js \<Rightarrow> js \<Rightarrow> slot \<Rightarrow> ustr \<Rightarrow> (ustr \<times> js) option" where
  "findRoomConflictAtSlot d name s ignore =
     (let room = trimmed name;
          clash = (\<lambda>i. if ignore \<noteq> [] \<and> i = ignore then None
            else case cell_lesson (tkb_cell d i s) of None \<Rightarrow> None
            | Some mon \<Rightarrow> if room_of_lesson d i mon \<noteq> [] \<and> trim (room_of_lesson d i mon) = room then Some (i, mon) else None)
      in if room = [] then None else case List.map_filter clash (tkb_ids d) of [] \<Rightarrow> None | c # _ \<Rightarrow> Some c)"

text \<open>Teachers of a row have a lesson outside its classes.\<close>

definition row_teachers :: "js \<Rightarrow> ustr" where
  "row_teachers row = (case jprop row ''gv'' of JArr xs \<Rightarrow> join_with [44, 32] (map (\<lambda>x. if nullish x then [] else js_string x) xs)
     | v \<Rightarrow> js_string (js_or v (JStr [])))"

definition tkbGhepTeachersBusyOutside :: "js \<Rightarrow> js \<Rightarrow> ustr list \<Rightarrow> slot \<Rightarrow> bool" where
  "tkbGhepTeachersBusyOutside d row members s \<longleftrightarrow> row_teachers row \<noteq> [] \<and>
     list_ex (\<lambda>i. i \<notin> set members \<and> (case cell_lesson (tkb_cell d i s) of None \<Rightarrow> False
       | Some mon \<Rightarrow> let gv2 = teacher_of_lesson d i mon in gv2 \<noteq> [] \<and> teacherValuesIntersect d gv2 (row_teachers row))) (tkb_ids d)"

definition isTeacherFixedOff :: "js \<Rightarrow> js \<Rightarrow> slot \<Rightarrow> bool" where
  "isTeacherFixedOff d code s \<longleftrightarrow> trimmed code \<noteq> []
     \<and> js_truthy (jget (jget (jprop (jprop (jprop d ''tkbConstraints'') ''fixedOff'') ''teacher'') (trimmed code)) (slot_key s))"

subsection \<open>Numbers of the assignment\<close>

definition getPccmNum :: "js \<Rightarrow> js \<Rightarrow> ustr \<Rightarrow> ustr \<Rightarrow> rat" where
  "getPccmNum d matrix lopCanon mon =
     (let cls = trim lopCanon; m = trim mon;
          num = (\<lambda>v. case string_number (str_trim v) of Some q \<Rightarrow> str_trim v \<noteq> [] \<and> 0 < q | None \<Rightarrow> False)
      in if \<not> is_object matrix \<or> cls = [] \<or> m = [] then 0
         else case first_value num matrix (lesson_keys d cls m) of None \<Rightarrow> 0
         | Some v \<Rightarrow> (case string_number (str_trim v) of Some q \<Rightarrow> q | None \<Rightarrow> 0))"

definition getSoTietForClassMon :: "js \<Rightarrow> ustr \<Rightarrow> ustr \<Rightarrow> rat" where
  "getSoTietForClassMon d lopCanon mon = getPccmNum d (jprop d ''pccmTietMatrix'') lopCanon mon"

definition getGioiHanForClassMon :: "js \<Rightarrow> ustr \<Rightarrow> ustr \<Rightarrow> rat" where
  "getGioiHanForClassMon d lopCanon mon = getPccmNum d (jprop d ''pccmGioihanMatrix'') lopCanon mon"

end
