(* ===== verification/PmJoint.thy ===== *)
theory PmJoint
  imports PmCells "HOL-Library.List_Lexorder"
begin

section \<open>Timetable page: joint lessons in the timetable\<close>

text \<open>
  A joint row with two or more classes is one lesson: its cells stand at the same slots in all its classes.
  \<open>tkbJointReconcile\<close> restores this at every save, taking the class that changed since the last snapshot
  as the truth. Before a solver runs, \<open>tkbJointPinForSolve\<close> fixes the joint lessons in common cells and
  marks them; \<open>tkbJointUnpin\<close> takes the marks off afterwards. Both change \<open>DATA.tkb\<close> only. Whether a
  solver is running is the argument \<open>busy\<close>; messages, caches and drawing are left out.
\<close>

subsection \<open>Where a joint lesson stands\<close>

type_synonym placing = "(slot \<times> bool) list"

definition tkbJointPlacements :: "js \<Rightarrow> ustr \<Rightarrow> ustr \<Rightarrow> placing" where
  "tkbJointPlacements d i low = concat (map (\<lambda>(thu, buoi).
     let arr = array_of (session_at d i thu buoi)
     in map (\<lambda>k. ((thu, buoi, k), pm_isFixed (arr ! k)))
          (filter (\<lambda>k. mon_low (arr ! k) \<noteq> [] \<and> mon_low (arr ! k) = low) [0..<length arr])) half_days)"

text \<open>The text by which placings are compared.\<close>

definition sig_entry :: "slot \<times> bool \<Rightarrow> ustr" where
  "sig_entry p = slot_key (fst p) @ (if snd p then u ''F'' else u ''-'')"

definition tkbJointSig :: "placing \<Rightarrow> ustr" where
  "tkbJointSig p = join_with [59] (map sig_entry (sort_key (\<lambda>e. slot_key (fst e)) p))"

text \<open>Row key, then class, then signature.\<close>

type_synonym snapshot = "(ustr \<times> (ustr \<times> ustr) list) list"

definition row_low :: "js \<Rightarrow> ustr" where
  "row_low row = toLowerCase (trimmed (jprop row ''ten''))"

definition members_of :: "js \<Rightarrow> js \<Rightarrow> ustr list" where
  "members_of d row = filter (\<lambda>i. js_truthy (class_tkb d i)) (tkbGhepMemberClassIds d row)"

definition row_sigs :: "js \<Rightarrow> js \<Rightarrow> (ustr \<times> ustr) list" where
  "row_sigs d row = map (\<lambda>i. (i, tkbJointSig (tkbJointPlacements d i (row_low row)))) (members_of d row)"

definition tkbJointTakeSnapshot :: "js \<Rightarrow> snapshot" where
  "tkbJointTakeSnapshot d = fold (\<lambda>row. AList.update (tkbJointRowKey row) (row_sigs d row)) (tkbJointGhepRows d) []"

subsection \<open>Reconciling\<close>

datatype block_reason = NoTimetable | OffCell | FixedLesson ustr

record joint_result =
  jr_changed :: bool
  jr_displaced :: "(ustr \<times> slot \<times> ustr) list"
  jr_blocked :: "(ustr \<times> slot \<times> block_reason) list"
  jr_rows :: "(js \<times> ustr) list"

definition no_result :: joint_result where
  "no_result = \<lparr>jr_changed = False, jr_displaced = [], jr_blocked = [], jr_rows = []\<rparr>"

type_synonym joint_state = "js \<times> joint_result"

definition joint_cell :: "ustr \<Rightarrow> bool \<Rightarrow> js" where
  "joint_cell key fixed = (if fixed then JObj [(u ''mon'', JStr key), (u ''fixed'', JBool True)] else JStr key)"

definition write_joint :: "ustr \<Rightarrow> slot \<Rightarrow> js \<Rightarrow> joint_state \<Rightarrow> joint_state" where
  "write_joint i s v st = (set_tkb_cell i s v (fst st), (snd st)\<lparr>jr_changed := True\<rparr>)"

definition report_blocked :: "ustr \<Rightarrow> slot \<Rightarrow> block_reason \<Rightarrow> joint_state \<Rightarrow> joint_state" where
  "report_blocked i s why st = (fst st, (snd st)\<lparr>jr_blocked := jr_blocked (snd st) @ [(i, s, why)]\<rparr>)"

definition report_moved :: "ustr \<Rightarrow> slot \<Rightarrow> ustr \<Rightarrow> joint_state \<Rightarrow> joint_state" where
  "report_moved i s m st = (fst st, (snd st)\<lparr>jr_displaced := jr_displaced (snd st) @ [(i, s, m)]\<rparr>)"

fun session_of_slot :: "js \<Rightarrow> ustr \<Rightarrow> slot \<Rightarrow> js" where
  "session_of_slot d i (thu, buoi, ti) = session_at d i thu buoi"

definition follow_one :: "ustr \<Rightarrow> ustr \<Rightarrow> slot \<times> bool \<Rightarrow> joint_state \<Rightarrow> joint_state" where
  "follow_one key i e st =
     (let s = fst e; cell = tkb_cell (fst st) i s; m = mon_text cell; own = toLowerCase m = toLowerCase key
      in if \<not> is_array (session_of_slot (fst st) i s) then report_blocked i s NoTimetable st
         else if cell = off_cell then report_blocked i s OffCell st
         else if m \<noteq> [] \<and> \<not> own \<and> pm_isFixed cell then report_blocked i s (FixedLesson m) st
         else if m \<noteq> [] \<and> own \<and> pm_isFixed cell = snd e then st
         else write_joint i s (joint_cell key (snd e)) (if m \<noteq> [] \<and> \<not> own then report_moved i s m st else st))"

text \<open>The cells of a class that the truth does not have are emptied, then those of the truth are placed.\<close>

definition follow_truth :: "ustr \<Rightarrow> placing \<Rightarrow> placing \<Rightarrow> ustr \<Rightarrow> joint_state \<Rightarrow> joint_state" where
  "follow_truth key truth cur i st =
     fold (follow_one key i) truth
       (fold (\<lambda>e. write_joint i (fst e) (JStr [])) (filter (\<lambda>e. fst e \<notin> fst ` set truth) cur) st)"

text \<open>The most frequent signature, then the one with more lessons; the first class wins a tie.\<close>

definition most_common :: "(ustr \<Rightarrow> ustr) \<Rightarrow> (ustr \<Rightarrow> nat) \<Rightarrow> ustr list \<Rightarrow> ustr" where
  "most_common sg n members =
     fold (\<lambda>i best. let c = (\<lambda>j. count_list (map sg members) (sg j))
                    in if c best < c i \<or> c i = c best \<and> n best < n i then i else best) members (hd members)"

definition truth_class :: "snapshot \<Rightarrow> ustr \<Rightarrow> (ustr \<Rightarrow> ustr) \<Rightarrow> (ustr \<Rightarrow> nat) \<Rightarrow> ustr list \<Rightarrow> ustr" where
  "truth_class snap rk sg n members =
     (let old = (\<lambda>i. Option.bind (map_of snap rk) (\<lambda>m. map_of m i));
          changed = filter (\<lambda>i. old i \<noteq> Some (sg i)) members
      in if changed \<noteq> [] \<and> list_all (\<lambda>i. sg i = sg (hd changed)) changed then hd changed else most_common sg n members)"

definition reconcile_row :: "snapshot \<Rightarrow> js \<Rightarrow> joint_state \<Rightarrow> joint_state" where
  "reconcile_row snap row st =
     (let d = fst st; key = trimmed (jprop row ''ten''); members = members_of d row;
          cur = (\<lambda>i. tkbJointPlacements d i (row_low row)); sg = (\<lambda>i. tkbJointSig (cur i));
          t = truth_class snap (tkbJointRowKey row) sg (\<lambda>i. length (cur i)) members
      in if list_all (\<lambda>i. sg i = sg (hd members)) members then st
         else let st1 = fold (\<lambda>i st. if i = t \<or> sg i = sg t then st else follow_truth key (cur t) (cur i) i st) members st
              in (fst st1, (snd st1)\<lparr>jr_rows := jr_rows (snd st1) @ [(row, t)]\<rparr>))"

definition reconcile_step :: "snapshot \<Rightarrow> js \<Rightarrow> joint_state \<times> snapshot \<Rightarrow> joint_state \<times> snapshot" where
  "reconcile_step snap row sn =
     (if members_of (fst (fst sn)) row = [] then sn
      else let st = reconcile_row snap row (fst sn) in (st, AList.update (tkbJointRowKey row) (row_sigs (fst st) row) (snd sn)))"

text \<open>The snapshot is \<open>None\<close> until the first one is taken.\<close>

definition tkbJointReconcile :: "bool \<Rightarrow> bool \<Rightarrow> snapshot option \<Rightarrow> js \<Rightarrow> joint_state \<times> snapshot option" where
  "tkbJointReconcile busy force snap d =
     (if \<not> force \<and> busy then ((d, no_result), snap)
      else if snap = None \<and> \<not> force then ((d, no_result), Some (tkbJointTakeSnapshot d))
      else let r = fold (reconcile_step (case snap of None \<Rightarrow> [] | Some m \<Rightarrow> m)) (tkbJointGhepRows d) ((d, no_result), [])
           in (fst r, Some (snd r)))"

text \<open>The check before a joint lesson is dragged to a slot: \<open>None\<close> when the lesson is not joint.\<close>

definition tkbJointSiblingBlockers ::
    "js \<Rightarrow> ustr \<Rightarrow> js \<Rightarrow> slot \<Rightarrow> ((ustr \<times> block_reason) list \<times> (ustr \<times> ustr) list) option" where
  "tkbJointSiblingBlockers d i mon s =
     (case tkbGhepJointRowAt d i mon of None \<Rightarrow> None
      | Some k \<Rightarrow> (let row = ghep_rows d ! k;
            sibs = filter (\<lambda>j. is_array (session_of_slot d j s)) (tkbGhepSiblingClassIds d row (Some i));
            other = (\<lambda>j. mon_text (tkb_cell d j s) \<noteq> [] \<and> toLowerCase (mon_text (tkb_cell d j s)) \<noteq> row_low row);
            blocked = List.map_filter (\<lambda>j. if tkb_cell d j s = off_cell then Some (j, OffCell)
              else if other j \<and> pm_isFixed (tkb_cell d j s) then Some (j, FixedLesson (mon_text (tkb_cell d j s))) else None) sibs;
            moved = filter (\<lambda>j. tkb_cell d j s \<noteq> off_cell \<and> other j \<and> \<not> pm_isFixed (tkb_cell d j s)) sibs
          in Some (blocked, map (\<lambda>j. (j, mon_text (tkb_cell d j s))) moved)))"

subsection \<open>Pinning for a solver\<close>

definition pinned_cell :: "ustr \<Rightarrow> js" where
  "pinned_cell key = JObj [(u ''mon'', JStr key), (u ''fixed'', JBool True), (u ''jointPin'', JBool True)]"

definition has_pin :: "js \<Rightarrow> bool" where
  "has_pin v \<longleftrightarrow> is_object v \<and> js_truthy (jprop v ''jointPin'')"

text \<open>At least one, one when there is no number.\<close>

definition count_of_row :: "js \<Rightarrow> rat" where
  "count_of_row v = max 1 (case js_number v of None \<Rightarrow> 1 | Some q \<Rightarrow> if q = 0 then 1 else q)"

text \<open>
  A slot for a row: in how many classes its lesson stands there, and how many lessons of others it would
  report_moved; \<open>None\<close> when some class blocks it.
\<close>

definition scan_member :: "bool \<Rightarrow> ustr \<Rightarrow> js \<Rightarrow> slot \<Rightarrow> ustr \<Rightarrow> (nat \<times> nat) option \<Rightarrow> (nat \<times> nat) option" where
  "scan_member allow low d s i acc = (case acc of None \<Rightarrow> None
     | Some (have, disp) \<Rightarrow> (let cell = tkb_cell d i s
         in if cell = off_cell then None
            else if mon_low cell = low then Some (have + 1, disp)
            else if js_truthy (cellMon cell) then (if pm_isFixed cell \<or> \<not> allow then None else Some (have, disp + 1))
            else Some (have, disp)))"

record pin_slot =
  ps_slot :: slot
  ps_have :: nat
  ps_displace :: nat

definition all_slots :: "slot list" where
  "all_slots = concat (map (\<lambda>(thu, buoi). map (\<lambda>ti. (thu, buoi, ti)) [0..<periods_per_session]) half_days)"

definition pin_slot_of :: "bool \<Rightarrow> js \<Rightarrow> js \<Rightarrow> ustr list \<Rightarrow> slot \<Rightarrow> pin_slot option" where
  "pin_slot_of allow d row members s =
     (case fold (scan_member allow (row_low row) d s) members (Some (0, 0)) of None \<Rightarrow> None
      | Some (have, disp) \<Rightarrow>
          if have = 0 \<and> (list_ex (\<lambda>gv. isTeacherFixedOff d gv s) (array_of (jprop row ''gv'')) \<or> tkbGhepTeachersBusyOutside d row members s)
          then None else Some \<lparr>ps_slot = s, ps_have = have, ps_displace = disp\<rparr>)"

definition pin_slots :: "bool \<Rightarrow> js \<Rightarrow> js \<Rightarrow> ustr list \<Rightarrow> pin_slot list" where
  "pin_slots allow d row members = List.map_filter (pin_slot_of allow d row members) all_slots"

fun half_of :: "slot \<Rightarrow> ustr \<times> ustr" where
  "half_of (thu, buoi, ti) = (thu, buoi)"

definition pos_in :: "ustr list \<Rightarrow> ustr \<Rightarrow> nat" where
  "pos_in xs x = (case index_of x xs of None \<Rightarrow> 0 | Some i \<Rightarrow> i)"

definition pin_rank :: "pin_slot list \<Rightarrow> pin_slot \<Rightarrow> nat list" where
  "pin_rank chosen a = (case ps_slot a of (thu, buoi, ti) \<Rightarrow>
     [ps_displace a, if thu \<in> (\<lambda>c. fst (ps_slot c)) ` set chosen then 1 else 0,
      pos_in days_list thu, pos_in sessions_list buoi, ti])"

definition pin_candidates :: "rat \<Rightarrow> pin_slot list \<Rightarrow> pin_slot list \<Rightarrow> pin_slot list" where
  "pin_candidates gh slots chosen = filter (\<lambda>a. a \<notin> set chosen
     \<and> of_nat (length (filter (\<lambda>c. half_of (ps_slot c) = half_of (ps_slot a)) chosen)) < gh) slots"

text \<open>Each round takes a slot not taken yet, so as many rounds as there are slots are enough.\<close>

fun fill_slots :: "nat \<Rightarrow> rat \<Rightarrow> rat \<Rightarrow> pin_slot list \<Rightarrow> pin_slot list \<Rightarrow> pin_slot list" where
  "fill_slots 0 need gh slots chosen = chosen"
| "fill_slots (Suc n) need gh slots chosen =
     (if of_nat (length chosen) < need \<and> pin_candidates gh slots chosen \<noteq> []
      then fill_slots n need gh slots (chosen @ [hd (sort_key (pin_rank chosen) (pin_candidates gh slots chosen))])
      else chosen)"

definition chosen_slots :: "bool \<Rightarrow> js \<Rightarrow> js \<Rightarrow> ustr list \<Rightarrow> pin_slot list" where
  "chosen_slots allow d row members =
     (let slots = pin_slots allow d row members
      in fill_slots (length slots) (count_of_row (jprop row ''sotiet'')) (count_of_row (jprop row ''gioihan'')) slots
           (filter (\<lambda>a. 0 < ps_have a) slots))"

text \<open>The marks set so far: class, slot and lesson. Why a row is not, or not fully, pinned.\<close>

type_synonym pins = "(ustr \<times> slot \<times> ustr) list"

datatype skip_reason = TooFewClasses | NoCommonCell | OnlySome nat rat

record pin_result =
  pr_changed :: bool
  pr_pinned :: "(ustr \<times> nat \<times> slot list) list"
  pr_displaced :: nat
  pr_skipped :: "(ustr \<times> skip_reason) list"

record pin_state =
  pn_data :: js
  pn_pins :: pins
  pn_out :: pin_result

definition pin_one :: "ustr \<Rightarrow> ustr \<times> slot \<Rightarrow> pin_state \<Rightarrow> pin_state" where
  "pin_one key x st =
     (let i = fst x; s = snd x; cell = tkb_cell (pn_data st) i s; same = (mon_low cell = toLowerCase key)
      in if same \<and> pm_isFixed cell \<and> \<not> js_truthy (jprop cell ''jointPin'') then st
         else st\<lparr>pn_data := set_tkb_cell i s (pinned_cell key) (pn_data st), pn_pins := pn_pins st @ [(i, s, key)],
                 pn_out := (pn_out st)\<lparr>pr_displaced := pr_displaced (pn_out st) + (if js_truthy (cellMon cell) \<and> \<not> same then 1 else 0)\<rparr>\<rparr>)"

text \<open>The chosen slots that exist in the arrays of a class, in the order in which they are visited.\<close>

definition cells_to_pin :: "js \<Rightarrow> slot set \<Rightarrow> ustr \<Rightarrow> (ustr \<times> slot) list" where
  "cells_to_pin d chosen i = map (Pair i) (filter (\<lambda>s. s \<in> chosen)
     (concat (map (\<lambda>(thu, buoi). map (\<lambda>k. (thu, buoi, k)) [0..<length (array_of (session_at d i thu buoi))]) half_days)))"

definition skip_row :: "js \<Rightarrow> skip_reason \<Rightarrow> pin_state \<Rightarrow> pin_state" where
  "skip_row row why st =
     st\<lparr>pn_out := (pn_out st)\<lparr>pr_skipped := pr_skipped (pn_out st) @ [(first_text [text_or (jprop row ''viettat''), trimmed (jprop row ''ten'')], why)]\<rparr>\<rparr>"

definition pin_row :: "bool \<Rightarrow> js \<Rightarrow> pin_state \<Rightarrow> pin_state" where
  "pin_row allow row st =
     (let d = pn_data st; key = trimmed (jprop row ''ten''); members = members_of d row; need = count_of_row (jprop row ''sotiet'');
          chosen = chosen_slots allow d row members; spots = ps_slot ` set chosen
      in if length members < 2 then skip_row row TooFewClasses st
         else if chosen = [] then skip_row row NoCommonCell st
         else let st1 = (if of_nat (length chosen) < need then skip_row row (OnlySome (length chosen) need) st else st);
                  st2 = fold (\<lambda>i st. fold (pin_one key) (cells_to_pin d spots i) st) members st1
              in if length (pn_pins st2) = length (pn_pins st1) then st2
                 else st2\<lparr>pn_out := (pn_out st2)\<lparr>pr_changed := True,
                   pr_pinned := pr_pinned (pn_out st2) @ [(first_text [text_or (jprop row ''viettat''), key], length members, map ps_slot chosen)]\<rparr>\<rparr>)"

definition nothing_pinned :: pin_result where
  "nothing_pinned = \<lparr>pr_changed = False, pr_pinned = [], pr_displaced = 0, pr_skipped = []\<rparr>"

definition tkbJointPinForSolve :: "bool \<Rightarrow> bool \<Rightarrow> snapshot option \<Rightarrow> js \<Rightarrow> pin_state \<times> snapshot option" where
  "tkbJointPinForSolve allow busy snap d =
     (let d1 = fst (fst (tkbJointReconcile busy True snap d));
          st = fold (pin_row allow) (tkbJointGhepRows d1) \<lparr>pn_data = d1, pn_pins = [], pn_out = nothing_pinned\<rparr>
      in (st, Some (tkbJointTakeSnapshot (pn_data st))))"

subsection \<open>Taking the marks off\<close>

definition unpin_one :: "ustr \<times> slot \<times> ustr \<Rightarrow> tracked \<Rightarrow> tracked" where
  "unpin_one p fd = (case p of (i, s, key) \<Rightarrow>
     (let cell = tkb_cell (snd fd) i s
      in if is_array (session_of_slot (snd fd) i s) \<and> js_truthy cell \<and> cell \<noteq> off_cell \<and> mon_low cell = toLowerCase key \<and> pm_isFixed cell
         then (True, set_tkb_cell i s (JStr key) (snd fd)) else fd))"

definition without_pin :: "js \<Rightarrow> js" where
  "without_pin v = (if has_pin v then cellMon v else v)"

definition clear_session :: "ustr \<Rightarrow> ustr \<times> ustr \<Rightarrow> js \<Rightarrow> js" where
  "clear_session i h d = (if is_array (session_at d i (fst h) (snd h))
     then jupd [u ''tkb'', i, fst h, snd h] (map_array without_pin) d else d)"

definition clear_pins :: "js \<Rightarrow> js" where
  "clear_pins d = fold (\<lambda>i. fold (clear_session i) half_days) (tkb_ids d) d"

definition pins_left :: "js \<Rightarrow> bool" where
  "pins_left d \<longleftrightarrow> list_ex (\<lambda>i. list_ex (\<lambda>(thu, buoi). list_ex has_pin (array_of (session_at d i thu buoi))) half_days) (tkb_ids d)"

definition tkbJointUnpin :: "bool \<Rightarrow> pins \<Rightarrow> snapshot option \<Rightarrow> js \<Rightarrow> tracked \<times> snapshot option" where
  "tkbJointUnpin busy pins snap d =
     (let fd = fold unpin_one pins (False, d); r = tkbJointReconcile busy True snap (clear_pins (snd fd))
      in ((fst fd \<or> pins_left (snd fd), fst (fst r)), snd r))"

definition tkbJointUnpinQuiet :: "pins \<Rightarrow> snapshot option \<Rightarrow> js \<Rightarrow> tracked \<times> snapshot option" where
  "tkbJointUnpinQuiet pins snap d =
     (let fd = fold unpin_one pins (False, d) in (fd, if fst fd then Some (tkbJointTakeSnapshot (snd fd)) else snap))"

text \<open>Gives the data, the marks and the snapshot.\<close>

definition tkbJointClearStalePins :: "bool \<Rightarrow> pins \<Rightarrow> snapshot option \<Rightarrow> js \<Rightarrow> js \<times> pins \<times> snapshot option" where
  "tkbJointClearStalePins busy pins snap d =
     (if busy \<or> \<not> pins_left d then (d, pins, snap) else (clear_pins d, [], Some (tkbJointTakeSnapshot (clear_pins d))))"

end
