(* ===== verification/PmNamesOk.thy ===== *)
theory PmNamesOk
  imports PmNames
begin

section \<open>Timetable page: subjects that share an alias\<close>

text \<open>
  The union-find of \<open>ensureMonAliasIndex\<close> computes the equivalence that shared aliases generate: two names
  have the same root exactly when a chain of subject records connects them.
\<close>

subsection \<open>Roots\<close>

definition edge :: "alias_parents \<Rightarrow> (ustr \<times> ustr) set" where
  "edge p = {(k, q). map_of p k = Some q \<and> q \<noteq> k}"

definition uf_ok :: "alias_parents \<Rightarrow> bool" where
  "uf_ok p \<longleftrightarrow> acyclic (edge p) \<and> (\<forall>k q. map_of p k = Some q \<longrightarrow> map_of p q \<noteq> None)"

lemma edge_ancestors: "{q. (k, q) \<in> (edge p)\<^sup>+} \<subseteq> snd ` set p"
proof -
  have "Range (edge p) \<subseteq> snd ` set p" by (force simp: edge_def dest: map_of_SomeD)
  then show ?thesis using trancl_range [of "edge p"] by blast
qed

lemma find_path:
  assumes "acyclic (edge p)" "card {q. (k, q) \<in> (edge p)\<^sup>+} \<le> f"
  shows "(k, alias_find f p k) \<in> (edge p)\<^sup>* \<and> alias_find f p k \<notin> Domain (edge p)"
  using assms(2)
proof (induction f arbitrary: k)
  case 0
  have "finite {q. (k, q) \<in> (edge p)\<^sup>+}" using edge_ancestors by (rule finite_subset) simp
  with 0 have "{q. (k, q) \<in> (edge p)\<^sup>+} = {}" by simp
  then show ?case by auto
next
  case (Suc f)
  show ?case
  proof (cases "\<exists>q. map_of p k = Some q \<and> q \<noteq> k")
    case True
    then obtain q where q: "map_of p k = Some q" "q \<noteq> k" by blast
    then have e: "(k, q) \<in> edge p" by (simp add: edge_def)
    have fin: "finite {x. (k, x) \<in> (edge p)\<^sup>+}" using edge_ancestors by (rule finite_subset) simp
    have "{x. (q, x) \<in> (edge p)\<^sup>+} \<subset> {x. (k, x) \<in> (edge p)\<^sup>+}"
      using e assms(1) by (auto simp: acyclic_def intro: trancl_into_trancl2)
    then have "card {x. (q, x) \<in> (edge p)\<^sup>+} < card {x. (k, x) \<in> (edge p)\<^sup>+}" by (rule psubset_card_mono [OF fin])
    then have "(q, alias_find f p q) \<in> (edge p)\<^sup>* \<and> alias_find f p q \<notin> Domain (edge p)" using Suc by simp
    then show ?thesis using e q by (simp add: converse_rtrancl_into_rtrancl)
  next
    case False
    then have "k \<notin> Domain (edge p)" by (auto simp: edge_def)
    then show ?thesis using False by (auto split: option.splits)
  qed
qed

lemma root_path: "uf_ok p \<Longrightarrow> (k, find_root p k) \<in> (edge p)\<^sup>* \<and> find_root p k \<notin> Domain (edge p)"
proof -
  assume "uf_ok p"
  have "card {q. (k, q) \<in> (edge p)\<^sup>+} \<le> card (snd ` set p)" by (rule card_mono [OF _ edge_ancestors]) simp
  also have "\<dots> \<le> length p" using card_length [of "map snd p"] by simp
  finally show ?thesis unfolding find_root_def using \<open>uf_ok p\<close> by (intro find_path) (simp_all add: uf_ok_def)
qed

lemma root_unique:
  assumes "uf_ok p" "(k, r) \<in> (edge p)\<^sup>*" "r \<notin> Domain (edge p)"
  shows "find_root p k = r"
proof -
  have "r' = r" if "(k, r') \<in> (edge p)\<^sup>*" "r' \<notin> Domain (edge p)" for r'
    using assms(2) that
  proof (induction rule: converse_rtrancl_induct)
    case base
    then show ?case using assms(3) by (metis Domain.DomainI converse_rtranclE)
  next
    case (step y z)
    then obtain z' where "(y, z') \<in> edge p" "(z', r') \<in> (edge p)\<^sup>*" by (metis Domain.DomainI converse_rtranclE)
    moreover have "z' = z" using step(1) \<open>(y, z') \<in> edge p\<close> by (simp add: edge_def)
    ultimately show ?case using step by blast
  qed
  then show ?thesis using root_path [OF assms(1)] by blast
qed

lemma root_known: "uf_ok p \<Longrightarrow> map_of p k \<noteq> None \<Longrightarrow> map_of p (find_root p k) \<noteq> None"
proof -
  assume ok: "uf_ok p" and "map_of p k \<noteq> None"
  have "(k, r) \<in> (edge p)\<^sup>* \<Longrightarrow> map_of p r \<noteq> None" for r
    by (induction rule: rtrancl_induct) (use ok \<open>map_of p k \<noteq> None\<close> in \<open>auto simp: uf_ok_def edge_def\<close>)
  then show ?thesis using root_path [OF ok] by blast
qed

subsection \<open>Union\<close>

definition same_root :: "alias_parents \<Rightarrow> ustr \<Rightarrow> ustr \<Rightarrow> bool" where
  "same_root p x y \<longleftrightarrow> find_root p x = find_root p y"

lemma add_key_ok:
  assumes "uf_ok p"
  shows "uf_ok (add_key k p)" "find_root (add_key k p) x = find_root p x" "map_of (add_key k p) k \<noteq> None"
    "map_of p l \<noteq> None \<Longrightarrow> map_of (add_key k p) l \<noteq> None"
proof -
  have e: "edge (add_key k p) = edge p" by (auto simp: edge_def add_key_def split: if_splits)
  show ok: "uf_ok (add_key k p)" unfolding uf_ok_def e using assms by (auto simp: uf_ok_def add_key_def)
  show "find_root (add_key k p) x = find_root p x" using root_path [OF assms, of x] by (intro root_unique [OF ok]) (simp_all add: e)
  show "map_of (add_key k p) k \<noteq> None" by (simp add: add_key_def)
  show "map_of p l \<noteq> None \<Longrightarrow> map_of (add_key k p) l \<noteq> None" by (simp add: add_key_def)
qed

lemma link_ok:
  assumes "uf_ok p" "ra \<noteq> rb" "map_of p ra \<noteq> None" "map_of p rb \<noteq> None" "ra \<notin> Domain (edge p)" "rb \<notin> Domain (edge p)"
  shows "uf_ok (AList.update rb ra p)" "find_root (AList.update rb ra p) x = (if find_root p x = rb then ra else find_root p x)"
proof -
  have e: "edge (AList.update rb ra p) = insert (rb, ra) (edge p)"
    using assms(2,6) by (auto simp: edge_def update_conv' split: if_splits)
  have "(ra, rb) \<notin> (edge p)\<^sup>*" using assms(2,5) by (metis Domain.DomainI converse_rtranclE)
  then have "acyclic (edge (AList.update rb ra p))" using assms(1) by (simp add: e uf_ok_def)
  then show ok: "uf_ok (AList.update rb ra p)" using assms(1,3) by (auto simp: uf_ok_def update_conv')
  note r = root_path [OF assms(1), of x]
  have s: "(edge p)\<^sup>* \<subseteq> (edge (AList.update rb ra p))\<^sup>*" unfolding e by (rule rtrancl_mono) auto
  show "find_root (AList.update rb ra p) x = (if find_root p x = rb then ra else find_root p x)"
  proof (rule root_unique [OF ok])
    have "(rb, ra) \<in> (edge (AList.update rb ra p))\<^sup>*" unfolding e by blast
    then show "(x, if find_root p x = rb then ra else find_root p x) \<in> (edge (AList.update rb ra p))\<^sup>*"
      using r s by (auto intro: rtrancl_trans)
    show "(if find_root p x = rb then ra else find_root p x) \<notin> Domain (edge (AList.update rb ra p))"
      using r assms(2,5) by (auto simp: e)
  qed
qed

lemma union_ok:
  assumes "uf_ok p"
  shows "uf_ok (alias_union a b p)"
    "same_root (alias_union a b p) x y \<longleftrightarrow> same_root p x y \<or> same_root p x a \<and> same_root p b y \<or> same_root p x b \<and> same_root p a y"
proof -
  let ?p = "add_key b (add_key a p)"
  note k1 = add_key_ok [OF assms, of a] 
  note k2 = add_key_ok [OF k1(1), where k = b]
  have f: "find_root ?p z = find_root p z" for z using k1(2) k2(2) by metis
  have dom: "map_of ?p (find_root ?p a) \<noteq> None" "map_of ?p (find_root ?p b) \<noteq> None"
    by (rule root_known [OF k2(1) k2(4) [OF k1(3)]]) (rule root_known [OF k2(1) k2(3)])
  have t: "find_root ?p z \<notin> Domain (edge ?p)" for z using root_path [OF k2(1)] by blast
  show "uf_ok (alias_union a b p)"
    using k2(1) link_ok(1) [OF k2(1) _ dom t t] by (simp add: alias_union_def Let_def)
  show "same_root (alias_union a b p) x y \<longleftrightarrow> same_root p x y \<or> same_root p x a \<and> same_root p b y \<or> same_root p x b \<and> same_root p a y"
  proof (cases "find_root ?p a = find_root ?p b")
    case True
    then show ?thesis by (auto simp: alias_union_def Let_def same_root_def f)
  next
    case False
    then have "find_root (alias_union a b p) z = (if find_root p z = find_root p b then find_root p a else find_root p z)" for z
      using link_ok(2) [OF k2(1) False dom t t] by (simp add: alias_union_def Let_def f)
    then show ?thesis using False by (auto simp: same_root_def f)
  qed
qed

subsection \<open>Records\<close>

definition alias_rel :: "js \<Rightarrow> (ustr \<times> ustr) set" where
  "alias_rel d = {(x, y). \<exists>m \<in> set (allMonRecords d). x \<in> set (mon_keys m) \<and> y \<in> set (mon_keys m)}"

definition uf_sound :: "(ustr \<times> ustr) set \<Rightarrow> alias_parents \<Rightarrow> bool" where
  "uf_sound R p \<longleftrightarrow> uf_ok p \<and> (\<forall>x y. same_root p x y \<longrightarrow> (x, y) \<in> R\<^sup>*)"

lemma uf_steps:
  assumes "sym R" "uf_sound R p"
  shows "uf_sound R (add_key k p)" "(a, b) \<in> R \<Longrightarrow> uf_sound R (alias_union a b p)"
proof -
  have s: "same_root (add_key k p) x y = same_root p x y" for x y
    using assms(2) add_key_ok(2) by (simp add: uf_sound_def same_root_def)
  then show "uf_sound R (add_key k p)" using assms(2) add_key_ok(1) by (simp add: uf_sound_def)
  have y: "sym (R\<^sup>*)" by (rule sym_rtrancl [OF assms(1)])
  show "uf_sound R (alias_union a b p)" if "(a, b) \<in> R"
    unfolding uf_sound_def
  proof (intro conjI allI impI)
    show "uf_ok (alias_union a b p)" using assms(2) union_ok(1) by (simp add: uf_sound_def)
    fix x z assume "same_root (alias_union a b p) x z"
    then consider "same_root p x z" | "same_root p x a" "same_root p b z" | "same_root p x b" "same_root p a z"
      using assms(2) union_ok(2) by (auto simp: uf_sound_def)
    then show "(x, z) \<in> R\<^sup>*"
    proof cases
      case 1
      then show ?thesis using assms(2) by (simp add: uf_sound_def)
    next
      case 2
      then have "(x, a) \<in> R\<^sup>*" "(b, z) \<in> R\<^sup>*" using assms(2) by (simp_all add: uf_sound_def)
      then show ?thesis using that by (meson rtrancl_into_rtrancl rtrancl_trans)
    next
      case 3
      then have "(x, b) \<in> R\<^sup>*" "(a, z) \<in> R\<^sup>*" using assms(2) by (simp_all add: uf_sound_def)
      moreover have "(b, a) \<in> R\<^sup>*" using that y by (meson r_into_rtrancl symD)
      ultimately show ?thesis by (meson rtrancl_trans)
    qed
  qed
qed

lemma same_root_mono: "uf_ok p \<Longrightarrow> same_root p x y \<Longrightarrow> same_root (alias_union a b p) x y"
  by (simp add: union_ok(2))

lemma unions:
  assumes "sym R" "uf_sound R p" "\<And>k. k \<in> set ks \<Longrightarrow> (r, k) \<in> R"
  shows "uf_sound R (fold (alias_union r) ks p) \<and> (\<forall>k \<in> set ks. same_root (fold (alias_union r) ks p) r k)
    \<and> (\<forall>x y. same_root p x y \<longrightarrow> same_root (fold (alias_union r) ks p) x y)"
  using assms(2,3)
proof (induction ks arbitrary: p)
  case (Cons k ks)
  have ok: "uf_ok p" using Cons.prems(1) by (simp add: uf_sound_def)
  have s: "uf_sound R (alias_union r k p)" using uf_steps(2) [OF assms(1) Cons.prems(1)] Cons.prems(2) by simp
  have "same_root (alias_union r k p) r k" using union_ok(2) [OF ok] by (simp add: same_root_def)
  with Cons.IH [OF s] Cons.prems(2) same_root_mono [OF ok] show ?case by simp
qed simp

lemma unite_ok:
  assumes "sym R" "uf_sound R p" "\<And>x y. x \<in> set ks \<Longrightarrow> y \<in> set ks \<Longrightarrow> (x, y) \<in> R"
  shows "uf_sound R (unite_record ks p) \<and> (\<forall>x \<in> set ks. \<forall>y \<in> set ks. same_root (unite_record ks p) x y)
    \<and> (\<forall>x y. same_root p x y \<longrightarrow> same_root (unite_record ks p) x y)"
proof (cases ks)
  case (Cons r rs)
  have a: "uf_sound R (fold add_key ls q) \<and> (\<forall>x y. same_root (fold add_key ls q) x y = same_root q x y)" if "uf_sound R q" for ls q
    using that
  proof (induction ls arbitrary: q)
    case (Cons l ls)
    have "same_root (add_key l q) x y = same_root q x y" for x y
      using Cons.prems add_key_ok(2) by (simp add: uf_sound_def same_root_def)
    with Cons.IH [OF uf_steps(1) [OF assms(1) Cons.prems]] show ?case by simp
  qed simp
  have r: "(r, k) \<in> R" if "k \<in> set ks" for k using assms(3) that Cons by simp
  have e: "unite_record ks p = fold (alias_union r) ks (fold add_key ks p)" by (simp only: unite_record_def Cons list.case)
  note a1 = a [OF assms(2), of ks]
  note u1 = unions [OF assms(1) conjunct1 [OF a1], of ks r, folded e, OF r]
  have u: "uf_sound R (unite_record ks p)" "\<And>k. k \<in> set ks \<Longrightarrow> same_root (unite_record ks p) r k"
    "\<And>x y. same_root p x y \<Longrightarrow> same_root (unite_record ks p) x y"
    using u1 a1 by blast+
  then show ?thesis by (metis same_root_def)
qed (simp add: unite_record_def assms(2))

lemma sym_alias: "sym (alias_rel d)"
  by (auto simp: alias_rel_def sym_def)

lemma parents_ok:
  "uf_sound (alias_rel d) (mon_parents d) \<and> (\<forall>x y. (x, y) \<in> alias_rel d \<longrightarrow> same_root (mon_parents d) x y)"
proof -
  have "uf_sound (alias_rel d) (fold unite_record (map mon_keys ms) p)
      \<and> (\<forall>m \<in> set ms. \<forall>x \<in> set (mon_keys m). \<forall>y \<in> set (mon_keys m). same_root (fold unite_record (map mon_keys ms) p) x y)
      \<and> (\<forall>x y. same_root p x y \<longrightarrow> same_root (fold unite_record (map mon_keys ms) p) x y)"
    if "set ms \<subseteq> set (allMonRecords d)" "uf_sound (alias_rel d) p" for ms p
    using that
  proof (induction ms arbitrary: p)
    case (Cons m ms)
    have "(x, y) \<in> alias_rel d" if "x \<in> set (mon_keys m)" "y \<in> set (mon_keys m)" for x y
      using that Cons.prems(1) by (auto simp: alias_rel_def)
    note u = unite_ok [OF sym_alias Cons.prems(2) this]
    have "set ms \<subseteq> set (allMonRecords d)" using Cons.prems(1) by simp
    from Cons.IH [OF this conjunct1 [OF u]] u show ?case by simp
  qed simp
  moreover have "uf_sound (alias_rel d) []"
    by (simp add: uf_sound_def uf_ok_def edge_def acyclic_def same_root_def find_root_def)
  ultimately show ?thesis by (fastforce simp: mon_parents_def alias_rel_def)
qed

lemma same_subject: "find_root (mon_parents d) x = find_root (mon_parents d) y \<longleftrightarrow> (x, y) \<in> (alias_rel d)\<^sup>*"
proof
  show "find_root (mon_parents d) x = find_root (mon_parents d) y \<Longrightarrow> (x, y) \<in> (alias_rel d)\<^sup>*"
    using parents_ok by (simp add: uf_sound_def same_root_def)
  assume "(x, y) \<in> (alias_rel d)\<^sup>*"
  then show "find_root (mon_parents d) x = find_root (mon_parents d) y"
    by (induction rule: rtrancl_induct) (use parents_ok in \<open>auto simp: same_root_def\<close>)
qed

subsection \<open>Which names are the same subject\<close>

lemma root_same: "uf_ok p \<Longrightarrow> find_root p (find_root p x) = find_root p x"
  using root_path [of p x] root_path [of p "find_root p x"] by (auto simp: Domain_iff elim: converse_rtranclE)

lemma root_alias: "(x, find_root (mon_parents d) x) \<in> (alias_rel d)\<^sup>*"
  unfolding same_subject [symmetric] using parents_ok by (simp add: uf_sound_def root_same)

lemma alias_nonempty: "(x, y) \<in> (alias_rel d)\<^sup>* \<Longrightarrow> x = [] \<longleftrightarrow> y = []"
  by (induction rule: rtrancl_induct) (auto simp: alias_rel_def mon_keys_def)

lemma canonical_empty: "monCanonicalKey d mon = [] \<longleftrightarrow> normKey (JStr mon) = []"
  using alias_nonempty [OF root_alias [of "normKey (JStr mon)" d]] by (simp add: monCanonicalKey_def)

text \<open>
  C33: Two names are the same subject for the page exactly when, normalized, neither is empty and a chain
  of subject rows leads from one to the other, each row holding two neighbours of the chain among its
  names, codes and identifiers. The union-find of \<open>ensureMonAliasIndex\<close> computes this closure.
\<close>

theorem subjects_match:
  "monMatches d a b \<longleftrightarrow> normKey (JStr a) \<noteq> [] \<and> normKey (JStr b) \<noteq> [] \<and> (normKey (JStr a), normKey (JStr b)) \<in> (alias_rel d)\<^sup>*"
  unfolding monMatches_def canonical_empty by (simp add: monCanonicalKey_def same_subject)

end
