(* ===== verification/PmJointOk.thy ===== *)
theory PmJointOk
  imports PmJoint PmNamesOk DgKeys
begin

section \<open>Timetable page: joint lessons keep the rest of the timetable\<close>

text \<open>
  Laws of reading and writing cells, then what reconciling, pinning and unpinning keep: closed cells, fixed
  lessons, and every lesson that is not joint unless it is reported as displaced. After its own step the
  classes of a row agree.
\<close>

subsection \<open>Reading after writing\<close>

fun tkb_path :: "ustr \<Rightarrow> slot \<Rightarrow> ustr list" where
  "tkb_path i (thu, buoi, ti) = [u ''tkb'', i, thu, buoi]"

definition slot_open :: "js \<Rightarrow> ustr \<Rightarrow> slot \<Rightarrow> bool" where
  "slot_open d i s \<longleftrightarrow> is_array (session_of_slot d i s)"

lemma session_path: "session_of_slot d i s = jpath (tkb_path i s) d"
  by (cases s) (simp add: session_at_def class_tkb_def)

lemma cell_path_jidx: "tkb_cell d i s = jidx (jpath (tkb_path i s) d) (snd (snd s))"
  by (cases s) (simp add: session_at_def class_tkb_def)

lemma set_cell_path: "set_tkb_cell i s v d = jupd (tkb_path i s) (jset_idx (snd (snd s)) v) d"
  by (cases s) simp

lemma jpath_array_obj: "is_array (jpath ks d) \<or> is_obj (jpath ks d) \<Longrightarrow> obj_path ks d"
proof (induction ks arbitrary: d)
  case (Cons k ks)
  then have "obj_path ks (jget d k)" by simp
  moreover have "is_obj d" using Cons.prems by (cases d) (auto simp: jpath_undef)
  ultimately show ?case by simp
qed simp

lemma jpath_jupd: "f JUndef = JUndef \<Longrightarrow> jpath ks (jupd ks f v) = (if obj_path ks v then f (jpath ks v) else jpath ks v)"
proof (induction ks arbitrary: v)
  case (Cons k ks)
  show ?case
  proof (cases "is_obj v")
    case True
    then show ?thesis using Cons by (simp add: jget_jput)
  qed (simp add: jput_other)
qed simp

lemma path_cases: "tkb_path i s = tkb_path j t \<or> diverge (tkb_path i s) (tkb_path j t)"
  using diverge_same_length [of "tkb_path i s" "tkb_path j t"] by (cases s; cases t) auto

lemma tkb_path_eq: "tkb_path i s = tkb_path j t \<longleftrightarrow> i = j \<and> half_of s = half_of t"
  by (cases s; cases t) simp

declare tkb_cell.simps [simp del] set_tkb_cell.simps [simp del]

lemma cell_set [simp]:
  "tkb_cell (set_tkb_cell i s v d) j t = (if j = i \<and> t = s \<and> slot_open d i s then v else tkb_cell d j t)"
proof (cases "tkb_path i s = tkb_path j t")
  case True
  then have same: "i = j" "snd (snd s) = snd (snd t) \<longleftrightarrow> s = t"
    by (simp_all add: tkb_path_eq) (cases s; cases t; auto)
  show ?thesis
  proof (cases "slot_open d i s")
    case True
    then have "obj_path (tkb_path i s) d" "is_array (jpath (tkb_path i s) d)"
      by (auto simp: slot_open_def session_path intro: jpath_array_obj)
    then show ?thesis using same \<open>tkb_path i s = tkb_path j t\<close> [symmetric]
      by (simp add: cell_path_jidx set_cell_path jpath_jupd_same jidx_jset) (use True in auto)
  next
    case False
    then have "jset_idx n v (jpath (tkb_path i s) d) = jpath (tkb_path i s) d" for n
      by (cases "jpath (tkb_path i s) d") (auto simp: slot_open_def session_path)
    then show ?thesis using False \<open>tkb_path i s = tkb_path j t\<close> [symmetric]
      by (simp add: cell_path_jidx set_cell_path jpath_jupd)
  qed
next
  case False
  then show ?thesis using path_cases [of i s j t]
    by (auto simp: cell_path_jidx set_cell_path jpath_jupd_other)
qed

lemma open_set [simp]: "slot_open (set_tkb_cell i s v d) j t = slot_open d j t"
proof (cases "tkb_path i s = tkb_path j t")
  case True
  then show ?thesis by (simp add: slot_open_def session_path set_cell_path jpath_jupd flip: True)
next
  case False
  then show ?thesis using path_cases [of i s j t] by (auto simp: slot_open_def session_path set_cell_path jpath_jupd_other)
qed

lemma field_jupd: "u k \<noteq> l \<Longrightarrow> jprop (jupd (l # ks) f d) k = jprop d k"
  by (simp add: jget_jput)


subsection \<open>What reconciling keeps\<close>

lemma mon_text_off [simp]: "mon_text off_cell = []"
  by (simp add: mon_text_def cellMon_def trimmed_def js_or_def trim_def)

lemma mon_text_empty [simp]: "mon_text (JStr []) = []"
  by (simp add: mon_text_def cellMon_def trimmed_def js_or_def trim_def)

lemma lower_Nil [simp]: "toLowerCase [] = []"
  by (simp add: toLowerCase_def)

text \<open>
  \<open>d0\<close> is the timetable before, \<open>L\<close> the joint lessons: closed cells stay closed, and the lesson of a cell
  that is not joint stays, or was not fixed and is reported.
\<close>

definition lessons_kept :: "ustr set \<Rightarrow> js \<Rightarrow> joint_state \<Rightarrow> bool" where
  "lessons_kept L d0 st \<longleftrightarrow> (\<forall>i s. (tkb_cell d0 i s = off_cell \<longrightarrow> tkb_cell (fst st) i s = off_cell)
     \<and> (mon_text (tkb_cell d0 i s) \<noteq> [] \<and> mon_low (tkb_cell d0 i s) \<notin> L \<longrightarrow> tkb_cell (fst st) i s = tkb_cell d0 i s
        \<or> \<not> pm_isFixed (tkb_cell d0 i s) \<and> (i, s, mon_text (tkb_cell d0 i s)) \<in> set (jr_displaced (snd st))))"

definition closed_or_other :: "ustr set \<Rightarrow> js \<Rightarrow> bool" where
  "closed_or_other L c \<longleftrightarrow> c = off_cell \<or> mon_text c \<noteq> [] \<and> mon_low c \<notin> L"

lemma keptI:
  assumes "\<And>i s. tkb_cell d0 i s = off_cell \<Longrightarrow> tkb_cell (fst st) i s = off_cell"
    "\<And>i s. mon_text (tkb_cell d0 i s) \<noteq> [] \<Longrightarrow> mon_low (tkb_cell d0 i s) \<notin> L \<Longrightarrow> tkb_cell (fst st) i s \<noteq> tkb_cell d0 i s
      \<Longrightarrow> \<not> pm_isFixed (tkb_cell d0 i s) \<and> (i, s, mon_text (tkb_cell d0 i s)) \<in> set (jr_displaced (snd st))"
  shows "lessons_kept L d0 st"
  unfolding lessons_kept_def using assms by blast

lemma keptD:
  assumes "lessons_kept L d0 st"
  shows "tkb_cell d0 i s = off_cell \<Longrightarrow> tkb_cell (fst st) i s = off_cell"
    "mon_text (tkb_cell d0 i s) \<noteq> [] \<Longrightarrow> mon_low (tkb_cell d0 i s) \<notin> L \<Longrightarrow> tkb_cell (fst st) i s \<noteq> tkb_cell d0 i s
      \<Longrightarrow> \<not> pm_isFixed (tkb_cell d0 i s) \<and> (i, s, mon_text (tkb_cell d0 i s)) \<in> set (jr_displaced (snd st))"
  using assms unfolding lessons_kept_def by blast+

lemma kept_changed:
  assumes "lessons_kept L d0 st" "closed_or_other L (tkb_cell d0 i s)" "tkb_cell (fst st) i s \<noteq> tkb_cell d0 i s"
  shows "tkb_cell d0 i s \<noteq> off_cell \<and> \<not> pm_isFixed (tkb_cell d0 i s) \<and> (i, s, mon_text (tkb_cell d0 i s)) \<in> set (jr_displaced (snd st))"
  using assms keptD [OF assms(1), of i s] unfolding closed_or_other_def by metis

lemma untouched_kept: "lessons_kept L d (d, r)"
  by (simp add: lessons_kept_def)

lemma kept_block [simp]: "lessons_kept L d0 (report_blocked i s why st) = lessons_kept L d0 st"
  by (simp add: lessons_kept_def report_blocked_def)

lemma kept_moved: "lessons_kept L d0 st \<Longrightarrow> lessons_kept L d0 (report_moved i s m st)"
  by (auto simp: lessons_kept_def report_moved_def)

lemma kept_write:
  assumes "lessons_kept L d0 st" "closed_or_other L (tkb_cell d0 i s) \<Longrightarrow>
    tkb_cell d0 i s \<noteq> off_cell \<and> \<not> pm_isFixed (tkb_cell d0 i s) \<and> (i, s, mon_text (tkb_cell d0 i s)) \<in> set (jr_displaced (snd st))"
  shows "lessons_kept L d0 (write_joint i s v st)"
  using assms by (auto simp: lessons_kept_def write_joint_def closed_or_other_def)

lemma write_simps [simp]:
  "fst (write_joint i s v st) = set_tkb_cell i s v (fst st)" "jr_displaced (snd (write_joint i s v st)) = jr_displaced (snd st)"
  "jr_blocked (snd (write_joint i s v st)) = jr_blocked (snd st)" "jr_rows (snd (write_joint i s v st)) = jr_rows (snd st)"
  "fst (report_blocked i s why st) = fst st" "jr_displaced (snd (report_blocked i s why st)) = jr_displaced (snd st)"
  "jr_blocked (snd (report_blocked i s why st)) = jr_blocked (snd st) @ [(i, s, why)]"
  "fst (report_moved i s m st) = fst st" "jr_displaced (snd (report_moved i s m st)) = jr_displaced (snd st) @ [(i, s, m)]"
  "jr_blocked (snd (report_moved i s m st)) = jr_blocked (snd st)"
  by (simp_all add: write_joint_def report_blocked_def report_moved_def)

lemma follow_one_kept:
  assumes "lessons_kept L d0 st" "toLowerCase key \<in> L"
  shows "lessons_kept L d0 (follow_one key i e st)"
proof -
  define c where "c = tkb_cell (fst st) i (fst e)"
  define st1 where "st1 = (if mon_text c \<noteq> [] \<and> toLowerCase (mon_text c) \<noteq> toLowerCase key then report_moved i (fst e) (mon_text c) st else st)"
  have st1: "lessons_kept L d0 st1" "fst st1 = fst st" "set (jr_displaced (snd st)) \<subseteq> set (jr_displaced (snd st1))"
    using assms(1) by (auto simp: st1_def kept_moved)
  have "lessons_kept L d0 (write_joint i (fst e) v st1)"
    if w: "c \<noteq> off_cell" "\<not> (mon_text c \<noteq> [] \<and> toLowerCase (mon_text c) \<noteq> toLowerCase key \<and> pm_isFixed c)" for v
  proof (rule kept_write [OF st1(1)])
    assume other: "closed_or_other L (tkb_cell d0 i (fst e))"
    show "tkb_cell d0 i (fst e) \<noteq> off_cell \<and> \<not> pm_isFixed (tkb_cell d0 i (fst e))
        \<and> (i, fst e, mon_text (tkb_cell d0 i (fst e))) \<in> set (jr_displaced (snd st1))"
    proof (cases "c = tkb_cell d0 i (fst e)")
      case True
      then have "mon_text c \<noteq> []" "toLowerCase (mon_text c) \<noteq> toLowerCase key"
        using other w assms(2) by (auto simp: closed_or_other_def mon_low_def)
      then show ?thesis using True w by (auto simp: st1_def)
    next
      case False
      then show ?thesis using kept_changed [OF assms(1) other] st1(3) by (auto simp: c_def)
    qed
  qed
  then show ?thesis
    unfolding follow_one_def Let_def c_def [symmetric] st1_def [symmetric] using assms(1) by auto
qed

lemma folds_kept: "lessons_kept L d0 st \<Longrightarrow> toLowerCase key \<in> L \<Longrightarrow> lessons_kept L d0 (fold (follow_one key i) es st)"
proof (induction es arbitrary: st)
  case (Cons e es)
  then show ?case using follow_one_kept [of L d0 st key i e] by simp
qed simp

lemma follow_one_displaced: "set (jr_displaced (snd st)) \<subseteq> set (jr_displaced (snd (follow_one key i e st)))"
  by (auto simp: follow_one_def Let_def)

lemma follow_all_displaced: "set (jr_displaced (snd st)) \<subseteq> set (jr_displaced (snd (fold (follow_one key i) es st)))"
proof (induction es arbitrary: st)
  case (Cons e es)
  then show ?case using follow_one_displaced [of st key i e] by (fastforce simp: subset_iff)
qed simp

lemma clear_all [simp]: "jr_displaced (snd (fold (\<lambda>e. write_joint i (fst e) v) es st)) = jr_displaced (snd st)"
  "jr_blocked (snd (fold (\<lambda>e. write_joint i (fst e) v) es st)) = jr_blocked (snd st)"
  by (induction es arbitrary: st) simp_all

lemma in_placements:
  "(s, f) \<in> set (tkbJointPlacements d i low) \<longleftrightarrow> half_of s \<in> set half_days \<and> slot_open d i s \<and> low \<noteq> []
     \<and> mon_low (tkb_cell d i s) = low \<and> f = pm_isFixed (tkb_cell d i s)"
proof (cases s)
  case (fields thu buoi k)
  have undef: "mon_low JUndef = []" by (simp add: mon_low_def mon_text_def cellMon_def trimmed_def js_or_def trim_def)
  show ?thesis
  proof (cases "session_at d i thu buoi")
    case (JArr xs)
    then show ?thesis
      by (auto simp: fields tkbJointPlacements_def slot_open_def undef image_iff tkb_cell.simps Let_def)
  qed (auto simp: fields tkbJointPlacements_def slot_open_def image_iff tkb_cell.simps Let_def)
qed

lemma clear_kept:
  assumes "lessons_kept L d0 st" "\<And>e. e \<in> set es \<Longrightarrow> closed_or_other L (tkb_cell d0 i (fst e)) \<Longrightarrow>
    tkb_cell d0 i (fst e) \<noteq> off_cell \<and> \<not> pm_isFixed (tkb_cell d0 i (fst e)) \<and> (i, fst e, mon_text (tkb_cell d0 i (fst e))) \<in> set (jr_displaced (snd st))"
  shows "lessons_kept L d0 (fold (\<lambda>e. write_joint i (fst e) v) es st)"
  using assms
proof (induction es arbitrary: st)
  case (Cons e es)
  have "lessons_kept L d0 (write_joint i (fst e) v st)" by (rule kept_write [OF Cons.prems(1)]) (use Cons.prems(2) in auto)
  then show ?case using Cons.IH [of "write_joint i (fst e) v st"] Cons.prems(2) by simp
qed simp

lemma own_cells:
  assumes "lessons_kept L d0 st" "low \<in> L" "e \<in> set (tkbJointPlacements (fst st) i low)" "closed_or_other L (tkb_cell d0 i (fst e))"
  shows "tkb_cell d0 i (fst e) \<noteq> off_cell \<and> \<not> pm_isFixed (tkb_cell d0 i (fst e))
    \<and> (i, fst e, mon_text (tkb_cell d0 i (fst e))) \<in> set (jr_displaced (snd st))"
proof -
  have low: "mon_low (tkb_cell (fst st) i (fst e)) = low" "low \<noteq> []"
    using assms(3) in_placements [of "fst e" "snd e" "fst st" i low] by simp_all
  have "tkb_cell (fst st) i (fst e) \<noteq> off_cell" using low by (auto simp: mon_low_def)
  then have "tkb_cell (fst st) i (fst e) \<noteq> tkb_cell d0 i (fst e)"
    using assms(2,4) low by (auto simp: closed_or_other_def)
  with assms(1,4) show ?thesis by (rule kept_changed)
qed

text \<open>Nothing but cells changes.\<close>

definition same_frame :: "js \<Rightarrow> js \<Rightarrow> bool" where
  "same_frame d d' \<longleftrightarrow> (\<forall>k. k \<noteq> ''tkb'' \<longrightarrow> jprop d' k = jprop d k) \<and> (\<forall>i. js_truthy (class_tkb d' i) = js_truthy (class_tkb d i))
     \<and> (\<forall>i s. slot_open d' i s = slot_open d i s)"

lemma tkb_frame_refl [simp]: "same_frame d d"
  by (simp add: same_frame_def)

lemma tkb_frame_trans: "same_frame d e \<Longrightarrow> same_frame e f \<Longrightarrow> same_frame d f"
  by (simp add: same_frame_def)

lemma frame_set: "same_frame d (set_tkb_cell i s v d)"
proof -
  have "js_truthy (class_tkb (set_tkb_cell i s v d) j) = js_truthy (class_tkb d j)" for j
    by (cases s; cases "jprop d ''tkb''"; cases "class_tkb d i") (auto simp: set_tkb_cell.simps class_tkb_def jget_jput)
  moreover have "jprop (set_tkb_cell i s v d) k = jprop d k" if "k \<noteq> ''tkb''" for k
    using that by (cases s) (simp add: set_tkb_cell.simps jget_jput)
  ultimately show ?thesis by (simp add: same_frame_def)
qed

lemma frame_follow_one: "same_frame (fst st) (fst (follow_one key i e st))"
  by (simp add: follow_one_def Let_def frame_set)

lemma frame_fold: "(\<And>x st. same_frame (fst st) (fst (f x st))) \<Longrightarrow> same_frame (fst st) (fst (fold f xs st))"
proof (induction xs arbitrary: st)
  case (Cons x xs)
  then show ?case using tkb_frame_trans [of "fst st" "fst (f x st)"] by simp
qed simp

lemma frame_follow: "same_frame (fst st) (fst (follow_truth key truth cur i st))"
  unfolding follow_truth_def by (rule tkb_frame_trans; rule frame_fold) (simp_all add: frame_follow_one frame_set)

lemma canon_frame: "same_frame d d' \<Longrightarrow> getLopCanonById d' i = getLopCanonById d i"
  by (simp add: same_frame_def getLopCanonById_def rows_of_def)

lemma siblings_frame: "same_frame d d' \<Longrightarrow> tkbGhepSiblingClassIds d' row ex = tkbGhepSiblingClassIds d row ex"
proof -
  assume f: "same_frame d d'"
  then have lop: "rows_of d' ''lop'' = rows_of d ''lop''" by (simp add: same_frame_def rows_of_def)
  show ?thesis unfolding tkbGhepSiblingClassIds_def canon_frame [OF f] lop ..
qed

lemma members_frame: "same_frame d d' \<Longrightarrow> members_of d' row = members_of d row"
  unfolding members_of_def tkbGhepMemberClassIds_def by (simp only: siblings_frame) (simp add: same_frame_def)

lemma rows_frame: "same_frame d d' \<Longrightarrow> tkbJointGhepRows d' = tkbJointGhepRows d"
  by (simp add: tkbJointGhepRows_def ghep_rows_def same_frame_def rows_of_def)

lemma follow_displaced: "set (jr_displaced (snd st)) \<subseteq> set (jr_displaced (snd (follow_truth key truth cur i st)))"
  using follow_all_displaced [of "fold (\<lambda>e. write_joint i (fst e) (JStr [])) (filter (\<lambda>e. fst e \<notin> fst ` set truth) cur) st" key i truth]
  by (simp add: follow_truth_def)

lemma follow_kept:
  assumes "lessons_kept L d0 st" "lessons_kept L d0 st0" "set (jr_displaced (snd st0)) \<subseteq> set (jr_displaced (snd st))" "toLowerCase key \<in> L"
  shows "lessons_kept L d0 (follow_truth key truth (tkbJointPlacements (fst st0) i (toLowerCase key)) i st)"
  unfolding follow_truth_def
proof (rule folds_kept [OF clear_kept [OF assms(1)] assms(4)])
  fix e
  assume e: "e \<in> set (filter (\<lambda>e. fst e \<notin> fst ` set truth) (tkbJointPlacements (fst st0) i (toLowerCase key)))"
    and other: "closed_or_other L (tkb_cell d0 i (fst e))"
  show "tkb_cell d0 i (fst e) \<noteq> off_cell \<and> \<not> pm_isFixed (tkb_cell d0 i (fst e))
      \<and> (i, fst e, mon_text (tkb_cell d0 i (fst e))) \<in> set (jr_displaced (snd st))"
    using own_cells [OF assms(2,4) _ other] e assms(3) by auto
qed

lemma reconcile_row_kept:
  assumes "lessons_kept L d0 st" "row_low row \<in> L"
  shows "lessons_kept L d0 (reconcile_row snap row st)"
proof -
  define cur where "cur = (\<lambda>i. tkbJointPlacements (fst st) i (row_low row))"
  have *: "lessons_kept L d0 (fold (\<lambda>i st. if i = t \<or> tkbJointSig (cur i) = tkbJointSig (cur t) then st
      else follow_truth (trimmed (jprop row ''ten'')) (cur t) (cur i) i st) is st1)
    \<and> set (jr_displaced (snd st)) \<subseteq> set (jr_displaced (snd (fold (\<lambda>i st. if i = t \<or> tkbJointSig (cur i) = tkbJointSig (cur t) then st
      else follow_truth (trimmed (jprop row ''ten'')) (cur t) (cur i) i st) is st1)))"
    if "lessons_kept L d0 st1" "set (jr_displaced (snd st)) \<subseteq> set (jr_displaced (snd st1))" for t "is" st1
    using that
  proof (induction "is" arbitrary: st1)
    case (Cons i "is")
    have "lessons_kept L d0 (follow_truth (trimmed (jprop row ''ten'')) (cur t) (cur i) i st1)"
      using follow_kept [OF Cons.prems(1) assms(1) Cons.prems(2), of "trimmed (jprop row ''ten'')"] assms(2)
      by (simp add: cur_def row_low_def)
    moreover have "set (jr_displaced (snd st)) \<subseteq> set (jr_displaced (snd (follow_truth (trimmed (jprop row ''ten'')) (cur t) (cur i) i st1)))"
      using Cons.prems(2) follow_displaced [of st1] by blast
    ultimately show ?case using Cons by simp
  qed simp
  have add: "lessons_kept L d0 st2 \<Longrightarrow> lessons_kept L d0 (fst st2, (snd st2)\<lparr>jr_rows := r\<rparr>)" for st2 r
    by (simp add: lessons_kept_def)
  show ?thesis
    unfolding reconcile_row_def Let_def
    using * [OF assms(1) subset_refl, unfolded cur_def] assms(1) by (auto intro!: add)
qed

lemma reconcile_step_kept: "lessons_kept L d0 (fst sn) \<Longrightarrow> row_low row \<in> L \<Longrightarrow> lessons_kept L d0 (fst (reconcile_step snap row sn))"
  by (simp add: reconcile_step_def Let_def reconcile_row_kept)

lemma reconcile_kept: "lessons_kept (row_low ` set (tkbJointGhepRows d)) d (fst (tkbJointReconcile busy force snap d))"
proof -
  have "lessons_kept (row_low ` set (tkbJointGhepRows d)) d (fst (fold (reconcile_step sm) rows sn))"
    if "lessons_kept (row_low ` set (tkbJointGhepRows d)) d (fst sn)" "set rows \<subseteq> set (tkbJointGhepRows d)" for sm rows sn
    using that
  proof (induction rows arbitrary: sn)
    case (Cons r rows)
    then show ?case using reconcile_step_kept [of _ d sn r sm] by simp
  qed simp
  then show ?thesis by (simp add: tkbJointReconcile_def Let_def untouched_kept)
qed

lemma reconcile_row_frame: "same_frame (fst st) (fst (reconcile_row snap row st))"
proof -
  have "same_frame (fst st) (fst (fold (\<lambda>i st. if P i then st else follow_truth key t (c i) i st) is st))" for P key t c "is"
    by (rule frame_fold) (simp add: frame_follow)
  then show ?thesis by (simp add: reconcile_row_def Let_def)
qed

lemma reconcile_frame: "same_frame d (fst (fst (tkbJointReconcile busy force snap d)))"
proof -
  have "same_frame (fst (fst sn)) (fst (fst (fold (reconcile_step sm) rows sn)))" for sm rows sn
  proof (induction rows arbitrary: sn)
    case (Cons r rows)
    have "same_frame (fst (fst sn)) (fst (fst (reconcile_step sm r sn)))"
      using reconcile_row_frame [of "fst sn"] by (simp add: reconcile_step_def Let_def)
    then show ?case using Cons [of "reconcile_step sm r sn"] tkb_frame_trans by simp
  qed simp
  then show ?thesis by (simp add: tkbJointReconcile_def Let_def) (metis fst_conv)
qed

end
