(* ===== verification/PmAgree.thy ===== *)
theory PmAgree
  imports PmJointOk
begin

section \<open>Timetable page: the classes of a joint row agree\<close>

text \<open>
  Two classes have the same signature exactly when the joint lesson stands at the same slots with the same
  locks, and after the step of a row every class shows the joint lesson where the class of the truth does,
  unless a cell of the class was reported as blocked.
\<close>

subsection \<open>Signatures\<close>

lemma append_sep: "c \<notin> set a \<Longrightarrow> c \<notin> set a' \<Longrightarrow> a @ c # b = a' @ c # b' \<longleftrightarrow> a = a' \<and> b = b'"
proof (induction a arbitrary: a')
  case Nil
  then show ?case by (cases a') auto
next
  case (Cons x a)
  then show ?case by (cases a') auto
qed

lemma split_join:
  "ws \<noteq> [] \<Longrightarrow> (\<And>w. w \<in> set ws \<Longrightarrow> c \<notin> set w) \<Longrightarrow> split_on (\<lambda>x. x = c) (join_with [c] ws) = ws"
proof (induction ws)
  case (Cons w ws)
  have head: "c \<notin> set v \<Longrightarrow> split_on (\<lambda>x. x = c) (v @ c # r) = v # split_on (\<lambda>x. x = c) r" for v r
    by (induction v) (auto split: list.splits)
  have last: "c \<notin> set v \<Longrightarrow> split_on (\<lambda>x. x = c) v = [v]" for v
    by (induction v) (auto split: list.splits)
  show ?case
  proof (cases ws)
    case Nil
    then show ?thesis using Cons.prems last by simp
  next
    case (Cons w' ws')
    then show ?thesis using Cons.prems Cons.IH head [of w "join_with [c] ws"] by simp
  qed
qed simp

definition plain_slot :: "slot \<times> bool \<Rightarrow> bool" where
  "plain_slot e \<longleftrightarrow> half_of (fst e) \<in> set half_days"

lemma half_texts: "(thu, buoi) \<in> set half_days \<Longrightarrow> 124 \<notin> set thu \<and> 124 \<notin> set buoi \<and> 59 \<notin> set thu \<and> 59 \<notin> set buoi"
  by (auto simp: half_days_def days_list_def sessions_list_def u_def)

lemma plain_key: "half_of s \<in> set half_days \<Longrightarrow> half_of t \<in> set half_days \<Longrightarrow> slot_key s = slot_key t \<longleftrightarrow> s = t"
  using half_texts [of "fst s" "fst (snd s)"] half_texts [of "fst t" "fst (snd t)"]
  by (cases s; cases t) (auto simp: append_sep)

lemma sig_entry_inj:
  assumes "plain_slot e" "plain_slot e'"
  shows "sig_entry e = sig_entry e' \<longleftrightarrow> e = e'"
proof
  assume eq: "sig_entry e = sig_entry e'"
  then have "last (sig_entry e) = last (sig_entry e')" "butlast (sig_entry e) = butlast (sig_entry e')" by simp_all
  then have "snd e = snd e'" "slot_key (fst e) = slot_key (fst e')"
    by (simp_all add: sig_entry_def u_def butlast_append split: if_splits)
  then show "e = e'" using assms by (simp add: plain_slot_def plain_key prod_eq_iff)
qed simp

lemma sig_entry_sep: "plain_slot e \<Longrightarrow> 59 \<notin> set (sig_entry e)"
  using half_texts [of "fst (fst e)" "fst (snd (fst e))"] nat_str_unit [of 59 "snd (snd (fst e))"]
  by (cases "fst e") (auto simp: plain_slot_def sig_entry_def u_def)

lemma sig_entry_ne: "sig_entry e \<noteq> []"
  by (simp add: sig_entry_def u_def)

lemma sig_set:
  assumes "\<And>e. e \<in> set p \<Longrightarrow> plain_slot e" "\<And>e. e \<in> set q \<Longrightarrow> plain_slot e" "tkbJointSig p = tkbJointSig q"
  shows "set p = set q"
proof -
  define ws where "ws = (\<lambda>p. map sig_entry (sort_key (\<lambda>e. slot_key (fst e)) p))"
  have sep: "w \<in> set (ws p) \<Longrightarrow> 59 \<notin> set w" "w \<in> set (ws q) \<Longrightarrow> 59 \<notin> set w" for w
    using assms(1,2) sig_entry_sep by (auto simp: ws_def)
  have ne: "ws r \<noteq> [] \<Longrightarrow> join_with [59] (ws r) \<noteq> []" for r
    by (cases "ws r"; cases "tl (ws r)") (auto simp: ws_def sig_entry_ne)
  have sig: "tkbJointSig r = join_with [59] (ws r)" for r by (simp add: tkbJointSig_def ws_def)
  have "ws p = ws q"
  proof (cases "ws p = [] \<or> ws q = []")
    case True
    have iff: "ws r = [] \<longleftrightarrow> join_with [59] (ws r) = []" for r using ne [of r] by auto
    have "ws p = [] \<longleftrightarrow> ws q = []" by (simp only: iff [of p] iff [of q] assms(3) [unfolded sig])
    then show ?thesis using True by auto
  next
    case False
    have eq: "join_with [59] (ws p) = join_with [59] (ws q)" using assms(3) unfolding sig .
    have "ws p = split_on (\<lambda>x. x = 59) (join_with [59] (ws p))"
      by (rule split_join [symmetric]) (use False sep(1) in blast)+
    also have "\<dots> = split_on (\<lambda>x. x = 59) (join_with [59] (ws q))" unfolding eq ..
    also have "\<dots> = ws q" by (rule split_join) (use False sep(2) in blast)+
    finally show ?thesis .
  qed
  then have image: "sig_entry ` set p = sig_entry ` set q" by (metis ws_def list.set_map set_sort)
  show ?thesis
  proof (rule inj_on_image_eq_iff [THEN iffD1, OF _ _ _ image])
    show "inj_on sig_entry {e. plain_slot e}" by (rule inj_onI) (simp add: sig_entry_inj)
  qed (use assms(1,2) in auto)
qed

lemma placements_plain: "e \<in> set (tkbJointPlacements d i low) \<Longrightarrow> plain_slot e"
  using in_placements [of "fst e" "snd e" d i low] by (simp add: plain_slot_def)

subsection \<open>Following the truth\<close>

lemma joint_cell_low: "trim key = key \<Longrightarrow> key \<noteq> [] \<Longrightarrow> key \<noteq> u ''OFF'' \<Longrightarrow> mon_low (joint_cell key f) = toLowerCase key \<and> pm_isFixed (joint_cell key f) = f"
  by (auto simp: joint_cell_def mon_low_def mon_text_def cellMon_def trimmed_def js_or_def pm_isFixed_def off_cell_def u_def)

lemma follow_one_other: "(j, t) \<noteq> (i, fst e) \<Longrightarrow> tkb_cell (fst (follow_one key i e st)) j t = tkb_cell (fst st) j t"
  by (auto simp: follow_one_def Let_def)

lemma follow_one_blocked: "set (jr_blocked (snd st)) \<subseteq> set (jr_blocked (snd (follow_one key i e st)))"
  by (auto simp: follow_one_def Let_def)

definition refused :: "ustr \<Rightarrow> joint_state \<Rightarrow> bool" where
  "refused i st \<longleftrightarrow> list_ex (\<lambda>b. fst b = i) (jr_blocked (snd st))"

lemma refused_mono: "set (jr_blocked (snd st)) \<subseteq> set (jr_blocked (snd st')) \<Longrightarrow> refused i st \<Longrightarrow> refused i st'"
  by (auto simp: refused_def list_ex_iff)

definition shows_joint :: "ustr \<Rightarrow> js \<Rightarrow> ustr \<Rightarrow> slot \<times> bool \<Rightarrow> bool" where
  "shows_joint low d i e \<longleftrightarrow> slot_open d i (fst e) \<and> mon_low (tkb_cell d i (fst e)) = low \<and> pm_isFixed (tkb_cell d i (fst e)) = snd e"

lemma follow_one_shows:
  assumes "trim key = key" "key \<noteq> []" "key \<noteq> u ''OFF''"
  shows "refused i (follow_one key i e st) \<or> shows_joint (toLowerCase key) (fst (follow_one key i e st)) i e"
proof -
  define c where "c = tkb_cell (fst st) i (fst e)"
  have fst_st: "fst (if b then report_moved i (fst e) m st else st) = fst st" for b m by simp
  show ?thesis
  proof (cases "slot_open (fst st) i (fst e) \<and> c \<noteq> off_cell \<and> \<not> (mon_text c \<noteq> [] \<and> toLowerCase (mon_text c) \<noteq> toLowerCase key \<and> pm_isFixed c)")
    case False
    then have "refused i (follow_one key i e st)"
      unfolding follow_one_def Let_def c_def [symmetric] slot_open_def by (auto simp: refused_def)
    then show ?thesis ..
  next
    case True
    show ?thesis
    proof (cases "mon_text c \<noteq> [] \<and> toLowerCase (mon_text c) = toLowerCase key \<and> pm_isFixed c = snd e")
      case own: True
      then have "follow_one key i e st = st"
        using True unfolding follow_one_def Let_def c_def [symmetric] slot_open_def by auto
      then show ?thesis using True own by (simp add: shows_joint_def mon_low_def c_def)
    next
      case False
      then have "fst (follow_one key i e st) = set_tkb_cell i (fst e) (joint_cell key (snd e)) (fst st)"
        using True unfolding follow_one_def Let_def c_def [symmetric] slot_open_def by auto
      then show ?thesis using True joint_cell_low [OF assms] by (simp add: shows_joint_def)
    qed
  qed
qed

lemma frame_open: "same_frame d d' \<Longrightarrow> slot_open d' i s = slot_open d i s"
  unfolding same_frame_def by blast

lemma lower_cu_ne: "lower_cu c \<noteq> []"
  by (simp add: lower_cu_def)

lemma lower_empty: "toLowerCase s = [] \<longleftrightarrow> s = []"
  by (cases s) (simp_all add: toLowerCase_def lower_cu_ne)

lemma follow_all_other: "(\<And>e. e \<in> set es \<Longrightarrow> (j, t) \<noteq> (i, fst e)) \<Longrightarrow> tkb_cell (fst (fold (follow_one key i) es st)) j t = tkb_cell (fst st) j t"
proof (induction es arbitrary: st)
  case (Cons e es)
  have "tkb_cell (fst (follow_one key i e st)) j t = tkb_cell (fst st) j t"
    by (rule follow_one_other) (use Cons.prems in auto)
  then show ?case using Cons.IH [of "follow_one key i e st"] Cons.prems by simp
qed simp

lemma follow_all_blocked: "set (jr_blocked (snd st)) \<subseteq> set (jr_blocked (snd (fold (follow_one key i) es st)))"
proof (induction es arbitrary: st)
  case (Cons e es)
  then show ?case using follow_one_blocked [of st key i e] by (fastforce simp: subset_iff)
qed simp

lemma follow_all_shows:
  assumes "trim key = key" "key \<noteq> []" "key \<noteq> u ''OFF''" "distinct (map fst es)" "e \<in> set es"
  shows "refused i (fold (follow_one key i) es st) \<or> shows_joint (toLowerCase key) (fst (fold (follow_one key i) es st)) i e"
  using assms(4,5)
proof (induction es arbitrary: st)
  case (Cons e' es)
  let ?st = "follow_one key i e' st"
  show ?case
  proof (cases "e = e'")
    case True
    have "refused i ?st \<or> shows_joint (toLowerCase key) (fst ?st) i e" using follow_one_shows [OF assms(1-3)] True by simp
    moreover have "tkb_cell (fst (fold (follow_one key i) es ?st)) i (fst e) = tkb_cell (fst ?st) i (fst e)"
      by (rule follow_all_other) (use Cons.prems True in \<open>auto simp: image_iff\<close>)
    moreover have "slot_open (fst (fold (follow_one key i) es ?st)) i (fst e) = slot_open (fst ?st) i (fst e)"
      by (rule frame_open [OF frame_fold [OF frame_follow_one]])
    ultimately show ?thesis
      using refused_mono [OF follow_all_blocked, of i ?st key i es] by (auto simp: shows_joint_def)
  next
    case False
    then show ?thesis using Cons.IH [of ?st] Cons.prems by simp
  qed
qed simp

lemma clear_cells:
  "tkb_cell (fst (fold (\<lambda>e. write_joint i (fst e) v) es st)) j t =
     (if j = i \<and> t \<in> fst ` set es \<and> slot_open (fst st) i t then v else tkb_cell (fst st) j t)"
proof (induction es arbitrary: st)
  case (Cons e es)
  show ?case using Cons [of "write_joint i (fst e) v st"] by auto
qed simp

lemma clear_open: "slot_open (fst (fold (\<lambda>e. write_joint i (fst e) v) es st)) j t = slot_open (fst st) j t"
  by (induction es arbitrary: st) simp_all

lemma distinct_pairs:
  "distinct hs \<Longrightarrow> (\<And>h. h \<in> set hs \<Longrightarrow> distinct (ks h)) \<Longrightarrow> distinct (map fst (concat (map (\<lambda>h. map (\<lambda>k. ((fst h, snd h, k), g h k)) (ks h)) hs)))"
proof (induction hs)
  case (Cons h hs)
  have "distinct (map fst (map (\<lambda>k. ((fst h, snd h, k), g h k)) (ks h)))"
    using Cons.prems by (simp add: comp_def distinct_map inj_on_def)
  then show ?case using Cons by (auto simp: prod_eq_iff)
qed simp

lemma placements_distinct: "distinct (map fst (tkbJointPlacements d i low))"
proof -
  have half: "distinct half_days" by (simp add: half_days_def days_list_def sessions_list_def u_def)
  show ?thesis
    unfolding tkbJointPlacements_def Let_def case_prod_unfold by (rule distinct_pairs [OF half]) simp
qed

text \<open>Before its turn a class shows the joint lesson at most at its own old slots and at those of the truth.\<close>

definition nowhere_else :: "ustr \<Rightarrow> slot set \<Rightarrow> js \<Rightarrow> ustr \<Rightarrow> bool" where
  "nowhere_else low S d i \<longleftrightarrow> fst ` set (tkbJointPlacements d i low) \<subseteq> S"

lemma follow_truth_cells:
  assumes key: "trim key = key" "key \<noteq> []" "key \<noteq> u ''OFF''"
    and truth: "distinct (map fst truth)" "\<And>e. e \<in> set truth \<Longrightarrow> plain_slot e"
    and old: "nowhere_else (toLowerCase key) (fst ` set cur \<union> fst ` set truth) (fst st) i"
  shows "refused i (follow_truth key truth cur i st) \<or> set (tkbJointPlacements (fst (follow_truth key truth cur i st)) i (toLowerCase key)) = set truth"
proof (cases "refused i (follow_truth key truth cur i st)")
  case False
  define st1 where "st1 = fold (\<lambda>e. write_joint i (fst e) (JStr [])) (filter (\<lambda>e. fst e \<notin> fst ` set truth) cur) st"
  define st2 where "st2 = fold (follow_one key i) truth st1"
  have st2: "follow_truth key truth cur i st = st2" by (simp add: follow_truth_def st1_def st2_def)
  have at: "shows_joint (toLowerCase key) (fst st2) i e" if "e \<in> set truth" for e
    using follow_all_shows [OF key truth(1) that, of i st1] False by (simp add: st2 st2_def [symmetric])
  have off_truth: "tkb_cell (fst st2) i s = tkb_cell (fst st1) i s" if "s \<notin> fst ` set truth" for s
    unfolding st2_def by (rule follow_all_other) (use that in auto)
  have open2: "slot_open (fst st2) i s = slot_open (fst st) i s" for s
    using frame_open [OF frame_fold [where f = "follow_one key i" and xs = truth, OF frame_follow_one], of st1 i s] by (simp add: st2_def st1_def clear_open)
  have low: "toLowerCase key \<noteq> []" using key joint_cell_low [OF key, of False] by (simp add: joint_cell_def mon_low_def lower_empty)
  have "(s, f) \<in> set (tkbJointPlacements (fst st2) i (toLowerCase key)) \<longleftrightarrow> (s, f) \<in> set truth" for s f
  proof (cases "s \<in> fst ` set truth")
    case True
    then obtain f' where f': "(s, f') \<in> set truth" by auto
    have "f'' = f'" if "(s, f'') \<in> set truth" for f''
      using eq_key_imp_eq_value [OF truth(1) that f'] .
    then have right: "(s, f) \<in> set truth \<longleftrightarrow> f = f'" using f' by blast
    have "half_of s \<in> set half_days" using truth(2) [OF f'] by (simp add: plain_slot_def)
    moreover have "slot_open (fst st2) i s" "mon_low (tkb_cell (fst st2) i s) = toLowerCase key" "pm_isFixed (tkb_cell (fst st2) i s) = f'"
      using at [OF f'] by (simp_all add: shows_joint_def)
    ultimately have "(s, f) \<in> set (tkbJointPlacements (fst st2) i (toLowerCase key)) \<longleftrightarrow> f = f'"
      unfolding in_placements using low by blast
    then show ?thesis unfolding right .
  next
    case False
    have "\<not> (half_of s \<in> set half_days \<and> slot_open (fst st) i s \<and> mon_low (tkb_cell (fst st2) i s) = toLowerCase key)"
    proof
      assume *: "half_of s \<in> set half_days \<and> slot_open (fst st) i s \<and> mon_low (tkb_cell (fst st2) i s) = toLowerCase key"
      have dropped: "s \<in> fst ` set (filter (\<lambda>e. fst e \<notin> fst ` set truth) cur) \<longleftrightarrow> s \<in> fst ` set cur" using False by force
      have c1: "tkb_cell (fst st2) i s = (if s \<in> fst ` set cur then JStr [] else tkb_cell (fst st) i s)"
        unfolding off_truth [OF False] st1_def clear_cells dropped using * by simp
      have new: "s \<notin> fst ` set cur"
      proof
        assume "s \<in> fst ` set cur"
        then have "mon_low (tkb_cell (fst st2) i s) = []" using c1 by (simp add: mon_low_def)
        then show False using * low by simp
      qed
      then have "(s, pm_isFixed (tkb_cell (fst st) i s)) \<in> set (tkbJointPlacements (fst st) i (toLowerCase key))"
        using * c1 low by (simp add: in_placements)
      from imageI [OF this, of fst] have "s \<in> fst ` set cur \<union> fst ` set truth" using old unfolding nowhere_else_def by auto
      then show False using new False by simp
    qed
    then have "(s, f) \<notin> set (tkbJointPlacements (fst st2) i (toLowerCase key))" unfolding in_placements open2 by blast
    moreover have "(s, f) \<notin> set truth" using imageI [of "(s, f)" "set truth" fst] False by auto
    ultimately show ?thesis by blast
  qed
  then have "set (tkbJointPlacements (fst st2) i (toLowerCase key)) = set truth" by (intro set_eqI) (simp only: split_paired_all)
  then show ?thesis by (simp add: st2)
qed simp

lemma follow_truth_other:
  assumes "j \<noteq> i"
  shows "set (tkbJointPlacements (fst (follow_truth key truth cur i st)) j low) = set (tkbJointPlacements (fst st) j low)"
proof -
  have "tkb_cell (fst (follow_truth key truth cur i st)) j s = tkb_cell (fst st) j s" for s
    unfolding follow_truth_def using assms by (subst follow_all_other) (simp_all add: clear_cells)
  moreover have "slot_open (fst (follow_truth key truth cur i st)) j s = slot_open (fst st) j s" for s
    by (rule frame_open [OF frame_follow])
  ultimately have "(s, f) \<in> set (tkbJointPlacements (fst (follow_truth key truth cur i st)) j low)
      \<longleftrightarrow> (s, f) \<in> set (tkbJointPlacements (fst st) j low)" for s f
    by (simp only: in_placements)
  then show ?thesis by (intro set_eqI) (simp only: split_paired_all)
qed

lemma follow_truth_blocked: "set (jr_blocked (snd st)) \<subseteq> set (jr_blocked (snd (follow_truth key truth cur i st)))"
  using follow_all_blocked [of "fold (\<lambda>e. write_joint i (fst e) (JStr [])) (filter (\<lambda>e. fst e \<notin> fst ` set truth) cur) st" key i truth]
  by (simp add: follow_truth_def)

text \<open>\<open>c\<close> are the placings at the start, \<open>T\<close> that of the truth.\<close>

definition on_the_way :: "ustr \<Rightarrow> (ustr \<Rightarrow> placing) \<Rightarrow> placing \<Rightarrow> joint_state \<Rightarrow> ustr \<Rightarrow> bool" where
  "on_the_way low c T st j \<longleftrightarrow> refused j st \<or> set (tkbJointPlacements (fst st) j low) = set (c j) \<or> set (tkbJointPlacements (fst st) j low) = set T"

definition arrived :: "ustr \<Rightarrow> placing \<Rightarrow> joint_state \<Rightarrow> ustr \<Rightarrow> bool" where
  "arrived low T st j \<longleftrightarrow> refused j st \<or> set (tkbJointPlacements (fst st) j low) = set T"

lemma follow_truth_step:
  assumes key: "trim key = key" "key \<noteq> []" "key \<noteq> u ''OFF''"
    and T: "distinct (map fst T)" "\<And>e. e \<in> set T \<Longrightarrow> plain_slot e"
    and way: "on_the_way (toLowerCase key) c T st i"
  shows "arrived (toLowerCase key) T (follow_truth key T (c i) i st) i"
proof (cases "refused i st")
  case True
  then show ?thesis using refused_mono [OF follow_truth_blocked] by (simp add: arrived_def)
next
  case False
  then have "nowhere_else (toLowerCase key) (fst ` set (c i) \<union> fst ` set T) (fst st) i"
    using way unfolding on_the_way_def nowhere_else_def by auto
  from follow_truth_cells [OF key T this] show ?thesis by (simp add: arrived_def)
qed

lemma arrived_way: "arrived low T st j \<Longrightarrow> on_the_way low c T st j"
  by (auto simp: arrived_def on_the_way_def)

lemma follow_keeps:
  assumes "j \<noteq> i"
  shows "on_the_way low c T st j \<Longrightarrow> on_the_way low c T (follow_truth key T cur i st) j"
    "arrived low T st j \<Longrightarrow> arrived low T (follow_truth key T cur i st) j"
  using refused_mono [OF follow_truth_blocked, of j st key T cur i]
  unfolding on_the_way_def arrived_def follow_truth_other [OF assms] by blast+

lemma follow_members:
  assumes key: "trim key = key" "key \<noteq> []" "key \<noteq> u ''OFF''"
    and T: "distinct (map fst T)" "\<And>e. e \<in> set T \<Longrightarrow> plain_slot e"
    and way: "\<And>j. on_the_way (toLowerCase key) c T st j"
    and skip: "\<And>j. skip j \<Longrightarrow> set (c j) = set T" "\<And>j. j \<in> dn \<Longrightarrow> arrived (toLowerCase key) T st j"
    and i: "i \<in> set is \<union> dn"
  shows "arrived (toLowerCase key) T (fold (\<lambda>i st. if skip i then st else follow_truth key T (c i) i st) is st) i"
  using way skip(2) i
proof (induction "is" arbitrary: st dn)
  case (Cons m ms)
  define st' where "st' = (if skip m then st else follow_truth key T (c m) m st)"
  have m: "arrived (toLowerCase key) T st' m"
  proof (cases "skip m")
    case True
    then show ?thesis using Cons.prems(1) [of m] skip(1) [OF True] by (auto simp: st'_def on_the_way_def arrived_def)
  next
    case False
    then show ?thesis using follow_truth_step [OF key T Cons.prems(1)] by (simp add: st'_def)
  qed
  have way': "on_the_way (toLowerCase key) c T st' j" for j
    using Cons.prems(1) [of j] m follow_keeps(1) [of j m] by (cases "j = m") (auto simp: st'_def intro: arrived_way)
  have dn': "arrived (toLowerCase key) T st' j" if "j \<in> insert m dn" for j
    using that Cons.prems(2) [of j] m follow_keeps(2) [of j m] by (cases "j = m") (auto simp: st'_def)
  have "i \<in> set ms \<union> insert m dn" using Cons.prems(3) by auto
  from Cons.IH [OF way' dn' this] show ?case by (simp add: st'_def)
qed simp

text \<open>
  Which class is the truth: a class whose placing differs from the snapshot, when all of those have the
  same placing; otherwise the first of the classes whose placing is the most frequent one, and the longest
  among those.
\<close>

definition row_sig :: "js \<Rightarrow> js \<Rightarrow> ustr \<Rightarrow> ustr" where
  "row_sig d row i = tkbJointSig (tkbJointPlacements d i (row_low row))"

definition changed_since :: "snapshot \<Rightarrow> js \<Rightarrow> js \<Rightarrow> ustr list" where
  "changed_since snap row d = filter (\<lambda>i. Option.bind (map_of snap (tkbJointRowKey row)) (\<lambda>m. map_of m i) \<noteq> Some (row_sig d row i))
     (members_of d row)"

definition one_change :: "snapshot \<Rightarrow> js \<Rightarrow> js \<Rightarrow> bool" where
  "one_change snap row d \<longleftrightarrow> card (row_sig d row ` set (changed_since snap row d)) = 1"

definition frequency :: "js \<Rightarrow> js \<Rightarrow> ustr \<Rightarrow> nat" where
  "frequency d row i = length (filter (\<lambda>j. row_sig d row j = row_sig d row i) (members_of d row))"

definition leads :: "js \<Rightarrow> js \<Rightarrow> ustr \<Rightarrow> bool" where
  "leads d row i \<longleftrightarrow> list_all (\<lambda>j. frequency d row j < frequency d row i \<or> frequency d row j = frequency d row i
     \<and> length (tkbJointPlacements d j (row_low row)) \<le> length (tkbJointPlacements d i (row_low row))) (members_of d row)"

lemma fold_best:
  assumes asym: "\<And>x. \<not> B x x" and trans: "\<And>x y z. B x y \<Longrightarrow> B y z \<Longrightarrow> B x z"
    and neg: "\<And>x y z. \<not> B x y \<Longrightarrow> \<not> B y z \<Longrightarrow> \<not> B x z"
  shows "fold (\<lambda>i b. if B i b then i else b) xs b = hd (filter (\<lambda>x. \<forall>y \<in> set (b # xs). \<not> B y x) (b # xs))"
proof (induction xs arbitrary: b)
  case (Cons x xs)
  show ?case
  proof (cases "B x b")
    case True
    have "(\<forall>y \<in> set (b # x # xs). \<not> B y z) \<longleftrightarrow> (\<forall>y \<in> set (x # xs). \<not> B y z)" for z using trans [OF True, of z] by auto
    then show ?thesis using Cons.IH [of x] True by auto
  next
    case False
    have "(\<forall>y \<in> set (b # x # xs). \<not> B y z) \<longleftrightarrow> (\<forall>y \<in> set (b # xs). \<not> B y z)" for z using neg [OF False, of z] by auto
    moreover have "\<not> (\<forall>y \<in> set (b # xs). \<not> B y x)" if "\<not> (\<forall>y \<in> set (b # xs). \<not> B y b)"
      using that neg [of _ x b] False asym by auto
    ultimately show ?thesis using Cons.IH [of b] False by auto
  qed
qed (simp add: asym)

lemma most_common_leads:
  assumes "members_of d row \<noteq> []"
  shows "most_common (row_sig d row) (\<lambda>i. length (tkbJointPlacements d i (row_low row))) (members_of d row)
    = hd (filter (leads d row) (members_of d row))"
proof -
  define n where "n = (\<lambda>i. length (tkbJointPlacements d i (row_low row)))"
  define c where "c = frequency d row"
  define B where "B = (\<lambda>i b. c b < c i \<or> c i = c b \<and> n b < n i)"
  obtain m ms where ms: "members_of d row = m # ms" using assms by (cases "members_of d row") auto
  have c: "count_list (map (row_sig d row) xs) (row_sig d row j) = length (filter (\<lambda>k. row_sig d row k = row_sig d row j) xs)" for xs j
    by (induction xs) auto
  have "most_common (row_sig d row) n (m # ms) = fold (\<lambda>i b. if B i b then i else b) (m # ms) m"
    unfolding most_common_def B_def c_def frequency_def ms c by (simp add: Let_def)
  also have "\<dots> = fold (\<lambda>i b. if B i b then i else b) ms m" by (simp add: B_def)
  also have "\<dots> = hd (filter (\<lambda>x. \<forall>y \<in> set (m # ms). \<not> B y x) (m # ms))"
    by (rule fold_best) (auto simp: B_def)
  also have "(\<lambda>x. \<forall>y \<in> set (m # ms). \<not> B y x) = leads d row"
  proof
    fix x
    have B: "\<not> B y x \<longleftrightarrow> c y < c x \<or> c y = c x \<and> n y \<le> n x" for y by (auto simp: B_def)
    show "(\<forall>y \<in> set (m # ms). \<not> B y x) = leads d row x" unfolding B by (simp only: leads_def list_all_iff ms c_def n_def)
  qed
  finally show ?thesis unfolding ms n_def .
qed

definition row_truth :: "snapshot \<Rightarrow> js \<Rightarrow> js \<Rightarrow> ustr" where
  "row_truth snap row d = truth_class snap (tkbJointRowKey row) (row_sig d row)
     (\<lambda>i. length (tkbJointPlacements d i (row_low row))) (members_of d row)"

lemma truth_spec:
  assumes "members_of d row \<noteq> []"
  shows "row_truth snap row d = (if one_change snap row d then hd (changed_since snap row d) else hd (filter (leads d row) (members_of d row)))"
proof -
  have "card (f ` set xs) = 1 \<longleftrightarrow> xs \<noteq> [] \<and> list_all (\<lambda>i. f i = f (hd xs)) xs" for f :: "ustr \<Rightarrow> ustr" and xs
  proof
    assume "card (f ` set xs) = 1"
    then obtain y where y: "f ` set xs = {y}" by (auto simp: card_1_singleton_iff)
    then have f: "f i = y" if "i \<in> set xs" for i using that by blast
    have ne: "xs \<noteq> []" using y by auto
    then show "xs \<noteq> [] \<and> list_all (\<lambda>i. f i = f (hd xs)) xs" using f hd_in_set [OF ne] by (simp add: list_all_iff)
  next
    assume "xs \<noteq> [] \<and> list_all (\<lambda>i. f i = f (hd xs)) xs"
    then have "xs \<noteq> []" "\<forall>i \<in> set xs. f i = f (hd xs)" unfolding list_all_iff by blast+
    then have "f ` set xs = {f (hd xs)}" using hd_in_set [of xs] by blast
    then show "card (f ` set xs) = 1" by simp
  qed
  then show ?thesis
    unfolding row_truth_def truth_class_def one_change_def Let_def changed_since_def [symmetric] most_common_leads [OF assms] by simp
qed

text \<open>Classes of one signature show the joint lesson at the same places.\<close>

lemma row_sig_set:
  "row_sig d row i = row_sig d row j \<Longrightarrow> set (tkbJointPlacements d i (row_low row)) = set (tkbJointPlacements d j (row_low row))"
  unfolding row_sig_def by (rule sig_set) (auto intro: placements_plain)

lemma one_change_same:
  assumes "one_change snap row d" "c \<in> set (changed_since snap row d)"
  shows "set (tkbJointPlacements d c (row_low row)) = set (tkbJointPlacements d (hd (changed_since snap row d)) (row_low row))"
proof (rule row_sig_set)
  have "card (row_sig d row ` set (changed_since snap row d)) = 1" using assms(1) by (simp only: one_change_def)
  then obtain y where y: "row_sig d row ` set (changed_since snap row d) = {y}" by (rule card_1_singletonE)
  have same: "row_sig d row x = y" if "x \<in> set (changed_since snap row d)" for x using imageI [OF that, of "row_sig d row"] unfolding y by simp
  have "changed_since snap row d \<noteq> []" using length_pos_if_in_set [OF assms(2)] by simp
  from same [OF hd_in_set [OF this]] same [OF assms(2)] show "row_sig d row c = row_sig d row (hd (changed_since snap row d))" by simp
qed

lemma truth_member:
  assumes "members_of d row \<noteq> []"
  shows "row_truth snap row d \<in> set (members_of d row)"
proof (cases "one_change snap row d")
  case True
  then have "changed_since snap row d \<noteq> []" by (auto simp: one_change_def)
  from hd_in_set [OF this] have "hd (changed_since snap row d) \<in> set (members_of d row)" by (simp add: changed_since_def)
  then show ?thesis by (simp only: truth_spec [OF assms] True if_True)
next
  case False
  have common: "most_common sg n members \<in> set members" if "members \<noteq> []" for sg n members
  proof -
    have "b \<in> set members \<Longrightarrow> set xs \<subseteq> set members \<Longrightarrow> fold (\<lambda>i best. if P i best then i else best) xs b \<in> set members" for P xs b
      by (induction xs arbitrary: b) auto
    then show ?thesis using that by (simp add: most_common_def Let_def)
  qed
  show ?thesis unfolding truth_spec [OF assms] if_not_P [OF False] most_common_leads [OF assms, symmetric] by (rule common [OF assms])
qed

lemma row_members_agree:
  assumes "trimmed (jprop row ''ten'') \<noteq> []" "trimmed (jprop row ''ten'') \<noteq> u ''OFF''"
    "members_of (fst st) row \<noteq> []"
  shows "\<forall>i \<in> set (members_of (fst st) row).
    arrived (row_low row) (tkbJointPlacements (fst st) (row_truth snap row (fst st)) (row_low row)) (reconcile_row snap row st) i"
proof -
  define key where "key = trimmed (jprop row ''ten'')"
  define c where "c = (\<lambda>i. tkbJointPlacements (fst st) i (row_low row))"
  define t where "t = row_truth snap row (fst st)"
  have t': "t = truth_class snap (tkbJointRowKey row) (\<lambda>i. tkbJointSig (c i)) (\<lambda>i. length (c i)) (members_of (fst st) row)"
    unfolding t_def row_truth_def row_sig_def c_def ..
  have t_in: "t \<in> set (members_of (fst st) row)" unfolding t_def by (rule truth_member [OF assms(3)])
  define skip where "skip = (\<lambda>i. i = t \<or> tkbJointSig (c i) = tkbJointSig (c t))"
  have low: "row_low row = toLowerCase key" by (simp add: row_low_def key_def)
  have key: "trim key = key" "key \<noteq> []" "key \<noteq> u ''OFF''" using assms by (simp_all add: key_def trimmed_def)
  have same: "tkbJointSig (c i) = tkbJointSig (c j) \<Longrightarrow> set (c i) = set (c j)" for i j
    by (rule sig_set) (auto simp: c_def intro: placements_plain)
  show ?thesis
  proof (cases "list_all (\<lambda>i. tkbJointSig (c i) = tkbJointSig (c (hd (members_of (fst st) row)))) (members_of (fst st) row)")
    case True
    then have "reconcile_row snap row st = st" by (simp add: reconcile_row_def Let_def c_def)
    moreover have "arrived (row_low row) (c t) st i" if "i \<in> set (members_of (fst st) row)" for i
    proof -
      have "tkbJointSig (c i) = tkbJointSig (c t)" using True that t_in unfolding list_all_iff by metis
      then show ?thesis using same [of i t] unfolding arrived_def c_def by blast
    qed
    ultimately show ?thesis unfolding c_def t_def by simp
  next
    case False
    define st1 where "st1 = fold (\<lambda>i st. if skip i then st else follow_truth key (c t) (c i) i st) (members_of (fst st) row) st"
    have "reconcile_row snap row st = (fst st1, (snd st1)\<lparr>jr_rows := jr_rows (snd st1) @ [(row, t)]\<rparr>)"
      using False unfolding reconcile_row_def Let_def st1_def skip_def key_def t' c_def by simp
    moreover have "arrived (row_low row) (c t) st1 i" if "i \<in> set (members_of (fst st) row)" for i
      unfolding st1_def low
    proof (rule follow_members [OF key, where dn = "{}"])
      show "distinct (map fst (c t))" by (simp add: c_def placements_distinct)
      show "plain_slot e" if "e \<in> set (c t)" for e using that by (auto simp: c_def intro: placements_plain)
      show "on_the_way (toLowerCase key) c (c t) st j" for j by (simp add: on_the_way_def c_def low)
      show "set (c j) = set (c t)" if "skip j" for j using that same [of j t] unfolding skip_def by (elim disjE) simp_all
      show "i \<in> set (members_of (fst st) row) \<union> {}" using that by simp
    qed simp
    ultimately have "\<forall>i \<in> set (members_of (fst st) row). arrived (row_low row) (c t) (reconcile_row snap row st) i"
      by (simp add: arrived_def refused_def)
    then show ?thesis unfolding c_def t_def by blast
  qed
qed

end
