(* ===== verification/PmPinOk.thy ===== *)
theory PmPinOk
  imports PmJointOk
begin

section \<open>Timetable page: pinning joint lessons for a solver\<close>

text \<open>
  Pinning writes only where a joint lesson may stand: never into a closed cell, never over a fixed lesson
  of another subject, and over a lesson only when displacing is allowed. Unpinning leaves no mark.
\<close>

subsection \<open>What pinning overwrites\<close>

definition may_pin :: "bool \<Rightarrow> ustr \<Rightarrow> js \<Rightarrow> bool" where
  "may_pin allow key c \<longleftrightarrow> c \<noteq> off_cell \<and> (mon_low c = toLowerCase key \<or> \<not> pm_isFixed c \<and> (allow \<or> \<not> js_truthy (cellMon c))
     \<or> \<not> js_truthy (cellMon c))"

lemma scan_ok: "fold (scan_member allow low d s) members acc = Some r \<Longrightarrow> acc \<noteq> None
    \<and> list_all (\<lambda>i. tkb_cell d i s \<noteq> off_cell \<and> (mon_low (tkb_cell d i s) = low \<or> \<not> js_truthy (cellMon (tkb_cell d i s))
        \<or> \<not> pm_isFixed (tkb_cell d i s) \<and> allow)) members"
proof (induction members arbitrary: acc)
  case (Cons i members)
  then have IH: "scan_member allow low d s i acc \<noteq> None" "list_all (\<lambda>i. tkb_cell d i s \<noteq> off_cell \<and> (mon_low (tkb_cell d i s) = low
      \<or> \<not> js_truthy (cellMon (tkb_cell d i s)) \<or> \<not> pm_isFixed (tkb_cell d i s) \<and> allow)) members" by fastforce+
  then show ?case by (auto simp: scan_member_def Let_def split: option.splits if_splits)
qed simp

lemma pin_slot_ok:
  assumes "pin_slot_of allow d row members s = Some p" "i \<in> set members" "row_low row = toLowerCase key"
  shows "ps_slot p = s \<and> may_pin allow key (tkb_cell d i s)"
proof -
  obtain h x where "fold (scan_member allow (row_low row) d s) members (Some (0, 0)) = Some (h, x)"
    and p: "p = \<lparr>ps_slot = s, ps_have = h, ps_displace = x\<rparr>"
    using assms(1) by (auto simp: pin_slot_of_def split: option.splits if_splits)
  from scan_ok [OF this(1)] assms(2,3) p show ?thesis by (auto simp: may_pin_def list_all_iff)
qed

lemma fill_subset: "set (fill_slots n need gh slots chosen) \<subseteq> set chosen \<union> set slots"
proof (induction n arbitrary: chosen)
  case (Suc n)
  show ?case
  proof (cases "of_nat (length chosen) < need \<and> pin_candidates gh slots chosen \<noteq> []")
    case True
    define x where "x = hd (sort_key (pin_rank chosen) (pin_candidates gh slots chosen))"
    have "sort_key (pin_rank chosen) (pin_candidates gh slots chosen) \<noteq> []"
      using True by (metis set_empty set_sort)
    then have "x \<in> set (pin_candidates gh slots chosen)"
      unfolding x_def by (metis hd_in_set set_sort)
    then have "x \<in> set slots" by (simp add: pin_candidates_def)
    then show ?thesis using Suc [of "chosen @ [x]"] True by (auto simp: x_def)
  qed auto
qed simp

lemma chosen_ok:
  assumes "s \<in> ps_slot ` set (chosen_slots allow d row members)" "i \<in> set members" "row_low row = toLowerCase key"
  shows "may_pin allow key (tkb_cell d i s)"
proof -
  obtain p where p: "p \<in> set (chosen_slots allow d row members)" "s = ps_slot p" using assms(1) by auto
  have "set (chosen_slots allow d row members) \<subseteq> set (pin_slots allow d row members)"
    using fill_subset unfolding chosen_slots_def Let_def by fastforce
  then obtain t where "pin_slot_of allow d row members t = Some p"
    using p(1) by (auto simp: pin_slots_def List.map_filter_def)
  from pin_slot_ok [OF this assms(2,3)] p(2) show ?thesis by simp
qed

text \<open>\<open>d0\<close> is the timetable before: each cell is as it was, or was free for the lesson and is a recorded mark.\<close>

definition pinned_ok :: "bool \<Rightarrow> js \<Rightarrow> pin_state \<Rightarrow> ustr \<Rightarrow> slot \<Rightarrow> bool" where
  "pinned_ok allow d0 st i s \<longleftrightarrow> tkb_cell (pn_data st) i s = tkb_cell d0 i s
     \<or> list_ex (\<lambda>p. case p of (j, t, key) \<Rightarrow> j = i \<and> t = s \<and> tkb_cell (pn_data st) i s = pinned_cell key \<and> may_pin allow key (tkb_cell d0 i s))
         (pn_pins st)"

definition good_keys :: "pin_state \<Rightarrow> bool" where
  "good_keys st \<longleftrightarrow> (\<forall>i s key. (i, s, key) \<in> set (pn_pins st) \<longrightarrow> trim key = key \<and> key \<noteq> [])"

lemma pinned_low: "trim key = key \<Longrightarrow> key \<noteq> [] \<Longrightarrow> mon_low (pinned_cell key) = toLowerCase key \<and> pm_isFixed (pinned_cell key)
    \<and> js_truthy (cellMon (pinned_cell key)) \<and> pinned_cell key \<noteq> off_cell"
  by (simp add: pinned_cell_def mon_low_def mon_text_def cellMon_def trimmed_def js_or_def pm_isFixed_def off_cell_def)

lemma may_pin_self: "trim key = key \<Longrightarrow> key \<noteq> [] \<Longrightarrow> may_pin allow key (pinned_cell key)"
  using pinned_low [of key] by (simp add: may_pin_def)

lemma may_pin_back:
  assumes "may_pin allow key' c0" "may_pin allow key (pinned_cell key')" "trim key' = key'" "key' \<noteq> []"
  shows "may_pin allow key c0"
  using assms pinned_low [OF assms(3,4)] by (auto simp: may_pin_def)

lemma pin_one_ok:
  assumes ok: "\<And>i s. pinned_ok allow d0 st i s" and keys: "good_keys st" "trim key = key" "key \<noteq> []"
    and may: "may_pin allow key (tkb_cell (pn_data st) i s)"
  shows "pinned_ok allow d0 (pin_one key (i, s) st) j t"
proof -
  define c where "c = tkb_cell (pn_data st) i s"
  show ?thesis
  proof (cases "mon_low c = toLowerCase key \<and> pm_isFixed c \<and> \<not> js_truthy (jprop c ''jointPin'')")
    case True
    then show ?thesis using ok [of j t] by (simp add: pin_one_def Let_def c_def)
  next
    case False
    have origin: "may_pin allow key (tkb_cell d0 i s)"
      using ok [of i s] unfolding pinned_ok_def
    proof
      assume "tkb_cell (pn_data st) i s = tkb_cell d0 i s"
      then show ?thesis using may by simp
    next
      assume "list_ex (\<lambda>p. case p of (j, t, key) \<Rightarrow> j = i \<and> t = s \<and> tkb_cell (pn_data st) i s = pinned_cell key
          \<and> may_pin allow key (tkb_cell d0 i s)) (pn_pins st)"
      then obtain key' where "(i, s, key') \<in> set (pn_pins st)" "tkb_cell (pn_data st) i s = pinned_cell key'" "may_pin allow key' (tkb_cell d0 i s)"
        by (auto simp: list_ex_iff)
      then show ?thesis using may keys(1) may_pin_back [of allow key' "tkb_cell d0 i s" key] unfolding good_keys_def by metis
    qed
    have data: "pn_data (pin_one key (i, s) st) = set_tkb_cell i s (pinned_cell key) (pn_data st)"
      "pn_pins (pin_one key (i, s) st) = pn_pins st @ [(i, s, key)]"
      unfolding pin_one_def Let_def fst_conv snd_conv c_def [symmetric] if_not_P [OF False] by simp_all
    show ?thesis
    proof (cases "j = i \<and> t = s \<and> slot_open (pn_data st) i s")
      case True
      then show ?thesis using origin by (simp add: pinned_ok_def data)
    next
      case False
      then have "tkb_cell (pn_data (pin_one key (i, s) st)) j t = tkb_cell (pn_data st) j t" unfolding data cell_set by auto
      then show ?thesis using ok [of j t] by (auto simp: pinned_ok_def data)
    qed
  qed
qed

lemma pin_one_keys: "good_keys st \<Longrightarrow> trim key = key \<Longrightarrow> key \<noteq> [] \<Longrightarrow> good_keys (pin_one key x st)"
  by (auto simp: good_keys_def pin_one_def Let_def)

lemma pin_one_may:
  assumes "trim key = key" "key \<noteq> []" "may_pin allow key (tkb_cell (pn_data st) j t)"
  shows "may_pin allow key (tkb_cell (pn_data (pin_one key x st)) j t)"
  using assms may_pin_self [OF assms(1,2)] by (auto simp: pin_one_def Let_def)

lemma pin_fold_ok:
  assumes "\<And>i s. pinned_ok allow d0 st i s" "good_keys st" "trim key = key" "key \<noteq> []"
    "\<And>x. x \<in> set xs \<Longrightarrow> may_pin allow key (tkb_cell (pn_data st) (fst x) (snd x))"
  shows "pinned_ok allow d0 (fold (pin_one key) xs st) i s \<and> good_keys (fold (pin_one key) xs st)"
  using assms(1,2,5)
proof (induction xs arbitrary: st)
  case (Cons x xs)
  have "pinned_ok allow d0 (pin_one key x st) j t" for j t
    using pin_one_ok [OF Cons.prems(1,2) assms(3,4), of "fst x" "snd x" j t] Cons.prems(3) [of x] by simp
  moreover have "good_keys (pin_one key x st)" by (rule pin_one_keys [OF Cons.prems(2) assms(3,4)])
  moreover have "may_pin allow key (tkb_cell (pn_data (pin_one key x st)) (fst y) (snd y))" if "y \<in> set xs" for y
    by (rule pin_one_may [OF assms(3,4)]) (use Cons.prems(3) [of y] that in simp)
  ultimately show ?case using Cons.IH [of "pin_one key x st"] by simp
qed simp

definition pins_ok :: "bool \<Rightarrow> js \<Rightarrow> pin_state \<Rightarrow> bool" where
  "pins_ok allow d0 st \<longleftrightarrow> (\<forall>i s. pinned_ok allow d0 st i s) \<and> good_keys st"

lemma pin_row_ok:
  assumes "pins_ok allow d0 st" "is_joint_row row"
  shows "pins_ok allow d0 (pin_row allow row st)"
proof -
  define key where "key = trimmed (jprop row ''ten'')"
  define members where "members = members_of (pn_data st) row"
  define spots where "spots = ps_slot ` set (chosen_slots allow (pn_data st) row members)"
  define xs where "xs = concat (map (cells_to_pin (pn_data st) spots) members)"
  have low: "row_low row = toLowerCase key" by (simp add: row_low_def key_def)
  have key: "trim key = key" "key \<noteq> []" using assms(2) by (simp_all add: key_def trimmed_def is_joint_row_def)
  have xs: "may_pin allow key (tkb_cell (pn_data st) (fst x) (snd x))" if "x \<in> set xs" for x
    by (rule chosen_ok [OF _ _ low]) (use that in \<open>auto simp: xs_def cells_to_pin_def spots_def\<close>)
  have flat: "fold (\<lambda>i st. fold (pin_one key) (cells_to_pin (pn_data st0) spots i) st) is st1 = fold (pin_one key) (concat (map (cells_to_pin (pn_data st0) spots) is)) st1" for "is" st0 st1
    by (induction "is" arbitrary: st1) simp_all
  have skip: "pins_ok allow d0 (skip_row row why st)" "pn_data (skip_row row why st) = pn_data st" for why
    using assms(1) by (simp_all add: skip_row_def pins_ok_def pinned_ok_def good_keys_def)
  have upd: "pins_ok allow d0 (st2\<lparr>pn_out := z\<rparr>) = pins_ok allow d0 st2" for st2 z
    by (simp add: pins_ok_def pinned_ok_def good_keys_def)
  have run: "pins_ok allow d0 (fold (pin_one key) xs st1)" if "pins_ok allow d0 st1" "pn_data st1 = pn_data st" for st1
    using that(1) pin_fold_ok [of allow d0 st1 key xs, OF _ _ key] xs unfolding pins_ok_def that(2) by blast
  show ?thesis
    unfolding pin_row_def Let_def key_def [symmetric] members_def [symmetric] spots_def [symmetric] flat xs_def [symmetric]
    using run [OF assms(1) refl] run [OF skip] assms(1) by (simp add: skip upd)
qed

lemma pin_rows_ok:
  assumes "pins_ok allow d0 st" "list_all is_joint_row rows"
  shows "pins_ok allow d0 (fold (pin_row allow) rows st)"
  using assms
proof (induction rows arbitrary: st)
  case (Cons row rows)
  then show ?case using pin_row_ok [OF Cons.prems(1), of row] by simp
qed simp

lemma pin_keeps: "pinned_ok allow (fst (fst (tkbJointReconcile busy True snap d))) (fst (tkbJointPinForSolve allow busy snap d)) i s"
proof -
  have "pins_ok allow (fst (fst (tkbJointReconcile busy True snap d))) (fst (tkbJointPinForSolve allow busy snap d))"
    unfolding tkbJointPinForSolve_def Let_def fst_conv
    by (rule pin_rows_ok) (auto simp: pins_ok_def pinned_ok_def good_keys_def tkbJointGhepRows_def list_all_iff)
  then show ?thesis by (simp only: pins_ok_def)
qed

subsection \<open>No mark is left\<close>

lemma open_known: "slot_open d i s \<Longrightarrow> i \<in> set (tkb_ids d)"
proof -
  assume o: "slot_open d i s"
  obtain thu buoi ti where s: "s = (thu, buoi, ti)" by (cases s)
  have "obj_path (tkb_path i s) d" using o by (intro jpath_array_obj) (simp add: slot_open_def session_path)
  then have "is_obj (jprop d ''tkb'')" "is_obj (class_tkb d i)" by (simp_all add: s class_tkb_def)
  then show ?thesis by (cases "jprop d ''tkb''") (auto simp: tkb_ids_def class_tkb_def split: option.splits dest: map_of_SomeD intro: rev_image_eqI)
qed

lemma has_pin_undef [simp]: "\<not> has_pin JUndef" "\<not> has_pin (JStr x)" "\<not> has_pin (joint_cell key f)"
  by (simp_all add: has_pin_def joint_cell_def u_eq)

definition cells_all :: "(js \<Rightarrow> bool) \<Rightarrow> js \<Rightarrow> bool" where
  "cells_all P d \<longleftrightarrow> (\<forall>i s. half_of s \<in> set half_days \<longrightarrow> slot_open d i s \<longrightarrow> P (tkb_cell d i s))"

lemma cells_array:
  assumes "P JUndef"
  shows "cells_all P d \<longleftrightarrow> list_all (\<lambda>i. list_all (\<lambda>(thu, buoi). list_all P (array_of (session_at d i thu buoi))) half_days) (tkb_ids d)"
proof
  assume all: "cells_all P d"
  have "P c" if "(thu, buoi) \<in> set half_days" "c \<in> set (array_of (session_at d i thu buoi))" for i thu buoi c
  proof -
    note c = that
    obtain xs k where xs: "session_at d i thu buoi = JArr xs" "k < length xs" "c = xs ! k"
      using c(2) by (cases "session_at d i thu buoi") (auto simp: in_set_conv_nth)
    then have "slot_open d i (thu, buoi, k)" "tkb_cell d i (thu, buoi, k) = c"
      by (simp_all add: slot_open_def tkb_cell.simps)
    then show ?thesis using all c(1) unfolding cells_all_def by (metis half_of.simps)
  qed
  then show "list_all (\<lambda>i. list_all (\<lambda>(thu, buoi). list_all P (array_of (session_at d i thu buoi))) half_days) (tkb_ids d)"
    by (auto simp: list_all_iff)
next
  assume all: "list_all (\<lambda>i. list_all (\<lambda>(thu, buoi). list_all P (array_of (session_at d i thu buoi))) half_days) (tkb_ids d)"
  have "P (tkb_cell d i (thu, buoi, k))" if "(thu, buoi) \<in> set half_days" "slot_open d i (thu, buoi, k)" for i thu buoi k
  proof -
    note c = that
    obtain xs where xs: "session_at d i thu buoi = JArr xs"
      using c(2) by (cases "session_at d i thu buoi") (auto simp: slot_open_def)
    have "list_all P xs" using all c(1) open_known [OF c(2)] xs by (fastforce simp: list_all_iff)
    then show ?thesis using assms by (simp add: tkb_cell.simps xs list_all_iff)
  qed
  then show "cells_all P d" by (auto simp: cells_all_def)
qed

lemma pins_left_cells: "\<not> pins_left d \<longleftrightarrow> cells_all (\<lambda>c. \<not> has_pin c) d"
  by (subst cells_array) (simp_all add: pins_left_def list_all_iff list_ex_iff case_prod_unfold)

lemma cells_set: "cells_all P d \<Longrightarrow> P v \<Longrightarrow> cells_all P (set_tkb_cell i s v d)"
  by (simp add: cells_all_def)

lemma reconcile_cells:
  assumes "cells_all P d" "P (JStr [])" "\<And>key f. P (joint_cell key f)"
  shows "cells_all P (fst (fst (tkbJointReconcile busy force snap d)))"
proof -
  have one: "cells_all P (fst (follow_one key i e st))" if "cells_all P (fst st)" for key i e st
    using that assms(3) by (simp add: follow_one_def Let_def cells_set)
  have f1: "cells_all P (fst (fold (follow_one key i) es st))" if "cells_all P (fst st)" for key i es st
    using that
  proof (induction es arbitrary: st)
    case (Cons e es)
    then show ?case using one [of st key i e] by simp
  qed simp
  have f2: "cells_all P (fst (fold (\<lambda>e. write_joint i (fst e) (JStr [])) es st))" if "cells_all P (fst st)" for i and es :: placing and st
    using that
  proof (induction es arbitrary: st)
    case (Cons e es)
    then show ?case using cells_set [where P = P and v = "JStr []" and d = "fst st"] assms(2) by simp
  qed simp
  have follow: "cells_all P (fst (follow_truth key T c i st))" if "cells_all P (fst st)" for key T c i st
    unfolding follow_truth_def by (rule f1 [OF f2 [OF that]])
  have members: "cells_all P (fst (fold (\<lambda>i st. if Q i then st else follow_truth key T (c i) i st) is st))" if "cells_all P (fst st)" for Q key T c "is" st
    using that
  proof (induction "is" arbitrary: st)
    case (Cons i "is")
    then show ?case using follow [of st key T "c i" i] by simp
  qed simp
  have row: "cells_all P (fst (reconcile_row sm row st))" if "cells_all P (fst st)" for sm row st
    using members [OF that] that by (simp add: reconcile_row_def Let_def)
  have "cells_all P (fst (fst (fold (reconcile_step sm) rows sn)))" if "cells_all P (fst (fst sn))" for sm rows sn
    using that
  proof (induction rows arbitrary: sn)
    case (Cons r rows)
    have "cells_all P (fst (fst (reconcile_step sm r sn)))"
      using row [OF Cons.prems, of sm r] Cons.prems by (simp add: reconcile_step_def Let_def)
    then show ?case using Cons.IH by simp
  qed simp
  then show ?thesis using assms(1) by (simp add: tkbJointReconcile_def Let_def)
qed

lemma unpin_cells: "cells_all P d \<Longrightarrow> (\<And>x. P (JStr x)) \<Longrightarrow> cells_all P (snd (fold unpin_one pins (b, d)))"
proof (induction pins arbitrary: b d)
  case (Cons p pins)
  have "cells_all P (snd (unpin_one p (b, d)))"
    using Cons.prems by (auto simp: unpin_one_def Let_def cells_set split: prod.splits)
  then show ?case using Cons.IH [of "snd (unpin_one p (b, d))" "fst (unpin_one p (b, d))"] Cons.prems(2) by simp
qed simp

lemma clear_session_path:
  assumes "is_array (session_at d i (fst h) (snd h))"
  shows "obj_path [u ''tkb'', i, fst h, snd h] d"
  by (rule jpath_array_obj) (use assms in \<open>simp add: session_at_def class_tkb_def\<close>)

lemma clear_session_cell:
  "tkb_cell (clear_session i h d) j t = (if j = i \<and> half_of t = h \<and> slot_open d j t then without_pin (tkb_cell d j t) else tkb_cell d j t)
    \<and> slot_open (clear_session i h d) j t = slot_open d j t"
proof (cases "is_array (session_at d i (fst h) (snd h))")
  case True
  note p = clear_session_path [OF True]
  have undef: "without_pin JUndef = JUndef" by (simp add: without_pin_def)
  show ?thesis
  proof (cases "j = i \<and> half_of t = h")
    case same: True
    then have path: "tkb_path j t = [u ''tkb'', i, fst h, snd h]" by (cases t) auto
    obtain xs where "session_at d i (fst h) (snd h) = JArr xs" using True by (cases "session_at d i (fst h) (snd h)") auto
    then have xs: "jpath [u ''tkb'', i, fst h, snd h] d = JArr xs" by (simp add: session_at_def class_tkb_def)
    then have upd: "jpath [u ''tkb'', i, fst h, snd h] (clear_session i h d) = JArr (map without_pin xs)"
      using True jpath_jupd_same [OF p, of "map_array without_pin"] by (simp add: clear_session_def map_array_def del: jpath.simps jupd.simps)
    show ?thesis using same undef
      unfolding slot_open_def session_path cell_path_jidx path upd xs by simp
  next
    case False
    then have "diverge [u ''tkb'', i, fst h, snd h] (tkb_path j t)"
      by (intro diverge_same_length) (cases t; auto)+
    then show ?thesis using False True
      by (auto simp: slot_open_def session_path cell_path_jidx clear_session_def jpath_jupd_other simp del: jpath.simps jupd.simps)
  qed
next
  case False
  then have "\<not> (j = i \<and> half_of t = h \<and> slot_open d j t)" by (cases t) (auto simp: slot_open_def)
  then show ?thesis using False by (auto simp: clear_session_def)
qed

lemma clear_fold_cell:
  assumes plain: "\<not> has_pin (cellMon (tkb_cell d0 j t))"
    and start: "tkb_cell d j t \<in> {tkb_cell d0 j t, without_pin (tkb_cell d0 j t)}"
  shows "slot_open (fold (clear_session i) hs d) j t = slot_open d j t
    \<and> tkb_cell (fold (clear_session i) hs d) j t \<in> {tkb_cell d0 j t, without_pin (tkb_cell d0 j t)}
    \<and> (slot_open d j t \<and> (tkb_cell d j t = without_pin (tkb_cell d0 j t) \<or> i = j \<and> half_of t \<in> set hs)
        \<longrightarrow> tkb_cell (fold (clear_session i) hs d) j t = without_pin (tkb_cell d0 j t))"
  using start
proof (induction hs arbitrary: d)
  case (Cons h hs)
  have twice: "without_pin (without_pin (tkb_cell d0 j t)) = without_pin (tkb_cell d0 j t)"
    using plain by (auto simp: without_pin_def)
  note c = clear_session_cell [of i h d j t]
  have "tkb_cell (clear_session i h d) j t \<in> {tkb_cell d0 j t, without_pin (tkb_cell d0 j t)}"
    using c Cons.prems twice by auto
  note IH = Cons.IH [OF this]
  show ?case
  proof (cases "i = j \<and> half_of t = h \<and> slot_open d j t")
    case True
    then have "tkb_cell (clear_session i h d) j t = without_pin (tkb_cell d0 j t)" using c Cons.prems twice by auto
    then show ?thesis using IH c by auto
  next
    case False
    then have "tkb_cell (clear_session i h d) j t = tkb_cell d j t" using c by auto
    then show ?thesis using IH c False by auto
  qed
qed auto

lemma cleared_open: "slot_open (fold (\<lambda>i. fold (clear_session i) hs) is d) j t = slot_open d j t"
proof (induction "is" arbitrary: d)
  case (Cons i "is")
  have "slot_open (fold (clear_session i) hs e) j t = slot_open e j t" for e
    by (induction hs arbitrary: e) (simp_all add: clear_session_cell)
  then show ?case using Cons by simp
qed simp

lemma clear_all_cell:
  assumes plain: "\<not> has_pin (cellMon (tkb_cell d0 j t))" and half: "half_of t \<in> set half_days"
    and start: "tkb_cell d j t \<in> {tkb_cell d0 j t, without_pin (tkb_cell d0 j t)}"
  shows "slot_open (fold (\<lambda>i. fold (clear_session i) half_days) is d) j t = slot_open d j t
    \<and> (slot_open d j t \<and> (tkb_cell d j t = without_pin (tkb_cell d0 j t) \<or> j \<in> set is)
        \<longrightarrow> tkb_cell (fold (\<lambda>i. fold (clear_session i) half_days) is d) j t = without_pin (tkb_cell d0 j t))"
  using start
proof (induction "is" arbitrary: d)
  case (Cons i "is")
  note c = clear_fold_cell [OF plain Cons.prems, of i half_days]
  from Cons.IH [OF conjunct1 [OF conjunct2 [OF c]]] show ?case using c half by auto
qed auto

definition mon_not_marked :: "js \<Rightarrow> bool" where
  "mon_not_marked c \<longleftrightarrow> \<not> has_pin (cellMon c)"

lemma clear_pins_clears:
  assumes "cells_all mon_not_marked d"
  shows "\<not> pins_left (clear_pins d)"
  unfolding pins_left_cells cells_all_def
proof (intro allI impI)
  fix i s
  assume half: "half_of s \<in> set half_days" and o: "slot_open (clear_pins d) i s"
  have o': "slot_open d i s" using o by (simp add: clear_pins_def cleared_open)
  have plain: "\<not> has_pin (cellMon (tkb_cell d i s))" using assms half o' unfolding cells_all_def mon_not_marked_def by blast
  from clear_all_cell [OF plain half, of d "tkb_ids d"] o' open_known [OF o']
  have "tkb_cell (clear_pins d) i s = without_pin (tkb_cell d i s)" by (simp add: clear_pins_def)
  then show "\<not> has_pin (tkb_cell (clear_pins d) i s)" using plain by (simp add: without_pin_def)
qed

lemma mon_not_marked_text: "mon_not_marked (JStr x)"
  by (simp add: mon_not_marked_def cellMon_def)

lemma unpin_clears:
  assumes "cells_all mon_not_marked d"
  shows "\<not> pins_left (snd (fst (tkbJointUnpin busy pins snap d)))"
proof -
  have "cells_all mon_not_marked (snd (fold unpin_one pins (False, d)))"
    by (rule unpin_cells [OF assms mon_not_marked_text])
  then have "cells_all (\<lambda>c. \<not> has_pin c) (clear_pins (snd (fold unpin_one pins (False, d))))"
    using clear_pins_clears by (simp add: pins_left_cells)
  then have "cells_all (\<lambda>c. \<not> has_pin c) (fst (fst (tkbJointReconcile busy True snap (clear_pins (snd (fold unpin_one pins (False, d)))))))"
    by (rule reconcile_cells) simp_all
  then show ?thesis by (simp add: tkbJointUnpin_def Let_def pins_left_cells)
qed

lemma stale_clears: "cells_all mon_not_marked d \<Longrightarrow> \<not> busy \<Longrightarrow> \<not> pins_left (fst (tkbJointClearStalePins busy pins snap d))"
  using clear_pins_clears by (simp add: tkbJointClearStalePins_def)

end
