(* ===== verification/PmJointProps.thy ===== *)
theory PmJointProps
  imports PmAgree PmPinOk
begin

section \<open>Timetable page: the properties of joint lessons\<close>

subsection \<open>Reconciling\<close>

text \<open>
  C20: Reconciling the joint lessons never opens a closed cell, and a lesson that is not joint stays in its
  cell, or it was not fixed and is reported as moved to the unassigned lessons.
\<close>

theorem reconcile_safe:
  "lessons_kept (row_low ` set (tkbJointGhepRows d)) d (fst (tkbJointReconcile busy force snap d))"
  by (rule reconcile_kept)

text \<open>All classes of a row show the placing that \<open>t\<close> had, except those with a cell reported as blocked.\<close>

definition all_follow :: "snapshot \<Rightarrow> js \<Rightarrow> joint_state \<Rightarrow> ustr \<Rightarrow> bool" where
  "all_follow snap row st t \<longleftrightarrow> list_all (\<lambda>i. refused i (reconcile_row snap row st)
      \<or> set (tkbJointPlacements (fst (reconcile_row snap row st)) i (row_low row)) = set (tkbJointPlacements (fst st) t (row_low row)))
    (members_of (fst st) row)"

text \<open>
  C27: After the step of a row every class of it shows the joint lesson at exactly the slots, with the locks,
  where the class of the truth showed it, unless one of its cells was reported as blocked. The truth is every
  class that has changed since the snapshot, when all that have agree; otherwise it is the first of the
  classes with the most frequent placing, and the one with more lessons among those.
\<close>

theorem members_agree:
  assumes "trimmed (jprop row ''ten'') \<noteq> []" "trimmed (jprop row ''ten'') \<noteq> u ''OFF''" "members_of (fst st) row \<noteq> []"
  shows "(one_change snap row (fst st) \<longrightarrow> list_all (all_follow snap row st) (changed_since snap row (fst st)))
    \<and> (\<not> one_change snap row (fst st) \<longrightarrow> all_follow snap row st (hd (filter (leads (fst st) row) (members_of (fst st) row))))"
proof -
  have "all_follow snap row st (row_truth snap row (fst st))"
    using row_members_agree [OF assms, of snap] unfolding all_follow_def list_all_iff arrived_def .
  moreover have "all_follow snap row st c"
    if "one_change snap row (fst st)" "c \<in> set (changed_since snap row (fst st))" "all_follow snap row st (hd (changed_since snap row (fst st)))" for c
    using that(3) one_change_same [OF that(1,2)] by (simp add: all_follow_def)
  ultimately show ?thesis unfolding truth_spec [OF assms(3)] list_all_iff by auto
qed

text \<open>Two classes with one joint lesson, which only the first shows.\<close>

definition joint_row :: js where
  "joint_row = JObj [(u ''id'', JStr (u ''DG1'')), (u ''ten'', JStr (u ''Hall'')),
     (u ''lop'', JArr [JStr (u ''6/1''), JStr (u ''6/2'')]), (u ''gv'', JArr [JStr (u ''GV1'')])]"

definition joint_school :: js where
  "joint_school = JObj [
     (u ''lop'', JArr [JObj [(u ''id'', JStr (u ''c1'')), (u ''ten'', JStr (u ''6/1''))], JObj [(u ''id'', JStr (u ''c2'')), (u ''ten'', JStr (u ''6/2''))]]),
     (u ''dayGhep'', JArr [joint_row]),
     (u ''tkb'', JObj [(u ''c1'', JObj [(u ''thu2'', JObj [(u ''sang'', JArr [JStr (u ''Hall''), JStr []])])]),
        (u ''c2'', JObj [(u ''thu2'', JObj [(u ''sang'', JArr [JStr (u ''Art''), JStr []])])])])]"

text \<open>Three classes with one joint lesson: all had it in the first period, then it was moved in the first class.\<close>

definition moved_row :: js where
  "moved_row = JObj [(u ''id'', JStr (u ''DG1'')), (u ''ten'', JStr (u ''Hall'')),
     (u ''lop'', JArr [JStr (u ''6/1''), JStr (u ''6/2''), JStr (u ''6/3'')]), (u ''gv'', JArr [JStr (u ''GV1'')])]"

definition moved_class :: "string \<Rightarrow> string list \<Rightarrow> ustr \<times> js" where
  "moved_class i xs = (u i, JObj [(u ''thu2'', JObj [(u ''sang'', JArr (map (\<lambda>x. JStr (u x)) xs))])])"

definition moved_school :: js where
  "moved_school = JObj [
     (u ''lop'', JArr (map (\<lambda>(i, t). JObj [(u ''id'', JStr (u i)), (u ''ten'', JStr (u t))]) [(''c1'', ''6/1''), (''c2'', ''6/2''), (''c3'', ''6/3'')])),
     (u ''dayGhep'', JArr [moved_row]),
     (u ''tkb'', JObj [moved_class ''c1'' ['''', ''Hall''], moved_class ''c2'' [''Hall'', ''''], moved_class ''c3'' [''Hall'', ''Art'']])]"

definition moved_snapshot :: snapshot where
  "moved_snapshot = [(tkbJointRowKey moved_row, map (\<lambda>i. (u i, u ''thu2|sang|0-'')) [''c1'', ''c2'', ''c3''])]"

lemma members_agree_witness: "all_follow moved_snapshot moved_row (moved_school, no_result) (u ''c1'')"
proof -
  have "trimmed (jprop moved_row ''ten'') \<noteq> []" "trimmed (jprop moved_row ''ten'') \<noteq> u ''OFF''" by code_simp+
  moreover have "members_of moved_school moved_row \<noteq> []" by code_simp
  moreover have c: "changed_since moved_snapshot moved_row moved_school = [u ''c1'']" by code_simp
  moreover have "one_change moved_snapshot moved_row moved_school" by (simp add: one_change_def c)
  ultimately show ?thesis using members_agree [of moved_row "(moved_school, no_result)" moved_snapshot] by simp
qed

subsection \<open>Pinning\<close>

text \<open>
  C25: Pinning for a solver leaves each cell as reconciling left it, or puts there the marked joint lesson,
  recorded in the list of marks, and then the cell was not closed and held that lesson, or nothing, or, when
  displacing is allowed, a lesson that was not fixed.
\<close>

theorem pin_safe:
  "pinned_ok allow (fst (fst (tkbJointReconcile busy True snap d))) (fst (tkbJointPinForSolve allow busy snap d)) i s"
  by (rule pin_keeps)

text \<open>
  C8: After unpinning no cell of the timetable carries a mark, whatever the solver wrote meanwhile, so no
  joint lesson stays fixed that the user did not fix; the same when stale marks are cleared at loading.
\<close>

theorem no_mark_left:
  assumes "cells_all mon_not_marked d"
  shows "\<not> pins_left (snd (fst (tkbJointUnpin busy pins snap d))) \<and> \<not> pins_left (fst (tkbJointClearStalePins False pins snap d))"
  by (simp add: unpin_clears [OF assms] stale_clears [OF assms])

lemma no_mark_left_witness:
  "\<not> pins_left (snd (fst (tkbJointUnpin False [(u ''c1'', (u ''thu2'', u ''sang'', 0), u ''Hall'')] None
       (set_tkb_cell (u ''c1'') (u ''thu2'', u ''sang'', 0) (pinned_cell (u ''Hall'')) joint_school))))"
proof -
  have "cells_all mon_not_marked (set_tkb_cell (u ''c1'') (u ''thu2'', u ''sang'', 0) (pinned_cell (u ''Hall'')) joint_school)"
    by (subst cells_array) (simp add: mon_not_marked_def has_pin_def cellMon_def, code_simp)
  then show ?thesis by (rule no_mark_left [THEN conjunct1])
qed

end
