(* ===== verification/PmOff.thy ===== *)
theory PmOff
  imports PmJoint
begin

section \<open>Timetable page: closed cells\<close>

text \<open>
  The user closes a cell of a class (\<open>OFF\<close>): the page notes a lock in \<open>DATA.tkbUserOff\<close> and in
  \<open>DATA.tkbConstraints.fixedOff.class\<close>, remembers the lesson that stood there in \<open>DATA.tkbOffRestore\<close>
  and writes \<open>OFF\<close>. Opening the cell again undoes this and puts the lesson back unless its teacher or room
  is taken meanwhile. Periods are natural numbers, as in the keys the page makes; a key with another period
  counts as one without a number. \<open>now\<close> is the clock, \<open>confirm\<close> the answer of the user.
\<close>

subsection \<open>The locks\<close>

definition ensure_object :: "string \<Rightarrow> js \<Rightarrow> js" where
  "ensure_object k d = (if is_object (jprop d k) then d else jput (u k) (JObj []) d)"

definition ensureClassFixedOffConstraints :: "js \<Rightarrow> js" where
  "ensureClassFixedOffConstraints d =
     jupd [u ''tkbConstraints'', u ''fixedOff''] (fold ensure_object [''class'', ''teacher'', ''subject'', ''room'', ''subjectGroup''])
       (jupd [u ''tkbConstraints''] (ensure_object ''fixedOff'') (ensure_object ''tkbConstraints'' d))"

fun slot_valid :: "slot \<Rightarrow> bool" where
  "slot_valid (thu, buoi, ti) \<longleftrightarrow> thu \<in> set days_list \<and> buoi \<in> set sessions_list \<and> ti < periods_per_session"

text \<open>Sets or deletes an entry of a table of tables; an empty inner table is deleted.\<close>

definition set_entry :: "ustr \<Rightarrow> ustr \<Rightarrow> bool \<Rightarrow> js \<Rightarrow> js" where
  "set_entry i k isOff table =
     (let t = js_or (jget table i) (JObj []); t' = (if isOff then jput k (JBool True) t else jdel k t)
      in if entries t' = [] then jdel i table else jput i t' table)"

definition has_fixed_off :: "js \<Rightarrow> string \<Rightarrow> ustr \<Rightarrow> slot \<Rightarrow> bool" where
  "has_fixed_off d kind i s \<longleftrightarrow> js_truthy (jget (jget (jprop (jprop (jprop d ''tkbConstraints'') ''fixedOff'') kind) i) (slot_key s))"

definition sync_fixed_off :: "string \<Rightarrow> ustr \<Rightarrow> slot \<Rightarrow> bool \<Rightarrow> js \<Rightarrow> tracked" where
  "sync_fixed_off kind i s isOff d =
     (if i = [] \<or> \<not> slot_valid s then (False, d)
      else let d1 = ensureClassFixedOffConstraints d
           in (has_fixed_off d1 kind i s \<noteq> isOff, jupd [u ''tkbConstraints'', u ''fixedOff'', u kind] (set_entry i (slot_key s) isOff) d1))"

definition syncClassFixedOffConstraint :: "ustr \<Rightarrow> slot \<Rightarrow> bool \<Rightarrow> js \<Rightarrow> tracked" where
  "syncClassFixedOffConstraint i = sync_fixed_off ''class'' i"

definition syncTeacherFixedOffConstraint :: "js \<Rightarrow> slot \<Rightarrow> bool \<Rightarrow> js \<Rightarrow> tracked" where
  "syncTeacherFixedOffConstraint code = sync_fixed_off ''teacher'' (trimmed code)"

text \<open>A lock is a text \<open>day|session|period\<close> or an object with these fields.\<close>

definition part_at :: "ustr list \<Rightarrow> nat \<Rightarrow> js" where
  "part_at ps n = (if n < length ps then JStr (ps ! n) else JUndef)"

definition natural :: "js \<Rightarrow> nat option" where
  "natural v = (case js_number v of None \<Rightarrow> None | Some q \<Rightarrow> if 0 \<le> q \<and> q = of_int \<lfloor>q\<rfloor> then Some (nat \<lfloor>q\<rfloor>) else None)"

definition read_slot :: "js \<Rightarrow> js \<Rightarrow> js \<Rightarrow> slot option" where
  "read_slot thu buoi ti = (case (thu, buoi, natural ti) of (JStr t, JStr b, Some n) \<Rightarrow> Some (t, b, n) | _ \<Rightarrow> None)"

definition parseUserOffLockKey :: "ustr \<Rightarrow> slot option" where
  "parseUserOffLockKey k = (let ps = split_on (\<lambda>c. c = 124) k in read_slot (part_at ps 0) (part_at ps 1) (part_at ps 2))"

definition lock_slot :: "js \<Rightarrow> slot option" where
  "lock_slot item = (case item of JStr k \<Rightarrow> parseUserOffLockKey k
     | _ \<Rightarrow> if is_object item then read_slot (jprop item ''thu'') (jprop item ''buoi'') (jprop item ''ti'') else None)"

definition lock_items :: "js \<Rightarrow> js list" where
  "lock_items raw = (case raw of JArr xs \<Rightarrow> xs
     | _ \<Rightarrow> map (\<lambda>kv. JStr (fst kv)) (filter (\<lambda>kv. js_truthy (snd kv)) (entries raw)))"

definition user_off_locks :: "js \<Rightarrow> ustr \<Rightarrow> ustr list" where
  "user_off_locks d i = (if i = [] then []
     else fold (\<lambda>item out. case lock_slot item of None \<Rightarrow> out
         | Some s \<Rightarrow> if slot_valid s \<and> slot_key s \<notin> set out then out @ [slot_key s] else out)
       (lock_items (jget (jprop d ''tkbUserOff'') i)) [])"

definition put_locks :: "ustr \<Rightarrow> ustr list \<Rightarrow> js \<Rightarrow> js" where
  "put_locks i ks = jupd [u ''tkbUserOff''] (jput i (JArr (map JStr ks)))"

definition normalizeUserOffList :: "ustr \<Rightarrow> js \<Rightarrow> ustr list \<times> js" where
  "normalizeUserOffList i d = (user_off_locks d i, if i = [] then d else put_locks i (user_off_locks d i) d)"

definition addUserOffLock :: "ustr \<Rightarrow> slot \<Rightarrow> js \<Rightarrow> tracked" where
  "addUserOffLock i s d =
     (if i = [] then (False, d)
      else let (ks, d1) = normalizeUserOffList i d; before = slot_key s \<in> set ks;
               r = syncClassFixedOffConstraint i s True (put_locks i (if before then ks else ks @ [slot_key s]) d1)
           in (\<not> before \<or> fst r, snd r))"

definition removeUserOffLock :: "ustr \<Rightarrow> slot \<Rightarrow> js \<Rightarrow> tracked" where
  "removeUserOffLock i s d =
     (if i = [] then (False, d)
      else let (ks, d1) = normalizeUserOffList i d;
               r = syncClassFixedOffConstraint i s False (put_locks i (filter (\<lambda>k. k \<noteq> slot_key s) ks) d1)
           in (slot_key s \<in> set ks \<or> fst r, snd r))"

subsection \<open>The lesson that gave way\<close>

definition off_entry :: "js \<Rightarrow> ustr \<Rightarrow> slot \<Rightarrow> js" where
  "off_entry d i s = jget (jget (jprop d ''tkbOffRestore'') i) (slot_key s)"

definition drop_entry :: "ustr \<Rightarrow> ustr \<Rightarrow> js \<Rightarrow> js" where
  "drop_entry i k table = (let t = jdel k (jget table i) in if entries t = [] then jdel i table else jput i t table)"

definition clearOffDisplacedLesson :: "ustr \<Rightarrow> slot \<Rightarrow> js \<Rightarrow> tracked" where
  "clearOffDisplacedLesson i s d =
     (if i = [] \<or> \<not> js_truthy (off_entry d i s) then (False, d)
      else (True, jupd [u ''tkbOffRestore''] (drop_entry i (slot_key s)) d))"

definition cloneTkbCellValue :: "js \<Rightarrow> js" where
  "cloneTkbCellValue v = (if is_object v then json_clone v else v)"

definition last_note :: "int \<Rightarrow> (string \<times> js) list \<Rightarrow> js \<Rightarrow> js" where
  "last_note now fs = jput (u ''tkbOffRestoreLast'') (JObj ((u ''at'', JNum now) # map (\<lambda>(k, v). (u k, v)) fs))"

definition remembered :: "int \<Rightarrow> js \<Rightarrow> ustr \<Rightarrow> js \<Rightarrow> js" where
  "remembered now d i v =
     (let mon = cellMon v
      in JObj [(u ''value'', cloneTkbCellValue v), (u ''mon'', mon), (u ''fixed'', JBool (pm_isFixed v)),
               (u ''teacher'', JStr (pm_getTeacherForClassMon d (first_text [getLopCanonById d i, i]) (js_string mon))),
               (u ''room'', JStr (pm_getRoomForClassMon d (first_text [getLopCanonById d i, i]) (js_string mon))),
               (u ''savedAt'', JNum now)])"

definition rememberOffDisplacedLesson :: "int \<Rightarrow> ustr \<Rightarrow> slot \<Rightarrow> js \<Rightarrow> js \<Rightarrow> tracked" where
  "rememberOffDisplacedLesson now i s v d =
     (if i = [] \<or> \<not> js_truthy (cellMon v) then clearOffDisplacedLesson i s d
      else let d1 = ensure_object ''tkbOffRestore'' d
           in (True, last_note now [(''classId'', JStr i), (''slotKey'', JStr (slot_key s)), (''action'', JStr (u ''remember'')), (''restored'', JNum 0)]
                (jupd [u ''tkbOffRestore''] (\<lambda>t. jput i (jput (slot_key s) (remembered now d i v) (js_or (jget t i) (JObj []))) t) d1)))"

definition others_at :: "js \<Rightarrow> ustr \<Rightarrow> slot \<Rightarrow> (ustr \<times> js) list" where
  "others_at d i s = List.map_filter (\<lambda>j. if j = i then None else map_option (Pair j) (cell_lesson (tkb_cell d j s))) (tkb_ids d)"

definition class_name :: "js \<Rightarrow> ustr \<Rightarrow> ustr" where
  "class_name d i = first_text [getLopCanonById d i, i]"

definition offRestoreTeacherConflict :: "js \<Rightarrow> js \<Rightarrow> ustr \<Rightarrow> slot \<Rightarrow> bool" where
  "offRestoreTeacherConflict d e i s =
     (let teacher = js_or (jprop e ''teacher'') (JStr (pm_getTeacherForClassMon d (class_name d i) (text_or (jprop e ''mon''))));
          wanted = teacherListFromValue d teacher
      in wanted \<noteq> [] \<and> list_ex (\<lambda>(j, mon). let other = pm_getTeacherForClassMon d (class_name d j) (js_string mon)
           in list_ex (\<lambda>code. teacherValueHas d other code) wanted) (others_at d i s))"

definition offRestoreRoomConflict :: "js \<Rightarrow> js \<Rightarrow> ustr \<Rightarrow> slot \<Rightarrow> bool" where
  "offRestoreRoomConflict d e i s =
     (let room = trimmed (jprop e ''room'')
      in room \<noteq> [] \<and> list_ex (\<lambda>(j, mon). trim (pm_getRoomForClassMon d (class_name d j) (js_string mon)) = room) (others_at d i s))"

datatype restore_answer = NoEntry | TeacherConflict | RoomConflict | Restored js

definition restored_value :: "js \<Rightarrow> js" where
  "restored_value e =
     (if \<not> nullish (jprop e ''value'') \<and> js_truthy (cellMon (jprop e ''value'')) then cloneTkbCellValue (jprop e ''value'')
      else if js_truthy (jprop e ''fixed'') then JObj [(u ''mon'', jprop e ''mon''), (u ''fixed'', JBool True)] else jprop e ''mon'')"

definition restoreOffDisplacedLesson :: "int \<Rightarrow> string \<Rightarrow> ustr \<Rightarrow> slot \<Rightarrow> js \<Rightarrow> restore_answer \<times> js" where
  "restoreOffDisplacedLesson now reason i s d =
     (let e = off_entry d i s; cur = tkb_cell d i s
      in if i = [] \<or> \<not> js_truthy e \<or> \<not> js_truthy (session_of_slot d i s) \<or> cell_lesson cur \<noteq> None then (NoEntry, d)
         else if offRestoreTeacherConflict d e i s then (TeacherConflict, d)
         else if offRestoreRoomConflict d e i s then (RoomConflict, d)
         else (Restored (jprop e ''mon''),
           last_note now [(''classId'', JStr i), (''slotKey'', JStr (slot_key s)), (''action'', JStr (u reason)), (''restored'', JNum 1), (''mon'', jprop e ''mon'')]
             (snd (clearOffDisplacedLesson i s (set_tkb_cell i s (restored_value e) d)))))"

text \<open>\<open>maxRestore\<close> lessons at most; slots still locked are passed over unless \<open>locked\<close>. Saving and drawing are left out.\<close>

definition pending_step :: "int \<Rightarrow> string \<Rightarrow> bool \<Rightarrow> nat \<Rightarrow> ustr \<Rightarrow> ustr \<Rightarrow> nat \<times> js \<Rightarrow> nat \<times> js" where
  "pending_step now reason locked most i k nd =
     (if most \<le> fst nd then nd
      else case parseUserOffLockKey k of None \<Rightarrow> nd
      | Some s \<Rightarrow> if fst s = [] \<or> fst (snd s) = [] then nd
          else let (ks, d1) = normalizeUserOffList i (snd nd)
               in if k \<in> set ks \<and> \<not> locked then (fst nd, d1)
                  else case restoreOffDisplacedLesson now reason i s d1 of (Restored _, d2) \<Rightarrow> (Suc (fst nd), d2) | (_, d2) \<Rightarrow> (fst nd, d2))"

definition restorePendingOffDisplacedLessons :: "int \<Rightarrow> string \<Rightarrow> bool \<Rightarrow> nat \<Rightarrow> js \<Rightarrow> nat \<times> js" where
  "restorePendingOffDisplacedLessons now reason locked most d =
     (let store = jprop d ''tkbOffRestore''
      in fold (\<lambda>i nd. if most \<le> fst nd then nd
           else fold (pending_step now reason locked most i) (map fst (entries (jget (jprop (snd nd) ''tkbOffRestore'') i))) nd)
         (map fst (entries store)) (0, d))"

definition apply_off_lock :: "ustr \<Rightarrow> slot \<Rightarrow> js \<Rightarrow> js" where
  "apply_off_lock i s d = (if js_truthy (session_of_slot d i s) then set_tkb_cell i s off_cell d else d)"

definition reapply_class :: "ustr \<Rightarrow> js \<Rightarrow> js" where
  "reapply_class i d =
     (if js_truthy (class_tkb d i)
      then let (ks, d1) = normalizeUserOffList i d in fold (apply_off_lock i) (List.map_filter parseUserOffLockKey ks) d1 else d)"

definition reapplyAllUserOffLocks :: "js \<Rightarrow> js" where
  "reapplyAllUserOffLocks d = fold reapply_class (tkb_ids d) d"

subsection \<open>Closing and opening cells, fixing and removing lessons\<close>

record cell_key =
  ck_scope :: ustr
  ck_class :: ustr
  ck_slot :: "slot option"

definition parseCellKey :: "ustr \<Rightarrow> cell_key" where
  "parseCellKey key =
     (let ps = split_on (\<lambda>c. c = 124) key; k = (if 5 \<le> length ps then 2 else 0)
      in \<lparr>ck_scope = (if k = 2 then ps ! 0 else []), ck_class = (if k = 2 then ps ! 1 else []),
          ck_slot = (case read_slot (part_at ps k) (part_at ps (k + 1)) (part_at ps (k + 2)) of None \<Rightarrow> None
            | Some s \<Rightarrow> if fst s = [] \<or> fst (snd s) = [] then None else Some s)\<rparr>)"

text \<open>\<open>idx >= arr.length\<close>: only arrays and strings have a length; a string holds no lesson of the teacher.\<close>

definition clear_teacher_cell :: "ustr \<Rightarrow> slot \<Rightarrow> ustr \<Rightarrow> tracked \<Rightarrow> tracked" where
  "clear_teacher_cell code s i fd =
     (let d = snd fd; arr = session_of_slot d i s
      in if \<not> is_array arr \<or> length (array_of arr) \<le> snd (snd s) then fd
         else case cell_lesson (tkb_cell d i s) of None \<Rightarrow> fd
         | Some mon \<Rightarrow> if teacherValueHas d (teacher_of_lesson d i mon) code then (True, set_tkb_cell i s (JStr []) d) else fd)"

definition clearTeacherLessonsAtSlot :: "js \<Rightarrow> slot \<Rightarrow> js \<Rightarrow> tracked" where
  "clearTeacherLessonsAtSlot code s d =
     (if trimmed code = [] \<or> half_of s \<notin> set half_days then (False, d) else fold (clear_teacher_cell (trimmed code) s) (tkb_ids d) (False, d))"

definition close_cell :: "int \<Rightarrow> ustr \<Rightarrow> slot \<Rightarrow> js \<Rightarrow> tracked" where
  "close_cell now i s d =
     (let cur = tkb_cell d i s; r = addUserOffLock i s d
      in if cur = off_cell then r
         else (True, set_tkb_cell i s off_cell (snd (if js_truthy (cellMon cur) then rememberOffDisplacedLesson now i s cur (snd r)
           else clearOffDisplacedLesson i s (snd r)))))"

definition reopen_cell :: "int \<Rightarrow> ustr \<Rightarrow> slot \<Rightarrow> js \<Rightarrow> tracked" where
  "reopen_cell now i s d =
     (let r = removeUserOffLock i s d
      in if tkb_cell d i s \<noteq> off_cell then r
         else (True, case restoreOffDisplacedLesson now ''clear_off'' i s (snd r) of
           (Restored _, d2) \<Rightarrow> d2 | (_, d2) \<Rightarrow> set_tkb_cell i s (JStr []) d2))"

text \<open>
  \<open>None\<close> in the middle: the user did not agree to unfix a lesson, and the function returned at once. The first
  component says whether a save follows.
\<close>

definition set_off_key :: "int \<Rightarrow> bool \<Rightarrow> (ustr \<Rightarrow> bool) \<Rightarrow> bool \<Rightarrow> ustr \<Rightarrow> js \<Rightarrow> ustr \<Rightarrow> bool \<times> tracked \<Rightarrow> bool \<times> tracked" where
  "set_off_key now skip confirm isOff currentLop currentGV key st =
     (let k = parseCellKey key; fd = snd st; d = snd fd
      in if fst st then st
         else case ck_slot k of None \<Rightarrow> st
         | Some s \<Rightarrow>
             if ck_scope k = u ''teacher'' then
               (let code = JStr (trimmed (js_or (JStr (ck_class k)) currentGV)); r = syncTeacherFixedOffConstraint code s isOff d;
                    c = (if isOff then clearTeacherLessonsAtSlot code s (snd r) else (False, snd r))
                in if trimmed code = [] then st else (False, fst fd \<or> fst r \<or> fst c, snd c))
             else let i = first_text [ck_class k, currentLop]
                  in if i = [] \<or> \<not> js_truthy (class_tkb d i) \<or> \<not> js_truthy (session_of_slot d i s) then st
                     else if isOff \<and> pm_isFixed (tkb_cell d i s) \<and> \<not> skip \<and> \<not> confirm key then (True, fd)
                     else let r = (if isOff then close_cell now i s d else reopen_cell now i s d) in (False, fst fd \<or> fst r, snd r))"

definition setOffByKeys :: "int \<Rightarrow> bool \<Rightarrow> (ustr \<Rightarrow> bool) \<Rightarrow> bool \<Rightarrow> ustr \<Rightarrow> js \<Rightarrow> ustr list \<Rightarrow> js \<Rightarrow> tracked" where
  "setOffByKeys now skip confirm isOff currentLop currentGV keys d =
     (let st = fold (set_off_key now skip confirm isOff currentLop currentGV) keys (False, False, d)
      in (\<not> fst st \<and> fst (snd st), snd (snd st)))"

text \<open>The lesson of the class cell that a key names.\<close>

definition class_lesson :: "ustr \<Rightarrow> js \<Rightarrow> ustr \<Rightarrow> (ustr \<times> slot \<times> js) option" where
  "class_lesson currentLop d key =
     (let k = parseCellKey key; i = first_text [ck_class k, currentLop]
      in case ck_slot k of None \<Rightarrow> None
         | Some s \<Rightarrow> if i = [] \<or> \<not> js_truthy (session_of_slot d i s) then None
             else map_option (\<lambda>mon. (i, s, mon)) (cell_lesson (tkb_cell d i s)))"

definition toggleFixedByKey :: "ustr \<Rightarrow> ustr \<Rightarrow> js \<Rightarrow> tracked" where
  "toggleFixedByKey currentLop key d = (case class_lesson currentLop d key of None \<Rightarrow> (False, d)
     | Some (i, s, mon) \<Rightarrow> (True, set_tkb_cell i s (if pm_isFixed (tkb_cell d i s) then mon
         else JObj [(u ''mon'', mon), (u ''fixed'', JBool True)]) d))"

definition clearLessonByKey :: "ustr \<Rightarrow> ustr \<Rightarrow> js \<Rightarrow> tracked" where
  "clearLessonByKey currentLop key d = (case class_lesson currentLop d key of None \<Rightarrow> (False, d)
     | Some (i, s, mon) \<Rightarrow> (True, set_tkb_cell i s (JStr []) d))"

subsection \<open>Empty timetables\<close>

definition taoTKBTrong :: js where
  "taoTKBTrong = JObj (map (\<lambda>day. (day, JObj (map (\<lambda>b. (b, JArr (replicate periods_per_session (JStr [])))) sessions_list))) days_list)"

definition five_cells :: "js \<Rightarrow> js" where
  "five_cells v = JArr (take periods_per_session (array_of v @ replicate periods_per_session (JStr [])))"

definition ensure_tkb_day :: "ustr \<Rightarrow> js \<Rightarrow> js" where
  "ensure_tkb_day day t =
     (let v = (if is_object (jget t day) then jget t day else JObj [])
      in jput day (fold (\<lambda>b w. jput b (five_cells (jget w b)) w) sessions_list v) t)"

definition ensureTkbShape :: "js \<Rightarrow> js" where
  "ensureTkbShape t = fold ensure_tkb_day days_list (if is_object t then t else JObj [])"

definition config_cell :: "(js \<Rightarrow> js) \<Rightarrow> js \<Rightarrow> js \<Rightarrow> js" where
  "config_cell v item t = (case (jprop item ''thu'', jprop item ''buoi'', natural (jprop item ''tiet'')) of
     (JStr thu, JStr buoi, Some n) \<Rightarrow> (case jget (jget t thu) buoi of
        JArr xs \<Rightarrow> if n < length xs then jupd [thu, buoi] (jset_idx n (v item)) t else t | _ \<Rightarrow> t)
   | _ \<Rightarrow> t)"

definition applyFixedAndOff :: "js \<Rightarrow> js \<Rightarrow> js" where
  "applyFixedAndOff cfg t =
     fold (config_cell (\<lambda>_. off_cell)) (array_of (jprop cfg ''off''))
       (fold (config_cell (\<lambda>item. JObj [(u ''mon'', js_or (jprop item ''ten'') (JStr [])), (u ''fixed'', JBool True)]))
         (array_of (jprop cfg ''fixed'')) (ensureTkbShape t))"

definition collectFixedLessonsForClass :: "js \<Rightarrow> ustr \<Rightarrow> (slot \<times> js) list" where
  "collectFixedLessonsForClass d i = concat (map (\<lambda>(thu, buoi).
     let xs = array_of (session_at d i thu buoi)
     in map (\<lambda>k. ((thu, buoi, k), cellMon (xs ! k)))
          (filter (\<lambda>k. pm_isFixed (xs ! k) \<and> js_truthy (cellMon (xs ! k))) [0..<length xs])) half_days)"

fun write_slot :: "js \<Rightarrow> slot \<Rightarrow> js \<Rightarrow> js" where
  "write_slot v (thu, buoi, ti) t = (if js_truthy (jget (jget t thu) buoi) then jupd [thu, buoi] (jset_idx ti v) t else t)"

definition makeEmptyTKBPreservingOff :: "js \<Rightarrow> ustr \<Rightarrow> js \<Rightarrow> js" where
  "makeEmptyTKBPreservingOff cfg i d =
     fold (write_slot off_cell) (List.map_filter parseUserOffLockKey (user_off_locks d i))
       (fold (\<lambda>(s, mon). write_slot (JObj [(u ''mon'', mon), (u ''fixed'', JBool True)]) s) (collectFixedLessonsForClass d i)
         (applyFixedAndOff cfg taoTKBTrong))"

end
