(* ===== verification/PmOffOk.thy ===== *)
theory PmOffOk
  imports PmOff PmAgree JsJsonOk
begin

section \<open>Timetable page: closing a cell and opening it again\<close>

text \<open>
  Locks are read back as they were written, and opening a cell that was closed puts its lesson back unless
  the teacher or the room is taken.
\<close>

subsection \<open>Locks\<close>

lemma digits_only: "list_all is_digit (nat_str n)"
  by (auto simp: list_all_iff dest: nat_str_digits)

lemma digit_ends: "is_digit (hd (nat_str n))" "is_digit (last (nat_str n))"
  by (rule nat_str_digits [of _ n]; simp)+

lemma trim_digits: "trim (nat_str n) = nat_str n"
proof -
  have hd: "dropWhile is_space w = w" if "\<not> is_space (hd w)" for w
    using that by (cases w) simp_all
  have "\<not> is_space (hd (nat_str n))" "\<not> is_space (hd (rev (nat_str n)))"
    using digit_ends [of n] by (auto simp: hd_rev is_digit_def is_space_def)
  then show ?thesis by (simp add: trim_def hd)
qed

lemma number_digits: "string_number (nat_str n) = Some (of_nat n)"
proof -
  have "hd (nat_str n) \<noteq> 45" "hd (nat_str n) \<noteq> 43" using digit_ends(1) [of n] by (auto simp: is_digit_def)
  moreover have tw: "takeWhile is_digit (nat_str n) = nat_str n" "dropWhile is_digit (nat_str n) = []"
    using digits_only [of n] by (simp_all add: list_all_iff)
  ultimately show ?thesis by (simp add: string_number_def Let_def trim_digits unsigned_number_def tw)
qed

lemma natural_digits: "natural (JStr (nat_str n)) = Some n"
  by (simp add: natural_def number_digits)

lemma parse_slot_key:
  assumes "half_of s \<in> set half_days"
  shows "parseUserOffLockKey (slot_key s) = Some s"
proof (cases s)
  case (fields thu buoi ti)
  have no: "124 \<notin> set thu" "124 \<notin> set buoi" "124 \<notin> set (nat_str ti)"
    using half_texts [of thu buoi] nat_str_unit [of 124 ti] assms fields by auto
  have "slot_key s = join_with [124] [thu, buoi, nat_str ti]" by (simp add: fields)
  then have "split_on (\<lambda>c. c = 124) (slot_key s) = [thu, buoi, nat_str ti]"
    using split_join [of "[thu, buoi, nat_str ti]" 124] no by auto
  then show ?thesis by (simp add: parseUserOffLockKey_def Let_def part_at_def read_slot_def natural_digits fields)
qed

lemma valid_half: "slot_valid s \<Longrightarrow> half_of s \<in> set half_days"
  by (cases s) (simp add: half_days_def)

definition good_locks :: "ustr list \<Rightarrow> bool" where
  "good_locks ks \<longleftrightarrow> distinct ks \<and> (\<forall>k \<in> set ks. \<exists>s. slot_valid s \<and> k = slot_key s)"

lemma locks_good: "good_locks (user_off_locks d i)"
proof -
  have "good_locks (fold (\<lambda>item out. case lock_slot item of None \<Rightarrow> out
      | Some s \<Rightarrow> if slot_valid s \<and> slot_key s \<notin> set out then out @ [slot_key s] else out) items out)" if "good_locks out" for items out
    using that
  proof (induction items arbitrary: out)
    case (Cons x xs)
    have "good_locks (case lock_slot x of None \<Rightarrow> out | Some s \<Rightarrow> if slot_valid s \<and> slot_key s \<notin> set out then out @ [slot_key s] else out)"
      using Cons.prems by (auto simp: good_locks_def split: option.split)
    then show ?case using Cons.IH by simp
  qed simp
  moreover have "good_locks []" by (simp add: good_locks_def)
  ultimately show ?thesis by (simp add: user_off_locks_def)
qed

lemma read_locks:
  assumes "good_locks ks" "i \<noteq> []" "jget (jprop d ''tkbUserOff'') i = JArr (map JStr ks)"
  shows "user_off_locks d i = ks"
proof -
  have "fold (\<lambda>item out. case lock_slot item of None \<Rightarrow> out
      | Some s \<Rightarrow> if slot_valid s \<and> slot_key s \<notin> set out then out @ [slot_key s] else out) (map JStr ls) out = out @ ls"
    if "good_locks ls" "set ls \<inter> set out = {}" for ls out
    using that
  proof (induction ls arbitrary: out)
    case (Cons k ls)
    obtain s where s: "slot_valid s" "k = slot_key s" using Cons.prems(1) by (auto simp: good_locks_def)
    then have "lock_slot (JStr k) = Some s" by (simp add: lock_slot_def parse_slot_key valid_half)
    moreover have "good_locks ls" "set ls \<inter> set (out @ [k]) = {}" using Cons.prems by (auto simp: good_locks_def)
    ultimately show ?case using Cons.IH [of "out @ [k]"] Cons.prems(2) s by simp
  qed simp
  from this [OF assms(1), of "[]"] show ?thesis using assms(2,3) by (simp add: user_off_locks_def lock_items_def)
qed

lemma put_locks_read:
  assumes "good_locks ks" "i \<noteq> []" "is_obj d" "is_obj (jprop d ''tkbUserOff'')"
  shows "user_off_locks (put_locks i ks d) i = ks"
  by (rule read_locks [OF assms(1,2)]) (simp add: put_locks_def jget_jput assms(3,4))

subsection \<open>What each step leaves alone\<close>

definition but_for :: "string set \<Rightarrow> js \<Rightarrow> js \<Rightarrow> bool" where
  "but_for K d d' \<longleftrightarrow> is_obj d' = is_obj d \<and> (\<forall>k. k \<notin> K \<longrightarrow> jprop d' k = jprop d k)"

lemma but_forD: "but_for K d d' \<Longrightarrow> k \<notin> K \<Longrightarrow> jprop d' k = jprop d k" "but_for K d d' \<Longrightarrow> is_obj d' = is_obj d"
  by (simp_all add: but_for_def)

lemma but_for_trans: "but_for K d e \<Longrightarrow> but_for K e f \<Longrightarrow> but_for K d f"
  unfolding but_for_def by metis

lemma but_for_mono: "but_for K d e \<Longrightarrow> K \<subseteq> L \<Longrightarrow> but_for L d e"
  unfolding but_for_def by blast

lemma but_for_refl [simp]: "but_for K d d"
  by (simp add: but_for_def)

lemma jput_but_for: "k \<in> K \<Longrightarrow> but_for K d (jput (u k) v d)"
  by (auto simp: but_for_def jget_jput)

lemma jupd_but_for: "k \<in> K \<Longrightarrow> but_for K d (jupd (u k # ks) f d)"
  by (simp add: jput_but_for)

lemma ensure_object_but_for: "k \<in> K \<Longrightarrow> but_for K d (ensure_object k d)"
  by (simp add: ensure_object_def jput_but_for)

lemma constraints_but_for: "but_for {''tkbConstraints''} d (ensureClassFixedOffConstraints d)"
  unfolding ensureClassFixedOffConstraints_def
  by (rule but_for_trans [OF but_for_trans [OF ensure_object_but_for jupd_but_for] jupd_but_for]) simp_all

lemma sync_but_for: "but_for {''tkbConstraints''} d (snd (sync_fixed_off kind i s b d))"
  unfolding sync_fixed_off_def Let_def
  using but_for_trans [OF constraints_but_for jupd_but_for [of "''tkbConstraints''"], of d] by (simp del: jupd.simps)

lemma class_sync_but_for: "but_for {''tkbConstraints''} d (snd (syncClassFixedOffConstraint i s b d))"
  by (simp add: syncClassFixedOffConstraint_def sync_but_for)

lemma put_locks_but_for: "but_for {''tkbUserOff''} d (put_locks i ks d)"
  unfolding put_locks_def by (rule jupd_but_for) simp

abbreviation lock_keys :: "string set" where
  "lock_keys \<equiv> {''tkbUserOff'', ''tkbConstraints''}"

lemma locks_written: "but_for lock_keys d (snd (syncClassFixedOffConstraint i s b (put_locks i ks (put_locks i ls d))))"
  by (rule but_for_trans [OF but_for_trans [OF but_for_mono [OF put_locks_but_for] but_for_mono [OF put_locks_but_for]]
      but_for_mono [OF class_sync_but_for]]) auto

lemma add_lock_but_for: "but_for lock_keys d (snd (addUserOffLock i s d))"
  by (simp add: addUserOffLock_def normalizeUserOffList_def Let_def locks_written)

lemma remove_lock_but_for: "but_for lock_keys d (snd (removeUserOffLock i s d))"
  by (simp add: removeUserOffLock_def normalizeUserOffList_def Let_def locks_written)

abbreviation entry_keys :: "string set" where
  "entry_keys \<equiv> {''tkbOffRestore'', ''tkbOffRestoreLast''}"

lemma clear_entry_but_for: "but_for entry_keys d (snd (clearOffDisplacedLesson i s d))"
  by (simp add: clearOffDisplacedLesson_def jput_but_for)

lemma last_note_but_for: "but_for entry_keys d (last_note now fs d)"
  by (simp add: last_note_def jput_but_for)

lemma remember_but_for: "but_for entry_keys d (snd (rememberOffDisplacedLesson now i s v d))"
proof (cases "i = [] \<or> \<not> js_truthy (cellMon v)")
  case True
  then show ?thesis using clear_entry_but_for by (simp add: rememberOffDisplacedLesson_def)
next
  case False
  show ?thesis unfolding rememberOffDisplacedLesson_def Let_def if_not_P [OF False] snd_conv
    by (rule but_for_trans [OF but_for_trans [OF ensure_object_but_for jupd_but_for] last_note_but_for]) simp_all
qed

lemma set_cell_but_for: "but_for {''tkb''} d (set_tkb_cell i s v d)"
  unfolding set_cell_path by (cases s) (simp add: jput_but_for)

lemma but_for_cells:
  assumes "but_for K d d'" "''tkb'' \<notin> K"
  shows "tkb_cell d' j t = tkb_cell d j t" "slot_open d' j t = slot_open d j t" "tkb_ids d' = tkb_ids d"
  using but_forD(1) [OF assms] by (cases t; simp add: tkb_cell.simps session_at_def class_tkb_def slot_open_def tkb_ids_def)+

lemma but_for_locks: "but_for K d d' \<Longrightarrow> ''tkbUserOff'' \<notin> K \<Longrightarrow> user_off_locks d' i = user_off_locks d i"
  using but_forD(1) [of K d d' "''tkbUserOff''"] by (simp add: user_off_locks_def)

lemma but_for_entry: "but_for K d d' \<Longrightarrow> ''tkbOffRestore'' \<notin> K \<Longrightarrow> off_entry d' i s = off_entry d i s"
  using but_forD(1) [of K d d' "''tkbOffRestore''"] by (simp add: off_entry_def)

lemma but_for_fixed: "but_for K d d' \<Longrightarrow> ''tkbConstraints'' \<notin> K \<Longrightarrow> has_fixed_off d' kind i s = has_fixed_off d kind i s"
  using but_forD(1) [of K d d' "''tkbConstraints''"] by (simp add: has_fixed_off_def)

text \<open>Names, teachers and rooms are read from the lists and the tables of the assignment only.\<close>

abbreviation name_keys :: "string set" where
  "name_keys \<equiv> {''lop'', ''giaovien'', ''monhoc'', ''mon'', ''pccmMatrix'', ''pccmRoomMatrix'', ''tkbLessonTeachers'', ''tkbLessonRooms''}"

lemma names_cong:
  assumes "but_for K d d'" "K \<inter> name_keys = {}"
  shows "teacherListFromValue d' = teacherListFromValue d" "teacherValueHas d' = teacherValueHas d" "class_name d' = class_name d"
    "pm_getTeacherForClassMon d' = pm_getTeacherForClassMon d" "pm_getRoomForClassMon d' = pm_getRoomForClassMon d"
proof -
  have p: "jprop d' k = jprop d k" if "k \<in> name_keys" for k using but_forD(1) [OF assms(1)] assms(2) that by blast
  have rows: "rows_of d' ''lop'' = rows_of d ''lop''" "rows_of d' ''giaovien'' = rows_of d ''giaovien''"
    "rows_of d' ''monhoc'' = rows_of d ''monhoc''" "rows_of d' ''mon'' = rows_of d ''mon''" by (simp_all add: rows_of_def p)
  have r: "pm_resolve d' = pm_resolve d" by (intro ext) (simp only: pm_resolve_def rows)
  show l: "teacherListFromValue d' = teacherListFromValue d" by (intro ext) (simp only: teacherListFromValue_def r)
  show "teacherValueHas d' = teacherValueHas d" by (intro ext) (simp only: teacherValueHas_def l r)
  have "getLopCanonById d' = getLopCanonById d" by (intro ext) (simp only: getLopCanonById_def rows)
  then show "class_name d' = class_name d" by (intro ext) (simp only: class_name_def)
  have ks: "classKeyCandidates d' = classKeyCandidates d" by (intro ext) (simp only: classKeyCandidates_def rows)
  have rec: "allMonRecords d' = allMonRecords d" by (simp only: allMonRecords_def rows)
  have par: "mon_parents d' = mon_parents d" by (simp only: mon_parents_def rec)
  have "findMonHoc d' = findMonHoc d" by (intro ext) (simp only: findMonHoc_def monCanonicalKey_def par rec)
  then have "subject_names d' = subject_names d" by (intro ext) (simp only: subject_names_def)
  then have lk: "lesson_keys d' = lesson_keys d" by (intro ext) (simp only: lesson_keys_def ks)
  have tv: "teacherValueFromRaw d' = teacherValueFromRaw d" by (intro ext) (simp only: teacherValueFromRaw_def l)
  have t: "jprop d' ''pccmMatrix'' = jprop d ''pccmMatrix''" "jprop d' ''pccmRoomMatrix'' = jprop d ''pccmRoomMatrix''"
    "jprop d' ''tkbLessonTeachers'' = jprop d ''tkbLessonTeachers''" "jprop d' ''tkbLessonRooms'' = jprop d ''tkbLessonRooms''"
    by (simp_all add: p)
  show "pm_getTeacherForClassMon d' = pm_getTeacherForClassMon d"
    by (intro ext) (simp only: pm_getTeacherForClassMon_def lk ks tv t Let_def)
  show "pm_getRoomForClassMon d' = pm_getRoomForClassMon d"
    by (intro ext) (simp only: pm_getRoomForClassMon_def lk ks t Let_def)
qed

subsection \<open>Teachers and rooms that are taken\<close>

text \<open>Who teaches a lesson of a class, and whether another class has one of the teachers, or the room, at the slot.\<close>

definition taught_by :: "js \<Rightarrow> ustr \<Rightarrow> js \<Rightarrow> ustr" where
  "taught_by d i mon = pm_getTeacherForClassMon d (class_name d i) (js_string mon)"

definition held_in :: "js \<Rightarrow> ustr \<Rightarrow> js \<Rightarrow> ustr" where
  "held_in d i mon = trim (pm_getRoomForClassMon d (class_name d i) (js_string mon))"

definition teacher_busy :: "js \<Rightarrow> ustr \<Rightarrow> slot \<Rightarrow> ustr \<Rightarrow> bool" where
  "teacher_busy d i s names \<longleftrightarrow> (\<exists>j \<in> set (tkb_ids d). j \<noteq> i \<and> (case cell_lesson (tkb_cell d j s) of None \<Rightarrow> False
     | Some mon \<Rightarrow> \<exists>code \<in> set (teacherListFromValue d (JStr names)). teacherValueHas d (taught_by d j mon) code))"

definition room_busy :: "js \<Rightarrow> ustr \<Rightarrow> slot \<Rightarrow> ustr \<Rightarrow> bool" where
  "room_busy d i s room \<longleftrightarrow> room \<noteq> [] \<and> (\<exists>j \<in> set (tkb_ids d). j \<noteq> i \<and> (case cell_lesson (tkb_cell d j s) of None \<Rightarrow> False
     | Some mon \<Rightarrow> held_in d j mon = room))"

lemma others_ex: "list_ex (\<lambda>(j, mon). P j mon) (others_at d i s)
    \<longleftrightarrow> (\<exists>j \<in> set (tkb_ids d). j \<noteq> i \<and> (case cell_lesson (tkb_cell d j s) of None \<Rightarrow> False | Some mon \<Rightarrow> P j mon))"
proof -
  have "list_ex (\<lambda>(j, mon). P j mon) (List.map_filter (\<lambda>j. if j = i then None else map_option (Pair j) (cell_lesson (tkb_cell d j s))) js)
      \<longleftrightarrow> (\<exists>j \<in> set js. j \<noteq> i \<and> (case cell_lesson (tkb_cell d j s) of None \<Rightarrow> False | Some mon \<Rightarrow> P j mon))" for js
    by (induction js) (auto simp: List.map_filter_simps split: option.splits)
  then show ?thesis by (simp only: others_at_def)
qed

lemma teacher_conflict:
  assumes "jprop e ''teacher'' = JStr names" "jprop e ''mon'' = mon" "js_truthy mon"
  shows "offRestoreTeacherConflict d e i s \<longleftrightarrow> teacher_busy d i s (if names \<noteq> [] then names else taught_by d i mon)"
proof -
  define w where "w = (if names \<noteq> [] then names else taught_by d i mon)"
  have "js_or (jprop e ''teacher'') (JStr (pm_getTeacherForClassMon d (class_name d i) (text_or (jprop e ''mon'')))) = JStr w"
    using assms by (simp add: w_def js_or_def text_or_def taught_by_def)
  then have "offRestoreTeacherConflict d e i s \<longleftrightarrow> teacher_busy d i s w"
    unfolding offRestoreTeacherConflict_def Let_def others_ex teacher_busy_def taught_by_def
    by (cases "teacherListFromValue d (JStr w) = []") (auto simp: list_ex_iff split: option.splits)
  then show ?thesis by (simp only: w_def)
qed

lemma room_conflict: "offRestoreRoomConflict d e i s \<longleftrightarrow> room_busy d i s (trimmed (jprop e ''room''))"
  unfolding offRestoreRoomConflict_def Let_def others_ex room_busy_def held_in_def ..

lemma conflicts_cong:
  assumes "but_for K d d'" "K \<inter> name_keys = {}" "''tkb'' \<notin> K"
  shows "teacher_busy d' i s = teacher_busy d i s" "room_busy d' i s = room_busy d i s" "taught_by d' = taught_by d" "held_in d' = held_in d"
proof -
  note n = names_cong [OF assms(1,2)] and c = but_for_cells [OF assms(1,3)]
  show t: "taught_by d' = taught_by d" "held_in d' = held_in d" by (intro ext; simp only: taught_by_def held_in_def n)+
  show "teacher_busy d' i s = teacher_busy d i s" "room_busy d' i s = room_busy d i s"
    by (intro ext; simp only: teacher_busy_def room_busy_def c n t)+
qed

text \<open>Writing into a cell of the class itself takes nobody and frees nobody.\<close>

lemma set_cell_busy:
  assumes "slot_open d i s"
  shows "teacher_busy (set_tkb_cell i s v d) i s names = teacher_busy d i s names" "room_busy (set_tkb_cell i s v d) i s room = room_busy d i s room"
proof -
  note n = names_cong [OF set_cell_but_for [of d i s v], simplified]
  have t: "taught_by (set_tkb_cell i s v d) = taught_by d" "held_in (set_tkb_cell i s v d) = held_in d"
    by (intro ext; simp only: taught_by_def held_in_def n)+
  have ids: "j \<in> set (tkb_ids (set_tkb_cell i s v d)) \<longleftrightarrow> j \<in> set (tkb_ids d)" if "j \<noteq> i" for j
  proof -
    have h: "has_key j (jput i x w) = has_key j w" for x w using that by (cases w) (auto simp: has_key_def dom_update)
    have "has_key j (jprop (set_tkb_cell i s v d) ''tkb'') = has_key j (jprop d ''tkb'')"
      unfolding set_cell_path by (cases s) (simp add: jget_jput h)
    then show ?thesis by (simp add: tkb_ids_def has_key_def)
  qed
  have c: "tkb_cell (set_tkb_cell i s v d) j s = tkb_cell d j s" if "j \<noteq> i" for j using assms that by simp
  show "teacher_busy (set_tkb_cell i s v d) i s names = teacher_busy d i s names" "room_busy (set_tkb_cell i s v d) i s room = room_busy d i s room"
    unfolding teacher_busy_def room_busy_def t n using ids c by (metis (no_types, lifting))+
qed

lemma restore_cong:
  assumes "but_for K d d'" "K \<inter> name_keys = {}" "''tkb'' \<notin> K"
  shows "offRestoreTeacherConflict d' = offRestoreTeacherConflict d" "offRestoreRoomConflict d' = offRestoreRoomConflict d"
proof -
  note n = names_cong [OF assms(1,2)] and c = but_for_cells [OF assms(1,3)]
  have "others_at d' = others_at d" by (intro ext) (simp only: others_at_def c)
  then show "offRestoreTeacherConflict d' = offRestoreTeacherConflict d" "offRestoreRoomConflict d' = offRestoreRoomConflict d"
    by (intro ext; simp only: offRestoreTeacherConflict_def offRestoreRoomConflict_def n)+
qed

subsection \<open>What each step does\<close>

text \<open>A table is an object, or missing.\<close>

definition table_ok :: "js \<Rightarrow> bool" where
  "table_ok v \<longleftrightarrow> (js_truthy v \<longrightarrow> is_obj v)"

definition class_table :: "js \<Rightarrow> js" where
  "class_table d = jprop (jprop (jprop d ''tkbConstraints'') ''fixedOff'') ''class''"

definition constraints_ok :: "js \<Rightarrow> ustr \<Rightarrow> bool" where
  "constraints_ok d i \<longleftrightarrow> table_ok (jprop d ''tkbConstraints'') \<and> table_ok (jprop (jprop d ''tkbConstraints'') ''fixedOff'')
     \<and> table_ok (class_table d) \<and> table_ok (jget (class_table d) i)"

lemma ensure_object_at: "is_obj d \<Longrightarrow> table_ok (jprop d k) \<Longrightarrow> is_obj (jprop (ensure_object k d) k)"
  by (cases "jprop d k") (auto simp: ensure_object_def table_ok_def jget_jput)

lemma ensure_object_get: "jprop (ensure_object k d) l = (if l = k \<and> is_obj d \<and> \<not> is_object (jprop d k) then JObj [] else jprop d l)"
  by (simp add: ensure_object_def jget_jput)

lemma is_obj_object: "is_obj v \<Longrightarrow> is_object v"
  by (cases v) auto

lemma ensure_object_obj: "is_obj (ensure_object k d) = is_obj d"
  by (simp add: ensure_object_def)

lemma ensure_fold_obj: "is_obj (fold ensure_object ks d) = is_obj d"
  by (induction ks arbitrary: d) (simp_all add: ensure_object_obj)

lemma ensure_fold_get: "is_obj d \<Longrightarrow> distinct ks \<Longrightarrow>
    jprop (fold ensure_object ks d) l = (if l \<in> set ks \<and> \<not> is_object (jprop d l) then JObj [] else jprop d l)"
  by (induction ks arbitrary: d) (auto simp: ensure_object_get ensure_object_obj)

lemma constraints_made:
  assumes "is_obj d" "constraints_ok d i"
  shows "is_obj (jprop (ensureClassFixedOffConstraints d) ''tkbConstraints'')"
    "is_obj (jprop (jprop (ensureClassFixedOffConstraints d) ''tkbConstraints'') ''fixedOff'')"
    "is_obj (class_table (ensureClassFixedOffConstraints d))"
    "table_ok (jget (class_table (ensureClassFixedOffConstraints d)) i)"
proof -
  define c where "c = jprop (ensure_object ''tkbConstraints'' d) ''tkbConstraints''"
  define f where "f = jprop (ensure_object ''fixedOff'' c) ''fixedOff''"
  define f' where "f' = fold ensure_object [''class'', ''teacher'', ''subject'', ''room'', ''subjectGroup''] f"
  have c: "is_obj c" "table_ok (jprop c ''fixedOff'')"
    using assms ensure_object_at [of d "''tkbConstraints''"] by (auto simp: c_def constraints_ok_def ensure_object_get table_ok_def)
  have f: "is_obj f" using c ensure_object_at [of c "''fixedOff''"] by (simp add: f_def)
  have d': "jprop (ensureClassFixedOffConstraints d) ''tkbConstraints'' = jput (u ''fixedOff'') f' (ensure_object ''fixedOff'' c)"
    using assms(1) by (simp add: ensureClassFixedOffConstraints_def jget_jput ensure_object_obj c_def f_def f'_def)
  have k: "jprop f ''class'' = class_table d \<or> jprop f ''class'' = JUndef"
    using assms c by (auto simp: f_def c_def ensure_object_get class_table_def)
  have "table_ok (jprop f ''class'')" "table_ok (jget (jprop f ''class'') i)"
    using k assms(2) by (auto simp: constraints_ok_def table_ok_def)
  moreover have "jprop f' ''class'' = (if is_object (jprop f ''class'') then jprop f ''class'' else JObj [])"
    unfolding f'_def by (subst ensure_fold_get [OF f]) simp_all
  moreover have "is_obj (if is_object v then v else JObj []) \<and> table_ok (jget (if is_object v then v else JObj []) i)"
    if "table_ok v" "table_ok (jget v i)" for v
    using that by (cases v) (simp_all add: table_ok_def)
  ultimately have f': "is_obj (jprop f' ''class'')" "table_ok (jget (jprop f' ''class'') i)" by simp_all
  have obj: "is_obj f'" using f unfolding f'_def by (simp only: ensure_fold_obj)
  show "is_obj (jprop (ensureClassFixedOffConstraints d) ''tkbConstraints'')" using c by (simp add: d' ensure_object_obj)
  show "is_obj (jprop (jprop (ensureClassFixedOffConstraints d) ''tkbConstraints'') ''fixedOff'')"
    using c f' obj by (simp add: d' jget_jput ensure_object_obj)
  show "is_obj (class_table (ensureClassFixedOffConstraints d))" "table_ok (jget (class_table (ensureClassFixedOffConstraints d)) i)"
    using c f' obj by (simp_all add: class_table_def d' jget_jput ensure_object_obj)
qed

lemma set_entry_at:
  assumes "is_obj table" "table_ok (jget table i)"
  shows "js_truthy (jget (jget (set_entry i k b table) i) k) = b" "is_obj (set_entry i k b table)" "table_ok (jget (set_entry i k b table) i)"
proof -
  define t where "t = js_or (jget table i) (JObj [])"
  have t: "is_obj t" using assms(2) by (auto simp: t_def js_or_def table_ok_def)
  have "jget (jput k (JBool True) t) k = JBool True" using t by (simp add: jget_jput)
  then have "entries (jput k (JBool True) t) \<noteq> []" using t by (cases t) (auto split: option.splits)
  then show "js_truthy (jget (jget (set_entry i k b table) i) k) = b" "is_obj (set_entry i k b table)" "table_ok (jget (set_entry i k b table) i)"
    using assms(1) t unfolding set_entry_def Let_def t_def [symmetric] by (auto simp: jget_jput jget_jdel table_ok_def)
qed

lemma sync_class:
  assumes "is_obj d" "constraints_ok d i" "i \<noteq> []" "slot_valid s"
  shows "has_fixed_off (snd (syncClassFixedOffConstraint i s b d)) ''class'' i s = b" "constraints_ok (snd (syncClassFixedOffConstraint i s b d)) i"
proof -
  define d1 where "d1 = ensureClassFixedOffConstraints d"
  have o: "is_obj d1" using assms(1) but_forD(2) [OF constraints_but_for [of d]] by (simp add: d1_def)
  note m = constraints_made [OF assms(1,2), folded d1_def]
  have d2: "snd (syncClassFixedOffConstraint i s b d) = jupd [u ''tkbConstraints'', u ''fixedOff'', u ''class''] (set_entry i (slot_key s) b) d1"
    using assms(3,4) by (simp add: syncClassFixedOffConstraint_def sync_fixed_off_def Let_def d1_def)
  have t: "class_table (snd (syncClassFixedOffConstraint i s b d)) = set_entry i (slot_key s) b (class_table d1)"
    using o m by (simp add: d2 class_table_def jget_jput)
  show "has_fixed_off (snd (syncClassFixedOffConstraint i s b d)) ''class'' i s = b"
    unfolding has_fixed_off_def class_table_def [symmetric] t by (rule set_entry_at(1) [OF m(3,4)])
  have "is_obj (jprop (snd (syncClassFixedOffConstraint i s b d)) ''tkbConstraints'')"
    "is_obj (jprop (jprop (snd (syncClassFixedOffConstraint i s b d)) ''tkbConstraints'') ''fixedOff'')"
    using o m by (simp_all add: d2 jget_jput)
  then show "constraints_ok (snd (syncClassFixedOffConstraint i s b d)) i"
    using set_entry_at(2,3) [OF m(3,4), of "slot_key s" b] unfolding constraints_ok_def t by (simp add: table_ok_def)
qed

subsection \<open>Closing and opening again\<close>

lemma clone_json: "json_ok v \<Longrightarrow> json_clone v = v"
proof (induction v)
  case (JArr xs)
  then have "JUndef \<notin> set xs" by (auto simp: list_all_iff dest: bspec [of _ _ JUndef])
  then have "map (\<lambda>x. if x = JUndef then JNull else json_clone x) xs = xs"
    using JArr by (intro map_idI) (auto simp: list_all_iff)
  then show ?case by simp
next
  case (JObj kvs)
  have "filter (\<lambda>(k, v). v \<noteq> JUndef) kvs = kvs" using JObj.prems by (auto simp: filter_id_conv list_all_iff)
  moreover have "map (\<lambda>(k, v). (k, json_clone v)) kvs = kvs"
    using JObj by (intro map_idI) (auto simp: list_all_iff Basic_BNFs.prod_set_defs)
  ultimately show ?case by simp
qed simp_all

lemma clone_cell: "json_ok v \<Longrightarrow> cloneTkbCellValue v = v"
  by (simp add: cloneTkbCellValue_def clone_json)

definition off_tables_ok :: "js \<Rightarrow> ustr \<Rightarrow> bool" where
  "off_tables_ok d i \<longleftrightarrow> is_obj d \<and> is_obj (jprop d ''tkbUserOff'') \<and> constraints_ok d i
     \<and> table_ok (jprop d ''tkbOffRestore'') \<and> table_ok (jget (jprop d ''tkbOffRestore'') i)"

lemma good_locks_add: "good_locks ks \<Longrightarrow> slot_valid s \<Longrightarrow> slot_key s \<notin> set ks \<Longrightarrow> good_locks (ks @ [slot_key s])"
  by (auto simp: good_locks_def simp del: split_paired_Ex)

lemma good_locks_filter: "good_locks ks \<Longrightarrow> good_locks (filter P ks)"
  by (auto simp: good_locks_def)

lemma locks_table: "is_obj d \<Longrightarrow> is_obj (jprop d ''tkbUserOff'') \<Longrightarrow> is_obj (jprop (put_locks i ks d) ''tkbUserOff'') \<and> is_obj (put_locks i ks d)"
  by (simp add: put_locks_def jget_jput)

lemma add_lock:
  assumes "off_tables_ok d i" "i \<noteq> []" "slot_valid s"
  shows "slot_key s \<in> set (user_off_locks (snd (addUserOffLock i s d)) i)" "has_fixed_off (snd (addUserOffLock i s d)) ''class'' i s"
    "off_tables_ok (snd (addUserOffLock i s d)) i"
proof -
  define ks where "ks = (if slot_key s \<in> set (user_off_locks d i) then user_off_locks d i else user_off_locks d i @ [slot_key s])"
  define d1 where "d1 = put_locks i ks (put_locks i (user_off_locks d i) d)"
  have d2: "snd (addUserOffLock i s d) = snd (syncClassFixedOffConstraint i s True d1)"
    using assms(2) by (simp add: addUserOffLock_def normalizeUserOffList_def Let_def d1_def ks_def)
  have o: "is_obj d" "is_obj (jprop d ''tkbUserOff'')" "constraints_ok d i" using assms(1) by (simp_all add: off_tables_ok_def)
  have good: "good_locks ks" "slot_key s \<in> set ks" using locks_good [of d i] good_locks_add assms(3) by (auto simp: ks_def)
  have bf: "but_for {''tkbUserOff''} d d1" unfolding d1_def by (rule but_for_trans [OF put_locks_but_for put_locks_but_for])
  have o1: "is_obj d1" "is_obj (jprop d1 ''tkbUserOff'')" using locks_table locks_table [OF o(1,2)] by (auto simp: d1_def)
  have c1: "constraints_ok d1 i" using o(3) but_forD(1) [OF bf, of "''tkbConstraints''"] by (simp add: constraints_ok_def class_table_def)
  have locks: "user_off_locks d1 i = ks" unfolding d1_def by (rule put_locks_read [OF good(1) assms(2)]) (use locks_table [OF o(1,2)] in simp_all)
  note sc = sync_class [OF o1(1) c1 assms(2,3), of True, folded d2]
  have bf2: "but_for {''tkbConstraints''} d1 (snd (addUserOffLock i s d))" unfolding d2 by (rule class_sync_but_for)
  show "slot_key s \<in> set (user_off_locks (snd (addUserOffLock i s d)) i)"
    using but_for_locks [OF bf2] locks good(2) by simp
  show "has_fixed_off (snd (addUserOffLock i s d)) ''class'' i s" using sc(1) by simp
  show "off_tables_ok (snd (addUserOffLock i s d)) i"
    using assms(1) sc(2) o1 but_forD(2) [OF bf2] but_forD(1) [OF bf2, of "''tkbUserOff''"] but_forD(1) [OF add_lock_but_for [of d i s], of "''tkbOffRestore''"]
    by (simp add: off_tables_ok_def)
qed

lemma remove_lock:
  assumes "off_tables_ok d i" "i \<noteq> []" "slot_valid s"
  shows "slot_key s \<notin> set (user_off_locks (snd (removeUserOffLock i s d)) i)" "\<not> has_fixed_off (snd (removeUserOffLock i s d)) ''class'' i s"
    "off_tables_ok (snd (removeUserOffLock i s d)) i"
proof -
  define ks where "ks = filter (\<lambda>k. k \<noteq> slot_key s) (user_off_locks d i)"
  define d1 where "d1 = put_locks i ks (put_locks i (user_off_locks d i) d)"
  have d2: "snd (removeUserOffLock i s d) = snd (syncClassFixedOffConstraint i s False d1)"
    using assms(2) by (simp add: removeUserOffLock_def normalizeUserOffList_def Let_def d1_def ks_def)
  have o: "is_obj d" "is_obj (jprop d ''tkbUserOff'')" "constraints_ok d i" using assms(1) by (simp_all add: off_tables_ok_def)
  have good: "good_locks ks" "slot_key s \<notin> set ks" using good_locks_filter [OF locks_good] by (auto simp: ks_def)
  have bf: "but_for {''tkbUserOff''} d d1" unfolding d1_def by (rule but_for_trans [OF put_locks_but_for put_locks_but_for])
  have o1: "is_obj d1" "is_obj (jprop d1 ''tkbUserOff'')" using locks_table locks_table [OF o(1,2)] by (auto simp: d1_def)
  have c1: "constraints_ok d1 i" using o(3) but_forD(1) [OF bf, of "''tkbConstraints''"] by (simp add: constraints_ok_def class_table_def)
  have locks: "user_off_locks d1 i = ks" unfolding d1_def by (rule put_locks_read [OF good(1) assms(2)]) (use locks_table [OF o(1,2)] in simp_all)
  note sc = sync_class [OF o1(1) c1 assms(2,3), of False, folded d2]
  have bf2: "but_for {''tkbConstraints''} d1 (snd (removeUserOffLock i s d))" unfolding d2 by (rule class_sync_but_for)
  show "slot_key s \<notin> set (user_off_locks (snd (removeUserOffLock i s d)) i)"
    using but_for_locks [OF bf2] locks good(2) by simp
  show "\<not> has_fixed_off (snd (removeUserOffLock i s d)) ''class'' i s" using sc(1) by simp
  show "off_tables_ok (snd (removeUserOffLock i s d)) i"
    using assms(1) sc(2) o1 but_forD(2) [OF bf2] but_forD(1) [OF bf2, of "''tkbUserOff''"] but_forD(1) [OF remove_lock_but_for [of d i s], of "''tkbOffRestore''"]
    by (simp add: off_tables_ok_def)
qed

lemma remember_entry:
  assumes "off_tables_ok d i" "i \<noteq> []" "js_truthy (cellMon v)"
  shows "off_entry (snd (rememberOffDisplacedLesson now i s v d)) i s = remembered now d i v"
    "off_tables_ok (snd (rememberOffDisplacedLesson now i s v d)) i"
proof -
  define d1 where "d1 = ensure_object ''tkbOffRestore'' d"
  define t where "t = js_or (jget (jprop d1 ''tkbOffRestore'') i) (JObj [])"
  have o: "is_obj d" "table_ok (jprop d ''tkbOffRestore'')" "table_ok (jget (jprop d ''tkbOffRestore'') i)"
    using assms(1) by (simp_all add: off_tables_ok_def)
  have d1: "is_obj d1" "is_obj (jprop d1 ''tkbOffRestore'')"
    using o ensure_object_at [OF o(1,2)] by (simp_all add: d1_def ensure_object_obj)
  have t: "is_obj t" using o by (auto simp: t_def d1_def ensure_object_get js_or_def table_ok_def)
  have d2: "snd (rememberOffDisplacedLesson now i s v d) = last_note now [(''classId'', JStr i), (''slotKey'', JStr (slot_key s)), (''action'', JStr (u ''remember'')), (''restored'', JNum 0)]
      (jupd [u ''tkbOffRestore''] (\<lambda>r. jput i (jput (slot_key s) (remembered now d i v) (js_or (jget r i) (JObj []))) r) d1)"
    using assms(2,3) by (simp add: rememberOffDisplacedLesson_def Let_def d1_def)
  have table: "jprop (snd (rememberOffDisplacedLesson now i s v d)) ''tkbOffRestore'' = jput i (jput (slot_key s) (remembered now d i v) t) (jprop d1 ''tkbOffRestore'')"
    using d1(1) by (simp add: d2 last_note_def jget_jput t_def)
  show "off_entry (snd (rememberOffDisplacedLesson now i s v d)) i s = remembered now d i v"
    using d1 t unfolding off_entry_def table by (simp add: jget_jput)
  have bf: "but_for entry_keys d (snd (rememberOffDisplacedLesson now i s v d))" by (rule remember_but_for)
  show "off_tables_ok (snd (rememberOffDisplacedLesson now i s v d)) i"
    using assms(1) d1 t but_forD(2) [OF bf] but_forD(1) [OF bf, of "''tkbUserOff''"] but_forD(1) [OF bf, of "''tkbConstraints''"]
    unfolding off_tables_ok_def table by (simp add: constraints_ok_def class_table_def table_ok_def jget_jput)
qed

lemma lesson_cell: "cell_lesson c \<noteq> None \<Longrightarrow> c \<noteq> off_cell \<and> js_truthy c \<and> js_truthy (cellMon c) \<and> \<not> nullish c"
  by (cases c) (auto simp: cell_lesson_def split: if_splits)

lemma close_cell_result:
  fixes now :: int
  assumes "slot_open d i s" "slot_valid s" "i \<noteq> []" "cell_lesson (tkb_cell d i s) \<noteq> None" "json_ok (tkb_cell d i s)" "off_tables_ok d i"
  defines "d1 \<equiv> snd (close_cell now i s d)"
  shows "tkb_cell d1 j t = (if j = i \<and> t = s then off_cell else tkb_cell d j t)" "slot_open d1 j t = slot_open d j t"
    "slot_key s \<in> set (user_off_locks d1 i)" "has_fixed_off d1 ''class'' i s" "off_tables_ok d1 i"
    "jprop (off_entry d1 i s) ''value'' = tkb_cell d i s" "js_truthy (off_entry d1 i s)"
    "jprop (off_entry d1 i s) ''mon'' = cellMon (tkb_cell d i s)"
    "jprop (off_entry d1 i s) ''teacher'' = JStr (taught_by d i (cellMon (tkb_cell d i s)))"
    "trimmed (jprop (off_entry d1 i s) ''room'') = held_in d i (cellMon (tkb_cell d i s))"
    "teacher_busy d1 i s names = teacher_busy d i s names" "room_busy d1 i s room = room_busy d i s room"
proof -
  define c where "c = tkb_cell d i s"
  have c: "c \<noteq> off_cell" "js_truthy (cellMon c)" using lesson_cell [OF assms(4)] by (simp_all add: c_def)
  define a where "a = snd (addUserOffLock i s d)"
  define b where "b = snd (rememberOffDisplacedLesson now i s c a)"
  have d1: "d1 = set_tkb_cell i s off_cell b" using c by (simp add: d1_def close_cell_def Let_def a_def b_def c_def)
  note a = add_lock [OF assms(6,3,2), folded a_def]
  note b = remember_entry [OF a(3) assms(3) c(2), of now s, folded b_def]
  have ba: "but_for entry_keys a b" unfolding b_def by (rule remember_but_for)
  have da: "but_for lock_keys d a" unfolding a_def by (rule add_lock_but_for)
  have db: "but_for {''tkb''} b d1" unfolding d1 by (rule set_cell_but_for)
  have cells: "tkb_cell b j t = tkb_cell d j t" "slot_open b j t = slot_open d j t" for j t
    using but_for_cells [OF ba] but_for_cells [OF da] by simp_all
  show "tkb_cell d1 j t = (if j = i \<and> t = s then off_cell else tkb_cell d j t)" "slot_open d1 j t = slot_open d j t"
    using assms(1) by (simp_all add: d1 cells)
  show "slot_key s \<in> set (user_off_locks d1 i)" using a(1) but_for_locks [OF ba] but_for_locks [OF db] by simp
  show "has_fixed_off d1 ''class'' i s" using a(2) but_for_fixed [OF ba] but_for_fixed [OF db] by simp
  show "off_tables_ok d1 i"
    using b(2) but_forD(2) [OF db] but_forD(1) [OF db, of "''tkbUserOff''"] but_forD(1) [OF db, of "''tkbConstraints''"] but_forD(1) [OF db, of "''tkbOffRestore''"]
    by (simp add: off_tables_ok_def constraints_ok_def class_table_def)
  have e: "off_entry d1 i s = remembered now a i c" using b(1) but_for_entry [OF db] by simp
  show "jprop (off_entry d1 i s) ''value'' = tkb_cell d i s" "js_truthy (off_entry d1 i s)"
    using clone_cell [OF assms(5)] by (simp_all add: e remembered_def Let_def c_def)
  have n: "pm_getTeacherForClassMon a = pm_getTeacherForClassMon d" "pm_getRoomForClassMon a = pm_getRoomForClassMon d" "class_name a = class_name d"
    by (rule names_cong [OF da]; simp)+
  have r: "remembered now a i c = JObj [(u ''value'', cloneTkbCellValue c), (u ''mon'', cellMon c), (u ''fixed'', JBool (pm_isFixed c)),
      (u ''teacher'', JStr (taught_by d i (cellMon c))), (u ''room'', JStr (pm_getRoomForClassMon d (class_name d i) (js_string (cellMon c)))), (u ''savedAt'', JNum now)]"
    unfolding remembered_def Let_def class_name_def [symmetric] taught_by_def n ..
  show "jprop (off_entry d1 i s) ''mon'' = cellMon (tkb_cell d i s)" "jprop (off_entry d1 i s) ''teacher'' = JStr (taught_by d i (cellMon (tkb_cell d i s)))"
    unfolding e r by (simp_all add: c_def)
  show "trimmed (jprop (off_entry d1 i s) ''room'') = held_in d i (cellMon (tkb_cell d i s))"
    unfolding e r held_in_def by (simp add: c_def trimmed_def js_or_def)
  have bo: "slot_open b i s" using assms(1) cells by simp
  show "teacher_busy d1 i s names = teacher_busy d i s names" "room_busy d1 i s room = room_busy d i s room"
    unfolding d1 set_cell_busy [OF bo] using conflicts_cong [OF ba] conflicts_cong [OF da] by simp_all
qed

lemma array_truthy: "is_array v \<Longrightarrow> js_truthy v"
  by (cases v) simp_all

lemma reopen_cell_result:
  fixes now :: int
  assumes o: "slot_open d i s" "slot_valid s" "i \<noteq> []" "tkb_cell d i s = off_cell" "off_tables_ok d i"
    and v: "cell_lesson v \<noteq> None" "json_ok v" "jprop (off_entry d i s) ''value'' = v" "js_truthy (off_entry d i s)"
  defines "free \<equiv> \<not> offRestoreTeacherConflict d (off_entry d i s) i s \<and> \<not> offRestoreRoomConflict d (off_entry d i s) i s"
  defines "d2 \<equiv> snd (reopen_cell now i s d)"
  shows "tkb_cell d2 j t = (if j = i \<and> t = s then if free then v else JStr [] else tkb_cell d j t)"
    "slot_key s \<notin> set (user_off_locks d2 i)" "\<not> has_fixed_off d2 ''class'' i s" "free \<or> off_entry d2 i s = off_entry d i s"
proof -
  define e where "e = snd (removeUserOffLock i s d)"
  define r where "r = restoreOffDisplacedLesson now ''clear_off'' i s e"
  note r = r_def
  note l = remove_lock [OF o(5,3,2), folded e_def]
  have de: "but_for lock_keys d e" unfolding e_def by (rule remove_lock_but_for)
  have cells: "tkb_cell e j t = tkb_cell d j t" "slot_open e j t = slot_open d j t" "off_entry e i s = off_entry d i s" for j t
    using but_for_cells [OF de] but_for_entry [OF de] by simp_all
  have conf: "free \<longleftrightarrow> \<not> offRestoreTeacherConflict e (off_entry e i s) i s \<and> \<not> offRestoreRoomConflict e (off_entry e i s) i s"
    using restore_cong [OF de] by (simp add: free_def cells)
  have no: "cell_lesson (tkb_cell e i s) = None" "js_truthy (session_of_slot e i s)"
    using o(1,4) cells(1,2) [of i s] array_truthy [of "session_of_slot e i s"] by (simp_all add: cell_lesson_def slot_open_def)
  have d2: "d2 = (case r of (Restored _, x) \<Rightarrow> x | (_, x) \<Rightarrow> set_tkb_cell i s (JStr []) x)"
    using o(4) by (simp add: d2_def reopen_cell_def Let_def r_def e_def)
  have v': "restored_value (off_entry d i s) = v"
    using v(3) lesson_cell [OF v(1)] clone_cell [OF v(2)] by (simp add: restored_value_def)
  have "tkb_cell d2 j t = (if j = i \<and> t = s then if free then v else JStr [] else tkb_cell d j t)
      \<and> slot_key s \<notin> set (user_off_locks d2 i) \<and> \<not> has_fixed_off d2 ''class'' i s \<and> (free \<or> off_entry d2 i s = off_entry d i s)" for j t
  proof (cases free)
    case False
    then have "(\<forall>m. fst r \<noteq> Restored m) \<and> snd r = e"
      using no v(4) o(3) unfolding r restoreOffDisplacedLesson_def Let_def conf by (auto simp: cells)
    then have d2': "d2 = set_tkb_cell i s (JStr []) e" unfolding d2 by (auto split: prod.splits restore_answer.splits)
    moreover have bf: "but_for {''tkb''} e d2" unfolding d2' by (rule set_cell_but_for)
    ultimately show ?thesis
      using False l o(1) but_for_locks [OF bf] but_for_fixed [OF bf] but_for_entry [OF bf] by (simp_all add: cells)
  next
    case True
    define x where "x = set_tkb_cell i s v e"
    define y where "y = snd (clearOffDisplacedLesson i s x)"
    have r': "fst r = Restored (jprop (off_entry e i s) ''mon'')" "snd r = last_note now [(''classId'', JStr i), (''slotKey'', JStr (slot_key s)),
        (''action'', JStr (u ''clear_off'')), (''restored'', JNum 1), (''mon'', jprop (off_entry e i s) ''mon'')] y"
      using True no v(4) o(3) unfolding r restoreOffDisplacedLesson_def Let_def conf by (simp_all add: cells v' x_def y_def)
    then have d2': "d2 = snd r" unfolding d2 by (cases r) simp
    have xy: "but_for entry_keys x y" unfolding y_def by (rule clear_entry_but_for)
    have yd: "but_for entry_keys y d2" unfolding d2' r'(2) by (rule last_note_but_for)
    have xd: "but_for entry_keys x d2" by (rule but_for_trans [OF xy yd])
    have ex: "but_for {''tkb''} e x" unfolding x_def by (rule set_cell_but_for)
    have "tkb_cell d2 j t = (if j = i \<and> t = s then v else tkb_cell d j t)" using but_for_cells(1) [OF xd] o(1) by (simp add: x_def cells)
    then show ?thesis using True l but_for_locks [OF xd] but_for_locks [OF ex] but_for_fixed [OF xd] but_for_fixed [OF ex] by simp
  qed
  then show "tkb_cell d2 j t = (if j = i \<and> t = s then if free then v else JStr [] else tkb_cell d j t)"
    "slot_key s \<notin> set (user_off_locks d2 i)" "\<not> has_fixed_off d2 ''class'' i s" "free \<or> off_entry d2 i s = off_entry d i s"
    by blast+
qed

subsection \<open>The property\<close>

text \<open>
  C24: Closing a cell that holds a lesson writes OFF there, locks it in both tables and changes no other cell.
  When the cell is opened again, whatever has changed elsewhere meanwhile, both locks are off, no other cell
  changes, and the lesson is back exactly as it was if and only if no other class has at that time a lesson
  with one of its teachers or in its room: the teachers and the room it had when the cell was closed, or, if
  it had no teacher then, those it has now. Otherwise the cell is empty and the lesson stays remembered.
\<close>

theorem close_open:
  assumes "slot_open d i s" "slot_valid s" "i \<noteq> []" "cell_lesson (tkb_cell d i s) = Some mon" "json_ok (tkb_cell d i s)" "off_tables_ok d i"
    and "d1 = snd (close_cell now i s d)"
    and "slot_open e i s" "tkb_cell e i s = off_cell" "off_tables_ok e i" "off_entry e i s = off_entry d1 i s"
  shows "let teachers = (if taught_by d i mon \<noteq> [] then taught_by d i mon else taught_by e i mon);
      free = (\<not> teacher_busy e i s teachers \<and> \<not> room_busy e i s (held_in d i mon)); d2 = snd (reopen_cell later i s e)
    in tkb_cell d1 j t = (if j = i \<and> t = s then off_cell else tkb_cell d j t)
     \<and> slot_key s \<in> set (user_off_locks d1 i) \<and> has_fixed_off d1 ''class'' i s
     \<and> slot_key s \<notin> set (user_off_locks d2 i) \<and> \<not> has_fixed_off d2 ''class'' i s
     \<and> tkb_cell d2 j t = (if j = i \<and> t = s then if free then tkb_cell d i s else JStr [] else tkb_cell e j t)
     \<and> (free \<or> jprop (off_entry d2 i s) ''value'' = tkb_cell d i s)"
proof -
  have l: "cell_lesson (tkb_cell d i s) \<noteq> None" "cellMon (tkb_cell d i s) = mon" "js_truthy mon"
    using assms(4) by (auto simp: cell_lesson_def split: if_splits)
  note c = close_cell_result [OF assms(1-3) l(1) assms(5,6), of now, folded assms(7), unfolded l(2)]
  have v: "jprop (off_entry e i s) ''value'' = tkb_cell d i s" "js_truthy (off_entry e i s)" using c(6,7) assms(11) by simp_all
  note o = reopen_cell_result [OF assms(8,2,3,9,10) l(1) assms(5) v, of later]
  have "jprop (off_entry e i s) ''teacher'' = JStr (taught_by d i mon)" "jprop (off_entry e i s) ''mon'' = mon"
    using c(8,9) assms(11) by simp_all
  note tc = teacher_conflict [OF this l(3), of e i s]
  have rc: "offRestoreRoomConflict e (off_entry e i s) i s \<longleftrightarrow> room_busy e i s (held_in d i mon)"
    using room_conflict [of e "off_entry e i s" i s] c(10) assms(11) by simp
  show ?thesis
    unfolding Let_def tc [symmetric] rc [symmetric] using c(1) [of j t] c(3,4) o(1) [of j t] o(2-4) v(1) by auto
qed

text \<open>A small school: the teacher of a lesson is free at its time, and then takes another class.\<close>

definition off_school :: "string \<Rightarrow> js" where
  "off_school other = JObj [
     (u ''lop'', JArr [JObj [(u ''id'', JStr (u ''c1'')), (u ''ten'', JStr (u ''6/1''))], JObj [(u ''id'', JStr (u ''c2'')), (u ''ten'', JStr (u ''6/2''))]]),
     (u ''pccmMatrix'', JObj [(u ''6/1|Art'', JStr (u ''An'')), (u ''6/2|Art'', JStr (u ''An'')), (u ''6/2|Music'', JStr (u ''Binh''))]),
     (u ''tkbUserOff'', JObj []),
     (u ''tkb'', JObj [(u ''c1'', JObj [(u ''thu2'', JObj [(u ''sang'', JArr [JStr (u ''Art''), JStr []])])]),
        (u ''c2'', JObj [(u ''thu2'', JObj [(u ''sang'', JArr [JStr (u other), JStr []])])])])]"

abbreviation art_slot :: slot where
  "art_slot \<equiv> (u ''thu2'', u ''sang'', 0)"

definition closed_school :: js where
  "closed_school = snd (close_cell 1 (u ''c1'') art_slot (off_school ''Music''))"

lemma off_school_facts:
  "slot_open (off_school ''Music'') (u ''c1'') art_slot" "slot_valid art_slot" "u ''c1'' \<noteq> []"
  "cell_lesson (tkb_cell (off_school ''Music'') (u ''c1'') art_slot) = Some (JStr (u ''Art''))"
  "json_ok (tkb_cell (off_school ''Music'') (u ''c1'') art_slot)" "off_tables_ok (off_school ''Music'') (u ''c1'')"
  by code_simp+

lemma off_school_free:
  "taught_by (off_school ''Music'') (u ''c1'') (JStr (u ''Art'')) = u ''An''"
  "held_in (off_school ''Music'') (u ''c1'') (JStr (u ''Art'')) = []"
  "\<not> teacher_busy (off_school ''Music'') (u ''c1'') art_slot (u ''An'')" "\<not> room_busy (off_school ''Music'') (u ''c1'') art_slot []"
  by code_simp+

lemma closed_school_facts:
  "slot_open closed_school (u ''c1'') art_slot" "tkb_cell closed_school (u ''c1'') art_slot = off_cell" "off_tables_ok closed_school (u ''c1'')"
  "\<not> teacher_busy closed_school (u ''c1'') art_slot (u ''An'')" "\<not> room_busy closed_school (u ''c1'') art_slot []"
proof -
  have l: "cell_lesson (tkb_cell (off_school ''Music'') (u ''c1'') art_slot) \<noteq> None" unfolding off_school_facts(4) by simp
  note c = close_cell_result [OF off_school_facts(1-3) l off_school_facts(5,6), of 1, folded closed_school_def]
  show "slot_open closed_school (u ''c1'') art_slot" "tkb_cell closed_school (u ''c1'') art_slot = off_cell" "off_tables_ok closed_school (u ''c1'')"
    "\<not> teacher_busy closed_school (u ''c1'') art_slot (u ''An'')" "\<not> room_busy closed_school (u ''c1'') art_slot []"
    using c(1) [of "u ''c1''" art_slot] c(2) [of "u ''c1''" art_slot] c(5,11,12) off_school_facts(1) off_school_free(3,4) by simp_all
qed

text \<open>The lesson of the free teacher is given back; if the teacher takes the other class meanwhile, it is not.\<close>

lemma off_school_busy: "teacher_busy (off_school ''Art'') (u ''c1'') art_slot (u ''An'')"
  by code_simp

lemma close_open_witness:
  "tkb_cell (snd (reopen_cell 2 (u ''c1'') art_slot closed_school)) (u ''c1'') art_slot = JStr (u ''Art'')"
proof -
  have cell: "tkb_cell (off_school ''Music'') (u ''c1'') art_slot = JStr (u ''Art'')" and ne: "u ''An'' \<noteq> []" by code_simp+
  show ?thesis
    using close_open [OF off_school_facts closed_school_def closed_school_facts(1-3) refl, of 2 "u ''c1''" art_slot]
    unfolding Let_def off_school_free cell if_P [OF ne] using closed_school_facts(4,5) by simp
qed

end
