(* ===== verification/PmHistory.thy ===== *)
theory PmHistory
  imports PmOff JsJson
begin

section \<open>Timetable page: saving, Undo and Redo\<close>

text \<open>
  The state of the page around its data: the two stacks of the history, each entry the JSON text of the
  data, the text of the current entry, the deferred save, what was saved last and what is on its way, the
  stable payload that is saved instead when a running solver made things worse, the snapshot and the marks
  of the joint lessons. A save cleans the data, stamps them and passes the guard of the store.

  What the page reads from outside is a record: the clock, whether a solver is running, the statistics of
  the timetable (any function), the school and the state of the store, and whether the server accepts a
  synchronous request. The answer to an asynchronous save is an event of its own. Stacks grow at the end.
  Drawing, status texts and the local backups are left out.
\<close>

subsection \<open>State and surroundings\<close>

record save_stats =
  ss_total :: rat
  ss_assigned :: rat
  ss_missing :: rat

record planner =
  pq_data :: js
  pq_undo :: "ustr list"
  pq_redo :: "ustr list"
  pq_current :: ustr
  pq_applying :: bool
  pq_timer :: bool
  pq_saved :: ustr
  pq_pending :: ustr
  pq_promise :: bool
  pq_stable :: "ustr \<times> save_stats"
  pq_snap :: "snapshot option"
  pq_pins :: pins

record surroundings =
  sr_now :: int
  sr_busy :: bool
  sr_running :: bool
  sr_stats :: "js \<Rightarrow> save_stats"
  sr_school :: js
  sr_store :: page
  sr_accepts :: "ustr \<Rightarrow> bool"

record save_options =
  so_trusted :: bool
  so_known :: "save_stats option"
  so_force :: bool
  so_unload :: bool
  so_suppress :: bool
  so_replace :: bool
  so_skip :: bool
  so_sync :: bool

definition plain_save :: save_options where
  "plain_save = \<lparr>so_trusted = False, so_known = None, so_force = False, so_unload = False, so_suppress = False,
     so_replace = False, so_skip = False, so_sync = False\<rparr>"

definition forced_save :: save_options where
  "forced_save = plain_save\<lparr>so_force := True\<rparr>"

definition leaving_save :: save_options where
  "leaving_save = forced_save\<lparr>so_unload := True, so_sync := True\<rparr>"

subsection \<open>The history\<close>

definition history_limit :: nat where
  "history_limit = 50"

definition pushHistory :: "ustr list \<Rightarrow> ustr \<Rightarrow> ustr list" where
  "pushHistory stack payload =
     (if payload = [] \<or> stack \<noteq> [] \<and> last stack = payload then stack
      else drop (length stack + 1 - history_limit) (stack @ [payload]))"

definition recordHistoryAfterSave :: "ustr \<Rightarrow> save_options \<Rightarrow> bool \<Rightarrow> planner \<Rightarrow> planner" where
  "recordHistoryAfterSave payload opts usedStable st =
     (if so_replace opts \<and> payload \<noteq> [] \<and> \<not> usedStable then st\<lparr>pq_current := payload\<rparr>
      else if pq_applying st \<or> so_unload opts \<or> so_suppress opts \<or> usedStable then st
      else if payload = [] then st
      else let cur = (if pq_current st = [] then json_text (pq_data st) else pq_current st)
           in if payload = cur then st\<lparr>pq_current := cur\<rparr>
              else st\<lparr>pq_undo := pushHistory (pq_undo st) cur, pq_redo := [], pq_current := payload\<rparr>)"

definition ensure_value :: "js \<Rightarrow> string \<Rightarrow> js \<Rightarrow> js" where
  "ensure_value v k d = (if js_truthy (jprop d k) then d else jput (u k) v d)"

definition ensurePlannerShape :: "js \<Rightarrow> js" where
  "ensurePlannerShape d =
     ensure_object ''tkbUserOff''
       (fold (ensure_value (JObj [])) [''pccmMatrix'', ''pccmRoomMatrix'', ''pccmTietMatrix'', ''pccmGioihanMatrix'']
         (fold (ensure_value (JArr [])) [''lop'', ''mon'', ''monhoc'']
           (ensure_value (JObj []) ''tkb'' (if is_object d then d else JObj []))))"

definition history_data :: "ustr \<Rightarrow> js" where
  "history_data payload = (case json_parse (if payload = [] then [123, 125] else payload) of Some v \<Rightarrow> v | None \<Rightarrow> JObj [])"

definition restoreHistoryPayload :: "ustr \<Rightarrow> planner \<Rightarrow> planner" where
  "restoreHistoryPayload payload st =
     (let d = ensurePlannerShape (history_data payload) in st\<lparr>pq_data := d, pq_snap := Some (tkbJointTakeSnapshot d)\<rparr>)"

subsection \<open>Saving\<close>

definition statsWorse :: "save_stats \<Rightarrow> save_stats \<Rightarrow> bool" where
  "statsWorse a b \<longleftrightarrow> ss_missing a > ss_missing b \<or> ss_assigned a < ss_assigned b"

definition rememberStablePayload :: "ustr \<Rightarrow> save_stats \<Rightarrow> planner \<Rightarrow> planner" where
  "rememberStablePayload payload stats st = (if payload = [] then st else st\<lparr>pq_stable := (payload, stats)\<rparr>)"

definition stamped :: "int \<Rightarrow> js \<Rightarrow> js" where
  "stamped now d = jput (u ''_updatedAt'') (JNum now) (jput (u ''_lastModified'') (JNum now) d)"

definition at_least_zero :: "save_stats \<Rightarrow> save_stats" where
  "at_least_zero s = \<lparr>ss_total = max 0 (ss_total s), ss_assigned = max 0 (ss_assigned s), ss_missing = max 0 (ss_missing s)\<rparr>"

text \<open>The payload, and whether it is the stable one.\<close>

definition payloadForSave :: "surroundings \<Rightarrow> save_options \<Rightarrow> planner \<Rightarrow> (ustr \<times> bool) \<times> planner" where
  "payloadForSave env opts st =
     (let d = stamped (sr_now env) (pq_data st); payload = json_text d;
          stats = (case so_known opts of Some k \<Rightarrow> if so_trusted opts then at_least_zero k else sr_stats env d | None \<Rightarrow> sr_stats env d);
          worse = (fst (pq_stable st) \<noteq> [] \<and> statsWorse stats (snd (pq_stable st)));
          partial = (so_unload opts \<and> sr_running env \<and> ss_missing stats > 0);
          st1 = st\<lparr>pq_data := d\<rparr>
      in if \<not> so_force opts \<and> fst (pq_stable st) \<noteq> [] \<and> (worse \<and> sr_running env \<or> partial) then ((fst (pq_stable st), True), st1)
         else ((payload, False), rememberStablePayload payload stats st1))"

definition reconcileAtSave :: "surroundings \<Rightarrow> planner \<Rightarrow> planner" where
  "reconcileAtSave env st =
     (let r = tkbJointReconcile (sr_busy env) False (pq_snap st) (pq_data st) in st\<lparr>pq_data := fst (fst r), pq_snap := snd r\<rparr>)"

text \<open>The clean-up before a save, and whether it changed anything.\<close>

definition clean_for_save :: "surroundings \<Rightarrow> save_options \<Rightarrow> planner \<Rightarrow> bool \<times> planner" where
  "clean_for_save env opts st =
     (if so_trusted opts then
        (if \<not> sr_busy env \<and> pq_pins st \<noteq> []
         then let r = tkbJointUnpinQuiet (pq_pins st) (pq_snap st) (pq_data st) in (False, st\<lparr>pq_data := snd (fst r), pq_snap := snd r\<rparr>)
         else (False, st))
      else let st1 = reconcileAtSave env st; r = sanitizePlannerDataFromIndex (reapplyAllUserOffLocks (pq_data st1))
           in (fst r, st1\<lparr>pq_data := snd r\<rparr>))"

definition guard_passes :: "surroundings \<Rightarrow> ustr \<Rightarrow> bool" where
  "guard_passes env payload =
     (case remoteSaveGuard (sr_school env) (case json_parse payload of Some v \<Rightarrow> v | None \<Rightarrow> JNull) (sr_store env) of
        Refused _ \<Rightarrow> False | Passed _ \<Rightarrow> True)"

definition saveStore :: "surroundings \<Rightarrow> save_options \<Rightarrow> planner \<Rightarrow> bool \<times> planner" where
  "saveStore env opts0 st =
     (let c = clean_for_save env opts0 st; opts = (if fst c then opts0\<lparr>so_force := True\<rparr> else opts0);
          p = payloadForSave env opts (snd c); payload = fst (fst p); stable = snd (fst p); st1 = snd p
      in if so_skip opts \<and> payload \<noteq> [] \<and> (payload = pq_saved st1 \<or> payload = pq_pending st1 \<and> pq_promise st1) then (False, st1)
         else if \<not> guard_passes env payload then (False, st1)
         else if so_sync opts \<and> sr_accepts env payload
         then (\<not> stable, recordHistoryAfterSave payload opts stable (st1\<lparr>pq_saved := payload, pq_pending := [], pq_promise := False\<rparr>))
         else (\<not> stable, (recordHistoryAfterSave payload opts stable st1)\<lparr>pq_pending := payload, pq_promise := True\<rparr>))"

text \<open>The answer to an asynchronous save of a payload.\<close>

definition save_answered :: "ustr \<Rightarrow> bool \<Rightarrow> planner \<Rightarrow> planner" where
  "save_answered payload ok st =
     (let st1 = (if ok then st\<lparr>pq_saved := payload\<rparr> else st) in if pq_pending st1 = payload then st1\<lparr>pq_pending := []\<rparr> else st1)"

definition hasUnsavedChanges :: "planner \<Rightarrow> bool" where
  "hasUnsavedChanges st \<longleftrightarrow> pq_timer st \<or> pq_saved st \<noteq> [] \<and> json_text (pq_data st) \<noteq> pq_saved st"

definition flushDeferredSaveStore :: "surroundings \<Rightarrow> planner \<Rightarrow> planner" where
  "flushDeferredSaveStore env st =
     (if \<not> hasUnsavedChanges st then st else snd (saveStore env leaving_save (st\<lparr>pq_timer := False\<rparr>)))"

definition saveStoreDeferred :: "surroundings \<Rightarrow> planner \<Rightarrow> planner" where
  "saveStoreDeferred env st = (reconcileAtSave env st)\<lparr>pq_timer := True\<rparr>"

definition timer_fires :: "surroundings \<Rightarrow> planner \<Rightarrow> planner" where
  "timer_fires env st = (if pq_timer st then snd (saveStore env forced_save (st\<lparr>pq_timer := False\<rparr>)) else st)"

subsection \<open>Undo and Redo\<close>

definition travel :: "surroundings \<Rightarrow> ustr \<Rightarrow> planner \<Rightarrow> planner" where
  "travel env payload st =
     (let st1 = snd (saveStore env forced_save ((restoreHistoryPayload payload (st\<lparr>pq_applying := True\<rparr>))\<lparr>pq_current := payload\<rparr>))
      in (rememberStablePayload payload (sr_stats env (pq_data st1)) st1)\<lparr>pq_applying := False\<rparr>)"

definition entry_now :: "planner \<Rightarrow> ustr" where
  "entry_now st = (if pq_current st = [] then json_text (pq_data st) else pq_current st)"

definition tkbUndo :: "surroundings \<Rightarrow> planner \<Rightarrow> bool \<times> planner" where
  "tkbUndo env st0 =
     (let st = flushDeferredSaveStore env st0
      in if pq_undo st = [] then (False, st)
         else (True, travel env (last (pq_undo st)) (st\<lparr>pq_undo := butlast (pq_undo st), pq_redo := pushHistory (pq_redo st) (entry_now st)\<rparr>)))"

definition tkbRedo :: "surroundings \<Rightarrow> planner \<Rightarrow> bool \<times> planner" where
  "tkbRedo env st0 =
     (let st = flushDeferredSaveStore env st0
      in if pq_redo st = [] then (False, st)
         else (True, travel env (last (pq_redo st)) (st\<lparr>pq_redo := butlast (pq_redo st), pq_undo := pushHistory (pq_undo st) (entry_now st)\<rparr>)))"

text \<open>The first entry, once the data are loaded.\<close>

definition initialHistorySnapshot :: "surroundings \<Rightarrow> planner \<Rightarrow> planner" where
  "initialHistorySnapshot env st =
     (let payload = json_text (pq_data st)
      in (rememberStablePayload payload (sr_stats env (pq_data st)) st)\<lparr>pq_saved := payload, pq_current := payload\<rparr>)"

subsection \<open>Data from another tab\<close>

definition dataStamp :: "js \<Rightarrow> rat" where
  "dataStamp d = (case js_number (js_or (js_or (jprop d ''_lastModified'') (jprop d ''_updatedAt'')) (JNum 0)) of Some q \<Rightarrow> q | None \<Rightarrow> 0)"

fun stableJson :: "js \<Rightarrow> ustr" where
  "stableJson (JArr xs) = [91] @ join_with [44] (map stableJson xs) @ [93]"
| "stableJson (JObj kvs) = [123] @ join_with [44] (map snd (sort_key fst (map (\<lambda>(k, v). (k, quoted k @ [58] @ stableJson v)) kvs))) @ [125]"
| "stableJson v = json_text v"

definition tkbRemoteDataDiffers :: "js \<Rightarrow> js \<Rightarrow> bool" where
  "tkbRemoteDataDiffers local remote =
     (if \<not> is_object remote then False
      else if dataStamp remote \<noteq> 0 \<or> dataStamp local \<noteq> 0 then dataStamp remote \<noteq> dataStamp local
      else stableJson remote \<noteq> stableJson local)"

text \<open>\<open>other\<close>: the page is still loading, or a lesson is being dragged.\<close>

definition tkbPlannerIdleForRemoteRefresh :: "surroundings \<Rightarrow> bool \<Rightarrow> planner \<Rightarrow> bool" where
  "tkbPlannerIdleForRemoteRefresh env other st \<longleftrightarrow>
     \<not> sr_busy env \<and> \<not> sr_running env \<and> \<not> other \<and> pq_pending st = [] \<and> \<not> hasUnsavedChanges st"

definition tkbAdoptRemoteData :: "surroundings \<Rightarrow> js \<Rightarrow> planner \<Rightarrow> planner" where
  "tkbAdoptRemoteData env remote st =
     (let (d1, pins, snap) = tkbJointClearStalePins (sr_busy env) (pq_pins st) (pq_snap st) (ensurePlannerShape remote);
          d2 = snd (sanitizePlannerDataFromIndex d1); payload = json_text d2;
          st1 = rememberStablePayload payload (sr_stats env d2) (st\<lparr>pq_data := d2, pq_pins := pins, pq_snap := Some (tkbJointTakeSnapshot d1)\<rparr>)
      in st1\<lparr>pq_saved := payload, pq_pending := [], pq_current := payload, pq_undo := [], pq_redo := []\<rparr>)"

text \<open>
  The answer \<open>remote\<close> of the server to a refresh that was asked for when the data had the text \<open>before\<close>.
\<close>

definition refresh_answered :: "surroundings \<Rightarrow> bool \<Rightarrow> ustr \<Rightarrow> js \<Rightarrow> planner \<Rightarrow> bool \<times> planner" where
  "refresh_answered env other before remote st =
     (if \<not> hasMeaningfulData remote \<or> \<not> tkbRemoteDataDiffers (pq_data st) remote
         \<or> \<not> tkbPlannerIdleForRemoteRefresh env other st \<or> json_text (pq_data st) \<noteq> before then (False, st)
      else (True, tkbAdoptRemoteData env remote st))"

subsection \<open>What happens on the page\<close>

text \<open>
  An edit changes the data and asks for a deferred save; \<open>env\<close> may differ from step to step.
\<close>

inductive planner_step :: "planner \<Rightarrow> planner \<Rightarrow> bool" where
  edited: "planner_step st (saveStoreDeferred env (st\<lparr>pq_data := d\<rparr>))"
| fired: "planner_step st (timer_fires env st)"
| saved: "planner_step st (snd (saveStore env opts st))"
| answered: "planner_step st (save_answered payload ok st)"
| flushed: "planner_step st (flushDeferredSaveStore env st)"
| undone: "planner_step st (snd (tkbUndo env st))"
| redone: "planner_step st (snd (tkbRedo env st))"
| pinned: "planner_step st (st\<lparr>pq_data := d, pq_pins := ps, pq_snap := sn\<rparr>)"
| loaded: "planner_step st (initialHistorySnapshot env st)"
| refreshed: "planner_step st (snd (refresh_answered env other before remote st))"

end
