(* ===== verification/PmHistoryOk.thy ===== *)
theory PmHistoryOk
  imports PmHistory JsJsonOk FeApplyOk
begin

section \<open>Timetable page: Undo and Redo give back what was saved\<close>

text \<open>
  Which parts of a save touch the history, the invariant of the two stacks over everything that happens on
  the page, and what Undo and Redo leave behind: Redo takes back an Undo,
  Undo after a recorded edit goes back to the entry from before it, and an edit that still waits for its
  deferred save is lost to the history. The page cleans the data it restores like those of every save, so
  they are exactly those of the entry when nothing is left to clean, as after an ordinary save, and
  otherwise what the clean-up makes of them.
\<close>

subsection \<open>Saves and the history\<close>

definition same_history :: "planner \<Rightarrow> planner \<Rightarrow> bool" where
  "same_history st st' \<longleftrightarrow> pq_undo st' = pq_undo st \<and> pq_redo st' = pq_redo st \<and> pq_current st' = pq_current st
     \<and> pq_applying st' = pq_applying st"

lemma same_history_refl [simp]: "same_history st st"
  by (simp add: same_history_def)

lemma same_history_trans: "same_history a b \<Longrightarrow> same_history b c \<Longrightarrow> same_history a c"
  by (simp add: same_history_def)

lemma reconcile_history: "same_history st (reconcileAtSave env st)"
  by (simp add: same_history_def reconcileAtSave_def Let_def)

lemma clean_history: "same_history st (snd (clean_for_save env opts st))"
  by (simp add: same_history_def clean_for_save_def reconcileAtSave_def Let_def)

lemma payload_history: "same_history st (snd (payloadForSave env opts st))"
  by (simp add: same_history_def payloadForSave_def rememberStablePayload_def Let_def)

lemma quiet_record: "\<not> so_replace opts \<Longrightarrow> pq_applying st \<or> so_unload opts \<Longrightarrow> recordHistoryAfterSave p opts b st = st"
  by (auto simp: recordHistoryAfterSave_def)

lemma json_text_ne: "json_text v \<noteq> []"
  using json_text_hd [of v] by simp

definition saved_data :: "surroundings \<Rightarrow> snapshot option \<Rightarrow> js \<Rightarrow> js" where
  "saved_data env snap d = stamped (sr_now env) (snd (sanitizePlannerDataFromIndex (reapplyAllUserOffLocks
     (fst (fst (tkbJointReconcile (sr_busy env) False snap d))))))"

lemma payload_data: "pq_data (snd (payloadForSave env opts st)) = stamped (sr_now env) (pq_data st)"
  by (simp add: payloadForSave_def rememberStablePayload_def Let_def)

lemma record_data: "pq_data (recordHistoryAfterSave p opts b st) = pq_data st"
  by (simp add: recordHistoryAfterSave_def Let_def)

lemma save_data: "\<not> so_trusted opts \<Longrightarrow> pq_data (snd (saveStore env opts st)) = saved_data env (pq_snap st) (pq_data st)"
  by (simp add: saveStore_def Let_def record_data payload_data clean_for_save_def reconcileAtSave_def saved_data_def)

lemma payload_ne: "fst (fst (payloadForSave env opts st)) \<noteq> []"
  by (simp add: payloadForSave_def Let_def json_text_ne)

lemma quiet_save:
  assumes "\<not> so_replace opts" "pq_applying st \<or> so_unload opts"
  shows "same_history st (snd (saveStore env opts st))"
proof -
  define c where "c = clean_for_save env opts st"
  define opts' where "opts' = (if fst c then opts\<lparr>so_force := True\<rparr> else opts)"
  define p where "p = payloadForSave env opts' (snd c)"
  have "same_history st (snd p)"
    unfolding p_def c_def by (rule same_history_trans [OF clean_history payload_history])
  moreover have "\<not> so_replace opts'" "pq_applying (snd p) \<or> so_unload opts'"
    using assms calculation by (auto simp: opts'_def same_history_def)
  ultimately show ?thesis
    unfolding saveStore_def Let_def c_def [symmetric] opts'_def [symmetric] p_def [symmetric]
    by (simp add: quiet_record same_history_def)
qed




lemma flush_history: "same_history st (flushDeferredSaveStore env st)"
proof -
  have "same_history (st\<lparr>pq_timer := False\<rparr>) (snd (saveStore env leaving_save (st\<lparr>pq_timer := False\<rparr>)))"
    by (rule quiet_save) (simp_all add: leaving_save_def forced_save_def plain_save_def)
  then show ?thesis by (simp add: flushDeferredSaveStore_def same_history_def)
qed

text \<open>
  What the page holds after it has restored an entry: the data of the entry in the shape the page needs,
  once more through the clean-up of a save, with new time stamps.
\<close>

definition entry_data :: "surroundings \<Rightarrow> js \<Rightarrow> js" where
  "entry_data env d = saved_data env (Some (tkbJointTakeSnapshot (ensurePlannerShape d))) (ensurePlannerShape d)"

text \<open>
  Data with nothing to clean: they have the shape the page needs, the classes of every joint lesson agree,
  the locked cells are closed, and there are no names to normalize and no entries to drop.
\<close>

definition joint_rows_agree :: "js \<Rightarrow> bool" where
  "joint_rows_agree d \<longleftrightarrow> list_all (\<lambda>row. list_all (\<lambda>i. list_all (\<lambda>j. tkbJointSig (tkbJointPlacements d i (row_low row))
     = tkbJointSig (tkbJointPlacements d j (row_low row))) (members_of d row)) (members_of d row)) (tkbJointGhepRows d)"

definition settled :: "js \<Rightarrow> bool" where
  "settled d \<longleftrightarrow> ensurePlannerShape d = d \<and> joint_rows_agree d \<and> reapplyAllUserOffLocks d = d \<and> snd (sanitizePlannerDataFromIndex d) = d"

lemma reconcile_agreed:
  assumes "joint_rows_agree d"
  shows "fst (fst (tkbJointReconcile busy force snap d)) = d"
proof -
  have row: "reconcile_row m row st = st" if "fst st = d" "row \<in> set (tkbJointGhepRows d)" "members_of d row \<noteq> []" for m row st
  proof -
    have "list_all (\<lambda>i. tkbJointSig (tkbJointPlacements d i (row_low row))
        = tkbJointSig (tkbJointPlacements d (hd (members_of d row)) (row_low row))) (members_of d row)"
      using assms that(2) hd_in_set [OF that(3)] unfolding joint_rows_agree_def list_all_iff by blast
    then show ?thesis unfolding reconcile_row_def Let_def that(1) by (rule if_P)
  qed
  have "fst (fst (fold (reconcile_step m) rows sn)) = d" if "set rows \<subseteq> set (tkbJointGhepRows d)" "fst (fst sn) = d" for m rows sn
    using that by (induction rows arbitrary: sn) (simp_all add: reconcile_step_def Let_def row)
  then show ?thesis by (simp add: tkbJointReconcile_def Let_def)
qed

lemma settled_entry: "settled d \<Longrightarrow> entry_data env d = stamped (sr_now env) d"
  by (simp add: entry_data_def saved_data_def settled_def reconcile_agreed)

lemma travel_result:
  "pq_undo (travel env p st) = pq_undo st" "pq_redo (travel env p st) = pq_redo st" "pq_current (travel env p st) = p"
  "pq_data (travel env p st) = entry_data env (history_data p)" "\<not> pq_applying (travel env p st)"
proof -
  define st1 where "st1 = (restoreHistoryPayload p (st\<lparr>pq_applying := True\<rparr>))\<lparr>pq_current := p\<rparr>"
  have q: "same_history st1 (snd (saveStore env forced_save st1))"
    by (rule quiet_save) (simp_all add: forced_save_def plain_save_def st1_def restoreHistoryPayload_def Let_def)
  have d: "pq_data (snd (saveStore env forced_save st1)) = entry_data env (history_data p)"
    by (subst save_data) (simp_all add: forced_save_def plain_save_def st1_def restoreHistoryPayload_def Let_def entry_data_def)
  show "pq_undo (travel env p st) = pq_undo st" "pq_redo (travel env p st) = pq_redo st" "pq_current (travel env p st) = p"
    "pq_data (travel env p st) = entry_data env (history_data p)" "\<not> pq_applying (travel env p st)"
    using q d by (simp_all add: travel_def Let_def rememberStablePayload_def st1_def [symmetric] same_history_def)
      (simp_all add: st1_def restoreHistoryPayload_def Let_def)
qed

lemma undo_result:
  assumes "pq_undo st \<noteq> []" "pq_current st \<noteq> []"
  shows "fst (tkbUndo env st)" "pq_data (snd (tkbUndo env st)) = entry_data env (history_data (last (pq_undo st)))"
    "pq_undo (snd (tkbUndo env st)) = butlast (pq_undo st)" "pq_current (snd (tkbUndo env st)) = last (pq_undo st)"
    "pq_redo (snd (tkbUndo env st)) = pushHistory (pq_redo st) (pq_current st)"
  using assms flush_history [of st env] by (simp_all add: tkbUndo_def Let_def travel_result same_history_def entry_now_def)

lemma redo_result:
  assumes "pq_redo st \<noteq> []" "pq_current st \<noteq> []"
  shows "fst (tkbRedo env st)" "pq_data (snd (tkbRedo env st)) = entry_data env (history_data (last (pq_redo st)))"
    "pq_redo (snd (tkbRedo env st)) = butlast (pq_redo st)" "pq_current (snd (tkbRedo env st)) = last (pq_redo st)"
    "pq_undo (snd (tkbRedo env st)) = pushHistory (pq_undo st) (pq_current st)"
  using assms flush_history [of st env] by (simp_all add: tkbRedo_def Let_def travel_result same_history_def entry_now_def)

subsection \<open>The invariant of the stacks\<close>

definition history_ok :: "planner \<Rightarrow> bool" where
  "history_ok st \<longleftrightarrow> length (pq_undo st) + length (pq_redo st) \<le> history_limit
     \<and> [] \<notin> set (pq_undo st) \<and> [] \<notin> set (pq_redo st) \<and> pq_current st \<noteq> []
     \<and> distinct_adj (pq_undo st) \<and> distinct_adj (pq_redo st)"

lemma same_history_ok: "same_history st st' \<Longrightarrow> history_ok st' = history_ok st"
  by (simp add: same_history_def history_ok_def)

lemma push_length: "length (pushHistory s p) \<le> Suc (length s)" "length s \<le> history_limit \<Longrightarrow> length (pushHistory s p) \<le> history_limit"
  by (auto simp: pushHistory_def history_limit_def)

lemma push_set: "p \<noteq> [] \<Longrightarrow> [] \<notin> set s \<Longrightarrow> [] \<notin> set (pushHistory s p)"
  by (auto simp: pushHistory_def dest: in_set_dropD)

lemma adj_drop: "distinct_adj s \<Longrightarrow> distinct_adj (drop n s)"
  using distinct_adj_appendD2 [of "take n s" "drop n s"] by simp

lemma adj_butlast: "distinct_adj s \<Longrightarrow> distinct_adj (butlast s)"
  using distinct_adj_appendD1 [of "butlast s" "[last s]"] by (cases "s = []") auto

lemma push_adj: "distinct_adj s \<Longrightarrow> distinct_adj (pushHistory s p)"
  by (auto simp: pushHistory_def distinct_adj_append_iff intro!: adj_drop)

lemma push_fits:
  assumes "length s < history_limit" "p \<noteq> []"
  shows "pushHistory s p = (if s \<noteq> [] \<and> last s = p then s else s @ [p])"
  using assms by (auto simp: pushHistory_def)


lemma record_ok: "history_ok st \<Longrightarrow> p \<noteq> [] \<Longrightarrow> history_ok (recordHistoryAfterSave p opts b st)"
  using push_length(2) [of "pq_undo st" "pq_current st"] push_set [of "pq_current st" "pq_undo st"] push_adj
  by (auto simp: recordHistoryAfterSave_def history_ok_def Let_def)

lemma save_ok:
  assumes "history_ok st"
  shows "history_ok (snd (saveStore env opts st))"
proof -
  define c where "c = clean_for_save env opts st"
  define opts' where "opts' = (if fst c then opts\<lparr>so_force := True\<rparr> else opts)"
  define p where "p = payloadForSave env opts' (snd c)"
  have "same_history st (snd p)"
    unfolding p_def c_def by (rule same_history_trans [OF clean_history payload_history])
  then have ok: "history_ok (snd p)" using assms same_history_ok by blast
  have upd: "history_ok (s\<lparr>pq_saved := a\<rparr>) = history_ok s" "history_ok (s\<lparr>pq_pending := b\<rparr>) = history_ok s"
    "history_ok (s\<lparr>pq_promise := q\<rparr>) = history_ok s" for s a b q
    by (simp_all add: history_ok_def)
  have ne: "fst (fst p) \<noteq> []" unfolding p_def by (rule payload_ne)
  show ?thesis
    unfolding saveStore_def Let_def c_def [symmetric] opts'_def [symmetric] p_def [symmetric]
    using ok ne by (auto simp: upd intro!: record_ok)
qed

lemma travel_ok: "history_ok (st\<lparr>pq_current := p\<rparr>) \<Longrightarrow> history_ok (travel env p st)"
  by (simp add: history_ok_def travel_result)

lemma undo_ok:
  assumes "history_ok st"
  shows "history_ok (snd (tkbUndo env st))"
proof -
  define f where "f = flushDeferredSaveStore env st"
  have f: "history_ok f" using assms flush_history same_history_ok unfolding f_def by blast
  show ?thesis
  proof (cases "pq_undo f = []")
    case False
    then have "last (pq_undo f) \<in> set (pq_undo f)" "set (butlast (pq_undo f)) \<subseteq> set (pq_undo f)" by (auto dest: in_set_butlastD)
    then have "history_ok (f\<lparr>pq_undo := butlast (pq_undo f), pq_redo := pushHistory (pq_redo f) (entry_now f), pq_current := last (pq_undo f)\<rparr>)"
      using f False push_length(1) [of "pq_redo f" "entry_now f"] push_set [of "entry_now f" "pq_redo f"]
        push_adj [of "pq_redo f" "entry_now f"] adj_butlast [of "pq_undo f"]
      by (cases "pq_undo f") (auto simp: history_ok_def entry_now_def)
    then show ?thesis using False by (simp add: tkbUndo_def Let_def f_def [symmetric] travel_ok)
  qed (use f in \<open>simp add: tkbUndo_def Let_def f_def [symmetric]\<close>)
qed

lemma redo_ok:
  assumes "history_ok st"
  shows "history_ok (snd (tkbRedo env st))"
proof -
  define f where "f = flushDeferredSaveStore env st"
  have f: "history_ok f" using assms flush_history same_history_ok unfolding f_def by blast
  show ?thesis
  proof (cases "pq_redo f = []")
    case False
    then have "last (pq_redo f) \<in> set (pq_redo f)" "set (butlast (pq_redo f)) \<subseteq> set (pq_redo f)" by (auto dest: in_set_butlastD)
    then have "history_ok (f\<lparr>pq_redo := butlast (pq_redo f), pq_undo := pushHistory (pq_undo f) (entry_now f), pq_current := last (pq_redo f)\<rparr>)"
      using f False push_length(1) [of "pq_undo f" "entry_now f"] push_set [of "entry_now f" "pq_undo f"]
        push_adj [of "pq_undo f" "entry_now f"] adj_butlast [of "pq_redo f"]
      by (cases "pq_redo f") (auto simp: history_ok_def entry_now_def)
    then show ?thesis using False by (simp add: tkbRedo_def Let_def f_def [symmetric] travel_ok)
  qed (use f in \<open>simp add: tkbRedo_def Let_def f_def [symmetric]\<close>)
qed

lemma adopt_ok: "history_ok (tkbAdoptRemoteData env remote st)"
  by (simp add: tkbAdoptRemoteData_def Let_def history_ok_def json_text_ne split: prod.split)

lemma step_ok: "planner_step st st' \<Longrightarrow> history_ok st \<Longrightarrow> history_ok st'"
proof (induction rule: planner_step.induct)
  case (edited st env d)
  then show ?case by (simp add: saveStoreDeferred_def reconcileAtSave_def Let_def history_ok_def)
next
  case (fired st env)
  have "history_ok (st\<lparr>pq_timer := False\<rparr>)" using fired by (simp add: history_ok_def)
  then show ?case using fired save_ok by (simp add: timer_fires_def)
next
  case (answered st payload ok)
  then show ?case by (simp add: save_answered_def Let_def history_ok_def)
next
  case (flushed st env)
  then show ?case using same_history_ok [OF flush_history] by blast
next
  case (loaded st env)
  then show ?case by (simp add: initialHistorySnapshot_def Let_def history_ok_def rememberStablePayload_def json_text_ne)
next
  case (refreshed st env other before remote)
  then show ?case by (simp add: refresh_answered_def adopt_ok)
next
  case (pinned st d ps sn)
  then show ?case by (simp add: history_ok_def)
qed (auto intro: save_ok undo_ok redo_ok)

text \<open>The page right after loading its data, and what it can come to.\<close>

definition page_start :: "surroundings \<Rightarrow> js \<Rightarrow> planner" where
  "page_start env d = initialHistorySnapshot env
     \<lparr>pq_data = d, pq_undo = [], pq_redo = [], pq_current = [], pq_applying = False, pq_timer = False, pq_saved = [],
      pq_pending = [], pq_promise = False, pq_stable = ([], \<lparr>ss_total = 0, ss_assigned = 0, ss_missing = 0\<rparr>), pq_snap = None, pq_pins = []\<rparr>"

definition page_reached :: "planner \<Rightarrow> bool" where
  "page_reached st \<longleftrightarrow> (\<exists>env d. planner_step\<^sup>*\<^sup>* (page_start env d) st)"

lemma start_ok: "history_ok (page_start env d)"
  by (simp add: page_start_def initialHistorySnapshot_def Let_def history_ok_def rememberStablePayload_def json_text_ne history_limit_def)

lemma reached_ok: "page_reached st \<Longrightarrow> history_ok st"
proof -
  have "planner_step\<^sup>*\<^sup>* a b \<Longrightarrow> history_ok a \<Longrightarrow> history_ok b" for a b
    by (induction rule: rtranclp_induct) (auto intro: step_ok)
  then show "page_reached st \<Longrightarrow> history_ok st" using start_ok unfolding page_reached_def by blast
qed

subsection \<open>A page on which the properties are tried\<close>

definition quiet_env :: surroundings where
  "quiet_env = \<lparr>sr_now = 7, sr_busy = False, sr_running = False,
     sr_stats = (\<lambda>_. \<lparr>ss_total = 0, ss_assigned = 0, ss_missing = 0\<rparr>), sr_school = JStr (u ''demo''),
     sr_store = fresh_page\<lparr>pg_loads := (\<lambda>_. Some LoadEmpty)\<rparr>, sr_accepts = (\<lambda>_. True)\<rparr>"

definition solver_save :: save_options where
  "solver_save = forced_save\<lparr>so_trusted := True\<rparr>"

definition two_entries :: planner where
  "two_entries = snd (saveStore quiet_env solver_save (page_start quiet_env (JObj [])))"

lemma two_entries:
  "pq_undo two_entries = [json_text (JObj [])]" "pq_redo two_entries = []"
  "pq_current two_entries = json_text (stamped 7 (JObj []))" "json_text (stamped 7 (JObj [])) \<noteq> json_text (JObj [])"
  by code_simp+

lemma two_entries_reached: "page_reached two_entries"
  unfolding page_reached_def two_entries_def by (blast intro: planner_step.saved)

lemma history_data_text: "json_ok d \<Longrightarrow> history_data (json_text d) = d"
  by (simp add: history_data_def json_text_ne json_round_trip)

subsection \<open>The properties\<close>

text \<open>
  C38: On every page that can be reached, Redo takes back an Undo when the last Redo entry differs from the
  current one (a save that replaces the current entry can make them equal): both stacks and the current
  entry are as before. The data are those of the current entry once more cleaned; when they are settled
  they are exactly these data with new time stamps.
\<close>

theorem undo_redo:
  assumes "page_reached st" "pq_undo st \<noteq> []" "pq_redo st = [] \<or> last (pq_redo st) \<noteq> pq_current st"
  shows "let st' = snd (tkbRedo env' (snd (tkbUndo env st)))
    in pq_undo st' = pq_undo st \<and> pq_redo st' = pq_redo st \<and> pq_current st' = pq_current st
      \<and> pq_data st' = entry_data env' (history_data (pq_current st))
      \<and> (settled (history_data (pq_current st)) \<longrightarrow> pq_data st' = stamped (sr_now env') (history_data (pq_current st)))"
proof -
  define r where "r = snd (tkbUndo env st)"
  have ok: "history_ok st" by (rule reached_ok [OF assms(1)])
  have cur: "pq_current st \<noteq> []" using ok by (simp add: history_ok_def)
  have len: "length (pq_redo st) < history_limit" "length (butlast (pq_undo st)) < history_limit"
    using ok assms(2) by (auto simp: history_ok_def length_greater_0_conv [symmetric] simp del: length_greater_0_conv)
  have r: "pq_undo r = butlast (pq_undo st)" "pq_redo r = pq_redo st @ [pq_current st]" "pq_current r = last (pq_undo st)"
    using undo_result [OF assms(2) cur, of env] push_fits [OF len(1) cur] assms(3) by (auto simp: r_def)
  have ne: "last (pq_undo st) \<noteq> []" using ok assms(2) by (auto simp: history_ok_def dest: last_in_set)
  have adj: "butlast (pq_undo st) = [] \<or> last (butlast (pq_undo st)) \<noteq> last (pq_undo st)"
    using ok assms(2) distinct_adj_append_iff [of "butlast (pq_undo st)" "[last (pq_undo st)]"] by (auto simp: history_ok_def)
  have "pushHistory (butlast (pq_undo st)) (last (pq_undo st)) = pq_undo st"
    using push_fits [OF len(2) ne] adj assms(2) by auto
  then show ?thesis
    using redo_result [of r env'] r ne settled_entry by (simp add: Let_def r_def [symmetric])
qed

lemma undo_redo_witness:
  "let st' = snd (tkbRedo quiet_env (snd (tkbUndo quiet_env two_entries)))
   in pq_undo st' = pq_undo two_entries \<and> pq_redo st' = pq_redo two_entries \<and> pq_current st' = pq_current two_entries
     \<and> pq_data st' = entry_data quiet_env (history_data (pq_current two_entries))
     \<and> (settled (history_data (pq_current two_entries)) \<longrightarrow> pq_data st' = stamped (sr_now quiet_env) (history_data (pq_current two_entries)))"
  by (rule undo_redo) (simp_all add: two_entries_reached two_entries)





text \<open>C36: An edit that waits for its deferred save is lost to the history.\<close>

theorem undo_drops_edit:
  assumes "pq_undo st \<noteq> []" "pq_current st \<noteq> []" "st' = snd (tkbUndo env' (saveStoreDeferred env (st\<lparr>pq_data := d\<rparr>)))"
  shows "pq_data st' = entry_data env' (history_data (last (pq_undo st))) \<and> pq_undo st' = butlast (pq_undo st)
    \<and> pq_redo st' = pushHistory (pq_redo st) (pq_current st) \<and> pq_current st' = last (pq_undo st)"
  unfolding assms(3) using undo_result [of "saveStoreDeferred env (st\<lparr>pq_data := d\<rparr>)" env'] assms(1,2)
  by (simp add: saveStoreDeferred_def reconcileAtSave_def Let_def)

lemma undo_drops_edit_witness:
  "pq_data (snd (tkbUndo quiet_env (saveStoreDeferred quiet_env (two_entries\<lparr>pq_data := JObj [(u ''lop'', JArr [])]\<rparr>))))
     = entry_data quiet_env (JObj [])"
  using undo_drops_edit [of two_entries _ quiet_env quiet_env "JObj [(u ''lop'', JArr [])]", OF _ _ refl]
  using history_data_text [of "JObj []"] by (simp add: two_entries json_text_ne del: json_text.simps)

end
