(* ===== verification/PmAccept.thy ===== *)
theory PmAccept
  imports PmHistory
begin

section \<open>Timetable page: accepting the timetable of a solver\<close>

text \<open>
  What \<open>pages/phanmon.js\<close> does with a timetable that a solver offers: the answer of the server is accepted
  only when it is complete and better in the order of the button that was pressed, the candidate of the
  browser is checked by the validator of the constraints while it stands in the place of the timetable, and
  clashing lessons are taken out before it is written. The validator is an argument: it may answer any rows,
  fail, or change anything it can reach. Texts of messages, telemetry and drawing are left out. What is
  parsed from JSON shares no parts, so the set of visited objects is not followed.
\<close>

subsection \<open>The timetable put aside\<close>

definition clone_value :: "js \<Rightarrow> js" where
  "clone_value v = (case json_parse (json_text (js_nullor v (JObj []))) of Some w \<Rightarrow> w | None \<Rightarrow> JUndef)"

record schedule_state =
  hs_tkb :: js
  hs_teachers :: js
  hs_rooms :: js
  hs_result :: js
  hs_rust :: js

definition cloneHybridScheduleState :: "js \<Rightarrow> schedule_state" where
  "cloneHybridScheduleState d = \<lparr>hs_tkb = clone_value (jprop d ''tkb''), hs_teachers = clone_value (jprop d ''tkbLessonTeachers''),
     hs_rooms = clone_value (jprop d ''tkbLessonRooms''), hs_result = clone_value (jprop d ''tkbSolverResult''),
     hs_rust = clone_value (jprop d ''tkbRustSolverResult'')\<rparr>"

definition put_or_delete :: "string \<Rightarrow> js \<Rightarrow> js \<Rightarrow> js" where
  "put_or_delete k v d = (if js_truthy v then jput (u k) v d else jdel (u k) d)"

definition restoreHybridScheduleState :: "schedule_state \<Rightarrow> js \<Rightarrow> js" where
  "restoreHybridScheduleState s d =
     (if \<not> js_truthy d then d
      else put_or_delete ''tkbRustSolverResult'' (hs_rust s) (put_or_delete ''tkbSolverResult'' (hs_result s)
        (jput (u ''tkbLessonRooms'') (js_or (hs_rooms s) (JObj []))
        (jput (u ''tkbLessonTeachers'') (js_or (hs_teachers s) (JObj []))
        (jput (u ''tkb'') (js_or (hs_tkb s) (JObj [])) d)))))"

subsection \<open>The answer of the server\<close>

definition hybridCandidateTkbFromResponse :: "js \<Rightarrow> js option" where
  "hybridCandidateTkbFromResponse r =
     find (\<lambda>c. is_object c \<and> \<not> is_array c)
       [jprop r ''candidateTkb'', jprop (jprop r ''candidate'') ''tkb'', jprop (jprop r ''candidate'') ''timetable'',
        jprop (jprop r ''payload'') ''tkb'', jprop r ''tkb'']"

text \<open>Keys in order; then \<open>JSON.stringify\<close>.\<close>

fun sorted_keys :: "js \<Rightarrow> js" where
  "sorted_keys (JArr xs) = JArr (map sorted_keys xs)"
| "sorted_keys (JObj kvs) = JObj (sort_key fst (map (\<lambda>(k, v). (k, sorted_keys v)) kvs))"
| "sorted_keys v = v"

definition hybridStableJson :: "js \<Rightarrow> ustr" where
  "hybridStableJson v = json_text (sorted_keys v)"

definition cell_subject :: "js \<Rightarrow> js" where
  "cell_subject v = js_nullor (jprop v ''mon'') (js_nullor (jprop v ''subject'') (js_nullor (jprop v ''ten'')
     (js_nullor (jprop v ''name'') (JStr []))))"

definition is_off_text :: "ustr \<Rightarrow> bool" where
  "is_off_text s \<longleftrightarrow> toUpperCase (trim s) = u ''OFF''"

fun hybridCandidateScheduledCellCount :: "js \<Rightarrow> nat" where
  "hybridCandidateScheduledCellCount (JStr s) = (if trim s \<noteq> [] \<and> \<not> is_off_text s then 1 else 0)"
| "hybridCandidateScheduledCellCount (JArr xs) = sum_list (map hybridCandidateScheduledCellCount xs)"
| "hybridCandidateScheduledCellCount (JObj kvs) =
     (if trimmed (cell_subject (JObj kvs)) \<noteq> [] then (if is_off_text (js_string (cell_subject (JObj kvs))) then 0 else 1)
      else sum_list (map (\<lambda>(k, v). hybridCandidateScheduledCellCount v) kvs))"
| "hybridCandidateScheduledCellCount _ = 0"

definition hybridNonnegativeMetric :: "js \<Rightarrow> rat option" where
  "hybridNonnegativeMetric v = (case js_number v of Some q \<Rightarrow> if 0 \<le> q then Some q else None | None \<Rightarrow> None)"

record metric_snapshot =
  mx_singletons :: "rat option"
  mx_sessions :: "rat option"
  mx_gap1 :: "rat option"
  mx_gap2 :: "rat option"

definition first_metric :: "rat option list \<Rightarrow> rat option" where
  "first_metric qs = (case find (\<lambda>q. q \<noteq> None) qs of Some q \<Rightarrow> q | None \<Rightarrow> None)"

definition gap2_of_distribution :: "js \<Rightarrow> rat option" where
  "gap2_of_distribution gd =
     (let ps = map (\<lambda>(gap, count). (hybridNonnegativeMetric (JStr gap), hybridNonnegativeMetric count)) (entries gd)
      in if list_ex (\<lambda>(g, c). g = None \<or> c = None) ps \<or> ps = [] then None
         else Some (sum_list (map (\<lambda>(g, c). if 2 \<le> the g then the c else 0) ps)))"

definition hybridMetricSnapshot :: "js \<Rightarrow> metric_snapshot" where
  "hybridMetricSnapshot metrics =
     (let m = (\<lambda>k. hybridNonnegativeMetric (jprop metrics k));
          gd = (if is_object (jprop metrics ''gap_distribution'') then jprop metrics ''gap_distribution'' else JObj [])
      in \<lparr>mx_singletons = first_metric [m ''soBuoiDay1'', m ''one_period_teacher_sessions''],
          mx_sessions = first_metric [m ''tsBuoiDay'', m ''teacher_sessions''],
          mx_gap1 = first_metric [m ''soBuoiTrong1'', m ''teacher_gap1_sessions'', hybridNonnegativeMetric (jprop gd ''1'')],
          mx_gap2 = first_metric [m ''soBuoiTrong2'', m ''teacher_gap2_sessions'', gap2_of_distribution gd]\<rparr>)"

datatype hybrid_mode = OptSingletons | OptSessions | OptGap2 | OptGap1

text \<open>\<open>replace(/[\s-]+/g, "_")\<close>.\<close>

definition mode_text :: "js \<Rightarrow> ustr" where
  "mode_text v = (let s = map (\<lambda>c. if is_space c \<or> c = 45 then 32 else c) (toLowerCase (trimmed v))
     in map (\<lambda>c. if c = 32 then 95 else c) (collapse_ws s))"

definition hybridCanonicalOptimizeMode :: "js \<Rightarrow> hybrid_mode option" where
  "hybridCanonicalOptimizeMode v = map_of [(u ''optimize_singletons'', OptSingletons), (u ''optimize_sessions'', OptSessions),
     (u ''optimize_gap2'', OptGap2), (u ''optimize_gap1'', OptGap1)] (mode_text v)"

fun target_metric :: "hybrid_mode \<Rightarrow> metric_snapshot \<Rightarrow> rat option" where
  "target_metric OptSingletons = mx_singletons"
| "target_metric OptSessions = mx_sessions"
| "target_metric OptGap2 = mx_gap2"
| "target_metric OptGap1 = mx_gap1"

fun guard_metrics :: "hybrid_mode \<Rightarrow> (metric_snapshot \<Rightarrow> rat option) list" where
  "guard_metrics OptSingletons = [mx_sessions, mx_gap2, mx_gap1]"
| "guard_metrics OptSessions = [mx_singletons, mx_gap2, mx_gap1]"
| "guard_metrics OptGap2 = [mx_singletons]"
| "guard_metrics OptGap1 = [mx_singletons, mx_gap2]"

datatype acceptance = NotEnforced | MetricsMissing | NoImprovement | Improves

definition hybridParetoAcceptance :: "js \<Rightarrow> js \<Rightarrow> js \<Rightarrow> acceptance" where
  "hybridParetoAcceptance modeValue incumbent cand =
     (case hybridCanonicalOptimizeMode modeValue of None \<Rightarrow> NotEnforced
      | Some mode \<Rightarrow>
        let a = hybridMetricSnapshot incumbent; b = hybridMetricSnapshot cand; fs = target_metric mode # guard_metrics mode
        in if list_ex (\<lambda>f. f a = None \<or> f b = None) fs then MetricsMissing
           else if the (target_metric mode b) < the (target_metric mode a) \<and> list_all (\<lambda>f. the (f b) \<le> the (f a)) (guard_metrics mode)
           then Improves else NoImprovement)"

datatype cloud_answer =
  CandidateRejected js | CandidateUnchanged js | CandidateNoBetter js | MetricsUnknown | CandidateApplied js acceptance

definition at_least :: "rat option \<Rightarrow> rat option \<Rightarrow> bool" where
  "at_least a b \<longleftrightarrow> (case (a, b) of (Some x, Some y) \<Rightarrow> y \<le> x | _ \<Rightarrow> False)"

definition number_or_0 :: "js \<Rightarrow> rat option" where
  "number_or_0 v = js_number (js_or v (JNum 0))"

definition payload_of_response :: "js \<Rightarrow> js" where
  "payload_of_response r = (if is_object (jprop r ''candidate'') then jprop r ''candidate''
     else if is_object (jprop r ''payload'') then jprop r ''payload'' else r)"

definition object_or_empty :: "js \<Rightarrow> js" where
  "object_or_empty v = (if is_object v then v else JObj [])"

definition hard_valid :: "js \<Rightarrow> js \<Rightarrow> nat \<Rightarrow> bool" where
  "hard_valid r payload cells \<longleftrightarrow>
     (let metrics = object_or_empty (jprop payload ''metrics''); validation = object_or_empty (jprop payload ''validation'');
          expected = number_or_0 (jprop metrics ''expected_periods'')
      in (jprop r ''ok'' = JBool True \<or> jprop payload ''ok'' = JBool True)
         \<and> jprop metrics ''hard_ok'' = JBool True \<and> jprop metrics ''core_hard_ok'' \<noteq> JBool False
         \<and> jprop validation ''hard_ok'' = JBool True
         \<and> expected \<noteq> None \<and> 0 < the expected
         \<and> at_least (number_or_0 (jprop metrics ''scheduled_periods'')) expected
         \<and> number_or_0 (jprop metrics ''unassigned_periods'') = Some 0
         \<and> is_array (jprop payload ''lessons'') \<and> the expected \<le> of_nat (length (array_of (jprop payload ''lessons'')))
         \<and> the expected \<le> of_nat cells)"

definition normalizeHybridCloudRunResult :: "js \<Rightarrow> ustr \<Rightarrow> cloud_answer" where
  "normalizeHybridCloudRunResult r incumbentFingerprint =
     (let payload = payload_of_response r
      in case hybridCandidateTkbFromResponse r of None \<Rightarrow> CandidateRejected payload
         | Some c \<Rightarrow>
           if \<not> hard_valid r payload (hybridCandidateScheduledCellCount c) then CandidateRejected payload
           else if incumbentFingerprint \<noteq> [] \<and> hybridStableJson c = incumbentFingerprint then CandidateUnchanged c
           else case hybridParetoAcceptance (jprop r ''hybridMode'') (jprop r ''hybridIncumbentMetrics'')
                  (object_or_empty (jprop payload ''metrics'')) of
                  NoImprovement \<Rightarrow> CandidateNoBetter c
                | MetricsMissing \<Rightarrow> MetricsUnknown
                | a \<Rightarrow> CandidateApplied c a)"

subsection \<open>The check of the constraints\<close>

definition first_truthy :: "js list \<Rightarrow> js \<Rightarrow> ustr" where
  "first_truthy vs dflt = trim (js_string (foldr js_or vs dflt))"

definition fetHardViolationSignature :: "js \<Rightarrow> ustr" where
  "fetHardViolationSignature item =
     (let kind = first_truthy [jprop item ''kind'', jprop item ''type''] (JStr (u ''ui_hard_validation''))
      in join_with [124] [if kind = [] then u ''ui_hard_validation'' else kind,
           first_truthy [jprop item ''lopId'', jprop item ''classId''] (JStr []), first_truthy [jprop item ''mon'', jprop item ''subject''] (JStr []),
           first_truthy [jprop item ''teacherId'', jprop item ''gv'', jprop item ''teacher''] (JStr [])])"

record comparison =
  cm_ok :: bool
  cm_added :: "js list"
  cm_retained :: nat
  cm_incumbent :: nat

definition count_signatures :: "js list \<Rightarrow> ustr \<Rightarrow> nat" where
  "count_signatures rows = fold (\<lambda>item m. m(fetHardViolationSignature item := Suc (m (fetHardViolationSignature item)))) rows (\<lambda>_. 0)"

fun added_rows :: "js list \<Rightarrow> (ustr \<Rightarrow> nat) \<Rightarrow> js list" where
  "added_rows [] m = []"
| "added_rows (item # rest) m =
     (let key = fetHardViolationSignature item
      in if 0 < m key then added_rows rest (m(key := m key - 1)) else item # added_rows rest m)"

definition compareFetCandidateViolationsToIncumbent :: "js \<Rightarrow> js \<Rightarrow> comparison" where
  "compareFetCandidateViolationsToIncumbent cands baseline =
     (let cand = array_of cands; base = jprop baseline ''violations''
      in if \<not> is_array base then \<lparr>cm_ok = cand = [], cm_added = cand, cm_retained = length cand, cm_incumbent = 0\<rparr>
         else let rows = array_of base in
           if length cand \<le> length rows then \<lparr>cm_ok = True, cm_added = [], cm_retained = length cand, cm_incumbent = length rows\<rparr>
           else let added = added_rows cand (count_signatures rows)
                in \<lparr>cm_ok = added = [] \<or> length cand \<le> length rows, cm_added = added, cm_retained = length cand,
                    cm_incumbent = length rows\<rparr>)"

text \<open>
  The validator is missing, fails, or answers; it gets \<open>DATA\<close> with the candidate and leaves \<open>DATA\<close>.
\<close>

datatype validator_answer = ValidatorFails | ValidatorRows js

datatype inspection = NoValidator | InspectionFailed | Inspected "js list"

definition inspectFetCandidateHardConstraints ::
    "(js \<Rightarrow> validator_answer \<times> js) option \<Rightarrow> js \<Rightarrow> js \<Rightarrow> inspection \<times> js" where
  "inspectFetCandidateHardConstraints validator cand d =
     (case validator of None \<Rightarrow> (NoValidator, d)
      | Some v \<Rightarrow> (let snapshot = cloneHybridScheduleState d; r = v (jput (u ''tkb'') cand d)
           in (case fst r of ValidatorFails \<Rightarrow> InspectionFailed | ValidatorRows rows \<Rightarrow> Inspected (array_of rows),
               restoreHybridScheduleState snapshot (snd r))))"

datatype candidate_verdict = ValidatorMissing | ValidatorError | HardValid | RetainsViolations comparison | TooManyViolations "js list"

definition validateFetCandidateHardConstraints ::
    "(js \<Rightarrow> validator_answer \<times> js) option \<Rightarrow> js \<Rightarrow> bool \<Rightarrow> js \<Rightarrow> js \<Rightarrow> candidate_verdict \<times> js" where
  "validateFetCandidateHardConstraints validator cand allowUnchanged baseline d =
     (case inspectFetCandidateHardConstraints validator cand d of
        (NoValidator, d') \<Rightarrow> (ValidatorMissing, d')
      | (InspectionFailed, d') \<Rightarrow> (ValidatorError, d')
      | (Inspected rows, d') \<Rightarrow>
          (if rows = [] then HardValid
           else if allowUnchanged
           then let c = compareFetCandidateViolationsToIncumbent (JArr rows) baseline
                in if cm_ok c then RetainsViolations c else TooManyViolations (if cm_added c \<noteq> [] then cm_added c else rows)
           else TooManyViolations rows, d'))"

subsection \<open>Taking out lessons that clash\<close>

text \<open>
  Who holds a teacher at a slot; the key of the map, \<open>teacher|day|session|period\<close>, is the pair. \<open>g\<close> is an
  object whose \<open>tkb\<close> is the candidate. \<open>d\<close> is \<open>DATA\<close>.
\<close>

record busy_holder =
  ho_cid :: ustr
  ho_ten :: ustr
  ho_mon :: ustr

type_synonym audit_state = "js \<times> (ustr \<times> slot \<Rightarrow> busy_holder option) \<times> js list"

definition audit_id :: "js \<Rightarrow> ustr" where
  "audit_id l = js_string (js_or (jprop l ''id'') (JStr []))"

definition audit_mon :: "js \<Rightarrow> ustr" where
  "audit_mon cell = (if \<not> js_truthy cell \<or> cell = off_cell then []
     else let m = (if is_object cell then js_string (js_or (jprop cell ''mon'') (JStr []))
                   else hd (split_str dash [] (js_string cell)))
          in if m = u ''OFF'' then [] else m)"

definition audit_teachers :: "js \<Rightarrow> js \<Rightarrow> ustr \<Rightarrow> ustr list" where
  "audit_teachers d l mon =
     (let canon = js_string (js_or (jprop l ''ten2'') (js_or (jprop l ''ten'') (JStr (audit_id l))))
      in filter (\<lambda>t. t \<noteq> []) (map (\<lambda>t. toLowerCase (trim t))
           (split_on (\<lambda>c. c = 44 \<or> c = 59 \<or> c = 43) (pm_getTeacherForClassMon d canon mon))))"

definition holder_clashes :: "js \<Rightarrow> ustr \<Rightarrow> ustr \<Rightarrow> busy_holder \<Rightarrow> bool" where
  "holder_clashes d cid mon h \<longleftrightarrow> ho_cid h \<noteq> cid \<and> \<not> tkbIsJointGhepPair d (JStr mon) cid (JStr (ho_mon h)) (ho_cid h)"

definition audit_clash :: "js \<Rightarrow> ustr \<Rightarrow> ustr \<Rightarrow> ustr list \<Rightarrow> slot \<Rightarrow> (ustr \<times> slot \<Rightarrow> busy_holder option) \<Rightarrow> busy_holder option" where
  "audit_clash d cid mon ts s busy =
     (case find (\<lambda>t. case busy (t, s) of Some h \<Rightarrow> holder_clashes d cid mon h | None \<Rightarrow> False) ts of
        Some t \<Rightarrow> busy (t, s) | None \<Rightarrow> None)"

definition audit_label :: "js \<Rightarrow> ustr" where
  "audit_label l = js_string (js_or (jprop l ''ten'') (JStr (audit_id l)))"

fun removed_lesson :: "js \<Rightarrow> ustr \<Rightarrow> slot \<Rightarrow> busy_holder \<Rightarrow> js" where
  "removed_lesson l mon (thu, buoi, i) h = JObj [(u ''lop'', JStr (audit_label l)), (u ''mon'', JStr mon), (u ''thu'', JStr thu),
     (u ''buoi'', JStr buoi), (u ''tiet'', JNum (int i + 1)), (u ''trungVoi'', JStr (ho_ten h @ dash @ ho_mon h))]"

definition audit_cell :: "js \<Rightarrow> js \<Rightarrow> slot \<Rightarrow> audit_state \<Rightarrow> audit_state" where
  "audit_cell d l s = (\<lambda>(g, busy, removed).
     (let cid = audit_id l; cell = tkb_cell g cid s; mon = audit_mon cell; ts = audit_teachers d l mon
      in if mon = [] then (g, busy, removed)
         else case audit_clash d cid mon ts s busy of
           Some h \<Rightarrow> if jprop cell ''fixed'' = JBool True then (g, busy, removed)
                     else (set_tkb_cell cid s (JStr []) g, busy, removed @ [removed_lesson l mon s h])
         | None \<Rightarrow> (g, fold (\<lambda>t m. m((t, s) := Some \<lparr>ho_cid = cid, ho_ten = audit_label l, ho_mon = mon\<rparr>)) ts busy, removed)))"

definition audit_session :: "js \<Rightarrow> js \<Rightarrow> ustr \<times> ustr \<Rightarrow> audit_state \<Rightarrow> audit_state" where
  "audit_session d l h st = fold (\<lambda>i. audit_cell d l (fst h, snd h, i))
     [0..<length (array_of (session_at (fst st) (audit_id l) (fst h) (snd h)))] st"

definition audit_class :: "js \<Rightarrow> js \<Rightarrow> audit_state \<Rightarrow> audit_state" where
  "audit_class d l st = (if audit_id l = [] then st else fold (audit_session d l) half_days st)"

definition audit_start :: "js \<Rightarrow> audit_state" where
  "audit_start cand = (JObj [(u ''tkb'', cand)], (\<lambda>_. None), [])"

definition audit_run :: "js \<Rightarrow> js \<Rightarrow> audit_state" where
  "audit_run d cand = fold (audit_class d) (rows_of d ''lop'') (audit_start cand)"

definition auditCandidateHardConflicts :: "js \<Rightarrow> js \<Rightarrow> js list \<times> js" where
  "auditCandidateHardConflicts d cand =
     (let (g, busy, removed) = audit_run d cand in (removed, jprop g ''tkb''))"

subsection \<open>Writing it\<close>

definition trusted_apply :: save_options where
  "trusted_apply = forced_save\<lparr>so_trusted := True, so_sync := True\<rparr>"

definition applyValidatedFetCandidate :: "surroundings \<Rightarrow> js \<Rightarrow> planner \<Rightarrow> js list \<times> planner" where
  "applyValidatedFetCandidate env cand st =
     (let r = auditCandidateHardConflicts (pq_data st) cand;
          d = stamped (sr_now env) (jput (u ''tkb'') (snd r) (pq_data st))
      in (fst r, snd (saveStore env trusted_apply (st\<lparr>pq_data := d\<rparr>))))"

end
