(* ===== verification/PmAcceptOk.thy ===== *)
theory PmAcceptOk
  imports PmAccept PmJointOk JsJsonOk
begin

section \<open>Timetable page: what is accepted is sound\<close>

text \<open>
  The comparison of violations is a comparison of their numbers, checking a candidate leaves the timetable
  alone up to results that were missing, and after the audit no two lessons that are not fixed clash.
\<close>

subsection \<open>The comparison of violations\<close>

lemma count_signatures_fold:
  "fold (\<lambda>item m. m(fetHardViolationSignature item := Suc (m (fetHardViolationSignature item)))) rows m k
     = m k + count (mset (map fetHardViolationSignature rows)) k"
  by (induction rows arbitrary: m) auto

lemma count_signatures: "count_signatures rows k = count (mset (map fetHardViolationSignature rows)) k"
  by (simp add: count_signatures_def count_signatures_fold)

lemma added_rows_none: "added_rows items m = [] \<Longrightarrow> count (mset (map fetHardViolationSignature items)) k \<le> m k"
proof (induction items m rule: added_rows.induct)
  case (2 item rest m)
  have pos: "0 < m (fetHardViolationSignature item)" and rest: "added_rows rest (m(fetHardViolationSignature item := m (fetHardViolationSignature item) - 1)) = []"
    using "2.prems" by (auto simp: Let_def split: if_splits)
  show ?case using "2.IH"(1) [OF refl pos rest] pos by (auto split: if_splits)
qed simp

lemma added_rows_fewer:
  assumes "added_rows cand (count_signatures rows) = []"
  shows "length cand \<le> length rows"
proof -
  have "mset (map fetHardViolationSignature cand) \<subseteq># mset (map fetHardViolationSignature rows)"
    using added_rows_none [OF assms] by (simp add: subseteq_mset_def count_signatures)
  then show ?thesis using size_mset_mono by fastforce
qed

text \<open>C17: The comparison of the violations with those of the old timetable compares their numbers only.\<close>

theorem compare_counts:
  "cm_ok (compareFetCandidateViolationsToIncumbent cands baseline)
     \<longleftrightarrow> length (array_of cands) \<le> length (array_of (jprop baseline ''violations''))"
  using added_rows_fewer [of "array_of cands" "array_of (jprop baseline ''violations'')"]
  by (cases "jprop baseline ''violations''") (auto simp: compareFetCandidateViolationsToIncumbent_def Let_def)

subsection \<open>The timetable put aside\<close>

lemma json_ok_field: "json_ok d \<Longrightarrow> jget d k \<noteq> JUndef \<Longrightarrow> json_ok (jget d k)"
  by (cases d) (auto simp: list_all_iff split: option.splits dest!: map_of_SomeD)

lemma clone_field:
  assumes "json_ok d"
  shows "clone_value (jget d k) = (if nullish (jget d k) then JObj [] else jget d k)"
proof -
  have "json_ok (js_nullor (jget d k) (JObj []))"
    using json_ok_field [OF assms, of k] by (cases "jget d k") (auto simp: js_nullor_def)
  then show ?thesis by (simp add: clone_value_def json_round_trip del: json_text.simps) (simp add: js_nullor_def)
qed

definition timetable_tables :: "string set" where
  "timetable_tables = {''tkb'', ''tkbLessonTeachers'', ''tkbLessonRooms''}"

definition solver_results :: "string set" where
  "solver_results = {''tkbSolverResult'', ''tkbRustSolverResult''}"

lemma put_or_delete_get: "is_obj d \<Longrightarrow> jget (put_or_delete k v d) l = (if l = u k then (if js_truthy v then v else JUndef) else jget d l)"
  by (simp add: put_or_delete_def jget_jput jget_jdel)

lemma put_or_delete_obj [simp]: "is_obj (put_or_delete k v d) = is_obj d"
  by (simp add: put_or_delete_def)

lemma schedule_restored:
  assumes "is_obj d"
  shows "jprop (restoreHybridScheduleState s d) ''tkb'' = js_or (hs_tkb s) (JObj [])"
    "jprop (restoreHybridScheduleState s d) ''tkbLessonTeachers'' = js_or (hs_teachers s) (JObj [])"
    "jprop (restoreHybridScheduleState s d) ''tkbLessonRooms'' = js_or (hs_rooms s) (JObj [])"
    "jprop (restoreHybridScheduleState s d) ''tkbSolverResult'' = (if js_truthy (hs_result s) then hs_result s else JUndef)"
    "jprop (restoreHybridScheduleState s d) ''tkbRustSolverResult'' = (if js_truthy (hs_rust s) then hs_rust s else JUndef)"
proof -
  have "js_truthy d" using assms by (cases d) auto
  then show "jprop (restoreHybridScheduleState s d) ''tkb'' = js_or (hs_tkb s) (JObj [])"
    "jprop (restoreHybridScheduleState s d) ''tkbLessonTeachers'' = js_or (hs_teachers s) (JObj [])"
    "jprop (restoreHybridScheduleState s d) ''tkbLessonRooms'' = js_or (hs_rooms s) (JObj [])"
    "jprop (restoreHybridScheduleState s d) ''tkbSolverResult'' = (if js_truthy (hs_result s) then hs_result s else JUndef)"
    "jprop (restoreHybridScheduleState s d) ''tkbRustSolverResult'' = (if js_truthy (hs_rust s) then hs_rust s else JUndef)"
    using assms by (simp_all add: restoreHybridScheduleState_def put_or_delete_get jget_jput)
qed

lemma nullish_not_truthy: "nullish v \<Longrightarrow> \<not> js_truthy v"
  by (cases v) auto

lemma inspect_restores:
  assumes "json_ok d" "is_obj (snd (v (jput (u ''tkb'') cand d)))"
  shows "k \<in> timetable_tables \<Longrightarrow> jprop (snd (inspectFetCandidateHardConstraints (Some v) cand d)) k
      = (if js_truthy (jprop d k) then jprop d k else JObj [])"
    "k \<in> solver_results \<Longrightarrow> jprop (snd (inspectFetCandidateHardConstraints (Some v) cand d)) k
      = (if js_truthy (jprop d k) then jprop d k else if nullish (jprop d k) then JObj [] else JUndef)"
proof -
  define r where "r = snd (v (jput (u ''tkb'') cand d))"
  define s where "s = cloneHybridScheduleState d"
  have eq: "snd (inspectFetCandidateHardConstraints (Some v) cand d) = restoreHybridScheduleState s r"
    by (simp add: inspectFetCandidateHardConstraints_def Let_def r_def s_def)
  have obj: "is_obj r" using assms(2) by (simp add: r_def)
  note fields = schedule_restored [OF obj] s_def cloneHybridScheduleState_def schedule_state.simps clone_field [OF assms(1)]
  show "jprop (snd (inspectFetCandidateHardConstraints (Some v) cand d)) k = (if js_truthy (jprop d k) then jprop d k else JObj [])"
    if k: "k \<in> timetable_tables"
  proof -
    consider "k = ''tkb''" | "k = ''tkbLessonTeachers''" | "k = ''tkbLessonRooms''" using k by (auto simp: timetable_tables_def)
    then show ?thesis
      by cases (simp_all only: eq fields, simp_all add: js_or_def nullish_not_truthy)
  qed
  show "jprop (snd (inspectFetCandidateHardConstraints (Some v) cand d)) k
      = (if js_truthy (jprop d k) then jprop d k else if nullish (jprop d k) then JObj [] else JUndef)"
    if k: "k \<in> solver_results"
  proof -
    consider "k = ''tkbSolverResult''" | "k = ''tkbRustSolverResult''" using k by (auto simp: solver_results_def)
    then show ?thesis
      by cases (simp_all only: eq fields, simp_all add: nullish_not_truthy)
  qed
qed

subsection \<open>The audit\<close>

abbreviation unfixed :: "js \<Rightarrow> bool" where
  "unfixed cell \<equiv> jprop cell ''fixed'' \<noteq> JBool True"

lemma audit_mon_empty [simp]: "audit_mon (JStr []) = []" "audit_mon JUndef = []"
  by (simp_all add: audit_mon_def)

lemma joint_chain:
  assumes "tkbIsJointGhepPair d m1 a h hc" "tkbIsJointGhepPair d m2 b h hc" "a \<noteq> b"
  shows "tkbIsJointGhepPair d m1 a m2 b"
  using assms by (simp add: tkbIsJointGhepPair_def)

lemma joint_sym: "tkbIsJointGhepPair d m1 a m2 b \<Longrightarrow> tkbIsJointGhepPair d m2 b m1 a"
  by (auto simp: tkbIsJointGhepPair_def)

text \<open>
  \<open>seen\<close> are the classes and slots that were looked at. Every unfixed lesson of them is behind the holders of
  its teachers, itself or joint with it, and two of them that share a teacher are joint.
\<close>

definition behind :: "js \<Rightarrow> ustr \<Rightarrow> ustr \<Rightarrow> busy_holder \<Rightarrow> bool" where
  "behind d cid mon h \<longleftrightarrow> ho_cid h = cid \<and> ho_mon h = mon \<or> tkbIsJointGhepPair d (JStr mon) cid (JStr (ho_mon h)) (ho_cid h)"

definition plays :: "js \<Rightarrow> js \<Rightarrow> js \<Rightarrow> slot \<Rightarrow> ustr \<Rightarrow> ustr \<Rightarrow> bool" where
  "plays d g l s mon t \<longleftrightarrow> slot_open g (audit_id l) s \<and> audit_mon (tkb_cell g (audit_id l) s) = mon \<and> mon \<noteq> [] \<and> unfixed (tkb_cell g (audit_id l) s)
     \<and> t \<in> set (audit_teachers d l mon)"

definition audited :: "js \<Rightarrow> (js \<times> slot) set \<Rightarrow> audit_state \<Rightarrow> bool" where
  "audited d seen = (\<lambda>(g, busy, removed).
     (\<forall>l s mon t. (l, s) \<in> seen \<longrightarrow> plays d g l s mon t \<longrightarrow> (\<exists>h. busy (t, s) = Some h \<and> behind d (audit_id l) mon h))
     \<and> (\<forall>l l' s mon mon' t. (l, s) \<in> seen \<longrightarrow> (l', s) \<in> seen \<longrightarrow> audit_id l \<noteq> audit_id l' \<longrightarrow> plays d g l s mon t
          \<longrightarrow> plays d g l' s mon' t \<longrightarrow> tkbIsJointGhepPair d (JStr mon) (audit_id l) (JStr mon') (audit_id l'))
     \<and> (\<forall>t s h. busy (t, s) = Some h \<longrightarrow> (\<exists>l. (l, s) \<in> seen \<and> audit_id l = ho_cid h)))"

lemma auditedD:
  assumes "audited d seen (g, busy, removed)"
  shows "(l, s) \<in> seen \<Longrightarrow> plays d g l s mon t \<Longrightarrow> \<exists>h. busy (t, s) = Some h \<and> behind d (audit_id l) mon h"
    "(l, s) \<in> seen \<Longrightarrow> (l', s) \<in> seen \<Longrightarrow> audit_id l \<noteq> audit_id l' \<Longrightarrow> plays d g l s mon t \<Longrightarrow> plays d g l' s mon' t
      \<Longrightarrow> tkbIsJointGhepPair d (JStr mon) (audit_id l) (JStr mon') (audit_id l')"
    "busy (t, s) = Some h \<Longrightarrow> \<exists>l. (l, s) \<in> seen \<and> audit_id l = ho_cid h"
  using assms unfolding audited_def by blast+

lemma auditedI:
  assumes "\<And>l s mon t. (l, s) \<in> seen \<Longrightarrow> plays d g l s mon t \<Longrightarrow> \<exists>h. busy (t, s) = Some h \<and> behind d (audit_id l) mon h"
    "\<And>l l' s mon mon' t. (l, s) \<in> seen \<Longrightarrow> (l', s) \<in> seen \<Longrightarrow> audit_id l \<noteq> audit_id l' \<Longrightarrow> plays d g l s mon t
      \<Longrightarrow> plays d g l' s mon' t \<Longrightarrow> tkbIsJointGhepPair d (JStr mon) (audit_id l) (JStr mon') (audit_id l')"
    "\<And>t s h. busy (t, s) = Some h \<Longrightarrow> \<exists>l. (l, s) \<in> seen \<and> audit_id l = ho_cid h"
  shows "audited d seen (g, busy, removed)"
  unfolding audited_def prod.case using assms by blast

lemma audited_same:
  assumes a: "audited d seen (g, busy, removed)" and same: "\<And>l s mon t. (l, s) \<in> seen \<Longrightarrow> plays d g' l s mon t = plays d g l s mon t"
  shows "audited d seen (g', busy, removed')"
  by (rule auditedI) (use auditedD [OF a] same in blast)+

text \<open>A place without an unfixed lesson may be added.\<close>

lemma audited_silent:
  assumes "audited d seen (g, busy, removed)" "\<And>mon t. \<not> plays d g l s mon t"
  shows "audited d (insert (l, s) seen) (g, busy, removed)"
  using assms(1) assms(2) unfolding audited_def by blast

lemma plays_other: "audit_id l \<noteq> cid \<or> s \<noteq> s' \<Longrightarrow> plays d (set_tkb_cell cid s' v g) l s mon t = plays d g l s mon t"
  by (auto simp: plays_def)

lemma fold_busy: "fold (\<lambda>t m. m((t, s) := Some h)) ts busy (t', s') = (if t' \<in> set ts \<and> s' = s then Some h else busy (t', s'))"
  by (induction ts arbitrary: busy) auto

lemma no_clash: "audit_clash d cid mon ts s busy = None \<Longrightarrow> t \<in> set ts \<Longrightarrow> busy (t, s) = Some h \<Longrightarrow> \<not> holder_clashes d cid mon h"
  by (auto simp: audit_clash_def find_None_iff find_Some_iff split: option.splits)

lemma plays_unique: "plays d g l s mon t \<Longrightarrow> plays d g l s mon' t' \<Longrightarrow> mon' = mon"
  by (simp add: plays_def)

text \<open>A lesson that clashes with none joins the others.\<close>

lemma audited_joins:
  assumes a: "audited d seen (g, busy, removed)" and new: "\<And>l' . (l', s) \<in> seen \<Longrightarrow> audit_id l' \<noteq> audit_id l"
    and none: "audit_clash d (audit_id l) mon (audit_teachers d l mon) s busy = None"
    and mon: "mon = audit_mon (tkb_cell g (audit_id l) s)" and ten: "ho_cid h0 = audit_id l" "ho_mon h0 = mon"
  shows "audited d (insert (l, s) seen) (g, fold (\<lambda>t m. m((t, s) := Some h0)) (audit_teachers d l mon) busy, removed)"
proof -
  have joint: "tkbIsJointGhepPair d (JStr mon) (audit_id l) (JStr mon') (audit_id l')"
    if "(l', s) \<in> seen" "plays d g l' s mon' t" "t \<in> set (audit_teachers d l mon)" for l' mon' t
  proof -
    note p = that
    obtain h where h: "busy (t, s) = Some h" "behind d (audit_id l') mon' h" using auditedD(1) [OF a p(1,2)] by blast
    obtain k where "(k, s) \<in> seen" "audit_id k = ho_cid h" using auditedD(3) [OF a h(1)] by blast
    then have "ho_cid h \<noteq> audit_id l" using new by metis
    then have "tkbIsJointGhepPair d (JStr mon) (audit_id l) (JStr (ho_mon h)) (ho_cid h)"
      using no_clash [OF none p(3) h(1)] by (simp add: holder_clashes_def)
    then show ?thesis using h(2) joint_chain new [OF p(1)] unfolding behind_def by metis
  qed
  have own: "mon' = mon" "t \<in> set (audit_teachers d l mon)" if "plays d g l s mon' t" for mon' t
    using that by (auto simp: plays_def mon)
  let ?busy = "fold (\<lambda>t m. m((t, s) := Some h0)) (audit_teachers d l mon) busy"
  show ?thesis
  proof (rule auditedI)
    fix l1 s1 mon1 t assume *: "(l1, s1) \<in> insert (l, s) seen" "plays d g l1 s1 mon1 t"
    show "\<exists>h. ?busy (t, s1) = Some h \<and> behind d (audit_id l1) mon1 h"
    proof (cases "t \<in> set (audit_teachers d l mon) \<and> s1 = s")
      case True
      have "behind d (audit_id l1) mon1 h0"
      proof (cases "l1 = l")
        case True
        then show ?thesis using own(1) *(2) \<open>t \<in> _ \<and> s1 = s\<close> ten by (simp add: behind_def)
      next
        case False
        then show ?thesis using joint [THEN joint_sym] * True ten by (simp add: behind_def)
      qed
      then show ?thesis using True by (simp add: fold_busy)
    next
      case False
      then have "(l1, s1) \<in> seen" using * own by auto
      then show ?thesis using auditedD(1) [OF a _ *(2)] False by (auto simp: fold_busy)
    qed
  next
    fix l1 l2 s1 mon1 mon2 t
    assume *: "(l1, s1) \<in> insert (l, s) seen" "(l2, s1) \<in> insert (l, s) seen" "audit_id l1 \<noteq> audit_id l2"
      "plays d g l1 s1 mon1 t" "plays d g l2 s1 mon2 t"
    consider "(l1, s1) = (l, s)" "(l2, s1) \<in> seen" | "(l2, s1) = (l, s)" "(l1, s1) \<in> seen" | "(l1, s1) \<in> seen" "(l2, s1) \<in> seen"
      using *(1-3) by auto
    then show "tkbIsJointGhepPair d (JStr mon1) (audit_id l1) (JStr mon2) (audit_id l2)"
    proof cases
      case 1
      then show ?thesis using own [of mon1 t] joint [of l2 mon2 t] *(4,5) by simp
    next
      case 2
      then show ?thesis using own [of mon2 t] joint [of l1 mon1 t, THEN joint_sym] *(4,5) by simp
    next
      case 3
      then show ?thesis using auditedD(2) [OF a] *(3-5) by blast
    qed
  next
    fix t s1 h assume *: "?busy (t, s1) = Some h"
    show "\<exists>l'. (l', s1) \<in> insert (l, s) seen \<and> audit_id l' = ho_cid h"
    proof (cases "t \<in> set (audit_teachers d l mon) \<and> s1 = s")
      case True
      then show ?thesis using * ten by (simp add: fold_busy) blast
    next
      case False
      then have "busy (t, s1) = Some h" using * by (auto simp: fold_busy)
      then show ?thesis using auditedD(3) [OF a] by blast
    qed
  qed
qed

lemma audit_cell_audited:
  assumes a: "audited d seen st" and new: "\<And>l' . (l', s) \<in> seen \<Longrightarrow> audit_id l' \<noteq> audit_id l"
    and op: "slot_open (fst st) (audit_id l) s"
  shows "audited d (insert (l, s) seen) (audit_cell d l s st)"
proof -
  obtain g busy removed where st: "st = (g, busy, removed)" by (cases st) auto
  define mon where "mon = audit_mon (tkb_cell g (audit_id l) s)"
  define ts where "ts = audit_teachers d l mon"
  have silent: "audited d (insert (l, s) seen) st" if "mon = [] \<or> \<not> unfixed (tkb_cell g (audit_id l) s)"
    unfolding st using that by (intro audited_silent) (use a in \<open>auto simp: st plays_def mon_def\<close>)
  show ?thesis
  proof (cases "mon = []")
    case True
    then show ?thesis using silent by (simp add: audit_cell_def Let_def st mon_def)
  next
    case mon: False
    show ?thesis
    proof (cases "audit_clash d (audit_id l) mon ts s busy")
      case None
      then have "audited d (insert (l, s) seen) (g, fold (\<lambda>t m. m((t, s) := Some h0)) ts busy, removed)"
        if "ho_cid h0 = audit_id l" "ho_mon h0 = mon" for h0
        using audited_joins [OF a [unfolded st] new _ mon_def that] by (simp add: ts_def)
      then show ?thesis using mon None by (simp add: audit_cell_def Let_def st mon_def [symmetric] ts_def [symmetric])
    next
      case (Some h)
      show ?thesis
      proof (cases "unfixed (tkb_cell g (audit_id l) s)")
        case False
        then show ?thesis using silent Some mon by (simp add: audit_cell_def Let_def st mon_def [symmetric] ts_def [symmetric])
      next
        case True
        define g' where "g' = set_tkb_cell (audit_id l) s (JStr []) g"
        have same: "plays d g' l1 s1 m t = plays d g l1 s1 m t" if "(l1, s1) \<in> seen" for l1 s1 m t
          unfolding g'_def using new that by (intro plays_other) auto
        have "audited d seen (g', busy, r)" for r
          by (rule audited_same [OF a [unfolded st] same])
        moreover have "\<not> plays d g' l s m t" for m t
          using op by (simp add: plays_def g'_def st)
        ultimately show ?thesis using Some mon True audited_silent
          by (simp add: audit_cell_def Let_def st mon_def [symmetric] ts_def [symmetric] g'_def [symmetric])
      qed
    qed
  qed
qed

subsection \<open>The whole audit\<close>

lemma audited_silent_set:
  assumes "audited d seen st" "\<And>l s mon t. (l, s) \<in> new \<Longrightarrow> \<not> plays d (fst st) l s mon t"
  shows "audited d (seen \<union> new) st"
proof -
  obtain g busy removed where st: "st = (g, busy, removed)" by (cases st) auto
  have old: "(l, s) \<in> seen" if "(l, s) \<in> seen \<union> new" "plays d g l s mon t" for l s mon t
    using assms(2) [unfolded st fst_conv] that by blast
  show ?thesis unfolding st
    by (rule auditedI) (use auditedD [OF assms(1) [unfolded st]] old in blast)+
qed

lemma audit_cell_effect:
  "tkb_cell (fst (audit_cell d l s st)) i t = tkb_cell (fst st) i t
   \<or> (i, t) = (audit_id l, s) \<and> tkb_cell (fst (audit_cell d l s st)) i t = JStr [] \<and> unfixed (tkb_cell (fst st) i t)
     \<and> audit_mon (tkb_cell (fst st) i t) \<noteq> []
     \<and> (\<exists>h. snd (snd (audit_cell d l s st)) = snd (snd st) @ [removed_lesson l (audit_mon (tkb_cell (fst st) i t)) s h])"
  by (cases st) (auto simp: audit_cell_def Let_def split: option.splits)

lemma audit_cell_open [simp]: "slot_open (fst (audit_cell d l s st)) i t = slot_open (fst st) i t"
  by (cases st) (auto simp: audit_cell_def Let_def split: option.splits)

lemma audit_cell_report: "set (snd (snd st)) \<subseteq> set (snd (snd (audit_cell d l s st)))"
  by (cases st) (auto simp: audit_cell_def Let_def split: option.splits)

lemma fold_cell_other:
  "t \<notin> set ss \<Longrightarrow> tkb_cell (fst (fold (audit_cell d l) ss st)) i t = tkb_cell (fst st) i t"
proof (induction ss arbitrary: st)
  case (Cons s ss)
  then show ?case using audit_cell_effect [of d l s st i t] by auto
qed simp

lemma fold_cell_open: "slot_open (fst (fold (audit_cell d l) ss st)) i t = slot_open (fst st) i t"
  by (induction ss arbitrary: st) auto

lemma fold_cells_audited:
  assumes "audited d seen st" "\<And>s. s \<in> set ss \<Longrightarrow> slot_open (fst st) (audit_id l) s" "distinct ss"
    "\<And>s l'. s \<in> set ss \<Longrightarrow> (l', s) \<in> seen \<Longrightarrow> audit_id l' \<noteq> audit_id l"
  shows "audited d (seen \<union> {l} \<times> set ss) (fold (audit_cell d l) ss st)"
  using assms
proof (induction ss arbitrary: st seen)
  case (Cons s ss)
  have "audited d (insert (l, s) seen) (audit_cell d l s st)"
    by (rule audit_cell_audited [OF Cons.prems(1)]; rule Cons.prems(2,4); simp)
  then have "audited d (insert (l, s) seen \<union> {l} \<times> set ss) (fold (audit_cell d l) ss (audit_cell d l s st))"
  proof (rule Cons.IH)
    show "slot_open (fst (audit_cell d l s st)) (audit_id l) t" if "t \<in> set ss" for t
      using Cons.prems(2) [of t] that by simp
    show "audit_id l' \<noteq> audit_id l" if t: "t \<in> set ss" "(l', t) \<in> insert (l, s) seen" for t l'
    proof -
      have "(l', t) \<in> seen" using t Cons.prems(3) by auto
      then show ?thesis using Cons.prems(4) [of t] t by simp
    qed
  qed (use Cons.prems(3) in simp)
  moreover have "insert (l, s) seen \<union> {l} \<times> set ss = seen \<union> {l} \<times> set (s # ss)" by auto
  ultimately show ?case by (simp del: Un_insert_left)
qed simp

definition slots_of :: "ustr \<times> ustr \<Rightarrow> slot set" where
  "slots_of h = {s. half_of s = h}"

definition cells_of :: "js \<Rightarrow> js \<Rightarrow> ustr \<times> ustr \<Rightarrow> slot list" where
  "cells_of g l h = map (\<lambda>i. (fst h, snd h, i)) [0..<length (array_of (session_at g (audit_id l) (fst h) (snd h)))]"

lemma session_cells: "audit_session d l h st = fold (audit_cell d l) (cells_of (fst st) l h) st"
  by (simp add: audit_session_def cells_of_def fold_map comp_def)

lemma cells_of_open: "s \<in> set (cells_of g l h) \<Longrightarrow> slot_open g (audit_id l) s"
  by (cases "session_at g (audit_id l) (fst h) (snd h)") (auto simp: cells_of_def slot_open_def)

lemma outside_cells:
  assumes "half_of s = h" "s \<notin> set (cells_of g l h)" "slot_open g (audit_id l) s"
  shows "tkb_cell g (audit_id l) s = JUndef"
  using assms by (cases s; cases "session_at g (audit_id l) (fst h) (snd h)") (auto simp: cells_of_def tkb_cell.simps slot_open_def)

lemma session_audited:
  assumes "audited d seen st" "\<And>s l'. half_of s = h \<Longrightarrow> (l', s) \<in> seen \<Longrightarrow> audit_id l' \<noteq> audit_id l"
  shows "audited d (seen \<union> {l} \<times> slots_of h) (audit_session d l h st)"
proof -
  let ?c = "cells_of (fst st) l h"
  have half: "half_of s = h" if "s \<in> set ?c" for s using that by (auto simp: cells_of_def)
  have "audited d (seen \<union> {l} \<times> set ?c) (audit_session d l h st)"
    unfolding session_cells
  proof (rule fold_cells_audited [OF assms(1) cells_of_open])
    show "distinct ?c" by (simp add: cells_of_def distinct_map inj_on_def)
    show "audit_id l' \<noteq> audit_id l" if "s \<in> set ?c" "(l', s) \<in> seen" for s l'
      by (rule assms(2) [OF half that(2)]) (rule that(1))
  qed
  then have "audited d ((seen \<union> {l} \<times> set ?c) \<union> {l} \<times> (slots_of h - set ?c)) (audit_session d l h st)"
    by (rule audited_silent_set) (use outside_cells [of _ h "fst st" l] in \<open>auto simp: session_cells plays_def slots_of_def fold_cell_other fold_cell_open\<close>)
  moreover have "(seen \<union> {l} \<times> set ?c) \<union> {l} \<times> (slots_of h - set ?c) = seen \<union> {l} \<times> slots_of h"
    using half by (auto simp: slots_of_def)
  ultimately show ?thesis by simp
qed

lemma sessions_audited:
  assumes "audited d seen st" "distinct hs" "\<And>s l'. half_of s \<in> set hs \<Longrightarrow> (l', s) \<in> seen \<Longrightarrow> audit_id l' \<noteq> audit_id l"
  shows "audited d (seen \<union> {l} \<times> {s. half_of s \<in> set hs}) (fold (audit_session d l) hs st)"
  using assms
proof (induction hs arbitrary: st seen)
  case (Cons h hs)
  have "audited d (seen \<union> {l} \<times> slots_of h) (audit_session d l h st)"
    by (rule session_audited) (use Cons.prems in auto)
  then have "audited d ((seen \<union> {l} \<times> slots_of h) \<union> {l} \<times> {s. half_of s \<in> set hs}) (fold (audit_session d l) hs (audit_session d l h st))"
    by (rule Cons.IH) (use Cons.prems in \<open>auto simp: slots_of_def\<close>)
  moreover have "(seen \<union> {l} \<times> slots_of h) \<union> {l} \<times> {s. half_of s \<in> set hs} = seen \<union> {l} \<times> {s. half_of s \<in> set (h # hs)}"
    by (auto simp: slots_of_def)
  ultimately show ?case by simp
qed simp

definition class_ids :: "js list \<Rightarrow> ustr list" where
  "class_ids ls = filter (\<lambda>i. i \<noteq> []) (map audit_id ls)"

definition all_places :: "js list \<Rightarrow> (js \<times> slot) set" where
  "all_places ls = {(l, s). l \<in> set ls \<and> audit_id l \<noteq> [] \<and> half_of s \<in> set half_days}"

lemma half_days_distinct: "distinct half_days"
  by (simp add: half_days_def distinct_product days_list_def sessions_list_def)

lemma classes_audited:
  assumes "audited d (all_places ks) st" "distinct (class_ids (ks @ ls))"
  shows "audited d (all_places (ks @ ls)) (fold (audit_class d) ls st)"
  using assms
proof (induction ls arbitrary: st ks)
  case (Cons l ls)
  have "audited d (all_places (ks @ [l])) (audit_class d l st)"
  proof (cases "audit_id l = []")
    case True
    then have "all_places (ks @ [l]) = all_places ks" by (auto simp: all_places_def)
    then show ?thesis using True Cons.prems by (simp add: audit_class_def)
  next
    case False
    have new: "audit_id l' \<noteq> audit_id l" if "(l', s) \<in> all_places ks" for l' s
      using that Cons.prems(2) False unfolding all_places_def class_ids_def by (auto simp: image_iff)
    have "audited d (all_places ks \<union> {l} \<times> {s. half_of s \<in> set half_days}) (fold (audit_session d l) half_days st)"
      by (rule sessions_audited [OF Cons.prems(1) half_days_distinct new])
    moreover have "all_places ks \<union> {l} \<times> {s. half_of s \<in> set half_days} = all_places (ks @ [l])"
      using False by (auto simp: all_places_def)
    ultimately show ?thesis using False by (simp add: audit_class_def)
  qed
  then show ?case using Cons.IH [of "ks @ [l]" "audit_class d l st"] Cons.prems(2) by simp
qed simp

text \<open>What the audit leaves and what it reports.\<close>

definition audit_kept :: "js \<Rightarrow> js \<Rightarrow> audit_state \<Rightarrow> bool" where
  "audit_kept d g0 st \<longleftrightarrow> (\<forall>i s. tkb_cell (fst st) i s = tkb_cell g0 i s
     \<or> tkb_cell (fst st) i s = JStr [] \<and> unfixed (tkb_cell g0 i s) \<and> audit_mon (tkb_cell g0 i s) \<noteq> []
       \<and> (\<exists>l \<in> set (rows_of d ''lop''). \<exists>h. audit_id l = i \<and> removed_lesson l (audit_mon (tkb_cell g0 i s)) s h \<in> set (snd (snd st))))"

lemma cell_kept:
  assumes "audit_kept d g0 st" "l \<in> set (rows_of d ''lop'')"
  shows "audit_kept d g0 (audit_cell d l s st)"
  unfolding audit_kept_def
proof (intro allI)
  fix i t
  let ?st = "audit_cell d l s st"
  note k = assms(1) [unfolded audit_kept_def, rule_format, of i t]
  show "tkb_cell (fst ?st) i t = tkb_cell g0 i t
     \<or> tkb_cell (fst ?st) i t = JStr [] \<and> unfixed (tkb_cell g0 i t) \<and> audit_mon (tkb_cell g0 i t) \<noteq> []
       \<and> (\<exists>l' \<in> set (rows_of d ''lop''). \<exists>h. audit_id l' = i \<and> removed_lesson l' (audit_mon (tkb_cell g0 i t)) t h \<in> set (snd (snd ?st)))"
  proof (cases "tkb_cell (fst ?st) i t = tkb_cell (fst st) i t")
    case True
    then show ?thesis using k audit_cell_report [of st d l s] by (simp only:) blast
  next
    case False
    then have e: "(i, t) = (audit_id l, s)" "tkb_cell (fst ?st) i t = JStr []" "unfixed (tkb_cell (fst st) i t)"
      "audit_mon (tkb_cell (fst st) i t) \<noteq> []"
      "\<exists>h. snd (snd ?st) = snd (snd st) @ [removed_lesson l (audit_mon (tkb_cell (fst st) i t)) s h]"
      using audit_cell_effect [of d l s st i t] by blast+
    have "tkb_cell (fst st) i t = tkb_cell g0 i t" using k e(4) by auto
    moreover obtain h where "snd (snd ?st) = snd (snd st) @ [removed_lesson l (audit_mon (tkb_cell (fst st) i t)) s h]"
      using e(5) by blast
    ultimately have "removed_lesson l (audit_mon (tkb_cell g0 i t)) t h \<in> set (snd (snd ?st))" using e(1) by simp
    then show ?thesis using e \<open>tkb_cell (fst st) i t = tkb_cell g0 i t\<close> assms(2) by (intro disjI2) auto
  qed
qed

lemma fold_keeps: "(\<And>x st. x \<in> set xs \<Longrightarrow> P st \<Longrightarrow> P (f x st)) \<Longrightarrow> P st \<Longrightarrow> P (fold f xs st)"
  by (induction xs arbitrary: st) auto

lemma run_kept: "audit_kept d (JObj [(u ''tkb'', cand)]) (audit_run d cand)"
proof -
  define g0 where "g0 = JObj [(u ''tkb'', cand)]"
  have *: "audit_kept d g0 (audit_class d l st)" if l: "l \<in> set (rows_of d ''lop'')" and k: "audit_kept d g0 st" for l st
  proof -
    have "audit_kept d g0 (audit_session d l h st)" if "audit_kept d g0 st" for h st
      unfolding session_cells by (rule fold_keeps [where P = "audit_kept d g0"]) (use cell_kept l that in blast)+
    then have "audit_kept d g0 (fold (audit_session d l) half_days st)"
      using fold_keeps [where P = "audit_kept d g0" and f = "audit_session d l"] k by blast
    then show ?thesis using k by (simp add: audit_class_def)
  qed
  have "audit_kept d g0 (audit_start cand)" unfolding audit_kept_def audit_start_def g0_def by simp
  then show ?thesis unfolding audit_run_def g0_def [symmetric]
    using fold_keeps [where P = "audit_kept d g0" and f = "audit_class d"] * by blast
qed

lemma tkb_cell_box: "tkb_cell (JObj [(u ''tkb'', jprop g ''tkb'')]) i s = tkb_cell g i s"
  by (cases s) (simp add: tkb_cell.simps session_at_def class_tkb_def)

lemma slot_open_box: "slot_open (JObj [(u ''tkb'', jprop g ''tkb'')]) i s = slot_open g i s"
  by (cases s) (simp add: slot_open_def session_at_def class_tkb_def)

definition boxed :: "js \<Rightarrow> js" where
  "boxed t = JObj [(u ''tkb'', t)]"

text \<open>Two unfixed lessons of one time that share a teacher are one joint lesson.\<close>

definition clash_free_audit :: "js \<Rightarrow> js \<Rightarrow> bool" where
  "clash_free_audit d g \<longleftrightarrow> (\<forall>l l' s mon mon' t. (l, s) \<in> all_places (rows_of d ''lop'') \<longrightarrow> (l', s) \<in> all_places (rows_of d ''lop'')
     \<longrightarrow> audit_id l \<noteq> audit_id l' \<longrightarrow> plays d g l s mon t \<longrightarrow> plays d g l' s mon' t
     \<longrightarrow> tkbIsJointGhepPair d (JStr mon) (audit_id l) (JStr mon') (audit_id l'))"

text \<open>A cell stays, or was an unfixed lesson that is reported.\<close>

definition only_reported :: "js \<Rightarrow> js \<Rightarrow> js \<Rightarrow> js list \<Rightarrow> bool" where
  "only_reported d before after removed \<longleftrightarrow> (\<forall>i s. tkb_cell after i s = tkb_cell before i s
     \<or> tkb_cell after i s = JStr [] \<and> unfixed (tkb_cell before i s)
       \<and> (\<exists>l \<in> set (rows_of d ''lop''). \<exists>h. audit_id l = i \<and> removed_lesson l (audit_mon (tkb_cell before i s)) s h \<in> set removed))"

text \<open>
  C22: When the ids of the classes differ, no two unfixed lessons that the audit leaves at the same time share a
  teacher unless they are one joint lesson; a cell either stays or was an unfixed lesson that is reported.
\<close>

theorem audit_sound:
  assumes "distinct (class_ids (rows_of d ''lop''))"
  shows "let (removed, tkb) = auditCandidateHardConflicts d cand
    in clash_free_audit d (boxed tkb) \<and> only_reported d (boxed cand) (boxed tkb) removed"
proof -
  obtain g busy removed where r: "audit_run d cand = (g, busy, removed)" by (cases "audit_run d cand") auto
  have "audited d (all_places []) (audit_start cand)" by (simp add: audited_def audit_start_def all_places_def)
  then have a: "audited d (all_places (rows_of d ''lop'')) (g, busy, removed)"
    using classes_audited [of d "[]" "audit_start cand" "rows_of d ''lop''"] assms unfolding r [symmetric] audit_run_def by simp
  have box: "plays d (JObj [(u ''tkb'', jprop g ''tkb'')]) l s mon t = plays d g l s mon t" for l s mon t
    by (simp add: plays_def tkb_cell_box slot_open_box)
  show ?thesis
    unfolding auditCandidateHardConflicts_def clash_free_audit_def only_reported_def boxed_def r Let_def prod.case box tkb_cell_box
    using auditedD(2) [OF a] run_kept [of d cand, unfolded audit_kept_def r fst_conv snd_conv] by blast
qed

text \<open>A teacher with two classes at one time: the later lesson goes.\<close>

definition two_classes :: js where
  "two_classes = JObj [(u ''lop'', JArr [JObj [(u ''id'', JStr (u ''a''))], JObj [(u ''id'', JStr (u ''b''))]]),
     (u ''pccmMatrix'', JObj [(u ''a|Toan'', JStr (u ''GV1'')), (u ''b|Toan'', JStr (u ''GV1''))])]"

definition both_at_once :: js where
  "both_at_once = (let day = JObj [(u ''thu2'', JObj [(u ''sang'', JArr [JStr (u ''Toan'')])])] in JObj [(u ''a'', day), (u ''b'', day)])"

lemma audit_sound_witness:
  "let (removed, tkb) = auditCandidateHardConflicts two_classes both_at_once
   in clash_free_audit two_classes (boxed tkb) \<and> only_reported two_classes (boxed both_at_once) (boxed tkb) removed"
  by (rule audit_sound) code_simp

subsection \<open>The answer of the server\<close>

text \<open>A metric that is \<open>null\<close> counts as zero, the best there is, and not as missing.\<close>

lemma null_metrics_accepted:
  "hybridParetoAcceptance (JStr (u ''optimize_gap2''))
     (JObj [(u ''soBuoiDay1'', JNum 3), (u ''soBuoiTrong2'', JNum 5)]) (JObj [(u ''soBuoiDay1'', JNull), (u ''soBuoiTrong2'', JNull)]) = Improves"
  by code_simp

text \<open>Results that are accepted one after another in one mode never lead back.\<close>

lemma improves_trans:
  assumes "hybridParetoAcceptance mode a b = Improves" "hybridParetoAcceptance mode b c = Improves"
  shows "hybridParetoAcceptance mode a c = Improves" "hybridParetoAcceptance mode a a \<noteq> Improves"
proof -
  obtain m where m: "hybridCanonicalOptimizeMode mode = Some m"
    using assms(1) by (cases "hybridCanonicalOptimizeMode mode") (auto simp: hybridParetoAcceptance_def)
  show "hybridParetoAcceptance mode a c = Improves" "hybridParetoAcceptance mode a a \<noteq> Improves"
    using assms by (cases m; auto simp: hybridParetoAcceptance_def Let_def m split: if_splits)+
qed

end
