(* ===== verification/Spec2Isabelle.thy ===== *)
theory Spec2Isabelle
  imports FsProps FeProps FeGateProps FeOptProps FeWorkProps StProps ChProps DgProps AiProps PmJointProps PmOffOk PmHistoryOk PmAcceptOk
begin

text \<open>
  \<^bold>\<open>Verification development of TKBCherry: timetable generators and school data\<close>

  The application plans the week of a school: every class of a school has required periods per subject
  and teacher, some cells are fixed or OFF, and a generator has to give every lesson a cell. Two
  generators written in JavaScript carry that logic: the fast seed generator
  \<open>src/web/pages/tkb-fast-seed.js\<close>, modelled as a whole, and the larger engine
  \<open>src/web/pages/tkb-fet-engine.js\<close>, modelled from the reading of the data to the controllers of the
  optimiser, without most of its single optimisation operators, with the worker that drives it. Around
  them stand the data of the school, one object \<open>DATA\<close> that every page loads, repairs, edits and saves:
  the store with its guard, the school file, the integrity of the data, the joint lessons, and the rules by
  which the timetable page changes them.

  \<^bold>\<open>Common ground.\<close> \<open>JsPrelude\<close>: JavaScript values (\<open>js\<close>), strings as lists of code units (\<open>ustr\<close>),
  property access, truthiness, number conversion, string functions, and the lemmas on lists and
  association lists that the components share. A \<open>Map\<close> and an object with computed keys are
  association lists in insertion order, a \<open>Set\<close> is a set or, where the code iterates over it, a list
  without repetition. Numbers that the code only ever computes from integers are \<open>int\<close> or \<open>nat\<close>, quotients
  and times are rationals. \<open>Date.now()\<close> is the next value of a clock that is an argument.

  \<^bold>\<open>Fast seed generator.\<close>
  \<^item> \<open>FsText\<close>, \<open>FsModel\<close>: keys, names, the seeded 32-bit generator; \<open>buildModel\<close> from the data object.
  \<^item> \<open>FsState\<close>, \<open>FsAttempt\<close>: the state of an attempt (grids, busy tables, counts), placing and
    removing a lesson, \<open>canPlaceAt\<close>, scoring, \<open>moveBlockerAside\<close>, \<open>tryRepairOne\<close>, \<open>buildAttempt\<close> and
    \<open>generate\<close> with the comparison of attempts.
  \<^item> \<open>FsSafe\<close> (the invariant \<open>fs_inv\<close> of the state), \<open>FsRepair\<close> (moves and repairs are undone exactly),
    \<open>FsAccount\<close> (nothing is lost: placed and pending periods add up), \<open>FsBase\<close>, \<open>FsCells\<close> (the base
    timetable of pinned cells), \<open>FsGenerate\<close> (the attempt loop), \<open>FsClaims\<close> (what a sound result says).
  \<^item> \<open>FsProps\<close>: no clash, closed cells, the account of demand, completeness, the session limit, pinned
    cells, the choice of the best attempt, undoing.

  \<^bold>\<open>FET engine: construction.\<close>
  \<^item> \<open>FeText\<close>, \<open>FeData\<close>, \<open>FeGrid\<close>: slots, the generator \<open>FetPRNG\<close>, the look-ups in the data object, the
    engine (\<open>eng\<close>, the fields of \<open>FetTimetableEngine\<close>), placing and removing an activity, conflicts,
    penalties, the journal of moves and its rollback.
  \<^item> \<open>FeInit\<close>, \<open>FeBuild\<close>: the constructor and \<open>init\<close>, \<open>buildActivities\<close>, lesson blocks, ordering.
  \<^item> \<open>FeSwap\<close>: \<open>randomSwap\<close>, which recurses to a fixed depth, and \<open>tryEjectionChain\<close>. \<open>FeSolve\<close>: \<open>solve\<close>.
  \<^item> \<open>FeApply\<close>: writing the timetable into the data object and loading it back.
  \<^item> \<open>FeSafe\<close>, \<open>FeMoves\<close>, \<open>FeSwapOk\<close>: the invariant \<open>good\<close> of a placement, the agreement of the grids with
    it, the locale \<open>undo_log\<close> of a journal with its interpretation on the engine, and that a move is all
    or nothing. \<open>FeInitOk\<close>, \<open>FeDemandOk\<close>, \<open>FeSolveOk\<close>, \<open>FeApplyOk\<close>, \<open>FeLoadOk\<close>: the invariant starts true,
    the demand is covered class by class and subject by subject, \<open>solve\<close> keeps it, cells written are read back, loading is safe for any data.
  \<^item> \<open>FeProps\<close>, \<open>FeDemo\<close>: the properties, and the small school of the witnesses.

  \<^bold>\<open>FET engine: optimisation.\<close>
  \<^item> \<open>FeMetrics\<close>: the measures and their comparisons. \<open>FeGuard\<close>: the integrity gate, the repair of hard
    conflicts, perturbation, vacating, ruin and recreate, the wrapper of the operators. \<open>FeEscape\<close>: the
    five escape operators. \<open>FeOptimize\<close>: \<open>optimize\<close>. \<open>FeOptimizeAll\<close>: \<open>optimizeAll\<close> and
    \<open>optimizeGap2WithBorrow\<close>.
  \<^item> \<open>FeMeasureOk\<close> (better is well founded), \<open>FeGateOk\<close> (what the gate proves of any state), \<open>FeGuardOk\<close>,
    \<open>FeOpsOk\<close>, \<open>FeRepairOk\<close> (operators on consistent states), \<open>FeFrameOk\<close> (what no operator changes, on any
    state), \<open>FeOptimizeOk\<close> (the invariant of the search), \<open>FeOptimizeAllOk\<close> (the controllers).
  \<^item> \<open>FeGateProps\<close>, \<open>FeOptProps\<close>: the properties.

  \<^bold>\<open>FET engine: worker.\<close> \<open>FeWorker\<close>: \<open>src/web/pages/tkb-fet-worker.js\<close>, construction with several seeds,
  the all-in-one run and the message handler; \<open>FeWorkProps\<close>: every request is answered, with what timetable.

  \<^bold>\<open>School store and school file.\<close>
  \<^item> \<open>StStore\<close>: \<open>src/web/shared/storage.js\<close>, requests as a start and an end, the states of a load, the
    save guard, the asynchronous and the synchronous loads, the fallback over related schools, normalization.
    \<open>StOk\<close>: ids, the walk, and the guard over every interleaving of the requests and replies of any number
    of pages (\<open>happens\<close>, \<open>run\<close>), of which opening a school with its fallback is one (\<open>fallback_runs\<close>).
    \<open>StProps\<close>: a school that holds something is never wiped, a failed load blocks saving, and the schedules
    in which the guard fails: schools that were empty when the page was opened, and a synchronous load
    whose body is broken.
  \<^item> \<open>JsJson\<close>, \<open>JsJsonOk\<close>: \<open>JSON.stringify\<close> and \<open>JSON.parse\<close> and their round trip. \<open>ChFile\<close>, \<open>ChProps\<close>:
    \<open>src/web/modules/cherry-file.js\<close>, what is exported can be imported.

  \<^bold>\<open>School data.\<close>
  \<^item> \<open>DaText\<close>: the look-ups of \<open>src/web/app.js\<close>. \<open>DgData\<close>, \<open>DgSync\<close>: \<open>src/web/modules/day-ghep.js\<close>, the rows of
    joint lessons, their identities and their projection into the assignment. \<open>DgOk\<close> (the search for an
    identity ends), \<open>DgKeys\<close> (keys stay apart), \<open>DgProj\<close> (the projection settles), \<open>DgProps\<close>.
  \<^item> \<open>AiSync\<close>: \<open>ensureDataShape\<close>, \<open>syncDerivedDataIntegrity\<close> and the takeover of data in \<open>app.js\<close>. \<open>AiOk\<close>,
    \<open>AiProps\<close>: no reference dangles afterwards and no assignment of an existing class and subject is lost.

  \<^bold>\<open>Timetable page\<close> (\<open>src/web/pages/phanmon.js\<close>).
  \<^item> \<open>PmNames\<close>: classes, subjects (a union-find over the names of the rows), teachers, rooms and the
    clean-up before a save. \<open>PmNamesOk\<close>: two names match exactly when the rows connect them.
  \<^item> \<open>PmCells\<close>, \<open>PmJoint\<close>: cells, conflicts, \<open>tkbJointReconcile\<close>, \<open>tkbJointPinForSolve\<close>, \<open>tkbJointUnpin\<close>.
    \<open>PmJointOk\<close> (what a step may change), \<open>PmAgree\<close> (which class is the truth of a row, and that the others follow it), \<open>PmPinOk\<close> (pins are
    recorded), \<open>PmJointProps\<close>.
  \<^item> \<open>PmOff\<close>, \<open>PmOffOk\<close>: closing and opening cells, and that the lesson is put back exactly when
    its teachers and its room are free.
  \<^item> \<open>PmHistory\<close>: saving, the deferred save, Undo and Redo, data from another tab, and the step relation
    \<open>planner_step\<close> of all of them. \<open>PmHistoryOk\<close>: the invariant \<open>history_ok\<close> of every reachable page;
    Redo takes back Undo, Undo takes back an edit, and the edit that gets lost. Restored data go through
    the clean-up of a save once more; data that are \<open>settled\<close> come back unchanged but for the time stamps.
  \<^item> \<open>PmAccept\<close>: what the page does with the timetable of a solver, the acceptance of a server's answer, the
    check of the constraints, the audit and the writing. \<open>PmAcceptOk\<close>: what the audit leaves is free of
    clashes, the comparison of violations counts only, checking leaves the timetable as it was.

  \<^bold>\<open>Abstract specifications.\<close> A construction is correct when the grids show exactly the placed lessons
  and these form a \<open>good\<close> placement: no two lessons of a period share a class, a teacher or a room, each
  stands on open cells of one half day. An optimisation is correct when it ends in a state that passes the
  gate, has lost no lesson and is no worse in the order of its mode. The operators refine one contract:
  a result together with a state that passes the gate, or nothing and the state of before. Names of
  subjects have the connectedness of the rows as their specification, the JSON printer the parser, the
  store the rule that an empty payload replaces only what is known to be empty.

  \<^bold>\<open>Bounds and fuel.\<close> \<open>randomSwap\<close> descends at most \<open>max_recursion_level\<close> levels, the depth at which the
  code itself stops. The JSON parser has twice the length of its text, the search for an identity one
  candidate more than there are texts to clash with; both are proved to suffice. The chains of the union-find are bounded by the size of its table. The rounds of
  \<open>optimize\<close> are counted down from \<open>max_rounds\<close>, its restarts from the option, the slices of \<open>optimizeAll\<close>
  and the rounds of borrowing from the lists the code iterates over; so every function is total and a
  theorem about a result is a theorem about a result that is reached.

  \<^bold>\<open>Parameters.\<close> The clock; the moments at which the page asks to stop; the behaviour of the operators
  of \<open>op_call\<close>, over which every theorem about \<open>optimize\<close> and its controllers is universally quantified:
  they may throw and may leave any placement and grids; the answers of the server; the statistics of the
  timetable, the confirmation of the user and whether a solver is running; the validator of the constraints; the functions that a school
  file is handed to.

  \<^bold>\<open>Assumptions on the data.\<close> Classes are objects, the options of a generator an object or missing. The entries of a data object are kept in the order
  in which JavaScript enumerates them. Strings that spell numbers are read as decimal rationals.

  \<^bold>\<open>Not modelled.\<close> The remaining optimisation operators of the engine (a parameter, see above), progress
  callbacks and pauses, which read the state and change nothing. Of the timetable page rendering, dialogs,
  drag and drop, the statistics and the automatic repair; of \<open>app.js\<close> its navigation and tables; of the
  joint lessons their page and the exchange with spreadsheets. Caches are transparent and left out. The
  bridge to the external Rust solver (HTTP calls, worker messages and a large user interface), the
  constraint forms, accounts over Firebase, the key-value store of the browser, which the store never
  reaches, spreadsheet and document export through third-party libraries, presets (data), the mail relay
  and the benchmark scripts.
\<close>

end
